(* ===== verification/Prelude.thy ===== *)
theory Prelude
  imports Main
begin

text \<open>
  Shared vocabulary of the development: the collections of simplification
  facts, the result type of operations that can throw, and generic lemmas on
  lists and maps that several components use.
\<close>

named_theorems cpp_string "facts about the std::string operations"
named_theorems pom_simps "facts about the insertion-ordered map"
named_theorems state_defs "unfolding of the components' state operations"

section \<open>Operations that throw\<close>

text \<open>
  A C++ operation that can throw returns \<open>'e + 'a\<close>: \<open>Inl\<close> the exception,
  \<open>Inr\<close> the normal result. Sequencing stops at the first exception.
\<close>

definition and_then :: "'e + 'a \<Rightarrow> ('a \<Rightarrow> 'e + 'b) \<Rightarrow> 'e + 'b" where
  "and_then m f = (case m of Inl e \<Rightarrow> Inl e | Inr a \<Rightarrow> f a)"

lemma and_then_simps [simp]:
  "and_then (Inl e) f = Inl e"
  "and_then (Inr a) f = f a"
  by (simp_all add: and_then_def)

lemma and_then_InrE [elim]:
  assumes "and_then m f = Inr b"
  obtains a where "m = Inr a" "f a = Inr b"
  using assms by (cases m) auto

lemma and_then_Inr_iff: "and_then m f = Inr b \<longleftrightarrow> (\<exists>a. m = Inr a \<and> f a = Inr b)"
  by (cases m) auto

lemma and_then_InlE:
  assumes "and_then m f = Inl e"
  obtains "m = Inl e" | a where "m = Inr a" "f a = Inl e"
  using assms by (cases m) auto

section \<open>Lists\<close>

lemma map_of_filter_neq:
  "map_of (filter (\<lambda>p. fst p \<noteq> k) xs) = (map_of xs)(k := None)"
  by (induction xs) auto

lemma map_of_append_new:
  "k \<notin> fst ` set xs \<Longrightarrow> map_of (xs @ [(k, v)]) = (map_of xs)(k \<mapsto> v)"
proof (induction xs)
  case (Cons x xs)
  then show ?case by (cases x) (auto simp: fun_upd_twist)
qed simp

lemma drop_eq_Cons_nth:
  "drop n xs = x # ys \<Longrightarrow> n < length xs \<and> xs ! n = x \<and> drop (Suc n) xs = ys"
  by (metis Cons_nth_drop_Suc drop_all linorder_not_le list.distinct(1) list.inject)

lemma takeWhile_dropWhile_length:
  "length (takeWhile P xs) + length (dropWhile P xs) = length xs"
  by (metis length_append takeWhile_dropWhile_id)

end
