(* ===== verification/CppString.thy ===== *)
theory CppString
  imports Prelude
begin

text \<open>
  The \<open>std::string\<close> operations the sources use. A string is its list of
  bytes. A search returns \<open>None\<close> for \<open>std::string::npos\<close>. Lengths are
  \<open>std::size_t\<close>: where the sources subtract positions the result wraps modulo
  $2^{64}$, and \<open>substr\<close> clips a count that runs past the end, as the standard says.
\<close>

section \<open>Searching\<close>

primrec find_idx :: "('a \<Rightarrow> bool) \<Rightarrow> 'a list \<Rightarrow> nat option" where
  "find_idx P [] = None"
| "find_idx P (x # xs) = (if P x then Some 0 else map_option Suc (find_idx P xs))"

definition find_from :: "('a \<Rightarrow> bool) \<Rightarrow> 'a list \<Rightarrow> nat \<Rightarrow> nat option" where
  "find_from P s pos = map_option ((+) pos) (find_idx P (drop pos s))"

definition find_last :: "('a \<Rightarrow> bool) \<Rightarrow> 'a list \<Rightarrow> nat option" where
  "find_last P s = map_option (\<lambda>i. length s - Suc i) (find_idx P (rev s))"

text \<open>\<open>find_last_of\<close> and \<open>find_last_not_of\<close> with a position search \<open>s[0..pos]\<close>.\<close>

definition find_last_upto :: "('a \<Rightarrow> bool) \<Rightarrow> 'a list \<Rightarrow> nat \<Rightarrow> nat option" where
  "find_last_upto P s pos = find_last P (take (Suc pos) s)"

definition substr :: "'a list \<Rightarrow> nat \<Rightarrow> nat \<Rightarrow> 'a list" where
  "substr s pos n = take n (drop pos s)"

text \<open>
  Differences of \<open>size_t\<close> positions, which wrap modulo $2^{64}$; both arguments are
  representable. \<open>size_span e b\<close> is \<open>e - b + 1\<close>, the length of \<open>s[b..e]\<close>.
\<close>

definition size_sub :: "nat \<Rightarrow> nat \<Rightarrow> nat" where
  "size_sub a b = (if b \<le> a then a - b else 2 ^ 64 - (b - a))"

definition size_span :: "nat \<Rightarrow> nat \<Rightarrow> nat" where
  "size_span e b = (if b \<le> e + 1 then e + 1 - b else 2 ^ 64 - (b - (e + 1)))"

definition starts_with_at :: "'a list \<Rightarrow> nat \<Rightarrow> 'a list \<Rightarrow> bool" where
  "starts_with_at s pos p \<longleftrightarrow> take (length p) (drop pos s) = p"

lemma find_idx_None [cpp_string]: "find_idx P xs = None \<longleftrightarrow> (\<forall>x \<in> set xs. \<not> P x)"
  by (induction xs) auto

lemma find_idx_takeWhile:
  "find_idx P xs = (if \<exists>x \<in> set xs. P x then Some (length (takeWhile (\<lambda>x. \<not> P x) xs)) else None)"
  by (induction xs) auto

lemma find_idx_Some [cpp_string]:
  "find_idx P xs = Some i \<longleftrightarrow> i < length xs \<and> P (xs ! i) \<and> (\<forall>j < i. \<not> P (xs ! j))"
proof (induction xs arbitrary: i)
  case Nil
  then show ?case by simp
next
  case (Cons x xs)
  show ?case
  proof (cases i)
    case 0
    then show ?thesis by auto
  next
    case (Suc k)
    have "(\<forall>j < Suc k. \<not> P ((x # xs) ! j)) \<longleftrightarrow> \<not> P x \<and> (\<forall>j < k. \<not> P (xs ! j))"
      by (simp add: All_less_Suc2)
    then show ?thesis using Suc Cons.IH[of k] by auto
  qed
qed

lemma find_idx_append:
  "find_idx P (xs @ ys) =
     (case find_idx P xs of Some i \<Rightarrow> Some i | None \<Rightarrow> map_option ((+) (length xs)) (find_idx P ys))"
proof (induction xs)
  case Nil
  then show ?case by (cases "find_idx P ys") simp_all
next
  case (Cons x xs)
  then show ?case
    by (cases "find_idx P ys") (auto simp: option.map_comp comp_def split: option.splits)
qed

lemma find_from_Some [cpp_string]:
  "find_from P s pos = Some i \<longleftrightarrow>
     pos \<le> i \<and> i < length s \<and> P (s ! i) \<and> (\<forall>j. pos \<le> j \<longrightarrow> j < i \<longrightarrow> \<not> P (s ! j))"
proof
  assume "find_from P s pos = Some i"
  then obtain k where k: "find_idx P (drop pos s) = Some k" "i = pos + k"
    by (auto simp: find_from_def)
  have "\<not> P (s ! j)" if "pos \<le> j" "j < i" for j
    using that k by (auto simp: find_idx_Some dest!: spec[of _ "j - pos"])
  then show "pos \<le> i \<and> i < length s \<and> P (s ! i) \<and> (\<forall>j. pos \<le> j \<longrightarrow> j < i \<longrightarrow> \<not> P (s ! j))"
    using k by (auto simp: find_idx_Some)
next
  assume a: "pos \<le> i \<and> i < length s \<and> P (s ! i) \<and> (\<forall>j. pos \<le> j \<longrightarrow> j < i \<longrightarrow> \<not> P (s ! j))"
  then have "find_idx P (drop pos s) = Some (i - pos)"
    by (auto simp: find_idx_Some)
  then show "find_from P s pos = Some i" using a by (simp add: find_from_def)
qed

lemma find_from_None [cpp_string]:
  "find_from P s pos = None \<longleftrightarrow> (\<forall>x \<in> set (drop pos s). \<not> P x)"
  by (simp add: find_from_def find_idx_None)

lemma find_from_bounds:
  "find_from P s pos = Some i \<Longrightarrow> pos \<le> i \<and> i < length s"
  by (simp add: find_from_Some)

lemma find_last_None [cpp_string]: "find_last P s = None \<longleftrightarrow> (\<forall>x \<in> set s. \<not> P x)"
  by (simp add: find_last_def find_idx_None)

lemma find_last_Some:
  assumes "find_last P s = Some i"
  shows "i < length s" "P (s ! i)" "\<And>j. i < j \<Longrightarrow> j < length s \<Longrightarrow> \<not> P (s ! j)"
proof -
  from assms obtain k where k: "find_idx P (rev s) = Some k" "i = length s - Suc k"
    by (auto simp: find_last_def)
  then have kl: "k < length s" by (simp add: find_idx_Some)
  then show "i < length s" using k by simp
  show "P (s ! i)" using k kl by (auto simp: find_idx_Some rev_nth)
  fix j assume j: "i < j" "j < length s"
  then have "length s - Suc j < k" using k kl by auto
  then have "\<not> P (rev s ! (length s - Suc j))" using k by (simp add: find_idx_Some)
  then show "\<not> P (s ! j)" using j by (simp add: rev_nth Suc_diff_Suc)
qed

section \<open>Size arithmetic without wrap-around\<close>

lemma size_sub_le: "b \<le> a \<Longrightarrow> size_sub a b = a - b"
  by (simp add: size_sub_def)

lemma size_span_le: "b \<le> e + 1 \<Longrightarrow> size_span e b = e + 1 - b"
  by (simp add: size_span_def)

lemma size_span_wraps: "e + 1 < b \<Longrightarrow> b < 2 ^ 63 \<Longrightarrow> 2 ^ 63 < size_span e b"
  by (simp add: size_span_def)

lemma substr_all: "length s \<le> pos + n \<Longrightarrow> substr s pos n = drop pos s"
  by (simp add: substr_def)

lemma length_substr_le: "length (substr s pos n) \<le> length s - pos"
  by (simp add: substr_def)

lemma set_substr: "set (substr s pos n) \<subseteq> set s"
  by (metis substr_def order_trans set_drop_subset set_take_subset)

section \<open>Character classes\<close>

text \<open>The C locale's \<open>isdigit\<close>, \<open>isalnum\<close>, \<open>isspace\<close> and \<open>tolower\<close> on bytes.\<close>

definition char_code :: "char \<Rightarrow> nat" where
  "char_code c = of_char c"

definition is_digit :: "char \<Rightarrow> bool" where
  "is_digit c \<longleftrightarrow> 48 \<le> char_code c \<and> char_code c \<le> 57"

definition is_upper :: "char \<Rightarrow> bool" where
  "is_upper c \<longleftrightarrow> 65 \<le> char_code c \<and> char_code c \<le> 90"

definition is_lower :: "char \<Rightarrow> bool" where
  "is_lower c \<longleftrightarrow> 97 \<le> char_code c \<and> char_code c \<le> 122"

definition is_alnum :: "char \<Rightarrow> bool" where
  "is_alnum c \<longleftrightarrow> is_digit c \<or> is_upper c \<or> is_lower c"

definition is_space :: "char \<Rightarrow> bool" where
  "is_space c \<longleftrightarrow> char_code c = 32 \<or> 9 \<le> char_code c \<and> char_code c \<le> 13"

definition to_lower :: "char \<Rightarrow> char" where
  "to_lower c = (if is_upper c then char_of (char_code c + 32) else c)"

section \<open>Decimal numerals\<close>

text \<open>\<open>std::to_string\<close> and \<open>operator<<\<close> on a non-negative integer.\<close>

fun nat_string :: "nat \<Rightarrow> string" where
  "nat_string n = (if n < 10 then [char_of (48 + n)] else nat_string (n div 10) @ [char_of (48 + n mod 10)])"

declare nat_string.simps [simp del]

definition digit_val :: "char \<Rightarrow> nat" where
  "digit_val c = char_code c - 48"

definition digits_val :: "string \<Rightarrow> nat" where
  "digits_val s = foldl (\<lambda>n c. 10 * n + digit_val c) 0 s"

lemma char_code_char_of: "n < 256 \<Longrightarrow> char_code (char_of n) = n"
  by (simp add: char_code_def)

lemma digit_char:
  "d < 10 \<Longrightarrow> digit_val (char_of (48 + d)) = d" "d < 10 \<Longrightarrow> is_digit (char_of (48 + d))"
  by (simp_all add: digit_val_def is_digit_def char_code_char_of)

lemma digits_val_nat_string: "digits_val (nat_string n) = n"
proof (induction n rule: nat_string.induct)
  case (1 n)
  show ?case
  proof (cases "n < 10")
    case False
    with 1 show ?thesis
      by (subst nat_string.simps) (simp add: digits_val_def digit_char)
  qed (subst nat_string.simps, simp add: digits_val_def digit_char)
qed

lemma nat_string_inj: "nat_string m = nat_string n \<longleftrightarrow> m = n"
  by (metis digits_val_nat_string)

lemma nat_string_digits: "c \<in> set (nat_string n) \<Longrightarrow> is_digit c"
proof (induction n rule: nat_string.induct)
  case (1 n)
  show ?case
  proof (cases "n < 10")
    case False
    with 1 show ?thesis by (subst (asm) (2) nat_string.simps) (auto simp: digit_char)
  next
    case True
    with 1 show ?thesis by (subst (asm) (2) nat_string.simps) (auto simp: digit_char)
  qed
qed

lemma nat_string_nonempty: "nat_string n \<noteq> []"
  by (subst nat_string.simps) simp

end
