(* ===== verification/IniParser.thy ===== *)
theory IniParser
  imports CppString
begin

text \<open>
  \<open>IniParser\<close> (libdnf/utils/iniparser.cpp): the one-pass tokenizer of .ini files.
  The stream is the text not yet read and its end-of-file flag, which \<open>getline\<close> sets
  when it meets the end of the text before a delimiter. \<open>ini_step\<close> is one turn of the
  loop of \<open>next()\<close>; \<open>ini_loop\<close> is the loop, with its termination proof.
\<close>

section \<open>State\<close>

datatype ini_error =
    CantOpenFile
  | MissingSectionHeader nat
  | MissingBracket nat
  | EmptySectionName nat
  | TextAfterSection nat
  | IllegalContinuationLine nat
  | MissingKey nat
  | MissingEqual nat

datatype item_type = SECTION | KEY_VAL | COMMENT_LINE | EMPTY_LINE | END_OF_INPUT

record ini =
  is_rest :: string
  is_eof :: bool
  line_number :: nat
  ini_sect :: string
  ini_key :: string
  ini_val :: string
  ini_raw_item :: string
  ini_line :: string
  line_ready :: bool

abbreviation delimiter :: char where
  "delimiter \<equiv> CHR 0x0A"

definition utf8_bom :: string where
  "utf8_bom = [CHR 0xEF, CHR 0xBB, CHR 0xBF]"

text \<open>The constructor: \<open>None\<close> is a stream that could not be opened.\<close>

definition ini_open :: "string option \<Rightarrow> ini_error + ini" where
  "ini_open input =
     (case input of
        None \<Rightarrow> Inl CantOpenFile
      | Some s \<Rightarrow> Inr \<lparr>is_rest = s, is_eof = False, line_number = 0, ini_sect = [], ini_key = [],
                       ini_val = [], ini_raw_item = [], ini_line = [], line_ready = False\<rparr>)"

text \<open>\<open>std::getline(*is, line, DELIMITER); ++line_number; line_ready = true\<close>\<close>

definition fetch_line :: "ini \<Rightarrow> ini" where
  "fetch_line st =
     (case find_idx (\<lambda>c. c = delimiter) (is_rest st) of
        Some i \<Rightarrow> st\<lparr>ini_line := take i (is_rest st), is_rest := drop (Suc i) (is_rest st),
                    line_number := Suc (line_number st), line_ready := True\<rparr>
      | None \<Rightarrow> st\<lparr>ini_line := is_rest st, is_rest := [], is_eof := True,
                  line_number := Suc (line_number st), line_ready := True\<rparr>)"

section \<open>Operations\<close>

definition trim_value :: "ini \<Rightarrow> ini" where
  "trim_value st =
     (let v = (case find_last (\<lambda>c. c \<noteq> delimiter) (ini_val st) of
                 Some e \<Rightarrow> take (e + 1) (ini_val st)
               | None \<Rightarrow> ini_val st);
          v = (if length v > 1 \<and> hd v = last v \<and> (hd v = CHR 0x22 \<or> hd v = CHR 0x27)
               then tl (butlast v) else v)
      in st\<lparr>ini_val := v\<rparr>)"

datatype step_result = Return item_type ini | Continue ini bool | Throw ini_error

definition strip_bom :: "ini \<Rightarrow> ini" where
  "strip_bom st =
     (if line_number st = 1 \<and> take 3 (ini_line st) = utf8_bom
      then st\<lparr>ini_line := drop 3 (ini_line st)\<rparr> else st)"

text \<open>\<open>raw_item = r; if (!is->eof()) raw_item += DELIMITER; line_ready = false\<close>\<close>

definition end_line :: "string \<Rightarrow> ini \<Rightarrow> ini" where
  "end_line r st = st\<lparr>ini_raw_item := (if is_eof st then r else r @ [delimiter]), line_ready := False\<rparr>"

abbreviation blank :: "char \<Rightarrow> bool" where
  "blank c \<equiv> c = CHR '' '' \<or> c = CHR 0x09 \<or> c = CHR 0x0D"

definition npos :: nat where
  "npos = 2 ^ 64 - 1"

text \<open>The scan of the characters after the closing bracket: does it throw?\<close>

function text_after :: "string \<Rightarrow> nat \<Rightarrow> nat \<Rightarrow> bool" where
  "text_after l idx e =
     (if idx < e then
        (let ch = l ! idx in
         if ch = CHR ''#'' \<or> ch = CHR '';'' then False
         else if \<not> blank ch then True
         else text_after l (Suc idx) e)
      else False)"
  by pat_completeness auto
termination by (relation "measure (\<lambda>(l, idx, e). e - idx)") auto

declare text_after.simps [simp del]

definition section_line :: "nat \<Rightarrow> nat \<Rightarrow> ini \<Rightarrow> step_result" where
  "section_line start0 e st =
     (let l = ini_line st; start = start0 + 1 in
      case find_from (\<lambda>c. c = CHR '']'') l start of
        None \<Rightarrow> Throw (MissingBracket (line_number st))
      | Some end_sect_pos \<Rightarrow>
          if end_sect_pos = start then Throw (EmptySectionName (line_number st))
          else if text_after l (end_sect_pos + 1) e then Throw (TextAfterSection (line_number st))
          else Return SECTION
                 (end_line l (st\<lparr>ini_sect := substr l start (size_sub end_sect_pos start)\<rparr>)))"

definition continuation_line :: "nat \<Rightarrow> nat \<Rightarrow> ini \<Rightarrow> step_result" where
  "continuation_line start e st =
     (let l = ini_line st in
      Continue
        (end_line (ini_raw_item st @ l)
          (st\<lparr>ini_val := ini_val st @ delimiter # substr l start (size_span e start)\<rparr>))
        True)"

definition key_line :: "nat \<Rightarrow> nat \<Rightarrow> ini \<Rightarrow> step_result" where
  "key_line start e st =
     (let l = ini_line st in
      if l ! start = CHR ''='' then Throw (MissingKey (line_number st))
      else case find_from (\<lambda>c. c = CHR ''='') l 0 of
        None \<Rightarrow> Throw (MissingEqual (line_number st))
      | Some eql_pos \<Rightarrow>
          (let endkeypos = (case find_last_upto (\<lambda>c. c \<noteq> CHR '' '' \<and> c \<noteq> CHR 0x09) l
                                   (size_sub eql_pos 1) of Some p \<Rightarrow> p | None \<Rightarrow> npos);
               valuepos = find_from (\<lambda>c. c \<noteq> CHR '' '' \<and> c \<noteq> CHR 0x09) l (eql_pos + 1)
           in Continue
                (end_line l
                  (st\<lparr>ini_key := substr l start (size_span endkeypos start),
                      ini_val := (case valuepos of
                                Some vp \<Rightarrow> substr l vp (size_span e vp)
                              | None \<Rightarrow> [])\<rparr>))
                True))"

text \<open>The body of the loop, for a line that is ready; \<open>prev\<close> is \<open>previous_line_with_key_val\<close>.\<close>

definition line_step :: "ini \<Rightarrow> bool \<Rightarrow> step_result" where
  "line_step st prev =
     (let l = ini_line st in
      if l = [] \<or> hd l = CHR ''#'' \<or> hd l = CHR '';'' then
        if prev then Return KEY_VAL (trim_value st)
        else if l = [] then
          if is_eof st then Return END_OF_INPUT st
          else Return EMPTY_LINE (st\<lparr>line_ready := False, ini_raw_item := [delimiter]\<rparr>)
        else Return COMMENT_LINE (end_line l st)
      else
        (case find_from (\<lambda>c. \<not> blank c) l 0 of
           None \<Rightarrow>
             if prev then
               Continue (end_line (ini_raw_item st @ l) (st\<lparr>ini_val := ini_val st @ [delimiter]\<rparr>)) True
             else Return EMPTY_LINE (end_line l st)
         | Some start \<Rightarrow>
             (let e = (case find_last (\<lambda>c. \<not> blank c) l of Some p \<Rightarrow> p | None \<Rightarrow> npos) in
              if prev \<and> (start = 0 \<or> l ! start = CHR ''['') then Return KEY_VAL (trim_value st)
              else if l ! start = CHR ''['' then section_line start e st
              else if ini_sect st = [] then Throw (MissingSectionHeader (line_number st))
              else if start > 0 then
                if \<not> prev then Throw (IllegalContinuationLine (line_number st))
                else continuation_line start e st
              else key_line start e st)))"

definition ini_step :: "ini \<Rightarrow> bool \<Rightarrow> step_result" where
  "ini_step st prev =
     line_step (strip_bom (if line_ready st then st else fetch_line st)) prev"

definition ini_size :: "ini \<Rightarrow> nat" where
  "ini_size st = 2 * (length (is_rest st) + (if is_eof st then 0 else 1)) + (if line_ready st then 1 else 0)"

lemma end_line_simps [simp]:
  "is_rest (end_line r st) = is_rest st" "is_eof (end_line r st) = is_eof st"
  "line_number (end_line r st) = line_number st" "ini_sect (end_line r st) = ini_sect st"
  "ini_key (end_line r st) = ini_key st" "ini_val (end_line r st) = ini_val st"
  "ini_line (end_line r st) = ini_line st" "\<not> line_ready (end_line r st)"
  "ini_raw_item (end_line r st) = r @ (if is_eof st then [] else [delimiter])"
  by (simp_all add: end_line_def)

lemma trim_value_simps [simp]:
  "is_rest (trim_value st) = is_rest st" "is_eof (trim_value st) = is_eof st"
  "line_number (trim_value st) = line_number st" "ini_sect (trim_value st) = ini_sect st"
  "ini_key (trim_value st) = ini_key st" "ini_raw_item (trim_value st) = ini_raw_item st"
  "ini_line (trim_value st) = ini_line st" "line_ready (trim_value st) = line_ready st"
  by (simp_all add: trim_value_def Let_def)

lemma strip_bom_simps [simp]:
  "is_rest (strip_bom st) = is_rest st" "is_eof (strip_bom st) = is_eof st"
  "line_number (strip_bom st) = line_number st" "ini_sect (strip_bom st) = ini_sect st"
  "ini_raw_item (strip_bom st) = ini_raw_item st" "line_ready (strip_bom st) = line_ready st"
  by (simp_all add: strip_bom_def)

lemma fetch_line_simps [simp]:
  "line_ready (fetch_line st)" "line_number (fetch_line st) = Suc (line_number st)"
  "ini_raw_item (fetch_line st) = ini_raw_item st" "ini_sect (fetch_line st) = ini_sect st"
  by (auto simp: fetch_line_def split: option.splits)

text \<open>What a line turns into: each outcome of the body and what it leaves behind.\<close>

definition consumed :: "ini \<Rightarrow> ini \<Rightarrow> bool" where
  "consumed st s \<longleftrightarrow> is_rest s = is_rest st \<and> is_eof s = is_eof st \<and>
     line_number s = line_number st \<and> \<not> line_ready s"

definition kept :: "ini \<Rightarrow> ini \<Rightarrow> bool" where
  "kept st s \<longleftrightarrow> is_rest s = is_rest st \<and> is_eof s = is_eof st \<and>
     line_number s = line_number st \<and> line_ready s = line_ready st \<and> ini_line s = ini_line st \<and>
     ini_raw_item s = ini_raw_item st"

lemma section_line_cases:
  assumes "section_line start e st = r"
  shows "(\<exists>er. r = Throw er) \<or>
     (\<exists>s. r = Return SECTION s \<and> consumed st s \<and>
        ini_raw_item s = ini_line st @ (if is_eof st then [] else [delimiter]))"
  using assms
  by (auto simp: section_line_def Let_def consumed_def split: option.splits if_splits)

lemma key_line_cases:
  assumes "key_line start e st = r"
  shows "(\<exists>er. r = Throw er) \<or>
     (\<exists>s. r = Continue s True \<and> consumed st s \<and>
        ini_raw_item s = ini_line st @ (if is_eof st then [] else [delimiter]))"
  using assms
  by (auto simp: key_line_def Let_def consumed_def split: option.splits if_splits)

lemma continuation_line_simp:
  "\<exists>s. continuation_line start e st = Continue s True \<and> consumed st s \<and>
     ini_raw_item s = ini_raw_item st @ ini_line st @ (if is_eof st then [] else [delimiter])"
  by (auto simp: continuation_line_def Let_def consumed_def)

text \<open>The eleven outcomes of the body, as a case rule.\<close>

lemma line_step_split:
  assumes "prev \<Longrightarrow> P (Return KEY_VAL (trim_value st))"
    and "\<not> prev \<Longrightarrow> ini_line st = [] \<Longrightarrow> is_eof st \<Longrightarrow> P (Return END_OF_INPUT st)"
    and "\<not> prev \<Longrightarrow> ini_line st = [] \<Longrightarrow> \<not> is_eof st \<Longrightarrow>
           P (Return EMPTY_LINE (st\<lparr>line_ready := False, ini_raw_item := [delimiter]\<rparr>))"
    and "\<not> prev \<Longrightarrow> P (Return COMMENT_LINE (end_line (ini_line st) st))"
    and "prev \<Longrightarrow> P (Continue (end_line (ini_raw_item st @ ini_line st) (st\<lparr>ini_val := ini_val st @ [delimiter]\<rparr>)) True)"
    and "\<not> prev \<Longrightarrow> P (Return EMPTY_LINE (end_line (ini_line st) st))"
    and "\<And>start e. \<not> prev \<Longrightarrow> P (section_line start e st)"
    and "P (Throw (MissingSectionHeader (line_number st)))"
    and "P (Throw (IllegalContinuationLine (line_number st)))"
    and "\<And>start e. prev \<Longrightarrow> ini_sect st \<noteq> [] \<Longrightarrow> P (continuation_line start e st)"
    and "\<And>e. \<not> prev \<Longrightarrow> ini_sect st \<noteq> [] \<Longrightarrow> ini_line st \<noteq> [] \<Longrightarrow> \<not> blank (hd (ini_line st)) \<Longrightarrow>
           hd (ini_line st) \<noteq> CHR ''#'' \<Longrightarrow> hd (ini_line st) \<noteq> CHR '';'' \<Longrightarrow> P (key_line 0 e st)"
  shows "P (line_step st prev)"
proof (cases "ini_line st = [] \<or> hd (ini_line st) = CHR ''#'' \<or> hd (ini_line st) = CHR '';''")
  case True
  then show ?thesis using assms(1-4) by (auto simp: line_step_def Let_def)
next
  case False
  show ?thesis
  proof (cases "find_from (\<lambda>c. \<not> blank c) (ini_line st) 0")
    case None
    with False show ?thesis using assms(5,6) by (simp add: line_step_def Let_def)
  next
    case (Some start)
    then have "start = 0 \<Longrightarrow> \<not> blank (hd (ini_line st))"
      using False by (auto simp: find_from_Some hd_conv_nth)
    with Some False assms(1,7-11) show ?thesis
      by (cases "start = 0") (simp_all add: line_step_def Let_def)
  qed
qed

lemma line_step_Continue:
  assumes "line_step st prev = Continue s p"
  shows "p \<and> consumed st s \<and>
     ini_raw_item s = (if prev then ini_raw_item st else []) @ ini_line st @ (if is_eof st then [] else [delimiter])"
proof -
  define P where "P r \<longleftrightarrow> (\<forall>s p. r = Continue s p \<longrightarrow> p \<and> consumed st s \<and>
     ini_raw_item s = (if prev then ini_raw_item st else []) @ ini_line st @ (if is_eof st then [] else [delimiter]))"
    for r
  have "P (line_step st prev)"
  proof (rule line_step_split)
    fix start e assume "\<not> prev"
    then show "P (section_line start e st)"
      using section_line_cases [OF refl, of start e st] by (auto simp: P_def)
  next
    fix start e assume "prev"
    then show "P (continuation_line start e st)"
      using continuation_line_simp [of start e st] by (auto simp: P_def)
  next
    fix e assume "\<not> prev"
    then show "P (key_line 0 e st)"
      using key_line_cases [OF refl, of 0 e st] by (auto simp: P_def)
  qed (auto simp: P_def consumed_def)
  with assms show ?thesis by (simp add: P_def)
qed

lemma line_step_Return:
  assumes "line_step st prev = Return t s"
  shows "(t = KEY_VAL \<and> prev \<and> kept st s) \<or>
     (t = END_OF_INPUT \<and> \<not> prev \<and> s = st \<and> ini_line st = [] \<and> is_eof st) \<or>
     (t \<in> {SECTION, COMMENT_LINE, EMPTY_LINE} \<and> \<not> prev \<and> consumed st s \<and>
        ini_raw_item s = ini_line st @ (if is_eof st then [] else [delimiter]))"
proof -
  define P where "P r \<longleftrightarrow> (\<forall>t s. r = Return t s \<longrightarrow> (t = KEY_VAL \<and> prev \<and> kept st s) \<or>
     (t = END_OF_INPUT \<and> \<not> prev \<and> s = st \<and> ini_line st = [] \<and> is_eof st) \<or>
     (t \<in> {SECTION, COMMENT_LINE, EMPTY_LINE} \<and> \<not> prev \<and> consumed st s \<and>
        ini_raw_item s = ini_line st @ (if is_eof st then [] else [delimiter])))" for r
  have "P (line_step st prev)"
  proof (rule line_step_split)
    fix start e assume "\<not> prev"
    then show "P (section_line start e st)"
      using section_line_cases [OF refl, of start e st] by (auto simp: P_def)
  next
    fix start e assume "prev"
    then show "P (continuation_line start e st)"
      using continuation_line_simp [of start e st] by (auto simp: P_def)
  next
    fix e assume "\<not> prev"
    then show "P (key_line 0 e st)"
      using key_line_cases [OF refl, of 0 e st] by (auto simp: P_def)
  qed (auto simp: P_def consumed_def kept_def)
  with assms show ?thesis by (simp add: P_def)
qed

section \<open>The loop\<close>

lemma ini_size_fetch:
  "\<not> line_ready st \<Longrightarrow> \<not> is_eof st \<Longrightarrow> ini_size (fetch_line st) < ini_size st"
  by (auto simp: ini_size_def fetch_line_def find_idx_Some split: option.splits)

lemma ini_size_strip_bom [simp]: "ini_size (strip_bom st) = ini_size st"
  by (simp add: ini_size_def)

lemma ini_step_shrinks:
  assumes "line_ready st \<or> \<not> is_eof st"
  shows "ini_step st prev = Continue s p \<Longrightarrow> ini_size s < ini_size st"
    and "ini_step st prev = Return t s \<Longrightarrow> t \<noteq> END_OF_INPUT \<Longrightarrow> t \<noteq> KEY_VAL \<Longrightarrow> ini_size s < ini_size st"
    and "ini_step st prev = Return t s \<Longrightarrow> ini_size s \<le> ini_size st"
proof -
  define st' where "st' = strip_bom (if line_ready st then st else fetch_line st)"
  have r: "line_ready st'" by (simp add: st'_def)
  have le: "ini_size st' \<le> ini_size st"
    using ini_size_fetch [of st] assms by (auto simp: st'_def)
  have dec: "ini_size s < ini_size st" if "consumed st' s"
  proof -
    have "ini_size s < ini_size st'" using that r by (simp add: consumed_def ini_size_def)
    with le show ?thesis by simp
  qed
  show "ini_step st prev = Continue s p \<Longrightarrow> ini_size s < ini_size st"
    using dec line_step_Continue [of st' prev s p] by (simp add: ini_step_def st'_def)
  show "ini_step st prev = Return t s \<Longrightarrow> t \<noteq> END_OF_INPUT \<Longrightarrow> t \<noteq> KEY_VAL \<Longrightarrow> ini_size s < ini_size st"
    using dec line_step_Return [of st' prev t s] by (auto simp: ini_step_def st'_def)
  show "ini_step st prev = Return t s \<Longrightarrow> ini_size s \<le> ini_size st"
    using dec le line_step_Return [of st' prev t s] by (auto simp: ini_step_def st'_def kept_def ini_size_def)
qed

function ini_loop :: "ini \<Rightarrow> bool \<Rightarrow> ini_error + item_type \<times> ini" where
  "ini_loop st prev =
     (if line_ready st \<or> \<not> is_eof st then
        (case ini_step st prev of
           Return t s \<Rightarrow> Inr (t, s)
         | Continue s p \<Rightarrow> ini_loop s p
         | Throw e \<Rightarrow> Inl e)
      else Inr (if prev then KEY_VAL else END_OF_INPUT, trim_value st))"
  by pat_completeness auto
termination
  by (relation "measure (\<lambda>(st, prev). ini_size st)") (auto intro: ini_step_shrinks(1))

declare ini_loop.simps [simp del]

definition ini_next :: "ini \<Rightarrow> ini_error + item_type \<times> ini" where
  "ini_next st = ini_loop (st\<lparr>ini_raw_item := []\<rparr>) False"

lemma ini_loop_shrinks:
  "ini_loop st prev = Inr (t, s) \<Longrightarrow>
     ini_size s \<le> ini_size st \<and> (t \<noteq> END_OF_INPUT \<longrightarrow> \<not> prev \<longrightarrow> ini_size s < ini_size st)"
proof (induction st prev rule: ini_loop.induct)
  case (1 st prev)
  show ?case
  proof (cases "line_ready st \<or> \<not> is_eof st")
    case run: True
    show ?thesis
    proof (cases "ini_step st prev")
      case (Return t' s')
      then have eq: "t' = t" "s' = s" using "1.prems" run by (simp_all add: ini_loop.simps [of st prev])
      have "prev" if "t = KEY_VAL"
        using Return that eq line_step_Return [of _ prev t s] by (fastforce simp: ini_step_def)
      then show ?thesis
        using ini_step_shrinks(2,3) [OF run, of prev t s] Return eq by auto
    next
      case (Continue s' p)
      then have "ini_loop s' p = Inr (t, s)" using "1.prems" run by (simp add: ini_loop.simps [of st prev])
      with "1.IH" [OF run Continue] ini_step_shrinks(1) [OF run Continue] show ?thesis by simp
    next
      case (Throw e)
      then show ?thesis using "1.prems" run by (simp add: ini_loop.simps [of st prev])
    qed
  next
    case False
    then show ?thesis using "1.prems"
      by (auto simp: ini_loop.simps [of st prev] ini_size_def split: if_splits)
  qed
qed

lemma ini_next_shrinks:
  "ini_next st = Inr (t, s) \<Longrightarrow> t \<noteq> END_OF_INPUT \<Longrightarrow> ini_size s < ini_size st"
  using ini_loop_shrinks [of "st\<lparr>ini_raw_item := []\<rparr>" False t s]
  by (simp add: ini_next_def ini_size_def)

text \<open>
  A client's loop over \<open>next()\<close>: the items up to the end of the input, each with the
  parser's state (section, key, value, raw text) when it was returned, and the exception that
  ended it, if any.
\<close>

function ini_tokens :: "ini \<Rightarrow> (item_type \<times> ini) list \<times> ini_error option" where
  "ini_tokens st =
     (case ini_next st of
        Inl e \<Rightarrow> ([], Some e)
      | Inr (t, s) \<Rightarrow>
          if t = END_OF_INPUT then ([], None)
          else (case ini_tokens s of (ts, e) \<Rightarrow> ((t, s) # ts, e)))"
  by pat_completeness auto
termination
  by (relation "measure ini_size") (auto intro: ini_next_shrinks)

declare ini_tokens.simps [simp del]

section \<open>No byte is lost\<close>

text \<open>The text the parser has not yet handed out; a byte order mark at its start is dropped.\<close>

definition unbom :: "string \<Rightarrow> string" where
  "unbom t = (if take 3 t = utf8_bom then drop 3 t else t)"

definition pending :: "ini \<Rightarrow> string" where
  "pending st =
     (if line_ready st then ini_line st @ (if is_eof st then [] else [delimiter]) else []) @ is_rest st"

definition text_left :: "ini \<Rightarrow> string" where
  "text_left st =
     (if line_number st = (if line_ready st then 1 else 0) then unbom (pending st) else pending st)"

definition ini_ok :: "ini \<Rightarrow> bool \<Rightarrow> bool" where
  "ini_ok st prev \<longleftrightarrow> (is_eof st \<longrightarrow> is_rest st = []) \<and>
     (prev \<longrightarrow> (if line_ready st then 2 else 1) \<le> line_number st) \<and>
     (line_ready st \<longrightarrow> 1 \<le> line_number st) \<and> (\<not> prev \<longrightarrow> ini_raw_item st = [])"

lemma pending_fetch: "\<not> line_ready st \<Longrightarrow> \<not> is_eof st \<Longrightarrow> pending (fetch_line st) = is_rest st"
proof (cases "find_idx (\<lambda>c. c = delimiter) (is_rest st)")
  case (Some i)
  then have i: "i < length (is_rest st)" "is_rest st ! i = delimiter" by (simp_all add: find_idx_Some)
  then have "take i (is_rest st) @ delimiter # drop (Suc i) (is_rest st) = is_rest st"
    using id_take_nth_drop [OF i(1)] by (simp del: append_take_drop_id)
  moreover assume "\<not> is_eof st"
  ultimately show ?thesis using Some by (simp add: pending_def fetch_line_def)
qed (simp add: pending_def fetch_line_def)

lemma unbom_line:
  assumes "x = [] \<or> (\<exists>y. x = delimiter # y)"
  shows "unbom (l @ x) = (if take 3 l = utf8_bom then drop 3 l else l) @ x"
proof (cases "3 \<le> length l")
  case False
  then have "take 3 l \<noteq> utf8_bom" by (auto simp: utf8_bom_def dest: arg_cong [where f = length])
  moreover have "take 3 (l @ x) \<noteq> utf8_bom"
    using False assms by (cases l; cases "tl l"; cases "tl (tl l)") (auto simp: utf8_bom_def)
  ultimately show ?thesis by (simp add: unbom_def)
qed (simp add: unbom_def)

text \<open>The line the body works on: the mark stripped from the first one.\<close>

definition current :: "ini \<Rightarrow> ini" where
  "current st = strip_bom (if line_ready st then st else fetch_line st)"

lemma pending_strip:
  assumes "line_ready st" "is_eof st \<longrightarrow> is_rest st = []"
  shows "pending (strip_bom st) = (if line_number st = 1 then unbom (pending st) else pending st)"
proof -
  define x where "x = (if is_eof st then [] else [delimiter]) @ is_rest st"
  have "x = [] \<or> (\<exists>y. x = delimiter # y)" using assms by (auto simp: x_def)
  from unbom_line [OF this, of "ini_line st"] show ?thesis
    using assms by (auto simp: pending_def strip_bom_def x_def split: if_splits)
qed

lemma current_facts:
  assumes ok: "ini_ok st prev" and run: "line_ready st \<or> \<not> is_eof st"
  shows "line_ready (current st)" "1 \<le> line_number (current st)"
    "prev \<Longrightarrow> 2 \<le> line_number (current st)" "is_eof (current st) \<longrightarrow> is_rest (current st) = []"
    "ini_raw_item (current st) = ini_raw_item st" "pending (current st) = text_left st"
    "ini_sect (current st) = ini_sect st"
proof -
  have rest: "is_eof (fetch_line st) \<longrightarrow> is_rest (fetch_line st) = []" if "\<not> line_ready st"
    using that run ok by (auto simp: fetch_line_def ini_ok_def split: option.splits)
  show "line_ready (current st)" "1 \<le> line_number (current st)" "ini_raw_item (current st) = ini_raw_item st"
    "ini_sect (current st) = ini_sect st"
    using ok by (auto simp: current_def ini_ok_def)
  show "prev \<Longrightarrow> 2 \<le> line_number (current st)" using ok by (auto simp: current_def ini_ok_def)
  show "is_eof (current st) \<longrightarrow> is_rest (current st) = []"
    using ok rest by (auto simp: current_def ini_ok_def)
  show "pending (current st) = text_left st"
  proof (cases "line_ready st")
    case True
    then show ?thesis using ok by (simp add: current_def pending_strip text_left_def ini_ok_def)
  next
    case False
    with run rest show ?thesis
      by (auto simp: current_def pending_strip pending_fetch text_left_def)
        (simp_all add: pending_def)
  qed
qed

lemma ini_step_current: "ini_step st prev = line_step (current st) prev"
  by (simp add: ini_step_def current_def)

lemma text_after_consumed:
  assumes "consumed c s" "1 \<le> line_number c" "line_ready c"
  shows "ini_line c @ (if is_eof c then [] else [delimiter]) @ text_left s = pending c"
  using assms by (simp add: consumed_def text_left_def pending_def)

lemma ini_step_Continue_text:
  assumes ok: "ini_ok st prev" and run: "line_ready st \<or> \<not> is_eof st"
    and step: "ini_step st prev = Continue s p"
  shows "p \<and> ini_ok s p \<and> ini_raw_item s @ text_left s = ini_raw_item st @ text_left st"
proof -
  note cur = current_facts [OF ok run]
  from step have c: "p \<and> consumed (current st) s \<and> ini_raw_item s =
      (if prev then ini_raw_item (current st) else []) @ ini_line (current st) @
        (if is_eof (current st) then [] else [delimiter])"
    unfolding ini_step_current by (rule line_step_Continue)
  moreover have "ini_ok s p"
    using c cur by (auto simp: ini_ok_def consumed_def)
  moreover have "ini_raw_item st = (if prev then ini_raw_item (current st) else [])"
    using cur ok by (simp add: ini_ok_def)
  ultimately show ?thesis
    using text_after_consumed [of "current st" s] cur by auto
qed

lemma ini_step_Return_text:
  assumes ok: "ini_ok st prev" and run: "line_ready st \<or> \<not> is_eof st"
    and step: "ini_step st prev = Return t s"
  shows "ini_ok (s\<lparr>ini_raw_item := []\<rparr>) False \<and>
    (if t = END_OF_INPUT then ini_raw_item st = [] \<and> text_left st = []
     else ini_raw_item s @ text_left s = ini_raw_item st @ text_left st)"
proof -
  note cur = current_facts [OF ok run]
  from step have r: "line_step (current st) prev = Return t s" by (simp add: ini_step_current)
  consider (kv) "t = KEY_VAL" "prev" "kept (current st) s"
    | (fin) "t = END_OF_INPUT" "\<not> prev" "s = current st" "ini_line (current st) = []" "is_eof (current st)"
    | (item) "t \<in> {SECTION, COMMENT_LINE, EMPTY_LINE}" "\<not> prev" "consumed (current st) s"
       "ini_raw_item s = ini_line (current st) @ (if is_eof (current st) then [] else [delimiter])"
    using line_step_Return [OF r] by blast
  then show ?thesis
  proof cases
    case kv
    then have "text_left s = pending (current st)"
      using cur by (auto simp: kept_def text_left_def pending_def)
    with kv cur show ?thesis by (simp add: kept_def ini_ok_def)
  next
    case fin
    have "pending (current st) = []" using fin cur by (simp add: pending_def)
    with fin cur ok show ?thesis by (simp add: ini_ok_def)
  next
    case item
    then show ?thesis
      using text_after_consumed [of "current st" s] cur ok
      by (auto simp: ini_ok_def consumed_def)
  qed
qed

lemma text_left_raw [simp]: "text_left (st\<lparr>ini_raw_item := r\<rparr>) = text_left st"
  by (simp add: text_left_def pending_def)

lemma text_left_trim [simp]: "text_left (trim_value st) = text_left st"
  by (simp add: text_left_def pending_def)

lemma ini_loop_text:
  "ini_ok st prev \<Longrightarrow> ini_loop st prev = Inr (t, s) \<Longrightarrow>
     ini_ok (s\<lparr>ini_raw_item := []\<rparr>) False \<and>
     (if t = END_OF_INPUT then ini_raw_item st = [] \<and> text_left st = []
      else ini_raw_item s @ text_left s = ini_raw_item st @ text_left st)"
proof (induction st prev rule: ini_loop.induct)
  case (1 st prev)
  show ?case
  proof (cases "line_ready st \<or> \<not> is_eof st")
    case run: True
    show ?thesis
    proof (cases "ini_step st prev")
      case (Return t' s')
      then have "t' = t" "s' = s" using "1.prems" run by (simp_all add: ini_loop.simps [of st prev])
      with ini_step_Return_text [OF "1.prems"(1) run Return] show ?thesis by (auto split: if_splits)
    next
      case (Continue s' p)
      then show ?thesis
        using "1.prems" run "1.IH" [OF run Continue] ini_step_Continue_text [OF "1.prems"(1) run Continue]
        by (auto simp: ini_loop.simps [of st prev] split: if_splits)
    next
      case (Throw e)
      then show ?thesis using "1.prems" run by (simp add: ini_loop.simps [of st prev])
    qed
  next
    case False
    then show ?thesis using "1.prems"
      by (auto simp: ini_loop.simps [of st prev] ini_ok_def text_left_def pending_def unbom_def
          utf8_bom_def split: if_splits)
  qed
qed

lemma ini_next_text:
  assumes "ini_ok (st\<lparr>ini_raw_item := []\<rparr>) False" "ini_next st = Inr (t, s)"
  shows "ini_ok (s\<lparr>ini_raw_item := []\<rparr>) False"
    and "t = END_OF_INPUT \<Longrightarrow> text_left st = []"
    and "t \<noteq> END_OF_INPUT \<Longrightarrow> ini_raw_item s @ text_left s = text_left st"
  using ini_loop_text [of "st\<lparr>ini_raw_item := []\<rparr>" False t s] assms
  by (auto simp: ini_next_def split: if_splits)

lemma ini_tokens_text:
  "ini_ok (st\<lparr>ini_raw_item := []\<rparr>) False \<Longrightarrow> ini_tokens st = (ts, None) \<Longrightarrow>
     concat (map (\<lambda>ts. ini_raw_item (snd ts)) ts) = text_left st"
proof (induction st arbitrary: ts rule: ini_tokens.induct)
  case (1 st)
  show ?case
  proof (cases "ini_next st")
    case (Inl e)
    then show ?thesis using "1.prems" by (simp add: ini_tokens.simps [of st])
  next
    case (Inr a)
    then obtain t s where n: "ini_next st = Inr (t, s)" by (cases a) auto
    note tx = ini_next_text [OF "1.prems"(1) n]
    show ?thesis
    proof (cases "t = END_OF_INPUT")
      case True
      then show ?thesis using "1.prems"(2) n tx by (simp add: ini_tokens.simps [of st])
    next
      case False
      then obtain ts' where ts': "ini_tokens s = (ts', None)" "ts = (t, s) # ts'"
        using "1.prems"(2) n by (cases "ini_tokens s") (auto simp: ini_tokens.simps [of st])
      have "concat (map (\<lambda>ts. ini_raw_item (snd ts)) ts') = text_left s"
        using "1.IH" [OF n refl False tx(1) ts'(1)] .
      with ts' tx(3) False show ?thesis by simp
    qed
  qed
qed

section \<open>Sections and keys of the items\<close>

definition key_ok :: "string \<Rightarrow> bool" where
  "key_ok k \<longleftrightarrow> k \<noteq> [] \<and> hd k \<noteq> CHR ''#'' \<and> hd k \<noteq> CHR '';''"

definition sect_ok :: "string \<Rightarrow> bool" where
  "sect_ok s \<longleftrightarrow> s \<noteq> [] \<and> CHR '']'' \<notin> set s"

lemma section_line_sect:
  assumes "section_line start e st = Return t s"
  shows "t = SECTION \<and> sect_ok (ini_sect s) \<and> ini_raw_item s \<noteq> []"
proof -
  obtain p where p: "find_from (\<lambda>c. c = CHR '']'') (ini_line st) (start + 1) = Some p" "p \<noteq> start + 1"
    and s: "t = SECTION" "ini_sect s = substr (ini_line st) (start + 1) (size_sub p (start + 1))"
    using assms by (auto simp: section_line_def Let_def split: option.splits if_splits)
  have lt: "start + 1 < p" "p < length (ini_line st)" "\<And>j. start + 1 \<le> j \<Longrightarrow> j < p \<Longrightarrow> ini_line st ! j \<noteq> CHR '']''"
    using p by (auto simp: find_from_Some)
  have ln: "length (ini_sect s) = p - (start + 1)" using s lt by (simp add: substr_def size_sub_le)
  have "c \<noteq> CHR '']''" if c: "c \<in> set (ini_sect s)" for c
  proof -
    obtain i where "i < length (ini_sect s)" "c = ini_sect s ! i" using c by (auto simp: in_set_conv_nth)
    then show ?thesis using lt(1,2) lt(3) [of "start + 1 + i"] ln s
      by (simp add: substr_def size_sub_def)
  qed
  moreover have "ini_raw_item s \<noteq> []"
    using section_line_cases [OF assms] lt(2) by auto
  ultimately show ?thesis using ln lt s(1) by (auto simp: sect_ok_def)
qed

lemma key_line_key:
  assumes "key_line 0 e st = Continue s p" "ini_line st \<noteq> []" "\<not> blank (hd (ini_line st))"
    "hd (ini_line st) \<noteq> CHR ''#''" "hd (ini_line st) \<noteq> CHR '';''"
  shows "ini_sect s = ini_sect st \<and> key_ok (ini_key s)"
proof -
  obtain q where s: "ini_sect s = ini_sect st" "ini_key s = substr (ini_line st) 0 (size_span q 0)"
    using assms(1) by (auto simp: key_line_def Let_def split: option.splits if_splits)
  then have "ini_key s = take (Suc q) (ini_line st)" by (simp add: substr_def size_span_le)
  with s(1) assms(2-) show ?thesis by (cases "ini_line st") (auto simp: key_ok_def)
qed

lemma line_step_names:
  defines "Q \<equiv> \<lambda>st prev. prev \<longrightarrow> ini_sect st \<noteq> [] \<and> key_ok (ini_key st)"
  assumes "Q st prev"
  shows "line_step st prev = Continue s p \<Longrightarrow> ini_sect s = ini_sect st \<and> Q s p"
    and "line_step st prev = Return t s \<Longrightarrow>
      (if t = SECTION then sect_ok (ini_sect s) \<and> ini_raw_item s \<noteq> [] else ini_sect s = ini_sect st) \<and>
      (t = KEY_VAL \<longrightarrow> ini_sect s \<noteq> [] \<and> key_ok (ini_key s))"
proof -
  define P where "P r \<longleftrightarrow>
    (\<forall>s p. r = Continue s p \<longrightarrow> ini_sect s = ini_sect st \<and> Q s p) \<and>
    (\<forall>t s. r = Return t s \<longrightarrow> (if t = SECTION then sect_ok (ini_sect s) \<and> ini_raw_item s \<noteq> [] else ini_sect s = ini_sect st) \<and>
      (t = KEY_VAL \<longrightarrow> ini_sect s \<noteq> [] \<and> key_ok (ini_key s)))" for r
  have "P (line_step st prev)"
  proof (rule line_step_split)
    fix start e
    show "P (section_line start e st)"
    proof (cases "section_line start e st")
      case (Return t s)
      then show ?thesis using section_line_sect [OF Return] by (simp add: P_def)
    next
      case (Continue s p)
      then show ?thesis using section_line_cases [OF Continue] by simp
    qed (simp add: P_def)
  next
    fix e assume "ini_sect st \<noteq> []" "ini_line st \<noteq> []" "\<not> blank (hd (ini_line st))"
      "hd (ini_line st) \<noteq> CHR ''#''" "hd (ini_line st) \<noteq> CHR '';''"
    note h = this
    show "P (key_line 0 e st)"
    proof (cases "key_line 0 e st")
      case (Continue s p)
      then show ?thesis using key_line_key [OF Continue h(2-)] h(1) by (simp add: P_def Q_def)
    next
      case (Return t s)
      then show ?thesis using key_line_cases [OF Return] by simp
    qed (simp add: P_def)
  next
    fix start e assume "prev" "ini_sect st \<noteq> []"
    then show "P (continuation_line start e st)"
      using assms(2) by (auto simp: P_def Q_def continuation_line_def Let_def)
  qed (insert assms(2), simp_all add: P_def Q_def)
  then show "line_step st prev = Continue s p \<Longrightarrow> ini_sect s = ini_sect st \<and> Q s p"
    and "line_step st prev = Return t s \<Longrightarrow>
      (if t = SECTION then sect_ok (ini_sect s) \<and> ini_raw_item s \<noteq> [] else ini_sect s = ini_sect st) \<and>
      (t = KEY_VAL \<longrightarrow> ini_sect s \<noteq> [] \<and> key_ok (ini_key s))"
    unfolding P_def by blast+
qed

lemma key_current: "ini_key (current st) = ini_key st" "ini_sect (current st) = ini_sect st"
  by (auto simp: current_def strip_bom_def fetch_line_def split: option.splits)

lemma ini_loop_names:
  "(prev \<longrightarrow> ini_sect st \<noteq> [] \<and> key_ok (ini_key st)) \<Longrightarrow> ini_loop st prev = Inr (t, s) \<Longrightarrow>
     (if t = SECTION then sect_ok (ini_sect s) \<and> ini_raw_item s \<noteq> [] else ini_sect s = ini_sect st) \<and>
     (t = KEY_VAL \<longrightarrow> ini_sect s \<noteq> [] \<and> key_ok (ini_key s))"
proof (induction st prev rule: ini_loop.induct)
  case (1 st prev)
  show ?case
  proof (cases "line_ready st \<or> \<not> is_eof st")
    case run: True
    have cur: "prev \<longrightarrow> ini_sect (current st) \<noteq> [] \<and> key_ok (ini_key (current st))"
      using "1.prems"(1) by (simp add: key_current)
    show ?thesis
    proof (cases "ini_step st prev")
      case (Return t' s')
      then have "t' = t" "s' = s" using "1.prems" run by (simp_all add: ini_loop.simps [of st prev])
      with line_step_names(2) [OF cur, of t s] Return show ?thesis
        by (auto simp: ini_step_current key_current split: if_splits)
    next
      case (Continue s' p)
      with line_step_names(1) [OF cur, of s' p]
      have "ini_sect s' = ini_sect st" "p \<longrightarrow> ini_sect s' \<noteq> [] \<and> key_ok (ini_key s')"
        by (auto simp: ini_step_current key_current)
      moreover have "ini_loop s' p = Inr (t, s)"
        using "1.prems" run Continue by (simp add: ini_loop.simps [of st prev])
      ultimately show ?thesis using "1.IH" [OF run Continue] by (auto split: if_splits)
    next
      case (Throw e)
      then show ?thesis using "1.prems" run by (simp add: ini_loop.simps [of st prev])
    qed
  next
    case False
    then show ?thesis using "1.prems"
      by (auto simp: ini_loop.simps [of st prev] split: if_splits)
  qed
qed

lemma ini_next_names:
  assumes "ini_next st = Inr (t, s)"
  shows "t = SECTION \<Longrightarrow> sect_ok (ini_sect s)" and "t = SECTION \<Longrightarrow> ini_raw_item s \<noteq> []"
    and "t \<noteq> SECTION \<Longrightarrow> ini_sect s = ini_sect st"
    and "t = KEY_VAL \<Longrightarrow> ini_sect s \<noteq> []" and "t = KEY_VAL \<Longrightarrow> key_ok (ini_key s)"
  using ini_loop_names [of False "st\<lparr>ini_raw_item := []\<rparr>" t s] assms
  by (auto simp: ini_next_def)

end
