(* ===== verification/IniFacts.thy ===== *)
theory IniFacts
  imports IniParser
begin

text \<open>
  What the tokenizer guarantees to its clients: the items are the text, names are well
  formed, every call makes progress, a reported line number is a line of the text. The last
  section is about the check for text after a section header, which overlooks one character.
\<close>

section \<open>Properties\<close>

text \<open>C6. The raw texts of the items returned by \<open>next()\<close>, concatenated, are the whole input (less
  a leading byte order mark): the tokenizer drops, repeats and reorders nothing.\<close>

theorem ini_items_are_text:
  assumes "ini_open (Some txt) = Inr p" "ini_tokens p = (ts, None)"
  shows "concat (map (\<lambda>x. ini_raw_item (snd x)) ts) = unbom txt"
proof -
  have "ini_ok (p\<lparr>ini_raw_item := []\<rparr>) False" "text_left p = unbom txt"
    using assms(1) by (auto simp: ini_open_def ini_ok_def text_left_def pending_def)
  with ini_tokens_text [OF this(1) assms(2)] show ?thesis by simp
qed

theorem ini_items_are_text_witness:
  "concat (map (\<lambda>x. ini_raw_item (snd x))
     (fst (ini_tokens (projr (ini_open (Some ''#h\<newline>[a]\<newline>k = v\<newline>  w\<newline>\<newline>'')))))) =
   unbom ''#h\<newline>[a]\<newline>k = v\<newline>  w\<newline>\<newline>''"
proof -
  let ?p = "projr (ini_open (Some ''#h\<newline>[a]\<newline>k = v\<newline>  w\<newline>\<newline>''))"
  have "ini_open (Some ''#h\<newline>[a]\<newline>k = v\<newline>  w\<newline>\<newline>'') = Inr ?p"
    "ini_tokens ?p = (fst (ini_tokens ?p), None)" by code_simp+
  then show ?thesis by (rule ini_items_are_text)
qed

text \<open>What an item is made of: a section name is not empty and has no closing bracket, an
  option has a section and a key that is not empty and does not look like a comment, and only a
  section header changes the current section.\<close>

theorem ini_names_wellformed:
  assumes "ini_next st = Inr (t, s)"
  shows "(t = SECTION \<longrightarrow> sect_ok (ini_sect s) \<and> ini_raw_item s \<noteq> []) \<and>
    (t \<noteq> SECTION \<longrightarrow> ini_sect s = ini_sect st) \<and>
    (t = KEY_VAL \<longrightarrow> ini_sect s \<noteq> [] \<and> key_ok (ini_key s))"
  using ini_next_names [OF assms] by blast

theorem ini_names_wellformed_witness:
  "sect_ok (ini_sect (snd (projr (ini_next (projr (ini_open (Some ''[main]\<newline>k=v\<newline>'')))))))"
proof -
  let ?p = "projr (ini_open (Some ''[main]\<newline>k=v\<newline>''))"
  let ?s = "snd (projr (ini_next ?p))"
  have "ini_next ?p = Inr (SECTION, ?s)" by code_simp
  from ini_names_wellformed [OF this] show ?thesis by simp
qed

section \<open>Line numbers\<close>

text \<open>The lines of the input that are still to be counted.\<close>

definition lines_left :: "ini \<Rightarrow> nat" where
  "lines_left st = line_number st +
     (if is_eof st then 0 else Suc (length [c \<leftarrow> is_rest st. c = delimiter]))"

fun error_line :: "ini_error \<Rightarrow> nat option" where
  "error_line CantOpenFile = None"
| "error_line (MissingSectionHeader n) = Some n"
| "error_line (MissingBracket n) = Some n"
| "error_line (EmptySectionName n) = Some n"
| "error_line (TextAfterSection n) = Some n"
| "error_line (IllegalContinuationLine n) = Some n"
| "error_line (MissingKey n) = Some n"
| "error_line (MissingEqual n) = Some n"

lemma lines_left_fetch: "\<not> is_eof st \<Longrightarrow> lines_left (fetch_line st) = lines_left st"
proof (cases "find_idx (\<lambda>c. c = delimiter) (is_rest st)")
  case (Some i)
  assume "\<not> is_eof st"
  from Some have i: "i < length (is_rest st)" "is_rest st ! i = delimiter"
    "\<forall>j < i. is_rest st ! j \<noteq> delimiter" by (simp_all add: find_idx_Some)
  then have "[c \<leftarrow> take i (is_rest st). c = delimiter] = []"
    by (auto simp: filter_empty_conv in_set_conv_nth)
  moreover have "[c \<leftarrow> is_rest st. c = delimiter] =
      [c \<leftarrow> take i (is_rest st) @ is_rest st ! i # drop (Suc i) (is_rest st). c = delimiter]"
    using id_take_nth_drop [OF i(1)] by simp
  ultimately show ?thesis using Some \<open>\<not> is_eof st\<close> i(2)
    by (simp add: lines_left_def fetch_line_def)
next
  case None
  assume "\<not> is_eof st"
  moreover have "[c \<leftarrow> is_rest st. c = delimiter] = []"
    using None by (simp add: find_idx_None filter_empty_conv)
  ultimately show ?thesis using None by (simp add: lines_left_def fetch_line_def)
qed

lemma section_line_Throw: "section_line b e st = Throw er \<Longrightarrow> error_line er = Some (line_number st)"
  by (auto simp: section_line_def Let_def split: option.splits if_splits)

lemma key_line_Throw: "key_line b e st = Throw er \<Longrightarrow> error_line er = Some (line_number st)"
  by (auto simp: key_line_def Let_def split: option.splits if_splits)

lemma line_step_Throw: "line_step st prev = Throw er \<Longrightarrow> error_line er = Some (line_number st)"
proof -
  define P where "P r \<longleftrightarrow> (\<forall>er. r = Throw er \<longrightarrow> error_line er = Some (line_number st))" for r
  have "P (line_step st prev)"
    by (rule line_step_split)
      (auto simp: P_def continuation_line_def Let_def dest: section_line_Throw key_line_Throw)
  then show "line_step st prev = Throw er \<Longrightarrow> error_line er = Some (line_number st)" by (simp add: P_def)
qed

definition lines_ok :: "ini \<Rightarrow> bool" where
  "lines_ok st \<longleftrightarrow> (line_ready st \<or> is_eof st \<longrightarrow> 1 \<le> line_number st)"

lemma ini_loop_lines:
  "lines_ok st \<Longrightarrow>
     (\<forall>er. ini_loop st prev = Inl er \<longrightarrow> (\<exists>n. error_line er = Some n \<and> 1 \<le> n \<and> n \<le> lines_left st)) \<and>
     (\<forall>t s. ini_loop st prev = Inr (t, s) \<longrightarrow> lines_left s = lines_left st \<and> lines_ok s)"
proof (induction st prev rule: ini_loop.induct)
  case (1 st prev)
  show ?case
  proof (cases "line_ready st \<or> \<not> is_eof st")
    case run: True
    define c where "c = strip_bom (if line_ready st then st else fetch_line st)"
    have c: "lines_left c = lines_left st" "1 \<le> line_number c"
      using run lines_left_fetch [of st] "1.prems" by (auto simp: c_def lines_left_def lines_ok_def)
    have le: "line_number c \<le> lines_left c" by (simp add: lines_left_def)
    have step: "ini_step st prev = line_step c prev" by (simp add: ini_step_def c_def)
    show ?thesis
    proof (cases "ini_step st prev")
      case (Return t s)
      then have "line_number s = line_number c \<and> is_rest s = is_rest c \<and> is_eof s = is_eof c"
        using line_step_Return [of c prev t s] step by (auto simp: kept_def consumed_def)
      then have "lines_left s = lines_left st" "lines_ok s" using c by (auto simp: lines_left_def lines_ok_def)
      then show ?thesis using run Return by (simp add: ini_loop.simps [of st prev])
    next
      case (Continue s p)
      then have k: "line_number s = line_number c \<and> is_rest s = is_rest c \<and> is_eof s = is_eof c"
        using line_step_Continue [of c prev s p] step by (auto simp: consumed_def)
      then have "lines_left s = lines_left st" "lines_ok s" using c by (auto simp: lines_left_def lines_ok_def)
      then show ?thesis using "1.IH" [OF run Continue] run Continue by (simp add: ini_loop.simps [of st prev])
    next
      case (Throw er)
      then have "error_line er = Some (line_number c)" using line_step_Throw [of c prev er] step by simp
      then show ?thesis using run Throw c le by (simp add: ini_loop.simps [of st prev])
    qed
  next
    case False
    then show ?thesis using "1.prems" by (auto simp: ini_loop.simps [of st prev] lines_left_def lines_ok_def)
  qed
qed

lemma ini_tokens_lines:
  "lines_ok st \<Longrightarrow> ini_tokens st = (ts, Some er) \<Longrightarrow> \<exists>n. error_line er = Some n \<and> 1 \<le> n \<and> n \<le> lines_left st"
proof (induction st arbitrary: ts rule: ini_tokens.induct)
  case (1 st)
  note lines = ini_loop_lines [of "st\<lparr>ini_raw_item := []\<rparr>" False, folded ini_next_def]
  have left: "lines_left (st\<lparr>ini_raw_item := []\<rparr>) = lines_left st" by (simp add: lines_left_def)
  have ok: "lines_ok (st\<lparr>ini_raw_item := []\<rparr>)" using "1.prems"(1) by (simp add: lines_ok_def)
  show ?case
  proof (cases "ini_next st")
    case (Inl e)
    then show ?thesis using "1.prems"(2) lines [OF ok] left by (simp add: ini_tokens.simps [of st])
  next
    case (Inr a)
    then obtain t s where n: "ini_next st = Inr (t, s)" by (cases a) auto
    then have s: "lines_left s = lines_left st" "lines_ok s" using lines [OF ok] left by auto
    have more: "t \<noteq> END_OF_INPUT" using "1.prems"(2) n by (auto simp: ini_tokens.simps [of st])
    then obtain ts' where "ini_tokens s = (ts', Some er)"
      using "1.prems"(2) n by (auto simp: ini_tokens.simps [of st] split: prod.splits)
    from "1.IH" [OF n refl more s(2) this] s(1) show ?thesis by simp
  qed
qed

text \<open>The line number of a parse error is a line of the text: at least 1 and at most the number
  of its newline characters plus one.\<close>

theorem ini_error_line_in_text:
  assumes "ini_open (Some txt) = Inr p" "ini_tokens p = (ts, Some er)"
  shows "\<exists>n. error_line er = Some n \<and> 1 \<le> n \<and> n \<le> Suc (length [c \<leftarrow> txt. c = delimiter])"
  using assms ini_tokens_lines [of p ts er] by (auto simp: ini_open_def lines_ok_def lines_left_def)

theorem ini_error_line_in_text_witness:
  "\<exists>n. error_line (MissingEqual 3) = Some n \<and> 1 \<le> n \<and>
     n \<le> Suc (length [c \<leftarrow> ''[a]\<newline>k=v\<newline>word''. c = delimiter])"
proof -
  let ?p = "projr (ini_open (Some ''[a]\<newline>k=v\<newline>word''))"
  have "ini_open (Some ''[a]\<newline>k=v\<newline>word'') = Inr ?p"
    "ini_tokens ?p = (fst (ini_tokens ?p), Some (MissingEqual 3))" by code_simp+
  then show ?thesis by (rule ini_error_line_in_text)
qed

section \<open>Text after a section header\<close>

lemma find_last_snoc: "find_last P (s @ [c]) = (if P c then Some (length s) else find_last P s)"
  by (cases "find_idx P (rev s)") (simp_all add: find_last_def)

lemma text_after_empty: "e \<le> i \<Longrightarrow> \<not> text_after l i e"
  by (simp add: text_after.simps)

lemma find_idx_hit: "\<forall>x \<in> set xs. \<not> P x \<Longrightarrow> P y \<Longrightarrow> find_idx P (xs @ y # ys) = Some (length xs)"
  by (induction xs) auto

lemma ini_next_first_line:
  assumes "delimiter \<notin> set l" "take 3 l \<noteq> utf8_bom"
  shows "ini_next (projr (ini_open (Some l))) =
    (case line_step (fetch_line (projr (ini_open (Some l)))) False of
       Return t s \<Rightarrow> Inr (t, s) | Continue s p \<Rightarrow> ini_loop s p | Throw e \<Rightarrow> Inl e)"
proof -
  have "find_idx (\<lambda>c. c = delimiter) l = None" using assms(1) by (auto simp: find_idx_None)
  then have "strip_bom (fetch_line (projr (ini_open (Some l)))) = fetch_line (projr (ini_open (Some l)))"
    using assms(2) by (simp add: strip_bom_def fetch_line_def ini_open_def)
  then show ?thesis
    unfolding ini_next_def by (subst ini_loop.simps) (simp add: ini_step_def ini_open_def fetch_line_def)
qed

text \<open>The check for text after a section header stops before the last character of the line: a
  header followed by a single stray character is accepted as the section, although the parser
  has an error, and raises it, for any longer text.\<close>

theorem section_trailing_character_accepted:
  assumes "s \<noteq> []" "CHR '']'' \<notin> set s" "delimiter \<notin> set s" "\<not> blank c" "c \<noteq> delimiter"
  shows "\<exists>p. ini_next (projr (ini_open (Some (''['' @ s @ '']'' @ [c])))) = Inr (SECTION, p) \<and> ini_sect p = s"
proof -
  let ?l = "''['' @ s @ '']'' @ [c]"
  have line: "ini_line (fetch_line (projr (ini_open (Some ?l)))) = ?l"
  proof -
    have "find_idx (\<lambda>c. c = delimiter) ?l = None" using assms(3,5) unfolding find_idx_None by auto
    then show ?thesis by (simp only: fetch_line_def ini_open_def option.case sum.sel ini.simps)
  qed
  have nl: "delimiter \<notin> set ?l" "take 3 ?l \<noteq> utf8_bom" using assms(3,5) by (auto simp: utf8_bom_def)
  have br: "find_from (\<lambda>c. c = CHR '']'') ?l 1 = Some (Suc (length s))"
    using find_idx_hit [of s "\<lambda>c. c = CHR '']''" "CHR '']''" "[c]"] assms(2) by (auto simp: find_from_def)
  have e: "find_last (\<lambda>c. \<not> blank c) ?l = Some (length s + 2)"
    using find_last_snoc [of "\<lambda>c. \<not> blank c" "''['' @ s @ '']''" c] assms(4) by simp
  have st: "find_from (\<lambda>c. \<not> blank c) ?l 0 = Some 0" by (simp add: find_from_def)
  have "line_step (fetch_line (projr (ini_open (Some ?l)))) False =
      section_line 0 (length s + 2) (fetch_line (projr (ini_open (Some ?l))))"
    unfolding line_step_def Let_def line e st by simp
  moreover have "section_line 0 (length s + 2) (fetch_line (projr (ini_open (Some ?l)))) =
      Return SECTION (end_line ?l ((fetch_line (projr (ini_open (Some ?l))))\<lparr>ini_sect := s\<rparr>))"
    using br assms(1) unfolding section_line_def Let_def line
    by (simp add: text_after_empty size_sub_def substr_def)
  ultimately show ?thesis using ini_next_first_line [OF nl] by simp
qed

theorem section_trailing_character_accepted_witness:
  "\<exists>p. ini_next (projr (ini_open (Some (''['' @ ''main'' @ '']'' @ ''x'')))) = Inr (SECTION, p) \<and> ini_sect p = ''main''"
  by (rule section_trailing_character_accepted) simp_all

end
