(* ===== verification/OrderedMap.thy ===== *)
theory OrderedMap
  imports Prelude
begin

text \<open>
  \<open>PreserveOrderMap\<close> (include/libdnf/utils/preserve_order_map.hpp): an associative
  container over a vector of pairs that keeps the order of first insertion. An iterator
  is a position in the vector; \<open>end()\<close> is the length. Capacity management
  (\<open>reserve\<close>, \<open>shrink_to_fit\<close>) has no observable effect and is left out.

  The locale \<open>ordered_map\<close> is the contract its clients (the configuration parser and
  the option bindings) rely on: a finite map together with the order of its keys.
\<close>

section \<open>The contract\<close>

locale ordered_map =
  fixes keys :: "'m \<Rightarrow> 'k list"
    and lookup :: "'m \<Rightarrow> 'k \<Rightarrow> 'v option"
    and put :: "'k \<Rightarrow> 'v \<Rightarrow> 'm \<Rightarrow> 'm"
    and del :: "'k \<Rightarrow> 'm \<Rightarrow> 'm"
    and invar :: "'m \<Rightarrow> bool"
  assumes keys_distinct: "invar m \<Longrightarrow> distinct (keys m)"
    and keys_dom: "invar m \<Longrightarrow> set (keys m) = dom (lookup m)"
    and lookup_put: "invar m \<Longrightarrow> lookup (put k v m) = (lookup m)(k \<mapsto> v)"
    and lookup_del: "invar m \<Longrightarrow> lookup (del k m) = (lookup m)(k := None)"
    and keys_put: "invar m \<Longrightarrow> keys (put k v m) = (if k \<in> set (keys m) then keys m else keys m @ [k])"
    and keys_del: "invar m \<Longrightarrow> keys (del k m) = removeAll k (keys m)"
    and invar_put: "invar m \<Longrightarrow> invar (put k v m)"
    and invar_del: "invar m \<Longrightarrow> invar (del k m)"
begin

text \<open>A run of insertions, in order.\<close>

primrec put_all :: "('k \<times> 'v) list \<Rightarrow> 'm \<Rightarrow> 'm" where
  "put_all [] m = m"
| "put_all (kv # kvs) m = put_all kvs (put (fst kv) (snd kv) m)"

lemma invar_put_all: "invar m \<Longrightarrow> invar (put_all kvs m)"
  by (induction kvs arbitrary: m) (auto simp: invar_put)

lemma lookup_put_all: "invar m \<Longrightarrow> lookup (put_all kvs m) = lookup m ++ map_of (rev kvs)"
proof (induction kvs arbitrary: m)
  case (Cons kv kvs)
  then have "lookup (put_all (kv # kvs) m) = lookup (put (fst kv) (snd kv) m) ++ map_of (rev kvs)"
    using invar_put by simp
  also have "\<dots> = (lookup m)(fst kv \<mapsto> snd kv) ++ map_of (rev kvs)"
    by (simp only: lookup_put [OF Cons.prems])
  also have "\<dots> = lookup m ++ map_of (rev kvs @ [kv])"
    by (cases kv) (simp add: map_add_def fun_eq_iff split: option.splits)
  finally show ?case by simp
qed simp

text \<open>Fresh distinct keys are listed in the order they came, after the old ones.\<close>

lemma keys_put_all_fresh:
  assumes "invar m" "distinct (map fst kvs)" "set (map fst kvs) \<inter> set (keys m) = {}"
  shows "keys (put_all kvs m) = keys m @ map fst kvs"
  using assms
proof (induction kvs arbitrary: m)
  case Nil
  then show ?case by simp
next
  case (Cons kv kvs)
  have k: "keys (put (fst kv) (snd kv) m) = keys m @ [fst kv]"
    using Cons.prems by (auto simp: keys_put)
  have "keys (put_all kvs (put (fst kv) (snd kv) m)) = (keys m @ [fst kv]) @ map fst kvs"
    using Cons.prems by (subst Cons.IH) (auto simp: k invar_put)
  then show ?case by simp
qed

lemma put_all_snoc: "put_all (kvs @ [kv]) m = put (fst kv) (snd kv) (put_all kvs m)"
  by (induction kvs arbitrary: m) simp_all

text \<open>The keys in the order of their first insertion.\<close>

lemma keys_put_all: "invar m \<Longrightarrow> keys (put_all kvs m) = rev (remdups (rev (keys m @ map fst kvs)))"
proof (induction kvs rule: rev_induct)
  case Nil
  then show ?case using keys_distinct [of m] by (simp add: distinct_remdups_id)
next
  case (snoc kv kvs)
  then have IH: "keys (put_all kvs m) = rev (remdups (rev (keys m @ map fst kvs)))" by simp
  then have "set (keys (put_all kvs m)) = set (keys m @ map fst kvs)" by auto
  with snoc.prems IH show ?case by (simp add: put_all_snoc keys_put invar_put_all)
qed

text \<open>Storing under a present key never moves it, whatever is stored.\<close>

lemma keys_put_present: "invar m \<Longrightarrow> k \<in> dom (lookup m) \<Longrightarrow> keys (put k v m) = keys m"
  by (simp add: keys_put keys_dom)

lemma put_del_lookup: "invar m \<Longrightarrow> lookup (put k v (del k m)) = lookup (put k v m)"
  by (simp add: lookup_put lookup_del invar_del)

lemma keys_put_del: "invar m \<Longrightarrow> keys (put k v (del k m)) = removeAll k (keys m) @ [k]"
  by (simp add: keys_put keys_del invar_del)

end

section \<open>The container\<close>

type_synonym ('k, 'v) pom = "('k \<times> 'v) list"

primrec pom_find :: "'k \<Rightarrow> ('k, 'v) pom \<Rightarrow> nat" where
  "pom_find key [] = 0"
| "pom_find key (item # items) = (if fst item = key then 0 else Suc (pom_find key items))"

definition pom_empty :: "('k, 'v) pom \<Rightarrow> bool" where
  "pom_empty items \<longleftrightarrow> items = []"

definition pom_size :: "('k, 'v) pom \<Rightarrow> nat" where
  "pom_size items = length items"

definition pom_clear :: "('k, 'v) pom \<Rightarrow> ('k, 'v) pom" where
  "pom_clear items = []"

text \<open>\<open>vector::insert\<close> at an iterator, and \<open>vector::erase\<close> of one item or a range.\<close>

definition pom_insert :: "'k \<times> 'v \<Rightarrow> ('k, 'v) pom \<Rightarrow> ('k, 'v) pom \<times> nat \<times> bool" where
  "pom_insert value items =
     (let it = pom_find (fst value) items
      in if it = length items then (take it items @ value # drop it items, it, True)
         else (items, it, False))"

definition pom_erase_at :: "nat \<Rightarrow> ('k, 'v) pom \<Rightarrow> ('k, 'v) pom" where
  "pom_erase_at pos items = take pos items @ drop (Suc pos) items"

definition pom_erase_range :: "nat \<Rightarrow> nat \<Rightarrow> ('k, 'v) pom \<Rightarrow> ('k, 'v) pom" where
  "pom_erase_range begin_pos end_pos items = take begin_pos items @ drop end_pos items"

definition pom_erase :: "'k \<Rightarrow> ('k, 'v) pom \<Rightarrow> ('k, 'v) pom \<times> nat" where
  "pom_erase key items =
     (let it = pom_find key items
      in if it = length items then (items, 0) else (pom_erase_at it items, 1))"

definition pom_count :: "'k \<Rightarrow> ('k, 'v) pom \<Rightarrow> nat" where
  "pom_count key items = (if pom_find key items \<noteq> length items then 1 else 0)"

text \<open>
  \<open>operator[]\<close> returns a reference: the position of the value, after appending a
  value-initialised item \<open>d\<close> when the key is absent. \<open>m[key] = v\<close> writes through it.
\<close>

primrec pom_index_from :: "nat \<Rightarrow> 'k \<Rightarrow> ('k, 'v) pom \<Rightarrow> nat option" where
  "pom_index_from i key [] = None"
| "pom_index_from i key (item # items) =
     (if fst item = key then Some i else pom_index_from (Suc i) key items)"

definition pom_index :: "'v \<Rightarrow> 'k \<Rightarrow> ('k, 'v) pom \<Rightarrow> ('k, 'v) pom \<times> nat" where
  "pom_index d key items =
     (case pom_index_from 0 key items of
        Some i \<Rightarrow> (items, i)
      | None \<Rightarrow> (items @ [(key, d)], length (items @ [(key, d)]) - 1))"

definition pom_assign :: "'v \<Rightarrow> ('k, 'v) pom \<times> nat \<Rightarrow> ('k, 'v) pom" where
  "pom_assign v r = (fst r)[snd r := (fst (fst r ! snd r), v)]"

datatype pom_error = OutOfRange string

primrec pom_at :: "'k \<Rightarrow> ('k, 'v) pom \<Rightarrow> pom_error + 'v" where
  "pom_at key [] = Inl (OutOfRange ''PreserveOrderMap::at'')"
| "pom_at key (item # items) = (if fst item = key then Inr (snd item) else pom_at key items)"

section \<open>Facts\<close>

abbreviation pom_keys :: "('k, 'v) pom \<Rightarrow> 'k list" where
  "pom_keys items \<equiv> map fst items"

definition pom_inv :: "('k, 'v) pom \<Rightarrow> bool" where
  "pom_inv items \<longleftrightarrow> distinct (pom_keys items)"

definition pom_put :: "'v \<Rightarrow> 'k \<Rightarrow> 'v \<Rightarrow> ('k, 'v) pom \<Rightarrow> ('k, 'v) pom" where
  "pom_put d key v items = pom_assign v (pom_index d key items)"

definition pom_del :: "'k \<Rightarrow> ('k, 'v) pom \<Rightarrow> ('k, 'v) pom" where
  "pom_del key items = fst (pom_erase key items)"

lemma pom_find_le: "pom_find k m \<le> length m"
  by (induction m) auto

lemma pom_find_end [pom_simps]: "pom_find k m = length m \<longleftrightarrow> map_of m k = None"
proof (induction m)
  case (Cons p m)
  then show ?case by (cases p) auto
qed simp

lemma pom_find_nth:
  "map_of m k = Some v \<Longrightarrow> pom_find k m < length m \<and> m ! pom_find k m = (k, v)"
  by (induction m) (auto split: if_splits)

lemma pom_find_first: "i < pom_find k m \<Longrightarrow> fst (m ! i) \<noteq> k"
  by (induction m arbitrary: i) (auto simp: nth_Cons split: if_splits nat.splits)

lemma pom_index_from_find:
  "pom_index_from i k m = (if map_of m k = None then None else Some (i + pom_find k m))"
  by (induction m arbitrary: i) auto

lemma pom_put_present:
  "map_of m k = Some w \<Longrightarrow> pom_put d k v m = m[pom_find k m := (k, v)]"
  using pom_find_nth [of m k w]
  by (simp add: pom_put_def pom_assign_def pom_index_def pom_index_from_find)

lemma pom_put_absent [pom_simps]: "map_of m k = None \<Longrightarrow> pom_put d k v m = m @ [(k, v)]"
  by (simp add: pom_put_def pom_assign_def pom_index_def pom_index_from_find)

lemma pom_put_Cons [pom_simps]:
  "pom_put d k v ((k', w) # m) = (if k' = k then (k, v) # m else (k', w) # pom_put d k v m)"
proof (cases "k' = k")
  case False
  then show ?thesis
    by (cases "map_of m k") (simp_all add: pom_put_present pom_put_absent)
qed (simp add: pom_put_present)

lemma pom_keys_put [pom_simps]:
  "pom_keys (pom_put d k v m) = (if k \<in> set (pom_keys m) then pom_keys m else pom_keys m @ [k])"
proof (induction m)
  case (Cons p m)
  then show ?case by (cases p) (auto simp: pom_put_Cons)
qed (simp add: pom_put_absent)

lemma map_of_pom_put [pom_simps]: "map_of (pom_put d k v m) = (map_of m)(k \<mapsto> v)"
  by (induction m) (auto simp: pom_put_Cons pom_put_absent fun_eq_iff)

lemma pom_del_Cons:
  "pom_del k (p # m) = (if fst p = k then m else p # pom_del k m)"
  by (simp add: pom_del_def pom_erase_def pom_erase_at_def Let_def)

lemma pom_del_Nil: "pom_del k [] = []"
  by (simp add: pom_del_def pom_erase_def)

lemma pom_keys_del [pom_simps]: "pom_keys (pom_del k m) = remove1 k (pom_keys m)"
  by (induction m) (auto simp: pom_del_Cons pom_del_Nil)

lemma map_of_pom_del [pom_simps]:
  "pom_inv m \<Longrightarrow> map_of (pom_del k m) = (map_of m)(k := None)"
proof (induction m)
  case (Cons p m)
  then have "map_of m (fst p) = None" by (auto simp: pom_inv_def map_of_eq_None_iff)
  with Cons show ?case
    by (cases p) (auto simp: pom_del_Cons fun_eq_iff pom_inv_def)
qed (simp add: pom_del_Nil)

lemma pom_inv_Nil [simp]: "pom_inv []"
  by (simp add: pom_inv_def)

lemma pom_inv_put [intro]: "pom_inv m \<Longrightarrow> pom_inv (pom_put d k v m)"
  by (simp add: pom_inv_def pom_keys_put)

lemma pom_inv_del [intro]: "pom_inv m \<Longrightarrow> pom_inv (pom_del k m)"
  by (simp add: pom_inv_def pom_keys_del)

lemma pom_insert_put:
  "pom_insert (k, v) m =
     (if map_of m k = None then (pom_put d k v m, length m, True) else (m, pom_find k m, False))"
proof (cases "map_of m k")
  case None
  then have "pom_find k m = length m" by (simp add: pom_find_end)
  with None show ?thesis by (simp add: pom_insert_def pom_put_absent)
qed (auto simp: pom_insert_def pom_find_end Let_def)

lemma pom_inv_insert: "pom_inv m \<Longrightarrow> pom_inv (fst (pom_insert kv m))"
  by (cases kv) (auto simp: pom_insert_put [where d = "snd kv"])

lemma pom_inv_erase_at: "pom_inv m \<Longrightarrow> pom_inv (pom_erase_at i m)"
proof -
  assume "pom_inv m"
  then have d: "distinct (take i (pom_keys m) @ drop i (pom_keys m))"
    by (simp add: pom_inv_def)
  have "set (drop (Suc i) (pom_keys m)) \<subseteq> set (drop i (pom_keys m))"
    by (simp add: set_drop_subset_set_drop)
  moreover have "distinct (drop (Suc i) (pom_keys m))"
    using \<open>pom_inv m\<close> by (simp add: pom_inv_def distinct_drop)
  ultimately show ?thesis using d
    by (auto simp: pom_inv_def pom_erase_at_def take_map drop_map simp del: append_take_drop_id)
qed

lemma pom_at_lookup:
  "pom_at k m = (case map_of m k of None \<Rightarrow> Inl (OutOfRange ''PreserveOrderMap::at'') | Some v \<Rightarrow> Inr v)"
  by (induction m) auto

lemma pom_count_lookup: "pom_count k m = (if map_of m k = None then 0 else 1)"
  by (simp add: pom_count_def pom_find_end)

interpretation pom: ordered_map pom_keys map_of "pom_put d" pom_del pom_inv for d :: 'v
proof unfold_locales
  fix m :: "('k, 'v) pom" and k :: 'k and v :: 'v
  assume inv: "pom_inv m"
  then show "distinct (pom_keys m)" by (simp add: pom_inv_def)
  show "set (pom_keys m) = dom (map_of m)" by (simp add: dom_map_of_conv_image_fst)
  show "map_of (pom_put d k v m) = (map_of m)(k \<mapsto> v)" by (rule map_of_pom_put)
  show "map_of (pom_del k m) = (map_of m)(k := None)" using inv by (rule map_of_pom_del)
  show "pom_keys (pom_put d k v m) =
      (if k \<in> set (pom_keys m) then pom_keys m else pom_keys m @ [k])" by (rule pom_keys_put)
  show "pom_keys (pom_del k m) = removeAll k (pom_keys m)"
    using inv by (simp add: pom_keys_del pom_inv_def distinct_remove1_removeAll)
  show "pom_inv (pom_put d k v m)" using inv by (rule pom_inv_put)
  show "pom_inv (pom_del k m)" using inv by (rule pom_inv_del)
qed

section \<open>Properties\<close>

definition pom_put_all :: "'v \<Rightarrow> ('k \<times> 'v) list \<Rightarrow> ('k, 'v) pom \<Rightarrow> ('k, 'v) pom" where
  "pom_put_all d kvs m = foldl (\<lambda>m kv. pom_put d (fst kv) (snd kv) m) m kvs"

lemma pom_put_all_eq: "pom_put_all d kvs m = pom.put_all d kvs m"
  by (induction kvs arbitrary: m) (simp_all add: pom_put_all_def)

text \<open>A run of stores \<open>m[key] = value\<close> into an empty ordered map lists every key once, in the
  order of its first store, and maps it to the value stored last.\<close>

theorem ordered_map_keeps_first_insertion_order:
  "pom_keys (pom_put_all d kvs []) = rev (remdups (rev (map fst kvs))) \<and>
   map_of (pom_put_all d kvs []) = map_of (rev kvs)"
  using pom.keys_put_all [of "[]" d kvs] pom.lookup_put_all [of "[]" d kvs]
  by (simp add: pom_put_all_eq)

text \<open>Erasing a key and storing it again moves it to the end and leaves the order of the other
  keys and the value of every other key as they were.\<close>

theorem ordered_map_erase_then_store:
  assumes "pom_inv m"
  shows "pom_keys (pom_put d k v (fst (pom_erase k m))) = removeAll k (pom_keys m) @ [k] \<and>
    map_of (pom_put d k v (fst (pom_erase k m))) = (map_of m)(k \<mapsto> v)"
  using pom.keys_put_del [OF assms, of d k v] pom.put_del_lookup [OF assms, of d k v]
  by (simp add: pom_del_def map_of_pom_put)

theorem ordered_map_erase_then_store_witness:
  "pom_keys (pom_put 0 (1::nat) (9::nat) (fst (pom_erase 1 [(1, 5), (2, 6)]))) = [2, 1]"
  using ordered_map_erase_then_store [of "[(1::nat, 5::nat), (2, 6)]" 0 1 9]
  by (simp add: pom_inv_def)

end
