(* ===== verification/ConfigSubst.thy ===== *)
theory ConfigSubst
  imports CppString
begin

text \<open>
  \<open>ConfigParser::substitute\<close> (libdnf/conf/config_parser.cpp): expansion of
  \<open>$name\<close> and \<open>${name}\<close> in place. The code walks the string by position and splices
  values into it; \<open>expand\<close> is the specification, a scan that never looks at inserted text.
\<close>

definition ident_char :: "char \<Rightarrow> bool" where
  "ident_char c \<longleftrightarrow> is_alnum c \<or> c = CHR ''_''"

abbreviation find_dollar :: "string \<Rightarrow> nat \<Rightarrow> nat option" where
  "find_dollar \<equiv> find_from (\<lambda>c. c = CHR ''$'')"

text \<open>\<open>std::find_if_not(text.begin() + variable, text.end(), ...)\<close> as a position.\<close>

definition past_ident :: "string \<Rightarrow> nat \<Rightarrow> nat" where
  "past_ident str variable =
     (case find_from (\<lambda>c. \<not> ident_char c) str variable of Some i \<Rightarrow> i | None \<Rightarrow> length str)"

lemma past_ident_bounds:
  "variable \<le> length str \<Longrightarrow> variable \<le> past_ident str variable \<and> past_ident str variable \<le> length str"
  by (auto simp: past_ident_def dest: find_from_bounds split: option.splits)

lemma find_dollar_le: "find_dollar str p = Some i \<Longrightarrow> length str - i \<le> length str - p \<and> i < length str"
  by (auto dest: find_from_bounds)

function subst_loop :: "(string \<rightharpoonup> string) \<Rightarrow> string \<Rightarrow> nat option \<Rightarrow> string" where
  "subst_loop m str None = str"
| "subst_loop m str (Some start) =
     (let variable = start + 1 in
      if variable \<ge> length str then str
      else
        (let bracket = (str ! variable = CHR ''{'');
             variable = (if bracket then variable + 1 else variable)
         in if bracket \<and> variable \<ge> length str then str
            else
              (let past = past_ident str variable in
               if bracket \<and> past = length str then str
               else if bracket \<and> str ! past \<noteq> CHR ''}'' then subst_loop m str (find_dollar str past)
               else
                 (case m (substr str variable (past - variable)) of
                    Some v \<Rightarrow>
                      (let past = (if bracket then past + 1 else past);
                           str' = take start str @ v @ drop past str
                       in subst_loop m str' (find_dollar str' (start + length v)))
                  | None \<Rightarrow> subst_loop m str (find_dollar str past)))))"
  by pat_completeness auto

definition subst_size :: "string \<Rightarrow> nat option \<Rightarrow> nat" where
  "subst_size str start = (case start of None \<Rightarrow> 0 | Some s \<Rightarrow> Suc (length str - s))"

lemma subst_size_dollar:
  assumes "start < p" "start < length str"
  shows "subst_size str (find_dollar str p) < subst_size str (Some start)"
  using assms find_dollar_le [of str p] by (cases "find_dollar str p") (auto simp: subst_size_def)

lemma subst_size_splice:
  assumes "start < p" "start < length str" "str' = take start str @ v @ drop p str"
  shows "subst_size str' (find_dollar str' (start + length v)) < subst_size str (Some start)"
  using assms find_dollar_le [of str' "start + length v"]
  by (cases "find_dollar str' (start + length v)") (auto simp: subst_size_def min_def)

termination subst_loop
proof (relation "measure (\<lambda>(m, str, start). subst_size str start)", goal_cases)
  case 1
  show ?case by simp
next
  case (2 m str start v b v' past)
  then have "start < past" using past_ident_bounds [of v' str] by auto
  then show ?case using 2 by (auto intro!: subst_size_dollar)
next
  case (3 m str start v b v' past)
  then have "start < past" using past_ident_bounds [of v' str] by auto
  then show ?case using 3 by (auto intro!: subst_size_dollar)
next
  case (4 m str start v b v' past x past' str')
  then have "start < past'" using past_ident_bounds [of v' str] by (auto split: if_splits)
  then show ?case using 4 by (auto intro!: subst_size_splice)
qed

declare subst_loop.simps(2) [simp del]

definition substitute :: "(string \<rightharpoonup> string) \<Rightarrow> string \<Rightarrow> string" where
  "substitute m str = subst_loop m str (find_dollar str 0)"

section \<open>The specification\<close>

function expand :: "(string \<rightharpoonup> string) \<Rightarrow> string \<Rightarrow> string" where
  "expand m [] = []"
| "expand m (c # cs) =
     (if c \<noteq> CHR ''$'' then c # expand m cs
      else if cs = [] then [c]
      else if hd cs = CHR ''{'' then
        (let nm = takeWhile ident_char (tl cs); rest = dropWhile ident_char (tl cs) in
         if rest = [] then c # cs
         else if hd rest = CHR ''}'' \<and> m nm \<noteq> None then the (m nm) @ expand m (tl rest)
         else c # hd cs # nm @ expand m rest)
      else
        (let nm = takeWhile ident_char cs; rest = dropWhile ident_char cs in
         (case m nm of Some v \<Rightarrow> v @ expand m rest | None \<Rightarrow> c # nm @ expand m rest)))"
  by pat_completeness auto
termination
  by (relation "measure (\<lambda>(m, s). length s)")
    (auto simp: le_imp_less_Suc length_dropWhile_le intro: le_less_trans [OF length_dropWhile_le]
      intro!: less_SucI le_less_trans [OF diff_le_self] le_less_trans [OF length_dropWhile_le])

declare expand.simps(2) [simp del]

lemma expand_no_dollar: "CHR ''$'' \<notin> set xs \<Longrightarrow> expand m (xs @ ys) = xs @ expand m ys"
  by (induction xs) (auto simp: expand.simps(2))

lemma past_ident_append:
  "past_ident (p @ q) (length p) = length p + length (takeWhile ident_char q)"
proof (cases "\<exists>c \<in> set q. \<not> ident_char c")
  case True
  then show ?thesis by (simp add: past_ident_def find_from_def find_idx_takeWhile)
next
  case False
  then have "length (takeWhile ident_char q) = length q"
    using takeWhile_eq_all_conv [of ident_char q] by metis
  with False show ?thesis by (simp add: past_ident_def find_from_def find_idx_takeWhile)
qed

lemma find_dollar_append:
  "find_dollar (p @ q) (length p) = map_option ((+) (length p)) (find_dollar q 0)"
  by (cases "find_idx (\<lambda>c. c = CHR ''$'') q") (simp_all add: find_from_def)

lemma find_dollar_split:
  assumes "find_dollar t 0 = Some i"
  obtains xs cs where "t = xs @ CHR ''$'' # cs" "length xs = i" "CHR ''$'' \<notin> set xs"
proof
  have i: "i < length t" "t ! i = CHR ''$''" "\<And>j. j < i \<Longrightarrow> t ! j \<noteq> CHR ''$''"
    using assms by (auto simp: find_from_Some)
  show "t = take i t @ CHR ''$'' # drop (Suc i) t" using id_take_nth_drop [OF i(1)] i(2) by simp
  show "length (take i t) = i" using i by simp
  show "CHR ''$'' \<notin> set (take i t)" using i by (auto simp: in_set_conv_nth)
qed

text \<open>One turn of the loop at a dollar sign, bracketed and plain.\<close>

lemma subst_loop_bracket:
  fixes p ds :: string and m
  defines "nm \<equiv> takeWhile ident_char ds" and "rest \<equiv> dropWhile ident_char ds"
    and "str \<equiv> p @ CHR ''$'' # CHR ''{'' # ds"
  shows "subst_loop m str (Some (length p)) =
    (if rest = [] then str
     else if hd rest = CHR ''}'' \<and> m nm \<noteq> None then
       subst_loop m (p @ the (m nm) @ tl rest) (find_dollar (p @ the (m nm) @ tl rest) (length p + length (the (m nm))))
     else subst_loop m str (find_dollar str (length p + 1 + 1 + length nm)))"
proof (cases "ds = []")
  case True
  then show ?thesis by (simp add: subst_loop.simps(2) str_def rest_def nth_append)
next
  case False
  have split: "str = (p @ [CHR ''$'', CHR ''{'']) @ ds" "ds = nm @ rest"
    by (simp_all add: str_def nm_def rest_def)
  have past: "past_ident str (length p + 1 + 1) = length p + 1 + 1 + length nm"
    using past_ident_append [of "p @ [CHR ''$'', CHR ''{'']" ds] by (simp add: split(1) nm_def)
  have name: "substr str (length p + 1 + 1) (length nm) = nm"
    by (subst split(1), subst split(2)) (simp add: substr_def)
  have len: "length str = length p + 1 + 1 + length nm + length rest"
    by (subst split(1), subst split(2)) simp
  have nth: "rest \<noteq> [] \<Longrightarrow> str ! (length p + 1 + 1 + length nm) = hd rest"
    by (subst split(1), subst split(2)) (simp add: nth_append hd_conv_nth)
  have rem: "drop (length p + 1 + 1 + length nm + 1) str = tl rest"
    by (subst split(1), subst split(2)) (simp add: drop_Suc eval_nat_numeral)
  have brk: "str ! (length p + 1) = CHR ''{''" by (simp add: str_def nth_append)
  have take: "take (length p) str = p" by (simp add: str_def)
  have "\<not> length str \<le> length p + 1 + 1" using False len by (auto simp: split(2))
  then show ?thesis
    using past name len nth rem brk take
    by (cases "nm = []")
      (simp_all add: subst_loop.simps(2) Let_def del: One_nat_def add_2_eq_Suc' split: option.splits)
qed

lemma subst_loop_plain:
  fixes p cs :: string and m
  assumes cs: "cs \<noteq> []" "hd cs \<noteq> CHR ''{''"
  defines "nm \<equiv> takeWhile ident_char cs" and "rest \<equiv> dropWhile ident_char cs"
    and "str \<equiv> p @ CHR ''$'' # cs"
  shows "subst_loop m str (Some (length p)) =
    (case m nm of
       Some v \<Rightarrow> subst_loop m (p @ v @ rest) (find_dollar (p @ v @ rest) (length p + length v))
     | None \<Rightarrow> subst_loop m str (find_dollar str (length p + 1 + length nm)))"
proof -
  have split: "str = (p @ [CHR ''$'']) @ cs" "cs = nm @ rest"
    by (simp_all add: str_def nm_def rest_def)
  have past: "past_ident str (length p + 1) = length p + 1 + length nm"
    using past_ident_append [of "p @ [CHR ''$'']" cs] by (simp add: split(1) nm_def)
  have name: "substr str (length p + 1) (length nm) = nm"
    by (subst split(1), subst split(2)) (simp add: substr_def)
  have rem: "drop (length p + 1 + length nm) str = rest"
    by (subst split(1), subst split(2)) simp
  have brk: "str ! (length p + 1) \<noteq> CHR ''{''"
    using cs by (simp add: str_def nth_append hd_conv_nth)
  have take: "take (length p) str = p" by (simp add: str_def)
  have "\<not> length str \<le> length p + 1" using cs by (simp add: str_def)
  then show ?thesis
    using past name rem brk take
    by (simp add: subst_loop.simps(2) Let_def del: One_nat_def split: option.splits)
qed

lemma subst_loop_expand:
  "subst_loop m (pre @ t) (find_dollar (pre @ t) (length pre)) = pre @ expand m t"
proof (induction "length t" arbitrary: pre t rule: less_induct)
  case less
  have IH: "subst_loop m str (find_dollar str n) = pre' @ expand m t'"
    if "str = pre' @ t'" "n = length pre'" "length t' < length t" for str n pre' t'
    using less that by simp
  show ?case
  proof (cases "find_dollar t 0")
    case None
    then have "CHR ''$'' \<notin> set t" by (auto simp: find_from_None)
    then have "expand m t = t" using expand_no_dollar [of t m "[]"] by simp
    with None show ?thesis by (simp add: find_dollar_append)
  next
    case (Some i)
    then obtain xs cs where t: "t = xs @ CHR ''$'' # cs" "length xs = i" "CHR ''$'' \<notin> set xs"
      by (rule find_dollar_split)
    define p where "p = pre @ xs"
    have str: "pre @ t = p @ CHR ''$'' # cs" and len: "length pre + i = length p"
      using t by (simp_all add: p_def)
    have goal: "subst_loop m (p @ CHR ''$'' # cs) (Some (length p)) = p @ expand m (CHR ''$'' # cs)"
    proof (cases "cs = [] \<or> hd cs \<noteq> CHR ''{''")
      case True
      show ?thesis
      proof (cases "cs = []")
        case False
        have "length (dropWhile ident_char cs) < length t"
          using length_dropWhile_le [of ident_char cs] t by simp
        with False True show ?thesis
          by (auto simp: subst_loop_plain expand.simps(2) Let_def split: option.splits
              intro!: IH [where pre' = "p @ v" for v, simplified]
                IH [where pre' = "p @ CHR ''$'' # takeWhile ident_char cs", simplified])
      qed (simp add: subst_loop.simps(2) expand.simps(2))
    next
      case False
      then obtain ds where ds: "cs = CHR ''{'' # ds" by (cases cs) auto
      have "length (dropWhile ident_char ds) < length t"
        using length_dropWhile_le [of ident_char ds] t ds by simp
      then show ?thesis
        by (auto simp: ds subst_loop_bracket expand.simps(2) Let_def
            intro!: IH [where pre' = "p @ v" for v, simplified]
              IH [where pre' = "p @ CHR ''$'' # CHR ''{'' # takeWhile ident_char ds", simplified])
    qed
    have "expand m t = xs @ expand m (CHR ''$'' # cs)" using t expand_no_dollar by simp
    with goal show ?thesis using Some len t(1)
      by (simp add: find_dollar_append str) (simp add: p_def)
  qed
qed

section \<open>Properties\<close>

text \<open>C5. \<open>substitute\<close>, which splices values into the string in place and searches on from
  where the inserted text ends, computes the one-pass expansion of the text: every known
  \<open>$name\<close> and \<open>${name}\<close> is replaced by its value, unknown variables and broken
  braces stay as they are, and inserted text is never expanded again.\<close>

theorem substitute_expands: "substitute m str = expand m str"
  using subst_loop_expand [of m "[]" str] by (simp add: substitute_def)

end
