(* ===== verification/ConfigParser.thy ===== *)
theory ConfigParser
  imports IniParser OrderedMap ConfigSubst
begin

text \<open>
  \<open>ConfigParser\<close> (include/libdnf/conf/config_parser.hpp, libdnf/conf/config_parser.cpp):
  the ordered store of sections and options read from .ini text, with the raw text of every
  item kept for writing. The \<open>std::map\<close>s \<open>raw_items\<close> and \<open>substitutions\<close>, whose order
  is never observed, are association lists with one entry per key.
\<close>

section \<open>State\<close>

datatype cfg_error =
    SectionNotFound string
  | OptionNotFound string
  | ParseError ini_error

record cfg =
  cfg_substitutions :: "(string, string) pom"
  cfg_data :: "(string, (string, string) pom) pom"
  cfg_item_number :: nat
  cfg_header :: string
  cfg_raw_items :: "(string, string) pom"

definition cfg_new :: cfg where
  "cfg_new = \<lparr>cfg_substitutions = [], cfg_data = [], cfg_item_number = 0, cfg_header = [], cfg_raw_items = []\<rparr>"

definition set_substitutions :: "(string, string) pom \<Rightarrow> cfg \<Rightarrow> cfg" where
  "set_substitutions subst cfg = cfg\<lparr>cfg_substitutions := subst\<rparr>"

text \<open>Writing through \<open>std::map::operator[]\<close> and \<open>std::map::erase\<close>.\<close>

abbreviation smap_put :: "string \<Rightarrow> string \<Rightarrow> (string, string) pom \<Rightarrow> (string, string) pom" where
  "smap_put \<equiv> pom_put []"

abbreviation smap_erase :: "string \<Rightarrow> (string, string) pom \<Rightarrow> (string, string) pom" where
  "smap_erase \<equiv> pom_del"

text \<open>The key of an option in \<open>raw_items\<close>.\<close>

definition raw_key :: "string \<Rightarrow> string \<Rightarrow> string" where
  "raw_key section_name key = section_name @ CHR '']'' # key"

section \<open>Sections and options\<close>

definition add_section :: "string \<Rightarrow> string \<Rightarrow> cfg \<Rightarrow> cfg \<times> bool" where
  "add_section s raw_line cfg =
     (if pom_find s (cfg_data cfg) \<noteq> length (cfg_data cfg) then (cfg, False)
      else
        (let cfg = (if raw_line \<noteq> [] then cfg\<lparr>cfg_raw_items := smap_put s raw_line (cfg_raw_items cfg)\<rparr> else cfg)
         in (cfg\<lparr>cfg_data := pom_put [] s [] (cfg_data cfg)\<rparr>, True)))"

definition add_section_plain :: "string \<Rightarrow> cfg \<Rightarrow> cfg \<times> bool" where
  "add_section_plain s cfg = add_section s [] cfg"

definition has_section :: "string \<Rightarrow> cfg \<Rightarrow> bool" where
  "has_section s cfg \<longleftrightarrow> pom_find s (cfg_data cfg) \<noteq> length (cfg_data cfg)"

definition has_option :: "string \<Rightarrow> string \<Rightarrow> cfg \<Rightarrow> bool" where
  "has_option s k cfg \<longleftrightarrow>
     (let it = pom_find s (cfg_data cfg) in
      it \<noteq> length (cfg_data cfg) \<and>
      pom_find k (snd (cfg_data cfg ! it)) \<noteq> length (snd (cfg_data cfg ! it)))"

text \<open>
  \<open>section_iter->second\<close> is a reference into \<open>data\<close>: \<open>at_section s f\<close> runs
  \<open>f\<close> on the section's options in place, after the check that the section exists.
\<close>

definition at_section ::
  "string \<Rightarrow> ((string, string) pom \<Rightarrow> (string, string) pom) \<Rightarrow> cfg \<Rightarrow> cfg_error + cfg" where
  "at_section s f cfg =
     (let it = pom_find s (cfg_data cfg) in
      if it = length (cfg_data cfg) then Inl (SectionNotFound s)
      else Inr (cfg\<lparr>cfg_data := (cfg_data cfg)[it := (fst (cfg_data cfg ! it), f (snd (cfg_data cfg ! it)))]\<rparr>))"

definition set_value_raw :: "string \<Rightarrow> string \<Rightarrow> string \<Rightarrow> string \<Rightarrow> cfg \<Rightarrow> cfg_error + cfg" where
  "set_value_raw s k v raw cfg =
     (if pom_find s (cfg_data cfg) = length (cfg_data cfg) then Inl (SectionNotFound s)
      else
        (let cfg = (if cfg_raw_items cfg = []
                    then cfg\<lparr>cfg_raw_items := smap_erase (raw_key s k) (cfg_raw_items cfg)\<rparr>
                    else cfg\<lparr>cfg_raw_items := smap_put (raw_key s k) raw (cfg_raw_items cfg)\<rparr>)
         in at_section s (pom_put [] k v) cfg))"

definition create_raw_item :: "string \<Rightarrow> string \<Rightarrow> string" where
  "create_raw_item v old_raw =
     (case find_from (\<lambda>c. c = CHR ''='') old_raw 0 of
        None \<Rightarrow> []
      | Some eql_pos \<Rightarrow>
          (let key_and_delim_length =
             (case find_from (\<lambda>c. c \<noteq> CHR '' '' \<and> c \<noteq> CHR 0x09) old_raw (eql_pos + 1) of
                Some value_pos \<Rightarrow> value_pos
              | None \<Rightarrow> length old_raw)
           in substr old_raw 0 key_and_delim_length @ v @ [delimiter]))"

definition set_value :: "string \<Rightarrow> string \<Rightarrow> string \<Rightarrow> cfg \<Rightarrow> cfg_error + cfg" where
  "set_value s k v cfg =
     (let raw = create_raw_item v (case map_of (cfg_raw_items cfg) (raw_key s k) of Some r \<Rightarrow> r | None \<Rightarrow> [])
      in set_value_raw s k v raw cfg)"

definition remove_section :: "string \<Rightarrow> cfg \<Rightarrow> cfg \<times> bool" where
  "remove_section s cfg =
     (let (d, n) = pom_erase s (cfg_data cfg); removed = n > 0;
          cfg = cfg\<lparr>cfg_data := d\<rparr>
      in (if removed then cfg\<lparr>cfg_raw_items := smap_erase s (cfg_raw_items cfg)\<rparr> else cfg, removed))"

definition remove_option :: "string \<Rightarrow> string \<Rightarrow> cfg \<Rightarrow> cfg \<times> bool" where
  "remove_option s k cfg =
     (let it = pom_find s (cfg_data cfg) in
      if it = length (cfg_data cfg) then (cfg, False)
      else
        (let (opts, n) = pom_erase k (snd (cfg_data cfg ! it)); removed = n > 0;
             cfg = cfg\<lparr>cfg_data := (cfg_data cfg)[it := (fst (cfg_data cfg ! it), opts)]\<rparr>
         in (if removed then cfg\<lparr>cfg_raw_items := smap_erase (raw_key s k) (cfg_raw_items cfg)\<rparr> else cfg,
             removed)))"

text \<open>Comments and blank lines are stored as options named \<open>#1\<close>, \<open>#2\<close>, \<dots>\<close>

definition comment_key :: "nat \<Rightarrow> string" where
  "comment_key n = CHR ''#'' # nat_string n"

definition add_comment_line :: "string \<Rightarrow> string \<Rightarrow> cfg \<Rightarrow> cfg_error + cfg" where
  "add_comment_line s comment cfg =
     (if pom_find s (cfg_data cfg) = length (cfg_data cfg) then Inl (SectionNotFound s)
      else
        (let n = Suc (cfg_item_number cfg); cfg = cfg\<lparr>cfg_item_number := n\<rparr>
         in at_section s (pom_put [] (comment_key n) comment) cfg))"

definition get_value :: "string \<Rightarrow> string \<Rightarrow> cfg \<Rightarrow> cfg_error + string" where
  "get_value s k cfg =
     (let sec = pom_find s (cfg_data cfg) in
      if sec = length (cfg_data cfg) then Inl (SectionNotFound s)
      else
        (let opts = snd (cfg_data cfg ! sec); key_val = pom_find k opts in
         if key_val = length opts then Inl (OptionNotFound (k @ '' in section '' @ s))
         else Inr (snd (opts ! key_val))))"

definition get_substituted_value :: "string \<Rightarrow> string \<Rightarrow> cfg \<Rightarrow> cfg_error + string" where
  "get_substituted_value s k cfg =
     and_then (get_value s k cfg) (\<lambda>v. Inr (substitute (map_of (cfg_substitutions cfg)) v))"

section \<open>Reading\<close>

text \<open>
  One item of the input. The sources move the parser's strings out of it; what is left in
  them is overwritten by \<open>next()\<close> before it is read again.
\<close>

definition read_item :: "item_type \<Rightarrow> ini \<Rightarrow> cfg \<Rightarrow> cfg_error + cfg" where
  "read_item readed_type p cfg =
     (let s = ini_sect p in
      if readed_type = SECTION then Inr (fst (add_section s (ini_raw_item p) cfg))
      else if readed_type = KEY_VAL then set_value_raw s (ini_key p) (ini_val p) (ini_raw_item p) cfg
      else if readed_type = COMMENT_LINE \<or> readed_type = EMPTY_LINE then
        if s = [] then Inr (cfg\<lparr>cfg_header := cfg_header cfg @ ini_raw_item p\<rparr>)
        else add_comment_line s (ini_raw_item p) cfg
      else Inr cfg)"

text \<open>An exception leaves what was read before it in the object.\<close>

function read_loop :: "cfg \<Rightarrow> ini \<Rightarrow> cfg \<times> cfg_error option" where
  "read_loop cfg p =
     (case ini_next p of
        Inl e \<Rightarrow> (cfg, Some (ParseError e))
      | Inr (t, p') \<Rightarrow>
          if t = END_OF_INPUT then (cfg, None)
          else (case read_item t p' cfg of
                  Inl e \<Rightarrow> (cfg, Some e)
                | Inr cfg' \<Rightarrow> read_loop cfg' p'))"
  by pat_completeness auto
termination
  by (relation "measure (\<lambda>(cfg, p). ini_size p)") (auto intro: ini_next_shrinks)

declare read_loop.simps [simp del]

definition cfg_read :: "string option \<Rightarrow> cfg \<Rightarrow> cfg \<times> cfg_error option" where
  "cfg_read input cfg =
     (case ini_open input of Inl e \<Rightarrow> (cfg, Some (ParseError e)) | Inr p \<Rightarrow> read_loop cfg p)"

section \<open>Writing\<close>

definition write_key_val :: "string \<Rightarrow> (string, string) pom \<Rightarrow> string \<times> string \<Rightarrow> string" where
  "write_key_val s raws key_val =
     (let first_char = (case fst key_val of [] \<Rightarrow> CHR 0x00 | c # _ \<Rightarrow> c) in
      if first_char = CHR ''#'' \<or> first_char = CHR '';'' then snd key_val
      else (case map_of raws (raw_key s (fst key_val)) of
              Some raw \<Rightarrow> raw
            | None \<Rightarrow> fst key_val @ ''='' @
                concat (map (\<lambda>chr. if chr = delimiter then [chr, CHR '' ''] else [chr]) (snd key_val)) @
                [delimiter]))"

definition write_key_vals :: "string \<Rightarrow> (string, string) pom \<Rightarrow> (string, string) pom \<Rightarrow> string" where
  "write_key_vals s key_val_map raws = concat (map (write_key_val s raws) key_val_map)"

definition write_section :: "string \<Rightarrow> (string, string) pom \<Rightarrow> (string, string) pom \<Rightarrow> string" where
  "write_section s key_val_map raws =
     (case map_of raws s of Some raw \<Rightarrow> raw | None \<Rightarrow> ''['' @ s @ '']'' @ [delimiter]) @
     write_key_vals s key_val_map raws"

definition cfg_write :: "cfg \<Rightarrow> string" where
  "cfg_write cfg =
     cfg_header cfg @ concat (map (\<lambda>sec. write_section (fst sec) (snd sec) (cfg_raw_items cfg)) (cfg_data cfg))"

definition cfg_write_section :: "string \<Rightarrow> cfg \<Rightarrow> cfg_error + string" where
  "cfg_write_section s cfg =
     (let sit = pom_find s (cfg_data cfg) in
      if sit = length (cfg_data cfg) then Inl (SectionNotFound s)
      else Inr (write_section (fst (cfg_data cfg ! sit)) (snd (cfg_data cfg ! sit)) (cfg_raw_items cfg)))"

text \<open>To a file: \<open>old\<close> is what the file held; the section check comes before it is opened.\<close>

definition cfg_write_file :: "string \<Rightarrow> bool \<Rightarrow> cfg \<Rightarrow> string" where
  "cfg_write_file old app cfg = (if app then old else []) @ cfg_write cfg"

definition cfg_write_section_file :: "string \<Rightarrow> bool \<Rightarrow> string \<Rightarrow> cfg \<Rightarrow> cfg_error + string" where
  "cfg_write_section_file old app s cfg =
     (let sit = pom_find s (cfg_data cfg) in
      if sit = length (cfg_data cfg) then Inl (SectionNotFound s)
      else Inr ((if app then old else []) @
                write_section (fst (cfg_data cfg ! sit)) (snd (cfg_data cfg ! sit)) (cfg_raw_items cfg)))"

section \<open>The abstract view\<close>

text \<open>A configuration is a map from section names to maps from option names to values.\<close>

definition cfg_abs :: "cfg \<Rightarrow> string \<rightharpoonup> (string \<rightharpoonup> string)" where
  "cfg_abs cfg s = map_option map_of (map_of (cfg_data cfg) s)"

definition cfg_inv :: "cfg \<Rightarrow> bool" where
  "cfg_inv cfg \<longleftrightarrow> pom_inv (cfg_data cfg) \<and> (\<forall>sec \<in> set (cfg_data cfg). pom_inv (snd sec)) \<and>
     pom_inv (cfg_raw_items cfg)"

lemma cfg_inv_section: "cfg_inv cfg \<Longrightarrow> map_of (cfg_data cfg) s = Some opts \<Longrightarrow> pom_inv opts"
  by (force simp: cfg_inv_def dest: map_of_SomeD)

lemma at_section_eq:
  "at_section s f cfg =
     (case map_of (cfg_data cfg) s of
        None \<Rightarrow> Inl (SectionNotFound s)
      | Some opts \<Rightarrow> Inr (cfg\<lparr>cfg_data := pom_put d s (f opts) (cfg_data cfg)\<rparr>))"
  using pom_find_nth [of "cfg_data cfg" s]
  by (auto simp: at_section_def Let_def pom_find_end pom_put_present split: option.splits)

lemma set_pom_put: "set (pom_put d k v m) \<subseteq> insert (k, v) (set m)"
  by (induction m) (auto simp: pom_put_Cons pom_put_absent split: if_splits)

lemma cfg_inv_put:
  "cfg_inv cfg \<Longrightarrow> pom_inv opts \<Longrightarrow> cfg_inv (cfg\<lparr>cfg_data := pom_put d s opts (cfg_data cfg)\<rparr>)"
  using set_pom_put [of d s opts "cfg_data cfg"] by (auto simp: cfg_inv_def)

lemma at_section_inv:
  "cfg_inv cfg \<Longrightarrow> (\<And>opts. pom_inv opts \<Longrightarrow> pom_inv (f opts)) \<Longrightarrow> at_section s f cfg = Inr cfg' \<Longrightarrow>
     cfg_inv cfg'"
  by (auto simp: at_section_eq [where d = "[]"] cfg_inv_section intro!: cfg_inv_put split: option.splits)

lemma add_section_eq:
  "add_section s raw cfg =
     (if map_of (cfg_data cfg) s \<noteq> None then (cfg, False)
      else (cfg\<lparr>cfg_data := cfg_data cfg @ [(s, [])],
                cfg_raw_items := (if raw = [] then cfg_raw_items cfg else smap_put s raw (cfg_raw_items cfg))\<rparr>,
            True))"
  by (simp add: add_section_def pom_find_end pom_put_absent)

lemma set_value_raw_eq:
  "set_value_raw s k v raw cfg =
     (case map_of (cfg_data cfg) s of
        None \<Rightarrow> Inl (SectionNotFound s)
      | Some opts \<Rightarrow> Inr (cfg\<lparr>cfg_data := pom_put [] s (pom_put [] k v opts) (cfg_data cfg),
           cfg_raw_items := (if cfg_raw_items cfg = [] then []
                             else smap_put (raw_key s k) raw (cfg_raw_items cfg))\<rparr>))"
  by (simp add: set_value_raw_def pom_find_end Let_def at_section_eq [where d = "[]"] pom_del_Nil
      split: option.splits)

lemma add_comment_line_eq:
  "add_comment_line s comment cfg =
     (case map_of (cfg_data cfg) s of
        None \<Rightarrow> Inl (SectionNotFound s)
      | Some opts \<Rightarrow> Inr (cfg\<lparr>cfg_data := pom_put [] s
           (pom_put [] (comment_key (Suc (cfg_item_number cfg))) comment opts) (cfg_data cfg),
           cfg_item_number := Suc (cfg_item_number cfg)\<rparr>))"
  by (simp add: add_comment_line_def pom_find_end Let_def at_section_eq [where d = "[]"]
      split: option.splits)

lemma get_value_eq:
  "get_value s k cfg =
     (case cfg_abs cfg s of
        None \<Rightarrow> Inl (SectionNotFound s)
      | Some opts \<Rightarrow> (case opts k of None \<Rightarrow> Inl (OptionNotFound (k @ '' in section '' @ s)) | Some v \<Rightarrow> Inr v))"
proof (cases "map_of (cfg_data cfg) s")
  case (Some opts)
  note sec = pom_find_nth [OF Some]
  show ?thesis
  proof (cases "map_of opts k")
    case None
    then show ?thesis using Some sec by (simp add: get_value_def cfg_abs_def pom_find_end)
  next
    case (Some v)
    with pom_find_nth [OF this] sec \<open>map_of (cfg_data cfg) s = Some opts\<close> show ?thesis
      by (simp add: get_value_def cfg_abs_def)
  qed
qed (simp add: get_value_def cfg_abs_def pom_find_end)

lemma has_section_eq: "has_section s cfg \<longleftrightarrow> cfg_abs cfg s \<noteq> None"
  by (simp add: has_section_def cfg_abs_def pom_find_end)

lemma has_option_eq: "has_option s k cfg \<longleftrightarrow> (\<exists>opts. cfg_abs cfg s = Some opts \<and> opts k \<noteq> None)"
proof (cases "map_of (cfg_data cfg) s")
  case (Some opts)
  with pom_find_nth [OF Some] show ?thesis by (auto simp: has_option_def cfg_abs_def pom_find_end)
qed (simp add: has_option_def cfg_abs_def pom_find_end)

lemma remove_section_eq:
  "remove_section s cfg =
     (if cfg_abs cfg s = None then (cfg, False)
      else (cfg\<lparr>cfg_data := pom_del s (cfg_data cfg), cfg_raw_items := smap_erase s (cfg_raw_items cfg)\<rparr>, True))"
  by (auto simp: remove_section_def pom_erase_def pom_del_def cfg_abs_def pom_find_end Let_def)

lemma remove_option_eq:
  "remove_option s k cfg =
     (case map_of (cfg_data cfg) s of
        None \<Rightarrow> (cfg, False)
      | Some opts \<Rightarrow>
          if map_of opts k = None then (cfg, False)
          else (cfg\<lparr>cfg_data := pom_put [] s (pom_del k opts) (cfg_data cfg),
                    cfg_raw_items := smap_erase (raw_key s k) (cfg_raw_items cfg)\<rparr>, True))"
proof (cases "map_of (cfg_data cfg) s")
  case (Some opts)
  note sec = pom_find_nth [OF Some]
  have "(cfg_data cfg)[pom_find s (cfg_data cfg) := (s, opts)] = cfg_data cfg"
    using sec list_update_id [of "cfg_data cfg" "pom_find s (cfg_data cfg)"] by simp
  with Some sec show ?thesis
    by (simp add: remove_option_def pom_erase_def pom_del_def pom_find_end Let_def pom_put_present)
qed (simp add: remove_option_def pom_find_end)

section \<open>Every operation keeps the containers well formed\<close>

inductive cfg_step :: "cfg \<Rightarrow> cfg \<Rightarrow> bool" where
  step_substitutions: "cfg_step cfg (set_substitutions subst cfg)"
| step_add_section: "cfg_step cfg (fst (add_section s raw cfg))"
| step_set_value_raw: "set_value_raw s k v raw cfg = Inr cfg' \<Longrightarrow> cfg_step cfg cfg'"
| step_set_value: "set_value s k v cfg = Inr cfg' \<Longrightarrow> cfg_step cfg cfg'"
| step_remove_section: "cfg_step cfg (fst (remove_section s cfg))"
| step_remove_option: "cfg_step cfg (fst (remove_option s k cfg))"
| step_add_comment: "add_comment_line s comment cfg = Inr cfg' \<Longrightarrow> cfg_step cfg cfg'"
| step_header: "cfg_step cfg (cfg\<lparr>cfg_header := h\<rparr>)"
| step_read: "cfg_step cfg (fst (cfg_read input cfg))"

inductive cfg_reachable :: "cfg \<Rightarrow> bool" where
  reach_new: "cfg_reachable cfg_new"
| reach_step: "cfg_reachable cfg \<Longrightarrow> cfg_step cfg cfg' \<Longrightarrow> cfg_reachable cfg'"

lemma cfg_inv_new: "cfg_inv cfg_new"
  by (simp add: cfg_inv_def cfg_new_def)

lemma cfg_inv_frame [simp]:
  "cfg_inv (cfg\<lparr>cfg_header := h\<rparr>) = cfg_inv cfg"
  "cfg_inv (cfg\<lparr>cfg_item_number := n\<rparr>) = cfg_inv cfg"
  "cfg_inv (cfg\<lparr>cfg_substitutions := su\<rparr>) = cfg_inv cfg"
  by (simp_all add: cfg_inv_def)

lemma cfg_inv_raws:
  "cfg_inv cfg \<Longrightarrow> pom_inv r \<Longrightarrow> cfg_inv (cfg\<lparr>cfg_raw_items := r\<rparr>)"
  by (simp add: cfg_inv_def)

lemma cfg_inv_put_raws:
  assumes "cfg_inv cfg" "pom_inv opts" "pom_inv r"
  shows "cfg_inv (cfg\<lparr>cfg_data := pom_put d s opts (cfg_data cfg), cfg_raw_items := r\<rparr>)"
  using cfg_inv_raws [OF cfg_inv_put [OF assms(1,2), of d s] assms(3)] by simp

lemma cfg_inv_pom: "cfg_inv cfg \<Longrightarrow> pom_inv (cfg_raw_items cfg)" "cfg_inv cfg \<Longrightarrow> pom_inv (cfg_data cfg)"
  by (simp_all add: cfg_inv_def)

lemma cfg_inv_add_section: "cfg_inv cfg \<Longrightarrow> cfg_inv (fst (add_section s raw cfg))"
  using pom_inv_put [of "cfg_raw_items cfg" "[]" s raw]
  by (auto simp: add_section_eq cfg_inv_def pom_inv_def map_of_eq_None_iff)

lemma cfg_inv_set_value_raw:
  assumes "cfg_inv cfg" "set_value_raw s k v raw cfg = Inr cfg'"
  shows "cfg_inv cfg'"
proof -
  obtain opts where o: "map_of (cfg_data cfg) s = Some opts"
    using assms(2) by (auto simp: set_value_raw_eq split: option.splits)
  have "pom_inv (pom_put [] k v opts)" using cfg_inv_section [OF assms(1) o] by (rule pom_inv_put)
  moreover have "pom_inv (smap_put (raw_key s k) raw (cfg_raw_items cfg))"
    using cfg_inv_pom(1) [OF assms(1)] by (rule pom_inv_put)
  ultimately show ?thesis
    using assms o cfg_inv_put_raws [OF assms(1)] pom_inv_Nil
    by (auto simp: set_value_raw_eq split: if_splits)
qed

lemma cfg_inv_set_value: "cfg_inv cfg \<Longrightarrow> set_value s k v cfg = Inr cfg' \<Longrightarrow> cfg_inv cfg'"
  by (auto simp: set_value_def Let_def intro: cfg_inv_set_value_raw)

lemma cfg_inv_add_comment: "cfg_inv cfg \<Longrightarrow> add_comment_line s c cfg = Inr cfg' \<Longrightarrow> cfg_inv cfg'"
proof -
  assume a: "cfg_inv cfg" "add_comment_line s c cfg = Inr cfg'"
  then obtain opts where o: "map_of (cfg_data cfg) s = Some opts"
    and c: "cfg' = cfg\<lparr>cfg_data := pom_put [] s (pom_put [] (comment_key (Suc (cfg_item_number cfg))) c opts)
        (cfg_data cfg)\<rparr>\<lparr>cfg_item_number := Suc (cfg_item_number cfg)\<rparr>"
    by (auto simp: add_comment_line_eq split: option.splits)
  show "cfg_inv cfg'"
    unfolding c using a(1) o by (simp only: cfg_inv_frame) (intro cfg_inv_put pom_inv_put cfg_inv_section)
qed

lemma set_pom_del: "set (pom_del k m) \<subseteq> set m"
  by (induction m) (auto simp: pom_del_Cons pom_del_Nil split: if_splits)

lemma cfg_inv_remove_section: "cfg_inv cfg \<Longrightarrow> cfg_inv (fst (remove_section s cfg))"
  using set_pom_del [of s "cfg_data cfg"] by (auto simp: remove_section_eq cfg_inv_def)

lemma cfg_inv_remove_option: "cfg_inv cfg \<Longrightarrow> cfg_inv (fst (remove_option s k cfg))"
  using cfg_inv_put_raws [OF _ pom_inv_del [OF cfg_inv_section] pom_inv_del [OF cfg_inv_pom(1)]]
  by (auto simp: remove_option_eq split: option.splits)

lemma cfg_inv_read_item: "cfg_inv cfg \<Longrightarrow> read_item t p cfg = Inr cfg' \<Longrightarrow> cfg_inv cfg'"
  by (auto simp: read_item_def Let_def split: if_splits
      intro: cfg_inv_set_value_raw cfg_inv_add_comment cfg_inv_add_section)

lemma cfg_inv_read_loop: "cfg_inv cfg \<Longrightarrow> cfg_inv (fst (read_loop cfg p))"
proof (induction cfg p rule: read_loop.induct)
  case (1 cfg p)
  show ?case
  proof (cases "ini_next p")
    case (Inr r)
    then obtain t p' where n: "ini_next p = Inr (t, p')" by (cases r) auto
    show ?thesis
    proof (cases "t = END_OF_INPUT \<or> (\<exists>e. read_item t p' cfg = Inl e)")
      case False
      then obtain cfg' where c: "t \<noteq> END_OF_INPUT" "read_item t p' cfg = Inr cfg'"
        by (cases "read_item t p' cfg") auto
      then show ?thesis
        using "1.IH" [OF n refl c] cfg_inv_read_item [OF "1.prems" c(2)] n
        by (simp add: read_loop.simps [of cfg p])
    qed (use "1.prems" n in \<open>auto simp: read_loop.simps [of cfg p]\<close>)
  qed (use "1.prems" in \<open>simp add: read_loop.simps [of cfg p]\<close>)
qed

lemma cfg_step_inv: "cfg_step cfg cfg' \<Longrightarrow> cfg_inv cfg \<Longrightarrow> cfg_inv cfg'"
  by (induction rule: cfg_step.induct)
    (auto simp: set_substitutions_def cfg_read_def split: sum.splits
      intro: cfg_inv_add_section cfg_inv_set_value_raw cfg_inv_set_value cfg_inv_remove_section
        cfg_inv_remove_option cfg_inv_add_comment cfg_inv_read_loop)

lemma cfg_reachable_inv: "cfg_reachable cfg \<Longrightarrow> cfg_inv cfg"
  by (induction rule: cfg_reachable.induct) (auto simp: cfg_inv_new intro: cfg_step_inv)

section \<open>Refinement of the abstract view\<close>

lemma cfg_abs_set_value_raw:
  "set_value_raw s k v raw cfg =
     (case cfg_abs cfg s of None \<Rightarrow> Inl (SectionNotFound s) | Some opts \<Rightarrow> set_value_raw s k v raw cfg)"
  "set_value_raw s k v raw cfg = Inr cfg' \<Longrightarrow>
     cfg_abs cfg' = (cfg_abs cfg)(s \<mapsto> (the (cfg_abs cfg s))(k \<mapsto> v))"
  by (auto simp: set_value_raw_eq cfg_abs_def map_of_pom_put fun_eq_iff split: option.splits)

lemma cfg_abs_remove_option:
  assumes "cfg_inv cfg"
  shows "cfg_abs (fst (remove_option s k cfg)) =
    (case cfg_abs cfg s of None \<Rightarrow> cfg_abs cfg | Some opts \<Rightarrow> (cfg_abs cfg)(s \<mapsto> opts(k := None)))"
proof (cases "map_of (cfg_data cfg) s")
  case (Some opts)
  then have "pom_inv opts" using assms by (simp add: cfg_inv_section)
  with Some show ?thesis
    by (auto simp: remove_option_eq cfg_abs_def map_of_pom_put map_of_pom_del fun_eq_iff)
qed (simp add: remove_option_eq cfg_abs_def)

lemma cfg_abs_remove_section:
  "cfg_inv cfg \<Longrightarrow> cfg_abs (fst (remove_section s cfg)) = (cfg_abs cfg)(s := None)"
  by (auto simp: remove_section_eq cfg_abs_def map_of_pom_del cfg_inv_pom fun_eq_iff)

lemma cfg_abs_add_section:
  "cfg_abs (fst (add_section s raw cfg)) =
     (if cfg_abs cfg s = None then (cfg_abs cfg)(s \<mapsto> Map.empty) else cfg_abs cfg)"
proof (cases "map_of (cfg_data cfg) s")
  case None
  then show ?thesis
    using map_of_append_new [of s "cfg_data cfg" "[]"]
    by (auto simp: add_section_eq cfg_abs_def map_of_eq_None_iff fun_eq_iff)
qed (simp add: add_section_eq cfg_abs_def)

end
