(* ===== verification/ConfigRoundTrip.thy ===== *)
theory ConfigRoundTrip
  imports ConfigParser
begin

text \<open>
  Reading a configuration and writing it back. For text without repeated sections and
  without repeated options in a section, the writer reproduces the text byte for byte
  (less a byte order mark). Writing after an option was added with \<open>set_value\<close> is the
  other half: a parser that has raw text of anything drops a new option.
\<close>

definition section_names :: "(item_type \<times> ini) list \<Rightarrow> string list" where
  "section_names ts = [ini_sect (snd x). x \<leftarrow> ts, fst x = SECTION]"

definition option_names :: "(item_type \<times> ini) list \<Rightarrow> (string \<times> string) list" where
  "option_names ts = [(ini_sect (snd x), ini_key (snd x)). x \<leftarrow> ts, fst x = KEY_VAL]"

lemma names_Cons [simp]:
  "section_names (x # ts) = (if fst x = SECTION then [ini_sect (snd x)] else []) @ section_names ts"
  "option_names (x # ts) = (if fst x = KEY_VAL then [(ini_sect (snd x), ini_key (snd x))] else []) @ option_names ts"
  "section_names [] = []" "option_names [] = []"
  by (simp_all add: section_names_def option_names_def)

section \<open>Keys never collide\<close>

lemma raw_key_inj:
  assumes "CHR '']'' \<notin> set s" "CHR '']'' \<notin> set s'"
  shows "raw_key s k = raw_key s' k' \<longleftrightarrow> s = s' \<and> k = k'"
proof
  have tw: "takeWhile (\<lambda>c. c \<noteq> CHR '']'') (raw_key s k) = s" if "CHR '']'' \<notin> set s" for s k
    using that by (induction s) (auto simp: raw_key_def)
  assume eq: "raw_key s k = raw_key s' k'"
  then have "s = s'" using tw assms by metis
  with eq show "s = s' \<and> k = k'" by (simp add: raw_key_def)
qed simp

lemma raw_key_not_section: "CHR '']'' \<notin> set s' \<Longrightarrow> raw_key s k \<noteq> s'"
  by (auto simp: raw_key_def)

lemma comment_key_facts:
  "\<not> key_ok (comment_key n)" "comment_key m = comment_key n \<longleftrightarrow> m = n"
  by (simp_all add: key_ok_def comment_key_def nat_string_inj)

section \<open>What the reader maintains\<close>

definition rt_opt :: "cfg \<Rightarrow> string \<Rightarrow> string \<Rightarrow> bool" where
  "rt_opt cfg s k \<longleftrightarrow> key_ok k \<and> map_of (cfg_raw_items cfg) (raw_key s k) \<noteq> None \<or>
     (\<exists>n \<le> cfg_item_number cfg. k = comment_key n)"

definition rt_sec :: "cfg \<Rightarrow> string \<Rightarrow> (string, string) pom \<Rightarrow> bool" where
  "rt_sec cfg s opts \<longleftrightarrow> sect_ok s \<and> map_of (cfg_raw_items cfg) s \<noteq> None \<and>
     (\<forall>k \<in> set (pom_keys opts). rt_opt cfg s k)"

definition rt_inv :: "cfg \<Rightarrow> string \<Rightarrow> bool" where
  "rt_inv cfg cur \<longleftrightarrow> cfg_inv cfg \<and>
     (if cur = [] then cfg_data cfg = [] else cfg_data cfg \<noteq> [] \<and> fst (last (cfg_data cfg)) = cur) \<and>
     (\<forall>(s, opts) \<in> set (cfg_data cfg). rt_sec cfg s opts)"

definition has_opt :: "cfg \<Rightarrow> string \<Rightarrow> string \<Rightarrow> bool" where
  "has_opt cfg s k \<longleftrightarrow> (\<exists>opts. map_of (cfg_data cfg) s = Some opts \<and> k \<in> set (pom_keys opts))"

lemma rt_inv_last:
  assumes "rt_inv cfg cur" "cur \<noteq> []"
  obtains ds opts where "cfg_data cfg = ds @ [(cur, opts)]" "cur \<notin> set (pom_keys ds)"
    "map_of (cfg_data cfg) cur = Some opts"
proof -
  from assms have ne: "cfg_data cfg \<noteq> []" and l: "fst (last (cfg_data cfg)) = cur"
    by (auto simp: rt_inv_def)
  define ds where "ds = butlast (cfg_data cfg)"
  define opts where "opts = snd (last (cfg_data cfg))"
  have d: "cfg_data cfg = ds @ [(cur, opts)]"
    using append_butlast_last_id [OF ne] l unfolding ds_def opts_def by (metis prod.collapse)
  have "distinct (pom_keys (cfg_data cfg))" using assms by (simp add: rt_inv_def cfg_inv_def pom_inv_def)
  then have n: "cur \<notin> set (pom_keys ds)" by (simp add: d)
  then have "map_of (cfg_data cfg) cur = Some opts"
    by (simp add: d map_add_def map_of_eq_None_iff [THEN iffD2])
  with d n show ?thesis by (rule that)
qed

lemma pom_put_last: "k \<notin> set (pom_keys ds) \<Longrightarrow> pom_put d k v (ds @ [(k, w)]) = ds @ [(k, v)]"
  by (induction ds) (auto simp: pom_put_Cons)

lemma write_section_cong:
  assumes "map_of raws' s = map_of raws s"
    and "\<And>k. k \<in> set (pom_keys opts) \<Longrightarrow> key_ok k \<Longrightarrow> map_of raws' (raw_key s k) = map_of raws (raw_key s k)"
    and "\<And>k. k \<in> set (pom_keys opts) \<Longrightarrow> key_ok k \<or> (\<exists>n. k = comment_key n)"
  shows "write_section s opts raws' = write_section s opts raws"
proof -
  have "write_key_val s raws' kv = write_key_val s raws kv" if "kv \<in> set opts" for kv
  proof -
    have "fst kv \<in> set (pom_keys opts)" using that by simp
    then consider "key_ok (fst kv)" "map_of raws' (raw_key s (fst kv)) = map_of raws (raw_key s (fst kv))"
      | n where "fst kv = comment_key n" using assms(2,3) by blast
    then show ?thesis by cases (simp_all add: write_key_val_def comment_key_def Let_def)
  qed
  then have "map (write_key_val s raws') opts = map (write_key_val s raws) opts" by simp
  then show ?thesis by (simp only: write_section_def write_key_vals_def assms(1))
qed

lemma write_key_val_raw:
  "key_ok k \<Longrightarrow> map_of raws (raw_key s k) = Some raw \<Longrightarrow> write_key_val s raws (k, v) = raw"
  by (cases k) (simp_all add: write_key_val_def key_ok_def)

lemma write_key_val_comment: "write_key_val s raws (comment_key n, v) = v"
  by (simp add: write_key_val_def comment_key_def)

lemma write_section_snoc:
  "write_section s (opts @ [kv]) raws = write_section s opts raws @ write_key_val s raws kv"
  by (simp add: write_section_def write_key_vals_def)

text \<open>Adding raw text under a key nobody uses changes nothing that is written.\<close>

lemma write_data_cong:
  assumes "\<And>s opts. (s, opts) \<in> set ds \<Longrightarrow> write_section s opts raws' = write_section s opts raws"
  shows "concat (map (\<lambda>sec. write_section (fst sec) (snd sec) raws') ds) =
    concat (map (\<lambda>sec. write_section (fst sec) (snd sec) raws) ds)"
  using assms by (induction ds) auto

lemma rt_write_other_raws:
  assumes "rt_inv cfg cur" "(s, opts) \<in> set (cfg_data cfg)"
    and "\<And>x. x \<noteq> y \<Longrightarrow> map_of raws' x = map_of (cfg_raw_items cfg) x"
    and "s \<noteq> y" "\<And>k. k \<in> set (pom_keys opts) \<Longrightarrow> key_ok k \<Longrightarrow> raw_key s k \<noteq> y"
  shows "write_section s opts raws' = write_section s opts (cfg_raw_items cfg)"
proof (rule write_section_cong)
  fix k assume "k \<in> set (pom_keys opts)"
  with assms(1,2) have "rt_opt cfg s k" by (fastforce simp: rt_inv_def rt_sec_def)
  then show "key_ok k \<or> (\<exists>n. k = comment_key n)" by (auto simp: rt_opt_def)
qed (use assms in auto)

section \<open>One item\<close>

lemma rt_no_section: "rt_inv cfg cur \<Longrightarrow> (s, opts) \<in> set (cfg_data cfg) \<Longrightarrow> CHR '']'' \<notin> set s"
  by (fastforce simp: rt_inv_def rt_sec_def sect_ok_def)

lemma rt_section:
  assumes inv: "rt_inv cfg cur" and s: "sect_ok s" "raw \<noteq> []" and new: "map_of (cfg_data cfg) s = None"
  defines "cfg' \<equiv> fst (add_section s raw cfg)"
  shows "rt_inv cfg' s" and "cfg_write cfg' = cfg_write cfg @ raw"
    and "cfg_data cfg' = cfg_data cfg @ [(s, [])]"
proof -
  let ?raws = "smap_put s raw (cfg_raw_items cfg)"
  have c: "cfg' = cfg\<lparr>cfg_data := cfg_data cfg @ [(s, [])], cfg_raw_items := ?raws\<rparr>"
    using new s(2) by (simp add: cfg'_def add_section_eq)
  then show "cfg_data cfg' = cfg_data cfg @ [(s, [])]" by simp
  have brk: "CHR '']'' \<notin> set s" using s(1) by (simp add: sect_ok_def)
  have "write_section s' opts ?raws = write_section s' opts (cfg_raw_items cfg)"
    if "(s', opts) \<in> set (cfg_data cfg)" for s' opts
  proof (rule rt_write_other_raws [OF inv that])
    show "s' \<noteq> s" using that new by (force simp: map_of_eq_None_iff)
  qed (use brk in \<open>auto simp: map_of_pom_put raw_key_not_section\<close>)
  from write_data_cong [OF this] show "cfg_write cfg' = cfg_write cfg @ raw"
    by (simp add: c cfg_write_def map_of_pom_put) (simp add: write_section_def write_key_vals_def map_of_pom_put)
  have "rt_opt cfg' s' k" if "rt_opt cfg s' k" for s' k
    using that by (auto simp: c rt_opt_def map_of_pom_put)
  then have "rt_sec cfg' s' o'" if "rt_sec cfg s' o'" for s' o'
    using that by (auto simp: c rt_sec_def map_of_pom_put)
  moreover have "rt_sec cfg' s []" "cfg_inv cfg'"
    using s inv cfg_inv_add_section [of cfg s raw] by (simp_all add: rt_inv_def cfg'_def)
      (simp add: c [unfolded cfg'_def] rt_sec_def map_of_pom_put)
  ultimately show "rt_inv cfg' s"
    using inv s(1) by (auto simp: rt_inv_def c sect_ok_def)
qed

text \<open>Adding an option to the last section.\<close>

lemma rt_option:
  assumes inv: "rt_inv cfg cur" "cur \<noteq> []" and d: "cfg_data cfg = ds @ [(cur, opts)]" "cur \<notin> set (pom_keys ds)"
    and new: "k \<notin> set (pom_keys opts)" and inv': "cfg_inv cfg'"
    and d': "cfg_data cfg' = ds @ [(cur, opts @ [(k, v)])]"
    and h: "cfg_header cfg' = cfg_header cfg" "cfg_item_number cfg \<le> cfg_item_number cfg'"
    and raws: "\<And>x. x \<noteq> raw_key cur k \<Longrightarrow> map_of (cfg_raw_items cfg') x = map_of (cfg_raw_items cfg) x"
      "map_of (cfg_raw_items cfg) (raw_key cur k) \<noteq> None \<Longrightarrow> map_of (cfg_raw_items cfg') (raw_key cur k) \<noteq> None"
    and opt: "rt_opt cfg' cur k" and w: "write_key_val cur (cfg_raw_items cfg') (k, v) = raw"
  shows "rt_inv cfg' cur" and "cfg_write cfg' = cfg_write cfg @ raw"
proof -
  have brk: "CHR '']'' \<notin> set s'" if "(s', o') \<in> set (cfg_data cfg)" for s' o'
    using rt_no_section [OF inv(1) that] .
  have cur: "(cur, opts) \<in> set (cfg_data cfg)" by (simp add: d)
  have same: "write_section s' o' (cfg_raw_items cfg') = write_section s' o' (cfg_raw_items cfg)"
    if "(s', o') \<in> set (cfg_data cfg)" for s' o'
  proof (rule rt_write_other_raws [OF inv(1) that raws(1)])
    show "s' \<noteq> raw_key cur k" using brk [OF that] by (auto simp: raw_key_def)
    show "raw_key s' k' \<noteq> raw_key cur k" if "k' \<in> set (pom_keys o')" for k'
    proof
      assume "raw_key s' k' = raw_key cur k"
      then have "s' = cur" "k' = k" using raw_key_inj brk [OF cur] brk [OF \<open>(s', o') \<in> _\<close>] by blast+
      with \<open>(s', o') \<in> set (cfg_data cfg)\<close> d have "o' = opts" by force
      with that \<open>k' = k\<close> new show False by simp
    qed
  qed simp
  have "concat (map (\<lambda>sec. write_section (fst sec) (snd sec) (cfg_raw_items cfg')) ds) =
      concat (map (\<lambda>sec. write_section (fst sec) (snd sec) (cfg_raw_items cfg)) ds)"
    by (rule write_data_cong) (simp add: same d)
  then show "cfg_write cfg' = cfg_write cfg @ raw"
    using same [OF cur] by (simp add: cfg_write_def d d' h(1) write_section_snoc w)
  have keep: "rt_opt cfg' s' k'" if "rt_opt cfg s' k'" for s' k'
    using that raws h(2) unfolding rt_opt_def by (metis le_trans)
  have sec: "map_of (cfg_raw_items cfg') s' = map_of (cfg_raw_items cfg) s'"
    if "(s', o') \<in> set (cfg_data cfg)" for s' o'
    using brk [OF that] by (intro raws(1)) (auto simp: raw_key_def)
  have all: "rt_sec cfg' s' o'" if "(s', o') \<in> set (cfg_data cfg)" for s' o'
    using inv(1) that sec [OF that] keep unfolding rt_inv_def rt_sec_def by fastforce
  have "rt_sec cfg' cur (opts @ [(k, v)])" using all [OF cur] opt by (simp add: rt_sec_def)
  then have "rt_sec cfg' s' o'" if "(s', o') \<in> set (cfg_data cfg')" for s' o'
    using that all [of s' o'] by (auto simp: d d')
  then show "rt_inv cfg' cur"
    using inv(2) inv' unfolding rt_inv_def by (simp add: d') blast
qed

lemma has_opt_snoc:
  assumes "cfg_data c = ds @ [(cur, opts)]" "cur \<notin> set (pom_keys ds)"
  shows "has_opt c s k \<longleftrightarrow>
    (if s = cur then k \<in> set (pom_keys opts) else \<exists>o'. map_of ds s = Some o' \<and> k \<in> set (pom_keys o'))"
proof -
  have "map_of (cfg_data c) s = (if s = cur then Some opts else map_of ds s)"
    using assms by (auto simp: map_add_def map_of_eq_None_iff [THEN iffD2] split: option.splits)
  then show ?thesis by (simp add: has_opt_def)
qed

lemma rt_key:
  assumes inv: "rt_inv cfg cur" "cur \<noteq> []" and k: "key_ok k" and new: "\<not> has_opt cfg cur k"
  obtains cfg' where "set_value_raw cur k v raw cfg = Inr cfg'" "rt_inv cfg' cur"
    "cfg_write cfg' = cfg_write cfg @ raw" "cfg_item_number cfg' = cfg_item_number cfg"
    "\<And>s. map_of (cfg_data cfg') s = None \<longleftrightarrow> map_of (cfg_data cfg) s = None"
    "\<And>s k'. has_opt cfg' s k' \<longleftrightarrow> has_opt cfg s k' \<or> s = cur \<and> k' = k"
proof -
  obtain ds opts where d: "cfg_data cfg = ds @ [(cur, opts)]" "cur \<notin> set (pom_keys ds)"
    "map_of (cfg_data cfg) cur = Some opts" using rt_inv_last [OF inv] .
  have fresh: "k \<notin> set (pom_keys opts)" using new d(3) by (simp add: has_opt_def)
  have "rt_sec cfg cur opts" using inv(1) d(1) by (simp add: rt_inv_def)
  then have ne: "cfg_raw_items cfg \<noteq> []" by (auto simp: rt_sec_def)
  define cfg' where "cfg' = cfg\<lparr>cfg_data := ds @ [(cur, opts @ [(k, v)])],
      cfg_raw_items := smap_put (raw_key cur k) raw (cfg_raw_items cfg)\<rparr>"
  have set: "set_value_raw cur k v raw cfg = Inr cfg'"
    using d fresh ne by (simp add: set_value_raw_eq cfg'_def pom_put_last pom_put_absent map_of_eq_None_iff)
  have inv': "cfg_inv cfg'" using inv(1) set by (auto simp: rt_inv_def intro: cfg_inv_set_value_raw)
  have "rt_inv cfg' cur" "cfg_write cfg' = cfg_write cfg @ raw"
    using k by (intro rt_option [OF inv d(1,2) fresh inv', of v];
        simp add: cfg'_def map_of_pom_put rt_opt_def write_key_val_raw)+
  moreover have "map_of (cfg_data cfg') s = None \<longleftrightarrow> map_of (cfg_data cfg) s = None" for s
    by (simp add: cfg'_def d(1) map_add_None)
  moreover have "has_opt cfg' s k' \<longleftrightarrow> has_opt cfg s k' \<or> s = cur \<and> k' = k" for s k'
    using has_opt_snoc [OF d(1,2)] has_opt_snoc [of cfg' ds cur "opts @ [(k, v)]"] d(2)
    by (auto simp: cfg'_def)
  ultimately show ?thesis using that [OF set] by (simp add: cfg'_def)
qed

lemma rt_comment:
  assumes inv: "rt_inv cfg cur" "cur \<noteq> []"
  obtains cfg' where "add_comment_line cur raw cfg = Inr cfg'" "rt_inv cfg' cur"
    "cfg_write cfg' = cfg_write cfg @ raw"
    "\<And>s. map_of (cfg_data cfg') s = None \<longleftrightarrow> map_of (cfg_data cfg) s = None"
    "\<And>s k. key_ok k \<Longrightarrow> has_opt cfg' s k \<longleftrightarrow> has_opt cfg s k"
proof -
  obtain ds opts where d: "cfg_data cfg = ds @ [(cur, opts)]" "cur \<notin> set (pom_keys ds)"
    "map_of (cfg_data cfg) cur = Some opts" using rt_inv_last [OF inv] .
  let ?n = "Suc (cfg_item_number cfg)"
  have "rt_sec cfg cur opts" using inv(1) d(1) by (simp add: rt_inv_def)
  then have "rt_opt cfg cur (comment_key ?n)" if "comment_key ?n \<in> set (pom_keys opts)"
    using that unfolding rt_sec_def by blast
  then have fresh: "comment_key ?n \<notin> set (pom_keys opts)"
    by (auto simp: rt_opt_def comment_key_facts)
  define cfg' where "cfg' = cfg\<lparr>cfg_data := ds @ [(cur, opts @ [(comment_key ?n, raw)])], cfg_item_number := ?n\<rparr>"
  have set: "add_comment_line cur raw cfg = Inr cfg'"
    using d fresh by (simp add: add_comment_line_eq cfg'_def pom_put_last pom_put_absent map_of_eq_None_iff)
  have inv': "cfg_inv cfg'" using inv(1) set by (auto simp: rt_inv_def intro: cfg_inv_add_comment)
  have "rt_inv cfg' cur" "cfg_write cfg' = cfg_write cfg @ raw"
    by (intro rt_option [OF inv d(1,2) fresh inv', of raw];
        auto simp: cfg'_def rt_opt_def write_key_val_comment)+
  moreover have "map_of (cfg_data cfg') s = None \<longleftrightarrow> map_of (cfg_data cfg) s = None" for s
    by (simp add: cfg'_def d(1) map_add_None)
  moreover have "key_ok k \<Longrightarrow> has_opt cfg' s k \<longleftrightarrow> has_opt cfg s k" for s k
    using has_opt_snoc [OF d(1,2)] has_opt_snoc [of cfg' ds cur "opts @ [(comment_key ?n, raw)]"] d(2)
      comment_key_facts(1) by (auto simp: cfg'_def)
  ultimately show ?thesis using that [OF set] by (simp add: cfg'_def)
qed

text \<open>A comment or a blank line, before the first section or in the current one.\<close>

lemma rt_line:
  assumes inv: "rt_inv cfg (ini_sect p)" and t: "t = COMMENT_LINE \<or> t = EMPTY_LINE"
  obtains cfg' where "read_item t p cfg = Inr cfg'" "rt_inv cfg' (ini_sect p)"
    "cfg_write cfg' = cfg_write cfg @ ini_raw_item p"
    "\<And>s. map_of (cfg_data cfg') s = None \<longleftrightarrow> map_of (cfg_data cfg) s = None"
    "\<And>s k. key_ok k \<Longrightarrow> has_opt cfg' s k \<longleftrightarrow> has_opt cfg s k"
proof (cases "ini_sect p = []")
  case True
  let ?cfg = "cfg\<lparr>cfg_header := cfg_header cfg @ ini_raw_item p\<rparr>"
  have "cfg_data cfg = []" using inv True by (simp add: rt_inv_def)
  then have "rt_inv ?cfg (ini_sect p)" "cfg_write ?cfg = cfg_write cfg @ ini_raw_item p"
    using inv True by (simp_all add: rt_inv_def cfg_write_def)
  then show ?thesis using t True by (intro that [of ?cfg]) (auto simp: read_item_def has_opt_def)
next
  case False
  have r: "read_item t p cfg = add_comment_line (ini_sect p) (ini_raw_item p) cfg"
    using t False by (auto simp: read_item_def)
  show ?thesis by (rule rt_comment [OF inv False, of "ini_raw_item p"]) (rule that [unfolded r])
qed

section \<open>The whole text\<close>

lemma read_loop_writes:
  assumes "rt_inv cfg (ini_sect p)" "ini_tokens p = (ts, None)"
    and "distinct (section_names ts)" "distinct (option_names ts)"
    and "\<forall>s \<in> set (section_names ts). map_of (cfg_data cfg) s = None"
    and "\<forall>(s, k) \<in> set (option_names ts). key_ok k \<longrightarrow> \<not> has_opt cfg s k"
  shows "\<exists>cfg'. read_loop cfg p = (cfg', None) \<and>
    cfg_write cfg' = cfg_write cfg @ concat (map (\<lambda>x. ini_raw_item (snd x)) ts)"
  using assms
proof (induction p arbitrary: cfg ts rule: ini_tokens.induct)
  case (1 p)
  note prems = "1.prems"
  obtain t p' where n: "ini_next p = Inr (t, p')"
    using prems(2) by (cases "ini_next p") (auto simp: ini_tokens.simps [of p])
  show ?case
  proof (cases "t = END_OF_INPUT")
    case True
    then show ?thesis using prems(2) n by (simp add: ini_tokens.simps [of p] read_loop.simps [of cfg p])
  next
    case False
    then obtain ts' where ts: "ini_tokens p' = (ts', None)" "ts = (t, p') # ts'"
      using prems(2) n by (cases "ini_tokens p'") (auto simp: ini_tokens.simps [of p])
    note names = ini_next_names [OF n]
    let ?good = "\<lambda>cfg'. rt_inv cfg' (ini_sect p') \<and> cfg_write cfg' = cfg_write cfg @ ini_raw_item p' \<and>
      (\<forall>s \<in> set (section_names ts'). map_of (cfg_data cfg') s = None) \<and>
      (\<forall>(s, k) \<in> set (option_names ts'). key_ok k \<longrightarrow> \<not> has_opt cfg' s k)"
    have line: "\<exists>cfg'. read_item t p' cfg = Inr cfg' \<and> ?good cfg'" if t: "t = COMMENT_LINE \<or> t = EMPTY_LINE"
    proof -
      have "rt_inv cfg (ini_sect p')" using prems(1) names(3) t by auto
      from rt_line [OF this t] obtain cfg' where c: "read_item t p' cfg = Inr cfg'" "rt_inv cfg' (ini_sect p')"
        "cfg_write cfg' = cfg_write cfg @ ini_raw_item p'"
        "\<And>s. map_of (cfg_data cfg') s = None \<longleftrightarrow> map_of (cfg_data cfg) s = None"
        "\<And>s k. key_ok k \<Longrightarrow> has_opt cfg' s k \<longleftrightarrow> has_opt cfg s k" by metis
      then show ?thesis using prems(5,6) t by (auto simp: ts(2))
    qed
    have "\<exists>cfg'. read_item t p' cfg = Inr cfg' \<and> ?good cfg'"
    proof (cases t)
      case SECTION
      let ?s = "ini_sect p'" and ?cfg = "fst (add_section (ini_sect p') (ini_raw_item p') cfg)"
      have new: "map_of (cfg_data cfg) ?s = None" using prems(5) SECTION by (simp add: ts(2))
      note a = rt_section [OF prems(1) names(1,2) [OF SECTION] new]
      have "map_of (cfg_data ?cfg) s = None" if "s \<in> set (section_names ts')" for s
        using that prems(3,5) SECTION by (auto simp: ts(2) a(3) map_add_None)
      moreover have "has_opt ?cfg s k \<longleftrightarrow> has_opt cfg s k" for s k
        using new by (auto simp: has_opt_def a(3) map_add_def split: option.splits)
      ultimately show ?thesis using a(1,2) prems(6) SECTION by (simp add: read_item_def Let_def ts(2))
    next
      case KEY_VAL
      let ?k = "ini_key p'"
      have s: "ini_sect p' = ini_sect p" "ini_sect p \<noteq> []" using names(3,4) KEY_VAL by auto
      have "\<not> has_opt cfg (ini_sect p) ?k" using prems(6) KEY_VAL names(5) s(1) by (auto simp: ts(2))
      from rt_key [OF prems(1) s(2) names(5) [OF KEY_VAL] this, of "ini_val p'" "ini_raw_item p'"]
      obtain cfg' where c: "set_value_raw (ini_sect p) ?k (ini_val p') (ini_raw_item p') cfg = Inr cfg'"
        "rt_inv cfg' (ini_sect p)" "cfg_write cfg' = cfg_write cfg @ ini_raw_item p'"
        "\<And>s. map_of (cfg_data cfg') s = None \<longleftrightarrow> map_of (cfg_data cfg) s = None"
        "\<And>s k'. has_opt cfg' s k' \<longleftrightarrow> has_opt cfg s k' \<or> s = ini_sect p \<and> k' = ?k" by metis
      have "\<forall>(s, k) \<in> set (option_names ts'). key_ok k \<longrightarrow> \<not> has_opt cfg' s k"
        using prems(4,6) KEY_VAL s(1) by (auto simp: ts(2) c(5))
      then show ?thesis using c(1-4) prems(5) KEY_VAL s(1) by (simp add: read_item_def Let_def ts(2))
    next
      case END_OF_INPUT
      with False show ?thesis by simp
    next
      case COMMENT_LINE
      then show ?thesis using line by simp
    next
      case EMPTY_LINE
      then show ?thesis using line by simp
    qed
    then obtain cfg' where c: "read_item t p' cfg = Inr cfg'" and g: "?good cfg'" by blast
    have "\<exists>cfg''. read_loop cfg' p' = (cfg'', None) \<and>
        cfg_write cfg'' = cfg_write cfg' @ concat (map (\<lambda>x. ini_raw_item (snd x)) ts')"
      using "1.IH" [OF n refl False _ ts(1), of cfg'] g prems(3,4) by (auto simp: ts(2) split: if_splits)
    then show ?thesis using n False c g by (auto simp: read_loop.simps [of cfg p] ts(2))
  qed
qed

lemma rt_inv_new: "rt_inv cfg_new []"
  by (simp add: rt_inv_def cfg_new_def cfg_inv_def)

lemma map_pom_put:
  assumes "distinct (pom_keys m)" "map_of m k = Some w" "f (k, v) = g (k, w)"
    and "\<And>x. x \<in> set m \<Longrightarrow> fst x \<noteq> k \<Longrightarrow> f x = g x"
  shows "map f (pom_put d k v m) = map g m"
  using assms
proof (induction m)
  case (Cons x m)
  show ?case
  proof (cases "fst x = k")
    case True
    have "fst y \<noteq> k" if "y \<in> set m" for y using Cons.prems(1) True imageI [OF that, of fst] by (metis distinct.simps(2) list.map(2) set_map)
    then have "f y = g y" if "y \<in> set m" for y using Cons.prems(4) that by simp
    with True Cons.prems(2,3) show ?thesis by (cases x) (simp add: pom_put_Cons)
  next
    case False
    then show ?thesis using Cons by (cases x) (simp add: pom_put_Cons)
  qed
qed simp

lemma write_key_val_other:
  "raw_key s k \<noteq> raw_key s' (fst kv) \<Longrightarrow>
     write_key_val s' (smap_put (raw_key s k) raw raws) kv = write_key_val s' raws kv"
  by (simp add: write_key_val_def map_of_pom_put Let_def)

lemma write_key_vals_other:
  "(\<And>kv. kv \<in> set opts \<Longrightarrow> raw_key s k \<noteq> raw_key s' (fst kv)) \<Longrightarrow>
     write_key_vals s' opts (smap_put (raw_key s k) raw raws) = write_key_vals s' opts raws"
  by (simp add: write_key_vals_def write_key_val_other cong: map_cong)

section \<open>Properties\<close>

text \<open>C1. Reading a configuration and writing it back gives the text that was read, byte for byte
  (less a byte order mark): every line, comment, blank line and multi-line value, provided the
  parser accepts the text, no section is repeated and no option is repeated in its section.\<close>

theorem read_write_roundtrip:
  assumes "ini_open (Some txt) = Inr p" "ini_tokens p = (ts, None)"
    and "distinct (section_names ts)" "distinct (option_names ts)"
  shows "\<exists>cfg. cfg_read (Some txt) cfg_new = (cfg, None) \<and> cfg_write cfg = unbom txt"
proof -
  have p: "ini_sect p = []" "ini_ok (p\<lparr>ini_raw_item := []\<rparr>) False" "text_left p = unbom txt"
    using assms(1) by (auto simp: ini_open_def ini_ok_def text_left_def pending_def split: if_splits)
  obtain cfg where "read_loop cfg_new p = (cfg, None)"
    "cfg_write cfg = cfg_write cfg_new @ concat (map (\<lambda>x. ini_raw_item (snd x)) ts)"
    using read_loop_writes [of cfg_new p ts] assms(2-) p(1) rt_inv_new by (auto simp: cfg_new_def has_opt_def)
  then show ?thesis
    using assms(1) p(3) ini_tokens_text [OF p(2) assms(2)] by (simp add: cfg_read_def cfg_write_def cfg_new_def)
qed

theorem read_write_roundtrip_witness:
  "\<exists>cfg. cfg_read (Some ''[a]\<newline>k=v\<newline> w\<newline>#c\<newline>'') cfg_new = (cfg, None) \<and>
     cfg_write cfg = unbom ''[a]\<newline>k=v\<newline> w\<newline>#c\<newline>''"
proof (rule read_write_roundtrip)
  let ?p = "projr (ini_open (Some ''[a]\<newline>k=v\<newline> w\<newline>#c\<newline>''))"
  show "ini_open (Some ''[a]\<newline>k=v\<newline> w\<newline>#c\<newline>'') = Inr ?p" by code_simp
  show "ini_tokens ?p = (fst (ini_tokens ?p), None)" by code_simp
  show "distinct (section_names (fst (ini_tokens ?p)))" by code_simp
  show "distinct (option_names (fst (ini_tokens ?p)))" by code_simp
qed

text \<open>An option added with \<open>set_value\<close> to a configuration that has raw text of anything
  (so: to any configuration read from a file) is stored but never written: \<open>set_value\<close> asks
  whether the collection of raw items is empty where it means the item's own raw text, records
  empty raw text for the new option, and the writer prints that.\<close>

theorem set_value_new_option_not_written:
  assumes "cfg_reachable cfg" "cfg_raw_items cfg \<noteq> []" "map_of (cfg_raw_items cfg) (raw_key s k) = None"
    and "map_of (cfg_data cfg) s = Some opts" "k \<notin> set (pom_keys opts)" "key_ok k"
    and "\<forall>sec \<in> set (cfg_data cfg). CHR '']'' \<notin> set (fst sec)"
  shows "\<exists>cfg'. set_value s k v cfg = Inr cfg' \<and> get_value s k cfg' = Inr v \<and> cfg_write cfg' = cfg_write cfg"
proof -
  let ?raws = "smap_put (raw_key s k) [] (cfg_raw_items cfg)"
  let ?opts = "opts @ [(k, v)]"
  define cfg' where "cfg' = cfg\<lparr>cfg_data := pom_put [] s ?opts (cfg_data cfg), cfg_raw_items := ?raws\<rparr>"
  have set: "set_value s k v cfg = Inr cfg'"
    unfolding set_value_def assms(3) using assms(2,4,5)
    by (simp add: create_raw_item_def find_from_def set_value_raw_eq cfg'_def pom_put_absent map_of_eq_None_iff)
  have "get_value s k cfg' = Inr v"
    using assms(5) map_of_eq_None_iff [of opts k]
    by (simp add: get_value_eq cfg_abs_def cfg'_def map_of_pom_put map_add_def)
  moreover have "cfg_write cfg' = cfg_write cfg"
  proof -
    have brk: "CHR '']'' \<notin> set (fst sec)" if "sec \<in> set (cfg_data cfg)" for sec using assms(7) that by blast
    have s: "(s, opts) \<in> set (cfg_data cfg)" using assms(4) by (rule map_of_SomeD)
    have head: "map_of ?raws (fst sec) = map_of (cfg_raw_items cfg) (fst sec)" if "sec \<in> set (cfg_data cfg)" for sec
      using brk [OF that] raw_key_not_section [of "fst sec" s k] by (simp add: map_of_pom_put)
    have "write_key_val s ?raws (k, v) = []"
      using assms(6) by (intro write_key_val_raw) (simp_all add: map_of_pom_put)
    moreover have "write_key_vals s opts ?raws = write_key_vals s opts (cfg_raw_items cfg)"
      using assms(5) by (intro write_key_vals_other) (force simp: raw_key_def)
    ultimately have new: "write_section s ?opts ?raws = write_section s opts (cfg_raw_items cfg)"
      using head [OF s] by (simp add: write_section_def) (simp add: write_key_vals_def)
    have old: "write_section (fst sec) (snd sec) ?raws = write_section (fst sec) (snd sec) (cfg_raw_items cfg)"
      if sec: "sec \<in> set (cfg_data cfg)" "fst sec \<noteq> s" for sec
    proof -
      have "raw_key s k \<noteq> raw_key (fst sec) (fst kv)" for kv :: "string \<times> string"
        using raw_key_inj [OF brk [OF s] brk [OF sec(1)]] sec(2) by simp
      then show ?thesis using head [OF sec(1)] by (simp add: write_section_def write_key_vals_other)
    qed
    have "distinct (pom_keys (cfg_data cfg))"
      using cfg_reachable_inv [OF assms(1)] by (simp add: cfg_inv_def pom_inv_def)
    from map_pom_put [OF this assms(4), of "\<lambda>sec. write_section (fst sec) (snd sec) ?raws" ?opts]
    have "map (\<lambda>sec. write_section (fst sec) (snd sec) ?raws) (pom_put [] s ?opts (cfg_data cfg)) =
        map (\<lambda>sec. write_section (fst sec) (snd sec) (cfg_raw_items cfg)) (cfg_data cfg)"
      using new old by simp
    then show ?thesis unfolding cfg_write_def cfg'_def by (simp del: map_eq_conv)
  qed
  ultimately show ?thesis using set by blast
qed

theorem set_value_new_option_not_written_witness:
  "\<exists>cfg'. set_value ''a'' ''n'' ''1'' (fst (cfg_read (Some ''[a]\<newline>k=v\<newline>'') cfg_new)) = Inr cfg' \<and>
     get_value ''a'' ''n'' cfg' = Inr ''1'' \<and>
     cfg_write cfg' = cfg_write (fst (cfg_read (Some ''[a]\<newline>k=v\<newline>'') cfg_new))"
proof (rule set_value_new_option_not_written)
  let ?cfg = "fst (cfg_read (Some ''[a]\<newline>k=v\<newline>'') cfg_new)"
  show "cfg_reachable ?cfg" by (intro reach_step [OF reach_new] step_read)
  show "cfg_raw_items ?cfg \<noteq> []" by code_simp
  show "map_of (cfg_raw_items ?cfg) (raw_key ''a'' ''n'') = None" by code_simp
  show "map_of (cfg_data ?cfg) ''a'' = Some [(''k'', ''v'')]" by code_simp
  show "''n'' \<notin> set (pom_keys [(''k'', ''v'' :: string)])" by simp
  show "key_ok ''n''" by (simp add: key_ok_def)
  show "\<forall>sec \<in> set (cfg_data ?cfg). CHR '']'' \<notin> set (fst sec)" by code_simp
qed

text \<open>C3. Every configuration a client can reach has unique section names, unique option names in
  every section and one raw text per item.\<close>

theorem reachable_configuration_wellformed: "cfg_reachable cfg \<Longrightarrow> cfg_inv cfg"
  by (rule cfg_reachable_inv)

theorem reachable_configuration_wellformed_witness:
  "cfg_inv (fst (cfg_read (Some ''[a]\<newline>k=v\<newline>[a]\<newline>k=w\<newline>'') cfg_new))"
  by (intro reachable_configuration_wellformed reach_step [OF reach_new] step_read)

text \<open>C2. The operations of a well-formed configuration act on the map from section names to
  maps from option names to values: reading a value reads the map, with the error of the sources
  for an absent section or option; writing, removing and adding update it at one place and
  report whether something was there.\<close>

theorem configuration_refines_nested_map:
  assumes "cfg_inv cfg"
  shows "get_value s k cfg =
      (case cfg_abs cfg s of
         None \<Rightarrow> Inl (SectionNotFound s)
       | Some opts \<Rightarrow> (case opts k of None \<Rightarrow> Inl (OptionNotFound (k @ '' in section '' @ s)) | Some v \<Rightarrow> Inr v)) \<and>
    map_sum id cfg_abs (set_value s k v cfg) =
      (case cfg_abs cfg s of
         None \<Rightarrow> Inl (SectionNotFound s) | Some opts \<Rightarrow> Inr ((cfg_abs cfg)(s \<mapsto> opts(k \<mapsto> v)))) \<and>
    map_prod cfg_abs id (remove_option s k cfg) =
      (case cfg_abs cfg s of
         None \<Rightarrow> (cfg_abs cfg, False)
       | Some opts \<Rightarrow> ((cfg_abs cfg)(s \<mapsto> opts(k := None)), opts k \<noteq> None)) \<and>
    map_prod cfg_abs id (remove_section s cfg) = ((cfg_abs cfg)(s := None), cfg_abs cfg s \<noteq> None) \<and>
    map_prod cfg_abs id (add_section s raw cfg) =
      (case cfg_abs cfg s of
         None \<Rightarrow> ((cfg_abs cfg)(s \<mapsto> Map.empty), True) | Some opts \<Rightarrow> (cfg_abs cfg, False))"
proof (intro conjI)
  show "map_sum id cfg_abs (set_value s k v cfg) =
      (case cfg_abs cfg s of
         None \<Rightarrow> Inl (SectionNotFound s) | Some opts \<Rightarrow> Inr ((cfg_abs cfg)(s \<mapsto> opts(k \<mapsto> v))))"
    by (auto simp: set_value_def Let_def set_value_raw_eq cfg_abs_def map_of_pom_put fun_eq_iff
        split: option.splits)
  show "map_prod cfg_abs id (remove_option s k cfg) =
      (case cfg_abs cfg s of
         None \<Rightarrow> (cfg_abs cfg, False)
       | Some opts \<Rightarrow> ((cfg_abs cfg)(s \<mapsto> opts(k := None)), opts k \<noteq> None))"
  proof (cases "map_of (cfg_data cfg) s")
    case (Some opts)
    then show ?thesis using cfg_abs_remove_option [OF assms, of s k]
      by (auto simp: map_prod_def split_def remove_option_eq cfg_abs_def)
  qed (simp add: remove_option_eq cfg_abs_def)
  show "map_prod cfg_abs id (remove_section s cfg) = ((cfg_abs cfg)(s := None), cfg_abs cfg s \<noteq> None)"
    using cfg_abs_remove_section [OF assms, of s]
    by (auto simp: map_prod_def split_def remove_section_eq)
  show "map_prod cfg_abs id (add_section s raw cfg) =
      (case cfg_abs cfg s of
         None \<Rightarrow> ((cfg_abs cfg)(s \<mapsto> Map.empty), True) | Some opts \<Rightarrow> (cfg_abs cfg, False))"
    using cfg_abs_add_section [of s raw cfg]
    by (auto simp: map_prod_def split_def add_section_eq cfg_abs_def split: option.splits)
qed (rule get_value_eq)

theorem configuration_refines_nested_map_witness:
  "get_value ''a'' ''k'' (fst (cfg_read (Some ''[a]\<newline>k=v\<newline>'') cfg_new)) = Inr ''v''"
proof -
  let ?cfg = "fst (cfg_read (Some ''[a]\<newline>k=v\<newline>'') cfg_new)"
  have "cfg_inv ?cfg" by (intro cfg_reachable_inv reach_step [OF reach_new] step_read)
  from configuration_refines_nested_map [OF this, of "''a''" "''k''"]
  have "get_value ''a'' ''k'' ?cfg =
      (case cfg_abs ?cfg ''a'' of
         None \<Rightarrow> Inl (SectionNotFound ''a'')
       | Some opts \<Rightarrow> (case opts ''k'' of None \<Rightarrow> Inl (OptionNotFound (''k'' @ '' in section '' @ ''a'')) | Some v \<Rightarrow> Inr v))"
    by blast
  also have "\<dots> = Inr ''v''" by code_simp
  finally show ?thesis .
qed

end
