(* ===== verification/OptionCore.thy ===== *)
theory OptionCore
  imports CppString
begin

text \<open>
  What all option classes share (include/libdnf/conf/option.hpp): the priority of a value's
  source, the errors, and the contract of \<open>set\<close>, as two locales. A typed \<open>set\<close>
  ignores a value of lower priority than the stored one, rejects a value the option does not
  accept and stores the others; a textual \<open>set\<close> parses first. The classes' models are
  interpretations of these contracts in the theories that declare them.
\<close>

section \<open>Priorities\<close>

datatype priority =
    EMPTY | DEFAULT | MAINCONFIG | AUTOMATICCONFIG | REPOCONFIG | PLUGINDEFAULT
  | PLUGINCONFIG | DROPINCONFIG | COMMANDLINE | RUNTIME

primrec priority_code :: "priority \<Rightarrow> nat" where
  "priority_code EMPTY = 0"
| "priority_code DEFAULT = 10"
| "priority_code MAINCONFIG = 20"
| "priority_code AUTOMATICCONFIG = 30"
| "priority_code REPOCONFIG = 40"
| "priority_code PLUGINDEFAULT = 50"
| "priority_code PLUGINCONFIG = 60"
| "priority_code DROPINCONFIG = 65"
| "priority_code COMMANDLINE = 70"
| "priority_code RUNTIME = 80"

lemma priority_code_inj: "priority_code p = priority_code q \<longleftrightarrow> p = q"
  by (cases p; cases q) simp_all

instantiation priority :: linorder
begin

definition less_eq_priority :: "priority \<Rightarrow> priority \<Rightarrow> bool" where
  "p \<le> q \<longleftrightarrow> priority_code p \<le> priority_code q"

definition less_priority :: "priority \<Rightarrow> priority \<Rightarrow> bool" where
  "p < q \<longleftrightarrow> priority_code p < priority_code q"

instance
  by standard (auto simp: less_eq_priority_def less_priority_def priority_code_inj)

end

lemma EMPTY_least [simp]: "EMPTY \<le> p"
  by (simp add: less_eq_priority_def)

lemma le_EMPTY [simp]: "p \<le> EMPTY \<longleftrightarrow> p = EMPTY"
  by (cases p) (simp_all add: less_eq_priority_def)

section \<open>Errors\<close>

datatype option_error =
    InvalidValue string
  | NotAllowedValue string
  | PathNotExists string
  | ValueNotSet
  | NegativeValue string
  | UnknownUnit string
  | StdInvalidArgument
  | StdOutOfRange
  | RuntimeError string
  | UndefinedConversion

text \<open>
  The exception classes of the options and, for what the standard library raises inside them,
  its own two. \<open>UndefinedConversion\<close> is no exception: it marks a cast of a floating-point
  value that the integer type cannot hold, where the language defines nothing.
\<close>

section \<open>The contract of a typed set\<close>

text \<open>
  The choice the contract makes between the stored value and an offered one. The last of
  the offers with the highest priority wins.
\<close>

definition outrank :: "priority \<times> 'v \<Rightarrow> priority \<times> 'v \<Rightarrow> priority \<times> 'v" where
  "outrank cur new = (if fst cur \<le> fst new then new else cur)"

lemma fst_foldl_outrank: "fst (foldl outrank cur offers) = foldl max (fst cur) (map fst offers)"
  by (induction offers arbitrary: cur) (auto simp: outrank_def max_def)

lemma foldl_outrank_snoc: "foldl outrank cur (offers @ [new]) = outrank (foldl outrank cur offers) new"
  by simp

text \<open>What the fold over a run of offers picks, said without the fold.\<close>

lemma foldl_outrank_last:
  "\<exists>xs ys. (cur # offers) = xs @ foldl outrank cur offers # ys \<and>
     (\<forall>x \<in> set xs. fst x \<le> fst (foldl outrank cur offers)) \<and>
     (\<forall>y \<in> set ys. fst y < fst (foldl outrank cur offers))"
proof (induction offers rule: rev_induct)
  case Nil
  show ?case by (rule exI [of _ "[]"]) simp
next
  case (snoc new offers)
  let ?w = "foldl outrank cur offers"
  from snoc obtain xs ys where split: "cur # offers = xs @ ?w # ys"
    and le: "\<forall>x \<in> set xs. fst x \<le> fst ?w" and lt: "\<forall>y \<in> set ys. fst y < fst ?w" by blast
  show ?case
  proof (cases "fst ?w \<le> fst new")
    case True
    then have win: "foldl outrank cur (offers @ [new]) = new" by (simp add: outrank_def)
    have "\<forall>x \<in> set (cur # offers). fst x \<le> fst new"
      unfolding split using le lt True by (auto intro: order_trans dest: less_imp_le)
    then show ?thesis unfolding win by (intro exI [of _ "cur # offers"] exI [of _ "[]"]) simp
  next
    case False
    then have win: "foldl outrank cur (offers @ [new]) = ?w" by (simp add: outrank_def)
    have "cur # offers @ [new] = xs @ ?w # (ys @ [new])" using split by simp
    then show ?thesis unfolding win using le lt False
      by (intro exI [of _ xs] exI [of _ "ys @ [new]"]) auto
  qed
qed

text \<open>
  \<open>accepts x i\<close> is the value the option \<open>x\<close> stores for the input \<open>i\<close>, if it is
  allowed. A rejected \<open>set\<close> throws and leaves the object as it was.
\<close>

locale typed_option =
  fixes prio :: "'o \<Rightarrow> priority" and valu :: "'o \<Rightarrow> 'v"
    and accepts :: "'o \<Rightarrow> 'i \<Rightarrow> 'v option"
    and set_typed :: "priority \<Rightarrow> 'i \<Rightarrow> 'o \<Rightarrow> option_error + 'o"
  assumes set_lower: "p < prio x \<Longrightarrow> set_typed p i x = Inr x"
    and set_accepted: "prio x \<le> p \<Longrightarrow> accepts x i = Some v \<Longrightarrow>
      \<exists>y. set_typed p i x = Inr y \<and> prio y = p \<and> valu y = v \<and> accepts y = accepts x"
    and set_rejected: "prio x \<le> p \<Longrightarrow> accepts x i = None \<Longrightarrow> \<exists>e. set_typed p i x = Inl e"
begin

text \<open>One call, an exception caught by the caller.\<close>

definition try_set :: "'o \<Rightarrow> priority \<times> 'i \<Rightarrow> 'o" where
  "try_set x pi = (case set_typed (fst pi) (snd pi) x of Inl e \<Rightarrow> x | Inr y \<Rightarrow> y)"

definition accepted :: "'o \<Rightarrow> (priority \<times> 'i) list \<Rightarrow> (priority \<times> 'v) list" where
  "accepted x pis = [(fst pi, the (accepts x (snd pi))). pi \<leftarrow> pis, accepts x (snd pi) \<noteq> None]"

lemma try_set_result:
  "accepts (try_set x pi) = accepts x \<and>
   (prio (try_set x pi), valu (try_set x pi)) =
     (case accepts x (snd pi) of None \<Rightarrow> (prio x, valu x) | Some v \<Rightarrow> outrank (prio x, valu x) (fst pi, v))"
proof (cases "prio x \<le> fst pi")
  case True
  show ?thesis
  proof (cases "accepts x (snd pi)")
    case None
    with set_rejected [OF True None] show ?thesis by (auto simp: try_set_def)
  next
    case (Some v)
    with set_accepted [OF True Some] True show ?thesis by (auto simp: try_set_def outrank_def)
  qed
qed (simp add: try_set_def set_lower outrank_def split: option.splits)

text \<open>After any run of calls the option holds the last accepted value of the highest priority.\<close>

lemma run_of_sets:
  "(prio (foldl try_set x pis), valu (foldl try_set x pis)) = foldl outrank (prio x, valu x) (accepted x pis)"
proof (induction pis arbitrary: x)
  case (Cons pi pis)
  have "accepts (try_set x pi) = accepts x" using try_set_result [of x pi] by simp
  then have "accepted (try_set x pi) pis = accepted x pis" by (simp add: accepted_def cong: if_cong)
  then show ?case using Cons.IH [of "try_set x pi"] try_set_result [of x pi]
    by (auto simp: accepted_def split: option.splits)
qed (simp add: accepted_def)

lemma priority_never_falls: "prio x \<le> prio (foldl try_set x pis)"
proof -
  have "p \<le> foldl max p ps" for p and ps :: "priority list"
    by (induction ps arbitrary: p) (auto intro: order_trans max.cobounded1)
  moreover have "prio (foldl try_set x pis) = foldl max (prio x) (map fst (accepted x pis))"
    using run_of_sets [of x pis] fst_foldl_outrank [of "(prio x, valu x)" "accepted x pis"] by (metis fst_conv)
  ultimately show ?thesis by simp
qed

end

text \<open>The textual \<open>set\<close> of most classes: parse, then the typed \<open>set\<close>.\<close>

locale parsed_option = typed_option prio valu accepts set_typed
  for prio :: "'o \<Rightarrow> priority" and valu :: "'o \<Rightarrow> 'v" and accepts :: "'o \<Rightarrow> 'i \<Rightarrow> 'v option"
    and set_typed :: "priority \<Rightarrow> 'i \<Rightarrow> 'o \<Rightarrow> option_error + 'o" +
  fixes parse :: "'o \<Rightarrow> string \<Rightarrow> option_error + 'i"
    and set_text :: "priority \<Rightarrow> string \<Rightarrow> 'o \<Rightarrow> option_error + 'o"
  assumes set_text_parses: "set_text p s x = and_then (parse x s) (\<lambda>v. set_typed p v x)"
begin

lemma set_text_unparsable: "parse x s = Inl e \<Longrightarrow> set_text p s x = Inl e"
  by (simp add: set_text_parses)

lemma set_text_result:
  assumes "parse x s = Inr i" "accepts x i = Some v"
  shows "\<exists>y. set_text p s x = Inr y \<and> (prio y, valu y) = outrank (prio x, valu x) (p, v)"
proof (cases "prio x \<le> p")
  case True
  from set_accepted [OF True assms(2)] True assms(1) show ?thesis
    by (auto simp: set_text_parses outrank_def)
next
  case False
  then show ?thesis using assms(1) set_lower [of p x i] by (simp add: set_text_parses outrank_def)
qed

end

end
