(* ===== verification/OptionText.thy ===== *)
theory OptionText
  imports OptionCore
begin

text \<open>
  \<open>OptionString\<close>, \<open>OptionPath\<close> and \<open>OptionStringList\<close>
  (libdnf/conf/option_string.cpp, option_path.cpp, option_string_list.cpp). The regular
  expression engine and the file system are arguments: \<open>rx re icase s\<close> says whether
  \<open>s\<close> matches \<open>re\<close>, \<open>on_disk p\<close> whether \<open>stat(p)\<close> succeeds.
\<close>

type_synonym regex_engine = "string \<Rightarrow> bool \<Rightarrow> string \<Rightarrow> bool"

section \<open>OptionString\<close>

record opt_string =
  os_priority :: priority
  os_regex :: string
  os_icase :: bool
  os_default :: string
  os_value :: string

definition string_test :: "regex_engine \<Rightarrow> string \<Rightarrow> 'a opt_string_scheme \<Rightarrow> option_error + unit" where
  "string_test rx v x =
     (if os_regex x = [] then Inr ()
      else if \<not> rx (os_regex x) (os_icase x) v then Inl (NotAllowedValue v)
      else Inr ())"

definition option_string :: "string \<Rightarrow> opt_string" where
  "option_string default_value =
     \<lparr>os_priority = DEFAULT, os_regex = [], os_icase = False, os_default = default_value, os_value = default_value\<rparr>"

text \<open>The constructors that take a C string; \<open>None\<close> is the null pointer.\<close>

definition option_string_ptr :: "string option \<Rightarrow> opt_string" where
  "option_string_ptr default_value =
     (case default_value of
        Some d \<Rightarrow> \<lparr>os_priority = DEFAULT, os_regex = [], os_icase = False, os_default = d, os_value = d\<rparr>
      | None \<Rightarrow> \<lparr>os_priority = EMPTY, os_regex = [], os_icase = False, os_default = [], os_value = []\<rparr>)"

definition option_string_regex :: "regex_engine \<Rightarrow> string \<Rightarrow> string \<Rightarrow> bool \<Rightarrow> option_error + opt_string" where
  "option_string_regex rx default_value re icase =
     (let x = \<lparr>os_priority = DEFAULT, os_regex = re, os_icase = icase, os_default = default_value, os_value = default_value\<rparr>
      in and_then (string_test rx default_value x) (\<lambda>_. Inr x))"

definition option_string_ptr_regex ::
  "regex_engine \<Rightarrow> string option \<Rightarrow> string \<Rightarrow> bool \<Rightarrow> option_error + opt_string" where
  "option_string_ptr_regex rx default_value re icase =
     (let x = \<lparr>os_priority = EMPTY, os_regex = re, os_icase = icase, os_default = [], os_value = []\<rparr>
      in case default_value of
           None \<Rightarrow> Inr x
         | Some d \<Rightarrow>
             and_then (string_test rx d (x\<lparr>os_default := d\<rparr>))
               (\<lambda>_. Inr (x\<lparr>os_default := d, os_value := d, os_priority := DEFAULT\<rparr>)))"

definition string_set :: "regex_engine \<Rightarrow> priority \<Rightarrow> string \<Rightarrow> opt_string \<Rightarrow> option_error + opt_string" where
  "string_set rx p v x =
     (if os_priority x \<le> p
      then and_then (string_test rx v x) (\<lambda>_. Inr (x\<lparr>os_value := v, os_priority := p\<rparr>))
      else Inr x)"

definition string_get_value :: "'a opt_string_scheme \<Rightarrow> option_error + string" where
  "string_get_value x = (if os_priority x = EMPTY then Inl ValueNotSet else Inr (os_value x))"

definition string_from_string :: "string \<Rightarrow> string" where
  "string_from_string value = value"

section \<open>OptionPath\<close>

record opt_path = opt_string +
  op_exists :: bool
  op_abs_path :: bool

definition remove_file_prot :: "string \<Rightarrow> string" where
  "remove_file_prot value = (if take 7 value = ''file://'' then drop 7 value else value)"

definition path_test :: "(string \<Rightarrow> bool) \<Rightarrow> string \<Rightarrow> opt_path \<Rightarrow> option_error + unit" where
  "path_test on_disk v x =
     (if op_abs_path x \<and> (v = [] \<or> hd v \<noteq> CHR ''/'') then Inl (NotAllowedValue v)
      else if op_exists x \<and> \<not> on_disk v then Inl (PathNotExists v)
      else Inr ())"

definition path_of :: "opt_string \<Rightarrow> bool \<Rightarrow> bool \<Rightarrow> opt_path" where
  "path_of b ex ab =
     \<lparr>os_priority = os_priority b, os_regex = os_regex b, os_icase = os_icase b,
      os_default = os_default b, os_value = os_value b, op_exists = ex, op_abs_path = ab\<rparr>"

text \<open>The last steps of every constructor: strip the default, test it, make it the value.\<close>

definition path_init :: "(string \<Rightarrow> bool) \<Rightarrow> opt_path \<Rightarrow> option_error + opt_path" where
  "path_init on_disk x =
     (let d = remove_file_prot (os_default x)
      in and_then (path_test on_disk d x) (\<lambda>_. Inr (x\<lparr>os_default := d, os_value := d\<rparr>)))"

definition option_path :: "(string \<Rightarrow> bool) \<Rightarrow> string \<Rightarrow> bool \<Rightarrow> bool \<Rightarrow> option_error + opt_path" where
  "option_path on_disk default_value ex ab = path_init on_disk (path_of (option_string default_value) ex ab)"

definition option_path_ptr ::
  "(string \<Rightarrow> bool) \<Rightarrow> string option \<Rightarrow> bool \<Rightarrow> bool \<Rightarrow> option_error + opt_path" where
  "option_path_ptr on_disk default_value ex ab =
     (let x = path_of (option_string_ptr default_value) ex ab
      in if default_value \<noteq> None then path_init on_disk x else Inr x)"

definition option_path_regex ::
  "regex_engine \<Rightarrow> (string \<Rightarrow> bool) \<Rightarrow> string \<Rightarrow> string \<Rightarrow> bool \<Rightarrow> bool \<Rightarrow> bool \<Rightarrow> option_error + opt_path" where
  "option_path_regex rx on_disk default_value re icase ex ab =
     and_then (option_string_regex rx (remove_file_prot default_value) re icase)
       (\<lambda>b. path_init on_disk (path_of b ex ab))"

definition option_path_ptr_regex ::
  "regex_engine \<Rightarrow> (string \<Rightarrow> bool) \<Rightarrow> string option \<Rightarrow> string \<Rightarrow> bool \<Rightarrow> bool \<Rightarrow> bool \<Rightarrow> option_error + opt_path" where
  "option_path_ptr_regex rx on_disk default_value re icase ex ab =
     and_then (option_string_ptr_regex rx default_value re icase)
       (\<lambda>b. if default_value \<noteq> None then path_init on_disk (path_of b ex ab) else Inr (path_of b ex ab))"

definition path_set ::
  "regex_engine \<Rightarrow> (string \<Rightarrow> bool) \<Rightarrow> priority \<Rightarrow> string \<Rightarrow> opt_path \<Rightarrow> option_error + opt_path" where
  "path_set rx on_disk p value x =
     (if os_priority x \<le> p then
        and_then (string_test rx value x) (\<lambda>_.
          let v = remove_file_prot value
          in and_then (path_test on_disk v x) (\<lambda>_. Inr (x\<lparr>os_value := v, os_priority := p\<rparr>)))
      else Inr x)"

section \<open>OptionStringList\<close>

record opt_list =
  ol_priority :: priority
  ol_regex :: string
  ol_icase :: bool
  ol_default :: "string list"
  ol_value :: "string list"

fun list_test_items :: "(string \<Rightarrow> bool) \<Rightarrow> string list \<Rightarrow> option_error + unit" where
  "list_test_items ok [] = Inr ()"
| "list_test_items ok (v # vs) = (if \<not> ok v then Inl (NotAllowedValue v) else list_test_items ok vs)"

definition list_test :: "regex_engine \<Rightarrow> string list \<Rightarrow> opt_list \<Rightarrow> option_error + unit" where
  "list_test rx vs x = (if ol_regex x = [] then Inr () else list_test_items (rx (ol_regex x) (ol_icase x)) vs)"

abbreviation list_sep :: "char \<Rightarrow> bool" where
  "list_sep c \<equiv> c = CHR '' '' \<or> c = CHR '','' \<or> c = CHR 0x0A"

abbreviation skip_blanks :: "string \<Rightarrow> nat \<Rightarrow> nat option" where
  "skip_blanks \<equiv> find_from (\<lambda>c. c \<noteq> CHR '' '')"

text \<open>The position after an item whose end is \<open>e\<close>: a comma after blanks and a line break after
  a blank or a comma are passed over.\<close>

definition list_next :: "string \<Rightarrow> nat \<Rightarrow> nat option" where
  "list_next value e =
     (let start = skip_blanks value (e + 1);
          (e, start) = (case start of
             Some s \<Rightarrow> if value ! s = CHR '','' \<and> value ! e = CHR '' '' then (s, skip_blanks value (s + 1)) else (e, start)
           | None \<Rightarrow> (e, start))
      in case start of
           Some s \<Rightarrow> if value ! s = CHR 0x0A \<and> (value ! e = CHR '' '' \<or> value ! e = CHR '','')
                      then skip_blanks value (s + 1) else start
         | None \<Rightarrow> start)"

lemma list_next_after: "list_next value e = Some s \<Longrightarrow> e < s \<and> s < length value"
  by (fastforce simp: list_next_def Let_def dest: find_from_bounds split: option.splits if_splits prod.splits)

function list_items :: "string \<Rightarrow> nat option \<Rightarrow> string list" where
  "list_items value None = []"
| "list_items value (Some start) =
     (if start < length value then
        (case find_from list_sep value start of
           None \<Rightarrow> [drop start value]
         | Some e \<Rightarrow> substr value start (e - start) # list_items value (list_next value e))
      else [])"
  by pat_completeness auto
termination
proof (relation "measure (\<lambda>(value, start). case start of None \<Rightarrow> 0 | Some s \<Rightarrow> Suc (length value - s))", goal_cases)
  case (2 str start e)
  then show ?case using find_from_bounds [of list_sep str start e] list_next_after [of str e]
    by (auto split: option.splits)
qed simp

declare list_items.simps(2) [simp del]

definition list_from_string :: "string \<Rightarrow> string list" where
  "list_from_string value = list_items value (skip_blanks value 0)"

definition option_list :: "string list \<Rightarrow> opt_list" where
  "option_list default_value =
     \<lparr>ol_priority = DEFAULT, ol_regex = [], ol_icase = False, ol_default = default_value, ol_value = default_value\<rparr>"

definition option_list_regex :: "regex_engine \<Rightarrow> string list \<Rightarrow> string \<Rightarrow> bool \<Rightarrow> option_error + opt_list" where
  "option_list_regex rx default_value re icase =
     (let x = \<lparr>ol_priority = DEFAULT, ol_regex = re, ol_icase = icase, ol_default = default_value, ol_value = default_value\<rparr>
      in and_then (list_test rx default_value x) (\<lambda>_. Inr x))"

definition option_list_text :: "string \<Rightarrow> opt_list" where
  "option_list_text default_value = option_list (list_from_string default_value)"

definition option_list_text_regex :: "regex_engine \<Rightarrow> string \<Rightarrow> string \<Rightarrow> bool \<Rightarrow> option_error + opt_list" where
  "option_list_text_regex rx default_value re icase = option_list_regex rx (list_from_string default_value) re icase"

definition list_set :: "regex_engine \<Rightarrow> priority \<Rightarrow> string list \<Rightarrow> opt_list \<Rightarrow> option_error + opt_list" where
  "list_set rx p v x =
     (if ol_priority x \<le> p
      then and_then (list_test rx v x) (\<lambda>_. Inr (x\<lparr>ol_value := v, ol_priority := p\<rparr>))
      else Inr x)"

definition list_set_text :: "regex_engine \<Rightarrow> priority \<Rightarrow> string \<Rightarrow> opt_list \<Rightarrow> option_error + opt_list" where
  "list_set_text rx p value x = list_set rx p (list_from_string value) x"

fun list_to_string :: "string list \<Rightarrow> string" where
  "list_to_string [] = []"
| "list_to_string [v] = v"
| "list_to_string (v # vs) = v @ '', '' @ list_to_string vs"

definition list_value_string :: "opt_list \<Rightarrow> string" where
  "list_value_string x = list_to_string (ol_value x)"

section \<open>The contracts\<close>

definition string_accepts :: "regex_engine \<Rightarrow> 'a opt_string_scheme \<Rightarrow> string \<Rightarrow> string option" where
  "string_accepts rx x v = (if os_regex x = [] \<or> rx (os_regex x) (os_icase x) v then Some v else None)"

interpretation os: typed_option os_priority os_value "string_accepts rx" "string_set rx" for rx :: regex_engine
  by unfold_locales (auto simp: string_set_def string_accepts_def string_test_def fun_eq_iff split: if_splits)

definition path_accepts :: "regex_engine \<Rightarrow> (string \<Rightarrow> bool) \<Rightarrow> opt_path \<Rightarrow> string \<Rightarrow> string option" where
  "path_accepts rx on_disk x value =
     (let v = remove_file_prot value in
      if string_accepts rx x value \<noteq> None \<and> path_test on_disk v x = Inr () then Some v else None)"

lemma path_test_frame [simp]:
  "path_test on_disk v (x\<lparr>os_value := w, os_priority := p\<rparr>) = path_test on_disk v x"
  by (simp add: path_test_def)

lemma list_test_items_ok: "list_test_items ok vs = Inr () \<longleftrightarrow> (\<forall>v \<in> set vs. ok v)"
  by (induction vs) auto

definition list_accepts :: "regex_engine \<Rightarrow> opt_list \<Rightarrow> string list \<Rightarrow> string list option" where
  "list_accepts rx x vs = (if ol_regex x = [] \<or> (\<forall>v \<in> set vs. rx (ol_regex x) (ol_icase x) v) then Some vs else None)"

lemma list_test_accepts: "list_test rx vs x = Inr () \<longleftrightarrow> list_accepts rx x vs = Some vs"
  by (auto simp: list_test_def list_accepts_def list_test_items_ok)

lemma string_test_accepts: "string_test rx v x = Inr () \<longleftrightarrow> string_accepts rx x v = Some v"
  by (simp add: string_test_def string_accepts_def)

lemma unit_sum_cases: "r = Inr () \<or> (\<exists>e. r = Inl e)" for r :: "'e + unit"
  by (cases r) auto

interpretation op: typed_option os_priority os_value "path_accepts rx on_disk" "path_set rx on_disk"
  for rx :: regex_engine and on_disk :: "string \<Rightarrow> bool"
proof unfold_locales
  fix p i and x :: opt_path and v
  assume le: "os_priority x \<le> p"
  let ?v = "remove_file_prot i"
  note cases = unit_sum_cases [of "string_test rx i x"] unit_sum_cases [of "path_test on_disk ?v x"]
  note acc = string_test_accepts [of rx i x]
  show "\<exists>y. path_set rx on_disk p i x = Inr y \<and> os_priority y = p \<and> os_value y = v \<and>
      path_accepts rx on_disk y = path_accepts rx on_disk x"
    if a: "path_accepts rx on_disk x i = Some v"
  proof -
    have ok: "string_test rx i x = Inr ()" "path_test on_disk ?v x = Inr ()" "v = ?v"
      using a acc by (auto simp: path_accepts_def Let_def string_accepts_def split: if_splits)
    then have "path_set rx on_disk p i x = Inr (x\<lparr>os_value := v, os_priority := p\<rparr>)"
      using le by (simp add: path_set_def Let_def)
    then show ?thesis by (auto simp: path_accepts_def string_accepts_def fun_eq_iff)
  qed
  show "\<exists>e. path_set rx on_disk p i x = Inl e" if "path_accepts rx on_disk x i = None"
    using that le cases acc by (auto simp: path_accepts_def path_set_def Let_def string_accepts_def split: if_splits)
qed (simp add: path_set_def not_le [symmetric])

interpretation ol: typed_option ol_priority ol_value "list_accepts rx" "list_set rx" for rx :: regex_engine
proof unfold_locales
  fix p i and x :: opt_list and v
  assume le: "ol_priority x \<le> p"
  note cases = unit_sum_cases [of "list_test rx i x"] list_test_accepts [of rx i x]
  show "\<exists>y. list_set rx p i x = Inr y \<and> ol_priority y = p \<and> ol_value y = v \<and> list_accepts rx y = list_accepts rx x"
    if a: "list_accepts rx x i = Some v"
  proof -
    have "v = i" using a by (simp add: list_accepts_def split: if_splits)
    then have "list_set rx p i x = Inr (x\<lparr>ol_value := v, ol_priority := p\<rparr>)"
      using a le cases by (auto simp: list_set_def)
    then show ?thesis by (simp add: list_accepts_def fun_eq_iff)
  qed
  show "\<exists>e. list_set rx p i x = Inl e" if "list_accepts rx x i = None"
    using that le cases by (auto simp: list_set_def)
qed (simp add: list_set_def not_le [symmetric])

interpretation olt: parsed_option ol_priority ol_value "list_accepts rx" "list_set rx" "\<lambda>_ s. Inr (list_from_string s)"
  "list_set_text rx" for rx :: regex_engine
  by unfold_locales (simp add: list_set_text_def)

section \<open>Lists as text\<close>

definition list_item_ok :: "string \<Rightarrow> bool" where
  "list_item_ok v \<longleftrightarrow> v \<noteq> [] \<and> (\<forall>c \<in> set v. \<not> list_sep c)"

lemma find_from_skip: "length pre \<le> n \<Longrightarrow> find_from P (pre @ s) n = map_option ((+) (length pre)) (find_from P s (n - length pre))"
  by (cases "find_idx P (drop (n - length pre) s)") (simp_all add: find_from_def)

lemma find_from_prefix: "find_from P (pre @ s) (length pre) = map_option ((+) (length pre)) (find_idx P s)"
  by (simp add: find_from_def)

lemma find_idx_past: "\<forall>x \<in> set xs. \<not> P x \<Longrightarrow> find_idx P (xs @ ys) = map_option ((+) (length xs)) (find_idx P ys)"
  by (induction xs; cases "find_idx P ys") auto

lemma list_to_string_Cons:
  "vs \<noteq> [] \<Longrightarrow> list_to_string (v # vs) = v @ '', '' @ list_to_string vs"
  by (cases vs) simp_all

lemma list_to_string_starts:
  "vs \<noteq> [] \<Longrightarrow> \<forall>v \<in> set vs. list_item_ok v \<Longrightarrow>
     \<exists>c cs. list_to_string vs = c # cs \<and> \<not> list_sep c"
proof (cases vs)
  case (Cons v ws)
  assume "\<forall>v \<in> set vs. list_item_ok v"
  then have "list_item_ok v" by (simp add: Cons)
  then obtain c cs where "v = c # cs" "\<not> list_sep c" by (cases v) (auto simp: list_item_ok_def)
  then show ?thesis by (cases ws) (simp_all add: Cons)
qed simp

lemma list_items_to_string:
  "\<forall>v \<in> set vs. list_item_ok v \<Longrightarrow> vs \<noteq> [] \<Longrightarrow>
     list_items (pre @ list_to_string vs) (Some (length pre)) = vs"
proof (induction vs arbitrary: pre)
  case (Cons v vs)
  then have v: "list_item_ok v" "\<forall>c \<in> set v. \<not> list_sep c" "v \<noteq> []" by (auto simp: list_item_ok_def)
  show ?case
  proof (cases "vs = []")
    case True
    have "find_from list_sep (pre @ v) (length pre) = None"
      using v(2) by (auto simp: find_from_None)
    then show ?thesis using True v(3) by (simp add: list_items.simps(2))
  next
    case False
    let ?rest = "list_to_string vs"
    let ?s = "pre @ v @ '', '' @ ?rest" and ?e = "length pre + length v"
    obtain c cs where r: "?rest = c # cs" "\<not> list_sep c"
      using list_to_string_starts [OF False] Cons.prems(1) by auto
    have e: "find_from list_sep ?s (length pre) = Some ?e"
      using find_idx_past [of v list_sep "'', '' @ ?rest"] v(2) by (simp add: find_from_prefix)
    have e': "?s ! ?e = CHR '',''"
      using nth_append [of "pre @ v" "'', '' @ ?rest" ?e] by simp
    have sk: "skip_blanks ?s (?e + 1) = Some (?e + 2)"
      using find_from_prefix [of "\<lambda>c. c \<noteq> CHR '' ''" "pre @ v @ '',''" "CHR '' '' # ?rest"] r by simp
    have c': "?s ! (?e + 2) = c"
      using nth_append [of "pre @ v @ '', ''" ?rest "?e + 2"] r(1) by simp
    have nx: "list_next ?s ?e = Some (?e + 2)"
      unfolding list_next_def Let_def sk using c' e' r(2) by simp
    have IH: "list_items ?s (Some (?e + 2)) = vs"
      using Cons.IH [of "pre @ v @ '', ''"] Cons.prems(1) False by simp
    have "substr ?s (length pre) (?e - length pre) = v" by (simp add: substr_def)
    then have "list_items ?s (Some (length pre)) = v # vs"
      unfolding list_items.simps(2) using e nx IH v(3) by simp
    then show ?thesis using list_to_string_Cons [OF False, of v] by simp
  qed
qed simp

lemma list_roundtrip: "\<forall>v \<in> set vs. list_item_ok v \<Longrightarrow> list_from_string (list_to_string vs) = vs"
proof (cases "vs = []")
  case False
  assume ok: "\<forall>v \<in> set vs. list_item_ok v"
  from list_to_string_starts [OF False ok] have "skip_blanks (list_to_string vs) 0 = Some 0"
    by (auto simp: find_from_def)
  with list_items_to_string [OF ok False, of "[]"] show ?thesis by (simp add: list_from_string_def)
qed (simp add: list_from_string_def find_from_def)

end
