(* ===== verification/OptionScalar.thy ===== *)
theory OptionScalar
  imports OptionCore
begin

text \<open>
  \<open>OptionBool\<close>, \<open>OptionNumber\<close> and \<open>OptionEnum<std::string>\<close>
  (libdnf/conf/option_bool.cpp, option_number.cpp, option_enum.cpp and their headers). A
  method that can throw returns a sum; on \<open>Inl\<close> the object keeps its state.
\<close>

section \<open>OptionBool\<close>

record opt_bool =
  ob_priority :: priority
  ob_true_values :: "string list option"
  ob_false_values :: "string list option"
  ob_default :: bool
  ob_value :: bool

definition option_bool :: "bool \<Rightarrow> opt_bool" where
  "option_bool default_value =
     \<lparr>ob_priority = DEFAULT, ob_true_values = None, ob_false_values = None,
      ob_default = default_value, ob_value = default_value\<rparr>"

definition option_bool_custom :: "bool \<Rightarrow> string list \<Rightarrow> string list \<Rightarrow> opt_bool" where
  "option_bool_custom default_value true_vals false_vals =
     \<lparr>ob_priority = DEFAULT, ob_true_values = Some true_vals, ob_false_values = Some false_vals,
      ob_default = default_value, ob_value = default_value\<rparr>"

text \<open>The copy constructor and the assignment operator, which is not the same: it leaves the
  base class, and so the priority, and word lists the source does not have, as they are.\<close>

definition option_bool_copy :: "opt_bool \<Rightarrow> opt_bool" where
  "option_bool_copy src =
     \<lparr>ob_priority = ob_priority src, ob_true_values = ob_true_values src,
      ob_false_values = ob_false_values src, ob_default = ob_default src, ob_value = ob_value src\<rparr>"

definition option_bool_assign :: "opt_bool \<Rightarrow> opt_bool \<Rightarrow> opt_bool" where
  "option_bool_assign x src =
     (let x = (case ob_true_values src of Some vs \<Rightarrow> x\<lparr>ob_true_values := Some vs\<rparr> | None \<Rightarrow> x);
          x = (case ob_false_values src of Some vs \<Rightarrow> x\<lparr>ob_false_values := Some vs\<rparr> | None \<Rightarrow> x)
      in x\<lparr>ob_default := ob_default src, ob_value := ob_value src\<rparr>)"

definition default_true_values :: "string list" where
  "default_true_values = [''1'', ''yes'', ''true'', ''on'']"

definition default_false_values :: "string list" where
  "default_false_values = [''0'', ''no'', ''false'', ''off'']"

definition true_values :: "opt_bool \<Rightarrow> string list" where
  "true_values x = (case ob_true_values x of Some vs \<Rightarrow> vs | None \<Rightarrow> default_true_values)"

definition false_values :: "opt_bool \<Rightarrow> string list" where
  "false_values x = (case ob_false_values x of Some vs \<Rightarrow> vs | None \<Rightarrow> default_false_values)"

definition bool_from_string :: "opt_bool \<Rightarrow> string \<Rightarrow> option_error + bool" where
  "bool_from_string x value =
     (let tmp_value = map to_lower value in
      if tmp_value \<in> set (false_values x) then Inr False
      else if tmp_value \<in> set (true_values x) then Inr True
      else Inl (InvalidValue value))"

definition bool_set :: "priority \<Rightarrow> bool \<Rightarrow> opt_bool \<Rightarrow> option_error + opt_bool" where
  "bool_set p v x = Inr (if ob_priority x \<le> p then x\<lparr>ob_value := v, ob_priority := p\<rparr> else x)"

definition bool_set_text :: "priority \<Rightarrow> string \<Rightarrow> opt_bool \<Rightarrow> option_error + opt_bool" where
  "bool_set_text p value x = and_then (bool_from_string x value) (\<lambda>v. bool_set p v x)"

definition bool_to_string :: "bool \<Rightarrow> string" where
  "bool_to_string v = (if v then ''1'' else ''0'')"

definition bool_value_string :: "opt_bool \<Rightarrow> string" where
  "bool_value_string x = bool_to_string (ob_value x)"

section \<open>Numbers on streams\<close>

text \<open>
  What a number type contributes to the template: \<open>operator>>\<close> (\<open>None\<close> when the stream
  fails), \<open>operator<<\<close>, \<open><\<close> and its limits. The four integer types are
  defined here, \<open>float\<close> with the floating-point arithmetic.
\<close>

record 'n num_type =
  nt_read :: "string \<Rightarrow> 'n option"
  nt_show :: "'n \<Rightarrow> string"
  nt_less :: "'n \<Rightarrow> 'n \<Rightarrow> bool"
  nt_lowest :: 'n
  nt_highest :: 'n

definition int_string :: "int \<Rightarrow> string" where
  "int_string i = (if i < 0 then CHR ''-'' # nat_string (nat (- i)) else nat_string (nat i))"

text \<open>
  Decimal extraction: blanks are skipped, one sign is taken, then digits as long as they last;
  what follows them stays in the stream. A value outside the type fails; a negative
  numeral read into an unsigned type wraps, as \<open>strtoull\<close> does.
\<close>

definition int_read :: "bool \<Rightarrow> int \<Rightarrow> int \<Rightarrow> string \<Rightarrow> int option" where
  "int_read is_signed lowest highest s =
     (let s = dropWhile is_space s;
          (neg, s) = (case s of
              [] \<Rightarrow> (False, s)
            | c # cs \<Rightarrow> if c = CHR ''-'' then (True, cs) else if c = CHR ''+'' then (False, cs) else (False, s));
          ds = takeWhile is_digit s; n = int (digits_val ds)
      in if ds = [] then None
         else if is_signed then
           (let v = (if neg then - n else n) in if lowest \<le> v \<and> v \<le> highest then Some v else None)
         else if highest < n then None
         else Some (if neg then (- n) mod (highest + 1) else n))"

definition int_type :: "bool \<Rightarrow> int \<Rightarrow> int \<Rightarrow> int num_type" where
  "int_type is_signed lowest highest =
     \<lparr>nt_read = int_read is_signed lowest highest, nt_show = int_string, nt_less = (<),
      nt_lowest = lowest, nt_highest = highest\<rparr>"

definition int32_type :: "int num_type" where
  "int32_type = int_type True (- (2 ^ 31)) (2 ^ 31 - 1)"

definition uint32_type :: "int num_type" where
  "uint32_type = int_type False 0 (2 ^ 32 - 1)"

definition int64_type :: "int num_type" where
  "int64_type = int_type True (- (2 ^ 63)) (2 ^ 63 - 1)"

definition uint64_type :: "int num_type" where
  "uint64_type = int_type False 0 (2 ^ 64 - 1)"

section \<open>OptionNumber\<close>

record 'n opt_number =
  on_priority :: priority
  on_from_string_user :: "(string \<Rightarrow> option_error + 'n) option"
  on_default :: 'n
  on_min :: 'n
  on_max :: 'n
  on_value :: 'n

definition number_test :: "'n num_type \<Rightarrow> 'n \<Rightarrow> 'n opt_number \<Rightarrow> option_error + unit" where
  "number_test t v x =
     (if nt_less t v (on_min x) \<or> nt_less t (on_max x) v then Inl (NotAllowedValue (nt_show t v)) else Inr ())"

definition option_number_user ::
  "'n num_type \<Rightarrow> 'n \<Rightarrow> 'n \<Rightarrow> 'n \<Rightarrow> (string \<Rightarrow> option_error + 'n) option \<Rightarrow> option_error + 'n opt_number" where
  "option_number_user t default_value min_val max_val from_string_func =
     (let x = \<lparr>on_priority = DEFAULT, on_from_string_user = from_string_func, on_default = default_value,
               on_min = min_val, on_max = max_val, on_value = default_value\<rparr>
      in and_then (number_test t default_value x) (\<lambda>_. Inr x))"

definition option_number ::
  "'n num_type \<Rightarrow> 'n \<Rightarrow> 'n \<Rightarrow> 'n \<Rightarrow> option_error + 'n opt_number" where
  "option_number t default_value min_val max_val = option_number_user t default_value min_val max_val None"

definition option_number_min :: "'n num_type \<Rightarrow> 'n \<Rightarrow> 'n \<Rightarrow> option_error + 'n opt_number" where
  "option_number_min t default_value min_val = option_number t default_value min_val (nt_highest t)"

definition option_number_any :: "'n num_type \<Rightarrow> 'n \<Rightarrow> option_error + 'n opt_number" where
  "option_number_any t default_value = option_number t default_value (nt_lowest t) (nt_highest t)"

definition number_from_string :: "'n num_type \<Rightarrow> 'n opt_number \<Rightarrow> string \<Rightarrow> option_error + 'n" where
  "number_from_string t x value =
     (case on_from_string_user x of
        Some f \<Rightarrow> f value
      | None \<Rightarrow> (case nt_read t value of Some v \<Rightarrow> Inr v | None \<Rightarrow> Inl (InvalidValue value)))"

definition number_set ::
  "'n num_type \<Rightarrow> priority \<Rightarrow> 'n \<Rightarrow> 'n opt_number \<Rightarrow> option_error + 'n opt_number" where
  "number_set t p v x =
     (if on_priority x \<le> p
      then and_then (number_test t v x) (\<lambda>_. Inr (x\<lparr>on_value := v, on_priority := p\<rparr>))
      else Inr x)"

definition number_set_text ::
  "'n num_type \<Rightarrow> priority \<Rightarrow> string \<Rightarrow> 'n opt_number \<Rightarrow> option_error + 'n opt_number" where
  "number_set_text t p value x = and_then (number_from_string t x value) (\<lambda>v. number_set t p v x)"

definition number_value_string :: "'n num_type \<Rightarrow> 'n opt_number \<Rightarrow> string" where
  "number_value_string t x = nt_show t (on_value x)"

section \<open>OptionEnum of strings\<close>

record opt_enum =
  oe_priority :: priority
  oe_from_string_user :: "(string \<Rightarrow> option_error + string) option"
  oe_enum_vals :: "string list"
  oe_default :: string
  oe_value :: string

definition enum_test :: "string \<Rightarrow> opt_enum \<Rightarrow> option_error + unit" where
  "enum_test v x = (if v \<in> set (oe_enum_vals x) then Inr () else Inl (NotAllowedValue v))"

definition option_enum_user ::
  "string \<Rightarrow> string list \<Rightarrow> (string \<Rightarrow> option_error + string) option \<Rightarrow> option_error + opt_enum" where
  "option_enum_user default_value enum_vals from_string_func =
     (let x = \<lparr>oe_priority = DEFAULT, oe_from_string_user = from_string_func, oe_enum_vals = enum_vals,
               oe_default = default_value, oe_value = default_value\<rparr>
      in and_then (enum_test default_value x) (\<lambda>_. Inr x))"

definition option_enum :: "string \<Rightarrow> string list \<Rightarrow> option_error + opt_enum" where
  "option_enum default_value enum_vals = option_enum_user default_value enum_vals None"

definition enum_from_string :: "opt_enum \<Rightarrow> string \<Rightarrow> option_error + string" where
  "enum_from_string x value = (case oe_from_string_user x of Some f \<Rightarrow> f value | None \<Rightarrow> Inr value)"

text \<open>The part of \<open>set\<close> after the conversion.\<close>

definition enum_store :: "priority \<Rightarrow> string \<Rightarrow> opt_enum \<Rightarrow> option_error + opt_enum" where
  "enum_store p v x =
     (if oe_priority x \<le> p
      then and_then (enum_test v x) (\<lambda>_. Inr (x\<lparr>oe_value := v, oe_priority := p\<rparr>))
      else Inr x)"

definition enum_set :: "priority \<Rightarrow> string \<Rightarrow> opt_enum \<Rightarrow> option_error + opt_enum" where
  "enum_set p value x = and_then (enum_from_string x value) (\<lambda>v. enum_store p v x)"

section \<open>The contracts\<close>

interpretation ob: parsed_option ob_priority ob_value "\<lambda>_. Some" bool_set bool_from_string bool_set_text
  by unfold_locales (auto simp: bool_set_def bool_set_text_def)

definition number_accepts :: "'n num_type \<Rightarrow> 'n opt_number \<Rightarrow> 'n \<Rightarrow> 'n option" where
  "number_accepts t x v = (if nt_less t v (on_min x) \<or> nt_less t (on_max x) v then None else Some v)"

interpretation on: parsed_option on_priority on_value "number_accepts t" "number_set t" "number_from_string t"
  "number_set_text t" for t :: "'n num_type"
  by unfold_locales
    (auto simp: number_set_def number_set_text_def number_accepts_def number_test_def fun_eq_iff
      split: if_splits)

definition enum_accepts :: "opt_enum \<Rightarrow> string \<Rightarrow> string option" where
  "enum_accepts x v = (if v \<in> set (oe_enum_vals x) then Some v else None)"

interpretation oe: parsed_option oe_priority oe_value enum_accepts enum_store enum_from_string enum_set
  by unfold_locales
    (auto simp: enum_store_def enum_set_def enum_accepts_def enum_test_def fun_eq_iff split: if_splits)

end
