(* ===== verification/FloatingPoint.thy ===== *)
theory FloatingPoint
  imports Complex_Main CppString
begin

text \<open>
  The floating-point arithmetic the configuration uses: binary IEEE 754 numbers as exact
  rationals, rounded to nearest even after every operation, the conversions \<open>std::stod\<close> and
  \<open>std::stof\<close>, the conversion to an integer and the default output format. The two zeros
  are one value, which no source observes.
\<close>

section \<open>Numbers and rounding\<close>

datatype fp = Finite rat | Infinite bool | NaN

record fp_format =
  fp_precision :: nat
  fp_emin :: int
  fp_emax :: int

definition double_format :: fp_format where
  "double_format = \<lparr>fp_precision = 53, fp_emin = -1074, fp_emax = 1024\<rparr>"

definition float_format :: fp_format where
  "float_format = \<lparr>fp_precision = 24, fp_emin = -149, fp_emax = 128\<rparr>"

definition rat_pow :: "rat \<Rightarrow> int \<Rightarrow> rat" where
  "rat_pow b e = (if 0 \<le> e then b ^ nat e else 1 / b ^ nat (- e))"

fun digit_count :: "nat \<Rightarrow> nat \<Rightarrow> nat" where
  "digit_count b n = (if n = 0 \<or> b < 2 then 0 else Suc (digit_count b (n div b)))"

declare digit_count.simps [simp del]

text \<open>The exponent of the leading digit of a positive number in base \<open>b\<close>.\<close>

definition floor_log :: "nat \<Rightarrow> rat \<Rightarrow> int" where
  "floor_log b q =
     (let (n, d) = quotient_of q;
          k = int (digit_count b (nat n)) - int (digit_count b (nat d))
      in if rat_pow (of_nat b) k \<le> q then k else k - 1)"

definition round_even :: "rat \<Rightarrow> int" where
  "round_even x =
     (let f = \<lfloor>x\<rfloor>; r = x - of_int f in if r < 1 / 2 \<or> (r = 1 / 2 \<and> even f) then f else f + 1)"

definition fp_round :: "fp_format \<Rightarrow> rat \<Rightarrow> fp" where
  "fp_round fmt q =
     (let a = \<bar>q\<bar> in
      if a = 0 then Finite 0
      else
        (let e = max (floor_log 2 a - (int (fp_precision fmt) - 1)) (fp_emin fmt);
             v = of_int (round_even (a / rat_pow 2 e)) * rat_pow 2 e
         in if rat_pow 2 (fp_emax fmt) \<le> v then Infinite (q < 0) else Finite (if q < 0 then - v else v)))"

fun fp_less :: "fp \<Rightarrow> fp \<Rightarrow> bool" where
  "fp_less (Finite a) (Finite b) = (a < b)"
| "fp_less (Infinite s) (Finite b) = s"
| "fp_less (Finite a) (Infinite s) = (\<not> s)"
| "fp_less (Infinite s) (Infinite t) = (s \<and> \<not> t)"
| "fp_less NaN _ = False"
| "fp_less _ NaN = False"

text \<open>Multiplication and division by a positive integer constant.\<close>

fun fp_mul :: "fp_format \<Rightarrow> fp \<Rightarrow> nat \<Rightarrow> fp" where
  "fp_mul fmt (Finite a) k = fp_round fmt (a * of_nat k)"
| "fp_mul fmt (Infinite s) k = Infinite s"
| "fp_mul fmt NaN k = NaN"

fun fp_div :: "fp_format \<Rightarrow> fp \<Rightarrow> nat \<Rightarrow> fp" where
  "fp_div fmt (Finite a) k = fp_round fmt (a / of_nat k)"
| "fp_div fmt (Infinite s) k = Infinite s"
| "fp_div fmt NaN k = NaN"

text \<open>\<open>static_cast\<close> to an integer type: truncation, undefined (\<open>None\<close>) outside the type.\<close>

definition rat_trunc :: "rat \<Rightarrow> int" where
  "rat_trunc q = (if q < 0 then - \<lfloor>- q\<rfloor> else \<lfloor>q\<rfloor>)"

fun fp_to_int :: "int \<Rightarrow> int \<Rightarrow> fp \<Rightarrow> int option" where
  "fp_to_int lo hi (Finite q) = (let t = rat_trunc q in if lo \<le> t \<and> t \<le> hi then Some t else None)"
| "fp_to_int lo hi _ = None"

section \<open>std::stod and std::stof\<close>

datatype stod_error = StodInvalidArgument | StodOutOfRange

definition hex_digit :: "char \<Rightarrow> bool" where
  "hex_digit c \<longleftrightarrow> is_digit c \<or> to_lower c \<in> set ''abcdef''"

definition hex_val :: "char \<Rightarrow> nat" where
  "hex_val c = (if is_digit c then digit_val c else char_code (to_lower c) - 87)"

definition based_val :: "nat \<Rightarrow> string \<Rightarrow> nat" where
  "based_val b s = foldl (\<lambda>n c. b * n + hex_val c) 0 s"

text \<open>The digits with an optional point: their value and the rest of the text.\<close>

definition scan_mantissa :: "bool \<Rightarrow> string \<Rightarrow> (rat \<times> string) option" where
  "scan_mantissa hex s =
     (let dig = (if hex then hex_digit else is_digit); b = (if hex then 16 else 10);
          i = takeWhile dig s; r = dropWhile dig s;
          (f, r) = (case r of
              [] \<Rightarrow> ([], r)
            | c # cs \<Rightarrow> if c = CHR ''.'' \<and> (i \<noteq> [] \<or> takeWhile dig cs \<noteq> []) then (takeWhile dig cs, dropWhile dig cs)
                        else ([], r))
      in if i = [] \<and> f = [] then None
         else Some (of_nat (based_val b (i @ f)) / of_nat (b ^ length f), r))"

definition scan_exponent :: "char \<Rightarrow> string \<Rightarrow> int \<times> string" where
  "scan_exponent mark s =
     (case s of
        [] \<Rightarrow> (0, s)
      | c # cs \<Rightarrow>
          if to_lower c \<noteq> mark then (0, s)
          else
            (let (neg, ds) = (case cs of
                 [] \<Rightarrow> (False, cs)
               | x # xs \<Rightarrow> if x = CHR ''-'' then (True, xs) else if x = CHR ''+'' then (False, xs) else (False, cs));
                 e = int (digits_val (takeWhile is_digit ds))
             in if takeWhile is_digit ds = [] then (0, s)
                else (if neg then - e else e, dropWhile is_digit ds)))"

definition lower_prefix :: "string \<Rightarrow> string \<Rightarrow> bool" where
  "lower_prefix p s \<longleftrightarrow> map to_lower (take (length p) s) = p"

text \<open>\<open>nan(chars)\<close>: the parenthesis belongs to the number when it is closed.\<close>

definition skip_nan_chars :: "string \<Rightarrow> string" where
  "skip_nan_chars s =
     (case s of
        [] \<Rightarrow> s
      | c # cs \<Rightarrow>
          (let r = dropWhile (\<lambda>c. is_alnum c \<or> c = CHR ''_'') cs in
           if c = CHR ''('' \<and> r \<noteq> [] \<and> hd r = CHR '')'' then tl r else s))"

text \<open>The unsigned part of \<open>strtod\<close>: the exact value, or a special one, and the rest.\<close>

definition scan_number :: "string \<Rightarrow> (fp \<times> string) option" where
  "scan_number s =
     (if lower_prefix ''infinity'' s then Some (Infinite False, drop 8 s)
      else if lower_prefix ''inf'' s then Some (Infinite False, drop 3 s)
      else if lower_prefix ''nan'' s then Some (NaN, skip_nan_chars (drop 3 s))
      else
        (case (if lower_prefix ''0x'' s then scan_mantissa True (drop 2 s) else None) of
           Some (m, r) \<Rightarrow> (case scan_exponent (CHR ''p'') r of (e, r) \<Rightarrow> Some (Finite (m * rat_pow 2 e), r))
         | None \<Rightarrow>
             (case scan_mantissa False s of
                Some (m, r) \<Rightarrow> (case scan_exponent (CHR ''e'') r of (e, r) \<Rightarrow> Some (Finite (m * rat_pow 10 e), r))
              | None \<Rightarrow> None)))"

text \<open>A finite result that overflows, or a denormal one that is not exact, is out of range.\<close>

definition fp_in_range :: "fp_format \<Rightarrow> rat \<Rightarrow> fp \<Rightarrow> bool" where
  "fp_in_range fmt q r =
     (case r of
        Finite v \<Rightarrow> v = q \<or> rat_pow 2 (fp_emin fmt + int (fp_precision fmt) - 1) \<le> \<bar>v\<bar>
      | _ \<Rightarrow> False)"

definition sto_fp :: "fp_format \<Rightarrow> string \<Rightarrow> stod_error + fp \<times> nat" where
  "sto_fp fmt str =
     (let s = dropWhile is_space str;
          (neg, s) = (case s of
              [] \<Rightarrow> (False, s)
            | c # cs \<Rightarrow> if c = CHR ''-'' then (True, cs) else if c = CHR ''+'' then (False, cs) else (False, s))
      in case scan_number s of
           None \<Rightarrow> Inl StodInvalidArgument
         | Some (Finite m, r) \<Rightarrow>
             (let q = (if neg then - m else m); v = fp_round fmt q
              in if fp_in_range fmt q v then Inr (v, length str - length r) else Inl StodOutOfRange)
         | Some (Infinite _, r) \<Rightarrow> Inr (Infinite neg, length str - length r)
         | Some (NaN, r) \<Rightarrow> Inr (NaN, length str - length r))"

definition stod :: "string \<Rightarrow> stod_error + fp \<times> nat" where
  "stod = sto_fp double_format"

definition stof :: "string \<Rightarrow> stod_error + fp \<times> nat" where
  "stof = sto_fp float_format"

section \<open>Default output\<close>

definition strip_zeros :: "string \<Rightarrow> string" where
  "strip_zeros s = rev (dropWhile (\<lambda>c. c = CHR ''0'') (rev s))"

definition with_fraction :: "string \<Rightarrow> string \<Rightarrow> string" where
  "with_fraction i f = (let f = strip_zeros f in if f = [] then i else i @ CHR ''.'' # f)"

text \<open>\<open>operator<<\<close> with six significant digits.\<close>

definition rat_string :: "rat \<Rightarrow> string" where
  "rat_string q =
     (let a = \<bar>q\<bar>; x0 = floor_log 10 a; m0 = round_even (a / rat_pow 10 (x0 - 5));
          (x, m) = (if m0 = 10 ^ 6 then (x0 + 1, 10 ^ 5) else (x0, m0));
          ds = nat_string (nat m)
      in if q = 0 then ''0''
         else (if q < 0 then ''-'' else []) @
           (if x < -4 \<or> 6 \<le> x then
              with_fraction (take 1 ds) (drop 1 ds) @ ''e'' @ (if x < 0 then ''-'' else ''+'') @
              (if \<bar>x\<bar> < 10 then ''0'' else []) @ nat_string (nat \<bar>x\<bar>)
            else if 0 \<le> x then with_fraction (take (Suc (nat x)) ds) (drop (Suc (nat x)) ds)
            else with_fraction ''0'' (replicate (nat (- x) - 1) (CHR ''0'') @ ds)))"

fun fp_string :: "fp \<Rightarrow> string" where
  "fp_string (Finite q) = rat_string q"
| "fp_string (Infinite s) = (if s then ''-inf'' else ''inf'')"
| "fp_string NaN = ''nan''"

section \<open>Integers are exact\<close>

lemma digit_count_1 [simp]: "digit_count 2 (Suc 0) = 1"
  by (simp add: digit_count.simps [of 2 "Suc 0"] digit_count.simps [of 2 0])

lemma digit_count_bounds: "0 < n \<Longrightarrow> 0 < digit_count 2 n \<and> 2 ^ (digit_count 2 n - 1) \<le> n"
proof (induction n rule: less_induct)
  case (less n)
  show ?case
  proof (cases "n = 1")
    case True
    then show ?thesis by simp
  next
    case False
    then have n: "1 < n" "0 < n div 2" "n div 2 < n" using less.prems by auto
    then have IH: "0 < digit_count 2 (n div 2)" "2 ^ (digit_count 2 (n div 2) - 1) \<le> n div 2"
      using less.IH by blast+
    have "digit_count 2 n = Suc (digit_count 2 (n div 2))" using n by (simp add: digit_count.simps [of 2 n])
    moreover have "(2 :: nat) ^ digit_count 2 (n div 2) = 2 * 2 ^ (digit_count 2 (n div 2) - 1)"
      using IH(1) by (metis Suc_pred' power_Suc)
    ultimately show ?thesis using IH(2) by simp
  qed
qed

lemma floor_log_nat:
  assumes "0 < n"
  shows "floor_log 2 (of_nat n) = int (digit_count 2 n) - 1"
proof -
  let ?k = "digit_count 2 n - 1"
  have k: "int (digit_count 2 n) - 1 = int ?k" using digit_count_bounds [OF assms] by simp
  have "(2 :: rat) ^ ?k = of_nat (2 ^ ?k)" by simp
  also have "\<dots> \<le> of_nat n" using digit_count_bounds [OF assms] by (simp only: of_nat_le_iff)
  finally have le: "(2 :: rat) ^ ?k \<le> of_nat n" .
  have "floor_log 2 (of_nat n) = (if rat_pow 2 (int (digit_count 2 n) - 1) \<le> of_nat n
      then int (digit_count 2 n) - 1 else int (digit_count 2 n) - 2)"
    by (simp add: floor_log_def)
  moreover have "rat_pow 2 (int (digit_count 2 n) - 1) = 2 ^ ?k" unfolding k rat_pow_def by simp
  ultimately show ?thesis using le by simp
qed

lemma rat_pow_int: "of_nat n / rat_pow 2 (- int k) = (of_int (int n * 2 ^ k) :: rat)"
  by (cases "k = 0") (simp_all add: rat_pow_def)

lemma round_even_int [simp]: "round_even (of_int i) = i"
  by (simp add: round_even_def)

text \<open>An integer below $2^{53}$ is a \<open>double\<close>.\<close>

lemma double_nat:
  assumes "n < 2 ^ 53"
  shows "fp_round double_format (of_nat n) = Finite (of_nat n)"
proof (cases "n = 0")
  case False
  let ?d = "digit_count 2 n"
  let ?e = "max (floor_log 2 (of_nat n) - (int (fp_precision double_format) - 1)) (fp_emin double_format)"
  have "2 ^ (?d - 1) < (2 :: nat) ^ 53" using digit_count_bounds [of n] False assms by linarith
  then have d: "?d - 1 < 53" using power_less_imp_less_exp [of "2 :: nat" "?d - 1" 53] by simp
  then have e: "0 \<le> - ?e" using False by (simp add: floor_log_nat double_format_def)
  define k where "k = nat (- ?e)"
  have ek: "?e = - int k" using e by (simp add: k_def)
  have r: "of_nat n / rat_pow 2 ?e = (of_int (int n * 2 ^ k) :: rat)"
    unfolding ek by (rule rat_pow_int)
  have v: "of_int (int n * 2 ^ k) * rat_pow 2 ?e = (of_nat n :: rat)"
    unfolding ek by (cases "k = 0") (simp_all add: rat_pow_def)
  have rv: "of_int (round_even (of_nat n / rat_pow 2 ?e)) * rat_pow 2 ?e = (of_nat n :: rat)"
    by (simp only: r round_even_int v)
  have "(of_nat n :: rat) < of_nat (2 ^ 53)" using assms by (simp only: of_nat_less_iff)
  also have "\<dots> = 2 ^ 53" by (simp only: of_nat_power of_nat_numeral)
  also have "(2 :: rat) ^ 53 \<le> 2 ^ 1024" by (rule power_increasing) simp_all
  also have "(2 :: rat) ^ 1024 = rat_pow 2 1024" by (simp only: rat_pow_def) simp
  finally have "\<not> rat_pow 2 1024 \<le> (of_nat n :: rat)" by (simp only: not_le)
  moreover have "fp_emax double_format = 1024" by (simp add: double_format_def)
  ultimately show ?thesis
    using False unfolding fp_round_def Let_def abs_of_nat rv by simp
qed (simp add: fp_round_def)

lemma rat_trunc_nat [simp]: "rat_trunc (of_nat n) = int n"
  by (simp add: rat_trunc_def)

section \<open>Decimal integers\<close>

lemma digit_lower [simp]: "is_digit c \<Longrightarrow> to_lower c = c"
  by (simp add: to_lower_def is_digit_def is_upper_def)

lemma digit_not: "is_digit c \<Longrightarrow> char_code d < 48 \<or> 57 < char_code d \<Longrightarrow> c \<noteq> d"
  by (auto simp: is_digit_def)

lemma digit_class: "is_digit c \<Longrightarrow> \<not> is_space c"
  by (simp add: is_digit_def is_space_def)

lemma based_val_digits: "\<forall>c \<in> set ds. is_digit c \<Longrightarrow> based_val 10 ds = digits_val ds"
proof -
  have "\<forall>c \<in> set ds. is_digit c \<Longrightarrow> foldl (\<lambda>n c. 10 * n + hex_val c) m ds = foldl (\<lambda>n c. 10 * n + digit_val c) m ds"
    for m by (induction ds arbitrary: m) (simp_all add: hex_val_def)
  then show "\<forall>c \<in> set ds. is_digit c \<Longrightarrow> based_val 10 ds = digits_val ds"
    by (simp add: based_val_def digits_val_def)
qed

text \<open>What may follow a decimal integer without being part of the number.\<close>

definition ends_number :: "string \<Rightarrow> bool" where
  "ends_number r \<longleftrightarrow> (case r of [] \<Rightarrow> True | c # cs \<Rightarrow> \<not> is_digit c \<and> c \<noteq> CHR ''.'' \<and> to_lower c \<noteq> CHR ''e'' \<and> to_lower c \<noteq> CHR ''x'')"

lemma scan_integer:
  assumes "\<forall>c \<in> set ds. is_digit c" "ds \<noteq> []" "ends_number r"
  shows "scan_number (ds @ r) = Some (Finite (of_nat (digits_val ds)), r)"
proof -
  obtain d ds' where d: "ds = d # ds'" "is_digit d" using assms(1,2) by (cases ds) auto
  have tw: "takeWhile is_digit (ds @ r) = ds" "dropWhile is_digit (ds @ r) = r"
    using assms(1,3) by (auto simp: ends_number_def takeWhile_append dropWhile_append split: list.splits)
  have pre: "\<not> lower_prefix ''infinity'' (ds @ r)" "\<not> lower_prefix ''inf'' (ds @ r)" "\<not> lower_prefix ''nan'' (ds @ r)"
    using d digit_not [OF d(2)] by (auto simp: lower_prefix_def char_code_def)
  have "\<not> lower_prefix ''0x'' (ds @ r)"
  proof (cases ds')
    case Nil
    then show ?thesis using d assms(3) by (auto simp: lower_prefix_def ends_number_def split: list.splits)
  next
    case (Cons c cs)
    then have "is_digit c" using d(1) assms(1) by simp
    then show ?thesis using d Cons digit_not [of c "CHR ''x''"] by (auto simp: lower_prefix_def char_code_def)
  qed
  moreover have "scan_mantissa False (ds @ r) = Some (of_nat (digits_val ds), r)"
    using assms by (simp add: scan_mantissa_def Let_def tw based_val_digits split: list.split)
      (auto simp: ends_number_def)
  moreover have "scan_exponent (CHR ''e'') r = (0, r)"
    using assms(3) by (auto simp: scan_exponent_def ends_number_def split: list.splits)
  ultimately show ?thesis using pre by (simp add: scan_number_def rat_pow_def)
qed

lemma stod_integer:
  assumes "\<forall>c \<in> set ds. is_digit c" "ds \<noteq> []" "ends_number r" "digits_val ds < 2 ^ 53"
  shows "stod (ds @ r) = Inr (Finite (of_nat (digits_val ds)), length ds)"
proof -
  obtain d ds' where d: "ds = d # ds'" "is_digit d" using assms(1,2) by (cases ds) auto
  have "dropWhile is_space (ds @ r) = ds @ r" using d digit_class by simp
  moreover have "d \<noteq> CHR ''-''" "d \<noteq> CHR ''+''" using digit_not [OF d(2)] by (auto simp: char_code_def)
  ultimately show ?thesis
    using scan_integer [OF assms(1-3)] double_nat [OF assms(4)] d(1)
    by (simp add: stod_def sto_fp_def Let_def fp_in_range_def)
qed

chapter \<open>Bounds of rounding\<close>

text \<open>
  The error of rounding: a rounded number is within half a unit in the last place, so that its relative
  error is at most $2^{-p}$ for a format of precision \<open>p\<close>; a number close enough to an integer is
  rounded to it.
\<close>

lemma rat_pow_powi: "rat_pow 2 e = 2 powi e"
  by (simp add: rat_pow_def power_int_def inverse_eq_divide power_one_over)

lemma digit_count_upper: "n < 2 ^ digit_count 2 n"
proof (induction n rule: less_induct)
  case (less n)
  show ?case
  proof (cases "n = 0")
    case False
    then have "n div 2 < 2 ^ digit_count 2 (n div 2)" using less.IH by simp
    moreover have "digit_count 2 n = Suc (digit_count 2 (n div 2))" using False by (simp add: digit_count.simps [of 2 n])
    ultimately show ?thesis by simp
  qed simp
qed

lemma digit_count_powi:
  assumes "0 < n"
  shows "2 powi (int (digit_count 2 n) - 1) \<le> (of_nat n :: rat)" "(of_nat n :: rat) < 2 powi int (digit_count 2 n)"
proof -
  have "(2 :: rat) powi (int (digit_count 2 n) - 1) = of_nat (2 ^ (digit_count 2 n - 1))"
    using digit_count_bounds [OF assms] by (simp add: power_int_def nat_diff_distrib)
  then show "2 powi (int (digit_count 2 n) - 1) \<le> (of_nat n :: rat)"
    using digit_count_bounds [OF assms] by (simp only: of_nat_le_iff)
  have "(2 :: rat) powi int (digit_count 2 n) = of_nat (2 ^ digit_count 2 n)" by simp
  then show "(of_nat n :: rat) < 2 powi int (digit_count 2 n)"
    using digit_count_upper [of n] by (simp only: of_nat_less_iff)
qed

lemma powi_step: "(2 :: rat) powi (e + 1) = 2 * 2 powi e" "(2 :: rat) powi (e - 1) = 2 powi e / 2"
  by (simp_all add: power_int_add power_int_diff)

lemma powi_mult: "(2 :: rat) powi a * 2 powi b = 2 powi (a + b)"
  by (simp add: power_int_add)

lemma floor_log_bounds:
  assumes "0 < q"
  shows "2 powi floor_log 2 q \<le> q" "q < 2 powi (floor_log 2 q + 1)"
proof -
  obtain n d where nd: "quotient_of q = (n, d)" by force
  have d: "0 < d" and q: "q = of_int n / of_int d" using nd quotient_of_denom_pos quotient_of_div by blast+
  then have n: "0 < n" using assms by (simp add: zero_less_divide_iff)
  let ?a = "int (digit_count 2 (nat n))" and ?b = "int (digit_count 2 (nat d))"
  have n2: "2 powi (?a - 1) \<le> (of_int n :: rat)" "(of_int n :: rat) < 2 powi ?a"
    using digit_count_powi [of "nat n"] n by simp_all
  have d2: "2 powi (?b - 1) \<le> (of_int d :: rat)" "(of_int d :: rat) < 2 powi ?b"
    using digit_count_powi [of "nat d"] d by simp_all
  have dp: "(0 :: rat) < of_int d" using d by simp
  have "(2 :: rat) powi (?a - ?b - 1) * of_int d \<le> 2 powi (?a - ?b - 1) * 2 powi ?b"
    using d2(2) by (intro mult_left_mono) simp_all
  also have "\<dots> = 2 powi (?a - 1)" by (simp only: powi_mult) simp
  finally have lo: "2 powi (?a - ?b - 1) \<le> q" using n2(1) dp unfolding q by (simp add: pos_le_divide_eq)
  have "(2 :: rat) powi ?a = 2 powi (?a - ?b + 1) * 2 powi (?b - 1)" by (simp only: powi_mult) simp
  also have "\<dots> \<le> 2 powi (?a - ?b + 1) * of_int d" using d2(1) by (intro mult_left_mono) simp_all
  finally have "of_int n < 2 powi (?a - ?b + 1) * (of_int d :: rat)" by (rule less_le_trans [OF n2(2)])
  then have hi: "q < 2 powi (?a - ?b + 1)" using dp unfolding q by (simp only: pos_divide_less_eq)
  have fl: "floor_log 2 q = (if 2 powi (?a - ?b) \<le> q then ?a - ?b else ?a - ?b - 1)"
    by (simp add: floor_log_def nd rat_pow_powi)
  show "2 powi floor_log 2 q \<le> q" using fl lo by auto
  show "q < 2 powi (floor_log 2 q + 1)" using fl hi by auto
qed

lemma powi_less: "(2 :: rat) powi a < 2 powi b \<Longrightarrow> a < b"
  by (metis linorder_not_less one_le_numeral power_int_increasing)

lemma floor_log_unique:
  assumes "2 powi e \<le> q" "q < 2 powi (e + 1)"
  shows "floor_log 2 q = e"
proof -
  have "0 < q" using assms(1) by (meson less_le_trans zero_less_numeral zero_less_power_int)
  note b = floor_log_bounds [OF this]
  have "(2 :: rat) powi e < 2 powi (floor_log 2 q + 1)" "(2 :: rat) powi floor_log 2 q < 2 powi (e + 1)"
    using assms b by linarith+
  then have "e < floor_log 2 q + 1" "floor_log 2 q < e + 1" by (auto dest: powi_less)
  then show ?thesis by simp
qed

lemma round_even_error: "\<bar>of_int (round_even x) - x\<bar> \<le> 1 / 2"
proof -
  have "0 \<le> x - of_int \<lfloor>x\<rfloor>" "x - of_int \<lfloor>x\<rfloor> < 1" by linarith+
  then show ?thesis by (auto simp: round_even_def Let_def)
qed

lemma round_even_near: "\<bar>x - of_int k\<bar> < 1 / 2 \<Longrightarrow> round_even x = k"
proof -
  assume "\<bar>x - of_int k\<bar> < 1 / 2"
  then have "\<bar>of_int (round_even x) - of_int k\<bar> < (1 :: rat)" using round_even_error [of x] by linarith
  then show ?thesis by linarith
qed

text \<open>The relative error of rounding a normal number to a double.\<close>

lemma double_round:
  assumes "2 powi - 100 \<le> q" "q < 2 powi 100"
  shows "\<exists>v. fp_round double_format q = Finite v \<and> \<bar>v - q\<bar> \<le> q * 2 powi - 53"
proof -
  have q: "0 < q" using assms(1) by (meson less_le_trans zero_less_numeral zero_less_power_int)
  let ?l = "floor_log 2 q"
  note b = floor_log_bounds [OF q]
  have "(2 :: rat) powi - 100 < 2 powi (?l + 1)" using assms b by linarith
  then have l: "- 100 < ?l + 1" by (rule powi_less)
  let ?e = "?l - 52"
  let ?v = "of_int (round_even (q / 2 powi ?e)) * 2 powi ?e :: rat"
  have pe: "(0 :: rat) < 2 powi ?e" by simp
  have "\<bar>?v - q\<bar> = \<bar>of_int (round_even (q / 2 powi ?e)) - q / 2 powi ?e\<bar> * 2 powi ?e"
    using pe by (simp add: abs_mult_pos left_diff_distrib)
  also have "\<dots> \<le> 1 / 2 * 2 powi ?e" using round_even_error by (intro mult_right_mono) simp_all
  also have "\<dots> = 2 powi ?l * 2 powi - 53" by (simp add: power_int_diff power_int_minus)
  also have "\<dots> \<le> q * 2 powi - 53" using b(1) by (intro mult_right_mono) simp_all
  finally have err: "\<bar>?v - q\<bar> \<le> q * 2 powi - 53" .
  have "q * 2 powi - 53 \<le> q * 1" using q by (intro mult_left_mono) (simp_all add: power_int_minus)
  then have "?v \<le> 2 * q" using err by linarith
  also have "\<dots> < 2 powi 1024"
  proof -
    have "(2 :: rat) * 2 powi 100 \<le> 2 powi 1024"
      using power_int_increasing [of 101 1024 "2 :: rat"] by (simp add: power_int_add [symmetric])
    then show ?thesis using assms(2) by linarith
  qed
  finally have "\<not> 2 powi 1024 \<le> ?v" by linarith
  moreover have "max (?l - 52) (- 1074) = ?e" using l by simp
  ultimately have "fp_round double_format q = Finite ?v"
    using q by (simp add: fp_round_def double_format_def Let_def rat_pow_powi)
  then show ?thesis using err by blast
qed

text \<open>What is close to an integer of 7 bits becomes that integer as a float.\<close>

lemma float_near:
  assumes "64 < k" "k < 128" "\<bar>z - of_int k\<bar> < 2 powi - 18"
  shows "fp_round float_format z = Finite (of_int k)"
proof -
  have p: "(2 :: rat) powi - 18 = 1 / 262144" by (simp add: power_int_minus)
  have k: "(65 :: rat) \<le> of_int k" "(of_int k :: rat) \<le> 127" using assms(1,2) by linarith+
  then have z: "64 \<le> z" "z < 128" using assms(3) unfolding p by linarith+
  then have l: "floor_log 2 z = 6" by (intro floor_log_unique) simp_all
  have "\<bar>z * 131072 - of_int (k * 131072)\<bar> < 1 / 2" using assms(3) unfolding p abs_less_iff by auto
  then have r: "round_even (z * 131072) = k * 131072" by (rule round_even_near)
  have pm: "(2 :: rat) powi - 17 = 1 / 131072" by (simp add: power_int_minus)
  have "(2 :: rat) powi 7 \<le> 2 powi 128" by (rule power_int_increasing) simp_all
  then have "\<not> 2 powi 128 \<le> (of_int k :: rat)" using k by simp
  then show ?thesis using z r by (simp add: fp_round_def float_format_def Let_def rat_pow_powi l pm)
qed

end
