(* ===== verification/OptionSeconds.thy ===== *)
theory OptionSeconds
  imports OptionScalar FloatingPoint
begin

text \<open>
  \<open>OptionSeconds\<close> (libdnf/conf/option_seconds.cpp), \<open>OptionNumber<float>\<close> and the
  conversion functions that config_main.cpp gives its options: bandwidths, the throttle, the
  limit of installed kernels and the enumerations with synonyms.
\<close>

section \<open>The float instance of OptionNumber\<close>

text \<open>
  \<open>operator>>\<close> into a \<open>float\<close> takes decimal numerals only; an exponent mark without
  digits and an overflow fail.
\<close>

definition float_read :: "string \<Rightarrow> fp option" where
  "float_read s =
     (let s = dropWhile is_space s;
          (neg, s) = (case s of
              [] \<Rightarrow> (False, s)
            | c # cs \<Rightarrow> if c = CHR ''-'' then (True, cs) else if c = CHR ''+'' then (False, cs) else (False, s))
      in case scan_mantissa False s of
           None \<Rightarrow> None
         | Some (m, r) \<Rightarrow>
             (case scan_exponent (CHR ''e'') r of
                (e, r') \<Rightarrow>
                  (case fp_round float_format ((if neg then - m else m) * rat_pow 10 e) of
                     Finite q \<Rightarrow> if r' = r \<and> r \<noteq> [] \<and> to_lower (hd r) = CHR ''e'' then None else Some (Finite q)
                   | _ \<Rightarrow> None)))"

definition float_max :: fp where
  "float_max = Finite ((2 ^ 24 - 1) * 2 ^ 104)"

definition float_min :: fp where
  "float_min = Finite (1 / 2 ^ 126)"

definition float_type :: "fp num_type" where
  "float_type = \<lparr>nt_read = float_read, nt_show = fp_string, nt_less = fp_less,
     nt_lowest = float_min, nt_highest = float_max\<rparr>"

section \<open>OptionSeconds\<close>

definition stod_exception :: "stod_error \<Rightarrow> option_error" where
  "stod_exception e = (case e of StodInvalidArgument \<Rightarrow> StdInvalidArgument | StodOutOfRange \<Rightarrow> StdOutOfRange)"

definition int32_cast :: "fp \<Rightarrow> option_error + int" where
  "int32_cast res =
     (case fp_to_int (- (2 ^ 31)) (2 ^ 31 - 1) res of Some v \<Rightarrow> Inr v | None \<Rightarrow> Inl UndefinedConversion)"

definition seconds_unit :: "char \<Rightarrow> nat option" where
  "seconds_unit c =
     (if c = CHR ''s'' \<or> c = CHR ''S'' then Some 1
      else if c = CHR ''m'' \<or> c = CHR ''M'' then Some 60
      else if c = CHR ''h'' \<or> c = CHR ''H'' then Some (60 * 60)
      else if c = CHR ''d'' \<or> c = CHR ''D'' then Some (60 * 60 * 24)
      else None)"

definition seconds_from_string :: "string \<Rightarrow> option_error + int" where
  "seconds_from_string value =
     (if value = [] then Inl (InvalidValue value)
      else if value = ''-1'' \<or> value = ''never'' then Inr (-1)
      else case stod value of
        Inl e \<Rightarrow> Inl (stod_exception e)
      | Inr (res, idx) \<Rightarrow>
          if fp_less res (Finite 0) then Inl (NegativeValue value)
          else if idx < length value then
            if idx < length value - 1 then Inl (InvalidValue value)
            else
              (case seconds_unit (last value) of
                 None \<Rightarrow> Inl (UnknownUnit [last value])
               | Some k \<Rightarrow> int32_cast (if k = 1 then res else fp_mul double_format res k))
          else int32_cast res)"

type_synonym opt_seconds = "int opt_number"

definition option_seconds_range :: "int \<Rightarrow> int \<Rightarrow> int \<Rightarrow> option_error + opt_seconds" where
  "option_seconds_range default_value min_val max_val = option_number int32_type default_value min_val max_val"

definition option_seconds_min :: "int \<Rightarrow> int \<Rightarrow> option_error + opt_seconds" where
  "option_seconds_min default_value min_val = option_number_min int32_type default_value min_val"

definition option_seconds :: "int \<Rightarrow> option_error + opt_seconds" where
  "option_seconds default_value = option_number_any int32_type default_value"

definition seconds_set_text :: "priority \<Rightarrow> string \<Rightarrow> opt_seconds \<Rightarrow> option_error + opt_seconds" where
  "seconds_set_text p value x = and_then (seconds_from_string value) (\<lambda>v. number_set int32_type p v x)"

interpretation osec: parsed_option on_priority on_value "number_accepts int32_type" "number_set int32_type"
  "\<lambda>_. seconds_from_string" seconds_set_text
  by unfold_locales (simp add: seconds_set_text_def)

section \<open>Conversion functions of config_main.cpp\<close>

definition quoted :: "string \<Rightarrow> string" where
  "quoted s = CHR 0x27 # s @ [CHR 0x27]"

definition bytes_unit :: "char \<Rightarrow> nat option" where
  "bytes_unit c =
     (if c = CHR ''k'' \<or> c = CHR ''K'' then Some 1024
      else if c = CHR ''m'' \<or> c = CHR ''M'' then Some (1024 * 1024)
      else if c = CHR ''g'' \<or> c = CHR ''G'' then Some (1024 * 1024 * 1024)
      else None)"

definition str_to_bytes :: "string \<Rightarrow> option_error + int" where
  "str_to_bytes str =
     (if str = [] then Inl (InvalidValue ''no value specified'')
      else case stod str of
        Inl e \<Rightarrow> Inl (stod_exception e)
      | Inr (res, idx) \<Rightarrow>
          if fp_less res (Finite 0)
          then Inl (InvalidValue (''seconds value '' @ quoted str @ '' must not be negative''))
          else if idx < length str then
            if idx < length str - 1 then Inl (InvalidValue (''could not convert '' @ quoted str @ '' to bytes''))
            else
              (case bytes_unit (last str) of
                 None \<Rightarrow> Inl (InvalidValue (''unknown unit '' @ quoted [last str]))
               | Some k \<Rightarrow> int32_cast (fp_mul double_format res k))
          else int32_cast res)"

text \<open>\<open>installonly_limit\<close>: whatever \<open>stoul\<close> throws is caught.\<close>

definition installonly_limit_from_string :: "string \<Rightarrow> option_error + int" where
  "installonly_limit_from_string value =
     (if value = ''<off>'' then Inr 0
      else case int_read False 0 (2 ^ 64 - 1) value of
        None \<Rightarrow> Inr 0
      | Some v \<Rightarrow> Inr (v mod 2 ^ 32))"

definition color_from_string :: "string \<Rightarrow> option_error + string" where
  "color_from_string value =
     (if value \<in> set [''on'', ''yes'', ''1'', ''true''] then Inr ''always''
      else if value \<in> set [''off'', ''no'', ''0'', ''false''] then Inr ''never''
      else if value \<in> set [''tty'', ''if-tty''] then Inr ''auto''
      else Inr value)"

definition history_list_view_from_string :: "string \<Rightarrow> option_error + string" where
  "history_list_view_from_string value =
     (if value = ''cmds'' \<or> value = ''default'' then Inr ''commands'' else Inr value)"

definition proxy_auth_method_from_string :: "string \<Rightarrow> option_error + string" where
  "proxy_auth_method_from_string value = Inr (map to_lower value)"

definition ip_resolve_from_string :: "string \<Rightarrow> option_error + string" where
  "ip_resolve_from_string value =
     (if value = ''4'' then Inr ''ipv4''
      else if value = ''6'' then Inr ''ipv6''
      else Inr (map to_lower value))"

text \<open>\<open>throttle\<close>: a percentage becomes a fraction, anything else is a bandwidth.\<close>

fun int_to_float :: "int \<Rightarrow> fp" where
  "int_to_float i = fp_round float_format (of_int i)"

definition throttle_from_string :: "string \<Rightarrow> option_error + fp" where
  "throttle_from_string value =
     (if value \<noteq> [] \<and> last value = CHR ''%'' then
        (case stof value of
           Inl e \<Rightarrow> Inl (stod_exception e)
         | Inr (res, idx) \<Rightarrow>
             if fp_less res (Finite 0) \<or> fp_less (Finite 100) res then Inl (InvalidValue value)
             else Inr (fp_div float_format res 100))
      else and_then (str_to_bytes value) (\<lambda>v. Inr (int_to_float v)))"

section \<open>Exact values\<close>

lemma int32_cast_nat: "n < 2 ^ 31 \<Longrightarrow> int32_cast (Finite (of_nat n)) = Inr (int n)"
  by (simp add: int32_cast_def Let_def)

lemma nat_string_all_digits: "\<forall>c \<in> set (nat_string n). is_digit c"
  using nat_string_digits by blast

lemma stod_nat_string:
  "ends_number r \<Longrightarrow> n < 2 ^ 53 \<Longrightarrow> stod (nat_string n @ r) = Inr (Finite (of_nat n), length (nat_string n))"
  using stod_integer [OF nat_string_all_digits nat_string_nonempty, of r n]
  by (simp add: digits_val_nat_string)

lemma nat_string_first: "\<exists>c cs. nat_string n = c # cs \<and> is_digit c"
  using nat_string_all_digits [of n] nat_string_nonempty [of n] by (cases "nat_string n") auto

lemma unit_ends: "\<forall>u \<in> set ''sSmMhHdDkKgG''. ends_number [u]"
  by code_simp

lemma seconds_unit_facts: "seconds_unit u = Some k \<Longrightarrow> 0 < k \<and> ends_number [u]"
proof -
  assume "seconds_unit u = Some k"
  then have "0 < k" "u \<in> set ''sSmMhHdDkKgG''" by (auto simp: seconds_unit_def split: if_splits)
  then show ?thesis using unit_ends by blast
qed

lemma bytes_unit_facts: "bytes_unit u = Some k \<Longrightarrow> 0 < k \<and> ends_number [u]"
proof -
  assume "bytes_unit u = Some k"
  then have "0 < k" "u \<in> set ''sSmMhHdDkKgG''" by (auto simp: bytes_unit_def split: if_splits)
  then show ?thesis using unit_ends by blast
qed

lemma seconds_whole:
  assumes "seconds_unit u = Some k" "n * k < 2 ^ 31"
  shows "seconds_from_string (nat_string n @ [u]) = Inr (int (n * k))"
proof -
  have k: "0 < k" "ends_number [u]" using seconds_unit_facts [OF assms(1)] by simp_all
  have "n \<le> n * k" using k(1) by simp
  then have "n < 2 ^ 31" using assms(2) by (rule le_less_trans)
  then have n: "n < 2 ^ 53" by simp
  note st = stod_nat_string [OF k(2) n]
  obtain c cs where c: "nat_string n = c # cs" "is_digit c" using nat_string_first by blast
  then have no: "nat_string n \<noteq> ''-''" "nat_string n \<noteq> ''neve''"
    by (auto simp: is_digit_def char_code_def)
  have mul: "fp_mul double_format (Finite (of_nat n)) k = Finite (of_nat (n * k))"
    using double_nat [of "n * k"] assms(2) by simp
  have "int32_cast (if k = 1 then Finite (of_nat n) else fp_mul double_format (Finite (of_nat n)) k) = Inr (int (n * k))"
    unfolding mul using int32_cast_nat [of "n * k"] assms(2) by auto
  then show ?thesis using st no assms(1) by (simp add: seconds_from_string_def)
qed

lemma bytes_whole:
  assumes "bytes_unit u = Some k" "n * k < 2 ^ 53"
  shows "str_to_bytes (nat_string n @ [u]) =
    (if n * k < 2 ^ 31 then Inr (int (n * k)) else Inl UndefinedConversion)"
proof -
  have k: "0 < k" "ends_number [u]" using bytes_unit_facts [OF assms(1)] by simp_all
  have "n \<le> n * k" using k(1) by simp
  then have n: "n < 2 ^ 53" using assms(2) by linarith
  note st = stod_nat_string [OF k(2) n]
  have "fp_mul double_format (Finite (of_nat n)) k = Finite (of_nat (n * k))"
    using double_nat [of "n * k"] assms(2) by simp
  moreover have "int32_cast (Finite (of_nat (n * k))) =
      (if n * k < 2 ^ 31 then Inr (int (n * k)) else Inl UndefinedConversion)"
  proof (cases "n * k < 2 ^ 31")
    case False
    then have "int (2 ^ 31) \<le> int (n * k)" by (simp only: of_nat_le_iff not_less)
    then have "\<not> int (n * k) \<le> 2 ^ 31 - 1" by simp
    then show ?thesis using False unfolding int32_cast_def fp_to_int.simps Let_def rat_trunc_nat by simp
  next
    case True
    then show ?thesis using int32_cast_nat [OF True] by (simp only: if_True)
  qed
  ultimately show ?thesis using st assms(1) by (simp add: str_to_bytes_def)
qed

end
