(* ===== verification/OptionChild.thy ===== *)
theory OptionChild
  imports OptionText OptionSeconds
begin

text \<open>
  \<open>OptionChild\<close> (include/libdnf/conf/option_child.hpp), an option that shows its parent's
  value until it is set itself, and \<open>option_T_list_append\<close> (libdnf/conf/config_utils.hpp).
  A child keeps a pointer to its parent: the parent's current state comes to every method as
  an argument, in the form of the methods the template calls.
\<close>

section \<open>The parent, as its child sees it\<close>

record 'v option_view =
  ov_priority :: priority
  ov_test :: "'v \<Rightarrow> option_error + unit"
  ov_parse :: "string \<Rightarrow> option_error + 'v"
  ov_value :: "option_error + 'v"
  ov_default :: 'v
  ov_show :: "'v \<Rightarrow> string"
  ov_value_string :: "option_error + string"

definition bool_view :: "opt_bool \<Rightarrow> bool option_view" where
  "bool_view x = \<lparr>ov_priority = ob_priority x, ov_test = (\<lambda>_. Inr ()), ov_parse = bool_from_string x,
     ov_value = Inr (ob_value x), ov_default = ob_default x, ov_show = bool_to_string,
     ov_value_string = Inr (bool_value_string x)\<rparr>"

definition number_view :: "'n num_type \<Rightarrow> 'n opt_number \<Rightarrow> 'n option_view" where
  "number_view t x = \<lparr>ov_priority = on_priority x, ov_test = (\<lambda>v. number_test t v x),
     ov_parse = number_from_string t x, ov_value = Inr (on_value x), ov_default = on_default x,
     ov_show = nt_show t, ov_value_string = Inr (number_value_string t x)\<rparr>"

definition seconds_view :: "opt_seconds \<Rightarrow> int option_view" where
  "seconds_view x = (number_view int32_type x)\<lparr>ov_parse := seconds_from_string\<rparr>"

definition enum_view :: "opt_enum \<Rightarrow> string option_view" where
  "enum_view x = \<lparr>ov_priority = oe_priority x, ov_test = (\<lambda>v. enum_test v x), ov_parse = enum_from_string x,
     ov_value = Inr (oe_value x), ov_default = oe_default x, ov_show = id, ov_value_string = Inr (oe_value x)\<rparr>"

definition string_view :: "regex_engine \<Rightarrow> opt_string \<Rightarrow> string option_view" where
  "string_view rx x = \<lparr>ov_priority = os_priority x, ov_test = (\<lambda>v. string_test rx v x),
     ov_parse = (\<lambda>v. Inr (string_from_string v)), ov_value = string_get_value x, ov_default = os_default x,
     ov_show = id, ov_value_string = string_get_value x\<rparr>"

definition list_view :: "regex_engine \<Rightarrow> opt_list \<Rightarrow> string list option_view" where
  "list_view rx x = \<lparr>ov_priority = ol_priority x, ov_test = (\<lambda>v. list_test rx v x),
     ov_parse = (\<lambda>v. Inr (list_from_string v)), ov_value = Inr (ol_value x), ov_default = ol_default x,
     ov_show = list_to_string, ov_value_string = Inr (list_value_string x)\<rparr>"

section \<open>The child\<close>

text \<open>The value is not initialised: \<open>None\<close> until the first \<open>set\<close>.\<close>

record 'v opt_child =
  oc_priority :: priority
  oc_value :: "'v option"

definition option_child :: "'v opt_child" where
  "option_child = \<lparr>oc_priority = EMPTY, oc_value = None\<rparr>"

definition child_get_priority :: "'v option_view \<Rightarrow> 'v opt_child \<Rightarrow> priority" where
  "child_get_priority parent x = (if oc_priority x \<noteq> EMPTY then oc_priority x else ov_priority parent)"

definition child_set ::
  "'v option_view \<Rightarrow> priority \<Rightarrow> 'v \<Rightarrow> 'v opt_child \<Rightarrow> option_error + 'v opt_child" where
  "child_set parent p v x =
     (if oc_priority x \<le> p
      then and_then (ov_test parent v) (\<lambda>_. Inr (x\<lparr>oc_priority := p, oc_value := Some v\<rparr>))
      else Inr x)"

definition child_set_text ::
  "'v option_view \<Rightarrow> priority \<Rightarrow> string \<Rightarrow> 'v opt_child \<Rightarrow> option_error + 'v opt_child" where
  "child_set_text parent p s x =
     (if oc_priority x \<le> p then and_then (ov_parse parent s) (\<lambda>v. child_set parent p v x) else Inr x)"

definition child_get_value :: "'v option_view \<Rightarrow> 'v opt_child \<Rightarrow> option_error + 'v" where
  "child_get_value parent x = (if oc_priority x \<noteq> EMPTY then Inr (the (oc_value x)) else ov_value parent)"

definition child_get_default :: "'v option_view \<Rightarrow> 'v" where
  "child_get_default parent = ov_default parent"

definition child_value_string :: "'v option_view \<Rightarrow> 'v opt_child \<Rightarrow> option_error + string" where
  "child_value_string parent x =
     (if oc_priority x \<noteq> EMPTY then Inr (ov_show parent (the (oc_value x))) else ov_value_string parent)"

definition child_empty :: "'v option_view \<Rightarrow> 'v opt_child \<Rightarrow> bool" where
  "child_empty parent x \<longleftrightarrow> oc_priority x = EMPTY \<and> ov_priority parent = EMPTY"

text \<open>The specialisation for string values: it converts before it looks at the priority.\<close>

definition string_child_set ::
  "string option_view \<Rightarrow> priority \<Rightarrow> string \<Rightarrow> string opt_child \<Rightarrow> option_error + string opt_child" where
  "string_child_set parent p s x =
     and_then (ov_parse parent s) (\<lambda>v.
       if oc_priority x \<le> p
       then and_then (ov_test parent v) (\<lambda>_. Inr (x\<lparr>oc_priority := p, oc_value := Some v\<rparr>))
       else Inr x)"

definition string_child_value_string :: "string option_view \<Rightarrow> string opt_child \<Rightarrow> option_error + string" where
  "string_child_value_string parent x =
     (if oc_priority x \<noteq> EMPTY then Inr (the (oc_value x)) else ov_value parent)"

section \<open>The contract\<close>

definition child_accepts :: "'v option_view \<Rightarrow> 'v opt_child \<Rightarrow> 'v \<Rightarrow> 'v option option" where
  "child_accepts parent x v = (if ov_test parent v = Inr () then Some (Some v) else None)"

lemma child_test_cases: "ov_test parent v = Inr () \<or> (\<exists>e. ov_test parent v = Inl e)"
  by (rule unit_sum_cases)

interpretation oc: typed_option oc_priority oc_value "child_accepts parent" "child_set parent"
  for parent :: "'v option_view"
proof unfold_locales
  fix p i and x :: "'v opt_child" and v
  assume le: "oc_priority x \<le> p"
  show "\<exists>e. child_set parent p i x = Inl e" if "child_accepts parent x i = None"
    using that le child_test_cases [of parent i] by (auto simp: child_accepts_def child_set_def)
qed (auto simp: child_accepts_def child_set_def fun_eq_iff split: if_splits)

interpretation ocs: parsed_option oc_priority oc_value "child_accepts parent" "child_set parent"
  "\<lambda>_. ov_parse parent" "string_child_set parent" for parent :: "string option_view"
  by unfold_locales (simp add: string_child_set_def child_set_def)

section \<open>Appending to a list option\<close>

text \<open>A run of calls can end in an exception half way: the state reached and the exception.\<close>

definition caught :: "'s \<Rightarrow> 'e + 's \<Rightarrow> 's \<times> 'e option" where
  "caught x r = (case r of Inl e \<Rightarrow> (x, Some e) | Inr y \<Rightarrow> (y, None))"

fun append_loop ::
  "regex_engine \<Rightarrow> priority \<Rightarrow> priority \<Rightarrow> bool \<Rightarrow> string list \<Rightarrow> opt_list \<Rightarrow> opt_list \<times> option_error option" where
  "append_loop rx p add_p is_first [] x = (x, None)"
| "append_loop rx p add_p is_first (item # items) x =
     (case (if item = [] then (if is_first then list_set_text rx p item x else Inr x)
            else list_set rx add_p (ol_value x @ [item]) x) of
        Inl e \<Rightarrow> (x, Some e)
      | Inr y \<Rightarrow> append_loop rx p add_p False items y)"

definition list_append :: "regex_engine \<Rightarrow> priority \<Rightarrow> string \<Rightarrow> opt_list \<Rightarrow> opt_list \<times> option_error option" where
  "list_append rx p value x =
     (if value = [] then caught x (list_set_text rx p value x)
      else
        (let add_priority = (if p < ol_priority x then ol_priority x else p)
         in append_loop rx p add_priority True (list_from_string value) x))"

lemma list_from_string_Nil [simp]: "list_from_string [] = []"
  by (simp add: list_from_string_def find_from_def)

lemma append_loop_rest:
  assumes "ol_regex x = []" "ol_priority x \<le> q"
  shows "append_loop rx p q False items x =
    (x\<lparr>ol_value := ol_value x @ [i \<leftarrow> items. i \<noteq> []],
       ol_priority := (if [i \<leftarrow> items. i \<noteq> []] = [] then ol_priority x else q)\<rparr>, None)"
  using assms
proof (induction items arbitrary: x)
  case (Cons item items)
  show ?case
  proof (cases "item = []")
    case False
    let ?y = "x\<lparr>ol_value := ol_value x @ [item], ol_priority := q\<rparr>"
    have "list_set rx q (ol_value x @ [item]) x = Inr ?y"
      using Cons.prems by (simp add: list_set_def list_test_def)
    then show ?thesis using False Cons.IH [of ?y] Cons.prems by simp
  qed (use Cons in simp)
qed simp

end
