(* ===== verification/OptionFacts.thy ===== *)
theory OptionFacts
  imports OptionChild
begin

text \<open>
  Properties of the option classes: which of several values wins, bounds that no call can
  break, values that survive printing and parsing, appending, durations and bandwidths, and
  inheritance from a parent.
\<close>

section \<open>Which value wins\<close>

text \<open>A run of \<open>set\<close> calls whose caller catches the exceptions.\<close>

definition number_offers :: "'n num_type \<Rightarrow> 'n opt_number \<Rightarrow> (priority \<times> 'n) list \<Rightarrow> 'n opt_number" where
  "number_offers t x offers =
     foldl (\<lambda>x offer. case number_set t (fst offer) (snd offer) x of Inl e \<Rightarrow> x | Inr y \<Rightarrow> y) x offers"

lemma number_offers_eq: "number_offers t x offers = foldl (on.try_set t) x offers"
proof -
  have "on.try_set t = (\<lambda>x offer. case number_set t (fst offer) (snd offer) x of Inl e \<Rightarrow> x | Inr y \<Rightarrow> y)"
    by (intro ext) (simp add: on.try_set_def)
  then show ?thesis by (simp add: number_offers_def)
qed

lemma number_accepted_eq:
  "on.accepted t x offers = [offer \<leftarrow> offers. \<not> nt_less t (snd offer) (on_min x) \<and> \<not> nt_less t (on_max x) (snd offer)]"
  unfolding on.accepted_def by (induction offers) (auto simp: number_accepts_def)

text \<open>C21. After any run of \<open>set\<close> calls on a number option, in any order of priorities, the
  option holds the last of the values with the highest priority among its initial value and the
  offered values that are within its bounds: everything after that value has a lower priority,
  nothing before it a higher one.\<close>

theorem option_holds_last_of_highest_priority:
  "\<exists>before after.
     (on_priority x, on_value x) #
       [offer \<leftarrow> offers. \<not> nt_less t (snd offer) (on_min x) \<and> \<not> nt_less t (on_max x) (snd offer)] =
     before @ (on_priority (number_offers t x offers), on_value (number_offers t x offers)) # after \<and>
     list_all (\<lambda>b. fst b \<le> on_priority (number_offers t x offers)) before \<and>
     list_all (\<lambda>a. fst a < on_priority (number_offers t x offers)) after"
proof -
  let ?offers = "[offer \<leftarrow> offers. \<not> nt_less t (snd offer) (on_min x) \<and> \<not> nt_less t (on_max x) (snd offer)]"
  let ?w = "foldl outrank (on_priority x, on_value x) ?offers"
  have w: "(on_priority (number_offers t x offers), on_value (number_offers t x offers)) = ?w"
    using on.run_of_sets [of t x offers] by (simp add: number_offers_eq number_accepted_eq)
  obtain xs ys where split: "(on_priority x, on_value x) # ?offers = xs @ ?w # ys"
    and le: "\<forall>b \<in> set xs. fst b \<le> fst ?w" and lt: "\<forall>a \<in> set ys. fst a < fst ?w"
    using foldl_outrank_last [of "(on_priority x, on_value x)" ?offers] by blast
  show ?thesis
    by (rule exI [of _ xs], rule exI [of _ ys]) (use split le lt in \<open>simp only: w [symmetric] list_all_iff fst_conv simp_thms\<close>)
qed

section \<open>Bounds\<close>

text \<open>A call with a value or with a text, an exception caught by the caller.\<close>

definition number_call :: "'n num_type \<Rightarrow> 'n opt_number \<Rightarrow> priority \<times> ('n + string) \<Rightarrow> 'n opt_number" where
  "number_call t x c =
     (case (case snd c of Inl v \<Rightarrow> number_set t (fst c) v x | Inr s \<Rightarrow> number_set_text t (fst c) s x) of
        Inl e \<Rightarrow> x | Inr y \<Rightarrow> y)"

definition in_bounds :: "'n num_type \<Rightarrow> 'n \<Rightarrow> 'n \<Rightarrow> 'n opt_number \<Rightarrow> bool" where
  "in_bounds t lo hi x \<longleftrightarrow> on_min x = lo \<and> on_max x = hi \<and> \<not> nt_less t (on_value x) lo \<and> \<not> nt_less t hi (on_value x)"

lemma in_bounds_set: "in_bounds t lo hi x \<Longrightarrow> number_set t p v x = Inr y \<Longrightarrow> in_bounds t lo hi y"
  by (auto simp: in_bounds_def number_set_def number_test_def split: if_splits)

lemma in_bounds_set_text: "in_bounds t lo hi x \<Longrightarrow> number_set_text t p s x = Inr y \<Longrightarrow> in_bounds t lo hi y"
  unfolding number_set_text_def by (erule and_then_InrE) (rule in_bounds_set)

lemma in_bounds_call:
  assumes "in_bounds t lo hi x"
  shows "in_bounds t lo hi (number_call t x c)"
proof (cases "snd c")
  case (Inl v)
  then show ?thesis using assms in_bounds_set [OF assms, of "fst c" v]
    by (cases "number_set t (fst c) v x") (simp_all add: number_call_def)
next
  case (Inr s)
  then show ?thesis using assms in_bounds_set_text [OF assms, of "fst c" s]
    by (cases "number_set_text t (fst c) s x") (simp_all add: number_call_def)
qed

lemma in_bounds_new: "option_number_user t d lo hi f = Inr x \<Longrightarrow> in_bounds t lo hi x"
  by (auto simp: in_bounds_def option_number_user_def Let_def number_test_def split: if_splits)

text \<open>The value of a number option never leaves the bounds given to its constructor, whatever
  is set: the constructor rejects a default outside them, and a typed or a textual \<open>set\<close>
  either stores a value inside them or leaves the option as it was.\<close>

theorem number_option_stays_in_bounds:
  assumes "option_number_user t d lo hi f = Inr x"
  shows "\<not> nt_less t (on_value (foldl (number_call t) x calls)) lo \<and>
    \<not> nt_less t hi (on_value (foldl (number_call t) x calls))"
proof -
  have "in_bounds t lo hi (foldl (number_call t) x calls)" if "in_bounds t lo hi x" for x
    using that by (induction calls arbitrary: x) (simp_all add: in_bounds_call)
  from this [OF in_bounds_new [OF assms]] show ?thesis by (simp add: in_bounds_def)
qed

theorem number_option_stays_in_bounds_witness:
  "\<not> on_value (foldl (number_call int32_type) (projr (option_number int32_type 2 0 10))
        [(COMMANDLINE, Inr ''11''), (RUNTIME, Inl 7), (RUNTIME, Inr '' 9 lives'')]) < 0 \<and>
   \<not> 10 < on_value (foldl (number_call int32_type) (projr (option_number int32_type 2 0 10))
        [(COMMANDLINE, Inr ''11''), (RUNTIME, Inl 7), (RUNTIME, Inr '' 9 lives'')])"
proof -
  have "option_number_user int32_type 2 0 10 None = Inr (projr (option_number int32_type 2 0 10))"
    by (simp add: option_number_def option_number_user_def Let_def number_test_def int32_type_def int_type_def)
  from number_option_stays_in_bounds [OF this, of "[(COMMANDLINE, Inr ''11''), (RUNTIME, Inl 7), (RUNTIME, Inr '' 9 lives'')]"]
  show ?thesis by (simp add: int32_type_def int_type_def)
qed

section \<open>Printing and parsing\<close>

lemma int_read_string:
  assumes "lo \<le> v" "v \<le> hi" "s \<or> 0 \<le> v"
  shows "int_read s lo hi (int_string v) = Some v"
proof -
  define n where "n = nat \<bar>v\<bar>"
  have ds: "takeWhile is_digit (nat_string n) = nat_string n"
    using nat_string_all_digits takeWhile_eq_all_conv by blast
  obtain c cs where c: "nat_string n = c # cs" "is_digit c" using nat_string_first by blast
  have sgn: "\<not> is_space (CHR ''-'')" "c \<noteq> CHR ''-''" "c \<noteq> CHR ''+''" "\<not> is_space c"
    using digit_class [OF c(2)] digit_not [OF c(2)] by (auto simp: is_space_def char_code_def)
  show ?thesis
  proof (cases "v < 0")
    case True
    then have "int_string v = CHR ''-'' # nat_string n" by (simp add: int_string_def n_def)
    moreover have v: "v = - int n" using True by (simp add: n_def)
    moreover have s using True assms(3) by simp
    ultimately show ?thesis using assms v sgn(1)
      by (simp add: int_read_def Let_def digits_val_nat_string ds nat_string_nonempty True [unfolded v])
  next
    case False
    then have "int_string v = c # cs" using c(1) by (simp add: int_string_def n_def)
    moreover have v: "v = int n" using False by (simp add: n_def)
    moreover have tw: "takeWhile is_digit cs = cs" using ds c by simp
    ultimately show ?thesis using assms sgn c(2) digits_val_nat_string [of n]
      by (simp add: int_read_def Let_def c(1) tw)
  qed
qed

text \<open>Every value of the four integer types survives printing and parsing: the string that a
  number option gives for its value sets exactly that value.\<close>

theorem number_text_roundtrip:
  assumes "t \<in> {int32_type, uint32_type, int64_type, uint64_type}"
    and "nt_lowest t \<le> v" "v \<le> nt_highest t" "on_from_string_user x = None"
  shows "number_from_string t x (nt_show t v) = Inr v"
proof -
  have "nt_read t (nt_show t v) = Some v"
    using assms(1-3) int_read_string
    by (auto simp: int32_type_def uint32_type_def int64_type_def uint64_type_def int_type_def)
  then show ?thesis using assms(4) by (simp add: number_from_string_def)
qed

theorem number_text_roundtrip_witness:
  "number_from_string int32_type (projr (option_number_any int32_type 7)) (nt_show int32_type (- 2147483648)) =
   Inr (- 2147483648)"
  by (rule number_text_roundtrip)
    (simp_all add: int32_type_def int_type_def option_number_any_def option_number_def option_number_user_def
      number_test_def)

text \<open>A list option reads back the text it prints: for items that are not empty and contain no
  blank, comma or line break, parsing the joined items gives the items.\<close>

theorem list_text_roundtrip:
  assumes "list_all list_item_ok (ol_value x)"
  shows "list_from_string (list_value_string x) = ol_value x"
  using assms list_roundtrip by (simp add: list_all_iff list_value_string_def)

theorem list_text_roundtrip_witness:
  "list_from_string (list_value_string (option_list [''dnf'', ''rpm*'', ''x''])) = [''dnf'', ''rpm*'', ''x'']"
  using list_text_roundtrip [of "option_list [''dnf'', ''rpm*'', ''x'']"]
  by (simp add: option_list_def list_item_ok_def)

section \<open>Appending\<close>

definition appended :: "priority \<Rightarrow> string list \<Rightarrow> opt_list \<Rightarrow> opt_list" where
  "appended p items x =
     (let cleared = items \<noteq> [] \<and> hd items = [] \<and> ol_priority x \<le> p;
          new = [i \<leftarrow> items. i \<noteq> []]
      in x\<lparr>ol_value := (if cleared then [] else ol_value x) @ new,
           ol_priority := (if new = [] \<and> \<not> cleared then ol_priority x else max (ol_priority x) p)\<rparr>)"

lemma append_loop_appended:
  assumes "ol_regex x = []"
  shows "append_loop rx p (max (ol_priority x) p) True items x = (appended p items x, None)"
proof (cases items)
  case (Cons i is')
  show ?thesis
  proof (cases "i = []")
    case True
    show ?thesis
    proof (cases "ol_priority x \<le> p")
      case le: True
      let ?y = "x\<lparr>ol_value := [], ol_priority := p\<rparr>"
      have "list_set_text rx p [] x = Inr ?y" using assms le by (simp add: list_set_text_def list_set_def list_test_def)
      then show ?thesis using True le append_loop_rest [of ?y p rx p is'] assms
        by (simp add: Cons appended_def Let_def max_def)
    next
      case False
      then show ?thesis using True assms append_loop_rest [of x "ol_priority x" rx p is']
        by (simp add: Cons appended_def Let_def max_def list_set_text_def list_set_def)
    qed
  next
    case False
    let ?q = "max (ol_priority x) p"
    let ?y = "x\<lparr>ol_value := ol_value x @ [i], ol_priority := ?q\<rparr>"
    have "list_set rx ?q (ol_value x @ [i]) x = Inr ?y" using assms by (simp add: list_set_def list_test_def)
    then show ?thesis using False append_loop_rest [of ?y ?q rx p is'] assms
      by (simp add: Cons appended_def Let_def)
  qed
qed (simp add: appended_def)

text \<open>\<open>option_T_list_append\<close> on a list option without a regular expression never fails
  and appends the non-empty items of the value: an empty first item first clears the option (when
  the priority allows it), the others add to the end whatever their priority, and the option's
  priority never falls.\<close>

theorem append_adds_items:
  assumes "ol_regex x = []" "value \<noteq> []"
  shows "list_append rx p value x = (appended p (list_from_string value) x, None)"
proof -
  have "(if p < ol_priority x then ol_priority x else p) = max (ol_priority x) p" by (auto simp: max_def)
  then show ?thesis using assms append_loop_appended [OF assms(1), of rx p "list_from_string value"]
    by (simp add: list_append_def)
qed

theorem append_adds_items_witness:
  "fst (list_append (\<lambda>_ _ _. True) COMMANDLINE '',b c'' (option_list [''a''])) =
     appended COMMANDLINE (list_from_string '',b c'') (option_list [''a'']) \<and>
   ol_value (appended COMMANDLINE (list_from_string '',b c'') (option_list [''a''])) = [''b'', ''c'']"
proof
  have "list_append (\<lambda>_ _ _. True) COMMANDLINE '',b c'' (option_list [''a'']) =
      (appended COMMANDLINE (list_from_string '',b c'') (option_list [''a'']), None)"
    by (rule append_adds_items) (simp_all add: option_list_def)
  then show "fst (list_append (\<lambda>_ _ _. True) COMMANDLINE '',b c'' (option_list [''a''])) =
     appended COMMANDLINE (list_from_string '',b c'') (option_list [''a''])" by simp
  show "ol_value (appended COMMANDLINE (list_from_string '',b c'') (option_list [''a''])) = [''b'', ''c'']"
    by code_simp
qed

section \<open>Durations and bandwidths\<close>

text \<open>A duration written as a whole number with a unit is that number of seconds, minutes,
  hours or days, whenever the result fits the option's 32 bits: the detour through \<open>double\<close> is
  exact.\<close>

theorem whole_durations_are_exact:
  assumes "seconds_unit u = Some k" "n * k < 2 ^ 31"
  shows "seconds_from_string (nat_string n @ [u]) = Inr (int (n * k))"
  using assms by (rule seconds_whole)

theorem whole_durations_are_exact_witness:
  "seconds_from_string (nat_string 24855 @ ''d'') = Inr 2147472000"
  using whole_durations_are_exact [of "CHR ''d''" "60 * 60 * 24" 24855] by (simp add: seconds_unit_def)

text \<open>A bandwidth of 2 GiB or more does not convert: \<open>str_to_bytes\<close> returns an
  \<open>int\<close>, although the options it serves are 32-bit unsigned, and casts the \<open>double\<close> to it
  without a range check, which is undefined behaviour. Every smaller whole bandwidth is exact.\<close>

theorem large_bandwidth_is_undefined:
  assumes "bytes_unit u = Some k" "n * k < 2 ^ 53"
  shows "str_to_bytes (nat_string n @ [u]) =
    (if n * k < 2 ^ 31 then Inr (int (n * k)) else Inl UndefinedConversion)"
  using assms by (rule bytes_whole)

theorem large_bandwidth_is_undefined_witness:
  "str_to_bytes (nat_string 3 @ ''G'') = Inl UndefinedConversion \<and> str_to_bytes (nat_string 3 @ ''M'') = Inr 3145728"
  using large_bandwidth_is_undefined [of "CHR ''G''" "1024 * 1024 * 1024" 3]
    large_bandwidth_is_undefined [of "CHR ''M''" "1024 * 1024" 3] by (simp add: bytes_unit_def)

section \<open>Copies\<close>

text \<open>Assigning a boolean option is not copying it: the value arrives, but the target keeps
  its own priority, because the assignment operator does not assign its base class. An option
  assigned from one that was set on the command line can be overwritten by a configuration file.\<close>

theorem bool_assignment_loses_priority:
  "option_bool_copy src = src \<and> ob_value (option_bool_assign x src) = ob_value src \<and>
   ob_priority (option_bool_assign x src) = ob_priority x"
  by (simp add: option_bool_copy_def option_bool_assign_def Let_def split: option.split)

section \<open>Inheritance\<close>

text \<open>A child option that was never set shows its parent in everything (priority, value,
  default, text, emptiness), whatever state the parent is in; once a value is accepted it shows
  that value with its own priority, and later changes of the parent no longer matter.\<close>

theorem child_inherits_until_set:
  assumes "ov_test parent v = Inr ()" "p \<noteq> EMPTY"
  shows "child_get_priority other option_child = ov_priority other \<and>
    child_get_value other option_child = ov_value other \<and>
    child_value_string other option_child = ov_value_string other \<and>
    child_empty other option_child = (ov_priority other = EMPTY) \<and>
    (\<exists>x. child_set parent p v option_child = Inr x \<and> child_get_priority other x = p \<and>
      child_get_value other x = Inr v \<and> \<not> child_empty other x)"
  using assms
  by (simp add: child_get_priority_def option_child_def child_get_value_def child_value_string_def
      child_empty_def child_set_def)

theorem child_inherits_until_set_witness:
  "child_get_value (bool_view (option_bool True)) option_child = Inr True \<and>
   (\<exists>x. child_set (bool_view (option_bool True)) REPOCONFIG False option_child = Inr x \<and>
     child_get_value (bool_view (option_bool True)) x = Inr False)"
proof -
  have "ov_test (bool_view (option_bool True)) False = Inr ()" by (simp add: bool_view_def)
  from child_inherits_until_set [OF this, of REPOCONFIG "bool_view (option_bool True)"]
  show ?thesis by (auto simp: bool_view_def option_bool_def)
qed

end
