(* ===== verification/OptionBinds.thy ===== *)
theory OptionBinds
  imports OptionChild OrderedMap
begin

text \<open>
  \<open>OptionBinds\<close> (include/libdnf/conf/option_binds.hpp, libdnf/conf/option_binds.cpp): the
  registry that connects option names with option objects. An item holds a pointer to an
  \<open>Option\<close> and two optional functions. The objects live in a state \<open>'s\<close>; a pointer
  is the option's virtual methods on that state. The \<open>std::map\<close> is a list with one entry per
  name.
\<close>

record 's option_ref =
  ref_priority :: "'s \<Rightarrow> priority"
  ref_set :: "priority \<Rightarrow> string \<Rightarrow> 's \<Rightarrow> option_error + 's"
  ref_value_string :: "'s \<Rightarrow> option_error + string"

record 's bind_item =
  bi_option :: "'s option_ref"
  bi_new_str :: "(priority \<Rightarrow> string \<Rightarrow> 's \<Rightarrow> 's \<times> option_error option) option"
  bi_get_str :: "('s \<Rightarrow> option_error + string) option"
  bi_is_append :: bool

datatype binds_error = BindNotFound string | BindAlreadyExists string

type_synonym 's binds = "(string, 's bind_item) pom"

section \<open>Items\<close>

definition bind_item_full ::
  "'s option_ref \<Rightarrow> (priority \<Rightarrow> string \<Rightarrow> 's \<Rightarrow> 's \<times> option_error option) option \<Rightarrow>
   ('s \<Rightarrow> option_error + string) option \<Rightarrow> bool \<Rightarrow> 's bind_item" where
  "bind_item_full r new_string_func get_value_string_func add_value =
     \<lparr>bi_option = r, bi_new_str = new_string_func, bi_get_str = get_value_string_func, bi_is_append = add_value\<rparr>"

definition bind_item_plain :: "'s option_ref \<Rightarrow> 's bind_item" where
  "bind_item_plain r = \<lparr>bi_option = r, bi_new_str = None, bi_get_str = None, bi_is_append = False\<rparr>"

definition item_priority :: "'s bind_item \<Rightarrow> 's \<Rightarrow> priority" where
  "item_priority item s = ref_priority (bi_option item) s"

definition item_new_string :: "'s bind_item \<Rightarrow> priority \<Rightarrow> string \<Rightarrow> 's \<Rightarrow> 's \<times> option_error option" where
  "item_new_string item p v s =
     (case bi_new_str item of Some f \<Rightarrow> f p v s | None \<Rightarrow> caught s (ref_set (bi_option item) p v s))"

definition item_value_string :: "'s bind_item \<Rightarrow> 's \<Rightarrow> option_error + string" where
  "item_value_string item s =
     (case bi_get_str item of Some f \<Rightarrow> f s | None \<Rightarrow> ref_value_string (bi_option item) s)"

definition item_is_append :: "'s bind_item \<Rightarrow> bool" where
  "item_is_append item = bi_is_append item"

section \<open>The registry\<close>

definition binds_at :: "string \<Rightarrow> 's binds \<Rightarrow> binds_error + 's bind_item" where
  "binds_at i items = (case map_of items i of None \<Rightarrow> Inl (BindNotFound i) | Some item \<Rightarrow> Inr item)"

definition binds_add_full ::
  "string \<Rightarrow> 's option_ref \<Rightarrow> (priority \<Rightarrow> string \<Rightarrow> 's \<Rightarrow> 's \<times> option_error option) option \<Rightarrow>
   ('s \<Rightarrow> option_error + string) option \<Rightarrow> bool \<Rightarrow> 's binds \<Rightarrow> binds_error + 's binds" where
  "binds_add_full i r new_string_func get_value_string_func add_value items =
     (if map_of items i \<noteq> None then Inl (BindAlreadyExists i)
      else Inr (items @ [(i, bind_item_full r new_string_func get_value_string_func add_value)]))"

definition binds_add :: "string \<Rightarrow> 's option_ref \<Rightarrow> 's binds \<Rightarrow> binds_error + 's binds" where
  "binds_add i r items =
     (if map_of items i \<noteq> None then Inl (BindAlreadyExists i)
      else Inr (items @ [(i, bind_item_plain r)]))"

definition binds_empty :: "'s binds \<Rightarrow> bool" where
  "binds_empty items \<longleftrightarrow> items = []"

definition binds_size :: "'s binds \<Rightarrow> nat" where
  "binds_size items = length items"

section \<open>Registering a table\<close>

text \<open>A constructor that registers its options one after the other stops at the first clash.\<close>

fun add_all :: "(string \<times> 's bind_item) list \<Rightarrow> 's binds \<Rightarrow> binds_error + 's binds" where
  "add_all [] items = Inr items"
| "add_all ((i, item) # new) items =
     (if map_of items i \<noteq> None then Inl (BindAlreadyExists i) else add_all new (items @ [(i, item)]))"

lemma binds_add_eqs:
  "binds_add_full i r f g a items = add_all [(i, bind_item_full r f g a)] items"
  "binds_add i r items = add_all [(i, bind_item_plain r)] items"
  by (simp_all add: binds_add_full_def binds_add_def)

lemma add_all_ok:
  assumes "distinct (map fst items @ map fst new)"
  shows "add_all new items = Inr (items @ new)"
  using assms
proof (induction new arbitrary: items)
  case (Cons m new)
  obtain i item where m: "m = (i, item)" by (cases m)
  have "map_of items i = None" using Cons.prems by (force simp: m map_of_eq_None_iff)
  moreover have "add_all new (items @ [(i, item)]) = Inr ((items @ [(i, item)]) @ new)"
    using Cons.prems by (intro Cons.IH) (auto simp: m)
  ultimately show ?case by (simp add: m)
qed simp

lemma add_all_distinct:
  "add_all new items = Inr items' \<Longrightarrow> distinct (map fst items) \<Longrightarrow>
     items' = items @ new \<and> distinct (map fst items')"
proof (induction new items rule: add_all.induct)
  case (2 i item new items)
  from "2.prems"(1) have fresh: "map_of items i = None" by (simp split: if_splits)
  then have d: "distinct (map fst (items @ [(i, item)]))"
    using "2.prems"(2) by (auto simp: map_of_eq_None_iff)
  have "add_all new (items @ [(i, item)]) = Inr items'" using "2.prems"(1) fresh by simp
  from "2.IH" [OF _ this d] fresh have "items' = (items @ [(i, item)]) @ new" "distinct (map fst items')"
    by blast+
  then show ?case by auto
qed simp

end
