(* ===== verification/ConfigObjects.thy ===== *)
theory ConfigObjects
  imports OptionBinds
begin

text \<open>
  Configuration objects: the virtual methods of \<open>Option\<close> dispatched on the class, a
  configuration's members as a store from member names to options, and the reading of files that
  config_main.cpp does for \<open>glob:\<close> values and variables. The file system and the regular
  expression engine are an argument.
\<close>

record world =
  w_regex :: regex_engine
  w_exists :: "string \<Rightarrow> bool"
  w_glob :: "string \<Rightarrow> string list"
  w_file :: "string \<Rightarrow> string option"
  w_dir :: "string \<Rightarrow> string list option"

section \<open>Any option\<close>

datatype any_option =
    OBool opt_bool
  | OInt32 "int opt_number"
  | OUInt32 "int opt_number"
  | OFloat "fp opt_number"
  | OSeconds opt_seconds
  | OEnum opt_enum
  | OString opt_string
  | OPath opt_path
  | OList opt_list

fun any_priority :: "any_option \<Rightarrow> priority" where
  "any_priority (OBool x) = ob_priority x"
| "any_priority (OInt32 x) = on_priority x"
| "any_priority (OUInt32 x) = on_priority x"
| "any_priority (OFloat x) = on_priority x"
| "any_priority (OSeconds x) = on_priority x"
| "any_priority (OEnum x) = oe_priority x"
| "any_priority (OString x) = os_priority x"
| "any_priority (OPath x) = os_priority x"
| "any_priority (OList x) = ol_priority x"

fun any_set :: "world \<Rightarrow> priority \<Rightarrow> string \<Rightarrow> any_option \<Rightarrow> option_error + any_option" where
  "any_set w p s (OBool x) = map_sum id OBool (bool_set_text p s x)"
| "any_set w p s (OInt32 x) = map_sum id OInt32 (number_set_text int32_type p s x)"
| "any_set w p s (OUInt32 x) = map_sum id OUInt32 (number_set_text uint32_type p s x)"
| "any_set w p s (OFloat x) = map_sum id OFloat (number_set_text float_type p s x)"
| "any_set w p s (OSeconds x) = map_sum id OSeconds (seconds_set_text p s x)"
| "any_set w p s (OEnum x) = map_sum id OEnum (enum_set p s x)"
| "any_set w p s (OString x) = map_sum id OString (string_set (w_regex w) p s x)"
| "any_set w p s (OPath x) = map_sum id OPath (path_set (w_regex w) (w_exists w) p s x)"
| "any_set w p s (OList x) = map_sum id OList (list_set_text (w_regex w) p s x)"

fun any_value_string :: "any_option \<Rightarrow> option_error + string" where
  "any_value_string (OBool x) = Inr (bool_value_string x)"
| "any_value_string (OInt32 x) = Inr (number_value_string int32_type x)"
| "any_value_string (OUInt32 x) = Inr (number_value_string uint32_type x)"
| "any_value_string (OFloat x) = Inr (number_value_string float_type x)"
| "any_value_string (OSeconds x) = Inr (number_value_string int32_type x)"
| "any_value_string (OEnum x) = Inr (oe_value x)"
| "any_value_string (OString x) = string_get_value x"
| "any_value_string (OPath x) = string_get_value x"
| "any_value_string (OList x) = Inr (list_value_string x)"

definition any_empty :: "any_option \<Rightarrow> bool" where
  "any_empty x \<longleftrightarrow> any_priority x = EMPTY"

section \<open>Members\<close>

type_synonym members = "(string, any_option) pom"

text \<open>Construction of the members in order; an exception ends it.\<close>

fun construct :: "(string \<times> (option_error + any_option)) list \<Rightarrow> option_error + members" where
  "construct [] = Inr []"
| "construct ((m, r) # rs) = and_then r (\<lambda>x. and_then (construct rs) (\<lambda>xs. Inr ((m, x) # xs)))"

definition member :: "string \<Rightarrow> members \<Rightarrow> any_option" where
  "member m ms = the (map_of ms m)"

definition put_member :: "string \<Rightarrow> any_option \<Rightarrow> members \<Rightarrow> members" where
  "put_member m x ms = map (\<lambda>kv. if fst kv = m then (m, x) else kv) ms"

definition member_ref :: "world \<Rightarrow> string \<Rightarrow> members option_ref" where
  "member_ref w m =
     \<lparr>ref_priority = (\<lambda>ms. any_priority (member m ms)),
      ref_set = (\<lambda>p s ms. map_sum id (\<lambda>x. put_member m x ms) (any_set w p s (member m ms))),
      ref_value_string = (\<lambda>ms. any_value_string (member m ms))\<rparr>"

lemma map_of_put_member [simp]:
  "map_of (put_member m x ms) n = (if n = m \<and> map_of ms m \<noteq> None then Some x else map_of ms n)"
  by (induction ms) (auto simp: put_member_def)

lemma keys_put_member [simp]: "map fst (put_member m x ms) = map fst ms"
  by (induction ms) (auto simp: put_member_def)

text \<open>The hook of the append options: \<open>option_T_list_append(member, priority, value)\<close>.\<close>

definition append_hook :: "world \<Rightarrow> string \<Rightarrow> priority \<Rightarrow> string \<Rightarrow> members \<Rightarrow> members \<times> option_error option" where
  "append_hook w m p s ms =
     (case member m ms of
        OList x \<Rightarrow> map_prod (\<lambda>y. put_member m (OList y) ms) id (list_append (w_regex w) p s x)
      | _ \<Rightarrow> (ms, None))"

section \<open>Globs\<close>

fun split_lines :: "string \<Rightarrow> string list" where
  "split_lines [] = [[]]"
| "split_lines (c # cs) =
     (if c = CHR 0x0A then [] # split_lines cs
      else (case split_lines cs of [] \<Rightarrow> [[c]] | l # ls \<Rightarrow> (c # l) # ls))"

abbreviation line_blank :: "char \<Rightarrow> bool" where
  "line_blank c \<equiv> c = CHR '' '' \<or> c = CHR 0x09 \<or> c = CHR 0x0D"

definition add_line :: "string \<Rightarrow> string" where
  "add_line line =
     (case find_from (\<lambda>c. \<not> line_blank c) line 0 of
        None \<Rightarrow> []
      | Some start \<Rightarrow>
          if line ! start = CHR ''#'' then []
          else (case find_last (\<lambda>c. \<not> line_blank c) line of
                  Some e \<Rightarrow> substr line start (e - start + 1) @ '' ''
                | None \<Rightarrow> []))"

definition add_from_file :: "world \<Rightarrow> string \<Rightarrow> option_error + string" where
  "add_from_file w path =
     (case w_file w path of
        None \<Rightarrow> Inl (RuntimeError ''add_from_file(): Can't open file'')
      | Some content \<Rightarrow> Inr (concat (map add_line (split_lines content))))"

fun add_from_paths :: "world \<Rightarrow> string list \<Rightarrow> option_error + string" where
  "add_from_paths w [] = Inr []"
| "add_from_paths w (path # paths) =
     and_then (if last path \<noteq> CHR ''/'' then add_from_file w path else Inr [])
       (\<lambda>a. and_then (add_from_paths w paths) (\<lambda>b. Inr (a @ b)))"

definition add_from_files :: "world \<Rightarrow> string \<Rightarrow> option_error + string" where
  "add_from_files w glob_path = add_from_paths w (w_glob w glob_path)"

abbreviation glob_sep :: "char \<Rightarrow> bool" where
  "glob_sep c \<equiv> c = CHR '' '' \<or> c = CHR '','' \<or> c = CHR 0x0A"

function globs_from :: "world \<Rightarrow> string \<Rightarrow> nat \<Rightarrow> option_error + string" where
  "globs_from w s start =
     (if start < length s then
        (let e = find_from glob_sep s start in
         if starts_with_at s start ''glob:'' then
           (let start = start + 5 in
            if start \<ge> length s then Inr []
            else case e of
              None \<Rightarrow> add_from_files w (substr s start (length s))
            | Some e \<Rightarrow>
                and_then (if e - start \<noteq> 0 then add_from_files w (substr s start (e - start)) else Inr [])
                  (\<lambda>a. and_then (globs_from w s (e + 1)) (\<lambda>b. Inr (a @ b))))
         else case e of
             None \<Rightarrow> Inr (substr s start (length s))
           | Some e \<Rightarrow>
               and_then (if e - start \<noteq> 0 then Inr (substr s start (e - start) @ '' '') else Inr [])
                 (\<lambda>a. and_then (globs_from w s (e + 1)) (\<lambda>b. Inr (a @ b))))
      else Inr [])"
  by pat_completeness auto
termination
  by (relation "measure (\<lambda>(w, s, start). length s - start)") (auto dest!: find_from_bounds [OF sym])

declare globs_from.simps [simp del]

definition resolve_globs :: "world \<Rightarrow> string \<Rightarrow> option_error + string" where
  "resolve_globs w str_with_globs = globs_from w str_with_globs 0"

section \<open>Variables\<close>

text \<open>\<open>add_vars_from_dir\<close>: the first line of every readable file of the directory that has
  one.\<close>

definition first_line :: "string \<Rightarrow> string option" where
  "first_line content = (if content = [] then None else Some (takeWhile (\<lambda>c. c \<noteq> CHR 0x0A) content))"

definition add_var_file ::
  "world \<Rightarrow> string \<Rightarrow> string \<Rightarrow> (string \<rightharpoonup> string) \<Rightarrow> string \<rightharpoonup> string" where
  "add_var_file w dir_path dname vars_map =
     (if dname = ''.'' \<or> dname = ''..'' then vars_map
      else
        (let full_path = (if dir_path = [] \<or> last dir_path \<noteq> CHR ''/'' then dir_path @ ''/'' else dir_path) @ dname
         in case w_file w full_path of
              None \<Rightarrow> vars_map
            | Some content \<Rightarrow>
                (case first_line content of None \<Rightarrow> vars_map | Some line \<Rightarrow> vars_map(dname \<mapsto> line))))"

definition add_vars_from_dir :: "world \<Rightarrow> string \<Rightarrow> (string \<rightharpoonup> string) \<Rightarrow> string \<rightharpoonup> string" where
  "add_vars_from_dir w dir_path vars_map =
     (case w_dir w dir_path of
        None \<Rightarrow> vars_map
      | Some names \<Rightarrow> foldl (\<lambda>vs dname. add_var_file w dir_path dname vs) vars_map names)"

definition add_env_var :: "string \<Rightarrow> (string \<rightharpoonup> string) \<Rightarrow> string \<rightharpoonup> string" where
  "add_env_var var vars_map =
     (case find_idx (\<lambda>c. c = CHR ''='') var of
        None \<Rightarrow> vars_map
      | Some eql_idx \<Rightarrow>
          if eql_idx = 4 \<and> take 3 var = ''DNF'' \<and> is_digit (var ! 3) then
            vars_map(take eql_idx var \<mapsto> drop (eql_idx + 1) var)
          else if eql_idx > 8 \<and> take 8 var = ''DNF_VAR_'' \<and>
                  length (takeWhile (\<lambda>c. is_alnum c \<or> c = CHR ''_'') (drop 8 var)) = eql_idx - 8 then
            vars_map(substr var 8 (eql_idx - 8) \<mapsto> drop (eql_idx + 1) var)
          else vars_map)"

definition add_vars_from_env :: "string list option \<Rightarrow> (string \<rightharpoonup> string) \<Rightarrow> string \<rightharpoonup> string" where
  "add_vars_from_env environ vars_map =
     (case environ of None \<Rightarrow> vars_map | Some vars \<Rightarrow> foldl (\<lambda>vs var. add_env_var var vs) vars_map vars)"

end
