(* ===== verification/ConfigMain.thy ===== *)
theory ConfigMain
  imports ConfigObjects
begin

text \<open>
  \<open>ConfigMain\<close> (libdnf/conf/config_main.cpp): its members in declaration order with their
  initial values, the registration of the members in the option registry and the accessors. The
  tables are the source's, entry by entry; a row of a registration names the option's
  identifier, the member it points to and its hook.
\<close>

section \<open>How members are declared\<close>

abbreviation new_bool :: "bool \<Rightarrow> option_error + any_option" where
  "new_bool d \<equiv> Inr (OBool (option_bool d))"

abbreviation new_i32 :: "int \<Rightarrow> option_error + any_option" where
  "new_i32 d \<equiv> map_sum id OInt32 (option_number_any int32_type d)"

abbreviation new_i32_min :: "int \<Rightarrow> int \<Rightarrow> option_error + any_option" where
  "new_i32_min d lo \<equiv> map_sum id OInt32 (option_number_min int32_type d lo)"

abbreviation new_i32_range :: "int \<Rightarrow> int \<Rightarrow> int \<Rightarrow> option_error + any_option" where
  "new_i32_range d lo hi \<equiv> map_sum id OInt32 (option_number int32_type d lo hi)"

abbreviation new_i32_user :: "int \<Rightarrow> (string \<Rightarrow> option_error + int) \<Rightarrow> option_error + any_option" where
  "new_i32_user d f \<equiv> map_sum id OInt32
     (option_number_user int32_type d (nt_lowest int32_type) (nt_highest int32_type) (Some f))"

abbreviation new_u32 :: "int \<Rightarrow> option_error + any_option" where
  "new_u32 d \<equiv> map_sum id OUInt32 (option_number_any uint32_type d)"

abbreviation new_u32_min :: "int \<Rightarrow> int \<Rightarrow> option_error + any_option" where
  "new_u32_min d lo \<equiv> map_sum id OUInt32 (option_number_min uint32_type d lo)"

abbreviation new_u32_user :: "int \<Rightarrow> (string \<Rightarrow> option_error + int) \<Rightarrow> option_error + any_option" where
  "new_u32_user d f \<equiv> map_sum id OUInt32
     (option_number_user uint32_type d (nt_lowest uint32_type) (nt_highest uint32_type) (Some f))"

abbreviation new_u32_min_user :: "int \<Rightarrow> int \<Rightarrow> (string \<Rightarrow> option_error + int) \<Rightarrow> option_error + any_option" where
  "new_u32_min_user d lo f \<equiv> map_sum id OUInt32
     (option_number_user uint32_type d lo (nt_highest uint32_type) (Some f))"

abbreviation new_throttle :: "option_error + any_option" where
  "new_throttle \<equiv> map_sum id OFloat
     (option_number_user float_type (Finite 0) (Finite 0) float_max (Some throttle_from_string))"

abbreviation new_seconds :: "int \<Rightarrow> option_error + any_option" where
  "new_seconds d \<equiv> map_sum id OSeconds (option_seconds d)"

abbreviation new_string :: "string option \<Rightarrow> option_error + any_option" where
  "new_string d \<equiv> Inr (OString (option_string_ptr d))"

abbreviation new_path :: "world \<Rightarrow> string option \<Rightarrow> bool \<Rightarrow> bool \<Rightarrow> option_error + any_option" where
  "new_path w d ex ab \<equiv> map_sum id OPath (option_path_ptr (w_exists w) d ex ab)"

abbreviation new_list :: "string list \<Rightarrow> option_error + any_option" where
  "new_list d \<equiv> Inr (OList (option_list d))"

abbreviation new_globs :: "world \<Rightarrow> string \<Rightarrow> option_error + any_option" where
  "new_globs w s \<equiv> and_then (resolve_globs w s) (\<lambda>t. Inr (OList (option_list_text t)))"

abbreviation new_enum ::
  "string \<Rightarrow> string list \<Rightarrow> (string \<Rightarrow> option_error + string) option \<Rightarrow> option_error + any_option" where
  "new_enum d vals f \<equiv> map_sum id OEnum (option_enum_user d vals f)"

section \<open>The members\<close>

definition main_options :: "world \<Rightarrow> (string \<times> (option_error + any_option)) list" where
  "main_options w = [
   (''debuglevel'', new_i32_range 2 0 10),
   (''errorlevel'', new_i32_range 3 0 10),
   (''installroot'', new_path w (Some ''/'') False True),
   (''config_file_path'', new_path w (Some ''/etc/dnf/dnf.conf'') False False),
   (''plugins'', new_bool True),
   (''pluginpath'', new_list []),
   (''pluginconfpath'', new_list []),
   (''persistdir'', new_path w (Some ''/var/lib/dnf'') False False),
   (''transformdb'', new_bool True),
   (''recent'', new_i32_min 7 0),
   (''reset_nice'', new_bool True),
   (''system_cachedir'', new_path w (Some ''/var/cache/dnf'') False False),
   (''cacheonly'', new_bool False),
   (''keepcache'', new_bool False),
   (''logdir'', new_string (Some ''/var/log'')),
   (''log_size'', new_i32_user 1048576 str_to_bytes),
   (''log_rotate'', new_i32_min 4 0),
   (''varsdir'', new_list [''/etc/yum/vars'', ''/etc/dnf/vars'']),
   (''reposdir'', new_list [''/etc/yum.repos.d'', ''/etc/yum/repos.d'', ''/etc/distro.repos.d'']),
   (''debug_solver'', new_bool False),
   (''installonlypkgs'', new_list [''kernel'', ''kernel-PAE'', ''installonlypkg(kernel)'', ''installonlypkg(kernel-module)'', ''installonlypkg(vm)'', ''multiversion(kernel)'']),
   (''group_package_types'', new_list [''mandatory'', ''default'', ''conditional'']),
   (''installonly_limit'', new_u32_min_user 3 0 installonly_limit_from_string),
   (''tsflags'', new_list []),
   (''assumeyes'', new_bool False),
   (''assumeno'', new_bool False),
   (''check_config_file_age'', new_bool True),
   (''defaultyes'', new_bool False),
   (''diskspacecheck'', new_bool True),
   (''localpkg_gpgcheck'', new_bool False),
   (''gpgkey_dns_verification'', new_bool False),
   (''obsoletes'', new_bool True),
   (''showdupesfromrepos'', new_bool False),
   (''exit_on_lock'', new_bool False),
   (''allow_vendor_change'', new_bool True),
   (''metadata_timer_sync'', new_seconds 10800),
   (''disable_excludes'', new_list []),
   (''multilib_policy'', new_enum ''best'' [''best'', ''all''] None),
   (''best'', new_bool False),
   (''install_weak_deps'', new_bool True),
   (''bugtracker_url'', new_string (Some ''https://bugzilla.redhat.com/enter_bug.cgi?product=Fedora&component=dnf'')),
   (''zchunk'', new_bool True),
   (''color'', new_enum ''auto'' [''auto'', ''never'', ''always''] (Some color_from_string)),
   (''color_list_installed_older'', new_string (Some ''yellow'')),
   (''color_list_installed_newer'', new_string (Some ''bold,yellow'')),
   (''color_list_installed_reinstall'', new_string (Some ''dim,cyan'')),
   (''color_list_installed_extra'', new_string (Some ''bold,red'')),
   (''color_list_available_upgrade'', new_string (Some ''bold,blue'')),
   (''color_list_available_downgrade'', new_string (Some ''dim,magenta'')),
   (''color_list_available_reinstall'', new_string (Some ''bold,underline,green'')),
   (''color_list_available_install'', new_string (Some ''bold,cyan'')),
   (''color_update_installed'', new_string (Some ''dim,red'')),
   (''color_update_local'', new_string (Some ''dim,green'')),
   (''color_update_remote'', new_string (Some ''bold,green'')),
   (''color_search_match'', new_string (Some ''bold,magenta'')),
   (''history_record'', new_bool True),
   (''history_record_packages'', new_list [''dnf'', ''rpm'']),
   (''rpmverbosity'', new_string (Some ''info'')),
   (''strict'', new_bool True),
   (''skip_broken'', new_bool False),
   (''autocheck_running_kernel'', new_bool True),
   (''clean_requirements_on_remove'', new_bool True),
   (''history_list_view'', new_enum ''commands'' [''single-user-commands'', ''users'', ''commands''] (Some history_list_view_from_string)),
   (''upgrade_group_objects_upgrade'', new_bool True),
   (''destdir'', new_path w None False False),
   (''comment'', new_string None),
   (''downloadonly'', new_bool False),
   (''ignorearch'', new_bool False),
   (''module_platform_id'', new_string None),
   (''user_agent'', new_string (Some ''libdnf'')),
   (''countme'', new_bool False)]"

definition main_repo_options :: "world \<Rightarrow> (string \<times> (option_error + any_option)) list" where
  "main_repo_options w = [
   (''retries'', new_u32 10),
   (''cachedir'', new_string None),
   (''fastestmirror'', new_bool False),
   (''excludepkgs'', new_list []),
   (''includepkgs'', new_list []),
   (''proxy'', new_string (Some '''')),
   (''proxy_username'', new_string None),
   (''proxy_password'', new_string None),
   (''proxy_auth_method'', new_enum ''any'' [''any'', ''none'', ''basic'', ''digest'', ''negotiate'', ''ntlm'', ''digest_ie'', ''ntlm_wb''] (Some proxy_auth_method_from_string)),
   (''protected_packages'', new_globs w ''dnf glob:/etc/yum/protected.d/*.conf glob:/etc/dnf/protected.d/*.conf''),
   (''username'', new_string (Some '''')),
   (''password'', new_string (Some '''')),
   (''gpgcheck'', new_bool False),
   (''repo_gpgcheck'', new_bool False),
   (''enabled'', new_bool True),
   (''enablegroups'', new_bool True),
   (''bandwidth'', new_u32_user 0 str_to_bytes),
   (''minrate'', new_u32_user 1000 str_to_bytes),
   (''ip_resolve'', new_enum ''whatever'' [''ipv4'', ''ipv6'', ''whatever''] (Some ip_resolve_from_string)),
   (''throttle'', new_throttle),
   (''timeout'', new_seconds 30),
   (''max_parallel_downloads'', new_u32_min 3 1),
   (''metadata_expire'', new_seconds 172800),
   (''sslcacert'', new_string (Some '''')),
   (''sslverify'', new_bool True),
   (''sslclientcert'', new_string (Some '''')),
   (''sslclientkey'', new_string (Some '''')),
   (''deltarpm'', new_bool True),
   (''deltarpm_percentage'', new_u32 75),
   (''skip_if_unavailable'', new_bool False)]"

definition main_members :: "world \<Rightarrow> option_error + members" where
  "main_members w = construct (main_options w @ main_repo_options w)"

section \<open>The registrations\<close>

text \<open>The hook of \<open>protected_packages\<close>: globs are resolved before the value is set.\<close>

definition protected_hook :: "world \<Rightarrow> priority \<Rightarrow> string \<Rightarrow> members \<Rightarrow> members \<times> option_error option" where
  "protected_hook w p value ms =
     (if any_priority (member ''protected_packages'' ms) \<le> p then
        caught ms (and_then (resolve_globs w value)
          (\<lambda>s. ref_set (member_ref w ''protected_packages'') p s ms))
      else (ms, None))"

text \<open>Identifier, member, hook and whether a new value is appended.\<close>

datatype hook_kind = NoHook | AppendHook | SpecialHook

type_synonym bind_row = "string \<times> string \<times> hook_kind \<times> bool"

definition main_binds :: "bind_row list" where
  "main_binds = [
   (''debuglevel'', ''debuglevel'', NoHook, False),
   (''errorlevel'', ''errorlevel'', NoHook, False),
   (''installroot'', ''installroot'', NoHook, False),
   (''config_file_path'', ''config_file_path'', NoHook, False),
   (''plugins'', ''plugins'', NoHook, False),
   (''pluginpath'', ''pluginpath'', NoHook, False),
   (''pluginconfpath'', ''pluginconfpath'', NoHook, False),
   (''persistdir'', ''persistdir'', NoHook, False),
   (''transformdb'', ''transformdb'', NoHook, False),
   (''recent'', ''recent'', NoHook, False),
   (''reset_nice'', ''reset_nice'', NoHook, False),
   (''system_cachedir'', ''system_cachedir'', NoHook, False),
   (''cacheonly'', ''cacheonly'', NoHook, False),
   (''keepcache'', ''keepcache'', NoHook, False),
   (''logdir'', ''logdir'', NoHook, False),
   (''log_size'', ''log_size'', NoHook, False),
   (''log_rotate'', ''log_rotate'', NoHook, False),
   (''varsdir'', ''varsdir'', NoHook, False),
   (''reposdir'', ''reposdir'', NoHook, False),
   (''debug_solver'', ''debug_solver'', NoHook, False),
   (''installonlypkgs'', ''installonlypkgs'', AppendHook, True),
   (''group_package_types'', ''group_package_types'', NoHook, False),
   (''installonly_limit'', ''installonly_limit'', NoHook, False),
   (''tsflags'', ''tsflags'', AppendHook, True),
   (''assumeyes'', ''assumeyes'', NoHook, False),
   (''assumeno'', ''assumeno'', NoHook, False),
   (''check_config_file_age'', ''check_config_file_age'', NoHook, False),
   (''defaultyes'', ''defaultyes'', NoHook, False),
   (''diskspacecheck'', ''diskspacecheck'', NoHook, False),
   (''localpkg_gpgcheck'', ''localpkg_gpgcheck'', NoHook, False),
   (''gpgkey_dns_verification'', ''gpgkey_dns_verification'', NoHook, False),
   (''obsoletes'', ''obsoletes'', NoHook, False),
   (''showdupesfromrepos'', ''showdupesfromrepos'', NoHook, False),
   (''exit_on_lock'', ''exit_on_lock'', NoHook, False),
   (''allow_vendor_change'', ''allow_vendor_change'', NoHook, False),
   (''metadata_timer_sync'', ''metadata_timer_sync'', NoHook, False),
   (''disable_excludes'', ''disable_excludes'', NoHook, False),
   (''multilib_policy'', ''multilib_policy'', NoHook, False),
   (''best'', ''best'', NoHook, False),
   (''install_weak_deps'', ''install_weak_deps'', NoHook, False),
   (''bugtracker_url'', ''bugtracker_url'', NoHook, False),
   (''zchunk'', ''zchunk'', NoHook, False),
   (''color'', ''color'', NoHook, False),
   (''color_list_installed_older'', ''color_list_installed_older'', NoHook, False),
   (''color_list_installed_newer'', ''color_list_installed_newer'', NoHook, False),
   (''color_list_installed_reinstall'', ''color_list_installed_reinstall'', NoHook, False),
   (''color_list_installed_extra'', ''color_list_installed_extra'', NoHook, False),
   (''color_list_available_upgrade'', ''color_list_available_upgrade'', NoHook, False),
   (''color_list_available_downgrade'', ''color_list_available_downgrade'', NoHook, False),
   (''color_list_available_reinstall'', ''color_list_available_reinstall'', NoHook, False),
   (''color_list_available_install'', ''color_list_available_install'', NoHook, False),
   (''color_update_installed'', ''color_update_installed'', NoHook, False),
   (''color_update_local'', ''color_update_local'', NoHook, False),
   (''color_update_remote'', ''color_update_remote'', NoHook, False),
   (''color_search_match'', ''color_search_match'', NoHook, False),
   (''history_record'', ''history_record'', NoHook, False),
   (''history_record_packages'', ''history_record_packages'', NoHook, False),
   (''rpmverbosity'', ''rpmverbosity'', NoHook, False),
   (''strict'', ''strict'', NoHook, False),
   (''skip_broken'', ''skip_broken'', NoHook, False),
   (''autocheck_running_kernel'', ''autocheck_running_kernel'', NoHook, False),
   (''clean_requirements_on_remove'', ''clean_requirements_on_remove'', NoHook, False),
   (''history_list_view'', ''history_list_view'', NoHook, False),
   (''upgrade_group_objects_upgrade'', ''upgrade_group_objects_upgrade'', NoHook, False),
   (''destdir'', ''destdir'', NoHook, False),
   (''comment'', ''comment'', NoHook, False),
   (''ignorearch'', ''ignorearch'', NoHook, False),
   (''module_platform_id'', ''module_platform_id'', NoHook, False),
   (''user_agent'', ''user_agent'', NoHook, False),
   (''countme'', ''countme'', NoHook, False)]"

definition main_repo_binds :: "bind_row list" where
  "main_repo_binds = [
   (''retries'', ''retries'', NoHook, False),
   (''cachedir'', ''cachedir'', NoHook, False),
   (''fastestmirror'', ''fastestmirror'', NoHook, False),
   (''excludepkgs'', ''excludepkgs'', AppendHook, True),
   (''exclude'', ''excludepkgs'', AppendHook, True),
   (''includepkgs'', ''includepkgs'', AppendHook, True),
   (''proxy'', ''proxy'', NoHook, False),
   (''proxy_username'', ''proxy_username'', NoHook, False),
   (''proxy_password'', ''proxy_password'', NoHook, False),
   (''proxy_auth_method'', ''proxy_auth_method'', NoHook, False),
   (''protected_packages'', ''protected_packages'', SpecialHook, False),
   (''username'', ''username'', NoHook, False),
   (''password'', ''password'', NoHook, False),
   (''gpgcheck'', ''gpgcheck'', NoHook, False),
   (''repo_gpgcheck'', ''repo_gpgcheck'', NoHook, False),
   (''enabled'', ''enabled'', NoHook, False),
   (''enablegroups'', ''enablegroups'', NoHook, False),
   (''bandwidth'', ''bandwidth'', NoHook, False),
   (''minrate'', ''minrate'', NoHook, False),
   (''ip_resolve'', ''ip_resolve'', NoHook, False),
   (''throttle'', ''throttle'', NoHook, False),
   (''timeout'', ''timeout'', NoHook, False),
   (''max_parallel_downloads'', ''max_parallel_downloads'', NoHook, False),
   (''metadata_expire'', ''metadata_expire'', NoHook, False),
   (''sslcacert'', ''sslcacert'', NoHook, False),
   (''sslverify'', ''sslverify'', NoHook, False),
   (''sslclientcert'', ''sslclientcert'', NoHook, False),
   (''sslclientkey'', ''sslclientkey'', NoHook, False),
   (''deltarpm'', ''deltarpm'', NoHook, False),
   (''deltarpm_percentage'', ''deltarpm_percentage'', NoHook, False),
   (''skip_if_unavailable'', ''skip_if_unavailable'', NoHook, False)]"

fun main_item :: "world \<Rightarrow> bind_row \<Rightarrow> string \<times> members bind_item" where
  "main_item w (i, m, h, app) =
     (i, case h of
           NoHook \<Rightarrow> bind_item_plain (member_ref w m)
         | AppendHook \<Rightarrow> bind_item_full (member_ref w m) (Some (append_hook w m)) None app
         | SpecialHook \<Rightarrow> bind_item_full (member_ref w m) (Some (protected_hook w)) None app)"

record config_main =
  cm_members :: members
  cm_binds :: "members binds"

definition config_main :: "world \<Rightarrow> (option_error + binds_error) + config_main" where
  "config_main w =
     (case main_members w of
        Inl e \<Rightarrow> Inl (Inl e)
      | Inr ms \<Rightarrow>
          (case add_all (map (main_item w) (main_binds @ main_repo_binds)) [] of
             Inl e \<Rightarrow> Inl (Inr e)
           | Inr bs \<Rightarrow> Inr \<lparr>cm_members = ms, cm_binds = bs\<rparr>))"

section \<open>The accessors\<close>

text \<open>The accessor's name and the member it returns.\<close>

definition main_accessors :: "(string \<times> string) list" where
  "main_accessors = [
   (''debuglevel'', ''debuglevel''), (''errorlevel'', ''errorlevel''), (''installroot'', ''installroot''),
   (''config_file_path'', ''config_file_path''), (''plugins'', ''plugins''), (''pluginpath'', ''pluginpath''),
   (''pluginconfpath'', ''pluginconfpath''), (''persistdir'', ''persistdir''),
   (''transformdb'', ''transformdb''), (''recent'', ''recent''), (''reset_nice'', ''reset_nice''),
   (''system_cachedir'', ''system_cachedir''), (''cacheonly'', ''cacheonly''), (''keepcache'', ''keepcache''),
   (''logdir'', ''logdir''), (''log_size'', ''log_size''), (''log_rotate'', ''log_rotate''),
   (''varsdir'', ''varsdir''), (''reposdir'', ''reposdir''), (''debug_solver'', ''debug_solver''),
   (''installonlypkgs'', ''installonlypkgs''), (''group_package_types'', ''group_package_types''),
   (''installonly_limit'', ''installonly_limit''), (''tsflags'', ''tsflags''), (''assumeyes'', ''assumeyes''),
   (''assumeno'', ''assumeno''), (''check_config_file_age'', ''check_config_file_age''),
   (''defaultyes'', ''defaultyes''), (''diskspacecheck'', ''diskspacecheck''),
   (''localpkg_gpgcheck'', ''localpkg_gpgcheck''), (''gpgkey_dns_verification'', ''gpgkey_dns_verification''),
   (''obsoletes'', ''obsoletes''), (''showdupesfromrepos'', ''showdupesfromrepos''),
   (''exit_on_lock'', ''exit_on_lock''), (''allow_vendor_change'', ''allow_vendor_change''),
   (''metadata_timer_sync'', ''metadata_timer_sync''), (''disable_excludes'', ''disable_excludes'')]"

definition main_accessors_more :: "(string \<times> string) list" where
  "main_accessors_more = [
   (''multilib_policy'', ''multilib_policy''), (''best'', ''best''),
   (''install_weak_deps'', ''install_weak_deps''), (''bugtracker_url'', ''bugtracker_url''),
   (''zchunk'', ''zchunk''), (''color'', ''color''),
   (''color_list_installed_older'', ''color_list_installed_older''),
   (''color_list_installed_newer'', ''color_list_installed_newer''),
   (''color_list_installed_reinstall'', ''color_list_installed_reinstall''),
   (''color_list_installed_extra'', ''color_list_installed_extra''),
   (''color_list_available_upgrade'', ''color_list_available_upgrade''),
   (''color_list_available_downgrade'', ''color_list_available_downgrade''),
   (''color_list_available_reinstall'', ''color_list_available_reinstall''),
   (''color_list_available_install'', ''color_list_available_install''),
   (''color_update_installed'', ''color_update_installed''), (''color_update_local'', ''color_update_local''),
   (''color_update_remote'', ''color_update_remote''), (''color_search_match'', ''color_search_match''),
   (''history_record'', ''history_record''), (''history_record_packages'', ''history_record_packages''),
   (''rpmverbosity'', ''rpmverbosity''), (''strict'', ''strict''), (''skip_broken'', ''skip_broken''),
   (''autocheck_running_kernel'', ''autocheck_running_kernel''),
   (''clean_requirements_on_remove'', ''clean_requirements_on_remove''),
   (''history_list_view'', ''history_list_view''),
   (''upgrade_group_objects_upgrade'', ''upgrade_group_objects_upgrade''), (''destdir'', ''destdir''),
   (''comment'', ''comment''), (''downloadonly'', ''downloadonly''), (''ignorearch'', ''ignorearch''),
   (''module_platform_id'', ''module_platform_id''), (''user_agent'', ''user_agent''),
   (''countme'', ''countme'')]"

definition main_repo_accessors :: "(string \<times> string) list" where
  "main_repo_accessors = [
   (''retries'', ''retries''), (''cachedir'', ''cachedir''), (''fastestmirror'', ''fastestmirror''),
   (''excludepkgs'', ''excludepkgs''), (''includepkgs'', ''includepkgs''), (''proxy'', ''proxy''),
   (''proxy_username'', ''proxy_username''), (''proxy_password'', ''proxy_password''),
   (''proxy_auth_method'', ''proxy_auth_method''), (''protected_packages'', ''protected_packages''),
   (''username'', ''username''), (''password'', ''password''), (''gpgcheck'', ''gpgcheck''),
   (''repo_gpgcheck'', ''repo_gpgcheck''), (''enabled'', ''enabled''), (''enablegroups'', ''enablegroups''),
   (''bandwidth'', ''bandwidth''), (''minrate'', ''minrate''), (''ip_resolve'', ''ip_resolve''),
   (''throttle'', ''throttle''), (''timeout'', ''timeout''),
   (''max_parallel_downloads'', ''max_parallel_downloads''), (''metadata_expire'', ''metadata_expire''),
   (''sslcacert'', ''sslcacert''), (''sslverify'', ''sslverify''), (''sslclientcert'', ''sslclientcert''),
   (''sslclientkey'', ''sslclientkey''), (''deltarpm'', ''deltarpm''),
   (''deltarpm_percentage'', ''deltarpm_percentage''), (''skip_if_unavailable'', ''skip_if_unavailable'')]"

definition main_access :: "string \<Rightarrow> config_main \<Rightarrow> any_option option" where
  "main_access accessor c =
     (case map_of (main_accessors @ main_accessors_more @ main_repo_accessors) accessor of
        None \<Rightarrow> None
      | Some m \<Rightarrow> map_of (cm_members c) m)"

end
