(* ===== verification/ConfigRepo.thy ===== *)
theory ConfigRepo
  imports ConfigMain
begin

text \<open>
  \<open>rpm::ConfigRepo\<close> (libdnf/rpm/config_repo.cpp): the configuration of one repository. Most
  of its options are children of options of the main configuration. A state holds the members of
  both, and a child names its parent among the main members.
\<close>

section \<open>Members that may be children\<close>

datatype any_child =
    CBool "bool opt_child"
  | CNumber "int opt_child"
  | CFloat "fp opt_child"
  | CString "string opt_child"
  | CList "string list opt_child"

datatype repo_option = Own any_option | Child string any_child

type_synonym repo_members = "(string, repo_option) pom"

record config_state =
  cs_main :: members
  cs_repo :: repo_members

fun child_priority_of :: "any_child \<Rightarrow> priority" where
  "child_priority_of (CBool x) = oc_priority x"
| "child_priority_of (CNumber x) = oc_priority x"
| "child_priority_of (CFloat x) = oc_priority x"
| "child_priority_of (CString x) = oc_priority x"
| "child_priority_of (CList x) = oc_priority x"

text \<open>The methods of a child and its parent. The classes agree by the types of the template;
  the last equations are for pairs the types rule out.\<close>

definition any_child_priority :: "any_option \<Rightarrow> any_child \<Rightarrow> priority" where
  "any_child_priority parent x =
     (if child_priority_of x \<noteq> EMPTY then child_priority_of x else any_priority parent)"

fun any_child_set :: "world \<Rightarrow> any_option \<Rightarrow> priority \<Rightarrow> string \<Rightarrow> any_child \<Rightarrow> option_error + any_child" where
  "any_child_set w (OBool o') p s (CBool x) = map_sum id CBool (child_set_text (bool_view o') p s x)"
| "any_child_set w (OUInt32 o') p s (CNumber x) =
     map_sum id CNumber (child_set_text (number_view uint32_type o') p s x)"
| "any_child_set w (OSeconds o') p s (CNumber x) = map_sum id CNumber (child_set_text (seconds_view o') p s x)"
| "any_child_set w (OFloat o') p s (CFloat x) =
     map_sum id CFloat (child_set_text (number_view float_type o') p s x)"
| "any_child_set w (OEnum o') p s (CString x) = map_sum id CString (string_child_set (enum_view o') p s x)"
| "any_child_set w (OString o') p s (CString x) =
     map_sum id CString (string_child_set (string_view (w_regex w) o') p s x)"
| "any_child_set w (OList o') p s (CList x) =
     map_sum id CList (child_set_text (list_view (w_regex w) o') p s x)"
| "any_child_set w _ p s x = Inr x"

fun any_child_value_string :: "world \<Rightarrow> any_option \<Rightarrow> any_child \<Rightarrow> option_error + string" where
  "any_child_value_string w (OBool o') (CBool x) = child_value_string (bool_view o') x"
| "any_child_value_string w (OUInt32 o') (CNumber x) = child_value_string (number_view uint32_type o') x"
| "any_child_value_string w (OSeconds o') (CNumber x) = child_value_string (seconds_view o') x"
| "any_child_value_string w (OFloat o') (CFloat x) = child_value_string (number_view float_type o') x"
| "any_child_value_string w (OEnum o') (CString x) = string_child_value_string (enum_view o') x"
| "any_child_value_string w (OString o') (CString x) = string_child_value_string (string_view (w_regex w) o') x"
| "any_child_value_string w (OList o') (CList x) = child_value_string (list_view (w_regex w) o') x"
| "any_child_value_string w _ x = Inr []"

fun repo_priority :: "members \<Rightarrow> repo_option \<Rightarrow> priority" where
  "repo_priority ms (Own x) = any_priority x"
| "repo_priority ms (Child m x) = any_child_priority (member m ms) x"

fun repo_set :: "world \<Rightarrow> members \<Rightarrow> priority \<Rightarrow> string \<Rightarrow> repo_option \<Rightarrow> option_error + repo_option" where
  "repo_set w ms p s (Own x) = map_sum id Own (any_set w p s x)"
| "repo_set w ms p s (Child m x) = map_sum id (Child m) (any_child_set w (member m ms) p s x)"

fun repo_value_string :: "world \<Rightarrow> members \<Rightarrow> repo_option \<Rightarrow> option_error + string" where
  "repo_value_string w ms (Own x) = any_value_string x"
| "repo_value_string w ms (Child m x) = any_child_value_string w (member m ms) x"

definition repo_member :: "string \<Rightarrow> config_state \<Rightarrow> repo_option" where
  "repo_member m c = the (map_of (cs_repo c) m)"

definition put_repo_member :: "string \<Rightarrow> repo_option \<Rightarrow> config_state \<Rightarrow> config_state" where
  "put_repo_member m x c = c\<lparr>cs_repo := map (\<lambda>kv. if fst kv = m then (m, x) else kv) (cs_repo c)\<rparr>"

definition repo_ref :: "world \<Rightarrow> string \<Rightarrow> config_state option_ref" where
  "repo_ref w m =
     \<lparr>ref_priority = (\<lambda>c. repo_priority (cs_main c) (repo_member m c)),
      ref_set = (\<lambda>p s c. map_sum id (\<lambda>x. put_repo_member m x c) (repo_set w (cs_main c) p s (repo_member m c))),
      ref_value_string = (\<lambda>c. repo_value_string w (cs_main c) (repo_member m c))\<rparr>"

section \<open>The members\<close>

fun construct_repo :: "(string \<times> (option_error + repo_option)) list \<Rightarrow> option_error + repo_members" where
  "construct_repo [] = Inr []"
| "construct_repo ((m, r) # rs) = and_then r (\<lambda>x. and_then (construct_repo rs) (\<lambda>xs. Inr ((m, x) # xs)))"

definition repo_options :: "(string \<times> (option_error + repo_option)) list" where
  "repo_options = [
   (''name'', map_sum id Own (new_string (Some ''''))),
   (''enabled'', Inr (Child ''enabled'' (CBool option_child))),
   (''basecachedir'', Inr (Child ''cachedir'' (CString option_child))),
   (''baseurl'', map_sum id Own (new_list [])),
   (''mirrorlist'', map_sum id Own (new_string None)),
   (''metalink'', map_sum id Own (new_string None)),
   (''type'', map_sum id Own (new_string (Some ''''))),
   (''mediaid'', map_sum id Own (new_string (Some ''''))),
   (''gpgkey'', map_sum id Own (new_list [])),
   (''excludepkgs'', map_sum id Own (new_list [])),
   (''includepkgs'', map_sum id Own (new_list [])),
   (''fastestmirror'', Inr (Child ''fastestmirror'' (CBool option_child))),
   (''proxy'', Inr (Child ''proxy'' (CString option_child))),
   (''proxy_username'', Inr (Child ''proxy_username'' (CString option_child))),
   (''proxy_password'', Inr (Child ''proxy_password'' (CString option_child))),
   (''proxy_auth_method'', Inr (Child ''proxy_auth_method'' (CString option_child))),
   (''username'', Inr (Child ''username'' (CString option_child))),
   (''password'', Inr (Child ''password'' (CString option_child))),
   (''protected_packages'', Inr (Child ''protected_packages'' (CList option_child))),
   (''gpgcheck'', Inr (Child ''gpgcheck'' (CBool option_child))),
   (''repo_gpgcheck'', Inr (Child ''repo_gpgcheck'' (CBool option_child))),
   (''enablegroups'', Inr (Child ''enablegroups'' (CBool option_child))),
   (''retries'', Inr (Child ''retries'' (CNumber option_child))),
   (''bandwidth'', Inr (Child ''bandwidth'' (CNumber option_child))),
   (''minrate'', Inr (Child ''minrate'' (CNumber option_child))),
   (''ip_resolve'', Inr (Child ''ip_resolve'' (CString option_child))),
   (''throttle'', Inr (Child ''throttle'' (CFloat option_child))),
   (''timeout'', Inr (Child ''timeout'' (CNumber option_child))),
   (''max_parallel_downloads'', Inr (Child ''max_parallel_downloads'' (CNumber option_child))),
   (''metadata_expire'', Inr (Child ''metadata_expire'' (CNumber option_child))),
   (''cost'', map_sum id Own (new_i32 1000)),
   (''priority'', map_sum id Own (new_i32 99)),
   (''module_hotfixes'', map_sum id Own (new_bool False)),
   (''sslcacert'', Inr (Child ''sslcacert'' (CString option_child))),
   (''sslverify'', Inr (Child ''sslverify'' (CBool option_child))),
   (''sslclientcert'', Inr (Child ''sslclientcert'' (CString option_child))),
   (''sslclientkey'', Inr (Child ''sslclientkey'' (CString option_child))),
   (''deltarpm'', Inr (Child ''deltarpm'' (CBool option_child))),
   (''deltarpm_percentage'', Inr (Child ''deltarpm_percentage'' (CNumber option_child))),
   (''skip_if_unavailable'', Inr (Child ''skip_if_unavailable'' (CBool option_child))),
   (''enabled_metadata'', map_sum id Own (new_string (Some ''''))),
   (''user_agent'', Inr (Child ''user_agent'' (CString option_child))),
   (''countme'', Inr (Child ''countme'' (CBool option_child))),
   (''failovermethod'', map_sum id Own (new_enum ''priority'' [''priority'', ''roundrobin''] None)),
   (''build_cache'', map_sum id Own (new_bool True))]"

definition repo_members :: "option_error + repo_members" where
  "repo_members = construct_repo repo_options"

section \<open>The registrations\<close>

definition repo_append_hook ::
  "world \<Rightarrow> string \<Rightarrow> priority \<Rightarrow> string \<Rightarrow> config_state \<Rightarrow> config_state \<times> option_error option" where
  "repo_append_hook w m p s c =
     (case repo_member m c of
        Own (OList x) \<Rightarrow> map_prod (\<lambda>y. put_repo_member m (Own (OList y)) c) id (list_append (w_regex w) p s x)
      | _ \<Rightarrow> (c, None))"

text \<open>The hook of \<open>proxy\<close>: the word \<open>_none_\<close> in any case means no proxy.\<close>

definition proxy_hook ::
  "world \<Rightarrow> priority \<Rightarrow> string \<Rightarrow> config_state \<Rightarrow> config_state \<times> option_error option" where
  "proxy_hook w p value c =
     (let tmp_value = map to_lower value in
      caught c (ref_set (repo_ref w ''proxy'') p (if tmp_value = ''_none_'' then [] else value) c))"

definition repo_binds :: "bind_row list" where
  "repo_binds = [
   (''name'', ''name'', NoHook, False),
   (''enabled'', ''enabled'', NoHook, False),
   (''cachedir'', ''basecachedir'', NoHook, False),
   (''baseurl'', ''baseurl'', NoHook, False),
   (''mirrorlist'', ''mirrorlist'', NoHook, False),
   (''metalink'', ''metalink'', NoHook, False),
   (''type'', ''type'', NoHook, False),
   (''mediaid'', ''mediaid'', NoHook, False),
   (''gpgkey'', ''gpgkey'', NoHook, False),
   (''excludepkgs'', ''excludepkgs'', AppendHook, True),
   (''exclude'', ''excludepkgs'', AppendHook, True),
   (''includepkgs'', ''includepkgs'', AppendHook, True),
   (''fastestmirror'', ''fastestmirror'', NoHook, False),
   (''proxy'', ''proxy'', SpecialHook, False),
   (''proxy_username'', ''proxy_username'', NoHook, False),
   (''proxy_password'', ''proxy_password'', NoHook, False),
   (''proxy_auth_method'', ''proxy_auth_method'', NoHook, False),
   (''username'', ''username'', NoHook, False),
   (''password'', ''password'', NoHook, False),
   (''protected_packages'', ''protected_packages'', NoHook, False),
   (''gpgcheck'', ''gpgcheck'', NoHook, False),
   (''repo_gpgcheck'', ''repo_gpgcheck'', NoHook, False),
   (''enablegroups'', ''enablegroups'', NoHook, False),
   (''retries'', ''retries'', NoHook, False),
   (''bandwidth'', ''bandwidth'', NoHook, False),
   (''minrate'', ''minrate'', NoHook, False),
   (''ip_resolve'', ''ip_resolve'', NoHook, False),
   (''throttle'', ''throttle'', NoHook, False),
   (''timeout'', ''timeout'', NoHook, False),
   (''max_parallel_downloads'', ''max_parallel_downloads'', NoHook, False),
   (''metadata_expire'', ''metadata_expire'', NoHook, False),
   (''cost'', ''cost'', NoHook, False),
   (''priority'', ''priority'', NoHook, False),
   (''module_hotfixes'', ''module_hotfixes'', NoHook, False),
   (''sslcacert'', ''sslcacert'', NoHook, False),
   (''sslverify'', ''sslverify'', NoHook, False),
   (''sslclientcert'', ''sslclientcert'', NoHook, False),
   (''sslclientkey'', ''sslclientkey'', NoHook, False),
   (''deltarpm'', ''deltarpm'', NoHook, False),
   (''deltarpm_percentage'', ''deltarpm_percentage'', NoHook, False),
   (''skip_if_unavailable'', ''skip_if_unavailable'', NoHook, False),
   (''enabled_metadata'', ''enabled_metadata'', NoHook, False),
   (''user_agent'', ''user_agent'', NoHook, False),
   (''countme'', ''countme'', NoHook, False),
   (''build_cache'', ''build_cache'', NoHook, False)]"

fun repo_item :: "world \<Rightarrow> bind_row \<Rightarrow> string \<times> config_state bind_item" where
  "repo_item w (i, m, h, app) =
     (i, case h of
           NoHook \<Rightarrow> bind_item_plain (repo_ref w m)
         | AppendHook \<Rightarrow> bind_item_full (repo_ref w m) (Some (repo_append_hook w m)) None app
         | SpecialHook \<Rightarrow> bind_item_full (repo_ref w m) (Some (proxy_hook w)) None app)"

record config_repo =
  cr_members :: repo_members
  cr_binds :: "config_state binds"

definition config_repo :: "world \<Rightarrow> (option_error + binds_error) + config_repo" where
  "config_repo w =
     (case repo_members of
        Inl e \<Rightarrow> Inl (Inl e)
      | Inr ms \<Rightarrow>
          (case add_all (map (repo_item w) repo_binds) [] of
             Inl e \<Rightarrow> Inl (Inr e)
           | Inr bs \<Rightarrow> Inr \<lparr>cr_members = ms, cr_binds = bs\<rparr>))"

section \<open>The accessors\<close>

definition repo_accessors :: "(string \<times> string) list" where
  "repo_accessors = [
   (''name'', ''name''), (''enabled'', ''enabled''), (''basecachedir'', ''basecachedir''),
   (''baseurl'', ''baseurl''), (''mirrorlist'', ''mirrorlist''), (''metalink'', ''metalink''),
   (''type'', ''type''), (''mediaid'', ''mediaid''), (''gpgkey'', ''gpgkey''),
   (''excludepkgs'', ''excludepkgs''), (''includepkgs'', ''includepkgs''),
   (''fastestmirror'', ''fastestmirror''), (''proxy'', ''proxy''), (''proxy_username'', ''proxy_username''),
   (''proxy_password'', ''proxy_password''), (''proxy_auth_method'', ''proxy_auth_method''),
   (''username'', ''username''), (''password'', ''password''),
   (''protected_packages'', ''protected_packages''), (''gpgcheck'', ''gpgcheck''),
   (''repo_gpgcheck'', ''repo_gpgcheck''), (''enablegroups'', ''enablegroups''), (''retries'', ''retries''),
   (''bandwidth'', ''bandwidth''), (''minrate'', ''minrate''), (''ip_resolve'', ''ip_resolve''),
   (''throttle'', ''throttle''), (''timeout'', ''timeout''),
   (''max_parallel_downloads'', ''max_parallel_downloads''), (''metadata_expire'', ''metadata_expire''),
   (''cost'', ''cost''), (''priority'', ''priority''), (''module_hotfixes'', ''module_hotfixes''),
   (''sslcacert'', ''sslcacert''), (''sslverify'', ''sslverify''), (''sslclientcert'', ''sslclientcert''),
   (''sslclientkey'', ''sslclientkey''), (''deltarpm'', ''deltarpm''),
   (''deltarpm_percentage'', ''deltarpm_percentage''), (''skip_if_unavailable'', ''skip_if_unavailable''),
   (''enabled_metadata'', ''enabled_metadata''), (''user_agent'', ''user_agent''), (''countme'', ''countme''),
   (''failovermethod'', ''failovermethod''), (''build_cache'', ''build_cache'')]"

definition repo_access :: "string \<Rightarrow> config_repo \<Rightarrow> repo_option option" where
  "repo_access accessor c =
     (case map_of repo_accessors accessor of None \<Rightarrow> None | Some m \<Rightarrow> map_of (cr_members c) m)"

end
