(* ===== verification/ConfigFacts.thy ===== *)
theory ConfigFacts
  imports ConfigRepo
begin

text \<open>
  The two configurations as wholes: their constructors succeed, every identifier names an
  existing member and every member has its accessor, and setting an option through the registry
  touches that option only.
\<close>

section \<open>Construction\<close>

lemma construct_ok:
  "list_all (\<lambda>r. \<exists>x. snd r = Inr x) rs \<Longrightarrow> \<exists>ms. construct rs = Inr ms \<and> map fst ms = map fst rs"
proof (induction rs)
  case (Cons r rs)
  obtain m v where r: "r = (m, v)" by (cases r)
  obtain x where "v = Inr x" using Cons.prems r by auto
  moreover obtain ms where "construct rs = Inr ms" "map fst ms = map fst rs" using Cons by auto
  ultimately show ?case by (simp add: r)
qed simp

lemmas number_defs = option_number_any_def option_number_min_def option_number_def option_number_user_def
  number_test_def int32_type_def uint32_type_def int_type_def option_seconds_def

lemmas text_defs = option_path_ptr_def path_init_def path_of_def option_string_ptr_def path_test_def
  remove_file_prot_def option_enum_user_def enum_test_def

lemma main_options_ok: "list_all (\<lambda>r. \<exists>x. snd r = Inr x) (main_options w)"
  unfolding main_options_def list.pred_inject snd_conv
  by (intro conjI) (simp_all add: number_defs text_defs Let_def)

abbreviation protected_default :: string where
  "protected_default \<equiv> ''dnf glob:/etc/yum/protected.d/*.conf glob:/etc/dnf/protected.d/*.conf''"

lemma main_repo_options_ok:
  assumes "resolve_globs w protected_default = Inr t"
  shows "list_all (\<lambda>r. \<exists>x. snd r = Inr x) (main_repo_options w)"
  unfolding main_repo_options_def list.pred_inject snd_conv
  by (intro conjI) (simp_all add: assms number_defs text_defs Let_def float_type_def float_max_def)

definition bare_world :: world where
  "bare_world = \<lparr>w_regex = (\<lambda>_ _ _. True), w_exists = (\<lambda>_. False), w_glob = (\<lambda>_. []),
     w_file = (\<lambda>_. None), w_dir = (\<lambda>_. None)\<rparr>"

text \<open>The names of the members, which do not depend on the world.\<close>

definition main_names :: "string list" where
  "main_names = [
   ''debuglevel'', ''errorlevel'', ''installroot'', ''config_file_path'', ''plugins'', ''pluginpath'',
   ''pluginconfpath'', ''persistdir'', ''transformdb'', ''recent'', ''reset_nice'', ''system_cachedir'',
   ''cacheonly'', ''keepcache'', ''logdir'', ''log_size'', ''log_rotate'', ''varsdir'', ''reposdir'',
   ''debug_solver'', ''installonlypkgs'', ''group_package_types'', ''installonly_limit'', ''tsflags'',
   ''assumeyes'', ''assumeno'', ''check_config_file_age'', ''defaultyes'', ''diskspacecheck'',
   ''localpkg_gpgcheck'', ''gpgkey_dns_verification'', ''obsoletes'', ''showdupesfromrepos'',
   ''exit_on_lock'', ''allow_vendor_change'', ''metadata_timer_sync'', ''disable_excludes'',
   ''multilib_policy'', ''best'', ''install_weak_deps'', ''bugtracker_url'', ''zchunk'', ''color'',
   ''color_list_installed_older'', ''color_list_installed_newer'', ''color_list_installed_reinstall'',
   ''color_list_installed_extra'', ''color_list_available_upgrade'', ''color_list_available_downgrade'',
   ''color_list_available_reinstall'', ''color_list_available_install'', ''color_update_installed'',
   ''color_update_local'', ''color_update_remote'', ''color_search_match'', ''history_record'',
   ''history_record_packages'', ''rpmverbosity'', ''strict'', ''skip_broken'', ''autocheck_running_kernel'',
   ''clean_requirements_on_remove'', ''history_list_view'', ''upgrade_group_objects_upgrade'', ''destdir'',
   ''comment'', ''downloadonly'', ''ignorearch'', ''module_platform_id'', ''user_agent'', ''countme'',
   ''retries'', ''cachedir'', ''fastestmirror'', ''excludepkgs'', ''includepkgs'', ''proxy'',
   ''proxy_username'', ''proxy_password'', ''proxy_auth_method'', ''protected_packages'', ''username'',
   ''password'', ''gpgcheck'', ''repo_gpgcheck'', ''enabled'', ''enablegroups'', ''bandwidth'', ''minrate'',
   ''ip_resolve'', ''throttle'', ''timeout'', ''max_parallel_downloads'', ''metadata_expire'',
   ''sslcacert'', ''sslverify'', ''sslclientcert'', ''sslclientkey'', ''deltarpm'', ''deltarpm_percentage'',
   ''skip_if_unavailable'']"

lemma main_names_any: "map fst (main_options w @ main_repo_options w) = main_names"
  by (simp add: main_names_def main_options_def main_repo_options_def)

definition main_rows :: "bind_row list" where
  "main_rows = main_binds @ main_repo_binds"

definition accessor_rows :: "(string \<times> string) list" where
  "accessor_rows = main_accessors @ main_accessors_more @ main_repo_accessors"

lemmas row_tables = main_rows_def main_binds_def main_repo_binds_def

lemmas accessor_tables = accessor_rows_def main_accessors_def main_accessors_more_def main_repo_accessors_def

lemma main_names_distinct: "distinct main_names"
  by (simp add: main_names_def)

lemma main_rows_distinct: "distinct (map fst main_rows)"
  by (simp add: row_tables)

abbreviation row_member :: "bind_row \<Rightarrow> string" where
  "row_member row \<equiv> fst (snd row)"

text \<open>Without the alias \<open>exclude\<close> the registrations follow the declarations.\<close>

lemma main_rows_order:
  "map row_member [row \<leftarrow> main_rows. fst row \<noteq> ''exclude''] = [m \<leftarrow> main_names. m \<noteq> ''downloadonly'']"
  by (simp add: row_tables main_names_def)

lemma main_rows_alias:
  "list_all (\<lambda>row. fst row = ''exclude'' \<longrightarrow> row_member row = ''excludepkgs'') main_rows"
  by (simp add: row_tables)

lemma main_rows_set: "set (map row_member main_rows) = set main_names - {''downloadonly''}"
proof -
  have e: "''excludepkgs'' \<in> set [m \<leftarrow> main_names. m \<noteq> ''downloadonly'']" by (simp add: main_names_def)
  have "set (map row_member main_rows) \<subseteq>
      set (map row_member [row \<leftarrow> main_rows. fst row \<noteq> ''exclude'']) \<union> {''excludepkgs''}"
    using main_rows_alias by (auto simp: list_all_iff)
  moreover have "set (map row_member [row \<leftarrow> main_rows. fst row \<noteq> ''exclude'']) \<subseteq> set (map row_member main_rows)"
    by auto
  ultimately show ?thesis using e unfolding main_rows_order by auto
qed

lemma main_rows_members: "list_all (\<lambda>row. row_member row \<in> set main_names) main_rows"
  using main_rows_set by (auto simp: list_all_iff)

lemma main_unbound: "[m \<leftarrow> main_names. m \<notin> set (map row_member main_rows)] = [''downloadonly'']"
proof -
  have "[m \<leftarrow> main_names. m \<notin> set (map row_member main_rows)] = [m \<leftarrow> main_names. m = ''downloadonly'']"
    unfolding main_rows_set by (rule filter_cong) auto
  also have "\<dots> = [''downloadonly'']" by (simp add: main_names_def)
  finally show ?thesis .
qed

lemma accessor_names: "map fst accessor_rows = main_names" "list_all (\<lambda>a. fst a = snd a) accessor_rows"
  by (simp_all add: accessor_tables main_names_def)

lemma map_of_diagonal: "list_all (\<lambda>a. fst a = snd a) as \<Longrightarrow> k \<in> set (map fst as) \<Longrightarrow> map_of as k = Some k"
  by (induction as) auto

lemma fst_main_item: "map fst (map (main_item w) rows) = map fst rows"
  by (induction rows) auto

lemma map_of_names: "map fst ms = names \<Longrightarrow> k \<in> set names \<Longrightarrow> map_of ms k \<noteq> None"
  by (auto simp: map_of_eq_None_iff)

section \<open>Properties\<close>

text \<open>C36. The constructor of the main configuration succeeds wherever the default list of protected
  packages can be read: no default is outside its bounds or words and no identifier is registered
  twice. Every identifier is registered for an existing member, every member but the runtime-only
  \<open>downloadonly\<close> has an identifier, and the accessors return the members of their names.\<close>

theorem main_configuration_complete:
  assumes "resolve_globs w protected_default = Inr t"
  shows "\<exists>c. config_main w = Inr c \<and>
    map fst (cm_binds c) = map fst main_rows \<and> distinct (map fst (cm_binds c)) \<and>
    list_all (\<lambda>row. map_of (cm_members c) (row_member row) \<noteq> None) main_rows \<and>
    [m \<leftarrow> map fst (cm_members c). m \<notin> set (map row_member main_rows)] = [''downloadonly''] \<and>
    list_all (\<lambda>m. main_access m c = map_of (cm_members c) m \<and> main_access m c \<noteq> None) (map fst (cm_members c))"
proof -
  have "list_all (\<lambda>r. \<exists>x. snd r = Inr x) (main_options w @ main_repo_options w)"
    using main_options_ok main_repo_options_ok [OF assms] by simp
  from construct_ok [OF this] obtain ms where ms: "main_members w = Inr ms" "map fst ms = main_names"
    unfolding main_members_def main_names_any by blast
  let ?bs = "map (main_item w) (main_binds @ main_repo_binds)"
  have "distinct (map fst ?bs)" unfolding fst_main_item using main_rows_distinct by (simp only: main_rows_def)
  then have bs: "add_all ?bs [] = Inr ?bs" using add_all_ok [of "[]" ?bs] by simp
  let ?c = "\<lparr>cm_members = ms, cm_binds = ?bs\<rparr>"
  have c: "config_main w = Inr ?c" by (simp only: config_main_def ms(1) bs sum.case)
  have members: "map_of ms m \<noteq> None" if "m \<in> set main_names" for m using map_of_names [OF ms(2) that] .
  have access: "main_access m ?c = map_of ms m" if "m \<in> set main_names" for m
  proof -
    have "map_of accessor_rows m = Some m" using map_of_diagonal [OF accessor_names(2)] that accessor_names(1) by simp
    then show ?thesis by (simp add: main_access_def accessor_rows_def)
  qed
  show ?thesis
  proof (intro exI conjI)
    show "config_main w = Inr ?c" by (rule c)
    show "map fst (cm_binds ?c) = map fst main_rows" unfolding config_main.simps fst_main_item main_rows_def ..
    then show "distinct (map fst (cm_binds ?c))" using main_rows_distinct by simp
    show "list_all (\<lambda>row. map_of (cm_members ?c) (row_member row) \<noteq> None) main_rows"
      using main_rows_members members by (simp only: list_all_iff config_main.simps) blast
    show "[m \<leftarrow> map fst (cm_members ?c). m \<notin> set (map row_member main_rows)] = [''downloadonly'']"
      unfolding config_main.simps ms(2) by (rule main_unbound)
    show "list_all (\<lambda>m. main_access m ?c = map_of (cm_members ?c) m \<and> main_access m ?c \<noteq> None) (map fst (cm_members ?c))"
      unfolding config_main.simps ms(2) list_all_iff using access members by (metis (no_types, lifting))
  qed
qed

theorem main_configuration_complete_witness:
  "\<exists>c. config_main bare_world = Inr c \<and>
    map fst (cm_binds c) = map fst main_rows \<and> distinct (map fst (cm_binds c)) \<and>
    list_all (\<lambda>row. map_of (cm_members c) (row_member row) \<noteq> None) main_rows \<and>
    [m \<leftarrow> map fst (cm_members c). m \<notin> set (map row_member main_rows)] = [''downloadonly''] \<and>
    list_all (\<lambda>m. main_access m c = map_of (cm_members c) m \<and> main_access m c \<noteq> None) (map fst (cm_members c))"
proof -
  have "resolve_globs bare_world protected_default = Inr ''dnf ''" by code_simp
  then show ?thesis by (rule main_configuration_complete)
qed

section \<open>Setting through the registry\<close>

lemma put_member_other: "n \<noteq> m \<Longrightarrow> map_of (put_member m x ms) n = map_of ms n"
  by simp

lemma ref_set_other:
  assumes "ref_set (member_ref w m) p v ms = Inr ms'"
  shows "map fst ms' = map fst ms \<and> (\<forall>n. n \<noteq> m \<longrightarrow> map_of ms' n = map_of ms n)"
proof -
  obtain x where "ms' = put_member m x ms"
    using assms by (auto simp: member_ref_def map_sum_def split: sum.splits)
  then show ?thesis by simp
qed

lemma caught_cases: "caught x r = (y, e) \<Longrightarrow> r = Inr y \<or> y = x"
  by (auto simp: caught_def split: sum.splits)

lemma main_item_frame:
  assumes "item_new_string (snd (main_item w (i, m, h, app))) p v ms = (ms', e)"
    and "h = SpecialHook \<longrightarrow> m = ''protected_packages''"
  shows "map fst ms' = map fst ms \<and> (\<forall>n. n \<noteq> m \<longrightarrow> map_of ms' n = map_of ms n)"
proof (cases h)
  case NoHook
  then have "caught ms (ref_set (member_ref w m) p v ms) = (ms', e)"
    using assms(1) by (simp add: item_new_string_def bind_item_plain_def)
  from caught_cases [OF this] show ?thesis
  proof
    assume "ref_set (member_ref w m) p v ms = Inr ms'"
    then show ?thesis by (rule ref_set_other)
  qed simp
next
  case AppendHook
  then have "append_hook w m p v ms = (ms', e)"
    using assms(1) by (simp add: item_new_string_def bind_item_full_def)
  then consider x where "ms' = put_member m x ms" | "ms' = ms"
    by (auto simp: append_hook_def map_prod_def split: any_option.splits prod.splits)
  then show ?thesis by cases simp_all
next
  case SpecialHook
  then have "protected_hook w p v ms = (ms', e)"
    using assms(1) by (simp add: item_new_string_def bind_item_full_def)
  then consider s where "ref_set (member_ref w m) p s ms = Inr ms'" | "ms' = ms"
    using assms(2) SpecialHook
    by (auto simp: protected_hook_def dest!: caught_cases split: if_splits)
  then show ?thesis
  proof cases
    case 1
    then show ?thesis by (rule ref_set_other)
  qed simp
qed

lemma main_rows_special: "list_all (\<lambda>(i, m, h, app). h = SpecialHook \<longrightarrow> m = ''protected_packages'') main_rows"
  by (simp add: row_tables)

text \<open>Setting a value through the main configuration's registry under any identifier changes
  at most the member the identifier is registered for, whether the call succeeds or throws, and
  neither adds nor removes members.\<close>

theorem registry_changes_one_member:
  assumes "(i, m, h, app) \<in> set main_rows"
    and "item_new_string (snd (main_item w (i, m, h, app))) p v ms = (ms', e)"
  shows "map fst ms' = map fst ms \<and> (n \<noteq> m \<longrightarrow> map_of ms' n = map_of ms n)"
proof -
  have "h = SpecialHook \<longrightarrow> m = ''protected_packages''"
    using main_rows_special assms(1) by (auto simp: list_all_iff)
  from main_item_frame [OF assms(2) this] show ?thesis by blast
qed

theorem registry_changes_one_member_witness:
  "map_of (fst (item_new_string (snd (main_item bare_world (''exclude'', ''excludepkgs'', AppendHook, True)))
       COMMANDLINE ''a,b'' [(''excludepkgs'', OList (option_list [])), (''best'', OBool (option_bool False))])) ''best''
     = Some (OBool (option_bool False))"
proof -
  let ?ms = "[(''excludepkgs'', OList (option_list [])), (''best'', OBool (option_bool False))]"
  let ?r = "item_new_string (snd (main_item bare_world (''exclude'', ''excludepkgs'', AppendHook, True))) COMMANDLINE ''a,b'' ?ms"
  have "(''exclude'', ''excludepkgs'', AppendHook, True) \<in> set main_rows" by (simp add: row_tables)
  moreover have "?r = (fst ?r, snd ?r)" by (rule prod.collapse [symmetric])
  ultimately have "map_of (fst ?r) ''best'' = map_of ?ms ''best''"
    using registry_changes_one_member [of "''exclude''" "''excludepkgs''" AppendHook True bare_world
      COMMANDLINE "''a,b''" ?ms "fst ?r" "snd ?r" "''best''"] by blast
  also have "map_of ?ms ''best'' = Some (OBool (option_bool False))" by simp
  finally show ?thesis .
qed

section \<open>The repository configuration\<close>

lemma construct_repo_ok:
  "list_all (\<lambda>r. \<exists>x. snd r = Inr x) rs \<Longrightarrow>
     \<exists>ms. construct_repo rs = Inr ms \<and> map fst ms = map fst rs \<and> map (\<lambda>m. Inr (snd m)) ms = map snd rs"
proof (induction rs)
  case (Cons r rs)
  obtain m v where r: "r = (m, v)" by (cases r)
  obtain x where x: "v = Inr x" using Cons.prems r by auto
  obtain ms where "construct_repo rs = Inr ms" "map fst ms = map fst rs" "map (\<lambda>m. Inr (snd m)) ms = map snd rs"
    using Cons by auto
  with x show ?case by (simp add: r)
qed simp

lemma repo_options_ok: "list_all (\<lambda>r. \<exists>x. snd r = Inr x) repo_options"
  unfolding repo_options_def list.pred_inject snd_conv
  by (intro conjI) (simp_all add: number_defs text_defs Let_def)

lemma repo_binds_distinct: "distinct (map fst repo_binds)"
  by (simp add: repo_binds_def)

lemma fst_repo_item: "map fst (map (repo_item w) rows) = map fst rows"
  by (induction rows) auto

lemma repo_rows_order:
  "map row_member [row \<leftarrow> repo_binds. fst row \<noteq> ''exclude''] =
   [m \<leftarrow> map fst repo_options. m \<noteq> ''failovermethod'']"
  by (simp add: repo_binds_def repo_options_def)

lemma repo_accessor_names:
  "map fst repo_accessors = map fst repo_options" "list_all (\<lambda>a. fst a = snd a) repo_accessors"
  by (simp_all add: repo_accessors_def repo_options_def)

lemma repo_failovermethod:
  "''failovermethod'' \<notin> set (map fst repo_binds)" "''failovermethod'' \<in> set (map fst repo_options)"
  by (simp_all add: repo_binds_def repo_options_def)

lemma repo_parents:
  "list_all (\<lambda>r. case snd r of Inr (Child m x) \<Rightarrow> m \<in> set main_names | _ \<Rightarrow> True) repo_options"
  unfolding repo_options_def list.pred_inject snd_conv
  by (intro conjI) (simp_all add: number_defs text_defs Let_def main_names_def)

text \<open>The constructor of a repository's configuration succeeds; every child option names an
  existing option of the main configuration; but the option \<open>failovermethod\<close>, which has a
  member and an accessor, is never registered: setting it from a configuration file reports an
  unknown option. Without that option (and the alias \<open>exclude\<close>) the registrations are the
  members in order.\<close>

theorem repo_configuration_lacks_failovermethod:
  "\<exists>c. config_repo w = Inr c \<and> distinct (map fst (cr_binds c)) \<and>
    list_all (\<lambda>m. case snd m of Child parent x \<Rightarrow> parent \<in> set main_names | Own x \<Rightarrow> True) (cr_members c) \<and>
    map row_member [row \<leftarrow> repo_binds. fst row \<noteq> ''exclude''] =
      [m \<leftarrow> map fst (cr_members c). m \<noteq> ''failovermethod''] \<and>
    binds_at ''failovermethod'' (cr_binds c) = Inl (BindNotFound ''failovermethod'') \<and>
    repo_access ''failovermethod'' c \<noteq> None"
proof -
  obtain ms where ms: "repo_members = Inr ms" "map fst ms = map fst repo_options"
    "map (\<lambda>m. Inr (snd m)) ms = map snd repo_options"
    using construct_repo_ok [OF repo_options_ok] unfolding repo_members_def by blast
  let ?bs = "map (repo_item w) repo_binds"
  have d: "distinct (map fst ?bs)" unfolding fst_repo_item by (rule repo_binds_distinct)
  have bs: "add_all ?bs [] = Inr ?bs" using add_all_ok [of "[]" ?bs] d by simp
  let ?c = "\<lparr>cr_members = ms, cr_binds = ?bs\<rparr>"
  have c: "config_repo w = Inr ?c" by (simp only: config_repo_def ms(1) bs sum.case)
  have "list_all (\<lambda>v. case v of Inr (Child m x) \<Rightarrow> m \<in> set main_names | _ \<Rightarrow> True) (map snd repo_options)"
    using repo_parents by (simp add: list_all_iff)
  then have parents: "list_all (\<lambda>m. case snd m of Child parent x \<Rightarrow> parent \<in> set main_names | Own x \<Rightarrow> True) ms"
    unfolding ms(3) [symmetric] by (auto simp: list_all_iff split: repo_option.splits)
  have "map_of ?bs ''failovermethod'' = None"
    using repo_failovermethod(1) unfolding map_of_eq_None_iff set_map [symmetric] fst_repo_item .
  then have missing: "binds_at ''failovermethod'' ?bs = Inl (BindNotFound ''failovermethod'')"
    unfolding binds_at_def by (simp only: option.case)
  have "map_of repo_accessors ''failovermethod'' = Some ''failovermethod''"
    using map_of_diagonal [OF repo_accessor_names(2)] repo_failovermethod(2) repo_accessor_names(1) by simp
  moreover have "map_of ms ''failovermethod'' \<noteq> None"
    using map_of_names [OF ms(2) repo_failovermethod(2)] .
  ultimately have access: "repo_access ''failovermethod'' ?c \<noteq> None" by (simp add: repo_access_def)
  show ?thesis
    using c d parents missing access repo_rows_order [folded ms(2)]
    by (intro exI [of _ ?c] conjI) (simp_all only: config_repo.simps simp_thms)
qed

end
