(* ===== verification/SolvMap.thy ===== *)
theory SolvMap
  imports Prelude "HOL-Library.Word"
begin

unbundle bit_operations_syntax

text \<open>
  \<open>solv::SolvMap\<close> and \<open>solv::SolvMapIterator\<close>
  (libdnf/rpm/solv/solv_map.hpp, map_iterator.hpp): a set of package ids as a byte array. The
  array is libsolv's \<open>Map\<close>, a list of bytes; libsolv's own functions on it are the record
  \<open>libsolv_map\<close>, an argument of the operations that call them. What the sources do to the
  bytes themselves (the range check, the bit count, the search for the next bit) is
  translated.
\<close>

section \<open>Bits of a byte array\<close>

type_synonym bytes = "8 word list"

definition bit_at :: "bytes \<Rightarrow> nat \<Rightarrow> bool" where
  "bit_at bs i \<longleftrightarrow> i < 8 * length bs \<and> bit (bs ! (i div 8)) (i mod 8)"

definition bits_from :: "bytes \<Rightarrow> nat \<Rightarrow> nat list" where
  "bits_from bs i = filter (bit_at bs) [i..<8 * length bs]"

definition bit_set :: "bytes \<Rightarrow> nat set" where
  "bit_set bs = {i. bit_at bs i}"

lemma bits_from_set: "set (bits_from bs i) = {j \<in> bit_set bs. i \<le> j}"
  by (auto simp: bits_from_def bit_set_def bit_at_def)

lemma bits_from_sorted: "sorted (bits_from bs i)" "distinct (bits_from bs i)"
  by (simp_all add: bits_from_def sorted_wrt_filter)

lemma bits_from_0: "bits_from bs 0 = sorted_list_of_set (bit_set bs)"
proof -
  have "set (bits_from bs 0) = bit_set bs" by (auto simp: bits_from_set)
  then show ?thesis using bits_from_sorted [of bs 0] sorted_list_of_set.idem_if_sorted_distinct by metis
qed

lemma bits_from_skip: "\<not> bit_at bs i \<Longrightarrow> bits_from bs i = bits_from bs (Suc i)"
  by (cases "i < 8 * length bs") (simp_all add: bits_from_def upt_conv_Cons bit_at_def)

lemma bits_from_hit: "bit_at bs i \<Longrightarrow> bits_from bs i = i # bits_from bs (Suc i)"
  by (simp add: bits_from_def upt_conv_Cons bit_at_def)

lemma bits_from_skip_to:
  assumes "i \<le> k" "\<And>j. i \<le> j \<Longrightarrow> j < k \<Longrightarrow> \<not> bit_at bs j"
  shows "bits_from bs i = bits_from bs k"
  using assms
proof (induction "k - i" arbitrary: i)
  case (Suc n)
  then have "bits_from bs (Suc i) = bits_from bs k" by (intro Suc.hyps(1)) auto
  then show ?case using Suc.prems Suc.hyps(2) bits_from_skip [of bs i] by simp
qed simp

section \<open>libsolv's Map\<close>

record libsolv_map =
  lm_init :: "int \<Rightarrow> bytes"
  lm_set :: "bytes \<Rightarrow> nat \<Rightarrow> bytes"
  lm_clr :: "bytes \<Rightarrow> nat \<Rightarrow> bytes"
  lm_tst :: "bytes \<Rightarrow> nat \<Rightarrow> bool"
  lm_or :: "bytes \<Rightarrow> bytes \<Rightarrow> bytes"
  lm_subtract :: "bytes \<Rightarrow> bytes \<Rightarrow> bytes"
  lm_and :: "bytes \<Rightarrow> bytes \<Rightarrow> bytes"
  lm_empty :: "bytes \<Rightarrow> bytes"

section \<open>SolvMap\<close>

datatype map_error = OutOfBitmapRange

definition b2_row :: "nat \<Rightarrow> nat list" where
  "b2_row n = [n, n + 1, n + 1, n + 2]"

definition b4_row :: "nat \<Rightarrow> nat list" where
  "b4_row n = b2_row n @ b2_row (n + 1) @ b2_row (n + 1) @ b2_row (n + 2)"

definition b6_row :: "nat \<Rightarrow> nat list" where
  "b6_row n = b4_row n @ b4_row (n + 1) @ b4_row (n + 1) @ b4_row (n + 2)"

definition bit_count_lookup :: "nat list" where
  "bit_count_lookup = b6_row 0 @ b6_row 1 @ b6_row 1 @ b6_row 2"

definition map_new :: "libsolv_map \<Rightarrow> int \<Rightarrow> bytes" where
  "map_new lm n = lm_init lm n"

text \<open>\<open>map.size << 3\<close>: the number of bits.\<close>

definition check_id_in_bitmap_range :: "bytes \<Rightarrow> int \<Rightarrow> map_error + unit" where
  "check_id_in_bitmap_range bs i =
     (if i < 0 \<or> i \<ge> push_bit 3 (int (length bs)) then Inl OutOfBitmapRange else Inr ())"

definition map_add_unsafe :: "libsolv_map \<Rightarrow> int \<Rightarrow> bytes \<Rightarrow> bytes" where
  "map_add_unsafe lm i bs = lm_set lm bs (nat i)"

definition map_add :: "libsolv_map \<Rightarrow> int \<Rightarrow> bytes \<Rightarrow> map_error + bytes" where
  "map_add lm i bs = and_then (check_id_in_bitmap_range bs i) (\<lambda>_. Inr (map_add_unsafe lm i bs))"

definition map_contains_unsafe :: "libsolv_map \<Rightarrow> int \<Rightarrow> bytes \<Rightarrow> bool" where
  "map_contains_unsafe lm i bs = lm_tst lm bs (nat i)"

definition map_contains :: "libsolv_map \<Rightarrow> int \<Rightarrow> bytes \<Rightarrow> bool" where
  "map_contains lm i bs =
     (if i < 0 \<or> i \<ge> push_bit 3 (int (length bs)) then False else map_contains_unsafe lm i bs)"

definition map_remove_unsafe :: "libsolv_map \<Rightarrow> int \<Rightarrow> bytes \<Rightarrow> bytes" where
  "map_remove_unsafe lm i bs = lm_clr lm bs (nat i)"

definition map_remove :: "libsolv_map \<Rightarrow> int \<Rightarrow> bytes \<Rightarrow> map_error + bytes" where
  "map_remove lm i bs = and_then (check_id_in_bitmap_range bs i) (\<lambda>_. Inr (map_remove_unsafe lm i bs))"

primrec map_is_empty :: "bytes \<Rightarrow> bool" where
  "map_is_empty [] = True"
| "map_is_empty (b # bs) = (if b \<noteq> 0 then False else map_is_empty bs)"

primrec map_size_from :: "nat \<Rightarrow> bytes \<Rightarrow> nat" where
  "map_size_from result [] = result"
| "map_size_from result (b # bs) = map_size_from (result + bit_count_lookup ! unat b) bs"

definition map_size :: "bytes \<Rightarrow> nat" where
  "map_size bs = map_size_from 0 bs"

definition map_clear :: "libsolv_map \<Rightarrow> bytes \<Rightarrow> bytes" where
  "map_clear lm bs = lm_empty lm bs"

definition map_union :: "libsolv_map \<Rightarrow> bytes \<Rightarrow> bytes \<Rightarrow> bytes" where
  "map_union lm bs other = lm_or lm bs other"

definition map_minus :: "libsolv_map \<Rightarrow> bytes \<Rightarrow> bytes \<Rightarrow> bytes" where
  "map_minus lm bs other = lm_subtract lm bs other"

definition map_intersect :: "libsolv_map \<Rightarrow> bytes \<Rightarrow> bytes \<Rightarrow> bytes" where
  "map_intersect lm bs other = lm_and lm bs other"

section \<open>The iterator\<close>

text \<open>The position of the least significant bit that is set, counted from 1; 0 for none.\<close>

fun ffs :: "nat \<Rightarrow> nat" where
  "ffs n = (if n = 0 then 0 else if odd n then 1 else Suc (ffs (n div 2)))"

declare ffs.simps [simp del]

definition BEGIN :: int where "BEGIN = - 1"

definition END :: int where "END = - 2"

record map_iter =
  it_map :: bytes
  it_current :: nat
  it_value :: int

text \<open>The search in the bytes from the current one on.\<close>

function it_scan :: "map_iter \<Rightarrow> map_iter" where
  "it_scan it =
     (if it_current it < length (it_map it) then
        (if it_map it ! it_current it = 0 then it_scan (it\<lparr>it_current := it_current it + 1\<rparr>)
         else it\<lparr>it_value := int (8 * it_current it + ffs (unat (it_map it ! it_current it))) - 1\<rparr>)
      else it\<lparr>it_value := END\<rparr>)"
  by pat_completeness auto
termination by (relation "measure (\<lambda>it. length (it_map it) - it_current it)") auto

declare it_scan.simps [simp del]

definition it_next :: "map_iter \<Rightarrow> map_iter" where
  "it_next it =
     (if 0 \<le> it_value it then
        (let shift = nat (it_value it AND 7) + 1;
             byte = drop_bit shift (unat (it_map it ! it_current it));
             b = ffs (push_bit shift byte)
         in if b \<noteq> 0 then it\<lparr>it_value := int (8 * it_current it + b) - 1\<rparr>
            else it_scan (it\<lparr>it_current := it_current it + 1\<rparr>))
      else it_scan it)"

definition it_new :: "bytes \<Rightarrow> map_iter" where
  "it_new bs = it_next \<lparr>it_map = bs, it_current = 0, it_value = BEGIN\<rparr>"

definition it_begin :: "map_iter \<Rightarrow> map_iter" where
  "it_begin it = it_next (it\<lparr>it_value := BEGIN\<rparr>)"

definition it_end :: "map_iter \<Rightarrow> map_iter" where
  "it_end it = it\<lparr>it_value := END\<rparr>"

definition it_equal :: "map_iter \<Rightarrow> map_iter \<Rightarrow> bool" where
  "it_equal a b \<longleftrightarrow> it_value a = it_value b"

text \<open>A client's loop from an iterator to the end, with at most so many steps.\<close>

fun it_walk :: "nat \<Rightarrow> map_iter \<Rightarrow> int list option" where
  "it_walk fuel it =
     (if it_equal it (it_end it) then Some []
      else case fuel of 0 \<Rightarrow> None | Suc n \<Rightarrow> map_option ((#) (it_value it)) (it_walk n (it_next it)))"

declare it_walk.simps [simp del]

section \<open>Finding the first bit\<close>

lemma ffs_0 [simp]: "ffs 0 = 0"
  by (simp add: ffs.simps [of 0])

lemma ffs_first: "n \<noteq> 0 \<Longrightarrow> 0 < ffs n \<and> bit n (ffs n - 1) \<and> (\<forall>j < ffs n - 1. \<not> bit n j)"
proof (induction n rule: ffs.induct)
  case (1 n)
  show ?case
  proof (cases "odd n")
    case True
    then show ?thesis using "1.prems" by (simp add: ffs.simps [of n] bit_0)
  next
    case False
    then have h: "n div 2 \<noteq> 0" using "1.prems" by auto
    note IH = "1.IH" [OF "1.prems" False h]
    obtain k where k: "ffs (n div 2) = Suc k" using IH by (cases "ffs (n div 2)") auto
    have "ffs n = Suc (Suc k)" using "1.prems" False k by (simp add: ffs.simps [of n])
    moreover have "bit n (Suc k)" using IH k by (simp add: bit_Suc)
    moreover have "\<not> bit n j" if "j < Suc k" for j
      using that IH k False by (cases j) (simp_all add: bit_Suc bit_0)
    ultimately show ?thesis by simp
  qed
qed

lemma bit_at_byte: "c < length bs \<Longrightarrow> k < 8 \<Longrightarrow> bit_at bs (8 * c + k) \<longleftrightarrow> bit (bs ! c) k"
  by (simp add: bit_at_def)

lemma byte_bit_bound: "bit (b :: 8 word) k \<Longrightarrow> k < 8"
  using bit_imp_le_length [of b k] by simp

lemma unat_bit: "bit (unat (b :: 8 word)) k \<longleftrightarrow> bit b k"
  by (simp add: bit_unsigned_iff byte_bit_bound)

text \<open>The bits of one byte from a position on, and what \<open>ffs\<close> of the shifted byte says.\<close>

lemma byte_search:
  assumes c: "c < length bs" and s: "s \<le> 8"
  defines "x \<equiv> push_bit s (drop_bit s (unat (bs ! c)))"
  shows "x = 0 \<Longrightarrow> bits_from bs (8 * c + s) = bits_from bs (8 * Suc c)"
    and "x \<noteq> 0 \<Longrightarrow> bits_from bs (8 * c + s) = (8 * c + ffs x - 1) # bits_from bs (8 * c + ffs x) \<and>
      (8 * c + ffs x - 1) div 8 = c"
proof -
  have x: "bit x j \<longleftrightarrow> s \<le> j \<and> bit (bs ! c) j" for j
    by (auto simp: x_def bit_push_bit_iff bit_drop_bit_eq unat_bit)
  have at: "bit_at bs j \<longleftrightarrow> bit x (j - 8 * c)" if "8 * c + s \<le> j" "j < 8 * Suc c" for j
  proof -
    have "s \<le> j - 8 * c" "j - 8 * c < 8" using that by arith+
    then show ?thesis using that c bit_at_byte [of c bs "j - 8 * c"] by (simp add: x)
  qed
  show "bits_from bs (8 * c + s) = bits_from bs (8 * Suc c)" if "x = 0"
    using that s at by (intro bits_from_skip_to) auto
  assume "x \<noteq> 0"
  note f = ffs_first [OF this]
  then obtain k where k: "ffs x = Suc k" by (cases "ffs x") auto
  have f': "bit x k" "\<And>j. j < k \<Longrightarrow> \<not> bit x j" using f k by simp_all
  have sk: "s \<le> k" "k < 8" using f'(1) x [of k] byte_bit_bound by auto
  then have hit: "bit_at bs (8 * c + k)" using at [of "8 * c + k"] f' by simp
  have "bits_from bs (8 * c + s) = bits_from bs (8 * c + k)"
    using sk f' at by (intro bits_from_skip_to) auto
  also have "\<dots> = (8 * c + k) # bits_from bs (Suc (8 * c + k))" by (rule bits_from_hit [OF hit])
  finally show "bits_from bs (8 * c + s) = (8 * c + ffs x - 1) # bits_from bs (8 * c + ffs x) \<and>
      (8 * c + ffs x - 1) div 8 = c"
    using k sk by simp
qed

section \<open>Where the iterator stands\<close>

text \<open>The iterator is at the end, or at a bit of its map, its byte being the current one.\<close>

definition it_at :: "map_iter \<Rightarrow> nat list \<Rightarrow> bool" where
  "it_at it rest \<longleftrightarrow>
     (case rest of
        [] \<Rightarrow> it_value it = END
      | i # _ \<Rightarrow> it_value it = int i \<and> it_current it = i div 8 \<and> bit_at (it_map it) i)"

lemma bits_from_end: "8 * length bs \<le> i \<Longrightarrow> bits_from bs i = []"
  by (simp add: bits_from_def)

lemma bits_from_ConsD: "bits_from bs i = j # js \<Longrightarrow> bit_at bs j"
  using bits_from_set [of bs i] by (auto simp: bit_set_def)

lemma it_scan_at:
  "it_map (it_scan it) = it_map it \<and> it_at (it_scan it) (bits_from (it_map it) (8 * it_current it))"
proof (induction it rule: it_scan.induct)
  case (1 it)
  let ?c = "it_current it" and ?bs = "it_map it"
  show ?case
  proof (cases "?c < length ?bs")
    case c: True
    note search = byte_search [OF c, of 0]
    show ?thesis
    proof (cases "?bs ! ?c = 0")
      case True
      then have "bits_from ?bs (8 * ?c) = bits_from ?bs (8 * Suc ?c)" using search(1) by simp
      moreover have "it_scan it = it_scan (it\<lparr>it_current := ?c + 1\<rparr>)"
        using c True by (simp add: it_scan.simps [of it])
      ultimately show ?thesis using "1.IH" [OF c True] by simp
    next
      case False
      then have x: "unat (?bs ! ?c) \<noteq> 0" by (simp add: unat_eq_0)
      obtain k where k: "ffs (unat (?bs ! ?c)) = Suc k" using ffs_first [OF x] by (cases "ffs (unat (?bs ! ?c))") auto
      have "it_scan it = it\<lparr>it_value := int (8 * ?c + k)\<rparr>"
        using c False k by (simp add: it_scan.simps [of it])
      moreover have "bits_from ?bs (8 * ?c) = (8 * ?c + k) # bits_from ?bs (8 * ?c + Suc k)" "(8 * ?c + k) div 8 = ?c"
        using search(2) x k by simp_all
      moreover have "bit_at ?bs (8 * ?c + k)" using bits_from_ConsD calculation(2) .
      ultimately show ?thesis by (simp add: it_at_def)
    qed
  next
    case False
    then show ?thesis by (simp add: it_scan.simps [of it] it_at_def bits_from_end)
  qed
qed

lemma it_next_at:
  assumes "it_at it (i # rest)"
  shows "it_map (it_next it) = it_map it \<and> it_at (it_next it) (bits_from (it_map it) (Suc i))"
proof -
  let ?c = "i div 8" and ?bs = "it_map it" and ?s = "i mod 8 + 1"
  have it: "it_value it = int i" "it_current it = ?c" "bit_at ?bs i" using assms by (simp_all add: it_at_def)
  have c: "?c < length ?bs" using it(3) by (auto simp: bit_at_def)
  have "int i AND 7 = take_bit 3 (int i)" by (simp add: take_bit_eq_mask mask_eq_exp_minus_1)
  then have s: "nat (it_value it AND 7) + 1 = ?s" by (simp add: it(1) take_bit_eq_mod nat_mod_distrib)
  have start: "8 * ?c + ?s = Suc i" by simp
  define x where "x = push_bit ?s (drop_bit ?s (unat (?bs ! ?c)))"
  have next': "it_next it = (if ffs x \<noteq> 0 then it\<lparr>it_value := int (8 * ?c + ffs x) - 1\<rparr>
      else it_scan (it\<lparr>it_current := ?c + 1\<rparr>))"
    unfolding it_next_def Let_def s using it(1,2) by (simp add: x_def)
  have "?s \<le> 8" using mod_less_divisor [of 8 i] by simp
  note search = byte_search [OF c this, folded x_def, unfolded start]
  show ?thesis
  proof (cases "x = 0")
    case True
    then have "it_next it = it_scan (it\<lparr>it_current := ?c + 1\<rparr>)" using next' by simp
    then show ?thesis using it_scan_at [of "it\<lparr>it_current := ?c + 1\<rparr>"] search(1) [OF True] by simp
  next
    case False
    note f = ffs_first [OF False] and srch = search(2) [OF False]
    have "it_next it = it\<lparr>it_value := int (8 * ?c + ffs x - 1)\<rparr>" using next' f by (simp add: of_nat_diff)
    then show ?thesis using srch it(2) bits_from_ConsD [of ?bs "Suc i"] by (simp add: it_at_def)
  qed
qed

lemma it_new_at: "it_map (it_new bs) = bs \<and> it_at (it_new bs) (bits_from bs 0)"
  using it_scan_at [of "\<lparr>it_map = bs, it_current = 0, it_value = BEGIN\<rparr>"]
  by (simp add: it_new_def it_next_def BEGIN_def)

lemma bits_from_tail: "bits_from bs i = j # js \<Longrightarrow> js = bits_from bs (Suc j)"
proof -
  assume a: "bits_from bs i = j # js"
  have "j \<in> set (bits_from bs i)" using a by simp
  then have ij: "i \<le> j" "bit_at bs j" by (auto simp: bits_from_set bit_set_def)
  have "\<not> bit_at bs k" if k: "i \<le> k" "k < j" for k
  proof
    assume "bit_at bs k"
    then have "k \<in> set (j # js)" using k(1) unfolding a [symmetric] by (simp add: bits_from_set bit_set_def)
    then have "k \<in> set js" using k(2) by simp
    moreover have "sorted (j # js)" using bits_from_sorted(1) [of bs i] a by simp
    ultimately show False using k(2) by fastforce
  qed
  then have "bits_from bs i = j # bits_from bs (Suc j)"
    using bits_from_skip_to [of i j bs] ij bits_from_hit by metis
  with a show ?thesis by simp
qed

lemma it_walk_bits:
  "it_at it rest \<Longrightarrow> rest = bits_from (it_map it) i \<Longrightarrow> length rest \<le> fuel \<Longrightarrow>
     it_walk fuel it = Some (map int rest)"
proof (induction rest arbitrary: it i fuel)
  case Nil
  then show ?case by (simp add: it_walk.simps [of fuel] it_equal_def it_end_def it_at_def)
next
  case (Cons j js)
  have js: "js = bits_from (it_map it) (Suc j)" using bits_from_tail Cons.prems(2) by metis
  obtain n where n: "fuel = Suc n" using Cons.prems(3) by (cases fuel) auto
  note nx = it_next_at [OF Cons.prems(1)]
  have "it_walk n (it_next it) = Some (map int js)"
    using Cons.IH [of "it_next it" "Suc j" n] nx js Cons.prems(3) n by simp
  moreover have "it_value it = int j" using Cons.prems(1) by (simp add: it_at_def)
  ultimately show ?case by (simp add: n it_walk.simps [of "Suc n"] it_equal_def it_end_def END_def)
qed

section \<open>Counting\<close>

fun popc :: "nat \<Rightarrow> nat" where
  "popc n = (if n = 0 then 0 else n mod 2 + popc (n div 2))"

declare popc.simps [simp del]

lemma popc_0 [simp]: "popc 0 = 0"
  by (simp add: popc.simps [of 0])

lemma popc_bit: "popc n = n mod 2 + popc (n div 2)"
  by (cases "n = 0") (simp_all add: popc.simps [of n])

lemma popc_double [simp]: "popc (2 * n) = popc n" "popc (Suc (2 * n)) = Suc (popc n)"
  using popc_bit [of "2 * n"] popc_bit [of "Suc (2 * n)"] by simp_all

lemma popc_quad:
  "popc (4 * q) = popc q" "popc (4 * q + 1) = popc q + 1" "popc (4 * q + 2) = popc q + 1" "popc (4 * q + 3) = popc q + 2"
proof -
  have "4 * q = 2 * (2 * q)" "4 * q + 1 = Suc (2 * (2 * q))" "4 * q + 2 = 2 * Suc (2 * q)" "4 * q + 3 = Suc (2 * Suc (2 * q))"
    by simp_all
  then show "popc (4 * q) = popc q" "popc (4 * q + 1) = popc q + 1" "popc (4 * q + 2) = popc q + 1"
    "popc (4 * q + 3) = popc q + 2"
    by (simp_all only: popc_double)
qed

lemma upt_rows: "[4 * m * q..<4 * m * q + 4 * m] =
    [m * (4 * q)..<m * (4 * q) + m] @ [m * (4 * q + 1)..<m * (4 * q + 1) + m] @
    [m * (4 * q + 2)..<m * (4 * q + 2) + m] @ [m * (4 * q + 3)..<m * (4 * q + 3) + m]"
proof -
  define a where "a = 4 * m * q"
  have "[a..<a + m + m + m + m] = [a..<a + m] @ [a + m..<a + m + m] @ [a + m + m..<a + m + m + m] @ [a + m + m + m..<a + m + m + m + m]"
    using upt_add_eq_append [of a "a + m + m + m" m] upt_add_eq_append [of a "a + m + m" m]
      upt_add_eq_append [of a "a + m" m] by simp
  moreover have "a + m + m + m + m = 4 * m * q + 4 * m" "m * (4 * q) = a" "m * (4 * q + 1) = a + m"
    "m * (4 * q + 2) = a + m + m" "m * (4 * q + 3) = a + m + m + m"
    by (simp_all add: a_def algebra_simps)
  ultimately show ?thesis by (simp only: a_def)
qed

lemma b2_row_table: "b2_row (popc q) = map popc [4 * q..<4 * q + 4]"
  using popc_quad [of q] by (simp add: b2_row_def upt_conv_Cons eval_nat_numeral)

lemma b4_row_table: "b4_row (popc q) = map popc [16 * q..<16 * q + 16]"
  using upt_rows [of 4 q] popc_quad [of q] b2_row_table [of "4 * q"] b2_row_table [of "4 * q + 1"]
    b2_row_table [of "4 * q + 2"] b2_row_table [of "4 * q + 3"] by (simp add: b4_row_def del: upt_rec_numeral)

lemma b6_row_table: "b6_row (popc q) = map popc [64 * q..<64 * q + 64]"
  using upt_rows [of 16 q] popc_quad [of q] b4_row_table [of "4 * q"] b4_row_table [of "4 * q + 1"]
    b4_row_table [of "4 * q + 2"] b4_row_table [of "4 * q + 3"] by (simp add: b6_row_def del: upt_rec_numeral)

lemma bit_count_lookup_table: "bit_count_lookup = map popc [0..<256]"
  using upt_rows [of 64 0] popc_quad [of 0] b6_row_table [of 0] b6_row_table [of 1]
    b6_row_table [of 2] b6_row_table [of 3] by (simp add: bit_count_lookup_def numeral_2_eq_2 del: upt_rec_numeral)

lemma popc_bits: "n < 2 ^ k \<Longrightarrow> popc n = length (filter (bit n) [0..<k])"
proof (induction k arbitrary: n)
  case (Suc k)
  have "n div 2 < 2 ^ k" using Suc.prems by auto
  note IH = Suc.IH [OF this]
  have "[0..<Suc k] = 0 # map Suc [0..<k]" using upt_conv_Cons [of 0 "Suc k"] map_Suc_upt [of 0 k] by simp
  then have "length (filter (bit n) [0..<Suc k]) = n mod 2 + length (filter (bit (n div 2)) [0..<k])"
    by (simp add: filter_map o_def bit_Suc bit_0 odd_iff_mod_2_eq_one)
  then show ?case using IH popc_bit [of n] by simp
qed simp

lemma byte_count: "bit_count_lookup ! unat b = length (filter (bit b) [0..<8])" for b :: "8 word"
proof -
  have "unat b < 256" using unsigned_less [of b] by simp
  then show ?thesis using popc_bits [of "unat b" 8] unat_bit [of b, abs_def]
    by (simp add: bit_count_lookup_table)
qed

lemma bits_from_Cons_0: "length (bits_from (b # bs) 0) = length (filter (bit b) [0..<8]) + length (bits_from bs 0)"
proof -
  have "[0..<8 * length (b # bs)] = [0..<8] @ map (\<lambda>i. i + 8) [0..<8 * length bs]"
    using upt_add_eq_append [of 0 8 "8 * length bs"] map_add_upt [of 8 "8 * length bs"]
    by (simp add: add.commute del: upt_rec_numeral)
  moreover have "filter (bit_at (b # bs)) [0..<8] = filter (bit b) [0..<8]"
    by (rule filter_cong) (auto simp: bit_at_def)
  moreover have "bit_at (b # bs) \<circ> (\<lambda>i. i + 8) = bit_at bs"
  proof
    fix i
    have "(i + 8) div 8 = Suc (i div 8)" by simp
    then show "(bit_at (b # bs) \<circ> (\<lambda>i. i + 8)) i = bit_at bs i" by (simp add: bit_at_def)
  qed
  ultimately show ?thesis unfolding bits_from_def by (simp only: filter_append filter_map length_append length_map)
qed

lemma map_size_bits: "map_size bs = length (bits_from bs 0)"
proof -
  have "map_size_from n bs = n + length (bits_from bs 0)" for n
  proof (induction bs arbitrary: n)
    case Nil
    then show ?case by (simp add: bits_from_def)
  next
    case (Cons b bs)
    then show ?case by (simp add: byte_count bits_from_Cons_0)
  qed
  then show ?thesis by (simp add: map_size_def)
qed

lemma map_is_empty_bits: "map_is_empty bs \<longleftrightarrow> map_size bs = 0"
proof (induction bs)
  case (Cons b bs)
  have "filter (bit b) [0..<8] = [] \<longleftrightarrow> b = 0"
    by (auto simp: filter_empty_conv intro!: bit_word_eqI)
  then show ?case using Cons by (simp add: map_size_bits bits_from_Cons_0)
qed (simp add: map_size_def)

end
