(* ===== verification/SolvMapFacts.thy ===== *)
theory SolvMapFacts
  imports SolvMap
begin

unbundle bit_operations_syntax

text \<open>
  What a \<open>SolvMap\<close> promises: its bytes are a set of ids, every operation is the operation on
  sets (with the range check as an error), \<open>size\<close> counts the set, and the iterator visits it in
  ascending order. What libsolv's functions do to the bytes is the hypothesis
  \<open>libsolv_map_ok\<close>; \<open>byte_map\<close> shows that it can hold.
\<close>

section \<open>libsolv's contract\<close>

definition libsolv_map_ok :: "libsolv_map \<Rightarrow> bool" where
  "libsolv_map_ok lm \<longleftrightarrow>
     (\<forall>n\<ge>0. length (lm_init lm n) = nat ((n + 7) div 8) \<and> bit_set (lm_init lm n) = {}) \<and>
     (\<forall>bs i. i < 8 * length bs \<longrightarrow>
        (length (lm_set lm bs i) = length bs \<and> bit_set (lm_set lm bs i) = insert i (bit_set bs)) \<and>
        (length (lm_clr lm bs i) = length bs \<and> bit_set (lm_clr lm bs i) = bit_set bs - {i}) \<and>
        lm_tst lm bs i = (i \<in> bit_set bs)) \<and>
     (\<forall>a b. length a = length b \<longrightarrow>
        (length (lm_or lm a b) = length a \<and> bit_set (lm_or lm a b) = bit_set a \<union> bit_set b) \<and>
        (length (lm_subtract lm a b) = length a \<and> bit_set (lm_subtract lm a b) = bit_set a - bit_set b) \<and>
        (length (lm_and lm a b) = length a \<and> bit_set (lm_and lm a b) = bit_set a \<inter> bit_set b)) \<and>
     (\<forall>bs. length (lm_empty lm bs) = length bs \<and> bit_set (lm_empty lm bs) = {})"

lemma lm_contract:
  assumes "libsolv_map_ok lm"
  shows lm_init_ok: "0 \<le> n \<Longrightarrow> length (lm_init lm n) = nat ((n + 7) div 8)" "0 \<le> n \<Longrightarrow> bit_set (lm_init lm n) = {}"
    and lm_set_ok: "i < 8 * length bs \<Longrightarrow> length (lm_set lm bs i) = length bs"
      "i < 8 * length bs \<Longrightarrow> bit_set (lm_set lm bs i) = insert i (bit_set bs)"
    and lm_clr_ok: "i < 8 * length bs \<Longrightarrow> length (lm_clr lm bs i) = length bs"
      "i < 8 * length bs \<Longrightarrow> bit_set (lm_clr lm bs i) = bit_set bs - {i}"
    and lm_tst_ok: "i < 8 * length bs \<Longrightarrow> lm_tst lm bs i = (i \<in> bit_set bs)"
    and lm_or_ok: "length a = length b \<Longrightarrow> length (lm_or lm a b) = length b"
      "length a = length b \<Longrightarrow> bit_set (lm_or lm a b) = bit_set a \<union> bit_set b"
    and lm_subtract_ok: "length a = length b \<Longrightarrow> length (lm_subtract lm a b) = length b"
      "length a = length b \<Longrightarrow> bit_set (lm_subtract lm a b) = bit_set a - bit_set b"
    and lm_and_ok: "length a = length b \<Longrightarrow> length (lm_and lm a b) = length b"
      "length a = length b \<Longrightarrow> bit_set (lm_and lm a b) = bit_set a \<inter> bit_set b"
    and lm_empty_ok: "length (lm_empty lm bs) = length bs" "bit_set (lm_empty lm bs) = {}"
  using assms by (simp_all add: libsolv_map_ok_def)

lemmas lm_laws = lm_init_ok lm_set_ok lm_clr_ok lm_tst_ok lm_or_ok lm_subtract_ok lm_and_ok lm_empty_ok

text \<open>One implementation of the contract.\<close>

definition byte_map :: libsolv_map where
  "byte_map =
     \<lparr>lm_init = (\<lambda>n. replicate (nat ((n + 7) div 8)) 0),
      lm_set = (\<lambda>bs i. bs[i div 8 := Bit_Operations.set_bit (i mod 8) (bs ! (i div 8))]),
      lm_clr = (\<lambda>bs i. bs[i div 8 := unset_bit (i mod 8) (bs ! (i div 8))]),
      lm_tst = (\<lambda>bs i. bit (bs ! (i div 8)) (i mod 8)),
      lm_or = map2 (\<lambda>x y. x OR y),
      lm_subtract = map2 (\<lambda>x y. x AND NOT y),
      lm_and = map2 (\<lambda>x y. x AND y),
      lm_empty = (\<lambda>bs. replicate (length bs) 0)\<rparr>"

lemma div_mod_eq: "(j :: nat) div 8 = i div 8 \<and> j mod 8 = i mod 8 \<longleftrightarrow> j = i"
  by (metis div_mult_mod_eq)

lemma bit_at_update:
  assumes "i < 8 * length bs"
  shows "bit_at (bs[i div 8 := v]) j \<longleftrightarrow>
    (if j div 8 = i div 8 then bit v (j mod 8) else bit_at bs j)"
proof -
  have "i div 8 < length bs" using assms by simp
  moreover have "j div 8 = i div 8 \<Longrightarrow> j < 8 * length bs" using calculation by simp
  ultimately show ?thesis by (simp add: bit_at_def nth_list_update)
qed

lemma bit_at_map2: "length a = length b \<Longrightarrow> bit_at (map2 f a b) i \<longleftrightarrow>
    i < 8 * length b \<and> bit (f (a ! (i div 8)) (b ! (i div 8))) (i mod 8)"
  by (auto simp: bit_at_def)

lemma byte_map_ok: "libsolv_map_ok byte_map"
proof -
  have byte: "j mod 8 < 8" for j :: nat by simp
  have set: "bit_set (lm_set byte_map bs i) = insert i (bit_set bs)" if i: "i < 8 * length bs" for bs i
  proof -
    have "bit_at (lm_set byte_map bs i) j \<longleftrightarrow> j = i \<or> bit_at bs j" for j
    proof (cases "j div 8 = i div 8")
      case True
      then have "j < 8 * length bs" using i by (metis div_less_iff_less_mult mult.commute zero_less_numeral)
      moreover have "bit_at (lm_set byte_map bs i) j \<longleftrightarrow> j mod 8 = i mod 8 \<or> bit (bs ! (i div 8)) (j mod 8)"
        using bit_at_update [OF i, of "Bit_Operations.set_bit (i mod 8) (bs ! (i div 8))" j] True byte [of j]
        by (simp add: byte_map_def bit_set_bit_iff) metis
      ultimately show ?thesis using div_mod_eq [of j i] True by (auto simp: bit_at_def)
    next
      case False
      then show ?thesis using bit_at_update [OF i, of _ j] by (auto simp: byte_map_def)
    qed
    then show ?thesis by (auto simp: bit_set_def)
  qed
  have clr: "bit_set (lm_clr byte_map bs i) = bit_set bs - {i}" if i: "i < 8 * length bs" for bs i
  proof -
    have "bit_at (lm_clr byte_map bs i) j \<longleftrightarrow> bit_at bs j \<and> j \<noteq> i" for j
    proof (cases "j div 8 = i div 8")
      case True
      then have "j < 8 * length bs" using i by (metis div_less_iff_less_mult mult.commute zero_less_numeral)
      moreover have "bit_at (lm_clr byte_map bs i) j \<longleftrightarrow> bit (bs ! (i div 8)) (j mod 8) \<and> j mod 8 \<noteq> i mod 8"
        using bit_at_update [OF i, of "unset_bit (i mod 8) (bs ! (i div 8))" j] True
        by (simp add: byte_map_def bit_unset_bit_iff) metis
      ultimately show ?thesis using div_mod_eq [of j i] True by (auto simp: bit_at_def)
    next
      case False
      then show ?thesis using bit_at_update [OF i, of _ j] by (auto simp: byte_map_def)
    qed
    then show ?thesis by (auto simp: bit_set_def)
  qed
  have or': "bit_set (lm_or byte_map a b) = bit_set a \<union> bit_set b"
    and sub: "bit_set (lm_subtract byte_map a b) = bit_set a - bit_set b"
    and and': "bit_set (lm_and byte_map a b) = bit_set a \<inter> bit_set b" if "length a = length b" for a b
    using that by (auto simp: byte_map_def bit_set_def bit_at_map2 bit_at_def bit_or_iff bit_and_iff bit_not_iff)
  have zero: "bit_set (replicate n 0) = {}" for n
    by (auto simp: bit_set_def bit_at_def)
  show ?thesis
    unfolding libsolv_map_ok_def
    using set clr or' sub and' zero by (simp add: byte_map_def bit_set_def bit_at_def)
qed

section \<open>A client's operations\<close>

datatype map_op =
    AddId int
  | RemoveId int
  | HasId int
  | ClearAll
  | UniteWith bytes
  | SubtractFrom bytes
  | IntersectWith bytes

text \<open>One operation: the map after it, and what the client sees. A throw leaves the map.\<close>

fun map_step :: "libsolv_map \<Rightarrow> map_op \<Rightarrow> bytes \<Rightarrow> bytes \<times> (map_error + bool)" where
  "map_step lm (AddId i) bs = (case map_add lm i bs of Inl e \<Rightarrow> (bs, Inl e) | Inr bs' \<Rightarrow> (bs', Inr True))"
| "map_step lm (RemoveId i) bs = (case map_remove lm i bs of Inl e \<Rightarrow> (bs, Inl e) | Inr bs' \<Rightarrow> (bs', Inr True))"
| "map_step lm (HasId i) bs = (bs, Inr (map_contains lm i bs))"
| "map_step lm ClearAll bs = (map_clear lm bs, Inr True)"
| "map_step lm (UniteWith other) bs = (map_union lm bs other, Inr True)"
| "map_step lm (SubtractFrom other) bs = (map_minus lm bs other, Inr True)"
| "map_step lm (IntersectWith other) bs = (map_intersect lm bs other, Inr True)"

primrec map_run :: "libsolv_map \<Rightarrow> map_op list \<Rightarrow> bytes \<Rightarrow> bytes \<times> (map_error + bool) list" where
  "map_run lm [] bs = (bs, [])"
| "map_run lm (op # ops) bs =
     (let (bs', r) = map_step lm op bs; (bs'', rs) = map_run lm ops bs' in (bs'', r # rs))"

text \<open>The same operations on a set of ids below a bound.\<close>

fun set_step :: "nat \<Rightarrow> map_op \<Rightarrow> nat set \<Rightarrow> nat set \<times> (map_error + bool)" where
  "set_step n (AddId i) S = (if 0 \<le> i \<and> i < int n then (insert (nat i) S, Inr True) else (S, Inl OutOfBitmapRange))"
| "set_step n (RemoveId i) S = (if 0 \<le> i \<and> i < int n then (S - {nat i}, Inr True) else (S, Inl OutOfBitmapRange))"
| "set_step n (HasId i) S = (S, Inr (0 \<le> i \<and> nat i \<in> S))"
| "set_step n ClearAll S = ({}, Inr True)"
| "set_step n (UniteWith other) S = (S \<union> bit_set other, Inr True)"
| "set_step n (SubtractFrom other) S = (S - bit_set other, Inr True)"
| "set_step n (IntersectWith other) S = (S \<inter> bit_set other, Inr True)"

primrec set_run :: "nat \<Rightarrow> map_op list \<Rightarrow> nat set \<Rightarrow> nat set \<times> (map_error + bool) list" where
  "set_run n [] S = (S, [])"
| "set_run n (op # ops) S =
     (let (S', r) = set_step n op S; (S'', rs) = set_run n ops S' in (S'', r # rs))"

text \<open>Maps are combined with maps of the same sack, that is of the same size.\<close>

fun op_fits :: "nat \<Rightarrow> map_op \<Rightarrow> bool" where
  "op_fits n (UniteWith other) = (length other = n)"
| "op_fits n (SubtractFrom other) = (length other = n)"
| "op_fits n (IntersectWith other) = (length other = n)"
| "op_fits n _ = True"

lemma bit_set_bound: "i \<in> bit_set bs \<Longrightarrow> i < 8 * length bs"
  by (simp add: bit_set_def bit_at_def)

lemma finite_bit_set [simp]: "finite (bit_set bs)"
  using bit_set_bound by (rule_tac finite_subset [of _ "{..<8 * length bs}"]) auto

lemma map_step_refines:
  assumes ok: "libsolv_map_ok lm" and fits: "op_fits (length bs) op" and st: "map_step lm op bs = (bs', r)"
  shows "set_step (8 * length bs) op (bit_set bs) = (bit_set bs', r) \<and> length bs' = length bs"
proof (cases op)
  case (HasId i)
  have "map_contains lm i bs \<longleftrightarrow> 0 \<le> i \<and> nat i \<in> bit_set bs"
    using bit_set_bound [of "nat i" bs] lm_tst_ok [OF ok, of "nat i" bs]
    by (auto simp: map_contains_def map_contains_unsafe_def push_bit_eq_mult)
  then show ?thesis using st HasId by auto
qed (use assms in \<open>auto simp: map_add_def map_remove_def check_id_in_bitmap_range_def map_add_unsafe_def
       map_remove_unsafe_def map_clear_def map_union_def map_minus_def map_intersect_def push_bit_eq_mult
       lm_laws split: if_splits\<close>)

lemma map_run_refines:
  assumes ok: "libsolv_map_ok lm"
  shows "\<forall>op \<in> set ops. op_fits (length bs) op \<Longrightarrow> map_run lm ops bs = (bs', rs) \<Longrightarrow>
    set_run (8 * length bs) ops (bit_set bs) = (bit_set bs', rs) \<and> length bs' = length bs"
proof (induction ops arbitrary: bs bs' rs)
  case (Cons op ops)
  obtain b r where b: "map_step lm op bs = (b, r)" by fastforce
  obtain b' rs' where b': "map_run lm ops b = (b', rs')" by fastforce
  note s = map_step_refines [OF ok _ b]
  show ?case using Cons.IH [OF _ b'] Cons.prems s b b' by auto
qed simp

section \<open>The properties\<close>

text \<open>C19. A \<open>SolvMap\<close> made for ids below \<open>n\<close>, with \<open>n\<close> not negative, behaves, under every sequence of \<open>add\<close>, \<open>remove\<close>,
  \<open>contains\<close>, \<open>clear\<close> and union, difference and intersection with maps of the same length, as a set of ids: it starts
  empty, holds exactly the ids the set operations leave, answers \<open>contains\<close> from the set, and throws for \<open>add\<close> and
  \<open>remove\<close> exactly when the id is negative or past the last byte, without a change. Maps of other lengths, copying,
  moving and assigning maps, to themselves too, are not among the operations.\<close>

theorem solv_map_refines_set:
  assumes "libsolv_map_ok lm" "0 \<le> n" "map_new lm n = bs" "\<forall>op \<in> set ops. op_fits (length bs) op"
    "map_run lm ops bs = (bs', rs)"
  shows "set_run (8 * nat ((n + 7) div 8)) ops {} = (bit_set bs', rs)"
  using map_run_refines [OF assms(1,4,5)] lm_init_ok [OF assms(1,2)] assms(3) by (simp add: map_new_def)

theorem solv_map_refines_set_witness:
  "set_run (8 * nat ((9 + 7) div 8)) [AddId 3, AddId 16, UniteWith [1, 0], RemoveId 3, HasId 0] {} =
     (bit_set [1, 0], [Inr True, Inl OutOfBitmapRange, Inr True, Inr True, Inr True])"
  by (rule solv_map_refines_set [OF byte_map_ok, of 9 "[0, 0]"])
     (simp_all add: byte_map_def map_new_def map_add_def map_remove_def map_contains_def check_id_in_bitmap_range_def
       map_add_unsafe_def map_remove_unsafe_def map_contains_unsafe_def map_union_def push_bit_eq_mult
       numeral_2_eq_2 set_bit_eq unset_bit_eq_and_not)

text \<open>C18. A client that walks a \<open>SolvMap\<close> from \<open>begin\<close> to \<open>end\<close> sees the ids of the set, each once and
  in ascending order, and is done after at most as many steps as the map has bits.\<close>

theorem solv_iteration_is_sorted_set:
  assumes "8 * length bs \<le> fuel"
  shows "it_walk fuel (it_new bs) = Some (map int (sorted_list_of_set (bit_set bs)))"
proof -
  have "length (bits_from bs 0) \<le> fuel"
    using assms length_filter_le [of "bit_at bs" "[0..<8 * length bs]"] by (simp add: bits_from_def)
  then show ?thesis using it_walk_bits [of "it_new bs" "bits_from bs 0" 0 fuel] it_new_at [of bs]
    by (simp add: bits_from_0)
qed

theorem solv_iteration_is_sorted_set_witness:
  "it_walk 24 (it_new [0x81, 0, 2]) = Some (map int (sorted_list_of_set (bit_set [0x81, 0, 2])))"
  by (rule solv_iteration_is_sorted_set) simp

text \<open>\<open>size\<close>, by the table of bit counts, is the number of ids in the map, and \<open>empty\<close> says
  whether there are none.\<close>

theorem solv_map_size_is_card:
  "map_size bs = card (bit_set bs) \<and> (map_is_empty bs \<longleftrightarrow> bit_set bs = {})"
proof -
  have "set (bits_from bs 0) = bit_set bs" by (auto simp: bits_from_set)
  then have "map_size bs = card (bit_set bs)"
    using distinct_card [OF bits_from_sorted(2), of bs 0] by (simp add: map_size_bits)
  then show ?thesis by (simp add: map_is_empty_bits)
qed

text \<open>\<open>SolvMapIterator::begin()\<close> does not return to the first id: it sets the value but not the
  byte, so that the walk starts at the first id of the byte the iterator has reached.\<close>

theorem iterator_begin_keeps_position:
  assumes "it_map it = bs" "8 * length bs \<le> fuel"
  shows "it_walk fuel (it_begin it) =
    Some (map int (filter (\<lambda>i. 8 * it_current it \<le> i) (sorted_list_of_set (bit_set bs))))"
proof -
  let ?c = "8 * it_current it"
  have from_c: "filter (\<lambda>i. ?c \<le> i) (bits_from bs 0) = bits_from bs ?c"
  proof (rule sorted_distinct_set_unique)
    show "set (filter (\<lambda>i. ?c \<le> i) (bits_from bs 0)) = set (bits_from bs ?c)" by (auto simp: bits_from_set)
  qed (simp_all add: bits_from_sorted sorted_wrt_filter)
  have b: "it_map (it_begin it) = bs" "it_at (it_begin it) (bits_from bs ?c)"
    using it_scan_at [of "it\<lparr>it_value := BEGIN\<rparr>"] assms(1) by (simp_all add: it_begin_def it_next_def BEGIN_def)
  have len: "length (bits_from bs ?c) \<le> fuel"
    using assms(2) length_filter_le [of "bit_at bs" "[?c..<8 * length bs]"] by (simp add: bits_from_def)
  have "it_walk fuel (it_begin it) = Some (map int (bits_from bs ?c))"
    by (rule it_walk_bits [OF b(2) _ len, of ?c]) (simp only: b(1))
  then show ?thesis by (simp only: from_c [symmetric] bits_from_0)
qed

theorem iterator_begin_keeps_position_witness:
  "it_walk 16 (it_begin (it_next (it_new [1, 2]))) =
     Some (map int (filter (\<lambda>i. 8 * 1 \<le> i) (sorted_list_of_set (bit_set [1, 2]))))"
proof -
  have b: "bits_from [1, 2] 0 = [0, 9]" "bits_from [1, 2] (Suc 0) = [9]"
    by (simp_all add: bits_from_def bit_at_def upt_conv_Cons)
  have "it_map (it_next (it_new [1, 2])) = [1, 2] \<and> it_at (it_next (it_new [1, 2])) [9]"
    using it_next_at [of "it_new [1, 2]" 0 "[9]"] it_new_at [of "[1, 2]"] by (simp add: b)
  then have "it_map (it_next (it_new [1, 2])) = [1, 2]" "it_current (it_next (it_new [1, 2])) = 1"
    by (simp_all add: it_at_def)
  then show ?thesis using iterator_begin_keeps_position [of "it_next (it_new [1, 2])" "[1, 2]" 16] by simp
qed

end
