(* ===== verification/Loggers.thy ===== *)
theory Loggers
  imports Prelude CppString
begin

text \<open>
  The loggers (include/libdnf/logger, libdnf/logger): \<open>Logger\<close> and its levels, \<open>NullLogger\<close>,
  \<open>StreamLogger\<close>, the rotating \<open>MemoryBufferLogger\<close> and the \<open>LogRouter\<close> that forwards to a list
  of loggers. The clock and the process id are arguments; the mutexes and the swallowed memory
  exhaustion are not modelled. A stream is the text written to it.
\<close>

section \<open>Levels and items\<close>

datatype log_level = CRITICAL | ERROR | WARNING | NOTICE | INFO | DEBUG | TRACE

fun level_to_cstr :: "log_level \<Rightarrow> string" where
  "level_to_cstr CRITICAL = ''CRITICAL''"
| "level_to_cstr ERROR = ''ERROR''"
| "level_to_cstr WARNING = ''WARNING''"
| "level_to_cstr NOTICE = ''NOTICE''"
| "level_to_cstr INFO = ''INFO''"
| "level_to_cstr DEBUG = ''DEBUG''"
| "level_to_cstr TRACE = ''TRACE''"

record log_item =
  li_time :: int
  li_pid :: int
  li_level :: log_level
  li_message :: string

section \<open>StreamLogger: a line per message\<close>

text \<open>A number in decimal, and padded with zeros.\<close>

definition decimal_int :: "int \<Rightarrow> string" where
  "decimal_int i = (if i < 0 then CHR ''-'' # nat_string (nat (- i)) else nat_string (nat i))"

definition padded :: "nat \<Rightarrow> int \<Rightarrow> string" where
  "padded w i = (let s = decimal_int i in replicate (w - length s) CHR ''0'' @ s)"

text \<open>\<open>gmtime_r\<close>: the civil date of a day counted from 1970-01-01, by eras of 400 years that
  start in March.\<close>

definition civil :: "int \<Rightarrow> int \<times> int \<times> int" where
  "civil days =
     (let z = days + 719468;
          era = z div 146097;
          doe = z mod 146097;
          yoe = (doe - doe div 1460 + doe div 36524 - doe div 146096) div 365;
          doy = doe - (365 * yoe + yoe div 4 - yoe div 100);
          mp = (5 * doy + 2) div 153;
          d = doy - (153 * mp + 2) div 5 + 1;
          m = (if mp < 10 then mp + 3 else mp - 9);
          y = yoe + era * 400 + (if m \<le> 2 then 1 else 0)
      in (y, m, d))"

text \<open>\<open>std::put_time(&now, "%FT%TZ [")\<close>\<close>

definition put_time :: "int \<Rightarrow> string" where
  "put_time t =
     (let (y, m, d) = civil (t div 86400); s = t mod 86400
      in padded 4 y @ ''-'' @ padded 2 m @ ''-'' @ padded 2 d @ ''T'' @
         padded 2 (s div 3600) @ '':'' @ padded 2 (s div 60 mod 60) @ '':'' @ padded 2 (s mod 60) @ ''Z ['')"

definition stream_line :: "log_item \<Rightarrow> string" where
  "stream_line it =
     put_time (li_time it) @ decimal_int (li_pid it) @ ''] '' @ level_to_cstr (li_level it) @ '' '' @
     li_message it @ [CHR 0x0A]"

definition stream_write :: "log_item \<Rightarrow> string \<Rightarrow> string" where
  "stream_write it out = out @ stream_line it"

section \<open>MemoryBufferLogger\<close>

record memory_logger =
  max_items :: nat
  first_item_idx :: nat
  kept :: "log_item list"

definition memory_new :: "nat \<Rightarrow> memory_logger" where
  "memory_new max_items_to_keep = \<lparr>max_items = max_items_to_keep, first_item_idx = 0, kept = []\<rparr>"

definition memory_write :: "log_item \<Rightarrow> memory_logger \<Rightarrow> memory_logger" where
  "memory_write it m =
     (if max_items m = 0 \<or> length (kept m) < max_items m then m\<lparr>kept := kept m @ [it]\<rparr>
      else
        (let m = m\<lparr>kept := (kept m)[first_item_idx m := it]\<rparr>;
             nxt = first_item_idx m + 1
         in m\<lparr>first_item_idx := (if nxt \<ge> max_items m then 0 else nxt)\<rparr>))"

definition memory_items_count :: "memory_logger \<Rightarrow> nat" where
  "memory_items_count m = length (kept m)"

datatype memory_error = OutOfRange

definition memory_item :: "memory_logger \<Rightarrow> nat \<Rightarrow> memory_error + log_item" where
  "memory_item m item_idx =
     (if item_idx \<ge> length (kept m) \<or> item_idx \<ge> max_items m then Inl OutOfRange
      else
        (let idx = item_idx + first_item_idx m;
             idx = (if idx \<ge> max_items m then idx - max_items m else idx)
         in Inr (kept m ! idx)))"

text \<open>The messages in the order \<open>write_to_logger\<close> hands them over.\<close>

definition memory_replay :: "memory_logger \<Rightarrow> log_item list" where
  "memory_replay m =
     map ((!) (kept m)) [first_item_idx m..<length (kept m)] @ map ((!) (kept m)) [0..<first_item_idx m]"

definition memory_clear :: "memory_logger \<Rightarrow> memory_logger" where
  "memory_clear m = m\<lparr>first_item_idx := 0, kept := []\<rparr>"

section \<open>Loggers and the router\<close>

datatype logger =
    NullLogger
  | StreamLogger string
  | MemoryBufferLogger memory_logger
  | LogRouter "logger list"

primrec logger_write :: "log_item \<Rightarrow> logger \<Rightarrow> logger" where
  "logger_write it NullLogger = NullLogger"
| "logger_write it (StreamLogger out) = StreamLogger (stream_write it out)"
| "logger_write it (MemoryBufferLogger m) = MemoryBufferLogger (memory_write it m)"
| "logger_write it (LogRouter loggers) = LogRouter (map (logger_write it) loggers)"

text \<open>\<open>Logger::log\<close>, \<open>NullLogger::log\<close> and \<open>LogRouter::log\<close>: the message with the time and the
  process id.\<close>

primrec logger_log :: "int \<Rightarrow> int \<Rightarrow> log_level \<Rightarrow> string \<Rightarrow> logger \<Rightarrow> logger" where
  "logger_log now pid lv msg NullLogger = NullLogger"
| "logger_log now pid lv msg (StreamLogger out) =
     logger_write \<lparr>li_time = now, li_pid = pid, li_level = lv, li_message = msg\<rparr> (StreamLogger out)"
| "logger_log now pid lv msg (MemoryBufferLogger m) =
     logger_write \<lparr>li_time = now, li_pid = pid, li_level = lv, li_message = msg\<rparr> (MemoryBufferLogger m)"
| "logger_log now pid lv msg (LogRouter loggers) =
     LogRouter (map (logger_write \<lparr>li_time = now, li_pid = pid, li_level = lv, li_message = msg\<rparr>) loggers)"

definition write_to_logger :: "memory_logger \<Rightarrow> logger \<Rightarrow> logger" where
  "write_to_logger m l = fold logger_write (memory_replay m) l"

definition add_logger :: "logger \<Rightarrow> logger list \<Rightarrow> logger list" where
  "add_logger l loggers = loggers @ [l]"

definition get_logger :: "nat \<Rightarrow> logger list \<Rightarrow> memory_error + logger" where
  "get_logger index loggers = (if index < length loggers then Inr (loggers ! index) else Inl OutOfRange)"

definition release_logger :: "nat \<Rightarrow> logger list \<Rightarrow> memory_error + logger \<times> logger list" where
  "release_logger index loggers =
     (if index < length loggers then Inr (loggers ! index, take index loggers @ drop (Suc index) loggers)
      else Inl OutOfRange)"

definition swap_logger :: "logger \<Rightarrow> nat \<Rightarrow> logger list \<Rightarrow> memory_error + logger \<times> logger list" where
  "swap_logger l index loggers =
     (if index < length loggers then Inr (loggers ! index, loggers[index := l]) else Inl OutOfRange)"

definition loggers_count :: "logger list \<Rightarrow> nat" where
  "loggers_count loggers = length loggers"

chapter \<open>Facts about loggers\<close>

text \<open>
  What the memory logger keeps: \<open>memory_replay\<close> is a rotation of the buffer, and a write appends to
  it and drops from the front what exceeds the limit.
\<close>

definition memory_ok :: "memory_logger \<Rightarrow> bool" where
  "memory_ok m \<longleftrightarrow>
     (if max_items m = 0 then first_item_idx m = 0
      else length (kept m) \<le> max_items m \<and>
           (if length (kept m) < max_items m then first_item_idx m = 0 else first_item_idx m < max_items m))"

text \<open>The last \<open>n\<close> of a list, all of it when there is no limit.\<close>

definition newest :: "nat \<Rightarrow> 'a list \<Rightarrow> 'a list" where
  "newest n xs = (if n = 0 then xs else drop (length xs - n) xs)"

lemma map_nth_range: "j \<le> length xs \<Longrightarrow> map ((!) xs) [i..<j] = take (j - i) (drop i xs)"
  by (rule nth_equalityI) auto

lemma memory_replay_rotated:
  "memory_ok m \<Longrightarrow> memory_replay m = drop (first_item_idx m) (kept m) @ take (first_item_idx m) (kept m)"
  by (cases "first_item_idx m \<le> length (kept m)")
     (auto simp: memory_replay_def map_nth_range memory_ok_def split: if_splits)

lemma memory_new_ok: "memory_ok (memory_new n)" "memory_replay (memory_new n) = []"
  by (simp_all add: memory_ok_def memory_new_def memory_replay_def)

lemma newest_append: "newest n (newest n xs @ ys) = newest n (xs @ ys)"
  by (cases "n \<le> length xs") (auto simp: newest_def add.commute)

lemma rotate_write:
  assumes "f < length xs"
  shows "drop 1 (drop f xs @ take f xs) @ [x] =
    drop (Suc f) (xs[f := x]) @ take (Suc f) (xs[f := x])"
  using assms by (simp add: take_Suc_conv_app_nth)

lemma memory_write_keeps:
  assumes ok: "memory_ok m"
  shows "memory_ok (memory_write it m) \<and> max_items (memory_write it m) = max_items m \<and>
    memory_replay (memory_write it m) = newest (max_items m) (memory_replay m @ [it])"
proof (cases "max_items m = 0 \<or> length (kept m) < max_items m")
  case True
  then have f: "first_item_idx m = 0" using ok by (auto simp: memory_ok_def)
  define m' where "m' = memory_write it m"
  have m': "m' = m\<lparr>kept := kept m @ [it]\<rparr>" using True by (simp add: m'_def memory_write_def)
  then have "memory_ok m'" using True f by (auto simp: memory_ok_def)
  moreover have "memory_replay m = kept m" "memory_replay m' = kept m @ [it]"
    using memory_replay_rotated [OF ok] memory_replay_rotated [OF calculation] f m' by simp_all
  ultimately show ?thesis using True m' by (auto simp: newest_def m'_def)
next
  case False
  then have n: "max_items m \<noteq> 0" "length (kept m) = max_items m" "first_item_idx m < max_items m"
    using ok by (auto simp: memory_ok_def split: if_splits)
  let ?f = "first_item_idx m" and ?xs = "(kept m)[first_item_idx m := it]"
  define m' where "m' = memory_write it m"
  have m': "m' = m\<lparr>kept := ?xs, first_item_idx := (if Suc ?f \<ge> max_items m then 0 else Suc ?f)\<rparr>"
    using False by (simp add: m'_def memory_write_def Let_def)
  have ok': "memory_ok m'" using n by (simp add: m' memory_ok_def)
  have "memory_replay m' = drop (Suc ?f) ?xs @ take (Suc ?f) ?xs"
    using memory_replay_rotated [OF ok'] n by (auto simp: m')
  also have "\<dots> = drop 1 (memory_replay m) @ [it]"
    using rotate_write [of ?f "kept m" it] n memory_replay_rotated [OF ok] by simp
  also have "\<dots> = newest (max_items m) (memory_replay m @ [it])"
    using n memory_replay_rotated [OF ok] by (simp add: newest_def)
  finally show ?thesis using ok' m' by (simp add: m'_def)
qed

lemma memory_writes_keep:
  "memory_ok m \<Longrightarrow> memory_ok (fold memory_write ms m) \<and> max_items (fold memory_write ms m) = max_items m \<and>
     memory_replay (fold memory_write ms m) = newest (max_items m) (memory_replay m @ ms)"
proof (induction ms arbitrary: m)
  case Nil
  have "length (memory_replay m) \<le> max_items m" if "max_items m \<noteq> 0"
    using Nil that memory_replay_rotated [OF Nil] by (auto simp: memory_ok_def split: if_splits)
  then show ?case using Nil by (auto simp: newest_def)
next
  case (Cons it ms)
  note w = memory_write_keeps [OF Cons.prems, of it]
  have "newest n (newest n (xs @ [it]) @ ms) = newest n (xs @ it # ms)" for n and xs :: "log_item list"
    using newest_append [of n "xs @ [it]" ms] by simp
  then show ?case using Cons.IH [of "memory_write it m"] w by simp
qed

lemma memory_item_nth:
  assumes "memory_ok m" "max_items m \<noteq> 0"
  shows "memory_item m i = (if i < length (memory_replay m) then Inr (memory_replay m ! i) else Inl OutOfRange)"
proof -
  have len: "length (memory_replay m) = length (kept m)"
    using memory_replay_rotated [OF assms(1)] assms by (auto simp: memory_ok_def)
  show ?thesis
    using assms memory_replay_rotated [OF assms(1)] len
    by (auto simp: memory_item_def memory_ok_def Let_def nth_append less_diff_conv add.commute split: if_splits)
qed

lemma stream_writes: "fold logger_write ms (StreamLogger out) = StreamLogger (out @ concat (map stream_line ms))"
  by (induction ms arbitrary: out) (simp_all add: stream_write_def)

lemma memory_logger_writes:
  "fold logger_write ms (MemoryBufferLogger m) = MemoryBufferLogger (fold memory_write ms m)"
  by (induction ms arbitrary: m) simp_all

lemma router_writes: "fold logger_write ms (LogRouter ls) = LogRouter (map (fold logger_write ms) ls)"
  by (induction ms arbitrary: ls) simp_all

section \<open>The properties\<close>

text \<open>The memory logger rotates: after any messages it hands over, in the order of arrival, the
  newest \<open>max_items\<close> of them (all, when \<open>max_items\<close> is 0), and for a limit that is not 0
  \<open>get_item(i)\<close> is the i-th of these and throws past them.\<close>

theorem memory_logger_keeps_newest:
  "memory_replay (fold memory_write ms (memory_new n)) = newest n ms \<and>
   (n \<noteq> 0 \<longrightarrow> memory_item (fold memory_write ms (memory_new n)) i =
      (if i < length (newest n ms) then Inr (newest n ms ! i) else Inl OutOfRange))"
  using memory_writes_keep [OF memory_new_ok(1), of ms n] memory_new_ok(2) [of n]
    memory_item_nth [of "fold memory_write ms (memory_new n)" i]
  by (simp add: memory_new_def)

theorem memory_logger_keeps_newest_witness:
  "memory_item (fold memory_write [\<lparr>li_time = 1, li_pid = 7, li_level = INFO, li_message = ''a''\<rparr>,
      \<lparr>li_time = 2, li_pid = 7, li_level = ERROR, li_message = ''b''\<rparr>] (memory_new 1)) 0 =
     Inr \<lparr>li_time = 2, li_pid = 7, li_level = ERROR, li_message = ''b''\<rparr>"
  using memory_logger_keeps_newest [of "[\<lparr>li_time = 1, li_pid = 7, li_level = INFO, li_message = ''a''\<rparr>,
      \<lparr>li_time = 2, li_pid = 7, li_level = ERROR, li_message = ''b''\<rparr>]" 1 0]
  by (simp add: newest_def)

text \<open>A memory logger without a limit cannot be read by index: \<open>get_item\<close> compares the index
  with \<open>max_items\<close>, which is 0 there, and throws for every index, whatever has been logged.\<close>

theorem unlimited_memory_logger_has_no_items:
  "memory_item (fold memory_write ms (memory_new 0)) i = Inl OutOfRange \<and>
   memory_items_count (fold memory_write ms (memory_new 0)) = length ms"
proof -
  define m where "m = fold memory_write ms (memory_new 0)"
  have m: "memory_ok m" "max_items m = 0" "memory_replay m = ms"
    using memory_writes_keep [OF memory_new_ok(1), of ms 0] memory_new_ok(2) [of 0]
    by (simp_all add: m_def memory_new_def newest_def)
  then have "kept m = ms" using memory_replay_rotated [OF m(1)] by (simp add: memory_ok_def)
  then show ?thesis using m unfolding m_def [symmetric] by (simp add: memory_item_def memory_items_count_def)
qed

text \<open>The hand-over at start-up loses nothing the memory logger kept: messages logged to a router
  that holds a memory logger, the memory logger swapped for a stream, the kept messages replayed
  to the router and further messages logged give a stream of the lines of the newest kept messages
  and the later ones, in order.\<close>

theorem router_handover:
  assumes "fold logger_write before (LogRouter [MemoryBufferLogger (memory_new n)]) = LogRouter loggers"
    "swap_logger (StreamLogger []) 0 loggers = Inr (MemoryBufferLogger m, loggers')"
  shows "fold logger_write after (write_to_logger m (LogRouter loggers')) =
    LogRouter [StreamLogger (concat (map stream_line (newest n before @ after)))]"
proof -
  have "loggers = [MemoryBufferLogger (fold memory_write before (memory_new n))]"
    using assms(1) by (simp add: router_writes memory_logger_writes)
  then have "m = fold memory_write before (memory_new n)" "loggers' = [StreamLogger []]"
    using assms(2) by (auto simp: swap_logger_def split: if_splits)
  then show ?thesis
    using memory_writes_keep [OF memory_new_ok(1), of before n] memory_new_ok(2) [of n]
    by (simp add: write_to_logger_def router_writes stream_writes memory_new_def)
qed

theorem router_handover_witness:
  "fold logger_write [\<lparr>li_time = 3, li_pid = 7, li_level = INFO, li_message = ''c''\<rparr>]
     (write_to_logger (memory_write \<lparr>li_time = 2, li_pid = 7, li_level = ERROR, li_message = ''b''\<rparr> (memory_new 1))
        (LogRouter [StreamLogger []])) =
   LogRouter [StreamLogger (concat (map stream_line (newest 1 [\<lparr>li_time = 2, li_pid = 7, li_level = ERROR,
     li_message = ''b''\<rparr>] @ [\<lparr>li_time = 3, li_pid = 7, li_level = INFO, li_message = ''c''\<rparr>])))]"
  by (rule router_handover [where loggers = "[MemoryBufferLogger (memory_write
       \<lparr>li_time = 2, li_pid = 7, li_level = ERROR, li_message = ''b''\<rparr> (memory_new 1))]"])
     (simp_all add: swap_logger_def)

end
