(* ===== verification/WeakPtr.thy ===== *)
theory WeakPtr
  imports Prelude
begin

text \<open>
  \<open>WeakPtr\<close> and \<open>WeakPtrGuard\<close> (include/libdnf/utils/weak_ptr.hpp). Guards and weak pointers live at
  addresses of an explicit store, because they point to each other: a guard holds the addresses
  of the pointers registered with it, a pointer the address of its guard. The template parameter
  \<open>ptr_owner\<close> is the argument \<open>own\<close>. A use of an object that is not alive is the error
  \<open>Undefined\<close>.
\<close>

section \<open>The store\<close>

record wptr =
  wp_ptr :: "nat option"
  wp_guard :: "nat option"

record 'a wp_store =
  guards :: "nat \<rightharpoonup> nat list"
  weaks :: "nat \<rightharpoonup> wptr"
  objs :: "nat \<rightharpoonup> 'a"
  fresh :: nat

datatype wp_error = InvalidPtr string | Undefined

definition wp_empty_store :: "'a wp_store" where
  "wp_empty_store = \<lparr>guards = Map.empty, weaks = Map.empty, objs = Map.empty, fresh = 0\<rparr>"

definition the_weak :: "nat \<Rightarrow> 'a wp_store \<Rightarrow> (wptr \<Rightarrow> wp_error + 'b) \<Rightarrow> wp_error + 'b" where
  "the_weak p s k = (case weaks s p of None \<Rightarrow> Inl Undefined | Some w \<Rightarrow> k w)"

definition put_weak :: "nat \<Rightarrow> wptr \<Rightarrow> 'a wp_store \<Rightarrow> 'a wp_store" where
  "put_weak p w s = s\<lparr>weaks := (weaks s)(p \<mapsto> w)\<rparr>"

text \<open>\<open>new TPtr(...)\<close>, \<open>delete ptr\<close>: the allocator gives an address that was never used.\<close>

definition new_obj :: "'a \<Rightarrow> 'a wp_store \<Rightarrow> nat \<times> 'a wp_store" where
  "new_obj v s = (fresh s, s\<lparr>objs := (objs s)(fresh s \<mapsto> v), fresh := fresh s + 1\<rparr>)"

definition delete_obj :: "nat option \<Rightarrow> 'a wp_store \<Rightarrow> wp_error + 'a wp_store" where
  "delete_obj ptr s =
     (case ptr of
        None \<Rightarrow> Inr s
      | Some a \<Rightarrow> (if objs s a = None then Inl Undefined else Inr (s\<lparr>objs := (objs s)(a := None)\<rparr>)))"

section \<open>WeakPtrGuard\<close>

definition register_ptr :: "nat \<Rightarrow> nat \<Rightarrow> 'a wp_store \<Rightarrow> wp_error + 'a wp_store" where
  "register_ptr g p s =
     (case guards s g of
        None \<Rightarrow> Inl Undefined
      | Some r \<Rightarrow> Inr (s\<lparr>guards := (guards s)(g \<mapsto> List.insert p r)\<rparr>))"

definition unregister_ptr :: "nat \<Rightarrow> nat \<Rightarrow> 'a wp_store \<Rightarrow> wp_error + 'a wp_store" where
  "unregister_ptr g p s =
     (case guards s g of
        None \<Rightarrow> Inl Undefined
      | Some r \<Rightarrow> Inr (s\<lparr>guards := (guards s)(g \<mapsto> removeAll p r)\<rparr>))"

text \<open>\<open>it->guard = ...\<close> for every registered pointer.\<close>

primrec redirect :: "nat option \<Rightarrow> nat list \<Rightarrow> 'a wp_store \<Rightarrow> wp_error + 'a wp_store" where
  "redirect g [] s = Inr s"
| "redirect g (it # r) s =
     the_weak it s (\<lambda>w. redirect g r (put_weak it (w\<lparr>wp_guard := g\<rparr>) s))"

definition guard_new :: "nat \<Rightarrow> 'a wp_store \<Rightarrow> wp_error + 'a wp_store" where
  "guard_new g s = Inr (s\<lparr>guards := (guards s)(g \<mapsto> [])\<rparr>)"

definition guard_move :: "nat \<Rightarrow> nat \<Rightarrow> 'a wp_store \<Rightarrow> wp_error + 'a wp_store" where
  "guard_move g src s =
     (case guards s src of
        None \<Rightarrow> Inl Undefined
      | Some r \<Rightarrow> redirect (Some g) r (s\<lparr>guards := (guards s)(src \<mapsto> [], g \<mapsto> r)\<rparr>))"

text \<open>The body of the move assignment: the pointers registered with the target before are not told. The body ends
  without a \<open>return\<close>, which is undefined behaviour of the caller whatever it did.\<close>

definition guard_take_over :: "nat \<Rightarrow> nat \<Rightarrow> 'a wp_store \<Rightarrow> wp_error + 'a wp_store" where
  "guard_take_over g src s =
     (case guards s src of
        None \<Rightarrow> Inl Undefined
      | Some r \<Rightarrow>
          (if guards s g = None \<or> g = src then Inl Undefined
           else redirect (Some g) r (s\<lparr>guards := (guards s)(src \<mapsto> [], g \<mapsto> r)\<rparr>)))"

definition guard_move_assign :: "nat \<Rightarrow> nat \<Rightarrow> 'a wp_store \<Rightarrow> wp_error + 'a wp_store" where
  "guard_move_assign g src s = and_then (guard_take_over g src s) (\<lambda>_. Inl Undefined)"

definition guard_clear :: "nat \<Rightarrow> 'a wp_store \<Rightarrow> wp_error + 'a wp_store" where
  "guard_clear g s =
     (case guards s g of
        None \<Rightarrow> Inl Undefined
      | Some r \<Rightarrow> and_then (redirect None r s) (\<lambda>s. Inr (s\<lparr>guards := (guards s)(g \<mapsto> [])\<rparr>)))"

definition guard_delete :: "nat \<Rightarrow> 'a wp_store \<Rightarrow> wp_error + 'a wp_store" where
  "guard_delete g s = and_then (guard_clear g s) (\<lambda>s. Inr (s\<lparr>guards := (guards s)(g := None)\<rparr>))"

definition guard_empty :: "nat list \<Rightarrow> bool" where
  "guard_empty r \<longleftrightarrow> r = []"

definition guard_size :: "nat list \<Rightarrow> nat" where
  "guard_size r = length r"

section \<open>WeakPtr\<close>

definition wp_valid :: "wptr \<Rightarrow> bool" where
  "wp_valid w \<longleftrightarrow> wp_guard w \<noteq> None"

definition has_same_guard :: "wptr \<Rightarrow> wptr \<Rightarrow> bool" where
  "has_same_guard w v \<longleftrightarrow> wp_guard w = wp_guard v"

definition register_valid :: "nat \<Rightarrow> 'a wp_store \<Rightarrow> wp_error + 'a wp_store" where
  "register_valid p s =
     the_weak p s (\<lambda>w. case wp_guard w of None \<Rightarrow> Inr s | Some g \<Rightarrow> register_ptr g p s)"

definition unregister_valid :: "nat \<Rightarrow> 'a wp_store \<Rightarrow> wp_error + 'a wp_store" where
  "unregister_valid p s =
     the_weak p s (\<lambda>w. case wp_guard w of None \<Rightarrow> Inr s | Some g \<Rightarrow> unregister_ptr g p s)"

text \<open>The pointer a copy gets: a copy of the resource for an owner, the same pointer otherwise.\<close>

definition copy_ptr :: "bool \<Rightarrow> nat option \<Rightarrow> 'a wp_store \<Rightarrow> wp_error + nat option \<times> 'a wp_store" where
  "copy_ptr own ptr s =
     (if own then
        (case ptr of
           None \<Rightarrow> Inr (None, s)
         | Some a \<Rightarrow>
             (case objs s a of
                None \<Rightarrow> Inl Undefined
              | Some v \<Rightarrow> (let (b, s) = new_obj v s in Inr (Some b, s))))
      else Inr (ptr, s))"

definition release_ptr :: "bool \<Rightarrow> nat option \<Rightarrow> 'a wp_store \<Rightarrow> wp_error + 'a wp_store" where
  "release_ptr own ptr s = (if own then delete_obj ptr s else Inr s)"

definition wp_new :: "nat \<Rightarrow> nat option \<Rightarrow> nat option \<Rightarrow> 'a wp_store \<Rightarrow> wp_error + 'a wp_store" where
  "wp_new p ptr guard s =
     (if ptr = None then Inl (InvalidPtr ''Creating null WeakPtr is not allowed'')
      else if guard = None then Inl (InvalidPtr ''Creating WeakPtr without guard is not allowed'')
      else register_valid p (put_weak p \<lparr>wp_ptr = ptr, wp_guard = guard\<rparr> s))"

definition wp_copy :: "bool \<Rightarrow> nat \<Rightarrow> nat \<Rightarrow> 'a wp_store \<Rightarrow> wp_error + 'a wp_store" where
  "wp_copy own p src s =
     the_weak src s (\<lambda>v.
       and_then (copy_ptr own (wp_ptr v) s) (\<lambda>(ptr, s).
         register_valid p (put_weak p \<lparr>wp_ptr = ptr, wp_guard = wp_guard v\<rparr> s)))"

definition wp_move :: "nat \<Rightarrow> nat \<Rightarrow> 'a wp_store \<Rightarrow> wp_error + 'a wp_store" where
  "wp_move p src s =
     the_weak src s (\<lambda>v.
       and_then (unregister_valid src s) (\<lambda>s.
         register_valid p (put_weak p v (put_weak src \<lparr>wp_ptr = None, wp_guard = None\<rparr> s))))"

definition wp_delete :: "bool \<Rightarrow> nat \<Rightarrow> 'a wp_store \<Rightarrow> wp_error + 'a wp_store" where
  "wp_delete own p s =
     the_weak p s (\<lambda>w.
       and_then (unregister_valid p s) (\<lambda>s.
         and_then (release_ptr own (wp_ptr w) s) (\<lambda>s.
           Inr (s\<lparr>weaks := (weaks s)(p := None)\<rparr>))))"

definition wp_assign :: "bool \<Rightarrow> nat \<Rightarrow> nat \<Rightarrow> 'a wp_store \<Rightarrow> wp_error + 'a wp_store" where
  "wp_assign own p src s =
     the_weak p s (\<lambda>w. the_weak src s (\<lambda>v.
       if wp_guard w = wp_guard v then
         and_then (release_ptr own (wp_ptr w) s) (\<lambda>s.
           and_then (copy_ptr own (wp_ptr v) s) (\<lambda>(ptr, s).
             Inr (put_weak p (w\<lparr>wp_ptr := ptr\<rparr>) s)))
       else
         and_then (unregister_valid p s) (\<lambda>s.
           and_then (release_ptr own (wp_ptr w) s) (\<lambda>s.
             and_then (copy_ptr own (wp_ptr v) s) (\<lambda>(ptr, s).
               register_valid p (put_weak p \<lparr>wp_ptr = ptr, wp_guard = wp_guard v\<rparr> s))))))"

text \<open>The move assignment exists for owners only. The reads follow the order of the source, so
  that an assignment of a pointer to itself is what the source does.\<close>

definition wp_move_assign :: "nat \<Rightarrow> nat \<Rightarrow> 'a wp_store \<Rightarrow> wp_error + 'a wp_store" where
  "wp_move_assign p src s =
     the_weak p s (\<lambda>w. the_weak src s (\<lambda>v.
       if wp_guard w = wp_guard v then
         and_then (unregister_valid src s) (\<lambda>s.
           let s = put_weak src (v\<lparr>wp_guard := None\<rparr>) s in
           and_then (delete_obj (wp_ptr w) s) (\<lambda>s.
             the_weak p s (\<lambda>w.
               let s = put_weak p (w\<lparr>wp_ptr := wp_ptr v\<rparr>) s in
               the_weak src s (\<lambda>v. Inr (put_weak src (v\<lparr>wp_ptr := None\<rparr>) s)))))
       else
         and_then (unregister_valid p s) (\<lambda>s.
           and_then (unregister_valid src s) (\<lambda>s.
             let s = put_weak p (w\<lparr>wp_guard := wp_guard v\<rparr>) s;
                 s = put_weak src (v\<lparr>wp_guard := None\<rparr>) s in
             and_then (delete_obj (wp_ptr w) s) (\<lambda>s.
               let s = put_weak p \<lparr>wp_ptr = wp_ptr v, wp_guard = wp_guard v\<rparr> s;
                   s = put_weak src \<lparr>wp_ptr = None, wp_guard = None\<rparr> s in
               register_valid p s)))))"

definition wp_get :: "nat \<Rightarrow> 'a wp_store \<Rightarrow> wp_error + nat option" where
  "wp_get p s =
     the_weak p s (\<lambda>w. if wp_valid w then Inr (wp_ptr w) else Inl (InvalidPtr ''Data guard is invalid''))"

definition wp_equal :: "wptr \<Rightarrow> wptr \<Rightarrow> bool" where
  "wp_equal w v \<longleftrightarrow> wp_ptr w = wp_ptr v"

end
