(* ===== verification/WeakPtrFacts.thy ===== *)
theory WeakPtrFacts
  imports WeakPtr
begin

text \<open>
  The invariant of guards and weak pointers: a guard's registered pointers are exactly the live
  pointers that name it, and an owner's resource is alive and its own. Both parts are stated up to
  a set of pointers that an operation has in hand, so that each operation is proved by the
  composition of its steps.
\<close>

section \<open>The invariant\<close>

definition guard_of :: "'a wp_store \<Rightarrow> nat \<Rightarrow> nat option" where
  "guard_of s p = Option.bind (weaks s p) wp_guard"

definition ptr_of :: "'a wp_store \<Rightarrow> nat \<Rightarrow> nat option" where
  "ptr_of s p = Option.bind (weaks s p) wp_ptr"

definition registered :: "'a wp_store \<Rightarrow> nat \<Rightarrow> nat \<Rightarrow> bool" where
  "registered s g p = (case guards s g of None \<Rightarrow> False | Some r \<Rightarrow> p \<in> set r)"

definition reg_inv :: "nat set \<Rightarrow> 'a wp_store \<Rightarrow> bool" where
  "reg_inv X s \<longleftrightarrow> (\<forall>g p. registered s g p \<longleftrightarrow> p \<notin> X \<and> guard_of s p = Some g)"

definition own_inv :: "nat set \<Rightarrow> 'a wp_store \<Rightarrow> bool" where
  "own_inv Y s \<longleftrightarrow>
     (\<forall>a. objs s a \<noteq> None \<longrightarrow> a < fresh s) \<and>
     (\<forall>p a. p \<notin> Y \<longrightarrow> ptr_of s p = Some a \<longrightarrow> objs s a \<noteq> None) \<and>
     (\<forall>p q a. p \<notin> Y \<longrightarrow> q \<notin> Y \<longrightarrow> ptr_of s p = Some a \<longrightarrow> ptr_of s q = Some a \<longrightarrow> p = q)"

definition wp_inv :: "bool \<Rightarrow> 'a wp_store \<Rightarrow> bool" where
  "wp_inv own s \<longleftrightarrow> reg_inv {} s \<and> (own \<longrightarrow> own_inv {} s)"

lemmas wp_views = guard_of_def ptr_of_def registered_def

lemma put_weak_views [simp]:
  "guard_of (put_weak p w s) q = (if q = p then wp_guard w else guard_of s q)"
  "ptr_of (put_weak p w s) q = (if q = p then wp_ptr w else ptr_of s q)"
  "registered (put_weak p w s) = registered s"
  "objs (put_weak p w s) = objs s" "fresh (put_weak p w s) = fresh s" "guards (put_weak p w s) = guards s"
  "weaks (put_weak p w s) = (weaks s)(p \<mapsto> w)"
  by (auto simp: wp_views put_weak_def fun_eq_iff)

lemma guards_update_views [simp]:
  "guard_of (s\<lparr>guards := G\<rparr>) = guard_of s" "ptr_of (s\<lparr>guards := G\<rparr>) = ptr_of s"
  by (simp_all add: wp_views fun_eq_iff)

lemma the_weak_Some [simp]: "weaks s p = Some w \<Longrightarrow> the_weak p s k = k w"
  by (simp add: the_weak_def)

lemma reg_invD: "reg_inv X s \<Longrightarrow> p \<notin> X \<Longrightarrow> guard_of s p = Some g \<Longrightarrow> guards s g \<noteq> None"
  by (auto simp: reg_inv_def registered_def split: option.splits)

lemma unregister_valid_ok:
  assumes inv: "reg_inv X s" and p: "weaks s p = Some w" "p \<notin> X"
  shows "\<exists>s'. unregister_valid p s = Inr s' \<and> reg_inv (insert p X) s' \<and> weaks s' = weaks s \<and>
    objs s' = objs s \<and> fresh s' = fresh s \<and> dom (guards s') = dom (guards s)"
proof (cases "wp_guard w")
  case None
  then have "reg_inv (insert p X) s" using inv p by (auto simp: reg_inv_def guard_of_def)
  then show ?thesis using None p by (simp add: unregister_valid_def)
next
  case (Some g)
  then obtain r where r: "guards s g = Some r" using reg_invD [OF inv p(2)] p(1) by (force simp: guard_of_def)
  let ?s = "s\<lparr>guards := (guards s)(g \<mapsto> removeAll p r)\<rparr>"
  have "registered ?s h q \<longleftrightarrow> registered s h q \<and> q \<noteq> p" for h q
  proof (cases "h = g")
    case False
    have "registered s h p \<longleftrightarrow> guard_of s p = Some h" using inv p by (simp add: reg_inv_def)
    then have "\<not> registered s h p" using False Some p by (simp add: guard_of_def)
    then show ?thesis using False by (auto simp: registered_def)
  qed (simp add: registered_def r)
  then have "reg_inv (insert p X) ?s" using inv by (auto simp: reg_inv_def guard_of_def)
  then show ?thesis using Some p r by (auto simp: unregister_valid_def unregister_ptr_def)
qed

lemma register_valid_ok:
  assumes inv: "reg_inv (insert p X) s" and p: "weaks s p = Some w" "p \<notin> X"
    and alive: "\<And>g. wp_guard w = Some g \<Longrightarrow> guards s g \<noteq> None"
  shows "\<exists>s'. register_valid p s = Inr s' \<and> reg_inv X s' \<and> weaks s' = weaks s \<and> objs s' = objs s \<and> fresh s' = fresh s"
proof (cases "wp_guard w")
  case None
  then have "reg_inv X s" using inv p by (auto simp: reg_inv_def guard_of_def)
  then show ?thesis using None p by (simp add: register_valid_def)
next
  case (Some g)
  then obtain r where r: "guards s g = Some r" using alive by auto
  let ?s = "s\<lparr>guards := (guards s)(g \<mapsto> List.insert p r)\<rparr>"
  have "registered ?s h q \<longleftrightarrow> registered s h q \<or> h = g \<and> q = p" for h q
    by (auto simp: registered_def r)
  then have "reg_inv X ?s" using inv p Some by (auto simp: reg_inv_def guard_of_def)
  then show ?thesis using Some p r by (auto simp: register_valid_def register_ptr_def)
qed

lemma put_weak_reg: "reg_inv X s \<Longrightarrow> p \<in> X \<Longrightarrow> reg_inv X (put_weak p w s)"
  by (auto simp: reg_inv_def)

lemma put_weak_new_reg: "reg_inv X s \<Longrightarrow> weaks s p = None \<Longrightarrow> reg_inv (insert p X) (put_weak p w s)"
  by (auto simp: reg_inv_def guard_of_def)

lemma reg_inv_cong: "weaks s' = weaks s \<Longrightarrow> guards s' = guards s \<Longrightarrow> reg_inv X s' = reg_inv X s"
  by (simp add: reg_inv_def wp_views)

lemma own_inv_cong:
  "weaks s' = weaks s \<Longrightarrow> objs s' = objs s \<Longrightarrow> fresh s' = fresh s \<Longrightarrow> own_inv Y s' = own_inv Y s"
  by (simp add: own_inv_def wp_views)

text \<open>Releasing and copying the resource of a pointer.\<close>

lemma release_ptr_ok:
  assumes "own \<Longrightarrow> own_inv Y s" "own \<Longrightarrow> ptr_of s p = a \<and> p \<notin> Y"
  shows "\<exists>s'. release_ptr own a s = Inr s' \<and> (own \<longrightarrow> own_inv (insert p Y) s') \<and> weaks s' = weaks s \<and>
    guards s' = guards s \<and> (\<forall>b. Some b \<noteq> a \<longrightarrow> objs s' b = objs s b)"
proof (cases "own \<and> a \<noteq> None")
  case False
  then show ?thesis using assms by (auto simp: release_ptr_def delete_obj_def own_inv_def)
next
  case True
  then obtain x where x: "a = Some x" "own" by auto
  then have "objs s x \<noteq> None" using assms by (auto simp: own_inv_def)
  moreover have "own_inv (insert p Y) (s\<lparr>objs := (objs s)(x := None)\<rparr>)"
    using assms [OF x(2)] x by (auto simp: own_inv_def ptr_of_def)
  ultimately show ?thesis using x by (auto simp: release_ptr_def delete_obj_def)
qed

lemma copy_ptr_ok:
  assumes "own \<Longrightarrow> own_inv Y s" "\<And>a. own \<Longrightarrow> ptr = Some a \<Longrightarrow> objs s a \<noteq> None"
  shows "\<exists>b s'. copy_ptr own ptr s = Inr (b, s') \<and> weaks s' = weaks s \<and> guards s' = guards s \<and>
    (own \<longrightarrow> own_inv Y s' \<and> (\<forall>x. b = Some x \<longrightarrow> objs s' x \<noteq> None \<and> (\<forall>q. q \<notin> Y \<longrightarrow> ptr_of s' q \<noteq> Some x)))"
proof (cases "own \<and> ptr \<noteq> None")
  case False
  then show ?thesis using assms by (auto simp: copy_ptr_def)
next
  case True
  then obtain a where a: "ptr = Some a" "own" by auto
  then obtain v where v: "objs s a = Some v" using assms(2) by auto
  note inv = assms(1) [OF a(2)]
  let ?s = "s\<lparr>objs := (objs s)(fresh s \<mapsto> v), fresh := fresh s + 1\<rparr>"
  have "q \<notin> Y \<Longrightarrow> ptr_of s q \<noteq> Some (fresh s)" for q
    using inv unfolding own_inv_def by (metis less_irrefl)
  moreover have "own_inv Y ?s" using inv by (auto simp: own_inv_def ptr_of_def less_Suc_eq)
  ultimately show ?thesis using a v by (auto simp: copy_ptr_def new_obj_def ptr_of_def)
qed

lemma put_weak_own:
  assumes "own_inv (insert p Y) s"
    "\<And>x. wp_ptr w = Some x \<Longrightarrow> objs s x \<noteq> None \<and> (\<forall>q. q \<notin> insert p Y \<longrightarrow> ptr_of s q \<noteq> Some x)"
  shows "own_inv (Y - {p}) (put_weak p w s)"
  using assms unfolding own_inv_def by auto

lemma own_inv_mono: "own_inv Y s \<Longrightarrow> Y \<subseteq> Y' \<Longrightarrow> own_inv Y' s"
  unfolding own_inv_def by blast

lemma reg_inv_no_guard: "reg_inv (insert p X) s \<Longrightarrow> guard_of s p = None \<Longrightarrow> reg_inv X s"
  by (auto simp: reg_inv_def)

lemma redirect_ok:
  "\<forall>p \<in> set r. weaks s p \<noteq> None \<Longrightarrow>
     \<exists>s'. redirect g r s = Inr s' \<and> guards s' = guards s \<and> objs s' = objs s \<and> fresh s' = fresh s \<and>
       (\<forall>p. guard_of s' p = (if p \<in> set r then g else guard_of s p)) \<and> ptr_of s' = ptr_of s \<and>
       (\<forall>p. weaks s' p = None \<longleftrightarrow> weaks s p = None)"
proof (induction r arbitrary: s)
  case (Cons it r)
  then obtain w where w: "weaks s it = Some w" by auto
  let ?s = "put_weak it (w\<lparr>wp_guard := g\<rparr>) s"
  have "ptr_of ?s = ptr_of s" using w by (auto simp: fun_eq_iff ptr_of_def)
  moreover have "\<forall>p \<in> set r. weaks ?s p \<noteq> None" using Cons.prems by auto
  ultimately show ?case using Cons.IH [of ?s] w by auto
qed simp

section \<open>Every operation keeps it\<close>

definition keeps :: "bool \<Rightarrow> wp_error + 'a wp_store \<Rightarrow> bool" where
  "keeps own r \<longleftrightarrow> (case r of Inl e \<Rightarrow> e \<noteq> Undefined | Inr s' \<Rightarrow> wp_inv own s')"

lemma registered_live: "reg_inv X s \<Longrightarrow> guards s g = Some r \<Longrightarrow> p \<in> set r \<Longrightarrow> guard_of s p = Some g \<and> weaks s p \<noteq> None"
  by (cases "weaks s p") (auto simp: reg_inv_def registered_def guard_of_def split: option.splits)

lemma own_inv_views: "ptr_of s' = ptr_of s \<Longrightarrow> objs s' = objs s \<Longrightarrow> fresh s' = fresh s \<Longrightarrow> own_inv Y s' = own_inv Y s"
  by (simp add: own_inv_def)

lemma no_guard: "reg_inv X s \<Longrightarrow> p \<notin> X \<Longrightarrow> guards s g = None \<or> guards s g = Some [] \<Longrightarrow> guard_of s p \<noteq> Some g"
proof
  assume "reg_inv X s" "p \<notin> X" "guards s g = None \<or> guards s g = Some []" "guard_of s p = Some g"
  moreover then have "registered s g p" by (simp add: reg_inv_def)
  ultimately show False by (auto simp: registered_def)
qed

lemma guard_new_keeps:
  assumes inv: "wp_inv own s" and g: "guards s g = None"
  shows "keeps own (guard_new g s)"
proof -
  let ?s = "s\<lparr>guards := (guards s)(g \<mapsto> [])\<rparr>"
  have reg: "reg_inv {} s" using inv by (simp add: wp_inv_def)
  have "registered ?s h p \<longleftrightarrow> registered s h p" for h p using g by (simp add: registered_def)
  then have "reg_inv {} ?s" using reg by (simp add: reg_inv_def)
  then show ?thesis using own_inv_views [of ?s s "{}"] inv by (simp add: keeps_def guard_new_def wp_inv_def)
qed

lemma guard_move_keeps:
  assumes inv: "wp_inv own s" and g: "guards s g = None \<or> guards s g = Some []" "g \<noteq> src" and src: "guards s src = Some r"
  shows "keeps own (redirect (Some g) r (s\<lparr>guards := (guards s)(src \<mapsto> [], g \<mapsto> r)\<rparr>))"
proof -
  let ?s = "s\<lparr>guards := (guards s)(src \<mapsto> [], g \<mapsto> r)\<rparr>"
  have reg: "reg_inv {} s" using inv by (simp add: wp_inv_def)
  obtain s' where s': "redirect (Some g) r ?s = Inr s'" "guards s' = guards ?s" "objs s' = objs s" "fresh s' = fresh s"
    "\<And>p. guard_of s' p = (if p \<in> set r then Some g else guard_of s p)" "ptr_of s' = ptr_of s"
    using redirect_ok [of r ?s "Some g"] registered_live [OF reg src] by auto
  note none = no_guard [OF reg _ g(1), simplified]
  have "registered s' h p \<longleftrightarrow> guard_of s' p = Some h" for h p
  proof (cases "p \<in> set r")
    case True
    then have "guard_of s p = Some src" using registered_live [OF reg src] by simp
    then have "h \<noteq> src \<Longrightarrow> \<not> registered s h p" using reg by (auto simp: reg_inv_def)
    then show ?thesis using True g by (auto simp: s'(2,5) registered_def)
  next
    case False
    then have "guard_of s p \<noteq> Some src" using reg src by (auto simp: reg_inv_def registered_def split: option.splits)
    then show ?thesis using False none [of p] reg by (auto simp: s'(2,5) registered_def reg_inv_def)
  qed
  then show ?thesis using s' own_inv_views [OF s'(6,3,4)] inv by (simp add: keeps_def wp_inv_def reg_inv_def)
qed

lemma guard_clear_ok:
  assumes inv: "wp_inv own s" and g: "guards s g = Some r"
  shows "\<exists>s'. guard_clear g s = Inr s' \<and> wp_inv own s' \<and> guards s' = (guards s)(g \<mapsto> []) \<and>
    (\<forall>p. guard_of s' p = (if guard_of s p = Some g then None else guard_of s p)) \<and> ptr_of s' = ptr_of s \<and>
    (\<forall>p. weaks s' p = None \<longleftrightarrow> weaks s p = None)"
proof -
  have reg: "reg_inv {} s" using inv by (simp add: wp_inv_def)
  obtain s' where s': "redirect None r s = Inr s'" "guards s' = guards s" "objs s' = objs s" "fresh s' = fresh s"
    "\<And>p. guard_of s' p = (if p \<in> set r then None else guard_of s p)" "ptr_of s' = ptr_of s"
    "\<And>p. weaks s' p = None \<longleftrightarrow> weaks s p = None"
    using redirect_ok [of r s None] registered_live [OF reg g] by auto
  let ?s = "s'\<lparr>guards := (guards s)(g \<mapsto> [])\<rparr>"
  have r: "p \<in> set r \<longleftrightarrow> guard_of s p = Some g" for p
    using reg g by (simp add: reg_inv_def registered_def) (metis option.simps(5))
  have v: "guard_of ?s p = (if guard_of s p = Some g then None else guard_of s p)" "ptr_of ?s = ptr_of s" for p
    using s'(5) [of p] s'(6) r by auto
  have "registered ?s h p \<longleftrightarrow> guard_of ?s p = Some h" for h p
    unfolding v using reg by (auto simp: registered_def reg_inv_def)
  then have "wp_inv own ?s" using own_inv_views [of ?s s "{}"] v(2) s'(3,4) inv by (simp add: wp_inv_def reg_inv_def)
  moreover have "guard_clear g s = Inr ?s" using g s'(1,2) by (simp add: guard_clear_def)
  ultimately show ?thesis using v s'(7) by simp
qed

lemma guard_delete_ok:
  assumes inv: "wp_inv own s" and g: "guards s g = Some r"
  shows "\<exists>s'. guard_delete g s = Inr s' \<and> wp_inv own s' \<and> guards s' = (guards s)(g := None) \<and>
    (\<forall>p. guard_of s' p = (if guard_of s p = Some g then None else guard_of s p)) \<and> ptr_of s' = ptr_of s \<and>
    (\<forall>p. weaks s' p = None \<longleftrightarrow> weaks s p = None)"
proof -
  obtain t where t: "guard_clear g s = Inr t" "wp_inv own t" "guards t = (guards s)(g \<mapsto> [])"
    "\<And>p. guard_of t p = (if guard_of s p = Some g then None else guard_of s p)" "ptr_of t = ptr_of s"
    "\<And>p. weaks t p = None \<longleftrightarrow> weaks s p = None"
    using guard_clear_ok [OF inv g] by auto
  let ?s = "t\<lparr>guards := (guards t)(g := None)\<rparr>"
  have v: "guard_of ?s = guard_of t" "ptr_of ?s = ptr_of t" by simp_all
  have "registered ?s h p \<longleftrightarrow> guard_of t p = Some h" for h p
    using t(2,3) t(4) [of p] by (auto simp: wp_inv_def reg_inv_def registered_def split: option.splits if_splits)
  then have "wp_inv own ?s" using own_inv_views [of ?s t "{}"] v t(2) by (simp add: wp_inv_def reg_inv_def)
  then show ?thesis using t v by (simp add: guard_delete_def)
qed

lemma keepsI: "r = Inr s' \<Longrightarrow> wp_inv own s' \<Longrightarrow> keeps own r"
  by (simp add: keeps_def)

lemma wp_new_keeps:
  assumes inv: "wp_inv own s" and p: "weaks s p = None"
    and guard: "\<And>g. guard = Some g \<Longrightarrow> guards s g \<noteq> None"
    and ptr: "\<And>a. own \<Longrightarrow> ptr = Some a \<Longrightarrow> objs s a \<noteq> None \<and> (\<forall>q. ptr_of s q \<noteq> Some a)"
  shows "keeps own (wp_new p ptr guard s)"
proof (cases "ptr = None \<or> guard = None")
  case False
  let ?s = "put_weak p \<lparr>wp_ptr = ptr, wp_guard = guard\<rparr> s"
  have "reg_inv {p} ?s" using inv p by (simp add: wp_inv_def put_weak_new_reg)
  then obtain s' where s': "register_valid p ?s = Inr s'" "reg_inv {} s'" "weaks s' = weaks ?s" "objs s' = objs ?s" "fresh s' = fresh ?s"
    using register_valid_ok [of p "{}" ?s "\<lparr>wp_ptr = ptr, wp_guard = guard\<rparr>"] guard by auto
  have "own \<Longrightarrow> own_inv {} ?s"
    using put_weak_own [of p "{}" s "\<lparr>wp_ptr = ptr, wp_guard = guard\<rparr>"] inv ptr own_inv_mono [of "{}" s "{p}"]
    by (simp add: wp_inv_def)
  then have "wp_inv own s'" using s' own_inv_cong [of s' ?s "{}"] by (simp add: wp_inv_def)
  then show ?thesis using False s'(1) by (auto simp: wp_new_def keeps_def)
qed (auto simp: wp_new_def keeps_def)

text \<open>The end of a copy: the pointer gets its resource and registers.\<close>

lemma finish_copy:
  assumes reg: "reg_inv {p} s" and own: "own \<Longrightarrow> own_inv {p} s"
    and guard: "\<And>g. wp_guard w = Some g \<Longrightarrow> guards s g \<noteq> None"
    and ptr: "\<And>x. own \<Longrightarrow> wp_ptr w = Some x \<Longrightarrow> objs s x \<noteq> None \<and> (\<forall>q. q \<noteq> p \<longrightarrow> ptr_of s q \<noteq> Some x)"
  shows "keeps own (register_valid p (put_weak p w s))"
proof -
  let ?s = "put_weak p w s"
  have "reg_inv {p} ?s" using put_weak_reg [OF reg] by simp
  then obtain s' where s': "register_valid p ?s = Inr s'" "reg_inv {} s'" "weaks s' = weaks ?s" "objs s' = objs ?s" "fresh s' = fresh ?s"
    using register_valid_ok [of p "{}" ?s w] guard by auto
  have "own \<Longrightarrow> own_inv {} ?s" using put_weak_own [of p "{}" s w] own ptr by simp
  then have "wp_inv own s'" using s' own_inv_cong [of s' ?s "{}"] by (simp add: wp_inv_def)
  then show ?thesis using s'(1) by (rule keepsI [rotated])
qed

lemma live_guard: "reg_inv X s \<Longrightarrow> weaks s p = Some w \<Longrightarrow> p \<notin> X \<Longrightarrow> wp_guard w = Some g \<Longrightarrow> guards s g \<noteq> None"
  using reg_invD [of X s p g] by (simp add: guard_of_def)

lemma own_ptr: "own_inv Y s \<Longrightarrow> weaks s p = Some w \<Longrightarrow> p \<notin> Y \<Longrightarrow> wp_ptr w = Some a \<Longrightarrow>
    objs s a \<noteq> None \<and> (\<forall>q. q \<notin> Y \<longrightarrow> q \<noteq> p \<longrightarrow> ptr_of s q \<noteq> Some a)"
  unfolding own_inv_def ptr_of_def by (metis Option.bind.simps(2))

lemma reg_inv_new: "reg_inv X s \<Longrightarrow> weaks s p = None \<Longrightarrow> reg_inv (insert p X) s"
  by (auto simp: reg_inv_def guard_of_def)

lemma wp_copy_keeps:
  assumes inv: "wp_inv own s" and p: "weaks s p = None" and src: "weaks s src = Some v"
  shows "keeps own (wp_copy own p src s)"
proof -
  have i: "reg_inv {} s" "own \<Longrightarrow> own_inv {} s" using inv by (simp_all add: wp_inv_def)
  obtain b t where t: "copy_ptr own (wp_ptr v) s = Inr (b, t)" "weaks t = weaks s" "guards t = guards s"
    "own \<Longrightarrow> own_inv {} t" "\<And>x. own \<Longrightarrow> b = Some x \<Longrightarrow> objs t x \<noteq> None \<and> (\<forall>q. ptr_of t q \<noteq> Some x)"
    using copy_ptr_ok [of own "{}" s "wp_ptr v"] own_ptr [OF i(2) src] i(2) by auto
  have "reg_inv {p} t" using reg_inv_new [OF i(1) p] reg_inv_cong [OF t(2,3)] by simp
  then have "keeps own (register_valid p (put_weak p \<lparr>wp_ptr = b, wp_guard = wp_guard v\<rparr> t))"
    using t(4,5) own_inv_mono [of "{}" t "{p}"] live_guard [OF i(1) src] by (intro finish_copy) (auto simp: t(3))
  then show ?thesis using src t(1) by (simp add: wp_copy_def)
qed

lemma wp_delete_keeps:
  assumes inv: "wp_inv own s" and p: "weaks s p = Some w"
  shows "keeps own (wp_delete own p s)"
proof -
  have i: "reg_inv {} s" "own \<Longrightarrow> own_inv {} s" using inv by (simp_all add: wp_inv_def)
  obtain t where t: "unregister_valid p s = Inr t" "reg_inv {p} t" "weaks t = weaks s" "objs t = objs s" "fresh t = fresh s"
    using unregister_valid_ok [OF i(1) p] by auto
  have it: "own \<Longrightarrow> own_inv {} t" using i(2) own_inv_cong [OF t(3-5)] by simp
  obtain u where u: "release_ptr own (wp_ptr w) t = Inr u" "own \<Longrightarrow> own_inv {p} u" "weaks u = weaks t" "guards u = guards t"
    using release_ptr_ok [of own "{}" t p "wp_ptr w"] it p t(3) by (auto simp: ptr_of_def)
  let ?s = "u\<lparr>weaks := (weaks u)(p := None)\<rparr>"
  have v: "guard_of ?s q = (if q = p then None else guard_of t q)" "ptr_of ?s q = (if q = p then None else ptr_of u q)"
    "registered ?s = registered t" for q
    by (auto simp: wp_views u(3,4) fun_eq_iff)
  have "reg_inv {} ?s" using t(2) v by (auto simp: reg_inv_def)
  moreover have "own \<Longrightarrow> own_inv {} ?s" using u(2) v(2) unfolding own_inv_def by auto
  ultimately have "wp_inv own ?s" by (simp add: wp_inv_def)
  then show ?thesis using p t(1) u(1) by (simp add: wp_delete_def keeps_def)
qed

lemma put_weak_twice: "put_weak p a (put_weak p b s) = put_weak p a s"
  by (simp add: put_weak_def)

lemma put_weak_swap: "p \<noteq> q \<Longrightarrow> put_weak q b (put_weak p a s) = put_weak p a (put_weak q b s)"
  by (simp add: put_weak_def fun_upd_twist)

lemma put_weak_same_guard:
  "weaks s p = Some w \<Longrightarrow> wp_guard w' = wp_guard w \<Longrightarrow> reg_inv X (put_weak p w' s) = reg_inv X s"
proof -
  assume "weaks s p = Some w" "wp_guard w' = wp_guard w"
  then have "guard_of (put_weak p w' s) = guard_of s" by (auto simp: fun_eq_iff guard_of_def)
  then show ?thesis by (simp add: reg_inv_def)
qed

lemma put_weak_null_own: "own_inv Y s \<Longrightarrow> wp_ptr w = None \<Longrightarrow> own_inv (Y - {p}) (put_weak p w s)"
  by (rule put_weak_own) (auto intro: own_inv_mono)

lemma wp_move_keeps:
  assumes inv: "wp_inv True s" and p: "weaks s p = None" and src: "weaks s src = Some v"
  shows "keeps True (wp_move p src s)"
proof -
  have i: "reg_inv {} s" "own_inv {} s" using inv by (simp_all add: wp_inv_def)
  have ps: "p \<noteq> src" using p src by auto
  obtain t where t: "unregister_valid src s = Inr t" "reg_inv {src} t" "weaks t = weaks s" "objs t = objs s"
    "fresh t = fresh s" "dom (guards t) = dom (guards s)"
    using unregister_valid_ok [OF i(1) src] by auto
  let ?u = "put_weak src \<lparr>wp_ptr = None, wp_guard = None\<rparr> t"
  have "reg_inv {} ?u" by (rule reg_inv_no_guard [OF put_weak_reg [OF t(2)]]) simp_all
  then have r: "reg_inv {p} ?u" using reg_inv_new [of "{}" ?u p] p t(3) ps by simp
  have it: "own_inv {} t" using i(2) own_inv_cong [OF t(3-5)] by simp
  have o: "own_inv {p} ?u" using own_inv_mono [OF put_weak_null_own [OF it]] by simp
  have "keeps True (register_valid p (put_weak p v ?u))"
  proof (rule finish_copy [OF r o])
    show "guards ?u g \<noteq> None" if "wp_guard v = Some g" for g
      using live_guard [OF i(1) src _ that] t(6) by (simp add: domIff set_eq_iff) 
    show "objs ?u x \<noteq> None \<and> (\<forall>q. q \<noteq> p \<longrightarrow> ptr_of ?u q \<noteq> Some x)" if "wp_ptr v = Some x" for x
      using own_ptr [OF it, of src v x] src that t(3) by simp
  qed
  then show ?thesis using src t(1) by (simp add: wp_move_def)
qed

lemma wp_assign_keeps:
  assumes inv: "wp_inv own s" and p: "weaks s p = Some w" and src: "weaks s src = Some v" and ps: "own \<Longrightarrow> p \<noteq> src"
  shows "keeps own (wp_assign own p src s)"
proof -
  have i: "reg_inv {} s" "own \<Longrightarrow> own_inv {} s" using inv by (simp_all add: wp_inv_def)
  text \<open>Releasing the target's resource and copying the source's, from a state with the same pointers.\<close>
  have step: "\<exists>u b t'. release_ptr own (wp_ptr w) t = Inr u \<and> copy_ptr own (wp_ptr v) u = Inr (b, t') \<and>
      weaks t' = weaks s \<and> guards t' = guards t \<and> (own \<longrightarrow> own_inv {p} t' \<and>
        (\<forall>x. b = Some x \<longrightarrow> objs t' x \<noteq> None \<and> (\<forall>q. q \<noteq> p \<longrightarrow> ptr_of t' q \<noteq> Some x)))"
    if t: "weaks t = weaks s" "objs t = objs s" "fresh t = fresh s" for t
  proof -
    have it: "own \<Longrightarrow> own_inv {} t" using i(2) own_inv_cong [OF t] by simp
    obtain u where u: "release_ptr own (wp_ptr w) t = Inr u" "own \<Longrightarrow> own_inv {p} u" "weaks u = weaks t"
      "guards u = guards t" "\<And>b. Some b \<noteq> wp_ptr w \<Longrightarrow> objs u b = objs t b"
      using release_ptr_ok [of own "{}" t p "wp_ptr w"] it p t(1) by (auto simp: ptr_of_def)
    have "objs u a \<noteq> None" if "own" "wp_ptr v = Some a" for a
      using own_ptr [OF it [OF that(1)], of src v a] that src p ps t(1) u(5) [of a] by (auto simp: ptr_of_def)
    then obtain b t' where "copy_ptr own (wp_ptr v) u = Inr (b, t')" "weaks t' = weaks u" "guards t' = guards u"
      "own \<longrightarrow> own_inv {p} t' \<and> (\<forall>x. b = Some x \<longrightarrow> objs t' x \<noteq> None \<and> (\<forall>q. q \<notin> {p} \<longrightarrow> ptr_of t' q \<noteq> Some x))"
      using copy_ptr_ok [of own "{p}" u "wp_ptr v"] u(2) by auto
    then show ?thesis using u t(1) by auto
  qed
  show ?thesis
  proof (cases "wp_guard w = wp_guard v")
    case True
    obtain u b t' where t': "release_ptr own (wp_ptr w) s = Inr u" "copy_ptr own (wp_ptr v) u = Inr (b, t')"
      "weaks t' = weaks s" "guards t' = guards s" "own \<Longrightarrow> own_inv {p} t'"
      "\<And>x. own \<Longrightarrow> b = Some x \<Longrightarrow> objs t' x \<noteq> None \<and> (\<forall>q. q \<noteq> p \<longrightarrow> ptr_of t' q \<noteq> Some x)"
      using step [of s] by auto
    let ?s = "put_weak p (w\<lparr>wp_ptr := b\<rparr>) t'"
    have "reg_inv {} ?s" using put_weak_same_guard [of t' p w] p t'(3) reg_inv_cong [OF t'(3,4)] i(1) by simp
    moreover have "own \<Longrightarrow> own_inv {} ?s" using put_weak_own [of p "{}" t' "w\<lparr>wp_ptr := b\<rparr>"] t'(5,6) by simp
    ultimately show ?thesis using True p src t'(1,2) by (simp add: wp_assign_def keeps_def wp_inv_def)
  next
    case False
    obtain t where t: "unregister_valid p s = Inr t" "reg_inv {p} t" "weaks t = weaks s" "objs t = objs s" "fresh t = fresh s"
      "dom (guards t) = dom (guards s)"
      using unregister_valid_ok [OF i(1) p] by auto
    obtain u b t' where t': "release_ptr own (wp_ptr w) t = Inr u" "copy_ptr own (wp_ptr v) u = Inr (b, t')"
      "weaks t' = weaks s" "guards t' = guards t" "own \<Longrightarrow> own_inv {p} t'"
      "\<And>x. own \<Longrightarrow> b = Some x \<Longrightarrow> objs t' x \<noteq> None \<and> (\<forall>q. q \<noteq> p \<longrightarrow> ptr_of t' q \<noteq> Some x)"
      using step [OF t(3-5)] by auto
    have r: "reg_inv {p} t'" using t(2) reg_inv_cong [of t' t] t' t(3) by simp
    have "keeps own (register_valid p (put_weak p \<lparr>wp_ptr = b, wp_guard = wp_guard v\<rparr> t'))"
    proof (rule finish_copy [OF r t'(5)])
      show "guards t' g \<noteq> None" if "wp_guard \<lparr>wp_ptr = b, wp_guard = wp_guard v\<rparr> = Some g" for g
        using live_guard [OF i(1) src, of g] that t(6) t'(4) by (simp add: domIff set_eq_iff)
    qed (use t'(6) in auto)
    then show ?thesis using False p src t(1) t'(1,2) by (simp add: wp_assign_def)
  qed
qed

lemma wp_move_assign_keeps:
  assumes inv: "wp_inv True s" and p: "weaks s p = Some w" and src: "weaks s src = Some v"
  shows "keeps True (wp_move_assign p src s)"
proof (cases "wp_guard w = wp_guard v")
  case same: True
  have i: "reg_inv {} s" "own_inv {} s" using inv by (simp_all add: wp_inv_def)
  obtain t where t: "unregister_valid src s = Inr t" "reg_inv {src} t" "weaks t = weaks s" "objs t = objs s" "fresh t = fresh s"
    using unregister_valid_ok [OF i(1) src] by auto
  let ?u = "put_weak src (v\<lparr>wp_guard := None\<rparr>) t"
  have ru: "reg_inv {} ?u" by (rule reg_inv_no_guard [OF put_weak_reg [OF t(2)]]) simp_all
  have pt: "ptr_of ?u = ptr_of s" using src t(3) by (auto simp: fun_eq_iff ptr_of_def)
  then have ou: "own_inv {} ?u" using own_inv_views [of ?u s] i(2) t(4,5) by simp
  obtain x where x: "delete_obj (wp_ptr w) ?u = Inr x" "own_inv {p} x" "weaks x = weaks ?u" "guards x = guards ?u"
    "\<And>b. Some b \<noteq> wp_ptr w \<Longrightarrow> objs x b = objs ?u b"
    using release_ptr_ok [of True "{}" ?u p "wp_ptr w"] ou p pt by (auto simp: release_ptr_def ptr_of_def)
  have rx: "reg_inv {} x" using ru reg_inv_cong [OF x(3,4)] by simp
  show ?thesis
  proof (cases "p = src")
    case True
    let ?y = "put_weak p (v\<lparr>wp_guard := None, wp_ptr := None\<rparr>) x"
    have "wp_move_assign p src s = Inr ?y"
      using True p src same t(1) x(1,3) by (simp add: wp_move_assign_def Let_def put_weak_twice)
    moreover have "reg_inv {} ?y" using rx put_weak_same_guard [of x p "v\<lparr>wp_guard := None\<rparr>"] x(3) True by simp
    moreover have "own_inv {} ?y" using put_weak_null_own [OF x(2), of _ p] by simp
    ultimately show ?thesis by (auto intro: keepsI simp: wp_inv_def)
  next
    case False
    let ?z = "put_weak p (w\<lparr>wp_ptr := wp_ptr v\<rparr>) x"
    let ?y = "put_weak src (v\<lparr>wp_guard := None, wp_ptr := None\<rparr>) ?z"
    have wx: "weaks x p = Some w" "weaks x src = Some (v\<lparr>wp_guard := None\<rparr>)" using False p t(3) x(3) by simp_all
    then have "wp_move_assign p src s = Inr ?y"
      using False p src same t(1) x(1) by (simp add: wp_move_assign_def Let_def)
    moreover have "reg_inv {} ?y"
      using rx put_weak_same_guard [OF wx(1)] put_weak_same_guard [of ?z src "v\<lparr>wp_guard := None\<rparr>"] wx(2) False by simp
    moreover have "own_inv {src} ?z"
    proof -
      have "objs x a \<noteq> None \<and> (\<forall>q. q \<notin> {p, src} \<longrightarrow> ptr_of x q \<noteq> Some a)" if a: "wp_ptr v = Some a" for a
      proof -
        have o: "objs ?u a \<noteq> None" "\<And>q. q \<noteq> src \<Longrightarrow> ptr_of s q \<noteq> Some a"
          using own_ptr [OF i(2) src _ a] t(4) by simp_all
        then have "objs x a \<noteq> None" using x(5) [of a] o(2) [of p] p False by (auto simp: ptr_of_def)
        moreover have "ptr_of x = ptr_of s" using x(3) pt by (simp add: ptr_of_def fun_eq_iff)
        ultimately show ?thesis using o(2) by simp
      qed
      then show ?thesis using put_weak_own [of p "{src}" x "w\<lparr>wp_ptr := wp_ptr v\<rparr>"] own_inv_mono [OF x(2)] False by simp
    qed
    then have "own_inv {} ?y" using put_weak_null_own [of "{src}" ?z _ src] by simp
    ultimately show ?thesis by (auto intro: keepsI simp: wp_inv_def)
  qed
next
  case diff: False
  then have ps: "p \<noteq> src" using p src by auto
  have i: "reg_inv {} s" "own_inv {} s" using inv by (simp_all add: wp_inv_def)
  obtain t where t: "unregister_valid p s = Inr t" "reg_inv {p} t" "weaks t = weaks s" "objs t = objs s"
    "fresh t = fresh s" "dom (guards t) = dom (guards s)"
    using unregister_valid_ok [OF i(1) p] by auto
  obtain t2 where t2: "unregister_valid src t = Inr t2" "reg_inv {src, p} t2" "weaks t2 = weaks s" "objs t2 = objs s"
    "fresh t2 = fresh s" "dom (guards t2) = dom (guards s)"
    using unregister_valid_ok [OF t(2), of src v] src ps t by auto
  let ?u = "put_weak src (v\<lparr>wp_guard := None\<rparr>) (put_weak p (w\<lparr>wp_guard := wp_guard v\<rparr>) t2)"
  have ru: "reg_inv {p} ?u"
    by (rule reg_inv_no_guard [OF put_weak_reg [OF put_weak_reg [OF t2(2)]]]) simp_all
  have pt: "ptr_of ?u = ptr_of s" using p src t2(3) ps by (auto simp: fun_eq_iff ptr_of_def)
  then have ou: "own_inv {} ?u" using own_inv_views [of ?u s] i(2) t2(4,5) by simp
  obtain x where x: "delete_obj (wp_ptr w) ?u = Inr x" "own_inv {p} x" "weaks x = weaks ?u" "guards x = guards ?u"
    "\<And>b. Some b \<noteq> wp_ptr w \<Longrightarrow> objs x b = objs ?u b"
    using release_ptr_ok [of True "{}" ?u p "wp_ptr w"] ou p pt by (auto simp: release_ptr_def ptr_of_def)
  let ?y = "put_weak src \<lparr>wp_ptr = None, wp_guard = None\<rparr> x"
  have "reg_inv {p} x" using ru reg_inv_cong [OF x(3,4)] by simp
  then have ry: "reg_inv {p} ?y"
    using put_weak_same_guard [of x src "v\<lparr>wp_guard := None\<rparr>" "\<lparr>wp_ptr = None, wp_guard = None\<rparr>"] x(3) by simp
  have oy: "own_inv {p} ?y" using put_weak_null_own [OF x(2), of _ src] ps by simp
  have "keeps True (register_valid p (put_weak p \<lparr>wp_ptr = wp_ptr v, wp_guard = wp_guard v\<rparr> ?y))"
  proof (rule finish_copy [OF ry oy])
    show "guards ?y g \<noteq> None" if "wp_guard \<lparr>wp_ptr = wp_ptr v, wp_guard = wp_guard v\<rparr> = Some g" for g
      using live_guard [OF i(1) src, of g] that t2(6) x(4) by (simp add: domIff set_eq_iff)
    show "objs ?y a \<noteq> None \<and> (\<forall>q. q \<noteq> p \<longrightarrow> ptr_of ?y q \<noteq> Some a)"
      if "wp_ptr \<lparr>wp_ptr = wp_ptr v, wp_guard = wp_guard v\<rparr> = Some a" for a
    proof -
      have o: "objs ?u a \<noteq> None" "\<And>q. q \<noteq> src \<Longrightarrow> ptr_of s q \<noteq> Some a"
        using own_ptr [OF i(2) src, of a] that t2(4) by simp_all
      then have "objs x a \<noteq> None" using x(5) [of a] o(2) [of p] p ps by (auto simp: ptr_of_def)
      moreover have "ptr_of x = ptr_of s" using x(3) pt by (simp add: ptr_of_def fun_eq_iff)
      ultimately show ?thesis using o(2) by simp
    qed
  qed
  then show ?thesis using diff p src t(1) t2(1) x(1) ps
    by (simp add: wp_move_assign_def Let_def put_weak_swap)
qed
section \<open>Clients\<close>

datatype 'a wp_op =
    GuardNew nat
  | GuardMove nat nat
  | GuardMoveAssign nat nat
  | GuardClear nat
  | GuardDelete nat
  | ObjNew 'a
  | WpNew nat "nat option" "nat option"
  | WpCopy nat nat
  | WpMove nat nat
  | WpDelete nat
  | WpAssign nat nat
  | WpMoveAssign nat nat

fun wp_exec :: "bool \<Rightarrow> 'a wp_op \<Rightarrow> 'a wp_store \<Rightarrow> wp_error + 'a wp_store" where
  "wp_exec own (GuardNew g) s = guard_new g s"
| "wp_exec own (GuardMove g src) s = guard_move g src s"
| "wp_exec own (GuardMoveAssign g src) s = guard_move_assign g src s"
| "wp_exec own (GuardClear g) s = guard_clear g s"
| "wp_exec own (GuardDelete g) s = guard_delete g s"
| "wp_exec own (ObjNew v) s = Inr (snd (new_obj v s))"
| "wp_exec own (WpNew p ptr guard) s = wp_new p ptr guard s"
| "wp_exec own (WpCopy p src) s = wp_copy own p src s"
| "wp_exec own (WpMove p src) s = wp_move p src s"
| "wp_exec own (WpDelete p) s = wp_delete own p s"
| "wp_exec own (WpAssign p src) s = wp_assign own p src s"
| "wp_exec own (WpMoveAssign p src) s = wp_move_assign p src s"

text \<open>What a C++ client may do: construct at a free address, use what is alive, give an owner a
  resource of its own, move only owners.\<close>

fun wp_allowed :: "bool \<Rightarrow> 'a wp_op \<Rightarrow> 'a wp_store \<Rightarrow> bool" where
  "wp_allowed own (GuardNew g) s \<longleftrightarrow> guards s g = None"
| "wp_allowed own (GuardMove g src) s \<longleftrightarrow> guards s g = None \<and> guards s src \<noteq> None"
| "wp_allowed own (GuardMoveAssign g src) s \<longleftrightarrow> guards s g \<noteq> None \<and> guards s src \<noteq> None"
| "wp_allowed own (GuardClear g) s \<longleftrightarrow> guards s g \<noteq> None"
| "wp_allowed own (GuardDelete g) s \<longleftrightarrow> guards s g \<noteq> None"
| "wp_allowed own (ObjNew v) s \<longleftrightarrow> True"
| "wp_allowed own (WpNew p ptr guard) s \<longleftrightarrow> weaks s p = None \<and> (\<forall>g. guard = Some g \<longrightarrow> guards s g \<noteq> None) \<and>
     (own \<longrightarrow> (\<forall>a. ptr = Some a \<longrightarrow> objs s a \<noteq> None \<and> (\<forall>q. ptr_of s q \<noteq> Some a)))"
| "wp_allowed own (WpCopy p src) s \<longleftrightarrow> weaks s p = None \<and> weaks s src \<noteq> None"
| "wp_allowed own (WpMove p src) s \<longleftrightarrow> own \<and> weaks s p = None \<and> weaks s src \<noteq> None"
| "wp_allowed own (WpDelete p) s \<longleftrightarrow> weaks s p \<noteq> None"
| "wp_allowed own (WpAssign p src) s \<longleftrightarrow> weaks s p \<noteq> None \<and> weaks s src \<noteq> None"
| "wp_allowed own (WpMoveAssign p src) s \<longleftrightarrow> own \<and> weaks s p \<noteq> None \<and> weaks s src \<noteq> None"

text \<open>The two operations that go wrong: every move assignment of a guard, and the copy assignment of an owner that
  holds a resource to itself.\<close>

definition wp_faulty :: "bool \<Rightarrow> 'a wp_op \<Rightarrow> 'a wp_store \<Rightarrow> bool" where
  "wp_faulty own op s \<longleftrightarrow>
     (case op of
        GuardMoveAssign g src \<Rightarrow> True
      | WpAssign p src \<Rightarrow> own \<and> p = src \<and> ptr_of s p \<noteq> None
      | _ \<Rightarrow> False)"

inductive wp_reachable :: "bool \<Rightarrow> 'a wp_store \<Rightarrow> bool" for own where
  wp_start: "wp_reachable own wp_empty_store"
| wp_step: "wp_reachable own s \<Longrightarrow> wp_allowed own op s \<Longrightarrow> wp_exec own op s = Inr s' \<Longrightarrow> wp_reachable own s'"

lemma new_obj_keeps: "wp_inv own s \<Longrightarrow> wp_inv own (snd (new_obj v s))"
proof -
  assume inv: "wp_inv own s"
  have "own_inv {} (snd (new_obj v s))" if "own_inv {} s"
    using that by (auto simp: own_inv_def new_obj_def ptr_of_def less_Suc_eq)
  moreover have "reg_inv {} (snd (new_obj v s)) = reg_inv {} s" by (rule reg_inv_cong) (simp_all add: new_obj_def)
  ultimately show ?thesis using inv by (simp add: wp_inv_def)
qed

lemma self_assign_empty:
  assumes "weaks s p = Some w" "wp_ptr w = None"
  shows "wp_assign own p p s = Inr s"
proof -
  have "put_weak p (w\<lparr>wp_ptr := None\<rparr>) s = s"
    using assms by (cases s; cases w) (simp add: put_weak_def map_upd_triv)
  then show ?thesis
    using assms by (simp add: wp_assign_def the_weak_def release_ptr_def delete_obj_def copy_ptr_def)
qed

lemma wp_faulty_undefined:
  assumes "wp_allowed own op s" "wp_faulty own op s"
  shows "wp_exec own op s = Inl Undefined"
proof (cases op)
  case (GuardMoveAssign g src)
  have eq: "redirect h r s = Inl x \<Longrightarrow> x = Undefined" for h r x and s :: "'a wp_store"
    by (induction r arbitrary: s) (auto simp: the_weak_def split: option.splits)
  show ?thesis
    using GuardMoveAssign eq by (auto simp: guard_move_assign_def guard_take_over_def and_then_def split: option.splits sum.splits)
next
  case (WpAssign p src)
  then obtain w where "weaks s p = Some w" "own" "p = src" "wp_ptr w \<noteq> None"
    using assms by (auto simp: wp_faulty_def ptr_of_def split: option.splits)
  then show ?thesis
    using WpAssign by (auto simp: wp_assign_def the_weak_def release_ptr_def delete_obj_def copy_ptr_def split: option.splits)
qed (use assms(2) in \<open>simp_all add: wp_faulty_def\<close>)

lemma wp_exec_keeps:
  assumes inv: "wp_inv own s" and ok: "wp_allowed own op s" and good: "\<not> wp_faulty own op s"
  shows "keeps own (wp_exec own op s)"
proof (cases op)
  case (GuardMove g src)
  then obtain r where "guards s src = Some r" "guards s g = None" "g \<noteq> src" using ok by fastforce
  then show ?thesis using GuardMove guard_move_keeps [OF inv] by (simp add: guard_move_def)
next
  case (GuardMoveAssign g src)
  then show ?thesis using good by (simp add: wp_faulty_def)
next
  case (WpAssign p src)
  then obtain w v where "weaks s p = Some w" "weaks s src = Some v" using ok by auto
  then show ?thesis
    using WpAssign wp_assign_keeps [OF inv] self_assign_empty [of s p w own] good inv
    by (cases "own \<and> p = src") (auto simp: wp_faulty_def ptr_of_def keeps_def [of _ "Inr _"])
next
  case (GuardClear g)
  then show ?thesis using ok guard_clear_ok [OF inv] by (fastforce simp: keeps_def)
next
  case (GuardDelete g)
  then show ?thesis using ok guard_delete_ok [OF inv] by (fastforce simp: keeps_def)
next
  case (WpNew p ptr guard)
  then show ?thesis using ok wp_new_keeps [OF inv, of p guard ptr] by simp
qed (use assms in \<open>auto simp: keeps_def [of _ "Inr _"] intro: guard_new_keeps new_obj_keeps wp_copy_keeps wp_move_keeps
       wp_delete_keeps wp_assign_keeps wp_move_assign_keeps\<close>)

lemma wp_empty_inv: "wp_inv own wp_empty_store"
  by (simp add: wp_inv_def reg_inv_def own_inv_def wp_views wp_empty_store_def)

lemma wp_reachable_inv: "wp_reachable own s \<Longrightarrow> wp_inv own s"
proof (induction rule: wp_reachable.induct)
  case (wp_step s op s')
  then show ?case using wp_exec_keeps [of own s op] wp_faulty_undefined [of own op s] by (auto simp: keeps_def)
qed (rule wp_empty_inv)

lemma wp_get_views: "wp_get p s =
    (if weaks s p = None then Inl Undefined
     else if guard_of s p = None then Inl (InvalidPtr ''Data guard is invalid'') else Inr (ptr_of s p))"
  by (auto simp: wp_get_def the_weak_def wp_valid_def guard_of_def ptr_of_def split: option.splits)

section \<open>The properties\<close>

text \<open>C4. In every state that a client can reach by legal uses (it constructs at free addresses, uses what is alive,
  gives an owner a resource of its own and moves only owners), the registered pointers of a guard are exactly the live
  weak pointers that name it, and an owning pointer's resource is alive and owned by it alone. A further legal use is
  undefined behaviour (a destroyed guard, pointer or resource is used) in exactly two cases, which are faults of the
  code: any move assignment of a guard, which lacks its \<open>return\<close>, and the copy assignment to itself of an owner that
  holds a resource.\<close>

theorem weak_ptr_operations_are_safe:
  assumes "wp_reachable own s" "wp_allowed own op s"
  shows "wp_inv own s \<and> (wp_exec own op s = Inl Undefined \<longleftrightarrow> wp_faulty own op s)"
  using wp_reachable_inv [OF assms(1)] wp_exec_keeps [OF _ assms(2)] wp_faulty_undefined [OF assms(2)]
  by (cases "wp_faulty own op s") (auto simp: keeps_def split: sum.splits)

theorem weak_ptr_operations_are_safe_witness:
  "wp_inv True (\<lparr>guards = [5 \<mapsto> []], weaks = Map.empty, objs = Map.empty, fresh = 0\<rparr> :: nat wp_store) \<and>
   wp_exec True (ObjNew 3) (\<lparr>guards = [5 \<mapsto> []], weaks = Map.empty, objs = Map.empty, fresh = 0\<rparr> :: nat wp_store)
     \<noteq> Inl Undefined"
proof -
  let ?s = "\<lparr>guards = [5 \<mapsto> []], weaks = Map.empty, objs = Map.empty, fresh = 0\<rparr> :: nat wp_store"
  have "wp_reachable True ?s"
    by (rule wp_step [OF wp_start, where op = "GuardNew 5"]) (simp_all add: wp_empty_store_def guard_new_def)
  from weak_ptr_operations_are_safe [OF this, of "ObjNew 3"] show ?thesis by (simp add: wp_faulty_def)
qed

text \<open>Clearing or destroying a guard invalidates its pointers and no others: afterwards each of
  them throws \<open>InvalidPtr\<close> instead of giving access to the resource, and every pointer of another
  guard answers as before.\<close>

theorem cleared_guard_invalidates_pointers:
  assumes "wp_reachable own s" "guards s g \<noteq> None" "weaks s p \<noteq> None"
  shows "\<exists>s1 s2. guard_clear g s = Inr s1 \<and> guard_delete g s = Inr s2 \<and>
    (\<forall>s' \<in> {s1, s2}. wp_get p s' =
       (if guard_of s p = Some g then Inl (InvalidPtr ''Data guard is invalid'') else wp_get p s))"
proof -
  obtain r where r: "guards s g = Some r" using assms(2) by auto
  note inv = wp_reachable_inv [OF assms(1)]
  obtain s1 where "guard_clear g s = Inr s1" "wp_get p s1 =
      (if guard_of s p = Some g then Inl (InvalidPtr ''Data guard is invalid'') else wp_get p s)"
    using guard_clear_ok [OF inv r] assms(3) by (auto simp: wp_get_views)
  moreover obtain s2 where "guard_delete g s = Inr s2" "wp_get p s2 =
      (if guard_of s p = Some g then Inl (InvalidPtr ''Data guard is invalid'') else wp_get p s)"
    using guard_delete_ok [OF inv r] assms(3) by (auto simp: wp_get_views)
  ultimately show ?thesis by blast
qed

theorem cleared_guard_invalidates_pointers_witness:
  "\<exists>s1 s2. guard_clear 5 (\<lparr>guards = [5 \<mapsto> [1]], weaks = [1 \<mapsto> \<lparr>wp_ptr = Some 9, wp_guard = Some 5\<rparr>],
        objs = Map.empty, fresh = 0\<rparr> :: nat wp_store) = Inr s1 \<and>
     guard_delete 5 (\<lparr>guards = [5 \<mapsto> [1]], weaks = [1 \<mapsto> \<lparr>wp_ptr = Some 9, wp_guard = Some 5\<rparr>],
        objs = Map.empty, fresh = 0\<rparr> :: nat wp_store) = Inr s2 \<and>
     (\<forall>s' \<in> {s1, s2}. wp_get 1 s' = Inl (InvalidPtr ''Data guard is invalid''))"
proof -
  let ?s = "\<lparr>guards = [5 \<mapsto> [1]], weaks = [1 \<mapsto> \<lparr>wp_ptr = Some 9, wp_guard = Some 5\<rparr>],
        objs = Map.empty, fresh = 0\<rparr> :: nat wp_store"
  have "wp_reachable False (\<lparr>guards = [5 \<mapsto> []], weaks = Map.empty, objs = Map.empty, fresh = 0\<rparr> :: nat wp_store)"
    by (rule wp_step [OF wp_start, where op = "GuardNew 5"]) (simp_all add: wp_empty_store_def guard_new_def)
  then have "wp_reachable False ?s"
    by (rule wp_step [where op = "WpNew 1 (Some 9) (Some 5)"])
       (simp_all add: wp_new_def register_valid_def register_ptr_def put_weak_def)
  from cleared_guard_invalidates_pointers [OF this, of 5 1] show ?thesis by (simp add: guard_of_def)
qed

text \<open>Even if it returned, the body of the move assignment of a guard forgets the pointers that were registered with its target:
  such a pointer still counts as valid after the guard has been destroyed, still hands out the
  resource, and its destructor uses the destroyed guard.\<close>

theorem guard_move_assignment_leaves_pointers_dangling:
  assumes "wp_reachable own s" "weaks s p \<noteq> None" "guard_of s p = Some g" "g \<noteq> src" "guards s src \<noteq> None"
  shows "\<exists>s1 s2. guard_take_over g src s = Inr s1 \<and> guard_delete g s1 = Inr s2 \<and> guards s2 g = None \<and>
    wp_get p s2 = Inr (ptr_of s p) \<and> wp_delete own p s2 = Inl Undefined"
proof -
  have reg: "reg_inv {} s" using wp_reachable_inv [OF assms(1)] by (simp add: wp_inv_def)
  obtain r where r: "guards s src = Some r" using assms(5) by auto
  have g: "guards s g \<noteq> None" using reg_invD [OF reg _ assms(3)] by simp
  let ?s = "s\<lparr>guards := (guards s)(src \<mapsto> [], g \<mapsto> r)\<rparr>"
  have live: "\<forall>q \<in> set r. guard_of s q = Some src \<and> weaks s q \<noteq> None" using registered_live [OF reg r] by simp
  then have pr: "p \<notin> set r" using assms(3,4) by auto
  obtain s1 where s1: "redirect (Some g) r ?s = Inr s1" "guards s1 = guards ?s" "guard_of s1 p = Some g"
    "ptr_of s1 = ptr_of s" "\<And>q. weaks s1 q = None \<longleftrightarrow> weaks s q = None"
    using redirect_ok [of r ?s "Some g"] live pr assms(3) by auto
  have g1: "guards s1 g = Some r" by (simp add: s1(2))
  obtain s2 where s2: "redirect None r s1 = Inr s2" "guards s2 = guards s1" "guard_of s2 p = Some g" "ptr_of s2 = ptr_of s"
    "\<And>q. weaks s2 q = None \<longleftrightarrow> weaks s q = None"
    using redirect_ok [of r s1 None] live pr s1 by auto
  let ?t = "s2\<lparr>guards := (guards s1)(g := None)\<rparr>"
  have "guard_delete g s1 = Inr ?t" using g1 s2(1,2) by (simp add: guard_delete_def guard_clear_def)
  moreover have "wp_get p ?t = Inr (ptr_of s p)" using s2 assms(2) by (simp add: wp_get_views)
  moreover have "wp_delete own p ?t = Inl Undefined"
    using s2(3,5) assms(2) by (auto simp: wp_delete_def the_weak_def unregister_valid_def unregister_ptr_def guard_of_def
      split: option.splits)
  moreover have "guard_take_over g src s = Inr s1" using r g assms(4) s1(1) by (auto simp: guard_take_over_def)
  ultimately show ?thesis by auto
qed

theorem guard_move_assignment_leaves_pointers_dangling_witness:
  "\<exists>s1 s2. guard_take_over 5 6 (\<lparr>guards = [5 \<mapsto> [1], 6 \<mapsto> []], weaks = [1 \<mapsto> \<lparr>wp_ptr = Some 9, wp_guard = Some 5\<rparr>],
        objs = Map.empty, fresh = 0\<rparr> :: nat wp_store) = Inr s1 \<and> guard_delete 5 s1 = Inr s2 \<and> guards s2 5 = None \<and>
     wp_get 1 s2 = Inr (Some 9) \<and> wp_delete False 1 s2 = Inl Undefined"
proof -
  let ?s = "\<lparr>guards = [5 \<mapsto> [1], 6 \<mapsto> []], weaks = [1 \<mapsto> \<lparr>wp_ptr = Some 9, wp_guard = Some 5\<rparr>],
        objs = Map.empty, fresh = 0\<rparr> :: nat wp_store"
  have "wp_reachable False (\<lparr>guards = [5 \<mapsto> []], weaks = Map.empty, objs = Map.empty, fresh = 0\<rparr> :: nat wp_store)"
    by (rule wp_step [OF wp_start, where op = "GuardNew 5"]) (simp_all add: wp_empty_store_def guard_new_def)
  then have "wp_reachable False (\<lparr>guards = [5 \<mapsto> [], 6 \<mapsto> []], weaks = Map.empty, objs = Map.empty, fresh = 0\<rparr> :: nat wp_store)"
    by (rule wp_step [where op = "GuardNew 6"]) (simp_all add: guard_new_def)
  then have "wp_reachable False ?s"
    by (rule wp_step [where op = "WpNew 1 (Some 9) (Some 5)"])
       (auto simp: wp_new_def register_valid_def register_ptr_def put_weak_def)
  from guard_move_assignment_leaves_pointers_dangling [OF this, of 1 5 6] show ?thesis by (simp add: wp_views)
qed

end
