(* ===== verification/CppSet.thy ===== *)
theory CppSet
  imports Prelude
begin

text \<open>
  \<open>libdnf::Set<T>\<close> (include/libdnf/utils/set.hpp): a \<open>std::set<T>\<close>, here the ascending list of its
  elements, with the set algorithms of the standard library on it. The locale \<open>set_interface\<close> is what
  clients of a set type rely on; the interpretation \<open>cs\<close> gives it for \<open>Set<T>\<close>.
\<close>

section \<open>The interface\<close>

locale set_interface =
  fixes elems :: "'s \<Rightarrow> 'a set"
    and invar :: "'s \<Rightarrow> bool"
    and none :: 's
    and add :: "'a \<Rightarrow> 's \<Rightarrow> 's"
    and del :: "'a \<Rightarrow> 's \<Rightarrow> 's"
    and has :: "'s \<Rightarrow> 'a \<Rightarrow> bool"
    and join :: "'s \<Rightarrow> 's \<Rightarrow> 's"
    and meet :: "'s \<Rightarrow> 's \<Rightarrow> 's"
    and minus :: "'s \<Rightarrow> 's \<Rightarrow> 's"
  assumes none: "invar none \<and> elems none = {}"
    and add: "invar s \<Longrightarrow> invar (add x s) \<and> elems (add x s) = insert x (elems s)"
    and del: "invar s \<Longrightarrow> invar (del x s) \<and> elems (del x s) = elems s - {x}"
    and has: "invar s \<Longrightarrow> has s x \<longleftrightarrow> x \<in> elems s"
    and join: "invar s \<Longrightarrow> invar t \<Longrightarrow> invar (join s t) \<and> elems (join s t) = elems s \<union> elems t"
    and meet: "invar s \<Longrightarrow> invar t \<Longrightarrow> invar (meet s t) \<and> elems (meet s t) = elems s \<inter> elems t"
    and minus: "invar s \<Longrightarrow> invar t \<Longrightarrow> invar (minus s t) \<and> elems (minus s t) = elems s - elems t"
begin

lemmas laws = none add del has join meet minus

lemma add_all: "invar s \<Longrightarrow> invar (fold add xs s) \<and> elems (fold add xs s) = set xs \<union> elems s"
  by (induction xs arbitrary: s) (use add in auto)

lemma has_after_add: "invar s \<Longrightarrow> has (add x s) y \<longleftrightarrow> y = x \<or> has s y"
  using laws by auto

lemma has_after_del: "invar s \<Longrightarrow> has (del x s) y \<longleftrightarrow> y \<noteq> x \<and> has s y"
  using laws by auto

lemma del_add_absent: "invar s \<Longrightarrow> \<not> has s x \<Longrightarrow> elems (del x (add x s)) = elems s"
  using laws by auto

lemma update_then_difference:
  "invar s \<Longrightarrow> invar t \<Longrightarrow> elems s \<inter> elems t = {} \<Longrightarrow> elems (minus (join s t) t) = elems s"
  using laws by auto

end

section \<open>The algorithms of the standard library\<close>

primrec std_insert :: "'a :: linorder \<Rightarrow> 'a list \<Rightarrow> 'a list" where
  "std_insert x [] = [x]"
| "std_insert x (y # ys) = (if y < x then y # std_insert x ys else if x < y then x # y # ys else y # ys)"

primrec std_erase :: "'a :: linorder \<Rightarrow> 'a list \<Rightarrow> 'a list" where
  "std_erase x [] = []"
| "std_erase x (y # ys) = (if y < x then y # std_erase x ys else if x < y then y # ys else ys)"

primrec std_find :: "'a :: linorder \<Rightarrow> 'a list \<Rightarrow> bool" where
  "std_find x [] = False"
| "std_find x (y # ys) = (if y < x then std_find x ys else \<not> x < y)"

fun set_union_range :: "'a :: linorder list \<Rightarrow> 'a list \<Rightarrow> 'a list" where
  "set_union_range [] ys = ys"
| "set_union_range xs [] = xs"
| "set_union_range (x # xs) (y # ys) =
     (if x < y then x # set_union_range xs (y # ys)
      else if y < x then y # set_union_range (x # xs) ys
      else x # set_union_range xs ys)"

fun set_intersection_range :: "'a :: linorder list \<Rightarrow> 'a list \<Rightarrow> 'a list" where
  "set_intersection_range [] ys = []"
| "set_intersection_range xs [] = []"
| "set_intersection_range (x # xs) (y # ys) =
     (if x < y then set_intersection_range xs (y # ys)
      else if y < x then set_intersection_range (x # xs) ys
      else x # set_intersection_range xs ys)"

fun set_difference_range :: "'a :: linorder list \<Rightarrow> 'a list \<Rightarrow> 'a list" where
  "set_difference_range [] ys = []"
| "set_difference_range xs [] = xs"
| "set_difference_range (x # xs) (y # ys) =
     (if x < y then x # set_difference_range xs (y # ys)
      else if y < x then set_difference_range (x # xs) ys
      else set_difference_range xs ys)"

fun set_symmetric_difference_range :: "'a :: linorder list \<Rightarrow> 'a list \<Rightarrow> 'a list" where
  "set_symmetric_difference_range [] ys = ys"
| "set_symmetric_difference_range xs [] = xs"
| "set_symmetric_difference_range (x # xs) (y # ys) =
     (if x < y then x # set_symmetric_difference_range xs (y # ys)
      else if y < x then y # set_symmetric_difference_range (x # xs) ys
      else set_symmetric_difference_range xs ys)"

fun includes_range :: "'a :: linorder list \<Rightarrow> 'a list \<Rightarrow> bool" where
  "includes_range xs [] = True"
| "includes_range [] ys = False"
| "includes_range (x # xs) (y # ys) =
     (if y < x then False
      else if x < y then includes_range xs (y # ys)
      else includes_range xs ys)"

section \<open>Set\<close>

text \<open>\<open>std::inserter(result, result.begin())\<close>\<close>

definition set_of_range :: "'a :: linorder list \<Rightarrow> 'a list" where
  "set_of_range xs = fold std_insert xs []"

definition set_from_list :: "'a :: linorder list \<Rightarrow> 'a list" where
  "set_from_list ilist = fold std_insert ilist []"

definition set_is_empty :: "'a list \<Rightarrow> bool" where
  "set_is_empty s \<longleftrightarrow> s = []"

definition set_size :: "'a list \<Rightarrow> nat" where
  "set_size s = length s"

definition set_clear :: "'a list \<Rightarrow> 'a list" where
  "set_clear s = []"

definition set_add :: "'a :: linorder \<Rightarrow> 'a list \<Rightarrow> 'a list" where
  "set_add x s = std_insert x s"

definition set_remove :: "'a :: linorder \<Rightarrow> 'a list \<Rightarrow> 'a list" where
  "set_remove x s = std_erase x s"

definition set_contains :: "'a :: linorder list \<Rightarrow> 'a \<Rightarrow> bool" where
  "set_contains s x = std_find x s"

definition set_update :: "'a :: linorder list \<Rightarrow> 'a list \<Rightarrow> 'a list" where
  "set_update s other = set_of_range (set_union_range s other)"

definition set_intersection :: "'a :: linorder list \<Rightarrow> 'a list \<Rightarrow> 'a list" where
  "set_intersection s other = set_of_range (set_intersection_range s other)"

definition set_difference :: "'a :: linorder list \<Rightarrow> 'a list \<Rightarrow> 'a list" where
  "set_difference s other = set_of_range (set_difference_range s other)"

definition set_symmetric_difference :: "'a :: linorder list \<Rightarrow> 'a list \<Rightarrow> 'a list" where
  "set_symmetric_difference s other = set_of_range (set_symmetric_difference_range s other)"

definition set_is_subset :: "'a :: linorder list \<Rightarrow> 'a list \<Rightarrow> bool" where
  "set_is_subset s other = includes_range other s"

definition set_is_superset :: "'a :: linorder list \<Rightarrow> 'a list \<Rightarrow> bool" where
  "set_is_superset s other = includes_range s other"

section \<open>Set is a set\<close>

definition ascending :: "'a :: linorder list \<Rightarrow> bool" where
  "ascending xs = sorted_wrt (<) xs"

lemma ascending_simps [simp]:
  "ascending []" "ascending (x # xs) \<longleftrightarrow> (\<forall>y \<in> set xs. x < y) \<and> ascending xs"
  by (simp_all add: ascending_def)

lemma ascending_heads:
  assumes "ascending (x # xs)" "ascending (y # ys)"
  shows "x \<notin> set xs" "y \<notin> set ys" "x < y \<Longrightarrow> x \<notin> set ys" "y < x \<Longrightarrow> y \<notin> set xs"
  using assms less_asym less_trans by fastforce+

lemma std_insert_set [simp]: "set (std_insert x xs) = insert x (set xs)"
  by (induction xs) auto

lemma std_insert_ascending: "ascending xs \<Longrightarrow> ascending (std_insert x xs)"
  by (induction xs) auto

lemma std_erase_set: "ascending xs \<Longrightarrow> set (std_erase x xs) = set xs - {x}"
  by (induction xs) auto

lemma std_erase_ascending: "ascending xs \<Longrightarrow> ascending (std_erase x xs)"
  by (induction xs) (auto simp: std_erase_set)

lemma std_find_set: "ascending xs \<Longrightarrow> std_find x xs \<longleftrightarrow> x \<in> set xs"
  by (induction xs) auto

lemma set_union_range_set: "set (set_union_range xs ys) = set xs \<union> set ys"
  by (induction xs ys rule: set_union_range.induct) auto

lemma set_intersection_range_set:
  "ascending xs \<Longrightarrow> ascending ys \<Longrightarrow> set (set_intersection_range xs ys) = set xs \<inter> set ys"
  by (induction xs ys rule: set_intersection_range.induct) auto

lemma set_difference_range_set:
  "ascending xs \<Longrightarrow> ascending ys \<Longrightarrow> set (set_difference_range xs ys) = set xs - set ys"
proof (induction xs ys rule: set_difference_range.induct)
  case (3 x xs y ys)
  note out = ascending_heads [OF "3.prems"]
  show ?case
  proof (cases x y rule: linorder_cases)
    case less
    then show ?thesis using "3.IH"(1) "3.prems" out by auto
  next
    case equal
    then show ?thesis using "3.IH"(3) "3.prems" out by auto
  next
    case greater
    then show ?thesis using "3.IH"(2) "3.prems" out by auto
  qed
qed auto

lemma set_symmetric_difference_range_set:
  "ascending xs \<Longrightarrow> ascending ys \<Longrightarrow>
     set (set_symmetric_difference_range xs ys) = (set xs - set ys) \<union> (set ys - set xs)"
proof (induction xs ys rule: set_symmetric_difference_range.induct)
  case (3 x xs y ys)
  note out = ascending_heads [OF "3.prems"]
  show ?case
  proof (cases x y rule: linorder_cases)
    case less
    then show ?thesis using "3.IH"(1) "3.prems" out by auto
  next
    case equal
    then show ?thesis using "3.IH"(3) "3.prems" out by auto
  next
    case greater
    then show ?thesis using "3.IH"(2) "3.prems" out by auto
  qed
qed auto

lemma includes_range_set: "ascending xs \<Longrightarrow> ascending ys \<Longrightarrow> includes_range xs ys \<longleftrightarrow> set ys \<subseteq> set xs"
proof (induction xs ys rule: includes_range.induct)
  case (3 x xs y ys)
  note out = ascending_heads [OF "3.prems"]
  show ?case
  proof (cases x y rule: linorder_cases)
    case less
    then show ?thesis using "3.IH"(1) "3.prems" out by auto
  next
    case equal
    then show ?thesis using "3.IH"(2) "3.prems" out by auto
  next
    case greater
    then show ?thesis using out by auto
  qed
qed auto

lemma set_of_range_set [simp]: "set (set_of_range xs) = set xs" "ascending (set_of_range xs)"
proof -
  have "set (fold std_insert xs acc) = set xs \<union> set acc" "ascending acc \<Longrightarrow> ascending (fold std_insert xs acc)" for acc
    by (induction xs arbitrary: acc) (auto simp: std_insert_ascending)
  then show "set (set_of_range xs) = set xs" "ascending (set_of_range xs)" by (simp_all add: set_of_range_def)
qed

lemmas set_op_defs = set_add_def set_remove_def set_contains_def set_update_def set_intersection_def
  set_difference_def set_symmetric_difference_def set_clear_def

interpretation cs: set_interface set ascending "[]" set_add set_remove set_contains set_update set_intersection set_difference
  by unfold_locales
     (simp_all add: set_op_defs std_insert_ascending std_erase_set std_erase_ascending std_find_set
       set_union_range_set set_intersection_range_set set_difference_range_set)

lemma set_op_simps [simp]:
  "ascending s \<Longrightarrow> set (set_add x s) = insert x (set s)" "ascending s \<Longrightarrow> ascending (set_add x s)"
  "ascending s \<Longrightarrow> ascending t \<Longrightarrow> set (set_update s t) = set s \<union> set t"
  "ascending s \<Longrightarrow> ascending t \<Longrightarrow> ascending (set_update s t)"
  "ascending s \<Longrightarrow> ascending t \<Longrightarrow> set (set_difference s t) = set s - set t"
  "ascending s \<Longrightarrow> ascending t \<Longrightarrow> ascending (set_difference s t)"
  using cs.laws by blast+

lemma ascending_unique: "ascending xs \<Longrightarrow> ascending ys \<Longrightarrow> set xs = set ys \<Longrightarrow> xs = ys"
  unfolding ascending_def
  using strict_sorted_equal by blast

section \<open>The properties\<close>

text \<open>The operators of \<open>Set<T>\<close>, which merge ranges, are the operations on sets: union,
  intersection, difference, symmetric difference and the two comparisons, and every result is
  again ascending without duplicates, so that \<open>size\<close> is the number of elements.\<close>

theorem set_operators_are_set_operations:
  assumes "ascending s" "ascending t"
  shows "set (set_update s t) = set s \<union> set t \<and> set (set_intersection s t) = set s \<inter> set t \<and>
    set (set_difference s t) = set s - set t \<and>
    set (set_symmetric_difference s t) = (set s - set t) \<union> (set t - set s) \<and>
    (set_is_subset s t \<longleftrightarrow> set s \<subseteq> set t) \<and> (set_is_superset s t \<longleftrightarrow> set t \<subseteq> set s) \<and>
    ascending (set_update s t) \<and> ascending (set_intersection s t) \<and> ascending (set_difference s t) \<and>
    ascending (set_symmetric_difference s t) \<and> set_size s = card (set s)"
proof -
  have "distinct s" using assms(1) unfolding ascending_def by (simp add: strict_sorted_iff)
  then show ?thesis
    using cs.join [OF assms] cs.meet [OF assms] cs.minus [OF assms] includes_range_set [OF assms]
      includes_range_set [OF assms(2,1)] set_symmetric_difference_range_set [OF assms]
    by (simp add: set_symmetric_difference_def set_is_subset_def set_is_superset_def set_size_def distinct_card)
qed

theorem set_operators_are_set_operations_witness:
  "set (set_symmetric_difference [1, 3, 5] [3, 4 :: nat]) = ({1, 3, 5} - {3, 4}) \<union> ({3, 4} - {1, 3, 5})"
  using set_operators_are_set_operations [of "[1, 3, 5]" "[3, 4 :: nat]"] by simp

end
