(* ===== verification/Sack.thy ===== *)
theory Sack
  imports CppSet CppString "HOL-Library.Word"
begin

unbundle bit_operations_syntax

text \<open>
  Sacks and queries (include/libdnf/common/sack, libdnf/common/sack): the comparison operators
  \<open>QueryCmp\<close>, the matching of values, \<open>Query<T>::ifilter\<close> in its ten forms and the \<open>Sack\<close> with its
  includes and excludes. \<open>fnmatch\<close> and \<open>std::regex\<close> are the record \<open>matchers\<close>, an argument.
\<close>

section \<open>QueryCmp\<close>

text \<open>An enum of 32 bits with flags: the combinations of \<open>operator|\<close> need not be a named value.\<close>

type_synonym query_cmp = "32 word"

definition cmp_or :: "query_cmp \<Rightarrow> query_cmp \<Rightarrow> query_cmp" where
  "cmp_or lhs rhs = lhs OR rhs"

definition cmp_and :: "query_cmp \<Rightarrow> query_cmp \<Rightarrow> query_cmp" where
  "cmp_and lhs rhs = lhs AND rhs"

definition cmp_minus :: "query_cmp \<Rightarrow> query_cmp \<Rightarrow> query_cmp" where
  "cmp_minus lhs rhs = lhs - rhs"

definition CMP_NOT :: query_cmp where "CMP_NOT = push_bit 0 1"
definition CMP_ICASE :: query_cmp where "CMP_ICASE = push_bit 1 1"
definition CMP_ISNULL :: query_cmp where "CMP_ISNULL = push_bit 7 1"
definition CMP_EQ :: query_cmp where "CMP_EQ = push_bit 8 1"
definition CMP_NEQ :: query_cmp where "CMP_NEQ = CMP_NOT OR CMP_EQ"
definition CMP_GT :: query_cmp where "CMP_GT = push_bit 9 1"
definition CMP_GTE :: query_cmp where "CMP_GTE = CMP_GT OR CMP_EQ"
definition CMP_LT :: query_cmp where "CMP_LT = push_bit 10 1"
definition CMP_LTE :: query_cmp where "CMP_LTE = CMP_LT OR CMP_EQ"
definition CMP_EXACT :: query_cmp where "CMP_EXACT = CMP_EQ"
definition CMP_IEXACT :: query_cmp where "CMP_IEXACT = CMP_ICASE OR CMP_EXACT"
definition CMP_NOT_IEXACT :: query_cmp where "CMP_NOT_IEXACT = CMP_NOT OR CMP_IEXACT"
definition CMP_CONTAINS :: query_cmp where "CMP_CONTAINS = push_bit 16 1"
definition CMP_NOT_CONTAINS :: query_cmp where "CMP_NOT_CONTAINS = CMP_NOT OR CMP_CONTAINS"
definition CMP_ICONTAINS :: query_cmp where "CMP_ICONTAINS = CMP_ICASE OR CMP_CONTAINS"
definition CMP_NOT_ICONTAINS :: query_cmp where "CMP_NOT_ICONTAINS = CMP_NOT OR CMP_ICONTAINS"
definition CMP_STARTSWITH :: query_cmp where "CMP_STARTSWITH = push_bit 17 1"
definition CMP_ISTARTSWITH :: query_cmp where "CMP_ISTARTSWITH = CMP_ICASE OR CMP_STARTSWITH"
definition CMP_ENDSWITH :: query_cmp where "CMP_ENDSWITH = push_bit 18 1"
definition CMP_IENDSWITH :: query_cmp where "CMP_IENDSWITH = CMP_ICASE OR CMP_ENDSWITH"
definition CMP_REGEX :: query_cmp where "CMP_REGEX = push_bit 19 1"
definition CMP_IREGEX :: query_cmp where "CMP_IREGEX = CMP_ICASE OR CMP_REGEX"
definition CMP_GLOB :: query_cmp where "CMP_GLOB = push_bit 20 1"
definition CMP_NOT_GLOB :: query_cmp where "CMP_NOT_GLOB = CMP_NOT OR CMP_GLOB"
definition CMP_IGLOB :: query_cmp where "CMP_IGLOB = CMP_ICASE OR CMP_GLOB"
definition CMP_NOT_IGLOB :: query_cmp where "CMP_NOT_IGLOB = CMP_NOT OR CMP_IGLOB"

lemmas cmp_defs = CMP_NOT_def CMP_ICASE_def CMP_ISNULL_def CMP_EQ_def CMP_NEQ_def CMP_GT_def CMP_GTE_def
  CMP_LT_def CMP_LTE_def CMP_EXACT_def CMP_IEXACT_def CMP_NOT_IEXACT_def CMP_CONTAINS_def CMP_NOT_CONTAINS_def
  CMP_ICONTAINS_def CMP_NOT_ICONTAINS_def CMP_STARTSWITH_def CMP_ISTARTSWITH_def CMP_ENDSWITH_def CMP_IENDSWITH_def
  CMP_REGEX_def CMP_IREGEX_def CMP_GLOB_def CMP_NOT_GLOB_def CMP_IGLOB_def CMP_NOT_IGLOB_def

section \<open>Matching one value\<close>

datatype query_error =
    UnsupportedOperator
  | FlagStandalone
  | NotImplementedYet
  | RegexError
  | NullString
  | NotExactlyOne

definition match_int64 :: "int \<Rightarrow> query_cmp \<Rightarrow> int \<Rightarrow> query_error + bool" where
  "match_int64 v cmp pattern =
     (if cmp = CMP_EQ then Inr (v = pattern)
      else if cmp = CMP_NEQ then Inr (v \<noteq> pattern)
      else if cmp = CMP_LT then Inr (v < pattern)
      else if cmp = CMP_LTE then Inr (v \<le> pattern)
      else if cmp = CMP_GT then Inr (v > pattern)
      else if cmp = CMP_GTE then Inr (v \<ge> pattern)
      else if cmp \<in> {CMP_IEXACT, CMP_NOT_IEXACT, CMP_GLOB, CMP_NOT_GLOB, CMP_IGLOB, CMP_NOT_IGLOB, CMP_REGEX,
          CMP_IREGEX, CMP_CONTAINS, CMP_NOT_CONTAINS, CMP_ICONTAINS, CMP_NOT_ICONTAINS, CMP_STARTSWITH,
          CMP_ISTARTSWITH, CMP_ENDSWITH, CMP_IENDSWITH, CMP_ISNULL} then Inl UnsupportedOperator
      else if cmp \<in> {CMP_NOT, CMP_ICASE} then Inl FlagStandalone
      else Inr False)"

text \<open>\<open>fnmatch(pattern, value, flags) == 0\<close> with the extended patterns, and \<open>std::regex_match\<close>, where
  \<open>None\<close> is a pattern that does not compile.\<close>

record matchers =
  fn_match :: "bool \<Rightarrow> string \<Rightarrow> string \<Rightarrow> bool"
  regex_match :: "bool \<Rightarrow> string \<Rightarrow> string \<Rightarrow> bool option"

definition lower_string :: "string \<Rightarrow> string" where
  "lower_string s = map to_lower s"

definition regex_result :: "bool option \<Rightarrow> query_error + bool" where
  "regex_result r = (case r of None \<Rightarrow> Inl RegexError | Some b \<Rightarrow> Inr b)"

definition match_string :: "matchers \<Rightarrow> string \<Rightarrow> query_cmp \<Rightarrow> string \<Rightarrow> query_error + bool" where
  "match_string m v cmp pattern =
     (if cmp = CMP_EXACT then Inr (v = pattern)
      else if cmp = CMP_NEQ then Inr (v \<noteq> pattern)
      else if cmp = CMP_IEXACT then Inr (lower_string v = lower_string pattern)
      else if cmp = CMP_GLOB then Inr (fn_match m False pattern v)
      else if cmp = CMP_IGLOB then Inr (fn_match m True pattern v)
      else if cmp = CMP_REGEX then regex_result (regex_match m False pattern v)
      else if cmp = CMP_IREGEX then regex_result (regex_match m True pattern v)
      else if cmp \<in> {CMP_NOT_GLOB, CMP_NOT_IGLOB, CMP_NOT_IEXACT, CMP_CONTAINS, CMP_NOT_CONTAINS, CMP_ICONTAINS,
          CMP_NOT_ICONTAINS, CMP_STARTSWITH, CMP_ISTARTSWITH, CMP_ENDSWITH, CMP_IENDSWITH} then Inl NotImplementedYet
      else if cmp \<in> {CMP_ISNULL, CMP_LT, CMP_LTE, CMP_GT, CMP_GTE} then Inl UnsupportedOperator
      else if cmp \<in> {CMP_NOT, CMP_ICASE} then Inl FlagStandalone
      else Inr False)"

section \<open>Matching several values or patterns\<close>

text \<open>The loops: the first match ends them, and so does the first exception.\<close>

primrec any_match :: "('b \<Rightarrow> query_error + bool) \<Rightarrow> 'b list \<Rightarrow> query_error + bool" where
  "any_match f [] = Inr False"
| "any_match f (x # xs) = and_then (f x) (\<lambda>r. if r then Inr True else any_match f xs)"

definition match_int64_patterns :: "int \<Rightarrow> query_cmp \<Rightarrow> int list \<Rightarrow> query_error + bool" where
  "match_int64_patterns v cmp patterns = any_match (\<lambda>pattern. match_int64 v cmp pattern) patterns"

definition match_int64_values :: "int list \<Rightarrow> query_cmp \<Rightarrow> int \<Rightarrow> query_error + bool" where
  "match_int64_values values cmp pattern = any_match (\<lambda>v. match_int64 v cmp pattern) values"

definition match_int64_values_patterns :: "int list \<Rightarrow> query_cmp \<Rightarrow> int list \<Rightarrow> query_error + bool" where
  "match_int64_values_patterns values cmp patterns =
     any_match (\<lambda>v. any_match (\<lambda>pattern. match_int64 v cmp pattern) patterns) values"

definition match_string_patterns :: "matchers \<Rightarrow> string \<Rightarrow> query_cmp \<Rightarrow> string list \<Rightarrow> query_error + bool" where
  "match_string_patterns m v cmp patterns = any_match (\<lambda>pattern. match_string m v cmp pattern) patterns"

definition match_string_values :: "matchers \<Rightarrow> string list \<Rightarrow> query_cmp \<Rightarrow> string \<Rightarrow> query_error + bool" where
  "match_string_values m values cmp pattern = any_match (\<lambda>v. match_string m v cmp pattern) values"

definition match_string_values_patterns ::
  "matchers \<Rightarrow> string list \<Rightarrow> query_cmp \<Rightarrow> string list \<Rightarrow> query_error + bool" where
  "match_string_values_patterns m values cmp patterns =
     any_match (\<lambda>v. any_match (\<lambda>pattern. match_string m v cmp pattern) patterns) values"

section \<open>Query\<close>

text \<open>The loop of \<open>ifilter\<close>: an element that does not match is erased; an exception ends the loop, the
  elements before it already filtered and the others still there.\<close>

primrec erase_loop :: "('a \<Rightarrow> query_error + bool) \<Rightarrow> 'a list \<Rightarrow> 'a list \<times> query_error option" where
  "erase_loop keep [] = ([], None)"
| "erase_loop keep (x # xs) =
     (case keep x of
        Inl e \<Rightarrow> (x # xs, Some e)
      | Inr b \<Rightarrow> (let (ys, e) = erase_loop keep xs in (if b then x # ys else ys, e)))"

definition ifilter_string ::
  "matchers \<Rightarrow> ('a \<Rightarrow> string) \<Rightarrow> query_cmp \<Rightarrow> string \<Rightarrow> 'a list \<Rightarrow> 'a list \<times> query_error option" where
  "ifilter_string m getter cmp pattern q = erase_loop (\<lambda>x. match_string m (getter x) cmp pattern) q"

definition ifilter_strings ::
  "matchers \<Rightarrow> ('a \<Rightarrow> string list) \<Rightarrow> query_cmp \<Rightarrow> string \<Rightarrow> 'a list \<Rightarrow> 'a list \<times> query_error option" where
  "ifilter_strings m getter cmp pattern q = erase_loop (\<lambda>x. match_string_values m (getter x) cmp pattern) q"

definition ifilter_string_patterns ::
  "matchers \<Rightarrow> ('a \<Rightarrow> string) \<Rightarrow> query_cmp \<Rightarrow> string list \<Rightarrow> 'a list \<Rightarrow> 'a list \<times> query_error option" where
  "ifilter_string_patterns m getter cmp patterns q =
     erase_loop (\<lambda>x. match_string_patterns m (getter x) cmp patterns) q"

definition ifilter_strings_patterns ::
  "matchers \<Rightarrow> ('a \<Rightarrow> string list) \<Rightarrow> query_cmp \<Rightarrow> string list \<Rightarrow> 'a list \<Rightarrow> 'a list \<times> query_error option" where
  "ifilter_strings_patterns m getter cmp patterns q =
     erase_loop (\<lambda>x. match_string_values_patterns m (getter x) cmp patterns) q"

definition ifilter_int64 :: "('a \<Rightarrow> int) \<Rightarrow> query_cmp \<Rightarrow> int \<Rightarrow> 'a list \<Rightarrow> 'a list \<times> query_error option" where
  "ifilter_int64 getter cmp pattern q = erase_loop (\<lambda>x. match_int64 (getter x) cmp pattern) q"

definition ifilter_int64s :: "('a \<Rightarrow> int list) \<Rightarrow> query_cmp \<Rightarrow> int \<Rightarrow> 'a list \<Rightarrow> 'a list \<times> query_error option" where
  "ifilter_int64s getter cmp pattern q = erase_loop (\<lambda>x. match_int64_values (getter x) cmp pattern) q"

definition ifilter_int64_patterns ::
  "('a \<Rightarrow> int) \<Rightarrow> query_cmp \<Rightarrow> int list \<Rightarrow> 'a list \<Rightarrow> 'a list \<times> query_error option" where
  "ifilter_int64_patterns getter cmp patterns q = erase_loop (\<lambda>x. match_int64_patterns (getter x) cmp patterns) q"

definition ifilter_int64s_patterns ::
  "('a \<Rightarrow> int list) \<Rightarrow> query_cmp \<Rightarrow> int list \<Rightarrow> 'a list \<Rightarrow> 'a list \<times> query_error option" where
  "ifilter_int64s_patterns getter cmp patterns q =
     erase_loop (\<lambda>x. match_int64_values_patterns (getter x) cmp patterns) q"

definition ifilter_bool :: "('a \<Rightarrow> bool) \<Rightarrow> query_cmp \<Rightarrow> bool \<Rightarrow> 'a list \<Rightarrow> 'a list \<times> query_error option" where
  "ifilter_bool getter cmp pattern q = erase_loop (\<lambda>x. Inr (cmp = CMP_EQ \<and> getter x = pattern)) q"

text \<open>A getter of C strings: a null pointer has no string.\<close>

definition ifilter_cstring ::
  "matchers \<Rightarrow> ('a \<Rightarrow> string option) \<Rightarrow> query_cmp \<Rightarrow> string \<Rightarrow> 'a list \<Rightarrow> 'a list \<times> query_error option" where
  "ifilter_cstring m getter cmp pattern q =
     erase_loop (\<lambda>x. case getter x of None \<Rightarrow> Inl NullString | Some v \<Rightarrow> match_string m v cmp pattern) q"

definition query_get :: "'a list \<Rightarrow> query_error + 'a" where
  "query_get q = (if set_size q = 1 then Inr (hd q) else Inl NotExactlyOne)"

definition query_list :: "'a list \<Rightarrow> 'a list" where
  "query_list q = q"

section \<open>Sack\<close>

text \<open>The items are the addresses of the objects a sack owns; its sets hold weak pointers, which are
  compared by these addresses.\<close>

record sack =
  sack_data :: "nat list"
  sack_excludes :: "nat list"
  sack_includes :: "nat list"
  sack_use_includes :: bool

definition sack_new :: sack where
  "sack_new = \<lparr>sack_data = [], sack_excludes = [], sack_includes = [], sack_use_includes = False\<rparr>"

definition add_excludes :: "nat list \<Rightarrow> sack \<Rightarrow> sack" where
  "add_excludes v s = s\<lparr>sack_excludes := set_update (sack_excludes s) v\<rparr>"

definition remove_excludes :: "nat list \<Rightarrow> sack \<Rightarrow> sack" where
  "remove_excludes v s = s\<lparr>sack_excludes := set_difference (sack_excludes s) v\<rparr>"

definition set_excludes :: "nat list \<Rightarrow> sack \<Rightarrow> sack" where
  "set_excludes v s = s\<lparr>sack_excludes := v\<rparr>"

definition add_includes :: "nat list \<Rightarrow> sack \<Rightarrow> sack" where
  "add_includes v s = s\<lparr>sack_includes := set_update (sack_includes s) v\<rparr>"

definition remove_includes :: "nat list \<Rightarrow> sack \<Rightarrow> sack" where
  "remove_includes v s = s\<lparr>sack_includes := set_difference (sack_includes s) v\<rparr>"

definition set_includes :: "nat list \<Rightarrow> sack \<Rightarrow> sack" where
  "set_includes v s = s\<lparr>sack_includes := v\<rparr>"

definition set_use_includes :: "bool \<Rightarrow> sack \<Rightarrow> sack" where
  "set_use_includes b s = s\<lparr>sack_use_includes := b\<rparr>"

definition add_item :: "nat \<Rightarrow> sack \<Rightarrow> sack" where
  "add_item item s = s\<lparr>sack_data := sack_data s @ [item]\<rparr>"

definition add_item_with_return :: "nat \<Rightarrow> sack \<Rightarrow> nat \<times> sack" where
  "add_item_with_return item s = (item, s\<lparr>sack_data := sack_data s @ [item]\<rparr>)"

definition new_query :: "sack \<Rightarrow> nat list" where
  "new_query s =
     (let result = (if sack_use_includes s then sack_includes s else fold set_add (sack_data s) [])
      in set_difference result (sack_excludes s))"

end
