(* ===== verification/SackFacts.thy ===== *)
theory SackFacts
  imports Sack
begin

unbundle bit_operations_syntax

text \<open>
  What sacks and queries promise: the query a sack makes is the set expression of its items,
  includes and excludes; a filter keeps exactly the elements that match, unless it throws; and
  what the comparison operators mean for several patterns.
\<close>

section \<open>The operators\<close>

lemma cmp_values:
  "CMP_EQ = 0x100" "CMP_NEQ = 0x101" "CMP_GT = 0x200" "CMP_GTE = 0x300" "CMP_LT = 0x400" "CMP_LTE = 0x500" "CMP_EXACT = 0x100"
  by (simp_all add: cmp_defs push_bit_eq_mult)

lemma match_int64_simps [simp]:
  "match_int64 v CMP_EQ p = Inr (v = p)" "match_int64 v CMP_NEQ p = Inr (v \<noteq> p)"
  "match_int64 v CMP_LT p = Inr (v < p)" "match_int64 v CMP_LTE p = Inr (v \<le> p)"
  "match_int64 v CMP_GT p = Inr (v > p)" "match_int64 v CMP_GTE p = Inr (v \<ge> p)"
  by (simp_all add: match_int64_def cmp_values)

lemma match_string_simps [simp]:
  "match_string m v CMP_EQ p = Inr (v = p)" "match_string m v CMP_NEQ p = Inr (v \<noteq> p)"
  by (simp_all add: match_string_def cmp_values)

lemma any_match_pure [simp]: "any_match (\<lambda>x. Inr (P x)) xs = Inr (\<exists>x \<in> set xs. P x)"
  by (induction xs) auto

lemma match_patterns_simps [simp]:
  "match_int64_patterns v CMP_EQ ps = Inr (v \<in> set ps)"
  "match_string_patterns m t CMP_EQ ts = Inr (t \<in> set ts)"
  "match_string_patterns m t CMP_NEQ ts = Inr (\<exists>p \<in> set ts. t \<noteq> p)"
  by (auto simp: match_int64_patterns_def match_string_patterns_def)

lemma erase_loop_total: "(\<And>x. x \<in> set q \<Longrightarrow> f x = Inr (P x)) \<Longrightarrow> erase_loop f q = (filter P q, None)"
  by (induction q) auto

lemma erase_loop_none: "erase_loop f q = (q', None) \<Longrightarrow> q' = filter (\<lambda>x. f x = Inr True) q \<and> (\<forall>x \<in> set q. \<exists>b. f x = Inr b)"
  by (induction q arbitrary: q') (fastforce split: sum.splits prod.splits if_splits)+

text \<open>Where a filter throws: at the first element whose match throws, the query then being the
  filtered elements before it and all from it on.\<close>

lemma erase_loop_some:
  "erase_loop f q = (q', Some e) \<Longrightarrow>
     \<exists>before x after. q = before @ x # after \<and> f x = Inl e \<and> (\<forall>y \<in> set before. \<exists>b. f y = Inr b) \<and>
       q' = filter (\<lambda>y. f y = Inr True) before @ x # after"
proof (induction q arbitrary: q')
  case (Cons y q)
  show ?case
  proof (cases "f y")
    case (Inl e')
    then show ?thesis using Cons.prems by (intro exI [of _ "[]"]) auto
  next
    case (Inr b)
    obtain r where r: "erase_loop f q = (r, Some e)" "q' = (if b then y # r else r)"
      using Cons.prems Inr by (cases "erase_loop f q") (auto split: if_splits)
    obtain before x after where "q = before @ x # after" "f x = Inl e" "\<forall>y \<in> set before. \<exists>b. f y = Inr b"
      "r = filter (\<lambda>y. f y = Inr True) before @ x # after"
      using Cons.IH [OF r(1)] by blast
    then show ?thesis using r(2) Inr by (intro exI [of _ "y # before"] exI [of _ x] exI [of _ after]) auto
  qed
qed simp

lemma erase_loop_ascending: "ascending q \<Longrightarrow> ascending (fst (erase_loop f q)) \<and> set (fst (erase_loop f q)) \<subseteq> set q"
  by (induction q) (auto split: sum.splits prod.splits)

section \<open>A client of a sack\<close>

datatype sack_op =
    AddItem nat
  | AddExcludes "nat list"
  | RemoveExcludes "nat list"
  | SetExcludes "nat list"
  | AddIncludes "nat list"
  | RemoveIncludes "nat list"
  | SetIncludes "nat list"
  | UseIncludes bool

fun sack_exec :: "sack_op \<Rightarrow> sack \<Rightarrow> sack" where
  "sack_exec (AddItem i) s = add_item i s"
| "sack_exec (AddExcludes v) s = add_excludes v s"
| "sack_exec (RemoveExcludes v) s = remove_excludes v s"
| "sack_exec (SetExcludes v) s = set_excludes v s"
| "sack_exec (AddIncludes v) s = add_includes v s"
| "sack_exec (RemoveIncludes v) s = remove_includes v s"
| "sack_exec (SetIncludes v) s = set_includes v s"
| "sack_exec (UseIncludes b) s = set_use_includes b s"

text \<open>The specification: the items, excludes and includes as sets.\<close>

record sack_spec =
  spec_items :: "nat set"
  spec_out :: "nat set"
  spec_in :: "nat set"
  spec_use :: bool

fun spec_exec :: "sack_op \<Rightarrow> sack_spec \<Rightarrow> sack_spec" where
  "spec_exec (AddItem i) s = s\<lparr>spec_items := insert i (spec_items s)\<rparr>"
| "spec_exec (AddExcludes v) s = s\<lparr>spec_out := spec_out s \<union> set v\<rparr>"
| "spec_exec (RemoveExcludes v) s = s\<lparr>spec_out := spec_out s - set v\<rparr>"
| "spec_exec (SetExcludes v) s = s\<lparr>spec_out := set v\<rparr>"
| "spec_exec (AddIncludes v) s = s\<lparr>spec_in := spec_in s \<union> set v\<rparr>"
| "spec_exec (RemoveIncludes v) s = s\<lparr>spec_in := spec_in s - set v\<rparr>"
| "spec_exec (SetIncludes v) s = s\<lparr>spec_in := set v\<rparr>"
| "spec_exec (UseIncludes b) s = s\<lparr>spec_use := b\<rparr>"

fun op_sets_ok :: "sack_op \<Rightarrow> bool" where
  "op_sets_ok (AddExcludes v) = ascending v"
| "op_sets_ok (RemoveExcludes v) = ascending v"
| "op_sets_ok (SetExcludes v) = ascending v"
| "op_sets_ok (AddIncludes v) = ascending v"
| "op_sets_ok (RemoveIncludes v) = ascending v"
| "op_sets_ok (SetIncludes v) = ascending v"
| "op_sets_ok _ = True"

definition sack_abs :: "sack \<Rightarrow> sack_spec" where
  "sack_abs s =
     \<lparr>spec_items = set (sack_data s), spec_out = set (sack_excludes s), spec_in = set (sack_includes s),
      spec_use = sack_use_includes s\<rparr>"

definition sack_ok :: "sack \<Rightarrow> bool" where
  "sack_ok s \<longleftrightarrow> ascending (sack_excludes s) \<and> ascending (sack_includes s)"

lemma sack_exec_refines:
  "sack_ok s \<Longrightarrow> op_sets_ok op \<Longrightarrow> sack_ok (sack_exec op s) \<and> sack_abs (sack_exec op s) = spec_exec op (sack_abs s)"
  by (cases op) (auto simp: sack_ok_def sack_abs_def add_item_def add_excludes_def remove_excludes_def set_excludes_def
      add_includes_def remove_includes_def set_includes_def set_use_includes_def)

lemma sack_run_refines:
  "sack_ok s \<Longrightarrow> \<forall>op \<in> set ops. op_sets_ok op \<Longrightarrow>
     sack_ok (fold sack_exec ops s) \<and> sack_abs (fold sack_exec ops s) = fold spec_exec ops (sack_abs s)"
  by (induction ops arbitrary: s) (auto simp: sack_exec_refines)

lemma new_query_set:
  assumes "sack_ok s"
  shows "ascending (new_query s) \<and>
    set (new_query s) = (if sack_use_includes s then set (sack_includes s) else set (sack_data s)) - set (sack_excludes s)"
  using assms cs.add_all [of "[]" "sack_data s"] by (auto simp: new_query_def sack_ok_def)

section \<open>The properties\<close>

text \<open>C20. After any operations on a new sack, a new query holds the items added (or, when includes are
  used, the includes) less the excludes, each once and in order, the sets of includes and
  excludes being what the operations on sets make of them.\<close>

theorem sack_query_is_includes_minus_excludes:
  assumes "\<forall>op \<in> set ops. op_sets_ok op"
    "fold spec_exec ops \<lparr>spec_items = {}, spec_out = {}, spec_in = {}, spec_use = False\<rparr> = sp"
  shows "ascending (new_query (fold sack_exec ops sack_new)) \<and>
    set (new_query (fold sack_exec ops sack_new)) = (if spec_use sp then spec_in sp else spec_items sp) - spec_out sp"
proof -
  have "sack_ok sack_new" "sack_abs sack_new = \<lparr>spec_items = {}, spec_out = {}, spec_in = {}, spec_use = False\<rparr>"
    by (simp_all add: sack_ok_def sack_abs_def sack_new_def)
  then have "sack_ok (fold sack_exec ops sack_new)" "sack_abs (fold sack_exec ops sack_new) = sp"
    using sack_run_refines [of sack_new ops] assms by simp_all
  note run = this new_query_set [OF this(1)]
  have "sp = sack_abs (fold sack_exec ops sack_new)" by (simp only: run(2))
  then show ?thesis using run(3) by (simp add: sack_abs_def)
qed

theorem sack_query_is_includes_minus_excludes_witness:
  "set (new_query (fold sack_exec [AddItem 7, AddItem 3, AddItem 5, AddExcludes [3, 4]] sack_new)) = {7, 5, 3} - {3, 4}"
  using sack_query_is_includes_minus_excludes [of "[AddItem 7, AddItem 3, AddItem 5, AddExcludes [3, 4]]"] by auto

text \<open>A comparison and its opposite split a query: for each of the three pairs of operators the
  two filtered queries have no element in common and together are the query, and no filter of
  numbers by one of them throws.\<close>

theorem int64_filters_split_query:
  assumes "(cmp, opposite) \<in> {(CMP_EQ, CMP_NEQ), (CMP_LT, CMP_GTE), (CMP_GT, CMP_LTE)}"
  shows "\<exists>a b. ifilter_int64 getter cmp pattern q = (a, None) \<and> ifilter_int64 getter opposite pattern q = (b, None) \<and>
    set a \<union> set b = set q \<and> set a \<inter> set b = {} \<and> length a + length b = length q"
proof -
  have split: "\<exists>P. (\<forall>x. match_int64 (getter x) cmp pattern = Inr (P x)) \<and>
      (\<forall>x. match_int64 (getter x) opposite pattern = Inr (\<not> P x))"
    using assms by (auto simp: not_less not_le intro: exI [of _ "\<lambda>x. getter x = pattern"]
      exI [of _ "\<lambda>x. getter x < pattern"] exI [of _ "\<lambda>x. getter x > pattern"])
  then obtain P where "\<And>x. match_int64 (getter x) cmp pattern = Inr (P x)"
    "\<And>x. match_int64 (getter x) opposite pattern = Inr (\<not> P x)" by blast
  then have "ifilter_int64 getter cmp pattern q = (filter P q, None)"
    "ifilter_int64 getter opposite pattern q = (filter (\<lambda>x. \<not> P x) q, None)"
    by (simp_all add: ifilter_int64_def erase_loop_total)
  then show ?thesis using sum_length_filter_compl [of P q] by auto
qed

theorem int64_filters_split_query_witness:
  "\<exists>a b. ifilter_int64 int CMP_LT 4 [1, 4, 9 :: nat] = (a, None) \<and> ifilter_int64 int CMP_GTE 4 [1, 4, 9] = (b, None) \<and>
    set a \<union> set b = set [1, 4, 9] \<and> set a \<inter> set b = {} \<and> length a + length b = length [1, 4, 9 :: nat]"
  by (rule int64_filters_split_query) simp

text \<open>A filter for strings that differ from several patterns filters nothing: \<open>NEQ\<close> asks whether the
  value differs from any of the patterns, which every value does as soon as two of them are
  different.\<close>

theorem neq_patterns_filter_nothing:
  assumes "a \<in> set patterns" "b \<in> set patterns" "a \<noteq> b"
  shows "ifilter_string_patterns m getter CMP_NEQ patterns q = (q, None)"
proof -
  have "\<exists>p \<in> set patterns. getter x \<noteq> p" for x using assms by metis
  then show ?thesis by (simp add: ifilter_string_patterns_def erase_loop_total [where P = "\<lambda>_. True"])
qed

theorem neq_patterns_filter_nothing_witness:
  "ifilter_string_patterns \<lparr>fn_match = \<lambda>_ _ _. False, regex_match = \<lambda>_ _ _. None\<rparr> (\<lambda>x. x) CMP_NEQ [''x'', ''y'']
     [''x'', ''y'', ''z''] = ([''x'', ''y'', ''z''], None)"
  by (rule neq_patterns_filter_nothing [of "''x''" _ "''y''"]) simp_all

text \<open>A filter that throws leaves the query half filtered: the elements before the one that threw
  are filtered, and that one and all after it are still there; without a throw exactly the
  matching elements remain.\<close>

theorem throwing_filter_leaves_prefix_filtered:
  assumes "ifilter_strings m getter cmp pattern q = (q', r)"
  shows "case r of
      None \<Rightarrow> q' = filter (\<lambda>x. match_string_values m (getter x) cmp pattern = Inr True) q
    | Some e \<Rightarrow> \<exists>before x after. q = before @ x # after \<and> match_string_values m (getter x) cmp pattern = Inl e \<and>
        q' = filter (\<lambda>x. match_string_values m (getter x) cmp pattern = Inr True) before @ x # after"
proof (cases r)
  case None
  then show ?thesis using erase_loop_none assms unfolding ifilter_strings_def by fastforce
next
  case (Some e)
  then show ?thesis
    using erase_loop_some [of "\<lambda>x. match_string_values m (getter x) cmp pattern" q q' e] assms
    unfolding ifilter_strings_def by auto
qed

theorem throwing_filter_leaves_prefix_filtered_witness:
  "\<exists>before x after. [[], [''b''], []] = before @ x # after \<and>
     match_string_values \<lparr>fn_match = \<lambda>_ _ _. False, regex_match = \<lambda>_ _ _. None\<rparr> x CMP_REGEX ''('' = Inl RegexError \<and>
     [[''b''], []] = filter (\<lambda>x. match_string_values \<lparr>fn_match = \<lambda>_ _ _. False, regex_match = \<lambda>_ _ _. None\<rparr> x
       CMP_REGEX ''('' = Inr True) before @ x # after"
  using throwing_filter_leaves_prefix_filtered [of "\<lparr>fn_match = \<lambda>_ _ _. False, regex_match = \<lambda>_ _ _. None\<rparr>" "\<lambda>x. x"
      CMP_REGEX "''(''" "[[], [''b''], []]" "[[''b''], []]" "Some RegexError"]
  by (simp add: ifilter_strings_def match_string_values_def match_string_def cmp_defs push_bit_eq_mult regex_result_def)

end
