(* ===== verification/ArgumentParser.thy ===== *)
theory ArgumentParser
  imports ConfigObjects
begin

text \<open>
  microdnf's \<open>ArgumentParser\<close> (microdnf/argument_parser.hpp, argument_parser.cpp). The parser owns its
  commands, named and positional arguments, so that a pointer to one is an index into the list it
  is stored in; the options and the vectors of values that arguments write to are stores in the same
  way. A \<open>parse_hook\<close> is client code: it is an argument and changes the client's state only.
  A command line is the list of its arguments, \<open>argv + i\<close> the list without its first \<open>i\<close>.
\<close>

section \<open>Arguments\<close>

datatype arg_ref = Command nat | NamedArg nat | PositionalArg nat

record arg_common =
  arg_name :: string
  arg_description :: string
  arg_short_description :: string
  arg_conflicts :: "nat option"
  arg_count :: nat

record named_arg = arg_common +
  na_long_name :: string
  na_short_name :: char
  na_has_arg :: bool
  na_const_val :: string
  na_value :: "nat option"
  na_store_value :: bool

record positional_arg = arg_common +
  pa_nargs :: int
  pa_init_value :: "nat option"
  pa_values :: nat
  pa_store_value :: bool

record command = arg_common +
  cm_cmds :: "nat list"
  cm_named_args :: "nat list"
  cm_pos_args :: "nat list"

record 'c arg_parser =
  ap_cmds :: "command list"
  ap_named :: "named_arg list"
  ap_pos :: "positional_arg list"
  ap_groups :: "arg_ref list list"
  ap_opts :: "any_option list"
  ap_values :: "nat list list"
  ap_root :: "nat option"
  ap_client :: 'c

datatype arg_error =
    ArgError string
  | OptionThrows option_error
  | HookThrows string
  | OutOfBounds
  | NullPointer

record 'c arg_hooks =
  hook_command :: "nat \<Rightarrow> (string \<Rightarrow> string list \<Rightarrow> 'c \<Rightarrow> arg_error + 'c) option"
  hook_named :: "nat \<Rightarrow> (string \<Rightarrow> string \<Rightarrow> 'c \<Rightarrow> arg_error + 'c) option"
  hook_positional :: "nat \<Rightarrow> (string list \<Rightarrow> 'c \<Rightarrow> arg_error + 'c) option"

definition OPTIONAL :: int where "OPTIONAL = 0"
definition UNLIMITED :: int where "UNLIMITED = - 1"
definition UNLIMITED_BUT_ONE :: int where "UNLIMITED_BUT_ONE = - 2"

section \<open>Building a parser\<close>

definition add_new_command :: "string \<Rightarrow> 'c arg_parser \<Rightarrow> nat \<times> 'c arg_parser" where
  "add_new_command name s =
     (length (ap_cmds s),
      s\<lparr>ap_cmds := ap_cmds s @ [\<lparr>arg_name = name, arg_description = [], arg_short_description = [], arg_conflicts = None,
          arg_count = 0, cm_cmds = [], cm_named_args = [], cm_pos_args = []\<rparr>]\<rparr>)"

definition add_new_named_arg :: "string \<Rightarrow> 'c arg_parser \<Rightarrow> nat \<times> 'c arg_parser" where
  "add_new_named_arg name s =
     (length (ap_named s),
      s\<lparr>ap_named := ap_named s @ [\<lparr>arg_name = name, arg_description = [], arg_short_description = [], arg_conflicts = None,
          arg_count = 0, na_long_name = [], na_short_name = CHR 0x00, na_has_arg = False, na_const_val = [],
          na_value = None, na_store_value = True\<rparr>]\<rparr>)"

text \<open>The two constructors of a positional argument. The first one takes the number of values from the
  vector before it checks the pointer.\<close>

definition positional_arg_new ::
  "string \<Rightarrow> int \<Rightarrow> nat option \<Rightarrow> nat option \<Rightarrow> 'c arg_parser \<Rightarrow> arg_error + positional_arg" where
  "positional_arg_new name nargs init_value values s =
     (case values of
        None \<Rightarrow> Inl (ArgError ''PositionalArg: Error: values constructor parameter can't be nullptr'')
      | Some v \<Rightarrow>
          Inr \<lparr>arg_name = name, arg_description = [], arg_short_description = [], arg_conflicts = None, arg_count = 0,
               pa_nargs = nargs, pa_init_value = init_value, pa_values = v, pa_store_value = True\<rparr>)"

definition positional_arg_of_values :: "string \<Rightarrow> nat option \<Rightarrow> 'c arg_parser \<Rightarrow> arg_error + positional_arg" where
  "positional_arg_of_values name values s =
     (case values of
        None \<Rightarrow> Inl NullPointer
      | Some v \<Rightarrow>
          (if ap_values s ! v = []
           then Inl (ArgError ''PositionalArg: Error: values constructor parameter can't be nullptr or empty vector'')
           else Inr \<lparr>arg_name = name, arg_description = [], arg_short_description = [], arg_conflicts = None,
                arg_count = 0, pa_nargs = int (length (ap_values s ! v)), pa_init_value = None, pa_values = v,
                pa_store_value = True\<rparr>))"

definition add_positional_arg_of_values ::
  "string \<Rightarrow> nat option \<Rightarrow> 'c arg_parser \<Rightarrow> arg_error + nat \<times> 'c arg_parser" where
  "add_positional_arg_of_values name values s =
     and_then (positional_arg_of_values name values s)
       (\<lambda>a. Inr (length (ap_pos s), s\<lparr>ap_pos := ap_pos s @ [a]\<rparr>))"

definition add_new_positional_arg ::
  "string \<Rightarrow> int \<Rightarrow> nat option \<Rightarrow> nat option \<Rightarrow> 'c arg_parser \<Rightarrow> arg_error + nat \<times> 'c arg_parser" where
  "add_new_positional_arg name nargs init_value values s =
     and_then (positional_arg_new name nargs init_value values s)
       (\<lambda>a. Inr (length (ap_pos s), s\<lparr>ap_pos := ap_pos s @ [a]\<rparr>))"

definition add_conflict_args_group :: "arg_ref list \<Rightarrow> 'c arg_parser \<Rightarrow> nat \<times> 'c arg_parser" where
  "add_conflict_args_group args s = (length (ap_groups s), s\<lparr>ap_groups := ap_groups s @ [args]\<rparr>)"

definition add_init_value :: "any_option \<Rightarrow> 'c arg_parser \<Rightarrow> nat \<times> 'c arg_parser" where
  "add_init_value src s = (length (ap_opts s), s\<lparr>ap_opts := ap_opts s @ [src]\<rparr>)"

definition add_new_values :: "'c arg_parser \<Rightarrow> nat \<times> 'c arg_parser" where
  "add_new_values s = (length (ap_values s), s\<lparr>ap_values := ap_values s @ [[]]\<rparr>)"

definition add_values :: "nat list \<Rightarrow> 'c arg_parser \<Rightarrow> nat \<times> 'c arg_parser" where
  "add_values src s = (length (ap_values s), s\<lparr>ap_values := ap_values s @ [src]\<rparr>)"

definition set_root_command :: "nat \<Rightarrow> 'c arg_parser \<Rightarrow> 'c arg_parser" where
  "set_root_command c s = s\<lparr>ap_root := Some c\<rparr>"

definition at_command :: "nat \<Rightarrow> (command \<Rightarrow> command) \<Rightarrow> 'c arg_parser \<Rightarrow> 'c arg_parser" where
  "at_command c f s = s\<lparr>ap_cmds := (ap_cmds s)[c := f (ap_cmds s ! c)]\<rparr>"

definition at_named :: "nat \<Rightarrow> (named_arg \<Rightarrow> named_arg) \<Rightarrow> 'c arg_parser \<Rightarrow> 'c arg_parser" where
  "at_named k f s = s\<lparr>ap_named := (ap_named s)[k := f (ap_named s ! k)]\<rparr>"

definition at_positional :: "nat \<Rightarrow> (positional_arg \<Rightarrow> positional_arg) \<Rightarrow> 'c arg_parser \<Rightarrow> 'c arg_parser" where
  "at_positional k f s = s\<lparr>ap_pos := (ap_pos s)[k := f (ap_pos s ! k)]\<rparr>"

definition add_command :: "nat \<Rightarrow> nat \<Rightarrow> 'c arg_parser \<Rightarrow> 'c arg_parser" where
  "add_command c arg s = at_command c (\<lambda>x. x\<lparr>cm_cmds := cm_cmds x @ [arg]\<rparr>) s"

definition add_named_arg :: "nat \<Rightarrow> nat \<Rightarrow> 'c arg_parser \<Rightarrow> 'c arg_parser" where
  "add_named_arg c arg s = at_command c (\<lambda>x. x\<lparr>cm_named_args := cm_named_args x @ [arg]\<rparr>) s"

definition add_positional_arg :: "nat \<Rightarrow> nat \<Rightarrow> 'c arg_parser \<Rightarrow> 'c arg_parser" where
  "add_positional_arg c arg s = at_command c (\<lambda>x. x\<lparr>cm_pos_args := cm_pos_args x @ [arg]\<rparr>) s"

definition set_conflict_arguments :: "nat \<Rightarrow> 'a arg_common_scheme \<Rightarrow> 'a arg_common_scheme" where
  "set_conflict_arguments g a = a\<lparr>arg_conflicts := Some g\<rparr>"

definition set_description :: "string \<Rightarrow> 'a arg_common_scheme \<Rightarrow> 'a arg_common_scheme" where
  "set_description descr a = a\<lparr>arg_description := descr\<rparr>"

definition set_short_description :: "string \<Rightarrow> 'a arg_common_scheme \<Rightarrow> 'a arg_common_scheme" where
  "set_short_description descr a = a\<lparr>arg_short_description := descr\<rparr>"

definition set_long_name :: "string \<Rightarrow> named_arg \<Rightarrow> named_arg" where
  "set_long_name long_name a = a\<lparr>na_long_name := long_name\<rparr>"

definition set_short_name :: "char \<Rightarrow> named_arg \<Rightarrow> named_arg" where
  "set_short_name short_name a = a\<lparr>na_short_name := short_name\<rparr>"

definition set_has_arg :: "bool \<Rightarrow> named_arg \<Rightarrow> named_arg" where
  "set_has_arg has_arg a = a\<lparr>na_has_arg := has_arg\<rparr>"

definition link_value :: "nat option \<Rightarrow> named_arg \<Rightarrow> named_arg" where
  "link_value opt a = a\<lparr>na_value := opt\<rparr>"

definition set_const_value :: "string \<Rightarrow> named_arg \<Rightarrow> named_arg" where
  "set_const_value const_value a = a\<lparr>na_const_val := const_value\<rparr>"

definition named_set_store_value :: "bool \<Rightarrow> named_arg \<Rightarrow> named_arg" where
  "named_set_store_value enable a = a\<lparr>na_store_value := enable\<rparr>"

definition positional_set_store_value :: "bool \<Rightarrow> positional_arg \<Rightarrow> positional_arg" where
  "positional_set_store_value enable a = a\<lparr>pa_store_value := enable\<rparr>"

definition count_up :: "'a arg_common_scheme \<Rightarrow> 'a arg_common_scheme" where
  "count_up a = a\<lparr>arg_count := arg_count a + 1\<rparr>"

definition reset_arg :: "'a arg_common_scheme \<Rightarrow> 'a arg_common_scheme" where
  "reset_arg a = a\<lparr>arg_count := 0\<rparr>"

definition reset_parse_count :: "'c arg_parser \<Rightarrow> 'c arg_parser" where
  "reset_parse_count s =
     s\<lparr>ap_pos := map reset_arg (ap_pos s), ap_named := map reset_arg (ap_named s), ap_cmds := map reset_arg (ap_cmds s)\<rparr>"

section \<open>Lookup by name\<close>

definition get_command :: "nat \<Rightarrow> string \<Rightarrow> 'c arg_parser \<Rightarrow> arg_error + nat" where
  "get_command c name s =
     (case find (\<lambda>k. arg_name (ap_cmds s ! k) = name) (cm_cmds (ap_cmds s ! c)) of
        Some k \<Rightarrow> Inr k | None \<Rightarrow> Inl (ArgError ''Commnand not found''))"

definition get_named_arg :: "nat \<Rightarrow> string \<Rightarrow> 'c arg_parser \<Rightarrow> arg_error + nat" where
  "get_named_arg c name s =
     (case find (\<lambda>k. arg_name (ap_named s ! k) = name) (cm_named_args (ap_cmds s ! c)) of
        Some k \<Rightarrow> Inr k | None \<Rightarrow> Inl (ArgError ''Named argument not found''))"

definition get_positional_arg :: "nat \<Rightarrow> string \<Rightarrow> 'c arg_parser \<Rightarrow> arg_error + nat" where
  "get_positional_arg c name s =
     (case find (\<lambda>k. arg_name (ap_pos s ! k) = name) (cm_pos_args (ap_cmds s ! c)) of
        Some k \<Rightarrow> Inr k | None \<Rightarrow> Inl (ArgError ''Positional argument not found''))"

section \<open>Conflicts\<close>

fun count_of :: "'c arg_parser \<Rightarrow> arg_ref \<Rightarrow> nat" where
  "count_of s (Command k) = arg_count (ap_cmds s ! k)"
| "count_of s (NamedArg k) = arg_count (ap_named s ! k)"
| "count_of s (PositionalArg k) = arg_count (ap_pos s ! k)"

fun conflicts_of :: "'c arg_parser \<Rightarrow> arg_ref \<Rightarrow> nat option" where
  "conflicts_of s (Command k) = arg_conflicts (ap_cmds s ! k)"
| "conflicts_of s (NamedArg k) = arg_conflicts (ap_named s ! k)"
| "conflicts_of s (PositionalArg k) = arg_conflicts (ap_pos s ! k)"

definition get_conflict_argument :: "'c arg_parser \<Rightarrow> arg_ref \<Rightarrow> arg_ref option" where
  "get_conflict_argument s this =
     (case conflicts_of s this of
        None \<Rightarrow> None
      | Some g \<Rightarrow> find (\<lambda>arg. arg \<noteq> this \<and> count_of s arg > 0) (ap_groups s ! g))"

text \<open>The name of a named argument: the short name replaces the long one.\<close>

fun get_conflict_arg_msg :: "'c arg_parser \<Rightarrow> arg_ref \<Rightarrow> string" where
  "get_conflict_arg_msg s (NamedArg k) =
     (let a = ap_named s ! k;
          conflict = (if na_long_name a \<noteq> [] then ''\"--'' @ na_long_name a @ ''\"'' else []);
          conflict = (if na_long_name a \<noteq> [] \<and> na_short_name a \<noteq> CHR 0x00 then conflict @ ''/'' else conflict);
          conflict = (if na_short_name a \<noteq> CHR 0x00 then ''\"-'' @ [na_short_name a] @ ''\"'' else conflict)
      in ''not allowed with argument '' @ conflict)"
| "get_conflict_arg_msg s (Command k) = ''not allowed with command '' @ arg_name (ap_cmds s ! k)"
| "get_conflict_arg_msg s (PositionalArg k) = ''not allowed with positional argument '' @ arg_name (ap_pos s ! k)"

definition no_conflict :: "'c arg_parser \<Rightarrow> arg_ref \<Rightarrow> (string \<Rightarrow> string) \<Rightarrow> arg_error + unit" where
  "no_conflict s this msg =
     (case get_conflict_argument s this of
        Some arg \<Rightarrow> Inl (ArgError (msg (get_conflict_arg_msg s arg)))
      | None \<Rightarrow> Inr ())"

section \<open>Parsing one argument\<close>

definition store_option :: "world \<Rightarrow> nat \<Rightarrow> string \<Rightarrow> 'c arg_parser \<Rightarrow> arg_error + 'c arg_parser" where
  "store_option w k v s =
     (case any_set w COMMANDLINE v (ap_opts s ! k) of
        Inl e \<Rightarrow> Inl (OptionThrows e)
      | Inr x \<Rightarrow> Inr (s\<lparr>ap_opts := (ap_opts s)[k := x]\<rparr>))"

definition run_hook :: "('c \<Rightarrow> arg_error + 'c) option \<Rightarrow> 'c arg_parser \<Rightarrow> arg_error + 'c arg_parser" where
  "run_hook hook s =
     (case hook of
        None \<Rightarrow> Inr s
      | Some f \<Rightarrow> and_then (f (ap_client s)) (\<lambda>c. Inr (s\<lparr>ap_client := c\<rparr>)))"

text \<open>The loop over the values of a positional argument: the option for a value past the vector is a
  clone of the initial value.\<close>

primrec store_values :: "world \<Rightarrow> positional_arg \<Rightarrow> nat \<Rightarrow> string list \<Rightarrow> 'c arg_parser \<Rightarrow> arg_error + 'c arg_parser" where
  "store_values w a i [] s = Inr s"
| "store_values w a i (v # vs) s =
     and_then
       (if length (ap_values s ! pa_values a) \<le> i then
          (case pa_init_value a of
             None \<Rightarrow> Inl NullPointer
           | Some k \<Rightarrow>
               Inr (s\<lparr>ap_opts := ap_opts s @ [ap_opts s ! k],
                     ap_values := (ap_values s)[pa_values a := ap_values s ! pa_values a @ [length (ap_opts s)]]\<rparr>))
        else Inr s)
       (\<lambda>s. and_then (store_option w (ap_values s ! pa_values a ! i) v s) (\<lambda>s. store_values w a (i + 1) vs s))"

definition positional_parse ::
  "'c arg_hooks \<Rightarrow> world \<Rightarrow> nat \<Rightarrow> string \<Rightarrow> string list \<Rightarrow> 'c arg_parser \<Rightarrow> arg_error + nat \<times> 'c arg_parser" where
  "positional_parse h w k opt args s =
     (let a = ap_pos s ! k in
      and_then (no_conflict s (PositionalArg k) (\<lambda>conflict. ''positional argument \"'' @ opt @ ''\": '' @ conflict)) (\<lambda>_.
        if int (length args) < pa_nargs a then Inl (ArgError ''Not enough parameters'')
        else
          (let count = (if pa_nargs a > 0 then nat (pa_nargs a) else if pa_nargs a = OPTIONAL then 1 else length args) in
           and_then (if pa_store_value a then store_values w a 0 (take count args) s else Inr s) (\<lambda>s.
             let s = at_positional k count_up s in
             and_then (run_hook (map_option (\<lambda>f. f args) (hook_positional h k)) s) (\<lambda>s. Inr (count, s))))))"

text \<open>\<open>strchr(option, '=')\<close>, the text after it.\<close>

definition assigned :: "string \<Rightarrow> string option" where
  "assigned opt = (case dropWhile (\<lambda>c. c \<noteq> CHR ''='') opt of [] \<Rightarrow> None | _ # v \<Rightarrow> Some v)"

text \<open>The common end of \<open>parse_long\<close> and \<open>parse_short\<close>.\<close>

definition named_finish ::
  "'c arg_hooks \<Rightarrow> world \<Rightarrow> nat \<Rightarrow> string \<Rightarrow> string \<Rightarrow> nat \<Rightarrow> 'c arg_parser \<Rightarrow> arg_error + nat \<times> 'c arg_parser" where
  "named_finish h w k opt arg_value consumed s =
     (let a = ap_named s ! k in
      and_then (case na_value a of
                  Some v \<Rightarrow> (if na_store_value a then store_option w v arg_value s else Inr s)
                | None \<Rightarrow> Inr s) (\<lambda>s.
        let s = at_named k count_up s in
        and_then (run_hook (map_option (\<lambda>f. f opt arg_value) (hook_named h k)) s) (\<lambda>s. Inr (consumed, s))))"

definition parse_long ::
  "'c arg_hooks \<Rightarrow> world \<Rightarrow> nat \<Rightarrow> string \<Rightarrow> string list \<Rightarrow> 'c arg_parser \<Rightarrow> arg_error + nat \<times> 'c arg_parser" where
  "parse_long h w k opt args s =
     (let a = ap_named s ! k in
      and_then (no_conflict s (NamedArg k) (\<lambda>conflict. ''argument \"--'' @ opt @ ''\": '' @ conflict)) (\<lambda>_.
        if na_has_arg a then
          (case assigned opt of
             Some v \<Rightarrow> named_finish h w k opt v 1 s
           | None \<Rightarrow>
               (if length args < 2 then Inl (ArgError ''Not enough arguments'')
                else named_finish h w k opt (args ! 1) 2 s))
        else
          (case assigned opt of
             Some v \<Rightarrow> Inl (ArgError (''NamedArg: Error: Unexpected argument \"'' @ v @ ''\"''))
           | None \<Rightarrow> named_finish h w k opt (na_const_val a) 1 s)))"

text \<open>The message of \<open>parse_short\<close> has the format \<open>{:.1}\<close> for the conflict, which keeps one character
  of it. Several options can share one argument: only the last one of the group consumes it.\<close>

definition parse_short ::
  "'c arg_hooks \<Rightarrow> world \<Rightarrow> nat \<Rightarrow> string \<Rightarrow> string list \<Rightarrow> 'c arg_parser \<Rightarrow> arg_error + nat \<times> 'c arg_parser" where
  "parse_short h w k opt args s =
     (let a = ap_named s ! k in
      and_then (no_conflict s (NamedArg k) (\<lambda>conflict. ''argument \"-'' @ opt @ ''\": '' @ take 1 conflict)) (\<lambda>_.
        if na_has_arg a then
          (if length opt > 1 then named_finish h w k opt (drop 1 opt) 1 s
           else if length args < 2 then Inl (ArgError ''Not enough arguments'')
           else named_finish h w k opt (args ! 1) 2 s)
        else named_finish h w k opt (na_const_val a) (if length opt = 1 then 1 else 0) s))"

section \<open>Parsing a command line\<close>

text \<open>\<open>tmp[i]\<close> of a C string: the byte after the last is the terminator, past it there is nothing.\<close>

definition c_char :: "string \<Rightarrow> nat \<Rightarrow> arg_error + char" where
  "c_char str i =
     (if i < length str then Inr (str ! i) else if i = length str then Inr (CHR 0x00) else Inl OutOfBounds)"

definition long_matches :: "string \<Rightarrow> string \<Rightarrow> bool" where
  "long_matches tmp long_name \<longleftrightarrow>
     (if assigned tmp \<noteq> None then takeWhile (\<lambda>c. c \<noteq> CHR ''='') tmp = long_name else long_name = tmp)"

text \<open>The loop over the named arguments: the first that matches is parsed; the result is the number
  of arguments consumed and the next index into a group of short options.\<close>

primrec try_named ::
  "'c arg_hooks \<Rightarrow> world \<Rightarrow> bool \<Rightarrow> string \<Rightarrow> string list \<Rightarrow> nat \<Rightarrow> nat list \<Rightarrow> 'c arg_parser \<Rightarrow>
     arg_error + (nat \<times> nat \<times> 'c arg_parser) option" where
  "try_named h w long_option tmp args idx [] s = Inr None"
| "try_named h w long_option tmp args idx (k # ks) s =
     (let a = ap_named s ! k in
      if long_option then
        (if na_long_name a \<noteq> [] \<and> long_matches tmp (na_long_name a)
         then and_then (parse_long h w k tmp args s) (\<lambda>(n, s). Inr (Some (n, idx, s)))
         else try_named h w long_option tmp args idx ks s)
      else
        (if na_short_name a = CHR 0x00 then try_named h w long_option tmp args idx ks s
         else
           and_then (c_char tmp idx) (\<lambda>c.
             if na_short_name a = c
             then and_then (parse_short h w k (drop idx tmp) args s) (\<lambda>(n, s).
                    Inr (Some (if n > 0 then (n, 0, s) else (0, idx + 1, s))))
             else try_named h w long_option tmp args idx ks s)))"

definition try_option ::
  "'c arg_hooks \<Rightarrow> world \<Rightarrow> nat \<Rightarrow> string list \<Rightarrow> nat \<Rightarrow> 'c arg_parser \<Rightarrow>
     arg_error + (nat \<times> nat \<times> 'c arg_parser) option" where
  "try_option h w c args idx s =
     (case args ! 0 of
        [] \<Rightarrow> Inr None
      | ch # rest \<Rightarrow>
          (if ch = CHR ''-'' then
             (case rest of
                d # rest' \<Rightarrow> (if d = CHR ''-'' then try_named h w True rest' args idx (cm_named_args (ap_cmds s ! c)) s
                             else try_named h w False rest args idx (cm_named_args (ap_cmds s ! c)) s)
              | [] \<Rightarrow> try_named h w False rest args idx (cm_named_args (ap_cmds s ! c)) s)
           else Inr None))"

definition find_command :: "'c arg_parser \<Rightarrow> nat \<Rightarrow> string \<Rightarrow> nat option" where
  "find_command s c arg = find (\<lambda>k. arg_name (ap_cmds s ! k) = arg) (cm_cmds (ap_cmds s ! c))"

definition command_finish ::
  "'c arg_hooks \<Rightarrow> nat \<Rightarrow> string \<Rightarrow> string list \<Rightarrow> 'c arg_parser \<Rightarrow> arg_error + 'c arg_parser" where
  "command_finish h c opt argv s =
     run_hook (map_option (\<lambda>f. f opt argv) (hook_command h c)) (at_command c count_up s)"

text \<open>What a step consumes, for the termination of the loop.\<close>

lemma named_finish_consumed: "named_finish h w k opt v n s = Inr (n', s') \<Longrightarrow> n' = n"
  by (simp add: named_finish_def Let_def and_then_Inr_iff) blast

lemma parse_short_zero:
  assumes "parse_short h w k opt args s = Inr (0, s')" "opt \<noteq> []"
  shows "1 < length opt"
proof (rule ccontr)
  assume "\<not> 1 < length opt"
  then have "length opt = 1" using assms(2) by (cases opt) auto
  then show False using assms(1)
    by (auto simp: parse_short_def Let_def and_then_Inr_iff split: if_splits dest!: named_finish_consumed)
qed

lemma parse_long_consumes: "parse_long h w k opt args s = Inr (n, s') \<Longrightarrow> 0 < n"
  by (auto simp: parse_long_def Let_def and_then_Inr_iff split: if_splits option.splits dest!: named_finish_consumed)

lemma c_char_nonzero: "c_char str i = Inr c \<Longrightarrow> c \<noteq> CHR 0x00 \<Longrightarrow> i < length str"
  by (auto simp: c_char_def split: if_splits)

text \<open>Either an argument is consumed or the next short option of the group is ahead.\<close>

definition progress :: "string \<Rightarrow> nat \<Rightarrow> nat \<Rightarrow> nat \<Rightarrow> bool" where
  "progress tmp idx n idx' \<longleftrightarrow> n > 0 \<or> (idx' = Suc idx \<and> Suc idx < length tmp)"

lemma try_named_progress:
  "try_named h w lo tmp args idx ks s = Inr (Some (n, idx', s')) \<Longrightarrow> progress tmp idx n idx'"
proof (induction ks)
  case (Cons k ks)
  let ?a = "ap_named s ! k"
  show ?case
  proof (cases lo)
    case True
    then show ?thesis using Cons
      by (auto simp: Let_def and_then_Inr_iff progress_def split: if_splits dest: parse_long_consumes)
  next
    case short: False
    show ?thesis
    proof (cases "na_short_name ?a \<noteq> CHR 0x00 \<and> c_char tmp idx = Inr (na_short_name ?a)")
      case False
      then show ?thesis using Cons short by (auto simp: Let_def and_then_Inr_iff split: if_splits)
    next
      case True
      then have i: "idx < length tmp" using c_char_nonzero by blast
      obtain m t where m: "parse_short h w k (drop idx tmp) args s = Inr (m, t)"
        "(n, idx', s') = (if m > 0 then (m, 0, t) else (0, idx + 1, t))"
        using Cons.prems True short by (auto simp: Let_def and_then_Inr_iff)
      show ?thesis
      proof (cases "m = 0")
        case False
        then show ?thesis using m(2) by (simp add: progress_def)
      next
        case zero: True
        then have "1 < length (drop idx tmp)" using m(1) i parse_short_zero [of h w k "drop idx tmp"] by simp
        then show ?thesis using m(2) zero by (simp add: progress_def)
      qed
    qed
  qed
qed simp

text \<open>The rest of an argument after its dashes.\<close>

lemma try_option_progress:
  assumes "try_option h w c args idx s = Inr (Some (n, idx', s'))"
  shows "n > 0 \<or> (idx' = Suc idx \<and> Suc idx < length (args ! 0))"
proof -
  obtain ch rest where a: "args ! 0 = ch # rest" using assms by (cases "args ! 0") (auto simp: try_option_def)
  have "progress rest idx n idx' \<or> progress (tl rest) idx n idx'"
    using assms a by (auto simp: try_option_def split: if_splits list.splits dest!: try_named_progress)
  then show ?thesis using a by (auto simp: progress_def)
qed

lemma positional_consumes:
  "positional_parse h w k opt args s = Inr (n, s') \<Longrightarrow> args \<noteq> [] \<Longrightarrow> 0 < n"
  by (auto simp: positional_parse_def Let_def and_then_Inr_iff split: if_splits)

function command_parse ::
    "'c arg_hooks \<Rightarrow> world \<Rightarrow> nat \<Rightarrow> string \<Rightarrow> string list \<Rightarrow> 'c arg_parser \<Rightarrow> arg_error + 'c arg_parser" and
  command_loop ::
    "'c arg_hooks \<Rightarrow> world \<Rightarrow> nat \<Rightarrow> string \<Rightarrow> string list \<Rightarrow> nat \<Rightarrow> nat \<Rightarrow> nat \<Rightarrow> 'c arg_parser \<Rightarrow>
      arg_error + 'c arg_parser" where
  "command_parse h w c opt argv s = command_loop h w c opt argv 1 0 0 s"
| "command_loop h w c opt argv i used_values idx s =
     (if i < length argv then
        (case try_option h w c (drop i argv) idx s of
           Inl e \<Rightarrow> Inl e
         | Inr (Some (n, idx', s')) \<Rightarrow> command_loop h w c opt argv (i + n) used_values idx' s'
         | Inr None \<Rightarrow>
             (case find_command s c (argv ! i) of
                Some k \<Rightarrow>
                  (case no_conflict s (Command c) (\<lambda>conflict. ''command \"'' @ opt @ ''\": '' @ conflict) of
                     Inl e \<Rightarrow> Inl e
                   | Inr _ \<Rightarrow>
                       (case command_parse h w k (argv ! i) (drop i argv) s of
                          Inl e \<Rightarrow> Inl e
                        | Inr s' \<Rightarrow> command_loop h w c opt argv (length argv) used_values idx s'))
              | None \<Rightarrow>
                  (let pos_args = cm_pos_args (ap_cmds s ! c) in
                   if used_values < length pos_args then
                     (case positional_parse h w (pos_args ! used_values) (argv ! i) (drop i argv) s of
                        Inl e \<Rightarrow> Inl e
                      | Inr (n, s') \<Rightarrow> command_loop h w c opt argv (i + n + 1) (used_values + 1) idx s')
                   else command_loop h w c opt argv (i + 1) used_values idx s)))
      else command_finish h c opt argv s)"
  by pat_completeness auto

text \<open>The rest of the command line, then the rest of a group of short options, shrinks.\<close>

definition rest_measure :: "nat \<Rightarrow> nat" where
  "rest_measure n = (if n = 0 then 1 else 2 * n - 1)"

lemma rest_measure_bounds: "2 * (n - Suc 0) < rest_measure n" "0 < n \<Longrightarrow> rest_measure n < 2 * n"
  by (auto simp: rest_measure_def)

lemma rest_shrinks: "i < l \<Longrightarrow> l - (i + a) < l - i \<longleftrightarrow> 0 < a" for a i l :: nat
  by arith

termination command_parse
  by (relation "measures
    [case_sum (\<lambda>(h, w, c, opt, argv, s). rest_measure (length argv))
              (\<lambda>(h, w, c, opt, argv, i, used_values, idx, s). 2 * (length argv - i)),
     case_sum (\<lambda>_. 0) (\<lambda>(h, w, c, opt, argv, i, used_values, idx, s). length (argv ! i) - idx)]")
    (auto simp: rest_measure_bounds rest_shrinks dest!: try_option_progress)

declare command_parse.simps [simp del] command_loop.simps [simp del]

definition arguments_parse :: "'c arg_hooks \<Rightarrow> world \<Rightarrow> string list \<Rightarrow> 'c arg_parser \<Rightarrow> arg_error + 'c arg_parser" where
  "arguments_parse h w argv s =
     (case ap_root s of
        None \<Rightarrow> Inl (ArgError ''ArgumentParser: Error: root command is not set'')
      | Some c \<Rightarrow> command_parse h w c (argv ! 0) argv s)"

end
