(* ===== verification/ArgumentFacts.thy ===== *)
theory ArgumentFacts
  imports ArgumentParser
begin

text \<open>
  What parsing a command line does: mutually exclusive arguments exclude each other, long options
  get the text after the equals sign, and the two places where the loop loses arguments.
\<close>

section \<open>What one argument changes\<close>

text \<open>Parsing an argument changes its count, options, values and the client's state.\<close>

definition counted :: "arg_ref \<Rightarrow> 'c arg_parser \<Rightarrow> 'c arg_parser \<Rightarrow> bool" where
  "counted a s s' \<longleftrightarrow>
     ap_groups s' = ap_groups s \<and> (\<forall>x. conflicts_of s' x = conflicts_of s x) \<and>
     (\<forall>x. x \<noteq> a \<longrightarrow> count_of s' x = count_of s x)"

text \<open>What stays when only options, values and the client's state change.\<close>

definition same_args :: "'c arg_parser \<Rightarrow> 'c arg_parser \<Rightarrow> bool" where
  "same_args s s' \<longleftrightarrow>
     ap_cmds s' = ap_cmds s \<and> ap_named s' = ap_named s \<and> ap_pos s' = ap_pos s \<and> ap_groups s' = ap_groups s \<and>
     ap_root s' = ap_root s"

lemma same_args_refl [simp]: "same_args s s"
  by (simp add: same_args_def)

lemma same_args_trans: "same_args s t \<Longrightarrow> same_args t u \<Longrightarrow> same_args s u"
  by (simp add: same_args_def)

lemma store_option_same: "store_option w k v s = Inr s' \<Longrightarrow> same_args s s'"
  by (auto simp: store_option_def same_args_def split: sum.splits)

lemma run_hook_same: "run_hook f s = Inr s' \<Longrightarrow> same_args s s'"
  by (auto simp: run_hook_def same_args_def and_then_Inr_iff split: option.splits)

lemma store_values_same: "store_values w a i vs s = Inr s' \<Longrightarrow> same_args s s'"
proof (induction vs arbitrary: i s)
  case (Cons v vs)
  obtain t where t: "(if length (ap_values s ! pa_values a) \<le> i then
        (case pa_init_value a of
           None \<Rightarrow> Inl NullPointer
         | Some k \<Rightarrow>
             Inr (s\<lparr>ap_opts := ap_opts s @ [ap_opts s ! k],
                   ap_values := (ap_values s)[pa_values a := ap_values s ! pa_values a @ [length (ap_opts s)]]\<rparr>))
      else Inr s) = Inr t" "and_then (store_option w (ap_values t ! pa_values a ! i) v t) (store_values w a (i + 1) vs) = Inr s'"
    using Cons.prems by (simp only: store_values.simps and_then_Inr_iff) blast
  then obtain u where u: "store_option w (ap_values t ! pa_values a ! i) v t = Inr u" "store_values w a (i + 1) vs u = Inr s'"
    by (auto simp: and_then_Inr_iff)
  have "same_args s t" using t(1) by (auto simp: same_args_def split: if_splits option.splits)
  then show ?case using Cons.IH [OF u(2)] store_option_same [OF u(1)] same_args_trans by blast
qed simp

lemma at_named_views [simp]:
  "ap_cmds (at_named k f s) = ap_cmds s" "ap_pos (at_named k f s) = ap_pos s" "ap_groups (at_named k f s) = ap_groups s"
  "ap_named (at_named k f s) = (ap_named s)[k := f (ap_named s ! k)]"
  by (simp_all add: at_named_def)

lemma at_positional_views [simp]:
  "ap_cmds (at_positional k f s) = ap_cmds s" "ap_named (at_positional k f s) = ap_named s"
  "ap_groups (at_positional k f s) = ap_groups s" "ap_pos (at_positional k f s) = (ap_pos s)[k := f (ap_pos s ! k)]"
  by (simp_all add: at_positional_def)

lemma at_command_views [simp]:
  "ap_pos (at_command k f s) = ap_pos s" "ap_named (at_command k f s) = ap_named s"
  "ap_groups (at_command k f s) = ap_groups s" "ap_cmds (at_command k f s) = (ap_cmds s)[k := f (ap_cmds s ! k)]"
  by (simp_all add: at_command_def)

text \<open>A field that an update keeps, read from an updated list.\<close>

lemma nth_update_field: "g (f (xs ! k)) = g (xs ! k) \<Longrightarrow> g (xs[k := f (xs ! k)] ! j) = g (xs ! j)"
  by (cases "k < length xs"; cases "j = k") (auto simp: list_update_beyond)

lemma count_up_simps [simp]: "arg_conflicts (count_up a) = arg_conflicts a" "arg_name (count_up a) = arg_name a"
  by (simp_all add: count_up_def)

lemma same_args_views: "same_args s s' \<Longrightarrow> conflicts_of s' x = conflicts_of s x \<and> count_of s' x = count_of s x"
  by (cases x) (simp_all add: same_args_def)

lemma counted_named: "counted (NamedArg k) s (at_named k count_up s)"
proof -
  let ?s = "at_named k count_up s"
  have "conflicts_of ?s x = conflicts_of s x" for x
    by (cases x) (simp_all add: nth_update_field [where g = arg_conflicts])
  moreover have "x \<noteq> NamedArg k \<Longrightarrow> count_of ?s x = count_of s x" for x
    by (cases x) simp_all
  ultimately show ?thesis by (simp add: counted_def)
qed

lemma counted_positional: "counted (PositionalArg k) s (at_positional k count_up s)"
proof -
  let ?s = "at_positional k count_up s"
  have "conflicts_of ?s x = conflicts_of s x" for x
    by (cases x) (simp_all add: nth_update_field [where g = arg_conflicts])
  moreover have "x \<noteq> PositionalArg k \<Longrightarrow> count_of ?s x = count_of s x" for x
    by (cases x) simp_all
  ultimately show ?thesis by (simp add: counted_def)
qed

lemma counted_command: "counted (Command k) s (at_command k count_up s)"
proof -
  let ?s = "at_command k count_up s"
  have "conflicts_of ?s x = conflicts_of s x" for x
    by (cases x) (simp_all add: nth_update_field [where g = arg_conflicts])
  moreover have "x \<noteq> Command k \<Longrightarrow> count_of ?s x = count_of s x" for x
    by (cases x) simp_all
  ultimately show ?thesis by (simp add: counted_def)
qed

lemma counted_between: "same_args s t \<Longrightarrow> counted a t u \<Longrightarrow> same_args u s' \<Longrightarrow> counted a s s'"
proof -
  assume st: "same_args s t" and tu: "counted a t u" and us: "same_args u s'"
  have "conflicts_of s' x = conflicts_of s x" "x \<noteq> a \<Longrightarrow> count_of s' x = count_of s x" for x
    using same_args_views [OF st, of x] same_args_views [OF us, of x] tu by (simp_all add: counted_def)
  then show ?thesis using st tu us by (simp add: counted_def same_args_def)
qed

lemma named_finish_steps:
  assumes "named_finish h w k opt v n s = Inr (n', s')"
  shows "\<exists>t. same_args s t \<and> same_args (at_named k count_up t) s'"
proof -
  obtain t where t: "same_args s t" "run_hook (map_option (\<lambda>f. f opt v) (hook_named h k))
      (at_named k count_up t) = Inr s'"
    using assms by (auto simp: named_finish_def Let_def and_then_Inr_iff split: option.splits if_splits
      dest: store_option_same intro: that that [OF same_args_refl])
  then show ?thesis using run_hook_same by blast
qed

lemma named_finish_counted: "named_finish h w k opt v n s = Inr (n', s') \<Longrightarrow> counted (NamedArg k) s s'"
  using named_finish_steps counted_between counted_named by blast

lemma no_conflict_None: "no_conflict s a msg = Inr u \<longleftrightarrow> get_conflict_argument s a = None"
  by (simp add: no_conflict_def split: option.splits)

lemma parse_long_counted:
  "parse_long h w k opt args s = Inr (n, s') \<Longrightarrow>
     get_conflict_argument s (NamedArg k) = None \<and> counted (NamedArg k) s s'"
  by (auto simp: parse_long_def Let_def and_then_Inr_iff no_conflict_None split: if_splits option.splits
    dest: named_finish_counted)

lemma parse_short_counted:
  "parse_short h w k opt args s = Inr (n, s') \<Longrightarrow>
     get_conflict_argument s (NamedArg k) = None \<and> counted (NamedArg k) s s'"
  by (auto simp: parse_short_def Let_def and_then_Inr_iff no_conflict_None split: if_splits option.splits
    dest: named_finish_counted)

lemma positional_counted:
  assumes "positional_parse h w k opt args s = Inr (n, s')"
  shows "get_conflict_argument s (PositionalArg k) = None \<and> counted (PositionalArg k) s s'"
proof -
  obtain t where t: "same_args s t" "run_hook (map_option (\<lambda>f. f args) (hook_positional h k))
      (at_positional k count_up t) = Inr s'"
    using assms by (auto simp: positional_parse_def Let_def and_then_Inr_iff split: if_splits dest: store_values_same
      intro: that that [OF same_args_refl])
  have "counted (PositionalArg k) s s'"
    using counted_between [OF t(1) counted_positional run_hook_same [OF t(2)]] .
  moreover have "get_conflict_argument s (PositionalArg k) = None"
    using assms by (auto simp: positional_parse_def Let_def and_then_Inr_iff no_conflict_None)
  ultimately show ?thesis by simp
qed

lemma command_finish_counted: "command_finish h c opt argv s = Inr s' \<Longrightarrow> counted (Command c) s s'"
  unfolding command_finish_def
  using counted_between [OF same_args_refl counted_command] run_hook_same by blast

lemma try_named_counted:
  "try_named h w lo tmp args idx ks s = Inr (Some (n, idx', s')) \<Longrightarrow>
     \<exists>k. get_conflict_argument s (NamedArg k) = None \<and> counted (NamedArg k) s s'"
  by (induction ks)
     (fastforce simp: Let_def and_then_Inr_iff split: if_splits dest: parse_long_counted parse_short_counted)+

lemma try_option_counted:
  "try_option h w c args idx s = Inr (Some (n, idx', s')) \<Longrightarrow>
     \<exists>k. get_conflict_argument s (NamedArg k) = None \<and> counted (NamedArg k) s s'"
  by (auto simp: try_option_def split: list.splits if_splits dest: try_named_counted)

section \<open>Exclusive arguments\<close>

fun is_command :: "arg_ref \<Rightarrow> bool" where
  "is_command (Command k) = True"
| "is_command _ = False"

text \<open>Of the options and positional arguments that name the same group, at most one was parsed.\<close>

definition exclusive :: "'c arg_parser \<Rightarrow> bool" where
  "exclusive s \<longleftrightarrow>
     (\<forall>g a b. g < length (ap_groups s) \<longrightarrow> a \<in> set (ap_groups s ! g) \<longrightarrow> b \<in> set (ap_groups s ! g) \<longrightarrow> a \<noteq> b \<longrightarrow>
        conflicts_of s a = Some g \<longrightarrow> conflicts_of s b = Some g \<longrightarrow> \<not> is_command a \<longrightarrow> \<not> is_command b \<longrightarrow>
        count_of s a = 0 \<or> count_of s b = 0)"

lemma exclusiveD:
  "exclusive s \<Longrightarrow> g < length (ap_groups s) \<Longrightarrow> a \<in> set (ap_groups s ! g) \<Longrightarrow> b \<in> set (ap_groups s ! g) \<Longrightarrow> a \<noteq> b \<Longrightarrow>
     conflicts_of s a = Some g \<Longrightarrow> conflicts_of s b = Some g \<Longrightarrow> \<not> is_command a \<Longrightarrow> \<not> is_command b \<Longrightarrow>
     count_of s a = 0 \<or> count_of s b = 0"
  by (simp add: exclusive_def)

lemma exclusive_counted:
  assumes ex: "exclusive s" and c: "counted x s s'" and free: "is_command x \<or> get_conflict_argument s x = None"
  shows "exclusive s'"
  unfolding exclusive_def
proof (intro allI impI)
  fix g a b
  assume ab: "g < length (ap_groups s')" "a \<in> set (ap_groups s' ! g)" "b \<in> set (ap_groups s' ! g)" "a \<noteq> b" "conflicts_of s' a = Some g"
    "conflicts_of s' b = Some g" "\<not> is_command a" "\<not> is_command b"
  have s: "ap_groups s' = ap_groups s" "\<And>y. conflicts_of s' y = conflicts_of s y"
    "\<And>y. y \<noteq> x \<Longrightarrow> count_of s' y = count_of s y"
    using c by (simp_all add: counted_def)
  have other: "count_of s y = 0" if "x \<in> {a, b}" "y \<in> {a, b}" "y \<noteq> x" for y
  proof -
    have "conflicts_of s x = Some g" "\<not> is_command x" "y \<in> set (ap_groups s ! g)" using that ab s by auto
    then show ?thesis using free that(3) by (auto simp: get_conflict_argument_def find_None_iff)
  qed
  show "count_of s' a = 0 \<or> count_of s' b = 0"
  proof (cases "x \<in> {a, b}")
    case True
    then show ?thesis using other s(3) ab(4) by auto
  next
    case False
    have "count_of s a = 0 \<or> count_of s b = 0"
      by (rule exclusiveD [OF ex]) (use ab in \<open>simp_all add: s(1,2)\<close>)
    then show ?thesis using False s(3) by auto
  qed
qed

lemma parse_exclusive:
  "command_parse h w c opt argv s = Inr s' \<Longrightarrow> exclusive s \<Longrightarrow> exclusive s'"
  "command_loop h w c opt argv i used_values idx s = Inr s' \<Longrightarrow> exclusive s \<Longrightarrow> exclusive s'"
proof (induction h w c opt argv s and h w c opt argv i used_values idx s
    arbitrary: s' and s' rule: command_parse_command_loop.induct)
  case (1 h w c opt argv s)
  then show ?case by (simp add: command_parse.simps)
next
  case (2 h w c opt argv i used_values idx s)
  show ?case
  proof (cases "i < length argv")
    case False
    then show ?thesis using "2.prems" exclusive_counted [OF _ command_finish_counted]
      by (auto simp: command_loop.simps [of _ _ _ _ _ i])
  next
    case i: True
    note IH = "2.IH" [OF i]
    obtain r where r: "try_option h w c (drop i argv) idx s = Inr r"
      using "2.prems"(1) i by (auto simp: command_loop.simps [of _ _ _ _ _ i] split: sum.splits)
    show ?thesis
    proof (cases r)
      case (Some p)
      then obtain n idx' t where p: "r = Some (n, idx', t)" by (cases p) auto
      obtain k where "get_conflict_argument s (NamedArg k) = None" "counted (NamedArg k) s t"
        using try_option_counted r p by blast
      then have "exclusive t" using exclusive_counted "2.prems"(2) by blast
      then show ?thesis using IH(5) [OF r p refl refl] "2.prems"(1) i r p
        by (simp add: command_loop.simps [of _ _ _ _ _ i])
    next
      case None
      show ?thesis
      proof (cases "find_command s c (argv ! i)")
        case f: (Some k)
        obtain u where u: "no_conflict s (Command c) (\<lambda>conflict. ''command \"'' @ opt @ ''\": '' @ conflict) = Inr u"
          using "2.prems"(1) i r None f by (auto simp: command_loop.simps [of _ _ _ _ _ i] split: sum.splits)
        obtain t where t: "command_parse h w k (argv ! i) (drop i argv) s = Inr t"
          using "2.prems"(1) i r None f u by (auto simp: command_loop.simps [of _ _ _ _ _ i] split: sum.splits)
        have "command_loop h w c opt argv (length argv) used_values idx t = Inr s'"
          using "2.prems"(1) i r None f u t by (simp add: command_loop.simps [of _ _ _ _ _ i])
        then show ?thesis using IH(3) [OF r None f u t "2.prems"(2)] IH(4) [OF r None f u t] by blast
      next
        case nf: None
        show ?thesis
        proof (cases "used_values < length (cm_pos_args (ap_cmds s ! c))")
          case True
          obtain n t where t: "positional_parse h w (cm_pos_args (ap_cmds s ! c) ! used_values) (argv ! i) (drop i argv) s
              = Inr (n, t)" "command_loop h w c opt argv (i + n + 1) (used_values + 1) idx t = Inr s'"
            using "2.prems"(1) i r None nf True by (auto simp: command_loop.simps [of _ _ _ _ _ i] split: sum.splits)
          then have "exclusive t" using exclusive_counted positional_counted "2.prems"(2) by blast
          then show ?thesis using IH(1) [OF r None nf refl True t(1) refl t(2)] by blast
        next
          case False
          then show ?thesis using IH(2) [OF r None nf refl False] "2.prems" i r None nf
            by (simp add: command_loop.simps [of _ _ _ _ _ i])
        qed
      qed
    qed
  qed
qed

text \<open>The arguments of a group exist.\<close>

fun valid_ref :: "'c arg_parser \<Rightarrow> arg_ref \<Rightarrow> bool" where
  "valid_ref s (Command k) \<longleftrightarrow> k < length (ap_cmds s)"
| "valid_ref s (NamedArg k) \<longleftrightarrow> k < length (ap_named s)"
| "valid_ref s (PositionalArg k) \<longleftrightarrow> k < length (ap_pos s)"

lemma reset_counts: "valid_ref s a \<Longrightarrow> count_of (reset_parse_count s) a = 0"
  by (cases a) (simp_all add: reset_parse_count_def reset_arg_def)

lemma exclusive_reset: "\<forall>group \<in> set (ap_groups s). \<forall>a \<in> set group. valid_ref s a \<Longrightarrow> exclusive (reset_parse_count s)"
proof -
  assume ok: "\<forall>group \<in> set (ap_groups s). \<forall>a \<in> set group. valid_ref s a"
  have "ap_groups (reset_parse_count s) = ap_groups s" by (simp add: reset_parse_count_def)
  moreover have "count_of (reset_parse_count s) a = 0" if "g < length (ap_groups s)" "a \<in> set (ap_groups s ! g)" for g a
    using ok that by (intro reset_counts) auto
  ultimately show ?thesis unfolding exclusive_def by metis
qed

section \<open>Long options\<close>

definition keeps_names :: "'c arg_parser \<Rightarrow> 'c arg_parser \<Rightarrow> bool" where
  "keeps_names s s' \<longleftrightarrow>
     ap_cmds s' = ap_cmds s \<and>
     (\<forall>k. na_long_name (ap_named s' ! k) = na_long_name (ap_named s ! k) \<and>
          na_short_name (ap_named s' ! k) = na_short_name (ap_named s ! k) \<and>
          na_has_arg (ap_named s' ! k) = na_has_arg (ap_named s ! k) \<and>
          arg_conflicts (ap_named s' ! k) = arg_conflicts (ap_named s ! k))"

lemma count_up_named [simp]:
  "na_long_name (count_up a) = na_long_name a" "na_short_name (count_up a) = na_short_name a"
  "na_has_arg (count_up a) = na_has_arg a"
  by (simp_all add: count_up_def)

lemma named_finish_keeps_names: "named_finish h w k opt v n s = Inr (n', s') \<Longrightarrow> keeps_names s s'"
proof -
  assume "named_finish h w k opt v n s = Inr (n', s')"
  then obtain t where t: "same_args s t" "same_args (at_named k count_up t) s'"
    using named_finish_steps by blast
  then have "ap_cmds s' = ap_cmds s" "ap_named s' = (ap_named s)[k := count_up (ap_named s ! k)]"
    by (simp_all add: same_args_def)
  then show ?thesis
    by (simp add: keeps_names_def nth_update_field [where g = na_long_name] nth_update_field [where g = na_short_name]
      nth_update_field [where g = na_has_arg] nth_update_field [where g = arg_conflicts])
qed

lemma keeps_names_trans: "keeps_names s t \<Longrightarrow> keeps_names t u \<Longrightarrow> keeps_names s u"
  by (simp add: keeps_names_def)

definition long_text :: "'c arg_parser \<Rightarrow> nat \<times> string \<Rightarrow> string" where
  "long_text s kv = na_long_name (ap_named s ! fst kv) @ CHR ''='' # snd kv"

text \<open>Options that can be told apart: with a value, a long name of their own without an equals sign, and no
  conflicts.\<close>

definition long_options :: "'c arg_parser \<Rightarrow> nat list \<Rightarrow> bool" where
  "long_options s ks \<longleftrightarrow>
     (\<forall>k \<in> set ks. na_has_arg (ap_named s ! k) \<and> na_long_name (ap_named s ! k) \<noteq> [] \<and>
        CHR ''='' \<notin> set (na_long_name (ap_named s ! k)) \<and> arg_conflicts (ap_named s ! k) = None) \<and>
     inj_on (\<lambda>k. na_long_name (ap_named s ! k)) (set ks)"

primrec parse_each :: "'c arg_hooks \<Rightarrow> world \<Rightarrow> (nat \<times> string) list \<Rightarrow> 'c arg_parser \<Rightarrow> arg_error + 'c arg_parser" where
  "parse_each h w [] s = Inr s"
| "parse_each h w (kv # xs) s =
     and_then (named_finish h w (fst kv) (long_text s kv) (snd kv) 1 s) (\<lambda>(n, s). parse_each h w xs s)"

lemma keeps_names_long_options: "keeps_names s t \<Longrightarrow> long_options t ks = long_options s ks"
  by (simp add: keeps_names_def long_options_def)

lemma keeps_names_cmds: "keeps_names s t \<Longrightarrow> ap_cmds t = ap_cmds s"
  by (simp add: keeps_names_def)

lemma assigned_long: "CHR ''='' \<notin> set l \<Longrightarrow> assigned (l @ CHR ''='' # v) = Some v"
proof -
  assume "CHR ''='' \<notin> set l"
  then have "dropWhile (\<lambda>c. c \<noteq> CHR ''='') (l @ CHR ''='' # v) = CHR ''='' # v"
    by (subst dropWhile_append2) auto
  then show ?thesis by (simp add: assigned_def)
qed

lemma long_matches_long: "CHR ''='' \<notin> set l \<Longrightarrow> long_matches (l @ CHR ''='' # v) l' \<longleftrightarrow> l' = l"
  by (auto simp: long_matches_def assigned_long takeWhile_append)

lemma try_named_long:
  assumes ok: "long_options s ks" and k: "k \<in> set ks"
  shows "try_named h w True (long_text s (k, v)) args idx ks s =
    and_then (named_finish h w k (long_text s (k, v)) v 1 s) (\<lambda>(n, s). Inr (Some (n, idx, s)))"
proof -
  let ?tmp = "long_text s (k, v)"
  have l: "CHR ''='' \<notin> set (na_long_name (ap_named s ! k))" "na_has_arg (ap_named s ! k)"
    "arg_conflicts (ap_named s ! k) = None" "na_long_name (ap_named s ! k) \<noteq> []"
    using ok k by (simp_all add: long_options_def)
  then have long: "parse_long h w k ?tmp args s = named_finish h w k ?tmp v 1 s"
    by (simp add: parse_long_def no_conflict_def get_conflict_argument_def long_text_def assigned_long)
  have "set ks' \<subseteq> set ks \<Longrightarrow> k \<in> set ks' \<Longrightarrow> try_named h w True ?tmp args idx ks' s =
      and_then (parse_long h w k ?tmp args s) (\<lambda>(n, s). Inr (Some (n, idx, s)))" for ks'
  proof (induction ks')
    case (Cons j js)
    have "long_matches ?tmp (na_long_name (ap_named s ! j)) \<longleftrightarrow> j = k"
      using ok k Cons.prems(1) l(1) by (auto simp: long_text_def long_matches_long long_options_def inj_on_def)
    then show ?case using Cons l(4) by (auto simp: Let_def)
  qed simp
  then show ?thesis using k long by simp
qed

lemma command_loop_longs:
  assumes "long_options s (cm_named_args (ap_cmds s ! c))" "fst ` set xs \<subseteq> set (cm_named_args (ap_cmds s ! c))"
    "drop i argv = map (\<lambda>kv. ''--'' @ long_text s kv) xs"
  shows "command_loop h w c opt argv i used_values idx s = and_then (parse_each h w xs s) (command_finish h c opt argv)"
  using assms
proof (induction xs arbitrary: i s)
  case Nil
  then show ?case by (simp add: command_loop.simps [of _ _ _ _ _ i])
next
  case (Cons kv xs)
  obtain k v where kv: "kv = (k, v)" by (cases kv)
  have i: "i < length argv" using Cons.prems(3) by (cases "i < length argv") auto
  have arg: "drop i argv ! 0 = ''--'' @ long_text s (k, v)" using Cons.prems(3) kv by simp
  have opt: "try_option h w c (drop i argv) idx s =
      and_then (named_finish h w k (long_text s (k, v)) v 1 s) (\<lambda>(n, s). Inr (Some (n, idx, s)))"
    using try_named_long [OF Cons.prems(1), of k h w v "drop i argv" idx] Cons.prems(2) kv
    unfolding try_option_def arg by simp
  show ?case
  proof (cases "named_finish h w k (long_text s (k, v)) v 1 s")
    case (Inl e)
    then show ?thesis using opt i kv by (simp add: command_loop.simps [of _ _ _ _ _ i])
  next
    case (Inr p)
    then obtain t where t: "named_finish h w k (long_text s (k, v)) v 1 s = Inr (1, t)"
      using named_finish_consumed by (cases p) blast
    have kn: "keeps_names s t" using named_finish_keeps_names [OF t] .
    have "long_text t = long_text s" using kn by (simp add: long_text_def keeps_names_def fun_eq_iff)
    moreover have "long_options t (cm_named_args (ap_cmds t ! c))" "fst ` set xs \<subseteq> set (cm_named_args (ap_cmds t ! c))"
      using Cons.prems(1,2) by (simp_all add: keeps_names_long_options [OF kn] keeps_names_cmds [OF kn])
    moreover have "drop (i + 1) argv = map (\<lambda>kv. ''--'' @ long_text s kv) xs"
      using drop_eq_Cons_nth [of i argv] Cons.prems(3) by simp
    ultimately have "command_loop h w c opt argv (i + 1) used_values idx t =
        and_then (parse_each h w xs t) (command_finish h c opt argv)"
      using Cons.IH [of t "i + 1"] by simp
    then show ?thesis using opt t i kv by (simp add: command_loop.simps [of _ _ _ _ _ i])
  qed
qed

section \<open>Arguments that the loop loses\<close>

lemma try_option_plain: "hd (args ! 0) \<noteq> CHR ''-'' \<Longrightarrow> try_option h w c args idx s = Inr None"
  by (auto simp: try_option_def split: list.splits)

lemma counted_same: "counted a s s' \<Longrightarrow> x \<noteq> a \<Longrightarrow> count_of s' x = count_of s x"
  by (simp add: counted_def)

lemma positional_one:
  "positional_parse h w k opt args s = Inr (n, s') \<Longrightarrow> pa_nargs (ap_pos s ! k) = 1 \<Longrightarrow> n = 1"
  by (auto simp: positional_parse_def Let_def and_then_Inr_iff split: if_splits)

lemma command_loop_end:
  "length argv \<le> i \<Longrightarrow> command_loop h w c opt argv i used_values idx s = command_finish h c opt argv s"
  by (simp add: command_loop.simps [of _ _ _ _ _ i])

section \<open>A parser\<close>

text \<open>A command with an option \<open>--config\<close>, the exclusive flags \<open>-v\<close> and \<open>-q\<close>, and two positional arguments.\<close>

definition sample_flag :: "string \<Rightarrow> char \<Rightarrow> named_arg" where
  "sample_flag name short =
     \<lparr>arg_name = name, arg_description = [], arg_short_description = [], arg_conflicts = Some 0, arg_count = 0,
      na_long_name = [], na_short_name = short, na_has_arg = False, na_const_val = [], na_value = None,
      na_store_value = True\<rparr>"

definition sample_positional :: "string \<Rightarrow> positional_arg" where
  "sample_positional name =
     \<lparr>arg_name = name, arg_description = [], arg_short_description = [], arg_conflicts = None, arg_count = 0,
      pa_nargs = 1, pa_init_value = None, pa_values = 0, pa_store_value = False\<rparr>"

definition sample_parser :: "nat list \<Rightarrow> nat list \<Rightarrow> unit arg_parser" where
  "sample_parser named pos =
     \<lparr>ap_cmds = [\<lparr>arg_name = ''cmd'', arg_description = [], arg_short_description = [], arg_conflicts = None,
        arg_count = 0, cm_cmds = [], cm_named_args = named, cm_pos_args = pos\<rparr>],
      ap_named = [\<lparr>arg_name = ''config'', arg_description = [], arg_short_description = [], arg_conflicts = None,
        arg_count = 0, na_long_name = ''config'', na_short_name = CHR 0x00, na_has_arg = True, na_const_val = [],
        na_value = None, na_store_value = True\<rparr>, sample_flag ''verbose'' (CHR ''v''), sample_flag ''quiet'' (CHR ''q'')],
      ap_pos = [sample_positional ''first'', sample_positional ''second''],
      ap_groups = [[NamedArg 1, NamedArg 2]], ap_opts = [], ap_values = [], ap_root = Some 0, ap_client = ()\<rparr>"

definition no_hooks :: "'c arg_hooks" where
  "no_hooks = \<lparr>hook_command = (\<lambda>_. None), hook_named = (\<lambda>_. None), hook_positional = (\<lambda>_. None)\<rparr>"

definition empty_world :: world where
  "empty_world = \<lparr>w_regex = (\<lambda>_ _ _. True), w_exists = (\<lambda>_. True), w_glob = (\<lambda>_. []), w_file = (\<lambda>_. None), w_dir = (\<lambda>_. None)\<rparr>"

lemmas sample_defs = sample_parser_def sample_flag_def sample_positional_def no_hooks_def empty_world_def

lemmas step_defs = try_option_def find_command_def positional_parse_def no_conflict_def get_conflict_argument_def
  run_hook_def at_positional_def command_finish_def at_command_def count_up_def parse_short_def named_finish_def
  at_named_def c_char_def Let_def

section \<open>The properties\<close>

text \<open>C22. Options and positional arguments that name the same conflict group exclude each other: when
  the parser accepts a command line, however its commands are nested and grouped, at most one of
  them was parsed.\<close>

theorem conflicting_arguments_exclude_each_other:
  assumes "\<forall>group \<in> set (ap_groups s). \<forall>x \<in> set group. valid_ref s x"
    "arguments_parse h w argv (reset_parse_count s) = Inr s'"
    "g < length (ap_groups s')" "{a, b} \<subseteq> set (ap_groups s' ! g)" "a \<noteq> b"
    "conflicts_of s' a = Some g" "conflicts_of s' b = Some g" "\<not> is_command a" "\<not> is_command b"
  shows "count_of s' a = 0 \<or> count_of s' b = 0"
proof -
  have "exclusive s'"
    using assms(2) parse_exclusive(1) [OF _ exclusive_reset [OF assms(1)]]
    by (auto simp: arguments_parse_def split: option.splits)
  then show ?thesis using assms by (intro exclusiveD [of s' g a b]) auto
qed

theorem conflicting_arguments_exclude_each_other_witness:
  "\<exists>s'. arguments_parse no_hooks empty_world [''cmd'', ''-v''] (reset_parse_count (sample_parser [0, 1, 2] [])) = Inr s' \<and>
     (count_of s' (NamedArg 1) = 0 \<or> count_of s' (NamedArg 2) = 0)"
proof -
  let ?s = "sample_parser [0, 1, 2] []"
  have "\<exists>s'. arguments_parse no_hooks empty_world [''cmd'', ''-v''] (reset_parse_count ?s) = Inr s' \<and>
    ap_groups s' = [[NamedArg 1, NamedArg 2]] \<and> conflicts_of s' (NamedArg 1) = Some 0 \<and> conflicts_of s' (NamedArg 2) = Some 0"
    by (simp add: arguments_parse_def command_parse.simps command_loop.simps [of _ _ _ _ _ "Suc 0"] command_loop_end
      sample_defs step_defs reset_parse_count_def reset_arg_def)
  then obtain s' where s': "arguments_parse no_hooks empty_world [''cmd'', ''-v''] (reset_parse_count ?s) = Inr s'"
    "ap_groups s' = [[NamedArg 1, NamedArg 2]]" "conflicts_of s' (NamedArg 1) = Some 0" "conflicts_of s' (NamedArg 2) = Some 0"
    by blast
  have "count_of s' (NamedArg 1) = 0 \<or> count_of s' (NamedArg 2) = 0"
    by (rule conflicting_arguments_exclude_each_other [OF _ s'(1) _ _ _ s'(3,4)]) (simp_all add: s'(2) sample_defs)
  then show ?thesis using s'(1) by blast
qed

text \<open>A command line of long options with values is read as it is written: the argument
  \<open>--name=value\<close> goes to the option with that name, which gets exactly the text after the first
  equals sign, one argument after the other, and the command ends after the last.\<close>

theorem long_options_get_their_values:
  assumes "long_options s (cm_named_args (ap_cmds s ! c))" "fst ` set xs \<subseteq> set (cm_named_args (ap_cmds s ! c))"
    "argv = opt # map (\<lambda>kv. ''--'' @ long_text s kv) xs"
  shows "command_parse h w c opt argv s = and_then (parse_each h w xs s) (command_finish h c opt argv)"
  using command_loop_longs [OF assms(1,2), of 1 argv] assms(3) by (simp add: command_parse.simps)

theorem long_options_get_their_values_witness:
  "command_parse no_hooks empty_world 0 ''cmd'' [''cmd'', ''--config=a=b''] (sample_parser [0] []) =
     and_then (parse_each no_hooks empty_world [(0, ''a=b'')] (sample_parser [0] []))
       (command_finish no_hooks 0 ''cmd'' [''cmd'', ''--config=a=b''])"
  by (rule long_options_get_their_values) (simp_all add: long_options_def long_text_def sample_defs)

text \<open>After a positional argument the next argument of the command line is skipped: the loop does not
  note that the argument was used and steps over one more. Of two positional arguments of one
  value each, the second is never parsed when its value follows.\<close>

theorem positional_argument_skips_next:
  assumes "cm_pos_args (ap_cmds s ! c) = [p, q]" "p \<noteq> q" "pa_nargs (ap_pos s ! p) = 1"
    "hd a \<noteq> CHR ''-''" "find_command s c a = None"
    "command_parse h w c opt [opt, a, b] s = Inr s'"
  shows "count_of s' (PositionalArg q) = count_of s (PositionalArg q)"
proof -
  have "try_option h w c [a, b] 0 s = Inr None" using assms(4) by (simp add: try_option_plain)
  then obtain n t where t: "positional_parse h w p a [a, b] s = Inr (n, t)"
    "command_loop h w c opt [opt, a, b] (1 + n + 1) 1 0 t = Inr s'"
    using assms(1,5,6) by (auto simp: command_parse.simps command_loop.simps [of _ _ _ _ _ "Suc 0"] split: sum.splits)
  then have "command_finish h c opt [opt, a, b] t = Inr s'"
    using positional_one [OF t(1) assms(3)] by (simp add: command_loop_end)
  then show ?thesis
    using counted_same [OF command_finish_counted] counted_same positional_counted [OF t(1)] assms(2)
    by (metis arg_ref.distinct(3) arg_ref.inject(3) arg_ref.simps(9))
qed

theorem positional_argument_skips_next_witness:
  "\<exists>s'. command_parse no_hooks empty_world 0 ''cmd'' [''cmd'', ''x'', ''y''] (sample_parser [0, 1, 2] [0, 1]) = Inr s' \<and>
     count_of s' (PositionalArg 1) = 0"
proof -
  have "\<exists>s'. command_parse no_hooks empty_world 0 ''cmd'' [''cmd'', ''x'', ''y''] (sample_parser [0, 1, 2] [0, 1]) = Inr s'"
    by (simp add: command_parse.simps command_loop.simps [of _ _ _ _ _ "Suc 0"] command_loop_end sample_defs step_defs)
  then obtain s' where s': "command_parse no_hooks empty_world 0 ''cmd'' [''cmd'', ''x'', ''y'']
      (sample_parser [0, 1, 2] [0, 1]) = Inr s'" by blast
  have "count_of s' (PositionalArg 1) = count_of (sample_parser [0, 1, 2] [0, 1]) (PositionalArg 1)"
    by (rule positional_argument_skips_next [OF _ _ _ _ _ s', of 0]) (simp_all add: sample_defs find_command_def)
  then show ?thesis using s' by (auto simp: sample_defs)
qed

text \<open>A group of short options that ends in an unknown letter derails what follows: the index into the
  group is not reset, so that the next argument is read from its second letter. The same flag given
  again is not seen, and a lone dash makes the parser read past the end of the string.\<close>

theorem unknown_short_option_derails_group:
  assumes "cm_named_args (ap_cmds s ! c) = [f]" "cm_cmds (ap_cmds s ! c) = []" "cm_pos_args (ap_cmds s ! c) = []"
    "na_short_name (ap_named s ! f) = sc" "\<not> na_has_arg (ap_named s ! f)" "sc \<notin> {CHR 0x00, CHR ''-'', x}"
  shows "command_parse h w c opt [opt, [CHR ''-'', sc, x], [CHR ''-'', sc]] s =
      and_then (parse_short h w f [sc, x] [[CHR ''-'', sc, x], [CHR ''-'', sc]] s)
        (\<lambda>(n, t). command_finish h c opt [opt, [CHR ''-'', sc, x], [CHR ''-'', sc]] t) \<and>
    command_parse h w c opt [opt, [CHR ''-'', sc, x], ''-''] s =
      and_then (parse_short h w f [sc, x] [[CHR ''-'', sc, x], ''-''] s) (\<lambda>_. Inl OutOfBounds)"
proof -
  have step: "command_loop h w c opt [opt, [CHR ''-'', sc, x], a] 1 0 0 s =
      and_then (parse_short h w f [sc, x] [[CHR ''-'', sc, x], a] s)
        (\<lambda>(n, t). command_loop h w c opt [opt, [CHR ''-'', sc, x], a] 2 0 1 t)" for a
  proof (cases "parse_short h w f [sc, x] [[CHR ''-'', sc, x], a] s")
    case (Inl e)
    then show ?thesis using assms
      by (simp add: command_loop.simps [of _ _ _ _ _ "Suc 0"] try_option_def c_char_def)
  next
    case (Inr p)
    obtain n t where p: "p = (n, t)" by (cases p)
    have "named_finish h w f [sc, x] (na_const_val (ap_named s ! f)) 0 s = Inr (n, t)"
      using Inr p assms(5) by (auto simp: parse_short_def Let_def and_then_Inr_iff)
    then have n: "n = 0" and kn: "keeps_names s t" using named_finish_consumed named_finish_keeps_names by blast+
    have t: "ap_cmds t = ap_cmds s" "na_short_name (ap_named t ! f) = sc" using kn assms(4) by (auto simp: keeps_names_def)
    have "command_loop h w c opt [opt, [CHR ''-'', sc, x], a] 1 0 0 s =
        command_loop h w c opt [opt, [CHR ''-'', sc, x], a] 1 0 1 t"
      using assms Inr p n by (simp add: command_loop.simps [of _ _ _ _ _ "Suc 0" _ 0] try_option_def c_char_def)
    also have "\<dots> = command_loop h w c opt [opt, [CHR ''-'', sc, x], a] 2 0 1 t"
      using assms t by (simp add: command_loop.simps [of _ _ _ _ _ "Suc 0" _ "Suc 0"] try_option_def c_char_def
        find_command_def numeral_2_eq_2)
    finally show ?thesis using Inr p by simp
  qed
  have keeps: "ap_cmds t = ap_cmds s \<and> na_short_name (ap_named t ! f) = sc"
    if "parse_short h w f [sc, x] args s = Inr (n, t)" for args n t
    using that assms(4,5) named_finish_keeps_names
    by (fastforce simp: parse_short_def Let_def and_then_Inr_iff keeps_names_def)
  have two: "command_loop h w c opt [opt, [CHR ''-'', sc, x], a] 2 0 1 t =
      (if a = ''-'' then Inl OutOfBounds else command_finish h c opt [opt, [CHR ''-'', sc, x], a] t)"
    if "a \<in> {[CHR ''-'', sc], ''-''}" "ap_cmds t = ap_cmds s" "na_short_name (ap_named t ! f) = sc" for a t
    using that assms by (auto simp: command_loop.simps [of _ _ _ _ _ 2] command_loop_end try_option_def c_char_def
      find_command_def)
  have "command_parse h w c opt [opt, [CHR ''-'', sc, x], [CHR ''-'', sc]] s =
      and_then (parse_short h w f [sc, x] [[CHR ''-'', sc, x], [CHR ''-'', sc]] s)
        (\<lambda>(n, t). command_finish h c opt [opt, [CHR ''-'', sc, x], [CHR ''-'', sc]] t)"
    using step [of "[CHR ''-'', sc]"] two [of "[CHR ''-'', sc]"] keeps
    by (cases "parse_short h w f [sc, x] [[CHR ''-'', sc, x], [CHR ''-'', sc]] s") (auto simp: command_parse.simps)
  moreover have "command_parse h w c opt [opt, [CHR ''-'', sc, x], ''-''] s =
      and_then (parse_short h w f [sc, x] [[CHR ''-'', sc, x], ''-''] s) (\<lambda>_. Inl OutOfBounds)"
    using step [of "''-''"] two [of "''-''"] keeps
    by (cases "parse_short h w f [sc, x] [[CHR ''-'', sc, x], ''-''] s") (auto simp: command_parse.simps)
  ultimately show ?thesis by simp
qed

theorem unknown_short_option_derails_group_witness:
  "command_parse no_hooks empty_world 0 ''cmd'' [''cmd'', ''-vx'', ''-''] (sample_parser [1] []) = Inl OutOfBounds"
  using unknown_short_option_derails_group [of "sample_parser [1] []" 0 1 "CHR ''v''" "CHR ''x''" no_hooks empty_world "''cmd''"]
  by (simp add: sample_defs step_defs)

end
