(* ===== verification/Locks.thy ===== *)
theory Locks
  imports Loggers "HOL-Library.Word"
begin

text \<open>
  The lock registry of dnf-4 (dnf-4/libdnf/dnf-lock.h, dnf-lock.cpp). The one \<open>DnfLock\<close> object of a
  process holds the locks its threads have taken; a process lock also has a lock file with the
  process id. The object's mutex makes every operation atomic. The file system is part of the state
  (the files with their contents, \<open>/proc\<close> included); which files can be read, written and deleted,
  the calling thread and the process id are the environment of a call. A \<open>GError\<close> is a constructor
  of \<open>lock_error\<close>; \<open>ErrorNotSet\<close> is a failure that sets none. Emitted signals are recorded.
\<close>

section \<open>The registry\<close>

datatype lock_type = LOCK_TYPE_RPMDB | LOCK_TYPE_REPO | LOCK_TYPE_METADATA | LOCK_TYPE_CONFIG

datatype lock_mode = LOCK_MODE_THREAD | LOCK_MODE_PROCESS

record lock_item =
  li_owner :: nat
  li_id :: "32 word"
  li_refcount :: "32 word"
  li_mode :: lock_mode
  li_type :: lock_type

record lock_state =
  lk_items :: "lock_item list"
  lk_dir :: string
  lk_next_id :: "32 word"
  lk_files :: "string \<Rightarrow> string option"
  lk_emitted :: "32 word list"

record lock_env =
  le_self :: nat
  le_pid :: int
  le_readable :: "string \<Rightarrow> bool"
  le_writable :: "string \<Rightarrow> bool"
  le_deletable :: "string \<Rightarrow> bool"

datatype lock_error =
    LockFileNotPresent
  | LockFileNotSet
  | PidNotParsed string
  | PidTooLarge nat
  | AlreadyLocked lock_type lock_mode string
  | CannotObtain lock_type
  | TakenByThread lock_type nat
  | NeverTaken "32 word"
  | NotThisThread lock_type
  | CannotDelete
  | ErrorNotSet

definition lock_init :: "lock_state \<Rightarrow> lock_state" where
  "lock_init s = s\<lparr>lk_items := [], lk_dir := ''/var/run''\<rparr>"

fun lock_type_to_string :: "lock_type \<Rightarrow> string" where
  "lock_type_to_string LOCK_TYPE_RPMDB = ''rpmdb''"
| "lock_type_to_string LOCK_TYPE_REPO = ''src''"
| "lock_type_to_string LOCK_TYPE_METADATA = ''metadata''"
| "lock_type_to_string LOCK_TYPE_CONFIG = ''config''"

definition get_item_by_type_mode :: "lock_state \<Rightarrow> lock_type \<Rightarrow> lock_mode \<Rightarrow> nat option" where
  "get_item_by_type_mode s t m = find_idx (\<lambda>x. li_type x = t \<and> li_mode x = m) (lk_items s)"

definition get_item_by_id :: "lock_state \<Rightarrow> 32 word \<Rightarrow> nat option" where
  "get_item_by_id s k = find_idx (\<lambda>x. li_id x = k) (lk_items s)"

definition create_item :: "lock_env \<Rightarrow> lock_type \<Rightarrow> lock_mode \<Rightarrow> lock_state \<Rightarrow> 32 word \<times> lock_state" where
  "create_item env t m s =
     (lk_next_id s,
      s\<lparr>lk_next_id := lk_next_id s + 1,
        lk_items := lk_items s @ [\<lparr>li_owner = le_self env, li_id = lk_next_id s, li_refcount = 1, li_mode = m, li_type = t\<rparr>]\<rparr>)"

section \<open>Lock files\<close>

text \<open>\<open>g_ascii_strtoull(s, &endptr, 10)\<close>: the value and the number of characters read. A minus sign
  negates modulo $2^{64}$; a value that does not fit is the largest one.\<close>

definition ascii_strtoull :: "string \<Rightarrow> nat \<times> nat" where
  "ascii_strtoull str =
     (let s = dropWhile is_space str;
          (neg, s) = (case s of
              [] \<Rightarrow> (False, s)
            | c # cs \<Rightarrow> if c = CHR ''-'' then (True, cs) else if c = CHR ''+'' then (False, cs) else (False, s));
          ds = takeWhile is_digit s;
          v = digits_val ds
      in if ds = [] then (0, 0)
         else (if 2 ^ 64 \<le> v then 2 ^ 64 - 1 else if neg then (2 ^ 64 - v) mod 2 ^ 64 else v,
               length str - length (dropWhile is_digit s)))"

definition lock_get_pid :: "lock_env \<Rightarrow> string \<Rightarrow> lock_state \<Rightarrow> lock_error + nat" where
  "lock_get_pid env filename s =
     (case lk_files s filename of
        None \<Rightarrow> Inl LockFileNotPresent
      | Some contents \<Rightarrow>
          (if \<not> le_readable env filename then Inl LockFileNotSet
           else
             (let (pid, consumed) = ascii_strtoull contents in
              if consumed = 0 then Inl (PidNotParsed contents)
              else if pid > 2 ^ 32 - 1 then Inl (PidTooLarge pid)
              else Inr pid)))"

definition filename_for_type :: "lock_state \<Rightarrow> lock_type \<Rightarrow> string" where
  "filename_for_type s t = lk_dir s @ ''/dnf-'' @ lock_type_to_string t @ ''.lock''"

text \<open>\<open>printf\<close> of an unsigned 32-bit integer with \<open>%i\<close>.\<close>

definition format_guint :: "nat \<Rightarrow> string" where
  "format_guint n = decimal_int (if n < 2 ^ 31 then int n else int n - 2 ^ 32)"

definition cmdline_file :: "nat \<Rightarrow> string" where
  "cmdline_file pid = ''/proc/'' @ format_guint pid @ ''/cmdline''"

definition get_cmdline_for_pid :: "lock_env \<Rightarrow> nat \<Rightarrow> lock_state \<Rightarrow> string" where
  "get_cmdline_for_pid env pid s =
     (case lk_files s (cmdline_file pid) of
        Some contents \<Rightarrow>
          (if le_readable env (cmdline_file pid)
           then takeWhile (\<lambda>c. c \<noteq> CHR 0x00) contents @ ''('' @ format_guint pid @ '')''
           else ''unknown('' @ format_guint pid @ '')'')
      | None \<Rightarrow> ''unknown('' @ format_guint pid @ '')'')"

definition set_lock_dir :: "string \<Rightarrow> lock_state \<Rightarrow> lock_state" where
  "set_lock_dir dir s = s\<lparr>lk_dir := dir\<rparr>"

text \<open>The block of \<open>dnf_lock_take\<close> that creates the lock file of a process lock.\<close>

definition create_lock_file :: "lock_env \<Rightarrow> lock_type \<Rightarrow> lock_mode \<Rightarrow> lock_state \<Rightarrow> lock_error + lock_state" where
  "create_lock_file env t m s =
     (let filename = filename_for_type s t;
          write = (if le_writable env filename
                   then Inr (s\<lparr>lk_files := (lk_files s)(filename \<mapsto> decimal_int (le_pid env))\<rparr>)
                   else Inl (CannotObtain t))
      in if lk_files s filename = None then write
         else and_then (lock_get_pid env filename s) (\<lambda>pid.
                if pid = 0 then Inl ErrorNotSet
                else if lk_files s (cmdline_file pid) \<noteq> None then Inl (AlreadyLocked t m (get_cmdline_for_pid env pid s))
                else write))"

section \<open>Taking and releasing\<close>

fun type_number :: "lock_type \<Rightarrow> nat" where
  "type_number LOCK_TYPE_RPMDB = 0"
| "type_number LOCK_TYPE_REPO = 1"
| "type_number LOCK_TYPE_METADATA = 2"
| "type_number LOCK_TYPE_CONFIG = 3"

text \<open>The loop \<open>bitfield += 1 << item->type\<close>.\<close>

definition lock_get_state :: "lock_state \<Rightarrow> 32 word" where
  "lock_get_state s = foldl (\<lambda>bitfield x. bitfield + push_bit (type_number (li_type x)) 1) 0 (lk_items s)"

definition emit_state :: "lock_state \<Rightarrow> lock_state" where
  "emit_state s = s\<lparr>lk_emitted := lk_emitted s @ [lock_get_state s]\<rparr>"

definition lock_take ::
  "lock_env \<Rightarrow> lock_type \<Rightarrow> lock_mode \<Rightarrow> lock_state \<Rightarrow> (lock_error + 32 word) \<times> lock_state" where
  "lock_take env t m s =
     (case (case get_item_by_type_mode s t m of
              Some i \<Rightarrow> Some i
            | None \<Rightarrow> if m = LOCK_MODE_THREAD then get_item_by_type_mode s t LOCK_MODE_PROCESS else None) of
        None \<Rightarrow>
          (case (if m = LOCK_MODE_PROCESS then create_lock_file env t m s else Inr s) of
             Inl e \<Rightarrow> (Inl e, s)
           | Inr s' \<Rightarrow> (let (k, s'') = create_item env t m s' in (Inr k, emit_state s'')))
      | Some i \<Rightarrow>
          (let x = lk_items s ! i in
           if li_owner x \<noteq> le_self env then (Inl (TakenByThread t (li_owner x)), s)
           else (Inr (li_id x), emit_state (s\<lparr>lk_items := (lk_items s)[i := x\<lparr>li_refcount := li_refcount x + 1\<rparr>]\<rparr>))))"

definition lock_release :: "lock_env \<Rightarrow> 32 word \<Rightarrow> lock_state \<Rightarrow> (lock_error + unit) \<times> lock_state" where
  "lock_release env k s =
     (if k = 0 then (Inl ErrorNotSet, s)
      else
        (case get_item_by_id s k of
           None \<Rightarrow> (Inl (NeverTaken k), s)
         | Some i \<Rightarrow>
             (let x = lk_items s ! i in
              if li_owner x \<noteq> le_self env then (Inl (NotThisThread (li_type x)), s)
              else
                (let x = x\<lparr>li_refcount := li_refcount x - 1\<rparr>;
                     s = s\<lparr>lk_items := (lk_items s)[i := x]\<rparr>;
                     filename = filename_for_type s (li_type x);
                     unlink = li_refcount x = 0 \<and> li_mode x = LOCK_MODE_PROCESS
                 in if unlink \<and> (lk_files s filename = None \<or> \<not> le_deletable env filename)
                    then (Inl CannotDelete, s)
                    else
                      (let s = (if unlink then s\<lparr>lk_files := (lk_files s)(filename := None)\<rparr> else s);
                           s = (if li_refcount x = 0 then s\<lparr>lk_items := take i (lk_items s) @ drop (Suc i) (lk_items s)\<rparr> else s)
                       in (Inr (), emit_state s))))))"

definition lock_release_noerror :: "lock_env \<Rightarrow> 32 word \<Rightarrow> lock_state \<Rightarrow> lock_state" where
  "lock_release_noerror env k s = snd (lock_release env k s)"

lemma release_length: "length (lk_items (snd (lock_release env k s))) \<le> length (lk_items s)"
  by (auto simp: lock_release_def Let_def emit_state_def split: option.splits)

text \<open>The loop of \<open>dnf_lock_finalize\<close>: a release can remove the item at the index.\<close>

function lock_finalize :: "lock_env \<Rightarrow> nat \<Rightarrow> lock_state \<Rightarrow> lock_state" where
  "lock_finalize env i s =
     (if i < length (lk_items s) then
        (let x = lk_items s ! i in
         lock_finalize env (i + 1) (if li_refcount x > 0 then snd (lock_release env (li_id x) s) else s))
      else s)"
  by pat_completeness auto

termination lock_finalize
proof (relation "measure (\<lambda>(env, i, s). length (lk_items s) - i)")
  fix env i and s :: lock_state and x :: lock_item
  assume "i < length (lk_items s)"
  then show "((env, i + 1, if li_refcount x > 0 then snd (lock_release env (li_id x) s) else s), env, i, s)
      \<in> measure (\<lambda>(env, i, s). length (lk_items s) - i)"
    using release_length [of env "li_id x" s] by auto
qed simp

declare lock_finalize.simps [simp del]

end
