(* ===== verification/ProgressState.thy ===== *)
theory ProgressState
  imports Locks FloatingPoint
begin

text \<open>
  The progress states of dnf-4 (dnf-4/libdnf/dnf-state.h, dnf-state.cpp). A state owns at most one child, which
  reports to it through signals, so that the states of a task are a chain: level 0 is the root and
  level \<open>i + 1\<close> the child of level \<open>i\<close>. A dropped child is finalized at once (the client holds
  no reference, as the documentation of \<open>dnf_state_get_child\<close> demands). The handlers of a parent run
  before those of the client, which are recorded as events. Unsigned integers are naturals with
  their wrap-around written out; profiling only prints and is not modelled beyond its flag.
\<close>

section \<open>States\<close>

datatype state_action =
    ACTION_UNKNOWN | ACTION_DOWNLOAD_PACKAGES | ACTION_DOWNLOAD_METADATA | ACTION_LOADING_CACHE
  | ACTION_TEST_COMMIT | ACTION_REQUEST | ACTION_REMOVE | ACTION_INSTALL | ACTION_UPDATE | ACTION_CLEANUP
  | ACTION_OBSOLETE | ACTION_REINSTALL | ACTION_DOWNGRADE | ACTION_QUERY

record pstate =
  ps_allow_cancel :: bool
  ps_allow_cancel_changed :: bool
  ps_allow_cancel_child :: bool
  ps_enable_profile :: bool
  ps_report_progress :: bool
  ps_cancellable :: "nat option"
  ps_action_hint :: "string option"
  ps_id :: "string option"
  ps_speed :: nat
  ps_speed_data :: "nat list"
  ps_current :: nat
  ps_last_percentage :: nat
  ps_step_data :: "nat list option"
  ps_steps :: nat
  ps_action :: state_action
  ps_last_action :: state_action
  ps_child_action :: state_action
  ps_lock_ids :: "32 word list"

datatype progress_event =
    PercentageChanged nat
  | AllowCancelChanged bool
  | ActionChanged state_action "string option"
  | PackageProgressChanged string state_action nat
  | NotifySpeed nat

record progress =
  pg_chain :: "pstate list"
  pg_locks :: lock_state
  pg_events :: "(nat \<times> progress_event) list"
  pg_next_cancellable :: nat

datatype state_error =
    PercentageNot100 nat
  | FailedToSetSteps nat
  | CancelledByUser
  | DoneWithoutSteps string
  | AlreadyAt100 string

definition SPEED_SMOOTHING_ITEMS :: nat where "SPEED_SMOOTHING_ITEMS = 5"

definition guint :: "nat \<Rightarrow> nat" where "guint n = n mod 2 ^ 32"

definition guint64 :: "nat \<Rightarrow> nat" where "guint64 n = n mod 2 ^ 64"

definition state_init :: pstate where
  "state_init =
     \<lparr>ps_allow_cancel = True, ps_allow_cancel_changed = False, ps_allow_cancel_child = True, ps_enable_profile = False,
      ps_report_progress = True, ps_cancellable = None, ps_action_hint = None, ps_id = None, ps_speed = 0,
      ps_speed_data = replicate SPEED_SMOOTHING_ITEMS 0, ps_current = 0, ps_last_percentage = 0,
      ps_step_data = None, ps_steps = 0, ps_action = ACTION_UNKNOWN, ps_last_action = ACTION_UNKNOWN,
      ps_child_action = ACTION_UNKNOWN, ps_lock_ids = []\<rparr>"

definition state_new :: "lock_state \<Rightarrow> progress" where
  "state_new locks = \<lparr>pg_chain = [state_init], pg_locks = locks, pg_events = [], pg_next_cancellable = 0\<rparr>"

definition level :: "progress \<Rightarrow> nat \<Rightarrow> pstate" where
  "level s i = pg_chain s ! i"

definition at_level :: "nat \<Rightarrow> (pstate \<Rightarrow> pstate) \<Rightarrow> progress \<Rightarrow> progress" where
  "at_level i f s = s\<lparr>pg_chain := (pg_chain s)[i := f (pg_chain s ! i)]\<rparr>"

definition log_event :: "nat \<Rightarrow> progress_event \<Rightarrow> progress \<Rightarrow> progress" where
  "log_event i e s = s\<lparr>pg_events := pg_events s @ [(i, e)]\<rparr>"

definition set_report_progress :: "nat \<Rightarrow> bool \<Rightarrow> progress \<Rightarrow> progress" where
  "set_report_progress i b s = at_level i (\<lambda>x. x\<lparr>ps_report_progress := b\<rparr>) s"

definition set_enable_profile :: "nat \<Rightarrow> bool \<Rightarrow> progress \<Rightarrow> progress" where
  "set_enable_profile i b s = at_level i (\<lambda>x. x\<lparr>ps_enable_profile := b\<rparr>) s"

text \<open>A cancellable is set once.\<close>

definition set_cancellable :: "nat \<Rightarrow> nat option \<Rightarrow> progress \<Rightarrow> progress" where
  "set_cancellable i c s =
     (if ps_cancellable (level s i) \<noteq> None then s
      else (case c of None \<Rightarrow> s | Some k \<Rightarrow> at_level i (\<lambda>x. x\<lparr>ps_cancellable := Some k\<rparr>) s))"

section \<open>Signals\<close>

text \<open>An emission runs the handler the parent connected and then those of the client.\<close>

primrec emit_allow_cancel :: "nat \<Rightarrow> bool \<Rightarrow> progress \<Rightarrow> progress" where
  "emit_allow_cancel 0 b s = log_event 0 (AllowCancelChanged b) s"
| "emit_allow_cancel (Suc i) b s =
     (let s = at_level i (\<lambda>x. x\<lparr>ps_allow_cancel_child := b\<rparr>) s
      in log_event (Suc i) (AllowCancelChanged b) (emit_allow_cancel i (ps_allow_cancel (level s i) \<and> b) s))"

primrec emit_action :: "nat \<Rightarrow> state_action \<Rightarrow> string option \<Rightarrow> progress \<Rightarrow> progress" where
  "emit_action 0 a hint s = log_event 0 (ActionChanged a hint) s"
| "emit_action (Suc i) a hint s =
     log_event (Suc i) (ActionChanged a hint) (emit_action i a hint (at_level i (\<lambda>x. x\<lparr>ps_action := a\<rparr>) s))"

primrec emit_package_progress :: "nat \<Rightarrow> string \<Rightarrow> state_action \<Rightarrow> nat \<Rightarrow> progress \<Rightarrow> progress" where
  "emit_package_progress 0 pkg a p s = log_event 0 (PackageProgressChanged pkg a p) s"
| "emit_package_progress (Suc i) pkg a p s =
     log_event (Suc i) (PackageProgressChanged pkg a p) (emit_package_progress i pkg a p s)"

fun set_speed_internal :: "nat \<Rightarrow> nat \<Rightarrow> progress \<Rightarrow> progress" where
  "set_speed_internal i speed s =
     (if ps_speed (level s i) = speed then s
      else
        (let s = at_level i (\<lambda>x. x\<lparr>ps_speed := speed\<rparr>) s
         in log_event i (NotifySpeed speed) (case i of 0 \<Rightarrow> s | Suc j \<Rightarrow> set_speed_internal j speed s)))"

declare set_speed_internal.simps [simp del]

definition get_allow_cancel :: "nat \<Rightarrow> progress \<Rightarrow> bool" where
  "get_allow_cancel i s \<longleftrightarrow> ps_allow_cancel (level s i) \<and> ps_allow_cancel_child (level s i)"

definition set_allow_cancel :: "nat \<Rightarrow> bool \<Rightarrow> progress \<Rightarrow> progress" where
  "set_allow_cancel i b s =
     (let s = at_level i (\<lambda>x. x\<lparr>ps_allow_cancel_changed := True\<rparr>) s in
      if ps_allow_cancel (level s i) = b then s
      else
        (let s = at_level i (\<lambda>x. x\<lparr>ps_allow_cancel := b\<rparr>) s
         in emit_allow_cancel i (b \<and> ps_allow_cancel_child (level s i)) s))"

text \<open>The mean of the last non-zero speeds.\<close>

definition smooth_speed :: "nat list \<Rightarrow> nat" where
  "smooth_speed data =
     (let known = filter (\<lambda>v. v > 0) data;
          sum = foldl (\<lambda>sum v. guint64 (sum + v)) 0 known
      in if known \<noteq> [] then sum div length known else sum)"

definition set_speed :: "nat \<Rightarrow> nat \<Rightarrow> progress \<Rightarrow> progress" where
  "set_speed i speed s =
     (let data = speed # butlast (ps_speed_data (level s i));
          s = at_level i (\<lambda>x. x\<lparr>ps_speed_data := data\<rparr>) s
      in set_speed_internal i (smooth_speed data) s)"

definition action_start :: "nat \<Rightarrow> state_action \<Rightarrow> string option \<Rightarrow> progress \<Rightarrow> bool \<times> progress" where
  "action_start i a hint s =
     (if a = ACTION_UNKNOWN then (False, s)
      else if ps_action (level s i) = a \<and> hint = ps_action_hint (level s i) then (False, s)
      else
        (let s = at_level i (\<lambda>x. x\<lparr>ps_last_action := ps_action x, ps_action_hint := hint, ps_action := a\<rparr>) s
         in (True, emit_action i a hint s)))"

definition action_stop :: "nat \<Rightarrow> progress \<Rightarrow> bool \<times> progress" where
  "action_stop i s =
     (if ps_action (level s i) = ACTION_UNKNOWN then (False, s)
      else
        (let s = at_level i (\<lambda>x. x\<lparr>ps_action := ps_last_action x, ps_last_action := ACTION_UNKNOWN, ps_action_hint := None\<rparr>) s
         in (True, emit_action i (ps_action (level s i)) None s)))"

definition set_package_progress :: "nat \<Rightarrow> string \<Rightarrow> state_action \<Rightarrow> nat \<Rightarrow> progress \<Rightarrow> progress" where
  "set_package_progress i pkg a p s =
     (if a = ACTION_UNKNOWN \<or> p > 100 then s else emit_package_progress i pkg a p s)"

section \<open>Locks\<close>

definition take_lock :: "lock_env \<Rightarrow> nat \<Rightarrow> lock_type \<Rightarrow> lock_mode \<Rightarrow> progress \<Rightarrow> bool \<times> progress" where
  "take_lock env i t m s =
     (case lock_take env t m (pg_locks s) of
        (Inl e, l) \<Rightarrow> (False, s\<lparr>pg_locks := l\<rparr>)
      | (Inr k, l) \<Rightarrow>
          (if k = 0 then (False, s\<lparr>pg_locks := l\<rparr>)
           else (True, at_level i (\<lambda>x. x\<lparr>ps_lock_ids := ps_lock_ids x @ [k]\<rparr>) (s\<lparr>pg_locks := l\<rparr>))))"

text \<open>The loop over the locks of a state stops at the first that cannot be released.\<close>

primrec release_ids :: "('k \<Rightarrow> 'l \<Rightarrow> ('e + unit) \<times> 'l) \<Rightarrow> 'k list \<Rightarrow> 'l \<Rightarrow> bool \<times> 'l" where
  "release_ids rel [] l = (True, l)"
| "release_ids rel (k # ks) l =
     (case rel k l of (Inl e, l') \<Rightarrow> (False, l') | (Inr u, l') \<Rightarrow> release_ids rel ks l')"

definition release_own :: "lock_env \<Rightarrow> nat \<Rightarrow> progress \<Rightarrow> bool \<times> progress" where
  "release_own env i s =
     (let (ok, l) = release_ids (lock_release env) (ps_lock_ids (level s i)) (pg_locks s); s = s\<lparr>pg_locks := l\<rparr>
      in if ok then (True, at_level i (\<lambda>x. x\<lparr>ps_lock_ids := []\<rparr>) s) else (False, s))"

function release_locks :: "lock_env \<Rightarrow> nat \<Rightarrow> progress \<Rightarrow> bool \<times> progress" where
  "release_locks env i s =
     release_own env i (if Suc i < length (pg_chain s) then snd (release_locks env (Suc i) s) else s)"
  by pat_completeness auto

termination release_locks
  by (relation "measure (\<lambda>(env, i, s). length (pg_chain s) - i)") auto

declare release_locks.simps [simp del]

section \<open>Percentages\<close>

text \<open>Rounding to \<open>gdouble\<close> and \<open>gfloat\<close>: the values stay far from the largest ones.\<close>

fun fp_value :: "fp \<Rightarrow> rat" where
  "fp_value (Finite q) = q"
| "fp_value _ = 0"

definition gdouble :: "rat \<Rightarrow> rat" where "gdouble q = fp_value (fp_round double_format q)"

definition gfloat :: "rat \<Rightarrow> rat" where "gfloat q = fp_value (fp_round float_format q)"

definition discrete_to_percent :: "nat \<Rightarrow> nat \<Rightarrow> rat" where
  "discrete_to_percent discrete steps =
     (if discrete > steps then 100
      else if steps = 0 then 0
      else gfloat (gdouble (of_nat discrete * gdouble (100 / of_nat steps))))"

text \<open>The percentage a parent takes over when its child reports \<open>p\<close>, and whether the action of before
  the child is restored.\<close>

definition parent_percentage :: "pstate \<Rightarrow> nat \<Rightarrow> (nat \<times> bool) option" where
  "parent_percentage x p =
     (if ps_steps x = 1 then Some (p, False)
      else if ps_steps x = 0 then None
      else if ps_current x \<ge> ps_steps x then None
      else
        (case ps_step_data x of
           Some data \<Rightarrow>
             Some (if ps_current x = 0 then guint (p * data ! ps_current x) div 100
                   else guint (guint ((100 - p) * data ! (ps_current x - 1)) + guint (p * data ! ps_current x)) div 100,
                   False)
         | None \<Rightarrow>
             (let offset = discrete_to_percent (ps_current x) (ps_steps x);
                  range = gfloat (discrete_to_percent (ps_current x + 1) (ps_steps x) - offset)
              in if range < gdouble (1 / 100) then None
                 else
                   (let extra = gfloat (gfloat (of_nat p / 100) * range)
                    in Some (nat (rat_trunc (gfloat (offset + extra))), p = 100)))))"

text \<open>\<open>dnf_state_set_percentage\<close> and the parent's handler \<open>dnf_state_child_percentage_changed_cb\<close>.\<close>

text \<open>What happens to a state that is done.\<close>

definition at_100 :: "lock_env \<Rightarrow> nat \<Rightarrow> progress \<Rightarrow> bool \<times> progress" where
  "at_100 env i s =
     (let s = (if \<not> ps_allow_cancel (level s i) then set_allow_cancel i True s else s);
          s = (if ps_action (level s i) \<noteq> ACTION_UNKNOWN then snd (action_stop i s) else s);
          s = set_speed_internal i 0 s
      in release_locks env i s)"

fun set_percentage :: "lock_env \<Rightarrow> nat \<Rightarrow> nat \<Rightarrow> progress \<Rightarrow> bool \<times> progress" where
  "set_percentage env i p s =
     (let x = level s i in
      if \<not> ps_report_progress x then (True, s)
      else if p = ps_last_percentage x \<or> p > 100 \<or> p < ps_last_percentage x then (False, s)
      else
        (let (ok, s) = (if p = 100 then at_100 env i s else (True, s)) in
         if \<not> ok then (False, s)
         else
           (let s = at_level i (\<lambda>x. x\<lparr>ps_last_percentage := p\<rparr>) s in
            (True, log_event i (PercentageChanged p)
               (case i of
                  0 \<Rightarrow> s
                | Suc j \<Rightarrow>
                    (case parent_percentage (level s j) p of
                       None \<Rightarrow> s
                     | Some (q, restore) \<Rightarrow>
                         snd (set_percentage env j q
                           (if restore then at_level j (\<lambda>x. x\<lparr>ps_last_action := ps_child_action x\<rparr>) s else s))))))))"

declare set_percentage.simps [simp del]

section \<open>Resetting and children\<close>

lemma at_level_length [simp]: "length (pg_chain (at_level i f s)) = length (pg_chain s)"
  by (simp add: at_level_def)

lemma release_own_length [simp]: "length (pg_chain (snd (release_own env i s))) = length (pg_chain s)"
  by (simp add: release_own_def split_beta Let_def)

lemma release_locks_length [simp]: "length (pg_chain (snd (release_locks env i s))) = length (pg_chain s)"
  by (induction env i s rule: release_locks.induct) (subst release_locks.simps, simp)

text \<open>Resetting a state drops its child; finalizing the child releases its locks and resets it in turn.\<close>

function reset :: "lock_env \<Rightarrow> nat \<Rightarrow> progress \<Rightarrow> progress" where
  "reset env i s =
     (if \<not> ps_report_progress (level s i) then s
      else
        (let s = at_level i (\<lambda>x. x\<lparr>ps_steps := 0, ps_current := 0, ps_last_percentage := 0\<rparr>) s;
             s = (if Suc i < length (pg_chain s)
                  then (let s = reset env (Suc i) (snd (release_locks env (Suc i) s))
                        in s\<lparr>pg_chain := take (Suc i) (pg_chain s)\<rparr>)
                  else s);
             s = snd (release_locks env i s)
         in at_level i (\<lambda>x. x\<lparr>ps_step_data := None\<rparr>) s))"
  by pat_completeness auto

termination reset
  by (relation "measure (\<lambda>(env, i, s). length (pg_chain s) - i)") auto

declare reset.simps [simp del]

definition drop_child :: "lock_env \<Rightarrow> nat \<Rightarrow> progress \<Rightarrow> progress" where
  "drop_child env i s =
     (if Suc i < length (pg_chain s)
      then (let s = reset env (Suc i) (snd (release_locks env (Suc i) s))
            in s\<lparr>pg_chain := take (Suc i) (pg_chain s)\<rparr>)
      else s)"

definition get_child :: "lock_env \<Rightarrow> nat \<Rightarrow> progress \<Rightarrow> nat \<times> progress" where
  "get_child env i s =
     (if \<not> ps_report_progress (level s i) then (i, s)
      else
        (let s = drop_child env i s;
             x = level s i;
             s = (if ps_cancellable x = None
                  then at_level i (\<lambda>x. x\<lparr>ps_cancellable := Some (pg_next_cancellable s)\<rparr>)
                    (s\<lparr>pg_next_cancellable := pg_next_cancellable s + 1\<rparr>)
                  else s);
             s = at_level i (\<lambda>x. x\<lparr>ps_child_action := ps_action x\<rparr>) s;
             x = level s i;
             child = state_init\<lparr>ps_action := ps_action x, ps_cancellable := ps_cancellable x,
                       ps_enable_profile := ps_enable_profile x\<rparr>
         in (Suc i, s\<lparr>pg_chain := pg_chain s @ [child]\<rparr>)))"

section \<open>Steps\<close>

definition set_number_steps :: "nat \<Rightarrow> nat \<Rightarrow> string \<Rightarrow> progress \<Rightarrow> bool \<times> progress" where
  "set_number_steps i steps strloc s =
     (if steps = 0 then (True, s)
      else if \<not> ps_report_progress (level s i) then (True, s)
      else if ps_steps (level s i) \<noteq> 0 then (False, s)
      else (True, at_level i (\<lambda>x. x\<lparr>ps_id := Some strloc, ps_steps := steps\<rparr>) s))"

text \<open>The sums of the weights from the first to each, in \<open>guint\<close>.\<close>

primrec running_sums :: "nat \<Rightarrow> nat list \<Rightarrow> nat list" where
  "running_sums acc [] = []"
| "running_sums acc (v # vs) = guint (acc + v) # running_sums (guint (acc + v)) vs"

text \<open>\<open>dnf_state_set_steps\<close> with the weights \<open>value # rest\<close>, converted to \<open>guint\<close>.\<close>

definition set_steps :: "nat \<Rightarrow> string \<Rightarrow> nat \<Rightarrow> nat list \<Rightarrow> progress \<Rightarrow> state_error + progress" where
  "set_steps i strloc v rest s =
     (if \<not> ps_report_progress (level s i) then Inr s
      else
        (let acc = foldl (\<lambda>acc v. guint (acc + v)) v rest in
         if acc \<noteq> 100 then Inl (PercentageNot100 acc)
         else
           (case set_number_steps i (length rest + 1) strloc s of
              (False, s) \<Rightarrow> Inl (FailedToSetSteps (length rest + 1))
            | (True, s) \<Rightarrow> Inr (at_level i (\<lambda>x. x\<lparr>ps_step_data := Some (v # running_sums v rest)\<rparr>) s))))"

text \<open>Whether the cancellable of a state is cancelled is the client's decision.\<close>

definition check :: "(nat \<Rightarrow> bool) \<Rightarrow> nat \<Rightarrow> progress \<Rightarrow> state_error + unit" where
  "check cancelled i s =
     (case ps_cancellable (level s i) of
        Some c \<Rightarrow> (if cancelled c then Inl CancelledByUser else Inr ())
      | None \<Rightarrow> Inr ())"

definition done_state ::
  "lock_env \<Rightarrow> (nat \<Rightarrow> bool) \<Rightarrow> nat \<Rightarrow> string \<Rightarrow> progress \<Rightarrow> state_error + progress" where
  "done_state env cancelled i strloc s =
     and_then (check cancelled i s) (\<lambda>_.
       let x = level s i in
       if \<not> ps_report_progress x then Inr s
       else if ps_steps x = 0 then Inl (DoneWithoutSteps strloc)
       else if ps_current x \<ge> ps_steps x then Inl (AlreadyAt100 strloc)
       else
         (let s = set_allow_cancel i True s;
              s = at_level i (\<lambda>x. x\<lparr>ps_current := ps_current x + 1\<rparr>) s;
              x = level s i;
              percentage = (case ps_step_data x of
                  None \<Rightarrow> nat (rat_trunc (discrete_to_percent (ps_current x) (ps_steps x)))
                | Some data \<Rightarrow> nat (rat_trunc (gfloat (of_nat (data ! (ps_current x - 1))))));
              s = snd (set_percentage env i percentage s)
          in Inr (if Suc i < length (pg_chain s) then reset env (Suc i) s else s)))"

definition finished :: "lock_env \<Rightarrow> (nat \<Rightarrow> bool) \<Rightarrow> nat \<Rightarrow> progress \<Rightarrow> state_error + progress" where
  "finished env cancelled i s =
     and_then (check cancelled i s) (\<lambda>_.
       if ps_current (level s i) = ps_steps (level s i) then Inr s
       else Inr (snd (set_percentage env i 100 (at_level i (\<lambda>x. x\<lparr>ps_current := ps_steps x\<rparr>) s))))"

end
