(* ===== verification/LockFacts.thy ===== *)
theory LockFacts
  imports Locks
begin

text \<open>
  The lock registry over its reachable states: the identities of items, exclusion between threads,
  how operations change the count of a lock (the interface \<open>lock_service\<close>, on which the progress
  states rely), and the faults of releasing and shutting down.
\<close>

section \<open>Reachable registries\<close>

text \<open>Any thread takes and releases; other processes change files. A take is a step while the counter
  of identities has not run through its $2^{32}$ values.\<close>

inductive lock_reachable :: "lock_state \<Rightarrow> bool" where
  start: "lk_items s = [] \<Longrightarrow> lk_next_id s = 1 \<Longrightarrow> lock_reachable s"
| take: "lock_reachable s \<Longrightarrow> lk_next_id s \<noteq> - 1 \<Longrightarrow> lock_reachable (snd (lock_take env t m s))"
| release: "lock_reachable s \<Longrightarrow> lock_reachable (snd (lock_release env k s))"
| files: "lock_reachable s \<Longrightarrow> lock_reachable (s\<lparr>lk_files := fs\<rparr>)"
| dir: "lock_reachable s \<Longrightarrow> lock_reachable (set_lock_dir dir s)"

definition slot :: "lock_item \<Rightarrow> lock_type \<times> lock_mode" where
  "slot x = (li_type x, li_mode x)"

definition lock_inv :: "lock_state \<Rightarrow> bool" where
  "lock_inv s \<longleftrightarrow> distinct (map li_id (lk_items s)) \<and> distinct (map slot (lk_items s)) \<and>
     (\<forall>x \<in> set (lk_items s). 0 < li_id x \<and> li_id x < lk_next_id s)"

lemma lock_file_keeps:
  assumes "create_lock_file env t m s = Inr s'"
  shows "lk_items s' = lk_items s" "lk_next_id s' = lk_next_id s" "lk_dir s' = lk_dir s" "lk_emitted s' = lk_emitted s"
    "lk_files s' = (lk_files s)(filename_for_type s t \<mapsto> decimal_int (le_pid env))"
  using assms by (auto simp: create_lock_file_def Let_def and_then_Inr_iff split: if_splits)

lemma find_idx_bound: "find_idx P xs = Some i \<Longrightarrow> i < length xs \<and> P (xs ! i)"
  by (simp add: find_idx_Some)

text \<open>The item a take finds.\<close>

definition found_item :: "lock_state \<Rightarrow> lock_type \<Rightarrow> lock_mode \<Rightarrow> nat option" where
  "found_item s t m =
     (case get_item_by_type_mode s t m of
        Some i \<Rightarrow> Some i
      | None \<Rightarrow> if m = LOCK_MODE_THREAD then get_item_by_type_mode s t LOCK_MODE_PROCESS else None)"

lemma found_item_type:
  "found_item s t m = Some i \<Longrightarrow>
    i < length (lk_items s) \<and> li_type (lk_items s ! i) = t \<and> (li_mode (lk_items s ! i) = m \<or> m = LOCK_MODE_THREAD)"
  by (auto simp: found_item_def get_item_by_type_mode_def dest!: find_idx_bound split: option.splits if_splits)

text \<open>The outcomes of a take.\<close>

lemma lock_take_cases:
  obtains (created) s' where "found_item s t m = None" "lock_take env t m s = (Inr (lk_next_id s), s')"
      "lk_items s' = lk_items s @
        [\<lparr>li_owner = le_self env, li_id = lk_next_id s, li_refcount = 1, li_mode = m, li_type = t\<rparr>]"
      "lk_next_id s' = lk_next_id s + 1" "lk_dir s' = lk_dir s"
      "lk_files s' = (if m = LOCK_MODE_PROCESS then (lk_files s)(filename_for_type s t \<mapsto> decimal_int (le_pid env))
        else lk_files s)"
  | (again) i s' where "found_item s t m = Some i" "li_owner (lk_items s ! i) = le_self env"
      "lock_take env t m s = (Inr (li_id (lk_items s ! i)), s')"
      "lk_items s' = (lk_items s)[i := (lk_items s ! i)\<lparr>li_refcount := li_refcount (lk_items s ! i) + 1\<rparr>]"
      "lk_next_id s' = lk_next_id s" "lk_dir s' = lk_dir s" "lk_files s' = lk_files s"
  | (failed) e where "lock_take env t m s = (Inl e, s)"
proof (cases "found_item s t m")
  case None
  note none = this [unfolded found_item_def]
  show ?thesis
  proof (cases "if m = LOCK_MODE_PROCESS then create_lock_file env t m s else Inr s")
    case (Inl e)
    then show ?thesis using none failed by (simp add: lock_take_def)
  next
    case (Inr s1)
    then have s1: "lk_items s1 = lk_items s" "lk_next_id s1 = lk_next_id s" "lk_dir s1 = lk_dir s"
      "lk_files s1 = (if m = LOCK_MODE_PROCESS then (lk_files s)(filename_for_type s t \<mapsto> decimal_int (le_pid env))
        else lk_files s)"
      using lock_file_keeps [of env t m s s1] by (auto split: if_splits)
    have take: "lock_take env t m s = (Inr (fst (create_item env t m s1)), emit_state (snd (create_item env t m s1)))"
      unfolding lock_take_def none using Inr by (simp add: case_prod_beta)
    show ?thesis
      by (rule created [OF None, of "emit_state (snd (create_item env t m s1))"])
        (simp_all add: take s1 create_item_def emit_state_def)
  qed
next
  case (Some i)
  note some = this [unfolded found_item_def]
  show ?thesis
  proof (cases "li_owner (lk_items s ! i) = le_self env")
    case True
    then show ?thesis
      by (intro again [OF Some, of "snd (lock_take env t m s)"]) (simp_all add: lock_take_def some Let_def emit_state_def)
  next
    case False
    then show ?thesis using failed by (simp add: lock_take_def some)
  qed
qed

text \<open>The outcomes of a release.\<close>

definition drop_nth :: "nat \<Rightarrow> 'a list \<Rightarrow> 'a list" where
  "drop_nth i xs = take i xs @ drop (Suc i) xs"

definition with_count :: "lock_item \<Rightarrow> lock_item" where
  "with_count x = x\<lparr>li_refcount := li_refcount x - 1\<rparr>"

lemma with_count_simps [simp]:
  "li_id (with_count x) = li_id x" "li_owner (with_count x) = li_owner x" "li_mode (with_count x) = li_mode x"
  "li_type (with_count x) = li_type x" "slot (with_count x) = slot x" "li_refcount (with_count x) = li_refcount x - 1"
  by (simp_all add: with_count_def slot_def)

lemma lock_release_cases:
  obtains (released) i s' where "get_item_by_id s k = Some i" "lock_release env k s = (Inr (), s')"
      "lk_items s' = (if li_refcount (lk_items s ! i) = 1 then drop_nth i (lk_items s)
        else (lk_items s)[i := with_count (lk_items s ! i)])" "lk_next_id s' = lk_next_id s" "lk_dir s' = lk_dir s"
      "lk_files s' = (if li_refcount (lk_items s ! i) = 1 \<and> li_mode (lk_items s ! i) = LOCK_MODE_PROCESS
        then (lk_files s)(filename_for_type s (li_type (lk_items s ! i)) := None) else lk_files s)"
      "k \<noteq> 0" "li_owner (lk_items s ! i) = le_self env"
  | (failed) e where "lock_release env k s = (Inl e, s)"
  | (undeleted) i where "get_item_by_id s k = Some i" "li_refcount (lk_items s ! i) = 1"
      "li_mode (lk_items s ! i) = LOCK_MODE_PROCESS"
      "lock_release env k s = (Inl CannotDelete, s\<lparr>lk_items := (lk_items s)[i := with_count (lk_items s ! i)]\<rparr>)"
proof (cases "k = 0")
  case True
  then show ?thesis using failed by (simp add: lock_release_def)
next
  case k: False
  show ?thesis
  proof (cases "get_item_by_id s k")
    case None
    then show ?thesis using failed k by (simp add: lock_release_def)
  next
    case (Some i)
    let ?x = "lk_items s ! i"
    have i: "i < length (lk_items s)" using Some by (auto simp: get_item_by_id_def dest: find_idx_bound)
    show ?thesis
    proof (cases "li_owner ?x = le_self env")
      case False
      then show ?thesis using failed k Some by (simp add: lock_release_def)
    next
      case own: True
      have one: "li_refcount ?x - 1 = 0 \<longleftrightarrow> li_refcount ?x = 1" by simp
      have fn: "filename_for_type (s\<lparr>lk_items := xs\<rparr>) t = filename_for_type s t" for xs t
        by (simp add: filename_for_type_def)
      let ?gone = "lk_files s (filename_for_type s (li_type ?x)) = None \<or>
        \<not> le_deletable env (filename_for_type s (li_type ?x))"
      show ?thesis
      proof (cases "li_refcount ?x = 1 \<and> li_mode ?x = LOCK_MODE_PROCESS \<and> ?gone")
        case True
        then show ?thesis using k Some own
          by (intro undeleted [of i]) (auto simp: lock_release_def Let_def fn with_count_def)
      next
        case False
        let ?s = "snd (lock_release env k s)"
        have "lock_release env k s = (Inr (), ?s)"
          using False k Some own by (auto simp: lock_release_def Let_def fn)
        moreover have "lk_items ?s = (if li_refcount ?x = 1 then drop_nth i (lk_items s)
            else (lk_items s)[i := with_count ?x])"
          using False k Some own i
          by (auto simp: lock_release_def Let_def fn emit_state_def with_count_def drop_nth_def)
        moreover have "lk_next_id ?s = lk_next_id s" "lk_dir ?s = lk_dir s"
          using k Some own by (auto simp: lock_release_def Let_def fn emit_state_def)
        moreover have "lk_files ?s = (if li_refcount ?x = 1 \<and> li_mode ?x = LOCK_MODE_PROCESS
            then (lk_files s)(filename_for_type s (li_type ?x) := None) else lk_files s)"
          using False k Some own by (auto simp: lock_release_def Let_def fn emit_state_def)
        ultimately show ?thesis using released Some k own by blast
      qed
    qed
  qed
qed

section \<open>Identities stay unique\<close>

lemma nth_split: "i < length xs \<Longrightarrow> xs = take i xs @ xs ! i # drop (Suc i) xs"
  by (rule id_take_nth_drop)

lemma drop_nth_set: "set (drop_nth i xs) \<subseteq> set xs"
  by (auto simp: drop_nth_def dest: in_set_takeD in_set_dropD)

lemma drop_nth_map: "map f (drop_nth i xs) = drop_nth i (map f xs)"
  by (simp add: drop_nth_def take_map drop_map)

lemma drop_nth_distinct: "distinct xs \<Longrightarrow> distinct (drop_nth i xs)"
proof (cases "i < length xs")
  case True
  assume "distinct xs"
  then have "distinct (take i xs @ xs ! i # drop (Suc i) xs)" using nth_split [OF True] by simp
  then show ?thesis by (auto simp: drop_nth_def)
qed (simp add: drop_nth_def)

lemma map_update_same: "f y = f (xs ! i) \<Longrightarrow> map f (xs[i := y]) = map f xs"
  by (metis list_update_id map_update)

lemma lock_inv_take:
  assumes "lock_inv s" "0 < lk_next_id s" "lk_next_id s \<noteq> - 1"
  shows "lock_inv (snd (lock_take env t m s)) \<and> 0 < lk_next_id (snd (lock_take env t m s))"
proof (cases rule: lock_take_cases [of s t m env])
  case (created s')
  have "unat (lk_next_id s + 1) = Suc (unat (lk_next_id s))"
    using assms(3) unatSuc [of "lk_next_id s"] by (metis add.commute add_eq_0_iff2)
  then have lt: "x < lk_next_id s + 1 \<longleftrightarrow> x \<le> lk_next_id s" for x
    by (simp add: word_less_nat_alt word_le_nat_alt less_Suc_eq_le)
  have "(t, m) \<notin> slot ` set (lk_items s)"
    using created(1) by (auto simp: found_item_def get_item_by_type_mode_def slot_def find_idx_None split: option.splits)
  then show ?thesis using assms created unfolding lock_inv_def
    by (auto simp: slot_def lt less_imp_le)
next
  case (again i s')
  let ?y = "(lk_items s ! i)\<lparr>li_refcount := li_refcount (lk_items s ! i) + 1\<rparr>"
  have m: "map li_id (lk_items s') = map li_id (lk_items s)" "map slot (lk_items s') = map slot (lk_items s)"
    unfolding again(4) by (simp_all add: map_update_same slot_def)
  then have "li_id ` set (lk_items s') = li_id ` set (lk_items s)" by (metis set_map)
  then have "\<forall>x \<in> set (lk_items s'). 0 < li_id x \<and> li_id x < lk_next_id s"
    using assms(1) unfolding lock_inv_def by (metis image_iff)
  then show ?thesis using assms again m by (simp add: lock_inv_def)
next
  case (failed e)
  then show ?thesis using assms by simp
qed

lemma lock_inv_weaken:
  assumes "lock_inv s" "lk_next_id s' = lk_next_id s"
    "map li_id (lk_items s') = map li_id (lk_items s) \<and> map slot (lk_items s') = map slot (lk_items s) \<or>
     lk_items s' = drop_nth i (lk_items s)"
  shows "lock_inv s'"
  using assms(3)
proof
  assume a: "map li_id (lk_items s') = map li_id (lk_items s) \<and> map slot (lk_items s') = map slot (lk_items s)"
  then have "li_id ` set (lk_items s') = li_id ` set (lk_items s)" by (metis set_map)
  then have "\<forall>x \<in> set (lk_items s'). 0 < li_id x \<and> li_id x < lk_next_id s"
    using assms(1) unfolding lock_inv_def by (metis image_iff)
  then show ?thesis using assms a by (simp add: lock_inv_def)
next
  assume "lk_items s' = drop_nth i (lk_items s)"
  then show ?thesis using assms(1,2) drop_nth_set [of i "lk_items s"]
    by (auto simp: lock_inv_def drop_nth_map drop_nth_distinct)
qed

lemma lock_inv_release:
  assumes "lock_inv s"
  shows "lock_inv (snd (lock_release env k s)) \<and> lk_next_id (snd (lock_release env k s)) = lk_next_id s"
proof (cases rule: lock_release_cases [of s k env])
  case (released i s')
  then have "lock_inv s'"
    by (intro lock_inv_weaken [OF assms, of s' i]) (auto simp: map_update_same)
  then show ?thesis using released by simp
next
  case (failed e)
  then show ?thesis using assms by simp
next
  case (undeleted i)
  have "lock_inv (s\<lparr>lk_items := (lk_items s)[i := with_count (lk_items s ! i)]\<rparr>)"
    by (rule lock_inv_weaken [OF assms]) (simp_all add: map_update_same)
  then show ?thesis using undeleted by simp
qed

lemma lock_reachable_inv: "lock_reachable s \<Longrightarrow> lock_inv s \<and> 0 < lk_next_id s"
proof (induction rule: lock_reachable.induct)
  case (take s env t m)
  then show ?case using lock_inv_take by blast
next
  case (release s env k)
  then show ?case using lock_inv_release by metis
qed (auto simp: lock_inv_def set_lock_dir_def)

section \<open>Counting what is held\<close>

definition count_in :: "32 word \<Rightarrow> lock_item \<Rightarrow> 32 word" where
  "count_in k x = (if li_id x = k then li_refcount x else 0)"

text \<open>The number of times the lock \<open>k\<close> is held, modulo $2^{32}$.\<close>

definition lock_held :: "lock_state \<Rightarrow> 32 word \<Rightarrow> 32 word" where
  "lock_held s k = (\<Sum>x\<leftarrow>lk_items s. count_in k x)"

locale lock_service =
  fixes acquire :: "'q \<Rightarrow> 'l \<Rightarrow> ('e + 'k) \<times> 'l"
    and release :: "'k \<Rightarrow> 'l \<Rightarrow> ('e + unit) \<times> 'l"
    and held :: "'l \<Rightarrow> 'k \<Rightarrow> 'c :: comm_ring_1"
  assumes acquired: "acquire q l = (Inr k, l') \<Longrightarrow> held l' j = held l j + (if j = k then 1 else 0)"
    and not_acquired: "acquire q l = (Inl e, l') \<Longrightarrow> l' = l"
    and released: "release k l = (Inr u, l') \<Longrightarrow> held l' j = held l j - (if j = k then 1 else 0)"

lemma sum_list_split:
  "i < length xs \<Longrightarrow> (\<Sum>x\<leftarrow>xs. f x :: 'a :: comm_monoid_add) = f (xs ! i) + (\<Sum>x\<leftarrow>drop_nth i xs. f x)"
  by (subst nth_split [of i xs]) (simp_all add: drop_nth_def ac_simps)

lemma sum_list_set:
  "i < length xs \<Longrightarrow> (\<Sum>x\<leftarrow>xs[i := y]. f x :: 'a :: comm_monoid_add) = f y + (\<Sum>x\<leftarrow>drop_nth i xs. f x)"
  by (simp add: upd_conv_take_nth_drop drop_nth_def ac_simps)

lemma held_split:
  "i < length (lk_items s) \<Longrightarrow>
    lock_held s j = count_in j (lk_items s ! i) + (\<Sum>x\<leftarrow>drop_nth i (lk_items s). count_in j x)"
  by (simp add: lock_held_def sum_list_split)

lemma held_set:
  "i < length (lk_items s) \<Longrightarrow> lk_items s' = (lk_items s)[i := y] \<Longrightarrow>
    lock_held s' j = count_in j y + (\<Sum>x\<leftarrow>drop_nth i (lk_items s). count_in j x)"
  by (simp add: lock_held_def sum_list_set)

lemma lock_take_held:
  assumes "lock_take env t m s = (Inr k, s')"
  shows "lock_held s' j = lock_held s j + (if j = k then 1 else 0)"
proof (cases rule: lock_take_cases [of s t m env])
  case (created s'')
  then show ?thesis using assms by (auto simp: lock_held_def count_in_def)
next
  case (again i s'')
  then have i: "i < length (lk_items s)" using found_item_type by blast
  have "s'' = s'" "k = li_id (lk_items s ! i)" using assms again(3) by auto
  then show ?thesis using held_split [OF i, of j] held_set [OF i again(4), of j] by (auto simp: count_in_def)
next
  case (failed e)
  then show ?thesis using assms by simp
qed

lemma lock_take_failed: "lock_take env t m s = (Inl e, s') \<Longrightarrow> s' = s"
  by (cases rule: lock_take_cases [of s t m env]) auto

lemma lock_release_held:
  assumes "lock_release env k s = (Inr u, s')"
  shows "lock_held s' j = lock_held s j - (if j = k then 1 else 0)"
proof (cases rule: lock_release_cases [of s k env])
  case (released i s'')
  then have i: "i < length (lk_items s)" "li_id (lk_items s ! i) = k" and s: "s'' = s'"
    using assms by (auto simp: get_item_by_id_def dest: find_idx_bound)
  show ?thesis
  proof (cases "li_refcount (lk_items s ! i) = 1")
    case True
    then have "lock_held s' j = (\<Sum>x\<leftarrow>drop_nth i (lk_items s). count_in j x)"
      using released(3) s by (simp add: lock_held_def)
    then show ?thesis using True i held_split [OF i(1), of j] by (auto simp: count_in_def)
  next
    case False
    then have "lk_items s' = (lk_items s)[i := with_count (lk_items s ! i)]" using released(3) s by simp
    then show ?thesis using i held_split [OF i(1), of j] held_set [OF i(1), of s' _ j] by (auto simp: count_in_def)
  qed
qed (use assms in auto)

interpretation registry: lock_service "\<lambda>(t, m). lock_take env t m" "lock_release env" lock_held for env
proof unfold_locales
  fix q l k l' j
  assume "(case q of (t, m) \<Rightarrow> lock_take env t m) l = (Inr k, l')"
  then show "lock_held l' j = lock_held l j + (if j = k then 1 else 0)"
    by (cases q) (simp add: lock_take_held)
next
  fix q l e l'
  assume "(case q of (t, m) \<Rightarrow> lock_take env t m) l = (Inl e, l')"
  then show "l' = l" by (cases q) (simp add: lock_take_failed)
qed (rule lock_release_held)

text \<open>When one thread uses the registry and lock files are not taken away, a lock that is held can be
  released: the contract \<open>releasing_service\<close> adds this to \<open>lock_service\<close>.\<close>

locale releasing_service = lock_service acquire release held
  for acquire :: "'q \<Rightarrow> 'l \<Rightarrow> ('e + 'k) \<times> 'l" and release :: "'k \<Rightarrow> 'l \<Rightarrow> ('e + unit) \<times> 'l"
    and held :: "'l \<Rightarrow> 'k \<Rightarrow> 'c :: comm_ring_1" +
  fixes usable :: "'l \<Rightarrow> bool" and capacity :: nat
  assumes release_succeeds: "usable l \<Longrightarrow> held l k \<noteq> 0 \<Longrightarrow> \<exists>u l'. release k l = (Inr u, l') \<and> usable l'"
    and counts: "0 < n \<Longrightarrow> n < capacity \<Longrightarrow> of_nat n \<noteq> (0 :: 'c)"

definition registry_usable :: "lock_env \<Rightarrow> lock_state \<Rightarrow> bool" where
  "registry_usable env s \<longleftrightarrow> (\<forall>f. le_deletable env f) \<and> distinct (map slot (lk_items s)) \<and>
     (\<forall>x \<in> set (lk_items s). li_id x \<noteq> 0 \<and> li_owner x = le_self env \<and>
        (li_mode x = LOCK_MODE_PROCESS \<longrightarrow> lk_files s (filename_for_type s (li_type x)) \<noteq> None))"

lemma filename_inj: "filename_for_type s t = filename_for_type s t' \<longleftrightarrow> t = t'"
  by (cases t; cases t') (simp_all add: filename_for_type_def)

lemma filename_dir: "lk_dir s' = lk_dir s \<Longrightarrow> filename_for_type s' t = filename_for_type s t"
  by (simp add: filename_for_type_def)

lemma drop_nth_unique:
  assumes "distinct (map f xs)" "i < length xs"
  shows "f (xs ! i) \<notin> f ` set (drop_nth i xs)"
proof -
  have "map f xs = take i (map f xs) @ f (xs ! i) # drop (Suc i) (map f xs)"
    using nth_split [of i "map f xs"] assms(2) by simp
  then have "distinct (take i (map f xs) @ f (xs ! i) # drop (Suc i) (map f xs))" using assms(1) by simp
  then have "f (xs ! i) \<notin> set (drop_nth i (map f xs))" by (auto simp: drop_nth_def)
  then show ?thesis by (simp add: drop_nth_map [symmetric])
qed

lemma held_item:
  assumes "lock_held s k \<noteq> 0"
  obtains i where "get_item_by_id s k = Some i" "i < length (lk_items s)" "li_id (lk_items s ! i) = k"
proof (cases "get_item_by_id s k")
  case None
  then have "\<forall>x \<in> set (lk_items s). count_in k x = 0" by (auto simp: get_item_by_id_def find_idx_None count_in_def)
  then have "map (count_in k) (lk_items s) = map (\<lambda>x. 0) (lk_items s)" by simp
  then have "lock_held s k = (\<Sum>x\<leftarrow>lk_items s. 0)" unfolding lock_held_def by (rule arg_cong)
  then show ?thesis using assms by simp
next
  case (Some i)
  then show ?thesis using that by (auto simp: get_item_by_id_def dest: find_idx_bound)
qed

lemma usable_update:
  assumes "registry_usable env s" "i < length (lk_items s)" "lk_items s' = (lk_items s)[i := y]"
    "lk_files s' = lk_files s" "lk_dir s' = lk_dir s" "slot y = slot (lk_items s ! i)"
    "li_id y = li_id (lk_items s ! i)" "li_owner y = li_owner (lk_items s ! i)"
  shows "registry_usable env s'"
proof -
  let ?P = "\<lambda>x. li_id x \<noteq> 0 \<and> li_owner x = le_self env \<and>
    (li_mode x = LOCK_MODE_PROCESS \<longrightarrow> lk_files s (filename_for_type s (li_type x)) \<noteq> None)"
  have fn: "filename_for_type s' t = filename_for_type s t" for t by (rule filename_dir) (rule assms)
  have all: "\<forall>x \<in> set (lk_items s). ?P x" using assms(1) by (simp add: registry_usable_def)
  then have "?P (lk_items s ! i)" using assms(2) by (rule bspec [OF _ nth_mem])
  then have "?P y" using assms(6-8) by (simp add: slot_def)
  then have "\<forall>x \<in> set (lk_items s'). ?P x"
    using all set_update_subset_insert [of "lk_items s" i y] assms(3) by auto
  moreover have "distinct (map slot (lk_items s'))"
    using assms(1,3,6) by (simp add: registry_usable_def map_update_same)
  ultimately show ?thesis using assms(1,4) by (simp add: registry_usable_def fn)
qed

lemma usable_release:
  assumes "registry_usable env s" "lock_held s k \<noteq> 0"
  shows "\<exists>u s'. lock_release env k s = (Inr u, s') \<and> registry_usable env s'"
proof -
  obtain i where i: "get_item_by_id s k = Some i" "i < length (lk_items s)" "li_id (lk_items s ! i) = k"
    using held_item [OF assms(2)] .
  let ?x = "lk_items s ! i"
  have x: "li_id ?x \<noteq> 0" "li_owner ?x = le_self env"
    "li_mode ?x = LOCK_MODE_PROCESS \<Longrightarrow> lk_files s (filename_for_type s (li_type ?x)) \<noteq> None"
    using assms(1) i(2) by (auto simp: registry_usable_def)
  have "\<exists>u s'. lock_release env k s = (Inr u, s')"
    using i x assms(1) by (auto simp: lock_release_def Let_def filename_for_type_def registry_usable_def)
  then obtain s' where s': "lock_release env k s = (Inr (), s')" by auto
  show ?thesis
  proof (cases rule: lock_release_cases [of s k env])
    case (released j s'')
    then have j: "j = i" "s'' = s'" using i s' by simp_all
    have fn: "filename_for_type s' t = filename_for_type s t" for t by (rule filename_dir) (use released(5) j in simp)
    have "registry_usable env s'"
    proof (cases "li_refcount ?x = 1")
      case True
      then have items: "lk_items s' = drop_nth i (lk_items s)" using released(3) j by simp
      have "distinct (map slot (lk_items s))" using assms(1) by (simp add: registry_usable_def)
      then have nx: "slot ?x \<notin> slot ` set (lk_items s')" unfolding items by (rule drop_nth_unique) (rule i)
      have "lk_files s' (filename_for_type s (li_type y)) \<noteq> None"
        if y: "y \<in> set (lk_items s')" "li_mode y = LOCK_MODE_PROCESS" for y
      proof -
        have ys: "y \<in> set (lk_items s)" using y(1) items drop_nth_set by fastforce
        have "lk_files s (filename_for_type s (li_type y)) \<noteq> None" using assms(1) ys y(2) by (simp add: registry_usable_def)
        moreover have "li_type y \<noteq> li_type ?x" if "li_mode ?x = LOCK_MODE_PROCESS"
        proof
          assume "li_type y = li_type ?x"
          then have "slot y = slot ?x" using that y(2) by (simp add: slot_def)
          then show False using nx y(1) by (metis image_eqI)
        qed
        ultimately show ?thesis using released(6) j by (auto simp: filename_inj)
      qed
      then show ?thesis using assms(1) drop_nth_set [of i "lk_items s"]
        by (auto simp: registry_usable_def items fn drop_nth_map drop_nth_distinct)
    next
      case False
      then have u: "lk_items s' = (lk_items s)[i := with_count ?x]" "lk_files s' = lk_files s" "lk_dir s' = lk_dir s"
        using released(3,5,6) j by simp_all
      show ?thesis by (rule usable_update [OF assms(1) i(2) u]) simp_all
    qed
    then show ?thesis using s' by blast
  qed (use s' in auto)
qed

lemma usable_take:
  assumes "registry_usable env s" "0 < lk_next_id s" "lock_take env t m s = (Inr k, s')"
  shows "registry_usable env s'"
proof (cases rule: lock_take_cases [of s t m env])
  case (created s'')
  then have s: "s'' = s'" using assms(3) by simp
  have "(t, m) \<notin> slot ` set (lk_items s)"
    using created(1) by (auto simp: found_item_def get_item_by_type_mode_def slot_def find_idx_None split: option.splits)
  moreover have "lk_next_id s \<noteq> 0" using assms(2) by auto
  moreover have "filename_for_type s' t = filename_for_type s t" for t by (rule filename_dir) (use created(5) s in simp)
  ultimately show ?thesis using assms(1) created(3,6) s by (auto simp: registry_usable_def slot_def)
next
  case (again i s'')
  then have s: "s'' = s'" using assms(3) by simp
  have i: "i < length (lk_items s)" using again(1) found_item_type by blast
  have u: "lk_items s' = (lk_items s)[i := (lk_items s ! i)\<lparr>li_refcount := li_refcount (lk_items s ! i) + 1\<rparr>]"
    "lk_files s' = lk_files s" "lk_dir s' = lk_dir s" using again s by simp_all
  show ?thesis by (rule usable_update [OF assms(1) i u]) (simp_all add: slot_def)
next
  case (failed e)
  then show ?thesis using assms(3) by simp
qed

lemma word_count:
  assumes "0 < n" "n < 2 ^ 32"
  shows "of_nat n \<noteq> (0 :: 32 word)"
proof
  assume "of_nat n = (0 :: 32 word)"
  then have "2 ^ 32 dvd n" by (simp add: word_of_nat_eq_0_iff)
  then show False using assms by (meson dvd_imp_le not_less)
qed

interpretation registry_release:
  releasing_service "\<lambda>(t, m). lock_take env t m" "lock_release env" lock_held "registry_usable env" "2 ^ 32" for env
  by unfold_locales (rule usable_release, assumption+, rule word_count, assumption+)

section \<open>The properties\<close>

lemma find_idx_unique:
  assumes "distinct (map f xs)" "x \<in> set xs"
  obtains i where "find_idx (\<lambda>y. f y = f x) xs = Some i" "i < length xs" "xs ! i = x"
proof -
  obtain i where i: "find_idx (\<lambda>y. f y = f x) xs = Some i"
    using assms(2) by (cases "find_idx (\<lambda>y. f y = f x) xs") (auto simp: find_idx_None)
  then have il: "i < length xs" "f (xs ! i) = f x" by (auto dest: find_idx_bound)
  obtain j where j: "j < length xs" "xs ! j = x" using assms(2) by (auto simp: in_set_conv_nth)
  then have "i = j" using il assms(1) by (metis distinct_conv_nth length_map nth_map)
  then show ?thesis using that i il j by blast
qed

text \<open>An environment in which every file can be used, and a registry in which thread 1 holds the
  process lock of the rpm database.\<close>

definition free_env :: "nat \<Rightarrow> lock_env" where
  "free_env self = \<lparr>le_self = self, le_pid = 7, le_readable = (\<lambda>_. True), le_writable = (\<lambda>_. True), le_deletable = (\<lambda>_. True)\<rparr>"

definition no_locks :: lock_state where
  "no_locks = \<lparr>lk_items = [], lk_dir = ''/run'', lk_next_id = 1, lk_files = (\<lambda>_. None), lk_emitted = []\<rparr>"

lemmas lock_eval = lock_take_def get_item_by_type_mode_def create_lock_file_def create_item_def emit_state_def
  no_locks_def free_env_def lock_get_state_def filename_for_type_def

text \<open>C26. A lock excludes the other threads in every reachable state: while a thread holds a lock of some type and mode, a
  take of the same type and mode by another thread fails and changes nothing, and neither can the other thread release it.
  A process lock excludes a thread lock of another thread as well, as long as no thread lock of the type is registered. The
  reverse does not hold: a process lock is granted beside the thread lock of another thread.\<close>

theorem lock_excludes_other_threads:
  assumes "lock_reachable s" "x \<in> set (lk_items s)" "li_owner x \<noteq> le_self env"
    "li_mode x = m \<or> m = LOCK_MODE_THREAD \<and> (li_type x, LOCK_MODE_THREAD) \<notin> slot ` set (lk_items s)"
  shows "lock_take env (li_type x) m s = (Inl (TakenByThread (li_type x) (li_owner x)), s) \<and>
    lock_release env (li_id x) s = (Inl (NotThisThread (li_type x)), s)"
proof -
  have inv: "lock_inv s" using lock_reachable_inv [OF assms(1)] by blast
  then have d: "distinct (map slot (lk_items s))" "distinct (map li_id (lk_items s))" "li_id x \<noteq> 0"
    using assms(2) by (auto simp: lock_inv_def)
  obtain i where i: "find_idx (\<lambda>y. slot y = slot x) (lk_items s) = Some i" "lk_items s ! i = x"
    using find_idx_unique [OF d(1) assms(2)] by blast
  obtain j where j: "find_idx (\<lambda>y. li_id y = li_id x) (lk_items s) = Some j" "lk_items s ! j = x"
    using find_idx_unique [OF d(2) assms(2)] by blast
  have by_slot: "get_item_by_type_mode s t m = find_idx (\<lambda>y. slot y = (t, m)) (lk_items s)" for t m
    by (simp add: get_item_by_type_mode_def slot_def)
  have "found_item s (li_type x) m = Some i"
  proof (cases "li_mode x = m")
    case True
    then show ?thesis using i by (auto simp: found_item_def by_slot slot_def)
  next
    case False
    then have m: "m = LOCK_MODE_THREAD" "li_mode x = LOCK_MODE_PROCESS" using assms(4) by (auto intro: lock_mode.exhaust)
    moreover have "get_item_by_type_mode s (li_type x) m = None"
      using assms(4) False m by (auto simp: by_slot find_idx_None image_iff)
    ultimately show ?thesis using i by (simp add: found_item_def by_slot slot_def)
  qed
  note found = this [unfolded found_item_def]
  have "lock_take env (li_type x) m s = (Inl (TakenByThread (li_type x) (li_owner x)), s)"
    unfolding lock_take_def found using i assms(3) by simp
  moreover have "lock_release env (li_id x) s = (Inl (NotThisThread (li_type x)), s)"
    using j assms(3) d(3) by (simp add: lock_release_def get_item_by_id_def)
  ultimately show ?thesis by blast
qed

theorem lock_excludes_other_threads_witness:
  "let s = snd (lock_take (free_env 1) LOCK_TYPE_RPMDB LOCK_MODE_PROCESS no_locks) in
   lock_take (free_env 2) LOCK_TYPE_RPMDB LOCK_MODE_THREAD s = (Inl (TakenByThread LOCK_TYPE_RPMDB 1), s)"
proof -
  let ?s = "snd (lock_take (free_env 1) LOCK_TYPE_RPMDB LOCK_MODE_PROCESS no_locks)"
  let ?x = "\<lparr>li_owner = 1, li_id = 1, li_refcount = 1, li_mode = LOCK_MODE_PROCESS, li_type = LOCK_TYPE_RPMDB\<rparr>"
  have "lock_reachable no_locks" by (rule lock_reachable.start) (simp_all add: no_locks_def)
  then have r: "lock_reachable ?s" by (rule lock_reachable.take) (simp add: no_locks_def)
  have items: "lk_items ?s = [?x]" by (simp add: lock_eval)
  show ?thesis using lock_excludes_other_threads [OF r, of ?x "free_env 2" LOCK_MODE_THREAD] items
    by (simp add: Let_def free_env_def slot_def)
qed

text \<open>The reverse does not hold: a process lock is granted although another thread holds the thread lock
  of its type. The state then counts the type twice and reports the bit of the next type.\<close>

theorem process_lock_beside_thread_lock:
  assumes "lk_items s = [x]" "li_mode x = LOCK_MODE_THREAD" "li_type x = t"
    "lk_files s (filename_for_type s t) = None" "le_writable env (filename_for_type s t)"
  shows "\<exists>s'. lock_take env t LOCK_MODE_PROCESS s = (Inr (lk_next_id s), s') \<and>
    lock_get_state s' = push_bit (Suc (type_number t)) 1"
  using assms by (cases t) (simp_all add: lock_eval)

theorem process_lock_beside_thread_lock_witness:
  "let s = snd (lock_take (free_env 1) LOCK_TYPE_RPMDB LOCK_MODE_THREAD no_locks) in
   \<exists>s'. lock_take (free_env 2) LOCK_TYPE_RPMDB LOCK_MODE_PROCESS s = (Inr 2, s') \<and> lock_get_state s' = 2"
proof -
  let ?s = "snd (lock_take (free_env 1) LOCK_TYPE_RPMDB LOCK_MODE_THREAD no_locks)"
  let ?x = "\<lparr>li_owner = 1, li_id = 1, li_refcount = 1, li_mode = LOCK_MODE_THREAD, li_type = LOCK_TYPE_RPMDB\<rparr>"
  have "lk_items ?s = [?x]" "lk_next_id ?s = 2" "lk_files ?s = (\<lambda>_. None)" by (simp_all add: lock_eval)
  then show ?thesis using process_lock_beside_thread_lock [of ?s ?x LOCK_TYPE_RPMDB "free_env 2"]
    by (simp add: Let_def free_env_def)
qed

text \<open>When the lock file cannot be deleted the release fails after it has counted down: the lock stays
  registered with no holder, and the next take is granted without a look at the lock file, which
  another process may have taken in between.\<close>

theorem failed_release_leaves_lock_without_file:
  assumes "lock_reachable s" "x \<in> set (lk_items s)" "li_mode x = LOCK_MODE_PROCESS" "li_refcount x = 1"
    "li_owner x = le_self env" "\<not> le_deletable env (filename_for_type s (li_type x))"
  shows "\<exists>s'. lock_release env (li_id x) s = (Inl CannotDelete, s') \<and>
    (\<forall>fs. \<exists>s''. lock_take env (li_type x) LOCK_MODE_PROCESS (s'\<lparr>lk_files := fs\<rparr>) = (Inr (li_id x), s'') \<and> lk_files s'' = fs)"
proof -
  have inv: "lock_inv s" using lock_reachable_inv [OF assms(1)] by blast
  then have d: "distinct (map slot (lk_items s))" "distinct (map li_id (lk_items s))" "li_id x \<noteq> 0"
    using assms(2) by (auto simp: lock_inv_def)
  obtain j where j: "find_idx (\<lambda>y. li_id y = li_id x) (lk_items s) = Some j" "j < length (lk_items s)" "lk_items s ! j = x"
    using find_idx_unique [OF d(2) assms(2)] by blast
  let ?s = "s\<lparr>lk_items := (lk_items s)[j := with_count x]\<rparr>"
  have "lock_release env (li_id x) s = (Inl CannotDelete, ?s)"
    using j assms(3-6) d(3)
    by (simp add: lock_release_def get_item_by_id_def Let_def filename_for_type_def with_count_def)
  moreover have "\<exists>s''. lock_take env (li_type x) LOCK_MODE_PROCESS (?s\<lparr>lk_files := fs\<rparr>) = (Inr (li_id x), s'') \<and> lk_files s'' = fs"
    for fs
  proof -
    let ?t = "?s\<lparr>lk_files := fs\<rparr>"
    have u: "distinct (map slot (lk_items ?t))" "with_count x \<in> set (lk_items ?t)"
      using d(1) j(2,3) by (simp_all add: map_update_same set_update_memI)
    obtain i where i: "find_idx (\<lambda>y. slot y = slot (with_count x)) (lk_items ?t) = Some i" "lk_items ?t ! i = with_count x"
      by (rule find_idx_unique [OF u])
    then have "found_item ?t (li_type x) LOCK_MODE_PROCESS = Some i"
      using assms(3) by (simp add: found_item_def get_item_by_type_mode_def slot_def)
    note found = this [unfolded found_item_def]
    show ?thesis unfolding lock_take_def found using i(2) assms(5) by (simp add: Let_def emit_state_def)
  qed
  ultimately show ?thesis by blast
qed

theorem failed_release_leaves_lock_without_file_witness:
  "let s = snd (lock_take (free_env 1) LOCK_TYPE_RPMDB LOCK_MODE_PROCESS no_locks); env = (free_env 1)\<lparr>le_deletable := (\<lambda>_. False)\<rparr> in
   \<exists>s'. lock_release env 1 s = (Inl CannotDelete, s') \<and>
     (\<forall>fs. \<exists>s''. lock_take env LOCK_TYPE_RPMDB LOCK_MODE_PROCESS (s'\<lparr>lk_files := fs\<rparr>) = (Inr 1, s'') \<and> lk_files s'' = fs)"
proof -
  let ?s = "snd (lock_take (free_env 1) LOCK_TYPE_RPMDB LOCK_MODE_PROCESS no_locks)"
  let ?env = "(free_env 1)\<lparr>le_deletable := (\<lambda>_. False)\<rparr>"
  let ?x = "\<lparr>li_owner = 1, li_id = 1, li_refcount = 1, li_mode = LOCK_MODE_PROCESS, li_type = LOCK_TYPE_RPMDB\<rparr>"
  have "lock_reachable no_locks" by (rule lock_reachable.start) (simp_all add: no_locks_def)
  then have r: "lock_reachable ?s" by (rule lock_reachable.take) (simp add: no_locks_def)
  have items: "lk_items ?s = [?x]" by (simp add: lock_eval)
  show ?thesis using failed_release_leaves_lock_without_file [OF r, of ?x ?env] items
    by (simp add: Let_def free_env_def)
qed

text \<open>The items a loop leaves that removes the item at its index and steps on.\<close>

fun every_second :: "'a list \<Rightarrow> 'a list" where
  "every_second [] = []"
| "every_second [x] = []"
| "every_second (x # y # zs) = y # every_second zs"

definition plainly_held :: "lock_env \<Rightarrow> lock_state \<Rightarrow> bool" where
  "plainly_held env s \<longleftrightarrow> distinct (map li_id (lk_items s)) \<and>
     (\<forall>x \<in> set (lk_items s). li_id x \<noteq> 0 \<and> li_owner x = le_self env \<and> li_refcount x = 1 \<and> li_mode x = LOCK_MODE_THREAD)"

lemma release_plainly_held:
  assumes "plainly_held env s" "lk_items s = pre @ x # zs"
  shows "lk_items (snd (lock_release env (li_id x) s)) = pre @ zs"
proof -
  have x: "x \<in> set (lk_items s)" and d: "distinct (map li_id (lk_items s))"
    using assms by (auto simp: plainly_held_def)
  then obtain j where j: "find_idx (\<lambda>y. li_id y = li_id x) (lk_items s) = Some j" "j < length (lk_items s)" "lk_items s ! j = x"
    using find_idx_unique [OF d x] by blast
  have "lk_items s ! length pre = x" "length pre < length (lk_items s)" using assms(2) by simp_all
  then have "j = length pre" using j d by (metis distinct_conv_nth length_map nth_map)
  then show ?thesis using j assms x
    by (simp add: lock_release_def get_item_by_id_def Let_def plainly_held_def emit_state_def)
qed

lemma finalize_rest:
  "plainly_held env s \<Longrightarrow> lk_items s = pre @ rest \<Longrightarrow>
    lk_items (lock_finalize env (length pre) s) = pre @ every_second rest"
proof (induction rest arbitrary: pre s rule: every_second.induct)
  case (3 x y zs)
  let ?s = "snd (lock_release env (li_id x) s)"
  have items: "lk_items ?s = (pre @ [y]) @ zs" using release_plainly_held [OF 3(2,3)] by simp
  have "plainly_held env ?s" using 3(2,3) items by (auto simp: plainly_held_def)
  then have "lk_items (lock_finalize env (length (pre @ [y])) ?s) = (pre @ [y]) @ every_second zs"
    using 3(1) items by blast
  moreover have "li_refcount x = 1" using 3(2,3) by (simp add: plainly_held_def)
  ultimately show ?case using 3(3) by (subst lock_finalize.simps) (simp add: Let_def)
next
  case 1
  then show ?case by (subst lock_finalize.simps) simp
next
  case (2 x)
  have "lk_items (snd (lock_release env (li_id x) s)) = pre" using release_plainly_held [OF 2] by simp
  moreover have "li_refcount x = 1" using 2 by (simp add: plainly_held_def)
  ultimately show ?case using 2(2)
    by (subst lock_finalize.simps, subst lock_finalize.simps) (simp add: Let_def)
qed

text \<open>Shutting down releases only every other lock: the release removes the item from the array, and the
  loop steps over the one that takes its place.\<close>

theorem finalize_releases_every_other_lock:
  assumes "lock_reachable s"
    "\<forall>x \<in> set (lk_items s). li_owner x = le_self env \<and> li_refcount x = 1 \<and> li_mode x = LOCK_MODE_THREAD"
  shows "lk_items (lock_finalize env 0 s) = every_second (lk_items s)"
proof -
  have "lock_inv s" using lock_reachable_inv [OF assms(1)] by blast
  then have "plainly_held env s" using assms(2) by (auto simp: plainly_held_def lock_inv_def)
  then show ?thesis using finalize_rest [of env s "[]"] by simp
qed

theorem finalize_releases_every_other_lock_witness:
  "let s = snd (lock_take (free_env 1) LOCK_TYPE_REPO LOCK_MODE_THREAD
             (snd (lock_take (free_env 1) LOCK_TYPE_RPMDB LOCK_MODE_THREAD no_locks)))
   in map li_type (lk_items (lock_finalize (free_env 1) 0 s)) = [LOCK_TYPE_REPO]"
proof -
  let ?s1 = "snd (lock_take (free_env 1) LOCK_TYPE_RPMDB LOCK_MODE_THREAD no_locks)"
  let ?s = "snd (lock_take (free_env 1) LOCK_TYPE_REPO LOCK_MODE_THREAD ?s1)"
  have "lock_reachable no_locks" by (rule lock_reachable.start) (simp_all add: no_locks_def)
  then have "lock_reachable ?s1" by (rule lock_reachable.take) (simp add: no_locks_def)
  then have r: "lock_reachable ?s" by (rule lock_reachable.take) (simp add: lock_eval)
  have items: "lk_items ?s = map (\<lambda>(k, t). \<lparr>li_owner = 1, li_id = k, li_refcount = 1, li_mode = LOCK_MODE_THREAD, li_type = t\<rparr>)
      [(1, LOCK_TYPE_RPMDB), (2, LOCK_TYPE_REPO)]" by (simp add: lock_eval)
  have self: "le_self (free_env 1) = 1" by (simp add: free_env_def)
  have "lk_items (lock_finalize (free_env 1) 0 ?s) = every_second (lk_items ?s)"
    by (rule finalize_releases_every_other_lock [OF r]) (unfold items self, simp)
  then show ?thesis unfolding Let_def items by simp
qed

end
