(* ===== verification/ProgressRuns.thy ===== *)
theory ProgressRuns
  imports ProgressFacts
begin

text \<open>
  Runs of the progress states: every operation a client calls on a state of the chain is a step, in
  environments that satisfy a predicate. The theorems on percentages hold in every run; the theorem
  on locks holds in the runs of one thread whose lock files can be deleted.
\<close>

section \<open>Steps\<close>

definition all_ids :: "progress \<Rightarrow> 32 word list" where
  "all_ids s = concat (map ps_lock_ids (pg_chain s))"

text \<open>A lock is taken while the counters of identities and of references have not run through.\<close>

inductive progress_run :: "(lock_env \<Rightarrow> bool) \<Rightarrow> progress \<Rightarrow> bool" for P where
  new: "lk_items l = [] \<Longrightarrow> 0 < lk_next_id l \<Longrightarrow> progress_run P (state_new l)"
| percentage: "progress_run P s \<Longrightarrow> i < length (pg_chain s) \<Longrightarrow> P env \<Longrightarrow> progress_run P (snd (set_percentage env i p s))"
| allow_cancel: "progress_run P s \<Longrightarrow> progress_run P (set_allow_cancel i b s)"
| speed: "progress_run P s \<Longrightarrow> progress_run P (set_speed i v s)"
| start: "progress_run P s \<Longrightarrow> progress_run P (snd (action_start i a hint s))"
| stop: "progress_run P s \<Longrightarrow> progress_run P (snd (action_stop i s))"
| package: "progress_run P s \<Longrightarrow> progress_run P (set_package_progress i pkg a p s)"
| report: "progress_run P s \<Longrightarrow> progress_run P (set_report_progress i b s)"
| profile: "progress_run P s \<Longrightarrow> progress_run P (set_enable_profile i b s)"
| cancellable: "progress_run P s \<Longrightarrow> progress_run P (set_cancellable i c s)"
| take: "progress_run P s \<Longrightarrow> i < length (pg_chain s) \<Longrightarrow> P env \<Longrightarrow> lk_next_id (pg_locks s) \<noteq> - 1 \<Longrightarrow>
    Suc (length (all_ids s)) < 2 ^ 32 \<Longrightarrow> progress_run P (snd (take_lock env i t m s))"
| release: "progress_run P s \<Longrightarrow> i < length (pg_chain s) \<Longrightarrow> P env \<Longrightarrow> progress_run P (snd (release_locks env i s))"
| resetting: "progress_run P s \<Longrightarrow> i < length (pg_chain s) \<Longrightarrow> P env \<Longrightarrow> progress_run P (reset env i s)"
| child: "progress_run P s \<Longrightarrow> i < length (pg_chain s) \<Longrightarrow> P env \<Longrightarrow> progress_run P (snd (get_child env i s))"
| number: "progress_run P s \<Longrightarrow> n < 2 ^ 32 \<Longrightarrow> progress_run P (snd (set_number_steps i n loc s))"
| weights: "progress_run P s \<Longrightarrow> length rest < 2 ^ 32 - 1 \<Longrightarrow> set_steps i loc v rest s = Inr s' \<Longrightarrow> progress_run P s'"
| advance: "progress_run P s \<Longrightarrow> i < length (pg_chain s) \<Longrightarrow> P env \<Longrightarrow> done_state env cancelled i loc s = Inr s' \<Longrightarrow>
    progress_run P s'"
| finish: "progress_run P s \<Longrightarrow> i < length (pg_chain s) \<Longrightarrow> P env \<Longrightarrow> finished env cancelled i s = Inr s' \<Longrightarrow>
    progress_run P s'"

text \<open>The parts of the composite operations.\<close>

lemma quiet_set_speed: "quiet s (set_speed i v s)"
proof -
  let ?d = "v # butlast (ps_speed_data (level s i))"
  have "quiet s (at_level i (\<lambda>x. x\<lparr>ps_speed_data := ?d\<rparr>) s)" by (rule quiet_at) (simp add: core_def)
  also note quiet_speed
  finally show ?thesis by (simp add: set_speed_def Let_def)
qed

lemma quiet_package: "quiet s (set_package_progress i pkg a p s)"
  by (simp add: set_package_progress_def quiet_emit_package)

lemma quiet_profile: "quiet s (set_enable_profile i b s)"
  unfolding set_enable_profile_def by (rule quiet_at) (simp add: core_def)

lemma quiet_cancellable: "quiet s (set_cancellable i c s)"
  by (auto simp: set_cancellable_def core_def split: option.splits)

lemma get_child_spec:
  assumes "ps_report_progress (level s i)" "i < length (pg_chain s)"
  obtains t x where "snd (get_child env i s) = t\<lparr>pg_chain := pg_chain t @ [x]\<rparr>" "quiet (drop_child env i s) t"
    "state_ok x" "ps_lock_ids x = []" "ps_allow_cancel x" "ps_allow_cancel_child x" "ps_report_progress x"
    "\<And>j. j \<le> i \<Longrightarrow> ps_allow_cancel (level t j) = ps_allow_cancel (level s j) \<and>
      ps_allow_cancel_child (level t j) = ps_allow_cancel_child (level s j)"
proof -
  let ?d = "drop_child env i s"
  let ?t = "if ps_cancellable (level ?d i) = None
    then at_level i (\<lambda>x. x\<lparr>ps_cancellable := Some (pg_next_cancellable ?d)\<rparr>)
      (?d\<lparr>pg_next_cancellable := pg_next_cancellable ?d + 1\<rparr>) else ?d"
  let ?u = "at_level i (\<lambda>x. x\<lparr>ps_child_action := ps_action x\<rparr>) ?t"
  let ?x = "state_init\<lparr>ps_action := ps_action (level ?u i), ps_cancellable := ps_cancellable (level ?u i),
    ps_enable_profile := ps_enable_profile (level ?u i)\<rparr>"
  have "quiet ?d (?d\<lparr>pg_next_cancellable := pg_next_cancellable ?d + 1\<rparr>)" by (simp add: quiet_def)
  also have "quiet \<dots> (at_level i (\<lambda>x. x\<lparr>ps_cancellable := Some (pg_next_cancellable ?d)\<rparr>)
      (?d\<lparr>pg_next_cancellable := pg_next_cancellable ?d + 1\<rparr>))" by (rule quiet_at) (simp add: core_def)
  finally have "quiet ?d ?t" by simp
  also have "quiet ?t ?u" by (rule quiet_at) (simp add: core_def)
  finally have "quiet ?d ?u" .
  moreover have "snd (get_child env i s) = ?u\<lparr>pg_chain := pg_chain ?u @ [?x]\<rparr>"
    using assms(1) by (simp add: get_child_def Let_def)
  moreover have "ps_allow_cancel (level ?u j) = ps_allow_cancel (level s j) \<and>
      ps_allow_cancel_child (level ?u j) = ps_allow_cancel_child (level s j)" if "j \<le> i" for j
    using drop_child_spec(2) [OF assms(2) that, of env] by (auto simp: level_at_any) (simp_all add: level_def)
  ultimately show ?thesis by (intro that [of ?u ?x]) (simp_all add: state_ok_def state_init_def)
qed

lemma last_running_sums: "last (v # running_sums v rest) = foldl (\<lambda>acc v. guint (acc + v)) v rest"
  by (induction rest arbitrary: v) simp_all

lemma length_running_sums [simp]: "length (running_sums v rest) = length rest"
  by (induction rest arbitrary: v) simp_all

lemma set_steps_InrE:
  assumes "set_steps i loc v rest s = Inr s'"
  obtains (ignored) "s' = s" | (set) "ps_steps (level s i) = 0"
    "s' = at_level i (\<lambda>x. x\<lparr>ps_step_data := Some (v # running_sums v rest)\<rparr>)
      (at_level i (\<lambda>x. x\<lparr>ps_id := Some loc, ps_steps := Suc (length rest)\<rparr>) s)"
    "last (v # running_sums v rest) = 100"
proof (cases "ps_report_progress (level s i)")
  case True
  have "foldl (\<lambda>acc v. guint (acc + v)) v rest = 100" "ps_steps (level s i) = 0"
    "s' = at_level i (\<lambda>x. x\<lparr>ps_step_data := Some (v # running_sums v rest)\<rparr>)
      (at_level i (\<lambda>x. x\<lparr>ps_id := Some loc, ps_steps := Suc (length rest)\<rparr>) s)"
    using assms True by (auto simp: set_steps_def Let_def set_number_steps_def split: if_splits)
  then show ?thesis using set last_running_sums [of v rest] by metis
next
  case False
  then have "s' = s" using assms by (simp add: set_steps_def)
  then show ?thesis by (rule ignored)
qed

lemma done_InrE:
  assumes "done_state env cancelled i loc s = Inr s'" "i < length (pg_chain s)"
  obtains (ignored) "s' = s" "\<not> ps_report_progress (level s i)"
  | (counted) t where "quiet s t" "ps_report_progress (level s i)" "ps_current (level s i) < ps_steps (level s i)"
      "s' = (let u = at_level i (\<lambda>x. x\<lparr>ps_current := ps_current x + 1\<rparr>) t;
                 p = (case ps_step_data (level u i) of
                        None \<Rightarrow> nat (rat_trunc (discrete_to_percent (ps_current (level u i)) (ps_steps (level u i))))
                      | Some data \<Rightarrow> nat (rat_trunc (gfloat (of_nat (data ! (ps_current (level u i) - 1))))));
                 w = snd (set_percentage env i p u)
             in if Suc i < length (pg_chain w) then reset env (Suc i) w else w)"
proof -
  have c: "check cancelled i s = Inr ()"
    using assms(1) by (auto simp: done_state_def and_then_Inr_iff)
  show ?thesis
  proof (cases "ps_report_progress (level s i)")
    case True
    have steps: "ps_steps (level s i) \<noteq> 0" "\<not> ps_current (level s i) \<ge> ps_steps (level s i)"
      using assms(1) True c by (auto simp: done_state_def Let_def split: if_splits)
    show ?thesis
    proof (rule counted [OF quiet_allow_cancel [of s i True] True])
      show "ps_current (level s i) < ps_steps (level s i)" using steps by simp
    qed (use assms(1) True c steps in \<open>simp add: done_state_def Let_def\<close>)
  next
    case False
    then have "s' = s" using assms(1) c by (simp add: done_state_def)
    then show ?thesis using False by (rule ignored)
  qed
qed

section \<open>Percentages in every run\<close>

lemma chain_ok_done:
  assumes "chain_ok s" "i < length (pg_chain s)" "done_state env cancelled i loc s = Inr s'"
  shows "chain_ok s'"
  using assms(3,2)
proof (cases rule: done_InrE)
  case (counted t)
  have il: "i < length (pg_chain t)" and c: "core (level t i) = core (level s i)"
    using assms(2) quiet_length [OF counted(1)] quiet_core [OF counted(1) assms(2)] by simp_all
  let ?u = "at_level i (\<lambda>x. x\<lparr>ps_current := ps_current x + 1\<rparr>) t"
  have "chain_ok ?u"
    by (rule chain_ok_at [OF chain_ok_quiet [OF assms(1) counted(1)]])
      (use c counted(3) in \<open>auto simp: state_ok_def core_def\<close>)
  then have w: "chain_ok (snd (set_percentage env i p ?u))" for p
    using advances_percentage [of i ?u env p] il by (auto intro: chain_ok_advances)
  show ?thesis unfolding counted(4) Let_def using chain_ok_reset [OF w] w by (simp split: if_split)
qed (use assms in simp)

lemma chain_ok_run: "progress_run P s \<Longrightarrow> chain_ok s"
proof (induction rule: progress_run.induct)
  case (new l)
  then show ?case by (simp add: state_new_def chain_ok_def state_ok_def state_init_def)
next
  case (percentage s i env p)
  then show ?case using advances_percentage chain_ok_advances by blast
next
  case (report s i b)
  then show ?case unfolding set_report_progress_def by (intro chain_ok_at) (auto simp: state_ok_def)
next
  case (take s i env t m)
  have "chain_ok (s\<lparr>pg_locks := l\<rparr>)" for l using take chain_ok_advances advances_locks by blast
  moreover have "chain_ok (at_level i (\<lambda>x. x\<lparr>ps_lock_ids := ps_lock_ids x @ [k]\<rparr>) (s\<lparr>pg_locks := l\<rparr>))" for k l
    by (rule chain_ok_at) (use calculation in \<open>auto simp: state_ok_def\<close>)
  ultimately show ?case by (auto simp: take_lock_def split: prod.split sum.split)
next
  case (child s i env)
  show ?case
  proof (cases "ps_report_progress (level s i)")
    case True
    obtain t x where t: "snd (get_child env i s) = t\<lparr>pg_chain := pg_chain t @ [x]\<rparr>" "quiet (drop_child env i s) t" "state_ok x"
      using get_child_spec [OF True child(2)] by metis
    have "chain_ok t" using chain_ok_quiet [OF chain_ok_drop_child t(2)] child by blast
    then show ?thesis using t by (auto simp: chain_ok_def)
  qed (use child in \<open>simp add: get_child_def\<close>)
next
  case (number s n i loc)
  then have "chain_ok (at_level i (\<lambda>x. x\<lparr>ps_id := Some loc, ps_steps := n\<rparr>) s)" if "ps_steps (level s i) = 0"
    by (intro chain_ok_at) (use number that in \<open>auto simp: state_ok_def\<close>)
  then show ?case using number by (simp add: set_number_steps_def)
next
  case (weights s rest i loc v s')
  show ?case using weights(3)
  proof (cases rule: set_steps_InrE)
    case ignored
    then show ?thesis using weights by simp
  next
    case set
    let ?d = "v # running_sums v rest"
    have "s' = at_level i (\<lambda>x. x\<lparr>ps_id := Some loc, ps_steps := Suc (length rest), ps_step_data := Some ?d\<rparr>) s"
      unfolding set(2) by (cases "i < length (pg_chain s)") (simp_all add: at_level_def not_less list_update_beyond)
    moreover have "chain_ok \<dots>" by (rule chain_ok_at) (use weights set in \<open>auto simp: state_ok_def\<close>)
    ultimately show ?thesis by simp
  qed
next
  case (advance s i env cancelled loc s')
  then show ?case using chain_ok_done by blast
next
  case (finish s i env cancelled s')
  let ?t = "at_level i (\<lambda>x. x\<lparr>ps_current := ps_steps x\<rparr>) s"
  have "chain_ok ?t" by (rule chain_ok_at) (use finish in \<open>auto simp: state_ok_def\<close>)
  then have "chain_ok (snd (set_percentage env i 100 ?t))"
    using advances_percentage [of i ?t env 100] finish(2) by (auto intro: chain_ok_advances)
  then show ?case using finish by (auto simp: finished_def and_then_Inr_iff split: if_splits)
qed (auto intro: chain_ok_quiet quiet_allow_cancel quiet_set_speed quiet_action_start quiet_action_stop quiet_package
  quiet_profile quiet_cancellable chain_ok_release chain_ok_reset)

lemma advances_last:
  "advances s s' \<Longrightarrow> j < length (pg_chain s) \<Longrightarrow> ps_last_percentage (level s j) \<le> ps_last_percentage (level s' j)"
  by (simp add: advances_def)

definition deletable_env :: lock_env where
  "deletable_env = free_env 1"

text \<open>A root state with \<open>n\<close> steps.\<close>

definition root_state :: "nat \<Rightarrow> progress" where
  "root_state n = snd (set_number_steps 0 n ''loc'' (state_new no_locks))"

lemma root_state_run: "n < 2 ^ 32 \<Longrightarrow> progress_run P (root_state n)"
  unfolding root_state_def by (intro progress_run.number progress_run.new) (simp_all add: no_locks_def)

lemma root_state_level: "pg_chain (root_state n) = [state_init\<lparr>ps_id := (if n = 0 then None else Some ''loc''), ps_steps := n\<rparr>]"
  by (simp add: root_state_def set_number_steps_def state_new_def level_def at_level_def state_init_def)

text \<open>C24. In every run of the operations the percentage of every state is at most 100, no more steps are done
  than were set, and weighted steps are as many as their weights, the last of which is 100.\<close>

theorem progress_in_bounds:
  assumes "progress_run P s" "x \<in> set (pg_chain s)"
  shows "ps_last_percentage x \<le> 100 \<and> ps_current x \<le> ps_steps x \<and>
    (\<forall>d. ps_step_data x = Some d \<longrightarrow> length d = ps_steps x \<and> last d = 100)"
  using chain_ok_run [OF assms(1)] assms(2) by (auto simp: chain_ok_def state_ok_def)

theorem progress_in_bounds_witness:
  "ps_last_percentage (level (snd (set_percentage deletable_env 0 250 (snd (set_percentage deletable_env 0 40 (root_state 3))))) 0) \<le> 100"
proof -
  let ?s = "snd (set_percentage deletable_env 0 40 (root_state 3))" and ?t = "\<lambda>s. snd (set_percentage deletable_env 0 250 s)"
  have "progress_run (\<lambda>_. True) (root_state 3)" by (rule root_state_run) simp
  then have r1: "progress_run (\<lambda>_. True) ?s"
    by (intro progress_run.percentage) (simp_all add: root_state_level)
  then have "pg_chain ?s \<noteq> []" using chain_ok_run chain_ok_def by blast
  then have r2: "progress_run (\<lambda>_. True) (?t ?s)" by (intro progress_run.percentage [OF r1]) simp_all
  then have "pg_chain (?t ?s) \<noteq> []" using chain_ok_run chain_ok_def by blast
  then have "level (?t ?s) 0 \<in> set (pg_chain (?t ?s))" by (simp add: level_def)
  from progress_in_bounds [OF r2 this] show ?thesis by simp
qed

text \<open>Progress never goes back: neither a percentage that a client or a child reports nor a finished step
  lowers the percentage of the state or of any state above it.\<close>

theorem progress_never_goes_back:
  assumes "i < length (pg_chain s)" "j \<le> i"
  shows "ps_last_percentage (level s j) \<le> ps_last_percentage (level (snd (set_percentage env i p s)) j) \<and>
    (\<forall>s'. done_state env cancelled i loc s = Inr s' \<longrightarrow> ps_last_percentage (level s j) \<le> ps_last_percentage (level s' j))"
proof -
  have j: "j < length (pg_chain s)" using assms by simp
  have "ps_last_percentage (level s j) \<le> ps_last_percentage (level s' j)"
    if "done_state env cancelled i loc s = Inr s'" for s'
    using that assms(1)
  proof (cases rule: done_InrE)
    case (counted t)
    let ?u = "at_level i (\<lambda>x. x\<lparr>ps_current := ps_current x + 1\<rparr>) t"
    have len: "length (pg_chain t) = length (pg_chain s)" using quiet_length [OF counted(1)] .
    have "ps_last_percentage (level ?u j) = ps_last_percentage (level s j)"
      using quiet_core [OF counted(1) j] by (auto simp: level_at_any core_def)
    moreover have w: "advances ?u (snd (set_percentage env i p ?u))" for p
      using advances_percentage [of i ?u env p] assms(1) len by simp
    ultimately have le: "ps_last_percentage (level s j) \<le> ps_last_percentage (level (snd (set_percentage env i p ?u)) j)" for p
      using advances_last [OF w, of j p] j len by simp
    have "level (reset env (Suc i) v) j = level v j" if "Suc i < length (pg_chain v)" for v
      using reset_below [OF that] assms(2) by auto
    then show ?thesis using le unfolding counted(4) Let_def by (simp split: if_split)
  qed simp
  moreover have "advances s (snd (set_percentage env i p s))" using assms(1) by (rule advances_percentage)
  ultimately show ?thesis using j by (auto simp: advances_def)
qed

theorem progress_never_goes_back_witness:
  "40 \<le> ps_last_percentage (level (snd (set_percentage deletable_env 0 20 (snd (set_percentage deletable_env 0 40 (root_state 3))))) 0)"
proof -
  let ?s = "snd (set_percentage deletable_env 0 40 (root_state 3))"
  have s: "ps_last_percentage (level ?s 0) = 40" "pg_chain ?s \<noteq> []"
    by (simp_all add: set_percentage.simps [of _ 0] level_def root_state_level at_level_def log_event_def state_init_def)
  then show ?thesis using progress_never_goes_back [of 0 ?s 0 deletable_env 20] by simp
qed

text \<open>A finished step of a state with no child and no locks.\<close>

lemma release_leaf:
  assumes "Suc i = length (pg_chain s)" "ps_lock_ids (level s i) = []"
  shows "fst (release_locks env i s)"
  using assms by (subst release_locks.simps) (simp add: release_own_def)

lemma advances_passed_on:
  assumes "i < length (pg_chain s)"
  shows "advances s (passed_on env i p s)"
proof (cases i)
  case (Suc j)
  show ?thesis
  proof (cases "parent_percentage (level s j) p")
    case (Some qr)
    obtain q r where qr: "qr = (q, r)" by (cases qr)
    let ?v = "if r then at_level j (\<lambda>x. x\<lparr>ps_last_action := ps_child_action x\<rparr>) s else s"
    have "advances s ?v" by (auto intro: advances_at simp: steps_of_def)
    also have "advances ?v (snd (set_percentage env j q ?v))" using assms Suc by (intro advances_percentage) simp
    finally show ?thesis using Some qr Suc by (simp add: passed_on_def)
  qed (simp add: passed_on_def Suc)
qed (simp add: passed_on_def)

lemma set_100_leaf:
  assumes "Suc i = length (pg_chain s)" "ps_lock_ids (level s i) = []" "ps_report_progress (level s i)"
    "ps_last_percentage (level s i) \<le> 100"
  shows "ps_last_percentage (level (snd (set_percentage env i 100 s)) i) = 100"
proof (cases rule: set_percentage_cases' [of i 100 s env])
  case refused
  then show ?thesis using assms by (simp add: accepts_def)
next
  case blocked
  have q: "quiet s (stopped i s)" by (rule quiet_stopped)
  have "i < length (pg_chain s)" using assms(1) by simp
  then have "ps_lock_ids (level (stopped i s) i) = []" using quiet_core [OF q] assms(2) by (simp add: core_def)
  then have "fst (at_100 env i s)" unfolding at_100_stopped
    using assms(1) quiet_length [OF q] by (intro release_leaf) simp_all
  then show ?thesis using blocked by simp
next
  case (accepted t)
  let ?u = "at_level i (\<lambda>x. x\<lparr>ps_last_percentage := 100\<rparr>) t"
  have "at_100 env i s = (True, t)" using accepted(2) by simp
  then have st: "advances s t" using advances_at_100 [of s env i] by simp
  then have l: "i < length (pg_chain t)" using assms(1) by (auto simp: advances_def)
  have "advances ?u (passed_on env i 100 ?u)" by (rule advances_passed_on) (use l in simp)
  moreover have "ps_last_percentage (level ?u i) = 100" using l by (simp add: level_at)
  ultimately have "ps_last_percentage (level (passed_on env i 100 ?u) i) = 100"
    using l unfolding advances_def by (metis at_level_length le_antisym)
  then show ?thesis using accepted(3) by simp
qed

definition leaf_at :: "nat \<Rightarrow> nat \<Rightarrow> nat \<Rightarrow> progress \<Rightarrow> bool" where
  "leaf_at i n k s \<longleftrightarrow> chain_ok s \<and> Suc i = length (pg_chain s) \<and> ps_lock_ids (level s i) = [] \<and>
     ps_report_progress (level s i) \<and> ps_steps (level s i) = n \<and> ps_current (level s i) = k"

lemma done_leaf:
  assumes "leaf_at i n k s" "k < n" "\<forall>c. \<not> cancelled c"
  shows "\<exists>s'. done_state env cancelled i loc s = Inr s' \<and> leaf_at i n (Suc k) s' \<and>
    (Suc k = n \<longrightarrow> ps_last_percentage (level s' i) = 100)"
proof -
  have il: "i < length (pg_chain s)" using assms(1) by (simp add: leaf_at_def)
  have "check cancelled i s = Inr ()" using assms(3) by (auto simp: check_def split: option.split)
  then obtain s' where s': "done_state env cancelled i loc s = Inr s'"
    using assms by (auto simp: done_state_def leaf_at_def Let_def)
  have ok: "chain_ok s'" using chain_ok_done [OF _ il s'] assms(1) by (simp add: leaf_at_def)
  show ?thesis using s' il
  proof (cases rule: done_InrE)
    case ignored
    then show ?thesis using assms(1) by (simp add: leaf_at_def)
  next
    case (counted t)
    let ?u = "at_level i (\<lambda>x. x\<lparr>ps_current := ps_current x + 1\<rparr>) t"
    let ?p = "case ps_step_data (level ?u i) of
        None \<Rightarrow> nat (rat_trunc (discrete_to_percent (ps_current (level ?u i)) (ps_steps (level ?u i))))
      | Some data \<Rightarrow> nat (rat_trunc (gfloat (of_nat (data ! (ps_current (level ?u i) - 1)))))"
    let ?w = "snd (set_percentage env i ?p ?u)"
    have lt: "Suc i = length (pg_chain t)" using quiet_length [OF counted(1)] assms(1) by (simp add: leaf_at_def)
    have ct: "core (level t i) = core (level s i)" using quiet_core [OF counted(1) il] .
    have okt: "state_ok (level t i)" using chain_ok_quiet [OF _ counted(1)] assms(1) lt
      by (auto simp: leaf_at_def chain_ok_level)
    have u: "ps_current (level ?u i) = Suc k" "ps_steps (level ?u i) = n" "ps_lock_ids (level ?u i) = []"
      "ps_report_progress (level ?u i)" "ps_step_data (level ?u i) = ps_step_data (level t i)"
      "ps_last_percentage (level ?u i) \<le> 100"
      using assms(1) ct lt okt by (auto simp: level_at leaf_at_def core_def state_ok_def)
    have adv: "advances ?u ?w" using lt by (intro advances_percentage) simp
    then have lw: "Suc i = length (pg_chain ?w)" using lt by (simp add: advances_def)
    then have "\<not> Suc i < length (pg_chain ?w)" by linarith
    then have eq: "s' = ?w" unfolding counted(4) Let_def by (rule if_not_P)
    have "steps_of (level ?w i) = steps_of (level ?u i)" "ps_lock_ids (level ?w i) \<in> {ps_lock_ids (level ?u i), []}"
      using adv lt by (auto simp: advances_def)
    then have leaf: "leaf_at i n (Suc k) s'" using ok eq lw u by (auto simp: leaf_at_def steps_of_def)
    have "?p = 100" if "Suc k = n"
    proof (cases "ps_step_data (level ?u i)")
      case None
      have "n < 2 ^ 32" using okt ct assms(1) by (simp add: state_ok_def core_def leaf_at_def)
      then have "discrete_to_percent n n = 100" using that by (intro discrete_complete) simp_all
      moreover have "rat_trunc 100 = 100" using rat_trunc_nat [of 100] by simp
      ultimately show ?thesis unfolding None u(1,2) using that by simp
    next
      case (Some d)
      then have "d \<noteq> []" "length d = n" "last d = 100" using okt u ct assms(1) by (auto simp: state_ok_def core_def leaf_at_def)
      moreover from this have "k = length d - 1" using that by simp
      ultimately have "d ! k = 100" using last_conv_nth [of d] by simp
      moreover have "gfloat 100 = 100" unfolding gfloat_def using float_near [of 100 100] by simp
      moreover have "rat_trunc 100 = 100" using rat_trunc_nat [of 100] by simp
      ultimately show ?thesis unfolding Some u(1) by simp
    qed
    then have "ps_last_percentage (level s' i) = 100" if "Suc k = n"
      using that set_100_leaf [of i ?u env] lt u eq by simp
    then show ?thesis using s' leaf by blast
  qed
qed

primrec done_times :: "lock_env \<Rightarrow> (nat \<Rightarrow> bool) \<Rightarrow> nat \<Rightarrow> string \<Rightarrow> nat \<Rightarrow> progress \<Rightarrow> state_error + progress" where
  "done_times env cancelled i loc 0 s = Inr s"
| "done_times env cancelled i loc (Suc k) s =
     and_then (done_times env cancelled i loc k s) (done_state env cancelled i loc)"

text \<open>C25. As many steps as were set complete a state that has no child, reports progress, holds no locks, has not started and
  is not cancelled, with equal or with weighted steps and for every number of steps: rounded in double and single
  precision, the last step is exactly 100 percent. One more step is an error.\<close>

theorem all_steps_complete_a_state:
  assumes "progress_run P s" "Suc i = length (pg_chain s)" "ps_report_progress (level s i)"
    "ps_steps (level s i) = n" "0 < n" "ps_current (level s i) = 0" "ps_lock_ids (level s i) = []" "\<forall>c. \<not> cancelled c"
  shows "\<exists>s'. done_times env cancelled i loc n s = Inr s' \<and> ps_last_percentage (level s' i) = 100 \<and>
    done_state env cancelled i loc s' = Inl (AlreadyAt100 loc)"
proof -
  have leaf: "leaf_at i n 0 s" using assms chain_ok_run [OF assms(1)] by (simp add: leaf_at_def)
  have "\<exists>s'. done_times env cancelled i loc k s = Inr s' \<and> leaf_at i n k s' \<and>
      (k = n \<longrightarrow> ps_last_percentage (level s' i) = 100)" if "k \<le> n" for k
    using that
  proof (induction k)
    case (Suc k)
    then obtain t where t: "done_times env cancelled i loc k s = Inr t" "leaf_at i n k t" by auto
    then show ?case using done_leaf [OF t(2) _ assms(8), of env loc] Suc.prems by simp
  qed (use leaf assms(5) in auto)
  then obtain s' where s': "done_times env cancelled i loc n s = Inr s'" "leaf_at i n n s'"
    "ps_last_percentage (level s' i) = 100" by blast
  have "check cancelled i s' = Inr ()" using assms(8) by (auto simp: check_def split: option.split)
  then have "done_state env cancelled i loc s' = Inl (AlreadyAt100 loc)"
    using s'(2) assms(5) by (simp add: done_state_def leaf_at_def Let_def)
  then show ?thesis using s' by blast
qed

theorem all_steps_complete_a_state_witness:
  "\<exists>s'. done_times deletable_env (\<lambda>_. False) 0 ''loc'' 49 (root_state 49) = Inr s' \<and> ps_last_percentage (level s' 0) = 100"
proof -
  have "progress_run (\<lambda>_. True) (root_state 49)" by (rule root_state_run) simp
  from all_steps_complete_a_state [OF this, of 0 49 "\<lambda>_. False" deletable_env "''loc''"] show ?thesis
    by (auto simp: root_state_level level_def state_init_def)
qed

text \<open>With weighted steps the progress of a child moves its parent within the current step: between the sum
  of the weights before it and the sum that includes it, which is reached when the child is complete.\<close>

theorem child_progress_stays_in_step:
  assumes "ps_step_data x = Some d" "length d = ps_steps x" "ps_steps x \<noteq> 1" "ps_current x < ps_steps x"
    "sorted d" "\<forall>v \<in> set d. v \<le> 100" "p \<le> 100" "parent_percentage x p = Some (q, r)"
  shows "(if ps_current x = 0 then 0 else d ! (ps_current x - 1)) \<le> q \<and> q \<le> d ! ps_current x \<and>
    (p = 100 \<longrightarrow> q = d ! ps_current x)"
proof -
  let ?c = "ps_current x"
  define hi where "hi = d ! ?c"
  define lo where "lo = (if ?c = 0 then 0 else d ! (?c - 1))"
  have hi: "hi \<le> 100" using assms(2,4,6) by (simp add: hi_def)
  have lo: "lo \<le> hi" using assms(2,4,5) by (auto simp: lo_def hi_def intro: sorted_nth_mono)
  have bounds: "p * hi \<le> 100 * 100" "(100 - p) * lo \<le> 100 * 100" "p * lo \<le> 100 * 100"
    using hi lo assms(7) by (intro mult_mono; simp)+
  have q: "q = ((100 - p) * lo + p * hi) div 100"
  proof (cases "?c = 0")
    case True
    then show ?thesis using assms(1,3,4,8) bounds by (simp add: parent_percentage_def guint_def lo_def hi_def)
  next
    case False
    then have "guint ((100 - p) * lo) = (100 - p) * lo" "guint (p * hi) = p * hi"
      "guint ((100 - p) * lo + p * hi) = (100 - p) * lo + p * hi"
      using bounds by (simp_all add: guint_def)
    then show ?thesis using assms(1,3,4,8) False by (simp add: parent_percentage_def lo_def hi_def)
  qed
  have "(100 - p) * lo + p * lo = 100 * lo" using assms(7) by (simp add: add_mult_distrib [symmetric])
  moreover have "p * lo \<le> p * hi" "(100 - p) * lo \<le> (100 - p) * hi" using lo by simp_all
  moreover have "(100 - p) * hi + p * hi = 100 * hi" using assms(7) by (simp add: add_mult_distrib [symmetric])
  ultimately have "100 * lo \<le> (100 - p) * lo + p * hi" "(100 - p) * lo + p * hi \<le> 100 * hi" by linarith+
  then have "lo \<le> q" "q \<le> hi" unfolding q by linarith+
  moreover have "p = 100 \<longrightarrow> q = hi" unfolding q by simp
  ultimately show ?thesis by (simp add: lo_def hi_def)
qed

theorem child_progress_stays_in_step_witness:
  "let x = state_init\<lparr>ps_step_data := Some [20, 50, 100], ps_steps := 3, ps_current := 1\<rparr> in
   parent_percentage x 40 = Some (32, False) \<and> 20 \<le> (32 :: nat) \<and> (32 :: nat) \<le> 50"
proof -
  let ?x = "state_init\<lparr>ps_step_data := Some [20, 50, 100], ps_steps := 3, ps_current := 1\<rparr>"
  have q: "parent_percentage ?x 40 = Some (32, False)" by (simp add: parent_percentage_def guint_def)
  show ?thesis using child_progress_stays_in_step [OF _ _ _ _ _ _ _ q, of "[20, 50, 100]"] q by (simp add: Let_def)
qed

lemma set_allow_cancel_child:
  assumes "Suc i < length (pg_chain s)" "ps_allow_cancel (level s (Suc i))"
  shows "\<not> ps_allow_cancel_child (level (set_allow_cancel (Suc i) False s) i) \<and>
    ps_allow_cancel (level (set_allow_cancel (Suc i) False s) i) = ps_allow_cancel (level s i)"
proof -
  let ?t = "at_level (Suc i) (\<lambda>x. x\<lparr>ps_allow_cancel := False\<rparr>) (at_level (Suc i) (\<lambda>x. x\<lparr>ps_allow_cancel_changed := True\<rparr>) s)"
  have eq: "set_allow_cancel (Suc i) False s = emit_allow_cancel (Suc i) False ?t"
    using assms by (simp add: set_allow_cancel_def Let_def level_at_any)
  have keep: "level (emit_allow_cancel j b u) i = level u i" if "j \<le> i" for j b u
    using that by (induction j arbitrary: b u) (simp_all add: Let_def level_outside)
  show ?thesis unfolding eq using assms(1) by (simp add: Let_def keep level_at_any)
qed

text \<open>A child that forbids cancelling and is replaced before it is complete blocks its parent for good: the
  parent still holds what the old child had reported, although neither it nor its new child forbids
  anything.\<close>

theorem replaced_child_blocks_cancelling:
  assumes "Suc (Suc i) = length (pg_chain s)" "ps_report_progress (level s i)"
    "ps_allow_cancel (level s (Suc i))" "ps_allow_cancel (level s i)"
    "s' = snd (get_child env i (set_allow_cancel (Suc i) False s))"
  shows "ps_allow_cancel (level s' i) \<and> get_allow_cancel (Suc i) s' \<and> \<not> get_allow_cancel i s'"
proof -
  let ?t = "set_allow_cancel (Suc i) False s"
  have q: "quiet s ?t" by (rule quiet_allow_cancel)
  have l: "i < length (pg_chain ?t)" using quiet_length [OF q] assms(1) by simp
  have rep: "ps_report_progress (level ?t i)" using quiet_core [OF q, of i] assms(1,2) by (simp add: core_def)
  obtain u x where u: "s' = u\<lparr>pg_chain := pg_chain u @ [x]\<rparr>" "quiet (drop_child env i ?t) u"
    "ps_allow_cancel x" "ps_allow_cancel_child x"
    "ps_allow_cancel (level u i) = ps_allow_cancel (level ?t i)"
    "ps_allow_cancel_child (level u i) = ps_allow_cancel_child (level ?t i)"
    unfolding assms(5) using get_child_spec [OF rep l, of env] by (metis order_refl)
  have len: "length (pg_chain u) = Suc i" using quiet_length [OF u(2)] drop_child_spec(1) [OF l] by simp
  then have "level s' (Suc i) = x" "level s' i = level u i" unfolding u(1) by (simp_all add: level_def nth_append)
  then show ?thesis using u set_allow_cancel_child [of i s] assms(1,3,4) by (simp add: get_allow_cancel_def)
qed

theorem replaced_child_blocks_cancelling_witness:
  "let s = snd (get_child deletable_env 0 (root_state 2)); s' = snd (get_child deletable_env 0 (set_allow_cancel 1 False s))
   in get_allow_cancel 1 s' \<and> \<not> get_allow_cancel 0 s'"
proof -
  let ?s = "snd (get_child deletable_env 0 (root_state 2))"
  let ?x = "state_init\<lparr>ps_cancellable := Some 0\<rparr>"
  have "pg_chain ?s = [state_init\<lparr>ps_id := Some ''loc'', ps_steps := 2, ps_cancellable := Some 0\<rparr>, ?x]"
    by (simp add: get_child_def level_def root_state_level state_init_def Let_def drop_child_def at_level_def
      root_state_def set_number_steps_def state_new_def)
  then have "Suc (Suc 0) = length (pg_chain ?s)" "ps_report_progress (level ?s 0)" "ps_allow_cancel (level ?s (Suc 0))"
    "ps_allow_cancel (level ?s 0)" by (simp_all add: level_def state_init_def)
  from replaced_child_blocks_cancelling [OF this refl, of deletable_env] show ?thesis by (simp add: Let_def)
qed

end
