(* ===== verification/ProgressLocks.thy ===== *)
theory ProgressLocks
  imports ProgressRuns
begin

text \<open>
  The locks of progress states. The loop that releases them is proved over the contract
  \<open>releasing_service\<close>; with the registry of locks it gives that in the runs of one thread the registry
  counts exactly the locks the states of the chain have recorded. When a lock file cannot be deleted
  the loop leaves identities that are no longer registered, and the state can never complete.
\<close>

context releasing_service begin

lemma release_ids_all:
  "usable l \<Longrightarrow> \<forall>k. held l k = of_nat (count_list ks k + c k) \<Longrightarrow> \<forall>k. count_list ks k + c k < capacity \<Longrightarrow>
    \<exists>l'. release_ids release ks l = (True, l') \<and> usable l' \<and> (\<forall>k. held l' k = of_nat (c k))"
proof (induction ks arbitrary: l)
  case (Cons k ks)
  have c: "Suc (count_list ks k + c k) < capacity" using Cons.prems(3) [rule_format, of k] by simp
  have "held l k = of_nat (Suc (count_list ks k + c k))" using Cons.prems(2) [rule_format, of k] by simp
  then have "held l k \<noteq> 0" using counts [OF _ c] by simp
  then obtain u l1 where l1: "release k l = (Inr u, l1)" "usable l1" using release_succeeds [OF Cons.prems(1)] by blast
  have "held l1 j = of_nat (count_list ks j + c j)" for j
    using released [OF l1(1), of j] Cons.prems(2) by simp
  moreover have "count_list ks j + c j < capacity" for j
    using Cons.prems(3) [rule_format, of j] by (simp split: if_splits)
  ultimately show ?case using Cons.IH [OF l1(2)] l1(1) by simp
qed simp

end

section \<open>The registry and the chain agree\<close>

definition solo :: "nat \<Rightarrow> lock_env \<Rightarrow> bool" where
  "solo self env \<longleftrightarrow> le_self env = self \<and> (\<forall>f. le_deletable env f)"

definition balanced :: "nat \<Rightarrow> progress \<Rightarrow> bool" where
  "balanced self s \<longleftrightarrow> registry_usable (free_env self) (pg_locks s) \<and> 0 < lk_next_id (pg_locks s) \<and>
     (\<forall>k. lock_held (pg_locks s) k = of_nat (count_list (all_ids s) k)) \<and> length (all_ids s) < 2 ^ 32"

lemma usable_solo: "solo self env \<Longrightarrow> registry_usable env l \<longleftrightarrow> registry_usable (free_env self) l"
  by (auto simp: registry_usable_def solo_def free_env_def)

lemma balanced_same:
  "map ps_lock_ids (pg_chain s') = map ps_lock_ids (pg_chain s) \<Longrightarrow> pg_locks s' = pg_locks s \<Longrightarrow> balanced self s' \<longleftrightarrow> balanced self s"
  by (simp add: balanced_def all_ids_def)

lemma balanced_quiet: "quiet s s' \<Longrightarrow> balanced self s' \<longleftrightarrow> balanced self s"
proof (rule balanced_same)
  assume q: "quiet s s'"
  have ids: "map ps_lock_ids xs = map (\<lambda>c. snd (snd (snd (snd (snd c))))) (map core xs)" for xs
    by (simp add: core_def)
  show "map ps_lock_ids (pg_chain s') = map ps_lock_ids (pg_chain s)" using q unfolding ids quiet_def by simp
qed (simp add: quiet_def)

lemma balanced_at: "(\<And>x. ps_lock_ids (f x) = ps_lock_ids x) \<Longrightarrow> balanced self (at_level i f s) \<longleftrightarrow> balanced self s"
  by (rule balanced_same) (simp_all add: at_level_def map_update_same)

lemma balanced_log [simp]: "balanced self (log_event i e s) \<longleftrightarrow> balanced self s"
  by (rule balanced_same) simp_all

text \<open>The identities beside those of one level.\<close>

lemma all_ids_split:
  assumes "i < length (pg_chain s)"
  shows "count_list (all_ids s) k = count_list (ps_lock_ids (level s i)) k + count_list (all_ids (at_level i (\<lambda>x. x\<lparr>ps_lock_ids := []\<rparr>) s)) k"
    "length (all_ids (at_level i (\<lambda>x. x\<lparr>ps_lock_ids := []\<rparr>) s)) \<le> length (all_ids s)"
proof -
  have s: "pg_chain s = take i (pg_chain s) @ level s i # drop (Suc i) (pg_chain s)"
    using nth_split [OF assms] by (simp add: level_def)
  have ids: "all_ids s = concat (map ps_lock_ids (take i (pg_chain s))) @ ps_lock_ids (level s i) @
      concat (map ps_lock_ids (drop (Suc i) (pg_chain s)))"
    unfolding all_ids_def by (subst s) simp
  have "pg_chain (at_level i (\<lambda>x. x\<lparr>ps_lock_ids := []\<rparr>) s) =
      take i (pg_chain s) @ (level s i)\<lparr>ps_lock_ids := []\<rparr> # drop (Suc i) (pg_chain s)"
    using assms by (simp add: at_level_def upd_conv_take_nth_drop level_def)
  then have ids': "all_ids (at_level i (\<lambda>x. x\<lparr>ps_lock_ids := []\<rparr>) s) =
      concat (map ps_lock_ids (take i (pg_chain s))) @ concat (map ps_lock_ids (drop (Suc i) (pg_chain s)))"
    by (simp add: all_ids_def)
  show "count_list (all_ids s) k = count_list (ps_lock_ids (level s i)) k + count_list (all_ids (at_level i (\<lambda>x. x\<lparr>ps_lock_ids := []\<rparr>) s)) k"
    "length (all_ids (at_level i (\<lambda>x. x\<lparr>ps_lock_ids := []\<rparr>) s)) \<le> length (all_ids s)"
    unfolding ids ids' by simp_all
qed

lemma next_id_release: "lk_next_id (snd (lock_release env k l)) = lk_next_id l"
  by (cases rule: lock_release_cases [of l k env]) simp_all

lemma next_id_release_ids: "lk_next_id (snd (release_ids (lock_release env) ks l)) = lk_next_id l"
proof (induction ks arbitrary: l)
  case (Cons k ks)
  obtain r l1 where r: "lock_release env k l = (r, l1)" by fastforce
  then have "lk_next_id l1 = lk_next_id l" using next_id_release [of env k l] by simp
  then show ?case using Cons r by (cases r) simp_all
qed simp

lemma count_le_length: "count_list xs k \<le> length xs"
  by (induction xs) auto

lemma balanced_release_own:
  assumes "balanced self s" "solo self env" "i < length (pg_chain s)"
  shows "\<exists>s'. release_own env i s = (True, s') \<and> balanced self s' \<and> ps_lock_ids (level s' i) = []"
proof -
  let ?t = "at_level i (\<lambda>x. x\<lparr>ps_lock_ids := []\<rparr>) s"
  have ids: "count_list (all_ids s) k = count_list (ps_lock_ids (level s i)) k + count_list (all_ids ?t) k" for k
    using all_ids_split(1) [OF assms(3)] .
  have "count_list (all_ids s) k < 2 ^ 32" for k
    using count_le_length [of "all_ids s" k] assms(1) by (simp add: balanced_def)
  then obtain l where l: "release_ids (lock_release env) (ps_lock_ids (level s i)) (pg_locks s) = (True, l)"
    "registry_usable env l" "\<forall>k. lock_held l k = of_nat (count_list (all_ids ?t) k)"
    using registry_release.release_ids_all [of env "pg_locks s" "ps_lock_ids (level s i)" "count_list (all_ids ?t)"]
      assms(1) usable_solo [OF assms(2)] by (auto simp: balanced_def ids)
  let ?s = "at_level i (\<lambda>x. x\<lparr>ps_lock_ids := []\<rparr>) (s\<lparr>pg_locks := l\<rparr>)"
  have chain: "pg_chain ?s = pg_chain ?t" by (simp add: at_level_def)
  have "lk_next_id l = lk_next_id (pg_locks s)"
    using next_id_release_ids [of env "ps_lock_ids (level s i)" "pg_locks s"] l(1) by simp
  then have "balanced self ?s"
    using l assms(1) usable_solo [OF assms(2)] all_ids_split(2) [OF assms(3)] chain
    by (auto simp: balanced_def all_ids_def)
  moreover have "release_own env i s = (True, ?s)" using l(1) by (simp add: release_own_def)
  moreover have "ps_lock_ids (level ?s i) = []" using assms(3) by (simp add: level_at)
  ultimately show ?thesis by blast
qed

lemma balanced_release:
  "balanced self s \<Longrightarrow> solo self env \<Longrightarrow> i < length (pg_chain s) \<Longrightarrow>
    \<exists>s'. release_locks env i s = (True, s') \<and> balanced self s' \<and> (\<forall>j \<ge> i. j < length (pg_chain s) \<longrightarrow> ps_lock_ids (level s' j) = [])"
proof (induction env i s rule: release_locks.induct)
  case (1 env i s)
  let ?t = "if Suc i < length (pg_chain s) then snd (release_locks env (Suc i) s) else s"
  have t: "balanced self ?t \<and> length (pg_chain ?t) = length (pg_chain s) \<and>
      (\<forall>j > i. j < length (pg_chain s) \<longrightarrow> ps_lock_ids (level ?t j) = [])"
  proof (cases "Suc i < length (pg_chain s)")
    case True
    then obtain u where "release_locks env (Suc i) s = (True, u)" "balanced self u"
      "\<forall>j \<ge> Suc i. j < length (pg_chain s) \<longrightarrow> ps_lock_ids (level u j) = []"
      using 1(1) [OF _ 1(2,3)] by blast
    moreover from this have "length (pg_chain u) = length (pg_chain s)" by (metis release_locks_length snd_conv)
    ultimately show ?thesis using True by simp
  next
    case False
    then show ?thesis using 1 by auto
  qed
  then obtain s' where s': "release_own env i ?t = (True, s')" "balanced self s'" "ps_lock_ids (level s' i) = []"
    using balanced_release_own [of self ?t env i] 1 by auto
  have "level s' j = level ?t j" if "j \<noteq> i" for j using release_own_level(1) [OF that, of env ?t] s'(1) by simp
  then have "\<forall>j \<ge> i. j < length (pg_chain s) \<longrightarrow> ps_lock_ids (level s' j) = []"
    using t s'(3) by (metis le_neq_implies_less)
  moreover have "release_locks env i s = (True, s')" using s'(1) by (subst release_locks.simps)
  ultimately show ?case using s'(2) by blast
qed

lemma balanced_truncate:
  assumes "balanced self s" "\<forall>j \<ge> n. j < length (pg_chain s) \<longrightarrow> ps_lock_ids (level s j) = []"
  shows "balanced self (s\<lparr>pg_chain := take n (pg_chain s)\<rparr>)"
proof -
  have "ps_lock_ids x = []" if x: "x \<in> set (drop n (pg_chain s))" for x
  proof -
    obtain j where "j < length (drop n (pg_chain s))" "drop n (pg_chain s) ! j = x"
      using x unfolding in_set_conv_nth by blast
    then show ?thesis using assms(2) [rule_format, of "n + j"] by (simp add: level_def)
  qed
  then have "concat (map ps_lock_ids (drop n (pg_chain s))) = []" by simp
  then have "all_ids (s\<lparr>pg_chain := take n (pg_chain s)\<rparr>) = all_ids s"
    by (metis all_ids_def append_Nil2 append_take_drop_id concat_append map_append progress.select_convs(1)
      progress.surjective progress.update_convs(1))
  then show ?thesis using assms(1) by (simp add: balanced_def)
qed

lemma balanced_reset:
  "balanced self s \<Longrightarrow> solo self env \<Longrightarrow> i < length (pg_chain s) \<Longrightarrow>
    balanced self (reset env i s) \<and>
    (\<forall>j \<ge> i. j < length (pg_chain (reset env i s)) \<longrightarrow> ps_lock_ids (level (reset env i s) j) \<in> {ps_lock_ids (level s j), []})"
proof (induction env i s rule: reset.induct)
  case (1 env i s)
  let ?t = "at_level i (\<lambda>x. x\<lparr>ps_steps := 0, ps_current := 0, ps_last_percentage := 0\<rparr>) s"
  let ?r = "snd (release_locks env (Suc i) ?t)"
  let ?u = "reset env (Suc i) ?r"
  let ?v = "if Suc i < length (pg_chain ?t) then ?u\<lparr>pg_chain := take (Suc i) (pg_chain ?u)\<rparr> else ?t"
  show ?case
  proof (cases "ps_report_progress (level s i)")
    case False
    then have "reset env i s = s" by (subst reset.simps) simp
    then show ?thesis using 1 by simp
  next
    case True
    have eq: "reset env i s = at_level i (\<lambda>x. x\<lparr>ps_step_data := None\<rparr>) (snd (release_locks env i ?v))"
      using True by (subst reset.simps) (simp add: Let_def)
    have bt: "balanced self ?t" using 1(2) by (simp add: balanced_at)
    have v: "balanced self ?v \<and> i < length (pg_chain ?v)"
    proof (cases "Suc i < length (pg_chain ?t)")
      case deep: True
      obtain r where r: "?r = r" "balanced self r" "\<forall>j \<ge> Suc i. j < length (pg_chain ?t) \<longrightarrow> ps_lock_ids (level r j) = []"
        using balanced_release [OF bt 1(3) deep] by auto
      have lr: "Suc i < length (pg_chain r)" using deep r(1) by (metis release_locks_length)
      have u: "balanced self ?u" "\<forall>j \<ge> Suc i. j < length (pg_chain ?u) \<longrightarrow> ps_lock_ids (level ?u j) \<in> {ps_lock_ids (level r j), []}"
        using 1(1) [of ?t, OF _ refl] True deep 1(3) r lr by auto
      have "ps_lock_ids (level ?u j) = []" if j: "j \<ge> Suc i" "j < length (pg_chain ?u)" for j
      proof (cases "ps_report_progress (level r (Suc i))")
        case rep: True
        then have "j = Suc i" using j reset_spec(1) [OF lr rep, of env] r(1) by simp
        then show ?thesis using u(2) j r(3) deep by auto
      next
        case False
        then have "?u = r" using r(1) by (subst reset.simps) simp
        moreover have "length (pg_chain r) = length (pg_chain ?t)" using r(1) by (metis release_locks_length)
        ultimately show ?thesis using r(3) j by simp
      qed
      then have "balanced self (?u\<lparr>pg_chain := take (Suc i) (pg_chain ?u)\<rparr>)" using u(1) by (intro balanced_truncate) auto
      moreover have "Suc i < length (pg_chain ?u)" using reset_below [OF lr, of env] r(1) by simp
      ultimately show ?thesis using deep by simp
    next
      case False
      then show ?thesis using bt 1(4) by simp
    qed
    then obtain w where w: "release_locks env i ?v = (True, w)" "balanced self w" "ps_lock_ids (level w i) = []"
      using balanced_release [of self ?v env i] 1(3) by auto
    have res: "reset env i s = at_level i (\<lambda>x. x\<lparr>ps_step_data := None\<rparr>) w" unfolding eq using w(1) by simp
    have "length (pg_chain (reset env i s)) = Suc i" using reset_spec(1) [OF 1(4) True] .
    moreover have "ps_lock_ids (level (reset env i s) i) = []" unfolding res using w(3) by (simp add: level_at_any)
    moreover have "balanced self (reset env i s)" unfolding res using w(2) by (simp add: balanced_at)
    ultimately show ?thesis by (metis insert_iff le_less_Suc_eq)
  qed
qed

lemma balanced_drop_child:
  assumes "balanced self s" "solo self env" "i < length (pg_chain s)"
  shows "balanced self (drop_child env i s)"
proof (cases "Suc i < length (pg_chain s)")
  case True
  obtain r where r: "release_locks env (Suc i) s = (True, r)" "balanced self r"
    "\<forall>j \<ge> Suc i. j < length (pg_chain s) \<longrightarrow> ps_lock_ids (level r j) = []"
    using balanced_release [OF assms(1,2) True] by auto
  have lr: "length (pg_chain r) = length (pg_chain s)" using r(1) by (metis release_locks_length snd_conv)
  let ?u = "reset env (Suc i) r"
  have u: "balanced self ?u" "\<forall>j \<ge> Suc i. j < length (pg_chain ?u) \<longrightarrow> ps_lock_ids (level ?u j) \<in> {ps_lock_ids (level r j), []}"
    using balanced_reset [OF r(2) assms(2), of "Suc i"] True lr by simp_all
  have "ps_lock_ids (level ?u j) = []" if j: "j \<ge> Suc i" "j < length (pg_chain ?u)" for j
  proof (cases "ps_report_progress (level r (Suc i))")
    case rep: True
    then have "length (pg_chain ?u) = Suc (Suc i)" using True lr by (intro reset_spec(1)) simp_all
    then have "j = Suc i" using j by simp
    then show ?thesis using u(2) j r(3) True by auto
  next
    case False
    then have "?u = r" by (subst reset.simps) simp
    then show ?thesis using r(3) j lr by simp
  qed
  then have "balanced self (?u\<lparr>pg_chain := take (Suc i) (pg_chain ?u)\<rparr>)" using u(1) by (intro balanced_truncate) auto
  then show ?thesis using True r(1) by (simp add: drop_child_def Let_def)
qed (use assms in \<open>simp add: drop_child_def\<close>)

lemma balanced_at_100:
  assumes "balanced self s" "solo self env" "i < length (pg_chain s)"
  shows "\<exists>t. at_100 env i s = (True, t) \<and> balanced self t \<and> (\<forall>j \<ge> i. j < length (pg_chain s) \<longrightarrow> ps_lock_ids (level t j) = [])"
  using balanced_release [of self "stopped i s" env i] assms balanced_quiet [OF quiet_stopped [of s i]]
    quiet_length [OF quiet_stopped [of s i]] by (simp add: at_100_stopped)

lemma balanced_percentage:
  "balanced self s \<Longrightarrow> solo self env \<Longrightarrow> i < length (pg_chain s) \<Longrightarrow> balanced self (snd (set_percentage env i p s))"
proof (induction i arbitrary: p s rule: less_induct)
  case (less i p s)
  show ?case
  proof (cases rule: set_percentage_cases' [of i p s env])
    case refused
    then show ?thesis using less by simp
  next
    case blocked
    then show ?thesis using balanced_at_100 [OF less(2-4)] by auto
  next
    case (accepted t)
    have bt: "balanced self t" using accepted(2) balanced_at_100 [OF less(2-4)] less(2) by (cases "p = 100") auto
    have "advances s t" using accepted(2) advances_at_100 [of s env i] by (cases "p = 100") auto
    then have lt: "length (pg_chain t) = length (pg_chain s)" by (simp add: advances_def)
    let ?u = "at_level i (\<lambda>x. x\<lparr>ps_last_percentage := p\<rparr>) t"
    have bu: "balanced self ?u" using bt by (simp add: balanced_at)
    have "balanced self (passed_on env i p ?u)"
    proof (cases i)
      case (Suc j)
      have b: "balanced self (snd (set_percentage env j q (at_level j (\<lambda>x. x\<lparr>ps_last_action := ps_child_action x\<rparr>) ?u)))"
        "balanced self (snd (set_percentage env j q ?u))" for q
        using less(1) [of j] Suc less(3,4) lt bu by (simp_all add: balanced_at)
      then show ?thesis using bu Suc by (auto simp: passed_on_def split: option.split)
    qed (use bu in \<open>simp add: passed_on_def\<close>)
    then show ?thesis using accepted(3) by simp
  qed
qed

lemma balanced_take:
  assumes "balanced self s" "solo self env" "i < length (pg_chain s)" "lk_next_id (pg_locks s) \<noteq> - 1"
    "Suc (length (all_ids s)) < 2 ^ 32"
  shows "balanced self (snd (take_lock env i t m s))"
proof -
  obtain r l where r: "lock_take env t m (pg_locks s) = (r, l)" by fastforce
  show ?thesis
  proof (cases r)
    case (Inl e)
    then have "l = pg_locks s" using r lock_take_failed by blast
    then show ?thesis using Inl r assms(1) by (simp add: take_lock_def)
  next
    case (Inr k)
    have us: "registry_usable env (pg_locks s)" "0 < lk_next_id (pg_locks s)"
      using assms(1) usable_solo [OF assms(2)] by (simp_all add: balanced_def)
    then have ul: "registry_usable env l" using usable_take r Inr by blast
    have kn: "k \<noteq> 0 \<and> 0 < lk_next_id l"
    proof (cases rule: lock_take_cases [of "pg_locks s" t m env])
      case (created s')
      have "lk_next_id (pg_locks s) + 1 \<noteq> 0" using assms(4) by (metis add_eq_0_iff2)
      then show ?thesis using created r Inr us(2) by (auto simp: word_gt_0)
    next
      case (again j s')
      then have "li_id (lk_items (pg_locks s) ! j) \<noteq> 0" using us(1) found_item_type by (auto simp: registry_usable_def)
      then show ?thesis using again r Inr us(2) by auto
    next
      case (failed e)
      then show ?thesis using r Inr by simp
    qed
    let ?t = "at_level i (\<lambda>x. x\<lparr>ps_lock_ids := ps_lock_ids x @ [k]\<rparr>) (s\<lparr>pg_locks := l\<rparr>)"
    have s: "pg_chain s = take i (pg_chain s) @ level s i # drop (Suc i) (pg_chain s)"
      using nth_split [OF assms(3)] by (simp add: level_def)
    have t: "pg_chain ?t = take i (pg_chain s) @ (level s i)\<lparr>ps_lock_ids := ps_lock_ids (level s i) @ [k]\<rparr> # drop (Suc i) (pg_chain s)"
      using assms(3) by (simp add: at_level_def upd_conv_take_nth_drop level_def)
    have ids: "count_list (all_ids ?t) j = count_list (all_ids s) j + (if j = k then 1 else 0) \<and>
        length (all_ids ?t) = Suc (length (all_ids s))" for j
      unfolding all_ids_def t by (subst (2 4) s) simp
    have "balanced self ?t"
      using assms(1,5) ul kn ids lock_take_held [of env t m "pg_locks s" k l] r Inr usable_solo [OF assms(2)]
      by (simp add: balanced_def)
    then show ?thesis using r Inr kn by (simp add: take_lock_def)
  qed
qed

lemma balanced_child:
  assumes "balanced self s" "solo self env" "i < length (pg_chain s)"
  shows "balanced self (snd (get_child env i s))"
proof (cases "ps_report_progress (level s i)")
  case True
  obtain t x where t: "snd (get_child env i s) = t\<lparr>pg_chain := pg_chain t @ [x]\<rparr>" "quiet (drop_child env i s) t" "ps_lock_ids x = []"
    using get_child_spec [OF True assms(3)] by metis
  have "balanced self t" using balanced_drop_child [OF assms] balanced_quiet [OF t(2)] by simp
  then show ?thesis unfolding t(1) using t(3) by (simp add: balanced_def all_ids_def)
qed (use assms in \<open>simp add: get_child_def\<close>)

lemma balanced_done:
  assumes "balanced self s" "solo self env" "i < length (pg_chain s)" "done_state env cancelled i loc s = Inr s'"
  shows "balanced self s'"
  using assms(4,3)
proof (cases rule: done_InrE)
  case (counted t)
  let ?u = "at_level i (\<lambda>x. x\<lparr>ps_current := ps_current x + 1\<rparr>) t"
  have "balanced self ?u" using balanced_quiet [OF counted(1)] assms(1) by (simp add: balanced_at)
  moreover have "i < length (pg_chain ?u)" using quiet_length [OF counted(1)] assms(3) by simp
  ultimately have w: "balanced self (snd (set_percentage env i p ?u))" for p using balanced_percentage assms(2) by blast
  show ?thesis unfolding counted(4) Let_def using balanced_reset [OF w assms(2)] w by (simp split: if_split)
qed (use assms in simp)

lemma balanced_run: "progress_run (solo self) s \<Longrightarrow> balanced self s"
proof (induction rule: progress_run.induct)
  case (new l)
  then show ?case
    by (simp add: balanced_def all_ids_def state_new_def state_init_def registry_usable_def free_env_def lock_held_def)
next
  case (weights s rest i loc v s')
  show ?case using weights(3) by (cases rule: set_steps_InrE) (use weights in \<open>simp_all add: balanced_at\<close>)
next
  case (release s i env)
  then show ?case using balanced_release by fastforce
next
  case (finish s i env cancelled s')
  then show ?case using balanced_percentage
    by (auto simp: finished_def and_then_Inr_iff balanced_at split: if_splits)
qed (auto simp: balanced_quiet [OF quiet_allow_cancel] balanced_quiet [OF quiet_set_speed] balanced_quiet [OF quiet_action_start]
  balanced_quiet [OF quiet_action_stop] balanced_quiet [OF quiet_package] balanced_quiet [OF quiet_profile]
  balanced_quiet [OF quiet_cancellable] set_report_progress_def set_number_steps_def balanced_at
  intro: balanced_percentage balanced_take balanced_child balanced_done balanced_reset [THEN conjunct1])

text \<open>C23. Locks are not leaked and not released twice, in every run of one thread in which every lock file can be deleted: the
  registry counts each lock as often as the states of the chain have recorded it, and when a state that reports progress and
  is below 100 percent is set to 100, it releases its own locks and those of its children without failing. A lock file
  that cannot be deleted is left out: there the release fails half way.\<close>

theorem complete_state_holds_no_locks:
  assumes "progress_run (solo self) s" "solo self env" "i < length (pg_chain s)"
    "ps_report_progress (level s i)" "ps_last_percentage (level s i) < 100"
  shows "\<exists>s'. set_percentage env i 100 s = (True, s') \<and> ps_last_percentage (level s' i) = 100 \<and>
    (\<forall>j \<ge> i. j < length (pg_chain s') \<longrightarrow> ps_lock_ids (level s' j) = []) \<and>
    (\<forall>k. lock_held (pg_locks s') k = of_nat (count_list (all_ids s') k))"
proof -
  have b: "balanced self s" by (rule balanced_run) (rule assms)
  have acc: "accepts i 100 s" using assms(4,5) by (simp add: accepts_def)
  obtain t where t: "at_100 env i s = (True, t)" "balanced self t" "\<forall>j \<ge> i. j < length (pg_chain s) \<longrightarrow> ps_lock_ids (level t j) = []"
    using balanced_at_100 [OF b assms(2,3)] by blast
  let ?u = "at_level i (\<lambda>x. x\<lparr>ps_last_percentage := 100\<rparr>) t"
  let ?w = "passed_on env i 100 ?u"
  have lt: "length (pg_chain t) = length (pg_chain s)"
    using advances_at_100 [of s env i] t(1) by (simp add: advances_def)
  have s': "set_percentage env i 100 s = (True, log_event i (PercentageChanged 100) ?w)"
    using acc t(1) by (simp add: set_percentage_cases [of env i 100 s])
  have adv: "advances ?u ?w" by (rule advances_passed_on) (use assms(3) lt in simp)
  have "ps_last_percentage (level ?u i) = 100" using assms(3) lt by (simp add: level_at)
  then have "ps_last_percentage (level ?w i) = 100"
    using adv assms(3) lt unfolding advances_def by (metis at_level_length le_antisym)
  moreover have "ps_lock_ids (level ?w j) = []" if "j \<ge> i" "j < length (pg_chain ?w)" for j
  proof -
    have "j < length (pg_chain s)" using adv that(2) lt by (simp add: advances_def)
    then have "ps_lock_ids (level ?u j) = []" using t(3) that(1) by (simp add: level_at_any)
    then show ?thesis using adv \<open>j < length (pg_chain s)\<close> lt by (auto simp: advances_def)
  qed
  moreover have "balanced self (log_event i (PercentageChanged 100) ?w)"
    using balanced_percentage [OF b assms(2,3), of 100] s' by simp
  ultimately show ?thesis unfolding s' by (auto simp: balanced_def)
qed

theorem complete_state_holds_no_locks_witness:
  "\<exists>s'. set_percentage (free_env 1) 0 100
      (snd (take_lock (free_env 1) 0 LOCK_TYPE_RPMDB LOCK_MODE_PROCESS (root_state 2))) = (True, s') \<and>
     (\<forall>k. lock_held (pg_locks s') k = of_nat (count_list (all_ids s') k))"
proof -
  let ?r = "root_state 2"
  let ?s = "snd (take_lock (free_env 1) 0 LOCK_TYPE_RPMDB LOCK_MODE_PROCESS ?r)"
  have solo: "solo 1 (free_env 1)" by (simp add: solo_def free_env_def)
  have locks: "pg_locks ?r = no_locks" by (simp add: root_state_def set_number_steps_def state_new_def)
  have run: "progress_run (solo 1) ?s"
    by (rule progress_run.take) (simp_all add: root_state_run root_state_level solo [simplified] locks all_ids_def state_init_def
      no_locks_def)
  have "pg_chain ?s = [state_init\<lparr>ps_id := Some ''loc'', ps_steps := 2, ps_lock_ids := [1]\<rparr>]"
    by (simp add: take_lock_def locks lock_eval at_level_def root_state_level state_init_def)
  then have "0 < length (pg_chain ?s)" "ps_report_progress (level ?s 0)" "ps_last_percentage (level ?s 0) < 100"
    by (simp_all add: level_def state_init_def)
  from complete_state_holds_no_locks [OF run solo this] show ?thesis by blast
qed

lemma never_taken: "k \<noteq> 0 \<Longrightarrow> get_item_by_id l k = None \<Longrightarrow> lock_release env k l = (Inl (NeverTaken k), l)"
  by (simp add: lock_release_def)

lemma not_registered: "get_item_by_id l k = None \<longleftrightarrow> k \<notin> li_id ` set (lk_items l)"
  by (auto simp: get_item_by_id_def find_idx_None)

lemma failed_release_ids:
  assumes "lock_release env k l = (Inl e, l')" "get_item_by_id l j = None"
  shows "get_item_by_id l' j = None"
proof (cases rule: lock_release_cases [of l k env])
  case (undeleted i)
  then have "map li_id (lk_items l') = map li_id (lk_items l)" using assms(1) by (auto simp: map_update_same)
  then have "li_id ` set (lk_items l') = li_id ` set (lk_items l)" by (metis set_map)
  then show ?thesis using assms(2) by (simp add: not_registered)
qed (use assms in auto)

text \<open>When one lock of a state cannot be released the ones before it are released but stay recorded. From then
  on every attempt fails at the first of them, in every environment, so that the state can never
  reach 100 percent and the rest of its locks are never released.\<close>

theorem failed_release_wedges_state:
  assumes "Suc i = length (pg_chain s)" "ps_lock_ids (level s i) = a # b # ks"
    "lock_release env a (pg_locks s) = (Inr u, l1)" "get_item_by_id l1 a = None" "lock_release env b l1 = (Inl e, l2)"
    "ps_report_progress (level s i)" "ps_last_percentage (level s i) < 100"
  shows "\<exists>s'. release_locks env i s = (False, s') \<and>
    (\<forall>env'. release_locks env' i s' = (False, s') \<and> fst (set_percentage env' i 100 s') = False \<and>
      ps_last_percentage (level (snd (set_percentage env' i 100 s')) i) < 100)"
proof -
  have a: "a \<noteq> 0" using assms(3) by (auto simp: lock_release_def)
  have none: "get_item_by_id l2 a = None" using failed_release_ids [OF assms(5,4)] .
  have wedged: "release_locks env' i t = (False, t)"
    if t: "Suc i = length (pg_chain t)" "ps_lock_ids (level t i) = a # b # ks" "pg_locks t = l2" for env' and t :: progress
  proof -
    have "t\<lparr>pg_locks := l2\<rparr> = t" using t(3) by (cases t) simp
    then show ?thesis using t never_taken [OF a none, of env']
      by (subst release_locks.simps) (simp add: release_own_def)
  qed
  let ?s = "s\<lparr>pg_locks := l2\<rparr>"
  have "release_locks env i s = (False, ?s)"
    using assms by (subst release_locks.simps) (simp add: release_own_def)
  moreover have "release_locks env' i ?s = (False, ?s)" for env' by (rule wedged) (use assms in simp_all)
  moreover have "fst (set_percentage env' i 100 ?s) = False \<and>
      ps_last_percentage (level (snd (set_percentage env' i 100 ?s)) i) < 100" for env'
  proof -
    have q: "quiet ?s (stopped i ?s)" by (rule quiet_stopped)
    have c: "core (level (stopped i ?s) i) = core (level ?s i)" using quiet_core [OF q] assms(1) by simp
    have "release_locks env' i (stopped i ?s) = (False, stopped i ?s)"
      using q c assms(1,2) quiet_length [OF q] by (intro wedged) (simp_all add: core_def quiet_def)
    then have "at_100 env' i ?s = (False, stopped i ?s)" by (simp add: at_100_stopped)
    moreover have "accepts i 100 ?s" using assms(6,7) by (simp add: accepts_def)
    ultimately show ?thesis using c assms(7) by (simp add: set_percentage_cases [of env' i 100 ?s] core_def)
  qed
  ultimately show ?thesis by blast
qed

definition two_locks :: progress where
  "two_locks = snd (take_lock (free_env 1) 0 LOCK_TYPE_REPO LOCK_MODE_PROCESS
     (snd (take_lock (free_env 1) 0 LOCK_TYPE_RPMDB LOCK_MODE_THREAD (root_state 2))))"

theorem failed_release_wedges_state_witness:
  "\<exists>s'. release_locks ((free_env 1)\<lparr>le_deletable := (\<lambda>_. False)\<rparr>) 0 two_locks = (False, s') \<and>
     fst (set_percentage (free_env 1) 0 100 s') = False"
proof -
  let ?env = "(free_env 1)\<lparr>le_deletable := (\<lambda>_. False)\<rparr>"
  let ?x = "\<lambda>k m t. \<lparr>li_owner = 1, li_id = k, li_refcount = 1, li_mode = m, li_type = t\<rparr>"
  have locks: "pg_locks (root_state 2) = no_locks" by (simp add: root_state_def set_number_steps_def state_new_def)
  have chain: "pg_chain two_locks = [state_init\<lparr>ps_id := Some ''loc'', ps_steps := 2, ps_lock_ids := [1, 2]\<rparr>]"
    and items: "lk_items (pg_locks two_locks) = [?x 1 LOCK_MODE_THREAD LOCK_TYPE_RPMDB, ?x 2 LOCK_MODE_PROCESS LOCK_TYPE_REPO]"
    by (simp_all add: two_locks_def take_lock_def locks lock_eval at_level_def root_state_level state_init_def)
  obtain u l1 where l1: "lock_release ?env 1 (pg_locks two_locks) = (Inr u, l1)" "lk_items l1 = [?x 2 LOCK_MODE_PROCESS LOCK_TYPE_REPO]"
    by (simp add: lock_release_def get_item_by_id_def items free_env_def emit_state_def Let_def)
  obtain l2 where l2: "lock_release ?env 2 l1 = (Inl CannotDelete, l2)"
    by (simp add: lock_release_def get_item_by_id_def l1(2) free_env_def Let_def)
  show ?thesis
    using failed_release_wedges_state [OF _ _ l1(1) _ l2, of 0 "[]"] chain l1(2)
    by (auto simp: level_def state_init_def get_item_by_id_def)
qed

end
