(* ===== verification/MergedTransaction.thy ===== *)
theory MergedTransaction
  imports Loggers
begin

text \<open>
  The merging of history transactions of dnf-4 (dnf-4/libdnf/transaction: Types.hpp, TransactionItem.cpp,
  TransactionItemReason.cpp, RPMItem.cpp, MergedTransaction.cpp). Transaction items are shared objects
  whose action the merge overwrites: they live in a store, and an item pointer is an index into it.
  What a transaction reads from the database is part of its record.
\<close>

section \<open>Items and actions\<close>

datatype item_action =
    TI_INSTALL | TI_DOWNGRADE | TI_DOWNGRADED | TI_OBSOLETE | TI_OBSOLETED | TI_UPGRADE | TI_UPGRADED
  | TI_REMOVE | TI_REINSTALL | TI_REINSTALLED | TI_REASON_CHANGE

fun action_name :: "item_action \<Rightarrow> string" where
  "action_name TI_INSTALL = ''Install''"
| "action_name TI_DOWNGRADE = ''Downgrade''"
| "action_name TI_DOWNGRADED = ''Downgraded''"
| "action_name TI_OBSOLETE = ''Obsolete''"
| "action_name TI_OBSOLETED = ''Obsoleted''"
| "action_name TI_UPGRADE = ''Upgrade''"
| "action_name TI_UPGRADED = ''Upgraded''"
| "action_name TI_REMOVE = ''Removed''"
| "action_name TI_REINSTALL = ''Reinstall''"
| "action_name TI_REINSTALLED = ''Reinstalled''"
| "action_name TI_REASON_CHANGE = ''Reason Change''"

fun action_short :: "item_action \<Rightarrow> string" where
  "action_short TI_INSTALL = ''I''"
| "action_short TI_DOWNGRADE = ''D''"
| "action_short TI_DOWNGRADED = ''D''"
| "action_short TI_OBSOLETE = ''O''"
| "action_short TI_OBSOLETED = ''O''"
| "action_short TI_UPGRADE = ''U''"
| "action_short TI_UPGRADED = ''U''"
| "action_short TI_REMOVE = ''E''"
| "action_short TI_REINSTALL = ''R''"
| "action_short TI_REINSTALLED = ''R''"
| "action_short TI_REASON_CHANGE = ''?''"

definition is_forward_action :: "item_action \<Rightarrow> bool" where
  "is_forward_action a \<longleftrightarrow> a \<in> {TI_INSTALL, TI_DOWNGRADE, TI_OBSOLETE, TI_UPGRADE, TI_REINSTALL}"

definition is_backward_action :: "item_action \<Rightarrow> bool" where
  "is_backward_action a \<longleftrightarrow> a \<in> {TI_REMOVE, TI_DOWNGRADED, TI_OBSOLETED, TI_UPGRADED, TI_REINSTALLED}"

datatype item_reason =
    REASON_UNKNOWN | REASON_DEPENDENCY | REASON_USER | REASON_CLEAN | REASON_WEAK_DEPENDENCY | REASON_GROUP

fun reason_to_string :: "item_reason \<Rightarrow> string" where
  "reason_to_string REASON_UNKNOWN = ''unknown''"
| "reason_to_string REASON_DEPENDENCY = ''dependency''"
| "reason_to_string REASON_USER = ''user''"
| "reason_to_string REASON_CLEAN = ''clean''"
| "reason_to_string REASON_WEAK_DEPENDENCY = ''weak-dependency''"
| "reason_to_string REASON_GROUP = ''group''"

record rpm_item =
  ri_name :: string
  ri_epoch :: int
  ri_version :: string
  ri_release :: string
  ri_arch :: string

datatype hist_item = RpmItem rpm_item | GroupItem string | EnvironmentItem string | UnknownItem

record trans_item =
  ti_item :: hist_item
  ti_repoid :: string
  ti_action :: item_action
  ti_reason :: item_reason

text \<open>\<open>RPMItem::getNEVRA\<close>\<close>

definition get_nevra :: "rpm_item \<Rightarrow> string" where
  "get_nevra r =
     (if ri_epoch r > 0
      then ri_name r @ ''-'' @ decimal_int (ri_epoch r) @ '':'' @ ri_version r @ ''-'' @ ri_release r @ ''.'' @ ri_arch r
      else ri_name r @ ''-'' @ ri_version r @ ''-'' @ ri_release r @ ''.'' @ ri_arch r)"

section \<open>The order of packages\<close>

datatype merge_error = StoiInvalid | StoiRange | NullRpm

text \<open>\<open>std::stoi\<close>\<close>

definition stoi :: "string \<Rightarrow> merge_error + int" where
  "stoi str =
     (let s = dropWhile is_space str;
          (neg, s) = (case s of
              [] \<Rightarrow> (False, s)
            | c # cs \<Rightarrow> if c = CHR ''-'' then (True, cs) else if c = CHR ''+'' then (False, cs) else (False, s));
          ds = takeWhile is_digit s;
          v = (if neg then - int (digits_val ds) else int (digits_val ds))
      in if ds = [] then Inl StoiInvalid
         else if v < - (2 ^ 31) \<or> 2 ^ 31 \<le> v then Inl StoiRange
         else Inr v)"

text \<open>The pieces that \<open>std::getline(stream, buffer, '.')\<close> delivers one after the other.\<close>

function dot_fields :: "string \<Rightarrow> string list" where
  "dot_fields s =
     (if s = [] then []
      else takeWhile (\<lambda>c. c \<noteq> CHR ''.'') s #
        (case dropWhile (\<lambda>c. c \<noteq> CHR ''.'') s of [] \<Rightarrow> [] | c # cs \<Rightarrow> dot_fields cs))"
  by pat_completeness auto

termination dot_fields
proof (relation "measure length")
  fix s c cs
  assume "s \<noteq> []" "dropWhile (\<lambda>c. c \<noteq> CHR ''.'') s = c # cs"
  then show "(cs, s) \<in> measure length"
    using length_dropWhile_le [of "\<lambda>c. c \<noteq> CHR ''.''" s] by simp
qed simp

declare dot_fields.simps [simp del]

primrec version_less :: "(string \<times> string) list \<Rightarrow> merge_error + bool" where
  "version_less [] = Inr False"
| "version_less (ab # rest) =
     and_then (stoi (fst ab)) (\<lambda>x. and_then (stoi (snd ab)) (\<lambda>y.
       if x = y then version_less rest else Inr (y > x)))"

text \<open>\<open>RPMItem::operator<\<close>: it tests the sign of the epoch where the difference is meant.\<close>

definition rpm_less :: "rpm_item \<Rightarrow> rpm_item \<Rightarrow> merge_error + bool" where
  "rpm_less this other =
     (if ri_epoch other - ri_epoch this > 0 then Inr True
      else if ri_epoch this < 0 then Inr False
      else version_less (zip (dot_fields (ri_version this)) (dot_fields (ri_version other))))"

section \<open>Merged transactions\<close>

record transaction =
  tr_id :: int
  tr_dt_begin :: int
  tr_dt_end :: int
  tr_rpmdb_begin :: string
  tr_rpmdb_end :: string
  tr_releasever :: string
  tr_user_id :: nat
  tr_cmdline :: string
  tr_state :: int
  tr_items :: "nat list"
  tr_software :: "int list"
  tr_console :: "(int \<times> string) list"

text \<open>\<open>Transaction::operator<\<close>\<close>

primrec bytes_less :: "string \<Rightarrow> string \<Rightarrow> bool" where
  "bytes_less [] t = (t \<noteq> [])"
| "bytes_less (c # s) t =
     (case t of [] \<Rightarrow> False | d # t' \<Rightarrow> char_code c < char_code d \<or> (c = d \<and> bytes_less s t'))"

definition transaction_less :: "transaction \<Rightarrow> transaction \<Rightarrow> bool" where
  "transaction_less t other \<longleftrightarrow>
     tr_id t > tr_id other \<or> tr_dt_begin t > tr_dt_begin other \<or> bytes_less (tr_rpmdb_begin other) (tr_rpmdb_begin t)"

definition merged_new :: "transaction \<Rightarrow> transaction list" where
  "merged_new t = [t]"

primrec merge :: "transaction \<Rightarrow> transaction list \<Rightarrow> transaction list" where
  "merge t [] = [t]"
| "merge t (u # us) = (if tr_id u > tr_id t then t # u # us else u # merge t us)"

definition list_ids :: "transaction list \<Rightarrow> int list" where "list_ids ts = map tr_id ts"
definition list_user_ids :: "transaction list \<Rightarrow> nat list" where "list_user_ids ts = map tr_user_id ts"
definition list_cmdlines :: "transaction list \<Rightarrow> string list" where "list_cmdlines ts = map tr_cmdline ts"
definition list_states :: "transaction list \<Rightarrow> int list" where "list_states ts = map tr_state ts"
definition list_releasevers :: "transaction list \<Rightarrow> string list" where "list_releasevers ts = map tr_releasever ts"
definition get_dt_begin :: "transaction list \<Rightarrow> int" where "get_dt_begin ts = tr_dt_begin (hd ts)"
definition get_dt_end :: "transaction list \<Rightarrow> int" where "get_dt_end ts = tr_dt_end (last ts)"
definition get_rpmdb_begin :: "transaction list \<Rightarrow> string" where "get_rpmdb_begin ts = tr_rpmdb_begin (hd ts)"
definition get_rpmdb_end :: "transaction list \<Rightarrow> string" where "get_rpmdb_end ts = tr_rpmdb_end (last ts)"
definition get_software :: "transaction list \<Rightarrow> int set" where "get_software ts = (\<Union>t \<in> set ts. set (tr_software t))"
definition get_console_output :: "transaction list \<Rightarrow> (int \<times> string) list" where
  "get_console_output ts = concat (map tr_console ts)"

section \<open>Merging items\<close>

type_synonym item_pair = "nat \<times> nat option"

text \<open>\<open>std::map<std::string, ItemPair>\<close>, ascending by key.\<close>

type_synonym pair_map = "(string \<times> item_pair) list"

primrec pair_put :: "string \<Rightarrow> item_pair \<Rightarrow> pair_map \<Rightarrow> pair_map" where
  "pair_put k v [] = [(k, v)]"
| "pair_put k v (x # xs) =
     (if k = fst x then (k, v) # xs else if bytes_less k (fst x) then (k, v) # x # xs else x # pair_put k v xs)"

definition pair_erase :: "string \<Rightarrow> pair_map \<Rightarrow> pair_map" where
  "pair_erase k ps = filter (\<lambda>p. fst p \<noteq> k) ps"

fun get_item_identifier :: "hist_item \<Rightarrow> string" where
  "get_item_identifier (RpmItem r) = ri_name r @ ''.'' @ ri_arch r"
| "get_item_identifier (GroupItem g) = g"
| "get_item_identifier (EnvironmentItem e) = e"
| "get_item_identifier UnknownItem = []"

definition set_action :: "nat \<Rightarrow> item_action \<Rightarrow> trans_item list \<Rightarrow> trans_item list" where
  "set_action i a h = h[i := (h ! i)\<lparr>ti_action := a\<rparr>]"

definition is_rpm :: "hist_item \<Rightarrow> bool" where
  "is_rpm x = (case x of RpmItem r \<Rightarrow> True | _ \<Rightarrow> False)"

definition same_version :: "rpm_item \<Rightarrow> rpm_item \<Rightarrow> bool" where
  "same_version a b \<longleftrightarrow> ri_version a = ri_version b \<and> ri_epoch a = ri_epoch b"

definition resolve_rpm_difference ::
  "item_pair \<Rightarrow> nat \<Rightarrow> trans_item list \<Rightarrow> merge_error + item_pair \<times> trans_item list" where
  "resolve_rpm_difference p i h =
     (case (ti_item (h ! fst p), ti_item (h ! i)) of
        (RpmItem first, RpmItem second) \<Rightarrow>
          (if same_version first second then Inr ((i, None), set_action i TI_REINSTALL h)
           else and_then (rpm_less first second) (\<lambda>less.
             if less then Inr ((fst p, Some i), set_action i TI_UPGRADE (set_action (fst p) TI_UPGRADED h))
             else Inr ((fst p, Some i), set_action i TI_DOWNGRADE (set_action (fst p) TI_DOWNGRADED h))))
      | _ \<Rightarrow> Inl NullRpm)"

text \<open>The pair that the difference was resolved to is replaced by the new item alone.\<close>

definition resolve_erase :: "item_pair \<Rightarrow> nat \<Rightarrow> trans_item list \<Rightarrow> merge_error + item_pair \<times> trans_item list" where
  "resolve_erase p i h =
     and_then
       (if ti_action (h ! i) = TI_INSTALL
        then (if is_rpm (ti_item (h ! i)) then and_then (resolve_rpm_difference p i h) (\<lambda>(p, h). Inr h)
              else Inr (set_action i TI_REINSTALL h))
        else Inr h)
       (\<lambda>h. Inr ((i, None), h))"

definition resolve_altered :: "item_pair \<Rightarrow> nat \<Rightarrow> trans_item list \<Rightarrow> merge_error + item_pair \<times> trans_item list" where
  "resolve_altered p i h =
     (let new_state = ti_action (h ! i); first_state = ti_action (h ! fst p) in
      if new_state = TI_REMOVE \<or> new_state = TI_OBSOLETED then Inr ((fst p, None), set_action (fst p) new_state h)
      else if new_state = TI_DOWNGRADED \<or> new_state = TI_UPGRADED then
        (if snd p = None \<and> (first_state = TI_DOWNGRADE \<or> first_state = TI_UPGRADE) then Inr ((i, Some (fst p)), h)
         else Inr (p, h))
      else if new_state = TI_DOWNGRADE \<or> new_state = TI_UPGRADE then
        (case snd p of
           None \<Rightarrow> Inr ((fst p, Some i), h)
         | Some j \<Rightarrow>
             (if is_rpm (ti_item (h ! i)) then resolve_rpm_difference p i h
              else Inr ((j, None), set_action j TI_REINSTALL h)))
      else Inr (p, h))"

definition merge_item :: "pair_map \<times> trans_item list \<Rightarrow> nat \<Rightarrow> merge_error + pair_map \<times> trans_item list" where
  "merge_item s i =
     (let (ps, h) = s; name = get_item_identifier (ti_item (h ! i)) in
      case map_of ps name of
        None \<Rightarrow> Inr (pair_put name (i, None) ps, h)
      | Some p \<Rightarrow>
          (let first_state = ti_action (h ! fst p); new_state = ti_action (h ! i) in
           if first_state = TI_INSTALL \<and> is_backward_action new_state then Inr (ps, h)
           else if first_state = TI_REMOVE \<or> first_state = TI_OBSOLETED then
             and_then (resolve_erase p i h) (\<lambda>(p, h). Inr (pair_put name p ps, h))
           else if first_state = TI_INSTALL \<and> (new_state = TI_REMOVE \<or> new_state = TI_OBSOLETED) then
             Inr (pair_erase name ps, h)
           else if first_state = TI_INSTALL then Inr (pair_put name (i, None) ps, set_action i TI_INSTALL h)
           else if first_state = TI_REINSTALL \<or> first_state = TI_REASON_CHANGE then Inr (pair_put name (i, None) ps, h)
           else if first_state = TI_REINSTALLED then Inr (ps, h)
           else and_then (resolve_altered p i h) (\<lambda>(p, h). Inr (pair_put name p ps, h))))"

primrec merge_items :: "nat list \<Rightarrow> pair_map \<times> trans_item list \<Rightarrow> merge_error + pair_map \<times> trans_item list" where
  "merge_items [] s = Inr s"
| "merge_items (i # is) s = and_then (merge_item s i) (merge_items is)"

text \<open>The items of a merged transaction, with the store in which their actions are set.\<close>

definition get_items :: "transaction list \<Rightarrow> trans_item list \<Rightarrow> merge_error + nat list \<times> trans_item list" where
  "get_items ts h =
     and_then (merge_items (concat (map tr_items ts)) ([], h)) (\<lambda>(ps, h).
       Inr (concat (map (\<lambda>row. fst (snd row) # (case snd (snd row) of None \<Rightarrow> [] | Some j \<Rightarrow> [j])) ps), h))"

chapter \<open>Reasons of items\<close>

text \<open>
  The order of the reasons for which a package is installed (dnf-4/libdnf/transaction/TransactionItemReason.hpp)
  and the reason of a package in the history (\<open>RPMItem::resolveTransactionItemReason\<close>). The rows of the two
  SQL queries are arguments.
\<close>

section \<open>The order\<close>

definition reason_order :: "item_reason list" where
  "reason_order =
     [REASON_UNKNOWN, REASON_CLEAN, REASON_WEAK_DEPENDENCY, REASON_DEPENDENCY, REASON_GROUP, REASON_USER]"

primrec first_of :: "item_reason \<Rightarrow> item_reason \<Rightarrow> item_reason list \<Rightarrow> bool" where
  "first_of lhs rhs [] = False"
| "first_of lhs rhs (i # order) = (if lhs = i then True else if rhs = i then False else first_of lhs rhs order)"

definition reason_less :: "item_reason \<Rightarrow> item_reason \<Rightarrow> bool" where
  "reason_less lhs rhs = (if lhs = rhs then False else first_of lhs rhs reason_order)"

definition reason_less_eq :: "item_reason \<Rightarrow> item_reason \<Rightarrow> bool" where
  "reason_less_eq lhs rhs = (if lhs = rhs then True else reason_less lhs rhs)"

definition reason_greater :: "item_reason \<Rightarrow> item_reason \<Rightarrow> bool" where
  "reason_greater lhs rhs = (if lhs = rhs then False else reason_less rhs lhs)"

definition reason_greater_eq :: "item_reason \<Rightarrow> item_reason \<Rightarrow> bool" where
  "reason_greater_eq lhs rhs = (if lhs = rhs then True else reason_greater lhs rhs)"

definition reason_compare :: "item_reason \<Rightarrow> item_reason \<Rightarrow> int" where
  "reason_compare lhs rhs = (if reason_less lhs rhs then -1 else if reason_greater lhs rhs then 1 else 0)"

text \<open>The position in the order decides, so the operators are those of a linear order.\<close>

fun reason_rank :: "item_reason \<Rightarrow> nat" where
  "reason_rank REASON_UNKNOWN = 0"
| "reason_rank REASON_CLEAN = 1"
| "reason_rank REASON_WEAK_DEPENDENCY = 2"
| "reason_rank REASON_DEPENDENCY = 3"
| "reason_rank REASON_GROUP = 4"
| "reason_rank REASON_USER = 5"

lemma reason_rank_inject: "reason_rank a = reason_rank b \<longleftrightarrow> a = b"
  by (cases a; cases b) simp_all

lemma reason_less_rank: "reason_less a b \<longleftrightarrow> reason_rank a < reason_rank b"
  by (cases a; cases b) (simp_all add: reason_less_def reason_order_def)

lemma reason_less_eq_rank: "reason_less_eq a b \<longleftrightarrow> reason_rank a \<le> reason_rank b"
  using reason_rank_inject [of a b] by (auto simp: reason_less_eq_def reason_less_rank)

instantiation item_reason :: linorder
begin

definition less_item_reason_def: "a < b \<longleftrightarrow> reason_less a b"

definition less_eq_item_reason_def: "a \<le> b \<longleftrightarrow> reason_less_eq a b"

instance
  by standard (auto simp: less_item_reason_def less_eq_item_reason_def reason_less_rank reason_less_eq_rank reason_rank_inject)

end

lemma reason_operators:
  "reason_greater a b \<longleftrightarrow> b < a" "reason_greater_eq a b \<longleftrightarrow> b \<le> a"
  "reason_compare a b = (if a < b then -1 else if a = b then 0 else 1)"
  using reason_rank_inject [of a b]
  by (auto simp: reason_greater_def reason_greater_eq_def reason_compare_def less_item_reason_def less_eq_item_reason_def
      reason_less_rank reason_less_eq_rank)

section \<open>The reason of a package\<close>

text \<open>The loop over the rows of one architecture.\<close>

primrec strongest :: "item_reason \<Rightarrow> (item_action \<times> item_reason) list \<Rightarrow> item_reason" where
  "strongest result [] = result"
| "strongest result (row # rows) =
     strongest (if fst row = TI_REMOVE then result
                else if reason_greater (snd row) result then snd row else result) rows"

definition resolve_reason ::
  "(string \<Rightarrow> string list) \<Rightarrow> (string \<Rightarrow> string \<Rightarrow> (item_action \<times> item_reason) list) \<Rightarrow> string \<Rightarrow> string \<Rightarrow> item_reason" where
  "resolve_reason arch_query query name arch =
     (if arch \<noteq> [] then
        (case query name arch of
           row # rows \<Rightarrow> (if fst row = TI_REMOVE then REASON_UNKNOWN else snd row)
         | [] \<Rightarrow> REASON_UNKNOWN)
      else foldl (\<lambda>result rpm_arch. strongest result (query name rpm_arch)) REASON_UNKNOWN (arch_query name))"

definition kept_reasons :: "(item_action \<times> item_reason) list \<Rightarrow> item_reason set" where
  "kept_reasons rows = {r. \<exists>a. (a, r) \<in> set rows \<and> a \<noteq> TI_REMOVE}"

lemma kept_reasons_simps [simp]:
  "kept_reasons [] = {}"
  "kept_reasons (row # rows) = (if fst row = TI_REMOVE then {} else {snd row}) \<union> kept_reasons rows"
  by (cases row; auto simp: kept_reasons_def)+

lemma finite_kept_reasons [simp]: "finite (kept_reasons rows)"
  by (induction rows) auto

definition greatest_of :: "item_reason \<Rightarrow> item_reason set \<Rightarrow> bool" where
  "greatest_of r rs \<longleftrightarrow> r \<in> rs \<and> (\<forall>x \<in> rs. x \<le> r)"

lemma greatest_of_trans: "greatest_of q (insert r a) \<Longrightarrow> greatest_of p (insert q b) \<Longrightarrow> greatest_of p (insert r (a \<union> b))"
  by (auto simp: greatest_of_def)

lemma strongest_greatest: "greatest_of (strongest r rows) (insert r (kept_reasons rows))"
proof (induction rows arbitrary: r)
  case (Cons row rows)
  let ?q = "if fst row = TI_REMOVE then r else if reason_greater (snd row) r then snd row else r"
  have "greatest_of ?q (insert r (if fst row = TI_REMOVE then {} else {snd row}))"
    by (auto simp: greatest_of_def reason_operators)
  from greatest_of_trans [OF this Cons.IH] show ?case by (simp only: strongest.simps kept_reasons_simps)
qed (simp add: greatest_of_def)

lemma foldl_strongest_greatest:
  "greatest_of (foldl (\<lambda>result a. strongest result (query a)) r archs) (insert r (\<Union>a \<in> set archs. kept_reasons (query a)))"
proof (induction archs arbitrary: r)
  case (Cons a archs)
  from greatest_of_trans [OF strongest_greatest Cons.IH, of r "query a"] show ?case by simp
qed (simp add: greatest_of_def)

lemma reason_unknown_least: "REASON_UNKNOWN \<le> r"
  by (simp add: less_eq_item_reason_def reason_less_eq_rank)

lemma greatest_of_unknown: "greatest_of r (insert REASON_UNKNOWN rs) \<Longrightarrow> x \<in> rs \<Longrightarrow> r \<in> rs"
  using reason_unknown_least [of x] by (auto simp: greatest_of_def)

text \<open>Without an architecture the reason of a package is the strongest one that any architecture was recorded
  with, those whose last record is a removal aside, and unknown when there is none.\<close>

theorem resolved_reason_is_strongest:
  "resolve_reason arch_query query name [] =
    (let rs = \<Union>a \<in> set (arch_query name). kept_reasons (query name a) in if rs = {} then REASON_UNKNOWN else Max rs)"
proof -
  let ?r = "resolve_reason arch_query query name []" and ?rs = "\<Union>a \<in> set (arch_query name). kept_reasons (query name a)"
  have g: "greatest_of ?r (insert REASON_UNKNOWN ?rs)"
    unfolding resolve_reason_def using foldl_strongest_greatest [of "query name" REASON_UNKNOWN] by simp
  have "Max ?rs = ?r" if ne: "?rs \<noteq> {}"
  proof (rule Max_eqI)
    obtain x where "x \<in> ?rs" using ne by blast
    then show "?r \<in> ?rs" by (rule greatest_of_unknown [OF g])
  qed (use g in \<open>auto simp: greatest_of_def\<close>)
  moreover have "?r = REASON_UNKNOWN" if "?rs = {}" using g that unfolding greatest_of_def by simp
  ultimately show ?thesis unfolding Let_def by simp
qed

end
