(* ===== verification/MergedFacts.thy ===== *)
theory MergedFacts
  imports MergedTransaction
begin

text \<open>
  Merging transactions: the transactions stay in the order of their identities, and the items of a
  package that was changed several times become its net change. Where the code departs from the
  rules its comment states, a theorem shows it.
\<close>

section \<open>The transactions\<close>

lemma merge_set: "set (merge t ts) = insert t (set ts)"
  by (induction ts) auto

lemma merge_sorted: "sorted (map tr_id ts) \<Longrightarrow> sorted (map tr_id (merge t ts))"
  by (induction ts) (auto simp: merge_set)

lemma merge_filter:
  "sorted (map tr_id ts) \<Longrightarrow> filter (\<lambda>u. tr_id u = n) (merge t ts) =
    filter (\<lambda>u. tr_id u = n) ts @ (if tr_id t = n then [t] else [])"
proof (induction ts)
  case (Cons u us)
  show ?case
  proof (cases "tr_id u > tr_id t")
    case True
    then have "\<forall>x \<in> set (u # us). tr_id x > tr_id t" using Cons.prems by auto
    then have "tr_id t = n \<Longrightarrow> filter (\<lambda>u. tr_id u = n) (u # us) = []" by (auto simp: filter_empty_conv)
    then show ?thesis using True by auto
  next
    case False
    then show ?thesis using Cons by auto
  qed
qed simp

text \<open>However transactions are merged, they are listed in the order of their identities, none is lost,
  and those of one identity stay in the order in which they were merged.\<close>

theorem merged_transactions_sorted:
  "sorted (list_ids (fold merge ts (merged_new t))) \<and>
   (\<forall>n. filter (\<lambda>u. tr_id u = n) (fold merge ts (merged_new t)) = filter (\<lambda>u. tr_id u = n) (t # ts))"
proof -
  have "sorted (map tr_id us) \<Longrightarrow> sorted (map tr_id (fold merge ts us)) \<and>
      (\<forall>n. filter (\<lambda>u. tr_id u = n) (fold merge ts us) = filter (\<lambda>u. tr_id u = n) (us @ ts))" for us
  proof (induction ts arbitrary: us)
    case (Cons t ts)
    then show ?case using merge_sorted [OF Cons.prems, of t] merge_filter [OF Cons.prems, of _ t] by simp
  qed simp
  from this [of "[t]"] show ?thesis by (simp add: merged_new_def list_ids_def)
qed

section \<open>Histories of a package\<close>

definition key_of :: "trans_item \<Rightarrow> string" where
  "key_of x = get_item_identifier (ti_item x)"

definition altered_old :: "item_action \<Rightarrow> bool" where
  "altered_old a \<longleftrightarrow> a = TI_UPGRADED \<or> a = TI_DOWNGRADED"

definition altered_new :: "item_action \<Rightarrow> bool" where
  "altered_new a \<longleftrightarrow> a = TI_UPGRADE \<or> a = TI_DOWNGRADE"

text \<open>The action by which the code tells an upgrade from a downgrade: its own comparison of packages, \<open>operator<\<close>.\<close>

definition direction :: "rpm_item \<Rightarrow> rpm_item \<Rightarrow> item_action" where
  "direction r r' = (if rpm_less r r' = Inr True then TI_UPGRADE else TI_DOWNGRADE)"

text \<open>
  What transactions record of a package that is installed as \<open>r\<close>, when it was \<open>r0\<close> at first: reinstallations, and
  alterations to another version, recorded as upgrades or downgrades, that list the old package before the new one. The
  flag tells whether an alteration is open; \<open>rec\<close> gives the recorded actions of those alterations that start from the
  version of \<open>r0\<close>.
\<close>

inductive history :: "trans_item list \<Rightarrow> rpm_item \<Rightarrow> (nat \<Rightarrow> item_action option) \<Rightarrow> bool \<Rightarrow> rpm_item \<Rightarrow> nat list \<Rightarrow> rpm_item \<Rightarrow> bool"
  for h r0 rec where
  finished: "history h r0 rec False r [] r"
| old: "ti_item (h ! i) = RpmItem r1 \<Longrightarrow> same_version r r1 \<Longrightarrow> altered_old (ti_action (h ! i)) \<Longrightarrow>
    history h r0 rec True r is r' \<Longrightarrow> history h r0 rec False r (i # is) r'"
| new: "ti_item (h ! i) = RpmItem r1 \<Longrightarrow> altered_new (ti_action (h ! i)) \<Longrightarrow> \<not> same_version r r1 \<Longrightarrow>
    rec i = (if same_version r0 r then Some (ti_action (h ! i)) else None) \<Longrightarrow>
    history h r0 rec False r1 is r' \<Longrightarrow> history h r0 rec True r (i # is) r'"
| again: "ti_item (h ! i) = RpmItem r1 \<Longrightarrow> same_version r r1 \<Longrightarrow> ti_action (h ! i) = TI_REINSTALL \<Longrightarrow>
    history h r0 rec False r1 is r' \<Longrightarrow> history h r0 rec False r (i # is) r'"

inductive_cases history_NilE [elim!]: "history h r0 rec half r [] r'"









definition pointers :: "item_pair option \<Rightarrow> nat list" where
  "pointers p = (case p of None \<Rightarrow> [] | Some (i, None) \<Rightarrow> [i] | Some (i, Some j) \<Rightarrow> [i, j])"

lemma map_of_pair_put: "map_of (pair_put k v ps) = (map_of ps)(k \<mapsto> v)"
  by (induction ps) (auto simp: fun_eq_iff)

lemma map_of_pair_erase: "map_of (pair_erase k ps) = (map_of ps)(k := None)"
  by (simp add: pair_erase_def map_of_filter_neq)

lemma set_action_simps [simp]:
  "length (set_action i a h) = length h" "j \<noteq> i \<Longrightarrow> set_action i a h ! j = h ! j"
  "i < length h \<Longrightarrow> ti_action (set_action i a h ! i) = a"
  by (simp_all add: set_action_def)

lemma set_action_item [simp]: "ti_item (set_action i a h ! j) = ti_item (h ! j)"
  by (cases "i < length h"; cases "i = j") (auto simp: set_action_def not_less list_update_beyond)

section \<open>One item of the package\<close>











section \<open>Items of all packages\<close>

text \<open>What a step may touch: the pair of the item's key, and the actions of the items of that pair.\<close>

definition within :: "item_pair option \<Rightarrow> nat \<Rightarrow> trans_item list \<Rightarrow> item_pair option \<Rightarrow> trans_item list \<Rightarrow> bool" where
  "within p i h p' h' \<longleftrightarrow>
     set (pointers p') \<subseteq> insert i (set (pointers p)) \<and> length h' = length h \<and>
     (\<forall>n. n \<notin> insert i (set (pointers p)) \<longrightarrow> h' ! n = h ! n) \<and> (\<forall>n. ti_item (h' ! n) = ti_item (h ! n))"

lemma pointers_simps: "pointers None = []" "pointers (Some (a, None)) = [a]" "pointers (Some (a, Some b)) = [a, b]"
  by (simp_all add: pointers_def)

lemma within_same: "set (pointers p') \<subseteq> insert i (set (pointers p)) \<Longrightarrow> within p i h p' h"
  by (simp add: within_def)

lemma within_action:
  assumes "within p i h p' h'" "n \<in> insert i (set (pointers p))"
  shows "within p i h p' (set_action n a h')"
proof -
  have "set_action n a h' ! m = h' ! m" if "m \<notin> insert i (set (pointers p))" for m
    using that assms(2) by (cases "m = n") auto
  then show ?thesis using assms(1) by (simp add: within_def)
qed

lemma fst_pointer: "fst p \<in> set (pointers (Some p))"
  by (cases p; cases "snd p") (auto simp: pointers_simps)

lemma snd_pointer: "snd p = Some j \<Longrightarrow> j \<in> set (pointers (Some p))"
  by (cases p; cases "snd p") (auto simp: pointers_simps)

lemma within_pair:
  assumes "n \<in> insert i (set (pointers (Some p)))" "\<And>j. q = Some j \<Longrightarrow> j \<in> insert i (set (pointers (Some p)))"
  shows "within (Some p) i h (Some (n, q)) h"
  by (rule within_same) (use assms in \<open>cases q; auto simp: pointers_simps\<close>)

lemma resolve_rpm_within:
  assumes "resolve_rpm_difference p i h = Inr (p', h')"
  shows "within (Some p) i h (Some p') h'"
  using assms
  by (auto simp: resolve_rpm_difference_def and_then_Inr_iff fst_pointer
      intro!: within_action within_pair split: hist_item.splits if_splits)

lemma resolve_erase_within:
  assumes "resolve_erase p i h = Inr (p', h')"
  shows "within (Some p) i h (Some p') h'"
proof -
  have "within (Some p) i h (Some (i, None)) h2" if "resolve_rpm_difference p i h = Inr (p2, h2)" for p2 h2
    using resolve_rpm_within [OF that] by (simp add: within_def pointers_simps)
  then show ?thesis using assms
    by (auto simp: resolve_erase_def and_then_Inr_iff intro!: within_action within_pair split: if_splits prod.splits)
qed

lemma resolve_altered_cases:
  assumes "resolve_altered p i h = Inr (p', h')"
  obtains (undone) "p' = (fst p, None)" "h' = set_action (fst p) (ti_action (h ! i)) h"
    | (swap) "p' = (i, Some (fst p))" "h' = h"
    | (keep) "p' = p" "h' = h"
    | (add) "p' = (fst p, Some i)" "h' = h"
    | (rpm) "resolve_rpm_difference p i h = Inr (p', h')"
    | (group) j where "snd p = Some j" "p' = (j, None)" "h' = set_action j TI_REINSTALL h"
proof -
  let ?new = "ti_action (h ! i)"
  consider "?new = TI_REMOVE \<or> ?new = TI_OBSOLETED" | "?new = TI_DOWNGRADED \<or> ?new = TI_UPGRADED"
    | "?new = TI_DOWNGRADE \<or> ?new = TI_UPGRADE"
    | "?new \<notin> {TI_REMOVE, TI_OBSOLETED, TI_DOWNGRADED, TI_UPGRADED, TI_DOWNGRADE, TI_UPGRADE}"
    by auto
  then show thesis
  proof cases
    case 1
    then show ?thesis using assms undone by (auto simp: resolve_altered_def Let_def)
  next
    case 2
    then have "p' = (i, Some (fst p)) \<and> h' = h \<or> p' = p \<and> h' = h"
      using assms by (elim disjE) (simp_all add: resolve_altered_def Let_def split: if_split_asm)
    then show ?thesis using swap keep by (elim disjE conjE)
  next
    case 3
    then show ?thesis
    proof (cases "snd p")
      case None
      then have "p' = (fst p, Some i) \<and> h' = h"
        using assms 3 by (elim disjE) (simp_all add: resolve_altered_def Let_def)
      then show ?thesis using add by (elim conjE)
    next
      case (Some j)
      then have "resolve_rpm_difference p i h = Inr (p', h') \<or> p' = (j, None) \<and> h' = set_action j TI_REINSTALL h"
        using assms 3 by (elim disjE) (simp_all add: resolve_altered_def Let_def split: if_split_asm)
      then show ?thesis using rpm group [OF Some] by (elim disjE conjE)
    qed
  next
    case 4
    then show ?thesis using assms keep by (auto simp: resolve_altered_def Let_def)
  qed
qed

lemma resolve_altered_within:
  assumes "resolve_altered p i h = Inr (p', h')"
  shows "within (Some p) i h (Some p') h'"
  using assms
proof (cases rule: resolve_altered_cases)
  case rpm
  then show ?thesis by (rule resolve_rpm_within)
next
  case keep
  then show ?thesis by (auto intro: within_same)
qed (auto simp: fst_pointer snd_pointer intro!: within_action within_pair)

lemma merge_item_cases:
  assumes "merge_item (ps, h) i = Inr (ps', h')" "map_of ps k = Some p" "key_of (h ! i) = k"
  obtains (keep) "ps' = ps" "h' = h"
    | (erase) q where "resolve_erase p i h = Inr (q, h')" "ps' = pair_put k q ps"
    | (gone) "ps' = pair_erase k ps" "h' = h"
    | (again) "ps' = pair_put k (i, None) ps" "h' = set_action i TI_INSTALL h"
    | (replace) "ps' = pair_put k (i, None) ps" "h' = h"
    | (altered) q where "resolve_altered p i h = Inr (q, h')" "ps' = pair_put k q ps"
  using assms unfolding merge_item_def key_of_def Let_def
  by (simp add: and_then_Inr_iff split: if_splits prod.splits) (auto split: if_splits)

lemma merge_item_within:
  assumes "merge_item (ps, h) i = Inr (ps', h')" "key_of (h ! i) = k"
  shows "\<exists>q. map_of ps' = (map_of ps)(k := q) \<and> within (map_of ps k) i h q h'"
proof (cases "map_of ps k")
  case None
  then show ?thesis using assms
    by (auto simp: merge_item_def key_of_def map_of_pair_put pointers_simps within_same)
next
  case (Some p)
  have fst: "within (Some p) i h (Some (i, None)) h" by (rule within_pair) simp_all
  from assms(1) Some assms(2) show ?thesis
  proof (cases rule: merge_item_cases)
    case keep
    then show ?thesis using Some within_same by (intro exI [of _ "Some p"]) (auto simp: fun_upd_idem)
  next
    case (erase q)
    then show ?thesis using Some resolve_erase_within [OF erase(1)] by (auto simp: map_of_pair_put)
  next
    case gone
    then show ?thesis using Some by (auto simp: map_of_pair_erase pointers_simps intro!: within_same)
  next
    case again
    then show ?thesis using Some fst by (auto simp: map_of_pair_put intro!: within_action)
  next
    case replace
    then show ?thesis using Some fst by (auto simp: map_of_pair_put)
  next
    case (altered q)
    then show ?thesis using Some resolve_altered_within [OF altered(1)] by (auto simp: map_of_pair_put)
  qed
qed

text \<open>The pairs refer to the items seen so far, each pair to items of its own key.\<close>

definition linked :: "pair_map \<Rightarrow> trans_item list \<Rightarrow> nat set \<Rightarrow> bool" where
  "linked ps h seen \<longleftrightarrow> (\<forall>k. \<forall>n \<in> set (pointers (map_of ps k)). n \<in> seen \<and> n < length h \<and> key_of (h ! n) = k)"

lemma linkedD: "linked ps h seen \<Longrightarrow> n \<in> set (pointers (map_of ps k)) \<Longrightarrow> n \<in> seen \<and> n < length h \<and> key_of (h ! n) = k"
  by (simp add: linked_def)

lemma merge_item_linked:
  assumes "merge_item (ps, h) i = Inr (ps', h')" "linked ps h seen" "i < length h"
  shows "linked ps' h' (insert i seen)" "length h' = length h" "key_of (h' ! n) = key_of (h ! n)"
    "key_of (h ! n) \<noteq> key_of (h ! i) \<or> n \<noteq> i \<and> n \<notin> seen \<Longrightarrow> h' ! n = h ! n"
    "k \<noteq> key_of (h ! i) \<Longrightarrow> map_of ps' k = map_of ps k"
proof -
  let ?k = "key_of (h ! i)"
  obtain q where q: "map_of ps' = (map_of ps)(?k := q)" "within (map_of ps ?k) i h q h'"
    using merge_item_within [OF assms(1) refl] by blast
  show len: "length h' = length h" and key: "key_of (h' ! n) = key_of (h ! n)" for n
    using q(2) by (simp_all add: within_def key_of_def)
  show "key_of (h ! n) \<noteq> ?k \<or> n \<noteq> i \<and> n \<notin> seen \<Longrightarrow> h' ! n = h ! n"
  proof -
    assume "key_of (h ! n) \<noteq> ?k \<or> n \<noteq> i \<and> n \<notin> seen"
    then have "n \<notin> insert i (set (pointers (map_of ps ?k)))" using linkedD [OF assms(2), of n ?k] by auto
    then show "h' ! n = h ! n" using q(2) unfolding within_def by blast
  qed
  show "k \<noteq> ?k \<Longrightarrow> map_of ps' k = map_of ps k" using q(1) by simp
  show "linked ps' h' (insert i seen)"
    unfolding linked_def
  proof (intro allI ballI)
    fix k n
    assume n: "n \<in> set (pointers (map_of ps' k))"
    show "n \<in> insert i seen \<and> n < length h' \<and> key_of (h' ! n) = k"
    proof (cases "k = ?k")
      case True
      then have "n \<in> insert i (set (pointers (map_of ps ?k)))" using n q by (auto simp: within_def)
      then show ?thesis using linkedD [OF assms(2), of n ?k] assms(3) True by (auto simp: len key)
    next
      case False
      then show ?thesis using linkedD [OF assms(2), of n k] n q(1) by (auto simp: len key)
    qed
  qed
qed





text \<open>A package that is upgraded twice, while another one is installed.\<close>

definition sample_rpm :: "string \<Rightarrow> string \<Rightarrow> rpm_item" where
  "sample_rpm n v = \<lparr>ri_name = n, ri_epoch = 0, ri_version = v, ri_release = ''1'', ri_arch = ''noarch''\<rparr>"

definition sample_item :: "string \<Rightarrow> string \<Rightarrow> item_action \<Rightarrow> trans_item" where
  "sample_item n v a = \<lparr>ti_item = RpmItem (sample_rpm n v), ti_repoid = ''base'', ti_action = a, ti_reason = REASON_USER\<rparr>"







section \<open>Departures from the rules\<close>

lemma installed_kept:
  assumes "merge_items is (ps, h) = Inr (ps', h')" "linked ps h seen" "distinct is" "set is \<inter> seen = {}"
    "\<forall>i \<in> set is. i < length h" "map_of ps k = Some (a, None)" "ti_action (h ! a) = TI_INSTALL"
    "\<forall>i \<in> set is. key_of (h ! i) = k \<longrightarrow> is_backward_action (ti_action (h ! i))"
  shows "map_of ps' k = Some (a, None) \<and> ti_action (h' ! a) = TI_INSTALL"
  using assms
proof (induction "is" arbitrary: ps h seen)
  case (Cons i "is")
  obtain ps1 h1 where st: "merge_item (ps, h) i = Inr (ps1, h1)" and rest: "merge_items is (ps1, h1) = Inr (ps', h')"
    using Cons.prems(1) by (auto simp: and_then_Inr_iff)
  note lk = merge_item_linked [OF st Cons.prems(2)]
  have i: "i < length h" using Cons.prems(5) by simp
  have a: "key_of (h ! a) = k" using linkedD [OF Cons.prems(2), of a k] Cons.prems(6) by (simp add: pointers_simps)
  have later: "h1 ! n = h ! n" if "n \<in> set is" for n
    by (rule lk(4) [OF i]) (use that Cons.prems(3,4) in auto)
  have "map_of ps1 k = Some (a, None) \<and> h1 ! a = h ! a"
  proof (cases "key_of (h ! i) = k")
    case True
    then have "ps1 = ps \<and> h1 = h"
      using st Cons.prems(6-8) by (simp add: merge_item_def key_of_def)
    then show ?thesis using Cons.prems(6) by simp
  next
    case False
    then show ?thesis using lk(4,5) [OF i] Cons.prems(6) a by simp
  qed
  then show ?case
    using Cons.IH [OF rest lk(1) [OF i]] Cons.prems(3,4,5,7,8) lk(2,3) [OF i] later by simp
qed simp

text \<open>A package that was installed and then removed or replaced stays listed as installed: the guard at the
  start of the merging of an item returns for every backward action, so the rule \<open>Install -> Erase = (nothing)\<close>
  of the comment is never reached.\<close>

theorem removed_installation_stays_listed:
  assumes "merge_items (i # is) ([], h) = Inr (ps, h')" "distinct (i # is)" "\<forall>n \<in> set (i # is). n < length h"
    "ti_action (h ! i) = TI_INSTALL"
    "\<forall>n \<in> set is. key_of (h ! n) = key_of (h ! i) \<longrightarrow> is_backward_action (ti_action (h ! n))"
  shows "map_of ps (key_of (h ! i)) = Some (i, None) \<and> ti_action (h' ! i) = TI_INSTALL"
proof -
  have first: "merge_item ([], h) i = Inr ([(key_of (h ! i), (i, None))], h)"
    by (simp add: merge_item_def key_of_def)
  then have "merge_items is ([(key_of (h ! i), (i, None))], h) = Inr (ps, h')" using assms(1) by simp
  then show ?thesis
    by (rule installed_kept [where seen = "{i}"]) (use assms in \<open>auto simp: linked_def pointers_def\<close>)
qed

definition install_remove :: "trans_item list" where
  "install_remove = [sample_item ''p'' ''1.0'' TI_INSTALL, sample_item ''p'' ''1.0'' TI_REMOVE]"

theorem removed_installation_stays_listed_witness:
  "merge_items [0, 1] ([], install_remove) = Inr ([(''p.noarch'', (0, None))], install_remove) \<and>
   map_of [(''p.noarch'', (0 :: nat, None :: nat option))] (key_of (install_remove ! 0)) = Some (0, None)"
proof -
  have m: "merge_items [0, 1] ([], install_remove) = Inr ([(''p.noarch'', (0, None))], install_remove)" by code_simp
  have "\<forall>n \<in> set [0 :: nat, 1]. n < length install_remove" "ti_action (install_remove ! 0) = TI_INSTALL"
    "\<forall>n \<in> set [1 :: nat]. key_of (install_remove ! n) = key_of (install_remove ! 0) \<longrightarrow>
      is_backward_action (ti_action (install_remove ! n))" by code_simp+
  note r = removed_installation_stays_listed [OF m _ this, THEN conjunct1]
  show ?thesis by (rule conjI [OF m r]) simp
qed

text \<open>Packages with different epochs and the reverse order of versions are each older than the other, because
  the sign of the epoch is tested where the difference of the epochs is meant. Going back from a newer epoch
  is then recorded as an upgrade.\<close>

theorem epochs_do_not_order_packages:
  assumes "0 \<le> ri_epoch b" "ri_epoch b < ri_epoch a"
    "version_less (zip (dot_fields (ri_version a)) (dot_fields (ri_version b))) = Inr True"
  shows "rpm_less a b = Inr True \<and> rpm_less b a = Inr True \<and> direction a b = TI_UPGRADE"
  using assms by (simp add: rpm_less_def direction_def)

theorem epochs_do_not_order_packages_witness:
  "rpm_less (sample_rpm ''p'' ''1.0''\<lparr>ri_epoch := 1\<rparr>) (sample_rpm ''p'' ''2.0'') = Inr True"
proof -
  have "version_less (zip (dot_fields ''1.0'') (dot_fields ''2.0'')) = Inr True" by code_simp
  then show ?thesis
    using epochs_do_not_order_packages [of "sample_rpm ''p'' ''2.0''" "sample_rpm ''p'' ''1.0''\<lparr>ri_epoch := 1\<rparr>"]
    by (simp add: sample_rpm_def)
qed

end
