(* ===== verification/TextFiles.thy ===== *)
theory TextFiles
  imports CppString
begin

text \<open>
  The string and file helpers of the two libraries (libdnf/utils/string.hpp, libdnf/utils/utils.cpp,
  dnf-4/libdnf/utils/utils.cpp). A file system is a map from paths to contents; reading a regular
  file delivers full blocks until its end.
\<close>

section \<open>Strings\<close>

definition starts_with :: "string \<Rightarrow> string \<Rightarrow> bool" where
  "starts_with v pattern = (if length pattern > length v then False else take (length pattern) v = pattern)"

definition ends_with :: "string \<Rightarrow> string \<Rightarrow> bool" where
  "ends_with v pattern =
     (if length pattern > length v then False else take (length pattern) (rev v) = rev pattern)"

lemma starts_with_iff: "starts_with v p \<longleftrightarrow> (\<exists>rest. v = p @ rest)"
  by (auto simp: starts_with_def) (metis append_take_drop_id)

lemma ends_with_iff: "ends_with v p \<longleftrightarrow> (\<exists>rest. v = rest @ p)"
proof -
  have "ends_with v p \<longleftrightarrow> starts_with (rev v) (rev p)" by (simp add: ends_with_def starts_with_def)
  also have "\<dots> \<longleftrightarrow> (\<exists>rest. v = rest @ p)"
    unfolding starts_with_iff by (metis rev_append rev_rev_ident)
  finally show ?thesis .
qed

datatype string_error =
    SourceEmpty
  | NoDelimiter string
  | LongerThanSource
  | NotFound string
  | SubstrRange

text \<open>The loop of \<open>split\<close>: the position is where the last token ended.\<close>

function split_loop :: "string \<Rightarrow> string \<Rightarrow> int \<Rightarrow> nat \<Rightarrow> string list \<Rightarrow> string list" where
  "split_loop source delimiter max_split token_begin container =
     (case find_from (\<lambda>c. c \<notin> set delimiter) source token_begin of
        None \<Rightarrow> container
      | Some b \<Rightarrow>
          (if max_split \<noteq> -1 \<and> int (length container + 1) = max_split then container @ [drop b source]
           else
             (case find_from (\<lambda>c. c \<in> set delimiter) source b of
                None \<Rightarrow> container @ [drop b source]
              | Some e \<Rightarrow> split_loop source delimiter max_split e (container @ [substr source b (e - b)]))))"
  by pat_completeness auto

lemma split_step:
  assumes "find_from (\<lambda>c. c \<notin> set d) s pos = Some b" "find_from (\<lambda>c. c \<in> set d) s b = Some e"
  shows "pos \<le> b" "b < e" "e < length s" "length s - e < length s - pos"
proof -
  have b: "pos \<le> b" "s ! b \<notin> set d" and e: "b \<le> e" "e < length s" "s ! e \<in> set d"
    using assms by (auto simp: find_from_Some)
  then have "b \<noteq> e" by auto
  then show "pos \<le> b" "b < e" "e < length s" "length s - e < length s - pos" using b e by auto
qed

termination split_loop
  by (relation "measure (\<lambda>(source, _, _, pos, _). length source - pos)") (auto dest: split_step(4))

declare split_loop.simps [simp del]

definition split_string :: "string \<Rightarrow> string \<Rightarrow> int \<Rightarrow> string_error + string list" where
  "split_string source delimiter max_split =
     (if source = [] then Inl SourceEmpty
      else
        (let container = split_loop source delimiter max_split 0 []
         in if container = [] then Inl (NoDelimiter source) else Inr container))"

text \<open>The loop of \<open>rsplit\<close>: the pieces are cut from the source, not from the sequence that is left.\<close>

function rsplit_loop :: "string \<Rightarrow> string \<Rightarrow> int \<Rightarrow> string \<Rightarrow> string list \<Rightarrow> string list" where
  "rsplit_loop source delimiter max_split sequence container =
     (case find_last (\<lambda>c. c \<in> set delimiter) sequence of
        None \<Rightarrow> container
      | Some i \<Rightarrow>
          (if max_split \<noteq> -1 \<and> int (length container + 1) = max_split then container @ [substr source 0 i]
           else rsplit_loop source delimiter max_split (substr sequence 0 i) (drop (i + 1) source # container)))"
  by pat_completeness auto

termination rsplit_loop
  by (relation "measure (\<lambda>(_, _, _, sequence, _). length sequence)") (auto simp: substr_def dest: find_last_Some(1))

declare rsplit_loop.simps [simp del]

definition rsplit :: "string \<Rightarrow> string \<Rightarrow> int \<Rightarrow> string_error + string list" where
  "rsplit source delimiter max_split =
     (if source = [] then Inl SourceEmpty
      else
        (let container = rsplit_loop source delimiter max_split source []
         in if container = [] then Inl (NoDelimiter source) else Inr container))"

definition trim_suffix :: "string \<Rightarrow> string \<Rightarrow> string_error + string" where
  "trim_suffix source suffix =
     (if length source < length suffix then Inl LongerThanSource
      else if ends_with source suffix then Inr (substr source 0 (length source - length suffix))
      else Inl (NotFound suffix))"

text \<open>\<open>substr\<close> throws when the position is past the end.\<close>

definition trim_prefix :: "string \<Rightarrow> string \<Rightarrow> string_error + string" where
  "trim_prefix source prefix =
     (if length source < length prefix then Inl LongerThanSource
      else if starts_with source prefix
        then (let pos = size_sub (length prefix) 1 in if pos > length source then Inl SubstrRange else Inr (drop pos source))
      else Inl (NotFound prefix))"

definition blank :: "char \<Rightarrow> bool" where
  "blank c \<longleftrightarrow> c = CHR '' '' \<or> c = CHR 0x09"

definition trim :: "string \<Rightarrow> string" where
  "trim source =
     (case find_from (\<lambda>c. \<not> blank c) source 0 of
        None \<Rightarrow> []
      | Some first \<Rightarrow>
          (case find_last (\<lambda>c. \<not> blank c) source of
             None \<Rightarrow> []
           | Some l \<Rightarrow> substr source first (l - first + 1)))"

section \<open>Files\<close>

text \<open>What the file system allows: which files can be opened for reading and for writing, and how many
  bytes of a new content it stores.\<close>

record file_env =
  fe_readable :: "string \<Rightarrow> bool"
  fe_writable :: "string \<Rightarrow> bool"
  fe_stored :: "string \<Rightarrow> nat"

type_synonym file_system = "string \<rightharpoonup> string"

definition BLOCK_SIZE :: nat where "BLOCK_SIZE = 4096"

definition open_read :: "'z file_env_scheme \<Rightarrow> file_system \<Rightarrow> string \<Rightarrow> string option" where
  "open_read env fs path = (if fe_readable env path then fs path else None)"

text \<open>The loop that reads both files block by block.\<close>

function same_blocks :: "string \<Rightarrow> string \<Rightarrow> bool" where
  "same_blocks c1 c2 =
     (let b1 = take BLOCK_SIZE c1; b2 = take BLOCK_SIZE c2 in
      if length b2 \<noteq> length b1 \<or> b1 \<noteq> b2 then False
      else if length b1 = BLOCK_SIZE then same_blocks (drop BLOCK_SIZE c1) (drop BLOCK_SIZE c2)
      else True)"
  by pat_completeness auto

termination same_blocks
  by (relation "measure (\<lambda>(c1, _). length c1)") (auto simp: BLOCK_SIZE_def min_def split: if_splits)

declare same_blocks.simps [simp del]

definition have_files_same_content :: "'z file_env_scheme \<Rightarrow> file_system \<Rightarrow> string \<Rightarrow> string \<Rightarrow> bool" where
  "have_files_same_content env fs path1 path2 =
     (case open_read env fs path1 of
        None \<Rightarrow> False
      | Some c1 \<Rightarrow>
          (case open_read env fs path2 of
             None \<Rightarrow> False
           | Some c2 \<Rightarrow>
               (if length c1 \<noteq> length c2 then False
                else if length c1 = 0 then True
                else same_blocks c1 c2)))"

text \<open>\<open>libdnf::have_files_same_content_noexcept\<close> is the same routine in the new library.\<close>

definition have_files_same_content_noexcept :: "'z file_env_scheme \<Rightarrow> file_system \<Rightarrow> string \<Rightarrow> string \<Rightarrow> bool" where
  "have_files_same_content_noexcept env fs path1 path2 =
     (case open_read env fs path1 of
        None \<Rightarrow> False
      | Some c1 \<Rightarrow>
          (case open_read env fs path2 of
             None \<Rightarrow> False
           | Some c2 \<Rightarrow> length c1 = length c2 \<and> (length c1 = 0 \<or> same_blocks c1 c2)))"

definition save_file :: "'z file_env_scheme \<Rightarrow> string \<Rightarrow> string \<Rightarrow> file_system \<Rightarrow> bool \<times> file_system" where
  "save_file env path content fs =
     (if fe_writable env path
      then (let written = take (fe_stored env path) content
            in (length written = length content, fs(path \<mapsto> written)))
      else (False, fs))"

text \<open>The loop that compares the file with the new content.\<close>

function unchanged_blocks :: "string \<Rightarrow> string \<Rightarrow> bool" where
  "unchanged_blocks old content =
     (let b = take BLOCK_SIZE old in
      if b \<noteq> take (length b) content then False
      else if length b = BLOCK_SIZE then unchanged_blocks (drop BLOCK_SIZE old) (drop BLOCK_SIZE content)
      else True)"
  by pat_completeness auto

termination unchanged_blocks
  by (relation "measure (\<lambda>(old, _). length old)") (auto simp: BLOCK_SIZE_def min_def split: if_splits)

declare unchanged_blocks.simps [simp del]

definition update_file :: "'z file_env_scheme \<Rightarrow> string \<Rightarrow> string \<Rightarrow> file_system \<Rightarrow> bool \<times> file_system" where
  "update_file env path new_content fs =
     (let content = takeWhile (\<lambda>c. c \<noteq> CHR 0x00) new_content in
      case open_read env fs path of
        None \<Rightarrow> save_file env path content fs
      | Some old \<Rightarrow>
          (if length old \<noteq> length content then save_file env path content fs
           else if length content > 0 \<and> \<not> unchanged_blocks old content then save_file env path content fs
           else (True, fs)))"

end
