(* ===== verification/TextFacts.thy ===== *)
theory TextFacts
  imports TextFiles
begin

text \<open>
  What the string and file helpers compute: \<open>split\<close> against a recursive tokenizer, the pieces of \<open>rsplit\<close>,
  and the comparison and update of files against the contents as a whole.
\<close>

section \<open>Splitting\<close>

text \<open>The pieces between delimiters; the last of at most \<open>m\<close> is the rest of the source.\<close>

function pieces :: "(char \<Rightarrow> bool) \<Rightarrow> int \<Rightarrow> string \<Rightarrow> string list" where
  "pieces P m s =
     (case dropWhile P s of
        [] \<Rightarrow> []
      | c # cs \<Rightarrow> if m = 1 then [c # cs]
          else takeWhile (\<lambda>x. \<not> P x) (c # cs) # pieces P (m - 1) (dropWhile (\<lambda>x. \<not> P x) (c # cs)))"
  by pat_completeness auto

lemma piece_shrinks:
  assumes "dropWhile P s = c # cs"
  shows "\<not> P c" "length (dropWhile (\<lambda>x. \<not> P x) (c # cs)) < length s"
proof -
  show "\<not> P c" using assms by (simp add: dropWhile_eq_Cons_conv)
  then have "length (dropWhile (\<lambda>x. \<not> P x) (c # cs)) \<le> length cs" by (simp add: length_dropWhile_le)
  also have "\<dots> < length (dropWhile P s)" by (simp add: assms)
  also have "\<dots> \<le> length s" by (rule length_dropWhile_le)
  finally show "length (dropWhile (\<lambda>x. \<not> P x) (c # cs)) < length s" .
qed

termination pieces
  by (relation "measure (\<lambda>(P, m, s). length s)") (auto dest: piece_shrinks(2))

declare pieces.simps [simp del]

lemma pieces_Nil: "pieces P m s = [] \<longleftrightarrow> (\<forall>c \<in> set s. P c)"
proof -
  have "pieces P m s = [] \<longleftrightarrow> dropWhile P s = []" by (cases "dropWhile P s") (simp_all add: pieces.simps del: dropWhile_eq_Nil_conv)
  then show ?thesis by simp
qed

lemma find_from_first:
  "find_from P s pos =
    (case dropWhile (\<lambda>c. \<not> P c) (drop pos s) of [] \<Rightarrow> None
     | c # cs \<Rightarrow> Some (length s - length (c # cs)))"
proof (cases "dropWhile (\<lambda>c. \<not> P c) (drop pos s)")
  case Nil
  then have "find_from P s pos = None" by (simp add: find_from_None)
  then show ?thesis unfolding Nil by simp
next
  case (Cons c cs)
  let ?t = "takeWhile (\<lambda>c. \<not> P c) (drop pos s)"
  have s: "drop pos s = ?t @ c # cs" using Cons by (metis takeWhile_dropWhile_id)
  have "\<exists>x \<in> set (drop pos s). P x" using Cons by (metis dropWhile_eq_Nil_conv list.distinct(1))
  then have "find_from P s pos = Some (pos + length ?t)"
    by (simp add: find_from_def find_idx_takeWhile)
  moreover have "length (drop pos s) = length ?t + length (c # cs)"
    using arg_cong [OF s, of length] by (simp only: length_append)
  ultimately show ?thesis using Cons by simp
qed

lemma drop_to_suffix: "drop n s = t @ u \<Longrightarrow> drop (length s - length u) s = u"
  by (metis append_eq_conv_conj append_take_drop_id diff_diff_cancel drop_append length_append length_drop rev_drop rev_rev_ident take_rev le_add2 add_diff_cancel_right' append.assoc)

lemma split_loop_pieces:
  "split_loop s d m pos acc = acc @ pieces (\<lambda>c. c \<in> set d) (m - int (length acc)) (drop pos s)"
proof (induction s d m pos acc rule: split_loop.induct)
  case (1 s d m pos acc)
  let ?P = "\<lambda>c. c \<in> set d"
  show ?case
  proof (cases "dropWhile ?P (drop pos s)")
    case Nil
    have "find_from (\<lambda>c. c \<notin> set d) s pos = None" unfolding find_from_first by (simp only: not_not Nil list.case)
    moreover have "pieces ?P k (drop pos s) = []" for k by (subst pieces.simps) (simp only: Nil list.case)
    ultimately show ?thesis by (subst split_loop.simps) simp
  next
    case (Cons c cs)
    let ?b = "length s - length (c # cs)"
    have b: "find_from (\<lambda>c. c \<notin> set d) s pos = Some ?b" using Cons by (simp add: find_from_first)
    have at_b: "drop ?b s = c # cs"
      by (rule drop_to_suffix [of pos _ "takeWhile ?P (drop pos s)"]) (metis Cons takeWhile_dropWhile_id)
    show ?thesis
    proof (cases "m - int (length acc) = 1")
      case True
      then have lim: "m \<noteq> -1 \<and> int (length acc + 1) = m" by simp
      show ?thesis using b lim at_b True Cons by (subst split_loop.simps, subst pieces.simps) simp
    next
      case False
      then have lim: "\<not> (m \<noteq> -1 \<and> int (length acc + 1) = m)" by simp
      let ?t = "takeWhile (\<lambda>x. \<not> ?P x) (c # cs)" and ?u = "dropWhile (\<lambda>x. \<not> ?P x) (c # cs)"
      show ?thesis
      proof (cases ?u)
        case Nil
        then have e: "find_from (\<lambda>c. c \<in> set d) s ?b = None" using at_b by (simp add: find_from_first)
        have "?t = c # cs" using Nil by (metis append_Nil2 takeWhile_dropWhile_id)
        moreover have "pieces ?P k [] = []" for k by (simp add: pieces.simps)
        ultimately show ?thesis using b lim e at_b False Cons Nil
          by (subst split_loop.simps, subst pieces.simps) simp
      next
        case (Cons c' cs')
        let ?e = "length s - length (c' # cs')"
        have e: "find_from (\<lambda>c. c \<in> set d) s ?b = Some ?e" using at_b Cons by (simp add: find_from_first)
        have ct: "c # cs = ?t @ c' # cs'" using Cons by (metis takeWhile_dropWhile_id)
        have at_e: "drop ?e s = c' # cs'" by (rule drop_to_suffix [of ?b _ ?t]) (simp only: at_b, rule ct)
        have "?e - ?b = length ?t"
        proof -
          have "length (c # cs) = length ?t + length (c' # cs')" using arg_cong [OF ct, of length] by (simp only: length_append)
          moreover have "length (c # cs) \<le> length s" by (metis at_b length_drop diff_le_self)
          ultimately show ?thesis by linarith
        qed
        then have "substr s ?b (?e - ?b) = ?t" by (simp only: substr_def at_b) (metis append_eq_conv_conj ct)
        then have "split_loop s d m pos acc = split_loop s d m ?e (acc @ [?t])"
          by (subst split_loop.simps) (simp only: b option.case if_not_P [OF lim] e)
        also have "\<dots> = acc @ ?t # pieces ?P (m - int (length acc) - 1) (c' # cs')"
          using 1 [OF b lim e] \<open>substr s ?b (?e - ?b) = ?t\<close> at_e by (simp add: algebra_simps)
        finally show ?thesis using \<open>dropWhile ?P (drop pos s) = c # cs\<close> False Cons
          by (subst pieces.simps) simp
      qed
    qed
  qed
qed

text \<open>Splitting a string gives its pieces between delimiters, none of them empty, and at most as many as the
  limit, the last of which is then the rest; it throws for an empty string and for one of delimiters only.\<close>

theorem split_gives_pieces:
  "split_string source delimiter m =
    (if source = [] then Inl SourceEmpty
     else if set source \<subseteq> set delimiter then Inl (NoDelimiter source)
     else Inr (pieces (\<lambda>c. c \<in> set delimiter) m source))"
proof -
  have loop: "split_loop source delimiter m 0 [] = pieces (\<lambda>c. c \<in> set delimiter) m source"
    by (simp add: split_loop_pieces)
  have "pieces (\<lambda>c. c \<in> set delimiter) m source = [] \<longleftrightarrow> set source \<subseteq> set delimiter"
    by (auto simp: pieces_Nil)
  then show ?thesis by (simp add: split_string_def loop)
qed

text \<open>Without a limit no character but the delimiters is lost.\<close>

lemma pieces_concat: "m \<le> 0 \<Longrightarrow> concat (pieces P m s) = filter (\<lambda>c. \<not> P c) s \<and> (\<forall>p \<in> set (pieces P m s). p \<noteq> [] \<and> filter P p = [])"
proof (induction P m s rule: pieces.induct)
  case (1 P m s)
  show ?case
  proof (cases "dropWhile P s")
    case Nil
    then have "pieces P m s = []" "filter (\<lambda>c. \<not> P c) s = []" by (simp_all add: pieces_Nil filter_empty_conv)
    then show ?thesis by simp
  next
    case (Cons c cs)
    let ?t = "takeWhile (\<lambda>x. \<not> P x) (c # cs)" and ?u = "dropWhile (\<lambda>x. \<not> P x) (c # cs)"
    have p: "pieces P m s = ?t # pieces P (m - 1) ?u"
      using Cons 1(2) by (subst pieces.simps) simp
    have "filter (\<lambda>c. \<not> P c) s = filter (\<lambda>c. \<not> P c) (takeWhile P s) @ filter (\<lambda>c. \<not> P c) (dropWhile P s)"
      by (metis filter_append takeWhile_dropWhile_id)
    moreover have "filter (\<lambda>c. \<not> P c) (takeWhile P s) = []" by (auto simp: filter_empty_conv dest: set_takeWhileD)
    moreover have "filter (\<lambda>c. \<not> P c) (c # cs) = filter (\<lambda>c. \<not> P c) ?t @ filter (\<lambda>c. \<not> P c) ?u"
      by (metis filter_append takeWhile_dropWhile_id)
    moreover have "filter (\<lambda>c. \<not> P c) ?t = ?t" by (rule filter_True) (blast dest: set_takeWhileD)
    ultimately have f: "filter (\<lambda>c. \<not> P c) s = ?t @ filter (\<lambda>c. \<not> P c) ?u" by (simp only: Cons append_Nil)
    have "?t \<noteq> []" "filter P ?t = []" using piece_shrinks(1) [OF Cons] by (auto simp: filter_empty_conv dest: set_takeWhileD)
    then show ?thesis using 1(1) [OF Cons _ ] 1(2) unfolding p f by simp
  qed
qed

section \<open>Splitting from the right\<close>

definition delimiter_positions :: "string \<Rightarrow> string \<Rightarrow> nat list" where
  "delimiter_positions delimiter source = filter (\<lambda>i. source ! i \<in> set delimiter) [0..<length source]"

lemma rsplit_loop_suffixes:
  "n \<le> length source \<Longrightarrow> rsplit_loop source delimiter (-1) (take n source) acc =
    map (\<lambda>i. drop (i + 1) source) (filter (\<lambda>i. source ! i \<in> set delimiter) [0..<n]) @ acc"
proof (induction n arbitrary: acc rule: less_induct)
  case (less n)
  let ?D = "\<lambda>c. c \<in> set delimiter"
  show ?case
  proof (cases "find_last ?D (take n source)")
    case None
    then have none: "\<not> ?D (source ! i)" if "i < n" for i
    proof -
      have "source ! i \<in> set (take n source)" using that less.prems by (metis in_set_conv_nth length_take min.absorb2 nth_take)
      then show ?thesis using None by (auto simp: find_last_None)
    qed
    then have "filter (\<lambda>i. ?D (source ! i)) [0..<n] = []" by (auto simp: filter_empty_conv)
    then show ?thesis using None by (subst rsplit_loop.simps) simp
  next
    case (Some i)
    have i: "i < n" "?D (source ! i)" "\<And>j. i < j \<Longrightarrow> j < n \<Longrightarrow> \<not> ?D (source ! j)"
      using find_last_Some [OF Some] less.prems by auto
    have "filter (\<lambda>i. ?D (source ! i)) [Suc i..<n] = []" using i(3) by (auto simp: filter_empty_conv)
    moreover have "[0..<n] = [0..<i] @ i # [Suc i..<n]"
      using upt_add_eq_append [of 0 i "n - i"] upt_conv_Cons [OF i(1)] i(1) by simp
    ultimately have f: "filter (\<lambda>i. ?D (source ! i)) [0..<n] = filter (\<lambda>i. ?D (source ! i)) [0..<i] @ [i]" using i(2) by simp
    have "take i (take n source) = take i source" using i(1) by (simp add: min_def)
    then show ?thesis using Some less.IH [OF i(1)] less.prems i(1) unfolding f
      by (subst rsplit_loop.simps) (simp add: substr_def)
  qed
qed

text \<open>\<open>rsplit\<close> does not cut the string into pieces: each of its results runs to the end of the source, so the
  pieces contain the later ones, and the text before the first delimiter is missing.\<close>

theorem rsplit_gives_suffixes:
  "rsplit source delimiter (-1) =
    (if source = [] then Inl SourceEmpty
     else if delimiter_positions delimiter source = [] then Inl (NoDelimiter source)
     else Inr (map (\<lambda>i. drop (i + 1) source) (delimiter_positions delimiter source)))"
  using rsplit_loop_suffixes [of "length source" source delimiter "[]"]
  by (simp add: rsplit_def delimiter_positions_def)

text \<open>\<open>trimPrefix\<close> keeps the last character of the prefix, and throws for an empty prefix.\<close>

theorem trim_prefix_keeps_last_character:
  assumes "length rest + 1 < 2 ^ 64"
  shows "trim_prefix (prefix @ rest) prefix = (if prefix = [] then Inl SubstrRange else Inr (last prefix # rest))"
proof (cases prefix rule: rev_cases)
  case Nil
  then show ?thesis using assms by (simp add: trim_prefix_def starts_with_def size_sub_def)
next
  case (snoc p c)
  then show ?thesis by (simp add: trim_prefix_def starts_with_def size_sub_def)
qed

theorem trim_prefix_keeps_last_character_witness: "trim_prefix ''abcd'' ''ab'' = Inr ''bcd''"
  using trim_prefix_keeps_last_character [of "''cd''" "''ab''"] by simp

lemma trim_suffix_removes: "trim_suffix (rest @ suffix) suffix = Inr rest"
  by (simp add: trim_suffix_def ends_with_iff substr_def)

section \<open>Files\<close>

lemma block_size: "0 < BLOCK_SIZE" by (simp add: BLOCK_SIZE_def)

lemma equal_in_blocks:
  "c1 = c2 \<longleftrightarrow> take BLOCK_SIZE c1 = take BLOCK_SIZE c2 \<and>
    (length (take BLOCK_SIZE c1) = BLOCK_SIZE \<longrightarrow> drop BLOCK_SIZE c1 = drop BLOCK_SIZE c2)"
  if "length c1 = length c2"
proof (cases "BLOCK_SIZE \<le> length c1")
  case True
  then have "length (take BLOCK_SIZE c1) = BLOCK_SIZE" by simp
  then show ?thesis by (metis append_take_drop_id)
next
  case False
  then show ?thesis using that by simp
qed

lemma same_blocks_iff: "length c1 = length c2 \<Longrightarrow> same_blocks c1 c2 \<longleftrightarrow> c1 = c2"
proof (induction c1 c2 rule: same_blocks.induct)
  case (1 c1 c2)
  let ?b1 = "take BLOCK_SIZE c1" and ?b2 = "take BLOCK_SIZE c2"
  have len: "length ?b2 = length ?b1" using 1(2) by simp
  have step: "same_blocks c1 c2 \<longleftrightarrow> ?b1 = ?b2 \<and> (length ?b1 = BLOCK_SIZE \<longrightarrow> same_blocks (drop BLOCK_SIZE c1) (drop BLOCK_SIZE c2))"
    unfolding same_blocks.simps [of c1 c2] Let_def using len by argo
  have "same_blocks (drop BLOCK_SIZE c1) (drop BLOCK_SIZE c2) \<longleftrightarrow> drop BLOCK_SIZE c1 = drop BLOCK_SIZE c2"
    if "?b1 = ?b2" "length ?b1 = BLOCK_SIZE"
    by (rule 1(1) [OF refl refl]) (use that len 1(2) in simp_all)
  then show ?case unfolding step equal_in_blocks [OF 1(2)] by blast
qed

lemma unchanged_blocks_iff: "length old = length content \<Longrightarrow> unchanged_blocks old content \<longleftrightarrow> old = content"
proof (induction old content rule: unchanged_blocks.induct)
  case (1 old content)
  let ?b = "take BLOCK_SIZE old"
  have len: "take (length ?b) content = take BLOCK_SIZE content" using 1(2) by (simp add: min_def)
  have step: "unchanged_blocks old content \<longleftrightarrow> ?b = take BLOCK_SIZE content \<and>
      (length ?b = BLOCK_SIZE \<longrightarrow> unchanged_blocks (drop BLOCK_SIZE old) (drop BLOCK_SIZE content))"
    unfolding unchanged_blocks.simps [of old content] Let_def len by argo
  have "unchanged_blocks (drop BLOCK_SIZE old) (drop BLOCK_SIZE content) \<longleftrightarrow> drop BLOCK_SIZE old = drop BLOCK_SIZE content"
    if "?b = take BLOCK_SIZE content" "length ?b = BLOCK_SIZE"
    by (rule 1(1) [OF refl]) (use that len 1(2) in simp_all)
  then show ?case unfolding step equal_in_blocks [OF 1(2)] by blast
qed

text \<open>Two files have the same content for the block-wise comparison of either library exactly when both can be
  read and are equal.\<close>

theorem file_comparison_is_equality:
  "(have_files_same_content env fs p q \<longleftrightarrow> open_read env fs p \<noteq> None \<and> open_read env fs p = open_read env fs q) \<and>
   have_files_same_content_noexcept env fs p q = have_files_same_content env fs p q"
proof (cases "open_read env fs p")
  case None
  then show ?thesis by (simp add: have_files_same_content_def have_files_same_content_noexcept_def)
next
  case (Some c1)
  show ?thesis
  proof (cases "open_read env fs q")
    case None
    then show ?thesis using Some by (simp add: have_files_same_content_def have_files_same_content_noexcept_def)
  next
    case (Some c2)
    have "length c1 = length c2 \<and> (length c1 = 0 \<or> same_blocks c1 c2) \<longleftrightarrow> c1 = c2"
      using same_blocks_iff [of c1 c2] by auto
    then show ?thesis using Some \<open>open_read env fs p = Some c1\<close>
      by (auto simp: have_files_same_content_def have_files_same_content_noexcept_def)
  qed
qed

text \<open>A file that was updated successfully holds the new content, no other file was touched, and a file that
  held it already was not written; an update that fails leaves a part of the content at most.\<close>

theorem updated_file_holds_content:
  assumes "CHR 0x00 \<notin> set content" "update_file env path content fs = (ok, fs')"
  shows "(\<forall>p. p \<noteq> path \<longrightarrow> fs' p = fs p) \<and>
    (if ok then fs' path = Some content else fs' path = fs path \<or> fs' path = Some (take (fe_stored env path) content)) \<and>
    (open_read env fs path = Some content \<longrightarrow> ok \<and> fs' = fs)"
proof -
  have c: "takeWhile (\<lambda>c. c \<noteq> CHR 0x00) content = content" using assms(1) by (auto simp: takeWhile_eq_all_conv)
  have saved: "(\<forall>p. p \<noteq> path \<longrightarrow> g p = fs p) \<and>
      (if b then g path = Some content else g path = fs path \<or> g path = Some (take (fe_stored env path) content))"
    if "save_file env path content fs = (b, g)" for b g
    using that by (auto simp: save_file_def Let_def split: if_splits)
  show ?thesis
  proof (cases "open_read env fs path")
    case None
    then show ?thesis using assms(2) saved by (simp add: update_file_def c)
  next
    case (Some old)
    then have old: "fs path = Some old" by (simp add: open_read_def split: if_splits)
    show ?thesis
    proof (cases "old = content")
      case True
      then show ?thesis using assms(2) Some old by (auto simp: update_file_def c Let_def unchanged_blocks_iff)
    next
      case False
      then have "length content > 0 \<and> \<not> unchanged_blocks old content" if "length old = length content"
        using that unchanged_blocks_iff [OF that] by auto
      then have "update_file env path content fs = save_file env path content fs"
        using Some by (auto simp: update_file_def c Let_def)
      then have "save_file env path content fs = (ok, fs')" using assms(2) by simp
      from saved [OF this] show ?thesis using False Some by simp
    qed
  qed
qed

theorem updated_file_holds_content_witness:
  "let env = \<lparr>fe_readable = (\<lambda>_. True), fe_writable = (\<lambda>_. True), fe_stored = (\<lambda>_. 100)\<rparr> in
   snd (update_file env ''f'' ''new'' [''f'' \<mapsto> ''old'', ''g'' \<mapsto> ''x'']) ''f'' = Some ''new''"
proof -
  let ?env = "\<lparr>fe_readable = (\<lambda>_. True), fe_writable = (\<lambda>_. True), fe_stored = (\<lambda>_. 100)\<rparr>"
  obtain ok fs' where u: "update_file ?env ''f'' ''new'' [''f'' \<mapsto> ''old'', ''g'' \<mapsto> ''x''] = (ok, fs')" by fastforce
  have "ok" using u by (auto simp: update_file_def open_read_def save_file_def Let_def unchanged_blocks_iff)
  then show ?thesis using updated_file_holds_content [OF _ u] u by (simp add: Let_def)
qed

end
