(* ===== verification/StateError.thy ===== *)
theory StateError
  imports Prelude
begin

text \<open>
  Operations on a state that can throw: an exception leaves the state as the steps before it have changed it.
\<close>

type_synonym ('s, 'e, 'a) action = "'s \<Rightarrow> ('e + 'a) \<times> 's"

definition give :: "'a \<Rightarrow> ('s, 'e, 'a) action" where
  "give a s = (Inr a, s)"

definition throw :: "'e \<Rightarrow> ('s, 'e, 'a) action" where
  "throw e s = (Inl e, s)"

definition then_do :: "('s, 'e, 'a) action \<Rightarrow> ('a \<Rightarrow> ('s, 'e, 'b) action) \<Rightarrow> ('s, 'e, 'b) action" where
  "then_do m f s = (case m s of (Inl e, s') \<Rightarrow> (Inl e, s') | (Inr a, s') \<Rightarrow> f a s')"

text \<open>An operation that throws without changing the state, and one that only reads it.\<close>

definition lift_change :: "('s \<Rightarrow> 'e + 'a \<times> 's) \<Rightarrow> ('s, 'e, 'a) action" where
  "lift_change f s = (case f s of Inl e \<Rightarrow> (Inl e, s) | Inr (a, s') \<Rightarrow> (Inr a, s'))"

definition ask :: "('s \<Rightarrow> 'e + 'a) \<Rightarrow> ('s, 'e, 'a) action" where
  "ask f s = (f s, s)"

primrec each :: "('x \<Rightarrow> ('s, 'e, unit) action) \<Rightarrow> 'x list \<Rightarrow> ('s, 'e, unit) action" where
  "each f [] = give ()"
| "each f (x # xs) = then_do (f x) (\<lambda>_. each f xs)"

lemma action_simps [simp]:
  "give a s = (Inr a, s)" "throw e s = (Inl e, s)" "ask g s = (g s, s)"
  "then_do (give a) f = f a" "then_do (throw e) f = throw e"
  by (simp_all add: give_def throw_def ask_def then_do_def fun_eq_iff)

lemma then_do_Inr: "then_do m f s = (Inr b, s') \<longleftrightarrow> (\<exists>a t. m s = (Inr a, t) \<and> f a t = (Inr b, s'))"
  by (auto simp: then_do_def split: prod.splits sum.splits)

lemma then_do_Inl:
  "then_do m f s = (Inl e, s') \<longleftrightarrow> m s = (Inl e, s') \<or> (\<exists>a t. m s = (Inr a, t) \<and> f a t = (Inl e, s'))"
  by (auto simp: then_do_def split: prod.splits sum.splits)

text \<open>A relation between the states before and after that every step keeps.\<close>

definition keeps_state :: "('s \<Rightarrow> 's \<Rightarrow> bool) \<Rightarrow> ('s, 'e, 'a) action \<Rightarrow> bool" where
  "keeps_state R m \<longleftrightarrow> (\<forall>s. R s (snd (m s)))"

lemma keeps_give [intro]: "reflp R \<Longrightarrow> keeps_state R (give a)"
  by (simp add: keeps_state_def reflp_def)

lemma keeps_throw [intro]: "reflp R \<Longrightarrow> keeps_state R (throw e)"
  by (simp add: keeps_state_def reflp_def)

lemma keeps_ask [intro]: "reflp R \<Longrightarrow> keeps_state R (ask f)"
  by (simp add: keeps_state_def reflp_def)

lemma keeps_then:
  assumes "transp R" "keeps_state R m" "\<And>a. keeps_state R (f a)"
  shows "keeps_state R (then_do m f)"
  unfolding keeps_state_def
proof
  fix s
  show "R s (snd (then_do m f s))"
  proof (cases "m s")
    case (Pair r t)
    then have t: "R s t" using assms(2) by (auto simp: keeps_state_def dest: spec [of _ s])
    show ?thesis
    proof (cases r)
      case (Inr a)
      have "R t (snd (f a t))" using assms(3) [of a] by (simp add: keeps_state_def)
      then show ?thesis using Pair Inr transpD [OF assms(1) t] by (simp add: then_do_def)
    qed (simp add: then_do_def Pair t)
  qed
qed

lemma keeps_each:
  assumes "reflp R" "transp R" "\<And>x. x \<in> set xs \<Longrightarrow> keeps_state R (f x)"
  shows "keeps_state R (each f xs)"
  using assms(3)
proof (induction xs)
  case (Cons x xs)
  then have "keeps_state R (f x)" "keeps_state R (each f xs)" by simp_all
  then show ?case using keeps_then [OF assms(2)] by simp
qed (simp add: keeps_give assms(1))

lemma keeps_lift:
  assumes "reflp R" "\<And>s a s'. f s = Inr (a, s') \<Longrightarrow> R s s'"
  shows "keeps_state R (lift_change f)"
  using assms by (auto simp: keeps_state_def lift_change_def reflp_def split: sum.splits prod.splits)

text \<open>The errors an action can throw.\<close>

definition throws_only :: "('e \<Rightarrow> bool) \<Rightarrow> ('s, 'e, 'a) action \<Rightarrow> bool" where
  "throws_only P m \<longleftrightarrow> (\<forall>s e t. m s = (Inl e, t) \<longrightarrow> P e)"

lemma throws_only_give [intro]: "throws_only P (give a)"
  by (simp add: throws_only_def)

lemma throws_only_ask: "(\<And>s e. f s = Inl e \<Longrightarrow> P e) \<Longrightarrow> throws_only P (ask f)"
  by (simp add: throws_only_def)

lemma throws_only_lift: "(\<And>s e. f s = Inl e \<Longrightarrow> P e) \<Longrightarrow> throws_only P (lift_change f)"
  by (auto simp: throws_only_def lift_change_def split: sum.splits)

lemma throws_only_then: "throws_only P m \<Longrightarrow> (\<And>a. throws_only P (f a)) \<Longrightarrow> throws_only P (then_do m f)"
  unfolding throws_only_def then_do_Inl by blast

end
