(* ===== verification/ModulePackages.thy ===== *)
theory ModulePackages
  imports StateError CppString Loggers TextFiles
begin

text \<open>
  A package of a module as the solver sees it (dnf-4/libdnf/module/ModulePackage.cpp): its name, provides,
  requires and conflicts, its profiles, and the package that stands for the platform. The parser of rich
  dependencies and \<open>fnmatch\<close> are arguments.
\<close>

section \<open>The package\<close>

record module_package =
  mp_id :: nat
  mp_name :: string
  mp_stream :: string
  mp_version :: int
  mp_context :: string
  mp_arch :: "string option"
  mp_repo :: string
  mp_yaml :: string
  mp_profiles :: "(string \<times> string list) list"
  mp_requires :: "(string \<times> string list) list list"

definition get_version :: "module_package \<Rightarrow> string" where
  "get_version m = decimal_int (mp_version m)"

definition get_arch :: "module_package \<Rightarrow> string" where
  "get_arch m = (case mp_arch m of None \<Rightarrow> [] | Some arch \<Rightarrow> arch)"

definition get_name_stream :: "module_package \<Rightarrow> string" where
  "get_name_stream m = mp_name m @ '':'' @ mp_stream m"

definition get_name_stream_version :: "module_package \<Rightarrow> string" where
  "get_name_stream_version m = get_name_stream m @ '':'' @ get_version m"

definition get_full_identifier :: "module_package \<Rightarrow> string" where
  "get_full_identifier m =
     mp_name m @ '':'' @ mp_stream m @ '':'' @ get_version m @ '':'' @ mp_context m @ '':'' @ get_arch m"

definition is_glob_pattern :: "string \<Rightarrow> bool" where
  "is_glob_pattern pattern \<longleftrightarrow> (\<exists>c \<in> set pattern. c \<in> set ''*[?'')"

definition named_profiles :: "(string \<Rightarrow> string \<Rightarrow> bool) \<Rightarrow> string \<Rightarrow> module_package \<Rightarrow> (string \<times> string list) list" where
  "named_profiles fnmatch name m =
     (let glob = is_glob_pattern name in
      filter (\<lambda>(key, _). glob \<and> fnmatch name key \<or> name = key) (mp_profiles m))"

section \<open>The solvable\<close>

record solvable =
  sv_name :: string
  sv_evr :: string
  sv_arch :: string
  sv_provides :: "string list"
  sv_requires :: "string list"
  sv_conflicts :: "string list"

definition module_dep :: "string \<Rightarrow> string" where
  "module_dep text = ''module('' @ text @ '')''"

definition set_solvable :: "string \<Rightarrow> string \<Rightarrow> string \<Rightarrow> string \<Rightarrow> string option \<Rightarrow> solvable" where
  "set_solvable name stream version context arch =
     \<lparr>sv_name = name @ '':'' @ stream @ '':'' @ version @ '':'' @ context,
      sv_evr = ''0'',
      sv_arch = (case arch of None \<Rightarrow> ''noarch'' | Some a \<Rightarrow> a),
      sv_provides = [module_dep name, module_dep (name @ '':'' @ stream), module_dep (name @ '':'' @ stream @ '':'' @ version)],
      sv_requires = [], sv_conflicts = []\<rparr>"

text \<open>The streams of one requirement: those with a dash become conflicts.\<close>

primrec split_streams :: "string \<Rightarrow> string list \<Rightarrow> string list \<times> string list" where
  "split_streams name [] = ([], [])"
| "split_streams name (stream # streams) =
     (case split_streams name streams of (conflicts, required) \<Rightarrow>
        (case find_from (\<lambda>c. c = CHR ''-'') stream 0 of
           Some _ \<Rightarrow> (module_dep (name @ '':'' @ drop 1 stream) # conflicts, required)
         | None \<Rightarrow> (conflicts, module_dep (name @ '':'' @ stream) # required)))"

definition require_text :: "(string \<Rightarrow> bool) \<Rightarrow> string \<Rightarrow> string list \<Rightarrow> string + string" where
  "require_text rich_ok name required =
     (case required of
        [] \<Rightarrow> Inr (module_dep name)
      | r # rest \<Rightarrow>
          (if rest = [] then Inr r
           else
             (let text = ''('' @ foldl (\<lambda>a b. a @ '' or '' @ b) r rest @ '')'' in
              if rich_ok text then Inr text else Inl ''Cannot parse module requires'')))"

definition add_requirement :: "(string \<Rightarrow> bool) \<Rightarrow> string \<times> string list \<Rightarrow> solvable \<Rightarrow> string + solvable" where
  "add_requirement rich_ok single sv =
     (case split_streams (fst single) (snd single) of (conflicts, required) \<Rightarrow>
        and_then (require_text rich_ok (fst single) required) (\<lambda>text.
          Inr (sv\<lparr>sv_conflicts := sv_conflicts sv @ conflicts, sv_requires := sv_requires sv @ [text]\<rparr>)))"

primrec add_requirements :: "(string \<Rightarrow> bool) \<Rightarrow> (string \<times> string list) list \<Rightarrow> solvable \<Rightarrow> string + solvable" where
  "add_requirements rich_ok [] sv = Inr sv"
| "add_requirements rich_ok (r # rs) sv = and_then (add_requirement rich_ok r sv) (add_requirements rich_ok rs)"

definition create_dependencies :: "(string \<Rightarrow> bool) \<Rightarrow> module_package \<Rightarrow> solvable \<Rightarrow> string + solvable" where
  "create_dependencies rich_ok m = add_requirements rich_ok (concat (mp_requires m))"

definition module_solvable :: "(string \<Rightarrow> bool) \<Rightarrow> module_package \<Rightarrow> string + solvable" where
  "module_solvable rich_ok m =
     create_dependencies rich_ok m
       (set_solvable (mp_name m) (mp_stream m) (get_version m) (mp_context m) (mp_arch m))"

definition add_stream_conflict :: "module_package \<Rightarrow> solvable \<Rightarrow> solvable" where
  "add_stream_conflict package sv = sv\<lparr>sv_conflicts := sv_conflicts sv @ [module_dep (get_name_stream package)]\<rparr>"

text \<open>\<open>ModulePackageContainer::createConflictsBetweenStreams\<close>\<close>

definition create_conflicts_between_streams :: "(module_package \<times> solvable) list \<Rightarrow> (module_package \<times> solvable) list" where
  "create_conflicts_between_streams ms =
     map (\<lambda>(m, sv).
       (m, fold (\<lambda>(inner, _) sv.
              if mp_name m = mp_name inner \<and> mp_stream m \<noteq> mp_stream inner then add_stream_conflict inner sv else sv) ms sv)) ms"

section \<open>The platform\<close>

definition parse_platform :: "string \<Rightarrow> string \<times> string" where
  "parse_platform platform =
     (case find_from (\<lambda>c. c = CHR '':'') platform 0 of
        None \<Rightarrow> ([], [])
      | Some index \<Rightarrow> (substr platform 0 index, drop (Suc index) platform))"

definition contains :: "string \<Rightarrow> string \<Rightarrow> bool" where
  "contains text pattern \<longleftrightarrow> (\<exists>i \<in> set [0..<Suc (length text)]. starts_with_at text i pattern)"

text \<open>\<open>File::readLine\<close> returns a line with its end, up to a zero byte.\<close>

function read_lines :: "string \<Rightarrow> string list" where
  "read_lines content =
     (if content = [] then []
      else (let line = takeWhile (\<lambda>c. c \<noteq> CHR 0x0A) content; rest = drop (length line) content in
            takeWhile (\<lambda>c. c \<noteq> CHR 0x00) (line @ take 1 rest) # read_lines (drop 1 rest)))"
  by pat_completeness auto

termination read_lines
proof (relation "measure length", goal_cases)
  case (2 content line rest)
  then show ?case by (cases content) (auto simp: takeWhile_eq_all_conv)
qed simp

declare read_lines.simps [simp del]

fun platform_of_lines :: "string list \<Rightarrow> string + string \<times> string" where
  "platform_of_lines [] = Inr ([], [])"
| "platform_of_lines (line # lines) =
     (if contains line ''PLATFORM_ID'' then
        (case find_from (\<lambda>c. c = CHR ''='') line 0 of
           None \<Rightarrow> Inl ''=''
         | Some equal \<Rightarrow>
             (case find_from (\<lambda>c. c = CHR 0x22) line (Suc equal) of
                None \<Rightarrow> Inl [CHR 0x22]
              | Some start \<Rightarrow>
                  (case find_from (\<lambda>c. c = CHR '':'') line (Suc equal) of
                     None \<Rightarrow> Inl '':''
                   | Some colon \<Rightarrow>
                       (case find_from (\<lambda>c. c = CHR 0x22) line (Suc colon) of
                          None \<Rightarrow> Inl [CHR 0x22]
                        | Some end_pos \<Rightarrow>
                            Inr (substr line (Suc start) (size_sub (size_sub colon start) 1),
                                 substr line (Suc colon) (size_sub (size_sub end_pos colon) 1))))))
      else platform_of_lines lines)"

definition get_platform_stream :: "(string \<Rightarrow> string + string) \<Rightarrow> string \<Rightarrow> string + string \<times> string" where
  "get_platform_stream read_file path = and_then (read_file path) (\<lambda>content. platform_of_lines (read_lines content))"

definition valid_platform :: "string \<times> string \<Rightarrow> bool" where
  "valid_platform p \<longleftrightarrow> fst p \<noteq> [] \<and> snd p \<noteq> []"

text \<open>What the provides of one kind of packages tell: nothing when there are several.\<close>

definition provided_platform :: "string list \<Rightarrow> string \<times> string" where
  "provided_platform provides = (case provides of [p] \<Rightarrow> parse_platform p | _ \<Rightarrow> ([], []))"

definition release_path :: "string \<Rightarrow> string \<Rightarrow> string" where
  "release_path install_root path =
     (if install_root = ''/'' then path
      else (if last install_root = CHR ''/'' then substr install_root 0 (length install_root - 1) else install_root) @ path)"

primrec platform_of_files :: "(string \<Rightarrow> string + string) \<Rightarrow> string \<Rightarrow> string list \<Rightarrow> string \<times> string" where
  "platform_of_files read_file install_root [] = ([], [])"
| "platform_of_files read_file install_root (path # paths) =
     (let platform = (case get_platform_stream read_file (release_path install_root path) of Inl _ \<Rightarrow> ([], []) | Inr p \<Rightarrow> p) in
      if valid_platform platform then platform else platform_of_files read_file install_root paths)"

text \<open>\<open>createPlatformSolvable\<close>: the argument, the available packages, the installed ones, the release files. The
  provides of both kinds of packages are given when there is a sack. A second parse that fails leaves the pair of the first.\<close>

definition create_platform_solvable ::
  "(string \<Rightarrow> string + string) \<Rightarrow> (string list \<times> string list) option \<Rightarrow> string list \<Rightarrow> string \<Rightarrow> string option \<Rightarrow>
    string + solvable" where
  "create_platform_solvable read_file provides paths install_root platform_module =
     and_then
       (case platform_module of
          Some text \<Rightarrow>
            (if valid_platform (parse_platform text) then Inr (parse_platform text)
             else Inl (''Invalid format of Platform module: '' @ text))
        | None \<Rightarrow>
            (case provides of
               None \<Rightarrow> Inr ([], [])
             | Some (available, installed) \<Rightarrow>
                 (let parsed = provided_platform available in
                  if valid_platform parsed then Inr parsed
                  else
                    (let parsed = (if length installed = 1 then parse_platform (hd installed) else parsed) in
                     if valid_platform parsed then Inr parsed else Inr ([], [])))))
       (\<lambda>found.
          let platform = (if valid_platform found then found else platform_of_files read_file install_root paths) in
          if valid_platform platform
          then Inr (set_solvable (fst platform) (snd platform) ''0'' ''00000000'' (Some ''noarch''))
          else Inl ''No valid Platform ID detected'')"

chapter \<open>Facts about packages of modules\<close>

text \<open>
  Two streams of one module always exclude each other in the solver, the platform is read back from a release
  file, and streams whose names have a dash are taken for excluded ones.
\<close>

section \<open>Conflicts between streams\<close>

lemma stream_conflicts_added:
  "sv_conflicts (fold (\<lambda>(inner, y) sv.
       if mp_name m = mp_name inner \<and> mp_stream m \<noteq> mp_stream inner then add_stream_conflict inner sv else sv) ms sv) =
     sv_conflicts sv @ map (\<lambda>(inner, y). module_dep (get_name_stream inner))
       (filter (\<lambda>(inner, y). mp_name m = mp_name inner \<and> mp_stream m \<noteq> mp_stream inner) ms)"
  by (induction ms arbitrary: sv) (simp_all add: add_stream_conflict_def split: prod.splits)

lemma stream_conflicts_only:
  "sv_provides (fold (\<lambda>(inner, y) sv.
       if mp_name m = mp_name inner \<and> mp_stream m \<noteq> mp_stream inner then add_stream_conflict inner sv else sv) ms sv) =
     sv_provides sv"
  by (induction ms arbitrary: sv) (auto simp: add_stream_conflict_def)

lemma add_requirements_provides: "add_requirements rich_ok rs sv = Inr sv' \<Longrightarrow> sv_provides sv' = sv_provides sv"
  by (induction rs arbitrary: sv) (auto simp: add_requirement_def and_then_Inr_iff split: prod.splits)

text \<open>Once the conflicts are created no two packages of different streams of one module can be installed together:
  each conflicts with something that the other provides.\<close>

theorem streams_exclude_each_other:
  assumes "\<forall>(m, sv) \<in> set ms. module_solvable rich_ok m = Inr sv"
    "(m, sv) \<in> set (create_conflicts_between_streams ms)" "(m', sv') \<in> set (create_conflicts_between_streams ms)"
    "mp_name m = mp_name m'" "mp_stream m \<noteq> mp_stream m'"
  shows "set (sv_conflicts sv) \<inter> set (sv_provides sv') \<noteq> {}"
proof -
  obtain sv0 where sv0: "(m', sv0) \<in> set ms" "sv_provides sv' = sv_provides sv0"
    using assms(3) by (auto simp: create_conflicts_between_streams_def stream_conflicts_only)
  obtain sv1 where "sv = fold (\<lambda>(inner, y) sv.
      if mp_name m = mp_name inner \<and> mp_stream m \<noteq> mp_stream inner then add_stream_conflict inner sv else sv) ms sv1"
    using assms(2) by (auto simp: create_conflicts_between_streams_def)
  then have sv1: "sv_conflicts sv = sv_conflicts sv1 @ map (\<lambda>(inner, y). module_dep (get_name_stream inner))
       (filter (\<lambda>(inner, y). mp_name m = mp_name inner \<and> mp_stream m \<noteq> mp_stream inner) ms)"
    using stream_conflicts_added [of m ms sv1] by simp
  have "module_dep (get_name_stream m') \<in> set (sv_conflicts sv)" using sv1 sv0(1) assms(4,5) by force
  moreover have "module_solvable rich_ok m' = Inr sv0" using assms(1) sv0(1) by auto
  then have "module_dep (get_name_stream m') \<in> set (sv_provides sv')"
    using sv0(2) by (auto simp: module_solvable_def create_dependencies_def set_solvable_def get_name_stream_def
        dest!: add_requirements_provides)
  ultimately show ?thesis by blast
qed

definition example_package :: "nat \<Rightarrow> string \<Rightarrow> string \<Rightarrow> module_package" where
  "example_package i name stream =
     \<lparr>mp_id = i, mp_name = name, mp_stream = stream, mp_version = 1, mp_context = ''c'', mp_arch = Some ''x86_64'',
      mp_repo = ''r'', mp_yaml = [], mp_profiles = [], mp_requires = []\<rparr>"

definition example_solvables :: "(module_package \<times> solvable) list" where
  "example_solvables = map (\<lambda>m. (m, projr (module_solvable (\<lambda>_. True) m))) [example_package 1 ''a'' ''1'', example_package 2 ''a'' ''2'']"

theorem streams_exclude_each_other_witness:
  "set (sv_conflicts (snd (create_conflicts_between_streams example_solvables ! 0))) \<inter>
   set (sv_provides (snd (create_conflicts_between_streams example_solvables ! 1))) \<noteq> {}"
  by (rule streams_exclude_each_other [where rich_ok = "\<lambda>_. True" and ms = example_solvables and
        m = "example_package 1 ''a'' ''1''" and m' = "example_package 2 ''a'' ''2''"])
    (simp_all add: example_solvables_def create_conflicts_between_streams_def module_solvable_def create_dependencies_def
      example_package_def)

section \<open>Streams with a dash\<close>

text \<open>A required stream whose name has a dash after its first letter is taken for an excluded one: the package
  requires any stream of the module, and conflicts with the name without its first letter.\<close>

theorem dash_in_stream_excludes:
  "mp_requires m = [[(name, [c # a @ ''-'' @ b])]] \<Longrightarrow>
    \<exists>sv. module_solvable rich_ok m = Inr sv \<and> sv_requires sv = [module_dep name] \<and>
      sv_conflicts sv = [module_dep (name @ '':'' @ a @ ''-'' @ b)]"
proof -
  have dash: "\<exists>i. find_from (\<lambda>x. x = CHR ''-'') (c # a @ ''-'' @ b) 0 = Some i"
  proof (rule ccontr)
    assume "\<nexists>i. find_from (\<lambda>x. x = CHR ''-'') (c # a @ ''-'' @ b) 0 = Some i"
    then have "find_from (\<lambda>x. x = CHR ''-'') (c # a @ ''-'' @ b) 0 = None" by (metis not_Some_eq)
    then show False by (simp add: find_from_None)
  qed
  assume "mp_requires m = [[(name, [c # a @ ''-'' @ b])]]"
  then show ?thesis
    using dash by (auto simp: module_solvable_def create_dependencies_def add_requirement_def require_text_def set_solvable_def)
qed

theorem dash_in_stream_excludes_witness:
  "\<exists>sv. module_solvable (\<lambda>_. True) ((example_package 1 ''a'' ''1'')\<lparr>mp_requires := [[(''platform'', [''rhel-8''])]]\<rparr>) = Inr sv \<and>
     sv_requires sv = [module_dep ''platform''] \<and> sv_conflicts sv = [module_dep (''platform'' @ '':'' @ ''hel'' @ ''-'' @ ''8'')]"
  by (rule dash_in_stream_excludes [where c = "CHR ''r''"]) simp

section \<open>The platform\<close>

lemma find_char_after:
  "x \<notin> set a \<Longrightarrow> length p = n \<Longrightarrow> find_from (\<lambda>c. c = x) (p @ a @ x # b) n = Some (n + length a)"
  by (auto simp: find_from_Some nth_append)

lemma contains_at: "contains (a @ p @ b) p"
proof -
  have "starts_with_at (a @ p @ b) (length a) p" by (simp add: starts_with_at_def)
  moreover have "length a \<in> set [0..<Suc (length (a @ p @ b))]" by simp
  ultimately show ?thesis unfolding contains_def by blast
qed

definition platform_line :: "string \<Rightarrow> string \<Rightarrow> string" where
  "platform_line name stream = ''PLATFORM_ID='' @ [CHR 0x22] @ name @ '':'' @ stream @ [CHR 0x22, CHR 0x0A]"

lemma drop_prefix: "length p = n \<Longrightarrow> drop n (p @ s) = s"
  by simp

lemma platform_line_read:
  assumes "set name \<inter> {CHR 0x22, CHR '':''} = {}" "set stream \<inter> {CHR 0x22, CHR '':''} = {}"
    "length name + length stream < 2 ^ 63"
  shows "platform_of_lines (platform_line name stream # lines) = Inr (name, stream)"
proof -
  let ?line = "platform_line name stream"
  have has: "contains ?line ''PLATFORM_ID''"
    using contains_at [of "[]" "''PLATFORM_ID''"] by (simp add: platform_line_def)
  have equal: "find_from (\<lambda>c. c = CHR ''='') ?line 0 = Some 11"
    using find_char_after [of "CHR ''=''" "''PLATFORM_ID''" "[]" 0] by (simp add: platform_line_def)
  have start: "find_from (\<lambda>c. c = CHR 0x22) ?line (Suc 11) = Some 12"
    using find_char_after [of "CHR 0x22" "[]" "''PLATFORM_ID=''" 12] by (simp add: platform_line_def)
  have colon: "find_from (\<lambda>c. c = CHR '':'') ?line (Suc 11) = Some (13 + length name)"
    using find_char_after [of "CHR '':''" "CHR 0x22 # name" "''PLATFORM_ID=''" 12] assms(1)
    by (simp add: platform_line_def)
  have end_pos: "find_from (\<lambda>c. c = CHR 0x22) ?line (Suc (13 + length name)) = Some (14 + length name + length stream)"
    using find_char_after [of "CHR 0x22" stream "''PLATFORM_ID='' @ [CHR 0x22] @ name @ '':''" "14 + length name" "[CHR 0x0A]"] assms(2)
    by (simp add: platform_line_def)
  have "size_sub (size_sub (13 + length name) 12) 1 = length name"
    "size_sub (size_sub (14 + length name + length stream) (13 + length name)) 1 = length stream"
    by (simp_all add: size_sub_def)
  then show ?thesis
    by (simp only: platform_of_lines.simps has equal start colon end_pos if_True option.case)
      (use drop_prefix [of "''PLATFORM_ID='' @ [CHR 0x22] @ name @ '':''" "14 + length name"] in
        \<open>simp add: substr_def platform_line_def\<close>)
qed

lemma read_lines_first:
  assumes "CHR 0x0A \<notin> set text" "CHR 0x00 \<notin> set text"
  shows "read_lines (text @ CHR 0x0A # rest) = (text @ [CHR 0x0A]) # read_lines rest"
proof -
  have "takeWhile (\<lambda>c. c \<noteq> CHR 0x0A) (text @ CHR 0x0A # rest) = text"
    using assms(1) by (simp add: takeWhile_append)
  moreover have "takeWhile (\<lambda>c. c \<noteq> CHR 0x00) (text @ [CHR 0x0A]) = text @ [CHR 0x0A]"
    using assms(2) by (auto simp: takeWhile_eq_all_conv)
  ultimately show ?thesis by (subst read_lines.simps) (simp add: Let_def)
qed

text \<open>The platform is what the release file says: its line \<open>PLATFORM_ID\<close> gives the name and stream of the
  platform's package, whatever lines without the key stand before it.\<close>

theorem platform_is_read:
  assumes "read_file (release_path root path) =
      Inr (concat (map (\<lambda>l. l @ [CHR 0x0A]) before) @ platform_line name stream @ after)"
    "list_all (\<lambda>l. \<not> contains (l @ [CHR 0x0A]) ''PLATFORM_ID'' \<and> set l \<inter> {CHR 0x0A, CHR 0x00} = {}) before"
    "set name \<inter> {CHR 0x22, CHR '':'', CHR 0x0A, CHR 0x00} = {}" "set stream \<inter> {CHR 0x22, CHR '':'', CHR 0x0A, CHR 0x00} = {}"
    "name \<noteq> []" "stream \<noteq> []" "length name + length stream < 2 ^ 63"
  shows "create_platform_solvable read_file None (path # paths) root None =
    Inr (set_solvable name stream ''0'' ''00000000'' (Some ''noarch''))"
proof -
  have lines: "read_lines (concat (map (\<lambda>l. l @ [CHR 0x0A]) before) @ rest) = map (\<lambda>l. l @ [CHR 0x0A]) before @ read_lines rest"
    for rest using assms(2) by (induction before) (simp_all add: read_lines_first)
  have skip: "platform_of_lines (map (\<lambda>l. l @ [CHR 0x0A]) before @ rest) = platform_of_lines rest" for rest
    using assms(2) by (induction before) simp_all
  have "read_lines (platform_line name stream @ after) = platform_line name stream # read_lines after"
    using read_lines_first [of "''PLATFORM_ID='' @ [CHR 0x22] @ name @ '':'' @ stream @ [CHR 0x22]" after] assms(3,4)
    by (simp add: platform_line_def)
  then have "get_platform_stream read_file (release_path root path) = Inr (name, stream)"
    using platform_line_read [of name stream] assms
    by (simp add: get_platform_stream_def lines skip)
  then show ?thesis by (simp add: create_platform_solvable_def valid_platform_def assms(5,6))
qed

theorem platform_is_read_witness:
  "create_platform_solvable (\<lambda>_. Inr (concat (map (\<lambda>l. l @ [CHR 0x0A]) [''NAME=Fedora'']) @ platform_line ''platform'' ''f35'' @ []))
     None [''/etc/os-release''] ''/'' None = Inr (set_solvable ''platform'' ''f35'' ''0'' ''00000000'' (Some ''noarch''))"
proof (rule platform_is_read)
  show "list_all (\<lambda>l. \<not> contains (l @ [CHR 0x0A]) ''PLATFORM_ID'' \<and> set l \<inter> {CHR 0x0A, CHR 0x00} = {}) [''NAME=Fedora'']"
    by code_simp
qed simp_all

end
