(* ===== verification/ModuleStates.thy ===== *)
theory ModuleStates
  imports StateError CppSet TextFiles "HOL-Library.List_Lexorder" "HOL-Library.Char_ord"
begin

text \<open>
  The states of modules in dnf 4 (\<open>ModulePersistor\<close> of dnf-4/libdnf/module/ModulePackageContainer.cpp): for
  every module the configuration file that was loaded and the state, stream and profiles that are to be
  saved. The parser of the files and the list option are the record \<open>parser_ops\<close>, an argument.
\<close>

section \<open>Types\<close>

datatype module_state = MS_UNKNOWN | MS_ENABLED | MS_DISABLED | MS_DEFAULT | MS_INSTALLED

datatype module_error =
    NoModule string
  | NotInMap
  | EnableMultipleStreams string
  | ParserError string
  | CannotOpenForWriting string
  | CannotMakeDir string

record 'c parser_ops =
  po_new :: 'c
  po_add_section :: "string \<Rightarrow> 'c \<Rightarrow> 'c"
  po_set_value :: "string \<Rightarrow> string \<Rightarrow> string \<Rightarrow> 'c \<Rightarrow> module_error + 'c"
  po_get_value :: "string \<Rightarrow> string \<Rightarrow> 'c \<Rightarrow> module_error + string"
  po_has_option :: "string \<Rightarrow> string \<Rightarrow> 'c \<Rightarrow> bool"
  po_remove_option :: "string \<Rightarrow> string \<Rightarrow> 'c \<Rightarrow> 'c"
  po_read :: "string \<Rightarrow> 'c \<Rightarrow> 'c \<times> module_error option"
  po_write :: "'c \<Rightarrow> string"
  po_list_from_string :: "string \<Rightarrow> string list"
  po_list_to_string :: "string list \<Rightarrow> string"

text \<open>The functions of GLib and of the file system that the code calls.\<close>

record module_env = file_env +
  env_build_filename :: "string list \<Rightarrow> string"
  env_make_dir :: "string \<Rightarrow> bool"

definition state_from_string :: "string \<Rightarrow> module_state" where
  "state_from_string str =
     (if str = ''1'' \<or> str = ''true'' \<or> str = ''enabled'' then MS_ENABLED
      else if str = ''0'' \<or> str = ''false'' \<or> str = ''disabled'' then MS_DISABLED
      else MS_UNKNOWN)"

fun state_to_string :: "module_state \<Rightarrow> string" where
  "state_to_string MS_ENABLED = ''enabled''"
| "state_to_string MS_DISABLED = ''disabled''"
| "state_to_string MS_DEFAULT = []"
| "state_to_string MS_UNKNOWN = []"
| "state_to_string MS_INSTALLED = []"

record module_config =
  mc_stream :: string
  mc_profiles :: "string list"
  mc_state :: module_state

text \<open>\<open>std::map<std::string, std::pair<ConfigParser, Config>>\<close>, ascending by name.\<close>

type_synonym 'c persistor = "(string \<times> 'c \<times> module_config) list"

primrec map_insert :: "'k :: linorder \<Rightarrow> 'v \<Rightarrow> ('k \<times> 'v) list \<Rightarrow> ('k \<times> 'v) list" where
  "map_insert k v [] = [(k, v)]"
| "map_insert k v (x # xs) = (if k < fst x then (k, v) # x # xs else x # map_insert k v xs)"

definition set_entry :: "string \<Rightarrow> 'v \<Rightarrow> (string \<times> 'v) list \<Rightarrow> (string \<times> 'v) list" where
  "set_entry name e s = map (\<lambda>(n, x). if n = name then (n, e) else (n, x)) s"

section \<open>Reading and changing an entry\<close>

definition get_entry :: "string \<Rightarrow> 'c persistor \<Rightarrow> module_error + 'c \<times> module_config" where
  "get_entry name s = (case map_of s name of None \<Rightarrow> Inl (NoModule name) | Some e \<Rightarrow> Inr e)"

definition get_stream :: "string \<Rightarrow> 'c persistor \<Rightarrow> module_error + string" where
  "get_stream name s = and_then (get_entry name s) (\<lambda>e. Inr (mc_stream (snd e)))"

definition get_profiles :: "string \<Rightarrow> 'c persistor \<Rightarrow> module_error + string list" where
  "get_profiles name s = and_then (get_entry name s) (\<lambda>e. Inr (mc_profiles (snd e)))"

definition get_state :: "string \<Rightarrow> 'c persistor \<Rightarrow> module_error + module_state" where
  "get_state name s = and_then (get_entry name s) (\<lambda>e. Inr (mc_state (snd e)))"

definition get_all_module_names :: "'c persistor \<Rightarrow> string list" where
  "get_all_module_names s = map fst s"

definition at_config :: "string \<Rightarrow> (module_config \<Rightarrow> module_config) \<Rightarrow> 'c persistor \<Rightarrow> module_error + unit \<times> 'c persistor" where
  "at_config name f s = and_then (get_entry name s) (\<lambda>(p, c). Inr ((), set_entry name (p, f c) s))"

text \<open>\<open>configs.at\<close> throws \<open>std::out_of_range\<close>. A stream can be changed once, until the states are saved.\<close>

definition change_stream :: "'c parser_ops \<Rightarrow> string \<Rightarrow> string \<Rightarrow> ('c persistor, module_error, bool) action" where
  "change_stream ops name stream =
     lift_change (\<lambda>s.
       case map_of s name of
         None \<Rightarrow> Inl NotInMap
       | Some (p, c) \<Rightarrow>
           (if mc_stream c = stream then Inr (False, s)
            else
              and_then (po_get_value ops name ''stream'' p) (\<lambda>origin.
                if origin \<noteq> mc_stream c then Inl (EnableMultipleStreams name)
                else Inr (True, set_entry name (p, c\<lparr>mc_stream := stream\<rparr>) s))))"

definition change_state :: "string \<Rightarrow> module_state \<Rightarrow> ('c persistor, module_error, bool) action" where
  "change_state name state =
     lift_change (\<lambda>s.
       and_then (get_entry name s) (\<lambda>(p, c).
         if mc_state c = state then Inr (False, s)
         else Inr (True, set_entry name (p, c\<lparr>mc_state := state\<rparr>) s)))"

definition add_profile :: "string \<Rightarrow> string \<Rightarrow> ('c persistor, module_error, bool) action" where
  "add_profile name profile =
     lift_change (\<lambda>s.
       and_then (get_entry name s) (\<lambda>(p, c).
         if profile \<in> set (mc_profiles c) then Inr (False, s)
         else Inr (True, set_entry name (p, c\<lparr>mc_profiles := mc_profiles c @ [profile]\<rparr>) s)))"

definition remove_profile :: "string \<Rightarrow> string \<Rightarrow> ('c persistor, module_error, bool) action" where
  "remove_profile name profile =
     lift_change (\<lambda>s.
       and_then (get_entry name s) (\<lambda>(p, c).
         if profile \<in> set (mc_profiles c)
         then Inr (True, set_entry name (p, c\<lparr>mc_profiles := remove1 profile (mc_profiles c)\<rparr>) s)
         else Inr (False, s)))"

definition clear_profiles :: "string \<Rightarrow> ('c persistor, module_error, unit) action" where
  "clear_profiles name = lift_change (at_config name (\<lambda>c. c\<lparr>mc_profiles := []\<rparr>))"

section \<open>Loading\<close>

definition set_option :: "'c parser_ops \<Rightarrow> string \<Rightarrow> string \<Rightarrow> string \<Rightarrow> ('c, module_error, unit) action" where
  "set_option ops name key v = lift_change (\<lambda>p. and_then (po_set_value ops name key v p) (\<lambda>p. Inr ((), p)))"

definition init_config :: "'c parser_ops \<Rightarrow> string \<Rightarrow> ('c, module_error, unit) action" where
  "init_config ops name =
     then_do (\<lambda>p. (Inr (), po_add_section ops name p)) (\<lambda>_.
     then_do (set_option ops name ''name'' name) (\<lambda>_.
     then_do (set_option ops name ''stream'' []) (\<lambda>_.
     then_do (set_option ops name ''profiles'' []) (\<lambda>_.
     set_option ops name ''state'' []))))"

definition parse_config ::
  "'c parser_ops \<Rightarrow> module_env \<Rightarrow> file_system \<Rightarrow> string \<Rightarrow> string \<Rightarrow> ('c, module_error, unit) action" where
  "parse_config ops env fs name path p =
     (case open_read env fs (env_build_filename env [path, name @ ''.module'']) of
        None \<Rightarrow> init_config ops name p
      | Some content \<Rightarrow>
          (case po_read ops content p of
             (p, Some e) \<Rightarrow> (Inl e, p)
           | (p, None) \<Rightarrow>
               (if \<not> po_has_option ops name ''stream'' p \<or> \<not> po_has_option ops name ''profiles'' p \<or>
                   \<not> po_has_option ops name ''state'' p \<and> \<not> po_has_option ops name ''enabled'' p
                then init_config ops name p
                else
                  then_do (set_option ops name ''name'' name) (\<lambda>_ p.
                    if po_has_option ops name ''enabled'' p
                    then then_do (ask (po_get_value ops name ''enabled'')) (\<lambda>v.
                           then_do (set_option ops name ''state'' v) (\<lambda>_ p.
                             (Inr (), po_remove_option ops name ''enabled'' p))) p
                    else (Inr (), p)) p)))"

text \<open>The three values of a configuration that an entry starts with.\<close>

definition loaded_config :: "'c parser_ops \<Rightarrow> string \<Rightarrow> 'c \<Rightarrow> module_error + module_config" where
  "loaded_config ops name p =
     and_then (po_get_value ops name ''profiles'' p) (\<lambda>plist.
     and_then (po_get_value ops name ''state'' p) (\<lambda>state.
     and_then (po_get_value ops name ''stream'' p) (\<lambda>stream.
       Inr \<lparr>mc_stream = stream, mc_profiles = po_list_from_string ops plist, mc_state = state_from_string state\<rparr>)))"

definition empty_config :: module_config where
  "empty_config = \<lparr>mc_stream = [], mc_profiles = [], mc_state = MS_UNKNOWN\<rparr>"

text \<open>\<open>ModulePersistor::insert\<close>: the entry is in the map before its file is parsed.\<close>

definition persistor_insert ::
  "'c parser_ops \<Rightarrow> module_env \<Rightarrow> file_system \<Rightarrow> string \<Rightarrow> string \<Rightarrow> ('c persistor, module_error, bool) action" where
  "persistor_insert ops env fs name path s =
     (if map_of s name \<noteq> None then (Inr False, s)
      else
        (case parse_config ops env fs name path (po_new ops) of
           (Inl e, p) \<Rightarrow> (Inl e, map_insert name (p, empty_config) s)
         | (Inr _, p) \<Rightarrow>
             (case loaded_config ops name p of
                Inl e \<Rightarrow> (Inl e, map_insert name (p, empty_config) s)
              | Inr c \<Rightarrow> (Inr True, map_insert name (p, c) s))))"

text \<open>\<open>ModulePersistor::reset\<close> and \<open>rollback\<close>: back to what the file holds.\<close>

definition reset_entry :: "'c parser_ops \<Rightarrow> string \<Rightarrow> ('c persistor, module_error, unit) action" where
  "reset_entry ops name =
     then_do (ask (get_entry name)) (\<lambda>(p, _).
     then_do (ask (\<lambda>_. po_get_value ops name ''stream'' p)) (\<lambda>stream.
     then_do (lift_change (at_config name (\<lambda>c. c\<lparr>mc_stream := stream\<rparr>))) (\<lambda>_.
     then_do (ask (\<lambda>_. po_get_value ops name ''state'' p)) (\<lambda>state.
     then_do (lift_change (at_config name (\<lambda>c. c\<lparr>mc_state := state_from_string state\<rparr>))) (\<lambda>_.
     then_do (ask (\<lambda>_. po_get_value ops name ''profiles'' p)) (\<lambda>plist.
       lift_change (at_config name (\<lambda>c. c\<lparr>mc_profiles := po_list_from_string ops plist\<rparr>))))))))"

definition rollback :: "'c parser_ops \<Rightarrow> ('c persistor, module_error, unit) action" where
  "rollback ops s = each (reset_entry ops) (map fst s) s"

section \<open>Saving\<close>

text \<open>One part of \<open>ModulePersistor::update\<close>: an option is set when it is missing or differs.\<close>

definition update_option ::
  "'c parser_ops \<Rightarrow> string \<Rightarrow> string \<Rightarrow> (string \<Rightarrow> bool) \<Rightarrow> string \<Rightarrow> ('c, module_error, bool) action" where
  "update_option ops name key same v p =
     (if po_has_option ops name key p
      then then_do (ask (po_get_value ops name key)) (\<lambda>old.
             if same old then give False else then_do (set_option ops name key v) (\<lambda>_. give True)) p
      else then_do (set_option ops name key v) (\<lambda>_. give True) p)"

definition update_entry :: "'c parser_ops \<Rightarrow> string \<Rightarrow> module_config \<Rightarrow> ('c, module_error, bool) action" where
  "update_entry ops name c =
     (let state = state_to_string (mc_state c); stream = mc_stream c; profiles = mc_profiles c in
      then_do (update_option ops name ''state'' (\<lambda>old. old = state) state) (\<lambda>b1.
      then_do (update_option ops name ''stream'' (\<lambda>old. old = stream) stream) (\<lambda>b2.
      then_do (update_option ops name ''profiles'' (\<lambda>old. po_list_from_string ops old = profiles)
                 (po_list_to_string ops profiles)) (\<lambda>b3.
        give (b1 \<or> b2 \<or> b3)))))"

text \<open>The loop of \<open>save\<close>: the file is written after the parser has taken over the values.\<close>

primrec save_loop ::
  "'c parser_ops \<Rightarrow> module_env \<Rightarrow> (string \<Rightarrow> string) \<Rightarrow> 'c persistor \<Rightarrow> file_system \<Rightarrow>
    (module_error + unit) \<times> 'c persistor \<times> file_system" where
  "save_loop ops env fname [] fs = (Inr (), [], fs)"
| "save_loop ops env fname (x # rest) fs =
     (case x of (name, p, c) \<Rightarrow>
        (case update_entry ops name c p of
           (Inl e, p) \<Rightarrow> (Inl e, (name, p, c) # rest, fs)
         | (Inr changed, p) \<Rightarrow>
             (if changed \<and> \<not> fe_writable env (fname name)
              then (Inl (CannotOpenForWriting (fname name)), (name, p, c) # rest, fs)
              else
                (let fs = (if changed then fs(fname name \<mapsto> po_write ops p) else fs);
                     (r, rest, fs) = save_loop ops env fname rest fs
                 in (r, (name, p, c) # rest, fs)))))"

text \<open>The name of the file of a module.\<close>

definition module_file :: "module_env \<Rightarrow> string \<Rightarrow> string \<Rightarrow> string \<Rightarrow> string" where
  "module_file env root path name = env_build_filename env [root, path, name @ ''.module'']"

definition save ::
  "'c parser_ops \<Rightarrow> module_env \<Rightarrow> string \<Rightarrow> string \<Rightarrow> 'c persistor \<Rightarrow> file_system \<Rightarrow>
    (module_error + unit) \<times> 'c persistor \<times> file_system" where
  "save ops env install_root modules_path s fs =
     (let dir = env_build_filename env [install_root, modules_path, ''/''] in
      if \<not> env_make_dir env dir then (Inl (CannotMakeDir dir), s, fs)
      else save_loop ops env (module_file env install_root modules_path) s fs)"

section \<open>What changed\<close>

primrec collect :: "('x \<Rightarrow> 'e + 'y option) \<Rightarrow> 'x list \<Rightarrow> 'e + 'y list" where
  "collect f [] = Inr []"
| "collect f (x # xs) =
     and_then (f x) (\<lambda>y. and_then (collect f xs) (\<lambda>ys. Inr (case y of None \<Rightarrow> ys | Some z \<Rightarrow> z # ys)))"

definition old_state :: "'c parser_ops \<Rightarrow> string \<Rightarrow> 'c \<Rightarrow> module_error + module_state" where
  "old_state ops name p = and_then (po_get_value ops name ''state'' p) (\<lambda>v. Inr (state_from_string v))"

definition get_enabled_streams :: "'c parser_ops \<Rightarrow> 'c persistor \<Rightarrow> module_error + (string \<times> string) list" where
  "get_enabled_streams ops =
     collect (\<lambda>(name, p, c). and_then (old_state ops name p) (\<lambda>old.
       Inr (if old \<noteq> MS_ENABLED \<and> mc_state c = MS_ENABLED then Some (name, mc_stream c) else None)))"

definition get_disabled_modules :: "'c parser_ops \<Rightarrow> 'c persistor \<Rightarrow> module_error + string list" where
  "get_disabled_modules ops =
     collect (\<lambda>(name, p, c). and_then (old_state ops name p) (\<lambda>old.
       Inr (if old \<noteq> MS_DISABLED \<and> mc_state c = MS_DISABLED then Some name else None)))"

definition get_disabled_streams :: "'c parser_ops \<Rightarrow> 'c persistor \<Rightarrow> module_error + (string \<times> string) list" where
  "get_disabled_streams ops =
     collect (\<lambda>(name, p, c). and_then (old_state ops name p) (\<lambda>old.
       if old \<noteq> MS_DISABLED \<and> mc_state c = MS_DISABLED
       then and_then (po_get_value ops name ''stream'' p) (\<lambda>stream. Inr (Some (name, stream)))
       else Inr None))"

definition get_reset_modules :: "'c parser_ops \<Rightarrow> 'c persistor \<Rightarrow> module_error + string list" where
  "get_reset_modules ops =
     collect (\<lambda>(name, p, c). and_then (old_state ops name p) (\<lambda>old.
       Inr (if old = MS_UNKNOWN \<or> old = MS_DEFAULT then None
            else if mc_state c = MS_UNKNOWN \<or> mc_state c = MS_DEFAULT then Some name else None)))"

definition get_reset_streams :: "'c parser_ops \<Rightarrow> 'c persistor \<Rightarrow> module_error + (string \<times> string) list" where
  "get_reset_streams ops =
     collect (\<lambda>(name, p, c). and_then (old_state ops name p) (\<lambda>old.
       if old = MS_UNKNOWN \<or> old = MS_DEFAULT then Inr None
       else if mc_state c = MS_UNKNOWN \<or> mc_state c = MS_DEFAULT
       then and_then (po_get_value ops name ''stream'' p) (\<lambda>stream. Inr (Some (name, stream)))
       else Inr None))"

definition get_switched_streams ::
  "'c parser_ops \<Rightarrow> 'c persistor \<Rightarrow> module_error + (string \<times> string \<times> string) list" where
  "get_switched_streams ops =
     collect (\<lambda>(name, p, c). and_then (po_get_value ops name ''stream'' p) (\<lambda>old.
       Inr (if old = [] then None
            else if mc_stream c = [] then None
            else if old \<noteq> mc_stream c then Some (name, old, mc_stream c) else None)))"

text \<open>Comparing the profiles sorts those of the entries in place.\<close>

primrec profile_loop ::
  "'c parser_ops \<Rightarrow> (string list \<Rightarrow> string list \<Rightarrow> string list) \<Rightarrow> 'c persistor \<Rightarrow>
    (module_error + (string \<times> string list) list) \<times> 'c persistor" where
  "profile_loop ops diff [] = (Inr [], [])"
| "profile_loop ops diff (x # rest) =
     (case x of (name, p, c) \<Rightarrow>
        (case po_get_value ops name ''profiles'' p of
           Inl e \<Rightarrow> (Inl e, x # rest)
         | Inr plist \<Rightarrow>
             (let vprof = sort (po_list_from_string ops plist); new_profiles = sort (mc_profiles c);
                  prof_diff = diff new_profiles vprof;
                  (r, rest) = profile_loop ops diff rest
              in (and_then r (\<lambda>ps. Inr (if length prof_diff > 0 then (name, prof_diff) # ps else ps)),
                  (name, p, c\<lparr>mc_profiles := new_profiles\<rparr>) # rest))))"

definition get_installed_profiles ::
  "'c parser_ops \<Rightarrow> ('c persistor, module_error, (string \<times> string list) list) action" where
  "get_installed_profiles ops = profile_loop ops (\<lambda>new_profiles vprof. set_difference_range new_profiles vprof)"

definition get_removed_profiles ::
  "'c parser_ops \<Rightarrow> ('c persistor, module_error, (string \<times> string list) list) action" where
  "get_removed_profiles ops = profile_loop ops (\<lambda>new_profiles vprof. set_difference_range vprof new_profiles)"

end
