(* ===== verification/ModuleContainer.thy ===== *)
theory ModuleContainer
  imports ModuleStates ModulePackages
begin

text \<open>
  The container of modules (\<open>ModulePackageContainer\<close>, dnf-4/libdnf/module/ModulePackageContainer.cpp): enabling
  and disabling modules, the report of what will change, the choice of the active packages, the latest
  packages, and the copies kept for the case that a repository loses a module. The solver, the queries,
  \<open>std::sort\<close> and libmodulemd are arguments.
\<close>

section \<open>The container\<close>

datatype module_problem = NO_ERROR | ERROR_IN_DEFAULTS | ERROR_IN_MODULES | CANNOT_RESOLVE_MODULES

record 'c modules =
  ms_persistor :: "'c persistor"
  ms_packages :: "module_package list"
  ms_active :: "nat list option"
  ms_defaults :: "(string \<times> string) list"

text \<open>An operation of the persistor, run on that of the container.\<close>

definition on_persistor :: "('c persistor, 'e, 'a) action \<Rightarrow> ('c modules, 'e, 'a) action" where
  "on_persistor m s = (case m (ms_persistor s) of (r, p) \<Rightarrow> (r, s\<lparr>ms_persistor := p\<rparr>))"

definition container_empty :: "'c modules \<Rightarrow> bool" where
  "container_empty s \<longleftrightarrow> ms_packages s = []"

definition get_module_package :: "nat \<Rightarrow> 'c modules \<Rightarrow> module_error + module_package" where
  "get_module_package i s =
     (case find (\<lambda>m. mp_id m = i) (ms_packages s) of None \<Rightarrow> Inl NotInMap | Some m \<Rightarrow> Inr m)"

section \<open>States\<close>

definition persistor_enabled :: "string \<Rightarrow> string \<Rightarrow> 'c persistor \<Rightarrow> bool" where
  "persistor_enabled name stream p \<longleftrightarrow> get_state name p = Inr MS_ENABLED \<and> get_stream name p = Inr stream"

definition is_enabled :: "string \<Rightarrow> string \<Rightarrow> 'c modules \<Rightarrow> bool" where
  "is_enabled name stream s = persistor_enabled name stream (ms_persistor s)"

definition is_enabled_package :: "module_package \<Rightarrow> 'c modules \<Rightarrow> bool" where
  "is_enabled_package m s = is_enabled (mp_name m) (mp_stream m) s"

definition is_disabled :: "string \<Rightarrow> 'c modules \<Rightarrow> bool" where
  "is_disabled name s \<longleftrightarrow> get_state name (ms_persistor s) = Inr MS_DISABLED"

definition get_default_stream :: "string \<Rightarrow> 'c modules \<Rightarrow> string" where
  "get_default_stream name s = (case map_of (ms_defaults s) name of None \<Rightarrow> [] | Some stream \<Rightarrow> stream)"

definition get_enabled_stream :: "string \<Rightarrow> 'c modules \<Rightarrow> module_error + string" where
  "get_enabled_stream name s = get_stream name (ms_persistor s)"

definition get_module_state :: "string \<Rightarrow> 'c modules \<Rightarrow> module_state" where
  "get_module_state name s = (case get_state name (ms_persistor s) of Inl _ \<Rightarrow> MS_UNKNOWN | Inr st \<Rightarrow> st)"

definition enable_module :: "'c parser_ops \<Rightarrow> string \<Rightarrow> string \<Rightarrow> ('c persistor, module_error, bool) action" where
  "enable_module ops name stream =
     then_do (change_stream ops name stream) (\<lambda>changed.
     then_do (change_state name MS_ENABLED) (\<lambda>b.
       let changed = (if b then True else changed) in
       if changed then then_do (clear_profiles name) (\<lambda>_. give changed) else give changed))"

definition disable_module :: "'c parser_ops \<Rightarrow> string \<Rightarrow> ('c persistor, module_error, unit) action" where
  "disable_module ops name =
     then_do (change_state name MS_DISABLED) (\<lambda>_.
     then_do (change_stream ops name []) (\<lambda>_.
       clear_profiles name))"

definition reset_module :: "'c parser_ops \<Rightarrow> string \<Rightarrow> ('c persistor, module_error, unit) action" where
  "reset_module ops name =
     then_do (change_state name MS_UNKNOWN) (\<lambda>_.
     then_do (change_stream ops name []) (\<lambda>_.
       clear_profiles name))"

text \<open>The container's operations do these on its persistor.\<close>

definition enable_in :: "'c parser_ops \<Rightarrow> module_package \<Rightarrow> ('c modules, module_error, bool) action" where
  "enable_in ops m = on_persistor (enable_module ops (mp_name m) (mp_stream m))"

definition disable_in :: "'c parser_ops \<Rightarrow> module_package \<Rightarrow> ('c modules, module_error, unit) action" where
  "disable_in ops m = on_persistor (disable_module ops (mp_name m))"

definition reset_in :: "'c parser_ops \<Rightarrow> module_package \<Rightarrow> ('c modules, module_error, unit) action" where
  "reset_in ops m = on_persistor (reset_module ops (mp_name m))"

definition install_package :: "string \<Rightarrow> module_package \<Rightarrow> ('c persistor, module_error, unit) action" where
  "install_package profile m =
     then_do (ask (get_stream (mp_name m))) (\<lambda>stream.
       if stream = mp_stream m then then_do (add_profile (mp_name m) profile) (\<lambda>_. give ()) else give ())"

definition uninstall_package :: "string \<Rightarrow> module_package \<Rightarrow> ('c persistor, module_error, unit) action" where
  "uninstall_package profile m =
     then_do (ask (get_stream (mp_name m))) (\<lambda>stream.
       if stream = mp_stream m then then_do (remove_profile (mp_name m) profile) (\<lambda>_. give ()) else give ())"

definition install_profile :: "string \<Rightarrow> string \<Rightarrow> string \<Rightarrow> ('c modules, module_error, unit) action" where
  "install_profile name stream profile s =
     on_persistor (each (install_package profile)
       (filter (\<lambda>m. mp_name m = name \<and> mp_stream m = stream) (ms_packages s))) s"

definition uninstall_profile :: "string \<Rightarrow> string \<Rightarrow> string \<Rightarrow> ('c modules, module_error, unit) action" where
  "uninstall_profile name stream profile s =
     on_persistor (each (uninstall_package profile)
       (filter (\<lambda>m. mp_name m = name \<and> mp_stream m = stream) (ms_packages s))) s"

section \<open>Reports\<close>

definition is_changed :: "'c parser_ops \<Rightarrow> ('c persistor, module_error, bool) action" where
  "is_changed ops =
     then_do (ask (get_enabled_streams ops)) (\<lambda>xs. if xs \<noteq> [] then give True else
     then_do (ask (get_disabled_modules ops)) (\<lambda>xs. if xs \<noteq> [] then give True else
     then_do (ask (get_reset_modules ops)) (\<lambda>xs. if xs \<noteq> [] then give True else
     then_do (ask (get_switched_streams ops)) (\<lambda>xs. if xs \<noteq> [] then give True else
     then_do (get_installed_profiles ops) (\<lambda>xs. if xs \<noteq> [] then give True else
     then_do (get_removed_profiles ops) (\<lambda>xs. if xs \<noteq> [] then give True else give False))))))"

definition newline :: string where "newline = [CHR 0x0A]"

definition report_section :: "string \<Rightarrow> string list \<Rightarrow> string" where
  "report_section title rows =
     (if rows = [] then []
      else title @ '':'' @ newline @ concat (map (\<lambda>row. ''    '' @ row @ newline) rows) @ newline)"

definition profile_rows :: "(string \<times> string list) list \<Rightarrow> string list" where
  "profile_rows ps = concat (map (\<lambda>(name, profiles). map (\<lambda>profile. name @ '':'' @ profile) profiles) ps)"

definition get_report :: "'c parser_ops \<Rightarrow> ('c persistor, module_error, string) action" where
  "get_report ops =
     then_do (ask (get_enabled_streams ops)) (\<lambda>enabled.
     then_do (ask (get_disabled_modules ops)) (\<lambda>disabled.
     then_do (ask (get_switched_streams ops)) (\<lambda>switched.
     then_do (get_installed_profiles ops) (\<lambda>installed.
     then_do (get_removed_profiles ops) (\<lambda>removed.
       give
         (report_section ''Module Enabling'' (map (\<lambda>(name, stream). name @ '':'' @ stream) enabled) @
          report_section ''Module Disabling'' disabled @
          report_section ''Module Switched Streams''
            (map (\<lambda>(name, old, new). name @ '':'' @ old @ '' > '' @ name @ '':'' @ new) switched) @
          report_section ''Module Installing Profiles'' (profile_rows installed) @
          report_section ''Module Removing Profiles'' (profile_rows removed)))))))"

section \<open>Active packages\<close>

text \<open>What the solver answers to the excluded packages and the jobs, the provides to install, each with a flag
  that tells whether it is optional: the first run ignores weak dependencies.\<close>

type_synonym job = "string \<times> bool"

record goal_results =
  gr_strict_fails :: "nat list \<Rightarrow> job list \<Rightarrow> bool"
  gr_problems :: "nat list \<Rightarrow> job list \<Rightarrow> string list list"
  gr_strict_installs :: "nat list \<Rightarrow> job list \<Rightarrow> nat list"
  gr_fails :: "nat list \<Rightarrow> job list \<Rightarrow> bool"
  gr_installs :: "nat list \<Rightarrow> job list \<Rightarrow> nat list"
  gr_conflicts :: "nat list \<Rightarrow> job list \<Rightarrow> nat list"

definition module_provide :: "module_package \<Rightarrow> string" where
  "module_provide m = ''module('' @ mp_name m @ '':'' @ mp_stream m @ '':'' @ get_version m @ '')''"

primrec module_jobs :: "'c persistor \<Rightarrow> module_package list \<Rightarrow> module_error + job list" where
  "module_jobs p [] = Inr []"
| "module_jobs p (m # ms) =
     and_then (get_state (mp_name m) p) (\<lambda>st. and_then (module_jobs p ms) (\<lambda>js.
       Inr ((module_provide m, st = MS_DEFAULT) # js)))"

definition module_solve ::
  "goal_results \<Rightarrow> nat list \<Rightarrow> module_package list \<Rightarrow>
    ('c modules, module_error, string list list \<times> module_problem) action" where
  "module_solve goal excludes ms s =
     (if ms = [] then (Inr ([], NO_ERROR), s\<lparr>ms_active := None\<rparr>)
      else
        (case module_jobs (ms_persistor s) ms of
           Inl e \<Rightarrow> (Inl e, s)
         | Inr jobs \<Rightarrow>
             (if gr_strict_fails goal excludes jobs then
                (let problems = gr_problems goal excludes jobs in
                 if gr_fails goal excludes jobs then
                   (let excludes = excludes @ gr_conflicts goal excludes jobs;
                        weak = map (\<lambda>(j, _). (j, True)) jobs in
                    if gr_fails goal excludes weak
                    then (Inr (problems, CANNOT_RESOLVE_MODULES), s\<lparr>ms_active := None\<rparr>)
                    else (Inr (problems, ERROR_IN_MODULES), s\<lparr>ms_active := Some (gr_installs goal excludes weak)\<rparr>))
                 else (Inr (problems, ERROR_IN_DEFAULTS), s\<lparr>ms_active := Some (gr_installs goal excludes jobs)\<rparr>))
              else (Inr ([], NO_ERROR), s\<lparr>ms_active := Some (gr_strict_installs goal excludes jobs)\<rparr>))))"

text \<open>The loop that chooses the packages: enabled ones, and those of default streams, whose state becomes
  \<open>DEFAULT\<close>. The result holds the excluded and the chosen packages.\<close>

primrec choose_packages ::
  "module_package list \<Rightarrow> ('c modules, module_error, nat list \<times> module_package list) action" where
  "choose_packages [] = give ([], [])"
| "choose_packages (m # ms) =
     then_do (ask (\<lambda>s. get_state (mp_name m) (ms_persistor s))) (\<lambda>state.
       if state = MS_DISABLED then
         then_do (choose_packages ms) (\<lambda>(excludes, packages). give (mp_id m # excludes, packages))
       else
         then_do (ask (\<lambda>s. Inr (get_default_stream (mp_name m) s = mp_stream m, is_disabled (mp_name m) s, is_enabled_package m s)))
           (\<lambda>(has_default, disabled, enabled).
             if disabled then choose_packages ms
             else if enabled then then_do (choose_packages ms) (\<lambda>(excludes, packages). give (excludes, m # packages))
             else if has_default \<and> state \<noteq> MS_ENABLED then
               then_do (on_persistor (change_state (mp_name m) MS_DEFAULT)) (\<lambda>_.
               then_do (choose_packages ms) (\<lambda>(excludes, packages). give (excludes, m # packages)))
             else choose_packages ms))"

definition resolve_active ::
  "goal_results \<Rightarrow> ('c modules, module_error, string list list \<times> module_problem) action" where
  "resolve_active goal s =
     then_do (choose_packages (ms_packages s)) (\<lambda>(excludes, packages). module_solve goal excludes packages) s"

definition is_module_active :: "nat \<Rightarrow> 'c modules \<Rightarrow> bool" where
  "is_module_active i s = (case ms_active s of None \<Rightarrow> False | Some ids \<Rightarrow> i \<in> set ids)"

end
