(* ===== verification/ModuleParser.thy ===== *)
theory ModuleParser
  imports ModuleStates ConfigParser OptionText
begin

text \<open>
  What the states of modules need of a parser of configuration files: the interface as a locale, what saving
  an entry means under its laws, and its interpretation on \<open>ConfigParser\<close> and the list option.
\<close>

section \<open>The interface\<close>

text \<open>What of an entry a file keeps: the states without a text become \<open>UNKNOWN\<close>.\<close>

definition saved_config :: "module_config \<Rightarrow> module_config" where
  "saved_config c = c\<lparr>mc_state := state_from_string (state_to_string (mc_state c))\<rparr>"

locale config_file =
  fixes ops :: "'c parser_ops" and item_ok :: "string \<Rightarrow> bool"
  assumes has_get: "po_has_option ops n k p \<longleftrightarrow> (\<exists>v. po_get_value ops n k p = Inr v)"
    and set_get: "po_set_value ops n k v p = Inr p' \<Longrightarrow>
      po_get_value ops n' k' p' = Inr w \<longleftrightarrow> (if n' = n \<and> k' = k then w = v else po_get_value ops n' k' p = Inr w)"
    and set_known: "po_get_value ops n k p = Inr w \<Longrightarrow> \<exists>p'. po_set_value ops n k' v p = Inr p'"
    and set_new: "\<exists>p'. po_set_value ops n k v (po_add_section ops n p) = Inr p'"
    and list_text: "\<forall>x \<in> set xs. item_ok x \<Longrightarrow> po_list_from_string ops (po_list_to_string ops xs) = xs"
begin

lemma update_option_Inr:
  assumes "update_option ops n k same v p = (Inr b, p')"
  obtains (kept) w where "po_get_value ops n k p = Inr w" "same w" "\<not> b" "p' = p"
    | (set) "po_set_value ops n k v p = Inr p'" "b"
  using assms has_get [of n k p]
  by (auto simp: update_option_def then_do_def set_option_def lift_change_def split: if_splits sum.splits)

lemma update_option_other:
  assumes "update_option ops n k same v p = (Inr b, p')" "n' \<noteq> n \<or> k' \<noteq> k"
  shows "po_get_value ops n' k' p' = Inr w \<longleftrightarrow> po_get_value ops n' k' p = Inr w"
  using assms(1) by (cases rule: update_option_Inr) (use set_get assms(2) in auto)

lemma update_option_own:
  assumes "update_option ops n k same v p = (Inr b, p')"
  shows "\<exists>w. po_get_value ops n k p' = Inr w \<and> (same w \<or> w = v)"
  using assms by (cases rule: update_option_Inr) (use set_get [of n k v p p' n k v] in auto)

lemma update_option_again:
  assumes "update_option ops n k same v p = (Inr b, p')" "same v"
  shows "update_option ops n k same v p' = (Inr False, p')"
proof -
  obtain w where w: "po_get_value ops n k p' = Inr w" "same w" using update_option_own [OF assms(1)] assms(2) by blast
  then have "po_has_option ops n k p'" using has_get by blast
  then show ?thesis using w by (simp add: update_option_def then_do_def)
qed

text \<open>After an entry was updated its file holds its values, and a second update changes nothing.\<close>

lemma update_entry_saved:
  assumes "update_entry ops n c p = (Inr b, p')" "\<forall>x \<in> set (mc_profiles c). item_ok x"
  shows "loaded_config ops n p' = Inr (saved_config c)" "update_entry ops n c p' = (Inr False, p')"
    "\<not> b \<Longrightarrow> p' = p"
proof -
  let ?profiles = "po_list_to_string ops (mc_profiles c)"
  obtain b1 p1 b2 p2 b3 where u: "update_option ops n ''state'' (\<lambda>old. old = state_to_string (mc_state c)) (state_to_string (mc_state c)) p = (Inr b1, p1)"
    "update_option ops n ''stream'' (\<lambda>old. old = mc_stream c) (mc_stream c) p1 = (Inr b2, p2)"
    "update_option ops n ''profiles'' (\<lambda>old. po_list_from_string ops old = mc_profiles c) ?profiles p2 = (Inr b3, p')"
    "b = (b1 \<or> b2 \<or> b3)"
    using assms(1) [unfolded update_entry_def Let_def then_do_Inr give_def prod.inject sum.inject] by blast
  have pr: "po_list_from_string ops ?profiles = mc_profiles c" by (rule list_text [OF assms(2)])
  have state: "po_get_value ops n ''state'' p' = Inr (state_to_string (mc_state c))"
    using update_option_own [OF u(1)] update_option_other [OF u(2)] update_option_other [OF u(3)] by auto
  have stream: "po_get_value ops n ''stream'' p' = Inr (mc_stream c)"
    using update_option_own [OF u(2)] update_option_other [OF u(3)] by auto
  obtain w where w: "po_get_value ops n ''profiles'' p' = Inr w" "po_list_from_string ops w = mc_profiles c"
    using update_option_own [OF u(3)] pr by auto
  show "loaded_config ops n p' = Inr (saved_config c)"
    by (simp add: loaded_config_def state stream w saved_config_def)
  show "update_entry ops n c p' = (Inr False, p')"
    using has_get [of n _ p'] by (simp add: update_entry_def Let_def update_option_def then_do_def state stream w)
  show "p' = p" if "\<not> b"
  proof -
    have "\<not> b1" "\<not> b2" "\<not> b3" using that u(4) by simp_all
    then have "p1 = p" "p2 = p1" "p' = p2" using u(1-3) by (auto elim: update_option_Inr)
    then show ?thesis by simp
  qed
qed

text \<open>An entry whose file has some option can be updated.\<close>

lemma update_option_possible:
  assumes "po_get_value ops n k0 p = Inr w0"
  shows "\<exists>b p'. update_option ops n k same v p = (Inr b, p') \<and> (\<exists>k1 w1. po_get_value ops n k1 p' = Inr w1)"
proof (cases "\<exists>w. po_get_value ops n k p = Inr w \<and> same w")
  case True
  then obtain w where w: "po_get_value ops n k p = Inr w" "same w" by blast
  then have "po_has_option ops n k p" using has_get by blast
  then have "update_option ops n k same v p = (Inr False, p)" using w by (simp add: update_option_def then_do_def)
  then show ?thesis using w(1) by blast
next
  case False
  obtain p' where p': "po_set_value ops n k v p = Inr p'" using set_known [OF assms] by blast
  then have "po_get_value ops n k p' = Inr v" using set_get by simp
  moreover have "update_option ops n k same v p = (Inr True, p')"
    using False has_get [of n k p] p' by (auto simp: update_option_def then_do_def set_option_def lift_change_def)
  ultimately show ?thesis by blast
qed

lemma update_entry_possible:
  assumes "po_get_value ops n k0 p = Inr w0"
  shows "\<exists>b p'. update_entry ops n c p = (Inr b, p')"
proof -
  obtain b1 p1 k1 w1 where 1: "update_option ops n ''state'' (\<lambda>old. old = state_to_string (mc_state c)) (state_to_string (mc_state c)) p = (Inr b1, p1)"
    "po_get_value ops n k1 p1 = Inr w1" using update_option_possible [OF assms] by blast
  obtain b2 p2 k2 w2 where 2: "update_option ops n ''stream'' (\<lambda>old. old = mc_stream c) (mc_stream c) p1 = (Inr b2, p2)"
    "po_get_value ops n k2 p2 = Inr w2" using update_option_possible [OF 1(2)] by blast
  obtain b3 p3 where 3: "update_option ops n ''profiles'' (\<lambda>old. po_list_from_string ops old = mc_profiles c)
      (po_list_to_string ops (mc_profiles c)) p2 = (Inr b3, p3)" using update_option_possible [OF 2(2)] by blast
  show ?thesis by (simp add: update_entry_def Let_def then_do_def 1(1) 2(1) 3)
qed

end

section \<open>The parser of the library\<close>

fun cfg_to_module_error :: "cfg_error \<Rightarrow> module_error" where
  "cfg_to_module_error (SectionNotFound s) = ParserError s"
| "cfg_to_module_error (OptionNotFound s) = ParserError s"
| "cfg_to_module_error (ParseError e) = ParserError []"

definition map_error :: "('e \<Rightarrow> 'f) \<Rightarrow> 'e + 'a \<Rightarrow> 'f + 'a" where
  "map_error f r = (case r of Inl e \<Rightarrow> Inl (f e) | Inr a \<Rightarrow> Inr a)"

definition library_parser :: "cfg parser_ops" where
  "library_parser =
     \<lparr>po_new = cfg_new,
      po_add_section = (\<lambda>n p. fst (add_section_plain n p)),
      po_set_value = (\<lambda>n k v p. map_error cfg_to_module_error (set_value n k v p)),
      po_get_value = (\<lambda>n k p. map_error cfg_to_module_error (get_value n k p)),
      po_has_option = has_option,
      po_remove_option = (\<lambda>n k p. fst (remove_option n k p)),
      po_read = (\<lambda>text p. case cfg_read (Some text) p of (p, e) \<Rightarrow> (p, map_option cfg_to_module_error e)),
      po_write = cfg_write,
      po_list_from_string = list_from_string,
      po_list_to_string = list_to_string\<rparr>"

lemma map_error_Inr [simp]: "map_error f r = Inr a \<longleftrightarrow> r = Inr a"
  by (cases r) (simp_all add: map_error_def)

lemma get_value_Inr: "get_value s k p = Inr v \<longleftrightarrow> (\<exists>opts. map_of (cfg_data p) s = Some opts \<and> map_of opts k = Some v)"
  by (auto simp: get_value_eq cfg_abs_def split: option.splits)

lemma set_value_Inr:
  "set_value s k v p = Inr p' \<Longrightarrow> \<exists>opts. map_of (cfg_data p) s = Some opts \<and>
    cfg_data p' = pom_put [] s (pom_put [] k v opts) (cfg_data p)"
  by (auto simp: set_value_def set_value_raw_eq split: option.splits)

interpretation library_files: config_file library_parser list_item_ok
proof unfold_locales
  fix n k :: string and p :: cfg
  show "po_has_option library_parser n k p \<longleftrightarrow> (\<exists>v. po_get_value library_parser n k p = Inr v)"
    by (auto simp: library_parser_def get_value_Inr has_option_eq cfg_abs_def)
next
  fix n k v n' k' w :: string and p p' :: cfg
  assume "po_set_value library_parser n k v p = Inr p'"
  then have "set_value n k v p = Inr p'" by (simp add: library_parser_def)
  then obtain opts where "map_of (cfg_data p) n = Some opts" "cfg_data p' = pom_put [] n (pom_put [] k v opts) (cfg_data p)"
    using set_value_Inr by blast
  then show "po_get_value library_parser n' k' p' = Inr w \<longleftrightarrow>
      (if n' = n \<and> k' = k then w = v else po_get_value library_parser n' k' p = Inr w)"
    by (auto simp: library_parser_def get_value_Inr map_of_pom_put)
next
  fix n k k' v w :: string and p :: cfg
  assume "po_get_value library_parser n k p = Inr w"
  then show "\<exists>p'. po_set_value library_parser n k' v p = Inr p'"
    by (auto simp: library_parser_def get_value_Inr set_value_def set_value_raw_eq)
next
  fix n k v :: string and p :: cfg
  have "map_of (cfg_data (fst (add_section_plain n p))) n \<noteq> None"
    by (auto simp: add_section_plain_def add_section_eq map_add_def)
  then show "\<exists>p'. po_set_value library_parser n k v (po_add_section library_parser n p) = Inr p'"
    by (auto simp: library_parser_def set_value_def set_value_raw_eq)
next
  fix xs
  assume "\<forall>x \<in> set xs. list_item_ok x"
  then show "po_list_from_string library_parser (po_list_to_string library_parser xs) = xs"
    by (simp add: library_parser_def list_roundtrip)
qed

end
