(* ===== verification/ModuleFacts.thy ===== *)
theory ModuleFacts
  imports ModuleContainer ModuleParser
begin

text \<open>
  The states of modules: whatever is done to them in memory can be undone, what is saved is what is loaded
  again, and a stream is switched once. Two orders of operations that go wrong are shown as well.
\<close>

section \<open>Runs of operations\<close>

datatype module_op =
    EnableOp string string
  | DisableOp string
  | ResetOp string
  | AddProfileOp string string
  | RemoveProfileOp string string
  | SetStateOp string module_state
  | CompareOp

fun module_exec :: "'c parser_ops \<Rightarrow> module_op \<Rightarrow> 'c persistor \<Rightarrow> 'c persistor" where
  "module_exec ops (EnableOp n stream) s = snd (enable_module ops n stream s)"
| "module_exec ops (DisableOp n) s = snd (disable_module ops n s)"
| "module_exec ops (ResetOp n) s = snd (reset_module ops n s)"
| "module_exec ops (AddProfileOp n p) s = snd (add_profile n p s)"
| "module_exec ops (RemoveProfileOp n p) s = snd (remove_profile n p s)"
| "module_exec ops (SetStateOp n st) s = snd (change_state n st s)"
| "module_exec ops CompareOp s = snd (is_changed ops s)"

lemma map_of_set_entry: "map_of (set_entry n e s) m = (if m = n \<and> map_of s n \<noteq> None then Some e else map_of s m)"
  by (induction s) (auto simp: set_entry_def)

text \<open>What the operations leave alone: the names and the loaded files.\<close>

definition files_of :: "'c persistor \<Rightarrow> (string \<times> 'c) list" where
  "files_of s = map (\<lambda>(n, p, c). (n, p)) s"

lemma names_of_files: "map fst (files_of s) = map fst s"
  by (induction s) (auto simp: files_of_def)

definition same_files :: "'c persistor \<Rightarrow> 'c persistor \<Rightarrow> bool" where
  "same_files s s' \<longleftrightarrow> (distinct (map fst s) \<longrightarrow> files_of s' = files_of s)"

lemma same_files_preorder [simp]: "reflp same_files" "transp same_files"
proof -
  show "reflp same_files" by (simp add: same_files_def reflp_def)
  show "transp same_files"
    unfolding same_files_def by (rule transpI) (metis names_of_files)
qed

lemma files_set_entry:
  assumes "map_of s n = Some (p, c)"
  shows "same_files s (set_entry n (p, c') s)"
  unfolding same_files_def
proof
  assume d: "distinct (map fst s)"
  have "(case (case x of (m, y) \<Rightarrow> if m = n then (m, p, c') else (m, y)) of (m, q, d) \<Rightarrow> (m, q)) = (case x of (m, q, d) \<Rightarrow> (m, q))"
    if "x \<in> set s" for x
  proof -
    obtain m q e where x: "x = (m, q, e)" by (cases x)
    have "map_of s m = Some (q, e)" using that x d by simp
    then show ?thesis using assms x by auto
  qed
  then show "files_of (set_entry n (p, c') s) = files_of s" by (simp add: files_of_def set_entry_def)
qed

lemma get_entry_Inr: "get_entry n s = Inr e \<longleftrightarrow> map_of s n = Some e"
  by (simp add: get_entry_def split: option.split)

text \<open>A relation that the steps on one entry keep is kept by every operation.\<close>

definition step_kept :: "'c parser_ops \<Rightarrow> ('c persistor \<Rightarrow> 'c persistor \<Rightarrow> bool) \<Rightarrow> bool" where
  "step_kept ops R \<longleftrightarrow> reflp R \<and> transp R \<and>
     (\<forall>s n p c st. map_of s n = Some (p, c) \<longrightarrow> R s (set_entry n (p, c\<lparr>mc_state := st\<rparr>) s)) \<and>
     (\<forall>s n p c ps. map_of s n = Some (p, c) \<longrightarrow> R s (set_entry n (p, c\<lparr>mc_profiles := ps\<rparr>) s)) \<and>
     (\<forall>s n p c stream. map_of s n = Some (p, c) \<longrightarrow> po_get_value ops n ''stream'' p = Inr (mc_stream c) \<longrightarrow>
        R s (set_entry n (p, c\<lparr>mc_stream := stream\<rparr>) s)) \<and>
     (\<forall>s diff. R s (snd (profile_loop ops diff s)))"

lemma step_keptD:
  assumes "step_kept ops R"
  shows "reflp R" "transp R" "keeps_state R (change_stream ops n stream)" "keeps_state R (change_state n st)"
    "keeps_state R (add_profile n p)" "keeps_state R (remove_profile n p)" "keeps_state R (clear_profiles n)"
    "keeps_state R (profile_loop ops diff)"
proof -
  note k = assms [unfolded step_kept_def]
  show r: "reflp R" and "transp R" using k by blast+
  show "keeps_state R (change_stream ops n stream)"
    unfolding change_stream_def by (rule keeps_lift [OF r]) (use k r in \<open>auto simp: and_then_Inr_iff reflp_def split: option.splits if_splits\<close>)
  show "keeps_state R (change_state n st)"
    unfolding change_state_def by (rule keeps_lift [OF r]) (use k r in \<open>auto simp: and_then_Inr_iff reflp_def get_entry_Inr split: if_splits\<close>)
  show "keeps_state R (add_profile n p)"
    unfolding add_profile_def by (rule keeps_lift [OF r]) (use k r in \<open>auto simp: and_then_Inr_iff reflp_def get_entry_Inr split: if_splits\<close>)
  show "keeps_state R (remove_profile n p)"
    unfolding remove_profile_def by (rule keeps_lift [OF r]) (use k r in \<open>auto simp: and_then_Inr_iff reflp_def get_entry_Inr split: if_splits\<close>)
  show "keeps_state R (clear_profiles n)"
    unfolding clear_profiles_def at_config_def by (rule keeps_lift [OF r]) (use k in \<open>auto simp: and_then_Inr_iff get_entry_Inr\<close>)
  show "keeps_state R (profile_loop ops diff)" unfolding keeps_state_def using k by blast
qed

lemma module_exec_keeps:
  assumes "step_kept ops R"
  shows "R s (module_exec ops oper s)"
proof -
  note k = step_keptD [OF assms]
  note bind = keeps_then [OF k(2)] keeps_ask [OF k(1)] keeps_give [OF k(1)] k(3-8)
  have "keeps_state R (enable_module ops n stream)" for n stream
    unfolding enable_module_def Let_def by (intro bind) (simp add: bind)
  moreover have "keeps_state R (disable_module ops n)" for n
    unfolding disable_module_def by (intro bind)
  moreover have "keeps_state R (reset_module ops n)" for n
    unfolding reset_module_def by (intro bind)
  moreover have "keeps_state R (is_changed ops)"
    unfolding is_changed_def get_installed_profiles_def get_removed_profiles_def by (intro bind; simp add: bind)+
  ultimately show ?thesis using k(3-7) by (cases oper) (simp_all add: keeps_state_def)
qed

lemma module_run_keeps:
  assumes "step_kept ops R"
  shows "R s (fold (module_exec ops) opers s)"
proof (induction opers arbitrary: s)
  case Nil
  then show ?case using step_keptD(1) [OF assms] by (simp add: reflp_def)
next
  case (Cons oper opers)
  have "R s (module_exec ops oper s)" by (rule module_exec_keeps [OF assms])
  then show ?case using Cons transpD [OF step_keptD(2) [OF assms]] by simp
qed

definition profiles_only :: "string \<times> 'c \<times> module_config \<Rightarrow> string \<times> 'c \<times> module_config \<Rightarrow> bool" where
  "profiles_only x y \<longleftrightarrow> fst y = fst x \<and> fst (snd y) = fst (snd x) \<and>
     mc_stream (snd (snd y)) = mc_stream (snd (snd x)) \<and> mc_state (snd (snd y)) = mc_state (snd (snd x))"

lemma profile_loop_shape: "list_all2 profiles_only s (snd (profile_loop ops diff s))"
proof (induction s)
  case (Cons x s)
  have refl: "list_all2 profiles_only t t" for t :: "(string \<times> 'a \<times> module_config) list"
    by (rule list_all2_refl) (simp add: profiles_only_def)
  obtain n p c where x: "x = (n, p, c)" by (cases x)
  show ?case
  proof (cases "po_get_value ops n ''profiles'' p")
    case (Inl e)
    then show ?thesis using refl [of "x # s"] by (simp add: x)
  next
    case (Inr plist)
    obtain r t where "profile_loop ops diff s = (r, t)" by (cases "profile_loop ops diff s")
    then show ?thesis using Cons Inr by (simp add: x Let_def profiles_only_def)
  qed
qed simp

lemma step_kept_files: "step_kept ops same_files"
proof -
  have "map (\<lambda>(n, p, c). (n, p)) t = map (\<lambda>(n, p, c). (n, p)) s" if "list_all2 profiles_only s t"
    for s t :: "(string \<times> 'a \<times> module_config) list"
    using that by (induction rule: list_all2_induct) (auto simp: profiles_only_def)
  then have "files_of (snd (profile_loop ops diff s)) = files_of s" for s diff
    unfolding files_of_def using profile_loop_shape by blast
  then have "same_files s (snd (profile_loop ops diff s))" for s diff by (simp add: same_files_def)
  then show ?thesis unfolding step_kept_def by (intro conjI allI impI) (erule files_set_entry | simp)+
qed

section \<open>Rolling back\<close>

text \<open>The entries are as their files were loaded.\<close>

definition loaded :: "'c parser_ops \<Rightarrow> 'c persistor \<Rightarrow> bool" where
  "loaded ops s \<longleftrightarrow> distinct (map fst s) \<and> (\<forall>(n, p, c) \<in> set s. loaded_config ops n p = Inr c)"

lemma set_entry_split:
  "n \<notin> fst ` set pre \<Longrightarrow> n \<notin> fst ` set rest \<Longrightarrow> set_entry n e (pre @ (n, x) # rest) = pre @ (n, e) # rest"
proof -
  have keep: "set_entry n e ys = ys" if "n \<notin> fst ` set ys" for ys :: "(string \<times> 'a) list"
    using that by (induction ys) (auto simp: set_entry_def)
  assume "n \<notin> fst ` set pre" "n \<notin> fst ` set rest"
  then show ?thesis using keep [of pre] keep [of rest] by (simp add: set_entry_def)
qed

lemma set_entry_twice: "set_entry n e (set_entry n e' s) = set_entry n e s"
  by (induction s) (auto simp: set_entry_def)

lemma at_config_entry:
  "map_of s n = Some (p, c) \<Longrightarrow> at_config n f s = Inr ((), set_entry n (p, f c) s)"
  by (simp add: at_config_def get_entry_def)

lemma reset_entry_loaded:
  assumes "map_of s n = Some (p, c')" "loaded_config ops n p = Inr c"
  shows "reset_entry ops n s = (Inr (), set_entry n (p, c) s)"
proof -
  obtain plist state stream where v: "po_get_value ops n ''profiles'' p = Inr plist" "po_get_value ops n ''state'' p = Inr state"
    "po_get_value ops n ''stream'' p = Inr stream"
    "c = \<lparr>mc_stream = stream, mc_profiles = po_list_from_string ops plist, mc_state = state_from_string state\<rparr>"
    using assms(2) by (auto simp: loaded_config_def and_then_Inr_iff)
  have "c'\<lparr>mc_stream := stream, mc_state := state_from_string state, mc_profiles := po_list_from_string ops plist\<rparr> = c"
    by (cases c') (simp add: v(4))
  then show ?thesis
    by (simp add: reset_entry_def then_do_def lift_change_def get_entry_def assms(1) v(1-3) at_config_entry map_of_set_entry
        set_entry_twice)
qed

lemma rollback_loop:
  "distinct (map fst (pre @ rest)) \<Longrightarrow> \<forall>(n, p, c) \<in> set rest. loaded_config ops n p = Inr c \<Longrightarrow>
    files_of rest' = files_of rest \<Longrightarrow> each (reset_entry ops) (map fst rest') (pre @ rest') = (Inr (), pre @ rest)"
proof (induction rest arbitrary: pre rest')
  case Nil
  then show ?case by (simp add: files_of_def)
next
  case (Cons x rest)
  obtain n p c where x: "x = (n, p, c)" by (cases x)
  obtain c' rest2 where r: "rest' = (n, p, c') # rest2" "files_of rest2 = files_of rest"
    using Cons.prems(3) by (cases rest') (auto simp: files_of_def x)
  have names: "map fst rest2 = map fst rest" using r(2) by (metis names_of_files)
  then have out: "n \<notin> fst ` set pre" "n \<notin> fst ` set rest2"
    using Cons.prems(1) x by (auto simp flip: set_map)
  have "map_of (pre @ rest') n = Some (p, c')" using r(1) out(1) by (simp add: map_add_def map_of_eq_None_iff [THEN iffD2])
  then have "reset_entry ops n (pre @ rest') = (Inr (), set_entry n (p, c) (pre @ rest'))"
    using Cons.prems(2) x by (intro reset_entry_loaded) auto
  also have "set_entry n (p, c) (pre @ rest') = (pre @ [x]) @ rest2"
    using set_entry_split [OF out] r(1) x by simp
  finally show ?case using Cons.IH [of "pre @ [x]" rest2] Cons.prems r by (simp add: then_do_def)
qed

lemma rollback_to_files:
  assumes "loaded ops s" "files_of s' = files_of s"
  shows "rollback ops s' = (Inr (), s)"
  using rollback_loop [of "[]" s ops s'] assms by (simp add: loaded_def rollback_def)

text \<open>C27. Rolling back undoes every sequence of operations, also of those that threw half way: the states, streams
  and profiles are again those that were loaded.\<close>

theorem rollback_undoes_operations:
  assumes "loaded ops s"
  shows "rollback ops (fold (module_exec ops) opers s) = (Inr (), s)"
proof -
  have "same_files s (fold (module_exec ops) opers s)" by (rule module_run_keeps [OF step_kept_files])
  then show ?thesis using assms by (intro rollback_to_files) (simp_all add: same_files_def loaded_def)
qed


text \<open>A file as \<open>initConfig\<close> makes it, and one in which a stream was enabled.\<close>

definition fresh_file :: "string \<Rightarrow> cfg" where
  "fresh_file name = snd (init_config library_parser name cfg_new)"

definition enabled_file :: "string \<Rightarrow> string \<Rightarrow> cfg" where
  "enabled_file name stream =
     snd (update_entry library_parser name \<lparr>mc_stream = stream, mc_profiles = [], mc_state = MS_ENABLED\<rparr> (fresh_file name))"

lemma fresh_file_loaded: "loaded_config library_parser ''m'' (fresh_file ''m'') = Inr empty_config"
  by code_simp

lemma enabled_file_loaded:
  "loaded_config library_parser ''m'' (enabled_file ''m'' ''1'') =
     Inr \<lparr>mc_stream = ''1'', mc_profiles = [], mc_state = MS_ENABLED\<rparr>"
  by code_simp

theorem rollback_undoes_operations_witness:
  "rollback library_parser (fold (module_exec library_parser) [EnableOp ''m'' ''1'', DisableOp ''m'', AddProfileOp ''m'' ''p'', CompareOp]
     [(''m'', fresh_file ''m'', empty_config)]) = (Inr (), [(''m'', fresh_file ''m'', empty_config)])"
  by (rule rollback_undoes_operations) (simp add: loaded_def fresh_file_loaded)

section \<open>Switching streams\<close>

lemma profiles_only_map_of:
  "list_all2 profiles_only s t \<Longrightarrow> map_of s n = Some (p, c) \<Longrightarrow>
    \<exists>c'. map_of t n = Some (p, c') \<and> mc_stream c' = mc_stream c \<and> mc_state c' = mc_state c"
  by (induction rule: list_all2_induct) (auto simp: profiles_only_def split: if_splits)

text \<open>An entry with a stream other than that of its file keeps it.\<close>

definition stream_kept :: "'c parser_ops \<Rightarrow> string \<Rightarrow> 'c persistor \<Rightarrow> 'c persistor \<Rightarrow> bool" where
  "stream_kept ops n s s' \<longleftrightarrow>
     (\<forall>p c. map_of s n = Some (p, c) \<longrightarrow> po_get_value ops n ''stream'' p \<noteq> Inr (mc_stream c) \<longrightarrow>
        (\<exists>c'. map_of s' n = Some (p, c') \<and> mc_stream c' = mc_stream c))"

lemma step_kept_stream: "step_kept ops (stream_kept ops n)"
  unfolding step_kept_def
proof (intro conjI allI impI)
  show "reflp (stream_kept ops n)" by (simp add: stream_kept_def reflp_def)
  show "transp (stream_kept ops n)"
  proof (rule transpI)
    fix s t u :: "'a persistor"
    assume st: "stream_kept ops n s t" and tu: "stream_kept ops n t u"
    show "stream_kept ops n s u"
      unfolding stream_kept_def
    proof (intro allI impI)
      fix p c assume s: "map_of s n = Some (p, c)" "po_get_value ops n ''stream'' p \<noteq> Inr (mc_stream c)"
      obtain c' where "map_of t n = Some (p, c')" "mc_stream c' = mc_stream c"
        using st s unfolding stream_kept_def by blast
      then show "\<exists>c'. map_of u n = Some (p, c') \<and> mc_stream c' = mc_stream c"
        using tu s(2) unfolding stream_kept_def by metis
    qed
  qed
  show "stream_kept ops n s (snd (profile_loop ops diff s))" for s diff
    unfolding stream_kept_def using profiles_only_map_of [OF profile_loop_shape [of s ops diff], of n] by metis
qed (auto simp: stream_kept_def map_of_set_entry)

text \<open>A module's stream is switched once: after an entry has another stream than its file, no sequence of
  operations changes it, and enabling a third stream throws \<open>EnableMultipleStreamsException\<close>.\<close>

theorem stream_switched_once:
  assumes "map_of s n = Some (p, c)" "po_get_value ops n ''stream'' p = Inr origin" "mc_stream c \<noteq> origin" "stream \<noteq> mc_stream c"
  shows "get_stream n (fold (module_exec ops) opers s) = Inr (mc_stream c) \<and>
    enable_module ops n stream (fold (module_exec ops) opers s) =
      (Inl (EnableMultipleStreams n), fold (module_exec ops) opers s)"
proof -
  let ?t = "fold (module_exec ops) opers s"
  have "stream_kept ops n s ?t" by (rule module_run_keeps [OF step_kept_stream])
  then obtain c' where t: "map_of ?t n = Some (p, c')" "mc_stream c' = mc_stream c"
    using assms unfolding stream_kept_def by auto
  then have "get_stream n ?t = Inr (mc_stream c)" by (simp add: get_stream_def get_entry_def)
  moreover have "enable_module ops n stream ?t = (Inl (EnableMultipleStreams n), ?t)"
    using t assms by (simp add: enable_module_def change_stream_def lift_change_def then_do_def)
  ultimately show ?thesis ..
qed

lemma fresh_stream: "po_get_value library_parser ''m'' ''stream'' (fresh_file ''m'') = Inr []"
  by code_simp

theorem stream_switched_once_witness:
  "get_stream ''m'' (fold (module_exec library_parser) [DisableOp ''m'', AddProfileOp ''m'' ''p'']
      [(''m'', fresh_file ''m'', empty_config\<lparr>mc_stream := ''1''\<rparr>)]) = Inr ''1'' \<and>
   enable_module library_parser ''m'' ''2'' (fold (module_exec library_parser) [DisableOp ''m'', AddProfileOp ''m'' ''p'']
      [(''m'', fresh_file ''m'', empty_config\<lparr>mc_stream := ''1''\<rparr>)]) =
     (Inl (EnableMultipleStreams ''m''), fold (module_exec library_parser) [DisableOp ''m'', AddProfileOp ''m'' ''p'']
      [(''m'', fresh_file ''m'', empty_config\<lparr>mc_stream := ''1''\<rparr>)])"
  using stream_switched_once [of "[(''m'', fresh_file ''m'', empty_config\<lparr>mc_stream := ''1''\<rparr>)]" "''m''" "fresh_file ''m''"
      "empty_config\<lparr>mc_stream := ''1''\<rparr>" library_parser "[]" "''2''" "[DisableOp ''m'', AddProfileOp ''m'' ''p'']"]
  by (simp add: fresh_stream del: fold_simps)

text \<open>Disabling a module after another of its streams was enabled throws from the change of the stream, when its
  state is already \<open>DISABLED\<close>: the entry is left disabled with the stream and without profiles.\<close>

theorem disable_after_enable_is_partial:
  assumes "map_of s n = Some (p, c)" "po_get_value ops n ''stream'' p = Inr (mc_stream c)" "stream \<noteq> mc_stream c" "stream \<noteq> []"
  shows "disable_module ops n (snd (enable_module ops n stream s)) =
    (Inl (EnableMultipleStreams n),
     set_entry n (p, \<lparr>mc_stream = stream, mc_profiles = [], mc_state = MS_DISABLED\<rparr>) s)"
proof -
  let ?e = "\<lparr>mc_stream = stream, mc_profiles = [], mc_state = MS_ENABLED\<rparr>"
  have e1: "c\<lparr>mc_stream := stream, mc_profiles := []\<rparr> = ?e" if "mc_state c = MS_ENABLED" using that by (cases c) simp
  have e2: "c\<lparr>mc_stream := stream, mc_state := MS_ENABLED, mc_profiles := []\<rparr> = ?e" by (cases c) simp
  have enabled: "enable_module ops n stream s = (Inr True, set_entry n (p, ?e) s)"
    using assms by (cases "mc_state c = MS_ENABLED")
      (simp_all add: enable_module_def change_stream_def change_state_def clear_profiles_def at_config_def lift_change_def
        then_do_def get_entry_def map_of_set_entry set_entry_twice e1 e2)
  show ?thesis
    using assms by (simp add: enabled disable_module_def change_state_def change_stream_def lift_change_def then_do_def get_entry_def
        map_of_set_entry set_entry_twice)
qed

theorem disable_after_enable_is_partial_witness:
  "disable_module library_parser ''m'' (snd (enable_module library_parser ''m'' ''1'' [(''m'', fresh_file ''m'', empty_config)])) =
    (Inl (EnableMultipleStreams ''m''),
     set_entry ''m'' (fresh_file ''m'', \<lparr>mc_stream = ''1'', mc_profiles = [], mc_state = MS_DISABLED\<rparr>)
       [(''m'', fresh_file ''m'', empty_config)])"
  by (rule disable_after_enable_is_partial [where c = empty_config]) (simp_all add: fresh_stream empty_config_def)

section \<open>Saving\<close>

text \<open>What the loop does for its first entry.\<close>

lemma save_step:
  obtains (failed) e p1 where "update_entry ops n c p = (Inl e, p1)"
      "save_loop ops env fname ((n, p, c) # s) fs = (Inl e, (n, p1, c) # s, fs)"
    | (unwritable) p1 where "update_entry ops n c p = (Inr True, p1)" "\<not> fe_writable env (fname n)"
      "save_loop ops env fname ((n, p, c) # s) fs = (Inl (CannotOpenForWriting (fname n)), (n, p1, c) # s, fs)"
    | (saved) b p1 r t fs2 where "update_entry ops n c p = (Inr b, p1)"
      "save_loop ops env fname s (if b then fs(fname n \<mapsto> po_write ops p1) else fs) = (r, t, fs2)"
      "save_loop ops env fname ((n, p, c) # s) fs = (r, (n, p1, c) # t, fs2)"
proof (cases "update_entry ops n c p")
  case (Pair q p1)
  show ?thesis
  proof (cases q)
    case (Inl e)
    then show ?thesis using failed Pair by simp
  next
    case (Inr b)
    obtain r t fs2 where t: "save_loop ops env fname s (if b then fs(fname n \<mapsto> po_write ops p1) else fs) = (r, t, fs2)"
      using prod_cases3 by blast
    show ?thesis
    proof (cases "b \<and> \<not> fe_writable env (fname n)")
      case True
      then show ?thesis using unwritable Pair Inr by simp
    next
      case False
      then have "save_loop ops env fname ((n, p, c) # s) fs = (r, (n, p1, c) # t, fs2)"
        using Pair Inr t by (auto simp: Let_def)
      then show ?thesis using saved Pair Inr t by blast
    qed
  qed
qed

lemma save_loop_other:
  "g \<notin> fname ` fst ` set s \<Longrightarrow> snd (snd (save_loop ops env fname s fs)) g = fs g"
proof (induction s arbitrary: fs)
  case (Cons x s)
  obtain n p c where x: "x = (n, p, c)" by (cases x)
  show ?case
  proof (cases rule: save_step [of ops n c p env fname s fs])
    case (saved b p1 r t fs2)
    have "fs2 g = (if b then fs(fname n \<mapsto> po_write ops p1) else fs) g"
      using Cons.IH [of "if b then fs(fname n \<mapsto> po_write ops p1) else fs"] Cons.prems saved(2) by simp
    then show ?thesis using Cons.prems saved(3) x by auto
  qed (simp_all add: x)
qed simp

context config_file
begin

lemma save_loop_saved:
  assumes "save_loop ops env fname s fs = (Inr (), s', fs')" "\<forall>(n, p, c) \<in> set s. \<forall>x \<in> set (mc_profiles c). item_ok x"
  shows "map (\<lambda>(n, p, c). (n, c)) s' = map (\<lambda>(n, p, c). (n, c)) s \<and>
    (\<forall>(n, p, c) \<in> set s'. loaded_config ops n p = Inr (saved_config c)) \<and>
    (\<forall>fs''. save_loop ops env fname s' fs'' = (Inr (), s', fs''))"
  using assms
proof (induction s arbitrary: fs s' fs')
  case (Cons x s)
  obtain n p c where x: "x = (n, p, c)" by (cases x)
  have items: "\<forall>x \<in> set (mc_profiles c). item_ok x" using Cons.prems(2) x by auto
  show ?case
  proof (cases rule: save_step [of ops n c p env fname s fs])
    case (saved b p1 r t fs2)
    then have s': "r = Inr ()" "s' = (n, p1, c) # t" using Cons.prems(1) x by simp_all
    note e = update_entry_saved [OF saved(1) items]
    show ?thesis using Cons.IH [OF saved(2) [unfolded s'(1)]] Cons.prems(2) e(1,2) x s'(2) by auto
  qed (use Cons.prems(1) x in simp_all)
qed simp

text \<open>The files after a run: that of an entry that was changed holds the text of its parser, the others are as they were.\<close>

lemma save_loop_files:
  assumes "save_loop ops env fname s fs = (Inr (), s', fs')" "distinct (map (fname \<circ> fst) s)" "(n, p', c) \<in> set s'"
  shows "\<exists>p b. (n, p, c) \<in> set s \<and> update_entry ops n c p = (Inr b, p') \<and>
    fs' (fname n) = (if b then Some (po_write ops p') else fs (fname n))"
  using assms
proof (induction s arbitrary: fs s' fs')
  case (Cons x s)
  obtain n1 p1 c1 where x: "x = (n1, p1, c1)" by (cases x)
  show ?case
  proof (cases rule: save_step [of ops n1 c1 p1 env fname s fs])
    case (saved b p2 r t fs2)
    then have s': "r = Inr ()" "s' = (n1, p2, c1) # t" "fs' = fs2" using Cons.prems(1) x by simp_all
    have apart: "fname n1 \<notin> fname ` fst ` set s" using Cons.prems(2) x by (auto simp: image_image)
    consider "(n, p', c) = (n1, p2, c1)" | "(n, p', c) \<in> set t" using Cons.prems(3) s'(2) by auto
    then show ?thesis
    proof cases
      case 1
      have "fs2 (fname n1) = (if b then fs(fname n1 \<mapsto> po_write ops p2) else fs) (fname n1)"
        using save_loop_other [OF apart, of ops env] saved(2) by (metis snd_conv)
      then show ?thesis using 1 x s'(3) saved(1) by (intro exI [of _ p1] exI [of _ b]) simp
    next
      case 2
      obtain p0 b0 where rest: "(n, p0, c) \<in> set s" "update_entry ops n c p0 = (Inr b0, p')"
        "fs2 (fname n) = (if b0 then Some (po_write ops p') else (if b then fs(fname n1 \<mapsto> po_write ops p2) else fs) (fname n))"
        using Cons.IH [OF saved(2) [unfolded s'(1)] _ 2] Cons.prems(2) by auto
      have "fname n \<noteq> fname n1" using apart rest(1) by (metis fst_conv image_eqI)
      then show ?thesis using rest s'(3) by (intro exI [of _ p0] exI [of _ b0]) auto
    qed
  qed (use Cons.prems(1) x in simp_all)
qed simp

text \<open>When a file cannot be written its entry has taken over the values all the same: a later run leaves the file as it was.\<close>

lemma save_loop_failed:
  assumes "save_loop ops env fname s fs = (Inl (CannotOpenForWriting f), s', fs')"
    "\<forall>(n, p, c) \<in> set s. \<forall>x \<in> set (mc_profiles c). item_ok x" "distinct (map (fname \<circ> fst) s)"
    "\<forall>(n, p, c) \<in> set s. fst (update_entry ops n c p) \<noteq> Inl (CannotOpenForWriting f)"
  shows "f \<in> set (map (fname \<circ> fst) s) \<and> fs' f = fs f \<and> map (\<lambda>(n, p, c). (n, c)) s' = map (\<lambda>(n, p, c). (n, c)) s \<and>
    (\<forall>env2 fs2. snd (snd (save_loop ops env2 fname s' fs2)) f = fs2 f)"
  using assms
proof (induction s arbitrary: fs s' fs')
  case (Cons x s)
  obtain n p c where x: "x = (n, p, c)" by (cases x)
  have items: "\<forall>x \<in> set (mc_profiles c). item_ok x" using Cons.prems(2) x by auto
  have first: "snd (snd (save_loop ops env2 fname ((n, p1, c) # t) fs2)) f = snd (snd (save_loop ops env2 fname t fs2)) f"
    if "update_entry ops n c p = (Inr b, p1)" for env2 b p1 t fs2
    using update_entry_saved(2) [OF that items]
    by (cases rule: save_step [of ops n c p1 env2 fname t fs2]) auto
  show ?case
  proof (cases rule: save_step [of ops n c p env fname s fs])
    case (failed e p1)
    then show ?thesis using Cons.prems(1,4) x by auto
  next
    case (unwritable p1)
    then have eq: "f = fname n" "s' = (n, p1, c) # s" "fs' = fs" using Cons.prems(1) x by auto
    have "f \<notin> fname ` fst ` set s" using Cons.prems(3) x eq(1) by (auto simp: image_image)
    then have "snd (snd (save_loop ops env2 fname s' fs2)) f = fs2 f" for env2 fs2
      unfolding eq(2) first [OF unwritable(1)] by (rule save_loop_other)
    then show ?thesis using eq x by simp
  next
    case (saved b p1 r t fs2)
    then have s': "r = Inl (CannotOpenForWriting f)" "s' = (n, p1, c) # t" "fs' = fs2" using Cons.prems(1) x by simp_all
    have ih: "f \<in> set (map (fname \<circ> fst) s)" "fs2 f = (if b then fs(fname n \<mapsto> po_write ops p1) else fs) f"
      "map (\<lambda>(n, p, c). (n, c)) t = map (\<lambda>(n, p, c). (n, c)) s" "\<And>env2 fs2. snd (snd (save_loop ops env2 fname t fs2)) f = fs2 f"
      using Cons.IH [OF saved(2) [unfolded s'(1)]] Cons.prems(2-4) by auto
    have "fname n \<noteq> f" using ih(1) Cons.prems(3) x by auto
    moreover have "snd (snd (save_loop ops env2 fname s' g)) f = g f" for env2 g
      unfolding s'(2) first [OF saved(1)] by (rule ih(4))
    ultimately show ?thesis using ih s' x by auto
  qed
qed simp

end

text \<open>The list option reads back profiles that are not empty and have no separators.\<close>

definition profiles_ok :: "'c persistor \<Rightarrow> bool" where
  "profiles_ok s = list_all (\<lambda>(n, p, c). list_all list_item_ok (mc_profiles c)) s"

lemma profiles_okD: "profiles_ok s \<Longrightarrow> \<forall>(n, p, c) \<in> set s. \<forall>x \<in> set (mc_profiles c). list_item_ok x"
  by (fastforce simp: profiles_ok_def list_all_iff)

lemma names_of_configs:
  "map (\<lambda>(n, p, c). (n, c)) s' = map (\<lambda>(n, p, c). (n, c)) s \<Longrightarrow> map fst s' = map fst s"
  by (drule arg_cong [where f = "map fst"]) (simp add: comp_def case_prod_beta)

text \<open>C28. A save that succeeds is complete and permanent. The entries are unchanged; the parser of every module holds the
  values that were saved, less the states that have no text; the file of every module was written with the text of its
  parser, except where the parser held these values before, and then the file is as it was; no other file is touched.
  Rolling back then keeps the saved values, and saving again, to whatever files, writes nothing. The names of profiles must
  not be empty and must have no separators, and different modules must have different files. What reading the
  written text gives is the parser's matter; an option that a file lacked when it was read is not in the text. A save that
  fails is left out: there the parser has the new values and the file has not.\<close>

theorem saved_states_are_loaded_again:
  assumes "save library_parser env root path s fs = (Inr (), s', fs')" "profiles_ok s"
    and "distinct (map (module_file env root path \<circ> fst) s)"
  shows "map (\<lambda>(n, p, c). (n, c)) s' = map (\<lambda>(n, p, c). (n, c)) s \<and>
    (\<forall>(n, p', c) \<in> set s'. loaded_config library_parser n p' = Inr (saved_config c) \<and>
       (\<exists>p. (n, p, c) \<in> set s \<and> (fs' (module_file env root path n) = Some (cfg_write p') \<or>
          p' = p \<and> fs' (module_file env root path n) = fs (module_file env root path n)))) \<and>
    (\<forall>f. f \<notin> module_file env root path ` fst ` set s \<longrightarrow> fs' f = fs f) \<and>
    rollback library_parser s' = (Inr (), map (\<lambda>(n, p, c). (n, p, saved_config c)) s') \<and>
    save library_parser env root path s' fs'' = (Inr (), s', fs'')"
proof -
  let ?f = "module_file env root path"
  have dir: "env_make_dir env (env_build_filename env [root, path, ''/''])" and
    loop: "save_loop library_parser env ?f s fs = (Inr (), s', fs')"
    using assms(1) by (auto simp: save_def Let_def split: if_splits)
  note saved = library_files.save_loop_saved [OF loop profiles_okD [OF assms(2)]]
  have "distinct (map fst s)" using assms(3) by (simp add: distinct_map flip: map_map)
  then have "loaded library_parser (map (\<lambda>(n, p, c). (n, p, saved_config c)) s')"
    using saved names_of_configs [of s' s] by (auto simp: loaded_def comp_def case_prod_beta)
  moreover have "files_of s' = files_of (map (\<lambda>(n, p, c). (n, p, saved_config c)) s')"
    by (simp add: files_of_def comp_def case_prod_beta)
  ultimately have back_again: "rollback library_parser s' = (Inr (), map (\<lambda>(n, p, c). (n, p, saved_config c)) s')"
    by (rule rollback_to_files)
  have again: "save library_parser env root path s' fs'' = (Inr (), s', fs'')"
    using saved dir by (simp add: save_def Let_def)
  have written: "\<exists>p. (n, p, c) \<in> set s \<and> (fs' (?f n) = Some (cfg_write p') \<or> p' = p \<and> fs' (?f n) = fs (?f n))"
    if mem: "(n, p', c) \<in> set s'" for n p' c
  proof -
    obtain p b where p: "(n, p, c) \<in> set s" "update_entry library_parser n c p = (Inr b, p')"
      "fs' (?f n) = (if b then Some (po_write library_parser p') else fs (?f n))"
      using library_files.save_loop_files [OF loop assms(3) mem] by blast
    have "\<not> b \<Longrightarrow> p' = p"
      by (rule library_files.update_entry_saved(3) [OF p(2)]) (use profiles_okD [OF assms(2)] p(1) in auto)
    then show ?thesis using p by (cases b) (auto simp: library_parser_def)
  qed
  have other: "fs' f = fs f" if "f \<notin> ?f ` fst ` set s" for f
    using save_loop_other [OF that, of library_parser env fs] loop by simp
  show ?thesis using saved back_again again written other by (auto simp: case_prod_beta)
qed

text \<open>An environment for concrete runs.\<close>

definition module_files :: "(string \<Rightarrow> bool) \<Rightarrow> module_env" where
  "module_files writable =
     \<lparr>fe_readable = (\<lambda>_. True), fe_writable = writable, fe_stored = length, env_build_filename = concat, env_make_dir = (\<lambda>_. True)\<rparr>"

definition one_enabled :: "cfg persistor" where
  "one_enabled = [(''m'', fresh_file ''m'', \<lparr>mc_stream = ''1'', mc_profiles = [''p'', ''q''], mc_state = MS_ENABLED\<rparr>)]"

lemma one_enabled_ok: "profiles_ok one_enabled" "distinct (map fst one_enabled)"
  by (simp_all add: one_enabled_def profiles_ok_def list_item_ok_def)

lemma one_enabled_saved: "fst (save library_parser (module_files (\<lambda>_. True)) [] [] one_enabled Map.empty) = Inr ()"
  by code_simp

lemma one_enabled_failed:
  "fst (save library_parser (module_files (\<lambda>_. False)) [] [] one_enabled Map.empty) = Inl (CannotOpenForWriting ''m.module'')"
  by code_simp

text \<open>The file that was written is loaded into another container.\<close>

lemma one_enabled_reloaded:
  "(let fs' = snd (snd (save library_parser (module_files (\<lambda>_. True)) [] [] one_enabled Map.empty)) in
    map (\<lambda>(n, p, c). (n, c)) (snd (persistor_insert library_parser (module_files (\<lambda>_. True)) fs' ''m'' [] []))) =
   map (\<lambda>(n, p, c). (n, c)) one_enabled"
  by code_simp

theorem saved_states_are_loaded_again_witness:
  "let (r, s', fs') = save library_parser (module_files (\<lambda>_. True)) [] [] one_enabled Map.empty in
     rollback library_parser s' = (Inr (), map (\<lambda>(n, p, c). (n, p, saved_config c)) s') \<and>
     (\<forall>(n, p', c) \<in> set s'. fs' ''m.module'' = Some (cfg_write p') \<or> p' = fresh_file ''m'' \<and> fs' ''m.module'' = None) \<and>
     save library_parser (module_files (\<lambda>_. True)) [] [] s' Map.empty = (Inr (), s', Map.empty)"
proof -
  obtain s' fs' where run: "save library_parser (module_files (\<lambda>_. True)) [] [] one_enabled Map.empty = (Inr (), s', fs')"
    using one_enabled_saved by (metis prod.collapse)
  have "distinct (map (module_file (module_files (\<lambda>_. True)) [] [] \<circ> fst) one_enabled)" by (simp add: one_enabled_def)
  from saved_states_are_loaded_again [OF run one_enabled_ok(1) this, of Map.empty] show ?thesis
    unfolding run by (fastforce simp: one_enabled_def module_file_def module_files_def)
qed

lemma map_error_parser: "map_error cfg_to_module_error r = Inl e \<Longrightarrow> \<exists>t. e = ParserError t"
proof (cases r)
  fix d assume "map_error cfg_to_module_error r = Inl e" "r = Inl d"
  then show "\<exists>t. e = ParserError t" by (cases d) (auto simp: map_error_def)
qed (simp add: map_error_def)

lemma library_update_error: "fst (update_entry library_parser n c p) \<noteq> Inl (CannotOpenForWriting f)"
proof -
  let ?P = "\<lambda>e. \<exists>t. e = ParserError t"
  have set_ok: "throws_only ?P (set_option library_parser n k v)" for k v
    unfolding set_option_def
    by (rule throws_only_lift) (auto simp: library_parser_def intro: map_error_parser elim!: and_then_InlE)
  have ask_ok: "throws_only ?P (ask (po_get_value library_parser n k))" for k
    by (rule throws_only_ask) (auto simp: library_parser_def intro: map_error_parser)
  have some_ok: "throws_only ?P (if b then give x else then_do (set_option library_parser n k v) (\<lambda>_. give y))" for b x k v y
    by (simp add: throws_only_give throws_only_then set_ok)
  have "throws_only ?P (then_do (ask (po_get_value library_parser n k))
      (\<lambda>old. if same old then give False else then_do (set_option library_parser n k v) (\<lambda>_. give True)))" for k same v
    by (intro throws_only_then ask_ok some_ok)
  moreover have "throws_only ?P (then_do (set_option library_parser n k v) (\<lambda>_. give True))" for k v
    by (intro throws_only_then set_ok throws_only_give)
  ultimately have "throws_only ?P (update_option library_parser n k same v)" for k same v
    unfolding throws_only_def update_option_def by auto
  then have "throws_only ?P (update_entry library_parser n c)"
    unfolding update_entry_def Let_def by (intro throws_only_then throws_only_give)
  then show ?thesis unfolding throws_only_def by (metis module_error.distinct prod.collapse module_error.simps)
qed

text \<open>A state whose file could not be written is lost for good: the file is as it was, and since the parser of the
  entry holds the new values already, no later save writes the file, even when it has become writable.\<close>

theorem failed_write_is_forgotten:
  assumes "save library_parser env root path s fs = (Inl (CannotOpenForWriting f), s', fs')" "profiles_ok s"
    "distinct (map (\<lambda>x. env_build_filename env [root, path, fst x @ ''.module'']) s)"
    "env_build_filename env' = env_build_filename env"
  shows "map (\<lambda>(n, p, c). (n, c)) s' = map (\<lambda>(n, p, c). (n, c)) s \<and> fs' f = fs f \<and>
    snd (snd (save library_parser env' root path s' fs'')) f = fs'' f"
proof -
  let ?f = "module_file env root path"
  have loop: "save_loop library_parser env ?f s fs = (Inl (CannotOpenForWriting f), s', fs')"
    using assms(1) by (auto simp: save_def Let_def split: if_splits)
  have names: "distinct (map (?f \<circ> fst) s)" using assms(3) by (simp add: comp_def module_file_def)
  have errors: "\<forall>(n, p, c) \<in> set s. fst (update_entry library_parser n c p) \<noteq> Inl (CannotOpenForWriting f)"
    using library_update_error by auto
  have "fs' f = fs f \<and> map (\<lambda>(n, p, c). (n, c)) s' = map (\<lambda>(n, p, c). (n, c)) s \<and>
    (\<forall>env2 fs2. snd (snd (save_loop library_parser env2 ?f s' fs2)) f = fs2 f)"
    using library_files.save_loop_failed [OF loop profiles_okD [OF assms(2)] names errors] by blast
  moreover have "module_file env' root path = ?f" by (simp add: module_file_def [abs_def] assms(4))
  ultimately show ?thesis by (simp add: save_def Let_def)
qed

theorem failed_write_is_forgotten_witness:
  "snd (snd (save library_parser (module_files (\<lambda>_. True)) [] []
     (fst (snd (save library_parser (module_files (\<lambda>_. False)) [] [] one_enabled Map.empty))) Map.empty)) ''m.module'' = None"
  using failed_write_is_forgotten [of "module_files (\<lambda>_. False)" "[]" "[]" one_enabled Map.empty "''m.module''"
      "fst (snd (save library_parser (module_files (\<lambda>_. False)) [] [] one_enabled Map.empty))"
      "snd (snd (save library_parser (module_files (\<lambda>_. False)) [] [] one_enabled Map.empty))" "module_files (\<lambda>_. True)" Map.empty]
    one_enabled_ok(1) one_enabled_failed
  by (simp add: prod_eq_iff one_enabled_def [THEN arg_cong [where f = "map _"]] module_files_def)

end
