(* ===== verification/ModuleChoice.thy ===== *)
theory ModuleChoice
  imports ModulePackages ModuleFacts
begin

text \<open>
  Which packages of modules the solver is asked for: the choice that \<open>resolveActiveModulePackages\<close> makes from the
  states and the default streams.
\<close>

section \<open>The choice of the active packages\<close>

lemma get_set_entry:
  assumes "map_of p n = Some e"
  shows "get_state m (set_entry n (q, c) p) = (if m = n then Inr (mc_state c) else get_state m p)"
    "get_stream m (set_entry n (q, c) p) = (if m = n then Inr (mc_stream c) else get_stream m p)"
  by (simp_all add: get_state_def get_stream_def get_entry_def map_of_set_entry assms)

text \<open>The states but for those that the loop sets to \<open>DEFAULT\<close> while they were neither enabled nor disabled.\<close>

definition same_choice :: "'c modules \<Rightarrow> 'c modules \<Rightarrow> bool" where
  "same_choice s t \<longleftrightarrow> ms_defaults t = ms_defaults s \<and>
     (\<forall>n. get_stream n (ms_persistor t) = get_stream n (ms_persistor s)) \<and>
     (\<forall>n st. get_state n (ms_persistor s) = Inr st \<longrightarrow>
        (\<exists>st'. get_state n (ms_persistor t) = Inr st' \<and> (st' = MS_ENABLED \<longleftrightarrow> st = MS_ENABLED) \<and> (st' = MS_DISABLED \<longleftrightarrow> st = MS_DISABLED)))"

definition chosen :: "'c modules \<Rightarrow> module_package \<Rightarrow> bool" where
  "chosen s m \<longleftrightarrow>
     (case get_module_state (mp_name m) s of
        MS_DISABLED \<Rightarrow> False
      | MS_ENABLED \<Rightarrow> get_stream (mp_name m) (ms_persistor s) = Inr (mp_stream m)
      | _ \<Rightarrow> get_default_stream (mp_name m) s = mp_stream m)"

lemma default_keeps_choice:
  assumes "same_choice s t" "get_state n (ms_persistor t) = Inr st'" "st' \<noteq> MS_ENABLED" "st' \<noteq> MS_DISABLED"
  shows "\<exists>b t'. on_persistor (change_state n MS_DEFAULT) t = (Inr b, t') \<and> same_choice s t'"
proof -
  obtain q c where e: "map_of (ms_persistor t) n = Some (q, c)" "mc_state c = st'"
    using assms(2) by (auto simp: get_state_def get_entry_def split: option.splits)
  show ?thesis
  proof (cases "st' = MS_DEFAULT")
    case True
    then have "on_persistor (change_state n MS_DEFAULT) t = (Inr False, t)"
      using e by (simp add: on_persistor_def change_state_def lift_change_def get_entry_def)
    then show ?thesis using assms(1) by blast
  next
    case False
    let ?t = "t\<lparr>ms_persistor := set_entry n (q, c\<lparr>mc_state := MS_DEFAULT\<rparr>) (ms_persistor t)\<rparr>"
    have run: "on_persistor (change_state n MS_DEFAULT) t = (Inr True, ?t)"
      using e False by (simp add: on_persistor_def change_state_def lift_change_def get_entry_def)
    have stream: "get_stream n (ms_persistor t) = Inr (mc_stream c)" using e(1) by (simp add: get_stream_def get_entry_def)
    have states: "\<exists>st2. get_state m (ms_persistor ?t) = Inr st2 \<and> (st2 = MS_ENABLED \<longleftrightarrow> st = MS_ENABLED) \<and>
        (st2 = MS_DISABLED \<longleftrightarrow> st = MS_DISABLED)" if known: "get_state m (ms_persistor s) = Inr st" for m st
    proof -
      obtain st1 where st1: "get_state m (ms_persistor t) = Inr st1" "st1 = MS_ENABLED \<longleftrightarrow> st = MS_ENABLED"
        "st1 = MS_DISABLED \<longleftrightarrow> st = MS_DISABLED" using assms(1) known unfolding same_choice_def by blast
      show ?thesis using st1 assms(2-4) by (cases "m = n") (simp_all add: get_set_entry [OF e(1)])
    qed
    have "get_stream m (ms_persistor ?t) = get_stream m (ms_persistor s)" for m
    proof -
      have "get_stream m (ms_persistor t) = get_stream m (ms_persistor s)" using assms(1) by (simp add: same_choice_def)
      then show ?thesis using stream by (cases "m = n") (simp_all add: get_set_entry [OF e(1)])
    qed
    then have "same_choice s ?t" using assms(1) states unfolding same_choice_def by simp
    then show ?thesis using run by blast
  qed
qed

lemma choose_packages_eq:
  assumes "list_all (\<lambda>m. \<exists>st. get_state (mp_name m) (ms_persistor s) = Inr st) ms" "same_choice s t"
  shows "fst (choose_packages ms t) =
    Inr (map mp_id (filter (\<lambda>m. is_disabled (mp_name m) s) ms), filter (chosen s) ms)"
  using assms
proof (induction ms arbitrary: t)
  case (Cons m ms)
  obtain st where st: "get_state (mp_name m) (ms_persistor s) = Inr st" using Cons.prems(1) by auto
  obtain st' where st': "get_state (mp_name m) (ms_persistor t) = Inr st'" "st' = MS_ENABLED \<longleftrightarrow> st = MS_ENABLED"
    "st' = MS_DISABLED \<longleftrightarrow> st = MS_DISABLED" using Cons.prems(2) st unfolding same_choice_def by blast
  note rest = Cons.IH [OF _ Cons.prems(2)]
  obtain r u where ru: "choose_packages ms t = (r, u)" by (cases "choose_packages ms t")
  have r: "r = Inr (map mp_id (filter (\<lambda>m. is_disabled (mp_name m) s) ms), filter (chosen s) ms)"
    using rest Cons.prems(1) ru by simp
  have default: "get_default_stream (mp_name m) t = get_default_stream (mp_name m) s"
    using Cons.prems(2) by (simp add: get_default_stream_def same_choice_def)
  have stream: "get_stream n (ms_persistor t) = get_stream n (ms_persistor s)" for n
    using Cons.prems(2) by (simp add: same_choice_def)
  have chosen: "chosen s m = (if st = MS_DISABLED then False
      else if st = MS_ENABLED then get_stream (mp_name m) (ms_persistor s) = Inr (mp_stream m)
      else get_default_stream (mp_name m) s = mp_stream m)"
    by (cases st) (simp_all add: chosen_def get_module_state_def st)
  note eval = then_do_def st' stream default is_disabled_def is_enabled_package_def is_enabled_def persistor_enabled_def
    chosen st
  consider (disabled) "st = MS_DISABLED" | (enabled) "st = MS_ENABLED" | (other) "st \<noteq> MS_DISABLED" "st \<noteq> MS_ENABLED" by blast
  then show ?case
  proof cases
    case disabled
    then show ?thesis by (simp add: eval ru r)
  next
    case enabled
    then show ?thesis by (simp add: eval ru r)
  next
    case other
    show ?thesis
    proof (cases "get_default_stream (mp_name m) s = mp_stream m")
      case False
      then show ?thesis using other by (cases st) (simp_all add: eval ru r)
    next
      case True
      obtain b t' where t': "on_persistor (change_state (mp_name m) MS_DEFAULT) t = (Inr b, t')" "same_choice s t'"
        using default_keeps_choice [OF Cons.prems(2) st'(1)] other st'(2,3) by blast
      have "fst (choose_packages ms t') =
          Inr (map mp_id (filter (\<lambda>m. is_disabled (mp_name m) s) ms), filter (chosen s) ms)"
        using Cons.IH [OF _ t'(2)] Cons.prems(1) by simp
      moreover obtain r' u' where "choose_packages ms t' = (r', u')" by (cases "choose_packages ms t'")
      ultimately show ?thesis using True other t'(1) by (cases st) (simp_all add: eval)
    qed
  qed
qed simp

text \<open>C30. The solver is asked for the packages that the states and defaults choose, and for nothing else: those of
  enabled streams, and those of default streams of modules neither enabled nor disabled; the packages of disabled
  modules are excluded. That the loop sets states to \<open>DEFAULT\<close> on its way changes no later choice.\<close>

theorem active_packages_are_chosen:
  assumes "list_all (\<lambda>m. \<exists>st. get_state (mp_name m) (ms_persistor s) = Inr st) (ms_packages s)"
  shows "fst (choose_packages (ms_packages s) s) =
    Inr (map mp_id (filter (\<lambda>m. is_disabled (mp_name m) s) (ms_packages s)), filter (chosen s) (ms_packages s))"
  by (rule choose_packages_eq [OF assms]) (simp add: same_choice_def)

definition three_modules :: "cfg modules" where
  "three_modules =
     \<lparr>ms_persistor = map (\<lambda>(n, st). (n, cfg_new, \<lparr>mc_stream = ''1'', mc_profiles = [], mc_state = st\<rparr>))
         [(''a'', MS_UNKNOWN), (''b'', MS_ENABLED), (''c'', MS_DISABLED)],
      ms_packages = [example_package 1 ''a'' ''1'', example_package 2 ''a'' ''2'', example_package 3 ''b'' ''1'', example_package 4 ''c'' ''1''],
      ms_active = None, ms_defaults = [(''a'', ''2'')]\<rparr>"

theorem active_packages_are_chosen_witness:
  "fst (choose_packages (ms_packages three_modules) three_modules) =
    Inr (map mp_id (filter (\<lambda>m. is_disabled (mp_name m) three_modules) (ms_packages three_modules)),
         filter (chosen three_modules) (ms_packages three_modules))"
  by (rule active_packages_are_chosen) (simp add: three_modules_def example_package_def get_state_def get_entry_def)

end
