(* ===== verification/ModuleLatest.thy ===== *)
theory ModuleLatest
  imports ModuleContainer "HOL-Library.Option_ord"
begin

text \<open>
  The latest packages of modules (\<open>getLatestModulesPerRepo\<close>, \<open>getLatestActiveEnabledModules\<close> and
  \<open>getInstalledPkgNames\<close> of dnf-4/libdnf/module/ModulePackageContainer.cpp). The comparison of versions of the
  solver, \<open>std::sort\<close> and the patterns of queries are arguments.
\<close>

section \<open>The order\<close>

definition package_latest_less :: "(string \<Rightarrow> string \<Rightarrow> int) \<Rightarrow> module_package \<Rightarrow> module_package \<Rightarrow> bool" where
  "package_latest_less evr_cmp a b =
     (if mp_name a \<noteq> mp_name b then mp_name a < mp_name b
      else if evr_cmp (mp_stream a) (mp_stream b) \<noteq> 0 then evr_cmp (mp_stream a) (mp_stream b) < 0
      else if mp_arch a \<noteq> mp_arch b then mp_arch a < mp_arch b
      else mp_version a > mp_version b)"

definition package_latest_per_repo_less :: "(string \<Rightarrow> string \<Rightarrow> int) \<Rightarrow> module_package \<Rightarrow> module_package \<Rightarrow> bool" where
  "package_latest_per_repo_less evr_cmp a b =
     (if mp_repo a \<noteq> mp_repo b then mp_repo a < mp_repo b
      else if mp_name a \<noteq> mp_name b then mp_name a < mp_name b
      else if evr_cmp (mp_stream a) (mp_stream b) \<noteq> 0 then evr_cmp (mp_stream a) (mp_stream b) < 0
      else if mp_arch a \<noteq> mp_arch b then mp_arch a < mp_arch b
      else mp_version a > mp_version b)"

type_synonym package_sort = "(module_package \<Rightarrow> module_package \<Rightarrow> bool) \<Rightarrow> module_package list \<Rightarrow> module_package list"

section \<open>The latest packages of each repository\<close>

definition installed_profiles_of :: "string \<Rightarrow> 'c modules \<Rightarrow> module_error + string list" where
  "installed_profiles_of name s = get_profiles name (ms_persistor s)"

definition select_modules :: "module_state \<Rightarrow> module_package list \<Rightarrow> 'c modules \<Rightarrow> module_error + module_package list" where
  "select_modules module_filter ms s =
     (if module_filter = MS_ENABLED then Inr (filter (\<lambda>m. is_enabled_package m s) ms)
      else if module_filter = MS_DISABLED then Inr (filter (\<lambda>m. is_disabled (mp_name m) s) ms)
      else if module_filter = MS_INSTALLED then
        collect (\<lambda>m. and_then (installed_profiles_of (mp_name m) s) (\<lambda>profiles.
          Inr (if profiles \<noteq> [] \<and> is_enabled_package m s then Some m else None))) ms
      else Inr ms)"

text \<open>The package whose identifiers are compared is always the one they were last copied from.\<close>

fun latest_loop ::
  "module_package list \<Rightarrow> module_package \<Rightarrow> nat \<Rightarrow> nat \<Rightarrow> module_package list list list \<Rightarrow> module_package list list list" where
  "latest_loop [] cur repo_index key_index out = out"
| "latest_loop (p # ps) cur repo_index key_index out =
     (if mp_repo cur \<noteq> mp_repo p then latest_loop ps p (Suc repo_index) 0 (out @ [[[p]]])
      else if mp_name p \<noteq> mp_name cur \<or> mp_stream p \<noteq> mp_stream cur \<or> mp_arch p \<noteq> mp_arch cur
      then latest_loop ps p repo_index (Suc key_index) (out[repo_index := out ! repo_index @ [[p]]])
      else if mp_version cur = mp_version p
      then latest_loop ps cur repo_index key_index
             (out[repo_index := (out ! repo_index)[key_index := out ! repo_index ! key_index @ [p]]])
      else latest_loop ps cur repo_index key_index out)"

definition get_latest_modules_per_repo ::
  "(string \<Rightarrow> string \<Rightarrow> int) \<Rightarrow> package_sort \<Rightarrow> module_state \<Rightarrow> module_package list \<Rightarrow> 'c modules \<Rightarrow>
    module_error + module_package list list list" where
  "get_latest_modules_per_repo evr_cmp srt module_filter ms s =
     (if ms = [] then Inr []
      else
        and_then (select_modules module_filter ms s) (\<lambda>ms.
          if ms = [] then Inr []
          else (case srt (package_latest_per_repo_less evr_cmp) ms of
                  [] \<Rightarrow> Inr []
                | p # ps \<Rightarrow> Inr (latest_loop ps p 0 0 [[[p]]]))))"

section \<open>The latest active packages\<close>

fun latest_active_loop :: "module_package list \<Rightarrow> module_package \<Rightarrow> module_package list \<Rightarrow> module_package list" where
  "latest_active_loop [] cur out = out"
| "latest_active_loop (p # ps) cur out =
     (if mp_name p \<noteq> mp_name cur \<or> mp_stream p \<noteq> mp_stream cur \<or> mp_arch p \<noteq> mp_arch cur
      then latest_active_loop ps p (out @ [p])
      else latest_active_loop ps cur out)"

definition get_latest_active_enabled_modules ::
  "(string \<Rightarrow> string \<Rightarrow> int) \<Rightarrow> package_sort \<Rightarrow> nat list \<Rightarrow> 'c modules \<Rightarrow> module_error + module_package list" where
  "get_latest_active_enabled_modules evr_cmp srt active s =
     and_then (collect (\<lambda>i. and_then (get_module_package i s) (\<lambda>m. Inr (if is_enabled_package m s then Some m else None))) active)
       (\<lambda>ms.
          if ms = [] then Inr []
          else (case srt (package_latest_less evr_cmp) ms of
                  [] \<Rightarrow> Inr []
                | p # ps \<Rightarrow> Inr (latest_active_loop ps p [p])))"

section \<open>Queries and the names of the installed packages\<close>

definition solvable_name :: "module_package \<Rightarrow> string" where
  "solvable_name m = mp_name m @ '':'' @ mp_stream m @ '':'' @ get_version m @ '':'' @ mp_context m"

definition query_subject :: "(string \<Rightarrow> string \<Rightarrow> bool) \<Rightarrow> string \<Rightarrow> 'c modules \<Rightarrow> module_package list" where
  "query_subject glob subject s = filter (\<lambda>m. glob (subject @ ''*'') (solvable_name m)) (ms_packages s)"

definition string_formater :: "string \<Rightarrow> string" where
  "string_formater text = (if text = [] then ''*'' else text)"

definition query_nsvca ::
  "(string \<Rightarrow> string \<Rightarrow> bool) \<Rightarrow> string \<Rightarrow> string \<Rightarrow> string \<Rightarrow> string \<Rightarrow> string \<Rightarrow> 'c modules \<Rightarrow> module_package list" where
  "query_nsvca glob name stream version context arch s =
     (let pattern = string_formater name @ '':'' @ string_formater stream @ '':'' @ string_formater version @ '':'' @
            string_formater context in
      filter (\<lambda>m. glob pattern (solvable_name m) \<and>
          (arch = [] \<or> glob arch (case mp_arch m of None \<Rightarrow> ''noarch'' | Some a \<Rightarrow> a))) (ms_packages s))"

text \<open>The versions are compared as texts.\<close>

fun latest_by_text :: "module_package list \<Rightarrow> module_package option \<Rightarrow> module_package option" where
  "latest_by_text [] latest = latest"
| "latest_by_text (m # ms) None = latest_by_text ms (Some m)"
| "latest_by_text (m # ms) (Some latest) =
     latest_by_text ms (Some (if get_version m > get_version latest then m else latest))"

definition module_pkg_names ::
  "(string \<Rightarrow> string \<Rightarrow> bool) \<Rightarrow> (string \<Rightarrow> string \<Rightarrow> bool) \<Rightarrow> string \<Rightarrow> 'c modules \<Rightarrow> module_error + string set" where
  "module_pkg_names glob fnmatch name s =
     and_then (get_enabled_stream name s) (\<lambda>stream.
       if stream = [] then Inr {}
       else
         and_then (installed_profiles_of name s) (\<lambda>profiles.
           if profiles = [] then Inr {}
           else
             (let ms = query_subject glob (name @ '':'' @ stream) s;
                  latest = latest_by_text (filter (\<lambda>m. is_module_active (mp_id m) s) ms) None;
                  latest = (if latest = None then latest_by_text ms None else latest) in
              case latest of
                None \<Rightarrow> Inr {}
              | Some m \<Rightarrow> Inr (\<Union>profile \<in> set profiles. \<Union>(_, rpms) \<in> set (named_profiles fnmatch profile m). set rpms))))"

primrec union_names :: "(string \<Rightarrow> module_error + string set) \<Rightarrow> string list \<Rightarrow> module_error + string set" where
  "union_names f [] = Inr {}"
| "union_names f (n # ns) = and_then (f n) (\<lambda>a. and_then (union_names f ns) (\<lambda>b. Inr (a \<union> b)))"

definition get_installed_pkg_names ::
  "(string \<Rightarrow> string \<Rightarrow> bool) \<Rightarrow> (string \<Rightarrow> string \<Rightarrow> bool) \<Rightarrow> 'c modules \<Rightarrow> module_error + string set" where
  "get_installed_pkg_names glob fnmatch s =
     union_names (\<lambda>name. module_pkg_names glob fnmatch name s) (get_all_module_names (ms_persistor s))"

end
