(* ===== verification/ModuleFailSafe.thy ===== *)
theory ModuleFailSafe
  imports ModuleLatest
begin

text \<open>
  Metadata and its copies (dnf-4/libdnf/module/ModulePackageContainer.cpp): adding the packages of a repository,
  the copies that \<open>updateFailSafeData\<close> keeps of the packages of enabled streams and \<open>loadFailSafeData\<close> loads
  when no repository has them, and \<open>enableDependencyTree\<close>. libmodulemd's reader, the directory and the
  requirements of packages are arguments.
\<close>

section \<open>Adding metadata\<close>

record fail_safe_env = module_env +
  env_list_dir :: "file_system \<Rightarrow> string \<Rightarrow> string list"
  env_removable :: "string \<Rightarrow> bool"
  env_read_modules :: "string \<Rightarrow> module_error + module_package list"
  env_install_root :: string
  env_persist_dir :: string

definition FAIL_SAFE_REPO_NAME :: string where "FAIL_SAFE_REPO_NAME = ''@modulefailsafe''"

definition insert_package :: "module_package \<Rightarrow> module_package list \<Rightarrow> module_package list" where
  "insert_package m ms = (if mp_id m \<in> mp_id ` set ms then ms else insort_key mp_id m ms)"

definition add_package ::
  "'c parser_ops \<Rightarrow> 'z fail_safe_env_scheme \<Rightarrow> file_system \<Rightarrow> module_package \<Rightarrow> ('c modules, module_error, unit) action" where
  "add_package ops env fs m s =
     then_do (on_persistor (persistor_insert ops (module_env.truncate env) fs (mp_name m)
         (env_build_filename env [env_install_root env, ''/etc/dnf/modules.d'']))) (\<lambda>_. give ())
       (s\<lparr>ms_packages := insert_package m (ms_packages s)\<rparr>)"

definition add_modules ::
  "'c parser_ops \<Rightarrow> 'z fail_safe_env_scheme \<Rightarrow> file_system \<Rightarrow> string \<Rightarrow> string \<Rightarrow> ('c modules, module_error, unit) action" where
  "add_modules ops env fs content repo s =
     (case env_read_modules env content of
        Inl e \<Rightarrow> (Inl e, s)
      | Inr ms \<Rightarrow> each (add_package ops env fs) (map (\<lambda>m. m\<lparr>mp_repo := repo\<rparr>) ms) s)"

text \<open>The files with states that are read when the container is made.\<close>

definition module_file_names :: "string list \<Rightarrow> string list" where
  "module_file_names entries =
     map (\<lambda>f. take (length f - 7) f) (filter (\<lambda>f. \<not> (length f < 8 \<or> drop (length f - 7) f \<noteq> ''.module'')) entries)"

definition load_states ::
  "'c parser_ops \<Rightarrow> 'z fail_safe_env_scheme \<Rightarrow> file_system \<Rightarrow> ('c modules, module_error, unit) action" where
  "load_states ops env fs =
     (let path = env_build_filename env [env_install_root env, ''/etc/dnf/modules.d''] in
      each (\<lambda>name. then_do (on_persistor (persistor_insert ops (module_env.truncate env) fs name path)) (\<lambda>_. give ()))
        (module_file_names (env_list_dir env fs path)))"

section \<open>Loading the copies\<close>

definition get_yaml_filenames :: "'z fail_safe_env_scheme \<Rightarrow> file_system \<Rightarrow> string \<Rightarrow> string list" where
  "get_yaml_filenames env fs dir =
     sort (filter (\<lambda>f. \<not> (length f < 10 \<or> drop (length f - 5) f \<noteq> ''.yaml'')) (env_list_dir env fs dir))"

text \<open>\<open>std::lower_bound\<close> with \<open>stringStartWithLowerComparator\<close>, and the loop over the names with the prefix.\<close>

definition start_with_lower :: "string \<Rightarrow> string \<Rightarrow> bool" where
  "start_with_lower first pattern \<longleftrightarrow> take (length pattern) first < pattern"

definition prefix_range :: "string list \<Rightarrow> string \<Rightarrow> string list" where
  "prefix_range names prefix =
     takeWhile (\<lambda>n. starts_with n prefix) (dropWhile (\<lambda>n. start_with_lower n prefix) names)"

definition enabled_streams_of :: "'c persistor \<Rightarrow> (string \<times> string) list" where
  "enabled_streams_of p =
     map (\<lambda>(n, _, c). (n, mc_stream c)) (filter (\<lambda>(n, _, c). mc_state c = MS_ENABLED \<and> mc_stream c \<noteq> []) p)"

definition missing_streams :: "'c modules \<Rightarrow> (string \<times> string) list" where
  "missing_streams s =
     filter (\<lambda>(n, stream). \<not> (\<exists>m \<in> set (ms_packages s). mp_name m = n \<and> mp_stream m = stream)) (enabled_streams_of (ms_persistor s))"

text \<open>A file that cannot be read or whose metadata is bad is skipped, with what was added before.\<close>

definition load_file ::
  "'c parser_ops \<Rightarrow> 'z fail_safe_env_scheme \<Rightarrow> file_system \<Rightarrow> string \<Rightarrow> 'c modules \<Rightarrow> 'c modules" where
  "load_file ops env fs name s =
     (case open_read env fs (env_build_filename env [env_persist_dir env, name]) of
        None \<Rightarrow> s
      | Some content \<Rightarrow> snd (add_modules ops env fs content FAIL_SAFE_REPO_NAME s))"

definition load_fail_safe_data ::
  "'c parser_ops \<Rightarrow> 'z fail_safe_env_scheme \<Rightarrow> file_system \<Rightarrow> 'c modules \<Rightarrow> 'c modules" where
  "load_fail_safe_data ops env fs s =
     (let names = get_yaml_filenames env fs (env_persist_dir env) in
      fold (\<lambda>(n, stream). fold (load_file ops env fs) (prefix_range names (n @ '':'' @ stream @ '':'')))
        (missing_streams s) s)"

section \<open>Updating the copies\<close>

definition fail_safe_name :: "module_package \<Rightarrow> string" where
  "fail_safe_name m = get_name_stream m @ '':'' @ get_arch m @ ''.yaml''"

definition lower_bound :: "string list \<Rightarrow> string \<Rightarrow> nat" where
  "lower_bound names name = length (takeWhile (\<lambda>n. n < name) names)"

definition save_copy ::
  "'z fail_safe_env_scheme \<Rightarrow> string list \<Rightarrow> module_package \<Rightarrow> nat set \<times> file_system \<Rightarrow> nat set \<times> file_system" where
  "save_copy env names m = (\<lambda>(marks, fs).
     let name = fail_safe_name m; low = lower_bound names name;
         marks = (if low \<noteq> length names \<and> name = names ! low then insert low marks else marks) in
     if mp_repo m = FAIL_SAFE_REPO_NAME then (marks, fs)
     else (marks, snd (update_file env (env_build_filename env [env_persist_dir env, name]) (mp_yaml m) fs)))"

definition module_of_file :: "string \<Rightarrow> (string \<times> string) option" where
  "module_of_file name =
     (case find_from (\<lambda>c. c = CHR '':'') name 0 of
        None \<Rightarrow> None
      | Some first \<Rightarrow>
          (if first = 0 then None
           else
             (case find_from (\<lambda>c. c = CHR '':'') name (Suc first) of
                None \<Rightarrow> None
              | Some second \<Rightarrow>
                  (if Suc first = second then None
                   else Some (substr name 0 first, substr name (Suc first) (second - Suc first))))))"

definition remove_copy ::
  "'z fail_safe_env_scheme \<Rightarrow> string list \<Rightarrow> 'c modules \<Rightarrow> nat set \<Rightarrow> nat \<Rightarrow> file_system \<Rightarrow> file_system" where
  "remove_copy env names s marks index fs =
     (if index \<in> marks then fs
      else
        (case module_of_file (names ! index) of
           None \<Rightarrow> fs
         | Some (n, stream) \<Rightarrow>
             (let file = env_build_filename env [env_persist_dir env, names ! index] in
              if \<not> is_enabled n stream s \<and> env_removable env file then fs(file := None) else fs)))"

definition update_fail_safe_data ::
  "(string \<Rightarrow> string \<Rightarrow> int) \<Rightarrow> package_sort \<Rightarrow> 'z fail_safe_env_scheme \<Rightarrow> 'c modules \<Rightarrow> file_system \<Rightarrow> module_error + file_system" where
  "update_fail_safe_data evr_cmp srt env s fs =
     (case ms_active s of
        None \<Rightarrow> Inr fs
      | Some active \<Rightarrow>
          and_then (get_latest_active_enabled_modules evr_cmp srt active s) (\<lambda>latest.
            let names = get_yaml_filenames env fs (env_persist_dir env);
                (marks, fs) = fold (save_copy env names) latest ({}, fs)
            in Inr (fold (remove_copy env names s marks) [0..<length names] fs)))"

section \<open>Enabling what enabled packages need\<close>

text \<open>The packages, by identifier, that provide a requirement of a package are an argument.\<close>

definition next_id :: "nat list \<Rightarrow> nat option \<Rightarrow> nat option" where
  "next_id ids after = find (\<lambda>i. case after of None \<Rightarrow> True | Some j \<Rightarrow> j < i) (sorted_list_of_set (set ids))"

definition enable_id :: "'c parser_ops \<Rightarrow> nat \<Rightarrow> ('c modules, module_error, unit) action" where
  "enable_id ops i =
     then_do (ask (get_module_package i)) (\<lambda>m. then_do (enable_in ops m) (\<lambda>_. give ()))"

text \<open>
  The inner loop walks the set by increasing identifier while providers are added to it. Both loops have fuel; a loop that
  runs out of it has the result \<open>None\<close>, which no loop that ends has.
\<close>

fun enable_pass ::
  "'c parser_ops \<Rightarrow> (nat \<Rightarrow> nat list) \<Rightarrow> nat list \<Rightarrow> nat \<Rightarrow> nat option \<Rightarrow> nat list \<Rightarrow> nat list \<Rightarrow>
    ('c modules, module_error, (nat list \<times> nat list) option) action" where
  "enable_pass ops providers active 0 after to_enable enabled = give None"
| "enable_pass ops providers active (Suc fuel) after to_enable enabled =
     (case next_id to_enable after of
        None \<Rightarrow> give (Some (to_enable, enabled))
      | Some i \<Rightarrow>
          then_do (enable_id ops i) (\<lambda>_.
            let enabled = i # enabled;
                found = filter (\<lambda>j. j \<in> set active \<and> j \<notin> set enabled) (providers i)
            in enable_pass ops providers active fuel (Some i) (to_enable @ found) enabled))"

fun enable_closure ::
  "'c parser_ops \<Rightarrow> (nat \<Rightarrow> nat list) \<Rightarrow> nat list \<Rightarrow> nat \<Rightarrow> nat list \<Rightarrow> nat list \<Rightarrow> ('c modules, module_error, unit option) action" where
  "enable_closure ops providers active 0 to_enable enabled = give None"
| "enable_closure ops providers active (Suc fuel) to_enable enabled =
     (if to_enable = [] then give (Some ())
      else
        then_do (enable_pass ops providers active (Suc (length active)) None to_enable enabled) (\<lambda>ended.
          case ended of
            None \<Rightarrow> give None
          | Some (to_enable, enabled) \<Rightarrow>
              enable_closure ops providers active fuel (filter (\<lambda>j. j \<notin> set enabled) to_enable) enabled))"

primrec enable_first ::
  "'c parser_ops \<Rightarrow> (nat \<Rightarrow> nat list) \<Rightarrow> nat list \<Rightarrow> module_package list \<Rightarrow> nat list \<Rightarrow> nat list \<Rightarrow>
    ('c modules, module_error, nat list \<times> nat list) action" where
  "enable_first ops providers active [] to_enable enabled = give (to_enable, enabled)"
| "enable_first ops providers active (m # ms) to_enable enabled =
     (if mp_id m \<notin> set active then enable_first ops providers active ms to_enable enabled
      else
        then_do (enable_in ops m) (\<lambda>_.
          enable_first ops providers active ms
            (to_enable @ filter (\<lambda>j. j \<in> set active) (providers (mp_id m))) (mp_id m # enabled)))"

definition enable_dependency_tree ::
  "'c parser_ops \<Rightarrow> (nat \<Rightarrow> nat list) \<Rightarrow> module_package list \<Rightarrow> ('c modules, module_error, unit option) action" where
  "enable_dependency_tree ops providers ms s =
     (case ms_active s of
        None \<Rightarrow> (Inr (Some ()), s)
      | Some active \<Rightarrow>
          then_do (enable_first ops providers active ms [] []) (\<lambda>(to_enable, enabled).
            enable_closure ops providers active (Suc (length active)) (filter (\<lambda>j. j \<notin> set enabled) to_enable) enabled) s)"

end
