(* ===== verification/ModuleLatestFacts.thy ===== *)
theory ModuleLatestFacts
  imports ModuleLatest ModulePackages ModuleFacts "HOL-Library.Multiset"
begin

text \<open>
  The latest packages of modules: of every repository, name, stream and architecture exactly the packages of
  the greatest version are kept, each group once, provided that only equal streams compare as equal.
\<close>

section \<open>Sorted packages\<close>

definition evr_order :: "(string \<Rightarrow> string \<Rightarrow> int) \<Rightarrow> bool" where
  "evr_order evr \<longleftrightarrow>
     (\<forall>a b. evr a b = 0 \<longleftrightarrow> a = b) \<and> (\<forall>a b. evr a b < 0 \<longleftrightarrow> 0 < evr b a) \<and>
     (\<forall>a b c. evr a b < 0 \<longrightarrow> evr b c < 0 \<longrightarrow> evr a c < 0)"

text \<open>What \<open>std::sort\<close> promises for a strict weak order: the elements, none less than one before it.\<close>

definition strict_weak :: "('a \<Rightarrow> 'a \<Rightarrow> bool) \<Rightarrow> bool" where
  "strict_weak lt \<longleftrightarrow> (\<forall>a b. lt a b \<longrightarrow> \<not> lt b a) \<and> (\<forall>a b c. \<not> lt b a \<longrightarrow> \<not> lt c b \<longrightarrow> \<not> lt c a)"

definition sorts :: "package_sort \<Rightarrow> bool" where
  "sorts srt \<longleftrightarrow>
     (\<forall>lt xs. strict_weak lt \<longrightarrow> mset (srt lt xs) = mset xs \<and> sorted_wrt (\<lambda>a b. \<not> lt b a) (srt lt xs))"

primrec insert_by :: "('a \<Rightarrow> 'a \<Rightarrow> bool) \<Rightarrow> 'a \<Rightarrow> 'a list \<Rightarrow> 'a list" where
  "insert_by lt x [] = [x]"
| "insert_by lt x (y # ys) = (if lt y x then y # insert_by lt x ys else x # y # ys)"

definition insertion_sort :: "('a \<Rightarrow> 'a \<Rightarrow> bool) \<Rightarrow> 'a list \<Rightarrow> 'a list" where
  "insertion_sort lt xs = foldr (insert_by lt) xs []"

lemma mset_insert_by [simp]: "mset (insert_by lt x xs) = add_mset x (mset xs)"
  by (induction xs) simp_all

lemma set_insert_by [simp]: "set (insert_by lt x xs) = insert x (set xs)"
  by (induction xs) auto

lemma insert_by_sorted:
  assumes "strict_weak lt" "sorted_wrt (\<lambda>a b. \<not> lt b a) xs"
  shows "sorted_wrt (\<lambda>a b. \<not> lt b a) (insert_by lt x xs)"
  using assms(2)
proof (induction xs)
  case (Cons y ys)
  show ?case
  proof (cases "lt y x")
    case True
    then have "\<not> lt x y" using assms(1) unfolding strict_weak_def by blast
    then show ?thesis using True Cons by simp
  next
    case False
    have "\<not> lt z x" if "z \<in> set ys" for z
    proof -
      have "\<not> lt z y" using Cons.prems that by simp
      then show ?thesis using assms(1) False unfolding strict_weak_def by blast
    qed
    then show ?thesis using False Cons.prems by simp
  qed
qed simp

lemma insertion_sort_sorts: "sorts insertion_sort"
proof -
  have "mset (insertion_sort lt xs) = mset xs \<and> sorted_wrt (\<lambda>a b. \<not> lt b a) (insertion_sort lt xs)"
    if "strict_weak lt" for lt :: "module_package \<Rightarrow> module_package \<Rightarrow> bool" and xs
    by (induction xs) (simp_all add: insertion_sort_def insert_by_sorted [OF that])
  then show ?thesis by (simp add: sorts_def)
qed

text \<open>An order by several keys, one after the other.\<close>

lemma strict_weak_then:
  assumes "strict_weak l1" "strict_weak l2"
  shows "strict_weak (\<lambda>a b. l1 a b \<or> \<not> l1 b a \<and> l2 a b)"
  using assms unfolding strict_weak_def by meson

lemma strict_weak_key:
  fixes f :: "'a \<Rightarrow> 'k :: linorder"
  shows "strict_weak (\<lambda>a b. f a < f b)" "strict_weak (\<lambda>a b. f b < f a)"
  by (auto simp: strict_weak_def)

lemma evr_cases:
  assumes "evr_order evr"
  obtains "a = b" "evr a b = 0" "evr b a = 0" | "a \<noteq> b" "evr a b < 0" "0 < evr b a" | "a \<noteq> b" "0 < evr a b" "evr b a < 0"
proof -
  have "evr x y = 0 \<longleftrightarrow> x = y" "evr x y < 0 \<longleftrightarrow> 0 < evr y x" for x y using assms by (simp_all add: evr_order_def)
  then show thesis using that by (metis linorder_less_linear)
qed

lemma strict_weak_evr:
  assumes "evr_order evr"
  shows "strict_weak (\<lambda>a b. evr (f a) (f b) < 0)"
  unfolding strict_weak_def
proof (intro conjI allI impI)
  fix a b assume "evr (f a) (f b) < 0"
  then show "\<not> evr (f b) (f a) < 0" by (cases rule: evr_cases [OF assms, of "f a" "f b"]) simp_all
next
  fix a b c assume ab: "\<not> evr (f b) (f a) < 0" and bc: "\<not> evr (f c) (f b) < 0"
  have le: "x = y \<or> evr x y < 0" if "\<not> evr y x < 0" for x y
    using that by (cases rule: evr_cases [OF assms, of x y]) simp_all
  have "f a = f c \<or> evr (f a) (f c) < 0"
    using le [OF ab] le [OF bc] assms unfolding evr_order_def by metis
  then show "\<not> evr (f c) (f a) < 0" by (cases rule: evr_cases [OF assms, of "f a" "f c"]) auto
qed

lemma package_latest_strict: "evr_order evr \<Longrightarrow> strict_weak (package_latest_less evr)"
proof -
  assume e: "evr_order evr"
  have "package_latest_less evr = (\<lambda>a b. mp_name a < mp_name b \<or> \<not> mp_name b < mp_name a \<and>
    (evr (mp_stream a) (mp_stream b) < 0 \<or> \<not> evr (mp_stream b) (mp_stream a) < 0 \<and>
    (mp_arch a < mp_arch b \<or> \<not> mp_arch b < mp_arch a \<and> mp_version b < mp_version a)))"
  proof (intro ext)
    fix a b
    show "package_latest_less evr a b = (mp_name a < mp_name b \<or> \<not> mp_name b < mp_name a \<and>
      (evr (mp_stream a) (mp_stream b) < 0 \<or> \<not> evr (mp_stream b) (mp_stream a) < 0 \<and>
      (mp_arch a < mp_arch b \<or> \<not> mp_arch b < mp_arch a \<and> mp_version b < mp_version a)))"
      by (cases rule: evr_cases [OF e, of "mp_stream a" "mp_stream b"]) (auto simp: package_latest_less_def)
  qed
  then show ?thesis by (simp only:) (intro strict_weak_then strict_weak_key strict_weak_evr [OF e])
qed

lemma package_latest_per_repo_strict: "evr_order evr \<Longrightarrow> strict_weak (package_latest_per_repo_less evr)"
proof -
  assume e: "evr_order evr"
  have "package_latest_per_repo_less evr = (\<lambda>a b. mp_repo a < mp_repo b \<or> \<not> mp_repo b < mp_repo a \<and> package_latest_less evr a b)"
    by (auto simp: package_latest_per_repo_less_def package_latest_less_def fun_eq_iff)
  then show ?thesis by (simp only:) (intro strict_weak_then strict_weak_key package_latest_strict [OF e])
qed

definition key_of :: "module_package \<Rightarrow> string \<times> string \<times> string \<times> string option" where
  "key_of p = (mp_repo p, mp_name p, mp_stream p, mp_arch p)"

abbreviation latest_le :: "(string \<Rightarrow> string \<Rightarrow> int) \<Rightarrow> module_package \<Rightarrow> module_package \<Rightarrow> bool" where
  "latest_le evr a b \<equiv> \<not> package_latest_per_repo_less evr b a"

lemma key_run:
  assumes "evr_order evr" "latest_le evr a b" "latest_le evr b c"
  shows "mp_repo a = mp_repo c \<Longrightarrow> mp_repo b = mp_repo c"
    "key_of a = key_of c \<Longrightarrow> key_of b = key_of c"
proof -
  show repo: "mp_repo b = mp_repo c" if "mp_repo a = mp_repo c"
    using assms(2,3) that by (auto simp: package_latest_per_repo_less_def split: if_splits)
  assume k: "key_of a = key_of c"
  have r: "mp_repo b = mp_repo c" using k repo by (simp add: key_of_def)
  have n: "mp_name b = mp_name c"
    using assms(2,3) k r by (auto simp: package_latest_per_repo_less_def key_of_def split: if_splits)
  have s: "mp_stream b = mp_stream c"
  proof (rule ccontr)
    assume "mp_stream b \<noteq> mp_stream c"
    then have "evr (mp_stream b) (mp_stream c) \<noteq> 0" "evr (mp_stream c) (mp_stream b) \<noteq> 0"
      using assms(1) by (auto simp: evr_order_def)
    then have "\<not> evr (mp_stream b) (mp_stream c) < 0" "\<not> evr (mp_stream c) (mp_stream b) < 0"
      using assms(2,3) k r n by (auto simp: package_latest_per_repo_less_def key_of_def)
    moreover have "evr (mp_stream b) (mp_stream c) < 0 \<or> evr (mp_stream c) (mp_stream b) < 0"
      using assms(1) \<open>evr (mp_stream b) (mp_stream c) \<noteq> 0\<close> unfolding evr_order_def by (metis linorder_less_linear)
    ultimately show False by blast
  qed
  have "evr x x = 0" for x using assms(1) by (simp add: evr_order_def)
  then have "mp_arch b = mp_arch c"
    using assms(2,3) k r n s by (auto simp: package_latest_per_repo_less_def key_of_def split: if_splits)
  then show "key_of b = key_of c" using r n s by (simp add: key_of_def)
qed

lemma version_descends:
  "evr_order evr \<Longrightarrow> latest_le evr a b \<Longrightarrow> key_of a = key_of b \<Longrightarrow> mp_version b \<le> mp_version a"
  by (auto simp: package_latest_per_repo_less_def key_of_def evr_order_def split: if_splits)

section \<open>Groups\<close>

definition is_latest :: "module_package list \<Rightarrow> module_package \<Rightarrow> bool" where
  "is_latest ms p \<longleftrightarrow> list_all (\<lambda>q. key_of q = key_of p \<longrightarrow> mp_version q \<le> mp_version p) ms"

text \<open>One list for every repository in which each list holds the packages of one name, stream and architecture.\<close>

definition grouped :: "module_package list list list \<Rightarrow> bool" where
  "grouped out \<longleftrightarrow>
     list_all (\<lambda>g. g \<noteq> [] \<and> list_all (\<lambda>l. l \<noteq> [] \<and> mp_repo (hd l) = mp_repo (hd (hd g)) \<and>
        list_all (\<lambda>p. key_of p = key_of (hd l)) l) g) out \<and>
     distinct (map (key_of \<circ> hd) (concat out)) \<and> distinct (map (mp_repo \<circ> hd \<circ> hd) out)"

lemma grouped_members:
  assumes "grouped out" "g \<in> set out" "l \<in> set g"
  shows "l \<noteq> []" "hd l \<in> set (concat (concat out))" "mp_repo (hd l) = mp_repo (hd (hd g))"
proof -
  note g = bspec [OF assms(1) [unfolded grouped_def list_all_iff, THEN conjunct1] assms(2)]
  note l = bspec [OF conjunct2 [OF g] assms(3)]
  show l: "l \<noteq> []" and "mp_repo (hd l) = mp_repo (hd (hd g))" using l by blast+
  have "hd l \<in> set l" using l by simp
  then show "hd l \<in> set (concat (concat out))" using assms(2,3) by auto
qed

lemma grouped_fresh:
  assumes "grouped out"
  shows "\<forall>q \<in> set (concat (concat out)). key_of q \<noteq> key_of p \<Longrightarrow> key_of p \<notin> set (map (key_of \<circ> hd) (concat out))"
    "\<forall>q \<in> set (concat (concat out)). mp_repo q \<noteq> mp_repo p \<Longrightarrow> mp_repo p \<notin> set (map (mp_repo \<circ> hd \<circ> hd) out)"
proof -
  show "key_of p \<notin> set (map (key_of \<circ> hd) (concat out))" if new: "\<forall>q \<in> set (concat (concat out)). key_of q \<noteq> key_of p"
  proof
    assume "key_of p \<in> set (map (key_of \<circ> hd) (concat out))"
    then obtain g l where gl: "g \<in> set out" "l \<in> set g" "key_of p = key_of (hd l)" by auto
    have "key_of (hd l) \<noteq> key_of p" by (rule bspec [OF new grouped_members(2) [OF assms gl(1,2)]])
    then show False using gl(3) by simp
  qed
  show "mp_repo p \<notin> set (map (mp_repo \<circ> hd \<circ> hd) out)" if new: "\<forall>q \<in> set (concat (concat out)). mp_repo q \<noteq> mp_repo p"
  proof
    assume "mp_repo p \<in> set (map (mp_repo \<circ> hd \<circ> hd) out)"
    then obtain g where g: "g \<in> set out" "mp_repo p = mp_repo (hd (hd g))" by auto
    have "g \<noteq> []" using bspec [OF assms [unfolded grouped_def list_all_iff, THEN conjunct1] g(1)] by blast
    then have "hd g \<in> set g" by simp
    then have "mp_repo (hd (hd g)) \<noteq> mp_repo p" by (rule bspec [OF new grouped_members(2) [OF assms g(1)]])
    then show False using g(2) by simp
  qed
qed

lemma grouped_new_repo:
  assumes "grouped out" "\<forall>q \<in> set (concat (concat out)). mp_repo q \<noteq> mp_repo p"
  shows "grouped (out @ [[[p]]])"
proof -
  have "\<forall>q \<in> set (concat (concat out)). key_of q \<noteq> key_of p" using assms(2) by (simp add: key_of_def)
  then show ?thesis using grouped_fresh [OF assms(1), of p] assms by (simp add: grouped_def)
qed

lemma grouped_new_key:
  assumes "grouped (os @ [g])" "mp_repo p = mp_repo (hd (hd g))" "\<forall>q \<in> set (concat (concat (os @ [g]))). key_of q \<noteq> key_of p"
  shows "grouped (os @ [g @ [[p]]])"
proof -
  have "key_of p \<notin> set (map (key_of \<circ> hd) (concat (os @ [g])))" using grouped_fresh(1) [OF assms(1), of p] assms(3) by blast
  moreover have "g \<noteq> []" using assms(1) by (simp add: grouped_def)
  ultimately show ?thesis using assms(1,2) by (simp add: grouped_def Int_Un_distrib)
qed

lemma grouped_same_key:
  assumes "grouped (os @ [gs @ [l]])" "key_of p = key_of (hd l)"
  shows "grouped (os @ [gs @ [l @ [p]]])"
proof -
  have "l \<noteq> []" using grouped_members(1) [OF assms(1), of "gs @ [l]" l] by simp
  then have h: "hd (l @ [p]) = hd l" "hd (hd (gs @ [l @ [p]])) = hd (hd (gs @ [l]))" by (simp_all add: hd_append)
  show ?thesis using assms by (simp add: grouped_def h comp_def)
qed

text \<open>The state of the loop between two packages: \<open>pre\<close> was read.\<close>

definition latest_inv :: "module_package list \<Rightarrow> module_package list \<Rightarrow> module_package \<Rightarrow> nat \<Rightarrow> nat \<Rightarrow> module_package list list list \<Rightarrow> bool" where
  "latest_inv whole pre cur ri ki out \<longleftrightarrow>
     grouped out \<and> concat (concat out) = filter (is_latest whole) pre \<and> is_latest whole cur \<and>
     (\<exists>a b. pre = a @ cur # b \<and> list_all (\<lambda>x. key_of x = key_of cur) b) \<and>
     (\<exists>os gs l. out = os @ [gs @ [l]] \<and> ri = length os \<and> ki = length gs \<and> key_of (hd l) = key_of cur \<and>
        mp_repo (hd (hd (gs @ [l]))) = mp_repo cur)"

text \<open>A package whose key differs from that of the last group is the first of its group.\<close>

lemma new_run:
  assumes "evr_order evr" "sorted_wrt (latest_le evr) (a @ cur # b @ p # ps)" "list_all (\<lambda>x. key_of x = key_of cur) b"
  shows "key_of p \<noteq> key_of cur \<Longrightarrow> \<forall>q \<in> set (a @ cur # b). key_of q \<noteq> key_of p"
    "mp_repo p \<noteq> mp_repo cur \<Longrightarrow> \<forall>q \<in> set (a @ cur # b). mp_repo q \<noteq> mp_repo p"
proof -
  have before: "latest_le evr q cur \<and> latest_le evr cur p" if "q \<in> set a" for q
    using assms(2) that by (auto simp: sorted_wrt_append)
  have b: "key_of q = key_of cur" if "q \<in> set b" for q using assms(3) that by (simp add: list_all_iff)
  show "\<forall>q \<in> set (a @ cur # b). key_of q \<noteq> key_of p" if "key_of p \<noteq> key_of cur"
    using that b key_run(2) [OF assms(1)] before by (metis Un_iff set_ConsD set_append)
  show "\<forall>q \<in> set (a @ cur # b). mp_repo q \<noteq> mp_repo p" if "mp_repo p \<noteq> mp_repo cur"
  proof
    fix q assume "q \<in> set (a @ cur # b)"
    then consider "q \<in> set a" | "q = cur" | "q \<in> set b" by auto
    then show "mp_repo q \<noteq> mp_repo p"
    proof cases
      case 1
      then have "mp_repo q = mp_repo p \<Longrightarrow> mp_repo cur = mp_repo p" using key_run(1) [OF assms(1), where a = q and b = cur and c = p] before by blast
      then show ?thesis using that by auto
    next
      case 3
      then show ?thesis using that b by (auto simp: key_of_def)
    qed (use that in simp)
  qed
qed

lemma first_of_run_latest:
  assumes "evr_order evr" "sorted_wrt (latest_le evr) (pre @ p # ps)" "\<forall>q \<in> set pre. key_of q \<noteq> key_of p"
  shows "is_latest (pre @ p # ps) p"
proof -
  have "mp_version q \<le> mp_version p" if "q \<in> set (pre @ p # ps)" "key_of q = key_of p" for q
  proof -
    have "q \<in> set (p # ps)" using that assms(3) by auto
    then show ?thesis using assms(2) version_descends [OF assms(1), where a = p and b = q] that(2) by (auto simp: sorted_wrt_append)
  qed
  then show ?thesis by (auto simp: is_latest_def list_all_iff)
qed

lemma latest_loop_inv:
  assumes "evr_order evr" "sorted_wrt (latest_le evr) (pre @ ps)" "latest_inv (pre @ ps) pre cur ri ki out"
  shows "grouped (latest_loop ps cur ri ki out) \<and>
    concat (concat (latest_loop ps cur ri ki out)) = filter (is_latest (pre @ ps)) (pre @ ps)"
  using assms(2,3)
proof (induction ps arbitrary: pre cur ri ki out)
  case Nil
  then show ?case by (simp add: latest_inv_def)
next
  case (Cons p ps)
  let ?whole = "pre @ p # ps"
  have step: ?case if "latest_inv ?whole (pre @ [p]) cur' ri' ki' out'"
    "latest_loop (p # ps) cur ri ki out = latest_loop ps cur' ri' ki' out'" for cur' ri' ki' out'
    using Cons.IH [of "pre @ [p]" cur' ri' ki' out'] Cons.prems(1) that by simp
  obtain a b where pre: "pre = a @ cur # b" "list_all (\<lambda>x. key_of x = key_of cur) b"
    using Cons.prems(2) by (auto simp: latest_inv_def)
  obtain os gs l where out: "out = os @ [gs @ [l]]" "ri = length os" "ki = length gs" "key_of (hd l) = key_of cur"
    "mp_repo (hd (hd (gs @ [l]))) = mp_repo cur"
    using Cons.prems(2) by (auto simp: latest_inv_def)
  have inv: "grouped out" "concat (concat out) = filter (is_latest ?whole) pre" "is_latest ?whole cur"
    using Cons.prems(2) by (simp_all add: latest_inv_def)
  have members: "set (concat (concat out)) \<subseteq> set pre" by (simp add: inv(2) del: set_concat)
  have new: "is_latest ?whole p" "\<exists>a b. pre @ [p] = a @ p # b \<and> list_all (\<lambda>x. key_of x = key_of p) b" if "key_of p \<noteq> key_of cur"
  proof -
    have "\<forall>q \<in> set pre. key_of q \<noteq> key_of p"
      using new_run(1) [OF assms(1), of a cur b p ps] Cons.prems(1) pre that by simp
    then show "is_latest ?whole p" by (rule first_of_run_latest [OF assms(1) Cons.prems(1)])
    have "pre @ [p] = pre @ p # [] \<and> list_all (\<lambda>x. key_of x = key_of p) []" by simp
    then show "\<exists>a b. pre @ [p] = a @ p # b \<and> list_all (\<lambda>x. key_of x = key_of p) b" by blast
  qed
  consider (repo) "mp_repo p \<noteq> mp_repo cur" | (key) "mp_repo p = mp_repo cur" "key_of p \<noteq> key_of cur" | (same) "key_of p = key_of cur"
    by blast
  then show ?case
  proof cases
    case repo
    then have k: "key_of p \<noteq> key_of cur" by (auto simp: key_of_def)
    have "\<forall>q \<in> set pre. mp_repo q \<noteq> mp_repo p"
      using new_run(2) [OF assms(1), of a cur b p ps] Cons.prems(1) pre repo by simp
    then have "grouped (out @ [[[p]]])" using members by (intro grouped_new_repo [OF inv(1)]) blast
    then have "latest_inv ?whole (pre @ [p]) p (Suc ri) 0 (out @ [[[p]]])"
      using new [OF k] inv(2) out(1,2) by (auto simp: latest_inv_def)
    then show ?thesis by (rule step) (use repo in simp)
  next
    case key
    have "\<forall>q \<in> set pre. key_of q \<noteq> key_of p"
      using new_run(1) [OF assms(1), of a cur b p ps] Cons.prems(1) pre key by simp
    then have "grouped (os @ [(gs @ [l]) @ [[p]]])"
      using members inv(1) out(1,5) key(1) by (intro grouped_new_key) auto
    then have "latest_inv ?whole (pre @ [p]) p ri (Suc ki) (os @ [(gs @ [l]) @ [[p]]])"
      unfolding latest_inv_def
    proof (intro conjI)
      show "\<exists>osa gsa la. os @ [(gs @ [l]) @ [[p]]] = osa @ [gsa @ [la]] \<and> ri = length osa \<and> Suc ki = length gsa \<and>
          key_of (hd la) = key_of p \<and> mp_repo (hd (hd (gsa @ [la]))) = mp_repo p"
        using out key(1) by (intro exI [of _ os] exI [of _ "gs @ [l]"] exI [of _ "[p]"]) (auto simp: hd_append split: if_splits)
    qed (use new [OF key(2)] inv(2) out(1) in simp_all)
    then show ?thesis by (rule step) (use key out in \<open>auto simp: key_of_def\<close>)
  next
    case same
    have b: "\<exists>a b. pre @ [p] = a @ cur # b \<and> list_all (\<lambda>x. key_of x = key_of cur) b"
      using pre same by (intro exI [of _ a] exI [of _ "b @ [p]"]) simp
    have cur: "cur \<in> set pre" using pre by simp
    show ?thesis
    proof (cases "mp_version cur = mp_version p")
      case True
      have latest: "is_latest ?whole p" using inv(3) same True by (simp add: is_latest_def)
      have "grouped (os @ [gs @ [l @ [p]]])" using inv(1) out same by (intro grouped_same_key) simp_all
      moreover have "l \<noteq> []" using inv(1) out(1) grouped_members(1) [of out "gs @ [l]" l] by simp
      then have "hd (l @ [p]) = hd l" "hd (gs @ [l @ [p]]) = (if gs = [] then l @ [p] else hd gs)"
        "hd (gs @ [l]) = (if gs = [] then l else hd gs)" by (simp_all add: hd_append)
      ultimately have "latest_inv ?whole (pre @ [p]) cur ri ki (os @ [gs @ [l @ [p]]])"
        using latest b inv(2,3) out unfolding latest_inv_def by (auto split: if_splits)
      then show ?thesis by (rule step) (use same out True in \<open>auto simp: key_of_def\<close>)
    next
      case False
      have "\<not> is_latest ?whole p"
      proof
        assume "is_latest ?whole p"
        then have "mp_version cur \<le> mp_version p" using cur same by (auto simp: is_latest_def list_all_iff)
        moreover have "mp_version p \<le> mp_version cur" using inv(3) same by (auto simp: is_latest_def)
        ultimately show False using False by simp
      qed
      then have "latest_inv ?whole (pre @ [p]) cur ri ki out"
        using b inv out unfolding latest_inv_def by auto
      then show ?thesis by (rule step) (use same False in \<open>auto simp: key_of_def\<close>)
    qed
  qed
qed

text \<open>\<open>getLatestModulesPerRepo\<close> keeps, of the selected packages, exactly those that no package of the same
  repository, name, stream and architecture surpasses in version, one list for each repository and one in it for
  each name, stream and architecture; equal comparison of streams must mean equal streams.\<close>

theorem latest_modules_per_repo:
  assumes "evr_order evr" "sorts srt" "select_modules module_filter ms s = Inr sel"
  shows "\<exists>out. get_latest_modules_per_repo evr srt module_filter ms s = Inr out \<and> grouped out \<and>
    mset (concat (concat out)) = mset (filter (is_latest sel) sel)"
proof (cases "sel = []")
  case True
  then show ?thesis using assms(3) by (simp add: get_latest_modules_per_repo_def grouped_def)
next
  case False
  have ms: "ms \<noteq> []" using assms(3) False by (auto simp: select_modules_def split: if_splits)
  let ?sorted = "srt (package_latest_per_repo_less evr) sel"
  have sorted: "mset ?sorted = mset sel" "sorted_wrt (latest_le evr) ?sorted"
    using assms(2) package_latest_per_repo_strict [OF assms(1)] by (simp_all add: sorts_def)
  have "?sorted \<noteq> []" using sorted(1) False by auto
  then obtain p ps where p: "?sorted = p # ps" by (cases ?sorted) auto
  have same: "is_latest ?sorted = is_latest sel" using mset_eq_setD [OF sorted(1)] by (auto simp: is_latest_def list_all_iff fun_eq_iff)
  have "is_latest (p # ps) p" using first_of_run_latest [OF assms(1), of "[]" p ps] sorted(2) p by simp
  moreover have "\<exists>a b. [p] = a @ p # b \<and> list_all (\<lambda>x. key_of x = key_of p) b" by (intro exI [of _ "[]"]) simp
  moreover have "\<exists>os gs l. [[[p]]] = os @ [gs @ [l]] \<and> 0 = length os \<and> 0 = length gs \<and> key_of (hd l) = key_of p \<and>
        mp_repo (hd (hd (gs @ [l]))) = mp_repo p"
    by (intro exI [of _ "[]"] exI [of _ "[p]"]) simp
  ultimately have "latest_inv ([p] @ ps) [p] p 0 0 [[[p]]]" by (simp add: latest_inv_def grouped_def)
  then have "grouped (latest_loop ps p 0 0 [[[p]]]) \<and>
      concat (concat (latest_loop ps p 0 0 [[[p]]])) = filter (is_latest ?sorted) ?sorted"
    using latest_loop_inv [OF assms(1), of "[p]" ps] sorted(2) p by simp
  moreover have "mset (filter (is_latest ?sorted) ?sorted) = mset (filter (is_latest sel) sel)"
    by (simp add: same sorted(1))
  moreover have "get_latest_modules_per_repo evr srt module_filter ms s = Inr (latest_loop ps p 0 0 [[[p]]])"
    using False ms p by (simp add: get_latest_modules_per_repo_def assms(3))
  ultimately show ?thesis by auto
qed

definition text_evr :: "string \<Rightarrow> string \<Rightarrow> int" where
  "text_evr a b = (if a = b then 0 else if a < b then - 1 else 1)"

lemma text_evr_order: "evr_order text_evr"
  by (auto simp: evr_order_def text_evr_def)

theorem latest_modules_per_repo_witness:
  "\<exists>out. get_latest_modules_per_repo text_evr insertion_sort MS_UNKNOWN
      [example_package 1 ''a'' ''1'', (example_package 2 ''a'' ''1'')\<lparr>mp_version := 2\<rparr>]
      \<lparr>ms_persistor = [] :: cfg persistor, ms_packages = [], ms_active = None, ms_defaults = []\<rparr> = Inr out \<and> grouped out \<and>
    mset (concat (concat out)) = {#(example_package 2 ''a'' ''1'')\<lparr>mp_version := 2\<rparr>#}"
proof -
  let ?ms = "[example_package 1 ''a'' ''1'', (example_package 2 ''a'' ''1'')\<lparr>mp_version := 2\<rparr>]"
  have "filter (is_latest ?ms) ?ms = [(example_package 2 ''a'' ''1'')\<lparr>mp_version := 2\<rparr>]"
    by (simp add: is_latest_def key_of_def example_package_def)
  then show ?thesis
    using latest_modules_per_repo [OF text_evr_order insertion_sort_sorts, of MS_UNKNOWN ?ms
        "\<lparr>ms_persistor = [] :: cfg persistor, ms_packages = [], ms_active = None, ms_defaults = []\<rparr>" ?ms]
    by (simp add: select_modules_def)
qed

end
