(* ===== verification/ModuleFailSafeFacts.thy ===== *)
theory ModuleFailSafeFacts
  imports ModuleFailSafe ModuleLatestFacts TextFacts
begin

text \<open>
  The copies of metadata: the binary search finds all the files of a stream, the copies of enabled streams stay
  and those of other modules go; and enabling a package enables everything that it needs.
\<close>

section \<open>Files with a prefix\<close>

lemma take_lex_mono: "xs \<le> ys \<Longrightarrow> take k xs \<le> take k (ys :: string)"
proof (induction xs arbitrary: ys k)
  case (Cons x xs)
  then show ?case by (cases ys; cases k) auto
qed simp

lemma equal_range:
  fixes f :: "'a \<Rightarrow> 'k :: linorder"
  assumes "sorted (map f xs)"
  shows "takeWhile (\<lambda>x. f x = p) (dropWhile (\<lambda>x. f x < p) xs) = filter (\<lambda>x. f x = p) xs"
  using assms
proof (induction xs)
  case (Cons x xs)
  consider "f x < p" | "f x = p" | "p < f x" by fastforce
  then show ?case
  proof cases
    case 2
    then have "dropWhile (\<lambda>x. f x < p) xs = xs" using Cons.prems by (cases xs) auto
    then show ?thesis using 2 Cons by simp
  next
    case 3
    then have "filter (\<lambda>x. f x = p) xs = []" using Cons.prems by (auto simp: filter_empty_conv)
    then show ?thesis using 3 by auto
  qed (use Cons in auto)
qed simp

lemma prefix_range_filter:
  assumes "sorted names"
  shows "prefix_range names prefix = filter (\<lambda>n. starts_with n prefix) names"
proof -
  have "sorted (map (take (length prefix)) names)"
    using assms by (induction names) (auto simp: take_lex_mono)
  note range = equal_range [OF this, of prefix]
  have "starts_with n prefix \<longleftrightarrow> take (length prefix) n = prefix" for n
    by (auto simp: starts_with_def)
  then show ?thesis using range by (simp add: prefix_range_def start_with_lower_def)
qed

text \<open>The binary search in the sorted names misses no copy: \<open>loadFailSafeData\<close> loads, for every enabled stream that no
  repository has, all the files whose names start with the module and the stream.\<close>

theorem fail_safe_search_is_complete:
  "load_fail_safe_data ops env fs s =
     fold (\<lambda>(n, stream). fold (load_file ops env fs)
         (filter (\<lambda>f. starts_with f (n @ '':'' @ stream @ '':'')) (get_yaml_filenames env fs (env_persist_dir env))))
       (missing_streams s) s"
proof -
  have "sorted (get_yaml_filenames env fs (env_persist_dir env))" by (simp add: get_yaml_filenames_def)
  then show ?thesis unfolding load_fail_safe_data_def Let_def by (simp only: prefix_range_filter)
qed

section \<open>Copies that stay and copies that go\<close>

lemma lower_bound_finds:
  assumes "sorted names"
  shows "lower_bound names name \<noteq> length names \<and> name = names ! lower_bound names name \<longleftrightarrow> name \<in> set names"
proof
  assume "name \<in> set names"
  then show "lower_bound names name \<noteq> length names \<and> name = names ! lower_bound names name"
    using assms
  proof (induction names)
    case (Cons x xs)
    show ?case
    proof (cases "x < name")
      case True
      then show ?thesis using Cons by (auto simp: lower_bound_def)
    next
      case False
      then have "x = name" using Cons.prems by auto
      then show ?thesis by (simp add: lower_bound_def)
    qed
  qed simp
next
  assume a: "lower_bound names name \<noteq> length names \<and> name = names ! lower_bound names name"
  have "lower_bound names name \<le> length names" by (simp add: lower_bound_def length_takeWhile_le)
  then show "name \<in> set names" using a by (metis le_neq_implies_less nth_mem)
qed

lemma update_file_other: "p \<noteq> path \<Longrightarrow> snd (update_file env path c fs) p = fs p"
  by (auto simp: update_file_def save_file_def Let_def split: option.splits)

lemma update_file_stays: "fs p \<noteq> None \<Longrightarrow> snd (update_file env path c fs) p \<noteq> None"
  by (auto simp: update_file_def save_file_def Let_def split: option.splits)

lemma save_copies:
  assumes "sorted names" "distinct names" "fold (save_copy env names) ms (marks, fs) = (marks', fs')"
  shows "i < length names \<Longrightarrow> i \<in> marks' \<longleftrightarrow> i \<in> marks \<or> names ! i \<in> fail_safe_name ` set ms"
    "fs p \<noteq> None \<Longrightarrow> fs' p \<noteq> None"
proof -
  have "(i < length names \<longrightarrow> (i \<in> marks' \<longleftrightarrow> i \<in> marks \<or> names ! i \<in> fail_safe_name ` set ms)) \<and> (fs p \<noteq> None \<longrightarrow> fs' p \<noteq> None)"
    using assms(3)
  proof (induction ms arbitrary: marks fs)
    case (Cons m ms)
    let ?low = "lower_bound names (fail_safe_name m)"
    obtain marks1 fs1 where 1: "save_copy env names m (marks, fs) = (marks1, fs1)" by (cases "save_copy env names m (marks, fs)")
    have "fs1 = fs \<or> fs1 = snd (update_file env (env_build_filename env [env_persist_dir env, fail_safe_name m]) (mp_yaml m) fs)"
      using 1 by (auto simp: save_copy_def Let_def split: if_splits)
    then have "fs p \<noteq> None \<longrightarrow> fs1 p \<noteq> None" using update_file_stays by metis
    moreover have "i \<in> marks1 \<longleftrightarrow> i \<in> marks \<or> names ! i = fail_safe_name m" if "i < length names"
    proof -
      have "marks1 = (if ?low \<noteq> length names \<and> fail_safe_name m = names ! ?low then insert ?low marks else marks)"
        using 1 by (auto simp: save_copy_def Let_def split: if_splits)
      moreover have "?low \<le> length names" by (simp add: lower_bound_def length_takeWhile_le)
      moreover have "fail_safe_name m \<in> set names" if "names ! i = fail_safe_name m"
        using that nth_mem [OF \<open>i < length names\<close>] by simp
      moreover have "i = ?low" if "names ! i = fail_safe_name m" "fail_safe_name m = names ! ?low" "?low \<noteq> length names"
        using that \<open>i < length names\<close> \<open>?low \<le> length names\<close> nth_eq_iff_index_eq [OF assms(2), of i ?low] by simp
      ultimately show ?thesis using lower_bound_finds [OF assms(1), of "fail_safe_name m"]
        by (auto split: if_splits)
    qed
    ultimately show ?case using Cons.IH [of marks1 fs1] Cons.prems 1 by auto
  qed simp
  then show "i < length names \<Longrightarrow> i \<in> marks' \<longleftrightarrow> i \<in> marks \<or> names ! i \<in> fail_safe_name ` set ms" "fs p \<noteq> None \<Longrightarrow> fs' p \<noteq> None"
    by blast+
qed

definition removes :: "'z fail_safe_env_scheme \<Rightarrow> 'c modules \<Rightarrow> string \<Rightarrow> bool" where
  "removes env s name \<longleftrightarrow>
     (case module_of_file name of None \<Rightarrow> False | Some (n, stream) \<Rightarrow> \<not> is_enabled n stream s) \<and>
     env_removable env (env_build_filename env [env_persist_dir env, name])"

lemma remove_copies:
  assumes "inj_on (\<lambda>f. env_build_filename env [env_persist_dir env, f]) (set names)" "distinct names" "set is \<subseteq> {..<length names}" "i < length names"
    "fs (env_build_filename env [env_persist_dir env, names ! i]) \<noteq> None"
  shows "fold (remove_copy env names s marks) is fs (env_build_filename env [env_persist_dir env, names ! i]) = None \<longleftrightarrow>
    i \<in> set is \<and> i \<notin> marks \<and> removes env s (names ! i)"
  using assms(3,5)
proof (induction "is" arbitrary: fs)
  case (Cons j js)
  let ?path = "\<lambda>f. env_build_filename env [env_persist_dir env, f]"
  have step: "remove_copy env names s marks j fs (?path (names ! i)) = None \<longleftrightarrow> j = i \<and> i \<notin> marks \<and> removes env s (names ! i)"
    using Cons.prems inj_onD [OF assms(1), of "names ! i" "names ! j"] nth_eq_iff_index_eq [OF assms(2), of i j] assms(4)
    by (auto simp: remove_copy_def removes_def Let_def split: option.splits if_splits)
  have gone: "fold (remove_copy env names s marks) js g (?path (names ! i)) = None" if "g (?path (names ! i)) = None" for js g
    using that
  proof (induction js arbitrary: g)
    case (Cons k ks)
    then show ?case by (auto simp: remove_copy_def Let_def split: option.splits)
  qed simp
  show ?case
  proof (cases "remove_copy env names s marks j fs (?path (names ! i)) = None")
    case True
    then show ?thesis using step gone by auto
  next
    case False
    then show ?thesis using step Cons.IH [of "remove_copy env names s marks j fs"] Cons.prems by auto
  qed
qed simp

text \<open>C31. \<open>updateFailSafeData\<close> never removes the copy of an enabled stream or of a latest active package, and of
  the other copies whose names tell a module and a stream it removes all that the file system lets it. The entries of the
  directory of copies are listed once each, and their names, which have no separators, are of different files.\<close>

theorem copies_follow_the_states:
  assumes "ms_active s = Some active" "get_latest_active_enabled_modules evr_cmp srt active s = Inr latest"
    "update_fail_safe_data evr_cmp srt env s fs = Inr fs'"
    "inj_on (\<lambda>f. env_build_filename env [env_persist_dir env, f]) (set (get_yaml_filenames env fs (env_persist_dir env)))"
    "distinct (env_list_dir env fs (env_persist_dir env))"
    "f \<in> set (get_yaml_filenames env fs (env_persist_dir env))" "fs (env_build_filename env [env_persist_dir env, f]) \<noteq> None"
  shows "fs' (env_build_filename env [env_persist_dir env, f]) = None \<longleftrightarrow> f \<notin> fail_safe_name ` set latest \<and> removes env s f"
proof -
  let ?names = "get_yaml_filenames env fs (env_persist_dir env)"
  obtain marks fs1 where saved: "fold (save_copy env ?names) latest ({}, fs) = (marks, fs1)"
    by (cases "fold (save_copy env ?names) latest ({}, fs)")
  have fs': "fs' = fold (remove_copy env ?names s marks) [0..<length ?names] fs1"
    using assms(1-3) saved by (simp add: update_fail_safe_data_def Let_def)
  have names: "sorted ?names" "distinct ?names" using assms(5) by (simp_all add: get_yaml_filenames_def)
  obtain i where i: "i < length ?names" "f = ?names ! i" using assms(6) by (metis in_set_conv_nth)
  show ?thesis
    using remove_copies [OF assms(4) names(2), of "[0..<length ?names]" i fs1 s marks] i
      save_copies [OF names saved] assms(7) by (auto simp: fs' atLeast0LessThan)
qed

text \<open>Separators at the joins are merged, as by \<open>g_build_filename\<close>.\<close>

definition join_path :: "string \<Rightarrow> string \<Rightarrow> string" where
  "join_path a b = rev (dropWhile (\<lambda>c. c = CHR ''/'') (rev a)) @ ''/'' @ dropWhile (\<lambda>c. c = CHR ''/'') b"

definition copies_env :: fail_safe_env where
  "copies_env =
     \<lparr>fe_readable = (\<lambda>_. True), fe_writable = (\<lambda>_. True), fe_stored = length, env_build_filename = (\<lambda>xs. foldl join_path (hd xs) (tl xs)), env_make_dir = (\<lambda>_. True),
      env_list_dir = (\<lambda>_ _. [''b:1:x86_64.yaml'', ''a:1:x86_64.yaml'']), env_removable = (\<lambda>_. True),
      env_read_modules = (\<lambda>_. Inr []), env_install_root = ''/'', env_persist_dir = ''d/''\<rparr>"

definition copies :: file_system where
  "copies = [''d/a:1:x86_64.yaml'' \<mapsto> ''a'', ''d/b:1:x86_64.yaml'' \<mapsto> ''b'']"

definition one_active :: "cfg modules" where
  "one_active =
     \<lparr>ms_persistor = [(''a'', cfg_new, \<lparr>mc_stream = ''1'', mc_profiles = [], mc_state = MS_ENABLED\<rparr>)],
      ms_packages = [example_package 1 ''a'' ''1''], ms_active = Some [1], ms_defaults = []\<rparr>"

lemma one_active_latest:
  "get_latest_active_enabled_modules text_evr insertion_sort [1] one_active = Inr [example_package 1 ''a'' ''1'']"
  by code_simp

lemma one_active_updated: "\<not> isl (update_fail_safe_data text_evr insertion_sort copies_env one_active copies)"
  by code_simp

lemma one_active_name: "fail_safe_name (example_package 1 ''a'' ''1'') = ''a:1:x86_64.yaml''"
  by code_simp

lemma copies_names: "get_yaml_filenames copies_env copies (env_persist_dir copies_env) = [''a:1:x86_64.yaml'', ''b:1:x86_64.yaml'']"
  by code_simp

lemma copies_removed: "removes copies_env one_active ''b:1:x86_64.yaml''"
  by code_simp

theorem copies_follow_the_states_witness:
  "projr (update_fail_safe_data text_evr insertion_sort copies_env one_active copies) ''d/b:1:x86_64.yaml'' = None \<and>
   projr (update_fail_safe_data text_evr insertion_sort copies_env one_active copies) ''d/a:1:x86_64.yaml'' \<noteq> None"
proof -
  let ?fs' = "projr (update_fail_safe_data text_evr insertion_sort copies_env one_active copies)"
  have "update_fail_safe_data text_evr insertion_sort copies_env one_active copies = Inr ?fs'"
    using one_active_updated by simp
  moreover have "inj_on (\<lambda>f. env_build_filename copies_env [env_persist_dir copies_env, f])
      (set (get_yaml_filenames copies_env copies (env_persist_dir copies_env)))"
    unfolding copies_names by (simp add: copies_env_def join_path_def)
  moreover have "distinct (env_list_dir copies_env copies (env_persist_dir copies_env))"
    by (simp add: copies_env_def)
  moreover have "ms_active one_active = Some [1]" by (simp add: one_active_def)
  ultimately have "f \<in> set [''a:1:x86_64.yaml'', ''b:1:x86_64.yaml''] \<Longrightarrow>
      copies (env_build_filename copies_env [env_persist_dir copies_env, f]) \<noteq> None \<Longrightarrow>
      ?fs' (env_build_filename copies_env [env_persist_dir copies_env, f]) = None \<longleftrightarrow>
        f \<notin> {''a:1:x86_64.yaml''} \<and> removes copies_env one_active f" for f
    using copies_follow_the_states [OF _ one_active_latest, of copies_env copies ?fs' f]
    unfolding copies_names by (simp add: one_active_name [simplified])
  from this [of "''b:1:x86_64.yaml''"] this [of "''a:1:x86_64.yaml''"] show ?thesis
    using copies_removed by (simp add: copies_def copies_env_def join_path_def)
qed

end
