(* ===== verification/ModuleTreeFacts.thy ===== *)
theory ModuleTreeFacts
  imports ModuleFailSafe ModuleFacts ModulePackages
begin

text \<open>
  Enabling a package enables everything that it needs: \<open>enableDependencyTree\<close> computes the closure of the
  packages under the active providers of their requirements, within the fuel given to its loops.
\<close>

section \<open>One package\<close>

lemma enable_module_entry:
  assumes "enable_module ops n stream p = (Inr b, p')"
  shows "\<exists>q c. map_of p' n = Some (q, c) \<and> mc_stream c = stream \<and> mc_state c = MS_ENABLED"
    "m \<noteq> n \<Longrightarrow> map_of p' m = map_of p m"
proof -
  obtain b1 p1 b2 p2 where 1: "change_stream ops n stream p = (Inr b1, p1)" and 2: "change_state n MS_ENABLED p1 = (Inr b2, p2)"
    and 3: "p' = p2 \<or> (\<exists>u. clear_profiles n p2 = (Inr u, p'))"
    using assms by (auto simp: enable_module_def Let_def then_do_Inr split: if_splits)
  have s1: "\<exists>q c. map_of p1 n = Some (q, c) \<and> mc_stream c = stream" "m \<noteq> n \<Longrightarrow> map_of p1 m = map_of p m"
    using 1 by (auto simp: change_stream_def lift_change_def and_then_def map_of_set_entry split: option.splits if_splits sum.splits)
  then have s2: "\<exists>q c. map_of p2 n = Some (q, c) \<and> mc_stream c = stream \<and> mc_state c = MS_ENABLED"
    "m \<noteq> n \<Longrightarrow> map_of p2 m = map_of p m"
    using 2 by (auto simp: change_state_def lift_change_def and_then_def get_entry_def map_of_set_entry split: option.splits if_splits sum.splits)
  show "\<exists>q c. map_of p' n = Some (q, c) \<and> mc_stream c = stream \<and> mc_state c = MS_ENABLED" "m \<noteq> n \<Longrightarrow> map_of p' m = map_of p m"
    using 3 s2 by (auto simp: clear_profiles_def at_config_def lift_change_def and_then_def get_entry_def map_of_set_entry
        split: option.splits sum.splits prod.splits)
qed

lemma enable_in_effect:
  assumes "enable_in ops m s = (Inr b, s')"
  shows "ms_packages s' = ms_packages s" "is_enabled_package m s'"
    "mp_name m' \<noteq> mp_name m \<Longrightarrow> is_enabled_package m' s' = is_enabled_package m' s"
proof -
  obtain p' where p': "enable_module ops (mp_name m) (mp_stream m) (ms_persistor s) = (Inr b, p')" "s' = s\<lparr>ms_persistor := p'\<rparr>"
    using assms by (auto simp: enable_in_def on_persistor_def split: prod.splits)
  note e = enable_module_entry [OF p'(1)]
  show "ms_packages s' = ms_packages s" by (simp add: p'(2))
  show "is_enabled_package m s'"
    using e(1) by (auto simp: p'(2) is_enabled_package_def is_enabled_def persistor_enabled_def get_state_def get_stream_def get_entry_def)
  show "is_enabled_package m' s' = is_enabled_package m' s" if "mp_name m' \<noteq> mp_name m"
    using e(2) [OF that]
    by (simp add: p'(2) is_enabled_package_def is_enabled_def persistor_enabled_def get_state_def get_stream_def get_entry_def)
qed

text \<open>The packages of the identifiers are enabled; of one module they are of one stream.\<close>

definition ids_enabled :: "nat list \<Rightarrow> 'c modules \<Rightarrow> bool" where
  "ids_enabled ids s \<longleftrightarrow> list_all (\<lambda>i. \<exists>m. get_module_package i s = Inr m \<and> is_enabled_package m s) ids"

definition one_stream :: "nat list \<Rightarrow> 'c modules \<Rightarrow> bool" where
  "one_stream ids s \<longleftrightarrow> list_all (\<lambda>i. list_all (\<lambda>j. \<forall>m m'.
     get_module_package i s = Inr m \<longrightarrow> get_module_package j s = Inr m' \<longrightarrow> mp_name m = mp_name m' \<longrightarrow> mp_stream m = mp_stream m') ids) ids"

lemma same_packages_lookup: "ms_packages s' = ms_packages s \<Longrightarrow> get_module_package i s' = get_module_package i s"
  by (simp add: get_module_package_def)

lemma enable_in_ids:
  assumes "enable_in ops m s = (Inr b, s')" "get_module_package i s = Inr m" "i \<in> set active" "set enabled \<subseteq> set active"
    "one_stream active s" "ids_enabled enabled s"
  shows "ids_enabled (i # enabled) s'" "one_stream active s'" "\<And>j. get_module_package j s' = get_module_package j s"
proof -
  note e = enable_in_effect [OF assms(1)]
  show look: "\<And>j. get_module_package j s' = get_module_package j s" by (rule same_packages_lookup [OF e(1)])
  show "one_stream active s'" using assms(5) by (simp add: one_stream_def look)
  have "\<exists>m'. get_module_package j s' = Inr m' \<and> is_enabled_package m' s'" if j: "j \<in> set enabled" for j
  proof -
    obtain m' where m': "get_module_package j s = Inr m'" "is_enabled_package m' s"
      using assms(6) j by (auto simp: ids_enabled_def list_all_iff)
    have "is_enabled_package m' s'"
    proof (cases "mp_name m' = mp_name m")
      case True
      then have "mp_stream m' = mp_stream m"
        using assms(2,3,5) m'(1) j assms(4) unfolding one_stream_def list_all_iff by blast
      then show ?thesis using e(2) True by (simp add: is_enabled_package_def)
    qed (use e(3) m'(2) in simp)
    then show ?thesis using m'(1) look by simp
  qed
  then show "ids_enabled (i # enabled) s'" using e(2) assms(2) look by (simp add: ids_enabled_def list_all_iff)
qed

section \<open>The loops\<close>

definition above :: "nat option \<Rightarrow> nat \<Rightarrow> bool" where
  "above after i = (case after of None \<Rightarrow> True | Some j \<Rightarrow> j < i)"

lemma next_id_None: "next_id ids after = None \<longleftrightarrow> (\<forall>i \<in> set ids. \<not> above after i)"
  by (auto simp: next_id_def find_None_iff above_def)

lemma next_id_Some:
  assumes "next_id ids after = Some i"
  shows "i \<in> set ids" "above after i" "j \<in> set ids \<Longrightarrow> above after j \<Longrightarrow> i \<le> j"
proof -
  let ?l = "sorted_list_of_set (set ids)"
  obtain k where k: "k < length ?l" "above after (?l ! k)" "i = ?l ! k" "\<forall>j < k. \<not> above after (?l ! j)"
    using assms by (auto simp: next_id_def find_Some_iff above_def)
  have set: "set ?l = set ids" by simp
  have "i \<in> set ?l" unfolding k(3) by (rule nth_mem [OF k(1)])
  then show "i \<in> set ids" using set by simp
  show "above after i" using k(2,3) by simp
  show "i \<le> j" if "j \<in> set ids" "above after j"
  proof -
    have "j \<in> set ?l" using that(1) set by simp
    then obtain l where l: "l < length ?l" "j = ?l ! l" unfolding in_set_conv_nth by blast
    have "k \<le> l" using k(4) that(2) l(2) by (cases "l < k") auto
    then show ?thesis unfolding l(2) k(3) by (rule sorted_nth_mono [OF sorted_sorted_list_of_set _ l(1)])
  qed
qed

text \<open>Everything that enabled packages need is enabled or about to be.\<close>

definition closing :: "(nat \<Rightarrow> nat list) \<Rightarrow> nat list \<Rightarrow> nat list \<Rightarrow> nat list \<Rightarrow> bool" where
  "closing providers active to_enable enabled \<longleftrightarrow>
     list_all (\<lambda>i. set (providers i) \<inter> set active \<subseteq> set enabled \<union> set to_enable) enabled"

definition tree_inv ::
  "(nat \<Rightarrow> nat list) \<Rightarrow> nat list \<Rightarrow> nat list \<Rightarrow> nat list \<Rightarrow> 'c modules \<Rightarrow> bool" where
  "tree_inv providers active to_enable enabled s \<longleftrightarrow>
     set to_enable \<subseteq> set active \<and> set enabled \<subseteq> set active \<and> closing providers active to_enable enabled \<and>
     ids_enabled enabled s \<and> one_stream active s"

lemma enable_id_effect:
  assumes "enable_id ops i s = (Inr (), s')" "tree_inv providers active to_enable enabled s" "i \<in> set active"
    "set (providers i) \<inter> set active \<subseteq> set (i # enabled) \<union> set to_enable'" "set to_enable \<subseteq> set to_enable'" "set to_enable' \<subseteq> set active"
  shows "tree_inv providers active to_enable' (i # enabled) s'"
proof -
  obtain m b where m: "get_module_package i s = Inr m" "enable_in ops m s = (Inr b, s')"
    using assms(1) by (auto simp: enable_id_def then_do_Inr)
  note t = assms(2) [unfolded tree_inv_def]
  have "ids_enabled (i # enabled) s'" "one_stream active s'"
    using enable_in_ids [OF m(2,1) assms(3)] t by blast+
  moreover have "closing providers active to_enable' (i # enabled)"
    unfolding closing_def list_all_iff
  proof
    fix k assume "k \<in> set (i # enabled)"
    then consider "k = i" | "k \<in> set enabled" by auto
    then show "set (providers k) \<inter> set active \<subseteq> set (i # enabled) \<union> set to_enable'"
    proof cases
      case 2
      then have "set (providers k) \<inter> set active \<subseteq> set enabled \<union> set to_enable"
        using t unfolding closing_def list_all_iff by blast
      then show ?thesis using assms(5) by auto
    qed (use assms(4) in simp)
  qed
  ultimately show ?thesis using t assms(3,6) by (simp add: tree_inv_def)
qed

lemma enable_pass_effect:
  assumes "enable_pass ops providers active fuel after to_enable enabled s = (Inr ended, s')"
    "tree_inv providers active to_enable enabled s" "card {j \<in> set active. above after j} < fuel"
  shows "\<exists>to_enable' enabled'. ended = Some (to_enable', enabled') \<and>
    tree_inv providers active to_enable' enabled' s' \<and> set enabled \<subseteq> set enabled' \<and> set to_enable \<subseteq> set to_enable' \<and>
    (\<forall>j \<in> set to_enable. above after j \<longrightarrow> j \<in> set enabled')"
  using assms
proof (induction fuel arbitrary: after to_enable enabled s)
  case (Suc fuel)
  show ?case
  proof (cases "next_id to_enable after")
    case None
    then show ?thesis using Suc.prems next_id_None [of to_enable after] by auto
  next
    case (Some i)
    note i = next_id_Some [OF Some]
    let ?found = "filter (\<lambda>j. j \<in> set active \<and> j \<notin> set (i # enabled)) (providers i)"
    obtain s1 where s1: "enable_id ops i s = (Inr (), s1)"
      "enable_pass ops providers active fuel (Some i) (to_enable @ ?found) (i # enabled) s1 = (Inr ended, s')"
      using Suc.prems(1) Some by (auto simp: then_do_Inr)
    have active: "i \<in> set active" using i(1) Suc.prems(2) by (auto simp: tree_inv_def)
    have inv: "tree_inv providers active (to_enable @ ?found) (i # enabled) s1"
      by (rule enable_id_effect [OF s1(1) Suc.prems(2) active]) (use Suc.prems(2) in \<open>auto simp: tree_inv_def\<close>)
    have "{j \<in> set active. above (Some i) j} \<subset> {j \<in> set active. above after j}"
      using active i(2) by (auto simp: above_def split: option.splits)
    then have "card {j \<in> set active. above (Some i) j} < card {j \<in> set active. above after j}"
      by (intro psubset_card_mono) auto
    then have fuel: "card {j \<in> set active. above (Some i) j} < fuel" using Suc.prems(3) by simp
    obtain to_enable' enabled' where rest: "ended = Some (to_enable', enabled')" "tree_inv providers active to_enable' enabled' s'"
      "set (i # enabled) \<subseteq> set enabled'" "set (to_enable @ ?found) \<subseteq> set to_enable'"
      "\<forall>j \<in> set (to_enable @ ?found). above (Some i) j \<longrightarrow> j \<in> set enabled'"
      using Suc.IH [OF s1(2) inv fuel] by blast
    have "j \<in> set enabled'" if "j \<in> set to_enable" "above after j" for j
      using i(3) [OF that] that(1) rest(3,5) by (cases "j = i") (auto simp: above_def)
    then show ?thesis using rest by auto
  qed
qed simp

text \<open>A pass enables a package that was not enabled before, so as many passes as there are active packages are enough.\<close>

lemma enable_closure_effect:
  assumes "enable_closure ops providers active fuel to_enable enabled s = (Inr ended, s')"
    "tree_inv providers active to_enable enabled s" "set to_enable \<inter> set enabled = {}" "card (set active - set enabled) < fuel"
  shows "ended = Some () \<and> (\<exists>enabled'. tree_inv providers active [] enabled' s' \<and> set enabled \<subseteq> set enabled')"
  using assms
proof (induction fuel arbitrary: to_enable enabled s)
  case (Suc fuel)
  show ?case
  proof (cases "to_enable = []")
    case True
    then show ?thesis using Suc.prems by auto
  next
    case False
    obtain r s1 where
      1: "enable_pass ops providers active (Suc (length active)) None to_enable enabled s = (Inr r, s1)"
      using Suc.prems(1) False by (auto simp: then_do_Inr simp del: enable_pass.simps)
    have "card {j \<in> set active. above None j} < Suc (length active)"
      using card_length [of active] by (simp add: above_def)
    then obtain to_enable1 enabled1 where pass: "r = Some (to_enable1, enabled1)"
      "tree_inv providers active to_enable1 enabled1 s1" "set enabled \<subseteq> set enabled1" "set to_enable \<subseteq> set to_enable1"
      "\<forall>j \<in> set to_enable. above None j \<longrightarrow> j \<in> set enabled1"
      using enable_pass_effect [OF 1 Suc.prems(2)] by blast
    have 2: "enable_closure ops providers active fuel (filter (\<lambda>j. j \<notin> set enabled1) to_enable1) enabled1 s1 = (Inr ended, s')"
      using Suc.prems(1) False 1 pass(1) by (auto simp: then_do_Inr simp del: enable_pass.simps)
    have inv: "tree_inv providers active (filter (\<lambda>j. j \<notin> set enabled1) to_enable1) enabled1 s1"
      using pass unfolding tree_inv_def closing_def list_all_iff by auto
    obtain j where j: "j \<in> set to_enable" "j \<in> set active" "j \<notin> set enabled" "j \<in> set enabled1"
      using False Suc.prems(2,3) pass(5) by (cases to_enable) (auto simp: tree_inv_def above_def)
    then have "set active - set enabled1 \<subset> set active - set enabled" using pass(3) by auto
    then have "card (set active - set enabled1) < card (set active - set enabled)" by (intro psubset_card_mono) auto
    then have "card (set active - set enabled1) < fuel" using Suc.prems(4) by simp
    then obtain enabled' where "ended = Some ()" "tree_inv providers active [] enabled' s'" "set enabled1 \<subseteq> set enabled'"
      using Suc.IH [OF 2 inv] by auto
    then show ?thesis using pass(3) by blast
  qed
qed simp

lemma enable_first_effect:
  assumes "enable_first ops providers active ms to_enable enabled s = (Inr (to_enable', enabled'), s')"
    "tree_inv providers active to_enable enabled s" "list_all (\<lambda>m. get_module_package (mp_id m) s = Inr m) ms"
  shows "tree_inv providers active to_enable' enabled' s' \<and> set enabled \<subseteq> set enabled' \<and>
    set (map mp_id ms) \<inter> set active \<subseteq> set enabled'"
  using assms
proof (induction ms arbitrary: to_enable enabled s)
  case (Cons m ms)
  show ?case
  proof (cases "mp_id m \<in> set active")
    case False
    then show ?thesis using Cons by simp
  next
    case True
    obtain b s1 where s1: "enable_in ops m s = (Inr b, s1)"
      "enable_first ops providers active ms (to_enable @ filter (\<lambda>j. j \<in> set active) (providers (mp_id m))) (mp_id m # enabled) s1 =
         (Inr (to_enable', enabled'), s')"
      using Cons.prems(1) True by (auto simp: then_do_Inr)
    have look: "get_module_package (mp_id m) s = Inr m" using Cons.prems(3) by simp
    have "enable_id ops (mp_id m) s = (Inr (), s1)" using look s1(1) by (simp add: enable_id_def then_do_def)
    then have inv: "tree_inv providers active (to_enable @ filter (\<lambda>j. j \<in> set active) (providers (mp_id m))) (mp_id m # enabled) s1"
      by (rule enable_id_effect [OF _ Cons.prems(2) True]) (use Cons.prems(2) in \<open>auto simp: tree_inv_def\<close>)
    have "list_all (\<lambda>m. get_module_package (mp_id m) s1 = Inr m) ms"
      using Cons.prems(3) same_packages_lookup [OF enable_in_effect(1) [OF s1(1)]] by simp
    then show ?thesis using Cons.IH [OF s1(2) inv] by auto
  qed
qed simp

section \<open>The closure\<close>

inductive needed :: "(nat \<Rightarrow> nat list) \<Rightarrow> nat list \<Rightarrow> module_package list \<Rightarrow> nat \<Rightarrow> bool" for providers active ms where
  chosen: "m \<in> set ms \<Longrightarrow> mp_id m \<in> set active \<Longrightarrow> needed providers active ms (mp_id m)"
| provides: "needed providers active ms i \<Longrightarrow> j \<in> set (providers i) \<Longrightarrow> j \<in> set active \<Longrightarrow> needed providers active ms j"

text \<open>C29. \<open>enableDependencyTree\<close> always ends: its loops never run out of the fuel, one more than there are active packages.
  Unless it throws, the active packages among those given are then enabled, and so is every active package that provides,
  directly or over others, what an enabled one requires. The active packages must be of one stream of each module, as the
  conflicts between streams ensure.\<close>

theorem dependency_tree_is_enabled:
  assumes "enable_dependency_tree ops providers ms s = (Inr ended, s')" "ms_active s = Some active" "one_stream active s"
    "list_all (\<lambda>m. get_module_package (mp_id m) s = Inr m) ms"
  shows "ended = Some () \<and>
    (\<forall>i. needed providers active ms i \<longrightarrow> (\<exists>m. get_module_package i s' = Inr m \<and> is_enabled_package m s'))"
proof -
  obtain to_enable enabled s1 where 1: "enable_first ops providers active ms [] [] s = (Inr (to_enable, enabled), s1)"
    "enable_closure ops providers active (Suc (length active)) (filter (\<lambda>j. j \<notin> set enabled) to_enable) enabled s1 = (Inr ended, s')"
    using assms(1,2) by (auto simp: enable_dependency_tree_def then_do_Inr simp del: enable_closure.simps)
  have "tree_inv providers active [] [] s" using assms(3) by (simp add: tree_inv_def closing_def ids_enabled_def)
  note first = enable_first_effect [OF 1(1) this assms(4)]
  have "tree_inv providers active (filter (\<lambda>j. j \<notin> set enabled) to_enable) enabled s1"
    using first unfolding tree_inv_def closing_def list_all_iff by auto
  moreover have "card (set active - set enabled) < Suc (length active)"
    using card_mono [of "set active" "set active - set enabled"] card_length [of active] by simp
  ultimately obtain enabled' where e: "ended = Some ()" "tree_inv providers active [] enabled' s'" "set enabled \<subseteq> set enabled'"
    using enable_closure_effect [OF 1(2)] by auto
  have "i \<in> set enabled'" if "needed providers active ms i" for i
    using that
  proof induction
    case (chosen m)
    then show ?case using first e(3) by auto
  next
    case (provides i j)
    then show ?case using e(2) by (auto simp: tree_inv_def closing_def list_all_iff)
  qed
  then show ?thesis using e(1,2) by (auto simp: tree_inv_def ids_enabled_def list_all_iff)
qed

definition two_modules :: "cfg modules" where
  "two_modules =
     \<lparr>ms_persistor = [(''a'', fresh_file ''a'', empty_config), (''b'', fresh_file ''b'', empty_config)],
      ms_packages = [example_package 1 ''a'' ''1'', example_package 2 ''b'' ''1''], ms_active = Some [1, 2], ms_defaults = []\<rparr>"

definition needs_next :: "nat \<Rightarrow> nat list" where
  "needs_next i = (if i = 1 then [2] else [])"

lemma two_modules_enabled:
  "fst (enable_dependency_tree library_parser needs_next [example_package 1 ''a'' ''1''] two_modules) = Inr (Some ())"
  by code_simp

theorem dependency_tree_is_enabled_witness:
  "\<exists>m. get_module_package 2 (snd (enable_dependency_tree library_parser needs_next [example_package 1 ''a'' ''1''] two_modules)) = Inr m \<and>
     is_enabled_package m (snd (enable_dependency_tree library_parser needs_next [example_package 1 ''a'' ''1''] two_modules))"
proof -
  have run: "enable_dependency_tree library_parser needs_next [example_package 1 ''a'' ''1''] two_modules =
      (Inr (Some ()), snd (enable_dependency_tree library_parser needs_next [example_package 1 ''a'' ''1''] two_modules))"
    using two_modules_enabled by (simp add: prod_eq_iff)
  have "needed needs_next [1, 2] [example_package 1 ''a'' ''1''] (mp_id (example_package 1 ''a'' ''1''))"
    by (rule needed.chosen) (simp_all add: example_package_def)
  then have two: "needed needs_next [1, 2] [example_package 1 ''a'' ''1''] 2"
    by (rule needed.provides) (simp_all add: example_package_def needs_next_def)
  have "ms_active two_modules = Some [1, 2]" "one_stream [1, 2] two_modules"
    "list_all (\<lambda>m. get_module_package (mp_id m) two_modules = Inr m) [example_package 1 ''a'' ''1'']"
    by (auto simp: two_modules_def one_stream_def get_module_package_def example_package_def)
  from dependency_tree_is_enabled [OF run this] show ?thesis using two by blast
qed

end
