(* ===== verification/RegexRuns.thy ===== *)
theory RegexRuns
  imports CppString
begin

text \<open>
  The regular expressions of the sources: sequences of greedy runs of characters of a class, captured or
  skipped, of single characters and of optional groups, matched against the whole text. The matcher tries
  the longest run first and backtracks, as the standard prescribes; the language is a relation.
\<close>

section \<open>The matcher\<close>

datatype rx =
    Grab "char \<Rightarrow> bool" nat
  | Skip "char \<Rightarrow> bool" nat
  | Lit char
  | Opt "rx list"
  | Nothing

primrec first_some :: "('a \<Rightarrow> 'b option) \<Rightarrow> 'a list \<Rightarrow> 'b option" where
  "first_some f [] = None"
| "first_some f (x # xs) = (case f x of None \<Rightarrow> first_some f xs | Some y \<Rightarrow> Some y)"

lemma first_some_cong [fundef_cong]:
  "xs = ys \<Longrightarrow> (\<And>x. x \<in> set ys \<Longrightarrow> f x = g x) \<Longrightarrow> first_some f xs = first_some g ys"
  by (induction ys arbitrary: xs) (auto split: option.split)

lemma first_some_Some: "first_some f xs = Some y \<Longrightarrow> \<exists>x \<in> set xs. f x = Some y"
  by (induction xs) (auto split: option.splits)

lemma first_some_None: "first_some f xs = None \<longleftrightarrow> (\<forall>x \<in> set xs. f x = None)"
  by (induction xs) (auto split: option.splits)

fun groups :: "rx \<Rightarrow> nat" where
  "groups (Grab P m) = 1"
| "groups (Skip P m) = 0"
| "groups (Lit c) = 0"
| "groups (Opt rs) = sum_list (map groups rs)"
| "groups Nothing = 1"

text \<open>The lengths of a run, longest first. A group that takes no part in the match is empty.\<close>

definition run_lengths :: "(char \<Rightarrow> bool) \<Rightarrow> nat \<Rightarrow> string \<Rightarrow> nat list" where
  "run_lengths P m s = rev [m..<Suc (length (takeWhile P s))]"

function rx_match :: "rx list \<Rightarrow> string \<Rightarrow> string list option" where
  "rx_match [] s = (if s = [] then Some [] else None)"
| "rx_match (Grab P m # rs) s =
     first_some (\<lambda>n. map_option ((#) (take n s)) (rx_match rs (drop n s))) (run_lengths P m s)"
| "rx_match (Skip P m # rs) s = first_some (\<lambda>n. rx_match rs (drop n s)) (run_lengths P m s)"
| "rx_match (Lit c # rs) s = (case s of [] \<Rightarrow> None | x # xs \<Rightarrow> if x = c then rx_match rs xs else None)"
| "rx_match (Opt os # rs) s =
     (case rx_match (os @ rs) s of
        Some cs \<Rightarrow> Some cs
      | None \<Rightarrow> map_option ((@) (replicate (groups (Opt os)) [])) (rx_match rs s))"
| "rx_match (Nothing # rs) s = map_option ((#) []) (rx_match rs s)"
  by pat_completeness auto

lemma size_list_append: "size_list f (xs @ ys) = size_list f xs + size_list f ys"
  by (induction xs) simp_all

termination rx_match
  by (relation "measure (\<lambda>(rs, s). size_list size rs)") (auto simp: size_list_append)

section \<open>The language\<close>

inductive rx_lang :: "rx list \<Rightarrow> string \<Rightarrow> string list \<Rightarrow> bool" where
  empty: "rx_lang [] [] []"
| grab: "rx_lang rs s cs \<Longrightarrow> list_all P a \<Longrightarrow> m \<le> length a \<Longrightarrow> rx_lang (Grab P m # rs) (a @ s) (a # cs)"
| skip: "rx_lang rs s cs \<Longrightarrow> list_all P a \<Longrightarrow> m \<le> length a \<Longrightarrow> rx_lang (Skip P m # rs) (a @ s) cs"
| lit: "rx_lang rs s cs \<Longrightarrow> rx_lang (Lit c # rs) (c # s) cs"
| opt_some: "rx_lang (os @ rs) s cs \<Longrightarrow> rx_lang (Opt os # rs) s cs"
| opt_none: "rx_lang rs s cs \<Longrightarrow> n = groups (Opt os) \<Longrightarrow> rx_lang (Opt os # rs) s (replicate n [] @ cs)"
| nothing: "rx_lang rs s cs \<Longrightarrow> rx_lang (Nothing # rs) s ([] # cs)"

inductive_simps rx_lang_simps:
  "rx_lang [] s cs" "rx_lang (Grab P m # rs) s cs" "rx_lang (Skip P m # rs) s cs" "rx_lang (Lit c # rs) s cs"
  "rx_lang (Opt os # rs) s cs" "rx_lang (Nothing # rs) s cs"

lemma run_lengths_set: "n \<in> set (run_lengths P m s) \<longleftrightarrow> m \<le> n \<and> n \<le> length s \<and> list_all P (take n s)"
proof -
  have "n \<le> length (takeWhile P s) \<longleftrightarrow> n \<le> length s \<and> list_all P (take n s)"
  proof
    assume n: "n \<le> length (takeWhile P s)"
    then have "take n s = take n (takeWhile P s)" by (metis takeWhile_eq_take take_take min.absorb1)
    then have "set (take n s) \<subseteq> set (takeWhile P s)" by (simp add: set_take_subset)
    then show "n \<le> length s \<and> list_all P (take n s)"
      using n length_takeWhile_le [of P s] by (auto simp: list_all_iff dest: set_takeWhileD)
  next
    assume n: "n \<le> length s \<and> list_all P (take n s)"
    then have "takeWhile P s = take n s @ takeWhile P (drop n s)"
      by (metis append_take_drop_id list_all_iff takeWhile_append2)
    then show "n \<le> length (takeWhile P s)" using n by simp
  qed
  then show ?thesis by (auto simp: run_lengths_def)
qed

lemma rx_match_sound: "rx_match rs s = Some cs \<Longrightarrow> rx_lang rs s cs"
proof (induction rs s arbitrary: cs rule: rx_match.induct)
  case (2 P m rs s)
  obtain n where n: "n \<in> set (run_lengths P m s)" "map_option ((#) (take n s)) (rx_match rs (drop n s)) = Some cs"
    using first_some_Some [OF "2.prems" [unfolded rx_match.simps]] by blast
  then obtain cs' where "rx_match rs (drop n s) = Some cs'" "cs = take n s # cs'" by auto
  moreover have "list_all P (take n s)" "m \<le> length (take n s)" using n(1) by (simp_all add: run_lengths_set)
  ultimately show ?case using rx_lang.grab [OF "2.IH" [OF n(1)], of cs' P "take n s" m] by simp
next
  case (3 P m rs s)
  obtain n where n: "n \<in> set (run_lengths P m s)" "rx_match rs (drop n s) = Some cs"
    using first_some_Some [OF "3.prems" [unfolded rx_match.simps]] by blast
  moreover have "list_all P (take n s)" "m \<le> length (take n s)" using n(1) by (simp_all add: run_lengths_set)
  ultimately show ?case using rx_lang.skip [OF "3.IH" [OF n(1) n(2)], of P "take n s" m] by simp
next
  case (5 os rs s)
  show ?case
  proof (cases "rx_match (os @ rs) s")
    case None
    then show ?thesis using 5 by (auto intro: rx_lang.opt_none)
  next
    case (Some cs')
    then show ?thesis using 5 by (auto intro: rx_lang.opt_some)
  qed
qed (auto split: if_splits list.splits intro: rx_lang.intros)

lemma rx_match_complete: "rx_lang rs s cs \<Longrightarrow> \<exists>cs'. rx_match rs s = Some cs'"
proof (induction rule: rx_lang.induct)
  case (grab rs s cs P a m)
  have "length a \<in> set (run_lengths P m (a @ s))" using grab by (simp add: run_lengths_set)
  then have "first_some (\<lambda>n. map_option ((#) (take n (a @ s))) (rx_match rs (drop n (a @ s)))) (run_lengths P m (a @ s)) \<noteq> None"
    using grab.IH unfolding first_some_None by fastforce
  then show ?case by simp
next
  case (skip rs s cs P a m)
  have "length a \<in> set (run_lengths P m (a @ s))" using skip by (simp add: run_lengths_set)
  then have "first_some (\<lambda>n. rx_match rs (drop n (a @ s))) (run_lengths P m (a @ s)) \<noteq> None"
    using skip.IH unfolding first_some_None by fastforce
  then show ?case by simp
qed (auto split: option.split)

text \<open>Where the groups of a text are unique the matcher finds them.\<close>

lemma rx_match_unique:
  assumes "rx_lang rs s cs" "\<And>cs'. rx_lang rs s cs' \<Longrightarrow> cs' = cs"
  shows "rx_match rs s = Some cs"
  using rx_match_complete [OF assms(1)] rx_match_sound assms(2) by blast

text \<open>A text is cut in one way at the last occurrence of a character, and at the first.\<close>

lemma first_cut: "xs @ c # ys = xs' @ c # ys' \<Longrightarrow> c \<notin> set xs \<Longrightarrow> c \<notin> set xs' \<Longrightarrow> xs = xs' \<and> ys = ys'"
proof (induction xs arbitrary: xs')
  case Nil
  then show ?case by (cases xs') auto
next
  case (Cons x xs)
  then show ?case by (cases xs') auto
qed

lemma last_cut:
  assumes "xs @ c # ys = xs' @ c # ys'" "c \<notin> set ys" "c \<notin> set ys'"
  shows "xs = xs' \<and> ys = ys'"
proof -
  have "rev ys @ c # rev xs = rev ys' @ c # rev xs'" using arg_cong [OF assms(1), of rev] by simp
  then have "rev ys = rev ys' \<and> rev xs = rev xs'" using assms by (intro first_cut) simp_all
  then show ?thesis by simp
qed

section \<open>Expressions whose captures are unique\<close>

function may_start :: "rx list \<Rightarrow> char \<Rightarrow> bool" where
  "may_start [] c = False"
| "may_start (Grab P m # rs) c = (P c \<or> m = 0 \<and> may_start rs c)"
| "may_start (Skip P m # rs) c = (P c \<or> m = 0 \<and> may_start rs c)"
| "may_start (Lit d # rs) c = (c = d)"
| "may_start (Opt os # rs) c = (may_start (os @ rs) c \<or> may_start rs c)"
| "may_start (Nothing # rs) c = may_start rs c"
  by pat_completeness auto

termination may_start
  by (relation "measure (\<lambda>(rs, c). size_list size rs)") (auto simp: size_list_append)

lemma may_start_lang: "rx_lang rs s cs \<Longrightarrow> s = c # t \<Longrightarrow> may_start rs c"
  by (induction arbitrary: c t rule: rx_lang.induct) (auto simp: append_eq_Cons_conv)

text \<open>
  After a run comes nothing that its class contains, and an optional group begins with a character that
  cannot begin what follows it.
\<close>

function unambiguous :: "rx list \<Rightarrow> bool" where
  "unambiguous [] = True"
| "unambiguous (Grab P m # rs) = ((\<forall>c. P c \<longrightarrow> \<not> may_start rs c) \<and> unambiguous rs)"
| "unambiguous (Skip P m # rs) = ((\<forall>c. P c \<longrightarrow> \<not> may_start rs c) \<and> unambiguous rs)"
| "unambiguous (Lit d # rs) = unambiguous rs"
| "unambiguous (Opt os # rs) =
     ((case os of Lit d # _ \<Rightarrow> \<not> may_start rs d | _ \<Rightarrow> False) \<and> unambiguous (os @ rs) \<and> unambiguous rs)"
| "unambiguous (Nothing # rs) = unambiguous rs"
  by pat_completeness auto

termination unambiguous
  by (relation "measure (\<lambda>rs. size_list size rs)") (auto simp: size_list_append)

lemma run_unique:
  assumes eq: "a @ s = a' @ s'" and P: "list_all P a" "list_all P a'" "\<forall>c. P c \<longrightarrow> \<not> may_start rs c"
    and l: "rx_lang rs s cs" "rx_lang rs s' cs'"
  shows "a = a' \<and> s = s'"
proof -
  have no: "us = []" if "rx_lang rs (us @ t) ds" "list_all P us" for us t ds
    using that P(3) may_start_lang [OF that(1)] by (cases us) auto
  obtain us where "a = a' @ us \<and> us @ s = s' \<or> a @ us = a' \<and> s = us @ s'"
    using eq append_eq_append_conv2 [of a s a' s'] by blast
  then show ?thesis using no l P(1,2) by auto
qed

lemma unambiguous_unique: "unambiguous rs \<Longrightarrow> rx_lang rs s cs \<Longrightarrow> rx_lang rs s cs' \<Longrightarrow> cs' = cs"
proof (induction rs arbitrary: s cs cs' rule: unambiguous.induct)
  case 1
  then show ?case by (simp add: rx_lang_simps)
next
  case (2 P m rs)
  obtain a t ds a' t' ds' where "s = a @ t" "s = a' @ t'" "list_all P a" "list_all P a'" "rx_lang rs t ds" "rx_lang rs t' ds'"
      "cs = a # ds" "cs' = a' # ds'"
    using "2.prems"(2,3) unfolding rx_lang_simps by blast
  moreover from this have "a = a' \<and> t = t'" using run_unique [of a t a' t' P rs ds ds'] "2.prems"(1) by simp
  ultimately show ?case using "2.IH" "2.prems"(1) by simp
next
  case (3 P m rs)
  obtain a t a' t' where "s = a @ t" "s = a' @ t'" "list_all P a" "list_all P a'" "rx_lang rs t cs" "rx_lang rs t' cs'"
    using "3.prems"(2,3) unfolding rx_lang_simps by blast
  moreover from this have "a = a' \<and> t = t'" using run_unique [of a t a' t' P rs cs cs'] "3.prems"(1) by simp
  ultimately show ?case using "3.IH" "3.prems"(1) by simp
next
  case (4 d rs)
  then show ?case by (auto simp: rx_lang_simps)
next
  case (5 os rs)
  obtain d os' where os: "os = Lit d # os'" "\<not> may_start rs d"
    using "5.prems"(1) by (auto split: list.splits rx.splits)
  have ex: "\<not> (rx_lang (os @ rs) s ds \<and> rx_lang rs s ds')" for ds ds'
    using os may_start_lang [of rs s ds'] by (auto simp: rx_lang_simps)
  have "unambiguous (os @ rs)" "unambiguous rs" using "5.prems"(1) by simp_all
  then show ?case using "5.prems"(2,3) "5.IH" ex unfolding rx_lang_simps by blast
next
  case (6 rs)
  then show ?case by (auto simp: rx_lang_simps)
qed

lemma unambiguous_match: "unambiguous rs \<Longrightarrow> rx_match rs s = Some cs \<longleftrightarrow> rx_lang rs s cs"
  using rx_match_sound rx_match_unique unambiguous_unique by metis

section \<open>Runs that need no second try\<close>

lemma first_run:
  assumes "f (length (takeWhile P s)) = Some y" "m \<le> length (takeWhile P s)"
  shows "first_some f (run_lengths P m s) = Some y"
  using assms by (simp add: run_lengths_def)

lemma grab_greedy:
  "rx_match rs (dropWhile P s) = Some cs \<Longrightarrow> m \<le> length (takeWhile P s) \<Longrightarrow>
     rx_match (Grab P m # rs) s = Some (takeWhile P s # cs)"
  by (simp add: first_run dropWhile_eq_drop [symmetric] takeWhile_eq_take [symmetric])

lemma skip_greedy:
  "rx_match rs (dropWhile P s) = Some cs \<Longrightarrow> m \<le> length (takeWhile P s) \<Longrightarrow> rx_match (Skip P m # rs) s = Some cs"
  by (simp add: first_run dropWhile_eq_drop [symmetric])

end
