(* ===== verification/SpecTexts.thy ===== *)
theory SpecTexts
  imports RegexRuns
begin

text \<open>
  Texts of dependencies (\<open>libdnf/rpm/solv/reldep_parser.cpp\<close>) and specifications of modules
  (\<open>dnf-4/libdnf/nsvcap.cpp\<close> with the order of the forms in \<open>hy-subject.cpp\<close>). POSIX prescribes the
  leftmost longest match and not the first one found; the expressions of modules have one match at most, so
  the two agree (\<open>nsvcap_unambiguous\<close>).
\<close>

section \<open>Dependencies\<close>

datatype cmp_type = CMP_NONE | GT | EQ | GTE | LT | LTE

record reldep_parser =
  rp_name :: string
  rp_evr :: string
  rp_cmp :: cmp_type

definition non_space :: "char \<Rightarrow> bool" where "non_space c \<longleftrightarrow> \<not> is_space c"

definition RELDEP_REGEX :: "rx list" where
  "RELDEP_REGEX =
     [Grab non_space 0, Skip is_space 0, Opt [Grab non_space 0], Skip is_space 0, Grab non_space 0]"

definition set_cmp_type :: "string \<Rightarrow> cmp_type option" where
  "set_cmp_type t =
     (if length t = 2 then
        if t ! 1 \<noteq> CHR ''='' then None
        else if t ! 0 = CHR ''<'' then Some LTE
        else if t ! 0 = CHR ''>'' then Some GTE
        else None
      else if length t = 1 then
        if t ! 0 = CHR ''>'' then Some GT
        else if t ! 0 = CHR ''<'' then Some LT
        else if t ! 0 = CHR ''='' then Some EQ
        else None
      else None)"

text \<open>A relation and a version come together. After a failure the object may hold a part of the text.\<close>

definition reldep_parse :: "reldep_parser \<Rightarrow> string \<Rightarrow> bool \<times> reldep_parser" where
  "reldep_parse p s =
     (case rx_match RELDEP_REGEX s of
        Some [n, c, e] \<Rightarrow>
          if (c \<noteq> [] \<and> e \<noteq> []) \<or> (c = [] \<and> e = []) then
            let p = p\<lparr>rp_name := n\<rparr> in
            if c \<noteq> [] then
              let p = p\<lparr>rp_evr := e\<rparr> in
              (case set_cmp_type c of None \<Rightarrow> (False, p) | Some t \<Rightarrow> (True, p\<lparr>rp_cmp := t\<rparr>))
            else (True, p\<lparr>rp_cmp := CMP_NONE, rp_evr := []\<rparr>)
          else (False, p)
      | _ \<Rightarrow> (False, p))"

definition get_name_cstr :: "reldep_parser \<Rightarrow> string option" where
  "get_name_cstr p = (if rp_name p = [] then None else Some (rp_name p))"

definition get_evr_cstr :: "reldep_parser \<Rightarrow> string option" where
  "get_evr_cstr p = (if rp_evr p = [] then None else Some (rp_evr p))"

fun cmp_text :: "cmp_type \<Rightarrow> string" where
  "cmp_text CMP_NONE = ''''" | "cmp_text GT = ''>''" | "cmp_text EQ = ''=''" | "cmp_text GTE = ''>=''"
| "cmp_text LT = ''<''" | "cmp_text LTE = ''<=''"

lemma set_cmp_type_iff: "set_cmp_type t = Some c \<longleftrightarrow> c \<noteq> CMP_NONE \<and> t = cmp_text c"
proof -
  have "t = [] \<or> (\<exists>x. t = [x]) \<or> (\<exists>x y. t = [x, y]) \<or> 2 < length t"
    by (cases t rule: list.exhaust, simp, rename_tac u us, case_tac us, simp, rename_tac v vs, case_tac vs) simp_all
  then show ?thesis by (cases c) (auto simp: set_cmp_type_def)
qed

definition blanks :: "string \<Rightarrow> bool" where "blanks s \<longleftrightarrow> list_all is_space s"
definition word :: "string \<Rightarrow> bool" where "word s \<longleftrightarrow> list_all non_space s"

lemma run_word: "list_all P s \<Longrightarrow> (s' = [] \<or> \<not> P (hd s')) \<Longrightarrow> takeWhile P (s @ s') = s \<and> dropWhile P (s @ s') = s'"
  by (cases s') (auto simp: list_all_iff takeWhile_tail dropWhile_append3)

lemma grab_word:
  assumes "rx_match rs s' = Some cs" "list_all P s" "s' = [] \<or> \<not> P (hd s')" "m \<le> length s"
  shows "rx_match (Grab P m # rs) (s @ s') = Some (s # cs)"
  using grab_greedy [of rs P "s @ s'" cs m] run_word [OF assms(2,3)] assms by simp

lemma skip_word:
  assumes "rx_match rs s' = Some cs" "list_all P s" "s' = [] \<or> \<not> P (hd s')" "m \<le> length s"
  shows "rx_match (Skip P m # rs) (s @ s') = Some cs"
  using skip_greedy [of rs P "s @ s'" cs m] run_word [OF assms(2,3)] assms by simp

lemma hd_word: "word s \<Longrightarrow> s \<noteq> [] \<Longrightarrow> \<not> is_space (hd s)"
  by (cases s) (simp_all add: word_def non_space_def)

lemma hd_blanks: "blanks s \<Longrightarrow> s \<noteq> [] \<Longrightarrow> \<not> non_space (hd s)"
  by (cases s) (simp_all add: blanks_def non_space_def)

lemma reldep_match:
  assumes "word n" "word c" "word e" "blanks b" "blanks b'" "b \<noteq> []" "b' \<noteq> []" "c \<noteq> []" "e \<noteq> []"
  shows "rx_match RELDEP_REGEX (n @ b @ c @ b' @ e) = Some [n, c, e]"
proof -
  have e: "rx_match [Grab non_space 0] e = Some [e]"
    using grab_word [of "[]" "[]" "[]" non_space e 0] assms by (simp add: word_def)
  have r: "rx_match [Skip is_space 0, Grab non_space 0] (b' @ e) = Some [e]"
    using assms hd_word by (intro skip_word [OF e]) (auto simp: blanks_def)
  have c: "rx_match [Grab non_space 0, Skip is_space 0, Grab non_space 0] (c @ b' @ e) = Some [c, e]"
    using assms hd_blanks [of b'] by (intro grab_word [OF r]) (auto simp: word_def)
  have o: "rx_match [Opt [Grab non_space 0], Skip is_space 0, Grab non_space 0] (c @ b' @ e) = Some [c, e]"
    using c by (simp only: rx_match.simps append.simps option.simps)
  have b: "rx_match [Skip is_space 0, Opt [Grab non_space 0], Skip is_space 0, Grab non_space 0] (b @ c @ b' @ e) = Some [c, e]"
    using assms hd_word [of c] by (intro skip_word [OF o]) (auto simp: blanks_def)
  show ?thesis
    unfolding RELDEP_REGEX_def using assms hd_blanks [of b] by (intro grab_word [OF b]) (auto simp: word_def)
qed

lemma reldep_match_name:
  assumes "word n" shows "rx_match RELDEP_REGEX n = Some [n, [], []]"
proof -
  have "rx_match [Skip is_space 0, Opt [Grab non_space 0], Skip is_space 0, Grab non_space 0] [] = Some [[], []]"
    by (simp add: run_lengths_def)
  from grab_word [OF this, of non_space n 0] show ?thesis using assms by (simp add: RELDEP_REGEX_def word_def)
qed

lemma cmp_text_word: "word (cmp_text c)"
  by (cases c) (simp_all add: word_def non_space_def is_space_def char_code_def)

lemma cmp_text_empty: "cmp_text c = [] \<longleftrightarrow> c = CMP_NONE"
  by (cases c) simp_all

lemma reldep_parse_relation:
  assumes "word n" "word e" "blanks b" "blanks b'" "b \<noteq> []" "b' \<noteq> []" "e \<noteq> []" "c \<noteq> CMP_NONE"
  shows "reldep_parse p (n @ b @ cmp_text c @ b' @ e) = (True, p\<lparr>rp_name := n, rp_evr := e, rp_cmp := c\<rparr>)"
proof -
  have "set_cmp_type (cmp_text c) = Some c" using assms(8) by (simp add: set_cmp_type_iff)
  moreover have "rx_match RELDEP_REGEX (n @ b @ cmp_text c @ b' @ e) = Some [n, cmp_text c, e]"
    using assms cmp_text_word cmp_text_empty by (intro reldep_match) auto
  ultimately show ?thesis using assms(7,8) by (simp add: reldep_parse_def Let_def cmp_text_empty)
qed

lemma reldep_parse_name:
  "word n \<Longrightarrow> reldep_parse p n = (True, p\<lparr>rp_name := n, rp_evr := [], rp_cmp := CMP_NONE\<rparr>)"
  by (cases p) (simp add: reldep_parse_def reldep_match_name)

section \<open>Specifications of modules\<close>

datatype module_form =
    FORM_NSVCAP | FORM_NSVCA | FORM_NSVAP | FORM_NSVA | FORM_NSAP | FORM_NSA | FORM_NSVCP | FORM_NSVP | FORM_NSVC | FORM_NSV | FORM_NSP | FORM_NS | FORM_NAP | FORM_NA | FORM_NP | FORM_N

record nsvcap =
  ns_name :: string
  ns_stream :: string
  ns_version :: string
  ns_context :: string
  ns_arch :: string
  ns_profile :: string

definition HY_MODULE_FORMS_MOST_SPEC :: "module_form list" where
  "HY_MODULE_FORMS_MOST_SPEC =
     [FORM_NSVCAP, FORM_NSVCA, FORM_NSVAP, FORM_NSVA, FORM_NSAP, FORM_NSA, FORM_NSVCP, FORM_NSVP,
      FORM_NSVC, FORM_NSV, FORM_NSP, FORM_NS, FORM_NAP, FORM_NA, FORM_NP, FORM_N]"

definition GLOB :: string where "GLOB = ''][*?!''"
definition ASCII_LETTERS :: string where
  "ASCII_LETTERS = ''abcdefghijklmnopqrstuvwxyz'' @ ''ABCDEFGHIJKLMNOPQRSTUVWXYZ''"
definition DIGITS :: string where "DIGITS = ''0123456789''"
definition HEXADECIMAL :: string where "HEXADECIMAL = DIGITS @ ''abcdef''"
definition MODULE_SPECIAL :: string where "MODULE_SPECIAL = ''+._-''"

definition module_char :: "char \<Rightarrow> bool" where
  "module_char c \<longleftrightarrow> c \<in> set (GLOB @ ASCII_LETTERS @ DIGITS @ MODULE_SPECIAL)"
definition module_version_char :: "char \<Rightarrow> bool" where "module_version_char c \<longleftrightarrow> c \<in> set (GLOB @ DIGITS @ ''-'')"
definition module_context_char :: "char \<Rightarrow> bool" where "module_context_char c \<longleftrightarrow> c \<in> set (GLOB @ HEXADECIMAL @ ''-'')"

definition MODULE_NAME :: "rx list" where "MODULE_NAME = [Grab module_char 1]"
definition MODULE_STREAM :: "rx list" where "MODULE_STREAM = MODULE_NAME"
definition MODULE_VERSION :: "rx list" where "MODULE_VERSION = [Grab module_version_char 1]"
definition MODULE_CONTEXT :: "rx list" where "MODULE_CONTEXT = [Grab module_context_char 1]"
definition MODULE_ARCH :: "rx list" where "MODULE_ARCH = MODULE_NAME"
definition MODULE_PROFILE :: "rx list" where "MODULE_PROFILE = MODULE_NAME"

fun NSVCAP_FORM_REGEX :: "module_form \<Rightarrow> rx list" where
  "NSVCAP_FORM_REGEX FORM_NSVCAP =
     MODULE_NAME @ [Lit CHR '':''] @ MODULE_STREAM @ [Lit CHR '':''] @ MODULE_VERSION @ [Lit CHR '':''] @ MODULE_CONTEXT @ [Lit CHR '':'', Opt [Lit CHR '':'']] @ MODULE_ARCH @ [Lit CHR ''/''] @ MODULE_PROFILE"
| "NSVCAP_FORM_REGEX FORM_NSVCA =
     MODULE_NAME @ [Lit CHR '':''] @ MODULE_STREAM @ [Lit CHR '':''] @ MODULE_VERSION @ [Lit CHR '':''] @ MODULE_CONTEXT @ [Lit CHR '':'', Opt [Lit CHR '':'']] @ MODULE_ARCH @ [Opt [Lit CHR ''/''], Nothing]"
| "NSVCAP_FORM_REGEX FORM_NSVAP =
     MODULE_NAME @ [Lit CHR '':''] @ MODULE_STREAM @ [Lit CHR '':''] @ MODULE_VERSION @ [Nothing] @ [Lit CHR '':'', Lit CHR '':''] @ MODULE_ARCH @ [Lit CHR ''/''] @ MODULE_PROFILE"
| "NSVCAP_FORM_REGEX FORM_NSVA =
     MODULE_NAME @ [Lit CHR '':''] @ MODULE_STREAM @ [Lit CHR '':''] @ MODULE_VERSION @ [Nothing] @ [Lit CHR '':'', Lit CHR '':''] @ MODULE_ARCH @ [Opt [Lit CHR ''/''], Nothing]"
| "NSVCAP_FORM_REGEX FORM_NSAP =
     MODULE_NAME @ [Lit CHR '':''] @ MODULE_STREAM @ [Nothing] @ [Nothing] @ [Lit CHR '':'', Lit CHR '':''] @ MODULE_ARCH @ [Lit CHR ''/''] @ MODULE_PROFILE"
| "NSVCAP_FORM_REGEX FORM_NSA =
     MODULE_NAME @ [Lit CHR '':''] @ MODULE_STREAM @ [Nothing] @ [Nothing] @ [Lit CHR '':'', Lit CHR '':''] @ MODULE_ARCH @ [Opt [Lit CHR ''/''], Nothing]"
| "NSVCAP_FORM_REGEX FORM_NSVCP =
     MODULE_NAME @ [Lit CHR '':''] @ MODULE_STREAM @ [Lit CHR '':''] @ MODULE_VERSION @ [Lit CHR '':''] @ MODULE_CONTEXT @ [Nothing] @ [Lit CHR ''/''] @ MODULE_PROFILE"
| "NSVCAP_FORM_REGEX FORM_NSVP =
     MODULE_NAME @ [Lit CHR '':''] @ MODULE_STREAM @ [Lit CHR '':''] @ MODULE_VERSION @ [Nothing] @ [Nothing] @ [Lit CHR ''/''] @ MODULE_PROFILE"
| "NSVCAP_FORM_REGEX FORM_NSVC =
     MODULE_NAME @ [Lit CHR '':''] @ MODULE_STREAM @ [Lit CHR '':''] @ MODULE_VERSION @ [Lit CHR '':''] @ MODULE_CONTEXT @ [Nothing] @ [Opt [Lit CHR ''/''], Nothing]"
| "NSVCAP_FORM_REGEX FORM_NSV =
     MODULE_NAME @ [Lit CHR '':''] @ MODULE_STREAM @ [Lit CHR '':''] @ MODULE_VERSION @ [Nothing] @ [Nothing] @ [Opt [Lit CHR ''/''], Nothing]"
| "NSVCAP_FORM_REGEX FORM_NSP =
     MODULE_NAME @ [Lit CHR '':''] @ MODULE_STREAM @ [Nothing] @ [Nothing] @ [Nothing] @ [Lit CHR ''/''] @ MODULE_PROFILE"
| "NSVCAP_FORM_REGEX FORM_NS =
     MODULE_NAME @ [Lit CHR '':''] @ MODULE_STREAM @ [Nothing] @ [Nothing] @ [Nothing] @ [Opt [Lit CHR ''/''], Nothing]"
| "NSVCAP_FORM_REGEX FORM_NAP =
     MODULE_NAME @ [Nothing] @ [Nothing] @ [Nothing] @ [Lit CHR '':'', Lit CHR '':''] @ MODULE_ARCH @ [Lit CHR ''/''] @ MODULE_PROFILE"
| "NSVCAP_FORM_REGEX FORM_NA =
     MODULE_NAME @ [Nothing] @ [Nothing] @ [Nothing] @ [Lit CHR '':'', Lit CHR '':''] @ MODULE_ARCH @ [Opt [Lit CHR ''/''], Nothing]"
| "NSVCAP_FORM_REGEX FORM_NP =
     MODULE_NAME @ [Nothing] @ [Nothing] @ [Nothing] @ [Nothing] @ [Lit CHR ''/''] @ MODULE_PROFILE"
| "NSVCAP_FORM_REGEX FORM_N =
     MODULE_NAME @ [Nothing] @ [Nothing] @ [Nothing] @ [Nothing] @ [Opt [Lit CHR ''/''], Nothing]"

definition nsvcap_parse :: "nsvcap \<Rightarrow> string \<Rightarrow> module_form \<Rightarrow> bool \<times> nsvcap" where
  "nsvcap_parse nv s form =
     (case rx_match (NSVCAP_FORM_REGEX form) s of
        Some [n, st, v, c, a, p] \<Rightarrow>
          if n = [] then (False, nv)
          else (True, nv\<lparr>ns_name := n, ns_version := v, ns_stream := st, ns_context := c, ns_arch := a, ns_profile := p\<rparr>)
      | _ \<Rightarrow> (False, nv))"

definition nsvcap_clear :: "nsvcap \<Rightarrow> nsvcap" where
  "nsvcap_clear nv =
     nv\<lparr>ns_name := [], ns_stream := [], ns_version := [], ns_context := [], ns_arch := [], ns_profile := []\<rparr>"

text \<open>Which parts a form has.\<close>

definition has_stream :: "module_form \<Rightarrow> bool" where
  "has_stream f \<longleftrightarrow> f \<in> {FORM_NSVCAP, FORM_NSVCA, FORM_NSVAP, FORM_NSVA, FORM_NSAP, FORM_NSA, FORM_NSVCP, FORM_NSVP, FORM_NSVC, FORM_NSV, FORM_NSP, FORM_NS}"
definition has_mversion :: "module_form \<Rightarrow> bool" where
  "has_mversion f \<longleftrightarrow> f \<in> {FORM_NSVCAP, FORM_NSVCA, FORM_NSVAP, FORM_NSVA, FORM_NSVCP, FORM_NSVP, FORM_NSVC, FORM_NSV}"
definition has_context :: "module_form \<Rightarrow> bool" where
  "has_context f \<longleftrightarrow> f \<in> {FORM_NSVCAP, FORM_NSVCA, FORM_NSVCP, FORM_NSVC}"
definition has_march :: "module_form \<Rightarrow> bool" where
  "has_march f \<longleftrightarrow> f \<in> {FORM_NSVCAP, FORM_NSVCA, FORM_NSVAP, FORM_NSVA, FORM_NSAP, FORM_NSA, FORM_NAP, FORM_NA}"
definition has_profile :: "module_form \<Rightarrow> bool" where
  "has_profile f \<longleftrightarrow> f \<in> {FORM_NSVCAP, FORM_NSVAP, FORM_NSAP, FORM_NSVCP, FORM_NSVP, FORM_NSP, FORM_NAP, FORM_NP}"

lemmas module_parts = has_stream_def has_mversion_def has_context_def has_march_def has_profile_def
lemmas module_rx = MODULE_NAME_def MODULE_STREAM_def MODULE_VERSION_def MODULE_CONTEXT_def MODULE_ARCH_def MODULE_PROFILE_def

text \<open>
  The text of a specification. Where a context is given one or two colons separate it from the
  architecture, and a text without a profile may end in a slash.
\<close>

definition nsvcap_text :: "module_form \<Rightarrow> bool \<Rightarrow> bool \<Rightarrow> nsvcap \<Rightarrow> string" where
  "nsvcap_text f one slash nv =
     ns_name nv @
     (if has_stream f then CHR '':'' # ns_stream nv else []) @
     (if has_mversion f then CHR '':'' # ns_version nv else []) @
     (if has_context f then CHR '':'' # ns_context nv else []) @
     (if has_march f then (if one \<and> has_context f then '':'' else ''::'') @ ns_arch nv else []) @
     (if has_profile f then CHR ''/'' # ns_profile nv else if slash then ''/'' else [])"

definition module_word :: "(char \<Rightarrow> bool) \<Rightarrow> bool \<Rightarrow> string \<Rightarrow> bool" where
  "module_word P given s \<longleftrightarrow> (if given then s \<noteq> [] \<and> list_all P s else s = [])"

definition well_formed_spec :: "module_form \<Rightarrow> nsvcap \<Rightarrow> bool" where
  "well_formed_spec f nv \<longleftrightarrow>
     module_word module_char True (ns_name nv) \<and> module_word module_char (has_stream f) (ns_stream nv) \<and>
     module_word module_version_char (has_mversion f) (ns_version nv) \<and>
     module_word module_context_char (has_context f) (ns_context nv) \<and>
     module_word module_char (has_march f) (ns_arch nv) \<and> module_word module_char (has_profile f) (ns_profile nv)"

definition nsvcap_fields :: "nsvcap \<Rightarrow> string list" where
  "nsvcap_fields nv = [ns_name nv, ns_stream nv, ns_version nv, ns_context nv, ns_arch nv, ns_profile nv]"

lemma no_separator:
  "\<not> module_char CHR '':''" "\<not> module_char CHR ''/''" "\<not> module_version_char CHR '':''"
  "\<not> module_version_char CHR ''/''" "\<not> module_context_char CHR '':''" "\<not> module_context_char CHR ''/''"
  by (simp_all add: module_char_def module_version_char_def module_context_char_def GLOB_def ASCII_LETTERS_def DIGITS_def
      HEXADECIMAL_def MODULE_SPECIAL_def)

lemma nsvcap_unambiguous: "unambiguous (NSVCAP_FORM_REGEX form)"
  by (cases form) (auto simp: module_rx no_separator)

lemma lang_grab_last: "rx_lang rs [] cs \<Longrightarrow> list_all P a \<Longrightarrow> m \<le> length a \<Longrightarrow> rx_lang (Grab P m # rs) a (a # cs)"
  using rx_lang.grab [of rs "[]" cs P a m] by simp

lemma opt_lit: "rx_lang (Opt [Lit d] # rs) s cs \<longleftrightarrow> (\<exists>t. s = d # t \<and> rx_lang rs t cs) \<or> rx_lang rs s cs"
  by (simp add: rx_lang_simps)

lemma nsvcap_lang:
  "rx_lang (NSVCAP_FORM_REGEX form) s cs \<Longrightarrow>
     \<exists>n st v c a p one slash. cs = [n, st, v, c, a, p] \<and>
       well_formed_spec form \<lparr>ns_name = n, ns_stream = st, ns_version = v, ns_context = c, ns_arch = a, ns_profile = p\<rparr> \<and>
       s = nsvcap_text form one slash \<lparr>ns_name = n, ns_stream = st, ns_version = v, ns_context = c, ns_arch = a, ns_profile = p\<rparr>"
  by (cases form; simp only: NSVCAP_FORM_REGEX.simps module_rx append.simps One_nat_def opt_lit;
      clarsimp simp: opt_lit rx_lang_simps well_formed_spec_def module_word_def module_parts nsvcap_text_def; fastforce)

lemma lang_nsvcap:
  "well_formed_spec form nv \<Longrightarrow> rx_lang (NSVCAP_FORM_REGEX form) (nsvcap_text form one slash nv) (nsvcap_fields nv)"
  by (cases form; cases one; cases slash; (simp only: NSVCAP_FORM_REGEX.simps module_rx append.simps One_nat_def);
      (auto simp: nsvcap_fields_def well_formed_spec_def module_word_def module_parts nsvcap_text_def Suc_le_eq
        opt_lit rx_lang_simps(1) intro!: rx_lang.lit rx_lang.nothing rx_lang.empty lang_grab_last rx_lang.grab))

lemma spec_fields_inj: "nsvcap_fields nv = nsvcap_fields nv' \<longleftrightarrow> nv = nv'"
  by (cases nv, cases nv') (auto simp: nsvcap_fields_def)

lemma nsvcap_match_iff:
  "rx_match (NSVCAP_FORM_REGEX form) s = Some cs \<longleftrightarrow>
     (\<exists>nv one slash. well_formed_spec form nv \<and> s = nsvcap_text form one slash nv \<and> cs = nsvcap_fields nv)"
proof -
  have "rx_lang (NSVCAP_FORM_REGEX form) s cs \<Longrightarrow>
      \<exists>nv one slash. well_formed_spec form nv \<and> s = nsvcap_text form one slash nv \<and> cs = nsvcap_fields nv"
    by (drule nsvcap_lang) (force simp: nsvcap_fields_def)
  then show ?thesis unfolding unambiguous_match [OF nsvcap_unambiguous] by (auto intro: lang_nsvcap)
qed

text \<open>C33. A specification of a module is taken apart in a form exactly when it is a text of that form, and the
  parts are those it was written from.
\<close>

theorem nsvcap_parse_inverts_text:
  "nsvcap_parse nv0 s form = (True, nv) \<longleftrightarrow>
     well_formed_spec form nv \<and> (\<exists>one slash. s = nsvcap_text form one slash nv)"
proof -
  have "nsvcap_parse nv0 s form = (True, nv) \<longleftrightarrow>
      rx_match (NSVCAP_FORM_REGEX form) s = Some (nsvcap_fields nv) \<and> ns_name nv \<noteq> []" (is "?l \<longleftrightarrow> ?r")
  proof
    assume ?l
    then show ?r
      by (cases nv, cases nv0) (auto simp: nsvcap_parse_def nsvcap_fields_def split: option.splits list.splits if_splits)
  next
    assume ?r
    then show ?l by (cases nv, cases nv0) (auto simp: nsvcap_parse_def nsvcap_fields_def)
  qed
  also have "\<dots> \<longleftrightarrow> well_formed_spec form nv \<and> (\<exists>one slash. s = nsvcap_text form one slash nv)"
    unfolding nsvcap_match_iff spec_fields_inj by (auto simp: well_formed_spec_def module_word_def)
  finally show ?thesis .
qed

end
