(* ===== verification/Nevra.thy ===== *)
theory Nevra
  imports RegexRuns
begin

text \<open>
  Names of packages (\<open>libdnf/rpm/nevra.cpp\<close>, \<open>include/libdnf/rpm/nevra.hpp\<close>) and texts of
  dependencies (\<open>libdnf/rpm/solv/reldep_parser.cpp\<close>). A text is taken apart by one of five regular
  expressions; the theorems say which texts each of them accepts and with which parts.
\<close>

section \<open>Nevra\<close>

datatype nevra_form = NEVRA | NEVR | NEV | NA | NAME

record nevra =
  nv_name :: string
  nv_epoch :: string
  nv_version :: string
  nv_release :: string
  nv_arch :: string

definition empty_nevra :: nevra where
  "empty_nevra = \<lparr>nv_name = [], nv_epoch = [], nv_version = [], nv_release = [], nv_arch = []\<rparr>"

text \<open>The forms in the order in which a specification is tried.\<close>

definition PKG_SPEC_FORMS :: "nevra_form list" where
  "PKG_SPEC_FORMS = [NEVRA, NA, NAME, NEVR, NEV]"

definition name_char :: "char \<Rightarrow> bool" where "name_char c \<longleftrightarrow> c \<notin> set '':(/=<> ''"
definition epoch_char :: "char \<Rightarrow> bool" where "epoch_char c \<longleftrightarrow> c \<in> set ''][*?0123456789''"
definition version_char :: "char \<Rightarrow> bool" where "version_char c \<longleftrightarrow> c \<notin> set ''-:(/=<> ''"
definition arch_char :: "char \<Rightarrow> bool" where "arch_char c \<longleftrightarrow> c \<notin> set ''-:.(/=<> ''"

definition PKG_NAME :: "rx list" where "PKG_NAME = [Grab name_char 1]"
definition PKG_EPOCH :: "rx list" where "PKG_EPOCH = [Opt [Grab epoch_char 1, Lit CHR '':'']]"
definition PKG_VERSION :: "rx list" where "PKG_VERSION = [Grab version_char 1]"
definition PKG_RELEASE :: "rx list" where "PKG_RELEASE = PKG_VERSION"
definition PKG_ARCH :: "rx list" where "PKG_ARCH = [Grab arch_char 1]"

text \<open>
  The groups of interest are name, epoch, version, release and architecture; the group around the epoch
  and its colon is not read and has no capture here.
\<close>

fun NEVRA_FORM_REGEX :: "nevra_form \<Rightarrow> rx list" where
  "NEVRA_FORM_REGEX NEVRA =
     PKG_NAME @ [Lit CHR ''-''] @ PKG_EPOCH @ PKG_VERSION @ [Lit CHR ''-''] @ PKG_RELEASE @ [Lit CHR ''.''] @ PKG_ARCH"
| "NEVRA_FORM_REGEX NEVR =
     PKG_NAME @ [Lit CHR ''-''] @ PKG_EPOCH @ PKG_VERSION @ [Lit CHR ''-''] @ PKG_RELEASE @ [Nothing]"
| "NEVRA_FORM_REGEX NEV = PKG_NAME @ [Lit CHR ''-''] @ PKG_EPOCH @ PKG_VERSION @ [Nothing, Nothing]"
| "NEVRA_FORM_REGEX NA = PKG_NAME @ [Nothing, Nothing, Nothing] @ [Lit CHR ''.''] @ PKG_ARCH"
| "NEVRA_FORM_REGEX NAME = PKG_NAME @ [Nothing, Nothing, Nothing, Nothing]"

text \<open>The text must match as a whole; otherwise the object is left as it was.\<close>

definition nevra_parse :: "nevra \<Rightarrow> string \<Rightarrow> nevra_form \<Rightarrow> bool \<times> nevra" where
  "nevra_parse nv s form =
     (case rx_match (NEVRA_FORM_REGEX form) s of
        Some [n, e, v, r, a] \<Rightarrow>
          (True, nv\<lparr>nv_name := n, nv_epoch := e, nv_version := v, nv_release := r, nv_arch := a\<rparr>)
      | _ \<Rightarrow> (False, nv))"

definition nevra_clear :: "nevra \<Rightarrow> nevra" where
  "nevra_clear nv = nv\<lparr>nv_name := [], nv_epoch := [], nv_version := [], nv_release := [], nv_arch := []\<rparr>"

definition has_just_name :: "nevra \<Rightarrow> bool" where
  "has_just_name nv \<longleftrightarrow>
     nv_name nv \<noteq> [] \<and> nv_epoch nv = [] \<and> nv_version nv = [] \<and> nv_release nv = [] \<and> nv_arch nv = []"

section \<open>Which texts have which form\<close>

definition word_of :: "(char \<Rightarrow> bool) \<Rightarrow> string \<Rightarrow> bool" where "word_of P s \<longleftrightarrow> s \<noteq> [] \<and> list_all P s"

definition epoch_text :: "string \<Rightarrow> string" where "epoch_text e = (if e = [] then [] else e @ '':'')"

fun nevra_text :: "nevra_form \<Rightarrow> nevra \<Rightarrow> string" where
  "nevra_text NEVRA nv = nv_name nv @ CHR ''-'' # (epoch_text (nv_epoch nv) @ nv_version nv) @ CHR ''-'' # nv_release nv @
     CHR ''.'' # nv_arch nv"
| "nevra_text NEVR nv = nv_name nv @ CHR ''-'' # (epoch_text (nv_epoch nv) @ nv_version nv) @ CHR ''-'' # nv_release nv"
| "nevra_text NEV nv = nv_name nv @ CHR ''-'' # epoch_text (nv_epoch nv) @ nv_version nv"
| "nevra_text NA nv = nv_name nv @ CHR ''.'' # nv_arch nv"
| "nevra_text NAME nv = nv_name nv"

definition has_version :: "nevra_form \<Rightarrow> bool" where "has_version form \<longleftrightarrow> form = NEVRA \<or> form = NEVR \<or> form = NEV"
definition has_release :: "nevra_form \<Rightarrow> bool" where "has_release form \<longleftrightarrow> form = NEVRA \<or> form = NEVR"
definition has_arch :: "nevra_form \<Rightarrow> bool" where "has_arch form \<longleftrightarrow> form = NEVRA \<or> form = NA"

definition well_formed :: "nevra_form \<Rightarrow> nevra \<Rightarrow> bool" where
  "well_formed form nv \<longleftrightarrow>
     word_of name_char (nv_name nv) \<and>
     (if has_version form then list_all epoch_char (nv_epoch nv) \<and> word_of version_char (nv_version nv)
      else nv_epoch nv = [] \<and> nv_version nv = []) \<and>
     (if has_release form then word_of version_char (nv_release nv) else nv_release nv = []) \<and>
     (if has_arch form then word_of arch_char (nv_arch nv) else nv_arch nv = [])"

lemmas pkg_parts = PKG_NAME_def PKG_EPOCH_def PKG_VERSION_def PKG_RELEASE_def PKG_ARCH_def
lemmas form_parts = has_version_def has_release_def has_arch_def

definition nevra_fields :: "nevra \<Rightarrow> string list" where
  "nevra_fields nv = [nv_name nv, nv_epoch nv, nv_version nv, nv_release nv, nv_arch nv]"

lemma fields_inj: "nevra_fields nv = nevra_fields nv' \<longleftrightarrow> nv = nv'"
  by (cases nv, cases nv') (auto simp: nevra_fields_def)

lemma lang_epoch:
  assumes "rx_lang rs s cs" "list_all epoch_char e"
  shows "rx_lang (Opt [Grab epoch_char 1, Lit CHR '':''] # rs) (epoch_text e @ s) (e # cs)"
proof (cases "e = []")
  case True
  then show ?thesis using rx_lang.opt_none [OF assms(1), of 1 "[Grab epoch_char 1, Lit CHR '':'']"] by (simp add: epoch_text_def)
next
  case False
  then have "rx_lang (Grab epoch_char 1 # Lit CHR '':'' # rs) (e @ CHR '':'' # s) (e # cs)"
    using assms by (intro rx_lang.grab rx_lang.lit) (auto simp: Suc_le_eq)
  then show ?thesis using False by (intro rx_lang.opt_some) (simp add: epoch_text_def)
qed

lemma lang_grab_end: "rx_lang rs [] cs \<Longrightarrow> list_all P a \<Longrightarrow> m \<le> length a \<Longrightarrow> rx_lang (Grab P m # rs) a (a # cs)"
  using rx_lang.grab [of rs "[]" cs P a m] by simp

lemma nevra_lang_iff:
  "rx_lang (NEVRA_FORM_REGEX form) s cs \<longleftrightarrow>
     (\<exists>nv. well_formed form nv \<and> s = nevra_text form nv \<and> cs = nevra_fields nv)"
proof
  assume l: "rx_lang (NEVRA_FORM_REGEX form) s cs"
  have ex: "length cs = 5 \<and> (\<forall>n e v r a. cs = [n, e, v, r, a] \<longrightarrow>
      well_formed form \<lparr>nv_name = n, nv_epoch = e, nv_version = v, nv_release = r, nv_arch = a\<rparr> \<and>
      s = nevra_text form \<lparr>nv_name = n, nv_epoch = e, nv_version = v, nv_release = r, nv_arch = a\<rparr>)"
    using l by (cases form) (auto simp: pkg_parts rx_lang_simps well_formed_def form_parts word_of_def epoch_text_def)
  then obtain n e v r a where "cs = [n, e, v, r, a]"
    by (auto simp: numeral_eq_Suc length_Suc_conv)
  then show "\<exists>nv. well_formed form nv \<and> s = nevra_text form nv \<and> cs = nevra_fields nv"
    using ex by (intro exI [of _ "\<lparr>nv_name = n, nv_epoch = e, nv_version = v, nv_release = r, nv_arch = a\<rparr>"])
      (simp add: nevra_fields_def)
next
  assume "\<exists>nv. well_formed form nv \<and> s = nevra_text form nv \<and> cs = nevra_fields nv"
  then show "rx_lang (NEVRA_FORM_REGEX form) s cs"
    by (cases form)
      (auto simp: pkg_parts [unfolded One_nat_def] nevra_fields_def well_formed_def form_parts word_of_def Suc_le_eq
        intro!: lang_epoch [unfolded One_nat_def] rx_lang.lit rx_lang.nothing rx_lang.empty lang_grab_end rx_lang.grab)
qed

text \<open>A text has one form of each kind: its parts are cut off at the last dots and dashes.\<close>

lemma chars_out:
  "\<not> version_char CHR ''-''" "\<not> version_char CHR '':''" "\<not> arch_char CHR ''-''" "\<not> arch_char CHR ''.''"
  "\<not> epoch_char CHR ''-''" "\<not> epoch_char CHR '':''"
  by (simp_all add: version_char_def arch_char_def epoch_char_def)

lemma word_no: "list_all P s \<Longrightarrow> \<not> P c \<Longrightarrow> c \<notin> set s"
  by (auto simp: list_all_iff)

lemma version_no: "word_of version_char s \<Longrightarrow> CHR ''-'' \<notin> set s \<and> CHR '':'' \<notin> set s"
  using word_no [of version_char s "CHR ''-''"] word_no [of version_char s "CHR '':''"] chars_out by (simp add: word_of_def)

lemma arch_no: "word_of arch_char s \<Longrightarrow> CHR ''-'' \<notin> set s \<and> CHR ''.'' \<notin> set s"
  using word_no [of arch_char s "CHR ''-''"] word_no [of arch_char s "CHR ''.''"] chars_out by (simp add: word_of_def)

lemma epoch_no: "list_all epoch_char s \<Longrightarrow> CHR ''-'' \<notin> set s \<and> CHR '':'' \<notin> set s"
  using word_no [of epoch_char s "CHR ''-''"] word_no [of epoch_char s "CHR '':''"] chars_out by (simp)

lemma epoch_text_no: "list_all epoch_char s \<Longrightarrow> CHR ''-'' \<notin> set (epoch_text s)"
  by (simp add: epoch_text_def epoch_no)

lemma epoch_text_unique:
  assumes "epoch_text e @ v = epoch_text e' @ v'" "list_all epoch_char e" "list_all epoch_char e'"
    "word_of version_char v" "word_of version_char v'"
  shows "e = e' \<and> v = v'"
proof (cases "CHR '':'' \<in> set (epoch_text e @ v)")
  case True
  then have "CHR '':'' \<in> set (epoch_text e' @ v')" using assms(1) by simp
  with True have "e \<noteq> []" "e' \<noteq> []"
    using version_no [OF assms(4)] version_no [OF assms(5)] by (auto simp: epoch_text_def)
  then show ?thesis
    using assms(1) first_cut [of e "CHR '':''" v e' v'] epoch_no [OF assms(2)] epoch_no [OF assms(3)]
    by (simp add: epoch_text_def)
next
  case False
  then have "CHR '':'' \<notin> set (epoch_text e' @ v')" using assms(1) by simp
  with False have "e = []" "e' = []" by (auto simp: epoch_text_def split: if_splits)
  then show ?thesis using assms(1) by (simp add: epoch_text_def)
qed

lemma name_version_unique:
  assumes "n @ CHR ''-'' # epoch_text e @ v = n' @ CHR ''-'' # epoch_text e' @ v'"
    "list_all epoch_char e" "list_all epoch_char e'" "word_of version_char v" "word_of version_char v'"
  shows "n = n' \<and> e = e' \<and> v = v'"
proof -
  have "n = n' \<and> epoch_text e @ v = epoch_text e' @ v'"
    using assms(2-) version_no epoch_text_no by (intro last_cut [OF assms(1)]) auto
  then show ?thesis using epoch_text_unique assms(2-) by blast
qed

lemma release_unique:
  "x @ CHR ''-'' # r = x' @ CHR ''-'' # r' \<Longrightarrow> word_of version_char r \<Longrightarrow> word_of version_char r' \<Longrightarrow> x = x' \<and> r = r'"
  using version_no by (intro last_cut) auto

lemma arch_unique:
  "x @ CHR ''.'' # a = x' @ CHR ''.'' # a' \<Longrightarrow> word_of arch_char a \<Longrightarrow> word_of arch_char a' \<Longrightarrow> x = x' \<and> a = a'"
  using arch_no by (intro last_cut) auto

lemma version_release_unique:
  assumes "n @ CHR ''-'' # (epoch_text e @ v) @ CHR ''-'' # r = n' @ CHR ''-'' # (epoch_text e' @ v') @ CHR ''-'' # r'"
    "list_all epoch_char e" "list_all epoch_char e'" "word_of version_char v" "word_of version_char v'"
    "word_of version_char r" "word_of version_char r'"
  shows "n = n' \<and> e = e' \<and> v = v' \<and> r = r'"
proof -
  have "n @ CHR ''-'' # epoch_text e @ v = n' @ CHR ''-'' # epoch_text e' @ v' \<and> r = r'"
    using assms(1) by (intro release_unique assms(6,7)) simp
  then show ?thesis using name_version_unique assms(2-5) by blast
qed

lemma nevra_text_unique:
  assumes w: "well_formed form nv" "well_formed form nv'" and eq: "nevra_text form nv = nevra_text form nv'"
  shows "nv = nv'"
proof (cases form)
  case NEVRA
  note w = w [unfolded NEVRA well_formed_def form_parts, simplified]
  have "nv_name nv @ CHR ''-'' # (epoch_text (nv_epoch nv) @ nv_version nv) @ CHR ''-'' # nv_release nv =
      nv_name nv' @ CHR ''-'' # (epoch_text (nv_epoch nv') @ nv_version nv') @ CHR ''-'' # nv_release nv' \<and>
      nv_arch nv = nv_arch nv'"
    using eq w NEVRA by (intro arch_unique) (simp_all only: nevra_text.simps append_assoc append_Cons)
  moreover from this have "nv_name nv = nv_name nv' \<and> nv_epoch nv = nv_epoch nv' \<and> nv_version nv = nv_version nv' \<and>
      nv_release nv = nv_release nv'"
    using w by (intro version_release_unique) simp_all
  ultimately show ?thesis by (intro nevra.equality) simp_all
next
  case NEVR
  note w = w [unfolded NEVR well_formed_def form_parts, simplified]
  have "nv_name nv = nv_name nv' \<and> nv_epoch nv = nv_epoch nv' \<and> nv_version nv = nv_version nv' \<and> nv_release nv = nv_release nv'"
    using eq w NEVR by (intro version_release_unique) simp_all
  then show ?thesis using w by (intro nevra.equality) simp_all
next
  case NEV
  note w = w [unfolded NEV well_formed_def form_parts, simplified]
  have "nv_name nv = nv_name nv' \<and> nv_epoch nv = nv_epoch nv' \<and> nv_version nv = nv_version nv'"
    using eq w NEV by (intro name_version_unique) simp_all
  then show ?thesis using w by (intro nevra.equality) simp_all
next
  case NA
  note w = w [unfolded NA well_formed_def form_parts, simplified]
  have "nv_name nv = nv_name nv' \<and> nv_arch nv = nv_arch nv'"
    using eq w NA by (intro arch_unique) simp_all
  then show ?thesis using w by (intro nevra.equality) simp_all
next
  case NAME
  then show ?thesis using assms by (intro nevra.equality) (auto simp: well_formed_def form_parts)
qed

lemma nevra_match_iff:
  "rx_match (NEVRA_FORM_REGEX form) s = Some cs \<longleftrightarrow> (\<exists>nv. well_formed form nv \<and> s = nevra_text form nv \<and> cs = nevra_fields nv)"
proof
  assume "rx_match (NEVRA_FORM_REGEX form) s = Some cs"
  then show "\<exists>nv. well_formed form nv \<and> s = nevra_text form nv \<and> cs = nevra_fields nv"
    using rx_match_sound nevra_lang_iff by blast
next
  assume "\<exists>nv. well_formed form nv \<and> s = nevra_text form nv \<and> cs = nevra_fields nv"
  then obtain nv where nv: "well_formed form nv" "s = nevra_text form nv" "cs = nevra_fields nv" by blast
  show "rx_match (NEVRA_FORM_REGEX form) s = Some cs"
    using nv nevra_text_unique by (intro rx_match_unique) (auto simp: nevra_lang_iff)
qed

lemma nevra_parse_iff:
  "nevra_parse nv0 s form = (True, nv) \<longleftrightarrow> well_formed form nv \<and> s = nevra_text form nv"
proof -
  have "nevra_parse nv0 s form = (True, nv) \<longleftrightarrow> rx_match (NEVRA_FORM_REGEX form) s = Some (nevra_fields nv)"
    (is "?l \<longleftrightarrow> ?r")
  proof
    assume ?l
    then show ?r
      by (cases nv, cases nv0) (auto simp: nevra_parse_def nevra_fields_def split: option.splits list.splits)
  next
    assume ?r
    then show ?l
      by (cases nv, cases nv0) (auto simp: nevra_parse_def nevra_fields_def)
  qed
  also have "\<dots> \<longleftrightarrow> well_formed form nv \<and> s = nevra_text form nv"
    unfolding nevra_match_iff fields_inj by blast
  finally show ?thesis .
qed

lemma nevra_parse_fails: "\<not> fst (nevra_parse nv0 s form) \<Longrightarrow> snd (nevra_parse nv0 s form) = nv0"
  by (auto simp: nevra_parse_def split: option.splits list.splits)

text \<open>C9. A text is taken apart in a form exactly when it is the text of a well-formed name of that form, and the
  parts are those of that name: what a name was written from is read back, and nothing else is accepted.
\<close>

theorem nevra_parse_inverts_text:
  "(nevra_parse nv0 s form = (True, nv) \<longleftrightarrow> well_formed form nv \<and> s = nevra_text form nv) \<and>
   (\<not> fst (nevra_parse nv0 s form) \<longleftrightarrow> \<not> (\<exists>nv'. well_formed form nv' \<and> s = nevra_text form nv'))"
  using nevra_parse_iff [of nv0 s form] by (cases "nevra_parse nv0 s form") auto

end
