(* ===== verification/SolvPool.thy ===== *)
theory SolvPool
  imports Sack SpecTexts Nevra "HOL-Library.Product_Lexorder"
begin

text \<open>
  The pool of libsolv as the queries see it: \<open>libdnf/rpm/solv/package_private.hpp\<close> and \<open>.cpp\<close>,
  \<open>libdnf/rpm/solv_sack_impl.hpp\<close>, \<open>libdnf/rpm/reldep.cpp\<close> and \<open>libdnf/rpm/reldep_list.cpp\<close>. The functions of
  libsolv are the fields of the record \<open>pool\<close>; an id is a number and 0 is no id.
\<close>

section \<open>The pool\<close>

text \<open>
  \<open>str2id\<close> looks a string up without creating an id (0 when the pool does not know it); \<open>dep_id\<close> is the id of
  a name with an optional relation and version, \<open>rich_id\<close> that of a rich dependency (0 when it cannot be
  parsed), both created when they are new. \<open>evrcmp\<close> compares two versions, \<open>fnm\<close> is \<open>fnmatch\<close> with or
  without \<open>FNM_CASEFOLD\<close>, \<open>data_search\<close> tells whether the data iterator finds something of a solvable under a
  key and \<open>data_strings\<close> are the strings it finds anywhere. The keys and flags of libsolv are named, not numbered.
\<close>

datatype solv_key =
    SOLVABLE_SUMMARY | SOLVABLE_DESCRIPTION | SOLVABLE_URL | SOLVABLE_FILELIST | SOLVABLE_OBSOLETES
  | SOLVABLE_CONFLICTS | SOLVABLE_REQUIRES | SOLVABLE_RECOMMENDS | SOLVABLE_SUGGESTS | SOLVABLE_SUPPLEMENTS
  | SOLVABLE_ENHANCES

datatype search_flag =
  SEARCH_FILES | SEARCH_COMPLETE_FILELIST | SEARCH_NOCASE | SEARCH_STRING | SEARCH_SUBSTRING | SEARCH_GLOB

record pool =
  id2str :: "nat \<Rightarrow> string"
  str2id :: "string \<Rightarrow> nat"
  nsolvables :: nat
  so_name :: "nat \<Rightarrow> nat"
  so_arch :: "nat \<Rightarrow> nat"
  so_evr :: "nat \<Rightarrow> nat"
  so_repo :: "nat \<Rightarrow> nat option"
  nrepos :: nat
  repo_name :: "nat \<Rightarrow> string option"
  evrcmp :: "string \<Rightarrow> string \<Rightarrow> int"
  fnm :: "bool \<Rightarrow> string \<Rightarrow> string \<Rightarrow> bool"
  nevra_str :: "nat \<Rightarrow> string"
  source_name :: "nat \<Rightarrow> string option"
  source_rpm :: "nat \<Rightarrow> string option"
  location :: "nat \<Rightarrow> string option"
  dep_id :: "string option \<Rightarrow> string option \<Rightarrow> cmp_type \<Rightarrow> nat"
  rich_id :: "string \<Rightarrow> nat"
  data_strings :: "string option \<Rightarrow> string list"
  data_search :: "solv_key \<Rightarrow> search_flag set \<Rightarrow> nat \<Rightarrow> string \<Rightarrow> bool"
  provides_of :: "nat \<Rightarrow> nat list"
  id_array :: "nat \<Rightarrow> solv_key \<Rightarrow> nat list"
  match_dep :: "nat \<Rightarrow> nat \<Rightarrow> bool"
  match_nevr :: "nat \<Rightarrow> nat \<Rightarrow> bool"
  select_matching :: "solv_key \<Rightarrow> nat \<Rightarrow> nat list"
  obsoletes_use_provides :: bool

text \<open>
  What the callers of these functions can meet: the exception of an operator that a filter does not have, an
  \<open>assert\<close> that fails, a null pointer used as a text, and a read past the end of a text.
\<close>

datatype solv_error = NotSupportedCmpType | AssertFailed | NullText | OutOfBounds

section \<open>Versions\<close>

definition BASE_EPOCH :: string where "BASE_EPOCH = ''0''"

definition no_delim :: "char \<Rightarrow> bool" where "no_delim c \<longleftrightarrow> c \<noteq> CHR '':'' \<and> c \<noteq> CHR ''-''"

text \<open>
  Epoch, version and release of a text. The search starts at the second character; after an epoch it
  starts at the second character of the version and \<open>assert\<close> demands a dash.
\<close>

definition pool_split_evr :: "string \<Rightarrow> solv_error + (string option \<times> string \<times> string option)" where
  "pool_split_evr evr =
     (if evr = [] then Inl OutOfBounds
      else let i = 1 + length (takeWhile no_delim (drop 1 evr)) in
        if i < length evr \<and> evr ! i = CHR ''-'' then Inr (None, take i evr, Some (drop (Suc i) evr))
        else if i = length evr then Inr (None, evr, None)
        else let v = drop (Suc i) evr; j = 1 + length (takeWhile (\<lambda>c. c \<noteq> CHR ''-'') (drop 1 v)) in
          if v = [] then Inl OutOfBounds
          else if j = length v then Inl AssertFailed
          else Inr (Some (take i evr), take j v, Some (drop (Suc j) v)))"

definition pkg_name :: "pool \<Rightarrow> nat \<Rightarrow> string" where "pkg_name pool p = id2str pool (so_name pool p)"

definition pkg_evr :: "pool \<Rightarrow> nat \<Rightarrow> string" where "pkg_evr pool p = id2str pool (so_evr pool p)"

definition pkg_arch :: "pool \<Rightarrow> nat \<Rightarrow> string" where "pkg_arch pool p = id2str pool (so_arch pool p)"

definition get_epoch_cstring :: "pool \<Rightarrow> nat \<Rightarrow> solv_error + string" where
  "get_epoch_cstring pool p =
     and_then (pool_split_evr (pkg_evr pool p)) (\<lambda>(e, v, r). Inr (case e of None \<Rightarrow> BASE_EPOCH | Some e \<Rightarrow> e))"

text \<open>\<open>strtol\<close> with base 10: the value, clipped to a \<open>long\<close>, and what is left of the text.\<close>

definition LONG_MAX :: int where "LONG_MAX = 2 ^ 63 - 1"

definition clip_long :: "int \<Rightarrow> int" where "clip_long n = max (- LONG_MAX - 1) (min LONG_MAX n)"

definition strtol :: "string \<Rightarrow> int \<times> string" where
  "strtol s =
     (let t = dropWhile is_space s;
          neg = (t \<noteq> [] \<and> hd t = CHR ''-'');
          u = (if t \<noteq> [] \<and> (hd t = CHR ''-'' \<or> hd t = CHR ''+'') then tl t else t);
          ds = takeWhile is_digit u
      in if ds = [] then (0, s)
         else (clip_long (if neg then - int (digits_val ds) else int (digits_val ds)), dropWhile is_digit u))"

definition pkg_epoch :: "pool \<Rightarrow> nat \<Rightarrow> solv_error + nat" where
  "pkg_epoch pool p =
     and_then (pool_split_evr (pkg_evr pool p)) (\<lambda>(e, v, r).
       case e of
         None \<Rightarrow> Inr 0
       | Some e \<Rightarrow>
           (let (n, rest) = strtol e in
            if n \<le> 0 then Inl AssertFailed else if rest \<noteq> [] then Inl AssertFailed else Inr (nat n)))"

definition pkg_version :: "pool \<Rightarrow> nat \<Rightarrow> solv_error + string" where
  "pkg_version pool p = and_then (pool_split_evr (pkg_evr pool p)) (\<lambda>(e, v, r). Inr v)"

text \<open>A version without a release gives a null pointer.\<close>

definition pkg_release :: "pool \<Rightarrow> nat \<Rightarrow> solv_error + string option" where
  "pkg_release pool p = and_then (pool_split_evr (pkg_evr pool p)) (\<lambda>(e, v, r). Inr r)"

definition get_full_nevra :: "pool \<Rightarrow> nat \<Rightarrow> solv_error + string" where
  "get_full_nevra pool p =
     (let name = pkg_name pool p; evr = pkg_evr pool p; arch = pkg_arch pool p in
      if evr = [] then Inl OutOfBounds
      else let present_epoch = CHR '':'' \<in> set (takeWhile (\<lambda>c. c \<noteq> CHR ''-'') (drop 1 evr)) in
        Inr (name @ ''-'' @ (if present_epoch then [] else ''0:'') @ evr @
          (if arch = [] then [] else ''.'' @ arch)))"

section \<open>The packages of a pool\<close>

definition SOLVABLE_NAME_ADVISORY_PREFIX :: string where "SOLVABLE_NAME_ADVISORY_PREFIX = ''patch:''"

definition is_package :: "pool \<Rightarrow> nat \<Rightarrow> bool" where
  "is_package pool p \<longleftrightarrow> take 6 (pkg_name pool p) \<noteq> SOLVABLE_NAME_ADVISORY_PREFIX"

text \<open>\<open>FOR_POOL_SOLVABLES\<close> runs over the ids from 2 on that belong to a repository.\<close>

definition get_solvables :: "pool \<Rightarrow> nat list" where
  "get_solvables pool = filter (is_package pool) (filter (\<lambda>p. so_repo pool p \<noteq> None) [2..<nsolvables pool])"

definition nevra_solvable_cmp_key :: "pool \<Rightarrow> nat \<Rightarrow> nat \<Rightarrow> bool" where
  "nevra_solvable_cmp_key pool p q \<longleftrightarrow>
     (if so_name pool p \<noteq> so_name pool q then so_name pool p < so_name pool q
      else if so_arch pool p \<noteq> so_arch pool q then so_arch pool p < so_arch pool q
      else so_evr pool p < so_evr pool q)"

definition solvable_key :: "pool \<Rightarrow> nat \<Rightarrow> nat \<times> nat \<times> nat" where
  "solvable_key pool p = (so_name pool p, so_arch pool p, so_evr pool p)"

definition get_sorted_solvables :: "pool \<Rightarrow> nat list" where
  "get_sorted_solvables pool = sort_key (solvable_key pool) (get_solvables pool)"

lemma cmp_key_less: "nevra_solvable_cmp_key pool p q \<longleftrightarrow> solvable_key pool p < solvable_key pool q"
  by (auto simp: nevra_solvable_cmp_key_def solvable_key_def)

lemma sorted_solvables_set: "set (get_sorted_solvables pool) = set (get_solvables pool)"
  by (simp add: get_sorted_solvables_def)

text \<open>\<open>std::lower_bound\<close> on a range that is partitioned by the test, and the loop that follows it.\<close>

definition lower_bound_by :: "('a \<Rightarrow> bool) \<Rightarrow> 'a list \<Rightarrow> 'a list" where
  "lower_bound_by below xs = dropWhile below xs"

definition run_from :: "('a \<Rightarrow> bool) \<Rightarrow> ('a \<Rightarrow> bool) \<Rightarrow> 'a list \<Rightarrow> 'a list" where
  "run_from below same xs = takeWhile same (lower_bound_by below xs)"

text \<open>
  On a list sorted by a key the run after the bound holds all elements whose key lies in an interval: those
  not below it and not after it.
\<close>

lemma run_from_sorted:
  assumes "sorted (map k xs)"
    and below: "\<And>x y. below y \<Longrightarrow> k x \<le> k y \<Longrightarrow> below x"
    and same: "\<And>x y. \<not> below x \<Longrightarrow> k x \<le> k y \<Longrightarrow> same y \<Longrightarrow> same x"
    and disjoint: "\<And>x. same x \<Longrightarrow> \<not> below x"
  shows "run_from below same xs = filter same xs"
  using assms(1)
proof (induction xs)
  case Nil
  then show ?case by (simp add: run_from_def lower_bound_by_def)
next
  case (Cons x xs)
  show ?case
  proof (cases "below x")
    case True
    then show ?thesis using Cons disjoint by (auto simp: run_from_def lower_bound_by_def)
  next
    case False
    have "takeWhile same ys = filter same ys" if "sorted (map k ys)" "\<forall>y \<in> set ys. \<not> below y" for ys
      using that
    proof (induction ys)
      case (Cons y ys)
      show ?case
      proof (cases "same y")
        case True
        then show ?thesis using Cons by simp
      next
        case False
        then have "\<forall>z \<in> set ys. \<not> same z" using Cons.prems same by auto
        then show ?thesis using False by simp
      qed
    qed simp
    moreover have "\<forall>y \<in> set (x # xs). \<not> below y" using False Cons.prems below by auto
    ultimately show ?thesis using False Cons.prems by (simp add: run_from_def lower_bound_by_def del: takeWhile.simps filter.simps)
  qed
qed

section \<open>Dependencies\<close>

definition get_reldep_id :: "pool \<Rightarrow> string \<Rightarrow> nat option" where
  "get_reldep_id pool s =
     (if s \<noteq> [] \<and> hd s = CHR ''('' then (if rich_id pool s = 0 then None else Some (rich_id pool s))
      else case reldep_parse \<lparr>rp_name = [], rp_evr = [], rp_cmp = CMP_NONE\<rparr> s of
        (False, _) \<Rightarrow> None
      | (True, p) \<Rightarrow> Some (dep_id pool (get_name_cstr p) (get_evr_cstr p) (rp_cmp p)))"

type_synonym reldep_list = "nat list"

definition add_reldep :: "pool \<Rightarrow> string \<Rightarrow> reldep_list \<Rightarrow> bool \<times> reldep_list" where
  "add_reldep pool s rl = (case get_reldep_id pool s of None \<Rightarrow> (False, rl) | Some i \<Rightarrow> (True, rl @ [i]))"

definition add_reldep_with_glob :: "pool \<Rightarrow> string \<Rightarrow> reldep_list \<Rightarrow> bool \<times> reldep_list" where
  "add_reldep_with_glob pool s rl =
     (case reldep_parse \<lparr>rp_name = [], rp_evr = [], rp_cmp = CMP_NONE\<rparr> s of
        (False, _) \<Rightarrow> (False, rl)
      | (True, p) \<Rightarrow>
          (True, rl @ map (\<lambda>n. dep_id pool (Some n) (get_evr_cstr p) (rp_cmp p)) (data_strings pool (get_name_cstr p))))"

definition reldep_append :: "reldep_list \<Rightarrow> reldep_list \<Rightarrow> reldep_list" where
  "reldep_append rl source = rl @ source"

primrec ids_equal :: "nat list \<Rightarrow> nat list \<Rightarrow> bool" where
  "ids_equal [] ys = True"
| "ids_equal (x # xs) ys = (if x \<noteq> hd ys then False else ids_equal xs (tl ys))"

definition reldep_equal :: "reldep_list \<Rightarrow> reldep_list \<Rightarrow> bool" where
  "reldep_equal this other = (if length this \<noteq> length other then False else ids_equal this other)"

lemma reldep_equal_iff: "reldep_equal xs ys \<longleftrightarrow> xs = ys"
proof -
  have "length xs = length ys \<Longrightarrow> ids_equal xs ys \<longleftrightarrow> xs = ys"
    by (induction xs ys rule: list_induct2) simp_all
  then show ?thesis by (auto simp: reldep_equal_def)
qed

end
