(* ===== verification/SolvQuery.thy ===== *)
theory SolvQuery
  imports SolvPool
begin

text \<open>
  Queries over the packages of a pool: \<open>libdnf/rpm/solv_query.cpp\<close>. A query is the ascending list of the ids
  in its \<open>SolvMap\<close> (\<open>SolvMap.thy\<close> proves what the bitmap operations do); a filter collects the ids of its
  result in a list whose order does not matter and combines it with the query at the end, so an exception leaves
  the query as it was. Patterns hold no zero bytes.
\<close>

type_synonym query = "nat list"

definition INIT_IGNORE_MODULAR_EXCLUDES :: nat where "INIT_IGNORE_MODULAR_EXCLUDES = 1"
definition INIT_IGNORE_REGULAR_EXCLUDES :: nat where "INIT_IGNORE_REGULAR_EXCLUDES = 2"
definition INIT_IGNORE_EXCLUDES :: nat where "INIT_IGNORE_EXCLUDES = 3"
definition INIT_EMPTY :: nat where "INIT_EMPTY = 4"
definition INIT_APPLY_EXCLUDES :: nat where "INIT_APPLY_EXCLUDES = 0"

definition query_new :: "pool \<Rightarrow> nat \<Rightarrow> query" where
  "query_new pool flags =
     (if flags = INIT_EMPTY then []
      else if flags \<in> {INIT_IGNORE_EXCLUDES, INIT_APPLY_EXCLUDES, INIT_IGNORE_MODULAR_EXCLUDES, INIT_IGNORE_REGULAR_EXCLUDES}
        then get_solvables pool
      else [])"

definition query_size :: "query \<Rightarrow> nat" where "query_size q = length q"

text \<open>\<open>operator&=\<close> and \<open>operator-=\<close> of the bitmaps.\<close>

definition ids_and :: "query \<Rightarrow> nat list \<Rightarrow> query" where "ids_and q r = filter (\<lambda>p. p \<in> set r) q"
definition ids_minus :: "query \<Rightarrow> nat list \<Rightarrow> query" where "ids_minus q r = filter (\<lambda>p. p \<notin> set r) q"

definition apply_filter :: "bool \<Rightarrow> query \<Rightarrow> nat list \<Rightarrow> query" where
  "apply_filter cmp_not q r = (if cmp_not then ids_minus q r else ids_and q r)"

section \<open>Loops\<close>

text \<open>The loop over the patterns, and the loop over the candidates that adds those that pass a test.\<close>

primrec each_pattern :: "('a \<Rightarrow> solv_error + nat list) \<Rightarrow> 'a list \<Rightarrow> solv_error + nat list" where
  "each_pattern f [] = Inr []"
| "each_pattern f (x # xs) = and_then (f x) (\<lambda>r. and_then (each_pattern f xs) (\<lambda>rs. Inr (r @ rs)))"

primrec candidates :: "(nat \<Rightarrow> solv_error + bool) \<Rightarrow> nat list \<Rightarrow> solv_error + nat list" where
  "candidates f [] = Inr []"
| "candidates f (p # ps) = and_then (f p) (\<lambda>b. and_then (candidates f ps) (\<lambda>rs. Inr (if b then p # rs else rs)))"

lemma candidates_ok: "(\<And>p. p \<in> set q \<Longrightarrow> f p = Inr (g p)) \<Longrightarrow> candidates f q = Inr (filter g q)"
  by (induction q) auto

lemma each_pattern_ok: "(\<And>x. x \<in> set xs \<Longrightarrow> f x = Inr (g x)) \<Longrightarrow> each_pattern f xs = Inr (concat (map g xs))"
  by (induction xs) auto

section \<open>Operators\<close>

definition cmp_has :: "query_cmp \<Rightarrow> query_cmp \<Rightarrow> bool" where
  "cmp_has cmp flag \<longleftrightarrow> cmp_and cmp flag = flag"

definition without_not :: "query_cmp \<Rightarrow> query_cmp" where
  "without_not cmp = (if cmp_has cmp CMP_NOT then cmp_minus cmp CMP_NOT else cmp)"

definition glob_pattern :: "string \<Rightarrow> bool" where
  "glob_pattern pattern \<longleftrightarrow> find_idx (\<lambda>c. c \<in> set ''*[?'') pattern \<noteq> None"

definition remove_glob_when_unneeded :: "query_cmp \<Rightarrow> string \<Rightarrow> bool \<Rightarrow> query_cmp" where
  "remove_glob_when_unneeded cmp pattern cmp_glob =
     (if cmp_glob \<and> \<not> glob_pattern pattern then cmp_or (cmp_minus cmp CMP_GLOB) CMP_EQ else cmp)"

definition is_file_pattern :: "string \<Rightarrow> bool" where
  "is_file_pattern pattern \<longleftrightarrow>
     pattern \<noteq> [] \<and> (hd pattern = CHR ''/'' \<or> hd pattern = CHR ''*'' \<and> tl pattern \<noteq> [] \<and> hd (tl pattern) = CHR ''/'')"

text \<open>\<open>strstr\<close> and \<open>strcasestr\<close>.\<close>

definition has_substring :: "string \<Rightarrow> string \<Rightarrow> bool" where
  "has_substring s p \<longleftrightarrow> list_ex (\<lambda>i. starts_with_at s i p) [0..<Suc (length s)]"

definition candidate_matches :: "pool \<Rightarrow> query_cmp \<Rightarrow> string \<Rightarrow> string \<Rightarrow> solv_error + bool" where
  "candidate_matches pool cmp pattern candidate =
     (if cmp = CMP_EQ then Inr (candidate = pattern)
      else if cmp = CMP_IEXACT then Inr (lower_string candidate = lower_string pattern)
      else if cmp = CMP_GLOB then Inr (fnm pool False pattern candidate)
      else if cmp = CMP_IGLOB then Inr (fnm pool True pattern candidate)
      else Inl NotSupportedCmpType)"

definition text_of :: "string option \<Rightarrow> solv_error + string" where
  "text_of t = (case t of None \<Rightarrow> Inl NullText | Some s \<Rightarrow> Inr s)"

section \<open>Filters by one text of a package\<close>

definition filter_glob_internal ::
  "(nat \<Rightarrow> solv_error + string) \<Rightarrow> pool \<Rightarrow> string \<Rightarrow> nat list \<Rightarrow> bool \<Rightarrow> solv_error + nat list" where
  "filter_glob_internal getter pool pattern q casefold =
     candidates (\<lambda>p. and_then (getter p) (\<lambda>s. Inr (fnm pool casefold pattern s))) q"

text \<open>The packages of a name: all of the pool, found in the sorted list.\<close>

definition named_solvables :: "pool \<Rightarrow> nat \<Rightarrow> nat list" where
  "named_solvables pool i = run_from (\<lambda>p. so_name pool p < i) (\<lambda>p. so_name pool p = i) (get_sorted_solvables pool)"

definition name_pattern :: "pool \<Rightarrow> query \<Rightarrow> query_cmp \<Rightarrow> string \<Rightarrow> solv_error + nat list" where
  "name_pattern pool q cmp pattern =
     (if cmp = CMP_EQ then
        (let i = str2id pool pattern in if i = 0 then Inr [] else Inr (named_solvables pool i))
      else if cmp = CMP_IEXACT then
        Inr (filter (\<lambda>p. lower_string (pkg_name pool p) = lower_string pattern) q)
      else if cmp = CMP_ICONTAINS then
        Inr (filter (\<lambda>p. has_substring (lower_string (pkg_name pool p)) (lower_string pattern)) q)
      else if cmp = CMP_IGLOB then filter_glob_internal (\<lambda>p. Inr (pkg_name pool p)) pool pattern q True
      else if cmp = CMP_CONTAINS then Inr (filter (\<lambda>p. has_substring (pkg_name pool p) pattern) q)
      else if cmp = CMP_GLOB then filter_glob_internal (\<lambda>p. Inr (pkg_name pool p)) pool pattern q False
      else Inl NotSupportedCmpType)"

definition ifilter_name :: "pool \<Rightarrow> query_cmp \<Rightarrow> string list \<Rightarrow> query \<Rightarrow> solv_error + query" where
  "ifilter_name pool cmp patterns q =
     (let cmp_not = cmp_has cmp CMP_NOT; cmp = without_not cmp; cmp_glob = cmp_has cmp CMP_GLOB in
      and_then (each_pattern (\<lambda>pattern.
          name_pattern pool q (remove_glob_when_unneeded cmp pattern cmp_glob) pattern) patterns)
        (\<lambda>r. Inr (apply_filter cmp_not q r)))"

definition arch_pattern :: "pool \<Rightarrow> query \<Rightarrow> query_cmp \<Rightarrow> string \<Rightarrow> solv_error + nat list" where
  "arch_pattern pool q cmp pattern =
     (if cmp = CMP_EQ then
        (let i = str2id pool pattern in if i = 0 then Inr [] else Inr (filter (\<lambda>p. so_arch pool p = i) q))
      else if cmp = CMP_GLOB then filter_glob_internal (\<lambda>p. Inr (pkg_arch pool p)) pool pattern q False
      else Inl NotSupportedCmpType)"

definition ifilter_arch :: "pool \<Rightarrow> query_cmp \<Rightarrow> string list \<Rightarrow> query \<Rightarrow> solv_error + query" where
  "ifilter_arch pool cmp patterns q =
     (let cmp_not = cmp_has cmp CMP_NOT; cmp = without_not cmp; cmp_glob = cmp_has cmp CMP_GLOB in
      and_then (each_pattern (\<lambda>pattern.
          arch_pattern pool q (remove_glob_when_unneeded cmp pattern cmp_glob) pattern) patterns)
        (\<lambda>r. Inr (apply_filter cmp_not q r)))"

section \<open>Filters by comparison of versions\<close>

definition cmp_gt :: "int \<Rightarrow> bool" where "cmp_gt c \<longleftrightarrow> c > 0"
definition cmp_lt :: "int \<Rightarrow> bool" where "cmp_lt c \<longleftrightarrow> c < 0"
definition cmp_eq :: "int \<Rightarrow> bool" where "cmp_eq c \<longleftrightarrow> c = 0"
definition cmp_gte :: "int \<Rightarrow> bool" where "cmp_gte c \<longleftrightarrow> c \<ge> 0"
definition cmp_lte :: "int \<Rightarrow> bool" where "cmp_lte c \<longleftrightarrow> c \<le> 0"

definition filter_evr_internal :: "(int \<Rightarrow> bool) \<Rightarrow> string list \<Rightarrow> pool \<Rightarrow> query \<Rightarrow> query" where
  "filter_evr_internal cmp_fnc patterns pool q =
     ids_and q (concat (map (\<lambda>pattern. filter (\<lambda>p. cmp_fnc (evrcmp pool (pkg_evr pool p) pattern)) q) patterns))"

definition ifilter_evr :: "pool \<Rightarrow> query_cmp \<Rightarrow> string list \<Rightarrow> query \<Rightarrow> solv_error + query" where
  "ifilter_evr pool cmp patterns q =
     (if cmp = CMP_GT then Inr (filter_evr_internal cmp_gt patterns pool q)
      else if cmp = CMP_LT then Inr (filter_evr_internal cmp_lt patterns pool q)
      else if cmp = CMP_GTE then Inr (filter_evr_internal cmp_gte patterns pool q)
      else if cmp = CMP_LTE then Inr (filter_evr_internal cmp_lte patterns pool q)
      else if cmp = CMP_EQ then Inr (filter_evr_internal cmp_eq patterns pool q)
      else Inl NotSupportedCmpType)"

text \<open>The template argument of the next two functions is not used: they always compare with \<open>cmp_eq\<close>.\<close>

definition filter_version_internal :: "(int \<Rightarrow> bool) \<Rightarrow> pool \<Rightarrow> string \<Rightarrow> query \<Rightarrow> solv_error + nat list" where
  "filter_version_internal cmp_fnc pool pattern q =
     candidates (\<lambda>p. and_then (pkg_version pool p)
       (\<lambda>version. Inr (cmp_eq (evrcmp pool (version @ ''-0'') (pattern @ ''-0''))))) q"

definition version_pattern :: "pool \<Rightarrow> query \<Rightarrow> query_cmp \<Rightarrow> string \<Rightarrow> solv_error + nat list" where
  "version_pattern pool q cmp pattern =
     (if cmp = CMP_EQ then filter_version_internal cmp_eq pool pattern q
      else if cmp = CMP_GLOB then filter_glob_internal (pkg_version pool) pool pattern q False
      else if cmp = CMP_GT then filter_version_internal cmp_gt pool pattern q
      else if cmp = CMP_LT then filter_version_internal cmp_lt pool pattern q
      else if cmp = CMP_GTE then filter_version_internal cmp_gte pool pattern q
      else if cmp = CMP_LTE then filter_version_internal cmp_lte pool pattern q
      else Inl NotSupportedCmpType)"

definition ifilter_version :: "pool \<Rightarrow> query_cmp \<Rightarrow> string list \<Rightarrow> query \<Rightarrow> solv_error + query" where
  "ifilter_version pool cmp patterns q =
     (let cmp_not = cmp_has cmp CMP_NOT; cmp = without_not cmp; cmp_glob = cmp_has cmp CMP_GLOB in
      and_then (each_pattern (\<lambda>pattern.
          version_pattern pool q (remove_glob_when_unneeded cmp pattern cmp_glob) pattern) patterns)
        (\<lambda>r. Inr (apply_filter cmp_not q r)))"

text \<open>\<open>pool_tmpjoin\<close> takes a null pointer for the empty text; \<open>fnmatch\<close> does not.\<close>

definition filter_release_internal :: "(int \<Rightarrow> bool) \<Rightarrow> pool \<Rightarrow> string \<Rightarrow> query \<Rightarrow> solv_error + nat list" where
  "filter_release_internal cmp_fnc pool pattern q =
     candidates (\<lambda>p. and_then (pkg_release pool p) (\<lambda>release.
       Inr (cmp_eq (evrcmp pool (''0-'' @ (case release of None \<Rightarrow> [] | Some r \<Rightarrow> r)) (''0-'' @ pattern))))) q"

definition release_text :: "pool \<Rightarrow> nat \<Rightarrow> solv_error + string" where
  "release_text pool p = and_then (pkg_release pool p) text_of"

definition release_pattern :: "pool \<Rightarrow> query \<Rightarrow> query_cmp \<Rightarrow> string \<Rightarrow> solv_error + nat list" where
  "release_pattern pool q cmp pattern =
     (if cmp = CMP_EQ then filter_release_internal cmp_eq pool pattern q
      else if cmp = CMP_GLOB then filter_glob_internal (release_text pool) pool pattern q False
      else if cmp = CMP_GT then filter_release_internal cmp_gt pool pattern q
      else if cmp = CMP_LT then filter_release_internal cmp_lt pool pattern q
      else if cmp = CMP_GTE then filter_release_internal cmp_gte pool pattern q
      else if cmp = CMP_LTE then filter_release_internal cmp_lte pool pattern q
      else Inl NotSupportedCmpType)"

definition ifilter_release :: "pool \<Rightarrow> query_cmp \<Rightarrow> string list \<Rightarrow> query \<Rightarrow> solv_error + query" where
  "ifilter_release pool cmp patterns q =
     (let cmp_not = cmp_has cmp CMP_NOT; cmp = without_not cmp; cmp_glob = cmp_has cmp CMP_GLOB in
      and_then (each_pattern (\<lambda>pattern.
          release_pattern pool q (remove_glob_when_unneeded cmp pattern cmp_glob) pattern) patterns)
        (\<lambda>r. Inr (apply_filter cmp_not q r)))"

end
