(* ===== verification/SolvFilters.thy ===== *)
theory SolvFilters
  imports SolvQuery
begin

text \<open>
  The filters of \<open>libdnf/rpm/solv_query.cpp\<close> by repository, source package, epoch, data of the solvables and
  dependencies.
\<close>

section \<open>Repositories and source packages\<close>

definition repo_ids_of :: "pool \<Rightarrow> nat list" where
  "repo_ids_of pool = filter (\<lambda>i. repo_name pool i \<noteq> None) [1..<nrepos pool]"

text \<open>The repositories that a pattern marks: the first one of that name, or all that match.\<close>

definition mark_repos :: "pool \<Rightarrow> query_cmp \<Rightarrow> string \<Rightarrow> solv_error + nat list" where
  "mark_repos pool cmp pattern =
     (if cmp = CMP_EQ then
        Inr (case find (\<lambda>i. repo_name pool i = Some pattern) (repo_ids_of pool) of None \<Rightarrow> [] | Some i \<Rightarrow> [i])
      else if cmp = CMP_GLOB then Inr (filter (\<lambda>i. fnm pool False pattern (the (repo_name pool i))) (repo_ids_of pool))
      else Inl NotSupportedCmpType)"

definition ifilter_reponame :: "pool \<Rightarrow> query_cmp \<Rightarrow> string list \<Rightarrow> query \<Rightarrow> solv_error + query" where
  "ifilter_reponame pool cmp patterns q =
     (let cmp_not = cmp_has cmp CMP_NOT; cmp = without_not cmp; cmp_glob = cmp_has cmp CMP_GLOB in
      and_then (each_pattern (\<lambda>pattern.
          mark_repos pool (remove_glob_when_unneeded cmp pattern cmp_glob) pattern) patterns)
        (\<lambda>repo_ids. Inr (apply_filter cmp_not q
           (filter (\<lambda>p. case so_repo pool p of None \<Rightarrow> False | Some i \<Rightarrow> i \<in> set repo_ids) q))))"

text \<open>The name is compared first, to save the lookup of the whole text.\<close>

definition sourcerpm_pattern :: "pool \<Rightarrow> query \<Rightarrow> query_cmp \<Rightarrow> string \<Rightarrow> solv_error + nat list" where
  "sourcerpm_pattern pool q cmp pattern =
     (if cmp = CMP_EQ then
        Inr (filter (\<lambda>p.
          let name = (case source_name pool p of None \<Rightarrow> pkg_name pool p | Some n \<Rightarrow> n) in
          if take (length name) pattern \<noteq> name then False
          else case source_rpm pool p of None \<Rightarrow> False | Some s \<Rightarrow> pattern = s) q)
      else if cmp = CMP_GLOB then
        Inr (filter (\<lambda>p. case source_rpm pool p of None \<Rightarrow> False | Some s \<Rightarrow> fnm pool False pattern s) q)
      else Inl NotSupportedCmpType)"

definition ifilter_sourcerpm :: "pool \<Rightarrow> query_cmp \<Rightarrow> string list \<Rightarrow> query \<Rightarrow> solv_error + query" where
  "ifilter_sourcerpm pool cmp patterns q =
     (let cmp_not = cmp_has cmp CMP_NOT; cmp = without_not cmp; cmp_glob = cmp_has cmp CMP_GLOB in
      and_then (each_pattern (\<lambda>pattern.
          sourcerpm_pattern pool q (remove_glob_when_unneeded cmp pattern cmp_glob) pattern) patterns)
        (\<lambda>r. Inr (apply_filter cmp_not q r)))"

section \<open>Epochs\<close>

definition epoch_test :: "query_cmp \<Rightarrow> (nat \<Rightarrow> nat \<Rightarrow> bool) option" where
  "epoch_test cmp =
     (if cmp = CMP_EQ then Some (=)
      else if cmp = CMP_GT then Some (>)
      else if cmp = CMP_LT then Some (<)
      else if cmp = CMP_GTE then Some (\<ge>)
      else if cmp = CMP_LTE then Some (\<le>)
      else None)"

definition ifilter_epoch_num :: "pool \<Rightarrow> query_cmp \<Rightarrow> nat list \<Rightarrow> query \<Rightarrow> solv_error + query" where
  "ifilter_epoch_num pool cmp patterns q =
     (let cmp_not = cmp_has cmp CMP_NOT in
      case epoch_test (without_not cmp) of
        None \<Rightarrow> Inl NotSupportedCmpType
      | Some test \<Rightarrow>
          and_then (each_pattern (\<lambda>pattern.
              candidates (\<lambda>p. and_then (pkg_epoch pool p) (\<lambda>e. Inr (test e pattern))) q) patterns)
            (\<lambda>r. Inr (apply_filter cmp_not q r)))"

definition epoch_pattern :: "pool \<Rightarrow> query \<Rightarrow> query_cmp \<Rightarrow> string \<Rightarrow> solv_error + nat list" where
  "epoch_pattern pool q cmp pattern =
     (if cmp = CMP_EQ then candidates (\<lambda>p. and_then (get_epoch_cstring pool p) (\<lambda>e. Inr (e = pattern))) q
      else if cmp = CMP_GLOB then
        candidates (\<lambda>p. and_then (get_epoch_cstring pool p) (\<lambda>e. Inr (fnm pool False pattern e))) q
      else Inl NotSupportedCmpType)"

definition ifilter_epoch :: "pool \<Rightarrow> query_cmp \<Rightarrow> string list \<Rightarrow> query \<Rightarrow> solv_error + query" where
  "ifilter_epoch pool cmp patterns q =
     (let cmp_not = cmp_has cmp CMP_NOT; cmp = without_not cmp; cmp_glob = cmp_has cmp CMP_GLOB in
      and_then (each_pattern (\<lambda>pattern.
          epoch_pattern pool q (remove_glob_when_unneeded cmp pattern cmp_glob) pattern) patterns)
        (\<lambda>r. Inr (apply_filter cmp_not q r)))"

section \<open>Data of the solvables\<close>

definition filter_dataiterator :: "pool \<Rightarrow> solv_key \<Rightarrow> search_flag set \<Rightarrow> query \<Rightarrow> string \<Rightarrow> nat list" where
  "filter_dataiterator pool key flags q pattern = filter (\<lambda>p. data_search pool key flags p pattern) q"

definition data_pattern :: "pool \<Rightarrow> solv_key \<Rightarrow> query \<Rightarrow> query_cmp \<Rightarrow> string \<Rightarrow> solv_error + nat list" where
  "data_pattern pool key q cmp pattern =
     and_then
       (if cmp = CMP_EQ then Inr {SEARCH_FILES, SEARCH_COMPLETE_FILELIST, SEARCH_STRING}
        else if cmp = CMP_IEXACT then Inr {SEARCH_FILES, SEARCH_COMPLETE_FILELIST, SEARCH_NOCASE, SEARCH_STRING}
        else if cmp = CMP_GLOB then Inr {SEARCH_FILES, SEARCH_COMPLETE_FILELIST, SEARCH_GLOB}
        else if cmp = CMP_IGLOB then Inr {SEARCH_FILES, SEARCH_COMPLETE_FILELIST, SEARCH_NOCASE, SEARCH_GLOB}
        else if cmp = CMP_CONTAINS then Inr {SEARCH_FILES, SEARCH_COMPLETE_FILELIST, SEARCH_SUBSTRING}
        else if cmp = CMP_ICONTAINS then Inr {SEARCH_FILES, SEARCH_COMPLETE_FILELIST, SEARCH_NOCASE, SEARCH_SUBSTRING}
        else Inl NotSupportedCmpType)
       (\<lambda>flags. Inr (filter_dataiterator pool key flags q pattern))"

definition filter_dataiterator_internal ::
  "pool \<Rightarrow> solv_key \<Rightarrow> query_cmp \<Rightarrow> string list \<Rightarrow> query \<Rightarrow> solv_error + query" where
  "filter_dataiterator_internal pool key cmp patterns q =
     (let cmp_not = cmp_has cmp CMP_NOT; cmp = without_not cmp; cmp_glob = cmp_has cmp CMP_GLOB in
      and_then (each_pattern (\<lambda>pattern.
          data_pattern pool key q (remove_glob_when_unneeded cmp pattern cmp_glob) pattern) patterns)
        (\<lambda>r. Inr (apply_filter cmp_not q r)))"

definition ifilter_file :: "pool \<Rightarrow> query_cmp \<Rightarrow> string list \<Rightarrow> query \<Rightarrow> solv_error + query" where
  "ifilter_file pool = filter_dataiterator_internal pool SOLVABLE_FILELIST"

definition ifilter_description :: "pool \<Rightarrow> query_cmp \<Rightarrow> string list \<Rightarrow> query \<Rightarrow> solv_error + query" where
  "ifilter_description pool = filter_dataiterator_internal pool SOLVABLE_DESCRIPTION"

definition ifilter_summary :: "pool \<Rightarrow> query_cmp \<Rightarrow> string list \<Rightarrow> query \<Rightarrow> solv_error + query" where
  "ifilter_summary pool = filter_dataiterator_internal pool SOLVABLE_SUMMARY"

definition ifilter_url :: "pool \<Rightarrow> query_cmp \<Rightarrow> string list \<Rightarrow> query \<Rightarrow> solv_error + query" where
  "ifilter_url pool = filter_dataiterator_internal pool SOLVABLE_URL"

definition ifilter_location :: "pool \<Rightarrow> query_cmp \<Rightarrow> string list \<Rightarrow> query \<Rightarrow> solv_error + query" where
  "ifilter_location pool cmp patterns q =
     (let cmp_not = cmp_has cmp CMP_NOT; cmp = without_not cmp in
      if cmp = CMP_EQ then
        Inr (apply_filter cmp_not q (concat (map (\<lambda>pattern. filter (\<lambda>p. location pool p = Some pattern) q) patterns)))
      else Inl NotSupportedCmpType)"

section \<open>Dependencies\<close>

text \<open>A pattern that cannot be parsed adds nothing and is no error.\<close>

definition str2reldep_one :: "pool \<Rightarrow> query_cmp \<Rightarrow> bool \<Rightarrow> string \<Rightarrow> reldep_list \<Rightarrow> solv_error + reldep_list" where
  "str2reldep_one pool cmp cmp_glob pattern rl =
     (let cmp = remove_glob_when_unneeded cmp pattern cmp_glob in
      if cmp = CMP_EQ then Inr (snd (add_reldep pool pattern rl))
      else if cmp = CMP_GLOB then Inr (snd (add_reldep_with_glob pool pattern rl))
      else Inl NotSupportedCmpType)"

primrec str2reldep_internal :: "pool \<Rightarrow> query_cmp \<Rightarrow> string list \<Rightarrow> reldep_list \<Rightarrow> solv_error + reldep_list" where
  "str2reldep_internal pool cmp [] rl = Inr rl"
| "str2reldep_internal pool cmp (pattern # patterns) rl =
     and_then (str2reldep_one pool cmp (cmp_has cmp CMP_GLOB) pattern rl) (str2reldep_internal pool cmp patterns)"

definition filter_provides :: "pool \<Rightarrow> query_cmp \<Rightarrow> reldep_list \<Rightarrow> solv_error + nat list" where
  "filter_provides pool cmp rl =
     (if cmp = CMP_EQ then Inr (concat (map (provides_of pool) rl)) else Inl NotSupportedCmpType)"

definition ifilter_provides :: "pool \<Rightarrow> query_cmp \<Rightarrow> reldep_list \<Rightarrow> query \<Rightarrow> solv_error + query" where
  "ifilter_provides pool cmp rl q =
     (let cmp_not = cmp_has cmp CMP_NOT in
      and_then (filter_provides pool (without_not cmp) rl) (\<lambda>r. Inr (apply_filter cmp_not q r)))"

definition ifilter_provides_text :: "pool \<Rightarrow> query_cmp \<Rightarrow> string list \<Rightarrow> query \<Rightarrow> solv_error + query" where
  "ifilter_provides_text pool cmp patterns q =
     (let cmp_not = cmp_has cmp CMP_NOT in
      and_then (str2reldep_internal pool (without_not cmp) patterns [])
        (\<lambda>rl. if cmp_not then ifilter_provides pool CMP_NEQ rl q else ifilter_provides pool CMP_EQ rl q))"

definition eq_or_neq :: "query_cmp \<Rightarrow> solv_error + bool" where
  "eq_or_neq cmp = (if cmp = CMP_EQ then Inr False else if cmp = CMP_NEQ then Inr True else Inl NotSupportedCmpType)"

definition filter_reldep :: "pool \<Rightarrow> solv_key \<Rightarrow> query_cmp \<Rightarrow> reldep_list \<Rightarrow> query \<Rightarrow> solv_error + query" where
  "filter_reldep pool key cmp rl q =
     and_then (eq_or_neq cmp) (\<lambda>cmp_not. Inr (apply_filter cmp_not q
       (filter (\<lambda>p. list_ex (\<lambda>i. list_ex (\<lambda>j. match_dep pool i j) (id_array pool p key)) rl) q)))"

definition filter_reldep_text :: "pool \<Rightarrow> solv_key \<Rightarrow> query_cmp \<Rightarrow> string list \<Rightarrow> query \<Rightarrow> solv_error + query" where
  "filter_reldep_text pool key cmp patterns q =
     (let cmp_not = cmp_has cmp CMP_NOT in
      and_then (str2reldep_internal pool (without_not cmp) patterns [])
        (\<lambda>rl. if cmp_not then filter_reldep pool key CMP_NEQ rl q else filter_reldep pool key CMP_EQ rl q))"

definition filter_reldep_packages :: "pool \<Rightarrow> solv_key \<Rightarrow> query_cmp \<Rightarrow> nat list \<Rightarrow> query \<Rightarrow> solv_error + query" where
  "filter_reldep_packages pool key cmp packages q =
     and_then (eq_or_neq cmp)
       (\<lambda>cmp_not. Inr (apply_filter cmp_not q (concat (map (select_matching pool key) packages))))"

text \<open>
  The packages that obsolete one of a set: libsolv's array of obsoletes ends at the id 0, and unless obsoletes
  match provides only a package of that name and version counts.
\<close>

definition obsoletes_one_of :: "pool \<Rightarrow> nat list \<Rightarrow> nat \<Rightarrow> bool" where
  "obsoletes_one_of pool packages p \<longleftrightarrow>
     so_repo pool p \<noteq> None \<and>
     list_ex (\<lambda>i. list_ex (\<lambda>r. r \<in> set packages \<and> (obsoletes_use_provides pool \<or> match_nevr pool r i))
       (provides_of pool i)) (takeWhile (\<lambda>i. i \<noteq> 0) (id_array pool p SOLVABLE_OBSOLETES))"

definition ifilter_obsoletes_packages :: "pool \<Rightarrow> query_cmp \<Rightarrow> nat list \<Rightarrow> query \<Rightarrow> solv_error + query" where
  "ifilter_obsoletes_packages pool cmp packages q =
     and_then (eq_or_neq cmp) (\<lambda>cmp_not. Inr (apply_filter cmp_not q (filter (obsoletes_one_of pool packages) q)))"

definition ifilter_conflicts :: "pool \<Rightarrow> query_cmp \<Rightarrow> reldep_list \<Rightarrow> query \<Rightarrow> solv_error + query" where
  "ifilter_conflicts pool = filter_reldep pool SOLVABLE_CONFLICTS"

definition ifilter_conflicts_text :: "pool \<Rightarrow> query_cmp \<Rightarrow> string list \<Rightarrow> query \<Rightarrow> solv_error + query" where
  "ifilter_conflicts_text pool = filter_reldep_text pool SOLVABLE_CONFLICTS"

definition ifilter_conflicts_packages :: "pool \<Rightarrow> query_cmp \<Rightarrow> nat list \<Rightarrow> query \<Rightarrow> solv_error + query" where
  "ifilter_conflicts_packages pool = filter_reldep_packages pool SOLVABLE_CONFLICTS"

definition ifilter_enhances :: "pool \<Rightarrow> query_cmp \<Rightarrow> reldep_list \<Rightarrow> query \<Rightarrow> solv_error + query" where
  "ifilter_enhances pool = filter_reldep pool SOLVABLE_ENHANCES"

definition ifilter_enhances_text :: "pool \<Rightarrow> query_cmp \<Rightarrow> string list \<Rightarrow> query \<Rightarrow> solv_error + query" where
  "ifilter_enhances_text pool = filter_reldep_text pool SOLVABLE_ENHANCES"

definition ifilter_enhances_packages :: "pool \<Rightarrow> query_cmp \<Rightarrow> nat list \<Rightarrow> query \<Rightarrow> solv_error + query" where
  "ifilter_enhances_packages pool = filter_reldep_packages pool SOLVABLE_ENHANCES"

definition ifilter_obsoletes :: "pool \<Rightarrow> query_cmp \<Rightarrow> reldep_list \<Rightarrow> query \<Rightarrow> solv_error + query" where
  "ifilter_obsoletes pool = filter_reldep pool SOLVABLE_OBSOLETES"

definition ifilter_obsoletes_text :: "pool \<Rightarrow> query_cmp \<Rightarrow> string list \<Rightarrow> query \<Rightarrow> solv_error + query" where
  "ifilter_obsoletes_text pool = filter_reldep_text pool SOLVABLE_OBSOLETES"

definition ifilter_recommends :: "pool \<Rightarrow> query_cmp \<Rightarrow> reldep_list \<Rightarrow> query \<Rightarrow> solv_error + query" where
  "ifilter_recommends pool = filter_reldep pool SOLVABLE_RECOMMENDS"

definition ifilter_recommends_text :: "pool \<Rightarrow> query_cmp \<Rightarrow> string list \<Rightarrow> query \<Rightarrow> solv_error + query" where
  "ifilter_recommends_text pool = filter_reldep_text pool SOLVABLE_RECOMMENDS"

definition ifilter_recommends_packages :: "pool \<Rightarrow> query_cmp \<Rightarrow> nat list \<Rightarrow> query \<Rightarrow> solv_error + query" where
  "ifilter_recommends_packages pool = filter_reldep_packages pool SOLVABLE_RECOMMENDS"

definition ifilter_requires :: "pool \<Rightarrow> query_cmp \<Rightarrow> reldep_list \<Rightarrow> query \<Rightarrow> solv_error + query" where
  "ifilter_requires pool = filter_reldep pool SOLVABLE_REQUIRES"

definition ifilter_requires_text :: "pool \<Rightarrow> query_cmp \<Rightarrow> string list \<Rightarrow> query \<Rightarrow> solv_error + query" where
  "ifilter_requires_text pool = filter_reldep_text pool SOLVABLE_REQUIRES"

definition ifilter_requires_packages :: "pool \<Rightarrow> query_cmp \<Rightarrow> nat list \<Rightarrow> query \<Rightarrow> solv_error + query" where
  "ifilter_requires_packages pool = filter_reldep_packages pool SOLVABLE_REQUIRES"

definition ifilter_suggests :: "pool \<Rightarrow> query_cmp \<Rightarrow> reldep_list \<Rightarrow> query \<Rightarrow> solv_error + query" where
  "ifilter_suggests pool = filter_reldep pool SOLVABLE_SUGGESTS"

definition ifilter_suggests_text :: "pool \<Rightarrow> query_cmp \<Rightarrow> string list \<Rightarrow> query \<Rightarrow> solv_error + query" where
  "ifilter_suggests_text pool = filter_reldep_text pool SOLVABLE_SUGGESTS"

definition ifilter_suggests_packages :: "pool \<Rightarrow> query_cmp \<Rightarrow> nat list \<Rightarrow> query \<Rightarrow> solv_error + query" where
  "ifilter_suggests_packages pool = filter_reldep_packages pool SOLVABLE_SUGGESTS"

definition ifilter_supplements :: "pool \<Rightarrow> query_cmp \<Rightarrow> reldep_list \<Rightarrow> query \<Rightarrow> solv_error + query" where
  "ifilter_supplements pool = filter_reldep pool SOLVABLE_SUPPLEMENTS"

definition ifilter_supplements_text :: "pool \<Rightarrow> query_cmp \<Rightarrow> string list \<Rightarrow> query \<Rightarrow> solv_error + query" where
  "ifilter_supplements_text pool = filter_reldep_text pool SOLVABLE_SUPPLEMENTS"

definition ifilter_supplements_packages :: "pool \<Rightarrow> query_cmp \<Rightarrow> nat list \<Rightarrow> query \<Rightarrow> solv_error + query" where
  "ifilter_supplements_packages pool = filter_reldep_packages pool SOLVABLE_SUPPLEMENTS"

end
