(* ===== verification/SolvNevra.thy ===== *)
theory SolvNevra
  imports SolvFilters
begin

text \<open>
  Filters by the full name of a package and the resolution of a package specification
  (\<open>libdnf/rpm/solv_query.cpp\<close>).
\<close>

section \<open>NevraID\<close>

record nevra_id =
  ni_name :: nat
  ni_arch :: nat
  ni_evr :: nat
  ni_evr_str :: string

definition nevra_id_new :: nevra_id where
  "nevra_id_new = \<lparr>ni_name = 0, ni_arch = 0, ni_evr = 0, ni_evr_str = []\<rparr>"

text \<open>The scan: the last dash but one, the last dash and the last dot.\<close>

fun scan_delims :: "string \<Rightarrow> nat \<Rightarrow> nat option \<Rightarrow> nat option \<Rightarrow> nat option \<Rightarrow> nat option \<times> nat option \<times> nat option" where
  "scan_delims [] i evr release arch = (evr, release, arch)"
| "scan_delims (c # s) i evr release arch =
     (if c = CHR ''-'' then scan_delims s (Suc i) release (Some i) arch
      else if c = CHR ''.'' then scan_delims s (Suc i) evr release (Some i)
      else scan_delims s (Suc i) evr release arch)"

text \<open>The character at a position; the text ends in a zero byte and nothing behind it may be read.\<close>

definition text_char :: "string \<Rightarrow> nat \<Rightarrow> char" where
  "text_char s i = (if i < length s then s ! i else CHR 0x00)"

text \<open>
  The removal of a zero epoch. The index is not reset when the delimiter has moved, so the next character
  that is looked at is not the one behind the colon and may lie behind the end of the text.
\<close>

function strip_epoch :: "string \<Rightarrow> nat \<Rightarrow> nat \<Rightarrow> nat option" where
  "strip_epoch s d i =
     (if d + i > length s then None
      else if text_char s (d + i) = CHR ''0'' then
        (if text_char s (d + Suc i) = CHR '':'' then strip_epoch s (d + Suc i) (Suc i) else strip_epoch s d (Suc i))
      else Some d)"
  by pat_completeness auto

termination strip_epoch
  by (relation "measure (\<lambda>(s, d, i). Suc (length s) - (d + i))") auto

definition nevra_id_parse :: "pool \<Rightarrow> string \<Rightarrow> bool \<Rightarrow> solv_error + nevra_id option" where
  "nevra_id_parse pool s create_evr_id =
     (case scan_delims s 0 None None None of
        (Some evr_delim, Some release_delim, arch) \<Rightarrow>
          if evr_delim = 0 then Inr None
          else (case strip_epoch s evr_delim 1 of
            None \<Rightarrow> Inl OutOfBounds
          | Some d \<Rightarrow>
              if int release_delim - int d \<le> 1 then Inr None
              else (case arch of
                None \<Rightarrow> Inr None
              | Some a \<Rightarrow>
                  if a \<le> release_delim + 1 \<or> a = length s - 1 then Inr None
                  else
                    let name = str2id pool (take evr_delim s);
                        evr_text = take (a - Suc d) (drop (Suc d) s);
                        arch = str2id pool (drop (Suc a) s)
                    in
                    if name = 0 then Inr None
                    else if create_evr_id then
                      if str2id pool evr_text = 0 then Inr None
                      else if arch = 0 then Inr None
                      else Inr (Some \<lparr>ni_name = name, ni_arch = arch, ni_evr = str2id pool evr_text, ni_evr_str = []\<rparr>)
                    else if arch = 0 then Inr None
                    else Inr (Some \<lparr>ni_name = name, ni_arch = arch, ni_evr = 0, ni_evr_str = evr_text\<rparr>)))
      | _ \<Rightarrow> Inr None)"

definition nevra_compare_lower_id :: "pool \<Rightarrow> nevra_id \<Rightarrow> nat \<Rightarrow> bool" where
  "nevra_compare_lower_id pool n p \<longleftrightarrow>
     (if so_name pool p \<noteq> ni_name n then so_name pool p < ni_name n
      else if so_arch pool p \<noteq> ni_arch n then so_arch pool p < ni_arch n
      else so_evr pool p < ni_evr n)"

definition name_arch_compare_lower_id :: "pool \<Rightarrow> nevra_id \<Rightarrow> nat \<Rightarrow> bool" where
  "name_arch_compare_lower_id pool n p \<longleftrightarrow>
     (if so_name pool p \<noteq> ni_name n then so_name pool p < ni_name n else so_arch pool p < ni_arch n)"

section \<open>Filters by the full name\<close>

definition filter_nevra_internal :: "(int \<Rightarrow> bool) \<Rightarrow> pool \<Rightarrow> string \<Rightarrow> solv_error + nat list" where
  "filter_nevra_internal cmp_fnc pool pattern =
     and_then (nevra_id_parse pool pattern False) (\<lambda>r.
       case r of
         None \<Rightarrow> Inr []
       | Some n \<Rightarrow>
           Inr (filter (\<lambda>p. cmp_fnc (evrcmp pool (pkg_evr pool p) (ni_evr_str n)))
             (run_from (name_arch_compare_lower_id pool n)
               (\<lambda>p. so_name pool p = ni_name n \<and> so_arch pool p = ni_arch n) (get_sorted_solvables pool))))"

definition filter_nevra_exact :: "pool \<Rightarrow> string \<Rightarrow> solv_error + nat list" where
  "filter_nevra_exact pool pattern =
     and_then (nevra_id_parse pool pattern True) (\<lambda>r.
       case r of
         None \<Rightarrow> Inr []
       | Some n \<Rightarrow>
           Inr (run_from (nevra_compare_lower_id pool n)
             (\<lambda>p. so_name pool p = ni_name n \<and> so_arch pool p = ni_arch n \<and> so_evr pool p = ni_evr n)
             (get_sorted_solvables pool)))"

definition filter_nevra_text :: "pool \<Rightarrow> query \<Rightarrow> bool \<Rightarrow> query_cmp \<Rightarrow> string \<Rightarrow> solv_error + nat list" where
  "filter_nevra_text pool q cmp_glob cmp pattern =
     (let cmp = remove_glob_when_unneeded cmp pattern cmp_glob in
      if cmp = CMP_EQ then filter_nevra_exact pool pattern
      else if cmp = CMP_GT then filter_nevra_internal cmp_gt pool pattern
      else if cmp = CMP_LT then filter_nevra_internal cmp_lt pool pattern
      else if cmp = CMP_GTE then filter_nevra_internal cmp_gte pool pattern
      else if cmp = CMP_LTE then filter_nevra_internal cmp_lte pool pattern
      else if cmp = CMP_GLOB then filter_glob_internal (\<lambda>p. Inr (nevra_str pool p)) pool pattern q False
      else if cmp = CMP_IGLOB then filter_glob_internal (\<lambda>p. Inr (nevra_str pool p)) pool pattern q True
      else if cmp = CMP_IEXACT then Inr (filter (\<lambda>p. lower_string (nevra_str pool p) = lower_string pattern) q)
      else Inl NotSupportedCmpType)"

definition ifilter_nevra_text :: "pool \<Rightarrow> query_cmp \<Rightarrow> string list \<Rightarrow> query \<Rightarrow> solv_error + query" where
  "ifilter_nevra_text pool cmp patterns q =
     (let cmp_not = cmp_has cmp CMP_NOT; cmp = without_not cmp; cmp_glob = cmp_has cmp CMP_GLOB in
      and_then (each_pattern (filter_nevra_text pool q cmp_glob cmp) patterns)
        (\<lambda>r. Inr (apply_filter cmp_not q r)))"

text \<open>
  The tests of a candidate whose name fits: not of the architecture to leave out, then architecture, epoch,
  version and release, each with the operator its pattern needs. A part that is empty or, under a glob
  operator, a single star is not tested.
\<close>

definition part_test :: "pool \<Rightarrow> query_cmp \<Rightarrow> bool \<Rightarrow> string \<Rightarrow> solv_error + string \<Rightarrow> solv_error + bool" where
  "part_test pool cmp cmp_glob pattern value_of =
     (if pattern = [] \<or> cmp_glob \<and> pattern = ''*'' then Inr True
      else and_then value_of (candidate_matches pool (remove_glob_when_unneeded cmp pattern cmp_glob) pattern))"

definition is_valid_candidate :: "pool \<Rightarrow> nat \<Rightarrow> nevra \<Rightarrow> query_cmp \<Rightarrow> bool \<Rightarrow> nat \<Rightarrow> solv_error + bool" where
  "is_valid_candidate pool src pattern cmp cmp_glob p =
     (if src \<noteq> 0 \<and> so_arch pool p = src then Inr False
      else and_then (part_test pool cmp cmp_glob (nv_arch pattern) (Inr (pkg_arch pool p))) (\<lambda>b.
        if \<not> b then Inr False
        else and_then (part_test pool cmp cmp_glob (nv_epoch pattern) (get_epoch_cstring pool p)) (\<lambda>b.
          if \<not> b then Inr False
          else and_then (part_test pool cmp cmp_glob (nv_version pattern) (pkg_version pool p)) (\<lambda>b.
            if \<not> b then Inr False
            else part_test pool cmp cmp_glob (nv_release pattern) (release_text pool p)))))"

definition filter_nevra :: "pool \<Rightarrow> query \<Rightarrow> nevra \<Rightarrow> bool \<Rightarrow> query_cmp \<Rightarrow> bool \<Rightarrow> solv_error + nat list" where
  "filter_nevra pool q pattern cmp_glob cmp with_src =
     (let name = nv_name pattern;
          name_cmp = remove_glob_when_unneeded cmp name cmp_glob;
          all_names = (cmp_glob \<and> name = ''*'');
          src = (if with_src then 0 else str2id pool ''src'');
          valid = is_valid_candidate pool src pattern cmp cmp_glob
      in
      if name \<noteq> [] then
        if name_cmp = CMP_EQ then
          (let i = str2id pool name in if i = 0 then Inr [] else candidates valid (named_solvables pool i))
        else if name_cmp = CMP_IEXACT then
          candidates (\<lambda>p. if lower_string (pkg_name pool p) \<noteq> lower_string name then Inr False else valid p) q
        else if name_cmp = CMP_GLOB \<or> name_cmp = CMP_IGLOB then
          candidates (\<lambda>p. if \<not> all_names \<and> \<not> fnm pool (name_cmp = CMP_IGLOB) name (pkg_name pool p) then Inr False
            else valid p) q
        else Inl NotSupportedCmpType
      else if nv_epoch pattern \<noteq> [] \<or> nv_version pattern \<noteq> [] \<or> nv_release pattern \<noteq> [] \<or> nv_arch pattern \<noteq> [] then
        candidates valid q
      else Inr [])"

definition ifilter_nevra :: "pool \<Rightarrow> query_cmp \<Rightarrow> nevra \<Rightarrow> query \<Rightarrow> solv_error + query" where
  "ifilter_nevra pool cmp pattern q =
     (let cmp_not = cmp_has cmp CMP_NOT; cmp = without_not cmp; cmp_glob = cmp_has cmp CMP_GLOB in
      and_then (filter_nevra pool q pattern cmp_glob cmp True) (\<lambda>r. Inr (apply_filter cmp_not q r)))"

section \<open>Package specifications\<close>

text \<open>The forms in turn: the first one that the text has and that leaves a package of the query.\<close>

primrec resolve_forms ::
  "pool \<Rightarrow> query \<Rightarrow> string \<Rightarrow> query_cmp \<Rightarrow> bool \<Rightarrow> nevra_form list \<Rightarrow> nevra \<Rightarrow> solv_error + (nevra \<times> query) option" where
  "resolve_forms pool q spec cmp with_src [] nv = Inr None"
| "resolve_forms pool q spec cmp with_src (form # forms) nv =
     (let (ok, nv) = nevra_parse nv spec form in
      if ok then
        and_then (filter_nevra pool q nv True cmp with_src) (\<lambda>r.
          let found = ids_and q r in
          if found \<noteq> [] then Inr (Some (nv, found))
          else resolve_forms pool q spec cmp with_src forms nv)
      else resolve_forms pool q spec cmp with_src forms nv)"

text \<open>The result is the answer, the name that was recognized and the query that is left.\<close>

type_synonym resolution = "bool \<times> nevra \<times> query"

definition resolve_nevra ::
  "pool \<Rightarrow> string \<Rightarrow> bool \<Rightarrow> bool \<Rightarrow> nevra_form list \<Rightarrow> query \<Rightarrow> solv_error + resolution option" where
  "resolve_nevra pool spec icase with_src forms q =
     (let cmp = (if icase then CMP_IGLOB else CMP_GLOB);
          test_forms = (if forms = [] then PKG_SPEC_FORMS else forms)
      in and_then (resolve_forms pool q spec cmp with_src test_forms empty_nevra) (\<lambda>r.
        case r of
          Some (nv, found) \<Rightarrow> Inr (Some (True, nv, found))
        | None \<Rightarrow>
            if forms = [] then
              and_then (filter_nevra_text pool q True cmp spec) (\<lambda>r.
                let found = ids_and q r in
                Inr (if found \<noteq> [] then Some (True, empty_nevra, found) else None))
            else Inr None))"

definition resolve_provides :: "pool \<Rightarrow> string \<Rightarrow> query \<Rightarrow> solv_error + resolution option" where
  "resolve_provides pool spec q =
     and_then (str2reldep_one pool CMP_GLOB True spec []) (\<lambda>rl.
       and_then (filter_provides pool CMP_EQ rl) (\<lambda>r.
         let found = ids_and q r in Inr (if found \<noteq> [] then Some (True, empty_nevra, found) else None)))"

definition resolve_filenames :: "pool \<Rightarrow> string \<Rightarrow> query \<Rightarrow> resolution option" where
  "resolve_filenames pool spec q =
     (if is_file_pattern spec then
        let r = filter_dataiterator pool SOLVABLE_FILELIST {SEARCH_FILES, SEARCH_COMPLETE_FILELIST, SEARCH_GLOB} q spec in
        if r \<noteq> [] then Some (True, empty_nevra, ids_and q r) else None
      else None)"

definition resolve_pkg_spec ::
  "pool \<Rightarrow> string \<Rightarrow> bool \<Rightarrow> bool \<Rightarrow> bool \<Rightarrow> bool \<Rightarrow> bool \<Rightarrow> nevra_form list \<Rightarrow> query \<Rightarrow> solv_error + resolution" where
  "resolve_pkg_spec pool spec icase with_nevra with_provides with_filenames with_src forms q =
     and_then (if with_nevra then resolve_nevra pool spec icase with_src forms q else Inr None) (\<lambda>r.
       case r of
         Some res \<Rightarrow> Inr res
       | None \<Rightarrow>
           and_then (if with_provides then resolve_provides pool spec q else Inr None) (\<lambda>r.
             case r of
               Some res \<Rightarrow> Inr res
             | None \<Rightarrow>
                 (case (if with_filenames then resolve_filenames pool spec q else None) of
                    Some res \<Rightarrow> Inr res
                  | None \<Rightarrow> Inr (False, empty_nevra, []))))"

end
