(* ===== verification/SolvQueryFacts.thy ===== *)
theory SolvQueryFacts
  imports SolvNevra
begin

text \<open>
  What the filters select: each of them agrees with the plain test of every package of the query, although
  exact names are looked up in the sorted list of all packages.
\<close>

section \<open>Pools\<close>

text \<open>
  What libsolv promises of its strings: an id that a lookup returns stands for the text, and the name,
  architecture and version of a package are ids of known strings.
\<close>

definition known_id :: "pool \<Rightarrow> nat \<Rightarrow> bool" where
  "known_id pool i \<longleftrightarrow> i \<noteq> 0 \<and> str2id pool (id2str pool i) = i"

definition pool_ok :: "pool \<Rightarrow> bool" where
  "pool_ok pool \<longleftrightarrow>
     (\<forall>s. str2id pool s \<noteq> 0 \<longrightarrow> id2str pool (str2id pool s) = s) \<and>
     (\<forall>p \<in> set (get_solvables pool).
        known_id pool (so_name pool p) \<and> known_id pool (so_arch pool p) \<and> known_id pool (so_evr pool p))"

lemma known_iff:
  assumes "pool_ok pool" "known_id pool i"
  shows "i = str2id pool s \<and> str2id pool s \<noteq> 0 \<longleftrightarrow> id2str pool i = s"
  using assms unfolding pool_ok_def known_id_def by metis

lemma pool_ok_ids:
  assumes "pool_ok pool" "p \<in> set (get_solvables pool)"
  shows "known_id pool (so_name pool p)" "known_id pool (so_arch pool p)" "known_id pool (so_evr pool p)"
  using assms by (auto simp: pool_ok_def)

lemma pkg_name_iff:
  "pool_ok pool \<Longrightarrow> p \<in> set (get_solvables pool) \<Longrightarrow>
     pkg_name pool p = s \<longleftrightarrow> so_name pool p = str2id pool s \<and> str2id pool s \<noteq> 0"
  using known_iff [OF _ pool_ok_ids(1)] by (auto simp: pkg_name_def)

lemma pkg_arch_iff:
  "pool_ok pool \<Longrightarrow> p \<in> set (get_solvables pool) \<Longrightarrow>
     pkg_arch pool p = s \<longleftrightarrow> so_arch pool p = str2id pool s \<and> str2id pool s \<noteq> 0"
  using known_iff [OF _ pool_ok_ids(2)] by (auto simp: pkg_arch_def)

lemma pkg_evr_iff:
  "pool_ok pool \<Longrightarrow> p \<in> set (get_solvables pool) \<Longrightarrow>
     pkg_evr pool p = s \<longleftrightarrow> so_evr pool p = str2id pool s \<and> str2id pool s \<noteq> 0"
  using known_iff [OF _ pool_ok_ids(3)] by (auto simp: pkg_evr_def)

text \<open>A small pool for the examples: foo in two architectures and bar.\<close>

definition sample_strings :: "string list" where
  "sample_strings = [''foo'', ''bar'', ''x86_64'', ''src'', ''1-1'', ''2:1-1'']"

definition sample_pool :: pool where
  "sample_pool =
     \<lparr>id2str = (\<lambda>i. if 0 < i \<and> i \<le> 6 then sample_strings ! (i - 1) else []),
      str2id = (\<lambda>s. case find_idx ((=) s) sample_strings of None \<Rightarrow> 0 | Some i \<Rightarrow> Suc i),
      nsolvables = 5,
      so_name = (\<lambda>p. if p = 4 then 2 else 1), so_arch = (\<lambda>p. if p = 3 then 4 else 3),
      so_evr = (\<lambda>p. if p = 4 then 6 else 5), so_repo = (\<lambda>p. Some 1),
      nrepos = 2, repo_name = (\<lambda>i. if i = 1 then Some ''fedora'' else None),
      evrcmp = (\<lambda>a b. if a = b then 0 else if length a < length b then -1 else 1),
      fnm = (\<lambda>fold pattern s. pattern = ''*'' \<or> pattern = s),
      nevra_str = (\<lambda>p. []), source_name = (\<lambda>p. None), source_rpm = (\<lambda>p. None), location = (\<lambda>p. None),
      dep_id = (\<lambda>n v c. 0), rich_id = (\<lambda>s. 0), data_strings = (\<lambda>s. []), data_search = (\<lambda>k f p s. False),
      provides_of = (\<lambda>i. []), id_array = (\<lambda>p k. []), match_dep = (\<lambda>i j. False), match_nevr = (\<lambda>i j. False),
      select_matching = (\<lambda>k p. []), obsoletes_use_provides = False\<rparr>"

lemma sample_pool_ok: "pool_ok sample_pool"
  by (auto simp: pool_ok_def known_id_def sample_pool_def sample_strings_def get_solvables_def is_package_def pkg_name_def
      upt_rec SOLVABLE_NAME_ADVISORY_PREFIX_def split: option.splits if_splits)

lemma sample_solvables: "get_solvables sample_pool = [2, 3, 4]"
  by code_simp

lemma sample_parts:
  "pkg_name sample_pool 2 = ''foo''" "pkg_name sample_pool 3 = ''foo''" "pkg_name sample_pool 4 = ''bar''"
  "pkg_arch sample_pool 2 = ''x86_64''" "pkg_arch sample_pool 3 = ''src''" "pkg_arch sample_pool 4 = ''x86_64''"
  "pkg_evr sample_pool 2 = ''1-1''" "pkg_evr sample_pool 3 = ''1-1''" "pkg_evr sample_pool 4 = ''2:1-1''"
  by (simp_all add: pkg_name_def pkg_arch_def pkg_evr_def sample_pool_def sample_strings_def)

lemma sample_ids:
  "so_name sample_pool 3 = 1" "so_arch sample_pool 3 = 4" "so_evr sample_pool 3 = 5" "str2id sample_pool ''src'' = 4"
  by (simp_all add: sample_pool_def sample_strings_def)

section \<open>Searches in the sorted list\<close>

lemma sorted_keys: "sorted (map (solvable_key pool) (get_sorted_solvables pool))"
  by (simp add: get_sorted_solvables_def)

lemma named_solvables_set: "set (named_solvables pool i) = {p \<in> set (get_solvables pool). so_name pool p = i}"
proof -
  have "named_solvables pool i = filter (\<lambda>p. so_name pool p = i) (get_sorted_solvables pool)"
    unfolding named_solvables_def
    by (rule run_from_sorted [OF sorted_keys]) (auto simp: solvable_key_def)
  then show ?thesis by (simp add: sorted_solvables_set)
qed

lemma name_arch_run_set:
  "set (run_from (name_arch_compare_lower_id pool n) (\<lambda>p. so_name pool p = ni_name n \<and> so_arch pool p = ni_arch n)
       (get_sorted_solvables pool)) =
     {p \<in> set (get_solvables pool). so_name pool p = ni_name n \<and> so_arch pool p = ni_arch n}"
proof -
  have "run_from (name_arch_compare_lower_id pool n) (\<lambda>p. so_name pool p = ni_name n \<and> so_arch pool p = ni_arch n)
      (get_sorted_solvables pool) = filter (\<lambda>p. so_name pool p = ni_name n \<and> so_arch pool p = ni_arch n) (get_sorted_solvables pool)"
    by (rule run_from_sorted [OF sorted_keys])
      (auto simp: solvable_key_def name_arch_compare_lower_id_def split: if_splits)
  then show ?thesis by (simp add: sorted_solvables_set)
qed

lemma nevra_run_set:
  "set (run_from (nevra_compare_lower_id pool n)
       (\<lambda>p. so_name pool p = ni_name n \<and> so_arch pool p = ni_arch n \<and> so_evr pool p = ni_evr n) (get_sorted_solvables pool)) =
     {p \<in> set (get_solvables pool). so_name pool p = ni_name n \<and> so_arch pool p = ni_arch n \<and> so_evr pool p = ni_evr n}"
proof -
  have "run_from (nevra_compare_lower_id pool n)
      (\<lambda>p. so_name pool p = ni_name n \<and> so_arch pool p = ni_arch n \<and> so_evr pool p = ni_evr n) (get_sorted_solvables pool) =
      filter (\<lambda>p. so_name pool p = ni_name n \<and> so_arch pool p = ni_arch n \<and> so_evr pool p = ni_evr n) (get_sorted_solvables pool)"
    by (rule run_from_sorted [OF sorted_keys])
      (auto simp: solvable_key_def nevra_compare_lower_id_def split: if_splits)
  then show ?thesis by (simp add: sorted_solvables_set)
qed

section \<open>Operators\<close>

lemma cmp_numbers:
  "CMP_EQ = 256" "CMP_NOT = 1" "CMP_GLOB = 1048576" "CMP_IGLOB = 1048578" "CMP_IEXACT = 258" "CMP_CONTAINS = 65536"
  "CMP_ICONTAINS = 65538" "CMP_GT = 512" "CMP_LT = 1024" "CMP_GTE = 768" "CMP_LTE = 1280" "CMP_NEQ = 257"
  by (simp_all add: cmp_defs)

definition name_operators :: "query_cmp set" where
  "name_operators = {CMP_EQ, CMP_IEXACT, CMP_CONTAINS, CMP_ICONTAINS, CMP_GLOB, CMP_IGLOB}"

definition negated :: "bool \<Rightarrow> query_cmp \<Rightarrow> query_cmp" where
  "negated neg c = (if neg then cmp_or CMP_NOT c else c)"

lemma negated_ops:
  assumes "c \<in> name_operators"
  shows "cmp_has (negated neg c) CMP_NOT = neg" "without_not (negated neg c) = c"
    "cmp_has c CMP_GLOB \<longleftrightarrow> c = CMP_GLOB \<or> c = CMP_IGLOB"
  using assms
  by (auto simp: name_operators_def negated_def cmp_has_def without_not_def cmp_numbers cmp_or_def cmp_and_def cmp_minus_def)

text \<open>What a pattern means: a glob pattern without special characters is the text itself.\<close>

definition text_matches :: "pool \<Rightarrow> query_cmp \<Rightarrow> string \<Rightarrow> string \<Rightarrow> bool" where
  "text_matches pool c pattern t \<longleftrightarrow>
     (if c = CMP_EQ then t = pattern
      else if c = CMP_IEXACT then lower_string t = lower_string pattern
      else if c = CMP_CONTAINS then has_substring t pattern
      else if c = CMP_ICONTAINS then has_substring (lower_string t) (lower_string pattern)
      else if c = CMP_GLOB then (if glob_pattern pattern then fnm pool False pattern t else t = pattern)
      else if glob_pattern pattern then fnm pool True pattern t
      else lower_string t = lower_string pattern)"

lemma effective_operator:
  assumes "c \<in> name_operators"
  shows "remove_glob_when_unneeded c pattern (cmp_has c CMP_GLOB) =
    (if c = CMP_GLOB \<and> \<not> glob_pattern pattern then CMP_EQ
     else if c = CMP_IGLOB \<and> \<not> glob_pattern pattern then CMP_IEXACT else c)"
  using assms
  by (auto simp: name_operators_def remove_glob_when_unneeded_def cmp_has_def cmp_numbers cmp_or_def cmp_and_def cmp_minus_def)

section \<open>Names\<close>

lemma name_pattern_selects:
  assumes "pool_ok pool" "set q \<subseteq> set (get_solvables pool)" "c \<in> name_operators"
  shows "\<exists>r. name_pattern pool q (remove_glob_when_unneeded c pattern (cmp_has c CMP_GLOB)) pattern = Inr r \<and>
    (\<forall>p \<in> set q. p \<in> set r \<longleftrightarrow> text_matches pool c pattern (pkg_name pool p))"
proof -
  have eq: "\<forall>p \<in> set q. p \<in> set (if str2id pool pattern = 0 then [] else named_solvables pool (str2id pool pattern)) \<longleftrightarrow>
      pkg_name pool p = pattern"
  proof
    fix p assume "p \<in> set q"
    then show "p \<in> set (if str2id pool pattern = 0 then [] else named_solvables pool (str2id pool pattern)) \<longleftrightarrow>
        pkg_name pool p = pattern"
      using assms(2) pkg_name_iff [OF assms(1), of p pattern] by (auto simp: named_solvables_set)
  qed
  note ops = cmp_numbers
  have glob: "filter_glob_internal (\<lambda>p. Inr (pkg_name pool p)) pool pattern q casefold =
      Inr (filter (\<lambda>p. fnm pool casefold pattern (pkg_name pool p)) q)" for casefold
    by (simp add: filter_glob_internal_def candidates_ok)
  consider "c = CMP_EQ" | "c = CMP_IEXACT" | "c = CMP_CONTAINS" | "c = CMP_ICONTAINS" | "c = CMP_GLOB" | "c = CMP_IGLOB"
    using assms(3) by (auto simp: name_operators_def)
  then have "\<exists>r. name_pattern pool q (if c = CMP_GLOB \<and> \<not> glob_pattern pattern then CMP_EQ
       else if c = CMP_IGLOB \<and> \<not> glob_pattern pattern then CMP_IEXACT else c) pattern = Inr r \<and>
      (\<forall>p \<in> set q. p \<in> set r \<longleftrightarrow> text_matches pool c pattern (pkg_name pool p))"
  proof cases
    case 1
    then show ?thesis using eq by (cases "str2id pool pattern = 0") (simp_all add: ops name_pattern_def text_matches_def Let_def)
  next
    case 5
    then show ?thesis using eq
      by (cases "glob_pattern pattern"; cases "str2id pool pattern = 0") (simp_all add: ops name_pattern_def text_matches_def Let_def glob)
  next
    case 6
    then show ?thesis by (cases "glob_pattern pattern") (auto simp: ops name_pattern_def text_matches_def glob)
  qed (auto simp: ops name_pattern_def text_matches_def)
  then show ?thesis unfolding effective_operator [OF assms(3)] .
qed

lemma each_pattern_members:
  assumes "\<And>x. x \<in> set xs \<Longrightarrow> \<exists>r. f x = Inr r \<and> (\<forall>p \<in> set q. p \<in> set r \<longleftrightarrow> g x p)"
  shows "\<exists>r. each_pattern f xs = Inr r \<and> (\<forall>p \<in> set q. p \<in> set r \<longleftrightarrow> (\<exists>x \<in> set xs. g x p))"
  using assms
proof (induction xs)
  case (Cons x xs)
  obtain r where r: "f x = Inr r" "\<forall>p \<in> set q. p \<in> set r \<longleftrightarrow> g x p" using Cons.prems [of x] by auto
  obtain rs where rs: "each_pattern f xs = Inr rs" "\<forall>p \<in> set q. p \<in> set rs \<longleftrightarrow> (\<exists>x \<in> set xs. g x p)"
    using Cons.IH Cons.prems by auto
  show ?case using r rs by auto
qed simp

lemma apply_filter_members:
  "\<forall>p \<in> set q. p \<in> set r \<longleftrightarrow> P p \<Longrightarrow> apply_filter neg q r = filter (\<lambda>p. P p \<noteq> neg) q"
  by (auto simp: apply_filter_def ids_and_def ids_minus_def intro!: filter_cong)

text \<open>C8. A filter by name keeps the packages of the query one of whose patterns fits the name, and with a negated
  operator the others: the search by id in the sorted list of the whole pool is the plain comparison of names,
  and a glob pattern without special characters is compared as a text.
\<close>

theorem ifilter_name_selects:
  assumes "pool_ok pool" "set q \<subseteq> set (get_solvables pool)" "c \<in> name_operators"
  shows "ifilter_name pool (negated neg c) patterns q =
    Inr (filter (\<lambda>p. (\<exists>pattern \<in> set patterns. text_matches pool c pattern (pkg_name pool p)) \<noteq> neg) q)"
proof -
  obtain r where "each_pattern (\<lambda>pattern. name_pattern pool q (remove_glob_when_unneeded c pattern (cmp_has c CMP_GLOB)) pattern)
      patterns = Inr r" "\<forall>p \<in> set q. p \<in> set r \<longleftrightarrow> (\<exists>pattern \<in> set patterns. text_matches pool c pattern (pkg_name pool p))"
    using each_pattern_members [of patterns
        "\<lambda>pattern. name_pattern pool q (remove_glob_when_unneeded c pattern (cmp_has c CMP_GLOB)) pattern" q
        "\<lambda>pattern p. text_matches pool c pattern (pkg_name pool p)"] name_pattern_selects [OF assms] by blast
  then show ?thesis
    using apply_filter_members [of q r] by (simp add: ifilter_name_def negated_ops(1,2) [OF assms(3)])
qed

theorem ifilter_name_selects_witness:
  "ifilter_name sample_pool (negated True CMP_EQ) [''foo''] [2, 3, 4] = Inr [4]"
  using ifilter_name_selects [OF sample_pool_ok, of "[2, 3, 4]" CMP_EQ True "[''foo'']"]
  by (simp add: sample_solvables sample_parts text_matches_def name_operators_def)

section \<open>Versions and releases\<close>

lemma order_operators:
  assumes "c \<in> {CMP_EQ, CMP_GT, CMP_LT, CMP_GTE, CMP_LTE}"
  shows "without_not (negated neg c) = c" "cmp_has (negated neg c) CMP_NOT = neg" "\<not> cmp_has c CMP_GLOB"
  using assms by (auto simp: negated_def cmp_has_def without_not_def cmp_numbers cmp_or_def cmp_and_def cmp_minus_def)

text \<open>
  The operators greater, less and their variants of the filters by version and by release select what the
  operator for equality selects.
\<close>

lemma version_order_is_ignored:
  assumes "c \<in> {CMP_GT, CMP_LT, CMP_GTE, CMP_LTE}"
  shows "ifilter_version pool (negated neg c) patterns q = ifilter_version pool (negated neg CMP_EQ) patterns q \<and>
    ifilter_release pool (negated neg c) patterns q = ifilter_release pool (negated neg CMP_EQ) patterns q"
proof -
  have ops: "c \<in> {CMP_EQ, CMP_GT, CMP_LT, CMP_GTE, CMP_LTE}" "CMP_EQ \<in> {CMP_EQ, CMP_GT, CMP_LT, CMP_GTE, CMP_LTE}"
    using assms by auto
  have v: "version_pattern pool q c = version_pattern pool q CMP_EQ" "release_pattern pool q c = release_pattern pool q CMP_EQ"
    using assms by (auto simp: fun_eq_iff version_pattern_def release_pattern_def cmp_numbers filter_version_internal_def
        filter_release_internal_def)
  show ?thesis
    by (simp add: ifilter_version_def ifilter_release_def order_operators [OF ops(1)] order_operators [OF ops(2)]
        remove_glob_when_unneeded_def v)
qed

lemma version_order_is_ignored_witness:
  "ifilter_version sample_pool (negated False CMP_GT) [''0''] [2] = ifilter_version sample_pool (negated False CMP_EQ) [''0''] [2] \<and>
    ifilter_release sample_pool (negated False CMP_GT) [''0''] [2] = ifilter_release sample_pool (negated False CMP_EQ) [''0''] [2]"
  by (rule version_order_is_ignored) simp

end
