(* ===== verification/SolvResolveFacts.thy ===== *)
theory SolvResolveFacts
  imports SolvQueryFacts
begin

text \<open>
  The filter by the parts of a name and the resolution of package specifications: which packages a
  specification selects.
\<close>

section \<open>Packages and names\<close>

definition versions_ok :: "pool \<Rightarrow> bool" where
  "versions_ok pool \<longleftrightarrow> (\<forall>p \<in> set (get_solvables pool). \<exists>e v r. pool_split_evr (pkg_evr pool p) = Inr (e, v, Some r))"

definition part_matches :: "pool \<Rightarrow> query_cmp \<Rightarrow> string \<Rightarrow> string \<Rightarrow> bool" where
  "part_matches pool c pattern t \<longleftrightarrow> pattern = [] \<or> pattern = ''*'' \<or> text_matches pool c pattern t"

definition nevra_matches :: "pool \<Rightarrow> query_cmp \<Rightarrow> nevra \<Rightarrow> nat \<Rightarrow> bool" where
  "nevra_matches pool c nv p \<longleftrightarrow>
     part_matches pool c (nv_name nv) (pkg_name pool p) \<and> part_matches pool c (nv_arch nv) (pkg_arch pool p) \<and>
     (case pool_split_evr (pkg_evr pool p) of
        Inr (e, v, Some r) \<Rightarrow>
          part_matches pool c (nv_epoch nv) (case e of None \<Rightarrow> BASE_EPOCH | Some e \<Rightarrow> e) \<and>
          part_matches pool c (nv_version nv) v \<and> part_matches pool c (nv_release nv) r
      | _ \<Rightarrow> False)"

definition src_allowed :: "pool \<Rightarrow> bool \<Rightarrow> nat \<Rightarrow> bool" where
  "src_allowed pool with_src p \<longleftrightarrow> with_src \<or> pkg_arch pool p \<noteq> ''src''"

lemma part_test_matches:
  assumes "c = CMP_GLOB \<or> c = CMP_IGLOB"
  shows "part_test pool c True pattern (Inr t) = Inr (part_matches pool c pattern t)"
proof -
  have c: "c \<in> name_operators" "cmp_has c CMP_GLOB" using assms by (auto simp: name_operators_def cmp_has_def cmp_numbers cmp_and_def)
  have "candidate_matches pool (remove_glob_when_unneeded c pattern True) pattern t = Inr (text_matches pool c pattern t)"
    using effective_operator [OF c(1), of pattern] assms c(2)
    by (cases "glob_pattern pattern") (auto simp: candidate_matches_def text_matches_def cmp_numbers)
  then show ?thesis by (simp add: part_test_def part_matches_def)
qed

lemma valid_candidate_matches:
  assumes "c = CMP_GLOB \<or> c = CMP_IGLOB" "pool_split_evr (pkg_evr pool p) = Inr (e, v, Some r)"
  shows "is_valid_candidate pool src nv c True p =
    Inr (\<not> (src \<noteq> 0 \<and> so_arch pool p = src) \<and> part_matches pool c (nv_arch nv) (pkg_arch pool p) \<and>
      part_matches pool c (nv_epoch nv) (case e of None \<Rightarrow> BASE_EPOCH | Some e \<Rightarrow> e) \<and>
      part_matches pool c (nv_version nv) v \<and> part_matches pool c (nv_release nv) r)"
proof -
  have "get_epoch_cstring pool p = Inr (case e of None \<Rightarrow> BASE_EPOCH | Some e \<Rightarrow> e)" "pkg_version pool p = Inr v"
    "release_text pool p = Inr r"
    using assms(2) by (simp_all add: get_epoch_cstring_def pkg_version_def release_text_def pkg_release_def text_of_def)
  then show ?thesis by (simp add: is_valid_candidate_def part_test_matches [OF assms(1)])
qed

lemma valid_candidate_nevra:
  assumes "c = CMP_GLOB \<or> c = CMP_IGLOB" "pool_ok pool" "versions_ok pool" "p \<in> set (get_solvables pool)"
    "src = (if with_src then 0 else str2id pool ''src'')"
  shows "\<exists>b. is_valid_candidate pool src nv c True p = Inr b \<and>
    (nevra_matches pool c nv p \<and> src_allowed pool with_src p \<longleftrightarrow> b \<and> part_matches pool c (nv_name nv) (pkg_name pool p))"
proof -
  obtain e v r where evr: "pool_split_evr (pkg_evr pool p) = Inr (e, v, Some r)" using assms(3,4) by (auto simp: versions_ok_def)
  have "src_allowed pool with_src p \<longleftrightarrow> \<not> (src \<noteq> 0 \<and> so_arch pool p = src)"
    using pkg_arch_iff [OF assms(2,4), of "''src''"] assms(5) by (auto simp: src_allowed_def)
  then show ?thesis
    using evr by (auto simp: valid_candidate_matches [OF assms(1) evr] nevra_matches_def)
qed

lemma negative_test:
  "candidates (\<lambda>p. if \<not> N p then Inr False else f p) q = candidates f (filter N q)"
proof (induction q)
  case (Cons p q)
  have "and_then (candidates f (filter N q)) Inr = candidates f (filter N q)" by (cases "candidates f (filter N q)") simp_all
  then show ?case using Cons by simp
qed simp

lemma name_operator_cases:
  assumes "c = CMP_GLOB \<or> c = CMP_IGLOB"
  shows "remove_glob_when_unneeded c name True = (if glob_pattern name then c else if c = CMP_GLOB then CMP_EQ else CMP_IEXACT)"
  using effective_operator [of c name] assms
  by (auto simp: name_operators_def cmp_has_def cmp_numbers cmp_and_def)

lemma filter_nevra_selects:
  assumes c: "c = CMP_GLOB \<or> c = CMP_IGLOB" and pool: "pool_ok pool" "versions_ok pool"
    and q: "set q \<subseteq> set (get_solvables pool)" and name: "nv_name nv \<noteq> []"
  shows "\<exists>r. filter_nevra pool q nv True c with_src = Inr r \<and>
    (\<forall>p \<in> set q. p \<in> set r \<longleftrightarrow> nevra_matches pool c nv p \<and> src_allowed pool with_src p)"
proof -
  define src where "src = (if with_src then 0 else str2id pool ''src'')"
  define valid where "valid = is_valid_candidate pool src nv c True"
  have "\<forall>p \<in> set (get_solvables pool). \<exists>b. valid p = Inr b \<and>
      (nevra_matches pool c nv p \<and> src_allowed pool with_src p \<longleftrightarrow> b \<and> part_matches pool c (nv_name nv) (pkg_name pool p))"
    unfolding valid_def using valid_candidate_nevra [OF c pool _ src_def] by blast
  then obtain V where V: "\<forall>p \<in> set (get_solvables pool). valid p = Inr (V p) \<and>
      (nevra_matches pool c nv p \<and> src_allowed pool with_src p \<longleftrightarrow> V p \<and> part_matches pool c (nv_name nv) (pkg_name pool p))"
    by (auto dest!: bchoice)
  have all: "candidates valid ps = Inr (filter V ps)" if "set ps \<subseteq> set (get_solvables pool)" for ps
    using that V by (intro candidates_ok) blast
  have fn: "filter_nevra pool q nv True c with_src =
     (if glob_pattern (nv_name nv) then
        candidates (\<lambda>p. if \<not> (nv_name nv = ''*'' \<or> fnm pool (c = CMP_IGLOB) (nv_name nv) (pkg_name pool p)) then Inr False else valid p) q
      else if c = CMP_GLOB then
        (let i = str2id pool (nv_name nv) in if i = 0 then Inr [] else candidates valid (named_solvables pool i))
      else candidates (\<lambda>p. if \<not> (lower_string (pkg_name pool p) = lower_string (nv_name nv)) then Inr False else valid p) q)"
    using c name unfolding filter_nevra_def Let_def name_operator_cases [OF c] src_def [symmetric] valid_def [symmetric]
    by (auto simp: cmp_numbers)
  have selects: "\<exists>r. candidates valid (filter N q) = Inr r \<and>
      (\<forall>p \<in> set q. p \<in> set r \<longleftrightarrow> nevra_matches pool c nv p \<and> src_allowed pool with_src p)"
    if "\<And>p. p \<in> set q \<Longrightarrow> N p \<longleftrightarrow> part_matches pool c (nv_name nv) (pkg_name pool p)" for N
  proof -
    have "candidates valid (filter N q) = Inr (filter V (filter N q))" using q by (intro all) auto
    then show ?thesis using V q that by auto
  qed
  show ?thesis
  proof (cases "glob_pattern (nv_name nv)")
    case True
    then show ?thesis
      unfolding fn negative_test if_P [OF True]
      using name c by (intro selects) (auto simp: part_matches_def text_matches_def cmp_numbers)
  next
    case False
    then have star: "nv_name nv \<noteq> ''*''" by (auto simp: glob_pattern_def)
    show ?thesis
    proof (cases "c = CMP_GLOB")
      case True
      have name_eq: "part_matches pool c (nv_name nv) (pkg_name pool p) \<longleftrightarrow>
          so_name pool p = str2id pool (nv_name nv) \<and> str2id pool (nv_name nv) \<noteq> 0" if "p \<in> set q" for p
        using that q pkg_name_iff [OF pool(1), of p "nv_name nv"] True False star name
        by (auto simp: part_matches_def text_matches_def cmp_numbers)
      have named: "candidates valid (named_solvables pool i) = Inr (filter V (named_solvables pool i))" for i
        by (intro all) (auto simp: named_solvables_set)
      define r where "r = (if str2id pool (nv_name nv) = 0 then [] else filter V (named_solvables pool (str2id pool (nv_name nv))))"
      have "filter_nevra pool q nv True c with_src = Inr r" unfolding fn using True False named by (simp add: r_def Let_def)
      moreover have "p \<in> set r \<longleftrightarrow> nevra_matches pool c nv p \<and> src_allowed pool with_src p" if "p \<in> set q" for p
        using V q that name_eq [OF that] by (auto simp: r_def named_solvables_set)
      ultimately show ?thesis by blast
    next
      case no: False
      show ?thesis
        unfolding fn negative_test if_not_P [OF False] if_not_P [OF no]
        using False no c star name by (intro selects) (auto simp: part_matches_def text_matches_def cmp_numbers)
    qed
  qed
qed

section \<open>Package specifications\<close>

lemma ids_and_members: "\<forall>p \<in> set q. p \<in> set r \<longleftrightarrow> P p \<Longrightarrow> ids_and q r = filter P q"
  by (auto simp: ids_and_def intro!: filter_cong)

definition spec_matches :: "pool \<Rightarrow> bool \<Rightarrow> bool \<Rightarrow> nevra \<Rightarrow> nat \<Rightarrow> bool" where
  "spec_matches pool icase with_src nv p \<longleftrightarrow>
     nevra_matches pool (if icase then CMP_IGLOB else CMP_GLOB) nv p \<and> src_allowed pool with_src p"

lemma resolve_forms_first:
  assumes c: "c = (if icase then CMP_IGLOB else CMP_GLOB)" and pool: "pool_ok pool" "versions_ok pool"
    and q: "set q \<subseteq> set (get_solvables pool)"
    and nv: "well_formed form nv" "spec = nevra_text form nv" "filter (spec_matches pool icase with_src nv) q \<noteq> []"
    and before: "\<And>f nv'. f \<in> set pre \<Longrightarrow> well_formed f nv' \<Longrightarrow> spec = nevra_text f nv' \<Longrightarrow>
      filter (spec_matches pool icase with_src nv') q = []"
  shows "resolve_forms pool q spec c with_src (pre @ form # post) nv0 =
    Inr (Some (nv, filter (spec_matches pool icase with_src nv) q))"
proof -
  have c': "c = CMP_GLOB \<or> c = CMP_IGLOB" using c by simp
  have found: "\<exists>r. filter_nevra pool q nv' True c with_src = Inr r \<and> ids_and q r = filter (spec_matches pool icase with_src nv') q"
    if "well_formed f nv'" for f nv'
  proof -
    have "nv_name nv' \<noteq> []" using that by (auto simp: well_formed_def word_of_def)
    then obtain r where "filter_nevra pool q nv' True c with_src = Inr r"
      "\<forall>p \<in> set q. p \<in> set r \<longleftrightarrow> nevra_matches pool c nv' p \<and> src_allowed pool with_src p"
      using filter_nevra_selects [OF c' pool q] by blast
    then show ?thesis using ids_and_members [of q r] by (auto simp: spec_matches_def c)
  qed
  show ?thesis
    using before
  proof (induction pre arbitrary: nv0)
    case Nil
    have "nevra_parse nv0 spec form = (True, nv)" using nv by (simp add: nevra_parse_iff)
    then show ?case using found [OF nv(1)] nv(3) by auto
  next
    case (Cons f pre)
    have rest: "resolve_forms pool q spec c with_src (pre @ form # post) nv1 =
        Inr (Some (nv, filter (spec_matches pool icase with_src nv) q))" for nv1
      using Cons.IH Cons.prems by auto
    obtain ok nv' where parse: "nevra_parse nv0 spec f = (ok, nv')" by fastforce
    show ?case
    proof (cases ok)
      case True
      then have wf: "well_formed f nv'" "spec = nevra_text f nv'" using parse by (auto simp: nevra_parse_iff)
      then show ?thesis using parse True rest found [OF wf(1)] Cons.prems [of f nv'] by auto
    qed (simp add: parse rest)
  qed
qed

text \<open>C7. A package specification means the first form, in the order of the forms, that it can be read in and that
  some package of the query fits; the answer is that reading, and the query keeps the packages that fit it, part
  by part, without source packages where they are not wanted.
\<close>

theorem resolve_takes_first_form:
  assumes "pool_ok pool" "versions_ok pool" "set q \<subseteq> set (get_solvables pool)"
    and "(if forms = [] then PKG_SPEC_FORMS else forms) = pre @ form # post"
    and "well_formed form nv" "spec = nevra_text form nv" "filter (spec_matches pool icase with_src nv) q \<noteq> []"
    and "\<forall>f \<in> set pre. \<forall>nv'. well_formed f nv' \<and> spec = nevra_text f nv' \<longrightarrow>
      filter (spec_matches pool icase with_src nv') q = []"
  shows "resolve_pkg_spec pool spec icase True with_provides with_filenames with_src forms q =
    Inr (True, nv, filter (spec_matches pool icase with_src nv) q)"
proof -
  have "resolve_forms pool q spec (if icase then CMP_IGLOB else CMP_GLOB) with_src (pre @ form # post) empty_nevra =
      Inr (Some (nv, filter (spec_matches pool icase with_src nv) q))"
    using assms by (intro resolve_forms_first) auto
  then show ?thesis by (simp add: resolve_pkg_spec_def resolve_nevra_def Let_def assms(4))
qed

lemma sample_versions_ok: "versions_ok sample_pool"
  by (simp add: versions_ok_def sample_solvables sample_parts pool_split_evr_def no_delim_def Let_def)

theorem resolve_takes_first_form_witness:
  "resolve_pkg_spec sample_pool ''foo'' False True True True False [] [2, 3, 4] =
    Inr (True, empty_nevra\<lparr>nv_name := ''foo''\<rparr>, [2])"
proof -
  have found: "filter (spec_matches sample_pool False False (empty_nevra\<lparr>nv_name := ''foo''\<rparr>)) [2, 3, 4] = [2]"
    by code_simp
  have dot: "\<not> (well_formed f nv' \<and> ''foo'' = nevra_text f nv')" if "f \<in> set [NEVRA, NA]" for f nv'
  proof
    assume "well_formed f nv' \<and> ''foo'' = nevra_text f nv'"
    moreover have "CHR ''.'' \<in> set (nevra_text f nv')" using that by auto
    ultimately have "CHR ''.'' \<in> set ''foo''" by simp
    then show False by simp
  qed
  have "resolve_pkg_spec sample_pool ''foo'' False True True True False [] [2, 3, 4] =
      Inr (True, empty_nevra\<lparr>nv_name := ''foo''\<rparr>,
        filter (spec_matches sample_pool False False (empty_nevra\<lparr>nv_name := ''foo''\<rparr>)) [2, 3, 4])"
  proof (rule resolve_takes_first_form [OF sample_pool_ok sample_versions_ok])
    show "(if [] = [] then PKG_SPEC_FORMS else []) = [NEVRA, NA] @ NAME # [NEVR, NEV]" by (simp add: PKG_SPEC_FORMS_def)
    show "well_formed NAME (empty_nevra\<lparr>nv_name := ''foo''\<rparr>)"
      by (simp add: well_formed_def form_parts word_of_def name_char_def empty_nevra_def)
    show "\<forall>f \<in> set [NEVRA, NA]. \<forall>nv'. well_formed f nv' \<and> ''foo'' = nevra_text f nv' \<longrightarrow>
        filter (spec_matches sample_pool False False nv') [2, 3, 4] = []"
      using dot by blast
  qed (simp_all add: sample_solvables found del: filter.simps)
  then show ?thesis unfolding found .
qed

end
