(* ===== verification/SolvNevraFacts.thy ===== *)
theory SolvNevraFacts
  imports SolvResolveFacts
begin

text \<open>
  Full names of packages: how \<open>NevraID::parse\<close> takes them apart, which packages an exact name selects, and
  where the removal of a zero epoch goes wrong.
\<close>

section \<open>The scan\<close>

lemma scan_any: "\<exists>e' r' a'. scan_delims (n @ s) i e r a = scan_delims s (i + length n) e' r' a'"
proof (induction n arbitrary: i e r a)
  case Nil
  then show ?case by auto
next
  case (Cons c n)
  show ?case by (simp, intro conjI impI) (use Cons [of "Suc i"] in auto)
qed

lemma scan_no_dash:
  "CHR ''-'' \<notin> set w \<Longrightarrow> \<exists>a'. scan_delims (w @ s) i e r a = scan_delims s (i + length w) e r a'"
proof (induction w arbitrary: i a)
  case Nil
  then show ?case by auto
next
  case (Cons c w)
  show ?case using Cons.prems by (simp, intro conjI impI) (use Cons.IH [of "Suc i"] in auto)
qed

lemma scan_plain: "CHR ''-'' \<notin> set w \<Longrightarrow> CHR ''.'' \<notin> set w \<Longrightarrow> scan_delims w i e r a = (e, r, a)"
  by (induction w arbitrary: i) auto

lemma scan_dashes:
  assumes "CHR ''-'' \<notin> set v" "CHR ''-'' \<notin> set t"
  shows "\<exists>a. scan_delims (n @ CHR ''-'' # v @ CHR ''-'' # t) 0 None None None =
    (Some (length n), Some (length n + 1 + length v), a)"
proof -
  obtain e1 r1 a1 where "scan_delims (n @ CHR ''-'' # v @ CHR ''-'' # t) 0 None None None =
      scan_delims (CHR ''-'' # v @ CHR ''-'' # t) (length n) e1 r1 a1"
    using scan_any [of n "CHR ''-'' # v @ CHR ''-'' # t" 0 None None None] by auto
  moreover obtain a2 where "scan_delims (v @ CHR ''-'' # t) (Suc (length n)) r1 (Some (length n)) a1 =
      scan_delims (CHR ''-'' # t) (Suc (length n) + length v) r1 (Some (length n)) a2"
    using scan_no_dash [OF assms(1)] by blast
  moreover obtain a3 where "scan_delims (t @ []) (Suc (Suc (length n) + length v)) (Some (length n)) (Some (Suc (length n) + length v)) a2 =
      scan_delims [] (Suc (Suc (length n) + length v) + length t) (Some (length n)) (Some (Suc (length n) + length v)) a3"
    using scan_no_dash [OF assms(2)] by blast
  ultimately show ?thesis by simp
qed

lemma scan_arch:
  assumes "CHR ''-'' \<notin> set a" "CHR ''.'' \<notin> set a"
  shows "snd (snd (scan_delims (w @ CHR ''.'' # a) 0 None None None)) = Some (length w)"
proof -
  obtain e1 r1 a1 where "scan_delims (w @ CHR ''.'' # a) 0 None None None = scan_delims (CHR ''.'' # a) (length w) e1 r1 a1"
    using scan_any [of w "CHR ''.'' # a" 0 None None None] by auto
  then show ?thesis by (simp add: scan_plain [OF assms])
qed

lemma scan_nevra:
  assumes "CHR ''-'' \<notin> set v" "CHR ''-'' \<notin> set r" "CHR ''-'' \<notin> set a" "CHR ''.'' \<notin> set a"
  shows "scan_delims (n @ CHR ''-'' # v @ CHR ''-'' # r @ CHR ''.'' # a) 0 None None None =
    (Some (length n), Some (length n + 1 + length v), Some (length n + 2 + length v + length r))"
proof -
  have "\<exists>x. scan_delims (n @ CHR ''-'' # v @ CHR ''-'' # (r @ CHR ''.'' # a)) 0 None None None =
      (Some (length n), Some (length n + 1 + length v), x)"
    using assms by (intro scan_dashes) auto
  moreover have "snd (snd (scan_delims ((n @ CHR ''-'' # v @ CHR ''-'' # r) @ CHR ''.'' # a) 0 None None None)) =
      Some (length (n @ CHR ''-'' # v @ CHR ''-'' # r))"
    using assms by (intro scan_arch)
  ultimately show ?thesis by auto
qed

section \<open>The removal of a zero epoch\<close>

declare strip_epoch.simps [simp del]

lemma strip_past_end: "length s < d + i \<Longrightarrow> strip_epoch s d i = None"
  by (simp add: strip_epoch.simps [of s d i])

lemma strip_nothing:
  "(\<And>j. d < j \<Longrightarrow> text_char s j \<noteq> CHR '':'') \<Longrightarrow> d + i \<le> length s \<Longrightarrow> strip_epoch s d i = Some d"
proof (induction "length s - (d + i)" arbitrary: i)
  case 0
  then show ?case by (simp add: strip_epoch.simps [of s d i] text_char_def)
next
  case (Suc n)
  have "strip_epoch s d (Suc i) = Some d" using Suc by (intro Suc.hyps(1)) auto
  then show ?case using Suc by (simp add: strip_epoch.simps [of s d i])
qed

text \<open>A run of zeros up to the colon, whatever follows.\<close>

lemma strip_zeros:
  assumes "s = pre @ replicate k CHR ''0'' @ CHR '':'' # rest" "d + i = length pre" "0 < k"
  shows "strip_epoch s d i = strip_epoch s (length pre + k) (i + k)"
  using assms
proof (induction k arbitrary: pre i)
  case (Suc k)
  have zero: "text_char s (d + i) = CHR ''0''" "d + i < length s" using Suc.prems by (auto simp: text_char_def nth_append)
  show ?case
  proof (cases k)
    case 0
    then have "text_char s (d + Suc i) = CHR '':''" using Suc.prems by (auto simp: text_char_def nth_append)
    then have "strip_epoch s d i = strip_epoch s (d + Suc i) (Suc i)" using zero by (simp add: strip_epoch.simps [of s d i])
    then show ?thesis using Suc.prems(2) 0 by simp
  next
    case (Suc k')
    then have "text_char s (d + Suc i) = CHR ''0''" using Suc.prems by (auto simp: text_char_def nth_append)
    then have "strip_epoch s d i = strip_epoch s d (Suc i)" using zero by (simp add: strip_epoch.simps [of s d i])
    also have "\<dots> = strip_epoch s (length (pre @ ''0'') + k) (Suc i + k)"
      using Suc.prems Suc by (intro Suc.IH) (auto simp: replicate_append_same)
    finally show ?thesis by simp
  qed
qed simp

section \<open>Exact names\<close>

definition full_name :: "string \<Rightarrow> bool \<Rightarrow> string \<Rightarrow> string \<Rightarrow> string \<Rightarrow> string" where
  "full_name n zero_epoch v r a =
     n @ CHR ''-'' # (if zero_epoch then ''0:'' else []) @ v @ CHR ''-'' # r @ CHR ''.'' # a"

definition plain_part :: "string \<Rightarrow> bool" where
  "plain_part s \<longleftrightarrow> s \<noteq> [] \<and> CHR ''-'' \<notin> set s \<and> CHR '':'' \<notin> set s"

lemma no_colon_behind:
  "CHR '':'' \<notin> set (drop (Suc d) s) \<Longrightarrow> d < j \<Longrightarrow> text_char s j \<noteq> CHR '':''"
proof (cases "j < length s")
  case True
  assume no: "CHR '':'' \<notin> set (drop (Suc d) s)" and "d < j"
  then have "s ! j = drop (Suc d) s ! (j - Suc d)" "j - Suc d < length (drop (Suc d) s)" using True by simp_all
  then have "s ! j \<in> set (drop (Suc d) s)" by (metis nth_mem)
  then show ?thesis using no True by (auto simp: text_char_def)
qed (simp add: text_char_def)

lemma strip_full_name:
  assumes "plain_part v" "plain_part r" "plain_part a" "s = full_name n zero_epoch v r a"
  shows "strip_epoch s (length n) 1 = Some (length n + (if zero_epoch then 2 else 0))"
proof (cases zero_epoch)
  case True
  have "CHR '':'' \<notin> set (drop (Suc (length n + 2)) s)" using assms True by (simp add: full_name_def plain_part_def)
  then have "strip_epoch s (length n + 2) 2 = Some (length n + 2)"
    using assms True by (intro strip_nothing no_colon_behind) (auto simp: full_name_def plain_part_def Suc_le_eq)
  moreover have "strip_epoch s (length n) 1 = strip_epoch s (length (n @ ''-'') + 1) (1 + 1)"
    using assms True by (intro strip_zeros [of _ _ _ "v @ CHR ''-'' # r @ CHR ''.'' # a"]) (simp_all add: full_name_def)
  ultimately show ?thesis using True by (simp add: numeral_2_eq_2)
next
  case False
  have "CHR '':'' \<notin> set (drop (Suc (length n)) s)" using assms False by (simp add: full_name_def plain_part_def)
  then have "strip_epoch s (length n) 1 = Some (length n)"
    using assms False by (intro strip_nothing no_colon_behind) (auto simp: full_name_def)
  then show ?thesis using False by simp
qed

lemma parse_full_name:
  assumes "n \<noteq> []" "plain_part v" "plain_part r" "plain_part a" "CHR ''.'' \<notin> set a"
  shows "nevra_id_parse pool (full_name n zero_epoch v r a) True =
    Inr (if str2id pool n \<noteq> 0 \<and> str2id pool (v @ ''-'' @ r) \<noteq> 0 \<and> str2id pool a \<noteq> 0
      then Some \<lparr>ni_name = str2id pool n, ni_arch = str2id pool a, ni_evr = str2id pool (v @ ''-'' @ r), ni_evr_str = []\<rparr>
      else None)"
proof -
  define z where "z = (if zero_epoch then ''0:'' else [])"
  define s where "s = full_name n zero_epoch v r a"
  have s: "s = n @ CHR ''-'' # (z @ v) @ CHR ''-'' # r @ CHR ''.'' # a" by (simp add: s_def full_name_def z_def)
  have zlen: "length z = (if zero_epoch then 2 else 0)" and zdash: "CHR ''-'' \<notin> set z" by (simp_all add: z_def)
  have scan: "scan_delims s 0 None None None =
      (Some (length n), Some (length n + 1 + length (z @ v)), Some (length n + 2 + length (z @ v) + length r))"
    unfolding s using assms zdash by (intro scan_nevra) (auto simp: plain_part_def)
  have strip: "strip_epoch s (length n) 1 = Some (length n + length z)"
    using strip_full_name [OF assms(2-4) s_def] by (simp add: zlen)
  have a: "drop (Suc (length n + 2 + length (z @ v) + length r)) s = a"
  proof -
    define w where "w = n @ CHR ''-'' # (z @ v) @ CHR ''-'' # r @ ''.''"
    have "s = w @ a" "Suc (length n + 2 + length (z @ v) + length r) = length w" by (simp_all add: s w_def)
    then show ?thesis by simp
  qed
  have texts: "take (length n) s = n"
    "take (length n + 2 + length (z @ v) + length r - Suc (length n + length z)) (drop (Suc (length n + length z)) s) = v @ ''-'' @ r"
    by (simp_all add: s)
  have lens: "length s = length n + 3 + length z + length v + length r + length a" by (simp add: s)
  have pos: "0 < length n" "0 < length v" "0 < length r" "0 < length a" using assms by (simp_all add: plain_part_def)
  show ?thesis
    unfolding s_def [symmetric] nevra_id_parse_def scan
    using pos lens by (simp add: strip [simplified] texts [simplified] a [simplified] Let_def)
qed

lemma exact_operator:
  "without_not (negated neg CMP_EQ) = CMP_EQ" "cmp_has (negated neg CMP_EQ) CMP_NOT = neg" "\<not> cmp_has CMP_EQ CMP_GLOB"
  using order_operators [of CMP_EQ] by auto

text \<open>The filter by full name keeps exactly the packages of the query whose name, version with release and
  architecture are those of the text, whether a zero epoch is written or not; with the negated operator the
  others.
\<close>

theorem ifilter_nevra_exact_name:
  assumes "pool_ok pool" "set q \<subseteq> set (get_solvables pool)"
    and "n \<noteq> []" "plain_part v" "plain_part r" "plain_part a" "CHR ''.'' \<notin> set a"
  shows "ifilter_nevra_text pool (negated neg CMP_EQ) [full_name n zero_epoch v r a] q =
    Inr (filter (\<lambda>p. (pkg_name pool p = n \<and> pkg_evr pool p = v @ ''-'' @ r \<and> pkg_arch pool p = a) \<noteq> neg) q)"
proof -
  define known where "known \<longleftrightarrow> str2id pool n \<noteq> 0 \<and> str2id pool (v @ ''-'' @ r) \<noteq> 0 \<and> str2id pool a \<noteq> 0"
  define i where "i = \<lparr>ni_name = str2id pool n, ni_arch = str2id pool a, ni_evr = str2id pool (v @ ''-'' @ r), ni_evr_str = []\<rparr>"
  define rs where "rs = (if known then run_from (nevra_compare_lower_id pool i)
      (\<lambda>p. so_name pool p = ni_name i \<and> so_arch pool p = ni_arch i \<and> so_evr pool p = ni_evr i) (get_sorted_solvables pool) else [])"
  have "filter_nevra_exact pool (full_name n zero_epoch v r a) = Inr rs"
    unfolding filter_nevra_exact_def parse_full_name [OF assms(3-7)] i_def [symmetric] known_def [symmetric]
    by (simp add: rs_def)
  then have f: "each_pattern (filter_nevra_text pool q False CMP_EQ) [full_name n zero_epoch v r a] = Inr rs"
    by (simp add: filter_nevra_text_def remove_glob_when_unneeded_def)
  have "p \<in> set rs \<longleftrightarrow> pkg_name pool p = n \<and> pkg_evr pool p = v @ ''-'' @ r \<and> pkg_arch pool p = a" if "p \<in> set q" for p
  proof -
    have p: "p \<in> set (get_solvables pool)" using that assms(2) by auto
    show ?thesis
      unfolding pkg_name_iff [OF assms(1) p] pkg_evr_iff [OF assms(1) p] pkg_arch_iff [OF assms(1) p] rs_def
      using p nevra_run_set [of pool i] by (cases known) (auto simp: known_def i_def)
  qed
  then have "apply_filter neg q rs =
      filter (\<lambda>p. (pkg_name pool p = n \<and> pkg_evr pool p = v @ ''-'' @ r \<and> pkg_arch pool p = a) \<noteq> neg) q"
    by (intro apply_filter_members) blast
  then show ?thesis unfolding ifilter_nevra_text_def Let_def exact_operator using f exact_operator(3) by simp
qed

theorem ifilter_nevra_exact_name_witness:
  "ifilter_nevra_text sample_pool (negated False CMP_EQ) [''foo-0:1-1.src''] [2, 3, 4] = Inr [3]"
proof -
  have "ifilter_nevra_text sample_pool (negated False CMP_EQ) [full_name ''foo'' True ''1'' ''1'' ''src''] [2, 3, 4] =
      Inr (filter (\<lambda>p. (pkg_name sample_pool p = ''foo'' \<and> pkg_evr sample_pool p = ''1'' @ ''-'' @ ''1'' \<and>
        pkg_arch sample_pool p = ''src'') \<noteq> False) [2, 3, 4])"
    by (rule ifilter_nevra_exact_name [OF sample_pool_ok]) (simp_all add: sample_solvables plain_part_def)
  then show ?thesis by (simp add: full_name_def sample_parts)
qed

text \<open>When more zeros are written before the colon of the epoch than characters follow it, the removal of the
  zero epoch looks behind the end of the text.
\<close>

theorem many_zeros_read_past_end:
  assumes "n \<noteq> []" "CHR ''-'' \<notin> set x" "CHR ''-'' \<notin> set y" "length (x @ ''-'' @ y) < k"
  shows "nevra_id_parse pool (n @ ''-'' @ replicate k CHR ''0'' @ '':'' @ x @ ''-'' @ y) create = Inl OutOfBounds"
proof -
  define s where "s = n @ ''-'' @ replicate k CHR ''0'' @ '':'' @ x @ ''-'' @ y"
  have "\<exists>a. scan_delims (n @ CHR ''-'' # (replicate k CHR ''0'' @ '':'' @ x) @ CHR ''-'' # y) 0 None None None =
      (Some (length n), Some (length n + 1 + length (replicate k CHR ''0'' @ '':'' @ x)), a)"
    using assms by (intro scan_dashes) auto
  then obtain a where scan: "scan_delims s 0 None None None =
      (Some (length n), Some (length n + 1 + length (replicate k CHR ''0'' @ '':'' @ x)), a)"
    by (auto simp: s_def)
  have "strip_epoch s (length n) 1 = strip_epoch s (length (n @ ''-'') + k) (1 + k)"
    using assms by (intro strip_zeros [of _ _ _ "x @ ''-'' @ y"]) (simp_all add: s_def)
  also have "\<dots> = None" using assms by (intro strip_past_end) (simp add: s_def)
  finally have "strip_epoch s (length n) 1 = None" .
  then show ?thesis unfolding s_def [symmetric] using assms(1) by (simp add: nevra_id_parse_def scan)
qed

theorem many_zeros_read_past_end_witness:
  "nevra_id_parse sample_pool ''bash-000000:5-1.x'' True = Inl OutOfBounds"
  using many_zeros_read_past_end [of "''bash''" "''5''" "''1.x''" 6 sample_pool True] by (simp add: numeral_eq_Suc)

text \<open>A specification without special characters that no form finds is looked up as a full name among all
  packages; there source packages are found although they are not wanted.
\<close>

theorem source_package_found_by_full_name:
  assumes "pool_ok pool" "set q \<subseteq> set (get_solvables pool)" "\<not> glob_pattern spec"
    and "resolve_forms pool q spec CMP_GLOB False PKG_SPEC_FORMS empty_nevra = Inr None"
    and "nevra_id_parse pool spec True = Inr (Some i)" "p \<in> set q" "so_arch pool p = str2id pool ''src''"
    and "so_name pool p = ni_name i" "so_arch pool p = ni_arch i" "so_evr pool p = ni_evr i"
  shows "\<exists>res. resolve_pkg_spec pool spec False True with_provides with_filenames False [] q = Inr (True, empty_nevra, res) \<and>
    p \<in> set res \<and> pkg_arch pool p = ''src''"
proof -
  have p: "p \<in> set (get_solvables pool)" using assms(2,6) by auto
  have "known_id pool (so_arch pool p)" using pool_ok_ids [OF assms(1) p] by simp
  then have src: "pkg_arch pool p = ''src''" using pkg_arch_iff [OF assms(1) p] assms(7) by (auto simp: known_id_def)
  define rs where "rs = run_from (nevra_compare_lower_id pool i)
      (\<lambda>p. so_name pool p = ni_name i \<and> so_arch pool p = ni_arch i \<and> so_evr pool p = ni_evr i) (get_sorted_solvables pool)"
  have "cmp_or (cmp_minus CMP_GLOB CMP_GLOB) CMP_EQ = CMP_EQ" by (simp add: cmp_numbers cmp_or_def cmp_minus_def)
  then have "filter_nevra_text pool q True CMP_GLOB spec = Inr rs"
    using assms(3,5) by (simp add: filter_nevra_text_def remove_glob_when_unneeded_def filter_nevra_exact_def rs_def)
  moreover have found: "p \<in> set (ids_and q rs)" using nevra_run_set [of pool i] p assms(6-10) by (simp add: rs_def ids_and_def)
  moreover have "ids_and q rs \<noteq> []" using found by auto
  ultimately have "resolve_pkg_spec pool spec False True with_provides with_filenames False [] q = Inr (True, empty_nevra, ids_and q rs)"
    by (simp add: resolve_pkg_spec_def resolve_nevra_def assms(4) Let_def)
  then show ?thesis using found src by blast
qed

theorem source_package_found_by_full_name_witness:
  "\<exists>res. resolve_pkg_spec sample_pool ''foo-1-1.src'' False True True True False [] [2, 3, 4] = Inr (True, empty_nevra, res) \<and>
    3 \<in> set res \<and> pkg_arch sample_pool 3 = ''src''"
proof (rule source_package_found_by_full_name [OF sample_pool_ok, where i = "\<lparr>ni_name = 1, ni_arch = 4, ni_evr = 5, ni_evr_str = []\<rparr>"])
  show "resolve_forms sample_pool [2, 3, 4] ''foo-1-1.src'' CMP_GLOB False PKG_SPEC_FORMS empty_nevra = Inr None"
    by code_simp
  show "nevra_id_parse sample_pool ''foo-1-1.src'' True = Inr (Some \<lparr>ni_name = 1, ni_arch = 4, ni_evr = 5, ni_evr_str = []\<rparr>)"
    by code_simp
  show "\<not> glob_pattern ''foo-1-1.src''" by code_simp
qed (simp_all add: sample_solvables sample_ids)

end
