(* ===== verification/Dnf4Query.thy ===== *)
theory Dnf4Query
  imports SolvPool
begin

text \<open>
  The queries of dnf 4: \<open>dnf-4/libdnf/sack/query.cpp\<close> and, from \<open>hy-iutil.cpp\<close>, which installed package a
  package upgrades or downgrades. A query collects filters and applies them when its result is asked for.
  The filters by name, version, architecture, source package, repository and data and those by dependencies
  are declared but not defined in the sources: they are the function \<open>outer_filter\<close> of the record.
\<close>

section \<open>Keys and operators\<close>

datatype hy_key =
    HY_PKG | HY_PKG_ALL | HY_PKG_ARCH | HY_PKG_CONFLICTS | HY_PKG_DESCRIPTION | HY_PKG_EPOCH | HY_PKG_EVR
  | HY_PKG_FILE | HY_PKG_NAME | HY_PKG_NEVRA | HY_PKG_OBSOLETES | HY_PKG_PROVIDES | HY_PKG_RELEASE
  | HY_PKG_REPONAME | HY_PKG_REQUIRES | HY_PKG_SOURCERPM | HY_PKG_SUMMARY | HY_PKG_URL | HY_PKG_VERSION
  | HY_PKG_LOCATION | HY_PKG_ENHANCES | HY_PKG_RECOMMENDS | HY_PKG_SUGGESTS | HY_PKG_SUPPLEMENTS
  | HY_PKG_ADVISORY | HY_PKG_ADVISORY_BUG | HY_PKG_ADVISORY_CVE | HY_PKG_ADVISORY_SEVERITY
  | HY_PKG_ADVISORY_TYPE | HY_PKG_DOWNGRADABLE | HY_PKG_DOWNGRADES | HY_PKG_EMPTY | HY_PKG_LATEST_PER_ARCH
  | HY_PKG_LATEST | HY_PKG_UPGRADABLE | HY_PKG_UPGRADES | HY_PKG_NEVRA_STRICT | HY_PKG_UPGRADES_BY_PRIORITY
  | HY_PKG_OBSOLETES_BY_PRIORITY

type_synonym hy_cmp = "32 word"

definition HY_ICASE :: hy_cmp where "HY_ICASE = push_bit 0 1"
definition HY_NOT :: hy_cmp where "HY_NOT = push_bit 1 1"
definition HY_EQ :: hy_cmp where "HY_EQ = push_bit 8 1"
definition HY_LT :: hy_cmp where "HY_LT = push_bit 9 1"
definition HY_GT :: hy_cmp where "HY_GT = push_bit 10 1"
definition HY_SUBSTR :: hy_cmp where "HY_SUBSTR = push_bit 11 1"
definition HY_GLOB :: hy_cmp where "HY_GLOB = push_bit 12 1"
definition HY_NEQ :: hy_cmp where "HY_NEQ = HY_EQ OR HY_NOT"

lemmas hy_defs = HY_ICASE_def HY_NOT_def HY_EQ_def HY_LT_def HY_GT_def HY_SUBSTR_def HY_GLOB_def HY_NEQ_def

definition hy_has :: "hy_cmp \<Rightarrow> hy_cmp \<Rightarrow> bool" where "hy_has c flag \<longleftrightarrow> c AND flag \<noteq> 0"

definition match_type_num :: "hy_key \<Rightarrow> bool" where
  "match_type_num k \<longleftrightarrow> k \<in> {HY_PKG_EMPTY, HY_PKG_EPOCH, HY_PKG_LATEST, HY_PKG_LATEST_PER_ARCH, HY_PKG_UPGRADABLE,
     HY_PKG_UPGRADES, HY_PKG_UPGRADES_BY_PRIORITY, HY_PKG_DOWNGRADABLE, HY_PKG_DOWNGRADES}"

definition match_type_pkg :: "hy_key \<Rightarrow> bool" where
  "match_type_pkg k \<longleftrightarrow> k \<in> {HY_PKG, HY_PKG_OBSOLETES, HY_PKG_OBSOLETES_BY_PRIORITY}"

definition match_type_reldep :: "hy_key \<Rightarrow> bool" where
  "match_type_reldep k \<longleftrightarrow> k \<in> {HY_PKG_CONFLICTS, HY_PKG_ENHANCES, HY_PKG_OBSOLETES, HY_PKG_PROVIDES, HY_PKG_RECOMMENDS,
     HY_PKG_REQUIRES, HY_PKG_SUGGESTS, HY_PKG_SUPPLEMENTS}"

definition match_type_str :: "hy_key \<Rightarrow> bool" where
  "match_type_str k \<longleftrightarrow> k \<in> {HY_PKG_ADVISORY, HY_PKG_ADVISORY_BUG, HY_PKG_ADVISORY_CVE, HY_PKG_ADVISORY_SEVERITY,
     HY_PKG_ADVISORY_TYPE, HY_PKG_ARCH, HY_PKG_DESCRIPTION, HY_PKG_ENHANCES, HY_PKG_EVR, HY_PKG_FILE, HY_PKG_LOCATION,
     HY_PKG_NAME, HY_PKG_NEVRA, HY_PKG_NEVRA_STRICT, HY_PKG_PROVIDES, HY_PKG_RECOMMENDS, HY_PKG_RELEASE,
     HY_PKG_REPONAME, HY_PKG_REQUIRES, HY_PKG_SOURCERPM, HY_PKG_SUGGESTS, HY_PKG_SUMMARY, HY_PKG_SUPPLEMENTS,
     HY_PKG_OBSOLETES, HY_PKG_CONFLICTS, HY_PKG_URL, HY_PKG_VERSION}"

definition valid_filter_str :: "hy_key \<Rightarrow> hy_cmp \<Rightarrow> bool" where
  "valid_filter_str k c \<longleftrightarrow>
     (if \<not> match_type_str k then False
      else let c = c AND NOT HY_NOT in
        if k \<in> {HY_PKG_LOCATION, HY_PKG_SOURCERPM, HY_PKG_NEVRA_STRICT} then c = HY_EQ
        else if k = HY_PKG_ARCH then hy_has c HY_EQ \<or> hy_has c HY_GLOB
        else if k = HY_PKG_NAME then hy_has c HY_EQ \<or> hy_has c HY_GLOB \<or> hy_has c HY_SUBSTR
        else True)"

definition valid_filter_num :: "hy_key \<Rightarrow> hy_cmp \<Rightarrow> bool" where
  "valid_filter_num k c \<longleftrightarrow>
     (if \<not> match_type_num k then False
      else let c = c AND NOT HY_NOT in
        if hy_has c (HY_ICASE OR HY_SUBSTR OR HY_GLOB) then False
        else if k = HY_PKG then c = HY_EQ
        else True)"

definition valid_filter_pkg :: "hy_key \<Rightarrow> hy_cmp \<Rightarrow> bool" where
  "valid_filter_pkg k c \<longleftrightarrow>
     (if \<not> match_type_pkg k \<and> \<not> match_type_reldep k then False else c = HY_EQ \<or> c = HY_NEQ)"

definition valid_filter_reldep :: "hy_key \<Rightarrow> bool" where
  "valid_filter_reldep k \<longleftrightarrow> match_type_reldep k"

section \<open>Filters and queries\<close>

datatype match_type = HY_NUM | HY_STR | HY_PACKAGES | HY_RELDEP

datatype hy_match = MNum int | MStr string | MPkgs "nat list" | MReldep nat

record hy_filter =
  f_key :: hy_key
  f_cmp :: hy_cmp
  f_type :: match_type
  f_matches :: "hy_match list"

record hy_query =
  q_applied :: bool
  q_flags :: nat
  q_result :: "nat list option"
  q_filters :: "hy_filter list"

datatype hy_error = BadQuery

text \<open>An advisory as the pool holds it: its name with the prefix, its references and the packages it updates.\<close>

record advisory_pkg =
  ap_name :: nat
  ap_arch :: nat
  ap_evr :: nat

record advisory =
  ad_name :: string
  ad_category :: "string option"
  ad_severity :: "string option"
  ad_references :: "(string \<times> string) list"
  ad_modules :: "(string \<times> string) list"
  ad_packages :: "advisory_pkg list"

record hy_env =
  hp :: pool
  installed :: "nat option"
  repo_priority :: "nat \<Rightarrow> int"
  ARCH_NOARCH :: nat
  considered :: "nat \<Rightarrow> nat list option"
  build_time :: "nat \<Rightarrow> nat"
  advisories :: "advisory list"
  enabled_stream :: "(string \<Rightarrow> string \<Rightarrow> bool) option"
  outer_filter :: "hy_filter \<Rightarrow> nat list \<Rightarrow> nat list"
  nevra_strict :: "hy_cmp \<Rightarrow> string list \<Rightarrow> nat list \<Rightarrow> nat list"

definition query_create :: "nat \<Rightarrow> hy_query" where
  "query_create flags = \<lparr>q_applied = False, q_flags = flags, q_result = None, q_filters = []\<rparr>"

definition query_clear :: "hy_query \<Rightarrow> hy_query" where
  "query_clear q = q\<lparr>q_applied := False, q_result := None, q_filters := []\<rparr>"

text \<open>A file name loses a slash at its end.\<close>

definition copy_filter_char :: "string \<Rightarrow> hy_key \<Rightarrow> string" where
  "copy_filter_char s k =
     (if k = HY_PKG_FILE \<and> length s > 1 \<and> s ! (length s - 1) = CHR ''/'' then take (length s - 1) s else s)"

definition push_filter :: "hy_filter \<Rightarrow> hy_query \<Rightarrow> hy_query" where
  "push_filter f q = q\<lparr>q_filters := q_filters q @ [f]\<rparr>"

definition unapplied :: "hy_query \<Rightarrow> hy_query" where "unapplied q = q\<lparr>q_applied := False\<rparr>"

definition add_filter_num :: "hy_key \<Rightarrow> hy_cmp \<Rightarrow> int \<Rightarrow> hy_query \<Rightarrow> hy_error + hy_query" where
  "add_filter_num k c m q =
     (if \<not> valid_filter_num k c then Inl BadQuery
      else Inr (push_filter \<lparr>f_key = k, f_cmp = c, f_type = HY_NUM, f_matches = [MNum m]\<rparr> (unapplied q)))"

definition add_filter_nums :: "hy_key \<Rightarrow> hy_cmp \<Rightarrow> int list \<Rightarrow> hy_query \<Rightarrow> hy_error + hy_query" where
  "add_filter_nums k c ms q =
     (if \<not> valid_filter_num k c then Inl BadQuery
      else Inr (push_filter \<lparr>f_key = k, f_cmp = c, f_type = HY_NUM, f_matches = map MNum ms\<rparr> (unapplied q)))"

definition add_filter_pkgs :: "hy_key \<Rightarrow> hy_cmp \<Rightarrow> nat list \<Rightarrow> hy_query \<Rightarrow> hy_error + hy_query" where
  "add_filter_pkgs k c ps q =
     (if \<not> valid_filter_pkg k c then Inl BadQuery
      else Inr (push_filter \<lparr>f_key = k, f_cmp = c, f_type = HY_PACKAGES, f_matches = [MPkgs ps]\<rparr> (unapplied q)))"

definition add_filter_reldep :: "hy_key \<Rightarrow> nat \<Rightarrow> hy_query \<Rightarrow> hy_error + hy_query" where
  "add_filter_reldep k d q =
     (if \<not> valid_filter_reldep k then Inl BadQuery
      else Inr (push_filter \<lparr>f_key = k, f_cmp = HY_EQ, f_type = HY_RELDEP, f_matches = [MReldep d]\<rparr> (unapplied q)))"

definition empty_filter :: hy_filter where
  "empty_filter = \<lparr>f_key = HY_PKG_EMPTY, f_cmp = HY_EQ, f_type = HY_NUM, f_matches = [MNum 1]\<rparr>"

definition add_filter_reldeps :: "hy_key \<Rightarrow> nat list \<Rightarrow> hy_query \<Rightarrow> hy_error + hy_query" where
  "add_filter_reldeps k ds q =
     (if \<not> valid_filter_reldep k then Inl BadQuery
      else if ds \<noteq> [] then
        Inr (push_filter \<lparr>f_key = k, f_cmp = HY_EQ, f_type = HY_RELDEP, f_matches = map MReldep ds\<rparr> (unapplied q))
      else Inr (push_filter empty_filter (unapplied q)))"

section \<open>Orders of packages\<close>

definition evr_cmp :: "hy_env \<Rightarrow> nat \<Rightarrow> nat \<Rightarrow> int" where
  "evr_cmp e a b = evrcmp (hp e) (id2str (hp e) a) (id2str (hp e) b)"

definition filter_latest_sortcmp :: "hy_env \<Rightarrow> nat \<Rightarrow> nat \<Rightarrow> int" where
  "filter_latest_sortcmp e a b =
     (let r = int (so_name (hp e) a) - int (so_name (hp e) b) in
      if r \<noteq> 0 then r
      else let r = evr_cmp e (so_evr (hp e) b) (so_evr (hp e) a) in
        if r \<noteq> 0 then r else int a - int b)"

definition filter_latest_sortcmp_byarch :: "hy_env \<Rightarrow> nat \<Rightarrow> nat \<Rightarrow> int" where
  "filter_latest_sortcmp_byarch e a b =
     (let r = int (so_name (hp e) a) - int (so_name (hp e) b) in
      if r \<noteq> 0 then r
      else let r = int (so_arch (hp e) a) - int (so_arch (hp e) b) in
        if r \<noteq> 0 then r
        else let r = evr_cmp e (so_evr (hp e) b) (so_evr (hp e) a) in
          if r \<noteq> 0 then r else int a - int b)"

text \<open>\<open>solv_sort\<close> with a comparison, which is a total order where it is used.\<close>

primrec insert_cmp :: "('a \<Rightarrow> 'a \<Rightarrow> int) \<Rightarrow> 'a \<Rightarrow> 'a list \<Rightarrow> 'a list" where
  "insert_cmp cmp x [] = [x]"
| "insert_cmp cmp x (y # ys) = (if cmp x y \<le> 0 then x # y # ys else y # insert_cmp cmp x ys)"

definition solv_sort :: "('a \<Rightarrow> 'a \<Rightarrow> int) \<Rightarrow> 'a list \<Rightarrow> 'a list" where
  "solv_sort cmp xs = foldr (insert_cmp cmp) xs []"

definition NameArchSolvableComparator :: "hy_env \<Rightarrow> nat \<Rightarrow> nat \<Rightarrow> bool" where
  "NameArchSolvableComparator e a b \<longleftrightarrow>
     (if so_name (hp e) a \<noteq> so_name (hp e) b then so_name (hp e) a < so_name (hp e) b
      else so_arch (hp e) a < so_arch (hp e) b)"

definition priority_of :: "hy_env \<Rightarrow> nat \<Rightarrow> int" where
  "priority_of e p = (case so_repo (hp e) p of None \<Rightarrow> 0 | Some r \<Rightarrow> repo_priority e r)"

definition NamePrioritySolvableKey :: "hy_env \<Rightarrow> nat \<Rightarrow> nat \<Rightarrow> bool" where
  "NamePrioritySolvableKey e a b \<longleftrightarrow>
     (if so_name (hp e) a \<noteq> so_name (hp e) b then so_name (hp e) a < so_name (hp e) b
      else priority_of e a > priority_of e b)"

definition sort_less :: "('a \<Rightarrow> 'a \<Rightarrow> bool) \<Rightarrow> 'a list \<Rightarrow> 'a list" where
  "sort_less lower xs = solv_sort (\<lambda>a b. if lower b a then 1 else 0) xs"

definition is_installed :: "hy_env \<Rightarrow> nat \<Rightarrow> bool" where
  "is_installed e p \<longleftrightarrow> installed e \<noteq> None \<and> so_repo (hp e) p = installed e"

section \<open>Upgrades and downgrades\<close>

text \<open>
  The loops over the providers of the name of a package: the best package so far, or 0, and 0 as soon as an
  installed package rules the change out.
\<close>

fun upgrades_loop :: "hy_env \<Rightarrow> nat \<Rightarrow> nat list \<Rightarrow> nat \<Rightarrow> nat" where
  "upgrades_loop e s [] l = l"
| "upgrades_loop e s (p # ps) l =
     (if \<not> is_installed e p \<or> so_name (hp e) p \<noteq> so_name (hp e) s then upgrades_loop e s ps l
      else if so_arch (hp e) p \<noteq> so_arch (hp e) s \<and> so_arch (hp e) p \<noteq> ARCH_NOARCH e \<and> so_arch (hp e) s \<noteq> ARCH_NOARCH e
        then upgrades_loop e s ps l
      else if evr_cmp e (so_evr (hp e) p) (so_evr (hp e) s) \<ge> 0 then 0
      else if l = 0 \<or> evr_cmp e (so_evr (hp e) p) (so_evr (hp e) l) > 0 then upgrades_loop e s ps p
      else upgrades_loop e s ps l)"

definition what_upgrades :: "hy_env \<Rightarrow> nat \<Rightarrow> nat" where
  "what_upgrades e s = upgrades_loop e s (provides_of (hp e) (so_name (hp e) s)) 0"

fun downgrades_loop :: "hy_env \<Rightarrow> nat \<Rightarrow> nat list \<Rightarrow> nat \<Rightarrow> nat" where
  "downgrades_loop e s [] l = l"
| "downgrades_loop e s (p # ps) l =
     (if \<not> is_installed e p \<or> so_name (hp e) p \<noteq> so_name (hp e) s \<or> so_arch (hp e) p \<noteq> so_arch (hp e) s
        then downgrades_loop e s ps l
      else if evr_cmp e (so_evr (hp e) p) (so_evr (hp e) s) \<le> 0 then 0
      else if l = 0 \<or> evr_cmp e (so_evr (hp e) p) (so_evr (hp e) l) < 0 then downgrades_loop e s ps p
      else downgrades_loop e s ps l)"

definition what_downgrades :: "hy_env \<Rightarrow> nat \<Rightarrow> nat" where
  "what_downgrades e s = downgrades_loop e s (provides_of (hp e) (so_name (hp e) s)) 0"

section \<open>The filters\<close>

text \<open>
  The members of a block of packages of one name whose version is among the first \<open>latest\<close> ones, or, for a
  negative number, among the others. Versions are counted by their ids.
\<close>

fun add_latest :: "hy_env \<Rightarrow> int \<Rightarrow> nat list \<Rightarrow> nat \<Rightarrow> int \<Rightarrow> nat list" where
  "add_latest e latest [] prev n = []"
| "add_latest e latest (p # ps) prev n =
     (let evr = so_evr (hp e) p; n = (if prev \<noteq> evr then n + 1 else n) in
      if latest > 0 then (if \<not> n < latest then [] else p # add_latest e latest ps evr n)
      else if n < - latest then add_latest e latest ps evr n
      else p # add_latest e latest ps evr n)"

definition add_latest_to_map :: "hy_env \<Rightarrow> int \<Rightarrow> nat list \<Rightarrow> nat list" where
  "add_latest_to_map e latest block = (case block of [] \<Rightarrow> [] | p # ps \<Rightarrow> add_latest e latest block (so_evr (hp e) p) 0)"

text \<open>A block is a package with those that follow it as long as they are of the same kind.\<close>

function split_blocks :: "('a \<Rightarrow> 'a \<Rightarrow> bool) \<Rightarrow> 'a list \<Rightarrow> 'a list list" where
  "split_blocks same [] = []"
| "split_blocks same (x # xs) = (x # takeWhile (same x) xs) # split_blocks same (dropWhile (same x) xs)"
  by pat_completeness auto

termination split_blocks
  by (relation "measure (\<lambda>(same, xs). length xs)") (auto simp: less_Suc_eq_le length_dropWhile_le)

definition same_block :: "hy_env \<Rightarrow> hy_key \<Rightarrow> nat \<Rightarrow> nat \<Rightarrow> bool" where
  "same_block e k a b \<longleftrightarrow>
     so_name (hp e) a = so_name (hp e) b \<and> (k = HY_PKG_LATEST_PER_ARCH \<longrightarrow> so_arch (hp e) a = so_arch (hp e) b)"

definition num_of :: "hy_match \<Rightarrow> int" where "num_of m = (case m of MNum n \<Rightarrow> n | _ \<Rightarrow> 0)"

definition filter_latest :: "hy_env \<Rightarrow> hy_filter \<Rightarrow> nat list \<Rightarrow> nat list" where
  "filter_latest e f result =
     concat (map (\<lambda>m.
       let latest = num_of m in
       if latest = 0 then []
       else let samename = solv_sort (if f_key f = HY_PKG_LATEST_PER_ARCH then filter_latest_sortcmp_byarch e
                  else filter_latest_sortcmp e) result
         in concat (map (add_latest_to_map e latest) (split_blocks (same_block e (f_key f)) samename))) (f_matches f))"

definition filter_updown :: "hy_env \<Rightarrow> hy_filter \<Rightarrow> nat list \<Rightarrow> nat list" where
  "filter_updown e f result =
     (if installed e = None then []
      else concat (map (\<lambda>m.
        if num_of m = 0 then []
        else filter (\<lambda>p. \<not> is_installed e p \<and>
          (if f_key f = HY_PKG_DOWNGRADES then what_downgrades e p > 0 else what_upgrades e p > 0)) result) (f_matches f)))"

text \<open>The candidates of the highest priority of their name, in the order of name and priority.\<close>

fun by_priority :: "hy_env \<Rightarrow> nat list \<Rightarrow> nat \<Rightarrow> int \<Rightarrow> nat list" where
  "by_priority e [] name priority = []"
| "by_priority e (p # ps) name priority =
     (if name \<noteq> so_name (hp e) p then p # by_priority e ps (so_name (hp e) p) (priority_of e p)
      else if priority = priority_of e p then p # by_priority e ps name priority
      else by_priority e ps name priority)"

definition filter_updown_by_priority :: "hy_env \<Rightarrow> hy_filter \<Rightarrow> nat list \<Rightarrow> nat list" where
  "filter_updown_by_priority e f result =
     (if installed e = None then []
      else concat (map (\<lambda>m.
        if num_of m = 0 then []
        else let cands = filter (\<lambda>p. \<not> is_installed e p) result in
          filter (\<lambda>p. what_upgrades e p > 0) (by_priority e (sort_less (NamePrioritySolvableKey e) cands) 0 0)) (f_matches f)))"

definition filter_updown_able :: "hy_env \<Rightarrow> nat \<Rightarrow> hy_filter \<Rightarrow> nat list \<Rightarrow> nat list" where
  "filter_updown_able e flags f result =
     (if installed e = None then []
      else concat (map (\<lambda>m.
        if num_of m = 0 then []
        else filter (\<lambda>w. w \<noteq> 0 \<and> w \<in> set result)
          (map (\<lambda>p. if f_key f = HY_PKG_DOWNGRADABLE then what_downgrades e p else what_upgrades e p)
            (filter (\<lambda>p. (case considered e flags of None \<Rightarrow> True | Some c \<Rightarrow> p \<in> set c) \<and> \<not> is_installed e p)
              (get_solvables (hp e))))) (f_matches f)))"

definition filter_pkg :: "hy_filter \<Rightarrow> nat list" where
  "filter_pkg f = (case f_matches f of MPkgs ps # _ \<Rightarrow> ps | _ \<Rightarrow> [])"

definition str_of :: "hy_match \<Rightarrow> string" where "str_of m = (case m of MStr s \<Rightarrow> s | _ \<Rightarrow> [])"

definition filter_location :: "hy_env \<Rightarrow> hy_filter \<Rightarrow> nat list \<Rightarrow> nat list" where
  "filter_location e f result =
     concat (map (\<lambda>m. filter (\<lambda>p. location (hp e) p = Some (str_of m)) result) (f_matches f))"

definition obsoletes_target :: "hy_env \<Rightarrow> nat list \<Rightarrow> nat \<Rightarrow> bool" where
  "obsoletes_target e target p \<longleftrightarrow>
     so_repo (hp e) p \<noteq> None \<and>
     list_ex (\<lambda>i. list_ex (\<lambda>r. r \<in> set target \<and> (obsoletes_use_provides (hp e) \<or> match_nevr (hp e) r i))
       (provides_of (hp e) i)) (takeWhile (\<lambda>i. i \<noteq> 0) (id_array (hp e) p SOLVABLE_OBSOLETES))"

fun obsoletes_candidates :: "hy_env \<Rightarrow> nat list \<Rightarrow> nat \<Rightarrow> int \<Rightarrow> nat list" where
  "obsoletes_candidates e [] name priority = []"
| "obsoletes_candidates e (p # ps) name priority =
     (if is_installed e p then [p] else []) @
     (if name \<noteq> so_name (hp e) p then p # obsoletes_candidates e ps (so_name (hp e) p) (priority_of e p)
      else if priority = priority_of e p then p # obsoletes_candidates e ps name priority
      else obsoletes_candidates e ps name priority)"

definition filter_obsoletes_by_priority :: "hy_env \<Rightarrow> hy_filter \<Rightarrow> nat list \<Rightarrow> nat list" where
  "filter_obsoletes_by_priority e f result =
     filter (obsoletes_target e (filter_pkg f))
       (obsoletes_candidates e (sort_less (NamePrioritySolvableKey e) result) 0 0)"

end
