(* ===== verification/Dnf4QueryRun.thy ===== *)
theory Dnf4QueryRun
  imports Dnf4Query
begin

text \<open>
  Applying the filters of a query, and its other operations (\<open>dnf-4/libdnf/sack/query.cpp\<close>), with the
  advisories they read (\<open>sack/advisory.cpp\<close>, \<open>sack/advisorypkg.cpp\<close>, \<open>utils/utils.cpp\<close>).
\<close>

section \<open>Advisories\<close>

datatype advisory_kind = KIND_UNKNOWN | KIND_SECURITY | KIND_BUGFIX | KIND_ENHANCEMENT | KIND_NEWPACKAGE

definition str2dnf_advisory_kind :: "string option \<Rightarrow> advisory_kind" where
  "str2dnf_advisory_kind t =
     (case t of
        None \<Rightarrow> KIND_UNKNOWN
      | Some s \<Rightarrow>
          if s = ''bugfix'' then KIND_BUGFIX
          else if s = ''enhancement'' then KIND_ENHANCEMENT
          else if s = ''security'' then KIND_SECURITY
          else if s = ''newpackage'' then KIND_NEWPACKAGE
          else KIND_UNKNOWN)"

definition get_kind :: "advisory \<Rightarrow> advisory_kind" where "get_kind a = str2dnf_advisory_kind (ad_category a)"

definition advisory_name :: "advisory \<Rightarrow> string" where "advisory_name a = drop 6 (ad_name a)"

definition match_bug_or_cve :: "advisory \<Rightarrow> string \<Rightarrow> bool \<Rightarrow> bool" where
  "match_bug_or_cve a what bug =
     list_ex (\<lambda>(t, i). t = (if bug then ''bugzilla'' else ''cve'') \<and> i = what) (ad_references a)"

definition match_kind :: "advisory \<Rightarrow> string \<Rightarrow> bool" where "match_kind a kind \<longleftrightarrow> ad_category a = Some kind"

definition match_name :: "advisory \<Rightarrow> string \<Rightarrow> bool" where "match_name a name \<longleftrightarrow> advisory_name a = name"

definition match_severity :: "advisory \<Rightarrow> string \<Rightarrow> bool" where "match_severity a s \<longleftrightarrow> ad_severity a = Some s"

definition is_advisory_applicable :: "hy_env \<Rightarrow> advisory \<Rightarrow> bool" where
  "is_advisory_applicable e a =
     (case enabled_stream e of
        None \<Rightarrow> True
      | Some enabled \<Rightarrow> ad_modules a = [] \<or> list_ex (\<lambda>(name, stream). enabled name stream) (ad_modules a))"

definition advisory_matches :: "hy_key \<Rightarrow> advisory \<Rightarrow> string \<Rightarrow> bool" where
  "advisory_matches k a s =
     (if k = HY_PKG_ADVISORY then match_name a s
      else if k = HY_PKG_ADVISORY_BUG then match_bug_or_cve a s True
      else if k = HY_PKG_ADVISORY_CVE then match_bug_or_cve a s False
      else if k = HY_PKG_ADVISORY_TYPE then match_kind a s
      else if k = HY_PKG_ADVISORY_SEVERITY then match_severity a s
      else False)"

definition advisory_pkg_sort :: "advisory_pkg \<Rightarrow> advisory_pkg \<Rightarrow> bool" where
  "advisory_pkg_sort a b \<longleftrightarrow>
     (if ap_name a \<noteq> ap_name b then ap_name a < ap_name b
      else if ap_arch a \<noteq> ap_arch b then ap_arch a < ap_arch b
      else ap_evr a < ap_evr b)"

definition advisory_below_solvable :: "hy_env \<Rightarrow> nat \<Rightarrow> advisory_pkg \<Rightarrow> bool" where
  "advisory_below_solvable e p a \<longleftrightarrow>
     (if ap_name a \<noteq> so_name (hp e) p then ap_name a < so_name (hp e) p
      else if ap_arch a \<noteq> so_arch (hp e) p then ap_arch a < so_arch (hp e) p
      else ap_evr a < so_evr (hp e) p)"

definition advisory_below_name_arch :: "hy_env \<Rightarrow> nat \<Rightarrow> advisory_pkg \<Rightarrow> bool" where
  "advisory_below_name_arch e p a \<longleftrightarrow>
     (if ap_name a \<noteq> so_name (hp e) p then ap_name a < so_name (hp e) p else ap_arch a < so_arch (hp e) p)"

definition nevra_eq :: "hy_env \<Rightarrow> advisory_pkg \<Rightarrow> nat \<Rightarrow> bool" where
  "nevra_eq e a p \<longleftrightarrow> so_name (hp e) p = ap_name a \<and> so_evr (hp e) p = ap_evr a \<and> so_arch (hp e) p = ap_arch a"

definition cmp_wanted :: "hy_cmp \<Rightarrow> int \<Rightarrow> bool" where
  "cmp_wanted c r \<longleftrightarrow> (r > 0 \<and> hy_has c HY_GT) \<or> (r < 0 \<and> hy_has c HY_LT) \<or> (r = 0 \<and> hy_has c HY_EQ)"

definition same_name_arch :: "hy_env \<Rightarrow> nat \<Rightarrow> advisory_pkg \<Rightarrow> bool" where
  "same_name_arch e p a \<longleftrightarrow> ap_name a = so_name (hp e) p \<and> ap_arch a = so_arch (hp e) p"

definition filter_advisory :: "hy_env \<Rightarrow> hy_filter \<Rightarrow> nat list \<Rightarrow> nat list" where
  "filter_advisory e f result =
     (let wanted = filter (\<lambda>a. list_ex (\<lambda>m. advisory_matches (f_key f) a (str_of m)) (f_matches f) \<and> is_advisory_applicable e a)
            (advisories e);
          pkgs = sort_less advisory_pkg_sort (concat (map ad_packages wanted))
      in filter (\<lambda>p.
        if f_cmp f = HY_EQ then
          (case lower_bound_by (advisory_below_solvable e p) pkgs of [] \<Rightarrow> False | a # _ \<Rightarrow> nevra_eq e a p)
        else
          list_ex (\<lambda>a. cmp_wanted (f_cmp f) (evr_cmp e (so_evr (hp e) p) (ap_evr a)))
            (run_from (advisory_below_name_arch e p) (same_name_arch e p) pkgs)) result)"

definition get_advisory_pkgs :: "hy_env \<Rightarrow> hy_cmp \<Rightarrow> nat list \<Rightarrow> advisory_pkg list" where
  "get_advisory_pkgs e c result =
     (let pkgs = sort_less advisory_pkg_sort (concat (map ad_packages (filter (is_advisory_applicable e) (advisories e))))
      in concat (map (\<lambda>p. filter (\<lambda>a. cmp_wanted c (evr_cmp e (ap_evr a) (so_evr (hp e) p)))
           (run_from (advisory_below_name_arch e p) (same_name_arch e p) pkgs)) result))"

section \<open>Applying\<close>

definition init_result :: "hy_env \<Rightarrow> nat \<Rightarrow> nat list" where
  "init_result e flags =
     (case considered e flags of
        None \<Rightarrow> get_solvables (hp e)
      | Some c \<Rightarrow> filter (\<lambda>p. p \<in> set c) (get_solvables (hp e)))"

definition run_filter :: "hy_env \<Rightarrow> nat \<Rightarrow> hy_filter \<Rightarrow> nat list \<Rightarrow> nat list" where
  "run_filter e flags f result =
     (case f_key f of
        HY_PKG \<Rightarrow> filter_pkg f
      | HY_PKG_ALL \<Rightarrow> []
      | HY_PKG_EMPTY \<Rightarrow> []
      | HY_PKG_OBSOLETES_BY_PRIORITY \<Rightarrow> filter_obsoletes_by_priority e f result
      | HY_PKG_LOCATION \<Rightarrow> filter_location e f result
      | HY_PKG_ADVISORY \<Rightarrow> filter_advisory e f result
      | HY_PKG_ADVISORY_BUG \<Rightarrow> filter_advisory e f result
      | HY_PKG_ADVISORY_CVE \<Rightarrow> filter_advisory e f result
      | HY_PKG_ADVISORY_SEVERITY \<Rightarrow> filter_advisory e f result
      | HY_PKG_ADVISORY_TYPE \<Rightarrow> filter_advisory e f result
      | HY_PKG_LATEST \<Rightarrow> filter_latest e f result
      | HY_PKG_LATEST_PER_ARCH \<Rightarrow> filter_latest e f result
      | HY_PKG_DOWNGRADABLE \<Rightarrow> filter_updown_able e flags f result
      | HY_PKG_UPGRADABLE \<Rightarrow> filter_updown_able e flags f result
      | HY_PKG_DOWNGRADES \<Rightarrow> filter_updown e f result
      | HY_PKG_UPGRADES \<Rightarrow> filter_updown e f result
      | HY_PKG_UPGRADES_BY_PRIORITY \<Rightarrow> filter_updown_by_priority e f result
      | _ \<Rightarrow> outer_filter e f result)"

definition apply_one :: "hy_env \<Rightarrow> nat \<Rightarrow> hy_filter \<Rightarrow> nat list \<Rightarrow> nat list" where
  "apply_one e flags f result =
     (let m = run_filter e flags f result in
      if hy_has (f_cmp f) HY_NOT then filter (\<lambda>p. p \<notin> set m) result else filter (\<lambda>p. p \<in> set m) result)"

definition query_apply :: "hy_env \<Rightarrow> hy_query \<Rightarrow> hy_query" where
  "query_apply e q =
     (if q_applied q then q
      else let result = (case q_result q of None \<Rightarrow> init_result e (q_flags q) | Some r \<Rightarrow> r) in
        q\<lparr>q_result := Some (fold (apply_one e (q_flags q)) (q_filters q) result), q_applied := True, q_filters := []\<rparr>)"

definition result_of :: "hy_query \<Rightarrow> nat list" where
  "result_of q = (case q_result q of None \<Rightarrow> [] | Some r \<Rightarrow> r)"

definition set_result :: "nat list \<Rightarrow> hy_query \<Rightarrow> hy_query" where "set_result r q = q\<lparr>q_result := Some r\<rparr>"

section \<open>Filters by text\<close>

text \<open>\<open>hy_is_glob_pattern\<close>; a dependency is parsed as in \<open>SolvPool\<close>.\<close>

definition hy_is_glob_pattern :: "string \<Rightarrow> bool" where
  "hy_is_glob_pattern s \<longleftrightarrow> find_idx (\<lambda>c. c \<in> set ''*[?'') s \<noteq> None"

definition strict_filter :: "hy_env \<Rightarrow> hy_cmp \<Rightarrow> string list \<Rightarrow> hy_query \<Rightarrow> hy_error + hy_query" where
  "strict_filter e c ms q =
     (if \<not> hy_has c HY_EQ then Inl BadQuery
      else let q = query_apply e q in Inr (set_result (nevra_strict e c ms (result_of q)) q))"

definition add_filter_str :: "hy_env \<Rightarrow> hy_key \<Rightarrow> hy_cmp \<Rightarrow> string \<Rightarrow> hy_query \<Rightarrow> hy_error + hy_query" where
  "add_filter_str e k c s q =
     (if k = HY_PKG_NEVRA_STRICT then strict_filter e c [s] q
      else let c = (if hy_has c HY_GLOB \<and> \<not> hy_is_glob_pattern s then (c AND NOT HY_GLOB) OR HY_EQ else c) in
        if \<not> valid_filter_str k c then Inl BadQuery
        else let q = unapplied q in
          if match_type_reldep k then
            (if c = HY_GLOB then
               (case add_reldep_with_glob (hp e) s [] of
                  (False, _) \<Rightarrow> add_filter_num HY_PKG_EMPTY HY_EQ 1 q
                | (True, rl) \<Rightarrow> add_filter_reldeps k rl q)
             else case get_reldep_id (hp e) s of
                 None \<Rightarrow> add_filter_num HY_PKG_EMPTY HY_EQ 1 q
               | Some d \<Rightarrow> add_filter_reldep k d q)
          else Inr (push_filter \<lparr>f_key = k, f_cmp = c, f_type = HY_STR, f_matches = [MStr (copy_filter_char s k)]\<rparr> q))"

definition add_filter_strs :: "hy_env \<Rightarrow> hy_key \<Rightarrow> hy_cmp \<Rightarrow> string list \<Rightarrow> hy_query \<Rightarrow> hy_error + hy_query" where
  "add_filter_strs e k c ss q =
     (if k = HY_PKG_NEVRA_STRICT then strict_filter e c ss q
      else let c = (if hy_has c HY_GLOB \<and> \<not> list_ex hy_is_glob_pattern ss then (c AND NOT HY_GLOB) OR HY_EQ else c) in
        if \<not> valid_filter_str k c then Inl BadQuery
        else let q = unapplied q in
          if match_type_reldep k then
            add_filter_reldeps k
              (if c = HY_GLOB then fold (\<lambda>s rl. snd (add_reldep_with_glob (hp e) s rl)) ss []
               else fold (\<lambda>s rl. snd (add_reldep (hp e) s rl)) ss []) q
          else Inr (push_filter \<lparr>f_key = k, f_cmp = c, f_type = HY_STR, f_matches = map (\<lambda>s. MStr (copy_filter_char s k)) ss\<rparr> q))"

section \<open>Operations on applied queries\<close>

definition hy_size :: "hy_env \<Rightarrow> hy_query \<Rightarrow> nat \<times> hy_query" where
  "hy_size e q = (let q = query_apply e q in (length (result_of q), q))"

definition hy_empty :: "hy_env \<Rightarrow> hy_query \<Rightarrow> bool \<times> hy_query" where
  "hy_empty e q = (let q = query_apply e q in (result_of q = [], q))"

text \<open>The operators of \<open>PackageSet\<close>, over the ids of the pool in their order.\<close>

definition query_union :: "hy_env \<Rightarrow> hy_query \<Rightarrow> hy_query \<Rightarrow> hy_query \<times> hy_query" where
  "query_union e q other =
     (let q = query_apply e q; other = query_apply e other in
      (set_result (filter (\<lambda>p. p \<in> set (result_of q) \<or> p \<in> set (result_of other)) [0..<nsolvables (hp e)]) q, other))"

definition query_intersection :: "hy_env \<Rightarrow> hy_query \<Rightarrow> hy_query \<Rightarrow> hy_query \<times> hy_query" where
  "query_intersection e q other =
     (let q = query_apply e q; other = query_apply e other in
      (set_result (filter (\<lambda>p. p \<in> set (result_of other)) (result_of q)) q, other))"

definition query_difference :: "hy_env \<Rightarrow> hy_query \<Rightarrow> hy_query \<Rightarrow> hy_query \<times> hy_query" where
  "query_difference e q other =
     (let q = query_apply e q; other = query_apply e other in
      (set_result (filter (\<lambda>p. p \<notin> set (result_of other)) (result_of q)) q, other))"

definition HY_SYSTEM_REPO_NAME :: string where "HY_SYSTEM_REPO_NAME = ''@System''"

definition IGNORE_REGULAR_EXCLUDES :: nat where "IGNORE_REGULAR_EXCLUDES = 2"

definition repo_filter :: "hy_cmp \<Rightarrow> hy_filter" where
  "repo_filter c = \<lparr>f_key = HY_PKG_REPONAME, f_cmp = c, f_type = HY_STR, f_matches = [MStr HY_SYSTEM_REPO_NAME]\<rparr>"

text \<open>\<open>addFilter(HY_PKG_REPONAME, cmp, HY_SYSTEM_REPO_NAME)\<close> followed by \<open>apply\<close>.\<close>

definition with_repo :: "hy_env \<Rightarrow> hy_cmp \<Rightarrow> hy_query \<Rightarrow> hy_query" where
  "with_repo e c q = query_apply e (push_filter (repo_filter c) (unapplied q))"

text \<open>Installed packages of which no available package has the name and the architecture.\<close>

definition filter_extras :: "hy_env \<Rightarrow> hy_query \<Rightarrow> hy_query" where
  "filter_extras e q =
     (let q = query_apply e q;
          query_installed = with_repo e HY_EQ q
      in
      if result_of query_installed = [] then set_result [] q
      else
        let query_available = with_repo e HY_NEQ (query_create IGNORE_REGULAR_EXCLUDES);
            names_arch = sort_less (NameArchSolvableComparator e) (result_of query_available)
        in set_result (filter (\<lambda>p.
             case lower_bound_by (\<lambda>a. NameArchSolvableComparator e a p) names_arch of
               [] \<Rightarrow> True
             | a # _ \<Rightarrow> so_name (hp e) a \<noteq> so_name (hp e) p \<or> so_arch (hp e) a \<noteq> so_arch (hp e) p)
           (result_of query_installed)) q)"

definition filter_recent :: "hy_env \<Rightarrow> nat \<Rightarrow> hy_query \<Rightarrow> hy_query" where
  "filter_recent e limit q =
     (let q = query_apply e q in set_result (filter (\<lambda>p. \<not> build_time e p \<le> limit) (result_of q)) q)"

definition query_to_name_ordered_queue :: "hy_env \<Rightarrow> nat list \<Rightarrow> nat list" where
  "query_to_name_ordered_queue e result =
     solv_sort (filter_latest_sortcmp e) (filter (\<lambda>p. p \<in> set result) [1..<nsolvables (hp e)])"

definition query_to_name_arch_ordered_queue :: "hy_env \<Rightarrow> nat list \<Rightarrow> nat list" where
  "query_to_name_arch_ordered_queue e result =
     solv_sort (filter_latest_sortcmp_byarch e) (filter (\<lambda>p. p \<in> set result) [1..<nsolvables (hp e)])"

text \<open>Pairs of a block, unless they are one version in two architectures.\<close>

fun add_duplicates :: "hy_env \<Rightarrow> nat list \<Rightarrow> nat list" where
  "add_duplicates e [] = []"
| "add_duplicates e (p # ps) =
     concat (map (\<lambda>r. if so_evr (hp e) p = so_evr (hp e) r \<and> so_arch (hp e) p \<noteq> so_arch (hp e) r then [] else [p, r]) ps) @
     add_duplicates e ps"

definition filter_duplicated :: "hy_env \<Rightarrow> hy_query \<Rightarrow> hy_query" where
  "filter_duplicated e q =
     (let q = with_repo e HY_EQ q;
          samename = query_to_name_ordered_queue e (result_of q);
          found = concat (map (add_duplicates e)
            (split_blocks (\<lambda>a b. so_name (hp e) a = so_name (hp e) b) samename))
      in set_result (filter (\<lambda>p. p \<in> set found) [0..<nsolvables (hp e)]) q)"

text \<open>What stands in parentheses behind a name in the provided names.\<close>

definition strings_from_provide :: "string \<Rightarrow> string list \<Rightarrow> string set" where
  "strings_from_provide pattern provides =
     set (concat (map (\<lambda>t.
       if length t > length pattern + 2 \<and> take (length pattern) t = pattern \<and> t ! length pattern = CHR ''('' \<and>
          t ! (length t - 1) = CHR '')''
       then [take (length t - length pattern - 2) (drop (length pattern + 1) t)] else []) provides))"

text \<open>The name of a package with its epoch, or without it.\<close>

definition epoch_optional_2str :: "hy_env \<Rightarrow> nat \<Rightarrow> bool \<Rightarrow> solv_error + string" where
  "epoch_optional_2str e p with_epoch =
     (let name = pkg_name (hp e) p; evr = pkg_evr (hp e) p; arch = pkg_arch (hp e) p in
      if evr = [] then Inl OutOfBounds
      else
        let i = 1 + length (takeWhile no_delim (drop 1 evr));
            present_epoch = (i < length evr \<and> evr ! i = CHR '':'')
        in Inr (name @ ''-'' @ (if \<not> present_epoch \<and> with_epoch then ''0:'' else []) @
             (if present_epoch \<and> \<not> with_epoch then drop (Suc i) evr else evr) @
             (if arch = [] then [] else ''.'' @ arch)))"

end
