(* ===== verification/Dnf4Goal.thy ===== *)
theory Dnf4Goal
  imports Dnf4QueryRun
begin

text \<open>
  The goals of dnf 4: \<open>dnf-4/libdnf/goal/Goal.cpp\<close> and \<open>dnf-4/libdnf/sack/selector.cpp\<close>, the requests. A goal
  collects jobs for the solver: of packages, of selectors, and of everything.
\<close>

section \<open>Jobs\<close>

text \<open>
  A job says what is selected, what is done with it, and how. In libsolv these are three parts of one number;
  here each part has names of its own.
\<close>

datatype job_select =
    SOLVER_SOLVABLE | SOLVER_SOLVABLE_NAME | SOLVER_SOLVABLE_PROVIDES | SOLVER_SOLVABLE_ONE_OF
  | SOLVER_SOLVABLE_REPO | SOLVER_SOLVABLE_ALL

datatype job_action =
    SOLVER_NOOP | SOLVER_INSTALL | SOLVER_ERASE | SOLVER_UPDATE | SOLVER_MULTIVERSION | SOLVER_DISTUPGRADE
  | SOLVER_VERIFY | SOLVER_USERINSTALLED | SOLVER_ALLOWUNINSTALL

datatype job_flag =
    SOLVER_WEAK | SOLVER_CLEANDEPS | SOLVER_FORCEBEST | SOLVER_TARGETED | SOLVER_SETEV | SOLVER_SETEVR
  | SOLVER_SETARCH | SOLVER_SETREPO

record job_how =
  j_select :: job_select
  j_action :: job_action
  j_flags :: "job_flag set"

type_synonym job = "job_how \<times> nat"

abbreviation how :: "job_select \<Rightarrow> job_action \<Rightarrow> job_flag set \<Rightarrow> job_how" where
  "how s a fs \<equiv> \<lparr>j_select = s, j_action = a, j_flags = fs\<rparr>"

text \<open>\<open>|=\<close> with flags, and with an action to a job that has none.\<close>

definition with_flags :: "job_flag set \<Rightarrow> job \<Rightarrow> job" where
  "with_flags fs j = ((fst j)\<lparr>j_flags := j_flags (fst j) \<union> fs\<rparr>, snd j)"

definition with_action :: "job_action \<Rightarrow> job_flag set \<Rightarrow> job \<Rightarrow> job" where
  "with_action a fs j = ((fst j)\<lparr>j_action := a, j_flags := j_flags (fst j) \<union> fs\<rparr>, snd j)"

datatype reldep_op = REL_ARCH | REL_EQ

text \<open>
  What the goal asks libsolv and the sack: the id of a list of packages (\<open>pool_queuetowhatprovides\<close>) and of a
  dependency (\<open>pool_rel2id\<close>), the architectures, the jobs that \<open>selection_make\<close> finds for a file and what is left
  of jobs in repositories (\<open>selection_filter\<close>), the hits of a pattern in names and provides as pairs of package
  and id. \<open>name_key_how\<close> and \<open>provides_key_how\<close> are the jobs that have the numbers of the keys
  \<open>SOLVABLE_NAME\<close> and \<open>SOLVABLE_PROVIDES\<close>.
\<close>

record goal_env =
  ge :: hy_env
  whatprovides_id :: "nat list \<Rightarrow> nat"
  rel2id :: "nat \<Rightarrow> nat \<Rightarrow> reldep_op \<Rightarrow> nat"
  str2id_create :: "string \<Rightarrow> nat"
  ARCH_SRC :: nat
  ARCH_NOSRC :: nat
  id2arch :: "(nat \<Rightarrow> nat) option"
  lastarch :: nat
  select_files :: "bool \<Rightarrow> string \<Rightarrow> job list"
  select_repos :: "job list \<Rightarrow> nat list \<Rightarrow> job list"
  name_hits :: "string \<Rightarrow> (nat \<times> nat) list"
  provides_hits :: "string \<Rightarrow> (nat \<times> nat) list"
  name_key_how :: job_how
  provides_key_how :: job_how
  installonly :: "nat list"
  installonly_limit :: nat
  running_kernel :: "nat option"
  pool_considered :: "nat list option"
  module_excludes :: "nat list option"
  disabled_solvable :: "nat \<Rightarrow> bool"
  solvid2str :: "nat \<Rightarrow> string"
  dep2str :: "nat \<Rightarrow> string"
  solv_sort_fn :: "(nat \<Rightarrow> nat \<Rightarrow> int) \<Rightarrow> nat list \<Rightarrow> nat list"

abbreviation gpool :: "goal_env \<Rightarrow> pool" where "gpool e \<equiv> hp (ge e)"

datatype goal_error =
    IllFormedSelector | MultipleMatchObjects | IncorrectComparisonType | GoalAssert
  | NoSolvInGoal | CannotRemoveProtected | NoSolutionPossible

definition package_to_job :: "goal_env \<Rightarrow> nat \<Rightarrow> job list \<Rightarrow> job_action \<Rightarrow> job_flag set \<Rightarrow> job list" where
  "package_to_job e p job a fs =
     job @ [(how SOLVER_SOLVABLE_ONE_OF a ({SOLVER_SETARCH, SOLVER_SETEVR} \<union> fs), whatprovides_id e [p])]"

definition job_has :: "job list \<Rightarrow> job_how \<Rightarrow> nat \<Rightarrow> bool" where
  "job_has job what i \<longleftrightarrow> list_ex (\<lambda>j. fst j = what \<and> snd j = i) job"

section \<open>Selectors\<close>

record selector =
  sel_arch :: "hy_filter option"
  sel_evr :: "hy_filter option"
  sel_file :: "hy_filter option"
  sel_name :: "hy_filter option"
  sel_pkgs :: nat
  sel_provides :: "hy_filter option"
  sel_reponame :: "hy_filter option"

definition empty_selector :: selector where
  "empty_selector = \<lparr>sel_arch = None, sel_evr = None, sel_file = None, sel_name = None, sel_pkgs = 0,
     sel_provides = None, sel_reponame = None\<rparr>"

definition valid_setting :: "hy_key \<Rightarrow> hy_cmp \<Rightarrow> bool" where
  "valid_setting k c \<longleftrightarrow>
     (if k \<in> {HY_PKG_ARCH, HY_PKG_EVR, HY_PKG_REPONAME, HY_PKG_VERSION} then c = HY_EQ
      else if k \<in> {HY_PKG_PROVIDES, HY_PKG_NAME} then c = HY_EQ \<or> c = HY_GLOB
      else k = HY_PKG_FILE)"

datatype selector_error = BadSelector

text \<open>A failed \<open>set\<close> of the provides clears them; the result has the selector in both cases.\<close>

definition selector_set_pkgs :: "goal_env \<Rightarrow> nat list \<Rightarrow> selector \<Rightarrow> (selector_error \<times> selector) + selector" where
  "selector_set_pkgs e ps s =
     (if sel_name s \<noteq> None \<or> sel_provides s \<noteq> None \<or> sel_file s \<noteq> None then Inl (BadSelector, s)
      else Inr (s\<lparr>sel_pkgs := whatprovides_id e ps\<rparr>))"

definition str_filter :: "hy_key \<Rightarrow> hy_cmp \<Rightarrow> string \<Rightarrow> hy_filter" where
  "str_filter k c m = \<lparr>f_key = k, f_cmp = c, f_type = HY_STR, f_matches = [MStr (copy_filter_char m k)]\<rparr>"

definition selector_set :: "goal_env \<Rightarrow> hy_key \<Rightarrow> hy_cmp \<Rightarrow> string \<Rightarrow> selector \<Rightarrow> (selector_error \<times> selector) + selector" where
  "selector_set e k c m s =
     (if \<not> valid_setting k c then Inl (BadSelector, s)
      else case k of
        HY_PKG_ARCH \<Rightarrow> Inr (s\<lparr>sel_arch := Some (str_filter k c m)\<rparr>)
      | HY_PKG_EVR \<Rightarrow> Inr (s\<lparr>sel_evr := Some (str_filter k c m)\<rparr>)
      | HY_PKG_VERSION \<Rightarrow> Inr (s\<lparr>sel_evr := Some (str_filter k c m)\<rparr>)
      | HY_PKG_NAME \<Rightarrow>
          if sel_provides s \<noteq> None \<or> sel_file s \<noteq> None \<or> sel_pkgs s \<noteq> 0 then Inl (BadSelector, s)
          else Inr (s\<lparr>sel_name := Some (str_filter k c m)\<rparr>)
      | HY_PKG_PROVIDES \<Rightarrow>
          if sel_name s \<noteq> None \<or> sel_file s \<noteq> None \<or> sel_pkgs s \<noteq> 0 then Inl (BadSelector, s)
          else if c \<noteq> HY_GLOB then
            (case get_reldep_id (gpool e) m of
               None \<Rightarrow> Inl (BadSelector, s\<lparr>sel_provides := None\<rparr>)
             | Some d \<Rightarrow> Inr (s\<lparr>sel_provides := Some \<lparr>f_key = k, f_cmp = c, f_type = HY_RELDEP, f_matches = [MReldep d]\<rparr>\<rparr>))
          else Inr (s\<lparr>sel_provides := Some (str_filter k c m)\<rparr>)
      | HY_PKG_REPONAME \<Rightarrow> Inr (s\<lparr>sel_reponame := Some (str_filter k c m)\<rparr>)
      | HY_PKG_FILE \<Rightarrow>
          if sel_name s \<noteq> None \<or> sel_provides s \<noteq> None \<or> sel_pkgs s \<noteq> 0 then Inl (BadSelector, s)
          else Inr (s\<lparr>sel_file := Some (str_filter k c m)\<rparr>)
      | _ \<Rightarrow> Inl (BadSelector, s))"

section \<open>From selectors to jobs\<close>

text \<open>
  Each step adds jobs or restricts those there are; it returns a code beside the jobs, 0 to go on. An \<open>assert\<close> that
  fails is an error.
\<close>

definition NO_MATCH :: nat where "NO_MATCH = 1"
definition MULTIPLE_MATCH_OBJECTS :: nat where "MULTIPLE_MATCH_OBJECTS = 2"
definition INCORECT_COMPARISON_TYPE :: nat where "INCORECT_COMPARISON_TYPE = 3"

lemmas job_codes = NO_MATCH_def MULTIPLE_MATCH_OBJECTS_def INCORECT_COMPARISON_TYPE_def

type_synonym job_step = "job list \<Rightarrow> goal_error + nat \<times> job list"

definition str2archid :: "goal_env \<Rightarrow> string \<Rightarrow> nat" where
  "str2archid e arch =
     (if arch = [] then 0
      else let i = str2id (gpool e) arch in
        if i = ARCH_SRC e \<or> i = ARCH_NOSRC e \<or> i = ARCH_NOARCH (ge e) then i
        else case id2arch e of
            None \<Rightarrow> i
          | Some f \<Rightarrow> if i > lastarch e \<or> f i = 0 then 0 else i)"

text \<open>The restriction of jobs that select by name: a relation to the name, and flags.\<close>

definition restrict_names :: "goal_env \<Rightarrow> nat \<Rightarrow> reldep_op \<Rightarrow> job_flag \<Rightarrow> job list \<Rightarrow> goal_error + nat \<times> job list" where
  "restrict_names e i rel flag job =
     (if list_ex (\<lambda>j. j_select (fst j) \<noteq> SOLVER_SOLVABLE_NAME) job then Inl GoalAssert
      else Inr (0, map (\<lambda>j. with_flags {flag} (fst j, rel2id e (snd j) i rel)) job))"

definition filter_arch_to_job :: "goal_env \<Rightarrow> hy_filter option \<Rightarrow> job_step" where
  "filter_arch_to_job e f job =
     (case f of
        None \<Rightarrow> Inr (0, job)
      | Some f \<Rightarrow>
          if f_cmp f \<noteq> HY_EQ then Inr (INCORECT_COMPARISON_TYPE, job)
          else if length (f_matches f) \<noteq> 1 then Inr (MULTIPLE_MATCH_OBJECTS, job)
          else let archid = str2archid e (str_of (hd (f_matches f))) in
            if archid = 0 then Inr (NO_MATCH, job)
            else restrict_names e archid REL_ARCH SOLVER_SETARCH job)"

definition filter_evr_to_job :: "goal_env \<Rightarrow> hy_filter option \<Rightarrow> job_step" where
  "filter_evr_to_job e f job =
     (case f of
        None \<Rightarrow> Inr (0, job)
      | Some f \<Rightarrow>
          if f_cmp f \<noteq> HY_EQ then Inr (INCORECT_COMPARISON_TYPE, job)
          else if length (f_matches f) \<noteq> 1 then Inr (MULTIPLE_MATCH_OBJECTS, job)
          else restrict_names e (str2id_create e (str_of (hd (f_matches f)))) REL_EQ
            (if f_key f = HY_PKG_VERSION then SOLVER_SETEV else SOLVER_SETEVR) job)"

definition filter_file_to_job :: "goal_env \<Rightarrow> hy_filter option \<Rightarrow> job_step" where
  "filter_file_to_job e f job =
     (case f of
        None \<Rightarrow> Inr (0, job)
      | Some f \<Rightarrow>
          if length (f_matches f) \<noteq> 1 then Inr (MULTIPLE_MATCH_OBJECTS, job)
          else let found = select_files e (hy_has (f_cmp f) HY_GLOB) (str_of (hd (f_matches f))) in
            if found = [] then Inr (NO_MATCH, job) else Inr (0, found))"

definition filter_pkg_to_job :: "nat \<Rightarrow> job_step" where
  "filter_pkg_to_job what job =
     Inr (0, if what = 0 then job else job @ [(how SOLVER_SOLVABLE_ONE_OF SOLVER_NOOP {SOLVER_SETARCH, SOLVER_SETEVR}, what)])"

fun push_names :: "goal_env \<Rightarrow> (nat \<times> nat) list \<Rightarrow> job list \<Rightarrow> job list" where
  "push_names e [] job = job"
| "push_names e ((p, i) # hits) job =
     (if \<not> is_package (gpool e) p \<or> job_has job (name_key_how e) i then push_names e hits job
      else push_names e hits (job @ [(how SOLVER_SOLVABLE_NAME SOLVER_NOOP {}, i)]))"

definition filter_name_to_job :: "goal_env \<Rightarrow> hy_filter option \<Rightarrow> job_step" where
  "filter_name_to_job e f job =
     (case f of
        None \<Rightarrow> Inr (0, job)
      | Some f \<Rightarrow>
          if length (f_matches f) \<noteq> 1 then Inr (MULTIPLE_MATCH_OBJECTS, job)
          else let name = str_of (hd (f_matches f)) in
            if f_cmp f = HY_EQ then
              let i = str2id (gpool e) name in
              Inr (0, if i = 0 then job else job @ [(how SOLVER_SOLVABLE_NAME SOLVER_NOOP {}, i)])
            else if f_cmp f = HY_GLOB then Inr (0, push_names e (name_hits e name) job)
            else Inr (INCORECT_COMPARISON_TYPE, job))"

definition reldep_of :: "hy_match \<Rightarrow> nat" where "reldep_of m = (case m of MReldep d \<Rightarrow> d | _ \<Rightarrow> 0)"

text \<open>The search in the provides ends at the first hit of a package, whose provide is the job.\<close>

definition filter_provides_to_job :: "goal_env \<Rightarrow> hy_filter option \<Rightarrow> job_step" where
  "filter_provides_to_job e f job =
     (case f of
        None \<Rightarrow> Inr (0, job)
      | Some f \<Rightarrow>
          if length (f_matches f) \<noteq> 1 then Inr (MULTIPLE_MATCH_OBJECTS, job)
          else if f_cmp f = HY_EQ then
            Inr (0, job @ [(how SOLVER_SOLVABLE_PROVIDES SOLVER_NOOP {}, reldep_of (hd (f_matches f)))])
          else if f_cmp f = HY_GLOB then
            (case dropWhile (\<lambda>(p, i). \<not> is_package (gpool e) p) (provides_hits e (str_of (hd (f_matches f)))) of
               [] \<Rightarrow> Inl GoalAssert
             | (p, i) # _ \<Rightarrow>
                 Inr (0, if job_has job (provides_key_how e) i then job
                         else job @ [(how SOLVER_SOLVABLE_PROVIDES SOLVER_NOOP {}, i)]))
          else Inr (INCORECT_COMPARISON_TYPE, job))"

definition filter_reponame_to_job :: "goal_env \<Rightarrow> hy_filter option \<Rightarrow> job_step" where
  "filter_reponame_to_job e f job =
     (case f of
        None \<Rightarrow> Inr (0, job)
      | Some f \<Rightarrow>
          if f_cmp f \<noteq> HY_EQ then Inr (INCORECT_COMPARISON_TYPE, job)
          else if length (f_matches f) \<noteq> 1 then Inr (MULTIPLE_MATCH_OBJECTS, job)
          else Inr (0, select_repos e job
            (filter (\<lambda>r. repo_name (gpool e) r = Some (str_of (hd (f_matches f)))) [1..<nrepos (gpool e)])))"

fun run_steps :: "job_step list \<Rightarrow> job list \<Rightarrow> goal_error + nat \<times> job list" where
  "run_steps [] job = Inr (0, job)"
| "run_steps (f # fs) job =
     (case f job of
        Inl err \<Rightarrow> Inl err
      | Inr (ret, job) \<Rightarrow> if ret \<noteq> 0 then Inr (ret, job) else run_steps fs job)"

definition selector_steps :: "goal_env \<Rightarrow> selector \<Rightarrow> job_step list" where
  "selector_steps e s =
     [filter_pkg_to_job (sel_pkgs s), filter_name_to_job e (sel_name s), filter_file_to_job e (sel_file s),
      filter_provides_to_job e (sel_provides s), filter_arch_to_job e (sel_arch s), filter_evr_to_job e (sel_evr s),
      filter_reponame_to_job e (sel_reponame s)]"

definition any_req_filter :: "selector \<Rightarrow> bool" where
  "any_req_filter s \<longleftrightarrow> sel_name s \<noteq> None \<or> sel_provides s \<noteq> None \<or> sel_file s \<noteq> None \<or> sel_pkgs s \<noteq> 0"

definition any_opt_filter :: "selector \<Rightarrow> bool" where
  "any_opt_filter s \<longleftrightarrow> sel_arch s \<noteq> None \<or> sel_evr s \<noteq> None \<or> sel_reponame s \<noteq> None"

definition sltr_to_job :: "goal_env \<Rightarrow> selector \<Rightarrow> job list \<Rightarrow> job_action \<Rightarrow> job_flag set \<Rightarrow> goal_error + job list" where
  "sltr_to_job e s job a fs =
     (if \<not> any_req_filter s then (if any_opt_filter s then Inl IllFormedSelector else Inr job)
      else case run_steps (selector_steps e s) [] of
          Inl err \<Rightarrow> Inl err
        | Inr (ret, js) \<Rightarrow>
            if ret = 0 then Inr (job @ map (with_action a fs) js)
            else if ret = MULTIPLE_MATCH_OBJECTS then Inl MultipleMatchObjects
            else if ret = INCORECT_COMPARISON_TYPE then Inl IncorrectComparisonType
            else Inr job)"

section \<open>Requests\<close>

definition DNF_ERASE :: hy_cmp where "DNF_ERASE = push_bit 0 1"
definition DNF_DISTUPGRADE :: hy_cmp where "DNF_DISTUPGRADE = push_bit 1 1"
definition DNF_INSTALL :: hy_cmp where "DNF_INSTALL = push_bit 4 1"
definition DNF_UPGRADE :: hy_cmp where "DNF_UPGRADE = push_bit 5 1"
definition DNF_UPGRADE_ALL :: hy_cmp where "DNF_UPGRADE_ALL = push_bit 6 1"
definition DNF_ALLOW_UNINSTALL :: hy_cmp where "DNF_ALLOW_UNINSTALL = push_bit 10 1"
definition DNF_FORCE_BEST :: hy_cmp where "DNF_FORCE_BEST = push_bit 11 1"
definition DNF_VERIFY :: hy_cmp where "DNF_VERIFY = push_bit 12 1"
definition DNF_IGNORE_WEAK_DEPS :: hy_cmp where "DNF_IGNORE_WEAK_DEPS = push_bit 13 1"
definition DNF_ALLOW_DOWNGRADE :: hy_cmp where "DNF_ALLOW_DOWNGRADE = push_bit 14 1"
definition DNF_IGNORE_WEAK :: hy_cmp where "DNF_IGNORE_WEAK = push_bit 15 1"
definition HY_CLEAN_DEPS :: hy_cmp where "HY_CLEAN_DEPS = push_bit 1 1"

lemmas dnf_flags = DNF_ERASE_def DNF_DISTUPGRADE_def DNF_INSTALL_def DNF_UPGRADE_def DNF_UPGRADE_ALL_def
  DNF_ALLOW_UNINSTALL_def DNF_FORCE_BEST_def DNF_VERIFY_def DNF_IGNORE_WEAK_DEPS_def DNF_ALLOW_DOWNGRADE_def
  DNF_IGNORE_WEAK_def HY_CLEAN_DEPS_def

text \<open>Why the solver decided on a package, and which kind of rule made it.\<close>

datatype decision = REASON_UNIT_RULE | REASON_RESOLVE_JOB | REASON_CLEANDEPS_ERASE | REASON_WEAKDEP | REASON_OTHER

datatype rule_class = CLASS_JOB | CLASS_BEST | CLASS_OTHER

datatype rule_type =
    SOLVER_RULE_DISTUPGRADE | SOLVER_RULE_INFARCH | SOLVER_RULE_UPDATE | SOLVER_RULE_JOB | SOLVER_RULE_JOB_UNSUPPORTED
  | SOLVER_RULE_JOB_NOTHING_PROVIDES_DEP | SOLVER_RULE_JOB_UNKNOWN_PACKAGE | SOLVER_RULE_JOB_PROVIDED_BY_SYSTEM
  | SOLVER_RULE_PKG | SOLVER_RULE_BEST | SOLVER_RULE_PKG_NOT_INSTALLABLE | SOLVER_RULE_PKG_NOTHING_PROVIDES_DEP
  | SOLVER_RULE_PKG_SAME_NAME | SOLVER_RULE_PKG_CONFLICTS | SOLVER_RULE_PKG_OBSOLETES
  | SOLVER_RULE_PKG_INSTALLED_OBSOLETES | SOLVER_RULE_PKG_IMPLICIT_OBSOLETES | SOLVER_RULE_PKG_REQUIRES
  | SOLVER_RULE_PKG_SELF_CONFLICT | SOLVER_RULE_YUMOBS | SOLVER_RULE_OTHER string

datatype step_type =
    TRANS_ERASE | TRANS_INSTALL | TRANS_OBSOLETES | TRANS_OBSOLETED | TRANS_REINSTALL | TRANS_UPGRADE | TRANS_DOWNGRADE
  | TRANS_OTHER

record rule_info =
  ri_type :: rule_type
  ri_source :: nat
  ri_target :: nat
  ri_dep :: nat

text \<open>
  What the solver answers after a run: the rules of each problem, each with its main reason and all of them; the level
  at which it decided on a package; the steps of its transaction and their types, in the list of obsoleted packages
  or in that of the active ones; the packages that became unneeded, that are recommended, that go with their
  dependencies.
\<close>

record solution =
  sol_problems :: "(rule_info \<times> rule_info list) list list"
  sol_level :: "nat \<Rightarrow> int"
  sol_steps :: "nat list"
  sol_type :: "bool \<Rightarrow> nat \<Rightarrow> step_type"
  sol_unneeded :: "nat list"
  sol_recommended :: "nat list"
  sol_cleandeps :: "nat list"
  sol_decision :: "nat \<Rightarrow> decision \<times> rule_class"
  sol_obsoleted_by :: "nat \<Rightarrow> nat list"

datatype solver_flag =
    ALLOW_VENDORCHANGE | KEEP_ORPHANS | BEST_OBEY_POLICY | YUM_OBSOLETES | IGNORE_RECOMMENDED | ALLOW_DOWNGRADE

type_synonym solver = "solver_flag set \<Rightarrow> job list \<Rightarrow> solution"

record goal =
  g_staging :: "job list"
  g_solv :: "solution option"
  g_trans :: "solution option"
  g_actions :: hy_cmp
  g_protected :: "nat list option"
  g_removal :: "nat list option"

definition goal_new :: goal where
  "goal_new = \<lparr>g_staging = [], g_solv = None, g_trans = None, g_actions = 0, g_protected = None, g_removal = None\<rparr>"

text \<open>The copy of a goal has no solver and no transaction.\<close>

definition goal_copy :: "goal \<Rightarrow> goal" where
  "goal_copy g = g\<lparr>g_solv := None, g_trans := None\<rparr>"

definition act :: "hy_cmp \<Rightarrow> goal \<Rightarrow> goal" where "act a g = g\<lparr>g_actions := g_actions g OR a\<rparr>"

definition push_job :: "job \<Rightarrow> goal \<Rightarrow> goal" where "push_job j g = g\<lparr>g_staging := g_staging g @ [j]\<rparr>"

definition stage_package :: "goal_env \<Rightarrow> nat \<Rightarrow> job_action \<Rightarrow> job_flag set \<Rightarrow> goal \<Rightarrow> goal" where
  "stage_package e p a fs g = g\<lparr>g_staging := package_to_job e p (g_staging g) a fs\<rparr>"

text \<open>The actions are set before the selector is looked at: they stay when it is refused.\<close>

definition stage_selector :: "goal_env \<Rightarrow> selector \<Rightarrow> job_action \<Rightarrow> job_flag set \<Rightarrow> goal \<Rightarrow> goal_error option \<times> goal" where
  "stage_selector e s a fs g =
     (case sltr_to_job e s (g_staging g) a fs of
        Inl err \<Rightarrow> (Some err, g)
      | Inr job \<Rightarrow> (None, g\<lparr>g_staging := job\<rparr>))"

definition set_protected :: "nat list \<Rightarrow> goal \<Rightarrow> goal" where "set_protected ps g = g\<lparr>g_protected := Some ps\<rparr>"

definition ids_union :: "goal_env \<Rightarrow> nat list \<Rightarrow> nat list \<Rightarrow> nat list" where
  "ids_union e xs ys = filter (\<lambda>p. p \<in> set xs \<or> p \<in> set ys) [0..<nsolvables (gpool e)]"

definition add_protected :: "goal_env \<Rightarrow> nat list \<Rightarrow> goal \<Rightarrow> goal" where
  "add_protected e ps g =
     g\<lparr>g_protected := Some (case g_protected g of None \<Rightarrow> ps | Some qs \<Rightarrow> ids_union e qs ps)\<rparr>"

definition distupgrade_all :: "goal_env \<Rightarrow> goal \<Rightarrow> goal_error option \<times> goal" where
  "distupgrade_all e g =
     (let g = act (DNF_DISTUPGRADE OR DNF_ALLOW_DOWNGRADE) g;
          pkgs = result_of (with_repo (ge e) HY_NEQ (query_create 0)) in
      case selector_set_pkgs e pkgs empty_selector of
        Inl (_, s) \<Rightarrow> stage_selector e s SOLVER_DISTUPGRADE {} g
      | Inr s \<Rightarrow> stage_selector e s SOLVER_DISTUPGRADE {} g)"

definition distupgrade_package :: "goal_env \<Rightarrow> nat \<Rightarrow> goal \<Rightarrow> goal" where
  "distupgrade_package e p g = stage_package e p SOLVER_DISTUPGRADE {} (act (DNF_DISTUPGRADE OR DNF_ALLOW_DOWNGRADE) g)"

definition distupgrade_selector :: "goal_env \<Rightarrow> selector \<Rightarrow> goal \<Rightarrow> goal_error option \<times> goal" where
  "distupgrade_selector e s g = stage_selector e s SOLVER_DISTUPGRADE {} (act (DNF_DISTUPGRADE OR DNF_ALLOW_DOWNGRADE) g)"

definition erase_flags2libsolv :: "hy_cmp \<Rightarrow> job_flag set" where
  "erase_flags2libsolv flags = (if hy_has flags HY_CLEAN_DEPS then {SOLVER_CLEANDEPS} else {})"

definition erase_package :: "nat \<Rightarrow> hy_cmp \<Rightarrow> goal \<Rightarrow> goal" where
  "erase_package p flags g = push_job (how SOLVER_SOLVABLE SOLVER_ERASE (erase_flags2libsolv flags), p) (act DNF_ERASE g)"

definition erase_selector :: "goal_env \<Rightarrow> selector \<Rightarrow> hy_cmp \<Rightarrow> goal \<Rightarrow> goal_error option \<times> goal" where
  "erase_selector e s flags g = stage_selector e s SOLVER_ERASE (erase_flags2libsolv flags) (act DNF_ERASE g)"

definition goal_install_package :: "goal_env \<Rightarrow> nat \<Rightarrow> bool \<Rightarrow> goal \<Rightarrow> goal" where
  "goal_install_package e p optional g =
     stage_package e p SOLVER_INSTALL (if optional then {SOLVER_WEAK} else {}) (act (DNF_INSTALL OR DNF_ALLOW_DOWNGRADE) g)"

definition install_selector :: "goal_env \<Rightarrow> selector \<Rightarrow> bool \<Rightarrow> goal \<Rightarrow> goal_error option \<times> goal" where
  "install_selector e s optional g =
     stage_selector e s SOLVER_INSTALL (if optional then {SOLVER_WEAK} else {}) (act (DNF_INSTALL OR DNF_ALLOW_DOWNGRADE) g)"

definition upgrade_everything :: "goal \<Rightarrow> goal" where
  "upgrade_everything g = push_job (how SOLVER_SOLVABLE_ALL SOLVER_UPDATE {}, 0) (act DNF_UPGRADE_ALL g)"

definition upgrade_package :: "goal_env \<Rightarrow> nat \<Rightarrow> goal \<Rightarrow> goal" where
  "upgrade_package e p g = stage_package e p SOLVER_UPDATE {} (act DNF_UPGRADE g)"

definition upgrade_selector :: "goal_env \<Rightarrow> selector \<Rightarrow> goal \<Rightarrow> goal_error option \<times> goal" where
  "upgrade_selector e s g =
     stage_selector e s SOLVER_UPDATE (if sel_pkgs s \<noteq> 0 then {SOLVER_TARGETED} else {}) (act DNF_UPGRADE g)"

definition user_installed :: "nat list \<Rightarrow> goal \<Rightarrow> goal" where
  "user_installed ps g = fold (\<lambda>p. push_job (how SOLVER_SOLVABLE SOLVER_USERINSTALLED {}, p)) ps g"

definition has_actions :: "goal \<Rightarrow> hy_cmp \<Rightarrow> bool" where "has_actions g a \<longleftrightarrow> hy_has (g_actions g) a"

definition job_length :: "goal \<Rightarrow> nat" where "job_length g = length (g_staging g)"

end
