(* ===== verification/Dnf4GoalRun.thy ===== *)
theory Dnf4GoalRun
  imports Dnf4Goal
begin

text \<open>
  Running a goal of dnf 4 (\<open>dnf-4/libdnf/goal/Goal.cpp\<close>, \<open>dnf-4/libdnf/dnf-goal.cpp\<close>): the job for the solver, the
  limit of packages that are only installed, protected packages, results, reasons and the description of problems.
  The solver is an argument.
\<close>

section \<open>The job for the solver\<close>

definition set_of :: "nat list option \<Rightarrow> nat set" where
  "set_of ps = (case ps of None \<Rightarrow> {} | Some ps \<Rightarrow> set ps)"

definition allow_uninstall_all_but_protected :: "goal_env \<Rightarrow> hy_cmp \<Rightarrow> job list \<Rightarrow> goal \<Rightarrow> job list \<times> goal" where
  "allow_uninstall_all_but_protected e flags job g =
     (let prot = (case g_protected g of None \<Rightarrow> [] | Some ps \<Rightarrow> ps);
          prot = (case running_kernel e of
              None \<Rightarrow> prot
            | Some k \<Rightarrow> if k > 0 then ids_union e prot [k] else prot);
          g = g\<lparr>g_protected := Some prot\<rparr>
      in (job @ (if hy_has DNF_ALLOW_UNINSTALL flags
            then map (\<lambda>p. (how SOLVER_SOLVABLE SOLVER_ALLOWUNINSTALL {}, p))
              (filter (\<lambda>p. so_repo (gpool e) p = installed (ge e) \<and> p \<notin> set prot \<and>
                 (case pool_considered e of None \<Rightarrow> True | Some c \<Rightarrow> p \<in> set c)) [1..<nsolvables (gpool e)])
            else []), g))"

definition construct_job :: "goal_env \<Rightarrow> hy_cmp \<Rightarrow> goal \<Rightarrow> job list \<times> goal" where
  "construct_job e flags g =
     (let job = (if hy_has flags DNF_FORCE_BEST then map (with_flags {SOLVER_FORCEBEST}) (g_staging g) else g_staging g);
          job = job @ map (\<lambda>d. (how SOLVER_SOLVABLE_PROVIDES SOLVER_MULTIVERSION {}, d)) (installonly e);
          (job, g) = allow_uninstall_all_but_protected e flags job g
      in (job @ (if hy_has flags DNF_VERIFY then [(how SOLVER_SOLVABLE_ALL SOLVER_VERIFY {}, 0)] else []), g))"

text \<open>The flags of the solver: four that are always set, and those that the goal asks for.\<close>

definition init_solver :: "solver_flag set" where
  "init_solver = {ALLOW_VENDORCHANGE, KEEP_ORPHANS, BEST_OBEY_POLICY, YUM_OBSOLETES}"

definition solver_flags :: "hy_cmp \<Rightarrow> hy_cmp \<Rightarrow> solver_flag set" where
  "solver_flags flags actions = init_solver \<union> (if hy_has DNF_IGNORE_WEAK_DEPS flags then {IGNORE_RECOMMENDED} else {}) \<union>
     (if hy_has DNF_ALLOW_DOWNGRADE actions then {ALLOW_DOWNGRADE} else {})"

definition without_weak :: "job \<Rightarrow> job" where
  "without_weak j = ((fst j)\<lparr>j_flags := j_flags (fst j) - {SOLVER_WEAK}\<rparr>, snd j)"

section \<open>Packages that are only installed\<close>

text \<open>Whether a requirement of \<open>a\<close> is provided by \<open>b\<close>.\<close>

definition can_depend_on :: "goal_env \<Rightarrow> nat \<Rightarrow> nat \<Rightarrow> bool" where
  "can_depend_on e a b = list_ex (\<lambda>r. b \<in> set (provides_of (gpool e) r)) (id_array (gpool e) a SOLVABLE_REQUIRES)"

definition sort_packages :: "goal_env \<Rightarrow> nat \<Rightarrow> nat \<Rightarrow> int" where
  "sort_packages e a b =
     (let name_diff = int (so_name (gpool e) a) - int (so_name (gpool e) b) in
      if name_diff \<noteq> 0 then name_diff
      else if installed (ge e) \<noteq> so_repo (gpool e) a then 1
      else if installed (ge e) \<noteq> so_repo (gpool e) b then -1
      else let by_evr = evr_cmp (ge e) (so_evr (gpool e) a) (so_evr (gpool e) b) in
        case running_kernel e of
          None \<Rightarrow> by_evr
        | Some k \<Rightarrow>
            if a = k \<or> can_depend_on e a k then 1
            else if b = k \<or> can_depend_on e b k then -1
            else if so_evr (gpool e) a = so_evr (gpool e) k then 1
            else if so_evr (gpool e) b = so_evr (gpool e) k then -1
            else by_evr)"

text \<open>The packages of one name at the end of a queue, from the last; with what is left of the queue, also reversed.\<close>

definition same_name_subqueue :: "goal_env \<Rightarrow> nat \<Rightarrow> nat list \<Rightarrow> nat list \<times> nat list" where
  "same_name_subqueue e el rest =
     (let same = (\<lambda>p. so_name (gpool e) p = so_name (gpool e) el) in (el # takeWhile same rest, dropWhile same rest))"

text \<open>Erase or install jobs for the names of which there are too many, over the reversed queue.\<close>

definition limit_same_names :: "goal_env \<Rightarrow> nat list \<Rightarrow> job list" where
  "limit_same_names e same =
     (if length same \<le> installonly_limit e then []
      else map (\<lambda>(j, p). (how SOLVER_SOLVABLE (if j < installonly_limit e then SOLVER_INSTALL else SOLVER_ERASE) {}, p))
        (zip [0..<length same] same))"

function limit_queue :: "goal_env \<Rightarrow> nat list \<Rightarrow> job list" where
  "limit_queue e [] = []"
| "limit_queue e (p # ps) =
     (let (same, rest) = same_name_subqueue e p ps in limit_same_names e same @ limit_queue e rest)"
  by pat_completeness auto

termination limit_queue
  by (relation "measure (\<lambda>(e, ps). length ps)")
     (auto simp: same_name_subqueue_def Let_def less_Suc_eq_le length_dropWhile_le)

definition limit_one :: "goal_env \<Rightarrow> solution \<Rightarrow> nat \<Rightarrow> job list" where
  "limit_one e sol dep =
     (let q = filter (\<lambda>p. is_package (gpool e) p \<and> sol_level sol p > 0) (provides_of (gpool e) dep) in
      if length q \<le> installonly_limit e then []
      else if list_all (\<lambda>p. so_repo (gpool e) p = installed (ge e)) q then []
      else limit_queue e (rev (solv_sort_fn e (sort_packages e) q)))"

definition limit_installonly_packages :: "goal_env \<Rightarrow> solution \<Rightarrow> job list" where
  "limit_installonly_packages e sol =
     (if installonly_limit e = 0 then [] else concat (map (limit_one e sol) (installonly e)))"

section \<open>Results\<close>

definition list_results :: "goal_env \<Rightarrow> goal \<Rightarrow> step_type \<Rightarrow> step_type option \<Rightarrow> goal_error + nat list" where
  "list_results e g t1 t2 =
     (case g_trans g of
        None \<Rightarrow>
          if g_solv g = None then Inl NoSolvInGoal
          else if set_of (g_removal g) \<noteq> {} then Inl CannotRemoveProtected
          else Inl NoSolutionPossible
      | Some tr \<Rightarrow>
          Inr (filter (\<lambda>p. p \<in> set (sol_steps tr) \<and>
            (let t = sol_type tr (t1 = TRANS_OBSOLETED) p in t = t1 \<or> Some t = t2)) [0..<nsolvables (gpool e)]))"

definition list_erasures :: "goal_env \<Rightarrow> goal \<Rightarrow> goal_error + nat list" where
  "list_erasures e g = list_results e g TRANS_ERASE None"
definition list_installs :: "goal_env \<Rightarrow> goal \<Rightarrow> goal_error + nat list" where
  "list_installs e g = list_results e g TRANS_INSTALL (Some TRANS_OBSOLETES)"
definition list_obsoleted :: "goal_env \<Rightarrow> goal \<Rightarrow> goal_error + nat list" where
  "list_obsoleted e g = list_results e g TRANS_OBSOLETED None"
definition list_reinstalls :: "goal_env \<Rightarrow> goal \<Rightarrow> goal_error + nat list" where
  "list_reinstalls e g = list_results e g TRANS_REINSTALL None"
definition list_upgrades :: "goal_env \<Rightarrow> goal \<Rightarrow> goal_error + nat list" where
  "list_upgrades e g = list_results e g TRANS_UPGRADE None"
definition list_downgrades :: "goal_env \<Rightarrow> goal \<Rightarrow> goal_error + nat list" where
  "list_downgrades e g = list_results e g TRANS_DOWNGRADE None"

definition queue2pset :: "goal_env \<Rightarrow> nat list \<Rightarrow> nat list" where
  "queue2pset e q = filter (\<lambda>p. p \<in> set q) [0..<nsolvables (gpool e)]"

text \<open>Without a solver or a transaction these lists dereference a null pointer.\<close>

definition list_unneeded :: "goal_env \<Rightarrow> goal \<Rightarrow> goal_error + nat list" where
  "list_unneeded e g = (case g_solv g of None \<Rightarrow> Inl GoalAssert | Some s \<Rightarrow> Inr (queue2pset e (sol_unneeded s)))"
definition list_suggested :: "goal_env \<Rightarrow> goal \<Rightarrow> goal_error + nat list" where
  "list_suggested e g = (case g_solv g of None \<Rightarrow> Inl GoalAssert | Some s \<Rightarrow> Inr (queue2pset e (sol_recommended s)))"
definition list_obsoleted_by_package :: "goal_env \<Rightarrow> nat \<Rightarrow> goal \<Rightarrow> goal_error + nat list" where
  "list_obsoleted_by_package e p g =
     (case g_trans g of None \<Rightarrow> Inl GoalAssert | Some t \<Rightarrow> Inr (queue2pset e (sol_obsoleted_by t p)))"

text \<open>Which protected packages the transaction removes; whether there are any.\<close>

definition protected_in_removals :: "goal_env \<Rightarrow> goal \<Rightarrow> goal_error + bool \<times> goal" where
  "protected_in_removals e g =
     (if set_of (g_protected g) = {} then Inr (False, g)
      else case list_results e g TRANS_ERASE None of
          Inl err \<Rightarrow> Inl err
        | Inr removed \<Rightarrow>
            (case list_results e g TRANS_OBSOLETED None of
               Inl err \<Rightarrow> Inl err
             | Inr obsoleted \<Rightarrow>
                 let hit = filter (\<lambda>p. p \<in> set_of (g_protected g)) (ids_union e removed obsoleted) in
                 Inr (hit \<noteq> [], g\<lparr>g_removal := Some hit\<rparr>)))"

section \<open>Running\<close>

text \<open>
  \<open>solve\<close> returns whether there are problems. A problem of the first run ends it before the transaction is made;
  so does one of the second, which is for the limit of packages that are only installed.
\<close>

definition goal_solve :: "goal_env \<Rightarrow> solver \<Rightarrow> job list \<Rightarrow> hy_cmp \<Rightarrow> goal \<Rightarrow> goal_error + bool \<times> goal" where
  "goal_solve e solve job flags g =
     (let g = g\<lparr>g_trans := None\<rparr>;
          job = (if hy_has DNF_IGNORE_WEAK flags then map without_weak job else job);
          sflags = solver_flags flags (g_actions g);
          sol = solve sflags job;
          g = g\<lparr>g_solv := Some sol\<rparr>
      in
      if sol_problems sol \<noteq> [] then Inr (True, g)
      else
        let more = limit_installonly_packages e sol in
        if more = [] then protected_in_removals e (g\<lparr>g_trans := Some sol\<rparr>)
        else
          let (job, g) = allow_uninstall_all_but_protected e DNF_ALLOW_UNINSTALL (job @ more) g;
              sol = solve sflags job;
              g = g\<lparr>g_solv := Some sol\<rparr>
          in if sol_problems sol \<noteq> [] then Inr (True, g)
             else protected_in_removals e (g\<lparr>g_trans := Some sol\<rparr>))"

definition goal_run :: "goal_env \<Rightarrow> solver \<Rightarrow> hy_cmp \<Rightarrow> goal \<Rightarrow> goal_error + bool \<times> goal" where
  "goal_run e solve flags g =
     (let (job, g) = construct_job e flags g in goal_solve e solve job flags (act flags g))"

section \<open>Reasons\<close>

datatype reason = HY_REASON_DEP | HY_REASON_USER | HY_REASON_CLEAN | HY_REASON_WEAKDEP

definition get_reason :: "goal \<Rightarrow> nat \<Rightarrow> reason" where
  "get_reason g p =
     (case g_solv g of
        None \<Rightarrow> HY_REASON_USER
      | Some s \<Rightarrow>
          let (d, c) = sol_decision s p in
          if d \<in> {REASON_UNIT_RULE, REASON_RESOLVE_JOB} \<and> c \<in> {CLASS_JOB, CLASS_BEST} then HY_REASON_USER
          else if d = REASON_CLEANDEPS_ERASE then HY_REASON_CLEAN
          else if d = REASON_WEAKDEP then HY_REASON_WEAKDEP
          else if p \<in> set (sol_cleandeps s) then HY_REASON_CLEAN
          else HY_REASON_DEP)"

section \<open>Problems\<close>

text \<open>The number of problems; without a solver an \<open>assert\<close> fails.\<close>

definition count_problems :: "goal \<Rightarrow> goal_error + nat" where
  "count_problems g =
     (case g_solv g of
        None \<Rightarrow> Inl GoalAssert
      | Some s \<Rightarrow> Inr (length (sol_problems s) + (if set_of (g_removal g) = {} then 0 else 1)))"

text \<open>The packages that the main rules of one problem, or of none past the last, name.\<close>

definition problem_rules :: "solution \<Rightarrow> nat \<Rightarrow> (rule_info \<times> rule_info list) list" where
  "problem_rules s i = (if i \<ge> length (sol_problems s) then [] else sol_problems s ! i)"

definition conflict_pkgs :: "solution \<Rightarrow> nat \<Rightarrow> nat list" where
  "conflict_pkgs s i = concat (map (\<lambda>(r, _).
     if ri_type r = SOLVER_RULE_PKG_CONFLICTS then [ri_source r, ri_target r]
     else if ri_type r = SOLVER_RULE_PKG_SELF_CONFLICT then [ri_source r]
     else if ri_type r = SOLVER_RULE_PKG_SAME_NAME then [ri_source r, ri_target r]
     else []) (problem_rules s i))"

definition broken_dependency_pkgs :: "solution \<Rightarrow> nat \<Rightarrow> nat list" where
  "broken_dependency_pkgs s i = concat (map (\<lambda>(r, _).
     if ri_type r = SOLVER_RULE_PKG_NOTHING_PROVIDES_DEP \<or> ri_type r = SOLVER_RULE_PKG_REQUIRES then [ri_source r] else [])
     (problem_rules s i))"

datatype package_state = STATE_ALL | STATE_AVAILABLE | STATE_INSTALLED

text \<open>\<open>dnf_package_cmp\<close> is 0.\<close>

definition same_nevra :: "goal_env \<Rightarrow> nat \<Rightarrow> nat \<Rightarrow> bool" where
  "same_nevra e p q \<longleftrightarrow> pkg_name (gpool e) p = pkg_name (gpool e) q \<and>
     evrcmp (gpool e) (pkg_evr (gpool e) p) (pkg_evr (gpool e) q) = 0 \<and> pkg_arch (gpool e) p = pkg_arch (gpool e) q"

definition remove_same_nevra :: "goal_env \<Rightarrow> nat list \<Rightarrow> nat list \<Rightarrow> nat list" where
  "remove_same_nevra e ps musters = filter (\<lambda>p. \<not> list_ex (same_nevra e p) musters) ps"

text \<open>
  The packages of all problems in the state asked for: for the available ones those that have the name, version and
  architecture of an installed one are left out.
\<close>

definition problem_packages :: "goal_env \<Rightarrow> package_state \<Rightarrow> nat list \<Rightarrow> nat list" where
  "problem_packages e state ids =
     (let inst = (\<lambda>p. so_repo (gpool e) p = installed (ge e));
          ps = queue2pset e (filter (\<lambda>p. \<not> (state = STATE_AVAILABLE \<and> inst p) \<and> \<not> (state = STATE_INSTALLED \<and> \<not> inst p)) ids);
          temporary = queue2pset e (filter (\<lambda>p. state = STATE_AVAILABLE \<and> inst p) ids)
      in if temporary = [] then ps else remove_same_nevra e ps temporary)"

definition list_conflict_pkgs :: "goal_env \<Rightarrow> package_state \<Rightarrow> goal \<Rightarrow> goal_error + nat list" where
  "list_conflict_pkgs e state g =
     (case (count_problems g, g_solv g) of
        (Inr n, Some s) \<Rightarrow> Inr (problem_packages e state (concat (map (conflict_pkgs s) [0..<n])))
      | _ \<Rightarrow> Inl GoalAssert)"

definition list_broken_dependency_pkgs :: "goal_env \<Rightarrow> package_state \<Rightarrow> goal \<Rightarrow> goal_error + nat list" where
  "list_broken_dependency_pkgs e state g =
     (case (count_problems g, g_solv g) of
        (Inr n, Some s) \<Rightarrow> Inr (problem_packages e state (concat (map (broken_dependency_pkgs s) [0..<n])))
      | _ \<Rightarrow> Inl GoalAssert)"

end
