(* ===== verification/Dnf4GoalProblems.thy ===== *)
theory Dnf4GoalProblems
  imports Dnf4GoalRun
begin

text \<open>
  The description of problems (\<open>dnf-4/libdnf/goal/Goal.cpp\<close>) and what \<open>dnf_goal_depsolve\<close> makes of a goal
  (\<open>dnf-4/libdnf/dnf-goal.cpp\<close>). Messages are in the language of the sources.
\<close>

section \<open>Messages\<close>

datatype problem_key =
    RULE_DISTUPGRADE | RULE_INFARCH | RULE_UPDATE | RULE_JOB | RULE_JOB_UNSUPPORTED | RULE_JOB_NOTHING_PROVIDES_DEP
  | RULE_JOB_UNKNOWN_PACKAGE | RULE_JOB_PROVIDED_BY_SYSTEM | RULE_PKG | RULE_BEST_1 | RULE_BEST_2
  | RULE_PKG_NOT_INSTALLABLE_1 | RULE_PKG_NOT_INSTALLABLE_2 | RULE_PKG_NOT_INSTALLABLE_3 | RULE_PKG_NOT_INSTALLABLE_4
  | RULE_PKG_NOTHING_PROVIDES_DEP | RULE_PKG_SAME_NAME | RULE_PKG_CONFLICTS | RULE_PKG_OBSOLETES
  | RULE_PKG_INSTALLED_OBSOLETES | RULE_PKG_IMPLICIT_OBSOLETES | RULE_PKG_REQUIRES | RULE_PKG_SELF_CONFLICT | RULE_YUMOBS

fun PKG_PROBLEMS_DICT :: "problem_key \<Rightarrow> string" where
  "PKG_PROBLEMS_DICT RULE_DISTUPGRADE = '' does not belong to a distupgrade repository''"
| "PKG_PROBLEMS_DICT RULE_INFARCH = '' has inferior architecture''"
| "PKG_PROBLEMS_DICT RULE_UPDATE = ''problem with installed package ''"
| "PKG_PROBLEMS_DICT RULE_JOB = ''conflicting requests''"
| "PKG_PROBLEMS_DICT RULE_JOB_UNSUPPORTED = ''unsupported request''"
| "PKG_PROBLEMS_DICT RULE_JOB_NOTHING_PROVIDES_DEP = ''nothing provides requested ''"
| "PKG_PROBLEMS_DICT RULE_JOB_UNKNOWN_PACKAGE = ''package %s does not exist''"
| "PKG_PROBLEMS_DICT RULE_JOB_PROVIDED_BY_SYSTEM = '' is provided by the system''"
| "PKG_PROBLEMS_DICT RULE_PKG = ''some dependency problem''"
| "PKG_PROBLEMS_DICT RULE_BEST_1 = ''cannot install the best update candidate for package ''"
| "PKG_PROBLEMS_DICT RULE_BEST_2 = ''cannot install the best candidate for the job''"
| "PKG_PROBLEMS_DICT RULE_PKG_NOT_INSTALLABLE_1 = ''package %s is filtered out by modular filtering''"
| "PKG_PROBLEMS_DICT RULE_PKG_NOT_INSTALLABLE_2 = ''package %s does not have a compatible architecture''"
| "PKG_PROBLEMS_DICT RULE_PKG_NOT_INSTALLABLE_3 = ''package %s is not installable''"
| "PKG_PROBLEMS_DICT RULE_PKG_NOT_INSTALLABLE_4 = ''package %s is filtered out by exclude filtering''"
| "PKG_PROBLEMS_DICT RULE_PKG_NOTHING_PROVIDES_DEP = ''nothing provides %s needed by %s''"
| "PKG_PROBLEMS_DICT RULE_PKG_SAME_NAME = ''cannot install both %s and %s''"
| "PKG_PROBLEMS_DICT RULE_PKG_CONFLICTS = ''package %s conflicts with %s provided by %s''"
| "PKG_PROBLEMS_DICT RULE_PKG_OBSOLETES = ''package %s obsoletes %s provided by %s''"
| "PKG_PROBLEMS_DICT RULE_PKG_INSTALLED_OBSOLETES = ''installed package %s obsoletes %s provided by %s''"
| "PKG_PROBLEMS_DICT RULE_PKG_IMPLICIT_OBSOLETES = ''package %s implicitly obsoletes %s provided by %s''"
| "PKG_PROBLEMS_DICT RULE_PKG_REQUIRES = ''package %s requires %s, but none of the providers can be installed''"
| "PKG_PROBLEMS_DICT RULE_PKG_SELF_CONFLICT = ''package %s conflicts with %s provided by itself''"
| "PKG_PROBLEMS_DICT RULE_YUMOBS = ''both package %s and %s obsolete %s''"

fun MODULE_PROBLEMS_DICT :: "problem_key \<Rightarrow> string" where
  "MODULE_PROBLEMS_DICT RULE_DISTUPGRADE = '' does not belong to a distupgrade repository''"
| "MODULE_PROBLEMS_DICT RULE_INFARCH = '' has inferior architecture''"
| "MODULE_PROBLEMS_DICT RULE_UPDATE = ''problem with installed module ''"
| "MODULE_PROBLEMS_DICT RULE_JOB = ''conflicting requests''"
| "MODULE_PROBLEMS_DICT RULE_JOB_UNSUPPORTED = ''unsupported request''"
| "MODULE_PROBLEMS_DICT RULE_JOB_NOTHING_PROVIDES_DEP = ''nothing provides requested ''"
| "MODULE_PROBLEMS_DICT RULE_JOB_UNKNOWN_PACKAGE = ''module %s does not exist''"
| "MODULE_PROBLEMS_DICT RULE_JOB_PROVIDED_BY_SYSTEM = '' is provided by the system''"
| "MODULE_PROBLEMS_DICT RULE_PKG = ''some dependency problem''"
| "MODULE_PROBLEMS_DICT RULE_BEST_1 = ''cannot install the best update candidate for module ''"
| "MODULE_PROBLEMS_DICT RULE_BEST_2 = ''cannot install the best candidate for the job''"
| "MODULE_PROBLEMS_DICT RULE_PKG_NOT_INSTALLABLE_1 = ''module %s is disabled''"
| "MODULE_PROBLEMS_DICT RULE_PKG_NOT_INSTALLABLE_2 = ''module %s does not have a compatible architecture''"
| "MODULE_PROBLEMS_DICT RULE_PKG_NOT_INSTALLABLE_3 = ''module %s is not installable''"
| "MODULE_PROBLEMS_DICT RULE_PKG_NOT_INSTALLABLE_4 = ''module %s is disabled''"
| "MODULE_PROBLEMS_DICT RULE_PKG_NOTHING_PROVIDES_DEP = ''nothing provides %s needed by module %s''"
| "MODULE_PROBLEMS_DICT RULE_PKG_SAME_NAME = ''cannot install both modules %s and %s''"
| "MODULE_PROBLEMS_DICT RULE_PKG_CONFLICTS = ''module %s conflicts with %s provided by %s''"
| "MODULE_PROBLEMS_DICT RULE_PKG_OBSOLETES = ''module %s obsoletes %s provided by %s''"
| "MODULE_PROBLEMS_DICT RULE_PKG_INSTALLED_OBSOLETES = ''installed module %s obsoletes %s provided by %s''"
| "MODULE_PROBLEMS_DICT RULE_PKG_IMPLICIT_OBSOLETES = ''module %s implicitly obsoletes %s provided by %s''"
| "MODULE_PROBLEMS_DICT RULE_PKG_REQUIRES = ''module %s requires %s, but none of the providers can be installed''"
| "MODULE_PROBLEMS_DICT RULE_PKG_SELF_CONFLICT = ''module %s conflicts with %s provided by itself''"
| "MODULE_PROBLEMS_DICT RULE_YUMOBS = ''both module %s and %s obsolete %s''"

text \<open>\<open>tfm::format\<close> for the only directive of the messages.\<close>

fun tfm_format :: "string \<Rightarrow> string list \<Rightarrow> string" where
  "tfm_format (c # d # rest) args =
     (if c = CHR ''%'' \<and> d = CHR ''s'' then
        (case args of [] \<Rightarrow> tfm_format rest [] | a # args \<Rightarrow> a @ tfm_format rest args)
      else c # tfm_format (d # rest) args)"
| "tfm_format rest args = rest"

definition unsupported_arch :: "goal_env \<Rightarrow> nat \<Rightarrow> bool" where
  "unsupported_arch e p =
     (let a = so_arch (gpool e) p in
      a \<noteq> 0 \<and> a \<noteq> ARCH_SRC e \<and> a \<noteq> ARCH_NOSRC e \<and>
      (case id2arch e of None \<Rightarrow> False | Some f \<Rightarrow> a > lastarch e \<or> f a = 0))"

definition problemruleinfo2str :: "goal_env \<Rightarrow> rule_info \<Rightarrow> (problem_key \<Rightarrow> string) \<Rightarrow> string" where
  "problemruleinfo2str e r dict =
     (let source = solvid2str e (ri_source r); target = solvid2str e (ri_target r); dep = dep2str e (ri_dep r) in
      case ri_type r of
        SOLVER_RULE_DISTUPGRADE \<Rightarrow> source @ dict RULE_DISTUPGRADE
      | SOLVER_RULE_INFARCH \<Rightarrow> source @ dict RULE_INFARCH
      | SOLVER_RULE_UPDATE \<Rightarrow> dict RULE_UPDATE @ source
      | SOLVER_RULE_JOB \<Rightarrow> dict RULE_JOB
      | SOLVER_RULE_JOB_UNSUPPORTED \<Rightarrow> dict RULE_JOB_UNSUPPORTED
      | SOLVER_RULE_JOB_NOTHING_PROVIDES_DEP \<Rightarrow> dict RULE_JOB_NOTHING_PROVIDES_DEP @ dep
      | SOLVER_RULE_JOB_UNKNOWN_PACKAGE \<Rightarrow> tfm_format (dict RULE_JOB_UNKNOWN_PACKAGE) [dep]
      | SOLVER_RULE_JOB_PROVIDED_BY_SYSTEM \<Rightarrow> dep @ dict RULE_JOB_PROVIDED_BY_SYSTEM
      | SOLVER_RULE_PKG \<Rightarrow> dict RULE_PKG
      | SOLVER_RULE_BEST \<Rightarrow> if ri_source r > 0 then dict RULE_BEST_1 @ source else dict RULE_BEST_2
      | SOLVER_RULE_PKG_NOT_INSTALLABLE \<Rightarrow>
          tfm_format (dict
            (if disabled_solvable e (ri_source r) then
               (if ri_source r \<in> set_of (module_excludes e) then RULE_PKG_NOT_INSTALLABLE_1 else RULE_PKG_NOT_INSTALLABLE_4)
             else if unsupported_arch e (ri_source r) then RULE_PKG_NOT_INSTALLABLE_2
             else RULE_PKG_NOT_INSTALLABLE_3)) [source]
      | SOLVER_RULE_PKG_NOTHING_PROVIDES_DEP \<Rightarrow> tfm_format (dict RULE_PKG_NOTHING_PROVIDES_DEP) [dep, source]
      | SOLVER_RULE_PKG_SAME_NAME \<Rightarrow> tfm_format (dict RULE_PKG_SAME_NAME) [source, target]
      | SOLVER_RULE_PKG_CONFLICTS \<Rightarrow> tfm_format (dict RULE_PKG_CONFLICTS) [source, dep, target]
      | SOLVER_RULE_PKG_OBSOLETES \<Rightarrow> tfm_format (dict RULE_PKG_OBSOLETES) [source, dep, target]
      | SOLVER_RULE_PKG_INSTALLED_OBSOLETES \<Rightarrow> tfm_format (dict RULE_PKG_INSTALLED_OBSOLETES) [source, dep, target]
      | SOLVER_RULE_PKG_IMPLICIT_OBSOLETES \<Rightarrow> tfm_format (dict RULE_PKG_IMPLICIT_OBSOLETES) [source, dep, target]
      | SOLVER_RULE_PKG_REQUIRES \<Rightarrow> tfm_format (dict RULE_PKG_REQUIRES) [source, dep]
      | SOLVER_RULE_PKG_SELF_CONFLICT \<Rightarrow> tfm_format (dict RULE_PKG_SELF_CONFLICT) [source, dep]
      | SOLVER_RULE_YUMOBS \<Rightarrow> tfm_format (dict RULE_YUMOBS) [source, target, dep]
      | SOLVER_RULE_OTHER text \<Rightarrow> text)"

section \<open>Descriptions\<close>

fun join_names :: "string list \<Rightarrow> string" where
  "join_names [] = []"
| "join_names [n] = n"
| "join_names (n # ns) = n @ '', '' @ join_names ns"

definition protected_message :: string where
  "protected_message = ''The operation would result in removing the following protected packages: ''"

text \<open>Without any protected package the pointer to their set is null.\<close>

definition describe_protected_removal :: "goal_env \<Rightarrow> goal \<Rightarrow> goal_error + string" where
  "describe_protected_removal e g =
     (if set_of (g_removal g) \<noteq> {} then
        Inr (protected_message @ join_names (map (pkg_name (gpool e)) (case g_removal g of None \<Rightarrow> [] | Some ps \<Rightarrow> ps)))
      else case list_broken_dependency_pkgs e STATE_INSTALLED g of
          Inl err \<Rightarrow> Inl err
        | Inr ps \<Rightarrow>
            if ps \<noteq> [] \<and> g_protected g = None then Inl GoalAssert
            else let names = map (pkg_name (gpool e)) (filter (\<lambda>p. p \<in> set_of (g_protected g)) ps) in
              Inr (if names = [] then [] else protected_message @ join_names names))"

fun push_unique :: "string list \<Rightarrow> string list \<Rightarrow> string list" where
  "push_unique out [] = out"
| "push_unique out (m # ms) = push_unique (if m \<in> set out then out else out @ [m]) ms"

definition describe_problem_rules :: "goal_env \<Rightarrow> nat \<Rightarrow> bool \<Rightarrow> goal \<Rightarrow> goal_error + string list" where
  "describe_problem_rules e i pkgs g =
     (case (count_problems g, g_solv g) of
        (Inr n, Some s) \<Rightarrow>
          if i \<ge> n then Inr []
          else (case describe_protected_removal e g of
              Inl err \<Rightarrow> Inl err
            | Inr problem \<Rightarrow>
                if problem \<noteq> [] then Inr [problem]
                else Inr (push_unique [] (map (\<lambda>r. problemruleinfo2str e r (if pkgs then PKG_PROBLEMS_DICT else MODULE_PROBLEMS_DICT))
                       (concat (map snd (problem_rules s i))))))
      | _ \<Rightarrow> Inl GoalAssert)"

text \<open>Whether a list of messages of this length with all these messages is there already.\<close>

definition saved_already :: "string list list \<Rightarrow> string list \<Rightarrow> bool" where
  "saved_already out ms = list_ex (\<lambda>saved. length ms = length saved \<and> list_all (\<lambda>m. m \<in> set saved) ms) out"

fun collect_problems :: "goal_env \<Rightarrow> bool \<Rightarrow> goal \<Rightarrow> nat list \<Rightarrow> string list list \<Rightarrow> goal_error + string list list" where
  "collect_problems e pkgs g [] out = Inr out"
| "collect_problems e pkgs g (i # is) out =
     (case describe_problem_rules e i pkgs g of
        Inl err \<Rightarrow> Inl err
      | Inr ms \<Rightarrow> collect_problems e pkgs g is (if ms = [] \<or> saved_already out ms then out else out @ [ms]))"

definition describe_all_problem_rules :: "goal_env \<Rightarrow> bool \<Rightarrow> goal \<Rightarrow> goal_error + string list list" where
  "describe_all_problem_rules e pkgs g =
     (case count_problems g of Inl err \<Rightarrow> Inl err | Inr n \<Rightarrow> collect_problems e pkgs g [0..<n] [])"

section \<open>Depsolving\<close>

text \<open>
  The error text has a line for each message; the first of a problem carries its number when there are several,
  and the line break at the end is cut off. \<open>number\<close> prints a number.
\<close>

datatype depsolve_error = PackageConflicts string | NoPackagesToUpdate | OtherError goal_error

definition problem_text :: "(nat \<Rightarrow> string) \<Rightarrow> nat \<Rightarrow> nat \<Rightarrow> string list \<Rightarrow> string" where
  "problem_text number cnt j ms =
     (case ms of
        [] \<Rightarrow> []
      | m # rest \<Rightarrow>
          (if cnt \<noteq> 1 then '' Problem '' @ number (j + 1) @ '': '' @ m @ [CHR 0x0A] else '' Problem: '' @ m @ [CHR 0x0A]) @
          concat (map (\<lambda>m. ''  - '' @ m @ [CHR 0x0A]) rest))"

fun problem_texts :: "(nat \<Rightarrow> string) \<Rightarrow> goal_env \<Rightarrow> goal \<Rightarrow> nat \<Rightarrow> nat list \<Rightarrow> goal_error + string" where
  "problem_texts number e g cnt [] = Inr []"
| "problem_texts number e g cnt (j # js) =
     (case describe_problem_rules e j True g of
        Inl err \<Rightarrow> Inl err
      | Inr ms \<Rightarrow> (case problem_texts number e g cnt js of Inl err \<Rightarrow> Inl err | Inr t \<Rightarrow> Inr (problem_text number cnt j ms @ t)))"

definition depsolve_message :: "(nat \<Rightarrow> string) \<Rightarrow> goal_env \<Rightarrow> goal \<Rightarrow> goal_error + string" where
  "depsolve_message number e g =
     (case count_problems g of
        Inl err \<Rightarrow> Inl err
      | Inr cnt \<Rightarrow>
          (case problem_texts number e g cnt [0..<cnt] of
             Inl err \<Rightarrow> Inl err
           | Inr t \<Rightarrow> Inr (butlast (''Could not depsolve transaction; '' @ number cnt @
               (if cnt = 1 then '' problem detected:'' else '' problems detected:'') @ [CHR 0x0A] @ t))))"

text \<open>
  The result is the list of the packages to install whose modules are enabled after it, when there is a container
  of modules.
\<close>

definition dnf_goal_depsolve ::
  "(nat \<Rightarrow> string) \<Rightarrow> goal_env \<Rightarrow> solver \<Rightarrow> bool \<Rightarrow> hy_cmp \<Rightarrow> goal \<Rightarrow> (depsolve_error + nat list) \<times> goal" where
  "dnf_goal_depsolve number e solve has_container flags g =
     (case goal_run e solve flags g of
        Inl err \<Rightarrow> (Inl (OtherError err), g)
      | Inr (True, g) \<Rightarrow>
          ((case depsolve_message number e g of Inl err \<Rightarrow> Inl (OtherError err) | Inr t \<Rightarrow> Inl (PackageConflicts t)), g)
      | Inr (False, g) \<Rightarrow>
          if job_length g = 0 then (Inl NoPackagesToUpdate, g)
          else if \<not> has_container then (Inr [], g)
          else ((case list_installs e g of Inl err \<Rightarrow> Inl (OtherError err) | Inr ps \<Rightarrow> Inr ps), g))"

text \<open>
  \<open>dnf_goal_get_packages\<close>: the packages of the lists asked for, with the action of each. A list that fails gives a
  null pointer, which is dereferenced.
\<close>

datatype package_info =
    INFO_REMOVE | INFO_INSTALL | INFO_OBSOLETE | INFO_REINSTALL | INFO_UPDATE | INFO_DOWNGRADE

definition info_list :: "goal_env \<Rightarrow> goal \<Rightarrow> package_info \<Rightarrow> goal_error + nat list" where
  "info_list e g info =
     (case info of
        INFO_REMOVE \<Rightarrow> list_erasures e g
      | INFO_INSTALL \<Rightarrow> list_installs e g
      | INFO_OBSOLETE \<Rightarrow> list_obsoleted e g
      | INFO_REINSTALL \<Rightarrow> list_reinstalls e g
      | INFO_UPDATE \<Rightarrow> list_upgrades e g
      | INFO_DOWNGRADE \<Rightarrow> list_downgrades e g)"

fun dnf_goal_get_packages :: "goal_env \<Rightarrow> goal \<Rightarrow> package_info list \<Rightarrow> goal_error + (nat \<times> package_info) list" where
  "dnf_goal_get_packages e g [] = Inr []"
| "dnf_goal_get_packages e g (info # infos) =
     (case info_list e g info of
        Inl _ \<Rightarrow> Inl GoalAssert
      | Inr ps \<Rightarrow>
          (case dnf_goal_get_packages e g infos of
             Inl err \<Rightarrow> Inl err
           | Inr rest \<Rightarrow> Inr (map (\<lambda>p. (p, info)) ps @ rest)))"

section \<open>Unneeded packages\<close>

text \<open>
  \<open>filterUnneededOrSafeToRemove\<close> of queries runs a goal that keeps the packages which the user installed, \<open>swdb\<close>;
  those to be removed safely are first taken out of them. The result of the query shrinks to what the solver does
  not need; \<open>None\<close> is the return value -1.
\<close>

definition filter_unneeded_or_safe ::
  "goal_env \<Rightarrow> solver \<Rightarrow> (nat list \<Rightarrow> nat list) \<Rightarrow> bool \<Rightarrow> hy_query \<Rightarrow> goal_error + hy_query option" where
  "filter_unneeded_or_safe e solve swdb safe_to_remove q =
     (let q = query_apply (ge e) q;
          users = swdb (result_of (with_repo (ge e) HY_EQ (query_create 0)));
          users = (if safe_to_remove then filter (\<lambda>p. p \<notin> set (result_of q)) users else users);
          g = user_installed users goal_new
      in case goal_run e solve 0 g of
          Inl err \<Rightarrow> Inl err
        | Inr (True, g) \<Rightarrow> Inr None
        | Inr (False, g) \<Rightarrow>
            (case g_solv g of
               None \<Rightarrow> Inl GoalAssert
             | Some s \<Rightarrow> Inr (Some (set_result (filter (\<lambda>p. p \<in> set (sol_unneeded s)) (result_of q)) q))))"

end
