(* ===== verification/Dnf4QueryFacts.thy ===== *)
theory Dnf4QueryFacts
  imports Dnf4QueryRun
begin

text \<open>
  What the filters of \<open>dnf-4/libdnf/sack/query.cpp\<close> select: the loops over sorted arrays against tests of single
  packages.
\<close>

section \<open>Sorting and blocks\<close>

text \<open>\<open>solv_sort\<close> is \<open>sort_key\<close> where a key represents the comparison.\<close>

lemma insert_cmp_key:
  assumes "\<forall>y \<in> set ys. cmp x y \<le> 0 \<longleftrightarrow> key x \<le> key y"
  shows "insert_cmp cmp x ys = insort_key key x ys"
  using assms by (induction ys) auto

lemma solv_sort_key:
  assumes "\<forall>x \<in> set xs. \<forall>y \<in> set xs. cmp x y \<le> 0 \<longleftrightarrow> key x \<le> key y"
  shows "solv_sort cmp xs = sort_key key xs"
  using assms
proof (induction xs)
  case Nil
  then show ?case by (simp add: solv_sort_def)
next
  case (Cons x xs)
  have "solv_sort cmp (x # xs) = insert_cmp cmp x (solv_sort cmp xs)" by (simp add: solv_sort_def)
  also have "\<dots> = insert_cmp cmp x (sort_key key xs)" using Cons by simp
  also have "\<dots> = insort_key key x (sort_key key xs)" by (rule insert_cmp_key) (use Cons.prems in simp)
  finally show ?case by simp
qed

lemma sort_less_key:
  assumes "\<forall>x \<in> set xs. \<forall>y \<in> set xs. lower x y \<longleftrightarrow> key x < key y"
  shows "sort_less lower xs = sort_key key xs"
  unfolding sort_less_def by (rule solv_sort_key) (use assms in auto)

lemma takeWhile_sorted:
  fixes b :: "'a \<Rightarrow> 'b :: linorder"
  assumes "sorted (map b (x # xs))"
  shows "takeWhile (\<lambda>y. b x = b y) xs = filter (\<lambda>y. b x = b y) xs"
    "dropWhile (\<lambda>y. b x = b y) xs = filter (\<lambda>y. b x \<noteq> b y) xs"
  using assms
proof (induction xs)
  case Nil
  {
    case 1
    then show ?case by simp
  next
    case 2
    then show ?case by simp
  }
next
  case (Cons y ys)
  have rest: "sorted (map b (x # ys))" if "sorted (map b (x # y # ys))" using that by simp
  have gone: "filter (\<lambda>z. b x = b z) ys = []" "filter (\<lambda>z. b x \<noteq> b z) ys = ys"
    if "sorted (map b (x # y # ys))" "b x \<noteq> b y"
  proof -
    have "\<forall>z \<in> set ys. b x < b z" using that by (auto simp: order.strict_iff_order dest: order.trans)
    then show "filter (\<lambda>z. b x = b z) ys = []" "filter (\<lambda>z. b x \<noteq> b z) ys = ys"
      by (force simp: filter_empty_conv filter_id_conv)+
  qed
  {
    case 1
    then show ?case using Cons.IH(1) [OF rest [OF 1]] gone by (cases "b x = b y") auto
  next
    case 2
    then show ?case using Cons.IH(2) [OF rest [OF 2]] gone by (cases "b x = b y") auto
  }
qed

lemma split_blocks_set:
  fixes b :: "'a \<Rightarrow> 'b :: linorder"
  assumes "\<And>x y. same x y \<longleftrightarrow> b x = b y" "sorted (map b xs)"
  shows "set (split_blocks same xs) = (\<lambda>c. filter (\<lambda>y. b y = c) xs) ` b ` set xs"
  using assms(2)
proof (induction "length xs" arbitrary: xs rule: less_induct)
  case less
  show ?case
  proof (cases xs)
    case Nil
    then show ?thesis by simp
  next
    case (Cons x ys)
    have same: "same x = (\<lambda>y. b x = b y)" using assms(1) by auto
    let ?zs = "filter (\<lambda>y. b x \<noteq> b y) ys"
    have cut: "takeWhile (same x) ys = filter (\<lambda>y. b x = b y) ys" "dropWhile (same x) ys = ?zs"
      using takeWhile_sorted [of b x ys] less.prems unfolding Cons same by auto
    have IH: "set (split_blocks same ?zs) = (\<lambda>c. filter (\<lambda>y. b y = c) ?zs) ` b ` set ?zs"
    proof (rule less.hyps)
      show "length ?zs < length xs" using Cons by (simp add: less_Suc_eq_le)
      show "sorted (map b ?zs)" using less.prems Cons by (simp add: sorted_filter)
    qed
    have other: "filter (\<lambda>y. b y = c) ?zs = filter (\<lambda>y. b y = c) xs" if "c \<noteq> b x" for c
      using that Cons by (auto simp: filter_filter intro: filter_cong)
    have "set (split_blocks same xs) = insert (x # filter (\<lambda>y. b x = b y) ys) (set (split_blocks same ?zs))"
      unfolding Cons split_blocks.simps cut by simp
    also have "set (split_blocks same ?zs) = (\<lambda>c. filter (\<lambda>y. b y = c) xs) ` b ` set ?zs"
      unfolding IH by (rule image_cong) (use other in auto)
    also have "x # filter (\<lambda>y. b x = b y) ys = filter (\<lambda>y. b y = b x) xs"
      using Cons by (auto intro: filter_cong)
    also have "insert (filter (\<lambda>y. b y = b x) xs) ((\<lambda>c. filter (\<lambda>y. b y = c) xs) ` b ` set ?zs) =
        (\<lambda>c. filter (\<lambda>y. b y = c) xs) ` insert (b x) (b ` set ?zs)" by simp
    also have "insert (b x) (b ` set ?zs) = b ` set xs" using Cons by auto
    finally show ?thesis .
  qed
qed

lemma blocks_member:
  fixes b :: "'a \<Rightarrow> 'b :: linorder"
  assumes "\<And>x y. same x y \<longleftrightarrow> b x = b y" "sorted (map b xs)" "\<And>ys. set (g ys) \<subseteq> set ys"
  shows "p \<in> set (concat (map g (split_blocks same xs))) \<longleftrightarrow> p \<in> set xs \<and> p \<in> set (g (filter (\<lambda>y. b y = b p) xs))"
proof -
  have "p \<in> set (concat (map g (split_blocks same xs))) \<longleftrightarrow> (\<exists>x \<in> set xs. p \<in> set (g (filter (\<lambda>y. b y = b x) xs)))"
    using split_blocks_set [OF assms(1,2)] by simp
  also have "\<dots> \<longleftrightarrow> p \<in> set xs \<and> p \<in> set (g (filter (\<lambda>y. b y = b p) xs))"
  proof
    assume "\<exists>x \<in> set xs. p \<in> set (g (filter (\<lambda>y. b y = b x) xs))"
    then obtain x where x: "x \<in> set xs" "p \<in> set (g (filter (\<lambda>y. b y = b x) xs))" by blast
    then have "p \<in> set (filter (\<lambda>y. b y = b x) xs)" using assms(3) by blast
    then have "p \<in> set xs" "b p = b x" by auto
    then show "p \<in> set xs \<and> p \<in> set (g (filter (\<lambda>y. b y = b p) xs))" using x by simp
  qed blast
  finally show ?thesis .
qed

section \<open>The newest versions\<close>

abbreviation evr_of :: "hy_env \<Rightarrow> nat \<Rightarrow> nat" where "evr_of e p \<equiv> so_evr (hp e) p"

text \<open>
  The comparison of versions is that of ranks: a total order, in which two different ids among the versions of
  these packages are never equal.
\<close>

definition evr_ranked :: "hy_env \<Rightarrow> (nat \<Rightarrow> int) \<Rightarrow> nat list \<Rightarrow> bool" where
  "evr_ranked e rank ps \<longleftrightarrow>
     (\<forall>a \<in> evr_of e ` set ps. \<forall>b \<in> evr_of e ` set ps. sgn (evr_cmp e a b) = sgn (rank a - rank b)) \<and>
     inj_on rank (evr_of e ` set ps)"

text \<open>The versions of the same kind of package that are newer than a package.\<close>

definition newer_evrs :: "hy_env \<Rightarrow> hy_key \<Rightarrow> nat list \<Rightarrow> nat \<Rightarrow> nat set" where
  "newer_evrs e k ps p =
     set (map (evr_of e) (filter (\<lambda>r. same_block e k p r \<and> evr_cmp e (evr_of e r) (evr_of e p) > 0) ps))"

definition latest_wanted :: "int \<Rightarrow> int \<Rightarrow> bool" where
  "latest_wanted latest n \<longleftrightarrow> (if latest > 0 then n < latest else \<not> n < - latest)"

lemma card_above:
  fixes rank :: "nat \<Rightarrow> int"
  assumes "finite E" "inj_on rank (insert prev E)" "\<forall>v \<in> E. rank v \<le> rank x" "x \<in> E" "rank x \<le> rank prev" "rank q \<le> rank x"
  shows "int (card {v \<in> insert prev E. rank v > rank q}) =
    (if prev \<noteq> x then 1 else 0) + int (card {v \<in> E. rank v > rank q})"
proof (cases "prev = x")
  case True
  then have "insert prev E = E" using assms(4) by auto
  then show ?thesis using True by simp
next
  case False
  then have "rank x \<noteq> rank prev" using assms(2,4) by (auto simp: inj_on_def)
  then have above: "rank x < rank prev" using assms(5) by simp
  then have "prev \<notin> E" using assms(3) by force
  moreover have "{v \<in> insert prev E. rank v > rank q} = insert prev {v \<in> E. rank v > rank q}"
    using above assms(6) by auto
  ultimately show ?thesis using False assms(1) by simp
qed

lemma add_latest_step:
  assumes "n' = (if prev \<noteq> evr_of e p then n + 1 else n)"
  shows "add_latest e latest (p # ps) prev n =
    (if latest_wanted latest n' then p # add_latest e latest ps (evr_of e p) n'
     else if latest > 0 then [] else add_latest e latest ps (evr_of e p) n')"
  using assms by (simp add: Let_def latest_wanted_def)

lemma add_latest_set:
  fixes rank :: "nat \<Rightarrow> int"
  assumes "latest \<noteq> 0" "sorted_wrt (\<lambda>p q. rank (evr_of e q) \<le> rank (evr_of e p)) ps"
    "\<forall>p \<in> set ps. rank (evr_of e p) \<le> rank prev" "inj_on rank (insert prev (evr_of e ` set ps))"
  shows "q \<in> set (add_latest e latest ps prev c) \<longleftrightarrow> q \<in> set ps \<and>
    latest_wanted latest (c + int (card {v \<in> insert prev (evr_of e ` set ps). rank v > rank (evr_of e q)}))"
  using assms
proof (induction ps arbitrary: prev c)
  case Nil
  then show ?case by simp
next
  case (Cons x xs)
  let ?x = "evr_of e x" and ?E = "evr_of e ` set (x # xs)"
  define N where "N q = int (card {v \<in> ?E. rank v > rank (evr_of e q)})" for q
  define c' where "c' = (if prev \<noteq> ?x then c + 1 else c)"
  have below: "\<forall>v \<in> ?E. rank v \<le> rank ?x" using Cons.prems(2) by auto
  have count: "c + int (card {v \<in> insert prev ?E. rank v > rank (evr_of e q)}) = c' + N q" if "q \<in> set (x # xs)" for q
    using card_above [of ?E rank prev ?x "evr_of e q"] Cons.prems below that by (auto simp: N_def c'_def)
  have E: "insert ?x (evr_of e ` set xs) = ?E" by simp
  have IH: "q \<in> set (add_latest e latest xs ?x c') \<longleftrightarrow> q \<in> set xs \<and> latest_wanted latest (c' + N q)"
    using Cons.IH [of ?x c'] Cons.prems unfolding E N_def by (auto simp: inj_on_def)
  have "{v \<in> ?E. rank v > rank ?x} = {}" using below by force
  then have first: "N x = 0" by (simp add: N_def)
  have unfolded: "q \<in> set (add_latest e latest (x # xs) prev c) \<longleftrightarrow> q \<in> set (x # xs) \<and> latest_wanted latest (c' + N q)"
  proof (cases "latest_wanted latest c'")
    case True
    then have "add_latest e latest (x # xs) prev c = x # add_latest e latest xs ?x c'"
      by (simp add: add_latest_step [OF c'_def] del: add_latest.simps)
    then show ?thesis using IH first True by auto
  next
    case False
    then have step: "add_latest e latest (x # xs) prev c = (if latest > 0 then [] else add_latest e latest xs ?x c')"
      by (simp add: add_latest_step [OF c'_def] del: add_latest.simps)
    have "\<not> latest_wanted latest (c' + N q)" if "latest > 0"
      using False that by (auto simp: latest_wanted_def N_def)
    then show ?thesis using step IH first False by auto
  qed
  show ?case
  proof (cases "q \<in> set (x # xs)")
    case True
    then show ?thesis unfolding unfolded by (simp only: count)
  next
    case False
    then show ?thesis unfolding unfolded by simp
  qed
qed

text \<open>The key of the two comparisons: name, architecture or nothing, version from the newest, id.\<close>

definition latest_key :: "hy_env \<Rightarrow> hy_key \<Rightarrow> (nat \<Rightarrow> int) \<Rightarrow> nat \<Rightarrow> (nat \<times> nat) \<times> int \<times> nat" where
  "latest_key e k rank p =
     ((so_name (hp e) p, if k = HY_PKG_LATEST_PER_ARCH then so_arch (hp e) p else 0), - rank (evr_of e p), p)"

lemma sgn_cmp:
  assumes "sgn (c :: int) = sgn (a - b)"
  shows "c = 0 \<longleftrightarrow> a = b" "c \<le> 0 \<longleftrightarrow> a \<le> b" "c > 0 \<longleftrightarrow> a > b"
  using assms by (auto simp: sgn_if split: if_splits)

lemma latest_sortcmp_key:
  assumes "evr_ranked e rank ps" "a \<in> set ps" "b \<in> set ps"
  shows "(if k = HY_PKG_LATEST_PER_ARCH then filter_latest_sortcmp_byarch e else filter_latest_sortcmp e) a b \<le> 0 \<longleftrightarrow>
    latest_key e k rank a \<le> latest_key e k rank b"
proof -
  have "sgn (evr_cmp e (evr_of e b) (evr_of e a)) = sgn (rank (evr_of e b) - rank (evr_of e a))"
    using assms unfolding evr_ranked_def by blast
  note c = sgn_cmp [OF this]
  show ?thesis
    by (auto simp: filter_latest_sortcmp_byarch_def filter_latest_sortcmp_def latest_key_def Let_def c)
qed

lemma same_block_key:
  "same_block e k a b \<longleftrightarrow> fst (latest_key e k rank a) = fst (latest_key e k rank b)"
  by (auto simp: same_block_def latest_key_def)

lemma add_latest_subset: "set (add_latest e latest ps prev c) \<subseteq> set ps"
  by (induction ps arbitrary: prev c) (auto simp: Let_def)

lemma add_latest_to_map_subset: "set (add_latest_to_map e latest ps) \<subseteq> set ps"
  unfolding add_latest_to_map_def using add_latest_subset by (cases ps) (simp, simp only: list.case)

lemma add_latest_to_map_set:
  fixes rank :: "nat \<Rightarrow> int"
  assumes "latest \<noteq> 0" "sorted_wrt (\<lambda>p q. rank (evr_of e q) \<le> rank (evr_of e p)) ps" "inj_on rank (evr_of e ` set ps)"
  shows "q \<in> set (add_latest_to_map e latest ps) \<longleftrightarrow> q \<in> set ps \<and>
    latest_wanted latest (int (card {v \<in> evr_of e ` set ps. rank v > rank (evr_of e q)}))"
proof (cases ps)
  case Nil
  then show ?thesis by (simp add: add_latest_to_map_def)
next
  case (Cons x xs)
  have "insert (evr_of e x) (evr_of e ` set ps) = evr_of e ` set ps" using Cons by auto
  then show ?thesis
    using add_latest_set [OF assms(1,2), where prev = "evr_of e x" and q = q and c = 0] assms Cons
    by (auto simp: add_latest_to_map_def simp del: add_latest.simps)
qed

lemma fst_le: "a \<le> b \<Longrightarrow> fst a \<le> fst b" for a b :: "'a :: linorder \<times> 'b :: linorder"
  by (cases a; cases b) auto

lemma latest_block_sorted:
  assumes "evr_ranked e rank ps"
  shows "sorted_wrt (\<lambda>p q. rank (evr_of e q) \<le> rank (evr_of e p))
    (filter (\<lambda>y. fst (latest_key e k rank y) = c) (sort_key (latest_key e k rank) ps))"
proof -
  let ?key = "latest_key e k rank"
  have "sorted_wrt (\<lambda>p q. ?key p \<le> ?key q) (filter (\<lambda>y. fst (?key y) = c) (sort_key ?key ps))"
    using sorted_filter [OF sorted_sort_key] by (simp add: sorted_wrt_map)
  then show ?thesis by (rule sorted_wrt_mono_rel [rotated]) (auto simp: latest_key_def)
qed

lemma newer_evrs_ranked:
  assumes "evr_ranked e rank ps" "p \<in> set ps"
  shows "newer_evrs e k ps p = {v \<in> evr_of e ` {r \<in> set ps. same_block e k p r}. rank v > rank (evr_of e p)}"
proof -
  have "evr_cmp e (evr_of e r) (evr_of e p) > 0 \<longleftrightarrow> rank (evr_of e r) > rank (evr_of e p)" if "r \<in> set ps" for r
    using assms that sgn_cmp(3) unfolding evr_ranked_def by blast
  then show ?thesis unfolding newer_evrs_def by auto
qed

lemma filter_latest_iff:
  assumes "evr_ranked e rank ps" "f_matches f = [MNum latest]"
  shows "p \<in> set (filter_latest e f ps) \<longleftrightarrow>
    p \<in> set ps \<and> latest \<noteq> 0 \<and> latest_wanted latest (int (card (newer_evrs e (f_key f) ps p)))"
proof (cases "latest = 0")
  case True
  then show ?thesis using assms(2) by (simp add: filter_latest_def num_of_def)
next
  case False
  let ?k = "f_key f"
  let ?key = "latest_key e ?k rank"
  let ?b = "\<lambda>p. fst (?key p)"
  define xs where "xs = sort_key ?key ps"
  have sorted_xs: "solv_sort (if ?k = HY_PKG_LATEST_PER_ARCH then filter_latest_sortcmp_byarch e else filter_latest_sortcmp e) ps = xs"
    unfolding xs_def by (rule solv_sort_key) (use latest_sortcmp_key [OF assms(1)] in blast)
  have block: "set (filter (\<lambda>y. ?b y = ?b p) xs) = {r \<in> set ps. same_block e ?k p r}"
    by (auto simp: xs_def same_block_key [of e ?k _ _ rank])
  have sorted_b: "sorted (map ?b xs)"
  proof -
    have "sorted_wrt (\<lambda>p q. ?key p \<le> ?key q) xs"
      using sorted_sort_key [of ?key ps] by (simp add: xs_def sorted_wrt_map)
    then show ?thesis unfolding sorted_wrt_map by (rule sorted_wrt_mono_rel [rotated]) (rule fst_le)
  qed
  have "set (filter_latest e f ps) = set (concat (map (add_latest_to_map e latest) (split_blocks (same_block e ?k) xs)))"
    using False assms(2) sorted_xs by (simp add: filter_latest_def num_of_def Let_def)
  also have "p \<in> \<dots> \<longleftrightarrow> p \<in> set xs \<and> p \<in> set (add_latest_to_map e latest (filter (\<lambda>y. ?b y = ?b p) xs))"
    by (rule blocks_member [OF same_block_key sorted_b add_latest_to_map_subset])
  also have "\<dots> \<longleftrightarrow> p \<in> set ps \<and>
      latest_wanted latest (int (card {v \<in> evr_of e ` {r \<in> set ps. same_block e ?k p r}. rank v > rank (evr_of e p)}))"
  proof -
    have "inj_on rank (evr_of e ` set (filter (\<lambda>y. ?b y = ?b p) xs))"
      unfolding block using assms(1) unfolding evr_ranked_def by (auto intro: inj_on_subset)
    from add_latest_to_map_set [OF False _ this, of p]
    show ?thesis using latest_block_sorted [OF assms(1), of ?k "?b p"] unfolding block xs_def [symmetric]
      by (auto simp: xs_def same_block_def)
  qed
  also have "\<dots> \<longleftrightarrow> p \<in> set ps \<and> latest_wanted latest (int (card (newer_evrs e ?k ps p)))"
    using newer_evrs_ranked [OF assms(1)] by auto
  finally show ?thesis using False by simp
qed

section \<open>Upgrades and downgrades\<close>

text \<open>The two loops are one: candidates, one of which may rule the change out, and the best of them.\<close>

fun pick_loop :: "(nat \<Rightarrow> bool) \<Rightarrow> (nat \<Rightarrow> bool) \<Rightarrow> (nat \<Rightarrow> nat \<Rightarrow> bool) \<Rightarrow> nat list \<Rightarrow> nat \<Rightarrow> nat" where
  "pick_loop c bad better [] l = l"
| "pick_loop c bad better (p # ps) l =
     (if \<not> c p then pick_loop c bad better ps l
      else if bad p then 0
      else if l = 0 \<or> better p l then pick_loop c bad better ps p
      else pick_loop c bad better ps l)"

definition upgrade_candidate :: "hy_env \<Rightarrow> nat \<Rightarrow> nat \<Rightarrow> bool" where
  "upgrade_candidate e s p \<longleftrightarrow> is_installed e p \<and> so_name (hp e) p = so_name (hp e) s \<and>
     (so_arch (hp e) p = so_arch (hp e) s \<or> so_arch (hp e) p = ARCH_NOARCH e \<or> so_arch (hp e) s = ARCH_NOARCH e)"

definition downgrade_candidate :: "hy_env \<Rightarrow> nat \<Rightarrow> nat \<Rightarrow> bool" where
  "downgrade_candidate e s p \<longleftrightarrow>
     is_installed e p \<and> so_name (hp e) p = so_name (hp e) s \<and> so_arch (hp e) p = so_arch (hp e) s"

lemma upgrades_loop_pick:
  "upgrades_loop e s ps l = pick_loop (upgrade_candidate e s) (\<lambda>p. evr_cmp e (evr_of e p) (evr_of e s) \<ge> 0)
     (\<lambda>p l. evr_cmp e (evr_of e p) (evr_of e l) > 0) ps l"
  by (induction ps arbitrary: l) (simp_all add: upgrade_candidate_def)

lemma downgrades_loop_pick:
  "downgrades_loop e s ps l = pick_loop (downgrade_candidate e s) (\<lambda>p. evr_cmp e (evr_of e p) (evr_of e s) \<le> 0)
     (\<lambda>p l. evr_cmp e (evr_of e p) (evr_of e l) < 0) ps l"
  by (induction ps arbitrary: l) (simp_all add: downgrade_candidate_def)

lemma pick_loop_bad: "\<exists>p \<in> set ps. c p \<and> bad p \<Longrightarrow> pick_loop c bad better ps l = 0"
  by (induction ps arbitrary: l) auto

lemma pick_loop_none: "\<forall>p \<in> set ps. \<not> c p \<Longrightarrow> pick_loop c bad better ps l = l"
  by (induction ps arbitrary: l) auto

lemma pick_loop_best:
  fixes r :: "nat \<Rightarrow> int"
  assumes "\<forall>p \<in> set ps. c p \<longrightarrow> \<not> bad p" "\<forall>p \<in> M. \<forall>l \<in> M. better p l \<longleftrightarrow> r p > r l"
    "set (filter c ps) \<subseteq> M" "l \<in> M" "0 \<notin> M"
  shows "pick_loop c bad better ps l \<in> insert l (set (filter c ps)) \<and> r l \<le> r (pick_loop c bad better ps l) \<and>
    (\<forall>p \<in> set (filter c ps). r p \<le> r (pick_loop c bad better ps l))"
  using assms
proof (induction ps arbitrary: l)
  case Nil
  then show ?case by simp
next
  case (Cons p ps)
  consider (no) "\<not> c p" | (better) "c p" "r p > r l" | (worse) "c p" "r p \<le> r l" by force
  then show ?case
  proof cases
    case no
    then show ?thesis using Cons.IH [of l] Cons.prems by simp
  next
    case better
    then have "better p l" "p \<in> M" using Cons.prems by auto
    then have "pick_loop c bad better (p # ps) l = pick_loop c bad better ps p" using better Cons.prems(1) by simp
    then show ?thesis using Cons.IH [of p] Cons.prems better \<open>p \<in> M\<close> by auto
  next
    case worse
    then have "\<not> better p l" "l \<noteq> 0" using Cons.prems by auto
    then have "pick_loop c bad better (p # ps) l = pick_loop c bad better ps l" using worse Cons.prems(1) by simp
    then show ?thesis using Cons.IH [of l] Cons.prems worse by auto
  qed
qed

lemma pick_loop_from_zero:
  fixes r :: "nat \<Rightarrow> int"
  assumes "\<forall>p \<in> set ps. c p \<longrightarrow> \<not> bad p" "\<exists>p \<in> set ps. c p"
    "\<forall>p \<in> set (filter c ps). \<forall>l \<in> set (filter c ps). better p l \<longleftrightarrow> r p > r l" "0 \<notin> set (filter c ps)"
  shows "pick_loop c bad better ps 0 \<in> set (filter c ps) \<and>
    (\<forall>p \<in> set (filter c ps). r p \<le> r (pick_loop c bad better ps 0))"
  using assms
proof (induction ps)
  case Nil
  then show ?case by simp
next
  case (Cons p ps)
  show ?case
  proof (cases "c p")
    case True
    then have "pick_loop c bad better (p # ps) 0 = pick_loop c bad better ps p" using Cons.prems(1) by simp
    then show ?thesis
      using pick_loop_best [of ps c bad "set (filter c (p # ps))" better r p] True Cons.prems by auto
  next
    case False
    then show ?thesis using Cons by simp
  qed
qed

text \<open>Providers of the name of \<open>s\<close> with their versions, and no package with the id 0 among them.\<close>

definition providers_ranked :: "hy_env \<Rightarrow> (nat \<Rightarrow> int) \<Rightarrow> nat \<Rightarrow> bool" where
  "providers_ranked e rank s \<longleftrightarrow>
     0 \<notin> set (provides_of (hp e) (so_name (hp e) s)) \<and> evr_ranked e rank (s # provides_of (hp e) (so_name (hp e) s))"

lemma ranked_cmp:
  assumes "evr_ranked e rank ps" "a \<in> set ps" "b \<in> set ps"
  shows "evr_cmp e (evr_of e a) (evr_of e b) > 0 \<longleftrightarrow> rank (evr_of e a) > rank (evr_of e b)"
    "evr_cmp e (evr_of e a) (evr_of e b) \<le> 0 \<longleftrightarrow> rank (evr_of e a) \<le> rank (evr_of e b)"
    "evr_cmp e (evr_of e a) (evr_of e b) < 0 \<longleftrightarrow> rank (evr_of e a) < rank (evr_of e b)"
    "evr_cmp e (evr_of e a) (evr_of e b) \<ge> 0 \<longleftrightarrow> rank (evr_of e a) \<ge> rank (evr_of e b)"
proof -
  have "sgn (evr_cmp e (evr_of e a) (evr_of e b)) = sgn (rank (evr_of e a) - rank (evr_of e b))"
    using assms unfolding evr_ranked_def by blast
  note c = sgn_cmp [OF this]
  show "evr_cmp e (evr_of e a) (evr_of e b) > 0 \<longleftrightarrow> rank (evr_of e a) > rank (evr_of e b)"
    "evr_cmp e (evr_of e a) (evr_of e b) \<le> 0 \<longleftrightarrow> rank (evr_of e a) \<le> rank (evr_of e b)"
    by (fact c)+
  show "evr_cmp e (evr_of e a) (evr_of e b) < 0 \<longleftrightarrow> rank (evr_of e a) < rank (evr_of e b)"
    "evr_cmp e (evr_of e a) (evr_of e b) \<ge> 0 \<longleftrightarrow> rank (evr_of e a) \<ge> rank (evr_of e b)"
    using c by linarith+
qed

lemma what_upgrades_cases:
  assumes "providers_ranked e rank s"
  defines "C \<equiv> set (filter (upgrade_candidate e s) (provides_of (hp e) (so_name (hp e) s)))"
  obtains (none) "C = {} \<or> (\<exists>p \<in> C. evr_cmp e (evr_of e p) (evr_of e s) \<ge> 0)" "what_upgrades e s = 0"
  | (best) "\<forall>p \<in> C. evr_cmp e (evr_of e p) (evr_of e s) < 0" "what_upgrades e s \<in> C"
      "\<forall>p \<in> C. evr_cmp e (evr_of e p) (evr_of e (what_upgrades e s)) \<le> 0"
proof (cases "C = {} \<or> (\<exists>p \<in> C. evr_cmp e (evr_of e p) (evr_of e s) \<ge> 0)")
  case True
  then have "what_upgrades e s = 0"
  proof
    assume "C = {}"
    then show ?thesis unfolding what_upgrades_def upgrades_loop_pick
      by (intro pick_loop_none) (auto simp: C_def filter_empty_conv)
  next
    assume "\<exists>p \<in> C. evr_cmp e (evr_of e p) (evr_of e s) \<ge> 0"
    then show ?thesis unfolding what_upgrades_def upgrades_loop_pick
      by (intro pick_loop_bad) (auto simp: C_def)
  qed
  then show ?thesis using True by (rule none [rotated])
next
  case False
  let ?ps = "provides_of (hp e) (so_name (hp e) s)"
  have ranked: "evr_ranked e rank (s # ?ps)" "0 \<notin> set ?ps" using assms unfolding providers_ranked_def by auto
  have "what_upgrades e s \<in> C \<and> (\<forall>p \<in> C. rank (evr_of e p) \<le> rank (evr_of e (what_upgrades e s)))"
    unfolding what_upgrades_def upgrades_loop_pick C_def
    by (rule pick_loop_from_zero)
       (use False ranked ranked_cmp(1) [OF ranked(1)] in \<open>auto simp: C_def\<close>)
  moreover have "C \<subseteq> set (s # ?ps)" by (auto simp: C_def)
  ultimately have "what_upgrades e s \<in> C" "\<forall>p \<in> C. evr_cmp e (evr_of e p) (evr_of e (what_upgrades e s)) \<le> 0"
    using ranked_cmp(2) [OF ranked(1)] by blast+
  moreover have "\<forall>p \<in> C. evr_cmp e (evr_of e p) (evr_of e s) < 0" using False by force
  ultimately show ?thesis by (rule best [rotated])
qed

lemma what_downgrades_cases:
  assumes "providers_ranked e rank s"
  defines "C \<equiv> set (filter (downgrade_candidate e s) (provides_of (hp e) (so_name (hp e) s)))"
  obtains (none) "C = {} \<or> (\<exists>p \<in> C. evr_cmp e (evr_of e p) (evr_of e s) \<le> 0)" "what_downgrades e s = 0"
  | (best) "\<forall>p \<in> C. evr_cmp e (evr_of e p) (evr_of e s) > 0" "what_downgrades e s \<in> C"
      "\<forall>p \<in> C. evr_cmp e (evr_of e p) (evr_of e (what_downgrades e s)) \<ge> 0"
proof (cases "C = {} \<or> (\<exists>p \<in> C. evr_cmp e (evr_of e p) (evr_of e s) \<le> 0)")
  case True
  then have "what_downgrades e s = 0"
  proof
    assume "C = {}"
    then show ?thesis unfolding what_downgrades_def downgrades_loop_pick
      by (intro pick_loop_none) (auto simp: C_def filter_empty_conv)
  next
    assume "\<exists>p \<in> C. evr_cmp e (evr_of e p) (evr_of e s) \<le> 0"
    then show ?thesis unfolding what_downgrades_def downgrades_loop_pick
      by (intro pick_loop_bad) (auto simp: C_def)
  qed
  then show ?thesis using True by (rule none [rotated])
next
  case False
  let ?ps = "provides_of (hp e) (so_name (hp e) s)"
  have ranked: "evr_ranked e rank (s # ?ps)" "0 \<notin> set ?ps" using assms unfolding providers_ranked_def by auto
  have best_one: "what_downgrades e s \<in> C \<and> (\<forall>p \<in> C. - rank (evr_of e p) \<le> - rank (evr_of e (what_downgrades e s)))"
    unfolding what_downgrades_def downgrades_loop_pick C_def
    by (rule pick_loop_from_zero)
       (use False ranked ranked_cmp(3) [OF ranked(1)] in \<open>auto simp: C_def\<close>)
  have C: "\<And>p. p \<in> C \<Longrightarrow> p \<in> set (s # ?ps)" by (auto simp: C_def)
  have "\<forall>p \<in> C. evr_cmp e (evr_of e p) (evr_of e (what_downgrades e s)) \<ge> 0"
  proof
    fix p assume "p \<in> C"
    then show "evr_cmp e (evr_of e p) (evr_of e (what_downgrades e s)) \<ge> 0"
      using ranked_cmp(4) [OF ranked(1) C [of p] C [OF conjunct1 [OF best_one]]] best_one by simp
  qed
  moreover have "\<forall>p \<in> C. evr_cmp e (evr_of e p) (evr_of e s) > 0" using False by force
  ultimately show ?thesis using best_one by (intro best) simp_all
qed

section \<open>Priorities\<close>

lemma by_priority_set:
  assumes "sorted_wrt (\<lambda>a b. so_name (hp e) a < so_name (hp e) b \<or>
      so_name (hp e) a = so_name (hp e) b \<and> priority_of e b \<le> priority_of e a) xs"
    "\<forall>x \<in> set xs. name < so_name (hp e) x \<or> name = so_name (hp e) x \<and> priority_of e x \<le> prio"
  shows "p \<in> set (by_priority e xs name prio) \<longleftrightarrow> p \<in> set xs \<and>
    (if name = so_name (hp e) p then priority_of e p = prio
     else \<forall>r \<in> set xs. so_name (hp e) r = so_name (hp e) p \<longrightarrow> priority_of e r \<le> priority_of e p)"
  using assms
proof (induction xs arbitrary: name prio)
  case Nil
  then show ?case by simp
next
  case (Cons x xs)
  show ?case
  proof (cases "name = so_name (hp e) x")
    case True
    have IH: "p \<in> set (by_priority e xs name prio) \<longleftrightarrow> p \<in> set xs \<and>
        (if name = so_name (hp e) p then priority_of e p = prio
         else \<forall>r \<in> set xs. so_name (hp e) r = so_name (hp e) p \<longrightarrow> priority_of e r \<le> priority_of e p)"
      using Cons.IH Cons.prems by simp
    show ?thesis using True IH by auto
  next
    case False
    have IH: "p \<in> set (by_priority e xs (so_name (hp e) x) (priority_of e x)) \<longleftrightarrow> p \<in> set xs \<and>
        (if so_name (hp e) x = so_name (hp e) p then priority_of e p = priority_of e x
         else \<forall>r \<in> set xs. so_name (hp e) r = so_name (hp e) p \<longrightarrow> priority_of e r \<le> priority_of e p)"
      using Cons.IH [of "so_name (hp e) x" "priority_of e x"] Cons.prems by auto
    have "name < so_name (hp e) r" if "r \<in> set (x # xs)" for r using Cons.prems False that by force
    then have names: "name \<noteq> so_name (hp e) p" if "p \<in> set (x # xs)" using that by force
    have below: "priority_of e r \<le> priority_of e x" if "r \<in> set xs" "so_name (hp e) r = so_name (hp e) x" for r
      using Cons.prems(1) that by auto
    have step: "by_priority e (x # xs) name prio = x # by_priority e xs (so_name (hp e) x) (priority_of e x)"
      using False by simp
    show ?thesis
    proof (cases "p \<in> set (x # xs)")
      case True
      then show ?thesis unfolding step using IH names below by (auto intro: order.antisym)
    next
      case False
      then show ?thesis unfolding step using IH by auto
    qed
  qed
qed

definition top_priority :: "hy_env \<Rightarrow> nat list \<Rightarrow> nat \<Rightarrow> bool" where
  "top_priority e ps p \<longleftrightarrow> list_all (\<lambda>r. so_name (hp e) r = so_name (hp e) p \<longrightarrow> priority_of e r \<le> priority_of e p) ps"

lemma sorted_by_priority:
  "sorted_wrt (\<lambda>a b. so_name (hp e) a < so_name (hp e) b \<or>
      so_name (hp e) a = so_name (hp e) b \<and> priority_of e b \<le> priority_of e a) (sort_less (NamePrioritySolvableKey e) ps)"
  "set (sort_less (NamePrioritySolvableKey e) ps) = set ps"
proof -
  let ?key = "\<lambda>p. (so_name (hp e) p, - priority_of e p)"
  have s: "sort_less (NamePrioritySolvableKey e) ps = sort_key ?key ps"
    by (rule sort_less_key) (auto simp: NamePrioritySolvableKey_def)
  show "set (sort_less (NamePrioritySolvableKey e) ps) = set ps" unfolding s by simp
  have "sorted_wrt (\<lambda>a b. ?key a \<le> ?key b) (sort_key ?key ps)"
    using sorted_sort_key [of ?key ps] by (simp add: sorted_wrt_map)
  then show "sorted_wrt (\<lambda>a b. so_name (hp e) a < so_name (hp e) b \<or>
      so_name (hp e) a = so_name (hp e) b \<and> priority_of e b \<le> priority_of e a) (sort_less (NamePrioritySolvableKey e) ps)"
    unfolding s by (rule sorted_wrt_mono_rel [rotated]) auto
qed

lemma by_priority_sorted_set:
  assumes "\<forall>p \<in> set ps. so_name (hp e) p \<noteq> 0"
  shows "p \<in> set (by_priority e (sort_less (NamePrioritySolvableKey e) ps) 0 0) \<longleftrightarrow> p \<in> set ps \<and> top_priority e ps p"
proof -
  have "p \<in> set (by_priority e (sort_less (NamePrioritySolvableKey e) ps) 0 0) \<longleftrightarrow> p \<in> set ps \<and>
    (if 0 = so_name (hp e) p then priority_of e p = 0
     else \<forall>r \<in> set ps. so_name (hp e) r = so_name (hp e) p \<longrightarrow> priority_of e r \<le> priority_of e p)"
    using by_priority_set [OF sorted_by_priority(1), where ps1 = ps and name = 0 and prio = 0 and p = p] assms by (simp add: sorted_by_priority(2))
  then show ?thesis using assms by (auto simp: top_priority_def list_all_iff)
qed

lemma filter_updown_by_priority_iff:
  assumes "\<forall>p \<in> set ps. so_name (hp e) p \<noteq> 0" "f_matches f = [MNum n]"
  shows "p \<in> set (filter_updown_by_priority e f ps) \<longleftrightarrow>
    installed e \<noteq> None \<and> n \<noteq> 0 \<and> p \<in> set ps \<and> \<not> is_installed e p \<and> what_upgrades e p \<noteq> 0 \<and>
    top_priority e (filter (\<lambda>r. \<not> is_installed e r) ps) p"
proof -
  have "p \<in> set (by_priority e (sort_less (NamePrioritySolvableKey e) (filter (\<lambda>p. \<not> is_installed e p) ps)) 0 0) \<longleftrightarrow>
      p \<in> set (filter (\<lambda>p. \<not> is_installed e p) ps) \<and> top_priority e (filter (\<lambda>p. \<not> is_installed e p) ps) p"
    by (rule by_priority_sorted_set) (use assms in auto)
  then show ?thesis using assms(2) by (auto simp: filter_updown_by_priority_def num_of_def Let_def)
qed

end
