(* ===== verification/Dnf4QueryRunFacts.thy ===== *)
theory Dnf4QueryRunFacts
  imports Dnf4QueryFacts SolvQueryFacts
begin

text \<open>
  Whole queries: applying filters step by step, the operations on results, packages without a repository,
  duplicates and advisories, against tests of single packages.
\<close>

section \<open>Applying\<close>

lemma apply_one_set: "set (apply_one e flags f ps) =
    {p \<in> set ps. p \<in> set (run_filter e flags f ps) \<longleftrightarrow> \<not> hy_has (f_cmp f) HY_NOT}"
  by (auto simp: apply_one_def Let_def)

lemma apply_one_sublist: "\<exists>P. apply_one e flags f ps = filter P ps"
  by (auto simp: apply_one_def Let_def)

lemma fold_apply_sublist: "\<exists>P. fold (apply_one e flags) fs ps = filter P ps"
proof (induction fs arbitrary: ps)
  case Nil
  show ?case by (rule exI [of _ "\<lambda>_. True"]) simp
next
  case (Cons f fs)
  obtain P where "apply_one e flags f ps = filter P ps" using apply_one_sublist by blast
  moreover obtain Q where "fold (apply_one e flags) fs (filter P ps) = filter Q (filter P ps)" using Cons.IH by blast
  ultimately show ?case by (auto simp: filter_filter)
qed

lemma query_apply_applied: "q_applied (query_apply e q)"
  by (simp add: query_apply_def Let_def)

lemma query_apply_idem: "query_apply e (query_apply e q) = query_apply e q"
  by (simp add: query_apply_def Let_def)

lemma result_of_apply:
  assumes "\<not> q_applied q"
  shows "result_of (query_apply e q) = fold (apply_one e (q_flags q)) (q_filters q)
    (case q_result q of None \<Rightarrow> init_result e (q_flags q) | Some r \<Rightarrow> r)"
  using assms by (simp add: query_apply_def Let_def result_of_def)

text \<open>A filter added to a query that was applied acts as if it had been added before.\<close>

lemma apply_in_steps:
  assumes "\<not> q_applied q"
  shows "query_apply e (push_filter f (unapplied (query_apply e q))) = query_apply e (push_filter f q)"
  using assms by (simp add: query_apply_def push_filter_def unapplied_def Let_def split: option.split)

section \<open>Repositories\<close>

text \<open>The filter by the name of the system repository keeps the installed packages.\<close>

definition system_repo_filter :: "hy_env \<Rightarrow> bool" where
  "system_repo_filter e \<longleftrightarrow>
     (\<forall>c ps. \<forall>p \<in> set ps. p \<in> set (outer_filter e (repo_filter c) ps) \<longleftrightarrow> is_installed e p)"

lemma with_repo_result:
  assumes "system_repo_filter e" "q_applied q \<longrightarrow> q_result q \<noteq> None \<and> q_filters q = []"
  shows "result_of (with_repo e c q) = filter (\<lambda>p. is_installed e p \<longleftrightarrow> \<not> hy_has c HY_NOT)
    (result_of (query_apply e q))"
proof -
  have one: "apply_one e flags (repo_filter c) ps = filter (\<lambda>p. is_installed e p \<longleftrightarrow> \<not> hy_has c HY_NOT) ps" for flags ps
  proof -
    have "f_key (repo_filter c) = HY_PKG_REPONAME" "f_cmp (repo_filter c) = c" by (simp_all add: repo_filter_def)
    then show ?thesis
      using assms(1) by (auto simp: apply_one_def run_filter_def Let_def system_repo_filter_def intro!: filter_cong)
  qed
  show ?thesis
    using assms(2)
    by (auto simp: with_repo_def query_apply_def push_filter_def unapplied_def result_of_def Let_def one split: option.split)
qed

lemma query_apply_ready: "q_result (query_apply e q) \<noteq> None \<and> q_filters (query_apply e q) = []"
  if "q_applied q \<longrightarrow> q_result q \<noteq> None \<and> q_filters q = []"
  using that by (simp add: query_apply_def Let_def)

definition applied_ok :: "hy_query \<Rightarrow> bool" where
  "applied_ok q \<longleftrightarrow> (q_applied q \<longrightarrow> q_result q \<noteq> None \<and> q_filters q = [])"

lemma query_create_ok: "applied_ok (query_create flags)"
  by (simp add: applied_ok_def query_create_def)

lemma query_clear_ok: "applied_ok (query_clear q)"
  by (simp add: applied_ok_def query_clear_def)

lemma query_apply_ok: "applied_ok q \<Longrightarrow> applied_ok (query_apply e q)"
  by (simp add: applied_ok_def query_apply_def Let_def)

lemma push_filter_ok: "applied_ok (push_filter f (unapplied q))"
  by (simp add: applied_ok_def push_filter_def unapplied_def)

lemma set_result_ok: "applied_ok q \<Longrightarrow> applied_ok (set_result r q)"
  by (simp add: applied_ok_def set_result_def)

lemma result_of_set_result [simp]: "result_of (set_result r q) = r"
  by (simp add: set_result_def result_of_def)

section \<open>Lower bounds in sorted lists\<close>

text \<open>The first element that is not below what is looked for is that one, if the list holds it.\<close>

lemma lower_bound_key:
  fixes key :: "'a \<Rightarrow> 'b :: linorder"
  assumes "sorted (map key xs)" "\<And>a. a \<in> set xs \<Longrightarrow> below a \<longleftrightarrow> key a < k"
  shows "(case lower_bound_by below xs of [] \<Rightarrow> False | a # _ \<Rightarrow> key a = k) \<longleftrightarrow> (\<exists>a \<in> set xs. key a = k)"
  using assms
proof (induction xs)
  case Nil
  then show ?case by (simp add: lower_bound_by_def)
next
  case (Cons x xs)
  show ?case
  proof (cases "key x < k")
    case True
    then show ?thesis using Cons by (auto simp: lower_bound_by_def)
  next
    case False
    then have "lower_bound_by below (x # xs) = x # xs" using Cons.prems(2) by (simp add: lower_bound_by_def)
    moreover have "key x = k" if "a \<in> set xs" "key a = k" for a
      using Cons.prems(1) that False by force
    ultimately show ?thesis by auto
  qed
qed

section \<open>Extras\<close>

lemma filter_extras_result:
  assumes "system_repo_filter e" "applied_ok q"
  shows "result_of (filter_extras e q) = filter (\<lambda>p. is_installed e p \<and>
      \<not> list_ex (\<lambda>a. \<not> is_installed e a \<and> so_name (hp e) a = so_name (hp e) p \<and> so_arch (hp e) a = so_arch (hp e) p)
          (init_result e IGNORE_REGULAR_EXCLUDES)) (result_of (query_apply e q))"
proof -
  let ?key = "\<lambda>p. (so_name (hp e) p, so_arch (hp e) p)"
  let ?q = "query_apply e q"
  have flags: "hy_has HY_EQ HY_NOT = False" "hy_has HY_NEQ HY_NOT = True"
    by (simp_all add: hy_has_def hy_defs)
  have ins: "result_of (with_repo e HY_EQ ?q) = filter (is_installed e) (result_of ?q)"
    using with_repo_result [OF assms(1), of ?q HY_EQ] query_apply_ok [OF assms(2)]
    by (simp add: applied_ok_def query_apply_idem flags)
  have avail: "result_of (with_repo e HY_NEQ (query_create IGNORE_REGULAR_EXCLUDES)) =
      filter (\<lambda>p. \<not> is_installed e p) (init_result e IGNORE_REGULAR_EXCLUDES)"
    using with_repo_result [OF assms(1), of "query_create IGNORE_REGULAR_EXCLUDES" HY_NEQ] query_create_ok
    by (simp add: applied_ok_def flags) (simp add: query_create_def query_apply_def result_of_def Let_def)
  define av where "av = sort_less (NameArchSolvableComparator e)
      (filter (\<lambda>p. \<not> is_installed e p) (init_result e IGNORE_REGULAR_EXCLUDES))"
  have sorted_av: "av = sort_key ?key (filter (\<lambda>p. \<not> is_installed e p) (init_result e IGNORE_REGULAR_EXCLUDES))"
    unfolding av_def by (rule sort_less_key) (auto simp: NameArchSolvableComparator_def)
  have bound: "(case lower_bound_by (\<lambda>a. NameArchSolvableComparator e a p) av of [] \<Rightarrow> True
      | a # _ \<Rightarrow> so_name (hp e) a \<noteq> so_name (hp e) p \<or> so_arch (hp e) a \<noteq> so_arch (hp e) p) \<longleftrightarrow>
      \<not> list_ex (\<lambda>a. \<not> is_installed e a \<and> so_name (hp e) a = so_name (hp e) p \<and> so_arch (hp e) a = so_arch (hp e) p)
          (init_result e IGNORE_REGULAR_EXCLUDES)" for p
  proof -
    have "(case lower_bound_by (\<lambda>a. NameArchSolvableComparator e a p) av of [] \<Rightarrow> False | a # _ \<Rightarrow> ?key a = ?key p) \<longleftrightarrow>
        (\<exists>a \<in> set av. ?key a = ?key p)"
      by (rule lower_bound_key) (auto simp: sorted_av NameArchSolvableComparator_def)
    then show ?thesis by (simp add: sorted_av list_ex_iff split: list.splits) blast
  qed
  show ?thesis
    by (auto simp: filter_extras_def Let_def ins avail av_def [symmetric] bound filter_filter
        filter_empty_conv intro!: filter_cong)
qed

section \<open>Duplicates\<close>

definition duplicate_of :: "hy_env \<Rightarrow> nat \<Rightarrow> nat \<Rightarrow> bool" where
  "duplicate_of e p r \<longleftrightarrow> r \<noteq> p \<and> so_name (hp e) p = so_name (hp e) r \<and>
     (evr_of e p \<noteq> evr_of e r \<or> so_arch (hp e) p = so_arch (hp e) r)"

lemma duplicate_of_sym: "duplicate_of e p r \<longleftrightarrow> duplicate_of e r p"
  by (auto simp: duplicate_of_def)

lemma add_duplicates_set:
  assumes "distinct ps" "\<forall>p \<in> set ps. so_name (hp e) p = n"
  shows "set (add_duplicates e ps) = {p \<in> set ps. \<exists>r \<in> set ps. duplicate_of e p r}"
  using assms
proof (induction ps)
  case Nil
  then show ?case by simp
next
  case (Cons x xs)
  have IH: "set (add_duplicates e xs) = {p \<in> set xs. \<exists>r \<in> set xs. duplicate_of e p r}"
    using Cons by simp
  have pair: "(\<not> (evr_of e x = evr_of e r \<and> so_arch (hp e) x \<noteq> so_arch (hp e) r)) = duplicate_of e x r" if "r \<in> set xs" for r
    using Cons.prems that by (auto simp: duplicate_of_def)
  have "set (concat (map (\<lambda>r. if evr_of e x = evr_of e r \<and> so_arch (hp e) x \<noteq> so_arch (hp e) r then [] else [x, r]) xs)) =
      {p. p = x \<and> (\<exists>r \<in> set xs. duplicate_of e x r)} \<union> {r \<in> set xs. duplicate_of e r x}"
    (is "?A = ?B")
  proof -
    have "?A = (\<Union>r \<in> set xs. if duplicate_of e x r then {x, r} else {})"
      using pair by (auto split: if_splits)
    also have "\<dots> = ?B" using duplicate_of_sym [of e x] by (auto split: if_splits)
    finally show ?thesis .
  qed
  then have split: "set (add_duplicates e (x # xs)) = ?B \<union> {p \<in> set xs. \<exists>r \<in> set xs. duplicate_of e p r}"
    unfolding add_duplicates.simps set_append IH by simp
  have "\<not> duplicate_of e x x" "x \<notin> set xs" using Cons.prems by (simp_all add: duplicate_of_def)
  then show ?case unfolding split by fastforce
qed

lemma add_duplicates_subset: "set (add_duplicates e ps) \<subseteq> set ps"
  by (induction ps) (auto split: if_splits)

lemma filter_duplicated_result:
  assumes "system_repo_filter e" "applied_ok q" "evr_ranked e rank (result_of (query_apply e q))"
    "\<forall>p \<in> set (result_of (query_apply e q)). 0 < p \<and> p < nsolvables (hp e)"
  shows "p \<in> set (result_of (filter_duplicated e q)) \<longleftrightarrow>
    p \<in> set (result_of (query_apply e q)) \<and> is_installed e p \<and>
    (\<exists>r \<in> set (result_of (query_apply e q)). is_installed e r \<and> duplicate_of e p r)"
proof -
  let ?key = "latest_key e HY_PKG_LATEST rank"
  let ?b = "\<lambda>p. fst (?key p)"
  let ?same = "\<lambda>a b. so_name (hp e) a = so_name (hp e) b"
  define I where "I = filter (\<lambda>p. p \<in> set (result_of (query_apply e q)) \<and> is_installed e p) [1..<nsolvables (hp e)]"
  have flags: "hy_has HY_EQ HY_NOT = False" by (simp add: hy_has_def hy_defs)
  have ins: "result_of (with_repo e HY_EQ q) = filter (is_installed e) (result_of (query_apply e q))"
    using with_repo_result [OF assms(1), of q HY_EQ] assms(2) by (simp add: applied_ok_def flags)
  have I: "set I = {p \<in> set (result_of (query_apply e q)). is_installed e p}"
    using assms(4) by (auto simp: I_def)
  define xs where "xs = sort_key ?key I"
  have xs: "query_to_name_ordered_queue e (result_of (with_repo e HY_EQ q)) = xs"
  proof -
    have "evr_ranked e rank I"
      using assms(3) unfolding evr_ranked_def I by (auto intro: inj_on_subset)
    then have "solv_sort (filter_latest_sortcmp e) I = sort_key ?key I"
      using latest_sortcmp_key [where k = HY_PKG_LATEST] by (intro solv_sort_key) simp
    then show ?thesis by (simp add: query_to_name_ordered_queue_def ins I_def xs_def)
  qed
  have sorted_b: "sorted (map ?b xs)"
  proof -
    have "sorted_wrt (\<lambda>p q. ?key p \<le> ?key q) xs"
      using sorted_sort_key [of ?key I] by (simp add: xs_def sorted_wrt_map)
    then show ?thesis unfolding sorted_wrt_map by (rule sorted_wrt_mono_rel [rotated]) (rule fst_le)
  qed
  have same: "?same a b \<longleftrightarrow> ?b a = ?b b" for a b by (simp add: latest_key_def)
  have "p \<in> set (result_of (filter_duplicated e q)) \<longleftrightarrow>
      p < nsolvables (hp e) \<and> p \<in> set (concat (map (add_duplicates e) (split_blocks ?same xs)))"
    by (auto simp: filter_duplicated_def Let_def xs)
  also have "\<dots> \<longleftrightarrow> p < nsolvables (hp e) \<and> p \<in> set xs \<and> p \<in> set (add_duplicates e (filter (\<lambda>y. ?b y = ?b p) xs))"
    by (simp only: blocks_member [OF same sorted_b add_duplicates_subset])
  also have "set (add_duplicates e (filter (\<lambda>y. ?b y = ?b p) xs)) =
      {r \<in> set (filter (\<lambda>y. ?b y = ?b p) xs). \<exists>s \<in> set (filter (\<lambda>y. ?b y = ?b p) xs). duplicate_of e r s}"
    by (rule add_duplicates_set [where n = "so_name (hp e) p"]) (auto simp: xs_def I_def latest_key_def)
  also have "p < nsolvables (hp e) \<and> p \<in> set xs \<and> p \<in> \<dots> \<longleftrightarrow> p \<in> set I \<and> (\<exists>r \<in> set I. duplicate_of e p r)"
    by (auto simp: xs_def I_def latest_key_def duplicate_of_def)
  finally show ?thesis unfolding I by blast
qed

section \<open>Advisories\<close>

definition wanted_packages :: "hy_env \<Rightarrow> hy_filter \<Rightarrow> advisory_pkg list" where
  "wanted_packages e f = concat (map ad_packages
     (filter (\<lambda>a. list_ex (\<lambda>m. advisory_matches (f_key f) a (str_of m)) (f_matches f) \<and> is_advisory_applicable e a)
       (advisories e)))"

lemma advisory_sorted:
  "sort_less advisory_pkg_sort as = sort_key (\<lambda>a. (ap_name a, ap_arch a, ap_evr a)) as"
  by (rule sort_less_key) (auto simp: advisory_pkg_sort_def)

lemma advisory_run:
  "set (run_from (advisory_below_name_arch e p) (same_name_arch e p) (sort_less advisory_pkg_sort as)) =
   {a \<in> set as. same_name_arch e p a}"
proof -
  have "run_from (advisory_below_name_arch e p) (same_name_arch e p) (sort_less advisory_pkg_sort as) =
      filter (same_name_arch e p) (sort_less advisory_pkg_sort as)"
    unfolding advisory_sorted
    by (rule run_from_sorted [OF sorted_sort_key]) (auto simp: advisory_below_name_arch_def same_name_arch_def split: if_splits)
  then show ?thesis by (simp add: advisory_sorted)
qed

lemma advisory_bound:
  "(case lower_bound_by (advisory_below_solvable e p) (sort_less advisory_pkg_sort as) of
      [] \<Rightarrow> False | a # _ \<Rightarrow> nevra_eq e a p) \<longleftrightarrow> (\<exists>a \<in> set as. nevra_eq e a p)"
proof -
  let ?key = "\<lambda>a. (ap_name a, ap_arch a, ap_evr a)"
  let ?k = "(so_name (hp e) p, so_arch (hp e) p, so_evr (hp e) p)"
  have eq: "nevra_eq e a p \<longleftrightarrow> ?key a = ?k" for a by (auto simp: nevra_eq_def)
  have "(case lower_bound_by (advisory_below_solvable e p) (sort_key ?key as) of [] \<Rightarrow> False | a # _ \<Rightarrow> ?key a = ?k) \<longleftrightarrow>
      (\<exists>a \<in> set (sort_key ?key as). ?key a = ?k)"
    by (rule lower_bound_key) (auto simp: advisory_below_solvable_def)
  then show ?thesis unfolding eq advisory_sorted by simp
qed

lemma filter_advisory_result:
  "filter_advisory e f ps = filter (\<lambda>p.
     list_ex (\<lambda>a. same_name_arch e p a \<and>
       (if f_cmp f = HY_EQ then ap_evr a = evr_of e p else cmp_wanted (f_cmp f) (evr_cmp e (evr_of e p) (ap_evr a))))
     (wanted_packages e f)) ps"
proof -
  have eq: "nevra_eq e a p \<longleftrightarrow> same_name_arch e p a \<and> ap_evr a = evr_of e p" for a p
    by (auto simp: nevra_eq_def same_name_arch_def)
  show ?thesis
    unfolding filter_advisory_def Let_def wanted_packages_def [symmetric] advisory_bound
    by (rule filter_cong) (auto simp: list_ex_iff advisory_run eq)
qed

section \<open>Dependencies\<close>

text \<open>For a dependency the operator is not stored: a negated filter selects what the plain one selects.\<close>

lemma reldep_not_dropped:
  assumes "match_type_reldep k"
  shows "add_filter_str e k (HY_EQ OR HY_NOT) s q = add_filter_str e k HY_EQ s q"
proof -
  have "k \<noteq> HY_PKG_NEVRA_STRICT" using assms by (auto simp: match_type_reldep_def)
  moreover have "hy_has (HY_EQ OR HY_NOT) HY_GLOB = False" "hy_has HY_EQ HY_GLOB = False"
    "HY_EQ OR HY_NOT \<noteq> HY_GLOB" "HY_EQ \<noteq> HY_GLOB" by (simp_all add: hy_has_def hy_defs)
  moreover have "valid_filter_str k (HY_EQ OR HY_NOT) = valid_filter_str k HY_EQ"
    using assms by (auto simp: valid_filter_str_def match_type_reldep_def Let_def hy_has_def hy_defs)
  ultimately show ?thesis using assms by (simp add: add_filter_str_def)
qed

section \<open>A pool with two repositories\<close>

text \<open>
  Installed are version 5 of the package 1 and two versions of the package 2; the repositories have the versions
  6 and 7 of the package 1. A version is its id, its text that many letters.
\<close>

definition two_repos_pool :: pool where
  "two_repos_pool = sample_pool\<lparr>
     id2str := (\<lambda>i. replicate i CHR ''v''), nsolvables := 7,
     so_name := (\<lambda>p. if p \<le> 4 then 1 else 2), so_arch := (\<lambda>p. 3),
     so_evr := (\<lambda>p. if p = 2 then 5 else if p = 3 then 6 else if p = 4 then 7 else p),
     so_repo := (\<lambda>p. if p = 3 then Some 1 else if p = 4 then Some 2 else Some 0),
     evrcmp := (\<lambda>a b. int (length a) - int (length b)),
     provides_of := (\<lambda>i. if i = 1 then [2, 3, 4] else if i = 2 then [5, 6] else [])\<rparr>"

definition two_repos :: hy_env where
  "two_repos = \<lparr>hp = two_repos_pool, installed = Some 0, repo_priority = (\<lambda>r. if r = 1 then -10 else -99),
     ARCH_NOARCH = 4, considered = (\<lambda>flags. None), build_time = (\<lambda>p. 0),
     advisories = [\<lparr>ad_name = ''patch:A'', ad_category = Some ''security'', ad_severity = None, ad_references = [],
       ad_modules = [], ad_packages = [\<lparr>ap_name = 1, ap_arch = 3, ap_evr = 6\<rparr>]\<rparr>],
     enabled_stream = None,
     outer_filter = (\<lambda>f ps. filter (\<lambda>p. f_key f = HY_PKG_REPONAME \<and> so_repo two_repos_pool p = Some 0) ps),
     nevra_strict = (\<lambda>c ms ps. [])\<rparr>"

lemma two_repos_simps [simp]:
  "hp two_repos = two_repos_pool" "installed two_repos = Some 0" "ARCH_NOARCH two_repos = 4"
  by (simp_all add: two_repos_def)

lemma two_repos_cmp: "evr_cmp two_repos a b = int a - int b"
  by (simp add: evr_cmp_def two_repos_pool_def)

lemma two_repos_ranked: "evr_ranked two_repos int ps"
  by (simp add: evr_ranked_def two_repos_cmp)

lemma two_repos_system: "system_repo_filter two_repos"
  by (simp add: system_repo_filter_def two_repos_def is_installed_def repo_filter_def)

lemma two_repos_solvables: "get_solvables two_repos_pool = [2, 3, 4, 5, 6]"
  by (simp add: get_solvables_def is_package_def pkg_name_def two_repos_pool_def upt_rec SOLVABLE_NAME_ADVISORY_PREFIX_def numeral_2_eq_2)

section \<open>Properties\<close>

text \<open>C16. Among packages of which no two different versions compare as equal, the filter for the latest versions keeps a
  package when fewer than the wanted number, which is not zero, of versions of its name (and, per architecture, of its architecture) are
  newer; a negative number keeps the packages that the positive number would drop. The code counts versions by their ids:
  when 1.0 and 1.00, which compare as equal, are both there, they count as two versions, and the property does not speak of
  that case.\<close>

theorem latest_filter_keeps_newest:
  assumes "evr_ranked e rank ps" "f_matches f = [MNum latest]" "latest \<noteq> 0"
  shows "set (filter_latest e f ps) = {p \<in> set ps.
    if latest > 0 then int (card (newer_evrs e (f_key f) ps p)) < latest
    else - latest \<le> int (card (newer_evrs e (f_key f) ps p))}"
proof (rule set_eqI)
  fix p
  show "p \<in> set (filter_latest e f ps) \<longleftrightarrow> p \<in> {p \<in> set ps.
    if latest > 0 then int (card (newer_evrs e (f_key f) ps p)) < latest
    else - latest \<le> int (card (newer_evrs e (f_key f) ps p))}"
    unfolding filter_latest_iff [OF assms(1,2)] latest_wanted_def using assms(3) by simp linarith
qed

lemma latest_filter_keeps_newest_witness:
  "set (filter_latest two_repos \<lparr>f_key = HY_PKG_LATEST, f_cmp = HY_EQ, f_type = HY_NUM, f_matches = [MNum 2]\<rparr> [2, 3, 4]) =
   {p \<in> set [2, 3, 4]. int (card (newer_evrs two_repos HY_PKG_LATEST [2, 3, 4] p)) < 2} \<and>
   newer_evrs two_repos HY_PKG_LATEST [2, 3, 4] 2 = {6, 7}"
proof (rule conjI)
  show "set (filter_latest two_repos \<lparr>f_key = HY_PKG_LATEST, f_cmp = HY_EQ, f_type = HY_NUM, f_matches = [MNum 2]\<rparr> [2, 3, 4]) =
      {p \<in> set [2, 3, 4]. int (card (newer_evrs two_repos HY_PKG_LATEST [2, 3, 4] p)) < 2}"
    by (subst latest_filter_keeps_newest [OF two_repos_ranked, where latest = 2]) simp_all
  show "newer_evrs two_repos HY_PKG_LATEST [2, 3, 4] 2 = {6, 7}"
    by (simp add: newer_evrs_def two_repos_cmp same_block_def) (simp add: two_repos_pool_def)
qed

text \<open>A package upgrades an installed one exactly when an installed package of its name and of a compatible
  architecture exists and all of these are older than it; the package it upgrades is then the newest of them.\<close>

theorem upgraded_package_is_newest_installed:
  assumes "providers_ranked e rank s"
    "C = set (filter (upgrade_candidate e s) (provides_of (hp e) (so_name (hp e) s)))"
  shows "if C \<noteq> {} \<and> (\<forall>p \<in> C. evr_cmp e (evr_of e p) (evr_of e s) < 0)
    then what_upgrades e s \<in> C \<and> (\<forall>p \<in> C. evr_cmp e (evr_of e p) (evr_of e (what_upgrades e s)) \<le> 0)
    else what_upgrades e s = 0"
  using assms(1)
proof (cases rule: what_upgrades_cases)
  case none
  then show ?thesis using assms(2) by force
next
  case best
  then show ?thesis using assms(2) by auto
qed

lemma upgraded_package_is_newest_installed_witness: "what_upgrades two_repos 4 = 2"
proof -
  have ranked: "providers_ranked two_repos int 4"
    by (simp add: providers_ranked_def two_repos_ranked) (simp add: two_repos_pool_def)
  have only: "{2} = set (filter (upgrade_candidate two_repos 4) (provides_of (hp two_repos) (so_name (hp two_repos) 4)))"
    by (auto simp: upgrade_candidate_def is_installed_def) (auto simp: two_repos_pool_def split: if_splits)
  show ?thesis using upgraded_package_is_newest_installed [OF ranked only]
    by (simp add: two_repos_cmp) (simp add: two_repos_pool_def)
qed

text \<open>Upgrades by priority are, among the candidates that are not installed, those that upgrade an installed
  package and whose repository has the highest priority of all that offer their name.\<close>

theorem priority_upgrades_take_the_top:
  assumes "\<forall>p \<in> set ps. so_name (hp e) p \<noteq> 0" "f_matches f = [MNum n]" "n \<noteq> 0" "installed e \<noteq> None"
  shows "set (filter_updown_by_priority e f ps) = {p \<in> set ps. \<not> is_installed e p \<and> what_upgrades e p \<noteq> 0 \<and>
    top_priority e (filter (\<lambda>r. \<not> is_installed e r) ps) p}"
  using filter_updown_by_priority_iff [OF assms(1,2)] assms(3,4) by auto

lemma priority_upgrades_take_the_top_witness:
  "set (filter_updown_by_priority two_repos
     \<lparr>f_key = HY_PKG_UPGRADES_BY_PRIORITY, f_cmp = HY_EQ, f_type = HY_NUM, f_matches = [MNum 1]\<rparr> [2, 3, 4]) =
   {p \<in> set [2, 3, 4]. \<not> is_installed two_repos p \<and> what_upgrades two_repos p \<noteq> 0 \<and>
      top_priority two_repos (filter (\<lambda>r. \<not> is_installed two_repos r) [2, 3, 4]) p}"
  by (rule priority_upgrades_take_the_top [where n = 1]) (simp_all add: two_repos_pool_def)

text \<open>The extra packages of a query are its installed packages for which no available package, excluded ones
  included, has the same name and architecture.\<close>

theorem extras_have_no_available_package:
  assumes "system_repo_filter e" "applied_ok q"
  shows "result_of (filter_extras e q) = filter (\<lambda>p. is_installed e p \<and>
      \<not> list_ex (\<lambda>a. \<not> is_installed e a \<and> so_name (hp e) a = so_name (hp e) p \<and> so_arch (hp e) a = so_arch (hp e) p)
          (init_result e IGNORE_REGULAR_EXCLUDES)) (result_of (query_apply e q))"
  by (rule filter_extras_result) (fact assms)+

lemma extras_have_no_available_package_witness: "result_of (filter_extras two_repos (query_create 0)) = [5, 6]"
proof -
  have init: "init_result two_repos flags = [2, 3, 4, 5, 6]" for flags
    using two_repos_solvables by (simp add: init_result_def) (simp add: two_repos_def)
  have all: "result_of (query_apply two_repos (query_create 0)) = [2, 3, 4, 5, 6]"
    by (simp add: result_of_apply query_create_def init)
  show ?thesis
    unfolding extras_have_no_available_package [OF two_repos_system query_create_ok] all init
    by (simp add: is_installed_def) (simp add: two_repos_pool_def)
qed

text \<open>The duplicates of a query are its installed packages beside which another installed package has the same
  name, and not just the same version for another architecture.\<close>

theorem duplicated_packages_are_found:
  assumes "system_repo_filter e" "applied_ok q" "evr_ranked e rank (result_of (query_apply e q))"
    "\<forall>p \<in> set (result_of (query_apply e q)). 0 < p \<and> p < nsolvables (hp e)"
  shows "set (result_of (filter_duplicated e q)) = {p \<in> set (result_of (query_apply e q)). is_installed e p \<and>
    (\<exists>r \<in> set (result_of (query_apply e q)). is_installed e r \<and> duplicate_of e p r)}"
  using filter_duplicated_result [OF assms] by blast

lemma duplicated_packages_are_found_witness: "set (result_of (filter_duplicated two_repos (query_create 0))) = {5, 6}"
proof -
  have "init_result two_repos flags = [2, 3, 4, 5, 6]" for flags
    using two_repos_solvables by (simp add: init_result_def) (simp add: two_repos_def)
  then have all: "result_of (query_apply two_repos (query_create 0)) = [2, 3, 4, 5, 6]"
    by (simp add: result_of_apply query_create_def)
  have "\<forall>p \<in> set [2, 3, 4, 5, 6]. 0 < p \<and> p < nsolvables (hp two_repos)" by (simp add: two_repos_pool_def)
  then show ?thesis
    using duplicated_packages_are_found [OF two_repos_system query_create_ok two_repos_ranked, of 0] unfolding all
    by (simp add: is_installed_def duplicate_of_def) (auto simp: two_repos_pool_def)
qed

text \<open>C17. The advisory filters keep the packages of which an applicable advisory that matches the filter has the same
  name and architecture with the same version or, for a comparison, with a version that compares as wanted.\<close>

theorem advisory_filters_find_their_packages:
  "filter_advisory e f ps = filter (\<lambda>p.
     list_ex (\<lambda>a. same_name_arch e p a \<and>
       (if f_cmp f = HY_EQ then ap_evr a = evr_of e p else cmp_wanted (f_cmp f) (evr_cmp e (evr_of e p) (ap_evr a))))
     (wanted_packages e f)) ps"
  by (rule filter_advisory_result)

text \<open>Applying a query, adding a filter and applying it again gives what the query gives that had the filter
  before.\<close>

theorem filters_apply_step_by_step:
  assumes "\<not> q_applied q"
  shows "query_apply e (push_filter f (unapplied (query_apply e q))) = query_apply e (push_filter f q)"
  by (rule apply_in_steps) (fact assms)

lemma filters_apply_step_by_step_witness:
  "query_apply two_repos (push_filter empty_filter (unapplied (query_apply two_repos (query_create 0)))) =
   query_apply two_repos (push_filter empty_filter (query_create 0))"
  by (rule filters_apply_step_by_step) (simp add: query_create_def)

text \<open>For a dependency given as a text the negation is lost: the filter for packages without the dependency selects
  those that have it.\<close>

theorem negated_dependency_is_plain:
  assumes "match_type_reldep k"
  shows "add_filter_str e k (HY_EQ OR HY_NOT) s q = add_filter_str e k HY_EQ s q"
  by (rule reldep_not_dropped) (fact assms)

lemma negated_dependency_is_plain_witness:
  "add_filter_str two_repos HY_PKG_REQUIRES (HY_EQ OR HY_NOT) ''v'' (query_create 0) =
   add_filter_str two_repos HY_PKG_REQUIRES HY_EQ ''v'' (query_create 0)"
  by (rule negated_dependency_is_plain) (simp add: match_type_reldep_def)

end
