(* ===== verification/Dnf4GoalFacts.thy ===== *)
theory Dnf4GoalFacts
  imports Dnf4GoalProblems Dnf4QueryRunFacts
begin

text \<open>
  What holds of goals of dnf 4: protected packages are never removed by a run without problems and may never be
  uninstalled, a limit keeps that many packages of a name, problems are described once, and what is wrong about
  running a goal again.
\<close>

section \<open>Protected packages\<close>

lemma allow_protected:
  assumes "allow_uninstall_all_but_protected e flags job g = (job', g')"
  shows "g' = g\<lparr>g_protected := Some (case running_kernel e of
      None \<Rightarrow> (case g_protected g of None \<Rightarrow> [] | Some ps \<Rightarrow> ps)
    | Some k \<Rightarrow> if k > 0 then ids_union e (case g_protected g of None \<Rightarrow> [] | Some ps \<Rightarrow> ps) [k]
               else (case g_protected g of None \<Rightarrow> [] | Some ps \<Rightarrow> ps))\<rparr>"
  using assms by (auto simp: allow_uninstall_all_but_protected_def Let_def split: option.splits)

text \<open>The packages that a run protects: those set, and the running kernel.\<close>

definition protected_set :: "goal_env \<Rightarrow> goal \<Rightarrow> nat set" where
  "protected_set e g = {p \<in> set_of (g_protected g). p < nsolvables (gpool e)} \<union>
     (case running_kernel e of None \<Rightarrow> {} | Some k \<Rightarrow> {k} \<inter> {0<..<nsolvables (gpool e)})"

lemma allow_protected_set:
  assumes "allow_uninstall_all_but_protected e flags job g = (job', g')"
  shows "protected_set e g \<subseteq> set_of (g_protected g')" "set_of (g_protected g') \<inter> {..<nsolvables (gpool e)} = protected_set e g"
    "protected_set e g' = protected_set e g"
  by (auto simp: allow_protected [OF assms] protected_set_def set_of_def ids_union_def split: option.splits if_splits)

lemma allow_jobs:
  assumes "allow_uninstall_all_but_protected e flags job g = (job', g')"
  shows "\<exists>more. job' = job @ more \<and> (\<forall>j \<in> set more. j_action (fst j) = SOLVER_ALLOWUNINSTALL \<and>
    snd j \<notin> protected_set e g \<and> so_repo (gpool e) (snd j) = installed (ge e))"
proof -
  have "protected_set e g \<subseteq> set_of (g_protected g')" by (rule allow_protected_set [OF assms])
  then show ?thesis
    using assms by (auto simp: allow_uninstall_all_but_protected_def Let_def set_of_def protected_set_def ids_union_def
        split: if_splits option.splits)
qed

lemma allow_keeps:
  assumes "allow_uninstall_all_but_protected e flags job g = (job', g')"
  shows "g_staging g' = g_staging g" "g_solv g' = g_solv g" "g_trans g' = g_trans g" "g_actions g' = g_actions g"
    "g_removal g' = g_removal g"
  by (simp_all add: allow_protected [OF assms])

lemma construct_keeps:
  assumes "construct_job e flags g = (job, g')"
  shows "g_staging g' = g_staging g" "g_solv g' = g_solv g" "g_trans g' = g_trans g" "g_actions g' = g_actions g"
    "g_removal g' = g_removal g" "set_of (g_protected g') \<inter> {..<nsolvables (gpool e)} = protected_set e g"
    "protected_set e g' = protected_set e g"
proof -
  obtain job0 job1 where "allow_uninstall_all_but_protected e flags job0 g = (job1, g')"
    using assms by (auto simp: construct_job_def Let_def split: prod.splits)
  note a = this
  show "g_staging g' = g_staging g" "g_solv g' = g_solv g" "g_trans g' = g_trans g" "g_actions g' = g_actions g"
    "g_removal g' = g_removal g" "set_of (g_protected g') \<inter> {..<nsolvables (gpool e)} = protected_set e g"
    "protected_set e g' = protected_set e g"
    by (fact allow_keeps [OF a] allow_protected_set [OF a])+
qed

text \<open>The jobs that allow a package to go are those of the goal or for packages that are not protected.\<close>

lemma construct_job_parts:
  assumes "construct_job e flags g = (job, g')"
  shows "\<exists>more. set job = (if hy_has flags DNF_FORCE_BEST then with_flags {SOLVER_FORCEBEST} else id) ` set (g_staging g) \<union>
      {(how SOLVER_SOLVABLE_PROVIDES SOLVER_MULTIVERSION {}, d) |d. d \<in> set (installonly e)} \<union> more \<union>
      (if hy_has flags DNF_VERIFY then {(how SOLVER_SOLVABLE_ALL SOLVER_VERIFY {}, 0)} else {}) \<and>
    (\<forall>j \<in> more. j_action (fst j) = SOLVER_ALLOWUNINSTALL \<and> snd j \<notin> protected_set e g \<and>
      so_repo (gpool e) (snd j) = installed (ge e))"
proof -
  define job0 where "job0 = (if hy_has flags DNF_FORCE_BEST then map (with_flags {SOLVER_FORCEBEST}) (g_staging g)
      else g_staging g) @ map (\<lambda>d. (how SOLVER_SOLVABLE_PROVIDES SOLVER_MULTIVERSION {}, d)) (installonly e)"
  obtain job1 where a: "allow_uninstall_all_but_protected e flags job0 g = (job1, g')"
    and job: "job = job1 @ (if hy_has flags DNF_VERIFY then [(how SOLVER_SOLVABLE_ALL SOLVER_VERIFY {}, 0)] else [])"
    using assms by (auto simp: construct_job_def Let_def job0_def split: prod.splits)
  obtain more where m: "job1 = job0 @ more" "\<forall>j \<in> set more. j_action (fst j) = SOLVER_ALLOWUNINSTALL \<and>
      snd j \<notin> protected_set e g \<and> so_repo (gpool e) (snd j) = installed (ge e)"
    using allow_jobs [OF a] by blast
  show ?thesis by (rule exI [of _ "set more"]) (use m in \<open>auto simp: job job0_def\<close>)
qed

lemma limit_queue_actions: "\<forall>j \<in> set (limit_queue e ps). j_action (fst j) \<in> {SOLVER_INSTALL, SOLVER_ERASE}"
proof (induction e ps rule: limit_queue.induct)
  case (2 e p ps)
  obtain same rest where s: "same_name_subqueue e p ps = (same, rest)" by fastforce
  then show ?case using 2 [OF s [symmetric] refl] by (auto simp: limit_same_names_def split: if_splits)
qed simp

lemma limit_actions: "\<forall>j \<in> set (limit_installonly_packages e sol). j_action (fst j) \<in> {SOLVER_INSTALL, SOLVER_ERASE}"
  using limit_queue_actions by (auto simp: limit_installonly_packages_def limit_one_def Let_def split: if_splits)

section \<open>Runs\<close>

lemma protected_in_removals_ok:
  assumes "protected_in_removals e g = Inr (bad, g')" "g_trans g = Some sol"
  shows "g_trans g' = Some sol" "g_solv g' = g_solv g" "g_protected g' = g_protected g"
    "\<not> bad \<Longrightarrow> \<forall>p \<in> set_of (g_protected g). p < nsolvables (gpool e) \<longrightarrow> p \<in> set (sol_steps sol) \<longrightarrow>
       sol_type sol False p \<noteq> TRANS_ERASE \<and> sol_type sol True p \<noteq> TRANS_OBSOLETED"
proof -
  show "g_trans g' = Some sol" "g_solv g' = g_solv g" "g_protected g' = g_protected g"
    using assms by (auto simp: protected_in_removals_def Let_def split: if_splits sum.splits)
  show "\<forall>p \<in> set_of (g_protected g). p < nsolvables (gpool e) \<longrightarrow> p \<in> set (sol_steps sol) \<longrightarrow>
       sol_type sol False p \<noteq> TRANS_ERASE \<and> sol_type sol True p \<noteq> TRANS_OBSOLETED" if "\<not> bad"
    using assms that
    by (auto simp: protected_in_removals_def list_results_def ids_union_def Let_def filter_empty_conv
        split: if_splits sum.splits)
qed

text \<open>The solver runs once, or twice when the limit asks for more; what the last run gives is the result.\<close>

lemma goal_solve_cases [consumes 1, case_names problems finished]:
  assumes "goal_solve e solve job flags g = Inr (bad, g')"
  obtains (problems) job' sol where "sol = solve (solver_flags flags (g_actions g)) job'" "sol_problems sol \<noteq> []" "bad"
      "g_solv g' = Some sol" "g_trans g' = None" "g_removal g' = g_removal g"
    | (finished) job' sol g1 where "sol = solve (solver_flags flags (g_actions g)) job'" "sol_problems sol = []"
      "g_solv g1 = Some sol" "g_trans g1 = Some sol" "protected_set e g1 = protected_set e g"
      "g_protected g \<noteq> None \<Longrightarrow> set_of (g_protected g) \<inter> {..<nsolvables (gpool e)} = protected_set e g \<Longrightarrow>
         set_of (g_protected g1) \<inter> {..<nsolvables (gpool e)} = protected_set e g"
      "protected_in_removals e g1 = Inr (bad, g')"
proof -
  define sflags where "sflags = solver_flags flags (g_actions g)"
  define job1 where "job1 = (if hy_has DNF_IGNORE_WEAK flags then map without_weak job else job)"
  define sol1 where "sol1 = solve sflags job1"
  define g1 where "g1 = g\<lparr>g_trans := None, g_solv := Some sol1\<rparr>"
  define more where "more = limit_installonly_packages e sol1"
  obtain job2 g2 where a: "allow_uninstall_all_but_protected e DNF_ALLOW_UNINSTALL (job1 @ more) g1 = (job2, g2)"
    by fastforce
  define sol2 where "sol2 = solve sflags job2"
  have solve: "goal_solve e solve job flags g =
      (if sol_problems sol1 \<noteq> [] then Inr (True, g1)
       else if more = [] then protected_in_removals e (g1\<lparr>g_trans := Some sol1\<rparr>)
       else if sol_problems sol2 \<noteq> [] then Inr (True, g2\<lparr>g_solv := Some sol2\<rparr>)
       else protected_in_removals e (g2\<lparr>g_solv := Some sol2, g_trans := Some sol2\<rparr>))"
    using a by (simp add: goal_solve_def Let_def sflags_def job1_def sol1_def g1_def more_def sol2_def)
  have g1: "g_removal g1 = g_removal g" "g_trans g1 = None" "g_solv g1 = Some sol1" "g_protected g1 = g_protected g"
    by (simp_all add: g1_def)
  have same: "protected_set e g2 = protected_set e g" "g_removal g2 = g_removal g" "g_trans g2 = None"
    using allow_protected_set(3) [OF a] allow_keeps [OF a] g1 by (simp_all add: protected_set_def)
  have prot: "set_of (g_protected g2) \<inter> {..<nsolvables (gpool e)} = protected_set e g"
    using allow_protected_set(2) [OF a] g1 by (simp add: protected_set_def)
  consider (p1) "sol_problems sol1 \<noteq> []" | (f1) "sol_problems sol1 = []" "more = []"
    | (p2) "sol_problems sol1 = []" "more \<noteq> []" "sol_problems sol2 \<noteq> []"
    | (f2) "sol_problems sol1 = []" "more \<noteq> []" "sol_problems sol2 = []" by blast
  then show ?thesis
  proof cases
    case p1
    then have "bad" "g' = g1" using solve assms by simp_all
    then show ?thesis using problems [of sol1 job1] p1 g1 by (simp add: sol1_def sflags_def)
  next
    case f1
    then have "protected_in_removals e (g1\<lparr>g_trans := Some sol1\<rparr>) = Inr (bad, g')" using solve assms by simp
    then show ?thesis using finished [of sol1 job1 "g1\<lparr>g_trans := Some sol1\<rparr>"] f1 g1
      by (simp add: sol1_def sflags_def protected_set_def)
  next
    case p2
    then have "bad" "g' = g2\<lparr>g_solv := Some sol2\<rparr>" using solve assms by simp_all
    then show ?thesis using problems [of sol2 job2] p2 same by (simp add: sol2_def sflags_def)
  next
    case f2
    then have "protected_in_removals e (g2\<lparr>g_solv := Some sol2, g_trans := Some sol2\<rparr>) = Inr (bad, g')"
      using solve assms by simp
    then show ?thesis using finished [of sol2 job2 "g2\<lparr>g_solv := Some sol2, g_trans := Some sol2\<rparr>"] f2 same prot
      by (simp add: sol2_def sflags_def protected_set_def)
  qed
qed

lemma goal_run_cases [consumes 1, case_names problems finished]:
  assumes "goal_run e solve flags g = Inr (bad, g')"
  obtains (problems) sol where "sol_problems sol \<noteq> []" "bad" "g_solv g' = Some sol" "g_trans g' = None"
      "g_removal g' = g_removal g"
    | (finished) sol g1 where "sol_problems sol = []" "g_solv g1 = Some sol" "g_trans g1 = Some sol"
      "set_of (g_protected g1) \<inter> {..<nsolvables (gpool e)} = protected_set e g"
      "protected_in_removals e g1 = Inr (bad, g')"
proof -
  obtain job g0 where c: "construct_job e flags g = (job, g0)" by fastforce
  note k = construct_keeps [OF c]
  have run: "goal_solve e solve job flags (act flags g0) = Inr (bad, g')"
    using assms c by (simp add: goal_run_def)
  have prot: "g_protected (act flags g0) \<noteq> None"
    using c by (auto simp: construct_job_def act_def Let_def split: prod.splits dest!: allow_protected)
  have same: "set_of (g_protected (act flags g0)) \<inter> {..<nsolvables (gpool e)} = protected_set e (act flags g0)"
      "protected_set e (act flags g0) = protected_set e g"
    using k by (simp_all add: act_def protected_set_def)
  from run show ?thesis
  proof (cases rule: goal_solve_cases)
    case (problems job' sol)
    then show ?thesis using that(1) [of sol] k by (simp add: act_def)
  next
    case (finished job' sol g1)
    then show ?thesis using that(2) [of sol g1] prot same by simp
  qed
qed

lemma run_protects:
  assumes "goal_run e solve flags g = Inr (False, g')"
  shows "\<exists>sol. g_trans g' = Some sol \<and> g_solv g' = Some sol \<and> sol_problems sol = [] \<and>
    (\<forall>p \<in> protected_set e g. p \<in> set (sol_steps sol) \<longrightarrow> sol_type sol False p \<noteq> TRANS_ERASE \<and> sol_type sol True p \<noteq> TRANS_OBSOLETED)"
  using assms
proof (cases rule: goal_run_cases)
  case (finished sol g1)
  note p = protected_in_removals_ok [OF finished(5,3)]
  have "\<forall>p \<in> protected_set e g. p \<in> set_of (g_protected g1) \<and> p < nsolvables (gpool e)"
    using finished(4) by blast
  then show ?thesis using p finished(1,2) by auto
qed simp

lemma protected_in_removals_hit:
  assumes "protected_in_removals e g = Inr (True, g')" "g_trans g = Some sol"
  shows "\<exists>ers obs. list_erasures e g' = Inr ers \<and> list_obsoleted e g' = Inr obs \<and>
    set_of (g_removal g') = set_of (g_protected g) \<inter> (set ers \<union> set obs) \<and> set_of (g_removal g') \<noteq> {}"
  using assms
  by (auto simp: protected_in_removals_def list_results_def list_erasures_def list_obsoleted_def ids_union_def set_of_def
      filter_empty_conv Let_def split: if_splits)

section \<open>The limit\<close>

lemma zip_take_drop:
  "map snd (filter (\<lambda>x. fst x < b) (zip [k..<k + length xs] xs)) = take (b - k) xs \<and>
   map snd (filter (\<lambda>x. \<not> fst x < b) (zip [k..<k + length xs] xs)) = drop (b - k) xs"
proof (induction xs arbitrary: k)
  case (Cons x xs)
  have zip: "zip [k..<k + length (x # xs)] (x # xs) = (k, x) # zip [Suc k..<Suc k + length xs] xs"
    by (simp add: upt_conv_Cons del: upt_Suc)
  show ?case unfolding zip using Cons.IH [of "Suc k"] by (cases "k < b") (simp_all add: take_Cons' drop_Cons' del: upt_Suc)
qed simp

lemma limit_same_names_filter:
  assumes "\<forall>p \<in> set same. so_name (gpool e) p = m"
  shows "map snd (filter (\<lambda>j. j_action (fst j) = SOLVER_INSTALL \<and> so_name (gpool e) (snd j) = n) (limit_same_names e same)) =
      (if m = n \<and> length same > installonly_limit e then take (installonly_limit e) same else [])"
    "map snd (filter (\<lambda>j. j_action (fst j) = SOLVER_ERASE \<and> so_name (gpool e) (snd j) = n) (limit_same_names e same)) =
      (if m = n \<and> length same > installonly_limit e then drop (installonly_limit e) same else [])"
proof -
  let ?l = "installonly_limit e" and ?z = "zip [0..<length same] same"
  have name: "\<forall>x \<in> set ?z. so_name (gpool e) (snd x) = m"
    using assms by (auto dest: set_zip_rightD)
  let ?f = "\<lambda>x. (how SOLVER_SOLVABLE (if fst x < ?l then SOLVER_INSTALL else SOLVER_ERASE) {}, snd x)"
  have jobs: "limit_same_names e same = (if length same \<le> ?l then [] else map ?f ?z)"
    by (simp add: limit_same_names_def case_prod_beta')
  have inst: "filter (\<lambda>x. j_action (fst (?f x)) = SOLVER_INSTALL \<and> so_name (gpool e) (snd (?f x)) = n) ?z =
      (if m = n then filter (\<lambda>x. fst x < ?l) ?z else [])"
    using name by (simp add: filter_empty_conv cong: filter_cong)
  have eras: "filter (\<lambda>x. j_action (fst (?f x)) = SOLVER_ERASE \<and> so_name (gpool e) (snd (?f x)) = n) ?z =
      (if m = n then filter (\<lambda>x. \<not> fst x < ?l) ?z else [])"
    using name by (simp add: filter_empty_conv cong: filter_cong)
  show "map snd (filter (\<lambda>j. j_action (fst j) = SOLVER_INSTALL \<and> so_name (gpool e) (snd j) = n) (limit_same_names e same)) =
      (if m = n \<and> length same > ?l then take ?l same else [])"
  proof (cases "length same \<le> ?l")
    case False
    then have "map snd (filter (\<lambda>j. j_action (fst j) = SOLVER_INSTALL \<and> so_name (gpool e) (snd j) = n) (limit_same_names e same)) =
        map snd (if m = n then filter (\<lambda>x. fst x < ?l) ?z else [])"
      unfolding jobs inst [symmetric] by (simp add: filter_map comp_def)
    then show ?thesis using False zip_take_drop [of ?l 0 same] by simp
  qed (simp add: jobs)
  show "map snd (filter (\<lambda>j. j_action (fst j) = SOLVER_ERASE \<and> so_name (gpool e) (snd j) = n) (limit_same_names e same)) =
      (if m = n \<and> length same > ?l then drop ?l same else [])"
  proof (cases "length same \<le> ?l")
    case False
    then have "map snd (filter (\<lambda>j. j_action (fst j) = SOLVER_ERASE \<and> so_name (gpool e) (snd j) = n) (limit_same_names e same)) =
        map snd (if m = n then filter (\<lambda>x. \<not> fst x < ?l) ?z else [])"
      unfolding jobs eras [symmetric] by (simp add: filter_map comp_def)
    then show ?thesis using False zip_take_drop [of ?l 0 same] by simp
  qed (simp add: jobs)
qed

text \<open>In a queue sorted by names, reversed, every name is one run.\<close>

lemma limit_queue_filter:
  assumes "sorted_wrt (\<lambda>p q. so_name (gpool e) q \<le> so_name (gpool e) p) ps"
  shows "map snd (filter (\<lambda>j. j_action (fst j) = SOLVER_INSTALL \<and> so_name (gpool e) (snd j) = n) (limit_queue e ps)) =
      (let s = filter (\<lambda>p. so_name (gpool e) p = n) ps in if length s > installonly_limit e then take (installonly_limit e) s else []) \<and>
    map snd (filter (\<lambda>j. j_action (fst j) = SOLVER_ERASE \<and> so_name (gpool e) (snd j) = n) (limit_queue e ps)) =
      (let s = filter (\<lambda>p. so_name (gpool e) p = n) ps in if length s > installonly_limit e then drop (installonly_limit e) s else [])"
  using assms
proof (induction "length ps" arbitrary: ps rule: less_induct)
  case less
  let ?nm = "so_name (gpool e)"
  show ?case
  proof (cases ps)
    case Nil
    then show ?thesis by simp
  next
    case (Cons p qs)
    let ?b = "\<lambda>p. - int (?nm p)"
    let ?zs = "filter (\<lambda>q. ?nm q \<noteq> ?nm p) qs" and ?ys = "filter (\<lambda>q. ?nm q = ?nm p) qs"
    have "sorted (map ?b (p # qs))" using less.prems Cons by (simp add: sorted_wrt_map)
    from takeWhile_sorted [OF this]
    have cut: "takeWhile (\<lambda>q. ?nm q = ?nm p) qs = ?ys" "dropWhile (\<lambda>q. ?nm q = ?nm p) qs = ?zs"
      by (simp_all add: eq_commute [of "?nm p"])
    have q: "limit_queue e ps = limit_same_names e (p # ?ys) @ limit_queue e ?zs"
      by (simp add: Cons same_name_subqueue_def Let_def cut)
    have "length ?zs < length ps" using Cons by (simp add: less_Suc_eq_le)
    moreover have "sorted_wrt (\<lambda>p q. ?nm q \<le> ?nm p) ?zs" using less.prems Cons by (simp add: sorted_wrt_filter)
    ultimately have IH: "map snd (filter (\<lambda>j. j_action (fst j) = SOLVER_INSTALL \<and> ?nm (snd j) = n) (limit_queue e ?zs)) =
        (if length (filter (\<lambda>q. ?nm q = n) ?zs) > installonly_limit e then take (installonly_limit e) (filter (\<lambda>q. ?nm q = n) ?zs) else [])"
      "map snd (filter (\<lambda>j. j_action (fst j) = SOLVER_ERASE \<and> ?nm (snd j) = n) (limit_queue e ?zs)) =
        (if length (filter (\<lambda>q. ?nm q = n) ?zs) > installonly_limit e then drop (installonly_limit e) (filter (\<lambda>q. ?nm q = n) ?zs) else [])"
      using less.hyps [of ?zs] by (simp_all add: Let_def)
    have "\<forall>r \<in> set (p # ?ys). ?nm r = ?nm p" by simp
    note one = limit_same_names_filter [OF this, of n]
    show ?thesis
    proof (cases "?nm p = n")
      case True
      then have "filter (\<lambda>q. ?nm q = n) ?zs = []" "filter (\<lambda>q. ?nm q = n) ps = p # ?ys"
        using Cons by (auto simp: filter_empty_conv)
      then show ?thesis unfolding q filter_append map_append one IH using True by (simp add: Let_def)
    next
      case False
      then have "filter (\<lambda>q. ?nm q = n) ?zs = filter (\<lambda>q. ?nm q = n) ps"
        using Cons by (auto simp: filter_filter intro: filter_cong)
      then show ?thesis unfolding q filter_append map_append one IH using False by (simp add: Let_def)
    qed
  qed
qed

end
