(* ===== verification/Dnf4GoalProps.thy ===== *)
theory Dnf4GoalProps
  imports Dnf4GoalFacts
begin

text \<open>
  Reachable goals, descriptions of problems, and the properties of goals with their examples.
\<close>

section \<open>Reachable goals\<close>

text \<open>What a client can do with a goal.\<close>

datatype goal_op =
    OpDistupgrade | OpDistupgradePkg nat | OpDistupgradeSel selector | OpErase nat hy_cmp | OpEraseSel selector hy_cmp
  | OpInstall nat bool | OpInstallSel selector bool | OpUpgrade | OpUpgradePkg nat | OpUpgradeSel selector
  | OpUserInstalled "nat list" | OpProtect "nat list" | OpAddProtected "nat list" | OpRun hy_cmp | OpCopy

definition goal_exec :: "goal_env \<Rightarrow> solver \<Rightarrow> goal_op \<Rightarrow> goal \<Rightarrow> goal" where
  "goal_exec e solve op g =
     (case op of
        OpDistupgrade \<Rightarrow> snd (distupgrade_all e g)
      | OpDistupgradePkg p \<Rightarrow> distupgrade_package e p g
      | OpDistupgradeSel s \<Rightarrow> snd (distupgrade_selector e s g)
      | OpErase p fs \<Rightarrow> erase_package p fs g
      | OpEraseSel s fs \<Rightarrow> snd (erase_selector e s fs g)
      | OpInstall p opt \<Rightarrow> goal_install_package e p opt g
      | OpInstallSel s opt \<Rightarrow> snd (install_selector e s opt g)
      | OpUpgrade \<Rightarrow> upgrade_everything g
      | OpUpgradePkg p \<Rightarrow> upgrade_package e p g
      | OpUpgradeSel s \<Rightarrow> snd (upgrade_selector e s g)
      | OpUserInstalled ps \<Rightarrow> user_installed ps g
      | OpProtect ps \<Rightarrow> set_protected ps g
      | OpAddProtected ps \<Rightarrow> add_protected e ps g
      | OpRun flags \<Rightarrow> (case goal_run e solve flags g of Inl _ \<Rightarrow> g | Inr (_, g) \<Rightarrow> g)
      | OpCopy \<Rightarrow> goal_copy g)"

inductive goal_reachable :: "goal_env \<Rightarrow> solver \<Rightarrow> goal \<Rightarrow> bool" for e solve where
  new: "goal_reachable e solve goal_new"
| step: "goal_reachable e solve g \<Longrightarrow> goal_reachable e solve (goal_exec e solve op g)"

definition requested :: "job_action set" where
  "requested = {SOLVER_DISTUPGRADE, SOLVER_ERASE, SOLVER_INSTALL, SOLVER_UPDATE, SOLVER_USERINSTALLED}"

definition staged_ok :: "goal \<Rightarrow> bool" where
  "staged_ok g \<longleftrightarrow> (\<forall>j \<in> set (g_staging g). j_action (fst j) \<in> requested)"

lemma sltr_to_job_actions:
  assumes "sltr_to_job e s job a fs = Inr job'"
  shows "\<exists>more. job' = job @ more \<and> (\<forall>j \<in> set more. j_action (fst j) = a \<and> fs \<subseteq> j_flags (fst j))"
  using assms by (auto simp: sltr_to_job_def with_action_def split: if_splits sum.splits prod.splits)

lemma stage_selector_ok:
  assumes "staged_ok g" "a \<in> requested"
  shows "staged_ok (snd (stage_selector e s a fs g))"
proof (cases "sltr_to_job e s (g_staging g) a fs")
  case (Inl err)
  then show ?thesis using assms by (simp add: stage_selector_def)
next
  case (Inr job)
  from sltr_to_job_actions [OF this] obtain more where "job = g_staging g @ more"
    "\<forall>j \<in> set more. j_action (fst j) = a \<and> fs \<subseteq> j_flags (fst j)" by blast
  then show ?thesis using assms Inr by (simp add: stage_selector_def staged_ok_def ball_Un)
qed

lemma stage_package_ok: "staged_ok g \<Longrightarrow> a \<in> requested \<Longrightarrow> staged_ok (stage_package e p a fs g)"
  by (auto simp: staged_ok_def stage_package_def package_to_job_def)

lemma push_job_ok: "staged_ok g \<Longrightarrow> j_action (fst j) \<in> requested \<Longrightarrow> staged_ok (push_job j g)"
  by (auto simp: staged_ok_def push_job_def)

lemma act_ok: "staged_ok (act a g) \<longleftrightarrow> staged_ok g"
  by (simp add: staged_ok_def act_def)

lemma user_installed_ok: "staged_ok g \<Longrightarrow> staged_ok (user_installed ps g)"
  unfolding user_installed_def by (induction ps arbitrary: g) (simp_all add: push_job_ok requested_def)

lemma protected_in_removals_staging:
  "protected_in_removals e g = Inr (bad, g') \<Longrightarrow> g_staging g' = g_staging g"
  by (auto simp: protected_in_removals_def Let_def split: if_splits sum.splits)

lemma goal_run_staging:
  assumes "goal_run e solve flags g = Inr (bad, g')"
  shows "g_staging g' = g_staging g"
proof -
  obtain job g0 where c: "construct_job e flags g = (job, g0)" by fastforce
  have solve: "g_staging g2 = g_staging g1" if "goal_solve e solve job flags g1 = Inr (bad, g2)" for g1 g2 job
    using that by (auto simp: goal_solve_def Let_def split: if_splits prod.splits
        dest!: protected_in_removals_staging allow_keeps(1))
  show ?thesis
    using solve [of job "act flags g0" g'] assms c construct_keeps(1) [OF c] by (simp add: goal_run_def act_def)
qed

lemma goal_exec_ok:
  assumes "staged_ok g"
  shows "staged_ok (goal_exec e solve op g)"
proof (cases op)
  case OpDistupgrade
  then show ?thesis using assms
    by (auto simp: goal_exec_def distupgrade_all_def Let_def act_ok requested_def split: sum.splits intro: stage_selector_ok)
next
  case (OpRun flags)
  show ?thesis
  proof (cases "goal_run e solve flags g")
    case (Inl err)
    then show ?thesis using assms OpRun by (simp add: goal_exec_def)
  next
    case (Inr r)
    then show ?thesis using assms OpRun goal_run_staging [of e solve flags g "fst r" "snd r"]
      by (simp add: goal_exec_def staged_ok_def case_prod_beta')
  qed
qed (use assms in \<open>simp_all add: goal_exec_def distupgrade_package_def distupgrade_selector_def erase_package_def
    erase_selector_def goal_install_package_def install_selector_def upgrade_everything_def upgrade_package_def
    upgrade_selector_def user_installed_ok stage_package_ok stage_selector_ok push_job_ok act_ok requested_def\<close>,
    simp_all add: staged_ok_def set_protected_def add_protected_def goal_copy_def)

lemma goal_reachable_ok: "goal_reachable e solve g \<Longrightarrow> staged_ok g"
  by (induction rule: goal_reachable.induct) (simp_all add: goal_exec_ok, simp add: staged_ok_def goal_new_def)

section \<open>Descriptions\<close>

lemma push_unique_set: "set (push_unique out ms) = set out \<union> set ms"
  by (induction ms arbitrary: out) auto

lemma push_unique_distinct: "distinct out \<Longrightarrow> distinct (push_unique out ms)"
  by (induction ms arbitrary: out) auto

lemma describe_distinct: "describe_problem_rules e i pkgs g = Inr ms \<Longrightarrow> distinct ms"
  by (auto simp: describe_problem_rules_def push_unique_distinct split: sum.splits option.splits if_splits)

lemma saved_already_set:
  assumes "distinct ms" "\<forall>s \<in> set out. distinct s"
  shows "saved_already out ms \<longleftrightarrow> set ms \<in> set ` set out"
proof -
  have "length ms = length s \<and> set ms \<subseteq> set s \<longleftrightarrow> set ms = set s" if "s \<in> set out" for s
    using assms that by (metis card_subset_eq distinct_card finite_set order_refl)
  then show ?thesis by (auto simp: saved_already_def list_ex_iff list_all_iff subset_iff)
qed

lemma collect_problems_sets:
  assumes "collect_problems e pkgs g is out = Inr res" "distinct (map set out)" "\<forall>s \<in> set out. distinct s \<and> s \<noteq> []"
  shows "distinct (map set res) \<and> (\<forall>s \<in> set res. distinct s \<and> s \<noteq> []) \<and>
    set ` set res = set ` set out \<union> {set ms |ms i. i \<in> set is \<and> describe_problem_rules e i pkgs g = Inr ms \<and> ms \<noteq> []}"
  using assms
proof (induction "is" arbitrary: out)
  case Nil
  then show ?case by simp
next
  case (Cons i "is")
  obtain ms where ms: "describe_problem_rules e i pkgs g = Inr ms" using Cons.prems(1) by (auto split: sum.splits)
  define out' where "out' = (if ms = [] \<or> saved_already out ms then out else out @ [ms])"
  have rest: "collect_problems e pkgs g is out' = Inr res" using Cons.prems(1) ms by (simp add: out'_def)
  have saved: "saved_already out ms \<longleftrightarrow> set ms \<in> set ` set out"
    using saved_already_set describe_distinct [OF ms] Cons.prems(3) by blast
  have "distinct (map set out')" "\<forall>s \<in> set out'. distinct s \<and> s \<noteq> []"
    using Cons.prems(2,3) saved describe_distinct [OF ms] by (auto simp: out'_def)
  note IH = Cons.IH [OF rest this]
  have "set ` set out' = set ` set out \<union> (if ms = [] then {} else {set ms})"
    using saved by (auto simp: out'_def)
  then show ?case using IH ms by auto
qed

section \<open>Running again\<close>



section \<open>An example\<close>

definition sample_goals :: goal_env where
  "sample_goals = \<lparr>ge = two_repos, whatprovides_id = (\<lambda>ps. 10 + sum_list ps), rel2id = (\<lambda>a b r. a + b),
     str2id_create = (\<lambda>s. 1), ARCH_SRC = 20, ARCH_NOSRC = 21, id2arch = None, lastarch = 0,
     select_files = (\<lambda>g s. []), select_repos = (\<lambda>js rs. js), name_hits = (\<lambda>s. []), provides_hits = (\<lambda>s. []),
     name_key_how = how SOLVER_SOLVABLE_NAME SOLVER_NOOP {}, provides_key_how = how SOLVER_SOLVABLE_ALL SOLVER_NOOP {},
     installonly = [1], installonly_limit = 1, running_kernel = Some 2, pool_considered = None, module_excludes = None,
     disabled_solvable = (\<lambda>p. False), solvid2str = (\<lambda>p. replicate p CHR ''p''), dep2str = (\<lambda>d. replicate d CHR ''d''),
     solv_sort_fn = solv_sort\<rparr>"

definition sample_solution :: solution where
  "sample_solution = \<lparr>sol_problems = [], sol_level = (\<lambda>p. 0), sol_steps = [2], sol_type = (\<lambda>obs p. TRANS_OTHER),
     sol_unneeded = [], sol_recommended = [], sol_cleandeps = [], sol_decision = (\<lambda>p. (REASON_OTHER, CLASS_OTHER)),
     sol_obsoleted_by = (\<lambda>p. [])\<rparr>"

text \<open>Solvers that do nothing, that erase the package 2, and that find a conflict.\<close>

definition idle_solver :: solver where "idle_solver flags job = sample_solution"

definition erasing_solver :: solver where
  "erasing_solver flags job = sample_solution\<lparr>sol_type := (\<lambda>obs p. if obs then TRANS_OTHER else TRANS_ERASE)\<rparr>"

definition conflict_rule :: rule_info where
  "conflict_rule = \<lparr>ri_type = SOLVER_RULE_PKG_CONFLICTS, ri_source = 3, ri_target = 4, ri_dep = 1\<rparr>"

definition failing_solver :: solver where
  "failing_solver flags job = sample_solution\<lparr>sol_problems := [[(conflict_rule, [conflict_rule, conflict_rule])]]\<rparr>"

lemmas sample_goal_defs = sample_goals_def sample_solution_def idle_solver_def erasing_solver_def conflict_rule_def
  failing_solver_def goal_new_def

lemma sample_goals_simps [simp]:
  "ge sample_goals = two_repos" "running_kernel sample_goals = Some 2" "installonly_limit sample_goals = 1"
  "nsolvables two_repos_pool = 7" "solv_sort_fn sample_goals = solv_sort"
  by (simp_all add: sample_goals_def two_repos_pool_def)

lemma sample_no_limit: "limit_installonly_packages sample_goals (sample_solution\<lparr>sol_type := t\<rparr>) = []"
  "limit_installonly_packages sample_goals sample_solution = []"
  by (simp_all add: limit_installonly_packages_def limit_one_def sample_goals_def sample_solution_def)

text \<open>After the refusal the package 2 is recorded as protected; the next run has problems.\<close>

definition refused_goal :: goal where
  "refused_goal = (case goal_run sample_goals erasing_solver 0 goal_new of Inl _ \<Rightarrow> goal_new | Inr (_, g) \<Rightarrow> g)"

lemma ids_2: "ids_union sample_goals [] [2] = [2]"
  by (simp add: ids_union_def upt_rec)

lemma sample_erased: "protected_in_removals sample_goals g = Inr (True, g\<lparr>g_removal := Some [2]\<rparr>)"
  if "g_protected g = Some [2]" "g_trans g = Some (erasing_solver fs job)"
  using that by (simp add: protected_in_removals_def set_of_def list_results_def ids_union_def sample_goal_defs upt_rec)

lemma refused_run: "goal_run sample_goals erasing_solver 0 goal_new = Inr (True, refused_goal)"
  "g_removal refused_goal = Some [2]" "g_protected refused_goal = Some [2]"
  "g_solv refused_goal = Some (erasing_solver {} [])"
proof -
  obtain job g0 where c: "construct_job sample_goals 0 goal_new = (job, g0)" by fastforce
  then have g0: "g_protected g0 = Some [2]" "g_removal g0 = None"
    by (auto simp: construct_job_def Let_def goal_new_def ids_2 split: prod.splits dest!: allow_protected)
  have prob: "sol_problems (erasing_solver fs js) = []" for fs js by (simp add: sample_goal_defs)
  have lim: "limit_installonly_packages sample_goals (erasing_solver fs js) = []" for fs js
    by (simp add: erasing_solver_def sample_no_limit)
  have same: "erasing_solver fs js = erasing_solver {} []" for fs js by (simp add: erasing_solver_def)
  have "goal_run sample_goals erasing_solver 0 goal_new =
      Inr (True, act 0 g0\<lparr>g_trans := Some (erasing_solver {} []), g_solv := Some (erasing_solver {} []), g_removal := Some [2]\<rparr>)"
    using c g0 same
    by (simp add: goal_run_def goal_solve_def Let_def prob lim act_def sample_erased [where fs = "{}" and job = "[]"])
  then show "goal_run sample_goals erasing_solver 0 goal_new = Inr (True, refused_goal)"
    "g_removal refused_goal = Some [2]" "g_protected refused_goal = Some [2]"
    "g_solv refused_goal = Some (erasing_solver {} [])"
    using g0 by (simp_all add: refused_goal_def act_def)
qed

section \<open>Properties\<close>

text \<open>C10. After a run that reports no problems, no protected package and not the running kernel is among the packages
  that the transaction erases or obsoletes.\<close>

theorem protected_packages_survive_runs:
  assumes "goal_run e solve flags g = Inr (False, g')"
  shows "\<exists>ers obs. list_erasures e g' = Inr ers \<and> list_obsoleted e g' = Inr obs \<and>
    (set ers \<union> set obs) \<inter> protected_set e g = {}"
proof -
  obtain sol where "g_trans g' = Some sol" "\<forall>p \<in> protected_set e g. p \<in> set (sol_steps sol) \<longrightarrow>
      sol_type sol False p \<noteq> TRANS_ERASE \<and> sol_type sol True p \<noteq> TRANS_OBSOLETED"
    using run_protects [OF assms] by blast
  then show ?thesis by (auto simp: list_erasures_def list_obsoleted_def list_results_def)
qed

lemma idle_run: "\<exists>g'. goal_run sample_goals idle_solver 0 goal_new = Inr (False, g')"
proof -
  obtain job g0 where c: "construct_job sample_goals 0 goal_new = (job, g0)" by fastforce
  have idle: "idle_solver fs js = sample_solution" for fs js by (simp add: idle_solver_def)
  have "\<exists>g'. protected_in_removals sample_goals g = Inr (False, g')" if "g_trans g = Some sample_solution" for g
    using that by (simp add: protected_in_removals_def list_results_def ids_union_def sample_solution_def)
  then show ?thesis using c
    by (simp add: goal_run_def goal_solve_def Let_def idle sample_no_limit) (simp add: sample_solution_def)
qed

lemma protected_packages_survive_runs_witness:
  "\<exists>g' ers obs. list_erasures sample_goals g' = Inr ers \<and> list_obsoleted sample_goals g' = Inr obs \<and>
    (set ers \<union> set obs) \<inter> protected_set sample_goals goal_new = {} \<and> 2 \<in> protected_set sample_goals goal_new"
proof -
  obtain g' where "goal_run sample_goals idle_solver 0 goal_new = Inr (False, g')" using idle_run by blast
  from protected_packages_survive_runs [OF this] show ?thesis by (auto simp: protected_set_def)
qed

text \<open>The permissions to uninstall in a list of jobs.\<close>

definition permit_ok :: "goal_env \<Rightarrow> goal \<Rightarrow> job \<Rightarrow> bool" where
  "permit_ok e g j \<longleftrightarrow> (j_action (fst j) = SOLVER_ALLOWUNINSTALL \<longrightarrow>
     snd j \<notin> protected_set e g \<and> so_repo (gpool e) (snd j) = installed (ge e))"

definition permits_unprotected :: "goal_env \<Rightarrow> goal \<Rightarrow> job list \<Rightarrow> bool" where
  "permits_unprotected e g job \<longleftrightarrow> list_all (permit_ok e g) job"

lemma permits_append [simp]:
  "permits_unprotected e g (xs @ ys) \<longleftrightarrow> permits_unprotected e g xs \<and> permits_unprotected e g ys"
  by (simp add: permits_unprotected_def)

lemma construct_permits:
  assumes "goal_reachable e solve g" "construct_job e flags g = (job, g')"
  shows "permits_unprotected e g job"
proof -
  have staged: "\<forall>j \<in> set (g_staging g). j_action (fst j) \<in> requested"
    using goal_reachable_ok [OF assms(1)] by (simp add: staged_ok_def)
  obtain more where job: "set job = (if hy_has flags DNF_FORCE_BEST then with_flags {SOLVER_FORCEBEST} else id) ` set (g_staging g) \<union>
      {(how SOLVER_SOLVABLE_PROVIDES SOLVER_MULTIVERSION {}, d) |d. d \<in> set (installonly e)} \<union> more \<union>
      (if hy_has flags DNF_VERIFY then {(how SOLVER_SOLVABLE_ALL SOLVER_VERIFY {}, 0)} else {})"
    "\<forall>j \<in> more. j_action (fst j) = SOLVER_ALLOWUNINSTALL \<and> snd j \<notin> protected_set e g \<and>
      so_repo (gpool e) (snd j) = installed (ge e)"
    using construct_job_parts [OF assms(2)] by blast
  show ?thesis unfolding permits_unprotected_def list_all_iff permit_ok_def job(1)
    using staged job(2) by (auto simp: with_flags_def requested_def split: if_splits)
qed

lemma without_weak_permits: assumes "permits_unprotected e g job" shows "permits_unprotected e g (map without_weak job)"
proof -
  have "permit_ok e g (without_weak j) = permit_ok e g j" for j by (simp add: permit_ok_def without_weak_def)
  then show ?thesis using assms by (simp add: permits_unprotected_def list_all_iff)
qed

lemma permits_same: "protected_set e h = protected_set e g \<Longrightarrow> permits_unprotected e h = permits_unprotected e g"
proof -
  assume "protected_set e h = protected_set e g"
  then have "permit_ok e h = permit_ok e g" by (simp add: permit_ok_def [abs_def])
  then show ?thesis by (simp add: permits_unprotected_def [abs_def])
qed

lemma permit_other: "j_action (fst j) \<in> {SOLVER_INSTALL, SOLVER_ERASE} \<Longrightarrow> permit_ok e g j"
  by (auto simp: permit_ok_def)

lemma limit_permits: "permits_unprotected e g (limit_installonly_packages e sol)"
proof -
  have "list_all (permit_ok e g) (limit_queue e ps)" for ps
    unfolding list_all_iff using limit_queue_actions permit_other by blast
  then have "list_all (permit_ok e g) (limit_one e sol d)" for d
    by (auto simp: limit_one_def Let_def list_all_iff)
  then show ?thesis by (simp add: permits_unprotected_def limit_installonly_packages_def list_all_iff)
qed

lemma allow_permits:
  assumes "allow_uninstall_all_but_protected e flags job g = (job', g')" "permits_unprotected e g job"
  shows "permits_unprotected e g job'"
proof -
  obtain more where "job' = job @ more" "\<forall>j \<in> set more. permit_ok e g j"
    using allow_jobs [OF assms(1)] unfolding permit_ok_def by blast
  then show ?thesis using assms(2) by (auto simp: permits_unprotected_def list_all_iff)
qed

lemma goal_solve_asks:
  assumes job: "permits_unprotected e g job"
    and same: "\<And>sf js. permits_unprotected e g js \<Longrightarrow> solve1 sf js = solve2 sf js"
  shows "goal_solve e solve1 job flags g = goal_solve e solve2 job flags g"
proof -
  define job1 where "job1 = (if hy_has DNF_IGNORE_WEAK flags then map without_weak job else job)"
  have job1: "permits_unprotected e g job1" using job without_weak_permits by (simp add: job1_def)
  have first: "solve1 sf job1 = solve2 sf job1" for sf by (rule same [OF job1])
  have second: "solve1 sf js = solve2 sf js"
    if "allow_uninstall_all_but_protected e DNF_ALLOW_UNINSTALL (job1 @ limit_installonly_packages e sol) h = (js, h')"
      and "g_protected h = g_protected g" for sf sol h js h'
    using allow_permits [OF that(1)] limit_permits job1 same by (simp add: permits_same [of e h g] protected_set_def that(2))
  show ?thesis
    unfolding goal_solve_def Let_def job1_def [symmetric] first
    by (auto split: prod.split simp: second)
qed

text \<open>C11. No run of a goal that can be reached asks the solver with a permission to uninstall
  (\<open>SOLVER_ALLOWUNINSTALL\<close>) for a package that is protected or not installed, neither the first time nor when it asks
  again for the limit of packages: answers to other lists of jobs do not matter. A request to erase a protected package
  is no such permission; what the solver makes of it is looked at after solving.\<close>

theorem only_unprotected_packages_may_go:
  assumes "goal_reachable e solve g" "\<And>sf js. permits_unprotected e g js \<Longrightarrow> solve1 sf js = solve2 sf js"
  shows "goal_run e solve1 flags g = goal_run e solve2 flags g"
proof -
  obtain job g' where c: "construct_job e flags g = (job, g')" by fastforce
  have act: "permits_unprotected e (act flags g') = permits_unprotected e g"
  proof (rule permits_same)
    have "protected_set e (act flags g') = protected_set e g'" by (simp add: act_def protected_set_def)
    then show "protected_set e (act flags g') = protected_set e g" using construct_keeps(7) [OF c] by simp
  qed
  then have "goal_solve e solve1 job flags (act flags g') = goal_solve e solve2 job flags (act flags g')"
    using construct_permits [OF assms(1) c] assms(2) by (intro goal_solve_asks) simp_all
  then show ?thesis by (simp add: goal_run_def c)
qed

lemma only_unprotected_packages_may_go_witness:
  "goal_run sample_goals (\<lambda>sf js. if permits_unprotected sample_goals goal_new js then idle_solver sf js else erasing_solver sf js)
     DNF_ALLOW_UNINSTALL goal_new = goal_run sample_goals idle_solver DNF_ALLOW_UNINSTALL goal_new"
  by (rule only_unprotected_packages_may_go [OF goal_reachable.new [of sample_goals idle_solver]]) simp

text \<open>A run that is refused because of protected packages reports a problem but leaves its transaction in place: the
  lists of results still answer, with protected packages among them, instead of raising the error that the code has for
  it.\<close>

theorem refused_removal_is_still_listed:
  assumes "goal_run e solve flags g = Inr (True, g')" "g_solv g' = Some sol" "sol_problems sol = []"
  shows "\<exists>ers obs. list_erasures e g' = Inr ers \<and> list_obsoleted e g' = Inr obs \<and>
    set_of (g_removal g') \<noteq> {} \<and> set_of (g_removal g') \<subseteq> set ers \<union> set obs"
  using assms(1)
proof (cases rule: goal_run_cases)
  case (problems sol)
  then show ?thesis using assms by simp
next
  case (finished sol g1)
  then show ?thesis using protected_in_removals_hit [OF finished(5,3)] by auto
qed

lemma refused_removal_is_still_listed_witness:
  "\<exists>ers obs. list_erasures sample_goals refused_goal = Inr ers \<and> list_obsoleted sample_goals refused_goal = Inr obs \<and>
    {2} \<subseteq> set ers \<union> set obs"
  using refused_removal_is_still_listed [OF refused_run(1,4)] refused_run(2)
  by (auto simp: set_of_def) (auto simp: sample_goal_defs)



text \<open>A copy of a goal, which has no solver and no transaction, runs exactly as the goal does.\<close>

theorem copied_goal_runs_alike:
  "goal_run e solve flags (goal_copy g) = goal_run e solve flags g"
proof -
  have allow: "allow_uninstall_all_but_protected e fl js (goal_copy g) =
      map_prod id goal_copy (allow_uninstall_all_but_protected e fl js g)" for fl js
    by (simp add: allow_uninstall_all_but_protected_def goal_copy_def Let_def)
  have staging: "g_staging (goal_copy g) = g_staging g" by (simp add: goal_copy_def)
  have construct: "construct_job e flags (goal_copy g) = map_prod id goal_copy (construct_job e flags g)"
    by (simp add: construct_job_def Let_def allow staging case_prod_beta' map_prod_def)
  have solve: "goal_solve e solve job flags (act flags (goal_copy h)) = goal_solve e solve job flags (act flags h)" for job h
    by (simp add: goal_solve_def act_def goal_copy_def Let_def)
  show ?thesis unfolding goal_run_def construct by (simp add: solve case_prod_beta' map_prod_def Let_def)
qed

text \<open>C12. For every name of which more packages were decided on than may be installed together, a new one among the
  providers, jobs ask to install the last ones of the sorted queue, as many as the limit, and to erase the others; for
  other names there are no jobs.\<close>

theorem installonly_limit_keeps_the_last:
  assumes "q = filter (\<lambda>p. is_package (gpool e) p \<and> sol_level sol p > 0) (provides_of (gpool e) dep)"
    "sorted_wrt (\<lambda>p r. so_name (gpool e) p \<le> so_name (gpool e) r) (solv_sort_fn e (sort_packages e) q)"
    "length (solv_sort_fn e (sort_packages e) q) = length q" "\<exists>p \<in> set q. so_repo (gpool e) p \<noteq> installed (ge e)"
    "same = filter (\<lambda>p. so_name (gpool e) p = n) (rev (solv_sort_fn e (sort_packages e) q))"
  shows "map snd (filter (\<lambda>j. j_action (fst j) = SOLVER_INSTALL \<and> so_name (gpool e) (snd j) = n) (limit_one e sol dep)) =
      (if length same > installonly_limit e then take (installonly_limit e) same else []) \<and>
    map snd (filter (\<lambda>j. j_action (fst j) = SOLVER_ERASE \<and> so_name (gpool e) (snd j) = n) (limit_one e sol dep)) =
      (if length same > installonly_limit e then drop (installonly_limit e) same else [])"
proof (cases "length q \<le> installonly_limit e")
  case True
  have "length same \<le> length q" using assms(3,5) by (metis length_filter_le length_rev)
  moreover have "limit_one e sol dep = []" using True assms(1) by (simp add: limit_one_def)
  ultimately show ?thesis using True by simp
next
  case False
  have new: "\<not> list_all (\<lambda>p. so_repo (gpool e) p = installed (ge e)) q" using assms(4) by (auto simp: list_all_iff)
  have "limit_one e sol dep = limit_queue e (rev (solv_sort_fn e (sort_packages e) q))"
    unfolding limit_one_def assms(1) [symmetric] Let_def using False new by simp
  then show ?thesis
    using limit_queue_filter [of e "rev (solv_sort_fn e (sort_packages e) q)" n] assms(2,5)
    by (simp add: sorted_wrt_rev Let_def)
qed

lemma installonly_limit_keeps_the_last_witness:
  "map snd (filter (\<lambda>j. j_action (fst j) = SOLVER_INSTALL \<and> so_name two_repos_pool (snd j) = 1)
     (limit_one sample_goals (sample_solution\<lparr>sol_level := (\<lambda>p. 1)\<rparr>) 1)) = [3]"
proof -
  have q: "[2, 3, 4] = filter (\<lambda>p. is_package (gpool sample_goals) p \<and> sol_level (sample_solution\<lparr>sol_level := (\<lambda>p. 1)\<rparr>) p > 0)
      (provides_of (gpool sample_goals) 1)"
    by (simp add: is_package_def pkg_name_def two_repos_pool_def SOLVABLE_NAME_ADVISORY_PREFIX_def)
  have sorted: "solv_sort_fn sample_goals (sort_packages sample_goals) [2, 3, 4] = [2, 4, 3]"
    by (simp add: solv_sort_def sort_packages_def Let_def) (simp add: two_repos_pool_def)
  show ?thesis
    using installonly_limit_keeps_the_last [OF q, where n = 1 and same = "[3, 4, 2]"] unfolding sorted
    by (simp add: two_repos_pool_def)
qed

text \<open>All problems are described, each once: no two lists of messages hold the same messages, and the sets of messages
  are those of the single problems that have any.\<close>

theorem problems_are_described_once:
  assumes "describe_all_problem_rules e pkgs g = Inr res" "count_problems g = Inr n"
  shows "distinct (map set res) \<and> (\<forall>ms \<in> set res. distinct ms \<and> ms \<noteq> []) \<and>
    set ` set res = {set ms |ms i. i < n \<and> describe_problem_rules e i pkgs g = Inr ms \<and> ms \<noteq> []}"
  using collect_problems_sets [of e pkgs g "[0..<n]" "[]" res] assms by (simp add: describe_all_problem_rules_def)

lemma problems_are_described_once_witness:
  "describe_all_problem_rules sample_goals True (goal_new\<lparr>g_solv := Some (failing_solver {} []), g_protected := Some []\<rparr>) =
     Inr [[''package ppp conflicts with d provided by pppp'']] \<and>
   distinct (map set [[''package ppp conflicts with d provided by pppp'']])"
proof -
  let ?g = "goal_new\<lparr>g_solv := Some (failing_solver {} []), g_protected := Some []\<rparr>"
  have count: "count_problems ?g = Inr 1" by (simp add: count_problems_def failing_solver_def goal_new_def set_of_def)
  have message: "problemruleinfo2str sample_goals conflict_rule PKG_PROBLEMS_DICT = ''package ppp conflicts with d provided by pppp''"
    by (simp add: problemruleinfo2str_def conflict_rule_def sample_goals_def numeral_eq_Suc)
  have all: "describe_all_problem_rules sample_goals True ?g = Inr [[''package ppp conflicts with d provided by pppp'']]"
    unfolding describe_all_problem_rules_def count
    by (simp add: describe_problem_rules_def count describe_protected_removal_def set_of_def goal_new_def
        list_broken_dependency_pkgs_def problem_rules_def message saved_already_def failing_solver_def
        count_problems_def broken_dependency_pkgs_def conflict_rule_def [symmetric] message)
  from problems_are_described_once [OF all count] all show ?thesis by blast
qed

end
