(* ===== verification/Dnf4Sack.thy ===== *)
theory Dnf4Sack
  imports Dnf4QueryRun
begin

text \<open>
  The sack of dnf 4: \<open>dnf-4/libdnf/dnf-sack.cpp\<close>, which packages queries and the solver may consider. The sack keeps
  excluded and included packages in several maps and a map of the considered ones, which it computes anew when one of
  the others has changed.
\<close>

section \<open>The state\<close>

text \<open>A repository of the pool: whether its packages need to be included, and whether it is disabled.\<close>

record sack_repo =
  sr_name :: string
  sr_use_includes :: bool
  sr_disabled :: bool

text \<open>
  A map of packages is a set; the map of the packages of disabled repositories comes with the number of bits it has
  room for, since its bits are written one by one. \<open>dnf_sack_make_provides_ready\<close> is declared but not defined in the
  sources; only what marks the provides as not ready is kept. An architecture is there when it has been set.
\<close>

record dnf_sack =
  dk_pool :: pool
  dk_repos :: "(nat \<times> sack_repo) list"
  dk_installed :: "nat option"
  dk_cmdline :: "nat option"
  dk_pkg_excludes :: "nat set option"
  dk_pkg_includes :: "nat set option"
  dk_repo_excludes :: "(nat \<times> nat set) option"
  dk_module_excludes :: "nat set option"
  dk_module_includes :: "nat set option"
  dk_considered :: "nat list option"
  dk_uptodate :: bool
  dk_provides_ready :: bool
  dk_pkg_solvables :: "nat list option"
  dk_pool_nsolvables :: nat
  dk_installonly :: "nat list"
  dk_installonly_limit :: nat
  dk_running_kernel :: "nat option"
  dk_running_kernel_fn :: "nat option option"
  dk_cache_dir :: "string option"
  dk_arch :: "string option"
  dk_all_arch :: bool

datatype sack_error = RepoNotFound | MapOverflow

abbreviation dk_n :: "dnf_sack \<Rightarrow> nat" where "dk_n s \<equiv> nsolvables (dk_pool s)"

text \<open>\<open>running_kernel_fn\<close> is the answer of the function that looks for the kernel, if there is such a function.\<close>

definition dnf_sack_init :: "pool \<Rightarrow> nat option \<Rightarrow> dnf_sack" where
  "dnf_sack_init pool krn = \<lparr>dk_pool = pool, dk_repos = [], dk_installed = None, dk_cmdline = None, dk_pkg_excludes = None, dk_pkg_includes = None,
     dk_repo_excludes = None, dk_module_excludes = None, dk_module_includes = None, dk_considered = None,
     dk_uptodate = True, dk_provides_ready = False, dk_pkg_solvables = None, dk_pool_nsolvables = 0, dk_installonly = [],
     dk_installonly_limit = 0, dk_running_kernel = None, dk_running_kernel_fn = Some krn, dk_cache_dir = None,
     dk_arch = None, dk_all_arch = False\<rparr>"

text \<open>A map of libsolv for \<open>n\<close> packages consists of whole bytes.\<close>

definition map_bits :: "nat \<Rightarrow> nat" where "map_bits n = 8 * ((n + 7) div 8)"

definition stale :: "dnf_sack \<Rightarrow> dnf_sack" where "stale s = s\<lparr>dk_uptodate := False\<rparr>"

definition map_members :: "nat set option \<Rightarrow> nat set" where "map_members m = (case m of None \<Rightarrow> {} | Some ps \<Rightarrow> ps)"

definition repo_members_of :: "(nat \<times> nat set) option \<Rightarrow> nat set" where
  "repo_members_of m = (case m of None \<Rightarrow> {} | Some (_, ps) \<Rightarrow> ps)"

section \<open>Considered packages\<close>

definition ignores_modular :: "nat \<Rightarrow> bool" where "ignores_modular flags \<longleftrightarrow> flags mod 2 = 1"
definition ignores_regular :: "nat \<Rightarrow> bool" where "ignores_regular flags \<longleftrightarrow> flags div 2 mod 2 = 1"

text \<open>The repository of a package does not use includes: its packages count as included.\<close>

definition from_open_repo :: "dnf_sack \<Rightarrow> nat \<Rightarrow> bool" where
  "from_open_repo s p = list_ex (\<lambda>(i, r). \<not> sr_use_includes r \<and> so_repo (dk_pool s) p = Some i) (dk_repos s)"

definition recompute_considered_map :: "dnf_sack \<Rightarrow> nat list option \<Rightarrow> nat \<Rightarrow> nat list option" where
  "recompute_considered_map s old flags =
     (if old = None \<and>
         (ignores_regular flags \<or> (dk_repo_excludes s = None \<and> dk_pkg_excludes s = None \<and> dk_pkg_includes s = None)) \<and>
         (ignores_modular flags \<or> dk_module_excludes s = None)
      then None
      else Some (filter (\<lambda>p.
        (ignores_modular flags \<or> p \<notin> map_members (dk_module_excludes s)) \<and>
        (ignores_regular flags \<or>
           (p \<notin> repo_members_of (dk_repo_excludes s) \<and> p \<notin> map_members (dk_pkg_excludes s) \<and>
            (dk_pkg_includes s = None \<or> p \<in> map_members (dk_pkg_includes s) \<or> from_open_repo s p))))
        [0..<map_bits (dk_n s)]))"

definition recompute_considered :: "dnf_sack \<Rightarrow> dnf_sack" where
  "recompute_considered s =
     (if dk_uptodate s then s
      else s\<lparr>dk_considered := recompute_considered_map s (dk_considered s) 0, dk_uptodate := True\<rparr>)"

text \<open>What a query that starts now may see: the map of the sack, or one of its own when it ignores excludes.\<close>

definition considered_for :: "dnf_sack \<Rightarrow> nat \<Rightarrow> nat list option" where
  "considered_for s flags =
     (if flags = 0 then dk_considered (recompute_considered s) else recompute_considered_map s None flags)"

definition sack_env :: "dnf_sack \<Rightarrow> hy_env \<Rightarrow> hy_env" where
  "sack_env s e = e\<lparr>hp := dk_pool s, installed := dk_installed s, considered := considered_for s\<rparr>"

section \<open>Excludes and includes\<close>

definition add_to :: "nat set option \<Rightarrow> nat list \<Rightarrow> nat set option" where
  "add_to m ps = Some (map_members m \<union> set ps)"

definition sack_add_excludes :: "nat list \<Rightarrow> dnf_sack \<Rightarrow> dnf_sack" where
  "sack_add_excludes ps s = stale (s\<lparr>dk_pkg_excludes := add_to (dk_pkg_excludes s) ps\<rparr>)"
definition sack_add_module_excludes :: "nat list \<Rightarrow> dnf_sack \<Rightarrow> dnf_sack" where
  "sack_add_module_excludes ps s = stale (s\<lparr>dk_module_excludes := add_to (dk_module_excludes s) ps\<rparr>)"
definition sack_add_includes :: "nat list \<Rightarrow> dnf_sack \<Rightarrow> dnf_sack" where
  "sack_add_includes ps s = stale (s\<lparr>dk_pkg_includes := add_to (dk_pkg_includes s) ps\<rparr>)"

text \<open>Removing from a map that does not exist changes nothing.\<close>

definition sack_remove_excludes :: "nat list \<Rightarrow> dnf_sack \<Rightarrow> dnf_sack" where
  "sack_remove_excludes ps s =
     (case dk_pkg_excludes s of None \<Rightarrow> s | Some xs \<Rightarrow> stale (s\<lparr>dk_pkg_excludes := Some (xs - set ps)\<rparr>))"
definition sack_remove_module_excludes :: "nat list \<Rightarrow> dnf_sack \<Rightarrow> dnf_sack" where
  "sack_remove_module_excludes ps s =
     (case dk_module_excludes s of None \<Rightarrow> s | Some xs \<Rightarrow> stale (s\<lparr>dk_module_excludes := Some (xs - set ps)\<rparr>))"
definition sack_remove_includes :: "nat list \<Rightarrow> dnf_sack \<Rightarrow> dnf_sack" where
  "sack_remove_includes ps s =
     (case dk_pkg_includes s of None \<Rightarrow> s | Some xs \<Rightarrow> stale (s\<lparr>dk_pkg_includes := Some (xs - set ps)\<rparr>))"

definition sack_set_excludes :: "nat list option \<Rightarrow> dnf_sack \<Rightarrow> dnf_sack" where
  "sack_set_excludes ps s =
     (if dk_pkg_excludes s = None \<and> ps = None then s else stale (s\<lparr>dk_pkg_excludes := map_option set ps\<rparr>))"
definition sack_set_module_excludes :: "nat list option \<Rightarrow> dnf_sack \<Rightarrow> dnf_sack" where
  "sack_set_module_excludes ps s =
     (if dk_module_excludes s = None \<and> ps = None then s else stale (s\<lparr>dk_module_excludes := map_option set ps\<rparr>))"
definition sack_set_includes :: "nat list option \<Rightarrow> dnf_sack \<Rightarrow> dnf_sack" where
  "sack_set_includes ps s =
     (if dk_pkg_includes s = None \<and> ps = None then s else stale (s\<lparr>dk_pkg_includes := map_option set ps\<rparr>))"

definition sack_set_module_includes :: "nat list option \<Rightarrow> dnf_sack \<Rightarrow> dnf_sack" where
  "sack_set_module_includes ps s = (case ps of None \<Rightarrow> s | Some ps \<Rightarrow> s\<lparr>dk_module_includes := Some (set ps)\<rparr>)"

definition sack_reset_excludes :: "dnf_sack \<Rightarrow> dnf_sack" where "sack_reset_excludes s = sack_set_excludes None s"
definition sack_reset_module_excludes :: "dnf_sack \<Rightarrow> dnf_sack" where
  "sack_reset_module_excludes s = sack_set_module_excludes None s"
definition sack_reset_includes :: "dnf_sack \<Rightarrow> dnf_sack" where "sack_reset_includes s = sack_set_includes None s"

section \<open>Repositories\<close>

definition repo_by_name :: "dnf_sack \<Rightarrow> string \<Rightarrow> (nat \<times> sack_repo) option" where
  "repo_by_name s name = find (\<lambda>(i, r). sr_name r = name) (dk_repos s)"

definition update_repo :: "nat \<Rightarrow> (sack_repo \<Rightarrow> sack_repo) \<Rightarrow> dnf_sack \<Rightarrow> dnf_sack" where
  "update_repo i f s = s\<lparr>dk_repos := map (\<lambda>(j, r). (j, if j = i then f r else r)) (dk_repos s)\<rparr>"

definition sack_set_use_includes :: "string option \<Rightarrow> bool \<Rightarrow> dnf_sack \<Rightarrow> bool \<times> dnf_sack" where
  "sack_set_use_includes name enabled s =
     (case name of
        Some name \<Rightarrow>
          (case repo_by_name s name of
             None \<Rightarrow> (False, s)
           | Some (i, r) \<Rightarrow>
               (True, if sr_use_includes r \<noteq> enabled then stale (update_repo i (\<lambda>r. r\<lparr>sr_use_includes := enabled\<rparr>) s) else s))
      | None \<Rightarrow>
          (True, if list_ex (\<lambda>(i, r). sr_use_includes r \<noteq> enabled) (dk_repos s)
                 then stale (s\<lparr>dk_repos := map (\<lambda>(j, r). (j, r\<lparr>sr_use_includes := enabled\<rparr>)) (dk_repos s)\<rparr>) else s))"

definition sack_get_use_includes :: "string \<Rightarrow> dnf_sack \<Rightarrow> bool option" where
  "sack_get_use_includes name s = map_option (\<lambda>(i, r). sr_use_includes r) (repo_by_name s name)"

text \<open>The packages of a repository in the pool.\<close>

definition repo_solvables :: "dnf_sack \<Rightarrow> nat \<Rightarrow> nat list" where
  "repo_solvables s i = filter (\<lambda>p. so_repo (dk_pool s) p = Some i) [0..<dk_n s]"

text \<open>
  Enabling and disabling. The map is made when it is first needed, with room for the packages there are then; a bit
  past its end is an access out of bounds.
\<close>

definition sack_repo_enabled :: "string \<Rightarrow> bool \<Rightarrow> dnf_sack \<Rightarrow> sack_error + dnf_sack" where
  "sack_repo_enabled name enabled s =
     (case repo_by_name s name of
        None \<Rightarrow> Inl RepoNotFound
      | Some (i, r) \<Rightarrow>
          let (room, excl) = (case dk_repo_excludes s of None \<Rightarrow> (map_bits (dk_n s), {}) | Some m \<Rightarrow> m);
              ps = repo_solvables s i;
              s = update_repo i (\<lambda>r. r\<lparr>sr_disabled := \<not> enabled\<rparr>) (s\<lparr>dk_provides_ready := False\<rparr>)
          in
          if list_ex (\<lambda>p. p \<ge> room) ps then Inl MapOverflow
          else Inr (stale (s\<lparr>dk_repo_excludes := Some (room, if enabled then excl - set ps else excl \<union> set ps)\<rparr>)))"

text \<open>
  A repository that libsolv has read is attached with its packages in the pool; it is the one of the installed
  packages, or another. A repository of packages of the command line is made when the first of them is added:
  \<open>readable\<close> says whether the file may be read, \<open>add_rpm\<close> is \<open>repo_add_rpm\<close> of libsolv with the new package.
\<close>

definition sack_attach_repo :: "pool \<Rightarrow> nat \<Rightarrow> sack_repo \<Rightarrow> dnf_sack \<Rightarrow> dnf_sack" where
  "sack_attach_repo pool i r s = s\<lparr>dk_pool := pool, dk_repos := dk_repos s @ [(i, r)], dk_provides_ready := False\<rparr>"

definition sack_attach_system_repo :: "pool \<Rightarrow> nat \<Rightarrow> sack_repo \<Rightarrow> dnf_sack \<Rightarrow> dnf_sack" where
  "sack_attach_system_repo pool i r s = sack_attach_repo pool i r s\<lparr>dk_installed := Some i\<rparr>"

definition HY_CMDLINE_REPO_NAME :: string where "HY_CMDLINE_REPO_NAME = ''@commandline''"

definition is_readable_rpm :: "(string \<Rightarrow> bool) \<Rightarrow> string \<Rightarrow> bool" where
  "is_readable_rpm readable f \<longleftrightarrow> readable f \<and> length f > 4 \<and> drop (length f - 4) f = ''.rpm''"

definition fresh_repo :: "dnf_sack \<Rightarrow> nat" where "fresh_repo s = Suc (fold max (map fst (dk_repos s)) 0)"

definition sack_setup_cmdline_repo :: "dnf_sack \<Rightarrow> nat \<times> dnf_sack" where
  "sack_setup_cmdline_repo s =
     (case dk_cmdline s of
        Some i \<Rightarrow> (i, s)
      | None \<Rightarrow>
          let i = fresh_repo s in
          (i, s\<lparr>dk_repos := dk_repos s @ [(i, \<lparr>sr_name = HY_CMDLINE_REPO_NAME, sr_use_includes = False, sr_disabled = False\<rparr>)],
                dk_cmdline := Some i\<rparr>))"

definition sack_add_cmdline_package ::
  "(string \<Rightarrow> bool) \<Rightarrow> (nat \<Rightarrow> string \<Rightarrow> pool \<Rightarrow> (nat \<times> pool) option) \<Rightarrow> string \<Rightarrow> dnf_sack \<Rightarrow> nat option \<times> dnf_sack" where
  "sack_add_cmdline_package readable add_rpm f s =
     (if \<not> is_readable_rpm readable f then (None, s)
      else
        let (i, s) = sack_setup_cmdline_repo s; s = s\<lparr>dk_provides_ready := False\<rparr> in
        case add_rpm i f (dk_pool s) of
          None \<Rightarrow> (None, s)
        | Some (p, pool) \<Rightarrow> (Some p, stale (s\<lparr>dk_pool := pool\<rparr>)))"

section \<open>Other operations\<close>

definition sack_set_provides_not_ready :: "dnf_sack \<Rightarrow> dnf_sack" where
  "sack_set_provides_not_ready s = s\<lparr>dk_provides_ready := False\<rparr>"
definition sack_set_considered_to_update :: "dnf_sack \<Rightarrow> dnf_sack" where
  "sack_set_considered_to_update s = stale s"

definition sack_set_pkg_solvables :: "nat list \<Rightarrow> nat \<Rightarrow> dnf_sack \<Rightarrow> dnf_sack" where
  "sack_set_pkg_solvables ps n s = s\<lparr>dk_pkg_solvables := Some ps, dk_pool_nsolvables := n\<rparr>"

text \<open>The last package of the pool, as the C code computes it: -1 in an empty pool.\<close>

definition sack_last_solvable :: "dnf_sack \<Rightarrow> int" where "sack_last_solvable s = int (dk_n s) - 1"

definition sack_count :: "dnf_sack \<Rightarrow> nat" where "sack_count s = length (get_solvables (dk_pool s))"

definition sack_set_running_kernel_fn :: "nat option option \<Rightarrow> dnf_sack \<Rightarrow> dnf_sack" where
  "sack_set_running_kernel_fn f s = s\<lparr>dk_running_kernel_fn := f\<rparr>"

text \<open>The kernel is looked for until it is found.\<close>

definition sack_running_kernel :: "dnf_sack \<Rightarrow> nat option \<times> dnf_sack" where
  "sack_running_kernel s =
     (case dk_running_kernel s of
        Some k \<Rightarrow> (Some k, s)
      | None \<Rightarrow> (case dk_running_kernel_fn s of None \<Rightarrow> (None, s) | Some k \<Rightarrow> (k, s\<lparr>dk_running_kernel := k\<rparr>)))"

definition sack_set_rootdir :: "string option \<Rightarrow> dnf_sack \<Rightarrow> dnf_sack" where
  "sack_set_rootdir value s = (if value \<noteq> Some ''/'' then s\<lparr>dk_running_kernel_fn := None\<rparr> else s)"

definition sack_set_cachedir :: "string option \<Rightarrow> dnf_sack \<Rightarrow> dnf_sack" where
  "sack_set_cachedir value s = s\<lparr>dk_cache_dir := value\<rparr>"

text \<open>Without a value the architecture is detected, which may fail.\<close>

definition sack_set_arch :: "string option \<Rightarrow> string option \<Rightarrow> dnf_sack \<Rightarrow> bool \<times> dnf_sack" where
  "sack_set_arch detected value s =
     (case (case value of None \<Rightarrow> detected | Some a \<Rightarrow> Some a) of
        None \<Rightarrow> (False, s)
      | Some arch \<Rightarrow> (True, s\<lparr>dk_arch := Some arch\<rparr>))"

definition sack_set_all_arch :: "bool \<Rightarrow> dnf_sack \<Rightarrow> dnf_sack" where "sack_set_all_arch b s = s\<lparr>dk_all_arch := b\<rparr>"

definition DEFAULT_CACHE_ROOT :: string where "DEFAULT_CACHE_ROOT = ''/var/cache/hawkey''"
definition DEFAULT_CACHE_USER :: string where "DEFAULT_CACHE_USER = ''/var/tmp/hawkey''"

text \<open>
  The set-up of a sack: \<open>user\<close> is the name of a user other than root, \<open>mkcachedir\<close> completes and creates a
  directory.
\<close>

definition sack_setup ::
  "(string \<Rightarrow> string option) \<Rightarrow> string option \<Rightarrow> string option \<Rightarrow> bool \<Rightarrow> dnf_sack \<Rightarrow> bool \<times> dnf_sack" where
  "sack_setup mkcachedir user detected make_cache_dir s =
     (let dir = (case dk_cache_dir s of
            Some d \<Rightarrow> d
          | None \<Rightarrow> (case user of None \<Rightarrow> DEFAULT_CACHE_ROOT | Some u \<Rightarrow> DEFAULT_CACHE_USER @ ''-'' @ u @ ''-XXXXXX''));
          s = s\<lparr>dk_cache_dir := Some dir\<rparr>;
          made = (if make_cache_dir then mkcachedir dir else Some dir)
      in case made of
          None \<Rightarrow> (False, s)
        | Some dir \<Rightarrow>
            let s = s\<lparr>dk_cache_dir := Some dir\<rparr> in
            if dk_arch s = None \<and> \<not> dk_all_arch s then sack_set_arch detected None s else (True, s))"

definition sack_give_cache_fn :: "dnf_sack \<Rightarrow> string \<Rightarrow> string option \<Rightarrow> string" where
  "sack_give_cache_fn s name ext =
     (case dk_cache_dir s of None \<Rightarrow> [] | Some d \<Rightarrow> d) @ ''/'' @ name @ (case ext of None \<Rightarrow> ''.solv'' | Some x \<Rightarrow> x @ ''.solvx'')"

text \<open>Names of packages that are only installed are ids without repetition.\<close>

definition sack_set_installonly :: "(string \<Rightarrow> nat) \<Rightarrow> string list option \<Rightarrow> dnf_sack \<Rightarrow> dnf_sack" where
  "sack_set_installonly str2id_create names s =
     s\<lparr>dk_installonly := (case names of
         None \<Rightarrow> []
       | Some ns \<Rightarrow> fold (\<lambda>n q. let i = str2id_create n in if i \<in> set q then q else q @ [i]) ns [])\<rparr>"

definition sack_set_installonly_limit :: "nat \<Rightarrow> dnf_sack \<Rightarrow> dnf_sack" where
  "sack_set_installonly_limit n s = s\<lparr>dk_installonly_limit := n\<rparr>"

text \<open>The names of the architectures that the pool knows, unless it knows none.\<close>

definition sack_list_arches :: "pool \<Rightarrow> (nat \<Rightarrow> nat) option \<Rightarrow> nat \<Rightarrow> string list option" where
  "sack_list_arches pool id2arch lastarch =
     (case id2arch of
        None \<Rightarrow> None
      | Some f \<Rightarrow> if lastarch = 0 then None else Some (map (id2str pool) (filter (\<lambda>i. f i \<noteq> 0) [0..<Suc lastarch])))"

end
