(* ===== verification/Dnf4SackFacts.thy ===== *)
theory Dnf4SackFacts
  imports Dnf4Sack
begin

text \<open>
  What the sack of dnf 4 promises: a query sees the packages that the excludes and includes of that moment allow. A view
  is the sack without its maps of considered packages; the operations of the sack are those of its view.
\<close>

section \<open>Views\<close>

record sack_view =
  v_pool :: pool
  v_repos :: "(nat \<times> sack_repo) list"
  v_excluded :: "nat set option"
  v_included :: "nat set option"
  v_disabled :: "(nat \<times> nat set) option"
  v_modular :: "nat set option"

definition view_of :: "dnf_sack \<Rightarrow> sack_view" where
  "view_of s = \<lparr>v_pool = dk_pool s, v_repos = dk_repos s, v_excluded = dk_pkg_excludes s, v_included = dk_pkg_includes s,
     v_disabled = dk_repo_excludes s, v_modular = dk_module_excludes s\<rparr>"

definition v_open :: "sack_view \<Rightarrow> nat \<Rightarrow> bool" where
  "v_open v p \<longleftrightarrow> (\<exists>(i, r) \<in> set (v_repos v). \<not> sr_use_includes r \<and> so_repo (v_pool v) p = Some i)"

definition allowed :: "sack_view \<Rightarrow> nat \<Rightarrow> nat \<Rightarrow> bool" where
  "allowed v flags p \<longleftrightarrow>
     (ignores_modular flags \<or> p \<notin> map_members (v_modular v)) \<and>
     (ignores_regular flags \<or>
        p \<notin> repo_members_of (v_disabled v) \<and> p \<notin> map_members (v_excluded v) \<and>
        (case v_included v of None \<Rightarrow> True | Some ps \<Rightarrow> p \<in> ps \<or> v_open v p))"

definition seen :: "sack_view \<Rightarrow> nat \<Rightarrow> nat list" where
  "seen v flags = filter (allowed v flags) (get_solvables (v_pool v))"

section \<open>Histories\<close>

text \<open>
  A load that fails before the repository is attached changes nothing. One that fails later, because the cache cannot be
  written or an extension cannot be read, leaves the repository in the sack without marking the map of considered packages:
  \<open>LoadFails\<close> and \<open>SystemLoadFails\<close>.
\<close>

datatype history_op =
    AddExcludes "nat list" | AddModuleExcludes "nat list" | AddIncludes "nat list"
  | RemoveExcludes "nat list" | RemoveModuleExcludes "nat list" | RemoveIncludes "nat list"
  | SetExcludes "nat list option" | SetModuleExcludes "nat list option" | SetIncludes "nat list option"
  | SetModuleIncludes "nat list option"
  | UseIncludes "string option" bool
  | RepoEnabled string bool
  | LoadRepo pool nat sack_repo
  | LoadSystemRepo pool nat sack_repo
  | LoadFails pool nat sack_repo
  | SystemLoadFails pool nat sack_repo
  | StartQuery
  | ToUpdate

fun run_op :: "history_op \<Rightarrow> dnf_sack \<Rightarrow> sack_error + dnf_sack" where
  "run_op (AddExcludes ps) s = Inr (sack_add_excludes ps s)"
| "run_op (AddModuleExcludes ps) s = Inr (sack_add_module_excludes ps s)"
| "run_op (AddIncludes ps) s = Inr (sack_add_includes ps s)"
| "run_op (RemoveExcludes ps) s = Inr (sack_remove_excludes ps s)"
| "run_op (RemoveModuleExcludes ps) s = Inr (sack_remove_module_excludes ps s)"
| "run_op (RemoveIncludes ps) s = Inr (sack_remove_includes ps s)"
| "run_op (SetExcludes ps) s = Inr (sack_set_excludes ps s)"
| "run_op (SetModuleExcludes ps) s = Inr (sack_set_module_excludes ps s)"
| "run_op (SetIncludes ps) s = Inr (sack_set_includes ps s)"
| "run_op (SetModuleIncludes ps) s = Inr (sack_set_module_includes ps s)"
| "run_op (UseIncludes name b) s = (case sack_set_use_includes name b s of (ok, s) \<Rightarrow> if ok then Inr s else Inl RepoNotFound)"
| "run_op (RepoEnabled name b) s = sack_repo_enabled name b s"
| "run_op (LoadRepo pool i r) s = Inr (stale (sack_attach_repo pool i r s))"
| "run_op (LoadSystemRepo pool i r) s = Inr (stale (sack_attach_system_repo pool i r s))"
| "run_op (LoadFails pool i r) s = Inr (sack_attach_repo pool i r s)"
| "run_op (SystemLoadFails pool i r) s = Inr (sack_attach_system_repo pool i r s)"
| "run_op StartQuery s = Inr (recompute_considered s)"
| "run_op ToUpdate s = Inr (sack_set_considered_to_update s)"

text \<open>The same operations on the view.\<close>

definition v_repo_by_name :: "sack_view \<Rightarrow> string \<Rightarrow> (nat \<times> sack_repo) option" where
  "v_repo_by_name v name = find (\<lambda>(i, r). sr_name r = name) (v_repos v)"

definition v_with_includes :: "(nat \<Rightarrow> bool) \<Rightarrow> bool \<Rightarrow> sack_view \<Rightarrow> sack_view" where
  "v_with_includes sel b v =
     v\<lparr>v_repos := map (\<lambda>(i, r). (i, if sel i then r\<lparr>sr_use_includes := b\<rparr> else r)) (v_repos v)\<rparr>"

definition v_enable :: "string \<Rightarrow> bool \<Rightarrow> sack_view \<Rightarrow> sack_error + sack_view" where
  "v_enable name b v =
     (case v_repo_by_name v name of
        None \<Rightarrow> Inl RepoNotFound
      | Some (i, r) \<Rightarrow>
          let n = nsolvables (v_pool v);
              ps = filter (\<lambda>p. so_repo (v_pool v) p = Some i) [0..<n];
              (room, excl) = (case v_disabled v of None \<Rightarrow> (map_bits n, {}) | Some m \<Rightarrow> m)
          in
          if (\<exists>p \<in> set ps. p \<ge> room) then Inl MapOverflow
          else Inr (v\<lparr>v_repos := map (\<lambda>(j, r). (j, if j = i then r\<lparr>sr_disabled := \<not> b\<rparr> else r)) (v_repos v),
                      v_disabled := Some (room, if b then excl - set ps else excl \<union> set ps)\<rparr>))"

fun view_op :: "history_op \<Rightarrow> sack_view \<Rightarrow> sack_error + sack_view" where
  "view_op (AddExcludes ps) v = Inr (v\<lparr>v_excluded := Some (map_members (v_excluded v) \<union> set ps)\<rparr>)"
| "view_op (AddModuleExcludes ps) v = Inr (v\<lparr>v_modular := Some (map_members (v_modular v) \<union> set ps)\<rparr>)"
| "view_op (AddIncludes ps) v = Inr (v\<lparr>v_included := Some (map_members (v_included v) \<union> set ps)\<rparr>)"
| "view_op (RemoveExcludes ps) v = Inr (v\<lparr>v_excluded := map_option (\<lambda>xs. xs - set ps) (v_excluded v)\<rparr>)"
| "view_op (RemoveModuleExcludes ps) v = Inr (v\<lparr>v_modular := map_option (\<lambda>xs. xs - set ps) (v_modular v)\<rparr>)"
| "view_op (RemoveIncludes ps) v = Inr (v\<lparr>v_included := map_option (\<lambda>xs. xs - set ps) (v_included v)\<rparr>)"
| "view_op (SetExcludes ps) v = Inr (v\<lparr>v_excluded := map_option set ps\<rparr>)"
| "view_op (SetModuleExcludes ps) v = Inr (v\<lparr>v_modular := map_option set ps\<rparr>)"
| "view_op (SetIncludes ps) v = Inr (v\<lparr>v_included := map_option set ps\<rparr>)"
| "view_op (SetModuleIncludes ps) v = Inr v"
| "view_op (UseIncludes name b) v =
     (case name of
        None \<Rightarrow> Inr (v_with_includes (\<lambda>i. True) b v)
      | Some name \<Rightarrow>
          (case v_repo_by_name v name of
             None \<Rightarrow> Inl RepoNotFound
           | Some (i, r) \<Rightarrow> Inr (if sr_use_includes r = b then v else v_with_includes (\<lambda>j. j = i) b v)))"
| "view_op (RepoEnabled name b) v = v_enable name b v"
| "view_op (LoadRepo pool i r) v = Inr (v\<lparr>v_pool := pool, v_repos := v_repos v @ [(i, r)]\<rparr>)"
| "view_op (LoadSystemRepo pool i r) v = Inr (v\<lparr>v_pool := pool, v_repos := v_repos v @ [(i, r)]\<rparr>)"
| "view_op (LoadFails pool i r) v = Inr (v\<lparr>v_pool := pool, v_repos := v_repos v @ [(i, r)]\<rparr>)"
| "view_op (SystemLoadFails pool i r) v = Inr (v\<lparr>v_pool := pool, v_repos := v_repos v @ [(i, r)]\<rparr>)"
| "view_op StartQuery v = Inr v"
| "view_op ToUpdate v = Inr v"

text \<open>A history stops at its first error.\<close>

fun run_ops :: "('o \<Rightarrow> 's \<Rightarrow> 'e + 's) \<Rightarrow> 'o list \<Rightarrow> 's \<Rightarrow> 'e + 's" where
  "run_ops step [] s = Inr s"
| "run_ops step (o1 # os) s = (case step o1 s of Inl x \<Rightarrow> Inl x | Inr s' \<Rightarrow> run_ops step os s')"

section \<open>Histories refine those of the view\<close>

locale simulation =
  fixes cstep :: "'o \<Rightarrow> 's \<Rightarrow> 'e + 's"
    and astep :: "'o \<Rightarrow> 'v \<Rightarrow> 'e + 'v"
    and abs :: "'s \<Rightarrow> 'v"
    and inv :: "'s \<Rightarrow> bool"
  assumes step: "inv s \<Longrightarrow> map_sum id abs (cstep x s) = astep x (abs s)"
    and keeps: "inv s \<Longrightarrow> cstep x s = Inr t \<Longrightarrow> inv t"
begin

lemma run_inv: "inv s \<Longrightarrow> run_ops cstep xs s = Inr t \<Longrightarrow> inv t"
  by (induction xs arbitrary: s) (auto split: sum.splits dest: keeps)

lemma run_refines: "inv s \<Longrightarrow> run_ops astep xs (abs s) = map_sum id abs (run_ops cstep xs s)"
proof (induction xs arbitrary: s)
  case (Cons x xs)
  have eq: "astep x (abs s) = map_sum id abs (cstep x s)"
    using step [OF Cons.prems] by simp
  show ?case
    by (cases "cstep x s") (simp_all add: eq Cons.IH [OF keeps [OF Cons.prems]])
qed simp

end

text \<open>The map of considered packages is the one that would be computed now, unless it is marked as out of date.\<close>

definition map_current :: "dnf_sack \<Rightarrow> bool" where
  "map_current s \<longleftrightarrow> (dk_uptodate s \<longrightarrow> dk_considered s = recompute_considered_map s (dk_considered s) 0)"

named_theorems sack_defs

lemmas [sack_defs] = stale_def sack_add_excludes_def sack_add_module_excludes_def sack_add_includes_def
  sack_remove_excludes_def sack_remove_module_excludes_def sack_remove_includes_def sack_set_excludes_def
  sack_set_module_excludes_def sack_set_includes_def sack_set_module_includes_def sack_set_use_includes_def
  sack_repo_enabled_def sack_attach_repo_def sack_attach_system_repo_def sack_set_considered_to_update_def update_repo_def

lemma map_current_stale [simp]: "map_current (stale s)"
  by (simp add: map_current_def stale_def)

lemma recompute_again:
  "recompute_considered_map s (recompute_considered_map s old flags) flags = recompute_considered_map s old flags"
  by (simp add: recompute_considered_map_def)

lemma from_open_ignores:
  "from_open_repo (s\<lparr>dk_considered := x, dk_uptodate := y\<rparr>) p = from_open_repo s p"
  "from_open_repo (s\<lparr>dk_module_includes := m\<rparr>) p = from_open_repo s p"
  by (simp_all add: from_open_repo_def)

lemma recompute_ignores [simp]:
  "recompute_considered_map (s\<lparr>dk_considered := x, dk_uptodate := y\<rparr>) old flags = recompute_considered_map s old flags"
  "recompute_considered_map (s\<lparr>dk_module_includes := m\<rparr>) old flags = recompute_considered_map s old flags"
  unfolding recompute_considered_map_def from_open_ignores by (cases s; simp only: dnf_sack.simps)+

lemma map_current_recompute: "map_current s \<Longrightarrow> map_current (recompute_considered s)"
proof (cases "dk_uptodate s")
  case False
  then show ?thesis by (simp add: map_current_def recompute_considered_def recompute_again)
qed (simp only: recompute_considered_def if_True)

lemma recompute_current:
  assumes "map_current s"
  shows "dk_considered (recompute_considered s) = recompute_considered_map s (dk_considered s) 0"
proof (cases "dk_uptodate s")
  case True
  then have "recompute_considered s = s" by (simp add: recompute_considered_def)
  then show ?thesis using assms True unfolding map_current_def by metis
qed (simp add: recompute_considered_def)

lemma map_current_init [simp]: "map_current (dnf_sack_init pool krn)"
  by (simp add: map_current_def dnf_sack_init_def recompute_considered_map_def)

text \<open>
  What is known of the map after a history: it is marked and will be computed anew, it is that of now, or, after a load that
  failed while the map was not marked, it may be out of date without being marked.
\<close>

datatype map_state = Marked | Current | Outdated

definition marks :: "history_op \<Rightarrow> bool" where
  "marks x = (case x of AddExcludes _ \<Rightarrow> True | AddModuleExcludes _ \<Rightarrow> True | AddIncludes _ \<Rightarrow> True | RepoEnabled _ _ \<Rightarrow> True
     | LoadRepo _ _ _ \<Rightarrow> True | LoadSystemRepo _ _ _ \<Rightarrow> True | ToUpdate \<Rightarrow> True | _ \<Rightarrow> False)"

definition load_fails :: "history_op \<Rightarrow> bool" where
  "load_fails x = (case x of LoadFails _ _ _ \<Rightarrow> True | SystemLoadFails _ _ _ \<Rightarrow> True | _ \<Rightarrow> False)"

definition map_step :: "map_state \<Rightarrow> history_op \<Rightarrow> map_state" where
  "map_step m x = (if marks x then Marked else if load_fails x \<and> m = Current then Outdated
     else if x = StartQuery \<and> m = Marked then Current else m)"

definition map_is :: "map_state \<Rightarrow> dnf_sack \<Rightarrow> bool" where
  "map_is m s = (case m of Marked \<Rightarrow> \<not> dk_uptodate s | Current \<Rightarrow> map_current s | Outdated \<Rightarrow> True)"

lemma map_current_set_module_includes: "map_current s \<Longrightarrow> map_current (sack_set_module_includes ps s)"
proof -
  assume ok: "map_current s"
  have "map_current (s\<lparr>dk_module_includes := m\<rparr>)" for m
    using ok unfolding map_current_def by simp
  then show ?thesis using ok by (auto simp: sack_set_module_includes_def split: option.splits)
qed

lemma map_is_marked: "marks x \<Longrightarrow> run_op x s = Inr t \<Longrightarrow> \<not> dk_uptodate t"
  by (cases x) (auto simp: marks_def sack_defs Let_def split: option.splits if_splits prod.splits)

lemma map_is_step:
  assumes "map_is m s" "run_op x s = Inr t"
  shows "map_is (map_step m x) t"
proof (cases "marks x")
  case True
  then show ?thesis using map_is_marked assms(2) by (simp add: map_step_def map_is_def)
next
  case False
  show ?thesis
  proof (cases m)
    case Marked
    then have "map_current (recompute_considered s)"
      using assms(1) by (intro map_current_recompute) (simp add: map_is_def map_current_def)
    then show ?thesis
      using assms False Marked by (cases x) (auto simp: map_is_def map_step_def marks_def sack_defs
        split: option.splits if_splits prod.splits)
  next
    case Current
    then show ?thesis
      using assms False by (cases x) (auto simp: map_is_def map_step_def marks_def load_fails_def map_current_recompute
        map_current_set_module_includes sack_remove_excludes_def sack_remove_module_excludes_def sack_remove_includes_def sack_set_excludes_def
        sack_set_module_excludes_def sack_set_includes_def sack_set_use_includes_def split: option.splits if_splits prod.splits)
  next
    case Outdated
    then show ?thesis using False by (simp add: map_is_def map_step_def)
  qed
qed

lemma map_is_run: "map_is m s \<Longrightarrow> run_ops run_op ops s = Inr t \<Longrightarrow> map_is (foldl map_step m ops) t"
  by (induction ops arbitrary: m s) (auto split: sum.splits dest: map_is_step)

lemma map_is_current: "map_is m s \<Longrightarrow> m \<noteq> Outdated \<Longrightarrow> map_current s"
  by (cases m) (auto simp: map_is_def map_current_def)

lemma view_of_simps [simp]:
  "v_pool (view_of s) = dk_pool s" "v_repos (view_of s) = dk_repos s" "v_excluded (view_of s) = dk_pkg_excludes s"
  "v_included (view_of s) = dk_pkg_includes s" "v_disabled (view_of s) = dk_repo_excludes s"
  "v_modular (view_of s) = dk_module_excludes s"
  by (simp_all add: view_of_def)

lemma find_repo_mem: "find (\<lambda>(i, r). P i r) xs = Some (i, r) \<Longrightarrow> (i, r) \<in> set xs \<and> P i r"
  by (auto simp: find_Some_iff set_conv_nth)

lemma same_includes [simp]:
  "sr_use_includes r \<Longrightarrow> r\<lparr>sr_use_includes := True\<rparr> = r"
  "\<not> sr_use_includes r \<Longrightarrow> r\<lparr>sr_use_includes := False\<rparr> = r"
  by (cases r; simp)+

lemma all_use_includes:
  "\<not> list_ex (\<lambda>(i, r). sr_use_includes r \<noteq> b) rs \<Longrightarrow> map (\<lambda>(i, r). (i, r\<lparr>sr_use_includes := b\<rparr>)) rs = rs"
  by (induction rs; cases b) auto

lemma view_recompute [simp]: "view_of (recompute_considered s) = view_of s"
  by (simp add: recompute_considered_def view_of_def)

lemma view_use_includes:
  "map_sum id view_of (run_op (UseIncludes name b) s) = view_op (UseIncludes name b) (view_of s)"
proof (cases name)
  case None
  then show ?thesis
    using all_use_includes [of b "dk_repos s"]
    by (auto simp: sack_set_use_includes_def v_with_includes_def view_of_def stale_def)
next
  case (Some n)
  show ?thesis
  proof (cases "repo_by_name s n")
    case None
    then show ?thesis
      using Some by (simp add: sack_set_use_includes_def v_repo_by_name_def repo_by_name_def)
  next
    case (Some ir)
    obtain i r where "ir = (i, r)" by (cases ir)
    then show ?thesis
      using Some \<open>name = Some n\<close>
      by (auto simp: sack_set_use_includes_def v_repo_by_name_def repo_by_name_def v_with_includes_def view_of_def stale_def
        update_repo_def)
  qed
qed

lemma view_repo_enabled:
  "map_sum id view_of (run_op (RepoEnabled name b) s) = view_op (RepoEnabled name b) (view_of s)"
  by (auto simp: sack_repo_enabled_def v_enable_def v_repo_by_name_def repo_by_name_def repo_solvables_def Let_def
    list_ex_iff view_of_def stale_def update_repo_def split: option.splits prod.splits)

lemma view_step: "map_sum id view_of (run_op x s) = view_op x (view_of s)"
proof (cases x)
  case (UseIncludes name b)
  then show ?thesis using view_use_includes by blast
next
  case (RepoEnabled name b)
  then show ?thesis using view_repo_enabled by blast
next
  case StartQuery
  then show ?thesis by simp
qed (auto simp: sack_defs view_of_def add_to_def split: option.splits)

interpretation sk: simulation run_op view_op view_of "\<lambda>s. True"
  by unfold_locales (auto simp: view_step)

section \<open>What a query sees\<close>

lemma get_solvables_bits: "p \<in> set (get_solvables pool) \<Longrightarrow> p < map_bits (nsolvables pool)"
  by (auto simp: get_solvables_def map_bits_def)

lemma from_open_repo_view: "from_open_repo s p \<longleftrightarrow> v_open (view_of s) p"
  by (auto simp: from_open_repo_def v_open_def list_ex_iff)

lemma recomputed_is_allowed:
  assumes "p \<in> set (get_solvables (dk_pool s))"
  shows "(case recompute_considered_map s old flags of None \<Rightarrow> True | Some c \<Rightarrow> p \<in> set c) = allowed (view_of s) flags p"
  using get_solvables_bits [OF assms]
  by (auto simp: recompute_considered_map_def allowed_def from_open_repo_view map_members_def repo_members_of_def
    split: option.splits)

lemma query_sees_view:
  assumes "map_current s"
  shows "init_result (sack_env s e) flags = seen (view_of s) flags"
proof -
  obtain old where old: "considered_for s flags = recompute_considered_map s old flags"
    using recompute_current [OF assms] by (cases "flags = 0") (auto simp: considered_for_def)
  have "p \<in> set (get_solvables (dk_pool s)) \<Longrightarrow>
      (case considered_for s flags of None \<Rightarrow> True | Some c \<Rightarrow> p \<in> set c) = allowed (view_of s) flags p" for p
    by (simp add: old recomputed_is_allowed)
  then show ?thesis
    by (cases "considered_for s flags") (auto simp: init_result_def seen_def sack_env_def intro!: filter_cong)
qed

lemma history_seen:
  assumes "map_is m s" "run_ops run_op ops s = Inr t"
  shows "run_ops view_op ops (view_of s) = Inr (view_of t)"
    and "foldl map_step m ops \<noteq> Outdated \<Longrightarrow> init_result (sack_env t e) flags = seen (view_of t) flags"
  using sk.run_refines [of ops s] assms(2) query_sees_view [OF map_is_current [OF map_is_run [OF assms]]] by simp_all

end
