(* ===== verification/Dnf4SackFilter.thy ===== *)
theory Dnf4SackFilter
  imports Dnf4Sack ModuleContainer
begin

text \<open>
  The end of \<open>dnf-4/libdnf/dnf-sack.cpp\<close>: excludes and includes of the configuration, packages that modules hide, and the
  version of the database of installed packages.
\<close>

section \<open>Excludes of the configuration\<close>

text \<open>\<open>addFilter\<close> where its result is not looked at: a filter that is refused is left out.\<close>

definition with_filter :: "hy_error + hy_query \<Rightarrow> hy_query \<Rightarrow> hy_query" where
  "with_filter r q = (case r of Inl _ \<Rightarrow> q | Inr q' \<Rightarrow> q')"

record conf_repo4 =
  cr_id :: string
  cr_handle :: "nat option"
  cr_includepkgs :: "string list"
  cr_excludepkgs :: "string list"

record conf_main4 =
  cm_disable_excludes :: "string list"
  cm_includepkgs :: "string list"
  cm_excludepkgs :: "string list"

text \<open>
  \<open>Query::filterSubject\<close> is declared but not defined in the sources: \<open>subject\<close> tells whether a name was understood and
  leaves the packages that match. The packages of the names that were understood:
\<close>

type_synonym subject_fn = "hy_env \<Rightarrow> string \<Rightarrow> hy_query \<Rightarrow> bool \<times> hy_query"

definition matched_by :: "subject_fn \<Rightarrow> hy_env \<Rightarrow> hy_query \<Rightarrow> string list \<Rightarrow> nat list" where
  "matched_by subject e q names =
     concat (map (\<lambda>n. case subject e n q of (ok, q') \<Rightarrow> if ok then result_of (query_apply e q') else []) names)"

definition any_understood :: "subject_fn \<Rightarrow> hy_env \<Rightarrow> hy_query \<Rightarrow> string list \<Rightarrow> bool" where
  "any_understood subject e q names = list_ex (\<lambda>n. fst (subject e n q)) names"

definition repo_query :: "hy_env \<Rightarrow> string \<Rightarrow> hy_query" where
  "repo_query e name = (let q = query_create 0 in query_apply e (with_filter (add_filter_str e HY_PKG_REPONAME HY_EQ name q) q))"

record gathered =
  g_includes :: "nat list"
  g_excludes :: "nat list"
  g_exist :: bool

definition process_repo :: "subject_fn \<Rightarrow> hy_env \<Rightarrow> string list \<Rightarrow> conf_repo4 \<Rightarrow> gathered \<times> dnf_sack \<Rightarrow> gathered \<times> dnf_sack" where
  "process_repo subject e0 disabled r gs =
     (case gs of (g, s) \<Rightarrow>
        if cr_id r \<in> set disabled then (g, s)
        else
          let e = sack_env s e0; q = repo_query e (cr_id r); s = recompute_considered s;
              understood = any_understood subject e q (cr_includepkgs r)
          in
          (\<lparr>g_includes = g_includes g @ matched_by subject e q (cr_includepkgs r),
            g_excludes = g_excludes g @ matched_by subject e q (cr_excludepkgs r),
            g_exist = (g_exist g \<or> understood)\<rparr>,
           case cr_handle r of
             Some i \<Rightarrow> if understood then update_repo i (\<lambda>x. x\<lparr>sr_use_includes := True\<rparr>) s else s
           | None \<Rightarrow> s))"

definition process_main :: "subject_fn \<Rightarrow> hy_env \<Rightarrow> conf_main4 \<Rightarrow> gathered \<times> dnf_sack \<Rightarrow> gathered \<times> dnf_sack" where
  "process_main subject e0 conf gs =
     (case gs of (g, s) \<Rightarrow>
        if ''main'' \<in> set (cm_disable_excludes conf) then (g, s)
        else
          let e = sack_env s e0; q = query_create 0;
              understood = any_understood subject e q (cm_includepkgs conf)
          in
          (\<lparr>g_includes = g_includes g @ matched_by subject e q (cm_includepkgs conf),
            g_excludes = g_excludes g @ matched_by subject e q (cm_excludepkgs conf),
            g_exist = (g_exist g \<or> understood)\<rparr>,
           if understood then snd (sack_set_use_includes None True s) else s))"

definition process_excludes :: "subject_fn \<Rightarrow> hy_env \<Rightarrow> conf_main4 \<Rightarrow> conf_repo4 list \<Rightarrow> dnf_sack \<Rightarrow> dnf_sack" where
  "process_excludes subject e conf enabled s =
     (if ''all'' \<in> set (cm_disable_excludes conf) then s
      else
        let (g, s) = process_main subject e conf
              (fold (process_repo subject e (cm_disable_excludes conf)) enabled
                (\<lparr>g_includes = [], g_excludes = [], g_exist = False\<rparr>, s));
            s = (if g_exist g then sack_add_includes (g_includes g) s else s)
        in sack_add_excludes (g_excludes g) s)"

section \<open>Packages hidden by modules\<close>

text \<open>The artifacts of active modules are included, those of the others excluded.\<close>

definition collect_nevras :: "(module_package \<Rightarrow> string list) \<Rightarrow> 'c modules \<Rightarrow> string list \<times> string list" where
  "collect_nevras artifacts c =
     (concat (map artifacts (filter (\<lambda>m. is_module_active (mp_id m) c) (ms_packages c))),
      concat (map artifacts (filter (\<lambda>m. \<not> is_module_active (mp_id m) c) (ms_packages c))))"

text \<open>\<open>parse_name\<close> is the name in a full name of a package, \<open>Nevra::parse\<close> of dnf 4, which is not defined in the sources.\<close>

definition artifact_names :: "(string \<Rightarrow> string option) \<Rightarrow> string list \<Rightarrow> string list" where
  "artifact_names parse_name nevras = List.map_filter parse_name nevras"

definition name_dependencies :: "pool \<Rightarrow> string list \<Rightarrow> nat list" where
  "name_dependencies pool names = fold (\<lambda>n rl. snd (add_reldep pool n rl)) names []"

text \<open>Packages that modules may hide: those of no hotfix repository, not installed and not of the command line.\<close>

definition keep_packages :: "hy_env \<Rightarrow> string list \<Rightarrow> hy_query" where
  "keep_packages e hotfix =
     (let q = query_create 0;
          q = with_filter (add_filter_strs e HY_PKG_REPONAME HY_NEQ [HY_CMDLINE_REPO_NAME, HY_SYSTEM_REPO_NAME] q) q
      in with_filter (add_filter_strs e HY_PKG_REPONAME HY_NEQ hotfix q) q)"

definition less_result :: "hy_env \<Rightarrow> hy_query \<Rightarrow> hy_query \<Rightarrow> nat list" where
  "less_result e q other = result_of (query_apply e (fst (query_difference e q other)))"

definition set_module_excludes ::
  "(string \<Rightarrow> string option) \<Rightarrow> hy_env \<Rightarrow> string list \<Rightarrow> string list \<Rightarrow> string list \<Rightarrow> dnf_sack \<Rightarrow> dnf_sack" where
  "set_module_excludes parse_name e0 hotfix include_nevras exclude_nevras s =
     (let s = sack_set_module_excludes None s;
          e = sack_env s e0;
          names = artifact_names parse_name include_nevras;
          deps = name_dependencies (hp e) names;
          keep = keep_packages e hotfix;
          included = with_filter (add_filter_strs e HY_PKG_NEVRA_STRICT HY_EQ include_nevras (query_create 0)) (query_create 0);
          excluded = with_filter (add_filter_strs e HY_PKG_NEVRA_STRICT HY_EQ exclude_nevras keep) keep;
          by_provides = with_filter (add_filter_reldeps HY_PKG_PROVIDES deps keep) keep;
          by_name = with_filter (add_filter_strs e HY_PKG_NAME HY_EQ names keep) keep;
          s = recompute_considered s;
          s = sack_set_module_excludes (Some (less_result e excluded included)) s;
          s = sack_add_module_excludes (less_result e by_provides included) s;
          s = sack_add_module_excludes (less_result e by_name included) s
      in sack_set_module_includes (Some (result_of (query_apply e included))) s)"

text \<open>
  Installing a package of a module may need that module enabled, which only the container can tell. It is asked
  when the packages that modules include are known and one of them is to be installed.
\<close>

definition wants_module :: "hy_env \<Rightarrow> (module_package \<Rightarrow> string list) \<Rightarrow> hy_query \<Rightarrow> module_package \<Rightarrow> hy_query \<Rightarrow> bool \<times> hy_query" where
  "wants_module e artifacts base m test =
     (let test = fst (query_union e test base);
          test = with_filter (add_filter_strs e HY_PKG_NEVRA_STRICT HY_EQ (artifacts m) test) test;
          (none, test) = hy_empty e test
      in (\<not> none, test))"

primrec enablement_loop ::
  "hy_env \<Rightarrow> (module_package \<Rightarrow> string list) \<Rightarrow> 'c modules \<Rightarrow> hy_query \<Rightarrow> nat list \<Rightarrow> hy_query \<Rightarrow> module_error + module_package list" where
  "enablement_loop e artifacts c base [] test = Inr []"
| "enablement_loop e artifacts c base (i # is) test =
     (case get_module_package i c of
        Inl x \<Rightarrow> Inl x
      | Inr m \<Rightarrow>
          if is_enabled_package m c then enablement_loop e artifacts c base is test
          else let (wants, test) = wants_module e artifacts base m test in
            map_sum id (\<lambda>ms. if wants then m # ms else ms) (enablement_loop e artifacts c base is test))"

definition container_requires ::
  "hy_env \<Rightarrow> (module_package \<Rightarrow> string list) \<Rightarrow> 'c modules \<Rightarrow> nat list \<Rightarrow> module_error + module_package list" where
  "container_requires e artifacts c packages =
     (case ms_active c of
        None \<Rightarrow> Inr []
      | Some ids \<Rightarrow>
          let q = query_create 0;
              base = query_apply e (with_filter (add_filter_pkgs HY_PKG HY_EQ packages q) q)
          in enablement_loop e artifacts c base ids base)"

definition requires_enablement ::
  "hy_env \<Rightarrow> (module_package \<Rightarrow> string list) \<Rightarrow> 'c modules option \<Rightarrow> nat list \<Rightarrow> dnf_sack \<Rightarrow> module_error + module_package list" where
  "requires_enablement e0 artifacts container install s =
     (case (dk_module_includes s, container) of
        (Some inc, Some c) \<Rightarrow>
          if filter (\<lambda>p. p \<in> inc) install = [] then Inr [] else container_requires (sack_env s e0) artifacts c install
      | _ \<Rightarrow> Inr [])"

datatype filter_error = NoInstallRoot | NoContainer | InContainer module_error

text \<open>
  The operations of the container that a sack calls: a new one for an install root, the modules of a sack with those kept
  for failures, the conflicts of streams and the platform, the defaults on disk and their choice, which says whether they
  could be resolved (only that failure is caught and logged), and the choice of the active modules.
\<close>

record 'c container_ops =
  co_new :: "bool \<Rightarrow> string \<Rightarrow> string option \<Rightarrow> 'c modules"
  co_add :: "dnf_sack \<Rightarrow> ('c modules, module_error, unit) action"
  co_fail_safe :: "('c modules, module_error, unit) action"
  co_conflicts :: "('c modules, module_error, unit) action"
  co_platform :: "dnf_sack \<Rightarrow> string list \<Rightarrow> string option \<Rightarrow> ('c modules, module_error, unit) action"
  co_disk_defaults :: "('c modules, module_error, unit) action"
  co_defaults :: "('c modules, module_error, bool) action"
  co_artifacts :: "module_package \<Rightarrow> string list"
  co_goal :: "bool \<Rightarrow> goal_results"

text \<open>An operation whose error is caught, logged and forgotten.\<close>

definition forgiving :: "('s, 'e, unit) action \<Rightarrow> ('s, 'e, unit) action" where
  "forgiving a s = (Inr (), snd (a s))"

definition OS_RELEASE_PATHS :: "string list" where
  "OS_RELEASE_PATHS = [''/etc/os-release'', ''/usr/lib/os-release'']"

definition read_module_metadata :: "'c container_ops \<Rightarrow> dnf_sack \<Rightarrow> string option \<Rightarrow> ('c modules, module_error, unit) action" where
  "read_module_metadata ops s platform =
     then_do (co_add ops s) (\<lambda>_.
     then_do (co_fail_safe ops) (\<lambda>_ c.
       if container_empty c then give () c
       else then_do (co_conflicts ops) (\<lambda>_. forgiving (co_platform ops s OS_RELEASE_PATHS platform)) c))"

definition load_modules :: "'c container_ops \<Rightarrow> dnf_sack \<Rightarrow> string option \<Rightarrow> ('c modules, module_error, unit) action" where
  "load_modules ops s platform =
     then_do (read_module_metadata ops s platform) (\<lambda>_.
     then_do (co_disk_defaults ops) (\<lambda>_.
     then_do (co_defaults ops) (\<lambda>resolved. give ())))"

text \<open>
  \<open>dnf_sack_filter_modules_v2\<close>: \<open>given\<close> is a container of the caller. The result comes with the container in use and the
  one the sack owns afterwards; an error leaves the sack as it was.
\<close>

definition filter_modules_v2 ::
  "'c container_ops \<Rightarrow> (string \<Rightarrow> string option) \<Rightarrow> hy_env \<Rightarrow> 'c modules option \<Rightarrow> string list \<Rightarrow> string option \<Rightarrow> string option \<Rightarrow>
    bool \<Rightarrow> bool \<Rightarrow> dnf_sack \<Rightarrow> filter_error + ((string list list \<times> module_problem) \<times> 'c modules \<times> dnf_sack)" where
  "filter_modules_v2 ops parse_name e given hotfix install_root platform update_only debug s =
     (let prepared =
        (if update_only then (case given of None \<Rightarrow> Inl NoContainer | Some c \<Rightarrow> Inr c)
         else case install_root of
             None \<Rightarrow> Inl NoInstallRoot
           | Some root \<Rightarrow>
               let c = (case given of Some c \<Rightarrow> c | None \<Rightarrow> co_new ops (dk_all_arch s) root (dk_arch s)) in
               (case load_modules ops s platform c of (Inl x, _) \<Rightarrow> Inl (InContainer x) | (Inr _, c) \<Rightarrow> Inr c))
      in case prepared of
          Inl x \<Rightarrow> Inl x
        | Inr c \<Rightarrow>
            (case resolve_active (co_goal ops debug) c of
               (Inl x, _) \<Rightarrow> Inl (InContainer x)
             | (Inr r, c) \<Rightarrow>
                 let (inc, exc) = collect_nevras (co_artifacts ops) c in
                 Inr (r, c, set_module_excludes parse_name e hotfix inc exc s)))"

text \<open>The older call: the hotfix repositories are those of the list with that flag.\<close>

definition filter_modules ::
  "'c container_ops \<Rightarrow> (string \<Rightarrow> string option) \<Rightarrow> hy_env \<Rightarrow> (string \<times> bool) list \<Rightarrow> string option \<Rightarrow> string option \<Rightarrow> dnf_sack \<Rightarrow>
    filter_error + ((string list list \<times> module_problem) \<times> 'c modules \<times> dnf_sack)" where
  "filter_modules ops parse_name e repos install_root platform s =
     filter_modules_v2 ops parse_name e None (map fst (filter snd repos)) install_root platform False False s"

section \<open>The version of the installed packages\<close>

definition IGNORE_EXCLUDES :: nat where "IGNORE_EXCLUDES = 3"

text \<open>\<open>pkgid\<close> is the checksum of the header of a package, \<open>sha1\<close> that of a text as text; a query adds the filter and runs.\<close>

definition rpmdb_version :: "(nat \<Rightarrow> string) \<Rightarrow> (string \<Rightarrow> string) \<Rightarrow> hy_env \<Rightarrow> dnf_sack \<Rightarrow> string" where
  "rpmdb_version pkgid sha1 e0 s =
     (let e = sack_env s e0; q = query_create IGNORE_EXCLUDES;
          ps = result_of (query_apply e (with_filter (add_filter_str e HY_PKG_REPONAME HY_EQ HY_SYSTEM_REPO_NAME q) q));
          checksums = sort (map pkgid ps)
      in nat_string (length checksums) @ '':'' @ sha1 (concat checksums))"

end
