(* ===== verification/Dnf4SackProps.thy ===== *)
theory Dnf4SackProps
  imports Dnf4SackFacts Dnf4SackFilter Dnf4QueryRunFacts "HOL-Library.Multiset"
begin

text \<open>
  What excludes of the configuration and modules hide from queries, and on what the version of the database of installed
  packages depends.
\<close>

section \<open>Filters by the name of a repository\<close>

definition name_of_repo :: "hy_env \<Rightarrow> nat \<Rightarrow> string option" where
  "name_of_repo e p = (case so_repo (hp e) p of None \<Rightarrow> None | Some i \<Rightarrow> repo_name (hp e) i)"

text \<open>What is used of the two filters that are not in the sources.\<close>

definition filters_by_repo :: "hy_env \<Rightarrow> bool" where
  "filters_by_repo e \<longleftrightarrow> (\<forall>f ps p. f_key f = HY_PKG_REPONAME \<longrightarrow> p \<in> set ps \<longrightarrow>
     (p \<in> set (outer_filter e f ps) \<longleftrightarrow> name_of_repo e p \<in> Some ` str_of ` set (f_matches f)))"

definition filters_by_name :: "hy_env \<Rightarrow> bool" where
  "filters_by_name e \<longleftrightarrow> (\<forall>f ps p. f_key f = HY_PKG_NAME \<longrightarrow> f_cmp f = HY_EQ \<longrightarrow> p \<in> set ps \<longrightarrow>
     (p \<in> set (outer_filter e f ps) \<longleftrightarrow> pkg_name (hp e) p \<in> str_of ` set (f_matches f)))"

definition strict_narrows :: "hy_env \<Rightarrow> bool" where
  "strict_narrows e \<longleftrightarrow> (\<forall>c ns ps. set (nevra_strict e c ns ps) \<subseteq> set ps)"

lemma hy_has_consts [simp]:
  "\<not> hy_has HY_NEQ HY_GLOB" "\<not> hy_has HY_EQ HY_GLOB" "hy_has HY_NEQ HY_NOT" "\<not> hy_has HY_EQ HY_NOT" "hy_has HY_EQ HY_EQ"
  by (simp_all add: hy_has_def hy_defs)

lemma copy_filter_char_other [simp]: "k \<noteq> HY_PKG_FILE \<Longrightarrow> copy_filter_char s k = s"
  by (simp add: copy_filter_char_def)

definition strs_filter :: "hy_key \<Rightarrow> hy_cmp \<Rightarrow> string list \<Rightarrow> hy_filter" where
  "strs_filter k c ns = \<lparr>f_key = k, f_cmp = c, f_type = HY_STR, f_matches = map MStr ns\<rparr>"

lemma strs_filter_simps [simp]:
  "f_key (strs_filter k c ns) = k" "f_cmp (strs_filter k c ns) = c" "f_matches (strs_filter k c ns) = map MStr ns"
  by (simp_all add: strs_filter_def)

lemma valid_reponame: "valid_filter_str HY_PKG_REPONAME c"
  by (simp add: valid_filter_str_def match_type_str_def Let_def)

lemma with_repo_filters [simp]:
  "with_filter (add_filter_strs e HY_PKG_REPONAME HY_NEQ ns q) q' = push_filter (strs_filter HY_PKG_REPONAME HY_NEQ ns) (unapplied q)"
  "with_filter (add_filter_str e HY_PKG_REPONAME HY_EQ n q) q' = push_filter (strs_filter HY_PKG_REPONAME HY_EQ [n]) (unapplied q)"
  by (simp_all add: with_filter_def add_filter_strs_def add_filter_str_def valid_reponame match_type_reldep_def strs_filter_def)

lemma valid_name_eq: "valid_filter_str HY_PKG_NAME HY_EQ"
  by (simp add: valid_filter_str_def match_type_str_def Let_def) (simp add: hy_has_def hy_defs)

lemma with_name_filter [simp]:
  "with_filter (add_filter_strs e HY_PKG_NAME HY_EQ ns q) q' = push_filter (strs_filter HY_PKG_NAME HY_EQ ns) (unapplied q)"
  by (simp add: with_filter_def add_filter_strs_def valid_name_eq match_type_reldep_def strs_filter_def)

lemma with_strict_filter [simp]:
  "with_filter (add_filter_strs e HY_PKG_NEVRA_STRICT HY_EQ ns q) q' =
   set_result (nevra_strict e HY_EQ ns (result_of (query_apply e q))) (query_apply e q)"
  by (simp add: with_filter_def add_filter_strs_def strict_filter_def Let_def)

lemma with_provides_filter:
  "\<exists>f. with_filter (add_filter_reldeps HY_PKG_PROVIDES ds q) q' = push_filter f (unapplied q)"
  by (auto simp: with_filter_def add_filter_reldeps_def valid_filter_reldep_def match_type_reldep_def)

lemma run_strs_filter:
  "k \<in> {HY_PKG_REPONAME, HY_PKG_NAME} \<Longrightarrow> run_filter e flags (strs_filter k c ns) ps = outer_filter e (strs_filter k c ns) ps"
  by (auto simp: run_filter_def)

lemma apply_repo_neq:
  assumes "filters_by_repo e"
  shows "set (apply_one e flags (strs_filter HY_PKG_REPONAME HY_NEQ ns) ps) = {p \<in> set ps. name_of_repo e p \<notin> Some ` set ns}"
  using assms unfolding apply_one_set filters_by_repo_def
  by (auto simp: run_strs_filter str_of_def image_image)

lemma apply_repo_eq:
  assumes "filters_by_repo e"
  shows "set (apply_one e flags (strs_filter HY_PKG_REPONAME HY_EQ [n]) ps) = {p \<in> set ps. name_of_repo e p = Some n}"
  using assms unfolding apply_one_set filters_by_repo_def
  by (auto simp: run_strs_filter str_of_def)

lemma apply_name_eq:
  assumes "filters_by_name e"
  shows "set (apply_one e flags (strs_filter HY_PKG_NAME HY_EQ ns) ps) = {p \<in> set ps. pkg_name (hp e) p \<in> set ns}"
  using assms unfolding apply_one_set filters_by_name_def
  by (auto simp: run_strs_filter str_of_def image_image)

section \<open>Packages hidden by modules\<close>

lemma query_simps [simp]:
  "q_applied (push_filter f q) = q_applied q" "q_filters (push_filter f q) = q_filters q @ [f]"
  "q_result (push_filter f q) = q_result q" "q_flags (push_filter f q) = q_flags q"
  "\<not> q_applied (unapplied q)" "q_filters (unapplied q) = q_filters q" "q_result (unapplied q) = q_result q"
  "q_flags (unapplied q) = q_flags q"
  "\<not> q_applied (query_create flags)" "q_filters (query_create flags) = []" "q_result (query_create flags) = None"
  "q_flags (query_create flags) = flags" "result_of (set_result r q) = r" "q_applied (set_result r q) = q_applied q"
  by (simp_all add: push_filter_def unapplied_def query_create_def set_result_def result_of_def)

lemma apply_set_result [simp]: "q_applied q \<Longrightarrow> query_apply e (set_result r q) = set_result r q"
  by (simp add: query_apply_def)

definition hideable :: "hy_env \<Rightarrow> string list \<Rightarrow> nat \<Rightarrow> bool" where
  "hideable e hotfix p \<longleftrightarrow> p \<in> set (init_result e 0) \<and>
     name_of_repo e p \<notin> Some ` (set hotfix \<union> {HY_CMDLINE_REPO_NAME, HY_SYSTEM_REPO_NAME})"

lemma keep_simps [simp]:
  "q_applied (keep_packages e hotfix) = False" "q_result (keep_packages e hotfix) = None" "q_flags (keep_packages e hotfix) = 0"
  "q_filters (keep_packages e hotfix) =
     [strs_filter HY_PKG_REPONAME HY_NEQ [HY_CMDLINE_REPO_NAME, HY_SYSTEM_REPO_NAME], strs_filter HY_PKG_REPONAME HY_NEQ hotfix]"
  by (simp_all add: keep_packages_def Let_def)

lemma keep_result:
  assumes "filters_by_repo e"
  shows "set (result_of (query_apply e (keep_packages e hotfix))) = {p. hideable e hotfix p}"
  by (auto simp: result_of_apply apply_repo_neq [OF assms] hideable_def)

lemma keep_push_result:
  assumes "filters_by_repo e"
  shows "set (result_of (query_apply e (push_filter f (unapplied (keep_packages e hotfix))))) =
    {p. hideable e hotfix p \<and> p \<in> set (apply_one e 0 f (result_of (query_apply e (keep_packages e hotfix))))}"
  using apply_one_set [of e 0 f] keep_result [OF assms, of hotfix]
  by (auto simp: result_of_apply)

lemma less_result_set: "set (less_result e q other) =
    set (result_of (query_apply e q)) - set (result_of (query_apply e other))"
  by (auto simp: less_result_def query_difference_def Let_def query_apply_applied query_apply_idem)

text \<open>The three groups of packages that modules hide.\<close>

definition hidden_by_modules :: "(string \<Rightarrow> string option) \<Rightarrow> hy_env \<Rightarrow> string list \<Rightarrow> string list \<Rightarrow> string list \<Rightarrow> nat set" where
  "hidden_by_modules parse_name e hotfix inc exc =
     (let keep = keep_packages e hotfix;
          included = with_filter (add_filter_strs e HY_PKG_NEVRA_STRICT HY_EQ inc (query_create 0)) (query_create 0);
          names = artifact_names parse_name inc
      in set (less_result e (with_filter (add_filter_strs e HY_PKG_NEVRA_STRICT HY_EQ exc keep) keep) included) \<union>
         set (less_result e (with_filter (add_filter_reldeps HY_PKG_PROVIDES (name_dependencies (hp e) names) keep) keep) included) \<union>
         set (less_result e (with_filter (add_filter_strs e HY_PKG_NAME HY_EQ names keep) keep) included))"

definition included_by_modules :: "hy_env \<Rightarrow> string list \<Rightarrow> nat set" where
  "included_by_modules e inc = set (nevra_strict e HY_EQ inc (init_result e 0))"

lemma included_result:
  "set (nevra_strict e HY_EQ inc (result_of (query_apply e (query_create 0)))) = included_by_modules e inc"
  by (simp add: included_by_modules_def result_of_apply)

lemma set_module_excludes_result:
  defines "e s e0 \<equiv> sack_env (sack_set_module_excludes None s) e0"
  shows "dk_module_excludes (set_module_excludes parse_name e0 hotfix inc exc s) =
      Some (hidden_by_modules parse_name (e s e0) hotfix inc exc)"
    and "dk_module_includes (set_module_excludes parse_name e0 hotfix inc exc s) = Some (included_by_modules (e s e0) inc)"
    and "\<not> dk_uptodate (set_module_excludes parse_name e0 hotfix inc exc s)"
  by (simp_all add: included_result query_apply_applied set_module_excludes_def Let_def sack_set_module_includes_def sack_add_module_excludes_def stale_def
    add_to_def map_members_def hidden_by_modules_def e_def) (simp_all add: sack_set_module_excludes_def stale_def Un_assoc)

lemma hidden_are_hideable:
  assumes "filters_by_repo e" "strict_narrows e" "p \<in> hidden_by_modules parse_name e hotfix inc exc"
  shows "hideable e hotfix p \<and> p \<notin> included_by_modules e inc"
proof -
  have strict: "p \<in> set (nevra_strict e HY_EQ exc (result_of (query_apply e (keep_packages e hotfix)))) \<Longrightarrow> hideable e hotfix p" for p
    using assms(2) keep_result [OF assms(1), of hotfix] unfolding strict_narrows_def by blast
  obtain f where f: "with_filter (add_filter_reldeps HY_PKG_PROVIDES (name_dependencies (hp e) (artifact_names parse_name inc))
      (keep_packages e hotfix)) (keep_packages e hotfix) = push_filter f (unapplied (keep_packages e hotfix))"
    using with_provides_filter by blast
  show ?thesis
    using assms(3) strict
    by (auto simp: hidden_by_modules_def Let_def less_result_set included_result f keep_push_result [OF assms(1)]
      query_apply_applied)
qed

lemma named_are_hidden:
  assumes "filters_by_repo e" "filters_by_name e" "hideable e hotfix p" "p \<notin> included_by_modules e inc"
    and "pkg_name (hp e) p \<in> set (artifact_names parse_name inc)"
  shows "p \<in> hidden_by_modules parse_name e hotfix inc exc"
  using assms(3-5)
  by (auto simp: hidden_by_modules_def Let_def less_result_set included_result query_apply_applied keep_push_result [OF assms(1)]
    apply_name_eq [OF assms(2)] keep_result [OF assms(1)])

section \<open>Excludes of the configuration\<close>

lemma update_repo_excludes [simp]:
  "dk_pkg_excludes (update_repo i f s) = dk_pkg_excludes s" "dk_pkg_excludes (recompute_considered s) = dk_pkg_excludes s"
  "dk_pool (update_repo i f s) = dk_pool s" "dk_pool (recompute_considered s) = dk_pool s"
  by (simp_all add: update_repo_def recompute_considered_def)

lemma process_excludes_members:
  assumes "''all'' \<notin> set (cm_disable_excludes conf)"
    and "fold (process_repo subject e (cm_disable_excludes conf)) enabled (\<lparr>g_includes = [], g_excludes = [], g_exist = False\<rparr>, s) = (g, s')"
  shows "map_current (process_excludes subject e conf enabled s) \<and>
    set (g_excludes g) \<subseteq> map_members (dk_pkg_excludes (process_excludes subject e conf enabled s))"
  using assms
  by (auto simp: process_excludes_def sack_add_excludes_def add_to_def map_members_def process_main_def Let_def stale_def map_current_def
    split: prod.split)

lemma process_repo_keeps:
  "set (g_excludes g) \<subseteq> set (g_excludes (fst (process_repo subject e disabled r (g, s))))"
  by (simp add: process_repo_def Let_def)

lemma process_repos_keep:
  "set (g_excludes (fst gs)) \<subseteq> set (g_excludes (fst (fold (process_repo subject e disabled) rs gs)))"
proof (induction rs arbitrary: gs)
  case (Cons r rs)
  show ?case
    using Cons.IH [of "process_repo subject e disabled r gs"] process_repo_keeps [of "fst gs" subject e disabled r "snd gs"]
    by simp
qed simp

lemma matched_by_mem:
  "n \<in> set names \<Longrightarrow> subject e n q = (True, q') \<Longrightarrow> p \<in> set (result_of (query_apply e q')) \<Longrightarrow> p \<in> set (matched_by subject e q names)"
  by (force simp: matched_by_def)

lemma excluded_by_repo:
  assumes "''all'' \<notin> set (cm_disable_excludes conf)" "cr_id r \<notin> set (cm_disable_excludes conf)"
    and before: "fold (process_repo subject e (cm_disable_excludes conf)) rs (\<lparr>g_includes = [], g_excludes = [], g_exist = False\<rparr>, s) = (g, s')"
    and "n \<in> set (cr_excludepkgs r)" "subject (sack_env s' e) n (repo_query (sack_env s' e) (cr_id r)) = (True, q)"
    and "p \<in> set (result_of (query_apply (sack_env s' e) q))"
  shows "p \<in> map_members (dk_pkg_excludes (process_excludes subject e conf (rs @ r # rs') s))"
proof -
  obtain g' s'' where all: "fold (process_repo subject e (cm_disable_excludes conf)) (rs @ r # rs')
      (\<lparr>g_includes = [], g_excludes = [], g_exist = False\<rparr>, s) = (g', s'')"
    by (metis surj_pair)
  have "p \<in> set (g_excludes (fst (process_repo subject e (cm_disable_excludes conf) r (g, s'))))"
    using matched_by_mem [where subject = subject, OF assms(4-6)] assms(2) by (simp add: process_repo_def Let_def)
  then have "p \<in> set (g_excludes g')"
    using process_repos_keep [of "process_repo subject e (cm_disable_excludes conf) r (g, s')" subject e
      "cm_disable_excludes conf" rs'] all before by auto
  then show ?thesis using process_excludes_members [OF assms(1) all] by blast
qed

section \<open>The version of the installed packages\<close>

lemma ignores_all [simp]: "ignores_modular IGNORE_EXCLUDES" "ignores_regular IGNORE_EXCLUDES"
  by (simp_all add: ignores_modular_def ignores_regular_def IGNORE_EXCLUDES_def)

lemma init_ignoring: "init_result (sack_env s e) IGNORE_EXCLUDES = get_solvables (dk_pool s)"
  by (simp add: init_result_def sack_env_def considered_for_def recompute_considered_map_def)
    (simp add: IGNORE_EXCLUDES_def)

definition installed_of :: "dnf_sack \<Rightarrow> nat list" where
  "installed_of s = filter (\<lambda>p. \<exists>i. so_repo (dk_pool s) p = Some i \<and> repo_name (dk_pool s) i = Some HY_SYSTEM_REPO_NAME)
     (get_solvables (dk_pool s))"

lemma sack_env_simps [simp]:
  "hp (sack_env s e) = dk_pool s" "outer_filter (sack_env s e) = outer_filter e" "nevra_strict (sack_env s e) = nevra_strict e"
  by (simp_all add: sack_env_def)

lemma apply_one_filter: "apply_one e flags f ps = filter (\<lambda>p. p \<in> set (apply_one e flags f ps)) ps"
  by (auto simp: apply_one_def Let_def intro!: filter_cong)

lemma system_packages:
  assumes "filters_by_repo (sack_env s e)"
  shows "result_of (query_apply (sack_env s e)
      (push_filter (strs_filter HY_PKG_REPONAME HY_EQ [HY_SYSTEM_REPO_NAME]) (unapplied (query_create IGNORE_EXCLUDES)))) = installed_of s"
  using apply_repo_eq [OF assms, of IGNORE_EXCLUDES HY_SYSTEM_REPO_NAME "get_solvables (dk_pool s)"]
  by (subst result_of_apply, simp_all add: init_ignoring, subst apply_one_filter)
    (auto simp: installed_of_def name_of_repo_def intro!: filter_cong split: option.splits)

lemma rpmdb_version_eq:
  assumes "filters_by_repo (sack_env s e)"
  shows "rpmdb_version pkgid sha1 e s =
    nat_string (length (installed_of s)) @ '':'' @ sha1 (concat (sort (map pkgid (installed_of s))))"
  by (simp add: rpmdb_version_def Let_def system_packages [OF assms])

lemma mset_version:
  assumes "mset (map f xs) = mset (map g ys)"
  shows "length xs = length ys" "sort (map f xs) = sort (map g ys :: 'a::linorder list)"
  using arg_cong [OF assms, of size] arg_cong [OF assms, of sorted_list_of_multiset]
  by (simp_all only: size_mset length_map sorted_list_of_multiset_mset)

chapter \<open>Properties of the sack\<close>

text \<open>The properties of the sack of dnf 4, on a pool of installed packages and of two repositories.\<close>

section \<open>A sack with three repositories\<close>

text \<open>
  Installed are the packages 2, 5 and 6, the repository base has the package 3 and the repository fixes the package 4;
  the packages 2, 3 and 4 have the same name.
\<close>

definition named_pool :: pool where
  "named_pool = two_repos_pool\<lparr>repo_name := (\<lambda>i. Some (if i = 0 then ''@System'' else if i = 1 then ''base'' else ''fixes''))\<rparr>"

definition open_repo :: "string \<Rightarrow> sack_repo" where
  "open_repo n = \<lparr>sr_name = n, sr_use_includes = False, sr_disabled = False\<rparr>"

definition matches_filter :: "hy_filter \<Rightarrow> nat list \<Rightarrow> nat list" where
  "matches_filter f ps = filter (\<lambda>p. if f_key f = HY_PKG_REPONAME
       then (case so_repo named_pool p of None \<Rightarrow> None | Some i \<Rightarrow> repo_name named_pool i) \<in> Some ` str_of ` set (f_matches f)
       else pkg_name named_pool p \<in> str_of ` set (f_matches f)) ps"

definition named_env :: hy_env where
  "named_env = two_repos\<lparr>hp := named_pool, outer_filter := matches_filter\<rparr>"

definition named_sack :: dnf_sack where
  "named_sack = (dnf_sack_init named_pool None)\<lparr>
     dk_repos := [(0, open_repo ''@System''), (1, open_repo ''base''), (2, open_repo ''fixes'')], dk_installed := Some 0\<rparr>"

lemma named_pool_simps [simp]:
  "nsolvables named_pool = 7" "get_solvables named_pool = [2, 3, 4, 5, 6]"
  "so_repo named_pool = (\<lambda>p. if p = 3 then Some 1 else if p = 4 then Some 2 else Some 0)"
  "repo_name named_pool = (\<lambda>i. Some (if i = 0 then ''@System'' else if i = 1 then ''base'' else ''fixes''))"
  "pkg_name named_pool p = (if p \<le> 4 then ''v'' else ''vv'')"
proof -
  have "get_solvables named_pool = get_solvables two_repos_pool"
    by (simp add: get_solvables_def is_package_def pkg_name_def named_pool_def)
  then show "get_solvables named_pool = [2, 3, 4, 5, 6]" by (simp add: two_repos_solvables)
qed (simp_all add: named_pool_def two_repos_pool_def pkg_name_def numeral_eq_Suc)


lemma named_sack_simps [simp]:
  "dk_pool named_sack = named_pool" "dk_pkg_excludes named_sack = None" "dk_pkg_includes named_sack = None"
  "dk_repo_excludes named_sack = None" "dk_module_excludes named_sack = None" "dk_considered named_sack = None"
  "dk_repos named_sack = [(0, open_repo ''@System''), (1, open_repo ''base''), (2, open_repo ''fixes'')]"
  by (simp_all add: named_sack_def dnf_sack_init_def)

lemma named_filters:
  "hp e = named_pool \<Longrightarrow> outer_filter e = matches_filter \<Longrightarrow> filters_by_repo e \<and> filters_by_name e"
  by (simp add: filters_by_repo_def filters_by_name_def matches_filter_def name_of_repo_def)

lemma named_env_filters [simp]:
  "dk_pool s = named_pool \<Longrightarrow> filters_by_repo (sack_env s named_env)"
  "dk_pool s = named_pool \<Longrightarrow> filters_by_name (sack_env s named_env)"
  "strict_narrows (sack_env s named_env)"
  using named_filters [of "sack_env s named_env"]
  by (simp_all add: named_env_def strict_narrows_def two_repos_def)

lemma pool_of_set_module_excludes [simp]: "dk_pool (sack_set_module_excludes ps s) = dk_pool s"
  by (simp add: sack_set_module_excludes_def stale_def)

lemma name_of_repo_sack: "name_of_repo (sack_env s e) p =
    (case so_repo (dk_pool s) p of None \<Rightarrow> None | Some i \<Rightarrow> repo_name (dk_pool s) i)"
  by (simp add: name_of_repo_def split: option.split)

lemma find_new: "find P xs = None \<Longrightarrow> find P (xs @ [x]) = (if P x then Some x else None)"
  by (induction xs) (auto split: if_splits)

section \<open>Properties\<close>



text \<open>C40. The map of the packages of disabled repositories has room for the packages that were there when the first
  repository was disabled or enabled. A repository loaded later whose packages have larger ids cannot be disabled or
  enabled without writing past the end of the map.\<close>

theorem later_repository_does_not_fit:
  assumes "dk_repo_excludes s = None" "run_op (RepoEnabled name b) s = Inr t"
    and "repo_by_name t (sr_name r) = None" "p < nsolvables pool" "so_repo pool p = Some i" "map_bits (dk_n s) \<le> p"
  shows "run_ops run_op [LoadRepo pool i r, RepoEnabled (sr_name r) c] t = Inl MapOverflow"
proof -
  obtain x where "dk_repo_excludes t = Some (map_bits (dk_n s), x)"
    using assms(1,2) by (auto simp: sack_repo_enabled_def stale_def update_repo_def Let_def split: option.splits if_splits prod.splits)
  then show ?thesis
    using assms(3-6)
    by (auto simp: sack_repo_enabled_def sack_attach_repo_def stale_def repo_by_name_def repo_solvables_def list_ex_iff
      find_new Let_def split: option.split)
qed

lemma later_repository_does_not_fit_witness:
  "case run_op (RepoEnabled ''base'' False) (named_sack\<lparr>dk_pool := named_pool\<lparr>so_repo := (\<lambda>p. Some 0)\<rparr>\<rparr>) of
     Inl x \<Rightarrow> False
   | Inr t \<Rightarrow> run_ops run_op [LoadRepo (named_pool\<lparr>nsolvables := 10, so_repo := (\<lambda>p. Some (if p < 7 then 0 else 3))\<rparr>) 3
       (open_repo ''late''), RepoEnabled ''late'' False] t = Inl MapOverflow"
proof -
  let ?s = "named_sack\<lparr>dk_pool := named_pool\<lparr>so_repo := (\<lambda>p. Some 0)\<rparr>\<rparr>"
  obtain t where t: "run_op (RepoEnabled ''base'' False) ?s = Inr t"
    by (simp add: sack_repo_enabled_def repo_by_name_def open_repo_def repo_solvables_def Let_def)
  moreover have "repo_by_name t ''late'' = None"
    using t by (auto simp: sack_repo_enabled_def repo_by_name_def open_repo_def repo_solvables_def Let_def stale_def update_repo_def)
  ultimately show ?thesis
    using later_repository_does_not_fit [OF _ t, of "open_repo ''late''" 8
      "named_pool\<lparr>nsolvables := 10, so_repo := (\<lambda>p. Some (if p < 7 then 0 else 3))\<rparr>" 3 False]
    by (simp add: open_repo_def map_bits_def)
qed

text \<open>C14. What modules hide is never a package that they include, nor one that is installed, from the command line or
  from a hotfix repository, and only packages that a query could see are hidden. Every other visible package with the
  name of an artifact of an active module is hidden.\<close>

theorem modules_hide_available_packages_only:
  assumes "filters_by_repo (sack_env s e)" "filters_by_name (sack_env s e)" "strict_narrows e"
    and "t = set_module_excludes parse_name e hotfix inc exc s" "v = sack_env (sack_set_module_excludes None s) e"
  shows "\<exists>hidden included. dk_module_excludes t = Some hidden \<and> dk_module_includes t = Some included \<and>
    hidden \<inter> included = {} \<and> (\<forall>p \<in> hidden. hideable v hotfix p) \<and>
    {p. hideable v hotfix p \<and> pkg_name (hp v) p \<in> set (artifact_names parse_name inc)} - included \<subseteq> hidden"
proof -
  have "filters_by_repo v" "filters_by_name v" "strict_narrows v"
    using assms(1-3)
    unfolding assms(5) filters_by_repo_def filters_by_name_def strict_narrows_def name_of_repo_sack sack_env_simps
      pool_of_set_module_excludes .
  then show ?thesis
    unfolding assms(4) set_module_excludes_result assms(5) [symmetric]
    using hidden_are_hideable named_are_hidden by (fastforce simp: subset_iff)
qed

lemma modules_hide_available_packages_only_witness:
  "dk_module_excludes (set_module_excludes (\<lambda>s. Some (takeWhile (\<lambda>c. c \<noteq> CHR ''-'') s)) named_env [''fixes''] [''v-1'', ''vv-1''] [] named_sack)
   = Some {3}"
proof -
  let ?t = "set_module_excludes (\<lambda>s. Some (takeWhile (\<lambda>c. c \<noteq> CHR ''-'') s)) named_env [''fixes''] [''v-1'', ''vv-1''] [] named_sack"
  let ?v = "sack_env (sack_set_module_excludes None named_sack) named_env"
  have strict: "strict_narrows named_env" "included_by_modules ?v [''v-1'', ''vv-1''] = {}"
    by (simp_all add: strict_narrows_def named_env_def two_repos_def included_by_modules_def)
  have all: "set (init_result ?v 0) = {2, 3, 4, 5, 6}"
    by (simp add: init_result_def sack_env_def considered_for_def recompute_considered_def sack_set_module_excludes_def)
      (simp add: named_sack_def dnf_sack_init_def)
  have hide: "hideable ?v [''fixes''] p \<longleftrightarrow> p = 3" for p
    unfolding hideable_def all by (auto simp: name_of_repo_def HY_SYSTEM_REPO_NAME_def HY_CMDLINE_REPO_NAME_def)
  have only: "dk_module_includes ?t = Some {}" using set_module_excludes_result(2) strict(2) by simp
  obtain hidden included where "dk_module_excludes ?t = Some hidden" "dk_module_includes ?t = Some included"
      "\<forall>p \<in> hidden. hideable ?v [''fixes''] p"
      "{p. hideable ?v [''fixes''] p \<and> pkg_name (hp ?v) p \<in> set (artifact_names (\<lambda>s. Some (takeWhile (\<lambda>c. c \<noteq> CHR ''-'') s)) [''v-1'', ''vv-1''])}
        - included \<subseteq> hidden"
    using modules_hide_available_packages_only [OF _ _ strict(1) refl refl, where s = named_sack and hotfix = "[''fixes'']"
      and parse_name = "\<lambda>s. Some (takeWhile (\<lambda>c. c \<noteq> CHR ''-'') s)" and inc = "[''v-1'', ''vv-1'']" and exc = "[]"] by auto
  then show ?thesis
    using only hide by (auto simp: artifact_names_def List.map_filter_def)
qed

text \<open>A package that an exclude of a repository matches is not seen by later queries, unless excludes are disabled for
  everything or for that repository.\<close>

theorem excluded_packages_are_not_seen:
  assumes "''all'' \<notin> set (cm_disable_excludes conf)" "cr_id r \<notin> set (cm_disable_excludes conf)"
    and "fold (process_repo subject e (cm_disable_excludes conf)) rs (\<lparr>g_includes = [], g_excludes = [], g_exist = False\<rparr>, s) = (g, s')"
    and "n \<in> set (cr_excludepkgs r)" "subject (sack_env s' e) n (repo_query (sack_env s' e) (cr_id r)) = (True, q)"
    and "p \<in> set (result_of (query_apply (sack_env s' e) q))"
  shows "p \<notin> set (init_result (sack_env (process_excludes subject e conf (rs @ r # rs') s) e') 0)"
proof -
  have "map_current (process_excludes subject e conf (rs @ r # rs') s)"
    using process_excludes_members [OF assms(1) prod.collapse [symmetric]] by blast
  then show ?thesis
    using excluded_by_repo [where subject = subject, OF assms, of rs']
    by (simp add: query_sees_view seen_def allowed_def ignores_regular_def)
qed

lemma excluded_packages_are_not_seen_witness:
  "3 \<notin> set (init_result (sack_env (process_excludes (\<lambda>e n q. (True, q)) named_env
     \<lparr>cm_disable_excludes = [''fixes''], cm_includepkgs = [], cm_excludepkgs = []\<rparr>
     [\<lparr>cr_id = ''base'', cr_handle = Some 1, cr_includepkgs = [], cr_excludepkgs = [''v'']\<rparr>] named_sack) named_env) 0)"
proof -
  have all: "set (init_result (sack_env named_sack named_env) 0) = {2, 3, 4, 5, 6}"
    by (simp add: init_result_def sack_env_def considered_for_def recompute_considered_def)
      (simp add: named_sack_def dnf_sack_init_def)
  have "3 \<in> set (result_of (query_apply (sack_env named_sack named_env) (repo_query (sack_env named_sack named_env) ''base'')))"
    by (simp add: repo_query_def query_apply_idem result_of_apply apply_repo_eq all name_of_repo_def)
  then show ?thesis
    using excluded_packages_are_not_seen [where rs = "[]" and rs' = "[]" and s = named_sack and e = named_env and e' = named_env
      and conf = "\<lparr>cm_disable_excludes = [''fixes''], cm_includepkgs = [], cm_excludepkgs = []\<rparr>"
      and r = "\<lparr>cr_id = ''base'', cr_handle = Some 1, cr_includepkgs = [], cr_excludepkgs = [''v'']\<rparr>"
      and subject = "\<lambda>e n q. (True, q)" and n = "''v''" and p = 3] by simp
qed

text \<open>C35. The version of the database of installed packages depends only on the checksums of the headers of the installed
  packages: neither on their order in the pool nor on excludes and includes nor on other repositories.\<close>

theorem rpmdb_version_of_installed_only:
  assumes "filters_by_repo (sack_env s e)" "filters_by_repo (sack_env s' e')"
    and "mset (map pkgid (installed_of s)) = mset (map pkgid' (installed_of s'))"
  shows "rpmdb_version pkgid sha1 e s = rpmdb_version pkgid' sha1 e' s'"
  by (simp add: rpmdb_version_eq assms(1,2) mset_version [OF assms(3)])

lemma rpmdb_version_of_installed_only_witness:
  "rpmdb_version (\<lambda>p. replicate p CHR ''x'') id named_env named_sack =
   rpmdb_version (\<lambda>p. replicate (if p = 2 then 6 else if p = 6 then 2 else p) CHR ''x'') id named_env (sack_add_excludes [2, 6] named_sack)"
proof (rule rpmdb_version_of_installed_only)
  have "installed_of named_sack = [2, 5, 6]" "installed_of (sack_add_excludes [2, 6] named_sack) = [2, 5, 6]"
    by (simp_all add: installed_of_def HY_SYSTEM_REPO_NAME_def sack_add_excludes_def stale_def)
  then show "mset (map (\<lambda>p. replicate p CHR ''x'') (installed_of named_sack)) =
      mset (map (\<lambda>p. replicate (if p = 2 then 6 else if p = 6 then 2 else p) CHR ''x'') (installed_of (sack_add_excludes [2, 6] named_sack)))"
    by simp
qed (simp_all add: sack_add_excludes_def stale_def)

end
