(* ===== verification/Dnf4SackLoad.thy ===== *)
theory Dnf4SackLoad
  imports Dnf4SackFilter
begin

text \<open>
  How repositories come into the sack of dnf 4 (\<open>dnf-4/libdnf/dnf-sack.cpp\<close>) with the checksums of cached files
  (\<open>hy-iutil.cpp\<close>): from a cache that carries the checksum of the metadata it was made from, or from the metadata, after
  which the cache may be written.
\<close>

section \<open>Files, libsolv and repositories\<close>

text \<open>Which calls of the operating system succeed; \<open>os_mkstemp\<close> chooses the name of a temporary file.\<close>

record os_calls =
  os_mkstemp :: "string \<Rightarrow> string option"
  os_fdopen :: "string \<Rightarrow> bool"
  os_fwrite :: "string \<Rightarrow> bool"
  os_fopen :: "string \<Rightarrow> bool"
  os_rename :: "string \<Rightarrow> string \<Rightarrow> bool"
  os_chmod :: "string \<Rightarrow> bool"

type_synonym disk = "string \<Rightarrow> string option"

definition fopen_r :: "os_calls \<Rightarrow> disk \<Rightarrow> string \<Rightarrow> string option" where
  "fopen_r os files f = (if os_fopen os f then files f else None)"

definition unlink_file :: "string \<Rightarrow> disk \<Rightarrow> disk" where "unlink_file f files = files(f := None)"

text \<open>\<open>mv\<close> of \<open>hy-iutil.cpp\<close>: the file is renamed even when its permissions cannot be set.\<close>

definition mv_file :: "os_calls \<Rightarrow> string \<Rightarrow> string \<Rightarrow> disk \<Rightarrow> bool \<times> disk" where
  "mv_file os old new files =
     (if \<not> os_rename os old new then (False, files) else (os_chmod os new, (files(old := None))(new := files old)))"

datatype repodata_kind = FILENAMES | PRESTO | UPDATEINFO | OTHER
datatype md_type = MD_TYPE_PRIMARY | MD_TYPE_FILELISTS | MD_TYPE_OTHER | MD_TYPE_PRESTODELTA | MD_TYPE_UPDATEINFO
datatype repodata_state = HY_NOT_LOADED | HY_LOADED_FETCH | HY_LOADED_CACHE | HY_WRITTEN
datatype solv_flag = REPO_EXTEND_SOLVABLES | REPO_LOCALPOOL | REPO_USE_LOADING

text \<open>
  libsolv reads and writes the data \<open>'d\<close> of a repository; \<open>None\<close> is a failure. What \<open>ls_add_solv\<close> and \<open>ls_add_ext\<close> read
  stays in the repository when they fail: they return whether they succeeded and the data that are then there. The other
  readers fail only into repositories that are freed. \<open>ls_digest\<close> is the checksum of the content of a file, \<open>ls_rpmdb_stamp\<close> that of the state of the database of installed packages, which \<open>ls_add_rpmdb\<close> reads with
  the help of an older cache.
\<close>

record 'd libsolv =
  ls_new :: 'd
  ls_add_solv :: "solv_flag list \<Rightarrow> string \<Rightarrow> 'd \<Rightarrow> bool \<times> 'd"
  ls_add_repomd :: "string \<Rightarrow> 'd \<Rightarrow> 'd option"
  ls_add_primary :: "string \<Rightarrow> 'd \<Rightarrow> 'd option"
  ls_add_ext :: "repodata_kind \<Rightarrow> string \<Rightarrow> 'd \<Rightarrow> bool \<times> 'd"
  ls_add_rpmdb :: "string option \<Rightarrow> 'd \<Rightarrow> 'd option"
  ls_write :: "'d \<Rightarrow> string option"
  ls_write_ext :: "repodata_kind \<Rightarrow> 'd \<Rightarrow> string option"
  ls_one_piece :: "'d \<Rightarrow> bool"
  ls_digest :: "string \<Rightarrow> string"
  ls_rpmdb_stamp :: "string option"

text \<open>
  What loading reads and changes: the disk, the data and the state of the repository. The class of the repository is not in
  the sources; what it holds is known from their use.
\<close>

record 'd loading =
  ld_files :: disk
  ld_data :: 'd
  ld_id :: string
  ld_repomd :: string
  ld_metadata :: "md_type \<Rightarrow> string"
  ld_checksum :: string
  ld_main :: repodata_state
  ld_ext :: "repodata_kind \<Rightarrow> repodata_state"
  ld_flags :: nat

datatype load_error = FileInvalid | InternalFailure | NoCapability | WriteFailed | Crash

section \<open>Checksums\<close>

definition CHKSUM_BYTES :: nat where "CHKSUM_BYTES = 32"

text \<open>A cache ends with a checksum.\<close>

definition checksum_read :: "string \<Rightarrow> string option" where
  "checksum_read content =
     (if length content < CHKSUM_BYTES then None else Some (drop (length content - CHKSUM_BYTES) content))"

definition can_use_cache :: "string option \<Rightarrow> string \<Rightarrow> bool" where
  "can_use_cache file cs = (case file of None \<Rightarrow> False | Some content \<Rightarrow> checksum_read content = Some cs)"

section \<open>Writing caches\<close>

definition set_files :: "disk \<Rightarrow> 'd loading \<Rightarrow> 'd loading" where "set_files f st = st\<lparr>ld_files := f\<rparr>"

text \<open>
  \<open>write_main\<close>: the data and the checksum go to a temporary file that replaces the cache at the end; on a failure it is
  removed. With \<open>switch\<close> the repository is emptied and the data are read back from the written file.
\<close>

definition write_main ::
  "os_calls \<Rightarrow> 'd libsolv \<Rightarrow> string \<Rightarrow> bool \<Rightarrow> 'd loading \<Rightarrow> (load_error + unit) \<times> 'd loading" where
  "write_main os ls fn switch st =
     (case os_mkstemp os (fn @ ''.XXXXXX'') of
        None \<Rightarrow> (Inl FileInvalid, st)
      | Some tmp \<Rightarrow>
          let failed = (\<lambda>st. (Inl FileInvalid, set_files (unlink_file tmp (ld_files st)) st));
              st = set_files ((ld_files st)(tmp := Some [])) st
          in
          if \<not> os_fdopen os tmp then failed st
          else case ls_write ls (ld_data st) of
            None \<Rightarrow> failed st
          | Some content \<Rightarrow>
              if \<not> os_fwrite os tmp then failed st
              else
                let written = content @ ld_checksum st;
                    st = set_files ((ld_files st)(tmp := Some written)) st;
                    reread = (if switch \<and> ls_one_piece ls (ld_data st) \<and> os_fopen os tmp
                              then ls_add_solv ls [] written (ls_new ls) else (True, ld_data st))
                in case reread of
                    (False, d) \<Rightarrow> failed (st\<lparr>ld_data := d\<rparr>)
                  | (True, d) \<Rightarrow>
                      let (ok, files) = mv_file os tmp fn (ld_files st); st = set_files files (st\<lparr>ld_data := d\<rparr>)
                      in if ok then (Inr (), st\<lparr>ld_main := HY_WRITTEN\<rparr>) else failed st)"

definition local_flags :: "repodata_kind \<Rightarrow> solv_flag list" where
  "local_flags k = (if k = FILENAMES \<or> k = OTHER then [REPO_LOCALPOOL] else [])"

definition update_ext :: "repodata_kind \<Rightarrow> repodata_state \<Rightarrow> 'd loading \<Rightarrow> 'd loading" where
  "update_ext k x st = st\<lparr>ld_ext := (ld_ext st)(k := x)\<rparr>"

text \<open>
  \<open>write_ext\<close>: here the result of opening the temporary file and that of reading it back are not looked at, and the
  temporary file is removed only when writing failed.
\<close>

definition write_ext ::
  "os_calls \<Rightarrow> 'd libsolv \<Rightarrow> repodata_kind \<Rightarrow> string \<Rightarrow> 'd loading \<Rightarrow> (load_error + unit) \<times> 'd loading" where
  "write_ext os ls k fn st =
     (case os_mkstemp os (fn @ ''.XXXXXX'') of
        None \<Rightarrow> (Inl FileInvalid, st)
      | Some tmp \<Rightarrow>
          let st = set_files ((ld_files st)(tmp := Some [])) st in
          if \<not> os_fdopen os tmp then (Inl Crash, st)
          else case (if os_fwrite os tmp then ls_write_ext ls k (ld_data st) else None) of
            None \<Rightarrow> (Inl WriteFailed, set_files (unlink_file tmp (ld_files st)) st)
          | Some content \<Rightarrow>
              let written = content @ ld_checksum st;
                  st = set_files ((ld_files st)(tmp := Some written)) st;
                  d = (if ls_one_piece ls (ld_data st) \<and> k \<noteq> UPDATEINFO \<and> os_fopen os tmp
                       then snd (ls_add_solv ls (REPO_USE_LOADING # REPO_EXTEND_SOLVABLES # local_flags k) written (ld_data st))
                       else ld_data st);
                  (ok, files) = mv_file os tmp fn (ld_files st);
                  st = set_files files (st\<lparr>ld_data := d\<rparr>)
              in if ok then (Inr (), update_ext k HY_WRITTEN st) else (Inl FileInvalid, st))"

section \<open>Reading\<close>

definition load_ext ::
  "os_calls \<Rightarrow> 'd libsolv \<Rightarrow> repodata_kind \<Rightarrow> string \<Rightarrow> md_type \<Rightarrow> 'd loading \<Rightarrow> (load_error + unit) \<times> 'd loading" where
  "load_ext os ls k fn_cache md st =
     (let fn = ld_metadata st md in
      if fn = [] then (Inl NoCapability, st)
      else
        let fp = fopen_r os (ld_files st) fn_cache in
        if can_use_cache fp (ld_checksum st) then
          (case ls_add_solv ls ((if k \<noteq> UPDATEINFO then [REPO_EXTEND_SOLVABLES] else []) @ local_flags k) (the fp) (ld_data st) of
             (False, d) \<Rightarrow> (Inl InternalFailure, st\<lparr>ld_data := d\<rparr>)
           | (True, d) \<Rightarrow> (Inr (), update_ext k HY_LOADED_CACHE (st\<lparr>ld_data := d\<rparr>)))
        else case fopen_r os (ld_files st) fn of
          None \<Rightarrow> (Inl FileInvalid, st)
        | Some content \<Rightarrow>
            (case ls_add_ext ls k content (ld_data st) of
               (False, d) \<Rightarrow> (Inr (), st\<lparr>ld_data := d\<rparr>)
             | (True, d) \<Rightarrow> (Inr (), update_ext k HY_LOADED_FETCH (st\<lparr>ld_data := d\<rparr>))))"

definition load_yum_repo :: "os_calls \<Rightarrow> 'd libsolv \<Rightarrow> string \<Rightarrow> 'd loading \<Rightarrow> (load_error + unit) \<times> 'd loading" where
  "load_yum_repo os ls fn_cache st =
     (let st = st\<lparr>ld_data := ls_new ls\<rparr>; fp_cache = fopen_r os (ld_files st) fn_cache in
      case fopen_r os (ld_files st) (ld_repomd st) of
        None \<Rightarrow> (Inl FileInvalid, st)
      | Some repomd \<Rightarrow>
          let st = st\<lparr>ld_checksum := ls_digest ls repomd\<rparr> in
          if can_use_cache fp_cache (ld_checksum st) then
            (case ls_add_solv ls [] (the fp_cache) (ld_data st) of
               (False, d) \<Rightarrow> (Inl InternalFailure, st\<lparr>ld_data := d\<rparr>)
             | (True, d) \<Rightarrow> (Inr (), st\<lparr>ld_data := d, ld_main := HY_LOADED_CACHE\<rparr>))
          else if ld_metadata st MD_TYPE_PRIMARY = [] then (Inl InternalFailure, st)
          else case fopen_r os (ld_files st) (ld_metadata st MD_TYPE_PRIMARY) of
            None \<Rightarrow> (Inl Crash, st)
          | Some primary \<Rightarrow>
              (case Option.bind (ls_add_repomd ls repomd (ld_data st)) (ls_add_primary ls primary) of
                 None \<Rightarrow> (Inl InternalFailure, st)
               | Some d \<Rightarrow> (Inr (), st\<lparr>ld_data := d, ld_main := HY_LOADED_FETCH\<rparr>)))"

section \<open>Loading into the sack\<close>

definition FLAG_BUILD_CACHE :: nat where "FLAG_BUILD_CACHE = 1"
definition FLAG_USE_FILELISTS :: nat where "FLAG_USE_FILELISTS = 2"
definition FLAG_USE_PRESTO :: nat where "FLAG_USE_PRESTO = 4"
definition FLAG_USE_UPDATEINFO :: nat where "FLAG_USE_UPDATEINFO = 8"
definition FLAG_USE_OTHER :: nat where "FLAG_USE_OTHER = 16"

definition flag_set :: "nat \<Rightarrow> nat \<Rightarrow> bool" where "flag_set flags f \<longleftrightarrow> flags div f mod 2 = 1"

text \<open>The kinds of data that are loaded after the packages, in the order of the code, with their files.\<close>

definition ext_order :: "(nat \<times> repodata_kind \<times> string \<times> md_type) list" where
  "ext_order =
     [(FLAG_USE_FILELISTS, FILENAMES, ''-filenames'', MD_TYPE_FILELISTS), (FLAG_USE_OTHER, OTHER, ''-other'', MD_TYPE_OTHER),
      (FLAG_USE_PRESTO, PRESTO, ''-presto'', MD_TYPE_PRESTODELTA), (FLAG_USE_UPDATEINFO, UPDATEINFO, ''-updateinfo'', MD_TYPE_UPDATEINFO)]"

text \<open>One kind: data that the repository does not have are no error.\<close>

definition load_kind ::
  "os_calls \<Rightarrow> 'd libsolv \<Rightarrow> (string \<Rightarrow> string) \<Rightarrow> bool \<Rightarrow> repodata_kind \<Rightarrow> string \<Rightarrow> md_type \<Rightarrow> 'd loading \<Rightarrow>
    (load_error + unit) \<times> 'd loading" where
  "load_kind os ls cache_fn build k suffix md st =
     (case load_ext os ls k (cache_fn suffix) md st of
        (r, st) \<Rightarrow>
          if r = Inr () \<or> r = Inl NoCapability then
            (if ld_ext st k = HY_LOADED_FETCH \<and> build then write_ext os ls k (cache_fn suffix) st else (Inr (), st))
          else (r, st))"

fun load_kinds ::
  "os_calls \<Rightarrow> 'd libsolv \<Rightarrow> (string \<Rightarrow> string) \<Rightarrow> nat \<Rightarrow> (nat \<times> repodata_kind \<times> string \<times> md_type) list \<Rightarrow> 'd loading \<Rightarrow>
    (load_error + unit) \<times> 'd loading" where
  "load_kinds os ls cache_fn flags [] st = (Inr (), st)"
| "load_kinds os ls cache_fn flags ((f, k, suffix, md) # ks) st =
     (if \<not> flag_set flags f then load_kinds os ls cache_fn flags ks st
      else case load_kind os ls cache_fn (flag_set flags FLAG_BUILD_CACHE) k suffix md st of
          (Inl x, st) \<Rightarrow> (Inl x, st)
        | (Inr _, st) \<Rightarrow> load_kinds os ls cache_fn flags ks st)"

text \<open>The sack into which the repository goes: \<open>to_pool\<close> adds the packages of its data to the pool.\<close>

record 'd target =
  tg_sack :: dnf_sack
  tg_loading :: "'d loading"

definition attach_data :: "(string \<Rightarrow> 'd \<Rightarrow> pool \<Rightarrow> nat \<times> pool) \<Rightarrow> 'd loading \<Rightarrow> dnf_sack \<Rightarrow> dnf_sack" where
  "attach_data to_pool st s =
     (case to_pool (ld_id st) (ld_data st) (dk_pool s) of
        (i, pool) \<Rightarrow> sack_attach_repo pool i \<lparr>sr_name = ld_id st, sr_use_includes = False, sr_disabled = False\<rparr> s)"

definition load_repo ::
  "os_calls \<Rightarrow> 'd libsolv \<Rightarrow> (string \<Rightarrow> 'd \<Rightarrow> pool \<Rightarrow> nat \<times> pool) \<Rightarrow> nat \<Rightarrow> 'd target \<Rightarrow> (load_error + unit) \<times> 'd target" where
  "load_repo os ls to_pool flags t =
     (let s = tg_sack t; cache = (\<lambda>ext. sack_give_cache_fn s (ld_id (tg_loading t)) ext) in
      case load_yum_repo os ls (cache None) (tg_loading t) of
        (Inl x, st) \<Rightarrow> (Inl x, t\<lparr>tg_loading := st\<rparr>)
      | (Inr _, st) \<Rightarrow>
          let st = st\<lparr>ld_flags := flags\<rparr>;
              (r, st) = (if ld_main st = HY_LOADED_FETCH \<and> flag_set flags FLAG_BUILD_CACHE
                         then write_main os ls (cache None) True st else (Inr (), st));
              (r, st) = (case r of Inl x \<Rightarrow> (Inl x, st) | Inr _ \<Rightarrow> load_kinds os ls (\<lambda>x. cache (Some x)) flags ext_order st);
              s = attach_data to_pool st s
          in (r, \<lparr>tg_sack = (case r of Inl _ \<Rightarrow> s | Inr _ \<Rightarrow> stale s), tg_loading = st\<rparr>))"

text \<open>
  \<open>dnf_sack_load_system_repo\<close>: without a cache no checksum is computed; the database is then read and, if wanted, the cache
  written.
\<close>

definition read_system :: "os_calls \<Rightarrow> 'd libsolv \<Rightarrow> string \<Rightarrow> 'd loading \<Rightarrow> (load_error + unit) \<times> 'd loading" where
  "read_system os ls fn_cache st =
     (let cache = fopen_r os (ld_files st) fn_cache;
          stamp = (if cache = None then None else ls_rpmdb_stamp ls);
          st = st\<lparr>ld_id := HY_SYSTEM_REPO_NAME, ld_data := ls_new ls,
                  ld_checksum := (case stamp of None \<Rightarrow> ld_checksum st | Some cs \<Rightarrow> cs)\<rparr>
      in
      if stamp \<noteq> None \<and> can_use_cache cache (ld_checksum st) then
        (case ls_add_solv ls [] (the cache) (ld_data st) of
           (False, d) \<Rightarrow> (Inl FileInvalid, st\<lparr>ld_data := d\<rparr>)
         | (True, d) \<Rightarrow> (Inr (), st\<lparr>ld_data := d, ld_main := HY_LOADED_CACHE\<rparr>))
      else
        (case ls_add_rpmdb ls cache (ld_data st) of
           None \<Rightarrow> (Inl FileInvalid, st)
         | Some d \<Rightarrow> (Inr (), st\<lparr>ld_data := d, ld_main := HY_LOADED_FETCH\<rparr>)))"

definition load_system_repo ::
  "os_calls \<Rightarrow> 'd libsolv \<Rightarrow> (string \<Rightarrow> 'd \<Rightarrow> pool \<Rightarrow> nat \<times> pool) \<Rightarrow> nat \<Rightarrow> 'd target \<Rightarrow> (load_error + unit) \<times> 'd target" where
  "load_system_repo os ls to_pool flags t =
     (let s = tg_sack t; fn = sack_give_cache_fn s HY_SYSTEM_REPO_NAME None in
      case read_system os ls fn ((tg_loading t)\<lparr>ld_flags := flags\<rparr>) of
        (Inl x, st) \<Rightarrow> (Inl x, t\<lparr>tg_loading := st\<rparr>)
      | (Inr _, st) \<Rightarrow>
          let (r, st) = (if ld_main st = HY_LOADED_FETCH \<and> flag_set flags FLAG_BUILD_CACHE
                         then write_main os ls fn True st else (Inr (), st));
              s = attach_data to_pool st s; s = s\<lparr>dk_installed := Some (fst (last (dk_repos s)))\<rparr>
          in (r, \<lparr>tg_sack = (case r of Inl _ \<Rightarrow> s | Inr _ \<Rightarrow> stale s), tg_loading = st\<rparr>))"

section \<open>Adding repositories\<close>

datatype add_error = CannotFetchSource | RepoNotAvailable | OtherError | LoadFailed load_error

datatype enabled_state = ENABLED_NONE | ENABLED_PACKAGES | ENABLED_METADATA

text \<open>
  A repository of the context: whether its metadata pass the check, how updating them ends, whether it is required and
  enabled, before and after that, and what is loaded, which may depend on whether it was updated.
\<close>

record 'd dnf_repo4 =
  dr_check :: bool
  dr_update :: "add_error option"
  dr_required :: bool
  dr_enabled :: enabled_state
  dr_enabled_then :: enabled_state
  dr_loading :: "bool \<Rightarrow> 'd loading"
  dr_conf :: conf_repo4

definition ADD_FLAG_FILELISTS :: nat where "ADD_FLAG_FILELISTS = 1"
definition ADD_FLAG_UPDATEINFO :: nat where "ADD_FLAG_UPDATEINFO = 2"
definition ADD_FLAG_UNAVAILABLE :: nat where "ADD_FLAG_UNAVAILABLE = 8"
definition ADD_FLAG_OTHER :: nat where "ADD_FLAG_OTHER = 16"

definition load_flags_of :: "nat \<Rightarrow> nat" where
  "load_flags_of flags = FLAG_BUILD_CACHE + (if flag_set flags ADD_FLAG_FILELISTS then FLAG_USE_FILELISTS else 0) +
     (if flag_set flags ADD_FLAG_OTHER then FLAG_USE_OTHER else 0) + (if flag_set flags ADD_FLAG_UPDATEINFO then FLAG_USE_UPDATEINFO else 0)"

text \<open>\<open>dnf_sack_add_repo\<close>, without the steps of the progress state.\<close>

definition add_repo ::
  "os_calls \<Rightarrow> 'd libsolv \<Rightarrow> (string \<Rightarrow> 'd \<Rightarrow> pool \<Rightarrow> nat \<times> pool) \<Rightarrow> nat \<Rightarrow> 'd dnf_repo4 \<Rightarrow> 'd target \<Rightarrow>
    (add_error + unit) \<times> 'd target" where
  "add_repo os ls to_pool flags r t =
     (let updated = \<not> dr_check r; problem = (if updated then dr_update r else None) in
      case problem of
        Some x \<Rightarrow> (if \<not> dr_required r \<and> (x = CannotFetchSource \<or> x = RepoNotAvailable) then Inr () else Inl x, t)
      | None \<Rightarrow>
          if dr_enabled_then r = ENABLED_NONE then (Inr (), t)
          else
            (case load_repo os ls to_pool (load_flags_of flags)
                    (t\<lparr>tg_loading := (dr_loading r updated)\<lparr>ld_files := ld_files (tg_loading t)\<rparr>\<rparr>) of
               (Inl x, t) \<Rightarrow> (Inl (LoadFailed x), t)
             | (Inr _, t) \<Rightarrow> (Inr (), t)))"

definition wanted_repo :: "nat \<Rightarrow> 'd dnf_repo4 \<Rightarrow> bool" where
  "wanted_repo flags r \<longleftrightarrow>
     dr_enabled r \<noteq> ENABLED_NONE \<and> (dr_enabled r = ENABLED_METADATA \<longrightarrow> flag_set flags ADD_FLAG_UNAVAILABLE)"

fun add_each ::
  "os_calls \<Rightarrow> 'd libsolv \<Rightarrow> (string \<Rightarrow> 'd \<Rightarrow> pool \<Rightarrow> nat \<times> pool) \<Rightarrow> nat \<Rightarrow> 'd dnf_repo4 list \<Rightarrow> 'd target \<Rightarrow>
    (add_error + unit) \<times> 'd target" where
  "add_each os ls to_pool flags [] t = (Inr (), t)"
| "add_each os ls to_pool flags (r # rs) t =
     (if \<not> wanted_repo flags r then add_each os ls to_pool flags rs t
      else case add_repo os ls to_pool flags r t of
          (Inl x, t) \<Rightarrow> (Inl x, t)
        | (Inr _, t) \<Rightarrow> add_each os ls to_pool flags rs t)"

text \<open>The handle of a repository is known once it has been loaded.\<close>

definition conf_in :: "dnf_sack \<Rightarrow> conf_repo4 \<Rightarrow> conf_repo4" where
  "conf_in s c = c\<lparr>cr_handle := map_option fst (repo_by_name s (cr_id c))\<rparr>"

definition add_repos ::
  "os_calls \<Rightarrow> 'd libsolv \<Rightarrow> (string \<Rightarrow> 'd \<Rightarrow> pool \<Rightarrow> nat \<times> pool) \<Rightarrow> subject_fn \<Rightarrow> hy_env \<Rightarrow> conf_main4 \<Rightarrow> nat \<Rightarrow>
    'd dnf_repo4 list \<Rightarrow> 'd target \<Rightarrow> (add_error + unit) \<times> 'd target" where
  "add_repos os ls to_pool subject e conf flags rs t =
     (case add_each os ls to_pool flags rs t of
        (Inl x, t) \<Rightarrow> (Inl x, t)
      | (Inr _, t) \<Rightarrow>
          let s = tg_sack t; enabled = map (\<lambda>r. conf_in s (dr_conf r)) (filter (wanted_repo flags) rs)
          in (Inr (), t\<lparr>tg_sack := process_excludes subject e conf enabled s\<rparr>))"

end
