(* ===== verification/Dnf4SackLoadProps.thy ===== *)
theory Dnf4SackLoadProps
  imports Dnf4SackLoad Dnf4SackFacts
begin

text \<open>
  What the caches of dnf 4 promise: reading metadata through a cache gives what reading them afresh gives, and a cache that
  cannot be written leaves the older one; and where they fall short.
\<close>

section \<open>Writing the main cache\<close>

definition tmp_of :: "os_calls \<Rightarrow> string \<Rightarrow> string option" where "tmp_of os fn = os_mkstemp os (fn @ ''.XXXXXX'')"

lemma set_files_simps [simp]:
  "ld_files (set_files f st) = f" "ld_data (set_files f st) = ld_data st" "ld_checksum (set_files f st) = ld_checksum st"
  "ld_main (set_files f st) = ld_main st" "ld_ext (set_files f st) = ld_ext st"
  by (simp_all add: set_files_def)

text \<open>How writing can end: a failure before the cache is touched, a cache without its permissions, or a written cache.\<close>

lemma write_main_cases:
  fixes ls :: "'d libsolv"
  assumes "write_main os ls fn switch st = (r, st')"
  obtains (no_temp) "tmp_of os fn = None" "r = Inl FileInvalid" "st' = st"
    | (failed) tmp where "tmp_of os fn = Some tmp" "r = Inl FileInvalid" "ld_files st' = (ld_files st)(tmp := None)"
    | (half) tmp content where "tmp_of os fn = Some tmp" "r = Inl FileInvalid" "ls_write ls (ld_data st) = Some content"
        "\<not> os_chmod os fn" "ld_files st' = ((ld_files st)(fn := Some (content @ ld_checksum st)))(tmp := None)"
    | (ok) tmp content where "tmp_of os fn = Some tmp" "r = Inr ()" "ls_write ls (ld_data st) = Some content"
        "ld_files st' = ((ld_files st)(tmp := None))(fn := Some (content @ ld_checksum st))"
        "ld_main st' = HY_WRITTEN"
        "ld_data st' = ld_data st \<or> ls_add_solv ls [] (content @ ld_checksum st) (ls_new ls) = (True, ld_data st')"
proof (cases "tmp_of os fn")
  case None
  then show ?thesis using assms no_temp by (simp add: write_main_def tmp_of_def)
next
  case (Some tmp)
  note tmp = this
  show ?thesis
  proof (cases "os_fdopen os tmp \<and> os_fwrite os tmp")
    case False
    then show ?thesis
      using assms Some failed [OF Some] by (auto simp: write_main_def tmp_of_def Let_def unlink_file_def split: option.splits if_splits)
  next
    case opened: True
    show ?thesis
    proof (cases "ls_write ls (ld_data st)")
      case None
      then show ?thesis
        using assms Some opened failed [OF Some] by (auto simp: write_main_def tmp_of_def Let_def unlink_file_def)
    next
      case (Some content)
      define reread where "reread = (if switch \<and> ls_one_piece ls (ld_data st) \<and> os_fopen os tmp
        then ls_add_solv ls [] (content @ ld_checksum st) (ls_new ls) else (True, ld_data st))"
      have run: "write_main os ls fn switch st = (case reread of
          (False, d) \<Rightarrow> (Inl FileInvalid, set_files ((ld_files st)(tmp := None)) (st\<lparr>ld_data := d, ld_files := (ld_files st)(tmp := None)\<rparr>))
        | (True, d) \<Rightarrow> let (ok, files) = mv_file os tmp fn ((ld_files st)(tmp := Some (content @ ld_checksum st)));
              st = set_files files (st\<lparr>ld_data := d\<rparr>)
            in if ok then (Inr (), st\<lparr>ld_main := HY_WRITTEN\<rparr>) else (Inl FileInvalid, set_files (unlink_file tmp files) st))"
        using opened Some tmp
        by (simp add: write_main_def tmp_of_def reread_def set_files_def unlink_file_def Let_def split: bool.split prod.split)
      obtain b d where both: "reread = (b, d)" by (cases reread)
      show ?thesis
      proof (cases b)
        case False
        then show ?thesis using assms run both failed [OF tmp] by auto
      next
        case True
        then have reread: "reread = (True, d)" using both by simp
        have d: "d = ld_data st \<or> ls_add_solv ls [] (content @ ld_checksum st) (ls_new ls) = (True, d)"
          using reread by (auto simp: reread_def split: if_splits)
        show ?thesis
        proof (cases "os_rename os tmp fn")
          case False
          then show ?thesis
            using assms run reread failed [OF tmp] by (auto simp: mv_file_def unlink_file_def)
        next
          case True
          then show ?thesis
            using assms run reread d half [OF tmp _ Some] ok [OF tmp _ Some]
            by (cases "os_chmod os fn") (auto simp: mv_file_def unlink_file_def)
        qed
      qed
    qed
  qed
qed

section \<open>Reading through the cache\<close>

text \<open>What reading the metadata without any cache gives; \<open>primary\<close> is the file of packages that the metadata name.\<close>

definition fresh_data :: "'d libsolv \<Rightarrow> (string \<Rightarrow> string) \<Rightarrow> string \<Rightarrow> 'd option" where
  "fresh_data ls primary repomd = Option.bind (ls_add_repomd ls repomd (ls_new ls)) (ls_add_primary ls (primary repomd))"

text \<open>A cache is true for the metadata of a set when its data are those of the metadata whose checksum it carries.\<close>

definition true_cache :: "'d libsolv \<Rightarrow> (string \<Rightarrow> string) \<Rightarrow> string set \<Rightarrow> string option \<Rightarrow> bool" where
  "true_cache ls primary R cache \<longleftrightarrow>
     (\<forall>content d. \<forall>repomd \<in> R. cache = Some content \<longrightarrow> checksum_read content = Some (ls_digest ls repomd) \<longrightarrow>
        ls_add_solv ls [] content (ls_new ls) = (True, d) \<longrightarrow> fresh_data ls primary repomd = Some d)"

text \<open>What is used of libsolv: it reads what it wrote, and checksums have their length and tell the metadata of a set apart.\<close>

definition reads_back :: "'d libsolv \<Rightarrow> bool" where
  "reads_back ls \<longleftrightarrow> (\<forall>d content cs. ls_write ls d = Some content \<longrightarrow> length cs = CHKSUM_BYTES \<longrightarrow>
     ls_add_solv ls [] (content @ cs) (ls_new ls) = (True, d))"

definition good_digest :: "'d libsolv \<Rightarrow> string set \<Rightarrow> bool" where
  "good_digest ls R \<longleftrightarrow> inj_on (ls_digest ls) R \<and> (\<forall>x \<in> R. length (ls_digest ls x) = CHKSUM_BYTES)"

lemma checksum_read_append [simp]: "length cs = CHKSUM_BYTES \<Longrightarrow> checksum_read (content @ cs) = Some cs"
  by (simp add: checksum_read_def)

lemma written_is_true:
  assumes "reads_back ls" "good_digest ls R" "repomd \<in> R" "ls_write ls d = Some content" "fresh_data ls primary repomd = Some d"
  shows "true_cache ls primary R (Some (content @ ls_digest ls repomd))"
  using assms by (auto simp: true_cache_def reads_back_def good_digest_def dest: inj_onD)

text \<open>
  A load: the metadata of that moment are on the disk, a repository is read, and its cache is written if it was not read
  from it; whether calls of the operating system succeed may differ from load to load.
\<close>

record load_event =
  le_os :: os_calls
  le_metadata :: string

definition put_metadata :: "(string \<Rightarrow> string) \<Rightarrow> string \<Rightarrow> 'd loading \<Rightarrow> 'd loading" where
  "put_metadata primary repomd st =
     set_files ((ld_files st)(ld_repomd st := Some repomd, ld_metadata st MD_TYPE_PRIMARY := Some (primary repomd))) st"

definition load_once :: "'d libsolv \<Rightarrow> (string \<Rightarrow> string) \<Rightarrow> string \<Rightarrow> load_event \<Rightarrow> 'd loading \<Rightarrow> (load_error + 'd) \<times> 'd loading" where
  "load_once ls primary fn x st =
     (case load_yum_repo (le_os x) ls fn (put_metadata primary (le_metadata x) st) of
        (Inl p, st) \<Rightarrow> (Inl p, st)
      | (Inr _, st) \<Rightarrow>
          (case (if ld_main st = HY_LOADED_FETCH then write_main (le_os x) ls fn True st else (Inr (), st)) of
             (Inl p, st) \<Rightarrow> (Inl p, st)
           | (Inr _, st) \<Rightarrow> (Inr (ld_data st), st)))"

fun load_all :: "'d libsolv \<Rightarrow> (string \<Rightarrow> string) \<Rightarrow> string \<Rightarrow> load_event list \<Rightarrow> 'd loading \<Rightarrow> (load_error + 'd) list" where
  "load_all ls primary fn [] st = []"
| "load_all ls primary fn (x # xs) st = (case load_once ls primary fn x st of (r, st) \<Rightarrow> r # load_all ls primary fn xs st)"

text \<open>Names of files that are not mixed up: the cache, the metadata and temporary files.\<close>

definition names_apart :: "string \<Rightarrow> 'd loading \<Rightarrow> load_event \<Rightarrow> bool" where
  "names_apart fn st x \<longleftrightarrow> fn \<noteq> ld_repomd st \<and> fn \<noteq> ld_metadata st MD_TYPE_PRIMARY \<and>
     ld_repomd st \<noteq> ld_metadata st MD_TYPE_PRIMARY \<and> tmp_of (le_os x) fn \<noteq> Some fn"

lemma write_main_names:
  "write_main os ls fn b st = (r, st') \<Longrightarrow> ld_repomd st' = ld_repomd st \<and> ld_metadata st' = ld_metadata st"
  by (auto simp: write_main_def Let_def set_files_def split: option.splits if_splits prod.splits bool.splits)

lemma load_yum_repo_frame:
  assumes "load_yum_repo os ls fn st = (r, st')"
  shows "ld_files st' = ld_files st" "ld_repomd st' = ld_repomd st" "ld_metadata st' = ld_metadata st"
  using assms by (auto simp: load_yum_repo_def Let_def split: option.splits if_splits prod.splits bool.splits)

lemma load_yum_repo_result:
  assumes "load_yum_repo os ls fn st = (Inr (), st')" "true_cache ls primary R (ld_files st fn)" "repomd \<in> R"
    and "ld_files st (ld_repomd st) = Some repomd" "ld_files st (ld_metadata st MD_TYPE_PRIMARY) = Some (primary repomd)"
  shows "fresh_data ls primary repomd = Some (ld_data st') \<and> ld_checksum st' = ls_digest ls repomd \<and>
    ld_main st' \<in> {HY_LOADED_CACHE, HY_LOADED_FETCH}"
  using assms
  by (auto simp: load_yum_repo_def Let_def fopen_r_def can_use_cache_def true_cache_def fresh_data_def
    split: option.splits if_splits prod.splits bool.splits)

lemma put_metadata_simps [simp]:
  "ld_repomd (put_metadata primary x st) = ld_repomd st" "ld_metadata (put_metadata primary x st) = ld_metadata st"
  by (simp_all add: put_metadata_def set_files_def)

lemma load_once_step:
  assumes "reads_back ls" "good_digest ls R" "le_metadata x \<in> R" "names_apart fn st x" "true_cache ls primary R (ld_files st fn)"
    and "load_once ls primary fn x st = (r, st')"
  shows "true_cache ls primary R (ld_files st' fn) \<and> ld_repomd st' = ld_repomd st \<and> ld_metadata st' = ld_metadata st \<and>
    (\<forall>d. r = Inr d \<longrightarrow> fresh_data ls primary (le_metadata x) = Some d)"
proof -
  let ?st = "put_metadata primary (le_metadata x) st"
  have files: "ld_files ?st fn = ld_files st fn" "ld_files ?st (ld_repomd ?st) = Some (le_metadata x)"
      "ld_files ?st (ld_metadata ?st MD_TYPE_PRIMARY) = Some (primary (le_metadata x))"
    using assms(4) by (simp_all add: put_metadata_def names_apart_def set_files_def)
  obtain r1 st1 where yum: "load_yum_repo (le_os x) ls fn ?st = (r1, st1)" by (cases "load_yum_repo (le_os x) ls fn ?st") auto
  note frame = load_yum_repo_frame [OF yum]
  show ?thesis
  proof (cases r1)
    case (Inl p)
    then show ?thesis using assms(5,6) yum frame files(1) by (auto simp: load_once_def)
  next
    case (Inr u)
    then have ok: "load_yum_repo (le_os x) ls fn ?st = (Inr (), st1)" using yum by simp
    note result = load_yum_repo_result [OF ok assms(5) [folded files(1)] assms(3) files(2,3)]
    show ?thesis
    proof (cases "ld_main st1 = HY_LOADED_FETCH")
      case False
      then show ?thesis using assms(5,6) ok frame files(1) result by (auto simp: load_once_def)
    next
      case True
      obtain r2 st2 where w: "write_main (le_os x) ls fn True st1 = (r2, st2)" by (cases "write_main (le_os x) ls fn True st1") auto
      have out: "st' = st2" "r = (case r2 of Inl p \<Rightarrow> Inl p | Inr _ \<Rightarrow> Inr (ld_data st2))"
        using assms(6) ok True w by (auto simp: load_once_def split: sum.splits)
      have cache: "\<And>content. ls_write ls (ld_data st1) = Some content \<Longrightarrow> true_cache ls primary R (Some (content @ ld_checksum st1))"
        using written_is_true [OF assms(1,2,3)] result by simp
      have same: "\<And>content d. ls_write ls (ld_data st1) = Some content \<Longrightarrow>
          ls_add_solv ls [] (content @ ld_checksum st1) (ls_new ls) = (True, d) \<Longrightarrow> d = ld_data st1"
        using assms(1-3) result by (simp add: reads_back_def good_digest_def)
      from w have "true_cache ls primary R (ld_files st2 fn) \<and> (\<forall>d. r = Inr d \<longrightarrow> fresh_data ls primary (le_metadata x) = Some d)"
      proof (cases rule: write_main_cases)
        case (ok tmp content)
        then have "ld_data st2 = ld_data st1" using same by blast
        then show ?thesis using ok cache out(2) result by simp
      next
        case (half tmp content)
        then show ?thesis using assms(4) cache out(2) by (auto simp: names_apart_def)
      next
        case (failed tmp)
        then show ?thesis using assms(4,5) out(2) frame files(1) by (auto simp: names_apart_def)
      next
        case no_temp
        then show ?thesis using assms(5) out(2) frame files(1) by auto
      qed
      then show ?thesis using out(1) write_main_names [OF w] frame by auto
    qed
  qed
qed

lemma load_all_fresh:
  assumes "reads_back ls" "good_digest ls R" "\<forall>x \<in> set xs. le_metadata x \<in> R \<and> names_apart fn st x" "true_cache ls primary R (ld_files st fn)"
  shows "list_all2 (\<lambda>x r. \<forall>d. r = Inr d \<longrightarrow> fresh_data ls primary (le_metadata x) = Some d) xs (load_all ls primary fn xs st)"
  using assms(3,4)
proof (induction xs arbitrary: st)
  case (Cons x xs)
  obtain r st' where run: "load_once ls primary fn x st = (r, st')" by (cases "load_once ls primary fn x st") auto
  note step = load_once_step [OF assms(1,2) _ _ Cons.prems(2) run]
  have "\<forall>y \<in> set xs. le_metadata y \<in> R \<and> names_apart fn st' y"
    using Cons.prems(1) step by (auto simp: names_apart_def)
  then show ?case using Cons step run by auto
qed simp

section \<open>What loading does to the sack\<close>

text \<open>Loading leaves the sack alone, or it is one of the operations of its histories: a load that fails after the repository was
  attached does not mark the map of considered packages.\<close>

lemma attach_data_attaches: "\<exists>pool i x. attach_data to_pool st s = sack_attach_repo pool i x s"
  unfolding attach_data_def by (auto split: prod.split)

lemma load_repo_is_history:
  assumes "load_repo os ls to_pool flags t = (r, t')"
  shows "tg_sack t' = tg_sack t \<and> r \<noteq> Inr () \<or>
     (\<exists>pool i x. run_op ((if r = Inr () then LoadRepo else LoadFails) pool i x) (tg_sack t) = Inr (tg_sack t'))"
proof -
  have "tg_sack t' = tg_sack t \<and> r \<noteq> Inr () \<or>
      (\<exists>st. tg_sack t' = (if r = Inr () then stale else id) (attach_data to_pool st (tg_sack t)))"
    using assms by (fastforce simp: load_repo_def Let_def split: sum.splits prod.splits)
  then show ?thesis using attach_data_attaches [of to_pool _ "tg_sack t"] by (cases "r = Inr ()") (auto, metis+)
qed

lemma load_system_repo_is_history:
  assumes "load_system_repo os ls to_pool flags t = (r, t')"
  shows "tg_sack t' = tg_sack t \<and> r \<noteq> Inr () \<or>
     (\<exists>pool i x. run_op ((if r = Inr () then LoadSystemRepo else SystemLoadFails) pool i x) (tg_sack t) = Inr (tg_sack t'))"
proof -
  have attach: "\<exists>pool i x. (let s1 = attach_data to_pool st s in s1\<lparr>dk_installed := Some (fst (last (dk_repos s1)))\<rparr>) =
      sack_attach_system_repo pool i x s" for st s
    unfolding attach_data_def by (auto simp: Let_def sack_attach_system_repo_def sack_attach_repo_def split: prod.split)
  have "tg_sack t' = tg_sack t \<and> r \<noteq> Inr () \<or>
      (\<exists>st. tg_sack t' = (if r = Inr () then stale else id) (let s1 = attach_data to_pool st (tg_sack t)
         in s1\<lparr>dk_installed := Some (fst (last (dk_repos s1)))\<rparr>))"
    using assms by (fastforce simp: load_system_repo_def Let_def split: sum.splits prod.splits)
  then show ?thesis using attach [of _ "tg_sack t"] by (cases "r = Inr ()") (auto, metis+)
qed

section \<open>A small libsolv\<close>

text \<open>Data are texts, written as they are; a cache is read without its checksum.\<close>

definition text_libsolv :: "string libsolv" where
  "text_libsolv = \<lparr>ls_new = [], ls_add_solv = (\<lambda>fs content d. (True, d @ take (length content - CHKSUM_BYTES) content)),
     ls_add_repomd = (\<lambda>x d. Some (d @ x)), ls_add_primary = (\<lambda>x d. Some (d @ x)),
     ls_add_ext = (\<lambda>k x d. if x = ''bad'' then (False, d @ ''b'') else (True, d @ x)),
     ls_add_rpmdb = (\<lambda>cache d. Some (d @ ''rpms'')), ls_write = Some, ls_write_ext = (\<lambda>k d. Some d), ls_one_piece = (\<lambda>d. True),
     ls_digest = (\<lambda>x. x @ replicate (CHKSUM_BYTES - length x) CHR ''0''), ls_rpmdb_stamp = Some (replicate CHKSUM_BYTES CHR ''1'')\<rparr>"

definition good_os :: os_calls where
  "good_os = \<lparr>os_mkstemp = (\<lambda>f. Some (f @ ''.tmp'')), os_fdopen = (\<lambda>f. True), os_fwrite = (\<lambda>f. True), os_fopen = (\<lambda>f. True),
     os_rename = (\<lambda>f g. True), os_chmod = (\<lambda>f. True)\<rparr>"

definition text_loading :: "string loading" where
  "text_loading = \<lparr>ld_files = Map.empty, ld_data = [], ld_id = ''base'', ld_repomd = ''repomd'',
     ld_metadata = (\<lambda>m. if m = MD_TYPE_PRIMARY then ''primary'' else ''filelists''), ld_checksum = replicate CHKSUM_BYTES CHR ''0'',
     ld_main = HY_NOT_LOADED, ld_ext = (\<lambda>k. HY_NOT_LOADED), ld_flags = 0\<rparr>"

lemma text_reads_back: "reads_back text_libsolv"
  by (simp add: reads_back_def text_libsolv_def)

lemma text_good_digest: "good_digest text_libsolv {''a'', ''b''}"
  by (simp add: good_digest_def text_libsolv_def inj_on_def CHKSUM_BYTES_def numeral_eq_Suc)

lemma names_apart_text: "names_apart ''base.solv'' text_loading \<lparr>le_os = good_os\<lparr>os_rename := b\<rparr>, le_metadata = m\<rparr>"
  by (simp add: names_apart_def text_loading_def tmp_of_def good_os_def)

section \<open>Properties\<close>

text \<open>C15. The main cache of a repository, that of its packages, is transparent. Over any sequence of loads, with other
  metadata each time and with calls of the operating system that fail anywhere, a load that succeeds gives the data that
  reading the metadata of that moment without any cache gives, provided that libsolv reads back what it wrote, that no two
  of the metadata have the same checksum, that the names of the cache, of the files of the metadata and of the temporary
  file are different, and that at the start there is no cache or one that was made from the metadata whose checksum it
  carries. The caches of the extensions and that of the installed packages are not meant.\<close>

theorem caches_are_transparent:
  assumes "reads_back ls" "good_digest ls (le_metadata ` set xs)" "\<forall>x \<in> set xs. names_apart fn st x"
    and "true_cache ls primary (le_metadata ` set xs) (ld_files st fn)"
  shows "list_all2 (\<lambda>x r. \<forall>d. r = Inr d \<longrightarrow> fresh_data ls primary (le_metadata x) = Some d) xs (load_all ls primary fn xs st)"
  using load_all_fresh [OF assms(1,2), of xs fn st primary] assms(3,4) by simp

lemma caches_are_transparent_witness:
  "list_all2 (\<lambda>x r. \<forall>d. r = Inr d \<longrightarrow> fresh_data text_libsolv (\<lambda>m. CHR ''p'' # m) (le_metadata x) = Some d)
     [\<lparr>le_os = good_os, le_metadata = ''a''\<rparr>, \<lparr>le_os = good_os\<lparr>os_rename := (\<lambda>f g. False)\<rparr>, le_metadata = ''b''\<rparr>, \<lparr>le_os = good_os, le_metadata = ''a''\<rparr>]
     (load_all text_libsolv (\<lambda>m. CHR ''p'' # m) ''base.solv''
       [\<lparr>le_os = good_os, le_metadata = ''a''\<rparr>, \<lparr>le_os = good_os\<lparr>os_rename := (\<lambda>f g. False)\<rparr>, le_metadata = ''b''\<rparr>, \<lparr>le_os = good_os, le_metadata = ''a''\<rparr>]
       text_loading)"
proof (rule caches_are_transparent [OF text_reads_back])
  show "good_digest text_libsolv (le_metadata ` set [\<lparr>le_os = good_os, le_metadata = ''a''\<rparr>,
      \<lparr>le_os = good_os\<lparr>os_rename := (\<lambda>f g. False)\<rparr>, le_metadata = ''b''\<rparr>, \<lparr>le_os = good_os, le_metadata = ''a''\<rparr>])"
    using text_good_digest by (simp add: insert_commute)
qed (simp_all add: names_apart_def text_loading_def tmp_of_def good_os_def true_cache_def)

text \<open>C34. Writing the main cache is all or nothing: when it fails, no temporary file is left and every other file is as it
  was, the cache included, provided that the permissions of a renamed file can be set.\<close>

theorem failed_write_keeps_the_cache:
  assumes "write_main os ls fn switch st = (Inl x, st')" "os_chmod os fn"
  shows "ld_files st' = (case tmp_of os fn of None \<Rightarrow> ld_files st | Some tmp \<Rightarrow> (ld_files st)(tmp := None))"
  using assms(1) by (cases rule: write_main_cases) (use assms(2) in simp_all)

lemma failed_write_keeps_the_cache_witness:
  "ld_files (snd (write_main (good_os\<lparr>os_rename := (\<lambda>f g. False)\<rparr>) text_libsolv ''base.solv'' True
     (text_loading\<lparr>ld_files := [''base.solv'' \<mapsto> ''old'']\<rparr>))) = [''base.solv'' \<mapsto> ''old'']"
proof -
  obtain st' where run: "write_main (good_os\<lparr>os_rename := (\<lambda>f g. False)\<rparr>) text_libsolv ''base.solv'' True
      (text_loading\<lparr>ld_files := [''base.solv'' \<mapsto> ''old'']\<rparr>) = (Inl FileInvalid, st')"
    by (simp add: write_main_def good_os_def text_libsolv_def mv_file_def Let_def)
  have "os_chmod (good_os\<lparr>os_rename := (\<lambda>f g. False)\<rparr>) ''base.solv''" by (simp add: good_os_def)
  from failed_write_keeps_the_cache [OF run this] show ?thesis
    unfolding run by (auto simp: tmp_of_def good_os_def fun_eq_iff)
qed

text \<open>C38. Without a cache the checksum of the database of installed packages is not computed, but the cache is written with the
  checksum that happens to be there. The cache that the first load writes is therefore not used by the next one, although
  nothing has changed.\<close>

theorem first_system_cache_is_not_used:
  assumes "ld_files st fn = None" "read_system os ls fn st = (Inr (), st1)" "write_main os ls fn True st1 = (Inr (), st2)"
    and "length (ld_checksum st) = CHKSUM_BYTES" "ls_rpmdb_stamp ls = Some cs" "cs \<noteq> ld_checksum st"
    and "ld_files st' fn = ld_files st2 fn" "read_system os' ls fn st' = (Inr (), st'')"
  shows "ld_main st'' = HY_LOADED_FETCH"
proof -
  have "fopen_r os (ld_files st) fn = None" using assms(1) by (simp add: fopen_r_def)
  then have sum: "ld_checksum st1 = ld_checksum st"
    using assms(2) by (auto simp: read_system_def Let_def split: option.splits)
  obtain content where "ld_files st2 fn = Some (content @ ld_checksum st)"
    using assms(3) by (cases rule: write_main_cases) (simp_all add: sum)
  then have "\<not> can_use_cache (fopen_r os' (ld_files st') fn) cs"
    using assms(4,6,7) by (simp add: can_use_cache_def fopen_r_def)
  then show ?thesis
    using assms(5,8) by (auto simp: read_system_def Let_def split: option.splits if_splits)
qed

lemma first_system_cache_is_not_used_witness:
  "let st2 = snd (write_main good_os text_libsolv ''s.solv'' True (snd (read_system good_os text_libsolv ''s.solv'' text_loading)))
   in ld_main (snd (read_system good_os text_libsolv ''s.solv'' (text_loading\<lparr>ld_files := ld_files st2\<rparr>))) = HY_LOADED_FETCH"
proof -
  obtain st1 where r1: "read_system good_os text_libsolv ''s.solv'' text_loading = (Inr (), st1)"
    by (simp add: read_system_def text_libsolv_def text_loading_def can_use_cache_def fopen_r_def Let_def)
  obtain st2 where r2: "write_main good_os text_libsolv ''s.solv'' True st1 = (Inr (), st2)"
    by (simp add: write_main_def good_os_def text_libsolv_def mv_file_def Let_def)
  obtain r st3 where r3: "read_system good_os text_libsolv ''s.solv'' (text_loading\<lparr>ld_files := ld_files st2\<rparr>) = (r, st3)"
    by (cases "read_system good_os text_libsolv ''s.solv'' (text_loading\<lparr>ld_files := ld_files st2\<rparr>)") auto
  have "r = Inr ()" using r3 by (auto simp: read_system_def text_libsolv_def Let_def split: if_splits)
  then show ?thesis
    using first_system_cache_is_not_used [OF _ r1 r2, where cs = "replicate CHKSUM_BYTES CHR ''1''" and os' = good_os
      and st' = "text_loading\<lparr>ld_files := ld_files st2\<rparr>" and st'' = st3] r1 r2 r3
    by (simp add: text_libsolv_def text_loading_def CHKSUM_BYTES_def numeral_eq_Suc)
qed

text \<open>C39. Extensions of a repository whose files can be opened but are rejected by the readers of libsolv are no error: when
  all extensions that are asked for are such, and have no cache, loading succeeds; no extension is recorded as loaded,
  nothing is written, and the repository is as it was but for the data that the failing readers left in it.\<close>

theorem broken_extensions_are_not_reported:
  assumes "\<forall>(f, k, suffix, md) \<in> set ext_order. flag_set flags f \<longrightarrow> ld_ext st k \<noteq> HY_LOADED_FETCH \<and> ld_metadata st md \<noteq> [] \<and>
      \<not> can_use_cache (fopen_r os (ld_files st) (cache_fn suffix)) (ld_checksum st) \<and>
      (\<exists>content. fopen_r os (ld_files st) (ld_metadata st md) = Some content \<and> (\<forall>d. \<not> fst (ls_add_ext ls k content d)))"
  shows "\<exists>d. load_kinds os ls cache_fn flags ext_order st = (Inr (), st\<lparr>ld_data := d\<rparr>)"
proof -
  have "\<exists>d. load_kinds os ls cache_fn flags ks (st\<lparr>ld_data := d0\<rparr>) = (Inr (), st\<lparr>ld_data := d\<rparr>)" if "set ks \<subseteq> set ext_order" for ks d0
    using that
  proof (induction ks arbitrary: d0)
    case (Cons x ks)
    obtain f k suffix md where x: "x = (f, k, suffix, md)" by (cases x)
    note rest = Cons.IH [OF order_trans [OF set_subset_Cons Cons.prems]]
    show ?case
    proof (cases "flag_set flags f")
      case True
      then obtain content where c: "fopen_r os (ld_files st) (ld_metadata st md) = Some content" "\<not> fst (ls_add_ext ls k content d0)"
          "ld_ext st k \<noteq> HY_LOADED_FETCH" "ld_metadata st md \<noteq> []"
          "\<not> can_use_cache (fopen_r os (ld_files st) (cache_fn suffix)) (ld_checksum st)"
        using assms Cons.prems x by auto
      then obtain d1 where "ls_add_ext ls k content d0 = (False, d1)" by (cases "ls_add_ext ls k content d0") auto
      then have "load_kind os ls cache_fn b k suffix md (st\<lparr>ld_data := d0\<rparr>) = (Inr (), st\<lparr>ld_data := d1\<rparr>)" for b
        using c by (simp add: load_kind_def load_ext_def Let_def)
      then show ?thesis using rest [of d1] True x by simp
    qed (use rest [of d0] x in simp)
  qed auto
  then show ?thesis using subset_refl by (metis (full_types) loading.surjective loading.update_convs(2))
qed

lemma broken_extensions_are_not_reported_witness:
  "\<exists>d. load_kinds good_os text_libsolv (\<lambda>x. ''base'' @ x) 31 ext_order (text_loading\<lparr>ld_files := [''filelists'' \<mapsto> ''bad'']\<rparr>) =
   (Inr (), text_loading\<lparr>ld_files := [''filelists'' \<mapsto> ''bad''], ld_data := d\<rparr>)"
  by (rule broken_extensions_are_not_reported)
    (simp add: ext_order_def text_loading_def text_libsolv_def good_os_def fopen_r_def can_use_cache_def)

end
