(* ===== verification/Spec2Isabelle.thy ===== *)
theory Spec2Isabelle
  imports IniFacts ConfigRoundTrip OptionFacts ConfigFacts SolvMapFacts Loggers WeakPtrFacts SackFacts
    ArgumentFacts ProgressLocks MergedFacts MergedTransaction TextFacts ModuleChoice ModuleFailSafeFacts
    ModuleTreeFacts SolvNevraFacts Dnf4GoalProps Dnf4SackProps Dnf4SackLoadProps
begin

text \<open>
  A verification development of libdnf (branch dnf-5): the configuration layer, the containers and
  the service classes of the library under \<open>src/include/libdnf\<close> and \<open>src/libdnf\<close>, the argument
  parser of microdnf, and of the dnf 4 library under \<open>src/dnf-4/libdnf\<close> its locks, its progress
  states, the merging of its history, its modules, its queries, its goals and its
  sack with the caches of repositories.

  The program. A client reads configuration files (\<open>IniParser\<close>, \<open>ConfigParser\<close>) whose values it
  sets, through a registry of named options (\<open>OptionBinds\<close>), into the typed options of
  \<open>ConfigMain\<close> and \<open>ConfigRepo\<close>; every option keeps the value of the highest priority. The objects
  of a session (repositories, packages) live in sacks that hand out weak pointers and answer
  queries; sets of packages are bit maps of libsolv, filtered by the names, versions, data and
  dependencies of the packages; messages go through a router of loggers. In the
  dnf 4 library a task reports its progress through a chain of states, each a child of the one
  before, which take and release the locks of a registry shared by the process; the
  transactions of the history are merged to their net change; and the container of modules keeps
  the state of every module beside its configuration file, chooses the packages of modules that the
  solver may use, and keeps copies of the metadata of enabled streams.

  Which theory models what:
   - \<open>Prelude\<close>, \<open>CppString\<close>: results that can throw, lists, \<open>std::string\<close> operations.
   - \<open>OrderedMap\<close>: \<open>PreserveOrderMap\<close> (utils/preserve_order_map.hpp).
   - \<open>IniParser\<close>, \<open>IniFacts\<close>: utils/iniparser.hpp and .cpp, the line reader and \<open>next()\<close>.
   - \<open>ConfigSubst\<close>, \<open>ConfigParser\<close>, \<open>ConfigRoundTrip\<close>: conf/config_parser.hpp and .cpp.
   - \<open>OptionCore\<close>, \<open>OptionScalar\<close>, \<open>OptionText\<close>, \<open>FloatingPoint\<close>, \<open>OptionSeconds\<close>, \<open>OptionChild\<close>,
     \<open>OptionBinds\<close>, \<open>OptionFacts\<close>: conf/option*.hpp and .cpp, conf/config_utils.hpp.
   - \<open>ConfigObjects\<close>, \<open>ConfigMain\<close>, \<open>ConfigRepo\<close>, \<open>ConfigFacts\<close>: conf/config_main.cpp and
     rpm/config_repo.cpp, with all options, defaults, bindings and accessors.
   - \<open>SolvMap\<close>, \<open>SolvMapFacts\<close>: rpm/solv/solv_map.hpp and map_iterator.hpp.
   - \<open>RegexRuns\<close>: the regular expressions used for names, \<open>Nevra\<close>: rpm/nevra.hpp and .cpp, \<open>SpecTexts\<close>:
     rpm/solv/reldep_parser.cpp and dnf-4/libdnf/nsvcap.cpp.
   - \<open>SolvPool\<close>: what rpm/solv/package_private.hpp, rpm/solv_sack_impl.hpp, rpm/reldep.cpp and
     rpm/reldep_list.cpp read from libsolv's pool. \<open>SolvQuery\<close>, \<open>SolvFilters\<close>, \<open>SolvNevra\<close>: rpm/solv_query.cpp,
     with \<open>SolvQueryFacts\<close> (filters by name), \<open>SolvResolveFacts\<close> (package specifications) and
     \<open>SolvNevraFacts\<close> (full names).
   - \<open>Dnf4Query\<close>, \<open>Dnf4QueryRun\<close>: the queries of dnf 4 (dnf-4/libdnf/sack/query.cpp, with the upgrades of
     hy-iutil.cpp and the advisories of sack/advisory.cpp), over the same pool; \<open>Dnf4QueryFacts\<close> has the single
     filters, \<open>Dnf4QueryRunFacts\<close> whole queries.
   - \<open>Dnf4Goal\<close>, \<open>Dnf4GoalRun\<close>, \<open>Dnf4GoalProblems\<close>: the goals of dnf 4 (dnf-4/libdnf/goal/Goal.cpp,
     sack/selector.cpp, dnf-goal.cpp): requests, runs of the solver, descriptions of problems; \<open>Dnf4GoalFacts\<close> has
     their lemmas, \<open>Dnf4GoalProps\<close> reachable goals and the properties.
   - \<open>Dnf4Sack\<close>, \<open>Dnf4SackFilter\<close>, \<open>Dnf4SackLoad\<close>: the sack of dnf 4 (dnf-4/libdnf/dnf-sack.cpp, with the
     checksums of hy-iutil.cpp): the packages that queries and the solver may consider, excludes of the configuration
     and of modules, and repositories read through their caches. \<open>Dnf4SackFacts\<close> has histories of operations against a
     view without maps, \<open>Dnf4SackProps\<close> (excludes, modules) and \<open>Dnf4SackLoadProps\<close> the properties.
   - \<open>CppSet\<close>: utils/set.hpp.  \<open>Sack\<close>, \<open>SackFacts\<close>: common/sack.
   - \<open>WeakPtr\<close>, \<open>WeakPtrFacts\<close>: utils/weak_ptr.hpp.
   - \<open>Loggers\<close>: logger.
   - \<open>ArgumentParser\<close>, \<open>ArgumentFacts\<close>: the command line parser of microdnf
     (microdnf/argument_parser.hpp and .cpp), whose values are options of the library.
   - \<open>Locks\<close>, \<open>LockFacts\<close>: dnf-4/libdnf/dnf-lock.cpp, the registry and its lock files.
   - \<open>ProgressState\<close>: dnf-4/libdnf/dnf-state.cpp, over the locks (the rounding is bounded in \<open>FloatingPoint\<close>),
     \<open>ProgressFacts\<close> the single operations, \<open>ProgressRuns\<close> runs of them, \<open>ProgressLocks\<close> runs with
     the locks they take.
   - \<open>MergedTransaction\<close>, \<open>MergedFacts\<close>: dnf-4/libdnf/transaction/MergedTransaction.cpp and what it
     uses of RPMItem.cpp, TransactionItem.cpp and Transaction.cpp, with
     TransactionItemReason.hpp and the reason of a package in RPMItem.cpp.
   - \<open>TextFiles\<close>, \<open>TextFacts\<close>: libdnf/utils/string.hpp, and the strings and files of
     dnf-4/libdnf/utils/utils.cpp and libdnf/utils/utils.cpp.
   - \<open>StateError\<close>: operations on a state that throw, for the modules. \<open>ModuleStates\<close>, \<open>ModuleParser\<close>,
     \<open>ModuleFacts\<close>: the class \<open>ModulePersistor\<close> of dnf-4/libdnf/module/ModulePackageContainer.cpp;
     \<open>ModulePackages\<close>: ModulePackage.cpp; \<open>ModuleContainer\<close>, \<open>ModuleChoice\<close>:
     the class \<open>ModulePackageContainer\<close>; \<open>ModuleLatest\<close>, \<open>ModuleLatestFacts\<close>: its latest packages and
     queries; \<open>ModuleFailSafe\<close>, \<open>ModuleFailSafeFacts\<close>, \<open>ModuleTreeFacts\<close>: its copies of metadata and
     \<open>enableDependencyTree\<close>.

  How the model reads. A class is a \<open>record\<close> or a list, an enum a \<open>datatype\<close>, a method a function
  from the object to the changed object; a method that can throw returns \<open>error + result\<close>. Objects
  that point to each other (weak pointers and guards) live in an explicit store. Integers of the
  options are \<open>int\<close> with the range checks and the wrap-around of \<open>size_t\<close> written out, bytes of a
  map and comparison flags are words, floating point is computed exactly and rounded to the 53 or
  24 bits of the C++ type.

  What is proved. Read and write are inverse on the text of a configuration, editing a
  configuration is editing a map of maps, and the invariant of the raw texts holds in every
  reachable configuration. The substitution of variables is a one-pass expansion. The tokens of
  the parser are the text, and error lines are lines of the text. Options keep the last value of
  the highest priority, stay in bounds, and numbers and lists survive printing. The main
  configuration binds every option once and setting one changes no other. Operations on weak
  pointers are memory safe in every reachable state but for exactly two, the move assignment of a guard and the
  assignment of an owner to itself, which are undefined. Bit maps, sets, sacks and queries refine sets; the iterator ends and is sorted. The
  memory logger keeps the newest messages, and the hand-over to a stream loses none of them.
  A lock excludes other threads in every reachable state of the registry. Percentages of progress
  states stay in bounds, never go back and, for a state of its own, reach exactly 100 with the last step, whatever the
  number of steps; complete states hold no locks when lock files can be deleted. Merged transactions stay in order, and the
  items of a package become its net change. Every sequence of operations on modules can be rolled back, a
  stream is switched once in a session, a save writes the files of the states that changed, and the packages
  chosen, the latest packages, the copies that stay and the packages enabled as dependencies are
  exactly those that their definitions by sets give. A text is read as a package name or a module
  specification exactly when it was written from one; the filters of the solver's queries by binary search
  agree with the plain test of every package, and a package specification means the first form that some
  package fits. The filters of dnf 4 for the latest packages, upgrades, extras, duplicates and advisories, loops
  over sorted arrays, select what a test of each package selects. A goal that runs without
  problems removes no protected package, and asks the solver to let only unprotected ones go. A query of the dnf 4 sack sees what the
  excludes and includes of the moment allow, whatever came before, but for the repositories of failed loads; modules hide only available packages that no active
  module includes; and a repository read through its main cache is the one that its metadata describe. Theorems that show a fault of the code say so in their text.

  Interfaces. \<open>ordered_map\<close>, \<open>typed_option\<close>, \<open>parsed_option\<close>, \<open>set_interface\<close>, \<open>lock_service\<close>,
  \<open>releasing_service\<close>, \<open>simulation\<close> (operations of an object and of its view) and \<open>config_file\<close> are locales; each
  is interpreted on the model of the class that provides it. \<open>config_file\<close> is what the modules need
  of a parser: the code uses the \<open>ConfigParser\<close> of dnf 4, a copy of the one modelled here.

  Fuel and termination. The loops are structural or have a measure (the queue of \<open>limit_queue\<close> shrinks); \<open>it_walk\<close> has fuel, and as
  many steps as the map has bits are enough. \<open>enable_pass\<close> and \<open>enable_closure\<close> have one step more than
  there are active packages and result in \<open>None\<close> when they run out of it; that they never do is part of
  \<open>dependency_tree_is_enabled\<close>.

  Not modelled. What only calls libraries that are not part of the sources (libsolv, librepo,
  librpm, GPGME, SQLite, GLib, libmodulemd): downloads, the loading of the solver's sacks of libdnf 5, the
  transactions, the rest of the dnf-4 library, and the bindings. libsolv's functions on a map, \<open>fnmatch\<close>,
  regular expressions, \<open>stat\<close>, \<open>glob\<close>, \<open>std::sort\<close>, the comparison of versions, the solver's answers for
  modules, the reader of libmodulemd, what libsolv reads and writes and the file system are arguments; so are the functions of
  dnf 4 that the sources declare but do not define (\<open>filterSubject\<close>, \<open>Nevra::parse\<close>, filters by name); the pool of libsolv is the record
  \<open>pool\<close>, with the contract \<open>pool_ok\<close> on its strings.
\<close>

end
